(* ===== verification/Prelude.thy ===== *)
theory Prelude
  imports Main "HOL-Library.AList" "HOL-Library.Char_ord" "HOL-Library.List_Lexorder"
begin

text \<open>
  Shared vocabulary of the development: Go maps as association lists, Go times, 64-bit
  integers, the ordering keys the listings sort by, and the interfaces (locales) several
  components share. Nothing in this theory is specific to one component.
\<close>

named_theorems keyed \<open>rewriting lookups in keyed tables\<close>
named_theorems stdlib \<open>rewriting calls of the Go standard library\<close>

section \<open>Scalars\<close>

text \<open>
  A \<open>time.Time\<close> is the number of nanoseconds since 0001-01-01T00:00:00Z, so that the zero
  value, which \<open>IsZero\<close> recognises, is \<open>0\<close>. Locations do not matter to the store: it
  compares instants and normalises with \<open>UTC()\<close>.
\<close>

type_synonym time = int

abbreviation IsZero :: "time \<Rightarrow> bool" where
  "IsZero t \<equiv> t = 0"

abbreviation Microsecond :: int where "Microsecond \<equiv> 1000"
abbreviation Second :: int where "Second \<equiv> 1000000000"

text \<open>\<open>Time.Truncate\<close> rounds down to a multiple of the duration since the zero time.\<close>

definition truncate_time :: "time \<Rightarrow> int \<Rightarrow> time" where
  "truncate_time t d = (if d \<le> 0 then t else t - t mod d)"

lemma truncate_time_le: "truncate_time t d \<le> t"
  by (simp add: truncate_time_def)

lemma truncate_time_gt: "0 < d \<Longrightarrow> t < truncate_time t d + d"
  by (simp add: truncate_time_def)

text \<open>\<open>Time.Sub\<close> saturates at the bounds of a 64-bit duration.\<close>

definition Sub :: "time \<Rightarrow> time \<Rightarrow> int" where
  "Sub t u = max (- (2 ^ 63)) (min (2 ^ 63 - 1) (t - u))"

lemma Sub_ge: "d \<le> 2 ^ 63 - 1 \<Longrightarrow> - (2 ^ 63) < d \<Longrightarrow> d \<le> Sub t u \<longleftrightarrow> d \<le> t - u"
  by (auto simp: Sub_def)

text \<open>Two's complement wrap-around of Go's \<open>int64\<close> arithmetic.\<close>

definition i64 :: "int \<Rightarrow> int" where
  "i64 x = (x + 2 ^ 63) mod 2 ^ 64 - 2 ^ 63"

lemma i64_id: "- (2 ^ 63) \<le> x \<Longrightarrow> x < 2 ^ 63 \<Longrightarrow> i64 x = x"
  by (simp add: i64_def)

lemma i64_add_left: "i64 (i64 x + y) = i64 (x + y)"
proof -
  have "(((x + 2 ^ 63) mod 2 ^ 64 - 2 ^ 63) + y + 2 ^ 63) mod (2 ^ 64 :: int)
      = (x + y + 2 ^ 63) mod 2 ^ 64"
    by (simp add: mod_simps algebra_simps)
  then show ?thesis by (simp add: i64_def)
qed

section \<open>Go maps\<close>

text \<open>
  A Go map is an association list, the list order standing for the iteration order that Go
  leaves open. Reads see the first binding of a key; \<open>wf_map\<close> says there is only one.
\<close>

type_synonym 'v gomap = "(string \<times> 'v) list"

definition mget :: "'v gomap \<Rightarrow> string \<Rightarrow> 'v option" where
  "mget m k = map_of m k"

definition mput :: "string \<Rightarrow> 'v \<Rightarrow> 'v gomap \<Rightarrow> 'v gomap" where
  "mput k v m = AList.update k v m"

definition mdel :: "string \<Rightarrow> 'v gomap \<Rightarrow> 'v gomap" where
  "mdel k m = AList.delete k m"

definition mfilter :: "(string \<Rightarrow> 'v \<Rightarrow> bool) \<Rightarrow> 'v gomap \<Rightarrow> 'v gomap" where
  "mfilter P m = filter (\<lambda>(k, v). P k v) m"

text \<open>A \<open>range\<close> loop whose body rewrites or deletes the row it visits.\<close>

definition mapm :: "(string \<Rightarrow> 'v \<Rightarrow> 'v option) \<Rightarrow> 'v gomap \<Rightarrow> 'v gomap" where
  "mapm f m = List.map_filter (\<lambda>(k, v). map_option (Pair k) (f k v)) m"

definition mgetd :: "'v \<Rightarrow> 'v gomap \<Rightarrow> string \<Rightarrow> 'v" where
  "mgetd d m k = (case mget m k of None \<Rightarrow> d | Some v \<Rightarrow> v)"

definition wf_map :: "'v gomap \<Rightarrow> bool" where
  "wf_map m \<longleftrightarrow> distinct (map fst m)"

lemma mget_Nil [simp]: "mget [] k = None"
  by (simp add: mget_def)

lemma mget_put [keyed, simp]: "mget (mput k v m) k' = (if k' = k then Some v else mget m k')"
  by (simp add: mget_def mput_def update_conv')

lemma mget_del [keyed, simp]: "mget (mdel k m) k' = (if k' = k then None else mget m k')"
  by (simp add: mget_def mdel_def delete_conv')

lemma mget_filter_key [keyed]:
  "(\<And>v. P k v) \<Longrightarrow> mget (mfilter P m) k = mget m k"
  by (induction m) (auto simp: mget_def mfilter_def)

lemma mget_filter_drop [keyed]:
  "(\<And>v. \<not> P k v) \<Longrightarrow> mget (mfilter P m) k = None"
  by (induction m) (auto simp: mget_def mfilter_def)

lemma mget_filter:
  "wf_map m \<Longrightarrow> mget (mfilter P m) k =
     (case mget m k of None \<Rightarrow> None | Some v \<Rightarrow> if P k v then Some v else None)"
proof (induction m)
  case Nil
  then show ?case by (simp add: mget_def mfilter_def)
next
  case (Cons kv m)
  have none: "fst kv \<notin> fst ` set m" using Cons.prems by (simp add: wf_map_def)
  then have "map_of (filter (\<lambda>(k, v). P k v) m) (fst kv) = None"
    by (auto simp: map_of_eq_None_iff)
  with Cons show ?case
    by (auto simp: mget_def mfilter_def wf_map_def split: option.splits prod.splits)
qed

lemma mapm_Nil [simp]: "mapm f [] = []"
  by (simp add: mapm_def)

lemma mapm_Cons:
  "mapm f ((k, v) # m) = (case f k v of None \<Rightarrow> mapm f m | Some w \<Rightarrow> (k, w) # mapm f m)"
  by (simp add: mapm_def List.map_filter_def split: option.splits)

lemma set_mapm: "(k, w) \<in> set (mapm f m) \<longleftrightarrow> (\<exists>v. (k, v) \<in> set m \<and> f k v = Some w)"
  by (induction m) (auto simp: mapm_Cons split: option.splits)

lemma keys_mapm: "fst ` set (mapm f m) \<subseteq> fst ` set m"
proof
  fix k assume "k \<in> fst ` set (mapm f m)"
  then obtain w where "(k, w) \<in> set (mapm f m)" by auto
  then obtain v where "(k, v) \<in> set m" unfolding set_mapm by auto
  then show "k \<in> fst ` set m" by (rule image_eqI [rotated]) simp
qed

lemma wf_map_mapm [simp]: "wf_map m \<Longrightarrow> wf_map (mapm f m)"
proof (induction m)
  case Nil
  then show ?case by (simp add: wf_map_def)
next
  case (Cons kv m)
  obtain k v where kv: "kv = (k, v)" by (cases kv)
  have "k \<notin> fst ` set (mapm f m)" using Cons.prems keys_mapm [of f m] by (auto simp: wf_map_def kv)
  then show ?case using Cons by (simp add: kv mapm_Cons wf_map_def split: option.splits)
qed

lemma mget_mapm:
  "wf_map m \<Longrightarrow> mget (mapm f m) k = (case mget m k of None \<Rightarrow> None | Some v \<Rightarrow> f k v)"
proof (induction m)
  case Nil
  then show ?case by simp
next
  case (Cons kv m)
  obtain l v where kv: "kv = (l, v)" by (cases kv)
  have wf: "wf_map m" and l: "mget m l = None"
    using Cons.prems by (simp_all add: wf_map_def kv mget_def map_of_eq_None_iff)
  note IH = Cons.IH [OF wf]
  show ?case
  proof (cases "k = l")
    case True
    then show ?thesis using IH l by (cases "f l v") (simp_all add: kv mapm_Cons mget_def)
  next
    case False
    then show ?thesis using IH by (cases "f l v") (simp_all add: kv mapm_Cons mget_def)
  qed
qed

lemma mget_in_set: "mget m k = Some v \<Longrightarrow> (k, v) \<in> set m"
  by (simp add: mget_def map_of_SomeD)

lemma set_mget: "wf_map m \<Longrightarrow> (k, v) \<in> set m \<longleftrightarrow> mget m k = Some v"
  by (simp add: mget_def wf_map_def map_of_eq_Some_iff)

lemma set_mput: "kv \<in> set (mput k v m) \<Longrightarrow> kv = (k, v) \<or> kv \<in> set m"
  unfolding mput_def by (induction m) (auto split: if_splits)

lemma set_mdel: "set (mdel k m) \<subseteq> set m"
  by (auto simp: mdel_def AList.delete_eq)

lemma set_mfilter: "set (mfilter P m) = {(k, v) \<in> set m. P k v}"
  by (auto simp: mfilter_def)

lemma keys_mput [simp]: "fst ` set (mput k v m) = insert k (fst ` set m)"
  by (simp add: mput_def dom_update)

lemma keys_mdel [simp]: "fst ` set (mdel k m) = fst ` set m - {k}"
  by (auto simp: mdel_def AList.delete_eq image_iff)

lemma wf_map_Nil [simp]: "wf_map []"
  by (simp add: wf_map_def)

lemma wf_map_put [simp]: "wf_map m \<Longrightarrow> wf_map (mput k v m)"
  by (simp add: wf_map_def mput_def distinct_update)

lemma wf_map_del [simp]: "wf_map m \<Longrightarrow> wf_map (mdel k m)"
  by (simp add: wf_map_def mdel_def distinct_delete)

lemma wf_map_filter [simp]: "wf_map m \<Longrightarrow> wf_map (mfilter P m)"
  by (simp add: wf_map_def mfilter_def distinct_map_filter)

end
