(* ===== verification/GoStrings.thy ===== *)
theory GoStrings
  imports Prelude
begin

text \<open>
  The functions of Go's \<open>strings\<close> and \<open>unicode/utf8\<close> packages the source uses. A Go string is
  its sequence of bytes, a \<open>char list\<close>; white space is Unicode white space in its UTF-8
  encoding, as \<open>strings.TrimSpace\<close> and \<open>strings.Fields\<close> see it.
\<close>

section \<open>Prefixes and keys\<close>

definition hasPrefix :: "string \<Rightarrow> string \<Rightarrow> bool" where
  "hasPrefix s pre \<longleftrightarrow> length pre \<le> length s \<and> take (length pre) s = pre"

definition TrimPrefix :: "string \<Rightarrow> string \<Rightarrow> string" where
  "TrimPrefix s pre = (if hasPrefix s pre then drop (length pre) s else s)"

lemma hasPrefix_iff: "hasPrefix s pre \<longleftrightarrow> (\<exists>t. s = pre @ t)"
  by (auto simp: hasPrefix_def) (metis append_take_drop_id)

lemma hasPrefix_append [simp]: "hasPrefix (pre @ t) pre"
  by (simp add: hasPrefix_def)

lemma TrimPrefix_append [simp]: "TrimPrefix (pre @ t) pre = t"
  by (simp add: TrimPrefix_def)

text \<open>\<open>strings.Cut\<close> at a one-byte separator: before, after, found.\<close>

definition Cut :: "string \<Rightarrow> char \<Rightarrow> string \<times> string \<times> bool" where
  "Cut s c = (if c \<in> set s
     then (takeWhile (\<lambda>d. d \<noteq> c) s, tl (dropWhile (\<lambda>d. d \<noteq> c) s), True)
     else (s, [], False))"

lemma Cut_append [simp]:
  assumes "c \<notin> set a" shows "Cut (a @ c # b) c = (a, b, True)"
proof -
  have "takeWhile (\<lambda>d. d \<noteq> c) (a @ c # b) = a" "dropWhile (\<lambda>d. d \<noteq> c) (a @ c # b) = c # b"
    using assms by (induction a) auto
  then show ?thesis by (simp add: Cut_def)
qed

lemma CutD: "Cut s c = (a, b, True) \<Longrightarrow> s = a @ c # b \<and> c \<notin> set a"
proof -
  assume h: "Cut s c = (a, b, True)"
  then have "c \<in> set s" by (auto simp: Cut_def split: if_splits)
  then obtain x y where s: "s = x @ c # y" "c \<notin> set x" by (meson split_list_first)
  then show ?thesis using h by auto
qed

text \<open>Joining fields with a separator that does not occur in them is injective.\<close>

lemma sep_append_eq:
  "c \<notin> set a \<Longrightarrow> c \<notin> set b \<Longrightarrow> a @ c # x = b @ c # y \<longleftrightarrow> a = b \<and> x = y"
proof (induction a arbitrary: b)
  case Nil
  then show ?case by (cases b) auto
next
  case (Cons d a)
  then show ?case by (cases b) auto
qed

section \<open>White space\<close>

definition ascii_space :: "char \<Rightarrow> bool" where
  "ascii_space c \<longleftrightarrow> c \<in> {CHR 0x09, CHR 0x0A, CHR 0x0B, CHR 0x0C, CHR 0x0D, CHR 0x20}"

text \<open>U+0085 and U+00A0 take two bytes; U+1680, U+2000 to U+200A, U+2028, U+2029, U+202F,
  U+205F and U+3000 take three.\<close>

definition space2 :: "char \<Rightarrow> char \<Rightarrow> bool" where
  "space2 a b \<longleftrightarrow> a = CHR 0xC2 \<and> (b = CHR 0x85 \<or> b = CHR 0xA0)"

definition space3 :: "char \<Rightarrow> char \<Rightarrow> char \<Rightarrow> bool" where
  "space3 a b c \<longleftrightarrow>
     (a, b, c) = (CHR 0xE1, CHR 0x9A, CHR 0x80) \<or>
     (a = CHR 0xE2 \<and> b = CHR 0x80 \<and>
        (CHR 0x80 \<le> c \<and> c \<le> CHR 0x8A \<or> c \<in> {CHR 0xA8, CHR 0xA9, CHR 0xAF})) \<or>
     (a, b, c) = (CHR 0xE2, CHR 0x81, CHR 0x9F) \<or>
     (a, b, c) = (CHR 0xE3, CHR 0x80, CHR 0x80)"

fun trim_left :: "string \<Rightarrow> string" where
  "trim_left (a # b # c # s) =
     (if ascii_space a then trim_left (b # c # s)
      else if space2 a b then trim_left (c # s)
      else if space3 a b c then trim_left s else a # b # c # s)"
| "trim_left [a, b] =
     (if ascii_space a then trim_left [b] else if space2 a b then [] else [a, b])"
| "trim_left [a] = (if ascii_space a then [] else [a])"
| "trim_left [] = []"

text \<open>The same on the reversed string, for the right end.\<close>

fun trim_rev :: "string \<Rightarrow> string" where
  "trim_rev (c # b # a # s) =
     (if ascii_space c then trim_rev (b # a # s)
      else if space2 b c then trim_rev (a # s)
      else if space3 a b c then trim_rev s else c # b # a # s)"
| "trim_rev [b, a] =
     (if ascii_space b then trim_rev [a] else if space2 a b then [] else [b, a])"
| "trim_rev [a] = (if ascii_space a then [] else [a])"
| "trim_rev [] = []"

definition TrimSpace :: "string \<Rightarrow> string" where
  "TrimSpace s = rev (trim_rev (rev (trim_left s)))"

definition blank :: "string \<Rightarrow> bool" where
  "blank s \<longleftrightarrow> TrimSpace s = []"

lemma TrimSpace_Nil [simp]: "TrimSpace [] = []" "blank []"
  by (simp_all add: TrimSpace_def blank_def)

text \<open>Trimming twice is trimming once.\<close>

lemma length_trim_left: "length (trim_left s) \<le> length s"
  by (induction s rule: trim_left.induct) auto

lemma trim_left_idem [simp]: "trim_left (trim_left s) = trim_left s"
  by (induction s rule: trim_left.induct) auto

lemma trim_rev_idem [simp]: "trim_rev (trim_rev s) = trim_rev s"
  by (induction s rule: trim_rev.induct) auto

lemma trim_rev_suffix: "\<exists>p. s = p @ trim_rev s"
proof (induction s rule: trim_rev.induct)
  case (1 c b a s)
  show ?case
  proof (cases "ascii_space c")
    case True
    then obtain p where "b # a # s = p @ trim_rev (b # a # s)" using 1 by blast
    then show ?thesis using True by (intro exI [of _ "c # p"]) simp
  next
    case f1: False
    show ?thesis
    proof (cases "space2 b c")
      case True
      then obtain p where "a # s = p @ trim_rev (a # s)" using 1 f1 by blast
      then show ?thesis using True f1 by (intro exI [of _ "c # b # p"]) simp
    next
      case f2: False
      show ?thesis
      proof (cases "space3 a b c")
        case True
        then obtain p where "s = p @ trim_rev s" using 1 f1 f2 by blast
        then show ?thesis using True f1 f2 by (intro exI [of _ "c # b # a # p"]) simp
      qed (use f1 f2 in \<open>auto intro: exI [of _ "[]"]\<close>)
    qed
  qed
qed auto

lemma trim_left_prefix:
  assumes "trim_left (p @ q) = p @ q" shows "trim_left p = p"
  using assms
proof (cases p rule: trim_left.cases)
  case (1 a b c s)
  then show ?thesis using assms length_trim_left [of "b # c # s @ q"] length_trim_left [of "c # s @ q"] length_trim_left [of "s @ q"]
    by (auto split: if_splits dest: arg_cong [where f = length])
next
  case (2 a b)
  show ?thesis
  proof (cases q)
    case (Cons c q')
    then show ?thesis using assms 2 length_trim_left [of "b # c # q'"] length_trim_left [of "c # q'"] 
      by (auto split: if_splits dest: arg_cong [where f = length])
  qed (use assms 2 in simp)
next
  case (3 a)
  show ?thesis
  proof (cases q rule: trim_left.cases)
    case (1 b c d s)
    then show ?thesis using assms 3 length_trim_left [of q] by (auto split: if_splits dest: arg_cong [where f = length])
  next
    case (2 b c)
    then show ?thesis using assms 3 length_trim_left [of q] by (auto split: if_splits dest: arg_cong [where f = length])
  next
    case (3 b)
    then show ?thesis using assms \<open>p = [a]\<close> length_trim_left [of q] by (auto split: if_splits dest: arg_cong [where f = length])
  qed (use assms 3 in simp)
qed simp

lemma TrimSpace_idem [simp]: "TrimSpace (TrimSpace s) = TrimSpace s"
proof -
  let ?t = "trim_left s"
  obtain p where "rev ?t = p @ trim_rev (rev ?t)" using trim_rev_suffix by blast
  then have "?t = rev (trim_rev (rev ?t)) @ rev p" by (metis rev_append rev_rev_ident)
  moreover have "trim_left ?t = ?t" by simp
  ultimately have "trim_left (rev (trim_rev (rev ?t))) = rev (trim_rev (rev ?t))" by (metis trim_left_prefix)
  then show ?thesis by (simp add: TrimSpace_def)
qed

text \<open>A printable ASCII byte that is no space.\<close>

definition graphic :: "char \<Rightarrow> bool" where
  "graphic c \<longleftrightarrow> CHR 0x20 < c \<and> c < CHR 0x7F"

lemma graphic_no_space:
  assumes "graphic c"
  shows "\<not> ascii_space c" "\<not> space2 c d" "\<not> space2 d c" "\<not> space3 c d e" "\<not> space3 d e c"
  using assms by (auto simp: graphic_def ascii_space_def space2_def space3_def less_char_def
      less_eq_char_def)

lemma trim_left_graphic: "s = [] \<or> graphic (hd s) \<Longrightarrow> trim_left s = s"
  by (cases s rule: trim_left.cases) (auto simp: graphic_no_space)

lemma trim_rev_graphic: "s = [] \<or> graphic (hd s) \<Longrightarrow> trim_rev s = s"
  by (cases s rule: trim_rev.cases) (auto simp: graphic_no_space)

lemma TrimSpace_graphic [stdlib]:
  "s \<noteq> [] \<Longrightarrow> graphic (hd s) \<Longrightarrow> graphic (last s) \<Longrightarrow> TrimSpace s = s"
  by (simp add: TrimSpace_def trim_left_graphic trim_rev_graphic hd_rev)

lemma not_blank_graphic [stdlib]:
  "s \<noteq> [] \<Longrightarrow> graphic (hd s) \<Longrightarrow> graphic (last s) \<Longrightarrow> \<not> blank s"
  by (simp add: blank_def TrimSpace_graphic)

section \<open>UTF-8\<close>

definition cont :: "char \<Rightarrow> bool" where
  "cont c \<longleftrightarrow> CHR 0x80 \<le> c \<and> c \<le> CHR 0xBF"

text \<open>
  How many continuation bytes follow the first byte \<open>c\<close> of a well-formed encoding at the head
  of \<open>c # s\<close>; \<open>None\<close> when the bytes there are not well formed.
\<close>

definition rune_tail :: "char \<Rightarrow> string \<Rightarrow> nat option" where
  "rune_tail c s =
     (if c < CHR 0x80 then Some 0
      else if CHR 0xC2 \<le> c \<and> c \<le> CHR 0xDF then
        (case s of d # _ \<Rightarrow> if cont d then Some 1 else None | _ \<Rightarrow> None)
      else if CHR 0xE0 \<le> c \<and> c \<le> CHR 0xEF then
        (case s of d # e # _ \<Rightarrow>
           if cont d \<and> cont e \<and> (c = CHR 0xE0 \<longrightarrow> CHR 0xA0 \<le> d) \<and> (c = CHR 0xED \<longrightarrow> d \<le> CHR 0x9F)
           then Some 2 else None | _ \<Rightarrow> None)
      else if CHR 0xF0 \<le> c \<and> c \<le> CHR 0xF4 then
        (case s of d # e # f # _ \<Rightarrow>
           if cont d \<and> cont e \<and> cont f \<and> (c = CHR 0xF0 \<longrightarrow> CHR 0x90 \<le> d)
              \<and> (c = CHR 0xF4 \<longrightarrow> d \<le> CHR 0x8F)
           then Some 3 else None | _ \<Rightarrow> None)
      else None)"

text \<open>
  \<open>[]rune(s)\<close>, each rune kept as its encoding. A byte that starts no well-formed encoding
  decodes to U+FFFD on its own.
\<close>

fun runes :: "string \<Rightarrow> string list" where
  "runes [] = []"
| "runes (c # s) = (case rune_tail c s of
     None \<Rightarrow> [CHR 0xEF, CHR 0xBF, CHR 0xBD] # runes s
   | Some n \<Rightarrow> (c # take n s) # runes (drop n s))"

fun valid_utf8 :: "string \<Rightarrow> bool" where
  "valid_utf8 [] = True"
| "valid_utf8 (c # s) = (case rune_tail c s of
     None \<Rightarrow> False | Some n \<Rightarrow> valid_utf8 (drop n s))"

lemma concat_runes: "valid_utf8 s \<Longrightarrow> concat (runes s) = s"
  by (induction s rule: valid_utf8.induct) (auto split: option.splits)

lemma length_runes_le: "length (runes s) \<le> length s"
  by (induction s rule: runes.induct) (fastforce split: option.splits)+

section \<open>Fields, case folding, numbers\<close>

text \<open>\<open>strings.Fields\<close>: the maximal runs of bytes that are not white space.\<close>

definition emit :: "string \<Rightarrow> string list \<Rightarrow> string list" where
  "emit w ws = (if w = [] then ws else rev w # ws)"

fun fields_from :: "string \<Rightarrow> string \<Rightarrow> string list" where
  "fields_from w (a # b # c # s) =
     (if ascii_space a then emit w (fields_from [] (b # c # s))
      else if space2 a b then emit w (fields_from [] (c # s))
      else if space3 a b c then emit w (fields_from [] s)
      else fields_from (a # w) (b # c # s))"
| "fields_from w [a, b] =
     (if ascii_space a then emit w (fields_from [] [b])
      else if space2 a b then emit w []
      else fields_from (a # w) [b])"
| "fields_from w [a] = (if ascii_space a then emit w [] else emit (a # w) [])"
| "fields_from w [] = emit w []"

definition Fields :: "string \<Rightarrow> string list" where
  "Fields s = fields_from [] s"

fun Join :: "string list \<Rightarrow> string \<Rightarrow> string" where
  "Join [] sep = []"
| "Join [w] sep = w"
| "Join (w # v # ws) sep = w @ sep @ Join (v # ws) sep"

text \<open>
  \<open>strings.ToLower\<close> and \<open>strings.EqualFold\<close> on ASCII letters, the only ones that occur in the
  digests and media types the source folds; other bytes are left as they are.
\<close>

definition lower_char :: "char \<Rightarrow> char" where
  "lower_char c = (if CHR ''A'' \<le> c \<and> c \<le> CHR ''Z'' then char_of (of_char c + 32 :: nat) else c)"

definition ToLower :: "string \<Rightarrow> string" where
  "ToLower s = map lower_char s"

definition EqualFold :: "string \<Rightarrow> string \<Rightarrow> bool" where
  "EqualFold s t \<longleftrightarrow> ToLower s = ToLower t"

text \<open>The decimal notation \<open>%d\<close> prints.\<close>

fun digits :: "nat \<Rightarrow> string" where
  "digits n = (if n < 10 then [char_of (48 + n)] else digits (n div 10) @ [char_of (48 + n mod 10)])"

declare digits.simps [simp del]

definition itoa :: "int \<Rightarrow> string" where
  "itoa i = (if i < 0 then CHR ''-'' # digits (nat (- i)) else digits (nat i))"

definition undigits :: "string \<Rightarrow> nat" where
  "undigits s = foldl (\<lambda>a c. 10 * a + (of_char c - 48)) 0 s"

lemma undigits_snoc: "undigits (s @ [c]) = 10 * undigits s + (of_char c - 48)"
  by (simp add: undigits_def)

lemma undigits_digits: "undigits (digits n) = n"
proof (induction n rule: digits.induct)
  case (1 n)
  show ?case
  proof (cases "n < 10")
    case True
    then show ?thesis by (subst digits.simps) (simp add: undigits_def)
  next
    case False
    then have "undigits (digits n) = 10 * undigits (digits (n div 10)) + n mod 10"
      by (subst digits.simps) (simp add: undigits_snoc)
    then show ?thesis using 1 False by simp
  qed
qed

lemma digits_inject [simp]: "digits a = digits b \<longleftrightarrow> a = b"
  by (metis undigits_digits)

lemma digits_no_sign: "CHR ''-'' \<notin> set (digits n)"
proof (induction n rule: digits.induct)
  case (1 n)
  have sign: "char_of (48 + k) \<noteq> CHR ''-''" if "k < 10" for k :: nat
  proof
    assume "char_of (48 + k) = CHR ''-''"
    then have "of_char (char_of (48 + k) :: char) = (of_char (CHR ''-'') :: nat)" by simp
    then show False using that by simp
  qed
  show ?case using 1 sign [of n] sign [of "n mod 10"] by (subst digits.simps) auto
qed

lemma itoa_inject [simp]: "itoa a = itoa b \<longleftrightarrow> a = b"
proof -
  have "CHR ''-'' # digits m \<noteq> digits n" for m n by (metis digits_no_sign list.set_intros(1))
  then show ?thesis by (auto simp: itoa_def) metis+
qed

end
