(* ===== verification/Interfaces.thy ===== *)
theory Interfaces
  imports GoStrings "HOL-Library.Multiset"
begin

text \<open>
  What several components rely on: the order listings are sorted by, cursor paging over such a
  listing, tables of rows under string keys, and the revision fences that order racing writers.
  Each interface is a locale; the components interpret it on their own operations.
\<close>

section \<open>Stamps: a time with the row's identifier as the tie-breaker\<close>

datatype stamp = Stamp (stamp_time: time) (stamp_id: string)

instantiation stamp :: linorder
begin

definition less_stamp :: "stamp \<Rightarrow> stamp \<Rightarrow> bool" where
  "less_stamp a b \<longleftrightarrow> stamp_time a < stamp_time b \<or>
     stamp_time a = stamp_time b \<and> stamp_id a < stamp_id b"

definition less_eq_stamp :: "stamp \<Rightarrow> stamp \<Rightarrow> bool" where
  "less_eq_stamp a b \<longleftrightarrow> stamp_time a < stamp_time b \<or>
     stamp_time a = stamp_time b \<and> stamp_id a \<le> stamp_id b"

instance
  by intro_classes
    (auto simp: less_stamp_def less_eq_stamp_def stamp.expand intro: stamp.expand)

end

lemma stamp_less [simp]: "Stamp t i < Stamp u j \<longleftrightarrow> t < u \<or> t = u \<and> i < j"
  by (simp add: less_stamp_def)

lemma stamp_le [simp]: "Stamp t i \<le> Stamp u j \<longleftrightarrow> t < u \<or> t = u \<and> i \<le> j"
  by (simp add: less_eq_stamp_def)

text \<open>
  \<open>sort.Slice\<close> with "created before, then the smaller id" and with the reverse of it. Go leaves
  the order of rows that compare equal open; the stable order is one of them.
\<close>

definition oldest_first :: "('a \<Rightarrow> 'k::linorder) \<Rightarrow> 'a list \<Rightarrow> 'a list" where
  "oldest_first key xs = sort_key key xs"

definition newest_first :: "('a \<Rightarrow> 'k::linorder) \<Rightarrow> 'a list \<Rightarrow> 'a list" where
  "newest_first key xs = rev (sort_key key xs)"

lemma mset_oldest_first [simp]: "mset (oldest_first key xs) = mset xs"
  by (simp add: oldest_first_def)

lemma mset_newest_first [simp]: "mset (newest_first key xs) = mset xs"
  by (simp add: newest_first_def)

lemma set_oldest_first [simp]: "set (oldest_first key xs) = set xs"
  by (simp add: oldest_first_def)

lemma set_newest_first [simp]: "set (newest_first key xs) = set xs"
  by (simp add: newest_first_def)

lemma length_oldest_first [simp]: "length (oldest_first key xs) = length xs"
  by (simp add: oldest_first_def)

lemma length_newest_first [simp]: "length (newest_first key xs) = length xs"
  by (simp add: newest_first_def)

lemma sorted_oldest_first: "sorted (map key (oldest_first key xs))"
  by (simp add: oldest_first_def)

lemma sorted_newest_first: "sorted_wrt (\<ge>) (map key (newest_first key xs))"
  by (simp add: newest_first_def rev_map [symmetric] sorted_wrt_rev)

section \<open>Cursor paging over a newest-first listing\<close>

text \<open>
  The body the cursor-paged listings share: rows at or after the cursor are skipped, the page is
  cut at \<open>limit\<close>, and a full page carries the stamp of its last row as the next cursor.
\<close>

definition page_of :: "('a \<Rightarrow> stamp) \<Rightarrow> nat \<Rightarrow> stamp option \<Rightarrow> 'a list \<Rightarrow> 'a list \<times> stamp option" where
  "page_of key limit cursor xs =
     (let out = take limit (filter (\<lambda>x. case cursor of None \<Rightarrow> True | Some c \<Rightarrow> key x < c)
                  (newest_first key xs))
      in (out, if length out = limit then Some (key (last out)) else None))"

text \<open>Following the cursors, with fuel for the number of requests.\<close>

fun walk :: "(stamp option \<Rightarrow> 'a list \<times> stamp option) \<Rightarrow> nat \<Rightarrow> stamp option \<Rightarrow> 'a list" where
  "walk fetch 0 cursor = []"
| "walk fetch (Suc n) cursor = (case fetch cursor of
     (items, None) \<Rightarrow> items
   | (items, Some c) \<Rightarrow> items @ walk fetch n (Some c))"

lemma filter_less_Cons:
  fixes key :: "'a \<Rightarrow> 'k::linorder"
  assumes "sorted_wrt (>) (map key (ys @ y # zs))"
  shows "filter (\<lambda>x. key x < key y) (ys @ y # zs) = zs"
proof -
  have ys: "key y < key x" if "x \<in> set ys" for x
    using assms that by (auto simp: sorted_wrt_append)
  have zs: "key x < key y" if "x \<in> set zs" for x
    using assms that by (auto simp: sorted_wrt_append)
  have "filter (\<lambda>x. key x < key y) ys = []"
    by (simp add: filter_empty_conv) (intro ballI leD less_imp_le ys)
  moreover have "filter (\<lambda>x. key x < key y) zs = zs" by (simp add: filter_id_conv zs)
  ultimately show ?thesis by simp
qed

lemma filter_less_nth:
  fixes key :: "'a \<Rightarrow> 'k::linorder"
  assumes "sorted_wrt (>) (map key ys)" and "i < length ys"
  shows "filter (\<lambda>x. key x < key (ys ! i)) ys = drop (Suc i) ys"
  using filter_less_Cons [of key "take i ys" "ys ! i" "drop (Suc i) ys"] assms
  by (simp add: id_take_nth_drop [symmetric])

text \<open>
  The interface of a cursor-paged listing: in an acceptable state \<open>st\<close> its requests, with no cursor
  or with the cursor of one of the rows, are pages of one row list.
\<close>

locale paged_listing =
  fixes key :: "'a \<Rightarrow> stamp" and rows :: "'s \<Rightarrow> 'a list" and limit :: "'s \<Rightarrow> nat"
    and ok :: "'s \<Rightarrow> bool" and fetch :: "'s \<Rightarrow> stamp option \<Rightarrow> 'a list \<times> stamp option"
  assumes first_page: "ok st \<Longrightarrow> fetch st None = page_of key (limit st) None (rows st)"
    and next_page: "ok st \<Longrightarrow> x \<in> set (rows st) \<Longrightarrow>
      fetch st (Some (key x)) = page_of key (limit st) (Some (key x)) (rows st)"
    and limit_pos: "ok st \<Longrightarrow> 0 < limit st"
    and distinct_stamps: "ok st \<Longrightarrow> distinct (map key (rows st))"
begin

lemma strictly_newest_first: "ok st \<Longrightarrow> sorted_wrt (>) (map key (newest_first key (rows st)))"
proof -
  assume ok: "ok st"
  have "sorted (map key (sort_key key (rows st)))" by simp
  moreover have "distinct (map key (sort_key key (rows st)))"
    using distinct_stamps [OF ok] by (metis mset_eq_imp_distinct_iff mset_map mset_sort)
  ultimately show ?thesis
    by (simp add: newest_first_def rev_map [symmetric] sorted_wrt_rev strict_sorted_iff)
qed

lemma walk_from:
  assumes "ok st" and "i < length (newest_first key (rows st))"
    and "length (newest_first key (rows st)) - i \<le> n"
  shows "walk (fetch st) n (Some (key (newest_first key (rows st) ! i))) =
    drop (Suc i) (newest_first key (rows st))"
  using assms(2,3)
proof (induction n arbitrary: i)
  case 0
  then show ?case by simp
next
  case (Suc n)
  let ?ys = "newest_first key (rows st)" and ?l = "limit st"
  have rest: "filter (\<lambda>x. key x < key (?ys ! i)) ?ys = drop (Suc i) ?ys"
    using strictly_newest_first [OF assms(1)] Suc.prems(1) by (rule filter_less_nth)
  have "?ys ! i \<in> set (rows st)" using nth_mem [OF Suc.prems(1)] by simp
  note page = next_page [OF assms(1) this] and pos = limit_pos [OF assms(1)]
  show ?case
  proof (cases "length (take ?l (drop (Suc i) ?ys)) = ?l")
    case False
    then have "take ?l (drop (Suc i) ?ys) = drop (Suc i) ?ys" by (auto simp: min_def split: if_splits)
    with False show ?thesis by (simp add: page page_of_def rest Let_def)
  next
    case True
    then have i: "i + ?l < length ?ys"
      using Suc.prems(1) pos by (auto simp: min_def split: if_splits)
    have "take ?l (drop (Suc i) ?ys) \<noteq> []" using True pos by auto
    then have last: "last (take ?l (drop (Suc i) ?ys)) = ?ys ! (i + ?l)"
      using True pos by (simp add: last_conv_nth)
    have "walk (fetch st) n (Some (key (?ys ! (i + ?l)))) = drop (Suc (i + ?l)) ?ys"
      using i Suc.prems(2) pos by (intro Suc.IH) auto
    moreover have "drop ?l (drop (Suc i) ?ys) = drop (Suc (i + ?l)) ?ys"
      by (simp add: ac_simps)
    ultimately show ?thesis
      using True last append_take_drop_id [of ?l "drop (Suc i) ?ys"]
      by (simp add: page page_of_def rest Let_def)
  qed
qed

text \<open>Following the cursors from the first page yields every row once, newest first.\<close>

lemma walk_all:
  assumes "ok st" and "length (rows st) < n"
  shows "walk (fetch st) n None = newest_first key (rows st)"
proof (cases n)
  case 0
  then show ?thesis using assms by simp
next
  case (Suc n')
  let ?ys = "newest_first key (rows st)" and ?l = "limit st"
  note page = first_page [OF assms(1)] and pos = limit_pos [OF assms(1)]
  show ?thesis
  proof (cases "length (take ?l ?ys) = ?l")
    case False
    then have "take ?l ?ys = ?ys" by (auto simp: min_def split: if_splits)
    with False Suc show ?thesis by (simp add: page page_of_def Let_def)
  next
    case True
    then have l: "?l - 1 < length ?ys" using pos by (simp add: min_def split: if_splits)
    have ne: "take ?l ?ys \<noteq> []"
      using l pos by (metis list.size(3) not_less_zero take_eq_Nil neq0_conv)
    have "last (take ?l ?ys) = ?ys ! (?l - 1)"
      using ne True pos by (simp add: last_conv_nth)
    moreover have "walk (fetch st) n' (Some (key (?ys ! (?l - 1)))) = drop (Suc (?l - 1)) ?ys"
      using assms Suc l by (intro walk_from) auto
    ultimately show ?thesis
      using True Suc pos append_take_drop_id [of ?l ?ys]
      by (simp add: page page_of_def Let_def)
  qed
qed

end

section \<open>Keyed tables\<close>

text \<open>The interface of a table of rows: what a read returns after a write and a delete.\<close>

locale keyed_table =
  fixes lookup :: "'t \<Rightarrow> 'k \<Rightarrow> 'v option"
    and insert_row :: "'k \<Rightarrow> 'v \<Rightarrow> 't \<Rightarrow> 't"
    and delete_row :: "'k \<Rightarrow> 't \<Rightarrow> 't"
  assumes lookup_insert: "lookup (insert_row k v t) k' = (if k' = k then Some v else lookup t k')"
    and lookup_delete: "lookup (delete_row k t) k' = (if k' = k then None else lookup t k')"
begin

lemma last_write_wins: "lookup (insert_row k w (insert_row k v t)) = lookup (insert_row k w t)"
  by (rule ext) (simp add: lookup_insert)

lemma writes_commute:
  "k \<noteq> l \<Longrightarrow> lookup (insert_row k v (insert_row l w t)) = lookup (insert_row l w (insert_row k v t))"
  by (rule ext) (simp add: lookup_insert)

lemma untouched_by_writes:
  "k \<notin> fst ` set kvs \<Longrightarrow> lookup (fold (\<lambda>(k, v). insert_row k v) kvs t) k = lookup t k"
  by (induction kvs arbitrary: t) (auto simp: lookup_insert)

lemma written_by_writes:
  "(k, v) \<in> set kvs \<Longrightarrow> distinct (map fst kvs) \<Longrightarrow>
     lookup (fold (\<lambda>(k, v). insert_row k v) kvs t) k = Some v"
  by (induction kvs arbitrary: t) (auto simp: lookup_insert untouched_by_writes rev_image_eqI)

lemma untouched_by_deletes:
  "k \<notin> set ks \<Longrightarrow> lookup (fold delete_row ks t) k = lookup t k"
  by (induction ks arbitrary: t) (auto simp: lookup_delete)

end

interpretation gm: keyed_table mget mput mdel
  by unfold_locales (simp_all split: if_splits)

section \<open>Revision fences\<close>

text \<open>
  A writer that read a row at revision \<open>t\<close> may write it back only while the row is still at
  revision \<open>t\<close>. The revision never moves backwards, so a token that has been overtaken stays
  refused.
\<close>

locale fence =
  fixes revision :: "'s \<Rightarrow> int"
    and step :: "'s \<Rightarrow> 's \<Rightarrow> bool"
    and accepts :: "'s \<Rightarrow> int \<Rightarrow> bool"
  assumes accepts_current: "accepts s t \<Longrightarrow> t = revision s"
    and step_mono: "step s s' \<Longrightarrow> revision s \<le> revision s'"
begin

lemma steps_mono: "step\<^sup>*\<^sup>* s s' \<Longrightarrow> revision s \<le> revision s'"
  by (induction rule: rtranclp_induct) (auto dest: step_mono)

lemma stale_refused: "t < revision s \<Longrightarrow> step\<^sup>*\<^sup>* s s' \<Longrightarrow> \<not> accepts s' t"
  using accepts_current steps_mono by fastforce

end

section \<open>Claims\<close>

text \<open>
  Something is claimed once: a claim closes it, a closed one refuses every claim, and the steps in between, which
  are the requests the client allows for, do not open it again.
\<close>

locale closing_claim =
  fixes closed :: "'s \<Rightarrow> bool"
    and step :: "'s \<Rightarrow> 's \<Rightarrow> bool"
    and claim :: "'s \<Rightarrow> 'c \<Rightarrow> 's option"
  assumes claim_closes: "claim s c = Some s' \<Longrightarrow> closed s'"
    and closed_refuses: "closed s \<Longrightarrow> claim s c = None"
    and step_closed: "closed s \<Longrightarrow> step s s' \<Longrightarrow> closed s'"
begin

lemma steps_closed: "step\<^sup>*\<^sup>* s s' \<Longrightarrow> closed s \<Longrightarrow> closed s'"
  by (induction rule: rtranclp_induct) (auto intro: step_closed)

lemma claimed_once: "claim s c = Some s1 \<Longrightarrow> step\<^sup>*\<^sup>* s1 s2 \<Longrightarrow> closed s2 \<and> claim s2 c' = None"
  using steps_closed claim_closes closed_refuses by blast

end

end
