(* ===== verification/StoreTypes.thy ===== *)
theory StoreTypes
  imports Interfaces
begin

text \<open>
  The rows the agents provider's store keeps (\<open>providers/agents/store/store.go\<close> and the files
  beside it): one record per Go struct, field for field, with the struct's name as a prefix of
  the field. A pointer that may be nil is an option, a string-typed enumeration is a string with
  its constants as abbreviations, and an error is a value of \<open>store_error\<close>. Counters the store
  itself starts at zero and moves by one are unbounded integers; sizes and sums a caller supplies
  are wrapped to 64 bits where the code adds them.
\<close>

section \<open>Errors\<close>

text \<open>The sentinel errors, and \<open>Errorf\<close> for the errors the code only ever reports.\<close>

datatype store_error =
    ErrSessionCheckpointStale
  | ErrSessionNotFound
  | ErrRunClaimConflict string
  | ErrRecoveryClaimStale string
  | ErrInboxAlreadyResolved
  | ErrSessionModelLimit
  | ErrAgentArtifactLimit
  | ErrAgentArtifactResultTooLarge
  | ErrAgentAttachmentNotFound
  | ErrAgentAttachmentConflict
  | ErrAgentAttachmentForbidden
  | ErrAgentAttachmentImmutable
  | ErrAgentAttachmentReceipt
  | ErrAgentAttachmentQuota
  | ErrAgentAttachmentDraftExpired
  | Errorf string

type_synonym 'a result = "store_error + 'a"

text \<open>A check returns the first error it finds.\<close>

type_synonym check = "store_error option"

section \<open>JSON values\<close>

text \<open>
  What \<open>encoding/json\<close> decodes into an \<open>any\<close>; an object keeps its members in document order.
  A \<open>json.RawMessage\<close> is the document its bytes hold, or the bytes when they hold none: the
  store copies it and unmarshals it, and never looks at it in another way.
\<close>

datatype jval = JNull | JBool bool | JNum string | JStr string | JArr "jval list"
  | JObj "(string \<times> jval) list"

datatype raw_json = RawJSON jval | RawInvalid string

section \<open>Scope and tenant mapping\<close>

record Scope =
  sc_OrgUUID :: string
  sc_WorkspaceUUID :: string
  sc_AgentName :: string
  sc_ClusterID :: string
  sc_resolutionErr :: string

abbreviation UnmappedOrg :: string where "UnmappedOrg \<equiv> ''unmapped''"

record TenantRef =
  ref_OrgUUID :: string
  ref_WorkspaceUUID :: string
  ref_UpdatedAt :: time

definition validateTenantRef :: "string \<Rightarrow> TenantRef \<Rightarrow> check" where
  "validateTenantRef clusterID ref =
     (if blank clusterID then Some (Errorf ''cluster ID is required'')
      else if clusterID \<noteq> TrimSpace clusterID
        then Some (Errorf ''cluster ID must not contain surrounding whitespace'')
      else if blank (ref_OrgUUID ref) \<or> blank (ref_WorkspaceUUID ref)
        then Some (Errorf ''tenant mapping requires non-empty org and workspace UUIDs'')
      else if ref_OrgUUID ref \<noteq> TrimSpace (ref_OrgUUID ref) \<or>
              ref_WorkspaceUUID ref \<noteq> TrimSpace (ref_WorkspaceUUID ref)
        then Some (Errorf ''tenant mapping org and workspace UUIDs must not contain surrounding whitespace'')
      else if ref_OrgUUID ref = UnmappedOrg
        then Some (Errorf ''tenant mapping org UUID is reserved'')
      else None)"

definition Scope_validate :: "Scope \<Rightarrow> check" where
  "Scope_validate s =
     (if sc_resolutionErr s \<noteq> [] then Some (Errorf ''scope resolution failed'')
      else if blank (sc_OrgUUID s) \<or> blank (sc_WorkspaceUUID s)
        then Some (Errorf ''scope is incomplete: org and workspace are required'')
      else None)"

definition withAgent :: "Scope \<Rightarrow> check" where
  "withAgent s =
     (case Scope_validate s of
        Some e \<Rightarrow> Some e
      | None \<Rightarrow> if blank (sc_AgentName s)
          then Some (Errorf ''scope is incomplete: agent name is required'') else None)"

lemma withAgent_validate: "withAgent s = None \<Longrightarrow> Scope_validate s = None"
  by (simp add: withAgent_def split: option.splits)

section \<open>Transcript rows\<close>

record Message =
  msg_ID :: string
  msg_Sequence :: int
  msg_AgentName :: string
  msg_SessionID :: string
  msg_RunID :: string
  msg_Role :: string
  msg_Content :: string
  msg_ContentEncrypted :: bool
  msg_ContentKeyID :: string
  msg_Metadata :: "jval gomap"
  msg_CreatedAt :: time

record sessionTitle =
  title_FirstMessageID :: string
  title_Title :: string

record Session =
  ses_ID :: string
  ses_Title :: string
  ses_Preview :: string
  ses_MessageCount :: nat
  ses_CreatedAt :: time
  ses_LastActivity :: time

definition sessionPreviewMax :: nat where
  "sessionPreviewMax = 80"

definition previewText :: "string \<Rightarrow> string" where
  "previewText s =
     (let s = Join (Fields s) '' ''; r = runes s
      in if length r > sessionPreviewMax
         then concat (take sessionPreviewMax r) @ [CHR 0xE2, CHR 0x80, CHR 0xA6] else s)"

section \<open>Model preferences\<close>

record SessionModelSettings =
  sms_ModelCredential :: string
  sms_ReasoningEffortByModel :: "string gomap"

definition MaxSessionModelSettingsPerAgent :: nat where
  "MaxSessionModelSettingsPerAgent = 1024"

record memorySessionModel =
  msm_settings :: SessionModelSettings
  msm_updatedAt :: time

record ModelSettings =
  ms_ModelCredential :: string
  ms_ReasoningEffort :: string
  ms_Transport :: string

record HarnessSettings =
  hset_Model :: string
  hset_ReasoningEffort :: string

end
