(* ===== verification/RunTypes.thy ===== *)
theory RunTypes
  imports StoreTypes
begin

text \<open>
  Run rows and what hangs off them: the durable execution record, what a repository run ran
  against and produced, where its answer goes, and the artifacts it exported.
\<close>

section \<open>Phases\<close>

type_synonym RunPhase = string

abbreviation RunPhasePending :: RunPhase where "RunPhasePending \<equiv> ''Pending''"
abbreviation RunPhaseRunning :: RunPhase where "RunPhaseRunning \<equiv> ''Running''"
abbreviation RunPhasePendingApproval :: RunPhase where "RunPhasePendingApproval \<equiv> ''PendingApproval''"
abbreviation RunPhaseSucceeded :: RunPhase where "RunPhaseSucceeded \<equiv> ''Succeeded''"
abbreviation RunPhaseFailed :: RunPhase where "RunPhaseFailed \<equiv> ''Failed''"
abbreviation RunPhaseAborted :: RunPhase where "RunPhaseAborted \<equiv> ''Aborted''"

section \<open>Runs\<close>

record RunRepository =
  rr_EnvironmentID :: string
  rr_RepositoryID :: string
  rr_BaseCommit :: string
  rr_CommitMessage :: string

record RunResult =
  rres_BaseCommit :: string
  rres_Commit :: string
  rres_Tree :: string
  rres_NoChanges :: bool
  rres_ResultDigest :: string
  rres_BundleDigest :: string
  rres_BundleSize :: int

record RunDelivery =
  rd_SourceName :: string
  rd_ReplyTarget :: string
  rd_NotifyChannel :: string
  rd_Kind :: string

record Run =
  run_progress :: "raw_json option"
  run_ID :: string
  run_AgentName :: string
  run_SessionID :: string
  run_Trigger :: string
  run_ParentRunID :: string
  run_Phase :: RunPhase
  run_Attempt :: int
  run_Retries :: int
  run_RetryAt :: "time option"
  run_Input :: string
  run_Output :: string
  run_Sources :: "string list"
  run_IdempotencyKey :: string
  run_Delivery :: "RunDelivery option"
  run_Backend :: string
  run_HarnessSettings :: "HarnessSettings option"
  run_ModelSettings :: "ModelSettings option"
  run_AttemptID :: string
  run_HarnessSessionID :: string
  run_Repository :: "RunRepository option"
  run_Result :: "RunResult option"
  run_Message :: string
  run_Checkpoint :: "raw_json option"
  run_InputTokens :: int
  run_OutputTokens :: int
  run_USDMicros :: int
  run_CreatedAt :: time
  run_UpdatedAt :: time
  run_StartedAt :: "time option"
  run_FinishedAt :: "time option"
  run_WorkedDurationMS :: "int option"
  run_CancelRequested :: bool
  run_CancelRequestedAt :: "time option"

text \<open>The zero value of the struct, the start of every composite literal.\<close>

definition zero_Run :: Run where
  "zero_Run = \<lparr>run_progress = None, run_ID = [], run_AgentName = [], run_SessionID = [],
     run_Trigger = [], run_ParentRunID = [], run_Phase = [], run_Attempt = 0, run_Retries = 0,
     run_RetryAt = None, run_Input = [], run_Output = [], run_Sources = [],
     run_IdempotencyKey = [], run_Delivery = None, run_Backend = [], run_HarnessSettings = None,
     run_ModelSettings = None, run_AttemptID = [], run_HarnessSessionID = [],
     run_Repository = None, run_Result = None, run_Message = [], run_Checkpoint = None,
     run_InputTokens = 0, run_OutputTokens = 0, run_USDMicros = 0, run_CreatedAt = 0,
     run_UpdatedAt = 0, run_StartedAt = None, run_FinishedAt = None,
     run_WorkedDurationMS = None, run_CancelRequested = False, run_CancelRequestedAt = None\<rparr>"

record RunQuery =
  rq_Phase :: RunPhase
  rq_Trigger :: string
  rq_SessionID :: string
  rq_ParentRunID :: string
  rq_Limit :: int

definition earlierRun :: "Run \<Rightarrow> Run \<Rightarrow> bool" where
  "earlierRun a b =
     (if run_CreatedAt a = run_CreatedAt b then run_ID a < run_ID b
      else run_CreatedAt a < run_CreatedAt b)"

definition run_stamp :: "Run \<Rightarrow> stamp" where
  "run_stamp r = Stamp (run_CreatedAt r) (run_ID r)"

lemma earlierRun_stamp: "earlierRun a b \<longleftrightarrow> run_stamp a < run_stamp b"
  by (auto simp: earlierRun_def run_stamp_def)

text \<open>
  Two rows for one run, from the two scopes a migration merges: the later update wins, keeps the
  other row's checkpoint and key when it has none, and a cancel on either side survives with the
  earlier of the two times.
\<close>

definition earlier_cancel :: "time option \<Rightarrow> time option \<Rightarrow> time option" where
  "earlier_cancel mine other =
     (case mine of None \<Rightarrow> other
      | Some t \<Rightarrow> (case other of Some u \<Rightarrow> if u < t then Some u else Some t | None \<Rightarrow> Some t))"

definition mergeMigratedRun :: "Run \<Rightarrow> Run \<Rightarrow> Run" where
  "mergeMigratedRun current incoming =
     (if run_UpdatedAt incoming > run_UpdatedAt current then
        (let r = incoming;
             r = (if run_Checkpoint r = None then r\<lparr>run_Checkpoint := run_Checkpoint current\<rparr> else r);
             r = (if run_CancelRequested r \<or> run_CancelRequested current
                  then r\<lparr>run_CancelRequested := True,
                         run_CancelRequestedAt :=
                           earlier_cancel (run_CancelRequestedAt r) (run_CancelRequestedAt current)\<rparr>
                  else r);
             r = (if run_IdempotencyKey r = [] then r\<lparr>run_IdempotencyKey := run_IdempotencyKey current\<rparr> else r)
         in r)
      else
        (let r = current;
             r = (if run_Checkpoint r = None then r\<lparr>run_Checkpoint := run_Checkpoint incoming\<rparr> else r);
             r = (if run_CancelRequested incoming
                  then r\<lparr>run_CancelRequested := True,
                         run_CancelRequestedAt :=
                           earlier_cancel (run_CancelRequestedAt r) (run_CancelRequestedAt incoming)\<rparr>
                  else r);
             r = (if run_IdempotencyKey r = [] then r\<lparr>run_IdempotencyKey := run_IdempotencyKey incoming\<rparr> else r)
         in r))"

lemma mergeMigratedRun_cancel [simp]:
  "run_CancelRequested (mergeMigratedRun a b) \<longleftrightarrow> run_CancelRequested a \<or> run_CancelRequested b"
  by (auto simp: mergeMigratedRun_def Let_def)

lemma mergeMigratedRun_latest:
  "run_UpdatedAt (mergeMigratedRun a b) = max (run_UpdatedAt a) (run_UpdatedAt b)"
  by (auto simp: mergeMigratedRun_def Let_def max_def)

lemma mergeMigratedRun_phase:
  "run_Phase (mergeMigratedRun a b) =
     (if run_UpdatedAt b > run_UpdatedAt a then run_Phase b else run_Phase a)"
  by (auto simp: mergeMigratedRun_def Let_def)

section \<open>Run artifacts\<close>

record RunArtifact =
  ra_RunID :: string
  ra_Name :: string
  ra_Digest :: string
  ra_MediaType :: string
  ra_Size :: int
  ra_Data :: string
  ra_CreatedAt :: time

definition RunArtifact_validate :: "RunArtifact \<Rightarrow> check" where
  "RunArtifact_validate a =
     (if blank (ra_RunID a) then Some (Errorf ''run artifact needs a run ID'')
      else if blank (ra_Name a) \<or> CHR ''/'' \<in> set (ra_Name a) \<or> CHR 0x5C \<in> set (ra_Name a)
        then Some (Errorf ''run artifact needs a plain name'')
      else if blank (ra_Digest a) then Some (Errorf ''run artifact needs a digest'')
      else if ra_Size a \<noteq> int (length (ra_Data a))
        then Some (Errorf ''run artifact size does not match its data bytes'')
      else None)"

record runArtifactRow =
  row_agentName :: string
  row_artifact :: RunArtifact

end
