(* ===== verification/SessionTypes.thy ===== *)
theory SessionTypes
  imports StoreTypes
begin

text \<open>
  Rows attached to one conversation: the compaction summary with its versioned checkpoint, and
  the harness session that carries the runner-side identity and turn epochs.
\<close>

section \<open>Upload receipts and continuation metadata\<close>

record AttachmentReceipt =
  rc_ID :: string
  rc_Filename :: string
  rc_ContentType :: string
  rc_SizeBytes :: int
  rc_SHA256 :: string
  rc_CreatedAt :: time

record ContinuationMetadata =
  cm_ReasoningContent :: string
  cm_ReasoningSignature :: string

definition MaxContinuationReasoningBytes :: nat where "MaxContinuationReasoningBytes = 2 ^ 20"
definition MaxContinuationSignatureBytes :: nat where "MaxContinuationSignatureBytes = 2 ^ 20"

definition ContinuationMetadata_Validate :: "ContinuationMetadata \<Rightarrow> check" where
  "ContinuationMetadata_Validate m =
     (if cm_ReasoningSignature m = [] then Some (Errorf ''continuation metadata requires a signature'')
      else if length (cm_ReasoningContent m) > MaxContinuationReasoningBytes
        then Some (Errorf ''continuation reasoning content exceeds its bound'')
      else if length (cm_ReasoningSignature m) > MaxContinuationSignatureBytes
        then Some (Errorf ''continuation reasoning signature exceeds its bound'')
      else None)"

section \<open>Summaries and checkpoints\<close>

record SessionCheckpointToolCall =
  sct_ID :: string
  sct_Name :: string
  sct_Args :: string
  sct_Extra :: "string gomap"

record SessionCheckpointMessage =
  scm_ID :: string
  scm_Sequence :: int
  scm_Role :: string
  scm_Content :: string
  scm_InputAttachments :: "AttachmentReceipt list"
  scm_InputAttachmentOwner :: string
  scm_InputAttachmentBindingID :: string
  scm_Name :: string
  scm_ToolCallID :: string
  scm_ToolCalls :: "SessionCheckpointToolCall list"
  scm_Continuation :: "ContinuationMetadata option"

record SessionCheckpoint =
  cp_Version :: int
  cp_ThroughSequence :: int
  cp_ThroughMessageID :: string
  cp_ThroughAt :: time
  cp_ReplacementHistory :: "SessionCheckpointMessage list option"

record SessionSummary =
  sum_SessionID :: string
  sum_Summary :: string
  sum_Generation :: int
  sum_ThroughAt :: time
  sum_MessageCount :: int
  sum_CreatedAt :: time
  sum_UpdatedAt :: time
  sum_Checkpoint :: "SessionCheckpoint option"

definition zero_SessionSummary :: SessionSummary where
  "zero_SessionSummary = \<lparr>sum_SessionID = [], sum_Summary = [], sum_Generation = 0,
     sum_ThroughAt = 0, sum_MessageCount = 0, sum_CreatedAt = 0, sum_UpdatedAt = 0,
     sum_Checkpoint = None\<rparr>"

text \<open>The rows of the two scopes a migration merges: the checkpoint that reaches further wins.\<close>

definition later_summary :: "SessionSummary \<Rightarrow> SessionSummary \<Rightarrow> SessionSummary" where
  "later_summary current incoming =
     (case (sum_Checkpoint incoming, sum_Checkpoint current) of
        (Some i, None) \<Rightarrow> incoming
      | (Some i, Some c) \<Rightarrow>
          if cp_ThroughSequence i > cp_ThroughSequence c \<or>
             cp_ThroughSequence i = cp_ThroughSequence c \<and> sum_UpdatedAt incoming > sum_UpdatedAt current
          then incoming else current
      | (None, None) \<Rightarrow> if sum_UpdatedAt incoming > sum_UpdatedAt current then incoming else current
      | (None, Some c) \<Rightarrow> current)"

definition mergeMigratedSummary :: "SessionSummary \<Rightarrow> SessionSummary \<Rightarrow> SessionSummary" where
  "mergeMigratedSummary current incoming =
     (let m = later_summary current incoming;
          m = (if sum_MessageCount incoming > sum_MessageCount m
               then m\<lparr>sum_MessageCount := sum_MessageCount incoming\<rparr> else m);
          m = (if sum_CreatedAt incoming < sum_CreatedAt m
               then m\<lparr>sum_CreatedAt := sum_CreatedAt incoming\<rparr> else m);
          m = (if sum_UpdatedAt incoming > sum_UpdatedAt m
               then m\<lparr>sum_UpdatedAt := sum_UpdatedAt incoming\<rparr> else m)
      in m)"

section \<open>Harness sessions\<close>

record HarnessSession =
  hs_SessionID :: string
  hs_TaskID :: string
  hs_AgentUID :: string
  hs_HarnessSessionID :: string
  hs_BackendKey :: string
  hs_Turns :: int
  hs_ObservedEpoch :: int
  hs_UpdatedAt :: time

definition zero_HarnessSession :: HarnessSession where
  "zero_HarnessSession = \<lparr>hs_SessionID = [], hs_TaskID = [], hs_AgentUID = [],
     hs_HarnessSessionID = [], hs_BackendKey = [], hs_Turns = 0, hs_ObservedEpoch = 0,
     hs_UpdatedAt = 0\<rparr>"

record HarnessIdentity =
  hid_TaskID :: string
  hid_LegacyTaskID :: string
  hid_AgentUID :: string
  hid_CreatedAt :: time

definition mergeMigratedHarnessSession :: "HarnessSession \<Rightarrow> HarnessSession \<Rightarrow> HarnessSession" where
  "mergeMigratedHarnessSession current incoming =
     (let incomingWins = hs_ObservedEpoch incoming > hs_ObservedEpoch current \<or>
            hs_ObservedEpoch incoming = hs_ObservedEpoch current \<and>
              \<not> hs_UpdatedAt incoming < hs_UpdatedAt current;
          r = (if incomingWins
               then current\<lparr>hs_HarnessSessionID := hs_HarnessSessionID incoming,
                      hs_BackendKey := hs_BackendKey incoming,
                      hs_ObservedEpoch := hs_ObservedEpoch incoming,
                      hs_TaskID := hs_TaskID incoming, hs_AgentUID := hs_AgentUID incoming\<rparr>
               else current);
          r = (if hs_Turns incoming > hs_Turns r then r\<lparr>hs_Turns := hs_Turns incoming\<rparr> else r);
          r = (if hs_UpdatedAt incoming > hs_UpdatedAt r
               then r\<lparr>hs_UpdatedAt := hs_UpdatedAt incoming\<rparr> else r)
      in r)"

lemma mergeMigratedHarnessSession_epochs:
  "hs_Turns (mergeMigratedHarnessSession a b) = max (hs_Turns a) (hs_Turns b)"
  "hs_ObservedEpoch (mergeMigratedHarnessSession a b) = max (hs_ObservedEpoch a) (hs_ObservedEpoch b)"
  by (auto simp: mergeMigratedHarnessSession_def Let_def max_def)

end
