(* ===== verification/SideTypes.thy ===== *)
theory SideTypes
  imports StoreTypes
begin

text \<open>
  The remaining rows: memories, inbox items, harness MCP sessions, the tool-call audit log with
  its source references, webhook deliveries, usage windows, captured artifacts and uploads.
\<close>

section \<open>Memories and the inbox\<close>

record Memory =
  mem_ID :: string
  mem_AgentName :: string
  mem_Title :: string
  mem_Body :: string
  mem_ContentEncrypted :: bool
  mem_ContentKeyID :: string
  mem_CreatedAt :: time
  mem_UpdatedAt :: time

type_synonym InboxItemKind = string

abbreviation InboxKindApproval :: InboxItemKind where "InboxKindApproval \<equiv> ''approval''"
abbreviation InboxKindQuestion :: InboxItemKind where "InboxKindQuestion \<equiv> ''question''"
abbreviation InboxKindChange :: InboxItemKind where "InboxKindChange \<equiv> ''change''"

type_synonym InboxItemState = string

abbreviation InboxStatePending :: InboxItemState where "InboxStatePending \<equiv> ''pending''"
abbreviation InboxStateApproved :: InboxItemState where "InboxStateApproved \<equiv> ''approved''"
abbreviation InboxStateDenied :: InboxItemState where "InboxStateDenied \<equiv> ''denied''"
abbreviation InboxStateAnswered :: InboxItemState where "InboxStateAnswered \<equiv> ''answered''"

record InboxResolution =
  res_PendingOnly :: bool
  res_QuestionPayload :: "jval gomap option"

record InboxItem =
  inb_ID :: string
  inb_AgentName :: string
  inb_RunID :: string
  inb_Kind :: InboxItemKind
  inb_State :: InboxItemState
  inb_Prompt :: string
  inb_Payload :: "jval gomap"
  inb_Response :: string
  inb_CreatedAt :: time
  inb_UpdatedAt :: time

record HarnessMCPSession =
  mcp_TokenHash :: string
  mcp_Scope :: Scope
  mcp_ClusterID :: string
  mcp_AgentName :: string
  mcp_AgentUID :: string
  mcp_RunID :: string
  mcp_Interactive :: bool
  mcp_ExpiresAt :: time
  mcp_CreatedAt :: time

section \<open>Tool calls and their sources\<close>

record SourceObject =
  so_Group :: string
  so_Version :: string
  so_Resource :: string
  so_Namespace :: string
  so_Name :: string
  so_UID :: string

record SourceAccess =
  sa_Group :: string
  sa_Version :: string
  sa_Resource :: string
  sa_Subresource :: string
  sa_Namespace :: string
  sa_Name :: string
  sa_Verb :: string

record SourceReference =
  sr_Label :: string
  sr_Object :: SourceObject
  sr_Access :: "SourceAccess list"

definition MaxAgentArtifactSources :: nat where "MaxAgentArtifactSources = 32"
definition MaxAgentArtifactSourceActions :: nat where "MaxAgentArtifactSourceActions = 8"

text \<open>The checks on one required action, and whether it is GET on the exact object.\<close>

definition access_check :: "SourceAccess \<Rightarrow> check" where
  "access_check a =
     (if blank (sa_Version a) \<or> blank (sa_Resource a) \<or> blank (sa_Name a) \<or> blank (sa_Verb a)
        then Some (Errorf ''source action needs version, resource, name and verb'')
      else if length (sa_Group a) > 253 \<or> length (sa_Version a) > 63 \<or> length (sa_Resource a) > 253 \<or>
              length (sa_Subresource a) > 253 \<or> length (sa_Namespace a) > 253 \<or>
              length (sa_Name a) > 253 \<or> length (sa_Verb a) > 32
        then Some (Errorf ''source action has an oversized permission coordinate'')
      else None)"

definition access_gets :: "SourceObject \<Rightarrow> SourceAccess \<Rightarrow> bool" where
  "access_gets obj a \<longleftrightarrow> sa_Group a = so_Group obj \<and> sa_Version a = so_Version obj \<and>
     sa_Resource a = so_Resource obj \<and> sa_Namespace a = so_Namespace obj \<and>
     sa_Name a = so_Name obj \<and> sa_Verb a = ''get'' \<and> sa_Subresource a = []"

fun first_error :: "('a \<Rightarrow> check) \<Rightarrow> 'a list \<Rightarrow> check" where
  "first_error f [] = None"
| "first_error f (x # xs) = (case f x of Some e \<Rightarrow> Some e | None \<Rightarrow> first_error f xs)"

lemma first_error_None [simp]: "first_error f xs = None \<longleftrightarrow> (\<forall>x \<in> set xs. f x = None)"
  by (induction xs) (auto split: option.splits)

definition SourceReference_Validate :: "SourceReference \<Rightarrow> check" where
  "SourceReference_Validate s =
     (let obj = sr_Object s in
      if length (sr_Label s) > 512 then Some (Errorf ''source label exceeds 512 bytes'')
      else if sr_Access s = [] \<or> length (sr_Access s) > MaxAgentArtifactSourceActions
        then Some (Errorf ''source needs between one and eight required actions'')
      else if blank (so_Version obj) \<or> blank (so_Resource obj) \<or> blank (so_Name obj) \<or> blank (so_UID obj)
        then Some (Errorf ''source object needs version, resource, name and UID'')
      else case first_error access_check (sr_Access s) of
        Some e \<Rightarrow> Some e
      | None \<Rightarrow>
          if length (so_Group obj) > 253 \<or> length (so_Version obj) > 63 \<or> length (so_Resource obj) > 253 \<or>
             length (so_Name obj) > 253 \<or> length (so_Namespace obj) > 253 \<or> length (so_UID obj) > 128
            then Some (Errorf ''source object has an oversized identity coordinate'')
          else if \<not> list_ex (access_gets obj) (sr_Access s)
            then Some (Errorf ''source reference must require GET on its exact object'')
          else None)"

record MCPAppReference =
  ar_Provider :: string
  ar_ResourceURI :: string
  ar_SHA256 :: string

record MCPAppResource =
  app_ResourceURI :: string
  app_MIMEType :: string
  app_HTML :: string
  app_SHA256 :: string

record ProviderPresentation =
  pp_Version :: int
  pp_Title :: string
  pp_MCPAppReference :: "MCPAppReference option"
  pp_MCPApp :: "MCPAppResource option"

record ToolCall =
  tc_ID :: string
  tc_CallID :: string
  tc_AgentName :: string
  tc_RunID :: string
  tc_SessionID :: string
  tc_Trigger :: string
  tc_Tool :: string
  tc_Args :: string
  tc_Result :: string
  tc_Sources :: "SourceReference list"
  tc_Presentation :: "ProviderPresentation option"
  tc_Outcome :: string
  tc_Error :: string
  tc_DurationMS :: int
  tc_CreatedAt :: time

section \<open>Webhook deliveries\<close>

record WebhookRoute =
  wr_Trigger :: string
  wr_Outcome :: string
  wr_Reason :: string
  wr_RunID :: string

record WebhookDelivery =
  wd_ID :: string
  wd_WebhookName :: string
  wd_WebhookUID :: string
  wd_DeliveryID :: string
  wd_ReceivedAt :: time
  wd_Outcome :: string
  wd_Reason :: string
  wd_EventType :: string
  wd_Action :: string
  wd_Repository :: string
  wd_ContentType :: string
  wd_Headers :: "string gomap"
  wd_Body :: string
  wd_BodySize :: nat
  wd_BodyTruncated :: bool
  wd_ReplayOf :: string
  wd_Routes :: "WebhookRoute list"

record WebhookDeliveryQuery =
  wq_Outcome :: string
  wq_Trigger :: string
  wq_DeliveryID :: string
  wq_Limit :: int

definition WebhookDeliveryPreviewBytes :: nat where "WebhookDeliveryPreviewBytes = 512"

abbreviation WebhookDeliveryUnrouted :: string where "WebhookDeliveryUnrouted \<equiv> ''unrouted''"

section \<open>Usage, captured artifacts, uploads\<close>

record Usage =
  us_AgentName :: string
  us_WindowStart :: time
  us_InputTokens :: int
  us_OutputTokens :: int
  us_USDMicros :: int
  us_UpdatedAt :: time

record AgentArtifact =
  aa_ID :: string
  aa_AgentName :: string
  aa_AgentUID :: string
  aa_Owner :: string
  aa_RunID :: string
  aa_SessionID :: string
  aa_ToolCallID :: string
  aa_ToolName :: string
  aa_Title :: string
  aa_MediaType :: string
  aa_Input :: string
  aa_InputDigest :: string
  aa_InputSize :: int
  aa_Digest :: string
  aa_Size :: int
  aa_Data :: string
  aa_Sources :: "SourceReference list"
  aa_Presentation :: "ProviderPresentation option"
  aa_CreatedAt :: time

record AgentAttachmentQuota =
  q_WorkspaceMaxBytes :: int
  q_DraftAgentMaxBytes :: int
  q_DraftAgentMaxCount :: int

record AgentAttachment =
  at_ID :: string
  at_AgentName :: string
  at_AgentUID :: string
  at_SessionID :: string
  at_ActorID :: string
  at_Filename :: string
  at_ContentType :: string
  at_SizeBytes :: int
  at_SHA256 :: string
  at_Draft :: bool
  at_CreatedAt :: time
  at_ExpiresAt :: "time option"
  at_Data :: string
  at_BindingID :: string
  at_DraftExpiresAt :: "time option"

end
