(* ===== verification/StoreState.thy ===== *)
theory StoreState
  imports RunTypes SessionTypes SideTypes
begin

text \<open>
  The in-memory store of the agents provider (\<open>providers/agents/store/memory.go\<close>): its tables,
  the string keys rows are filed under, and the resolution of a cluster-keyed scope, which moves
  rows written before the cluster's tenant was known. The store mutex makes each operation one
  atomic step, or two: the scope is first resolved in a critical section of its own and resolved
  again inside the section that writes.
\<close>

section \<open>State\<close>

record MemoryStore =
  sessionModels :: "memorySessionModel gomap"
  messages :: "Message list gomap"
  sessionTitles :: "sessionTitle gomap"
  runs :: "Run gomap"
  memories :: "Memory gomap"
  inbox :: "InboxItem gomap"
  toolCalls :: "ToolCall list gomap"
  usage :: "Usage gomap"
  tenants :: "TenantRef gomap"
  summaries :: "SessionSummary gomap"
  summaryGenerations :: "int gomap"
  harness :: "HarnessSession gomap"
  idempotencyPrimary :: "bool gomap"
  artifacts :: "runArtifactRow gomap"
  agentArtifacts :: "AgentArtifact gomap"
  agentAttachments :: "AgentAttachment gomap"
  attachmentQuota :: AgentAttachmentQuota
  deliveries :: "WebhookDelivery list gomap"
  messageSequence :: int
  runScopes :: "Scope gomap"
  mcpSessions :: "HarnessMCPSession gomap"

definition DefaultAgentAttachmentQuota :: AgentAttachmentQuota where
  "DefaultAgentAttachmentQuota =
     \<lparr>q_WorkspaceMaxBytes = 2 ^ 30, q_DraftAgentMaxBytes = 128 * 2 ^ 20, q_DraftAgentMaxCount = 64\<rparr>"

definition NewMemoryStore :: MemoryStore where
  "NewMemoryStore = \<lparr>sessionModels = [], messages = [], sessionTitles = [], runs = [],
     memories = [], inbox = [], toolCalls = [], usage = [], tenants = [], summaries = [],
     summaryGenerations = [], harness = [], idempotencyPrimary = [], artifacts = [],
     agentArtifacts = [], agentAttachments = [], attachmentQuota = DefaultAgentAttachmentQuota,
     deliveries = [], messageSequence = 0, runScopes = [], mcpSessions = []\<rparr>"

section \<open>Keys\<close>

abbreviation bar :: string where "bar \<equiv> ''|''"

definition tenantKey :: "Scope \<Rightarrow> string" where
  "tenantKey s = sc_OrgUUID s @ bar @ sc_WorkspaceUUID s"

definition sessionKey :: "Scope \<Rightarrow> string \<Rightarrow> string" where
  "sessionKey s session = tenantKey s @ bar @ sc_AgentName s @ bar @ session"

text \<open>Rows of one tenant, and of one agent, share a key prefix.\<close>

definition tenantPrefix :: "Scope \<Rightarrow> string" where
  "tenantPrefix s = tenantKey s @ bar"

definition agentPrefix :: "Scope \<Rightarrow> string" where
  "agentPrefix s = tenantKey s @ bar @ sc_AgentName s @ bar"

definition rowKey :: "Scope \<Rightarrow> string \<Rightarrow> string" where
  "rowKey s rid = tenantKey s @ bar @ rid"

definition artifactKey :: "Scope \<Rightarrow> string \<Rightarrow> string \<Rightarrow> string" where
  "artifactKey s runID name = tenantKey s @ bar @ runID @ bar @ name"

text \<open>Well-formed coordinates contain no separator.\<close>

definition plain :: "string \<Rightarrow> bool" where
  "plain s \<longleftrightarrow> CHR ''|'' \<notin> set s"

definition plain_scope :: "Scope \<Rightarrow> bool" where
  "plain_scope s \<longleftrightarrow> plain (sc_OrgUUID s) \<and> plain (sc_WorkspaceUUID s)"

definition same_tenant :: "Scope \<Rightarrow> Scope \<Rightarrow> bool" where
  "same_tenant a b \<longleftrightarrow> sc_OrgUUID a = sc_OrgUUID b \<and> sc_WorkspaceUUID a = sc_WorkspaceUUID b"

lemma tenantPrefix_eq:
  assumes "plain_scope a" "plain_scope b"
  shows "tenantPrefix a @ x = tenantPrefix b @ y \<longleftrightarrow> same_tenant a b \<and> x = y"
  using assms sep_append_eq [of "CHR ''|''"]
  by (auto simp: tenantPrefix_def tenantKey_def plain_scope_def plain_def same_tenant_def)

lemma rowKey_prefix: "rowKey s rid = tenantPrefix s @ rid"
  by (simp add: rowKey_def tenantPrefix_def)

lemma sessionKey_prefix: "sessionKey s x = agentPrefix s @ x"
  "sessionKey s x = tenantPrefix s @ sc_AgentName s @ bar @ x"
  by (simp_all add: sessionKey_def agentPrefix_def tenantPrefix_def)

lemma artifactKey_prefix: "artifactKey s r n = tenantPrefix s @ r @ bar @ n"
  by (simp add: artifactKey_def tenantPrefix_def)

lemma hasPrefix_tenantPrefix:
  "plain_scope a \<Longrightarrow> plain_scope b \<Longrightarrow>
     hasPrefix (tenantPrefix a @ x) (tenantPrefix b) \<longleftrightarrow> same_tenant a b"
  using tenantPrefix_eq by (fastforce simp: hasPrefix_iff)

lemma hasPrefix_append_left: "hasPrefix (p @ x) (p @ y) \<longleftrightarrow> hasPrefix x y"
  by (auto simp: hasPrefix_iff)

text \<open>
  A scoped table: the keys of one tenant's rows never meet those of another. The agent and the
  session of a transcript key are separated the same way.
\<close>

locale scoped_table = keyed_table lookup insert_row delete_row
  for lookup :: "'t \<Rightarrow> string \<Rightarrow> 'v option"
    and insert_row :: "string \<Rightarrow> 'v \<Rightarrow> 't \<Rightarrow> 't" and delete_row :: "string \<Rightarrow> 't \<Rightarrow> 't" +
  fixes key :: "'scope \<Rightarrow> 'id \<Rightarrow> string"
    and good :: "'scope \<Rightarrow> bool" and same :: "'scope \<Rightarrow> 'scope \<Rightarrow> bool"
  assumes key_separates: "good a \<Longrightarrow> good b \<Longrightarrow> key a x = key b y \<Longrightarrow> same a b \<and> x = y"
begin

lemma insert_isolated:
  "good a \<Longrightarrow> good b \<Longrightarrow> \<not> same a b \<Longrightarrow>
     lookup (insert_row (key a x) v t) (key b y) = lookup t (key b y)"
  by (metis key_separates lookup_insert)

lemma delete_isolated:
  "good a \<Longrightarrow> good b \<Longrightarrow> \<not> same a b \<Longrightarrow>
     lookup (delete_row (key a x) t) (key b y) = lookup t (key b y)"
  by (metis key_separates lookup_delete)

lemma insert_other_row:
  "good a \<Longrightarrow> good b \<Longrightarrow> x \<noteq> y \<Longrightarrow>
     lookup (insert_row (key a x) v t) (key b y) = lookup t (key b y)"
  by (auto simp: lookup_insert dest: key_separates)

end

interpretation rows: scoped_table mget mput mdel rowKey plain_scope same_tenant
  by unfold_locales (simp add: rowKey_prefix tenantPrefix_eq)

definition plain_agent_scope :: "Scope \<Rightarrow> bool" where
  "plain_agent_scope s \<longleftrightarrow> plain_scope s \<and> plain (sc_AgentName s)"

definition same_agent :: "Scope \<Rightarrow> Scope \<Rightarrow> bool" where
  "same_agent a b \<longleftrightarrow> same_tenant a b \<and> sc_AgentName a = sc_AgentName b"

lemma sessionKey_eq:
  "plain_agent_scope a \<Longrightarrow> plain_agent_scope b \<Longrightarrow>
     sessionKey a x = sessionKey b y \<longleftrightarrow> same_agent a b \<and> x = y"
  using sep_append_eq [of "CHR ''|''" "sc_AgentName a" "sc_AgentName b" x y]
  by (auto simp: sessionKey_prefix(2) tenantPrefix_eq plain_agent_scope_def same_agent_def plain_def)

interpretation sessions: scoped_table mget mput mdel sessionKey plain_agent_scope same_agent
  by unfold_locales (simp add: sessionKey_eq)

end
