(* ===== verification/Migration.thy ===== *)
theory Migration
  imports StoreState
begin

text \<open>
  Resolving a cluster-keyed scope (\<open>normalizeScope\<close>) and the migration of the rows filed under
  it (\<open>migrateUnmappedScope\<close>), one definition per loop of the code, in its order. Go's
  \<open>range\<close> over a table that the body rewrites visits the rows the table held at the start: the
  bodies only add rows under the target prefix and delete the row they visit.
\<close>

section \<open>The first user message of a transcript\<close>

fun first_user :: "Message option \<Rightarrow> Message list \<Rightarrow> Message option" where
  "first_user found [] = found"
| "first_user found (m # ms) =
     (if msg_Role m \<noteq> ''user'' then first_user found ms
      else case found of
          None \<Rightarrow> first_user (Some m) ms
        | Some f \<Rightarrow> if msg_Sequence m < msg_Sequence f then first_user (Some m) ms
                    else first_user found ms)"

definition firstPersistedUserMessage :: "Message list \<Rightarrow> Message option" where
  "firstPersistedUserMessage ms = first_user None ms"

lemma first_user_in: "first_user f ms = Some m \<Longrightarrow> f = Some m \<or> m \<in> set ms \<and> msg_Role m = ''user''"
  by (induction f ms rule: first_user.induct) (auto split: if_splits option.splits)

lemma first_user_least:
  "first_user f ms = Some m \<Longrightarrow>
     (\<forall>x. f = Some x \<longrightarrow> msg_Sequence m \<le> msg_Sequence x) \<and>
     (\<forall>x \<in> set ms. msg_Role x = ''user'' \<longrightarrow> msg_Sequence m \<le> msg_Sequence x)"
  by (induction f ms rule: first_user.induct) (fastforce split: if_splits option.splits)+

lemma firstPersistedUserMessage_SomeD:
  assumes "firstPersistedUserMessage ms = Some m"
  shows "m \<in> set ms" "msg_Role m = ''user''"
    "\<forall>x \<in> set ms. msg_Role x = ''user'' \<longrightarrow> msg_Sequence m \<le> msg_Sequence x"
  using assms first_user_in first_user_least by (fastforce simp: firstPersistedUserMessage_def)+

lemma first_user_None: "first_user f ms = None \<longleftrightarrow> f = None \<and> (\<forall>m \<in> set ms. msg_Role m \<noteq> ''user'')"
  by (induction f ms rule: first_user.induct) (auto split: option.splits)

section \<open>Moving one table\<close>

definition moveKey :: "string \<Rightarrow> string \<Rightarrow> string \<Rightarrow> string" where
  "moveKey fromPrefix toPrefix key = toPrefix @ TrimPrefix key fromPrefix"

text \<open>
  The shape the loops share: what is stored at the target depends on what is there already,
  \<open>None\<close> leaving it alone; the visited row is deleted.
\<close>

definition move_row :: "string \<Rightarrow> string \<Rightarrow> ('v option \<Rightarrow> 'v \<Rightarrow> 'v option) \<Rightarrow> string \<times> 'v \<Rightarrow>
    'v gomap \<Rightarrow> 'v gomap" where
  "move_row fromPrefix toPrefix merge kv t =
     (case kv of (key, v) \<Rightarrow>
        if hasPrefix key fromPrefix then
          (let target = moveKey fromPrefix toPrefix key
           in mdel key (case merge (mget t target) v of None \<Rightarrow> t | Some w \<Rightarrow> mput target w t))
        else t)"

definition move_rows :: "string \<Rightarrow> string \<Rightarrow> ('v option \<Rightarrow> 'v \<Rightarrow> 'v option) \<Rightarrow> 'v gomap \<Rightarrow> 'v gomap" where
  "move_rows fromPrefix toPrefix merge t = fold (move_row fromPrefix toPrefix merge) t t"

text \<open>The merges of the simple tables.\<close>

definition append_rows :: "'a list option \<Rightarrow> 'a list \<Rightarrow> 'a list option" where
  "append_rows current rows = Some ((case current of None \<Rightarrow> [] | Some c \<Rightarrow> c) @ rows)"

definition keep_current :: "'a option \<Rightarrow> 'a \<Rightarrow> 'a option" where
  "keep_current current row = (case current of None \<Rightarrow> Some row | Some _ \<Rightarrow> None)"

definition keep_latest :: "('a \<Rightarrow> time) \<Rightarrow> 'a option \<Rightarrow> 'a \<Rightarrow> 'a option" where
  "keep_latest at current row =
     (case current of None \<Rightarrow> Some row | Some c \<Rightarrow> if at row > at c then Some row else None)"

definition merge_rows :: "('a \<Rightarrow> 'a \<Rightarrow> 'a) \<Rightarrow> 'a option \<Rightarrow> 'a \<Rightarrow> 'a option" where
  "merge_rows f current row = (case current of None \<Rightarrow> Some row | Some c \<Rightarrow> Some (f c row))"

definition add_usage :: "Usage \<Rightarrow> Usage \<Rightarrow> Usage" where
  "add_usage current row =
     (let u = current\<lparr>us_InputTokens := i64 (us_InputTokens current + us_InputTokens row),
                us_OutputTokens := i64 (us_OutputTokens current + us_OutputTokens row),
                us_USDMicros := i64 (us_USDMicros current + us_USDMicros row)\<rparr>
      in if us_UpdatedAt row > us_UpdatedAt u then u\<lparr>us_UpdatedAt := us_UpdatedAt row\<rparr> else u)"

definition max_generation :: "int option \<Rightarrow> int \<Rightarrow> int option" where
  "max_generation current g =
     (if g > (case current of None \<Rightarrow> 0 | Some c \<Rightarrow> c) then Some g else None)"

definition delivery_stamp :: "WebhookDelivery \<Rightarrow> stamp" where
  "delivery_stamp d = Stamp (wd_ReceivedAt d) (wd_ID d)"

definition sortDeliveries :: "WebhookDelivery list \<Rightarrow> WebhookDelivery list" where
  "sortDeliveries rows = oldest_first delivery_stamp rows"

definition append_deliveries :: "WebhookDelivery list option \<Rightarrow> WebhookDelivery list \<Rightarrow>
    WebhookDelivery list option" where
  "append_deliveries current rows =
     Some (sortDeliveries ((case current of None \<Rightarrow> [] | Some c \<Rightarrow> c) @ rows))"

section \<open>The loops that touch several tables\<close>

text \<open>
  Titles follow their first user message, so this loop runs after the transcripts have moved;
  a second pass drops every target title that no longer matches its transcript.
\<close>

definition move_title :: "string \<Rightarrow> string \<Rightarrow> Message list gomap \<Rightarrow> string \<times> sessionTitle \<Rightarrow>
    sessionTitle gomap \<Rightarrow> sessionTitle gomap" where
  "move_title fromPrefix toPrefix msgs kv t =
     (case kv of (key, title) \<Rightarrow>
        if \<not> hasPrefix key fromPrefix then t
        else
          (let target = moveKey fromPrefix toPrefix key
           in mdel key
             (case firstPersistedUserMessage (mgetd [] msgs target) of
                None \<Rightarrow> mdel target t
              | Some first \<Rightarrow>
                  (case mget t target of
                     Some current \<Rightarrow>
                       if title_FirstMessageID current = msg_ID first then
                         (if title_Title current = [] \<and> title_FirstMessageID title = msg_ID first \<and>
                             title_Title title \<noteq> []
                          then mput target (current\<lparr>title_Title := title_Title title\<rparr>) t else t)
                       else if title_FirstMessageID title = msg_ID first then mput target title t
                       else mdel target t
                   | None \<Rightarrow> if title_FirstMessageID title = msg_ID first
                             then mput target title t else t))))"

definition title_matches :: "Message list gomap \<Rightarrow> string \<Rightarrow> sessionTitle \<Rightarrow> bool" where
  "title_matches msgs key title \<longleftrightarrow>
     (case firstPersistedUserMessage (mgetd [] msgs key) of
        None \<Rightarrow> False | Some first \<Rightarrow> title_FirstMessageID title = msg_ID first)"

definition move_titles :: "string \<Rightarrow> string \<Rightarrow> Message list gomap \<Rightarrow> sessionTitle gomap \<Rightarrow>
    sessionTitle gomap" where
  "move_titles fromPrefix toPrefix msgs t =
     mfilter (\<lambda>key title. hasPrefix key toPrefix \<longrightarrow> title_matches msgs key title)
       (fold (move_title fromPrefix toPrefix msgs) t t)"

definition zero_Scope :: Scope where
  "zero_Scope = \<lparr>sc_OrgUUID = [], sc_WorkspaceUUID = [], sc_AgentName = [], sc_ClusterID = [],
     sc_resolutionErr = []\<rparr>"

definition move_run_scope :: "string \<Rightarrow> string \<Rightarrow> string \<Rightarrow> TenantRef \<Rightarrow> string \<Rightarrow>
    Scope gomap \<Rightarrow> Scope gomap" where
  "move_run_scope fromPrefix toPrefix clusterID ref key t =
     (if hasPrefix key fromPrefix then
        mdel key (mput (moveKey fromPrefix toPrefix key)
          ((mgetd zero_Scope t key)\<lparr>sc_OrgUUID := ref_OrgUUID ref,
             sc_WorkspaceUUID := ref_WorkspaceUUID ref, sc_ClusterID := clusterID\<rparr>) t)
      else t)"

definition move_runs :: "string \<Rightarrow> string \<Rightarrow> string \<Rightarrow> TenantRef \<Rightarrow> MemoryStore \<Rightarrow> MemoryStore" where
  "move_runs fromPrefix toPrefix clusterID ref m =
     (let ks = map fst (runs m) in
      m\<lparr>runs := move_rows fromPrefix toPrefix (merge_rows mergeMigratedRun) (runs m),
        runScopes := fold (move_run_scope fromPrefix toPrefix clusterID ref) ks (runScopes m),
        idempotencyPrimary :=
          fold (\<lambda>key t. if hasPrefix key fromPrefix then mdel key t else t) ks (idempotencyPrimary m)\<rparr>)"

text \<open>Sessions with a transcript, a summary, a preference or a generation under the old scope.\<close>

definition NUL :: char where "NUL = CHR 0x00"

definition collectSession :: "string \<Rightarrow> string \<Rightarrow> string list" where
  "collectSession fromPrefix key =
     (if \<not> hasPrefix key fromPrefix then []
      else case Cut (TrimPrefix key fromPrefix) (CHR ''|'') of (agentName, sessionID, ok) \<Rightarrow>
        if ok \<and> agentName \<noteq> [] \<and> sessionID \<noteq> [] then [agentName @ NUL # sessionID] else [])"

definition affectedSessions :: "string \<Rightarrow> MemoryStore \<Rightarrow> string list" where
  "affectedSessions fromPrefix m =
     sort (remdups (concat (map (collectSession fromPrefix)
       (map fst (messages m) @ map fst (summaries m) @ map fst (sessionModels m) @
        map fst (summaryGenerations m)))))"

definition bump_generation :: "string \<Rightarrow> int gomap \<Rightarrow> int gomap" where
  "bump_generation k t = mput k (mgetd 0 t k + 1) t"

definition bump_session :: "string \<Rightarrow> string \<Rightarrow> int gomap \<Rightarrow> int gomap" where
  "bump_session toPrefix session t =
     (case Cut session NUL of (agentName, sessionID, _) \<Rightarrow>
        bump_generation (toPrefix @ agentName @ bar @ sessionID) t)"

text \<open>The oldest run under each idempotency key of the target tenant stays the lookup winner.\<close>

definition winner_group :: "Run \<Rightarrow> string" where
  "winner_group run = run_AgentName run @ bar @ run_IdempotencyKey run"

definition choose_winners :: "string \<Rightarrow> Run gomap \<Rightarrow> string gomap" where
  "choose_winners toPrefix rs =
     fold (\<lambda>(key, run) w.
       if hasPrefix key toPrefix \<and> run_IdempotencyKey run \<noteq> [] then
         (case mget w (winner_group run) of
            None \<Rightarrow> mput (winner_group run) key w
          | Some winner \<Rightarrow> if earlierRun run (mgetd zero_Run rs winner)
                          then mput (winner_group run) key w else w)
       else w) rs []"

definition mark_winners :: "string \<Rightarrow> Run gomap \<Rightarrow> bool gomap \<Rightarrow> bool gomap" where
  "mark_winners toPrefix rs t =
     (let winners = choose_winners toPrefix rs in
      fold (\<lambda>(key, run) t.
        if hasPrefix key toPrefix \<and> run_IdempotencyKey run \<noteq> []
        then mput key (mgetd [] winners (winner_group run) = key) t else t) rs t)"

section \<open>The migration\<close>

definition hasUnmappedRows :: "string \<Rightarrow> string \<Rightarrow> MemoryStore \<Rightarrow> bool" where
  "hasUnmappedRows tenant pre m \<longleftrightarrow>
     list_ex (\<lambda>(k, _). hasPrefix k pre) (messages m) \<or>
     list_ex (\<lambda>(k, _). hasPrefix k pre) (deliveries m) \<or>
     list_ex (\<lambda>(k, _). hasPrefix k pre) (runs m) \<or>
     list_ex (\<lambda>(k, _). hasPrefix k pre) (memories m) \<or>
     list_ex (\<lambda>(k, _). hasPrefix k pre) (inbox m) \<or>
     list_ex (\<lambda>(k, _). k = tenant) (toolCalls m) \<or>
     list_ex (\<lambda>(k, _). hasPrefix k pre) (usage m) \<or>
     list_ex (\<lambda>(k, _). hasPrefix k pre) (sessionModels m) \<or>
     list_ex (\<lambda>(k, _). hasPrefix k pre) (sessionTitles m) \<or>
     list_ex (\<lambda>(k, _). hasPrefix k pre) (summaries m) \<or>
     list_ex (\<lambda>(k, _). hasPrefix k pre) (summaryGenerations m) \<or>
     list_ex (\<lambda>(k, _). hasPrefix k pre) (harness m) \<or>
     list_ex (\<lambda>(k, _). hasPrefix k pre) (artifacts m) \<or>
     list_ex (\<lambda>(k, _). hasPrefix k pre) (agentAttachments m)"

definition move_tool_calls :: "string \<Rightarrow> string \<Rightarrow> ToolCall list gomap \<Rightarrow> ToolCall list gomap" where
  "move_tool_calls fromTenant toTenant t =
     (case mget t fromTenant of
        None \<Rightarrow> t
      | Some calls \<Rightarrow> mdel fromTenant (mput toTenant (mgetd [] t toTenant @ calls) t))"

text \<open>One step for each loop of the migration, in the code's order.\<close>

definition migrate_messages :: "string \<Rightarrow> string \<Rightarrow> MemoryStore \<Rightarrow> MemoryStore" where
  "migrate_messages f p m = m\<lparr>messages := move_rows f p append_rows (messages m)\<rparr>"

definition migrate_titles :: "string \<Rightarrow> string \<Rightarrow> MemoryStore \<Rightarrow> MemoryStore" where
  "migrate_titles f p m = m\<lparr>sessionTitles := move_titles f p (messages m) (sessionTitles m)\<rparr>"

definition migrate_memories :: "string \<Rightarrow> string \<Rightarrow> MemoryStore \<Rightarrow> MemoryStore" where
  "migrate_memories f p m =
     m\<lparr>memories := move_rows f p (keep_latest mem_UpdatedAt) (memories m)\<rparr>"

definition migrate_inbox :: "string \<Rightarrow> string \<Rightarrow> MemoryStore \<Rightarrow> MemoryStore" where
  "migrate_inbox f p m = m\<lparr>inbox := move_rows f p (keep_latest inb_UpdatedAt) (inbox m)\<rparr>"

definition migrate_tool_calls :: "string \<Rightarrow> string \<Rightarrow> MemoryStore \<Rightarrow> MemoryStore" where
  "migrate_tool_calls fromTenant toTenant m =
     m\<lparr>toolCalls := move_tool_calls fromTenant toTenant (toolCalls m)\<rparr>"

definition migrate_usage :: "string \<Rightarrow> string \<Rightarrow> MemoryStore \<Rightarrow> MemoryStore" where
  "migrate_usage f p m = m\<lparr>usage := move_rows f p (merge_rows add_usage) (usage m)\<rparr>"

definition migrate_models :: "string \<Rightarrow> string \<Rightarrow> MemoryStore \<Rightarrow> MemoryStore" where
  "migrate_models f p m = m\<lparr>sessionModels := move_rows f p keep_current (sessionModels m)\<rparr>"

definition migrate_summaries :: "string \<Rightarrow> string \<Rightarrow> MemoryStore \<Rightarrow> MemoryStore" where
  "migrate_summaries f p m =
     m\<lparr>summaries := move_rows f p (merge_rows mergeMigratedSummary) (summaries m)\<rparr>"

definition migrate_generations :: "string \<Rightarrow> string \<Rightarrow> string list \<Rightarrow> MemoryStore \<Rightarrow> MemoryStore" where
  "migrate_generations f p affected m =
     m\<lparr>summaryGenerations :=
         fold (bump_session p) affected (move_rows f p max_generation (summaryGenerations m))\<rparr>"

definition migrate_harness :: "string \<Rightarrow> string \<Rightarrow> MemoryStore \<Rightarrow> MemoryStore" where
  "migrate_harness f p m =
     m\<lparr>harness := move_rows f p (merge_rows mergeMigratedHarnessSession) (harness m)\<rparr>"

definition migrate_artifacts :: "string \<Rightarrow> string \<Rightarrow> MemoryStore \<Rightarrow> MemoryStore" where
  "migrate_artifacts f p m = m\<lparr>artifacts := move_rows f p keep_current (artifacts m)\<rparr>"

definition migrate_uploads :: "string \<Rightarrow> string \<Rightarrow> MemoryStore \<Rightarrow> MemoryStore" where
  "migrate_uploads f p m = m\<lparr>agentAttachments := move_rows f p keep_current (agentAttachments m)\<rparr>"

definition migrate_deliveries :: "string \<Rightarrow> string \<Rightarrow> MemoryStore \<Rightarrow> MemoryStore" where
  "migrate_deliveries f p m = m\<lparr>deliveries := move_rows f p append_deliveries (deliveries m)\<rparr>"

definition migrate_winners :: "string \<Rightarrow> MemoryStore \<Rightarrow> MemoryStore" where
  "migrate_winners p m = m\<lparr>idempotencyPrimary := mark_winners p (runs m) (idempotencyPrimary m)\<rparr>"

definition move_tables :: "string \<Rightarrow> TenantRef \<Rightarrow> MemoryStore \<Rightarrow> MemoryStore" where
  "move_tables clusterID ref m =
     (let fromTenant = UnmappedOrg @ bar @ clusterID;
          toTenant = ref_OrgUUID ref @ bar @ ref_WorkspaceUUID ref;
          f = fromTenant @ bar; p = toTenant @ bar;
          affected = affectedSessions f m;
          m = migrate_messages f p m;
          m = migrate_titles f p m;
          m = move_runs f p clusterID ref m;
          m = migrate_memories f p m;
          m = migrate_inbox f p m;
          m = migrate_tool_calls fromTenant toTenant m;
          m = migrate_usage f p m;
          m = migrate_models f p m;
          m = migrate_summaries f p m;
          m = migrate_generations f p affected m;
          m = migrate_harness f p m;
          m = migrate_artifacts f p m;
          m = migrate_uploads f p m;
          m = migrate_deliveries f p m
      in migrate_winners p m)"

lemmas migrate_steps = migrate_messages_def migrate_titles_def migrate_memories_def migrate_inbox_def
  migrate_tool_calls_def migrate_usage_def migrate_models_def migrate_summaries_def
  migrate_generations_def migrate_harness_def migrate_artifacts_def migrate_uploads_def
  migrate_deliveries_def migrate_winners_def

definition migrateUnmappedScope :: "string \<Rightarrow> TenantRef \<Rightarrow> MemoryStore \<Rightarrow> MemoryStore" where
  "migrateUnmappedScope clusterID ref m =
     (let fromTenant = UnmappedOrg @ bar @ clusterID;
          toTenant = ref_OrgUUID ref @ bar @ ref_WorkspaceUUID ref
      in if clusterID = [] \<or> ref_OrgUUID ref = [] \<or> ref_WorkspaceUUID ref = [] \<or> fromTenant = toTenant
         then m
         else if \<not> hasUnmappedRows fromTenant (fromTenant @ bar) m then m
         else move_tables clusterID ref m)"

definition normalizeScopeLocked :: "MemoryStore \<Rightarrow> Scope \<Rightarrow> Scope \<times> MemoryStore" where
  "normalizeScopeLocked m scope =
     (if sc_OrgUUID scope \<noteq> UnmappedOrg \<or> sc_WorkspaceUUID scope = [] then (scope, m)
      else
        (let clusterID = (if sc_ClusterID scope = [] then sc_WorkspaceUUID scope else sc_ClusterID scope)
         in case mget (tenants m) clusterID of
              None \<Rightarrow> (scope, m)
            | Some ref \<Rightarrow>
                if ref_OrgUUID ref = [] \<or> ref_WorkspaceUUID ref = [] then (scope, m)
                else (scope\<lparr>sc_OrgUUID := ref_OrgUUID ref, sc_WorkspaceUUID := ref_WorkspaceUUID ref,
                        sc_ClusterID := clusterID\<rparr>,
                      migrateUnmappedScope clusterID ref m)))"

definition normalizeScope :: "MemoryStore \<Rightarrow> Scope \<Rightarrow> Scope \<times> MemoryStore" where
  "normalizeScope m scope = normalizeScopeLocked m scope"

text \<open>
  An operation resolves its scope, checks it, and runs its body; a body that takes the mutex
  again resolves the scope once more inside the critical section.
\<close>

definition scoped :: "(Scope \<Rightarrow> check) \<Rightarrow> MemoryStore \<Rightarrow> Scope \<Rightarrow>
    (Scope \<Rightarrow> MemoryStore \<Rightarrow> 'a result \<times> MemoryStore) \<Rightarrow> 'a result \<times> MemoryStore" where
  "scoped validate m scope body =
     (case normalizeScope m scope of (scope, m) \<Rightarrow>
        (case validate scope of Some e \<Rightarrow> (Inl e, m) | None \<Rightarrow> body scope m))"

definition locked :: "Scope \<Rightarrow> MemoryStore \<Rightarrow>
    (Scope \<Rightarrow> MemoryStore \<Rightarrow> 'a result \<times> MemoryStore) \<Rightarrow> 'a result \<times> MemoryStore" where
  "locked scope m body = (case normalizeScopeLocked m scope of (scope, m) \<Rightarrow> body scope m)"

section \<open>Tenant mapping operations\<close>

definition SaveTenantRef :: "MemoryStore \<Rightarrow> string \<Rightarrow> TenantRef \<Rightarrow> unit result \<times> MemoryStore" where
  "SaveTenantRef m clusterID ref =
     (case validateTenantRef clusterID ref of
        Some e \<Rightarrow> (Inl e, m)
      | None \<Rightarrow>
          (case mget (tenants m) clusterID of
             Some current \<Rightarrow>
               if ref_OrgUUID current \<noteq> ref_OrgUUID ref \<or> ref_WorkspaceUUID current \<noteq> ref_WorkspaceUUID ref
               then (Inl (Errorf ''tenant mapping is immutable''), m)
               else (Inr (), migrateUnmappedScope clusterID ref m)
           | None \<Rightarrow>
               (let m = migrateUnmappedScope clusterID ref m
                in (Inr (), m\<lparr>tenants := mput clusterID ref (tenants m)\<rparr>))))"

definition GetTenantRef :: "MemoryStore \<Rightarrow> string \<Rightarrow> TenantRef option" where
  "GetTenantRef m clusterID = mget (tenants m) clusterID"

definition FindClusterForScope :: "MemoryStore \<Rightarrow> string \<Rightarrow> string \<Rightarrow> string option" where
  "FindClusterForScope m orgUUID workspaceUUID =
     map_option fst (find (\<lambda>(_, ref). ref_OrgUUID ref = orgUUID \<and> ref_WorkspaceUUID ref = workspaceUUID)
       (tenants m))"

end
