(* ===== verification/MigrationFacts.thy ===== *)
theory MigrationFacts
  imports Migration
begin

text \<open>
  What the migration does to a table, row by row, and the invariant it establishes: once a
  cluster has a tenant, no row is filed under the cluster-keyed scope any more. In such a
  settled store resolving a scope changes no table, so an operation is its body on the resolved
  scope.

  The frame every operation is proved against: outside the tenant it runs for, the store is what
  it was, row for row. Two consequences are shared by all operations: a tenant never observes
  another, and a store whose mapped clusters have no rows left under their cluster-keyed scope
  (\<open>settled\<close>) stays that way, so that resolving a scope moves nothing.
\<close>

section \<open>One table\<close>

definition apart :: "string \<Rightarrow> string \<Rightarrow> bool" where
  "apart fromPrefix toPrefix \<longleftrightarrow> (\<forall>x. \<not> hasPrefix (toPrefix @ x) fromPrefix)"

lemma apart_D: "apart f p \<Longrightarrow> hasPrefix k p \<Longrightarrow> \<not> hasPrefix k f"
  by (auto simp: apart_def hasPrefix_iff [of k p])

lemma mget_Cons: "mget ((key, v) # t) k = (if k = key then Some v else mget t k)"
  by (simp add: mget_def)

lemma mget_not_key: "k \<notin> fst ` set t \<Longrightarrow> mget t k = None"
  by (simp add: mget_def map_of_eq_None_iff)

lemma mget_move_rows_gen:
  assumes "apart f p" and "distinct (map fst xs)"
  shows "mget (fold (move_row f p merge) xs t) k =
    (if hasPrefix k f then (if k \<in> fst ` set xs then None else mget t k)
     else if hasPrefix k p then
       (case mget xs (f @ TrimPrefix k p) of
          None \<Rightarrow> mget t k
        | Some v \<Rightarrow> (case merge (mget t k) v of None \<Rightarrow> mget t k | Some w \<Rightarrow> Some w))
     else mget t k)"
  using assms(2)
proof (induction xs arbitrary: t)
  case Nil
  then show ?case by simp
next
  case (Cons kv xs)
  obtain key v where kv: "kv = (key, v)" by (cases kv)
  have xs: "distinct (map fst xs)" and fresh: "key \<notin> fst ` set xs"
    using Cons.prems by (auto simp: kv)
  note IH = Cons.IH [OF xs, of "move_row f p merge (key, v) t"]
  show ?case
  proof (cases "hasPrefix key f")
    case False
    have "mget (kv # xs) (f @ y) = mget xs (f @ y)" for y
      using False by (auto simp: kv mget_Cons)
    moreover have eq: "move_row f p merge (key, v) t = t" using False by (simp add: move_row_def)
    moreover have "hasPrefix k f \<Longrightarrow> k \<noteq> key" using False by blast
    ultimately show ?thesis using IH [unfolded eq] by (simp add: kv)
  next
    case True
    then obtain x where key: "key = f @ x" by (auto simp: hasPrefix_iff)
    have step: "mget (move_row f p merge (key, v) t) l =
        (if l = key then None
         else if l = p @ x then (case merge (mget t l) v of None \<Rightarrow> mget t l | Some w \<Rightarrow> Some w)
         else mget t l)" for l
      by (auto simp: move_row_def moveKey_def key Let_def split: option.splits)
    have off: "\<not> hasPrefix (p @ y) f" for y using assms(1) by (simp add: apart_def)
    then have pf: "p \<noteq> f" using hasPrefix_append [of f "[]"] by fastforce
    show ?thesis
    proof (cases "hasPrefix k f")
      case True
      then have "k \<noteq> p @ x" using off by blast
      with True show ?thesis using IH step by (auto simp: kv)
    next
      case nf: False
      then have "k \<noteq> key" using \<open>hasPrefix key f\<close> by blast
      show ?thesis
      proof (cases "k = p @ x")
        case True
        then have "mget xs (f @ TrimPrefix k p) = None"
          using fresh by (simp add: key mget_not_key)
        moreover have "mget (kv # xs) (f @ TrimPrefix k p) = Some v"
          using True by (simp add: kv key mget_Cons)
        ultimately show ?thesis using nf IH step True key off pf by (simp add: kv split: option.splits)
      next
        case False
        then have "hasPrefix k p \<Longrightarrow> mget (kv # xs) (f @ TrimPrefix k p) = mget xs (f @ TrimPrefix k p)"
          by (auto simp: kv key mget_Cons hasPrefix_iff)
        moreover have "mget (move_row f p merge (key, v) t) k = mget t k"
          using step [of k] False \<open>k \<noteq> key\<close> by simp
        ultimately show ?thesis using nf IH by (cases "hasPrefix k p") (simp_all add: kv cong: option.case_cong)
      qed
    qed
  qed
qed

lemma mget_move_rows:
  assumes "apart f p" and "wf_map t"
  shows "mget (move_rows f p merge t) k =
    (if hasPrefix k f then None
     else if hasPrefix k p then
       (case mget t (f @ TrimPrefix k p) of
          None \<Rightarrow> mget t k
        | Some v \<Rightarrow> (case merge (mget t k) v of None \<Rightarrow> mget t k | Some w \<Rightarrow> Some w))
     else mget t k)"
  using mget_move_rows_gen [OF assms(1), of t merge t k] assms(2)
  by (auto simp: move_rows_def wf_map_def mget_not_key)

lemma keys_move_row:
  "k \<in> fst ` set (move_row f p merge (key, v) t) \<Longrightarrow>
     (k \<in> fst ` set t \<and> (hasPrefix key f \<longrightarrow> k \<noteq> key)) \<or> hasPrefix k p \<and> k \<noteq> key \<or>
     (k \<in> fst ` set t \<and> \<not> hasPrefix key f)"
  by (auto simp: move_row_def moveKey_def Let_def split: option.splits if_splits)

lemma keys_move_rows_gen:
  assumes "apart f p" and "k \<in> fst ` set (fold (move_row f p merge) xs t)"
  shows "k \<in> fst ` set t \<and> (hasPrefix k f \<longrightarrow> k \<notin> fst ` set xs) \<or> hasPrefix k p"
  using assms(2)
proof (induction xs arbitrary: t)
  case Nil
  then show ?case by simp
next
  case (Cons kv xs)
  obtain key v where kv: "kv = (key, v)" by (cases kv)
  have "k \<in> fst ` set (move_row f p merge (key, v) t) \<and> (hasPrefix k f \<longrightarrow> k \<notin> fst ` set xs) \<or>
      hasPrefix k p"
    using Cons.IH [of "move_row f p merge (key, v) t"] Cons.prems by (simp add: kv)
  then show ?case using keys_move_row [of k f p merge key v t] by (auto simp: kv)
qed

lemma keys_move_rows:
  assumes "apart f p" and "k \<in> fst ` set (move_rows f p merge t)"
  shows "\<not> hasPrefix k f \<and> (k \<in> fst ` set t \<or> hasPrefix k p)"
  using keys_move_rows_gen [OF assms(1), of k merge t t] assms(2) apart_D [OF assms(1), of k]
  by (auto simp: move_rows_def)

lemma wf_move_row: "wf_map t \<Longrightarrow> wf_map (move_row f p merge kv t)"
  by (auto simp: move_row_def Let_def split: prod.splits option.splits)

lemma wf_fold: "(\<And>x t. wf_map t \<Longrightarrow> wf_map (g x t)) \<Longrightarrow> wf_map t \<Longrightarrow> wf_map (fold g xs t)"
  by (induction xs arbitrary: t) auto

lemma wf_move_rows [simp]: "wf_map t \<Longrightarrow> wf_map (move_rows f p merge t)"
  by (simp add: move_rows_def wf_fold wf_move_row)

section \<open>The rows a predicate on keys leaves out\<close>

definition others :: "(string \<Rightarrow> bool) \<Rightarrow> 'v gomap \<Rightarrow> 'v gomap" where
  "others P t = mfilter (\<lambda>k _. \<not> P k) t"

lemma others_put [simp]: "P k \<Longrightarrow> others P (mput k v t) = others P t"
  by (induction t) (auto simp: others_def mfilter_def mput_def)

lemma others_del [simp]: "P k \<Longrightarrow> others P (mdel k t) = others P t"
  by (induction t) (auto simp: others_def mfilter_def mdel_def AList.delete_eq)

lemma others_filter [simp]: "(\<And>k v. \<not> P k \<Longrightarrow> Q k v) \<Longrightarrow> others P (mfilter Q t) = others P t"
  by (induction t) (auto simp: others_def mfilter_def)

lemma others_mapm [simp]:
  "(\<And>k v. \<not> P k \<Longrightarrow> f k v = Some v) \<Longrightarrow> others P (mapm f t) = others P t"
  by (induction t) (auto simp: others_def mfilter_def mapm_Cons split: option.splits)

lemma others_fold:
  "(\<And>x t. x \<in> set xs \<Longrightarrow> others P (g x t) = others P t) \<Longrightarrow> others P (fold g xs t) = others P t"
  by (induction xs arbitrary: t) auto

lemma others_mget: "others P t' = others P t \<Longrightarrow> \<not> P k \<Longrightarrow> mget t' k = mget t k"
proof -
  assume e: "others P t' = others P t" and k: "\<not> P k"
  have "mget (others P t) k = mget t k" for t :: "'a gomap"
    unfolding others_def using mget_filter_key [of "\<lambda>k _. \<not> P k" k t] k by blast
  from this [of t'] this [of t] show "mget t' k = mget t k" by (simp only: e)
qed

lemma others_mgetd: "others P t' = others P t \<Longrightarrow> \<not> P k \<Longrightarrow> mgetd d t' k = mgetd d t k"
  using others_mget [of P t' t k] by (simp add: mgetd_def)

lemma list_ex_others:
  "(\<And>k. Q k \<Longrightarrow> \<not> P k) \<Longrightarrow> list_ex (\<lambda>(k, _). Q k) (others P t) \<longleftrightarrow> list_ex (\<lambda>(k, _). Q k) t"
  by (induction t) (auto simp: others_def mfilter_def)

lemma filter_others:
  "(\<And>k v. Q k v \<Longrightarrow> \<not> P k) \<Longrightarrow> filter (\<lambda>(k, v). Q k v) (others P t) = filter (\<lambda>(k, v). Q k v) t"
  by (induction t) (auto simp: others_def mfilter_def)

lemma others_list_ex:
  assumes "others P t' = others P t" and "\<And>k. Q k \<Longrightarrow> \<not> P k"
  shows "list_ex (\<lambda>(k, _). Q k) t' \<longleftrightarrow> list_ex (\<lambda>(k, _). Q k) t"
  using list_ex_others [of Q P t'] list_ex_others [of Q P t] assms by simp

lemma others_rows:
  assumes "others P t' = others P t" and "\<And>k v. Q k v \<Longrightarrow> \<not> P k"
  shows "filter (\<lambda>(k, v). Q k v) t' = filter (\<lambda>(k, v). Q k v) t"
  using filter_others [of Q P t'] filter_others [of Q P t] assms by simp

section \<open>Confinement to one tenant\<close>

text \<open>The tables under a tenant's key prefix, the audit log under its key, the rest untouched.
  Harness MCP sessions are filed under a token hash and are not tenant rows.\<close>

definition confined :: "Scope \<Rightarrow> MemoryStore \<Rightarrow> MemoryStore \<Rightarrow> bool" where
  "confined s m m' \<longleftrightarrow>
     (let P = (\<lambda>k. hasPrefix k (tenantPrefix s)); T = (\<lambda>k. k = tenantKey s) in
      others P (sessionModels m') = others P (sessionModels m) \<and>
      others P (messages m') = others P (messages m) \<and>
      others P (sessionTitles m') = others P (sessionTitles m) \<and>
      others P (runs m') = others P (runs m) \<and>
      others P (memories m') = others P (memories m) \<and>
      others P (inbox m') = others P (inbox m) \<and>
      others T (toolCalls m') = others T (toolCalls m) \<and>
      others P (usage m') = others P (usage m) \<and>
      others P (summaries m') = others P (summaries m) \<and>
      others P (summaryGenerations m') = others P (summaryGenerations m) \<and>
      others P (harness m') = others P (harness m) \<and>
      others P (idempotencyPrimary m') = others P (idempotencyPrimary m) \<and>
      others P (artifacts m') = others P (artifacts m) \<and>
      others P (agentArtifacts m') = others P (agentArtifacts m) \<and>
      others P (agentAttachments m') = others P (agentAttachments m) \<and>
      others P (deliveries m') = others P (deliveries m) \<and>
      others P (runScopes m') = others P (runScopes m) \<and>
      tenants m' = tenants m \<and> attachmentQuota m' = attachmentQuota m)"

lemma confined_refl [simp]: "confined s m m"
  by (simp add: confined_def)

lemma confined_trans: "confined s m m' \<Longrightarrow> confined s m' m'' \<Longrightarrow> confined s m m''"
  by (simp add: confined_def Let_def)

lemma confined_tenants: "confined s m m' \<Longrightarrow> tenants m' = tenants m"
  by (simp add: confined_def Let_def)

text \<open>Keys of the tenant's rows.\<close>

lemma in_tenant [simp]:
  "hasPrefix (rowKey s x) (tenantPrefix s)"
  "hasPrefix (sessionKey s x) (tenantPrefix s)"
  "hasPrefix (artifactKey s x y) (tenantPrefix s)"
  "hasPrefix (agentPrefix s @ x) (tenantPrefix s)"
  "hasPrefix (tenantPrefix s @ x) (tenantPrefix s)"
  by (simp_all add: rowKey_prefix sessionKey_prefix(2) artifactKey_prefix)
    (simp add: agentPrefix_def tenantPrefix_def hasPrefix_iff)

lemma hasPrefix_trans: "hasPrefix k p \<Longrightarrow> hasPrefix p q \<Longrightarrow> hasPrefix k q"
  by (auto simp: hasPrefix_iff)

lemma agentPrefix_tenant: "hasPrefix k (agentPrefix s) \<Longrightarrow> hasPrefix k (tenantPrefix s)"
  using hasPrefix_trans [of k "agentPrefix s"] by (auto simp: agentPrefix_def tenantPrefix_def hasPrefix_iff)

text \<open>What another tenant reads.\<close>

lemma tenant_disjoint:
  "plain_scope a \<Longrightarrow> plain_scope b \<Longrightarrow> \<not> same_tenant a b \<Longrightarrow> hasPrefix k (tenantPrefix b) \<Longrightarrow>
     \<not> hasPrefix k (tenantPrefix a)"
  using hasPrefix_tenantPrefix by (metis hasPrefix_iff same_tenant_def)

lemma tenantKey_eq: "plain_scope a \<Longrightarrow> plain_scope b \<Longrightarrow> tenantKey a = tenantKey b \<longleftrightarrow> same_tenant a b"
  using tenantPrefix_eq [of a b "[]" "[]"] by (auto simp: tenantPrefix_def same_tenant_def tenantKey_def)

section \<open>Settled stores\<close>

definition unmappedScope :: "string \<Rightarrow> Scope" where
  "unmappedScope c = zero_Scope\<lparr>sc_OrgUUID := UnmappedOrg, sc_WorkspaceUUID := c\<rparr>"

definition good_ref :: "TenantRef \<Rightarrow> bool" where
  "good_ref ref \<longleftrightarrow> ref_OrgUUID ref \<noteq> [] \<and> ref_WorkspaceUUID ref \<noteq> [] \<and>
     ref_OrgUUID ref \<noteq> UnmappedOrg \<and> plain (ref_OrgUUID ref) \<and> plain (ref_WorkspaceUUID ref)"

definition cleared :: "string \<Rightarrow> MemoryStore \<Rightarrow> bool" where
  "cleared c m \<longleftrightarrow> \<not> hasUnmappedRows (tenantKey (unmappedScope c)) (tenantPrefix (unmappedScope c)) m"

definition settled :: "MemoryStore \<Rightarrow> bool" where
  "settled m \<longleftrightarrow> (\<forall>(c, ref) \<in> set (tenants m). good_ref ref \<and> plain c \<and> c \<noteq> [] \<and> cleared c m)"

text \<open>A request names a tenant, or a cluster whose tenant is not known yet.\<close>

definition good_scope :: "Scope \<Rightarrow> bool" where
  "good_scope s \<longleftrightarrow> plain_scope s \<and>
     (sc_OrgUUID s = UnmappedOrg \<longrightarrow> sc_ClusterID s = [] \<or> sc_ClusterID s = sc_WorkspaceUUID s)"

definition resolve :: "MemoryStore \<Rightarrow> Scope \<Rightarrow> Scope" where
  "resolve m s = fst (normalizeScopeLocked m s)"

lemma unmapped_keys:
  "tenantKey (unmappedScope c) = UnmappedOrg @ bar @ c"
  "tenantPrefix (unmappedScope c) = (UnmappedOrg @ bar @ c) @ bar"
  by (simp_all add: unmappedScope_def tenantKey_def tenantPrefix_def)

lemma plain_unmapped [simp]: "plain_scope (unmappedScope c) \<longleftrightarrow> plain c"
  by (simp add: plain_scope_def unmappedScope_def plain_def)

lemma settledD:
  assumes "settled m" "mget (tenants m) c = Some ref"
  shows "good_ref ref" "plain c" "c \<noteq> []" "cleared c m"
  using assms mget_in_set by (fastforce simp: settled_def)+

text \<open>In a settled store resolving a scope moves no row.\<close>

lemma migrate_settled:
  "settled m \<Longrightarrow> mget (tenants m) c = Some ref \<Longrightarrow> migrateUnmappedScope c ref m = m"
  using settledD(4) [of m c ref] by (simp add: migrateUnmappedScope_def cleared_def unmapped_keys Let_def)

lemma normalize_settled: "settled m \<Longrightarrow> normalizeScopeLocked m s = (resolve m s, m)"
  by (simp add: resolve_def normalizeScopeLocked_def migrate_settled Let_def split: option.splits)

lemma resolve_resolve: "settled m \<Longrightarrow> resolve m (resolve m s) = resolve m s"
  by (auto simp: resolve_def normalizeScopeLocked_def Let_def good_ref_def
      split: option.splits dest: settledD(1))

lemma scoped_settled:
  "settled m \<Longrightarrow> scoped check m s body =
     (case check (resolve m s) of Some e \<Rightarrow> (Inl e, m) | None \<Rightarrow> body (resolve m s) m)"
  by (simp add: scoped_def normalizeScope_def normalize_settled)

lemma locked_settled: "settled m \<Longrightarrow> locked s m body = body (resolve m s) m"
  by (simp add: locked_def normalize_settled)

text \<open>The resolved scope is a tenant of its own, never a mapped cluster's fallback.\<close>

definition resolved :: "MemoryStore \<Rightarrow> Scope \<Rightarrow> bool" where
  "resolved m s \<longleftrightarrow> plain_scope s \<and>
     (\<forall>(c, ref) \<in> set (tenants m). \<not> same_tenant s (unmappedScope c))"

lemma resolve_resolved:
  assumes "settled m" "good_scope s"
  shows "resolved m (resolve m s)"
proof -
  have "\<forall>c ref. (c, ref) \<in> set (tenants m) \<longrightarrow> mget (tenants m) c \<noteq> None"
    using weak_map_of_SomeI by (fastforce simp: mget_def)
  moreover have "\<forall>c ref. (c, ref) \<in> set (tenants m) \<longrightarrow> c \<noteq> []"
    using assms(1) by (auto simp: settled_def)
  ultimately show ?thesis
    using assms(2) settledD [OF assms(1)]
    by (auto simp: resolved_def resolve_def normalizeScopeLocked_def good_scope_def good_ref_def
        plain_scope_def same_tenant_def unmappedScope_def Let_def split: option.splits if_splits)
qed

lemma confined_cleared:
  assumes "confined s m m'" "plain_scope s" "plain c" "\<not> same_tenant s (unmappedScope c)"
  shows "cleared c m' \<longleftrightarrow> cleared c m"
proof -
  have d: "\<not> hasPrefix k (tenantPrefix s)" if "hasPrefix k (tenantPrefix (unmappedScope c))" for k
    using tenant_disjoint [of s "unmappedScope c"] that assms by simp
  have t: "\<not> k = tenantKey s" if "k = tenantKey (unmappedScope c)" for k
    using that assms tenantKey_eq [of "unmappedScope c" s] by (auto simp: same_tenant_def)
  note ex = others_list_ex [where Q = "\<lambda>k. hasPrefix k (tenantPrefix (unmappedScope c))", OF _ d]
    and ext = others_list_ex [where Q = "\<lambda>k. k = tenantKey (unmappedScope c)", OF _ t]
  show ?thesis
    unfolding cleared_def hasUnmappedRows_def
    by (intro arg_cong [where f = Not] arg_cong2 [where f = "(\<or>)"] ex ext)
      (use assms(1) in \<open>simp_all add: confined_def Let_def\<close>)
qed

lemma confined_settled:
  "confined s m m' \<Longrightarrow> resolved m s \<Longrightarrow> settled m \<Longrightarrow> settled m'"
  using confined_cleared confined_tenants by (fastforce simp: settled_def resolved_def)

text \<open>Every operation keeps the store settled: it is confined to the scope it resolved.\<close>

lemma op_settled:
  assumes "settled m" "good_scope s" "confined (resolve m s) m m'"
  shows "settled m'"
  using confined_settled [OF assms(3) resolve_resolved assms(1)] assms by blast

end
