(* ===== verification/Cursors.thy ===== *)
theory Cursors
  imports MigrationFacts
begin

text \<open>
  Page cursors (\<open>encodeCursor\<close>, \<open>decodeCursor\<close> in \<open>store.go\<close>) and the clamping of limits. A cursor
  string is modelled as what its base64 and JSON layers hold: nothing, a time with an id, or
  bytes that do not decode; the checks the store makes on the decoded payload are here.
\<close>

datatype cursor = NoCursor | Cursor time string | BadCursor string

definition encodeCursor :: "time \<Rightarrow> string \<Rightarrow> cursor" where
  "encodeCursor createdAt rid = Cursor createdAt rid"

definition decodeCursor :: "cursor \<Rightarrow> (time \<times> string) result" where
  "decodeCursor raw =
     (case raw of
        NoCursor \<Rightarrow> Inr (0, [])
      | BadCursor _ \<Rightarrow> Inl (Errorf ''decode cursor'')
      | Cursor t rid \<Rightarrow>
          if IsZero t \<or> blank rid then Inl (Errorf ''cursor is missing createdAt or id'')
          else Inr (t, rid))"

text \<open>What a listing skips: every row at or after the cursor, when there is one.\<close>

definition bound_of :: "time \<times> string \<Rightarrow> stamp option" where
  "bound_of b = (if IsZero (fst b) then None else Some (Stamp (fst b) (snd b)))"

definition cursor_of :: "stamp option \<Rightarrow> cursor" where
  "cursor_of s = (case s of None \<Rightarrow> NoCursor | Some (Stamp t rid) \<Rightarrow> encodeCursor t rid)"

text \<open>What a client makes of the next cursor of a page, and the rows whose cursors decode.\<close>

definition stamp_of :: "cursor \<Rightarrow> stamp option" where
  "stamp_of c = (case c of Cursor t rid \<Rightarrow> Some (Stamp t rid) | _ \<Rightarrow> None)"

definition pageable :: "('a \<Rightarrow> stamp) \<Rightarrow> 'a list \<Rightarrow> bool" where
  "pageable key xs \<longleftrightarrow> distinct (map key xs) \<and>
     (\<forall>x \<in> set xs. \<not> IsZero (stamp_time (key x)) \<and> \<not> blank (stamp_id (key x)))"

lemma stamp_of_cursor_of [simp]: "stamp_of (cursor_of s) = s"
  by (auto simp: stamp_of_def cursor_of_def encodeCursor_def split: option.splits stamp.splits)

lemma decode_none [simp]: "decodeCursor (cursor_of None) = Inr (0, [])" "bound_of (0, []) = None"
  by (simp_all add: decodeCursor_def bound_of_def cursor_of_def)

lemma decode_row:
  assumes "pageable key xs" "x \<in> set xs"
  shows "decodeCursor (cursor_of (Some (key x))) = Inr (stamp_time (key x), stamp_id (key x))"
    "bound_of (stamp_time (key x), stamp_id (key x)) = Some (key x)"
  using assms
  by (cases "key x", auto simp: pageable_def decodeCursor_def cursor_of_def encodeCursor_def bound_of_def)

definition clampLimit :: "int \<Rightarrow> int \<Rightarrow> int \<Rightarrow> nat" where
  "clampLimit limit most dflt = (if limit \<le> 0 \<or> limit > most then nat dflt else nat limit)"

lemma clampLimit_pos: "0 < dflt \<Longrightarrow> 0 < clampLimit limit most dflt"
  by (simp add: clampLimit_def)

lemma clampLimit_le: "0 < dflt \<Longrightarrow> dflt \<le> most \<Longrightarrow> clampLimit limit most dflt \<le> nat most"
  by (auto simp: clampLimit_def)

end
