(* ===== verification/UploadPolicy.thy ===== *)
theory UploadPolicy
  imports SessionTypes Sha256
begin

text \<open>
  The shared upload format (\<open>provider-sdk/attachments/policy.go\<close>): media types, identifiers,
  filenames, content checks and receipts. \<open>mime.ParseMediaType\<close> and the \<open>path\<close> functions it
  calls are modelled as far as it uses them: which inputs parse, and the media type found.
\<close>

section \<open>mime.ParseMediaType\<close>

definition tspecial :: "char \<Rightarrow> bool" where
  "tspecial c \<longleftrightarrow> c \<in> set ''()<>@,;:/[]?='' \<or> c = CHR 0x22 \<or> c = CHR 0x5C"

definition token_char :: "char \<Rightarrow> bool" where
  "token_char c \<longleftrightarrow> CHR 0x20 < c \<and> c < CHR 0x7F \<and> \<not> tspecial c"

definition consumeToken :: "string \<Rightarrow> string \<times> string" where
  "consumeToken v = (takeWhile token_char v, dropWhile token_char v)"

definition checkMediaType :: "string \<Rightarrow> bool" where
  "checkMediaType s =
     (case consumeToken s of (typ, rest) \<Rightarrow>
        if typ = [] then False
        else case rest of [] \<Rightarrow> True
          | c # r \<Rightarrow> if c \<noteq> CHR ''/'' then False
              else (case consumeToken r of (sub, rest') \<Rightarrow> sub \<noteq> [] \<and> rest' = []))"

text \<open>A quoted value after its opening quote: \<open>None\<close> when it does not end.\<close>

fun quoted :: "string \<Rightarrow> string \<Rightarrow> (string \<times> string) option" where
  "quoted acc [] = None"
| "quoted acc [c] =
     (if c = CHR 0x22 then Some (rev acc, []) else None)"
| "quoted acc (c # d # v) =
     (if c = CHR 0x22 then Some (rev acc, d # v)
      else if c = CHR 0x5C \<and> tspecial d then quoted (d # acc) v
      else if c = CHR 0x0D \<or> c = CHR 0x0A then None
      else quoted (c # acc) (d # v))"

definition consumeValue :: "string \<Rightarrow> string \<times> string" where
  "consumeValue v =
     (case v of [] \<Rightarrow> ([], [])
      | c # r \<Rightarrow> if c \<noteq> CHR 0x22 then consumeToken v
                else (case quoted [] r of None \<Rightarrow> ([], v) | Some x \<Rightarrow> x))"

text \<open>One parameter, \<open>None\<close> when there is none; the caller keeps the unread input then.\<close>

definition consumeMediaParam :: "string \<Rightarrow> (string \<times> string \<times> string) option" where
  "consumeMediaParam v =
     (case trim_left v of
        [] \<Rightarrow> None
      | c # r \<Rightarrow>
          if c \<noteq> CHR '';'' then None
          else (case consumeToken (trim_left r) of (param, r) \<Rightarrow>
            if param = [] then None
            else (case trim_left r of
                [] \<Rightarrow> None
              | c # r \<Rightarrow>
                  if c \<noteq> CHR ''='' then None
                  else (let r = trim_left r in
                    case consumeValue r of (val, r') \<Rightarrow>
                      if val = [] \<and> r' = r then None else Some (ToLower param, val, r')))))"

text \<open>The parameter list; every turn reads a semicolon, so the length of the input is fuel enough.\<close>

fun mediaParams :: "nat \<Rightarrow> string gomap \<Rightarrow> string \<Rightarrow> bool" where
  "mediaParams 0 ps v = (v = [])"
| "mediaParams (Suc n) ps v =
     (let v = trim_left v in
      if v = [] then True
      else case consumeMediaParam v of
          None \<Rightarrow> TrimSpace v = '';''
        | Some (key, val, rest) \<Rightarrow>
            (case mget ps key of
               Some val' \<Rightarrow> if val' \<noteq> val then False else mediaParams n ps rest
             | None \<Rightarrow> mediaParams n (mput key val ps) rest))"

definition ParseMediaType :: "string \<Rightarrow> string option" where
  "ParseMediaType v =
     (let base = fst (Cut v (CHR '';'')); mediatype = TrimSpace (ToLower base)
      in if \<not> checkMediaType mediatype then None
         else if mediaParams (Suc (length v)) [] (drop (length base) v) then Some mediatype else None)"

section \<open>path.Base, path.Ext\<close>

definition path_Base :: "string \<Rightarrow> string" where
  "path_Base s =
     (if s = [] then ''.''
      else (let r = dropWhile (\<lambda>c. c = CHR ''/'') (rev s)
            in if r = [] then ''/'' else rev (takeWhile (\<lambda>c. c \<noteq> CHR ''/'') r)))"

definition path_Ext :: "string \<Rightarrow> string" where
  "path_Ext s =
     (let r = takeWhile (\<lambda>c. c \<noteq> CHR ''/'') (rev s)
      in if CHR ''.'' \<in> set r then CHR ''.'' # rev (takeWhile (\<lambda>c. c \<noteq> CHR ''.'') r) else [])"

section \<open>Bounds and kinds\<close>

definition AttachmentMaxBytes :: nat where "AttachmentMaxBytes = 25 * 2 ^ 20"
definition AttachmentMaxImageBytes :: nat where "AttachmentMaxImageBytes = 8 * 2 ^ 20"
definition AttachmentMaxTextBytes :: nat where "AttachmentMaxTextBytes = 2 ^ 20"
definition AttachmentMaxFilenameBytes :: nat where "AttachmentMaxFilenameBytes = 255"
definition AttachmentMaxIDBytes :: nat where "AttachmentMaxIDBytes = 128"
definition AttachmentMaxContentTypeBytes :: nat where "AttachmentMaxContentTypeBytes = 127"
definition MaxAttachmentsPerTurn :: nat where "MaxAttachmentsPerTurn = 8"
definition MaxBytesPerTurn :: int where "MaxBytesPerTurn = 50 * 2 ^ 20"

abbreviation AttachmentKindImage :: string where "AttachmentKindImage \<equiv> ''image''"
abbreviation AttachmentKindText :: string where "AttachmentKindText \<equiv> ''text''"
abbreviation AttachmentKindFile :: string where "AttachmentKindFile \<equiv> ''file''"

definition AttachmentKind :: "string \<Rightarrow> string" where
  "AttachmentKind contentType =
     (let t = ToLower (TrimSpace contentType)
      in if t \<in> {''image/png'', ''image/jpeg'', ''image/webp''} then AttachmentKindImage
         else if t \<in> {''text/plain'', ''text/markdown''} then AttachmentKindText
         else AttachmentKindFile)"

definition AttachmentMaxBytesFor :: "string \<Rightarrow> nat" where
  "AttachmentMaxBytesFor kind =
     (if kind = AttachmentKindImage then AttachmentMaxImageBytes
      else if kind = AttachmentKindText then AttachmentMaxTextBytes else AttachmentMaxBytes)"

definition AttachmentKindFor :: "string \<Rightarrow> nat \<Rightarrow> string" where
  "AttachmentKindFor contentType sz =
     (let kind = AttachmentKind contentType
      in if kind \<noteq> AttachmentKindFile \<and> sz > AttachmentMaxBytesFor kind
         then AttachmentKindFile else kind)"

definition NormalizeAttachmentContentType :: "string \<Rightarrow> string result" where
  "NormalizeAttachmentContentType raw =
     (let raw = TrimSpace raw in
      if raw = [] then Inl (Errorf ''attachment content type is required'')
      else case ParseMediaType raw of
          None \<Rightarrow> Inl (Errorf ''invalid attachment content type'')
        | Some t \<Rightarrow>
            (let t = ToLower (TrimSpace t) in
             case Cut t (CHR ''/'') of (major, minor, ok) \<Rightarrow>
               if \<not> ok \<or> major = [] \<or> minor = [] \<or> length t > AttachmentMaxContentTypeBytes
               then Inl (Errorf ''unsupported attachment content type'') else Inr t))"

section \<open>Receipts\<close>

definition UploadMetadataMatches :: "AttachmentReceipt \<Rightarrow> AttachmentReceipt \<Rightarrow> bool" where
  "UploadMetadataMatches expected actual =
     (case NormalizeAttachmentContentType (rc_ContentType actual) of
        Inl _ \<Rightarrow> False
      | Inr contentType \<Rightarrow>
          rc_ID expected = rc_ID actual \<and> rc_Filename expected = rc_Filename actual \<and>
          rc_ContentType expected = contentType \<and> rc_SizeBytes expected = rc_SizeBytes actual \<and>
          EqualFold (rc_SHA256 expected) (TrimSpace (rc_SHA256 actual)))"

definition ReceiptsMatch :: "AttachmentReceipt \<Rightarrow> AttachmentReceipt \<Rightarrow> bool" where
  "ReceiptsMatch expected actual \<longleftrightarrow>
     UploadMetadataMatches expected actual \<and> \<not> IsZero (rc_CreatedAt actual) \<and>
     rc_CreatedAt expected = rc_CreatedAt actual"

section \<open>Identifiers and content\<close>

definition rune_control :: "string \<Rightarrow> bool" where
  "rune_control r =
     (case r of [c] \<Rightarrow> c < CHR 0x20 \<or> c = CHR 0x7F
      | [c, d] \<Rightarrow> c = CHR 0xC2 \<and> CHR 0x80 \<le> d \<and> d \<le> CHR 0x9F
      | _ \<Rightarrow> False)"

definition rune_space :: "string \<Rightarrow> bool" where
  "rune_space r \<longleftrightarrow> trim_left r = []"

definition id_rune_ok :: "string \<Rightarrow> bool" where
  "id_rune_ok r \<longleftrightarrow> \<not> rune_space r \<and> \<not> rune_control r \<and>
     r \<notin> {''/'', [CHR 0x5C], ''?'', ''#''}"

definition ValidateAttachmentID :: "string \<Rightarrow> check" where
  "ValidateAttachmentID rid =
     (let rid = TrimSpace rid in
      if rid = [] \<or> \<not> valid_utf8 rid \<or> length rid > AttachmentMaxIDBytes \<or> rid = ''.'' \<or> rid = ''..''
      then Some (Errorf ''attachment ID must be a safe non-empty value'')
      else if list_all id_rune_ok (runes rid) then None
      else Some (Errorf ''attachment ID must be a safe non-empty value''))"

definition filename_ok :: "string \<Rightarrow> check" where
  "filename_ok filename =
     (if filename = [] then Some (Errorf ''attachment filename is required'')
      else if \<not> valid_utf8 filename \<or> length filename > AttachmentMaxFilenameBytes
        then Some (Errorf ''attachment filename must be valid UTF-8 and bounded'')
      else if list_ex (\<lambda>c. c \<in> {CHR ''/'', CHR 0x5C, CHR 0x00, CHR 0x0D, CHR 0x0A}) filename \<or>
              filename = ''.'' \<or> filename = ''..'' \<or> path_Base filename \<noteq> filename
        then Some (Errorf ''attachment filename must be a single safe path segment'')
      else None)"

text \<open>Magic bytes, and the extension and encoding of text.\<close>

definition content_ok :: "string \<Rightarrow> string \<Rightarrow> string \<Rightarrow> check" where
  "content_ok filename contentType data =
     (if contentType = ''image/png'' then
        (if \<not> hasPrefix data [CHR 0x89, CHR ''P'', CHR ''N'', CHR ''G'', CHR 0x0D, CHR 0x0A, CHR 0x1A, CHR 0x0A]
         then Some (Errorf ''attachment data is not a PNG image'') else None)
      else if contentType = ''image/jpeg'' then
        (if \<not> hasPrefix data [CHR 0xFF, CHR 0xD8, CHR 0xFF]
         then Some (Errorf ''attachment data is not a JPEG image'') else None)
      else if contentType = ''image/webp'' then
        (if length data < 12 \<or> take 4 data \<noteq> ''RIFF'' \<or> take 4 (drop 8 data) \<noteq> ''WEBP''
         then Some (Errorf ''attachment data is not a WebP image'') else None)
      else if contentType = ''text/plain'' \<or> contentType = ''text/markdown'' then
        (let ext = ToLower (path_Ext filename) in
         if ext \<noteq> ''.txt'' \<and> ext \<noteq> ''.md''
           then Some (Errorf ''text attachments must use a .txt or .md filename'')
         else if \<not> valid_utf8 data then Some (Errorf ''text attachment must be valid UTF-8'')
         else None)
      else None)"

definition ValidateAttachmentContent :: "string \<Rightarrow> string \<Rightarrow> string \<Rightarrow> check" where
  "ValidateAttachmentContent filename contentType data =
     (case NormalizeAttachmentContentType contentType of
        Inl e \<Rightarrow> Some e
      | Inr contentType \<Rightarrow>
          (let filename = TrimSpace filename in
           case filename_ok filename of Some e \<Rightarrow> Some e
           | None \<Rightarrow>
               if data = [] then Some (Errorf ''attachment data is required'')
               else (let kind = AttachmentKindFor contentType (length data) in
                 if length data > AttachmentMaxBytesFor kind
                   then Some (Errorf ''attachment is too large'')
                 else if kind = AttachmentKindFile then None
                 else content_ok filename contentType data)))"

section \<open>What the checks give\<close>

lemma AttachmentMaxBytesFor_le: "AttachmentMaxBytesFor kind \<le> AttachmentMaxBytes"
  by (simp add: AttachmentMaxBytesFor_def AttachmentMaxImageBytes_def AttachmentMaxTextBytes_def
      AttachmentMaxBytes_def)

lemma ToLower_idem [simp]: "ToLower (ToLower s) = ToLower s"
proof -
  have "lower_char (lower_char c) = lower_char c" for c
    by (cases "CHR ''A'' \<le> c \<and> c \<le> CHR ''Z''")
      (auto simp: lower_char_def less_eq_char_def)
  then show ?thesis by (simp add: ToLower_def)
qed

lemma content_bounded:
  assumes "ValidateAttachmentContent filename contentType data = None"
  shows "data \<noteq> []" "length data \<le> AttachmentMaxBytes"
  using assms AttachmentMaxBytesFor_le
  by (auto simp: ValidateAttachmentContent_def Let_def not_less intro: order_trans
      split: sum.splits option.splits if_splits)

lemma ReceiptsMatch_meta:
  assumes "ReceiptsMatch expected actual"
  shows "rc_ID expected = rc_ID actual" "rc_SizeBytes expected = rc_SizeBytes actual"
    "rc_CreatedAt expected = rc_CreatedAt actual" "rc_Filename expected = rc_Filename actual"
  using assms by (auto simp: ReceiptsMatch_def UploadMetadataMatches_def split: sum.splits)

end
