(* ===== verification/Uploads.thy ===== *)
theory Uploads
  imports MigrationFacts UploadPolicy
begin

text \<open>
  Chat uploads (\<open>attachments.go\<close>, \<open>attachments_memory.go\<close>): an upload is a draft until exactly one
  accepted chat run binds it, and immutable afterwards. \<open>time.Now()\<close> is the argument \<open>now\<close> of the
  operations that read the clock.
\<close>

section \<open>Receipts and validation\<close>

definition Receipt :: "AgentAttachment \<Rightarrow> AttachmentReceipt" where
  "Receipt a = \<lparr>rc_ID = at_ID a, rc_Filename = at_Filename a, rc_ContentType = at_ContentType a,
     rc_SizeBytes = at_SizeBytes a, rc_SHA256 = at_SHA256 a, rc_CreatedAt = at_CreatedAt a\<rparr>"

definition cloneMetadata :: "AgentAttachment \<Rightarrow> AgentAttachment" where
  "cloneMetadata a = a\<lparr>at_Data := []\<rparr>"

definition agentAttachmentDigest :: "string \<Rightarrow> string" where
  "agentAttachmentDigest data = hexDigest data"

definition AgentAttachment_validate :: "AgentAttachment \<Rightarrow> check" where
  "AgentAttachment_validate a =
     (case ValidateAttachmentID (at_ID a) of Some e \<Rightarrow> Some e
      | None \<Rightarrow>
        if blank (at_AgentName a) \<or> blank (at_AgentUID a) \<or> blank (at_SessionID a) \<or> blank (at_ActorID a)
        then Some (Errorf ''agent attachment needs Agent, session, and actor identity'')
        else case ValidateAttachmentContent (at_Filename a) (at_ContentType a) (at_Data a) of Some e \<Rightarrow> Some e
        | None \<Rightarrow> (case NormalizeAttachmentContentType (at_ContentType a) of Inl e \<Rightarrow> Some e
          | Inr normalizedType \<Rightarrow>
            if at_ContentType a \<noteq> normalizedType
              then Some (Errorf ''agent attachment content type is not canonical'')
            else if at_SizeBytes a \<noteq> int (length (at_Data a))
              then Some (Errorf ''attachment size does not match its data bytes'')
            else if at_SHA256 a \<noteq> agentAttachmentDigest (at_Data a)
              then Some (Errorf ''attachment SHA-256 does not match its data'')
            else if IsZero (at_CreatedAt a) then Some (Errorf ''attachment creation time is required'')
            else if at_Draft a then
              (if (case at_ExpiresAt a of None \<Rightarrow> True | Some t \<Rightarrow> \<not> t > at_CreatedAt a) \<or> at_BindingID a \<noteq> []
               then Some (Errorf ''draft attachment needs a future expiry and no run binding'') else None)
            else if at_BindingID a = [] \<or> at_ExpiresAt a \<noteq> None
              then Some (Errorf ''accepted attachment needs a run binding and no draft expiry'')
            else None))"

definition validateAgentAttachmentReceipt :: "AttachmentReceipt \<Rightarrow> check" where
  "validateAgentAttachmentReceipt r =
     (case ValidateAttachmentID (rc_ID r) of Some e \<Rightarrow> Some e
      | None \<Rightarrow>
        if blank (rc_Filename r) \<or> blank (rc_ContentType r) \<or> rc_SizeBytes r \<le> 0 \<or> IsZero (rc_CreatedAt r)
          then Some (Errorf ''attachment receipt is incomplete'')
        else if NormalizeAttachmentContentType (rc_ContentType r) \<noteq> Inr (rc_ContentType r)
          then Some (Errorf ''attachment receipt content type is not canonical'')
        else if length (rc_SHA256 r) \<noteq> 64 \<or> ToLower (rc_SHA256 r) \<noteq> rc_SHA256 r
          then Some (Errorf ''attachment receipt needs a lowercase SHA-256 digest'')
        else if \<not> hex_decodes (rc_SHA256 r)
          then Some (Errorf ''attachment receipt needs a lowercase SHA-256 digest'')
        else None)"

fun batch_check :: "string list \<Rightarrow> int \<Rightarrow> AttachmentReceipt list \<Rightarrow> check" where
  "batch_check seen sofar [] = None"
| "batch_check seen sofar (r # rs) =
     (case validateAgentAttachmentReceipt r of Some e \<Rightarrow> Some e
      | None \<Rightarrow>
        if rc_ID r \<in> set seen then Some (Errorf ''attachment receipts must not repeat an ID'')
        else (let sofar = i64 (sofar + rc_SizeBytes r) in
          if sofar > MaxBytesPerTurn then Some (Errorf ''selected attachments exceed the per-turn limit'')
          else batch_check (rc_ID r # seen) sofar rs))"

definition validateAgentAttachmentBatch :: "AttachmentReceipt list \<Rightarrow> check" where
  "validateAgentAttachmentBatch receipts =
     (if length receipts > MaxAttachmentsPerTurn
      then Some (Errorf ''too many attachments selected for one turn'')
      else batch_check [] 0 receipts)"

definition validateAgentAttachmentAdmission ::
  "AttachmentReceipt list \<Rightarrow> Scope \<Rightarrow> string \<Rightarrow> string \<Rightarrow> string \<Rightarrow> string \<Rightarrow> check" where
  "validateAgentAttachmentAdmission receipts scope agentUID sessionID actorID bindingID =
     (if receipts = [] then Some (Errorf ''at least one attachment receipt is required'')
      else case validateAgentAttachmentBatch receipts of Some e \<Rightarrow> Some e
      | None \<Rightarrow>
        if blank agentUID \<or> blank sessionID \<or> blank actorID \<or> blank bindingID
          then Some (Errorf ''attachment binding needs Agent UID, session, actor, and run identity'')
        else if blank (sc_AgentName scope) then Some (Errorf ''attachment binding needs an Agent name'')
        else None)"

section \<open>Binding drafts to a run\<close>

definition bind_item_check :: "AgentAttachment gomap \<Rightarrow> string \<Rightarrow> string \<Rightarrow> time \<Rightarrow> AttachmentReceipt \<Rightarrow> check" where
  "bind_item_check byID actorID bindingID now receipt =
     (case mget byID (rc_ID receipt) of
        None \<Rightarrow> Some ErrAgentAttachmentReceipt
      | Some item \<Rightarrow>
          if \<not> ReceiptsMatch receipt (Receipt item) then Some ErrAgentAttachmentReceipt
          else if at_ActorID item \<noteq> actorID then Some ErrAgentAttachmentForbidden
          else if \<not> at_Draft item then
            (if at_BindingID item \<noteq> bindingID then Some ErrAgentAttachmentImmutable else None)
          else case at_ExpiresAt item of
              None \<Rightarrow> Some ErrAgentAttachmentDraftExpired
            | Some t \<Rightarrow> if \<not> t > now then Some ErrAgentAttachmentDraftExpired else None)"

definition bind_item :: "string \<Rightarrow> AgentAttachment \<Rightarrow> AgentAttachment" where
  "bind_item bindingID item =
     (if at_Draft item
      then item\<lparr>at_DraftExpiresAt := at_ExpiresAt item, at_Draft := False,
             at_BindingID := bindingID, at_ExpiresAt := None\<rparr>
      else item)"

fun bind_loop :: "string \<Rightarrow> AgentAttachment gomap \<Rightarrow> AttachmentReceipt list \<Rightarrow> AgentAttachment list" where
  "bind_loop bindingID byID [] = []"
| "bind_loop bindingID byID (receipt # rs) =
     (case mget byID (rc_ID receipt) of
        None \<Rightarrow> bind_loop bindingID byID rs
      | Some item \<Rightarrow> bind_item bindingID item #
          bind_loop bindingID (mput (rc_ID receipt) (bind_item bindingID item) byID) rs)"

definition bindAgentAttachmentBatch ::
  "AgentAttachment list \<Rightarrow> AttachmentReceipt list \<Rightarrow> string \<Rightarrow> string \<Rightarrow> time \<Rightarrow> AgentAttachment list result" where
  "bindAgentAttachmentBatch items receipts actorID bindingID now =
     (if length items \<noteq> length receipts then Inl ErrAgentAttachmentReceipt
      else (let byID = fold (\<lambda>item t. mput (at_ID item) item t) items [] in
        case first_error (bind_item_check byID actorID bindingID now) receipts of
          Some e \<Rightarrow> Inl e
        | None \<Rightarrow> Inr (bind_loop bindingID byID receipts)))"

definition attachmentExpired :: "AgentAttachment \<Rightarrow> time \<Rightarrow> bool" where
  "attachmentExpired item now \<longleftrightarrow>
     at_Draft item \<and> (case at_ExpiresAt item of None \<Rightarrow> True | Some t \<Rightarrow> \<not> t > now)"

section \<open>Store operations\<close>

definition agentAttachmentScopeKey :: "Scope \<Rightarrow> string \<Rightarrow> string \<Rightarrow> string" where
  "agentAttachmentScopeKey scope agentUID rid =
     tenantKey scope @ bar @ sc_AgentName scope @ bar @ agentUID @ bar @ rid"

definition agentAttachmentQuotaValid :: "AgentAttachmentQuota \<Rightarrow> check" where
  "agentAttachmentQuotaValid quota =
     (if q_WorkspaceMaxBytes quota < 0 \<or> q_DraftAgentMaxBytes quota < 0 \<or> q_DraftAgentMaxCount quota < 0
      then Some (Errorf ''agent attachment quotas cannot be negative'') else None)"

definition ConfigureAgentAttachmentQuota :: "MemoryStore \<Rightarrow> AgentAttachmentQuota \<Rightarrow> unit result \<times> MemoryStore" where
  "ConfigureAgentAttachmentQuota m quota =
     (case agentAttachmentQuotaValid quota of Some e \<Rightarrow> (Inl e, m)
      | None \<Rightarrow> (Inr (), m\<lparr>attachmentQuota := quota\<rparr>))"

text \<open>A checkpoint may only cite uploads that are still bound to the run it names.\<close>

definition receipt_available :: "MemoryStore \<Rightarrow> Scope \<Rightarrow> string \<Rightarrow> SessionCheckpointMessage \<Rightarrow> AttachmentReceipt \<Rightarrow> bool" where
  "receipt_available m scope sessionID message receipt \<longleftrightarrow>
     list_ex (\<lambda>(key, item). hasPrefix key (tenantPrefix scope) \<and> at_AgentName item = sc_AgentName scope \<and>
        at_SessionID item = sessionID \<and> at_ActorID item = scm_InputAttachmentOwner message \<and>
        at_BindingID item = scm_InputAttachmentBindingID message \<and> at_ID item = rc_ID receipt \<and>
        \<not> at_Draft item \<and> ReceiptsMatch receipt (Receipt item)) (agentAttachments m)"

definition validateCheckpointAttachmentsLocked ::
  "MemoryStore \<Rightarrow> Scope \<Rightarrow> string \<Rightarrow> SessionCheckpoint option \<Rightarrow> check" where
  "validateCheckpointAttachmentsLocked m scope sessionID checkpoint =
     (case checkpoint of None \<Rightarrow> None
      | Some c \<Rightarrow>
          (case cp_ReplacementHistory c of None \<Rightarrow> None
           | Some history \<Rightarrow>
               first_error (\<lambda>message. first_error (\<lambda>receipt.
                   if receipt_available m scope sessionID message receipt then None
                   else Some ErrSessionCheckpointStale) (scm_InputAttachments message)) history))"

definition bumpSessionSummaryGenerationLocked :: "Scope \<Rightarrow> string \<Rightarrow> MemoryStore \<Rightarrow> MemoryStore" where
  "bumpSessionSummaryGenerationLocked scope sessionID m =
     (let key = sessionKey scope sessionID
      in m\<lparr>summaryGenerations := bump_generation key (summaryGenerations m),
           summaries := mdel key (summaries m)\<rparr>)"

text \<open>The rows the quota counts: those of the workspace that have not expired.\<close>

definition live_uploads :: "Scope \<Rightarrow> time \<Rightarrow> AgentAttachment gomap \<Rightarrow> AgentAttachment list" where
  "live_uploads scope now t =
     map snd (filter (\<lambda>(key, a). hasPrefix key (tenantPrefix scope) \<and> \<not> attachmentExpired a now) t)"

definition own_drafts :: "Scope \<Rightarrow> string \<Rightarrow> time \<Rightarrow> AgentAttachment gomap \<Rightarrow> AgentAttachment list" where
  "own_drafts scope actorID now t =
     filter (\<lambda>a. at_Draft a \<and> at_AgentName a = sc_AgentName scope \<and> at_ActorID a = actorID)
       (live_uploads scope now t)"

definition upload_bytes :: "AgentAttachment list \<Rightarrow> int" where
  "upload_bytes xs = sum_list (map at_SizeBytes xs)"

definition checkAgentAttachmentQuotaLocked :: "MemoryStore \<Rightarrow> Scope \<Rightarrow> AgentAttachment \<Rightarrow> time \<Rightarrow> check" where
  "checkAgentAttachmentQuotaLocked m scope candidate now =
     (let quota = attachmentQuota m;
          workspaceBytes = i64 (upload_bytes (live_uploads scope now (agentAttachments m)));
          drafts = own_drafts scope (at_ActorID candidate) now (agentAttachments m);
          draftBytes = i64 (upload_bytes drafts); draftCount = int (length drafts)
      in if q_WorkspaceMaxBytes quota > 0 \<and> i64 (workspaceBytes + at_SizeBytes candidate) > q_WorkspaceMaxBytes quota
           then Some ErrAgentAttachmentQuota
         else if q_DraftAgentMaxBytes quota > 0 \<and> i64 (draftBytes + at_SizeBytes candidate) > q_DraftAgentMaxBytes quota
           then Some ErrAgentAttachmentQuota
         else if q_DraftAgentMaxCount quota > 0 \<and> draftCount + 1 > q_DraftAgentMaxCount quota
           then Some ErrAgentAttachmentQuota
         else None)"

definition drop_expired :: "Scope \<Rightarrow> time \<Rightarrow> AgentAttachment gomap \<Rightarrow> AgentAttachment gomap" where
  "drop_expired scope now t =
     mfilter (\<lambda>key a. \<not> (hasPrefix key (tenantPrefix scope) \<and> attachmentExpired a now)) t"

definition CreateAgentAttachment ::
  "MemoryStore \<Rightarrow> Scope \<Rightarrow> AgentAttachment \<Rightarrow> (AgentAttachment \<times> bool) result \<times> MemoryStore" where
  "CreateAgentAttachment m scope attachment =
     scoped withAgent m scope (\<lambda>scope m.
       if at_AgentName attachment \<noteq> sc_AgentName scope \<or> \<not> at_Draft attachment \<or> at_BindingID attachment \<noteq> []
       then (Inl (Errorf ''uploads must be unbound drafts for the addressed Agent''), m)
       else case AgentAttachment_validate attachment of Some e \<Rightarrow> (Inl e, m)
       | None \<Rightarrow> locked scope m (\<lambda>scope m.
           let now = at_CreatedAt attachment;
               m = m\<lparr>agentAttachments := drop_expired scope now (agentAttachments m)\<rparr>;
               key = agentAttachmentScopeKey scope (at_AgentUID attachment) (at_ID attachment)
           in case mget (agentAttachments m) key of
               Some existing \<Rightarrow>
                 if at_ActorID existing = at_ActorID attachment \<and> at_SessionID existing = at_SessionID attachment \<and>
                    UploadMetadataMatches (Receipt existing) (Receipt attachment) \<and> at_Data existing = at_Data attachment
                 then (Inr (existing, False), m) else (Inl ErrAgentAttachmentConflict, m)
             | None \<Rightarrow>
                 (case checkAgentAttachmentQuotaLocked m scope attachment now of Some e \<Rightarrow> (Inl e, m)
                  | None \<Rightarrow> (Inr (attachment, True),
                      m\<lparr>agentAttachments := mput key attachment (agentAttachments m)\<rparr>))))"

definition agentAttachmentDraftCleanupBatch :: nat where
  "agentAttachmentDraftCleanupBatch = 256"

text \<open>The listing loop: it deletes at most one batch of expired drafts on its way.\<close>

fun scan_uploads :: "Scope \<Rightarrow> string \<Rightarrow> string \<Rightarrow> string \<Rightarrow> time \<Rightarrow> nat \<Rightarrow> AgentAttachment gomap \<Rightarrow>
    AgentAttachment list \<times> AgentAttachment gomap" where
  "scan_uploads scope agentUID sessionID actorID now cleaned [] = ([], [])"
| "scan_uploads scope agentUID sessionID actorID now cleaned ((key, item) # t) =
     (let keep = (\<lambda>found n. case scan_uploads scope agentUID sessionID actorID now n t of
            (out, t') \<Rightarrow> (found @ out, (key, item) # t'))
      in if \<not> hasPrefix key (tenantPrefix scope) then keep [] cleaned
         else if attachmentExpired item now then
           (if cleaned < agentAttachmentDraftCleanupBatch
            then scan_uploads scope agentUID sessionID actorID now (Suc cleaned) t else keep [] cleaned)
         else if \<not> hasPrefix key (agentAttachmentScopeKey scope agentUID []) \<or> at_SessionID item \<noteq> sessionID
           then keep [] cleaned
         else if at_ActorID item = actorID then keep [cloneMetadata item] cleaned else keep [] cleaned)"

definition ListAgentAttachments ::
  "MemoryStore \<Rightarrow> Scope \<Rightarrow> string \<Rightarrow> string \<Rightarrow> string \<Rightarrow> int \<Rightarrow> time \<Rightarrow> AgentAttachment list result \<times> MemoryStore" where
  "ListAgentAttachments m scope agentUID sessionID actorID limit now =
     scoped withAgent m scope (\<lambda>scope m.
       if blank agentUID \<or> blank sessionID \<or> blank actorID
       then (Inl (Errorf ''agent UID, session, and actor are required''), m)
       else (let limit = (if limit \<le> 0 \<or> limit > 500 then 100 else limit) in
         locked scope m (\<lambda>scope m.
           case scan_uploads scope agentUID sessionID actorID now 0 (agentAttachments m) of
             (out, t) \<Rightarrow>
               (Inr (take (nat limit) (oldest_first (\<lambda>a. Stamp (- at_CreatedAt a) (at_ID a)) out)),
                m\<lparr>agentAttachments := t\<rparr>))))"

definition GetAgentAttachment ::
  "MemoryStore \<Rightarrow> Scope \<Rightarrow> string \<Rightarrow> string \<Rightarrow> string \<Rightarrow> string \<Rightarrow> time \<Rightarrow> AgentAttachment result \<times> MemoryStore" where
  "GetAgentAttachment m scope agentUID sessionID actorID rid now =
     scoped withAgent m scope (\<lambda>scope m.
       if blank agentUID \<or> blank sessionID \<or> blank actorID \<or> blank rid
       then (Inl ErrAgentAttachmentNotFound, m)
       else locked scope m (\<lambda>scope m.
         let key = agentAttachmentScopeKey scope agentUID rid in
         case mget (agentAttachments m) key of
           None \<Rightarrow> (Inl ErrAgentAttachmentNotFound, m)
         | Some item \<Rightarrow>
             if at_SessionID item \<noteq> sessionID \<or> attachmentExpired item now
             then (Inl ErrAgentAttachmentNotFound,
               if attachmentExpired item now then m\<lparr>agentAttachments := mdel key (agentAttachments m)\<rparr> else m)
             else if at_ActorID item \<noteq> actorID then (Inl ErrAgentAttachmentNotFound, m)
             else (Inr item, m)))"

definition DeleteAgentAttachment ::
  "MemoryStore \<Rightarrow> Scope \<Rightarrow> string \<Rightarrow> string \<Rightarrow> string \<Rightarrow> string \<Rightarrow> time \<Rightarrow> unit result \<times> MemoryStore" where
  "DeleteAgentAttachment m scope agentUID sessionID actorID rid now =
     scoped withAgent m scope (\<lambda>scope m. locked scope m (\<lambda>scope m.
         let key = agentAttachmentScopeKey scope agentUID rid in
         case mget (agentAttachments m) key of
           None \<Rightarrow> (Inl ErrAgentAttachmentNotFound, m)
         | Some item \<Rightarrow>
             if at_SessionID item \<noteq> sessionID \<or> attachmentExpired item now
             then (Inl ErrAgentAttachmentNotFound,
               if attachmentExpired item now then m\<lparr>agentAttachments := mdel key (agentAttachments m)\<rparr> else m)
             else if at_ActorID item \<noteq> actorID then (Inl ErrAgentAttachmentNotFound, m)
             else if \<not> at_Draft item then (Inl ErrAgentAttachmentImmutable, m)
             else (Inr (), m\<lparr>agentAttachments := mdel key (agentAttachments m)\<rparr>)))"

text \<open>\<open>strings.SplitN(key, "|", 3)\<close> when it yields three parts: the first two of them.\<close>

definition key_tenant :: "string \<Rightarrow> (string \<times> string) option" where
  "key_tenant key =
     (case Cut key (CHR ''|'') of (a, r, ok) \<Rightarrow> if \<not> ok then None
        else (case Cut r (CHR ''|'') of (b, _, ok) \<Rightarrow> if ok then Some (a, b) else None))"

definition reconcile_row :: "Run gomap \<Rightarrow> time \<Rightarrow> string \<Rightarrow> AgentAttachment \<Rightarrow> AgentAttachment option" where
  "reconcile_row rs now key item =
     (if at_Draft item \<or> at_BindingID item = []
      then (if attachmentExpired item now then None else Some item)
      else case key_tenant key of
          None \<Rightarrow> None
        | Some (a, b) \<Rightarrow>
            if mget rs (a @ bar @ b @ bar @ at_BindingID item) \<noteq> None then Some item
            else case at_DraftExpiresAt item of
                None \<Rightarrow> None
              | Some t \<Rightarrow> if \<not> t > now then None
                  else Some (item\<lparr>at_Draft := True, at_ExpiresAt := Some t, at_BindingID := [],
                               at_DraftExpiresAt := None\<rparr>))"

definition ReconcileAgentAttachmentBindings :: "MemoryStore \<Rightarrow> time \<Rightarrow> MemoryStore" where
  "ReconcileAgentAttachmentBindings m now =
     m\<lparr>agentAttachments := mapm (reconcile_row (runs m) now) (agentAttachments m)\<rparr>"

fun lookup_uploads :: "MemoryStore \<Rightarrow> Scope \<Rightarrow> string \<Rightarrow> string \<Rightarrow> AttachmentReceipt list \<Rightarrow>
    AgentAttachment list result" where
  "lookup_uploads m scope agentUID sessionID [] = Inr []"
| "lookup_uploads m scope agentUID sessionID (receipt # rs) =
     (case mget (agentAttachments m) (agentAttachmentScopeKey scope agentUID (rc_ID receipt)) of
        None \<Rightarrow> Inl ErrAgentAttachmentNotFound
      | Some item \<Rightarrow> if at_SessionID item \<noteq> sessionID then Inl ErrAgentAttachmentNotFound
          else (case lookup_uploads m scope agentUID sessionID rs of
                  Inl e \<Rightarrow> Inl e | Inr items \<Rightarrow> Inr (item # items)))"

definition CreateAgentChatRun ::
  "MemoryStore \<Rightarrow> Scope \<Rightarrow> string \<Rightarrow> Message \<Rightarrow> Run \<Rightarrow> AttachmentReceipt list \<Rightarrow> string \<Rightarrow> time \<Rightarrow> time \<Rightarrow>
    unit result \<times> MemoryStore" where
  "CreateAgentChatRun m scope agentUID msg run receipts actorID now clock =
     scoped withAgent m scope (\<lambda>scope m.
       case validateAgentAttachmentAdmission receipts scope agentUID (msg_SessionID msg) actorID (run_ID run) of
         Some e \<Rightarrow> (Inl e, m)
       | None \<Rightarrow>
         if msg_ID msg = [] \<or> msg_Role msg \<noteq> ''user'' \<or> msg_RunID msg \<noteq> run_ID run \<or>
            msg_SessionID msg \<noteq> run_SessionID run \<or> run_AgentName run \<noteq> sc_AgentName scope \<or> run_Phase run = []
         then (Inl (Errorf ''atomic chat admission needs a matching user message and run''), m)
         else (let now = (if IsZero now then clock else now) in
           locked scope m (\<lambda>scope m.
             let key = rowKey scope (run_ID run) in
             if mget (runs m) key \<noteq> None then (Inl (Errorf ''run already exists''), m)
             else case lookup_uploads m scope agentUID (msg_SessionID msg) receipts of
               Inl e \<Rightarrow> (Inl e, m)
             | Inr items \<Rightarrow>
               (case bindAgentAttachmentBatch items receipts actorID (run_ID run) now of
                  Inl e \<Rightarrow> (Inl e, m)
                | Inr bound \<Rightarrow>
                    (let sequence = messageSequence m + 1; k = sessionKey scope (msg_SessionID msg) in
                     (Inr (), m\<lparr>messageSequence := sequence,
                        messages := mput k (mgetd [] (messages m) k @ [msg\<lparr>msg_Sequence := sequence\<rparr>]) (messages m),
                        runs := mput key run (runs m),
                        runScopes := mput key scope (runScopes m),
                        agentAttachments := fold (\<lambda>item t.
                          mput (agentAttachmentScopeKey scope agentUID (at_ID item)) item t) bound (agentAttachments m)\<rparr>))))))"

end
