(* ===== verification/Transcript.thy ===== *)
theory Transcript
  imports Cursors Uploads
begin

text \<open>
  Conversations: the append-only transcript and its listings, session titles, model preferences,
  compaction summaries with their generation fence, and the deletion of a session.
\<close>

section \<open>Messages\<close>

record Page =
  page_Items :: "Message list"
  page_NextCursor :: cursor

definition msg_stamp :: "Message \<Rightarrow> stamp" where
  "msg_stamp x = Stamp (msg_CreatedAt x) (msg_ID x)"

text \<open>The part of an append under the store's mutex. Between the resolution of the scope and this part other
  requests, and the mapping of a cluster, may be served.\<close>

definition append_locked :: "Message \<Rightarrow> Scope \<Rightarrow> MemoryStore \<Rightarrow> unit result \<times> MemoryStore" where
  "append_locked msg scope m = locked scope m (\<lambda>scope m.
     let k = sessionKey scope (msg_SessionID msg) in
     if IsZero (msg_CreatedAt msg) then (Inl (Errorf ''message CreatedAt is required''), m)
     else (let sequence = messageSequence m + 1 in
       (Inr (), m\<lparr>messageSequence := sequence,
          messages := mput k (mgetd [] (messages m) k @ [msg\<lparr>msg_Sequence := sequence\<rparr>]) (messages m)\<rparr>)))"

definition AppendMessage :: "MemoryStore \<Rightarrow> Scope \<Rightarrow> Message \<Rightarrow> unit result \<times> MemoryStore" where
  "AppendMessage m scope msg = scoped withAgent m scope (append_locked msg)"

definition ListMessages :: "MemoryStore \<Rightarrow> Scope \<Rightarrow> string \<Rightarrow> int \<Rightarrow> cursor \<Rightarrow> Page result \<times> MemoryStore" where
  "ListMessages m scope sessionID limit cur =
     scoped withAgent m scope (\<lambda>scope m.
       case decodeCursor cur of Inl e \<Rightarrow> (Inl e, m)
       | Inr before \<Rightarrow>
           (case page_of msg_stamp (clampLimit limit 500 100) (bound_of before)
                   (mgetd [] (messages m) (sessionKey scope sessionID)) of
              (out, nxt) \<Rightarrow> (Inr \<lparr>page_Items = out, page_NextCursor = cursor_of nxt\<rparr>, m)))"

definition LoadRecentMessages :: "MemoryStore \<Rightarrow> Scope \<Rightarrow> string \<Rightarrow> int \<Rightarrow> Message list result \<times> MemoryStore" where
  "LoadRecentMessages m scope sessionID limit =
     scoped withAgent m scope (\<lambda>scope m.
       let all = oldest_first msg_stamp (mgetd [] (messages m) (sessionKey scope sessionID))
       in (Inr (drop (length all - clampLimit limit 500 50) all), m))"

definition toolCallIDMatches :: "jval gomap \<Rightarrow> string \<Rightarrow> bool" where
  "toolCallIDMatches metadata callID \<longleftrightarrow>
     list_ex (\<lambda>key. mget metadata key = Some (JStr callID)) [''toolCallID'', ''callID'']"

fun tool_result_loop :: "string \<Rightarrow> string \<Rightarrow> Message option \<Rightarrow> Message list \<Rightarrow> Message option result" where
  "tool_result_loop runID callID found [] = Inr found"
| "tool_result_loop runID callID found (x # xs) =
     (if msg_Role x \<noteq> ''tool'' \<or> msg_RunID x \<noteq> runID \<or> \<not> toolCallIDMatches (msg_Metadata x) callID
      then tool_result_loop runID callID found xs
      else if found \<noteq> None then Inl (Errorf ''tool result identity is ambiguous'')
      else tool_result_loop runID callID (Some x) xs)"

definition MaxAgentArtifactBytes :: nat where "MaxAgentArtifactBytes = 2 ^ 20"

definition GetToolResult ::
  "MemoryStore \<Rightarrow> Scope \<Rightarrow> string \<Rightarrow> string \<Rightarrow> string \<Rightarrow> Message option result \<times> MemoryStore" where
  "GetToolResult m scope runID sessionID callID =
     scoped withAgent m scope (\<lambda>scope m.
       if blank runID \<or> blank sessionID \<or> blank callID
       then (Inl (Errorf ''tool result run, session and call IDs are required''), m)
       else locked scope m (\<lambda>scope m.
         (case tool_result_loop runID callID None (mgetd [] (messages m) (sessionKey scope sessionID)) of
            Inl e \<Rightarrow> Inl e
          | Inr None \<Rightarrow> Inr None
          | Inr (Some x) \<Rightarrow> if length (msg_Content x) > MaxAgentArtifactBytes
                           then Inl ErrAgentArtifactResultTooLarge else Inr (Some x), m)))"

section \<open>Session listing\<close>

definition session_row :: "MemoryStore \<Rightarrow> string \<Rightarrow> string \<Rightarrow> Message list \<Rightarrow> Session" where
  "session_row m pre k msgs =
     (let cp = oldest_first msg_stamp msgs in
      \<lparr>ses_ID = TrimPrefix k pre,
       ses_Title = (case firstPersistedUserMessage cp of None \<Rightarrow> []
          | Some first \<Rightarrow> (case mget (sessionTitles m) k of None \<Rightarrow> []
              | Some title \<Rightarrow> if title_FirstMessageID title = msg_ID first then title_Title title else [])),
       ses_Preview = (case find (\<lambda>x. msg_Role x = ''user'' \<and> \<not> msg_ContentEncrypted x) cp of
          None \<Rightarrow> [] | Some x \<Rightarrow> previewText (msg_Content x)),
       ses_MessageCount = length cp,
       ses_CreatedAt = msg_CreatedAt (hd cp),
       ses_LastActivity = msg_CreatedAt (last cp)\<rparr>)"

definition draft_row :: "string \<Rightarrow> string \<Rightarrow> memorySessionModel \<Rightarrow> Session" where
  "draft_row pre k preference =
     \<lparr>ses_ID = TrimPrefix k pre, ses_Title = [], ses_Preview = [], ses_MessageCount = 0,
      ses_CreatedAt = msm_updatedAt preference, ses_LastActivity = msm_updatedAt preference\<rparr>"

definition ListSessions :: "MemoryStore \<Rightarrow> Scope \<Rightarrow> int \<Rightarrow> Session list result \<times> MemoryStore" where
  "ListSessions m scope limit =
     scoped withAgent m scope (\<lambda>scope m.
       let limit = clampLimit limit 500 100; pre = agentPrefix scope;
           rows = map (\<lambda>(k, msgs). session_row m pre k msgs)
                    (filter (\<lambda>(k, msgs). hasPrefix k pre \<and> msgs \<noteq> []) (messages m)) @
                  map (\<lambda>(k, preference). draft_row pre k preference)
                    (filter (\<lambda>(k, _). hasPrefix k pre \<and> mgetd [] (messages m) k = []) (sessionModels m));
           out = oldest_first (\<lambda>s. Stamp (- ses_LastActivity s) (ses_ID s)) rows
       in (Inr (take limit (filter (\<lambda>s. ses_MessageCount s \<noteq> 0) out) @
                take limit (filter (\<lambda>s. ses_MessageCount s = 0) out)), m))"

section \<open>Titles\<close>

definition ClaimSessionTitle :: "MemoryStore \<Rightarrow> Scope \<Rightarrow> string \<Rightarrow> string \<Rightarrow> bool result \<times> MemoryStore" where
  "ClaimSessionTitle m scope sessionID firstUserMessageID =
     scoped withAgent m scope (\<lambda>scope m.
       if blank sessionID \<or> blank firstUserMessageID
       then (Inl (Errorf ''session and first user message IDs are required''), m)
       else locked scope m (\<lambda>scope m.
         let key = sessionKey scope sessionID in
         case firstPersistedUserMessage (mgetd [] (messages m) key) of
           None \<Rightarrow> (Inr False, m)
         | Some first \<Rightarrow>
             if msg_ID first \<noteq> firstUserMessageID then (Inr False, m)
             else if mget (sessionTitles m) key \<noteq> None then (Inr False, m)
             else (Inr True, m\<lparr>sessionTitles := mput key
                    \<lparr>title_FirstMessageID = firstUserMessageID, title_Title = []\<rparr> (sessionTitles m)\<rparr>)))"

definition SetSessionTitleIfEmpty ::
  "MemoryStore \<Rightarrow> Scope \<Rightarrow> string \<Rightarrow> string \<Rightarrow> string \<Rightarrow> bool result \<times> MemoryStore" where
  "SetSessionTitleIfEmpty m scope sessionID firstUserMessageID title =
     scoped withAgent m scope (\<lambda>scope m.
       if blank sessionID \<or> blank firstUserMessageID
       then (Inl (Errorf ''session and first user message IDs are required''), m)
       else if TrimSpace title = [] then (Inr False, m)
       else locked scope m (\<lambda>scope m.
         let key = sessionKey scope sessionID in
         case mget (sessionTitles m) key of
           None \<Rightarrow> (Inr False, m)
         | Some claim \<Rightarrow>
             if title_FirstMessageID claim \<noteq> firstUserMessageID \<or> title_Title claim \<noteq> [] then (Inr False, m)
             else (case firstPersistedUserMessage (mgetd [] (messages m) key) of
                 None \<Rightarrow> (Inr False, m)
               | Some first \<Rightarrow>
                   if msg_ID first \<noteq> firstUserMessageID then (Inr False, m)
                   else (Inr True, m\<lparr>sessionTitles :=
                          mput key (claim\<lparr>title_Title := TrimSpace title\<rparr>) (sessionTitles m)\<rparr>))))"

definition SetSessionTitle :: "MemoryStore \<Rightarrow> Scope \<Rightarrow> string \<Rightarrow> string \<Rightarrow> bool result \<times> MemoryStore" where
  "SetSessionTitle m scope sessionID title =
     scoped withAgent m scope (\<lambda>scope m.
       if blank sessionID then (Inl (Errorf ''session ID is required''), m)
       else if TrimSpace title = [] then (Inl (Errorf ''session title is required''), m)
       else locked scope m (\<lambda>scope m.
         let key = sessionKey scope sessionID in
         case firstPersistedUserMessage (mgetd [] (messages m) key) of
           None \<Rightarrow> (Inl ErrSessionNotFound, m)
         | Some first \<Rightarrow>
             (let row = \<lparr>title_FirstMessageID = msg_ID first, title_Title = TrimSpace title\<rparr> in
              if mget (sessionTitles m) key = Some row then (Inr False, m)
              else (Inr True, m\<lparr>sessionTitles := mput key row (sessionTitles m)\<rparr>))))"

section \<open>Model preferences\<close>

definition zero_SessionModelSettings :: SessionModelSettings where
  "zero_SessionModelSettings = \<lparr>sms_ModelCredential = [], sms_ReasoningEffortByModel = []\<rparr>"

definition GetSessionModelSettings ::
  "MemoryStore \<Rightarrow> Scope \<Rightarrow> string \<Rightarrow> SessionModelSettings result \<times> MemoryStore" where
  "GetSessionModelSettings m scope session =
     locked scope m (\<lambda>scope m.
       (case withAgent scope of Some e \<Rightarrow> Inl e
        | None \<Rightarrow> Inr (case mget (sessionModels m) (sessionKey scope session) of
            None \<Rightarrow> zero_SessionModelSettings | Some row \<Rightarrow> msm_settings row), m))"

definition PutSessionModelSettings ::
  "MemoryStore \<Rightarrow> Scope \<Rightarrow> string \<Rightarrow> SessionModelSettings \<Rightarrow> time \<Rightarrow> unit result \<times> MemoryStore" where
  "PutSessionModelSettings m scope session settings now =
     locked scope m (\<lambda>scope m.
       case withAgent scope of Some e \<Rightarrow> (Inl e, m)
       | None \<Rightarrow>
         (let key = sessionKey scope session in
          if mget (sessionModels m) key = None \<and>
             length (filter (\<lambda>(k, _). hasPrefix k (agentPrefix scope)) (sessionModels m))
               \<ge> MaxSessionModelSettingsPerAgent
          then (Inl ErrSessionModelLimit, m)
          else (Inr (), m\<lparr>sessionModels :=
                 mput key \<lparr>msm_settings = settings, msm_updatedAt = now\<rparr> (sessionModels m)\<rparr>)))"

section \<open>Summaries\<close>

definition checkpoint_message_check :: "SessionCheckpointMessage \<Rightarrow> check" where
  "checkpoint_message_check message =
     (if scm_Role message \<notin> {''system'', ''user'', ''assistant'', ''tool''}
      then Some (Errorf ''session checkpoint message has unsupported role'')
      else case (case scm_Continuation message of None \<Rightarrow> None
          | Some c \<Rightarrow> if scm_Role message \<noteq> ''assistant''
              then Some (Errorf ''session checkpoint message has misplaced continuation metadata'')
              else ContinuationMetadata_Validate c) of
        Some e \<Rightarrow> Some e
      | None \<Rightarrow>
          if scm_InputAttachments message \<noteq> [] then
            (if scm_Role message \<noteq> ''user'' \<or> blank (scm_InputAttachmentOwner message) \<or>
                blank (scm_InputAttachmentBindingID message)
             then Some (Errorf ''session checkpoint message has invalid uploaded input identity'')
             else validateAgentAttachmentBatch (scm_InputAttachments message))
          else if scm_InputAttachmentOwner message \<noteq> [] \<or> scm_InputAttachmentBindingID message \<noteq> []
            then Some (Errorf ''session checkpoint message has uploaded input owner without references'')
          else None)"

definition validateSessionCheckpoint :: "SessionCheckpoint option \<Rightarrow> check" where
  "validateSessionCheckpoint checkpoint =
     (case checkpoint of None \<Rightarrow> None
      | Some c \<Rightarrow>
          if cp_Version c \<noteq> 1 then Some (Errorf ''unsupported session checkpoint version'')
          else if cp_ThroughSequence c \<le> 0
            then Some (Errorf ''session checkpoint through sequence must be positive'')
          else (case cp_ReplacementHistory c of
              None \<Rightarrow> Some (Errorf ''session checkpoint replacement history is required'')
            | Some history \<Rightarrow> first_error checkpoint_message_check history))"

text \<open>The fence of one session's summary, and whether a write may pass it.\<close>

definition summary_generation :: "string \<Rightarrow> MemoryStore \<Rightarrow> int" where
  "summary_generation k m = mgetd 0 (summaryGenerations m) k"

definition checkpoint_regresses :: "SessionSummary option \<Rightarrow> SessionSummary \<Rightarrow> bool" where
  "checkpoint_regresses current s \<longleftrightarrow>
     (case current of None \<Rightarrow> False
      | Some c \<Rightarrow> (case sum_Checkpoint c of None \<Rightarrow> False
          | Some old \<Rightarrow> (case sum_Checkpoint s of None \<Rightarrow> True
              | Some new \<Rightarrow> cp_ThroughSequence new < cp_ThroughSequence old)))"

text \<open>The copy a summary is stored and read as: \<open>append\<close> of an empty history to \<open>nil\<close> is \<open>nil\<close>.\<close>

definition cloneSessionSummary :: "SessionSummary \<Rightarrow> SessionSummary" where
  "cloneSessionSummary s =
     (case sum_Checkpoint s of None \<Rightarrow> s
      | Some c \<Rightarrow> s\<lparr>sum_Checkpoint := Some (c\<lparr>cp_ReplacementHistory :=
          (case cp_ReplacementHistory c of Some [] \<Rightarrow> None | h \<Rightarrow> h)\<rparr>)\<rparr>)"

lemma clone_fields [simp]:
  "sum_Generation (cloneSessionSummary s) = sum_Generation s" "sum_SessionID (cloneSessionSummary s) = sum_SessionID s"
  by (simp_all add: cloneSessionSummary_def split: option.split)

definition PutSessionSummary :: "MemoryStore \<Rightarrow> Scope \<Rightarrow> SessionSummary \<Rightarrow> unit result \<times> MemoryStore" where
  "PutSessionSummary m scope s =
     scoped withAgent m scope (\<lambda>scope m.
       if blank (sum_SessionID s) then (Inl (Errorf ''session ID is required''), m)
       else case validateSessionCheckpoint (sum_Checkpoint s) of Some e \<Rightarrow> (Inl e, m)
       | None \<Rightarrow> locked scope m (\<lambda>scope m.
           let k = sessionKey scope (sum_SessionID s) in
           if sum_Generation s \<noteq> summary_generation k m then (Inl ErrSessionCheckpointStale, m)
           else case validateCheckpointAttachmentsLocked m scope (sum_SessionID s) (sum_Checkpoint s) of
             Some e \<Rightarrow> (Inl e, m)
           | None \<Rightarrow>
               if checkpoint_regresses (mget (summaries m) k) s then (Inl ErrSessionCheckpointStale, m)
               else (Inr (), m\<lparr>summaries := mput k (cloneSessionSummary s) (summaries m)\<rparr>)))"

definition GetSessionSummary ::
  "MemoryStore \<Rightarrow> Scope \<Rightarrow> string \<Rightarrow> (SessionSummary \<times> bool) result \<times> MemoryStore" where
  "GetSessionSummary m scope sessionID =
     scoped withAgent m scope (\<lambda>scope m.
       let k = sessionKey scope sessionID in
       (Inr (case mget (summaries m) k of
           None \<Rightarrow> (zero_SessionSummary\<lparr>sum_SessionID := sessionID, sum_Generation := summary_generation k m\<rparr>, False)
         | Some s \<Rightarrow> (cloneSessionSummary (s\<lparr>sum_Generation := summary_generation k m\<rparr>), True)), m))"

section \<open>Deleting a session\<close>

definition harness_tombstone :: "time \<Rightarrow> HarnessSession \<Rightarrow> HarnessSession" where
  "harness_tombstone now row =
     (let fence = max (hs_Turns row + 1) (hs_ObservedEpoch row)
      in row\<lparr>hs_Turns := fence - 1, hs_HarnessSessionID := [], hs_BackendKey := [],
             hs_ObservedEpoch := fence, hs_UpdatedAt := now\<rparr>)"

definition DeleteSession :: "MemoryStore \<Rightarrow> Scope \<Rightarrow> string \<Rightarrow> time \<Rightarrow> unit result \<times> MemoryStore" where
  "DeleteSession m scope sessionID now =
     scoped withAgent m scope (\<lambda>scope m. locked scope m (\<lambda>scope m.
       let key = sessionKey scope sessionID;
           m = bumpSessionSummaryGenerationLocked scope sessionID m;
           m = m\<lparr>messages := mdel key (messages m), sessionTitles := mdel key (sessionTitles m),
                 sessionModels := mdel key (sessionModels m)\<rparr>;
           m = m\<lparr>agentAttachments := mfilter (\<lambda>k a. \<not> (at_AgentName a = sc_AgentName scope \<and>
                   at_SessionID a = sessionID \<and> hasPrefix k (tenantPrefix scope))) (agentAttachments m)\<rparr>
       in (Inr (), case mget (harness m) key of None \<Rightarrow> m
           | Some row \<Rightarrow> m\<lparr>harness := mput key (harness_tombstone now row) (harness m)\<rparr>)))"

end
