(* ===== verification/Harness.thy ===== *)
theory Harness
  imports MigrationFacts
begin

text \<open>
  Harness sessions: which runner-side task a conversation's turns run in. A turn allocates the
  next epoch; a receipt is recorded under the epoch that observed it. The identity selection
  (\<open>selectHarnessIdentity\<close> in \<open>store.go\<close>) decides whether a row may be adopted by the Agent
  incarnation asking for a turn, must be reset, or is refused.
\<close>

definition CheckLegacyHarnessSessionLifetime :: "time \<Rightarrow> time \<Rightarrow> bool result" where
  "CheckLegacyHarnessSessionLifetime createdAt updatedAt =
     (let createdAt = truncate_time createdAt Second in
      if IsZero createdAt \<or> IsZero updatedAt
        then Inl (Errorf ''legacy harness session has no verifiable Agent lifetime'')
      else if updatedAt < createdAt then Inr True
      else if updatedAt < createdAt + Second
        then Inl (Errorf ''legacy harness session ownership is ambiguous at Agent CreationTimestamp precision'')
      else Inr False)"

definition reset_identity :: "HarnessIdentity \<Rightarrow> time \<Rightarrow> HarnessSession \<Rightarrow> HarnessSession" where
  "reset_identity identity now row =
     row\<lparr>hs_TaskID := hid_TaskID identity, hs_AgentUID := hid_AgentUID identity,
         hs_HarnessSessionID := [], hs_BackendKey := [], hs_Turns := 0, hs_ObservedEpoch := 0,
         hs_UpdatedAt := now\<rparr>"

definition selectHarnessIdentity :: "HarnessSession \<Rightarrow> HarnessIdentity \<Rightarrow> time \<Rightarrow> HarnessSession result" where
  "selectHarnessIdentity row identity now =
     (if blank (hid_TaskID identity) then Inl (Errorf ''harness task identity is required'')
      else (let legacy = (if blank (hid_LegacyTaskID identity) then hid_TaskID identity
                          else hid_LegacyTaskID identity) in
        if hid_AgentUID identity = [] then
          (if hs_AgentUID row \<noteq> [] then Inl (Errorf ''current Agent UID is missing'')
           else (let row = (if hs_TaskID row = [] then row\<lparr>hs_TaskID := legacy\<rparr> else row) in
             if hs_TaskID row \<noteq> hid_TaskID identity \<and> hs_TaskID row \<noteq> legacy
             then Inl (Errorf ''harness session task identity does not match the current Agent'')
             else Inr row))
        else if hs_AgentUID row = hid_AgentUID identity then
          (if hs_TaskID row \<noteq> hid_TaskID identity \<and> hs_TaskID row \<noteq> legacy
           then Inl (Errorf ''harness session task identity does not match Agent UID'') else Inr row)
        else if hs_AgentUID row \<noteq> [] then Inr (reset_identity identity now row)
        else if hs_TaskID row \<noteq> [] \<and> hs_TaskID row \<noteq> legacy
          then Inr (reset_identity identity now row)
        else (case CheckLegacyHarnessSessionLifetime (hid_CreatedAt identity) (hs_UpdatedAt row) of
            Inl e \<Rightarrow> Inl e
          | Inr True \<Rightarrow> Inr (reset_identity identity now row)
          | Inr False \<Rightarrow> Inr (row\<lparr>hs_TaskID := legacy, hs_AgentUID := hid_AgentUID identity\<rparr>))))"

definition NextHarnessTurn ::
  "MemoryStore \<Rightarrow> Scope \<Rightarrow> string \<Rightarrow> time \<Rightarrow> HarnessIdentity \<Rightarrow> HarnessSession result \<times> MemoryStore" where
  "NextHarnessTurn m scope sessionID now identity =
     scoped withAgent m scope (\<lambda>scope m.
       if blank sessionID then (Inl (Errorf ''session ID is required''), m)
       else locked scope m (\<lambda>scope m.
         let key = sessionKey scope sessionID;
             row = (case mget (harness m) key of Some row \<Rightarrow> row
               | None \<Rightarrow> zero_HarnessSession\<lparr>hs_SessionID := sessionID, hs_TaskID := hid_TaskID identity,
                   hs_AgentUID := hid_AgentUID identity, hs_UpdatedAt := now\<rparr>)
         in case selectHarnessIdentity row identity now of Inl e \<Rightarrow> (Inl e, m)
            | Inr row \<Rightarrow>
                (let row = row\<lparr>hs_SessionID := sessionID, hs_Turns := hs_Turns row + 1, hs_UpdatedAt := now\<rparr>
                 in (Inr row, m\<lparr>harness := mput key row (harness m)\<rparr>))))"

text \<open>The receipt a turn reports, against the row it belongs to.\<close>

definition merge_receipt :: "HarnessSession \<Rightarrow> HarnessSession \<Rightarrow> HarnessSession" where
  "merge_receipt row s =
     (let row = row\<lparr>hs_SessionID := hs_SessionID s\<rparr>;
          row = (if hs_TaskID row = [] then row\<lparr>hs_TaskID := hs_TaskID s\<rparr> else row);
          row = (if hs_AgentUID row = [] then row\<lparr>hs_AgentUID := hs_AgentUID s\<rparr> else row);
          row = (if \<not> blank (hs_HarnessSessionID s) \<and> hs_ObservedEpoch s \<ge> hs_ObservedEpoch row
                 then row\<lparr>hs_HarnessSessionID := hs_HarnessSessionID s, hs_BackendKey := hs_BackendKey s,
                        hs_ObservedEpoch := hs_ObservedEpoch s\<rparr> else row);
          row = (if hs_Turns s > hs_Turns row then row\<lparr>hs_Turns := hs_Turns s\<rparr> else row)
      in row\<lparr>hs_UpdatedAt := hs_UpdatedAt s\<rparr>)"

definition PutHarnessSession :: "MemoryStore \<Rightarrow> Scope \<Rightarrow> HarnessSession \<Rightarrow> unit result \<times> MemoryStore" where
  "PutHarnessSession m scope s =
     scoped withAgent m scope (\<lambda>scope m.
       if blank (hs_SessionID s) then (Inl (Errorf ''session ID is required''), m)
       else if \<not> blank (hs_HarnessSessionID s) \<and> blank (hs_BackendKey s)
         then (Inl (Errorf ''backend key is required when a harness session ID is observed''), m)
       else if \<not> blank (hs_HarnessSessionID s) \<and> hs_ObservedEpoch s \<le> 0
         then (Inl (Errorf ''observed harness session epoch must be positive''), m)
       else (let s = (if blank (hs_HarnessSessionID s)
                 then s\<lparr>hs_HarnessSessionID := [], hs_BackendKey := [], hs_ObservedEpoch := 0\<rparr> else s) in
         locked scope m (\<lambda>scope m.
           let key = sessionKey scope (hs_SessionID s);
               row = mgetd zero_HarnessSession (harness m) key
           in if hs_TaskID row \<noteq> [] \<and> hs_TaskID row \<noteq> hs_TaskID s
                then (Inl (Errorf ''harness session receipt belongs to a different task identity''), m)
              else if hs_AgentUID row \<noteq> [] \<and> hs_AgentUID row \<noteq> hs_AgentUID s
                then (Inl (Errorf ''harness session receipt belongs to a different Agent incarnation''), m)
              else (Inr (), m\<lparr>harness := mput key (merge_receipt row s) (harness m)\<rparr>))))"

definition GetHarnessSession :: "MemoryStore \<Rightarrow> Scope \<Rightarrow> string \<Rightarrow> HarnessSession option result \<times> MemoryStore" where
  "GetHarnessSession m scope sessionID =
     scoped withAgent m scope (\<lambda>scope m. (Inr (mget (harness m) (sessionKey scope sessionID)), m))"

text \<open>MCP sessions: filed under the hash of their token, for no tenant in particular.\<close>

definition PutHarnessMCPSession :: "MemoryStore \<Rightarrow> Scope \<Rightarrow> HarnessMCPSession \<Rightarrow> unit result \<times> MemoryStore" where
  "PutHarnessMCPSession m scope s =
     scoped Scope_validate m scope (\<lambda>scope m.
       if mcp_TokenHash s = [] \<or> mcp_RunID s = []
       then (Inl (Errorf ''harness MCP session needs a token hash and a run ID''), m)
       else locked scope m (\<lambda>scope m.
         let s = s\<lparr>mcp_Scope := scope\<rparr>; now = mcp_CreatedAt s;
             t = mfilter (\<lambda>_ old. mcp_ExpiresAt old > now) (mcpSessions m)
         in (Inr (), m\<lparr>mcpSessions := mput (mcp_TokenHash s) s t\<rparr>)))"

definition GetHarnessMCPSession :: "MemoryStore \<Rightarrow> string \<Rightarrow> time \<Rightarrow> HarnessMCPSession option" where
  "GetHarnessMCPSession m tokenHash now =
     (case mget (mcpSessions m) tokenHash of None \<Rightarrow> None
      | Some s \<Rightarrow> if mcp_ExpiresAt s > now then Some s else None)"

end
