(* ===== verification/Runs.thy ===== *)
theory Runs
  imports Cursors
begin

text \<open>
  Durable runs: the upsert, the cancel flag only \<open>RequestCancel\<close> owns, the claims that move a run
  to \<open>Running\<close>, crash recovery by revision, the listings, the progress overlay and the artifacts
  a repository run exports.
\<close>

section \<open>Saving\<close>

text \<open>What a save keeps of the stored row.\<close>

definition keep_owned :: "Run \<Rightarrow> Run \<Rightarrow> Run" where
  "keep_owned old run =
     (let run = run\<lparr>run_progress := run_progress old\<rparr>;
          run = (if run_CancelRequested old
                 then run\<lparr>run_CancelRequested := True, run_CancelRequestedAt := run_CancelRequestedAt old\<rparr> else run);
          run = (if run_HarnessSettings old \<noteq> None
                 then run\<lparr>run_HarnessSettings := run_HarnessSettings old\<rparr> else run)
      in if run_ModelSettings old \<noteq> None
         then run\<lparr>run_ModelSettings := run_ModelSettings old\<rparr> else run)"

definition key_taken :: "MemoryStore \<Rightarrow> Scope \<Rightarrow> Run \<Rightarrow> bool" where
  "key_taken m scope run \<longleftrightarrow>
     list_ex (\<lambda>(k, existing). hasPrefix k (tenantPrefix scope) \<and> run_AgentName existing = run_AgentName run \<and>
        run_IdempotencyKey existing = run_IdempotencyKey run \<and> mgetd False (idempotencyPrimary m) k) (runs m)"

definition SaveRun :: "MemoryStore \<Rightarrow> Scope \<Rightarrow> Run \<Rightarrow> unit result \<times> MemoryStore" where
  "SaveRun m scope run =
     scoped withAgent m scope (\<lambda>scope m.
       if run_ID run = [] then (Inl (Errorf ''run ID is required''), m)
       else locked scope m (\<lambda>scope m.
         let key = rowKey scope (run_ID run); old = mget (runs m) key in
         if old = None \<and> run_IdempotencyKey run \<noteq> [] \<and> key_taken m scope run
         then (Inl (Errorf ''duplicate idempotency key''), m)
         else (let run = (case old of None \<Rightarrow> run | Some o' \<Rightarrow> keep_owned o' run) in
           (Inr (), m\<lparr>runs := mput key run (runs m),
              idempotencyPrimary :=
                (if old = None \<and> run_IdempotencyKey run \<noteq> [] then mput key True (idempotencyPrimary m)
                 else if run_IdempotencyKey run = [] then mdel key (idempotencyPrimary m)
                 else idempotencyPrimary m),
              runScopes := mput key
                (if sc_ClusterID scope \<noteq> [] then scope
                 else case mget (runScopes m) key of Some oldScope \<Rightarrow> oldScope | None \<Rightarrow> scope) (runScopes m)\<rparr>))))"

definition unfinished :: "Run \<Rightarrow> bool" where
  "unfinished run \<longleftrightarrow> run_Phase run \<in> {RunPhasePending, RunPhaseRunning, RunPhasePendingApproval}"

definition RequestCancel :: "MemoryStore \<Rightarrow> Scope \<Rightarrow> string \<Rightarrow> time \<Rightarrow> unit result \<times> MemoryStore" where
  "RequestCancel m scope rid now =
     scoped Scope_validate m scope (\<lambda>scope m. locked scope m (\<lambda>scope m.
       let k = rowKey scope rid in
       case mget (runs m) k of
         None \<Rightarrow> (Inl (Errorf ''run not found''), m)
       | Some run \<Rightarrow>
           if \<not> unfinished run then (Inr (), m)
           else if run_CancelRequested run then (Inr (), m)
           else (Inr (), m\<lparr>runs := mput k (run\<lparr>run_CancelRequested := True,
                  run_CancelRequestedAt := Some now\<rparr>) (runs m)\<rparr>)))"

definition GetRun :: "MemoryStore \<Rightarrow> Scope \<Rightarrow> string \<Rightarrow> Run result \<times> MemoryStore" where
  "GetRun m scope rid =
     scoped Scope_validate m scope (\<lambda>scope m.
       (case mget (runs m) (rowKey scope rid) of
          None \<Rightarrow> Inl (Errorf ''run not found'') | Some run \<Rightarrow> Inr run, m))"

section \<open>Claims\<close>

text \<open>
  \<open>json.Unmarshal\<close> of a checkpoint into a struct with the one field \<open>inboxID\<close>: the member name is
  matched without regard to case, the last one wins, \<open>null\<close> leaves the field alone, and a value of
  another type is an error (\<open>None\<close>) after the whole object is read.
\<close>

fun inbox_member :: "string option \<Rightarrow> (string \<times> jval) list \<Rightarrow> string option" where
  "inbox_member v [] = v"
| "inbox_member v ((name, x) # ms) =
     (if \<not> EqualFold name ''inboxID'' then inbox_member v ms
      else case x of
          JStr s \<Rightarrow> inbox_member (case v of None \<Rightarrow> None | Some _ \<Rightarrow> Some s) ms
        | JNull \<Rightarrow> inbox_member v ms
        | _ \<Rightarrow> inbox_member None ms)"

definition checkpoint_inbox :: "raw_json option \<Rightarrow> string option" where
  "checkpoint_inbox c =
     (case c of
        Some (RawJSON (JObj ms)) \<Rightarrow> inbox_member (Some []) ms
      | Some (RawJSON JNull) \<Rightarrow> Some []
      | _ \<Rightarrow> None)"

definition claimable :: "Run \<Rightarrow> bool" where
  "claimable run \<longleftrightarrow> \<not> run_CancelRequested run \<and>
     (run_Phase run = RunPhasePending \<or> run_Phase run = RunPhasePendingApproval)"

definition ClaimRun :: "MemoryStore \<Rightarrow> Scope \<Rightarrow> string \<Rightarrow> time \<Rightarrow> string list \<Rightarrow> Run result \<times> MemoryStore" where
  "ClaimRun m scope rid now inboxID =
     scoped Scope_validate m scope (\<lambda>scope m. locked scope m (\<lambda>scope m.
       let k = rowKey scope rid in
       case mget (runs m) k of
         None \<Rightarrow> (Inl (ErrRunClaimConflict rid), m)
       | Some run \<Rightarrow>
           if \<not> claimable run then (Inl (ErrRunClaimConflict rid), m)
           else if inboxID \<noteq> [] \<and> hd inboxID \<noteq> [] \<and>
                (run_Phase run \<noteq> RunPhasePendingApproval \<or>
                 checkpoint_inbox (run_Checkpoint run) \<noteq> Some (hd inboxID))
             then (Inl (ErrRunClaimConflict rid), m)
           else (let run = run\<lparr>run_Phase := RunPhaseRunning, run_UpdatedAt := now,
                   run_StartedAt := (case run_StartedAt run of None \<Rightarrow> Some now | Some t \<Rightarrow> Some t)\<rparr>
                 in (Inr run, m\<lparr>runs := mput k run (runs m)\<rparr>))))"

definition recover_run :: "time \<Rightarrow> time \<Rightarrow> Run \<Rightarrow> Run" where
  "recover_run observed now run =
     run\<lparr>run_Attempt := run_Attempt run + 1,
         run_UpdatedAt := (if now < observed + Microsecond then observed + Microsecond else now)\<rparr>"

definition ClaimRecovery :: "MemoryStore \<Rightarrow> Scope \<Rightarrow> string \<Rightarrow> time \<Rightarrow> time \<Rightarrow> Run result \<times> MemoryStore" where
  "ClaimRecovery m scope rid observed now =
     scoped Scope_validate m scope (\<lambda>scope m. locked scope m (\<lambda>scope m.
       let k = rowKey scope rid in
       case mget (runs m) k of
         None \<Rightarrow> (Inl (ErrRecoveryClaimStale rid), m)
       | Some run \<Rightarrow>
           if run_CancelRequested run \<or> run_Phase run \<noteq> RunPhaseRunning \<or> run_UpdatedAt run \<noteq> observed
           then (Inl (ErrRecoveryClaimStale rid), m)
           else (Inr (recover_run observed now run),
                 m\<lparr>runs := mput k (recover_run observed now run) (runs m)\<rparr>)))"

section \<open>Listings\<close>

definition runs_where :: "(Run \<Rightarrow> bool) \<Rightarrow> Scope \<Rightarrow> MemoryStore \<Rightarrow> Run list" where
  "runs_where P scope m =
     map snd (filter (\<lambda>(k, run). hasPrefix k (tenantPrefix scope) \<and> P run) (runs m))"

definition agent_matches :: "Scope \<Rightarrow> Run \<Rightarrow> bool" where
  "agent_matches scope run \<longleftrightarrow> sc_AgentName scope = [] \<or> run_AgentName run = sc_AgentName scope"

definition ListRuns :: "MemoryStore \<Rightarrow> Scope \<Rightarrow> int \<Rightarrow> Run list result \<times> MemoryStore" where
  "ListRuns m scope limit =
     scoped Scope_validate m scope (\<lambda>scope m.
       (Inr (take (clampLimit limit 500 100)
          (newest_first run_CreatedAt (runs_where (agent_matches scope) scope m))), m))"

definition ListQueuedRuns :: "MemoryStore \<Rightarrow> Scope \<Rightarrow> Run list result \<times> MemoryStore" where
  "ListQueuedRuns m scope =
     scoped withAgent m scope (\<lambda>scope m.
       (Inr (oldest_first run_stamp (runs_where (\<lambda>run. run_AgentName run = sc_AgentName scope \<and>
          run_Phase run = RunPhasePending \<and> run_RetryAt run \<noteq> None \<and> \<not> run_CancelRequested run) scope m)), m))"

record RunPage =
  rpage_Items :: "Run list"
  rpage_NextCursor :: cursor

definition query_matches :: "RunQuery \<Rightarrow> Run \<Rightarrow> bool" where
  "query_matches q run \<longleftrightarrow>
     (rq_Phase q = [] \<or> run_Phase run = rq_Phase q) \<and>
     (rq_Trigger q = [] \<or> run_Trigger run = rq_Trigger q) \<and>
     (rq_SessionID q = [] \<or> run_SessionID run = rq_SessionID q) \<and>
     (rq_ParentRunID q = [] \<or> run_ParentRunID run = rq_ParentRunID q)"

definition QueryRuns :: "MemoryStore \<Rightarrow> Scope \<Rightarrow> RunQuery \<Rightarrow> cursor \<Rightarrow> RunPage result \<times> MemoryStore" where
  "QueryRuns m scope q cur =
     scoped Scope_validate m scope (\<lambda>scope m.
       case decodeCursor cur of Inl e \<Rightarrow> (Inl e, m)
       | Inr before \<Rightarrow>
           (case page_of run_stamp (clampLimit (rq_Limit q) 200 50) (bound_of before)
                   (runs_where (\<lambda>run. agent_matches scope run \<and> query_matches q run) scope m) of
              (out, nxt) \<Rightarrow> (Inr \<lparr>rpage_Items = out, rpage_NextCursor = cursor_of nxt\<rparr>, m)))"

definition FindRunByIdempotencyKey :: "MemoryStore \<Rightarrow> Scope \<Rightarrow> string \<Rightarrow> Run option result \<times> MemoryStore" where
  "FindRunByIdempotencyKey m scope key =
     scoped withAgent m scope (\<lambda>scope m.
       if blank key then (Inr None, m)
       else (Inr (map_option snd (find (\<lambda>(k, run). run_IdempotencyKey run = key \<and>
              run_AgentName run = sc_AgentName scope \<and> mgetd False (idempotencyPrimary m) k \<and>
              hasPrefix k (tenantPrefix scope)) (runs m))), m))"

section \<open>Progress and run artifacts\<close>

text \<open>The messages arrive marshalled: \<open>raw\<close> is what \<open>json.Marshal\<close> made of them.\<close>

definition PutRunProgress :: "MemoryStore \<Rightarrow> Scope \<Rightarrow> string \<Rightarrow> raw_json \<Rightarrow> unit result \<times> MemoryStore" where
  "PutRunProgress m scope runID raw =
     scoped withAgent m scope (\<lambda>scope m. locked scope m (\<lambda>scope m.
       let key = rowKey scope runID in
       case mget (runs m) key of
         None \<Rightarrow> (Inl (Errorf ''run not found''), m)
       | Some run \<Rightarrow>
           if run_AgentName run \<noteq> sc_AgentName scope then (Inl (Errorf ''run not found''), m)
           else (Inr (), m\<lparr>runs := mput key (run\<lparr>run_progress := Some raw\<rparr>) (runs m)\<rparr>)))"

definition GetRunProgress :: "MemoryStore \<Rightarrow> Scope \<Rightarrow> string \<Rightarrow> raw_json option result \<times> MemoryStore" where
  "GetRunProgress m scope runID =
     scoped withAgent m scope (\<lambda>scope m. locked scope m (\<lambda>scope m.
       (case mget (runs m) (rowKey scope runID) of
          None \<Rightarrow> Inl (Errorf ''run not found'')
        | Some run \<Rightarrow> if run_AgentName run \<noteq> sc_AgentName scope then Inl (Errorf ''run not found'')
                     else Inr (run_progress run), m)))"

definition SaveRunArtifact :: "MemoryStore \<Rightarrow> Scope \<Rightarrow> RunArtifact \<Rightarrow> unit result \<times> MemoryStore" where
  "SaveRunArtifact m scope artifact =
     scoped withAgent m scope (\<lambda>scope m.
       case RunArtifact_validate artifact of Some e \<Rightarrow> (Inl e, m)
       | None \<Rightarrow> locked scope m (\<lambda>scope m.
           (Inr (), m\<lparr>artifacts := mput (artifactKey scope (ra_RunID artifact) (ra_Name artifact))
              \<lparr>row_agentName = sc_AgentName scope, row_artifact = artifact\<rparr> (artifacts m)\<rparr>)))"

definition GetRunArtifact :: "MemoryStore \<Rightarrow> Scope \<Rightarrow> string \<Rightarrow> string \<Rightarrow> RunArtifact option result \<times> MemoryStore" where
  "GetRunArtifact m scope runID name =
     scoped Scope_validate m scope (\<lambda>scope m.
       (Inr (map_option row_artifact (mget (artifacts m) (artifactKey scope runID name))), m))"

end
