(* ===== verification/Presentation.thy ===== *)
theory Presentation
  imports SideTypes Sha256
begin

text \<open>
  Provider presentations (\<open>resulttypes/presentation.go\<close>, \<open>provider_presentation.go\<close>): a bounded
  title with an optional receipt for an MCP App, whose HTML never reaches the store. The URL
  parser, base64, the JSON encoder and the Kubernetes label check are the fields of
  \<open>PresentationLib\<close>, an argument of the definitions that call them.
\<close>

record URL =
  url_Scheme :: string
  url_Opaque :: string
  url_HasUser :: bool
  url_Host :: string
  url_EscapedPath :: string
  url_RawQuery :: string
  url_Fragment :: string

record PresentationLib =
  lib_ParseURL :: "string \<Rightarrow> URL option"
  lib_PathUnescape :: "string \<Rightarrow> string option"
  lib_Base64Decode :: "string \<Rightarrow> string option"
  lib_Base64Encode :: "string \<Rightarrow> string"
  lib_IsDNS1123Label :: "string \<Rightarrow> bool"
  lib_EncodedSize :: "ProviderPresentation \<Rightarrow> nat option"

definition MaxProviderPresentationBytes :: nat where "MaxProviderPresentationBytes = 8 * 1024"
definition MaxMCPAppHTMLBytes :: nat where "MaxMCPAppHTMLBytes = 2 ^ 20"
definition MaxProviderPresentationWireBytes :: nat where
  "MaxProviderPresentationWireBytes = MaxProviderPresentationBytes + MaxMCPAppHTMLBytes * 6 + 8 * 1024"
abbreviation MCPAppMIMEType :: string where "MCPAppMIMEType \<equiv> ''text/html;profile=mcp-app''"

definition validSHA256 :: "string \<Rightarrow> bool" where
  "validSHA256 s \<longleftrightarrow> length s = 64 \<and> ToLower s = s \<and> hex_decodes s"

definition uri_text :: "nat \<Rightarrow> string \<Rightarrow> bool" where
  "uri_text most s \<longleftrightarrow> s \<noteq> [] \<and> length s \<le> most \<and> TrimSpace s = s \<and>
     \<not> list_ex (\<lambda>c. c \<in> {CHR 0x00, CHR 0x0D, CHR 0x0A, CHR 0x09, CHR 0x20}) s"

definition ui_url :: "URL \<Rightarrow> bool" where
  "ui_url u \<longleftrightarrow> url_Scheme u = ''ui'' \<and> url_Host u \<noteq> [] \<and> url_Opaque u = [] \<and> \<not> url_HasUser u \<and>
     url_Fragment u = []"

definition validMCPAppResourceURI :: "PresentationLib \<Rightarrow> string \<Rightarrow> bool" where
  "validMCPAppResourceURI lib s \<longleftrightarrow> uri_text 4096 s \<and>
     (case lib_ParseURL lib s of None \<Rightarrow> False | Some u \<Rightarrow> ui_url u)"

definition validMCPAppSourceURI :: "PresentationLib \<Rightarrow> string \<Rightarrow> bool" where
  "validMCPAppSourceURI lib s \<longleftrightarrow> uri_text 2048 s \<and>
     (case lib_ParseURL lib s of None \<Rightarrow> False | Some u \<Rightarrow> ui_url u)"

fun split_slash :: "string \<Rightarrow> string \<Rightarrow> string list" where
  "split_slash acc [] = [rev acc]"
| "split_slash acc (c # s) =
     (if c = CHR ''/'' then rev acc # split_slash [] s else split_slash (c # acc) s)"

definition validHubMCPAppResourceURI :: "PresentationLib \<Rightarrow> string \<Rightarrow> string \<Rightarrow> bool" where
  "validHubMCPAppResourceURI lib s provider \<longleftrightarrow> validMCPAppResourceURI lib s \<and>
     (case lib_ParseURL lib s of None \<Rightarrow> False
      | Some u \<Rightarrow> url_Host u = ''railgrid-provider'' \<and> url_RawQuery u = [] \<and>
          (case split_slash [] (TrimPrefix (url_EscapedPath u) ''/'') of
             [a, b] \<Rightarrow> a = provider \<and> b \<noteq> [] \<and>
               lib_PathUnescape lib b = Some b \<and>
               \<not> list_ex (\<lambda>c. c \<in> {CHR ''/'', CHR 0x5C, CHR ''%''}) b \<and>
               (case lib_Base64Decode lib b of None \<Rightarrow> False
                | Some original \<Rightarrow> lib_Base64Encode lib original = b \<and> validMCPAppSourceURI lib original)
           | _ \<Rightarrow> False))"

definition MCPAppReference_Validate :: "PresentationLib \<Rightarrow> MCPAppReference \<Rightarrow> check" where
  "MCPAppReference_Validate lib r =
     (if \<not> lib_IsDNS1123Label lib (ar_Provider r) \<or> TrimSpace (ar_Provider r) \<noteq> ar_Provider r
        then Some (Errorf ''MCP App reference needs a canonical provider name'')
      else if \<not> validHubMCPAppResourceURI lib (ar_ResourceURI r) (ar_Provider r)
        then Some (Errorf ''MCP App reference needs its exact Hub-namespaced resource URI'')
      else if \<not> validSHA256 (ar_SHA256 r)
        then Some (Errorf ''MCP App reference SHA-256 must be lowercase hexadecimal'')
      else None)"

definition MCPAppResource_Validate :: "PresentationLib \<Rightarrow> MCPAppResource \<Rightarrow> check" where
  "MCPAppResource_Validate lib a =
     (if \<not> validMCPAppResourceURI lib (app_ResourceURI a)
        then Some (Errorf ''MCP App resource must have a bounded ui:// URI'')
      else if app_MIMEType a \<noteq> MCPAppMIMEType then Some (Errorf ''MCP App MIME type is wrong'')
      else if app_HTML a = [] \<or> length (app_HTML a) > MaxMCPAppHTMLBytes \<or> \<not> valid_utf8 (app_HTML a)
        then Some (Errorf ''MCP App HTML must be valid UTF-8 and bounded'')
      else if \<not> validSHA256 (app_SHA256 a)
        then Some (Errorf ''MCP App SHA-256 must be lowercase hexadecimal'')
      else if app_SHA256 a \<noteq> hexDigest (app_HTML a)
        then Some (Errorf ''MCP App SHA-256 does not match its HTML'')
      else None)"

definition safePresentationText :: "string \<Rightarrow> bool" where
  "safePresentationText s \<longleftrightarrow>
     \<not> list_ex (\<lambda>r. r < CHR 0x20 \<and> r \<noteq> CHR 0x0A \<and> r \<noteq> CHR 0x09 \<or> r = CHR 0x7F) s"

definition app_check :: "PresentationLib \<Rightarrow> ProviderPresentation \<Rightarrow> check" where
  "app_check lib p =
     (case pp_MCPApp p of None \<Rightarrow> None
      | Some a \<Rightarrow> (case MCPAppResource_Validate lib a of Some e \<Rightarrow> Some e
          | None \<Rightarrow> (case pp_MCPAppReference p of
              None \<Rightarrow> Some (Errorf ''MCP App resource does not match its content-free reference'')
            | Some r \<Rightarrow> if app_ResourceURI a \<noteq> ar_ResourceURI r \<or> app_SHA256 a \<noteq> ar_SHA256 r
                then Some (Errorf ''MCP App resource does not match its content-free reference'') else None)))"

definition Presentation_Validate :: "PresentationLib \<Rightarrow> ProviderPresentation \<Rightarrow> check" where
  "Presentation_Validate lib p =
     (if pp_Version p \<noteq> 1 \<or> length (pp_Title p) > 512 \<or> \<not> safePresentationText (pp_Title p)
        then Some (Errorf ''invalid provider presentation'')
      else case app_check lib p of Some e \<Rightarrow> Some e
      | None \<Rightarrow> (case (case pp_MCPAppReference p of None \<Rightarrow> None | Some r \<Rightarrow> MCPAppReference_Validate lib r) of
          Some e \<Rightarrow> Some e
        | None \<Rightarrow> (case lib_EncodedSize lib p of
            None \<Rightarrow> Some (Errorf ''provider presentation exceeds its encoded size limit'')
          | Some n \<Rightarrow>
              if n > MaxProviderPresentationWireBytes
                then Some (Errorf ''provider presentation exceeds its encoded size limit'')
              else if pp_MCPApp p = None \<and> n > MaxProviderPresentationBytes
                then Some (Errorf ''provider presentation is too large'')
              else None)))"

definition contentFreePresentation ::
  "PresentationLib \<Rightarrow> ProviderPresentation option \<Rightarrow> SourceReference list \<Rightarrow> ProviderPresentation option" where
  "contentFreePresentation lib inp sources =
     (case inp of None \<Rightarrow> None
      | Some p \<Rightarrow>
          (let out = p\<lparr>pp_MCPApp := None\<rparr>;
               out = (if sources = [] \<or> (case pp_MCPAppReference out of None \<Rightarrow> True
                          | Some r \<Rightarrow> MCPAppReference_Validate lib r \<noteq> None)
                      then out\<lparr>pp_MCPAppReference := None\<rparr> else out)
           in if pp_MCPAppReference out = None \<and> pp_Title out = [] then None else Some out))"

text \<open>No HTML is ever kept, and a receipt only with the sources that back it.\<close>

lemma contentFree_no_html:
  "contentFreePresentation lib inp sources = Some p \<Longrightarrow> pp_MCPApp p = None"
  by (auto simp: contentFreePresentation_def Let_def split: option.splits if_splits)

lemma contentFree_backed:
  "contentFreePresentation lib inp sources = Some p \<Longrightarrow> pp_MCPAppReference p = Some r \<Longrightarrow>
     sources \<noteq> [] \<and> MCPAppReference_Validate lib r = None"
  by (auto simp: contentFreePresentation_def Let_def split: option.splits if_splits)

end
