(* ===== verification/Records.thy ===== *)
theory Records
  imports Cursors Presentation
begin

text \<open>
  Long-term memories, the human-in-the-loop inbox, the tool-call audit log and usage accounting.
\<close>

section \<open>Memories\<close>

definition PutMemory :: "MemoryStore \<Rightarrow> Scope \<Rightarrow> Memory \<Rightarrow> unit result \<times> MemoryStore" where
  "PutMemory m scope mem =
     scoped withAgent m scope (\<lambda>scope m.
       if mem_ID mem = [] then (Inl (Errorf ''memory ID is required''), m)
       else locked scope m (\<lambda>scope m.
         (Inr (), m\<lparr>memories := mput (rowKey scope (mem_ID mem)) mem (memories m)\<rparr>)))"

definition ListMemories :: "MemoryStore \<Rightarrow> Scope \<Rightarrow> int \<Rightarrow> Memory list result \<times> MemoryStore" where
  "ListMemories m scope limit =
     scoped withAgent m scope (\<lambda>scope m.
       (Inr (take (clampLimit limit 500 100) (newest_first mem_UpdatedAt
          (map snd (filter (\<lambda>(k, mem). hasPrefix k (tenantPrefix scope) \<and>
             mem_AgentName mem = sc_AgentName scope) (memories m))))), m))"

definition DeleteMemory :: "MemoryStore \<Rightarrow> Scope \<Rightarrow> string \<Rightarrow> unit result \<times> MemoryStore" where
  "DeleteMemory m scope rid =
     scoped withAgent m scope (\<lambda>scope m. locked scope m (\<lambda>scope m.
       (Inr (), m\<lparr>memories := mdel (rowKey scope rid) (memories m)\<rparr>)))"

section \<open>Inbox\<close>

definition AddInboxItem :: "MemoryStore \<Rightarrow> Scope \<Rightarrow> InboxItem \<Rightarrow> unit result \<times> MemoryStore" where
  "AddInboxItem m scope item =
     scoped Scope_validate m scope (\<lambda>scope m.
       if inb_ID item = [] then (Inl (Errorf ''inbox item ID is required''), m)
       else locked scope m (\<lambda>scope m.
         (Inr (), m\<lparr>inbox := mput (rowKey scope (inb_ID item)) item (inbox m)\<rparr>)))"

definition GetInboxItem :: "MemoryStore \<Rightarrow> Scope \<Rightarrow> string \<Rightarrow> InboxItem result \<times> MemoryStore" where
  "GetInboxItem m scope rid =
     scoped Scope_validate m scope (\<lambda>scope m.
       (case mget (inbox m) (rowKey scope rid) of
          None \<Rightarrow> Inl (Errorf ''inbox item not found'') | Some it \<Rightarrow> Inr it, m))"

definition ListInbox :: "MemoryStore \<Rightarrow> Scope \<Rightarrow> InboxItemState \<Rightarrow> InboxItem list result \<times> MemoryStore" where
  "ListInbox m scope state =
     scoped Scope_validate m scope (\<lambda>scope m.
       (Inr (newest_first inb_CreatedAt (map snd (filter (\<lambda>(k, it). hasPrefix k (tenantPrefix scope) \<and>
          (state = [] \<or> inb_State it = state) \<and>
          (sc_AgentName scope = [] \<or> inb_AgentName it = sc_AgentName scope)) (inbox m)))), m))"

text \<open>\<open>maps.Copy\<close> writes every entry of the second map into the first.\<close>

definition copy_into :: "'v gomap \<Rightarrow> 'v gomap \<Rightarrow> 'v gomap" where
  "copy_into dst src = fold (\<lambda>(k, v). mput k v) src dst"

definition may_answer :: "InboxItemState \<Rightarrow> InboxItem \<Rightarrow> bool" where
  "may_answer state it \<longleftrightarrow> inb_Kind it = InboxKindQuestion \<and>
     (inb_State it = InboxStatePending \<or>
      state = InboxStateAnswered \<and> inb_State it = InboxStateDenied \<and> inb_RunID it \<noteq> [])"

definition ResolveInboxItem ::
  "MemoryStore \<Rightarrow> Scope \<Rightarrow> string \<Rightarrow> InboxItemState \<Rightarrow> string \<Rightarrow> time \<Rightarrow> InboxResolution \<Rightarrow>
    InboxItem result \<times> MemoryStore" where
  "ResolveInboxItem m scope rid state response now resolution =
     scoped Scope_validate m scope (\<lambda>scope m. locked scope m (\<lambda>scope m.
       let k = rowKey scope rid in
       case mget (inbox m) k of
         None \<Rightarrow> (Inl (Errorf ''inbox item not found''), m)
       | Some it \<Rightarrow>
           if res_PendingOnly resolution \<and> inb_State it \<noteq> InboxStatePending
             then (Inl ErrInboxAlreadyResolved, m)
           else if res_QuestionPayload resolution \<noteq> None \<and> \<not> may_answer state it
             then (Inl ErrInboxAlreadyResolved, m)
           else (let it = (case res_QuestionPayload resolution of None \<Rightarrow> it
                     | Some payload \<Rightarrow> it\<lparr>inb_Payload := copy_into (copy_into [] (inb_Payload it)) payload\<rparr>);
                     it = it\<lparr>inb_State := state, inb_Response := response, inb_UpdatedAt := now\<rparr>
                 in (Inr it, m\<lparr>inbox := mput k it (inbox m)\<rparr>))))"

section \<open>Tool calls\<close>

definition tool_call_check :: "PresentationLib \<Rightarrow> ToolCall \<Rightarrow> ToolCall result" where
  "tool_call_check lib tc =
     (if length (tc_Sources tc) > MaxAgentArtifactSources
      then Inl (Errorf ''tool call has too many sources'')
      else case first_error SourceReference_Validate (tc_Sources tc) of Some e \<Rightarrow> Inl e
      | None \<Rightarrow>
        (let tc = tc\<lparr>tc_Presentation := contentFreePresentation lib (tc_Presentation tc) (tc_Sources tc)\<rparr> in
         case (case tc_Presentation tc of None \<Rightarrow> None | Some p \<Rightarrow> Presentation_Validate lib p) of
           Some e \<Rightarrow> Inl e | None \<Rightarrow> Inr tc))"

definition AppendToolCall :: "PresentationLib \<Rightarrow> MemoryStore \<Rightarrow> Scope \<Rightarrow> ToolCall \<Rightarrow> unit result \<times> MemoryStore" where
  "AppendToolCall lib m scope tc =
     scoped Scope_validate m scope (\<lambda>scope m.
       case tool_call_check lib tc of Inl e \<Rightarrow> (Inl e, m)
       | Inr tc \<Rightarrow> locked scope m (\<lambda>scope m.
           let k = tenantKey scope in
           (Inr (), m\<lparr>toolCalls := mput k (mgetd [] (toolCalls m) k @ [tc]) (toolCalls m)\<rparr>)))"

definition tc_stamp :: "ToolCall \<Rightarrow> stamp" where
  "tc_stamp tc = Stamp (tc_CreatedAt tc) (tc_ID tc)"

definition ListToolCalls :: "MemoryStore \<Rightarrow> Scope \<Rightarrow> string \<Rightarrow> ToolCall list result \<times> MemoryStore" where
  "ListToolCalls m scope runID =
     scoped Scope_validate m scope (\<lambda>scope m.
       (Inr (oldest_first tc_stamp
          (filter (\<lambda>tc. tc_RunID tc = runID) (mgetd [] (toolCalls m) (tenantKey scope)))), m))"

section \<open>Usage\<close>

definition windowStart :: "time \<Rightarrow> int \<Rightarrow> time" where
  "windowStart now window = truncate_time now (if window \<le> 0 then 30 * 24 * 3600 * Second else window)"

text \<open>\<open>Time.Unix\<close>: seconds since 1970, which is 62135596800 seconds after the zero time.\<close>

definition unix :: "time \<Rightarrow> int" where
  "unix t = t div Second - 62135596800"

definition usageKey :: "Scope \<Rightarrow> string \<Rightarrow> time \<Rightarrow> string" where
  "usageKey scope agentName ws = tenantPrefix scope @ agentName @ bar @ itoa (unix ws)"

definition zero_Usage :: Usage where
  "zero_Usage = \<lparr>us_AgentName = [], us_WindowStart = 0, us_InputTokens = 0, us_OutputTokens = 0,
     us_USDMicros = 0, us_UpdatedAt = 0\<rparr>"

definition AddUsage ::
  "MemoryStore \<Rightarrow> Scope \<Rightarrow> string \<Rightarrow> int \<Rightarrow> int \<Rightarrow> int \<Rightarrow> time \<Rightarrow> int \<Rightarrow> Usage result \<times> MemoryStore" where
  "AddUsage m scope agentName inp out usdMicros now window =
     scoped Scope_validate m scope (\<lambda>scope m.
       let ws = windowStart now window in
       locked scope m (\<lambda>scope m.
         let k = usageKey scope agentName ws; u = mgetd zero_Usage (usage m) k;
             u = u\<lparr>us_AgentName := agentName, us_WindowStart := ws,
                   us_InputTokens := i64 (us_InputTokens u + inp),
                   us_OutputTokens := i64 (us_OutputTokens u + out),
                   us_USDMicros := i64 (us_USDMicros u + usdMicros), us_UpdatedAt := now\<rparr>
         in (Inr u, m\<lparr>usage := mput k u (usage m)\<rparr>)))"

definition GetUsage :: "MemoryStore \<Rightarrow> Scope \<Rightarrow> string \<Rightarrow> time \<Rightarrow> int \<Rightarrow> Usage result \<times> MemoryStore" where
  "GetUsage m scope agentName now window =
     scoped Scope_validate m scope (\<lambda>scope m.
       let ws = windowStart now window in
       locked scope m (\<lambda>scope m.
         (Inr (case mget (usage m) (usageKey scope agentName ws) of
             None \<Rightarrow> zero_Usage\<lparr>us_AgentName := agentName, us_WindowStart := ws\<rparr> | Some u \<Rightarrow> u), m)))"

end
