(* ===== verification/Webhooks.thy ===== *)
theory Webhooks
  imports MigrationFacts
begin

text \<open>
  The webhook delivery sink: every authenticated POST is recorded under its webhook's UID, oldest
  first, and the sink of one webhook is capped at \<open>retain\<close> rows.
\<close>

fun rollup_loop :: "bool \<Rightarrow> WebhookRoute list \<Rightarrow> string option" where
  "rollup_loop failed [] = (if failed then Some ''failed'' else None)"
| "rollup_loop failed (r # rs) =
     (if wr_Outcome r = ''fired'' then Some ''fired''
      else rollup_loop (failed \<or> wr_Outcome r = ''failed'') rs)"

definition WebhookDeliveryRollup :: "WebhookRoute list \<Rightarrow> string" where
  "WebhookDeliveryRollup routes =
     (case rollup_loop False routes of Some outcome \<Rightarrow> outcome
      | None \<Rightarrow> if routes = [] then WebhookDeliveryUnrouted else ''filtered'')"

definition deliveryKey :: "Scope \<Rightarrow> string \<Rightarrow> string" where
  "deliveryKey s webhookUID = tenantKey s @ bar @ webhookUID"

lemma deliveryKey_row: "deliveryKey s uid = rowKey s uid"
  by (simp add: deliveryKey_def rowKey_def)

definition prune :: "nat \<Rightarrow> WebhookDelivery list \<Rightarrow> WebhookDelivery list" where
  "prune retain rows = drop (length rows - retain) rows"

definition RecordWebhookDelivery ::
  "MemoryStore \<Rightarrow> Scope \<Rightarrow> WebhookDelivery \<Rightarrow> int \<Rightarrow> time \<Rightarrow> unit result \<times> MemoryStore" where
  "RecordWebhookDelivery m scope d retain clock =
     scoped Scope_validate m scope (\<lambda>scope m.
       if blank (wd_ID d) \<or> blank (wd_WebhookUID d)
         then (Inl (Errorf ''a webhook delivery needs an id and a webhook uid''), m)
       else if retain \<le> 0 then (Inr (), m)
       else (let d = d\<lparr>wd_BodySize := length (wd_Body d)\<rparr>;
                 d = (if IsZero (wd_ReceivedAt d) then d\<lparr>wd_ReceivedAt := clock\<rparr> else d) in
         locked scope m (\<lambda>scope m.
           let k = deliveryKey scope (wd_WebhookUID d);
               rows = sortDeliveries (mgetd [] (deliveries m) k @ [d])
           in (Inr (), m\<lparr>deliveries := mput k (prune (nat retain) rows) (deliveries m)\<rparr>))))"

definition routedTo :: "WebhookDelivery \<Rightarrow> string \<Rightarrow> bool" where
  "routedTo d trigger \<longleftrightarrow> list_ex (\<lambda>r. wr_Trigger r = trigger) (wd_Routes d)"

definition delivery_matches :: "WebhookDeliveryQuery \<Rightarrow> WebhookDelivery \<Rightarrow> bool" where
  "delivery_matches q d \<longleftrightarrow>
     (wq_Outcome q = [] \<or> wd_Outcome d = wq_Outcome q) \<and>
     (wq_Trigger q = [] \<or> routedTo d (wq_Trigger q)) \<and>
     (wq_DeliveryID q = [] \<or> wd_DeliveryID d = wq_DeliveryID q)"

definition preview_body :: "WebhookDelivery \<Rightarrow> WebhookDelivery" where
  "preview_body d =
     (if length (wd_Body d) > WebhookDeliveryPreviewBytes
      then d\<lparr>wd_Body := take WebhookDeliveryPreviewBytes (wd_Body d)\<rparr> else d)"

definition ListWebhookDeliveries ::
  "MemoryStore \<Rightarrow> Scope \<Rightarrow> string \<Rightarrow> WebhookDeliveryQuery \<Rightarrow> WebhookDelivery list result \<times> MemoryStore" where
  "ListWebhookDeliveries m scope webhookUID q =
     scoped Scope_validate m scope (\<lambda>scope m.
       let limit = (if wq_Limit q \<le> 0 then 50 else nat (wq_Limit q)) in
       (Inr (map preview_body (take limit (filter (delivery_matches q)
          (rev (mgetd [] (deliveries m) (deliveryKey scope webhookUID)))))), m))"

definition GetWebhookDelivery ::
  "MemoryStore \<Rightarrow> Scope \<Rightarrow> string \<Rightarrow> string \<Rightarrow> WebhookDelivery option result \<times> MemoryStore" where
  "GetWebhookDelivery m scope webhookUID rid =
     scoped Scope_validate m scope (\<lambda>scope m.
       (Inr (find (\<lambda>row. wd_ID row = rid) (mgetd [] (deliveries m) (deliveryKey scope webhookUID))), m))"

definition DeleteWebhookDeliveries :: "MemoryStore \<Rightarrow> Scope \<Rightarrow> string \<Rightarrow> unit result \<times> MemoryStore" where
  "DeleteWebhookDeliveries m scope webhookUID =
     scoped Scope_validate m scope (\<lambda>scope m. locked scope m (\<lambda>scope m.
       (Inr (), m\<lparr>deliveries := mdel (deliveryKey scope webhookUID) (deliveries m)\<rparr>)))"

end
