(* ===== verification/Artifacts.thy ===== *)
theory Artifacts
  imports Transcript Presentation
begin

text \<open>
  Captured artifacts (\<open>agent_artifacts.go\<close> and the operations in \<open>memory.go\<close>): immutable results
  an owner keeps, bounded per owner across the workspace.
\<close>

definition MaxAgentArtifactsPerOwner :: nat where "MaxAgentArtifactsPerOwner = 100"
definition MaxAgentArtifactBytesPerOwner :: int where "MaxAgentArtifactBytesPerOwner = 16 * 2 ^ 20"
definition MaxAgentArtifactInputBytes :: nat where "MaxAgentArtifactInputBytes = 16 * 2 ^ 10"

record AgentArtifactReference =
  aref_ArtifactID :: string
  aref_Digest :: string

definition AgentArtifactReference_Validate :: "AgentArtifactReference \<Rightarrow> check" where
  "AgentArtifactReference_Validate r =
     (if blank (aref_ArtifactID r) \<or> length (aref_ArtifactID r) > 128 \<or>
         aref_ArtifactID r \<noteq> TrimSpace (aref_ArtifactID r)
        then Some (Errorf ''artifact reference needs a bounded artifact ID'')
      else if length (aref_Digest r) \<noteq> 64 \<or> ToLower (aref_Digest r) \<noteq> aref_Digest r
        then Some (Errorf ''artifact reference needs a lowercase SHA-256 digest'')
      else if \<not> hex_decodes (aref_Digest r)
        then Some (Errorf ''artifact reference needs a lowercase SHA-256 digest'')
      else None)"

definition artifactDigest :: "string \<Rightarrow> string" where
  "artifactDigest data = hexDigest data"

definition artifact_fields_check :: "AgentArtifact \<Rightarrow> check" where
  "artifact_fields_check a =
     (if blank (aa_ID a) then Some (Errorf ''artifact needs an ID'')
      else if blank (aa_AgentName a) \<or> blank (aa_AgentUID a)
        then Some (Errorf ''artifact needs an Agent name and UID'')
      else if blank (aa_Owner a) then Some (Errorf ''artifact needs an owner'')
      else if blank (aa_RunID a) \<or> blank (aa_SessionID a) \<or> blank (aa_ToolCallID a)
        then Some (Errorf ''artifact needs its exact run, session and tool-call identity'')
      else if blank (aa_ToolName a) then Some (Errorf ''artifact needs a tool name'')
      else if length (aa_Title a) > 160 then Some (Errorf ''artifact title exceeds 160 bytes'')
      else if aa_Data a = [] \<or> length (aa_Data a) + length (aa_Input a) > MaxAgentArtifactBytes
        then Some (Errorf ''artifact data and input are out of bounds'')
      else if length (aa_Input a) > MaxAgentArtifactInputBytes
        then Some (Errorf ''artifact input is too large'')
      else if aa_Size a \<noteq> int (length (aa_Data a))
        then Some (Errorf ''artifact size does not match its data'')
      else if aa_InputSize a \<noteq> int (length (aa_Input a))
        then Some (Errorf ''artifact input size does not match its input'')
      else if aa_Digest a \<noteq> artifactDigest (aa_Data a)
        then Some (Errorf ''artifact digest does not match its data'')
      else if (aa_Input a = []) \<noteq> (aa_InputDigest a = [])
        then Some (Errorf ''artifact input digest must be present exactly when input is present'')
      else if aa_Input a \<noteq> [] \<and> aa_InputDigest a \<noteq> artifactDigest (aa_Input a)
        then Some (Errorf ''artifact input digest does not match its input'')
      else if blank (aa_MediaType a) \<or> IsZero (aa_CreatedAt a)
        then Some (Errorf ''artifact needs a media type and creation time'')
      else None)"

definition AgentArtifact_validate :: "PresentationLib \<Rightarrow> AgentArtifact \<Rightarrow> check" where
  "AgentArtifact_validate lib a =
     (case artifact_fields_check a of Some e \<Rightarrow> Some e
      | None \<Rightarrow>
          if length (aa_Sources a) > MaxAgentArtifactSources
            then Some (Errorf ''artifact has too many sources'')
          else if (case aa_Presentation a of None \<Rightarrow> False
              | Some p \<Rightarrow> pp_MCPAppReference p \<noteq> None \<and> aa_Sources a = [])
            then Some (Errorf ''MCP App references require source references'')
          else (case first_error SourceReference_Validate (aa_Sources a) of Some e \<Rightarrow> Some e
            | None \<Rightarrow> (case aa_Presentation a of None \<Rightarrow> None
                | Some p \<Rightarrow> Presentation_Validate lib p)))"

definition retainedBytes :: "AgentArtifact \<Rightarrow> int" where
  "retainedBytes a = i64 (aa_Size a + aa_InputSize a)"

text \<open>The rows an owner's quota counts, over all Agents of the workspace.\<close>

definition owned_artifacts :: "Scope \<Rightarrow> string \<Rightarrow> AgentArtifact gomap \<Rightarrow> AgentArtifact list" where
  "owned_artifacts scope owner t =
     map snd (filter (\<lambda>(k, a). hasPrefix k (tenantPrefix scope) \<and> aa_Owner a = owner) t)"

definition retained_total :: "AgentArtifact list \<Rightarrow> int" where
  "retained_total xs = sum_list (map retainedBytes xs)"

definition SaveAgentArtifact ::
  "PresentationLib \<Rightarrow> MemoryStore \<Rightarrow> Scope \<Rightarrow> AgentArtifact \<Rightarrow> unit result \<times> MemoryStore" where
  "SaveAgentArtifact lib m scope artifact =
     scoped withAgent m scope (\<lambda>scope m.
       let artifact = artifact\<lparr>aa_Presentation :=
             contentFreePresentation lib (aa_Presentation artifact) (aa_Sources artifact)\<rparr> in
       case AgentArtifact_validate lib artifact of Some e \<Rightarrow> (Inl e, m)
       | None \<Rightarrow>
         if aa_AgentName artifact \<noteq> sc_AgentName scope
         then (Inl (Errorf ''artifact Agent does not match scope Agent''), m)
         else locked scope m (\<lambda>scope m.
           let key = agentPrefix scope @ aa_ID artifact;
               owned = owned_artifacts scope (aa_Owner artifact) (agentArtifacts m) in
           if mget (agentArtifacts m) key \<noteq> None then (Inl (Errorf ''artifact ID already exists''), m)
           else if length owned \<ge> MaxAgentArtifactsPerOwner \<or>
                i64 (i64 (retained_total owned) + retainedBytes artifact) > MaxAgentArtifactBytesPerOwner
             then (Inl ErrAgentArtifactLimit, m)
           else (Inr (), m\<lparr>agentArtifacts := mput key artifact (agentArtifacts m)\<rparr>)))"

definition artifact_metadata :: "AgentArtifact \<Rightarrow> AgentArtifact" where
  "artifact_metadata a = a\<lparr>aa_Data := [], aa_Input := [], aa_Presentation := None\<rparr>"

definition ListAgentArtifacts ::
  "MemoryStore \<Rightarrow> Scope \<Rightarrow> string \<Rightarrow> string \<Rightarrow> int \<Rightarrow> AgentArtifact list result \<times> MemoryStore" where
  "ListAgentArtifacts m scope agentUID owner limit =
     scoped withAgent m scope (\<lambda>scope m.
       if blank agentUID \<or> blank owner then (Inl (Errorf ''artifact Agent UID and owner are required''), m)
       else (let limit = clampLimit limit (int MaxAgentArtifactsPerOwner) (int MaxAgentArtifactsPerOwner) in
         locked scope m (\<lambda>scope m.
           (Inr (take limit (newest_first (\<lambda>a. Stamp (aa_CreatedAt a) (aa_ID a))
              (map (artifact_metadata \<circ> snd) (filter (\<lambda>(k, a). hasPrefix k (agentPrefix scope) \<and>
                 aa_AgentUID a = agentUID \<and> aa_Owner a = owner) (agentArtifacts m))))), m))))"

definition artifact_owned_by :: "string \<Rightarrow> string \<Rightarrow> AgentArtifact option \<Rightarrow> AgentArtifact option" where
  "artifact_owned_by agentUID owner row =
     (case row of None \<Rightarrow> None
      | Some a \<Rightarrow> if aa_AgentUID a \<noteq> agentUID \<or> aa_Owner a \<noteq> owner then None else Some a)"

definition GetAgentArtifact ::
  "MemoryStore \<Rightarrow> Scope \<Rightarrow> string \<Rightarrow> string \<Rightarrow> string \<Rightarrow> AgentArtifact option result \<times> MemoryStore" where
  "GetAgentArtifact m scope agentUID owner rid =
     scoped withAgent m scope (\<lambda>scope m.
       if blank agentUID \<or> blank owner \<or> blank rid
       then (Inl (Errorf ''artifact Agent UID, owner and ID are required''), m)
       else locked scope m (\<lambda>scope m.
         (Inr (artifact_owned_by agentUID owner (mget (agentArtifacts m) (agentPrefix scope @ rid))), m)))"

definition DeleteAgentArtifact ::
  "MemoryStore \<Rightarrow> Scope \<Rightarrow> string \<Rightarrow> string \<Rightarrow> string \<Rightarrow> bool result \<times> MemoryStore" where
  "DeleteAgentArtifact m scope agentUID owner rid =
     scoped withAgent m scope (\<lambda>scope m.
       if blank agentUID \<or> blank owner \<or> blank rid
       then (Inl (Errorf ''artifact Agent UID, owner and ID are required''), m)
       else locked scope m (\<lambda>scope m.
         let key = agentPrefix scope @ rid in
         case artifact_owned_by agentUID owner (mget (agentArtifacts m) key) of
           None \<Rightarrow> (Inr False, m)
         | Some _ \<Rightarrow> (Inr True, m\<lparr>agentArtifacts := mdel key (agentArtifacts m)\<rparr>)))"

end
