(* ===== verification/Teardown.thy ===== *)
theory Teardown
  imports Transcript
begin

text \<open>
  Removing everything of one Agent (\<open>DeleteAgentData\<close>) and of one run (\<open>DeleteRunData\<close>), one table
  after another as the code does.
\<close>

definition msgPrefix :: "Scope \<Rightarrow> string \<Rightarrow> string" where
  "msgPrefix scope agentName = tenantKey scope @ bar @ agentName @ bar"

definition drop_prefix :: "string \<Rightarrow> 'v gomap \<Rightarrow> 'v gomap" where
  "drop_prefix pre t = mfilter (\<lambda>k _. \<not> hasPrefix k pre) t"

text \<open>The rows of a tenant-keyed table that are filed under the agent.\<close>

definition drop_agent :: "Scope \<Rightarrow> string \<Rightarrow> ('v \<Rightarrow> string) \<Rightarrow> 'v gomap \<Rightarrow> 'v gomap" where
  "drop_agent scope agentName agent_of t =
     mfilter (\<lambda>k v. \<not> (agent_of v = agentName \<and> hasPrefix k (tenantPrefix scope))) t"

definition agent_run_keys :: "Scope \<Rightarrow> string \<Rightarrow> Run gomap \<Rightarrow> string list" where
  "agent_run_keys scope agentName t =
     map fst (filter (\<lambda>(k, run). run_AgentName run = agentName \<and> hasPrefix k (tenantPrefix scope)) t)"

definition DeleteAgentData :: "MemoryStore \<Rightarrow> Scope \<Rightarrow> string \<Rightarrow> unit result \<times> MemoryStore" where
  "DeleteAgentData m scope agentName =
     scoped Scope_validate m scope (\<lambda>scope m. locked scope m (\<lambda>scope m.
       let pre = msgPrefix scope agentName in
       (Inr (), m\<lparr>messages := drop_prefix pre (messages m),
          sessionModels := drop_prefix pre (sessionModels m),
          sessionTitles := drop_prefix pre (sessionTitles m),
          summaries := drop_prefix pre (summaries m),
          harness := drop_prefix pre (harness m),
          runs := drop_agent scope agentName run_AgentName (runs m),
          runScopes := fold mdel (agent_run_keys scope agentName (runs m)) (runScopes m),
          artifacts := drop_agent scope agentName row_agentName (artifacts m),
          agentArtifacts := drop_agent scope agentName aa_AgentName (agentArtifacts m),
          agentAttachments := drop_agent scope agentName at_AgentName (agentAttachments m),
          memories := drop_agent scope agentName mem_AgentName (memories m),
          inbox := drop_agent scope agentName inb_AgentName (inbox m)\<rparr>)))"

section \<open>One run\<close>

definition run_sessions :: "MemoryStore \<Rightarrow> Scope \<Rightarrow> string \<Rightarrow> string list" where
  "run_sessions m scope runID =
     remdups
       ((case mget (runs m) (rowKey scope runID) of None \<Rightarrow> []
         | Some run \<Rightarrow> if blank (run_SessionID run) then [] else [run_SessionID run]) @
        map (\<lambda>(k, _). TrimPrefix k (agentPrefix scope))
          (filter (\<lambda>(k, msgs). hasPrefix k (agentPrefix scope) \<and> list_ex (\<lambda>x. msg_RunID x = runID) msgs)
            (messages m)))"

definition without_run_messages :: "Scope \<Rightarrow> string \<Rightarrow> Message list gomap \<Rightarrow> Message list gomap" where
  "without_run_messages scope runID t =
     mapm (\<lambda>k msgs. if \<not> hasPrefix k (agentPrefix scope) then Some msgs
        else (let kept = filter (\<lambda>x. msg_RunID x \<noteq> runID) msgs in if kept = [] then None else Some kept)) t"

definition drop_stale_titles :: "Scope \<Rightarrow> Message list gomap \<Rightarrow> sessionTitle gomap \<Rightarrow> sessionTitle gomap" where
  "drop_stale_titles scope msgs t =
     mfilter (\<lambda>k title. hasPrefix k (agentPrefix scope) \<longrightarrow> title_matches msgs k title) t"

definition without_run_calls :: "string \<Rightarrow> ToolCall list gomap \<Rightarrow> ToolCall list gomap" where
  "without_run_calls runID t = mapm (\<lambda>_ calls. Some (filter (\<lambda>c. tc_RunID c \<noteq> runID) calls)) t"

definition DeleteRunData :: "MemoryStore \<Rightarrow> Scope \<Rightarrow> string \<Rightarrow> unit result \<times> MemoryStore" where
  "DeleteRunData m scope runID =
     scoped withAgent m scope (\<lambda>scope m.
       if blank runID then (Inl (Errorf ''run ID is required''), m)
       else locked scope m (\<lambda>scope m.
         let key = rowKey scope runID;
             m = fold (bumpSessionSummaryGenerationLocked scope) (run_sessions m scope runID) m;
             m = m\<lparr>runs := mdel key (runs m), runScopes := mdel key (runScopes m)\<rparr>;
             m = m\<lparr>agentAttachments := mfilter (\<lambda>k a. \<not> (at_AgentName a = sc_AgentName scope \<and>
                     at_BindingID a = runID \<and> hasPrefix k (tenantPrefix scope))) (agentAttachments m)\<rparr>;
             m = m\<lparr>artifacts := drop_prefix (key @ bar) (artifacts m)\<rparr>;
             m = m\<lparr>messages := without_run_messages scope runID (messages m)\<rparr>;
             m = m\<lparr>sessionTitles := drop_stale_titles scope (messages m) (sessionTitles m)\<rparr>
         in (Inr (), m\<lparr>toolCalls := without_run_calls runID (toolCalls m)\<rparr>)))"

end
