(* ===== verification/Isolation.thy ===== *)
theory Isolation
  imports Transcript Harness Runs Records Webhooks Artifacts Teardown
begin

text \<open>
  Every operation, in a settled store, changes rows of the tenant its scope resolves to and no
  others; the exceptions are named. What an operation of another tenant reads is therefore what
  it would have read before.
\<close>

lemma in_tenant_more [simp]:
  "hasPrefix (agentAttachmentScopeKey s u x) (tenantPrefix s)"
  "hasPrefix (usageKey s a w) (tenantPrefix s)"
  "hasPrefix (deliveryKey s u) (tenantPrefix s)"
  by (simp_all add: usageKey_def deliveryKey_row)
    (simp add: agentAttachmentScopeKey_def tenantPrefix_def hasPrefix_iff)

lemma outside_agent [simp]: "\<not> hasPrefix k (tenantPrefix s) \<Longrightarrow> \<not> hasPrefix k (agentPrefix s)"
  using agentPrefix_tenant by blast

lemma outside_msgPrefix [simp]: "\<not> hasPrefix k (tenantPrefix s) \<Longrightarrow> \<not> hasPrefix k (msgPrefix s a)"
  using hasPrefix_trans [of k "msgPrefix s a" "tenantPrefix s"]
  by (auto simp: msgPrefix_def tenantPrefix_def hasPrefix_iff)

lemma outside_artifacts [simp]:
  "\<not> hasPrefix k (tenantPrefix s) \<Longrightarrow> \<not> hasPrefix k (rowKey s x @ bar)"
  using hasPrefix_trans [of k "rowKey s x @ bar" "tenantPrefix s"]
  by (auto simp: rowKey_prefix hasPrefix_iff)

lemmas run_op = scoped_settled locked_settled resolve_resolve Let_def

section \<open>Conversations\<close>

lemma AppendMessage_confined:
  "settled m \<Longrightarrow> confined (resolve m s) m (snd (AppendMessage m s msg))"
  by (auto simp: AppendMessage_def append_locked_def run_op confined_def split: option.splits)

lemma titles_confined:
  assumes "settled m"
  shows "confined (resolve m s) m (snd (ClaimSessionTitle m s sid first))"
    "confined (resolve m s) m (snd (SetSessionTitleIfEmpty m s sid first title))"
    "confined (resolve m s) m (snd (SetSessionTitle m s sid title))"
  using assms
  by (auto simp: ClaimSessionTitle_def SetSessionTitleIfEmpty_def SetSessionTitle_def run_op
      confined_def split: option.splits)

lemma PutSessionModelSettings_confined:
  "settled m \<Longrightarrow> confined (resolve m s) m (snd (PutSessionModelSettings m s sid settings now))"
  by (auto simp: PutSessionModelSettings_def run_op confined_def split: option.splits)

lemma PutSessionSummary_confined:
  "settled m \<Longrightarrow> confined (resolve m s) m (snd (PutSessionSummary m s x))"
  by (auto simp: PutSessionSummary_def run_op confined_def split: option.splits)

lemma bump_confined: "confined s m (bumpSessionSummaryGenerationLocked s sid m)"
  by (simp add: bumpSessionSummaryGenerationLocked_def confined_def bump_generation_def Let_def)

lemma DeleteSession_confined:
  "settled m \<Longrightarrow> confined (resolve m s) m (snd (DeleteSession m s sid now))"
  by (auto simp: DeleteSession_def run_op confined_def bumpSessionSummaryGenerationLocked_def
      bump_generation_def split: option.splits)

lemma harness_confined:
  assumes "settled m"
  shows "confined (resolve m s) m (snd (NextHarnessTurn m s sid now identity))"
    "confined (resolve m s) m (snd (PutHarnessSession m s h))"
    "confined (resolve m s) m (snd (PutHarnessMCPSession m s c))"
  using assms
  by (auto simp: NextHarnessTurn_def PutHarnessSession_def PutHarnessMCPSession_def run_op
      confined_def split: option.splits sum.splits)

section \<open>Runs\<close>

lemma SaveRun_confined: "settled m \<Longrightarrow> confined (resolve m s) m (snd (SaveRun m s run))"
  by (auto simp: SaveRun_def run_op confined_def split: option.splits)

lemma claims_confined:
  assumes "settled m"
  shows "confined (resolve m s) m (snd (RequestCancel m s rid now))"
    "confined (resolve m s) m (snd (ClaimRun m s rid now inboxID))"
    "confined (resolve m s) m (snd (ClaimRecovery m s rid observed now))"
  using assms
  by (auto simp: RequestCancel_def ClaimRun_def ClaimRecovery_def run_op confined_def
      split: option.splits)

lemma progress_confined:
  assumes "settled m"
  shows "confined (resolve m s) m (snd (PutRunProgress m s rid raw))"
    "confined (resolve m s) m (snd (SaveRunArtifact m s a))"
  using assms
  by (auto simp: PutRunProgress_def SaveRunArtifact_def run_op confined_def split: option.splits)

section \<open>Records\<close>

lemma records_confined:
  assumes "settled m"
  shows "confined (resolve m s) m (snd (PutMemory m s mem))"
    "confined (resolve m s) m (snd (DeleteMemory m s rid))"
    "confined (resolve m s) m (snd (AddInboxItem m s it))"
    "confined (resolve m s) m (snd (ResolveInboxItem m s rid st resp now r))"
    "confined (resolve m s) m (snd (AppendToolCall lib m s tc))"
    "confined (resolve m s) m (snd (AddUsage m s agent inp out usd now window))"
  using assms
  by (auto simp: PutMemory_def DeleteMemory_def AddInboxItem_def ResolveInboxItem_def
      AppendToolCall_def AddUsage_def run_op confined_def split: option.splits sum.splits)

lemma webhooks_confined:
  assumes "settled m"
  shows "confined (resolve m s) m (snd (RecordWebhookDelivery m s d retain clock))"
    "confined (resolve m s) m (snd (DeleteWebhookDeliveries m s uid))"
  using assms
  by (auto simp: RecordWebhookDelivery_def DeleteWebhookDeliveries_def run_op confined_def
      split: option.splits)

lemma artifacts_confined:
  assumes "settled m"
  shows "confined (resolve m s) m (snd (SaveAgentArtifact lib m s a))"
    "confined (resolve m s) m (snd (DeleteAgentArtifact m s uid owner rid))"
  using assms
  by (auto simp: SaveAgentArtifact_def DeleteAgentArtifact_def run_op confined_def
      split: option.splits)

section \<open>Uploads\<close>

lemma scan_uploads_others:
  "others (\<lambda>k. hasPrefix k (tenantPrefix s)) (snd (scan_uploads s u sid actor now n t)) =
   others (\<lambda>k. hasPrefix k (tenantPrefix s)) t"
  by (induction t arbitrary: n) (auto simp: Let_def others_def mfilter_def split_beta)

lemma drop_expired_others [simp]:
  "others (\<lambda>k. hasPrefix k (tenantPrefix s)) (drop_expired s now t) =
   others (\<lambda>k. hasPrefix k (tenantPrefix s)) t"
  by (simp add: drop_expired_def)

lemma uploads_confined:
  assumes "settled m"
  shows "confined (resolve m s) m (snd (CreateAgentAttachment m s a))"
    "confined (resolve m s) m (snd (GetAgentAttachment m s u sid actor rid now))"
    "confined (resolve m s) m (snd (DeleteAgentAttachment m s u sid actor rid now))"
  using assms
  by (auto simp: CreateAgentAttachment_def GetAgentAttachment_def DeleteAgentAttachment_def run_op
      confined_def split: option.splits)

lemma ListAgentAttachments_confined:
  "settled m \<Longrightarrow> confined (resolve m s) m (snd (ListAgentAttachments m s u sid actor limit now))"
  using scan_uploads_others [of "resolve m s" u sid actor now 0 "agentAttachments m"]
  by (auto simp: ListAgentAttachments_def run_op confined_def split: option.splits prod.splits)

lemma CreateAgentChatRun_confined:
  "settled m \<Longrightarrow> confined (resolve m s) m (snd (CreateAgentChatRun m s u msg run receipts actor now clock))"
  by (auto simp: CreateAgentChatRun_def run_op confined_def others_fold
      split: option.splits sum.splits)

section \<open>Teardown\<close>

lemma drop_prefix_others [simp]:
  "(\<And>k. \<not> P k \<Longrightarrow> \<not> hasPrefix k pre) \<Longrightarrow> others P (drop_prefix pre t) = others P t"
  by (simp add: drop_prefix_def)

lemma drop_agent_others [simp]:
  "others (\<lambda>k. hasPrefix k (tenantPrefix s)) (drop_agent s a f t) =
   others (\<lambda>k. hasPrefix k (tenantPrefix s)) t"
  by (simp add: drop_agent_def)

lemma agent_run_keys_others [simp]:
  "others (\<lambda>k. hasPrefix k (tenantPrefix s)) (fold mdel (agent_run_keys s a rs) t) =
   others (\<lambda>k. hasPrefix k (tenantPrefix s)) t"
  by (rule others_fold) (auto simp: agent_run_keys_def)

lemma DeleteAgentData_confined:
  "settled m \<Longrightarrow> confined (resolve m s) m (snd (DeleteAgentData m s a))"
  by (auto simp: DeleteAgentData_def run_op confined_def split: option.splits)

lemma fold_bump_confined: "confined s m (fold (bumpSessionSummaryGenerationLocked s) sids m)"
  by (induction sids arbitrary: m) (auto intro: confined_trans bump_confined)

text \<open>Deleting a run reaches into every tenant's audit log; apart from that it is confined.\<close>

lemma DeleteRunData_confined:
  assumes "settled m"
  shows "confined (resolve m s) m ((snd (DeleteRunData m s rid))\<lparr>toolCalls := toolCalls m\<rparr>)"
  using assms fold_bump_confined [of "resolve m s" m "run_sessions m (resolve m s) rid"]
  by (auto simp: DeleteRunData_def run_op confined_def without_run_messages_def drop_stale_titles_def
      split: option.splits)

end
