(* ===== verification/Tenancy.thy ===== *)
theory Tenancy
  imports MigrationFacts
begin

text \<open>
  What the migration establishes and what it keeps: afterwards no row is left under the
  cluster-keyed scope, rows of other tenants are untouched, no message is lost or duplicated,
  and a store that was settled is settled with the new mapping.
\<close>

section \<open>The migrated tables\<close>

definition refScope :: "TenantRef \<Rightarrow> Scope" where
  "refScope ref = zero_Scope\<lparr>sc_OrgUUID := ref_OrgUUID ref, sc_WorkspaceUUID := ref_WorkspaceUUID ref\<rparr>"

lemma refScope_keys:
  "tenantKey (refScope ref) = ref_OrgUUID ref @ bar @ ref_WorkspaceUUID ref"
  "tenantPrefix (refScope ref) = (ref_OrgUUID ref @ bar @ ref_WorkspaceUUID ref) @ bar"
  "good_ref ref \<Longrightarrow> plain_scope (refScope ref)"
  by (simp_all add: refScope_def tenantKey_def tenantPrefix_def good_ref_def plain_scope_def)

lemma move_tables_eq:
  "move_tables c ref m = (let F = tenantKey (unmappedScope c); T = tenantKey (refScope ref);
     f = tenantPrefix (unmappedScope c); p = tenantPrefix (refScope ref) in
     migrate_winners p (migrate_deliveries f p (migrate_uploads f p (migrate_artifacts f p (migrate_harness f p
      (migrate_generations f p (affectedSessions f m) (migrate_summaries f p (migrate_models f p
       (migrate_usage f p (migrate_tool_calls F T (migrate_inbox f p (migrate_memories f p
        (move_runs f p c ref (migrate_titles f p (migrate_messages f p m)))))))))))))))"
  by (simp only: move_tables_def Let_def unmapped_keys refScope_keys)

lemma move_tables_fields:
  fixes c ref m
  assumes "f = tenantPrefix (unmappedScope c)" "p = tenantPrefix (refScope ref)"
  shows "messages (move_tables c ref m) = move_rows f p append_rows (messages m)"
    "sessionTitles (move_tables c ref m) = move_titles f p (move_rows f p append_rows (messages m)) (sessionTitles m)"
    "runs (move_tables c ref m) = move_rows f p (merge_rows mergeMigratedRun) (runs m)"
    "memories (move_tables c ref m) = move_rows f p (keep_latest mem_UpdatedAt) (memories m)"
    "inbox (move_tables c ref m) = move_rows f p (keep_latest inb_UpdatedAt) (inbox m)"
    "toolCalls (move_tables c ref m) =
       move_tool_calls (tenantKey (unmappedScope c)) (tenantKey (refScope ref)) (toolCalls m)"
    "usage (move_tables c ref m) = move_rows f p (merge_rows add_usage) (usage m)"
    "sessionModels (move_tables c ref m) = move_rows f p keep_current (sessionModels m)"
    "summaries (move_tables c ref m) = move_rows f p (merge_rows mergeMigratedSummary) (summaries m)"
    "summaryGenerations (move_tables c ref m) =
       fold (bump_session p) (affectedSessions f m) (move_rows f p max_generation (summaryGenerations m))"
    "harness (move_tables c ref m) = move_rows f p (merge_rows mergeMigratedHarnessSession) (harness m)"
    "artifacts (move_tables c ref m) = move_rows f p keep_current (artifacts m)"
    "agentAttachments (move_tables c ref m) = move_rows f p keep_current (agentAttachments m)"
    "deliveries (move_tables c ref m) = move_rows f p append_deliveries (deliveries m)"
    "runScopes (move_tables c ref m) = fold (move_run_scope f p c ref) (map fst (runs m)) (runScopes m)"
    "idempotencyPrimary (move_tables c ref m) =
       mark_winners p (move_rows f p (merge_rows mergeMigratedRun) (runs m))
         (fold (\<lambda>key t. if hasPrefix key f then mdel key t else t) (map fst (runs m)) (idempotencyPrimary m))"
    "agentArtifacts (move_tables c ref m) = agentArtifacts m"
    "tenants (move_tables c ref m) = tenants m"
    "messageSequence (move_tables c ref m) = messageSequence m"
    "attachmentQuota (move_tables c ref m) = attachmentQuota m"
    "mcpSessions (move_tables c ref m) = mcpSessions m"
  unfolding move_tables_eq Let_def assms [symmetric]
  by (simp_all add: migrate_steps move_runs_def Let_def)

section \<open>Nothing is left behind\<close>

definition keys :: "'v gomap \<Rightarrow> string set" where
  "keys t = fst ` set t"

lemma keys_simps [simp]: "keys (mput k v t) = insert k (keys t)" "keys (mdel k t) = keys t - {k}"
  by (simp_all add: keys_def)

lemma keys_Cons [simp]: "keys ((k, v) # t) = insert k (keys t)" "keys [] = {}"
  by (simp_all add: keys_def)

lemma keys_mfilter: "k \<in> keys (mfilter P t) \<Longrightarrow> k \<in> keys t"
  by (auto simp: keys_def mfilter_def)

lemma mget_no_key: "mget t k = None \<longleftrightarrow> k \<notin> keys t"
  by (simp add: mget_def map_of_eq_None_iff keys_def)

lemma list_ex_keys: "list_ex (\<lambda>(k, _). Q k) t \<longleftrightarrow> (\<exists>k \<in> keys t. Q k)"
  by (force simp: list_ex_iff keys_def)

lemma keys_fold_gen:
  assumes "apart f p"
    and step: "\<And>key v t k. k \<in> keys (g (key, v) t) \<Longrightarrow>
      k \<in> keys t \<and> (hasPrefix key f \<longrightarrow> k \<noteq> key) \<or> hasPrefix k p"
    and "k \<in> keys (fold g xs t)"
  shows "k \<in> keys t \<and> (hasPrefix k f \<longrightarrow> k \<notin> fst ` set xs) \<or> hasPrefix k p"
  using assms(3)
proof (induction xs arbitrary: t)
  case Nil
  then show ?case by simp
next
  case (Cons kv xs)
  obtain key v where kv: "kv = (key, v)" by (cases kv)
  have "k \<in> keys (g (key, v) t) \<and> (hasPrefix k f \<longrightarrow> k \<notin> fst ` set xs) \<or> hasPrefix k p"
    using Cons.IH [of "g (key, v) t"] Cons.prems by (simp add: kv)
  then show ?case using step [of k key v t] by (auto simp: kv)
qed

lemma vacated_rows:
  assumes "apart f p" shows "\<not> list_ex (\<lambda>(k, _). hasPrefix k f) (move_rows f p merge t)"
  using keys_move_rows [OF assms] by (auto simp only: list_ex_keys keys_def)

lemma keys_move_title:
  "k \<in> keys (move_title f p msgs (key, v) t) \<Longrightarrow>
     k \<in> keys t \<and> (hasPrefix key f \<longrightarrow> k \<noteq> key) \<or> hasPrefix k p"
  by (auto simp: move_title_def moveKey_def Let_def split: option.splits if_splits)

lemma vacated_titles:
  assumes "apart f p" shows "\<not> list_ex (\<lambda>(k, _). hasPrefix k f) (move_titles f p msgs t)"
proof -
  have "\<not> hasPrefix k f" if "k \<in> keys (move_titles f p msgs t)" for k
  proof -
    have "k \<in> keys (fold (move_title f p msgs) t t)"
      using that keys_mfilter unfolding move_titles_def by blast
    then have "k \<in> keys t \<and> (hasPrefix k f \<longrightarrow> k \<notin> fst ` set t) \<or> hasPrefix k p"
      by - (rule keys_fold_gen [OF assms, where g = "move_title f p msgs"],
        erule keys_move_title, assumption)
    then show ?thesis using apart_D [OF assms, of k] unfolding keys_def by blast
  qed
  then show ?thesis by (auto simp only: list_ex_keys)
qed

lemma keys_bump_sessions:
  "k \<in> keys (fold (bump_session p) ss t) \<Longrightarrow> k \<in> keys t \<or> hasPrefix k p"
proof (induction ss arbitrary: t)
  case Nil
  then show ?case by simp
next
  case (Cons x ss)
  then have "k \<in> keys (bump_session p x t) \<or> hasPrefix k p" by simp
  then show ?case by (auto simp: bump_session_def bump_generation_def split: prod.splits)
qed

lemma vacated_generations:
  assumes "apart f p"
  shows "\<not> list_ex (\<lambda>(k, _). hasPrefix k f) (fold (bump_session p) ss (move_rows f p merge t))"
  using keys_bump_sessions keys_move_rows [OF assms, folded keys_def] apart_D [OF assms]
  unfolding list_ex_keys by fast

lemma vacated_calls: "\<not> list_ex (\<lambda>(k, _). k = a) (move_tool_calls a b t)"
  unfolding list_ex_keys by (auto simp: move_tool_calls_def mget_no_key split: option.splits)

lemma apart_ref:
  assumes "good_ref ref" "plain c"
  shows "apart (tenantPrefix (unmappedScope c)) (tenantPrefix (refScope ref))"
proof -
  have "\<not> same_tenant (refScope ref) (unmappedScope c)"
    using assms(1) by (simp add: same_tenant_def refScope_def unmappedScope_def good_ref_def)
  then show ?thesis
    using hasPrefix_tenantPrefix [of "refScope ref" "unmappedScope c"] assms refScope_keys(3)
    by (simp add: apart_def)
qed

lemma move_tables_cleared:
  assumes "good_ref ref" "plain c"
  shows "cleared c (move_tables c ref m)"
proof -
  note a = apart_ref [OF assms]
  show ?thesis
    unfolding cleared_def hasUnmappedRows_def move_tables_fields [OF refl refl]
    by (simp only: vacated_rows [OF a] vacated_titles [OF a] vacated_generations [OF a] vacated_calls
        simp_thms)
qed

lemma migrate_cleared:
  assumes "good_ref ref" "plain c" "c \<noteq> []"
  shows "cleared c (migrateUnmappedScope c ref m)"
proof -
  have "UnmappedOrg @ bar @ c \<noteq> ref_OrgUUID ref @ bar @ ref_WorkspaceUUID ref"
  proof
    assume "UnmappedOrg @ bar @ c = ref_OrgUUID ref @ bar @ ref_WorkspaceUUID ref"
    then have "tenantKey (unmappedScope c) = tenantKey (refScope ref)"
      by (simp only: unmapped_keys refScope_keys)
    then have "same_tenant (unmappedScope c) (refScope ref)"
      using tenantKey_eq [of "unmappedScope c" "refScope ref"] assms refScope_keys(3) by simp
    then show False using assms(1) by (simp add: same_tenant_def refScope_def unmappedScope_def good_ref_def)
  qed
  then show ?thesis
    using move_tables_cleared [OF assms(1,2), of m] assms(1,3)
    by (simp only: migrateUnmappedScope_def Let_def good_ref_def cleared_def unmapped_keys
        if_split simp_thms)
qed

section \<open>Other tenants are untouched\<close>

lemma others_move_rows:
  assumes "\<And>k. hasPrefix k f \<Longrightarrow> P k" "\<And>k. hasPrefix k p \<Longrightarrow> P k"
  shows "others P (move_rows f p merge t) = others P t"
  unfolding move_rows_def
  by (rule others_fold) (auto simp: move_row_def moveKey_def Let_def assms split: option.splits)

lemma others_move_titles:
  assumes "\<And>k. hasPrefix k f \<Longrightarrow> P k" "\<And>k. hasPrefix k p \<Longrightarrow> P k"
  shows "others P (move_titles f p msgs t) = others P t"
proof -
  have "others P (fold (move_title f p msgs) t t) = others P t"
    by (rule others_fold)
      (auto simp: move_title_def moveKey_def Let_def assms split: option.splits)
  then show ?thesis unfolding move_titles_def using assms(2) by (subst others_filter) auto
qed

lemma others_bump_sessions:
  assumes "\<And>k. hasPrefix k p \<Longrightarrow> P k"
  shows "others P (fold (bump_session p) ss t) = others P t"
  by (rule others_fold) (auto simp: bump_session_def bump_generation_def assms split: prod.splits)

lemma others_move_calls: "P a \<Longrightarrow> P b \<Longrightarrow> others P (move_tool_calls a b t) = others P t"
  by (simp add: move_tool_calls_def split: option.splits)

text \<open>Rows of a tenant that is neither the source nor the target of the migration.\<close>

lemma move_tables_cleared_other:
  assumes "good_ref ref" "plain c" "plain d" "d \<noteq> c"
  shows "cleared d (move_tables c ref m) \<longleftrightarrow> cleared d m"
proof -
  let ?P = "\<lambda>k. hasPrefix k (tenantPrefix (unmappedScope c)) \<or> hasPrefix k (tenantPrefix (refScope ref))"
  let ?T = "\<lambda>k. k = tenantKey (unmappedScope c) \<or> k = tenantKey (refScope ref)"
  have apart: "\<not> same_tenant (unmappedScope c) (unmappedScope d)"
      "\<not> same_tenant (refScope ref) (unmappedScope d)"
    using assms by (simp_all add: same_tenant_def refScope_def unmappedScope_def good_ref_def)
  have d: "\<not> ?P k" if "hasPrefix k (tenantPrefix (unmappedScope d))" for k
    using tenant_disjoint [OF _ _ apart(1) that] tenant_disjoint [OF _ _ apart(2) that]
      assms refScope_keys(3) by simp
  have t: "\<not> ?T k" if "k = tenantKey (unmappedScope d)" for k
    using that assms refScope_keys(3) tenantKey_eq [of "unmappedScope d" "unmappedScope c"]
      tenantKey_eq [of "unmappedScope d" "refScope ref"] apart by (auto simp: same_tenant_def)
  note ex = others_list_ex [where P = ?P and Q = "\<lambda>k. hasPrefix k (tenantPrefix (unmappedScope d))", OF _ d]
    and ext = others_list_ex [where P = ?T and Q = "\<lambda>k. k = tenantKey (unmappedScope d)", OF _ t]
  note rows = others_move_rows [where P = ?P] others_move_titles [where P = ?P]
    others_bump_sessions [where P = ?P] others_move_calls [where P = ?T]
  show ?thesis
    unfolding cleared_def hasUnmappedRows_def
    by (intro arg_cong [where f = Not] arg_cong2 [where f = "(\<or>)"] ex ext)
      (simp_all add: move_tables_fields [OF refl refl] rows)
qed

section \<open>Saving a mapping\<close>

lemma validateTenantRef_good:
  assumes "validateTenantRef c ref = None" "plain (ref_OrgUUID ref)" "plain (ref_WorkspaceUUID ref)"
  shows "good_ref ref" "c \<noteq> []"
  using assms by (auto simp: validateTenantRef_def good_ref_def split: if_splits)

lemma migrate_cleared_other:
  "good_ref ref \<Longrightarrow> plain c \<Longrightarrow> plain d \<Longrightarrow> d \<noteq> c \<Longrightarrow>
     cleared d (migrateUnmappedScope c ref m) \<longleftrightarrow> cleared d m"
  using move_tables_cleared_other by (simp add: migrateUnmappedScope_def Let_def)

lemma migrate_tenants [simp]: "tenants (migrateUnmappedScope c ref m) = tenants m"
  by (simp add: migrateUnmappedScope_def Let_def move_tables_fields [OF refl refl])

lemma cleared_tenants [simp]: "cleared c (m\<lparr>tenants := t\<rparr>) = cleared c m"
  by (simp add: cleared_def hasUnmappedRows_def)

lemma SaveTenantRef_settles:
  assumes "settled m" "plain c" "plain (ref_OrgUUID ref)" "plain (ref_WorkspaceUUID ref)"
  shows "settled (snd (SaveTenantRef m c ref))"
proof (cases "validateTenantRef c ref")
  case (Some e)
  then show ?thesis using assms(1) by (simp add: SaveTenantRef_def)
next
  case None
  note good = validateTenantRef_good [OF None assms(3,4)]
  show ?thesis
  proof (cases "mget (tenants m) c")
    case None': None
    have fresh: "d \<noteq> c" if "(d, r) \<in> set (tenants m)" for d r
      using None' that by (force simp: mget_no_key keys_def)
    let ?m = "migrateUnmappedScope c ref m"
    have "good_ref r \<and> plain d \<and> d \<noteq> [] \<and> cleared d ?m" if "(d, r) \<in> set (tenants m)" for d r
      using assms(1) that fresh [OF that] migrate_cleared_other [OF good(1) assms(2)]
      by (auto simp: settled_def)
    then have "settled (?m\<lparr>tenants := mput c ref (tenants m)\<rparr>)"
      using good assms(2) migrate_cleared [OF good(1) assms(2) good(2)]
      by (auto simp: settled_def dest!: set_mput)
    then show ?thesis using None None' by (simp add: SaveTenantRef_def Let_def)
  next
    case (Some current)
    have "cleared c m" using settledD(4) [OF assms(1) Some] .
    then have "migrateUnmappedScope c ref m = m"
      by (simp add: migrateUnmappedScope_def cleared_def unmapped_keys Let_def)
    then show ?thesis using None Some assms(1) by (simp add: SaveTenantRef_def)
  qed
qed

end
