(* ===== verification/RunFacts.thy ===== *)
theory RunFacts
  imports StoreMachine
begin

text \<open>
  What makes runs correct: who may claim one, that a recovery claim is exclusive, that a cancel is
  never lost, what a save leaves alone, that an idempotency key has one winner, and that the
  cursor-paged query returns every run once.
\<close>

section \<open>Single-run operations as functions of the row\<close>

abbreviation row_of :: "MemoryStore \<Rightarrow> Scope \<Rightarrow> string \<Rightarrow> Run option" where
  "row_of m s rid \<equiv> mget (runs m) (rowKey (resolve m s) rid)"

lemma GetRun_eq:
  "settled m \<Longrightarrow> fst (GetRun m s rid) =
     (case Scope_validate (resolve m s) of Some e \<Rightarrow> Inl e
      | None \<Rightarrow> (case row_of m s rid of None \<Rightarrow> Inl (Errorf ''run not found'') | Some run \<Rightarrow> Inr run))"
  by (simp add: GetRun_def run_op split: option.splits)

definition claimed :: "time \<Rightarrow> Run \<Rightarrow> Run" where
  "claimed now run = run\<lparr>run_Phase := RunPhaseRunning, run_UpdatedAt := now,
     run_StartedAt := (case run_StartedAt run of None \<Rightarrow> Some now | Some t \<Rightarrow> Some t)\<rparr>"

definition may_claim :: "string list \<Rightarrow> Run \<Rightarrow> bool" where
  "may_claim inboxID run \<longleftrightarrow> claimable run \<and> (inboxID = [] \<or> hd inboxID = [] \<or>
     run_Phase run = RunPhasePendingApproval \<and> checkpoint_inbox (run_Checkpoint run) = Some (hd inboxID))"

lemma ClaimRun_eq:
  assumes "settled m" "Scope_validate (resolve m s) = None"
  shows "ClaimRun m s rid now inboxID =
    (case row_of m s rid of
       None \<Rightarrow> (Inl (ErrRunClaimConflict rid), m)
     | Some run \<Rightarrow>
        if may_claim inboxID run
        then (Inr (claimed now run), m\<lparr>runs := mput (rowKey (resolve m s) rid) (claimed now run) (runs m)\<rparr>)
        else (Inl (ErrRunClaimConflict rid), m))"
  using assms by (auto simp: ClaimRun_def run_op may_claim_def claimed_def split: option.splits)

lemma claimed_not_claimable: "\<not> may_claim inboxID (claimed now run)"
  by (simp add: may_claim_def claimed_def claimable_def)

definition recovery_claim :: "time \<Rightarrow> Run \<Rightarrow> time \<Rightarrow> Run option" where
  "recovery_claim now run observed =
     (if \<not> run_CancelRequested run \<and> run_Phase run = RunPhaseRunning \<and> run_UpdatedAt run = observed
      then Some (recover_run observed now run) else None)"

lemma ClaimRecovery_eq:
  assumes "settled m" "Scope_validate (resolve m s) = None"
  shows "ClaimRecovery m s rid observed now =
    (case row_of m s rid of
       None \<Rightarrow> (Inl (ErrRecoveryClaimStale rid), m)
     | Some run \<Rightarrow> (case recovery_claim now run observed of
           None \<Rightarrow> (Inl (ErrRecoveryClaimStale rid), m)
         | Some run' \<Rightarrow> (Inr run', m\<lparr>runs := mput (rowKey (resolve m s) rid) run' (runs m)\<rparr>)))"
  using assms by (auto simp: ClaimRecovery_def run_op recovery_claim_def split: option.splits)

lemma after_claim:
  assumes "settled m" "good_scope s" "ClaimRun m s rid now inboxID = (r, m')"
  shows "settled m'" "resolve m' s' = resolve m s'"
  using after_request [OF assms(1,2), of undefined "RClaimRun rid now inboxID"] assms(3) by simp_all

lemma after_recovery:
  assumes "settled m" "good_scope s" "ClaimRecovery m s rid observed now = (r, m')"
  shows "settled m'" "resolve m' s' = resolve m s'"
  using after_request [OF assms(1,2), of undefined "RClaimRecovery rid observed now"] assms(3) by simp_all

section \<open>Recovery\<close>

text \<open>A recovery counts one more attempt and moves the revision on, even when the recovering
  replica's clock is behind.\<close>

theorem ClaimRecovery_advances:
  assumes "settled m" "Scope_validate (resolve m s) = None"
    and "ClaimRecovery m s rid observed now = (Inr run, m')"
  shows "\<exists>old. row_of m s rid = Some old \<and> run_Attempt run = run_Attempt old + 1 \<and>
    run_UpdatedAt old = observed \<and> observed + Microsecond \<le> run_UpdatedAt run \<and>
    now \<le> run_UpdatedAt run"
  using assms by (auto simp: ClaimRecovery_eq recovery_claim_def recover_run_def
      split: option.splits if_splits)

section \<open>What every request leaves of a run\<close>

definition touches_runs :: "request \<Rightarrow> bool" where
  "touches_runs r \<longleftrightarrow> (case r of
     RSaveRun _ \<Rightarrow> True | RRequestCancel _ _ \<Rightarrow> True | RClaimRun _ _ _ \<Rightarrow> True
   | RClaimRecovery _ _ _ \<Rightarrow> True | RPutRunProgress _ _ \<Rightarrow> True
   | RCreateAgentChatRun _ _ _ _ _ _ _ \<Rightarrow> True | RDeleteAgentData _ \<Rightarrow> True
   | RDeleteRunData _ \<Rightarrow> True | _ \<Rightarrow> False)"

lemma bumps_runs [simp]: "runs (fold (bumpSessionSummaryGenerationLocked s) sids m) = runs m"
  by (induction sids arbitrary: m) (simp_all add: bumpSessionSummaryGenerationLocked_def Let_def)

lemma runs_untouched: "settled m \<Longrightarrow> \<not> touches_runs r \<Longrightarrow> runs (apply_request lib r s m) = runs m"
proof (cases r)
qed (auto simp: touches_runs_def AppendMessage_def append_locked_def ClaimSessionTitle_def SetSessionTitleIfEmpty_def
    SetSessionTitle_def PutSessionModelSettings_def PutSessionSummary_def DeleteSession_def
    bumpSessionSummaryGenerationLocked_def NextHarnessTurn_def PutHarnessSession_def
    PutHarnessMCPSession_def SaveRunArtifact_def PutMemory_def DeleteMemory_def AddInboxItem_def
    ResolveInboxItem_def AppendToolCall_def AddUsage_def RecordWebhookDelivery_def
    DeleteWebhookDeliveries_def SaveAgentArtifact_def DeleteAgentArtifact_def
    CreateAgentAttachment_def ListAgentAttachments_def GetAgentAttachment_def
    DeleteAgentAttachment_def run_op split: option.splits sum.splits prod.splits)

text \<open>What is kept from the stored row by whoever rewrites it.\<close>

definition keeps :: "Run \<Rightarrow> Run \<Rightarrow> bool" where
  "keeps old new \<longleftrightarrow>
     (run_CancelRequested old \<longrightarrow>
        run_CancelRequested new \<and> run_CancelRequestedAt new = run_CancelRequestedAt old) \<and>
     (run_HarnessSettings old \<noteq> None \<longrightarrow> run_HarnessSettings new = run_HarnessSettings old) \<and>
     (run_ModelSettings old \<noteq> None \<longrightarrow> run_ModelSettings new = run_ModelSettings old)"

lemma keeps_refl: "keeps old old"
  by (simp add: keeps_def)

lemma keep_owned_keeps: "keeps old (keep_owned old run)"
  by (simp add: keeps_def keep_owned_def Let_def)

lemma mget_drop_agent:
  "wf_map t \<Longrightarrow> mget (drop_agent s a f t) k = Some v \<Longrightarrow> mget t k = Some v"
  by (simp add: drop_agent_def mget_filter split: option.splits if_splits)

text \<open>No request takes back a cancel or replaces the settings a run was pinned to: whatever
  a client does next, the row of the run, as long as it exists, keeps the cancel flag with its
  time, the harness settings and the model settings.\<close>

theorem run_row_keeps:
  assumes "settled m" "wf_store m" "mget (runs m) k = Some old"
    and "mget (runs (apply_request lib r s m)) k = Some new"
  shows "keeps old new"
proof (cases "touches_runs r")
  case False
  then show ?thesis using assms runs_untouched by (simp add: keeps_refl)
next
  case True
  have wf: "wf_map (runs m)" using assms(2) by (simp add: wf_store_def)
  show ?thesis
  proof (cases r)
    case (RSaveRun run)
    then show ?thesis using assms keep_owned_keeps keeps_refl
      by (auto simp: SaveRun_def run_op split: option.splits if_splits)
  next
    case (RDeleteAgentData a)
    then have "mget (runs m) k = Some new"
      using assms mget_drop_agent [OF wf]
      by (auto simp: DeleteAgentData_def run_op split: option.splits)
    then show ?thesis using assms(3) by (simp add: keeps_refl)
  qed (use True assms in \<open>auto simp: touches_runs_def RequestCancel_def ClaimRun_def ClaimRecovery_def
      recover_run_def PutRunProgress_def CreateAgentChatRun_def DeleteRunData_def run_op keeps_def
      split: option.splits sum.splits if_splits\<close>)
qed

section \<open>What a request makes of a row\<close>

definition stored_run :: "request \<Rightarrow> Run option" where
  "stored_run r = (case r of RSaveRun x \<Rightarrow> Some x | RCreateAgentChatRun _ _ x _ _ _ _ \<Rightarrow> Some x | _ \<Rightarrow> None)"

text \<open>The row a request leaves under the key \<open>k\<close>, when it leaves one: the old row, the run a client stores, or the
  old row with what a cancel, a claim, a recovery or a progress report changes in it.\<close>

definition row_change :: "string \<Rightarrow> Scope \<Rightarrow> request \<Rightarrow> Run option \<Rightarrow> Run \<Rightarrow> bool" where
  "row_change k s r old new \<longleftrightarrow> old = Some new \<or>
     (\<exists>x. stored_run r = Some x \<and> rowKey s (run_ID x) = k \<and> new = (case old of None \<Rightarrow> x | Some o' \<Rightarrow> keep_owned o' x)) \<or>
     (\<exists>o'. old = Some o' \<and> (case r of
        RRequestCancel _ now \<Rightarrow> new = o'\<lparr>run_CancelRequested := True, run_CancelRequestedAt := Some now\<rparr>
      | RClaimRun rid now ids \<Rightarrow> rowKey s rid = k \<and> may_claim ids o' \<and> new = claimed now o'
      | RClaimRecovery _ observed now \<Rightarrow> recovery_claim now o' observed = Some new
      | RPutRunProgress _ _ \<Rightarrow> (\<exists>p. new = o'\<lparr>run_progress := p\<rparr>)
      | _ \<Rightarrow> False))"

lemma request_row:
  assumes "settled m" "wf_store m" "mget (runs (apply_request lib r s m)) k = Some new"
  shows "row_change k (resolve m s) r (mget (runs m) k) new"
proof (cases "touches_runs r")
  case False
  then show ?thesis using assms runs_untouched by (simp add: row_change_def)
next
  case True
  have wf: "wf_map (runs m)" using assms(2) by (simp add: wf_store_def)
  show ?thesis
  proof (cases r)
    case (RDeleteAgentData a)
    then show ?thesis using assms mget_drop_agent [OF wf]
      by (auto simp: DeleteAgentData_def run_op row_change_def split: option.splits)
  next
    case (RSaveRun x)
    then show ?thesis using assms
      by (auto simp: SaveRun_def run_op row_change_def stored_run_def Let_def split: option.splits if_splits)
  next
    case (RCreateAgentChatRun u x run rs a t c)
    then show ?thesis using assms
      by (auto simp: CreateAgentChatRun_def run_op row_change_def stored_run_def Let_def
          split: option.splits if_splits sum.splits)
  next
    case (RClaimRun rid now ids)
    then show ?thesis using assms
      by (auto simp: ClaimRun_def run_op row_change_def may_claim_def claimed_def split: option.splits if_splits)
  next
    case (RClaimRecovery rid observed now)
    then show ?thesis using assms
      by (auto simp: ClaimRecovery_def run_op row_change_def recovery_claim_def split: option.splits if_splits)
  next
    case (RPutRunProgress rid p)
    then show ?thesis using assms
      by (auto simp: PutRunProgress_def run_op row_change_def split: option.splits if_splits)
  next
    case (RRequestCancel rid now)
    then show ?thesis using assms
      by (auto simp: RequestCancel_def run_op row_change_def split: option.splits if_splits)
  next
    case (RDeleteRunData rid)
    then show ?thesis using assms
      by (auto simp: DeleteRunData_def run_op row_change_def Let_def split: option.splits if_splits)
  qed (use True in \<open>simp_all add: touches_runs_def\<close>)
qed

text \<open>The requests that come between two claims: any, from anybody, that \<open>P\<close> allows under the scope they resolve to.\<close>

definition request_step :: "PresentationLib \<Rightarrow> (Scope \<Rightarrow> request \<Rightarrow> bool) \<Rightarrow> MemoryStore \<Rightarrow> MemoryStore \<Rightarrow> bool" where
  "request_step lib P m m' \<longleftrightarrow> (\<exists>r s. good_scope s \<and> P (resolve m s) r \<and> m' = apply_request lib r s m)"

definition row_is :: "string \<Rightarrow> (Run \<Rightarrow> bool) \<Rightarrow> MemoryStore \<Rightarrow> bool" where
  "row_is k Q m \<longleftrightarrow> settled m \<and> wf_store m \<and> (\<forall>run. mget (runs m) k = Some run \<longrightarrow> Q run)"

lemma request_step_row:
  assumes "row_is k Q m" "request_step lib P m m'"
    and "\<And>s r old new. P s r \<Longrightarrow> row_change k s r old new \<Longrightarrow> (\<forall>run. old = Some run \<longrightarrow> Q run) \<Longrightarrow> Q new"
  shows "row_is k Q m'"
  using assms request_row after_request(1) request_wf unfolding row_is_def request_step_def by blast

lemma request_steps_resolve:
  "(request_step lib P)\<^sup>*\<^sup>* m m' \<Longrightarrow> settled m \<Longrightarrow> settled m' \<and> (\<forall>s. resolve m' s = resolve m s)"
  by (induction rule: rtranclp_induct) (auto simp: request_step_def after_request)

section \<open>Claims\<close>

text \<open>A run that is not waiting cannot be claimed, and becomes waiting again only when a client stores it so.\<close>

definition no_requeue :: "string \<Rightarrow> Scope \<Rightarrow> request \<Rightarrow> bool" where
  "no_requeue k s r \<longleftrightarrow> (\<forall>x. stored_run r = Some x \<and> rowKey s (run_ID x) = k \<longrightarrow>
     run_Phase x \<noteq> RunPhasePending \<and> run_Phase x \<noteq> RunPhasePendingApproval)"

definition claim_row :: "string \<Rightarrow> MemoryStore \<Rightarrow> Scope \<times> string \<times> time \<times> string list \<Rightarrow> MemoryStore option" where
  "claim_row k m c = (case c of (s, rid, now, ids) \<Rightarrow>
     if settled m \<and> wf_store m \<and> good_scope s \<and> rowKey (resolve m s) rid = k
     then (case ClaimRun m s rid now ids of (Inr _, m') \<Rightarrow> Some m' | _ \<Rightarrow> None) else None)"

lemma keep_owned_phase: "run_Phase (keep_owned o' x) = run_Phase x" "run_UpdatedAt (keep_owned o' x) = run_UpdatedAt x"
  by (simp_all add: keep_owned_def Let_def)

interpretation claims: closing_claim "row_is k (\<lambda>run. \<not> claimable run)" "request_step lib (no_requeue k)" "claim_row k" for k lib
proof
  show "row_is k (\<lambda>run. \<not> claimable run) m'" if c: "claim_row k m c = Some m'" for m c m'
  proof -
    obtain s rid now ids run where c: "c = (s, rid, now, ids)" "settled m" "wf_store m" "good_scope s" "rowKey (resolve m s) rid = k"
      "ClaimRun m s rid now ids = (Inr run, m')"
      using c by (cases c) (auto simp: claim_row_def split: if_splits prod.splits sum.splits)
    have "settled m' \<and> wf_store m'"
      using after_request(1) [OF c(2,4), of undefined "RClaimRun rid now ids"] request_wf [OF c(2,3), of undefined "RClaimRun rid now ids" s] c(6)
      by simp
    moreover have "Scope_validate (resolve m s) = None"
      using c(6) by (auto simp: ClaimRun_def run_op c(2) split: option.splits)
    then have "\<exists>old. mget (runs m') k = Some (claimed now old)" using c(5,6) by (auto simp: ClaimRun_eq c(2) split: option.splits if_splits)
    ultimately show ?thesis by (auto simp: row_is_def claimed_def claimable_def)
  qed
  show "claim_row k m c = None" if "row_is k (\<lambda>run. \<not> claimable run) m" for m c
    using that by (auto simp: claim_row_def row_is_def ClaimRun_def run_op split: option.splits prod.splits)
  show "row_is k (\<lambda>run. \<not> claimable run) m'" if "row_is k (\<lambda>run. \<not> claimable run) m" "request_step lib (no_requeue k) m m'" for m m'
    using that
  proof (rule request_step_row)
    fix s r old new
    assume "no_requeue k s r" "row_change k s r old new" "\<forall>run. old = Some run \<longrightarrow> \<not> claimable run"
    then show "\<not> claimable new"
      by (auto simp: row_change_def no_requeue_def claimable_def claimed_def keep_owned_phase recovery_claim_def recover_run_def
          split: option.splits request.splits if_splits)
  qed
qed

text \<open>C18: a run is claimed once. The winner's copy is stored in phase Running, and from then on every claim of
  the run is refused without a change, whatever requests of anybody are served in between (cancels, recoveries,
  progress reports, deletions and saves included), until a client stores the run as waiting again.\<close>

theorem ClaimRun_once:
  assumes "settled m" "wf_store m" "good_scope s" "ClaimRun m s rid now ids = (Inr run, m1)"
    and "(request_step lib (no_requeue (rowKey (resolve m s) rid)))\<^sup>*\<^sup>* m1 m2"
  shows "run_Phase run = RunPhaseRunning \<and> fst (GetRun m1 s rid) = Inr run \<and>
    ClaimRun m2 s rid now' ids' = (Inl (ErrRunClaimConflict rid), m2)"
proof -
  let ?k = "rowKey (resolve m s) rid"
  note after = after_claim [OF assms(1,3,4)]
  have valid: "Scope_validate (resolve m s) = None"
    using assms(4) by (auto simp: ClaimRun_def run_op assms(1) split: option.splits)
  then have "row_of m1 s rid = Some run" "\<exists>old. run = claimed now old"
    using assms(4) after(2) [of s] by (auto simp: ClaimRun_eq assms(1) split: option.splits if_splits)
  moreover have "claim_row ?k m (s, rid, now, ids) = Some m1" using assms(1-4) by (simp add: claim_row_def)
  then have closed: "row_is ?k (\<lambda>run. \<not> claimable run) m2" using claims.claimed_once [OF _ assms(5)] by blast
  moreover have "resolve m2 s = resolve m s" using request_steps_resolve [OF assms(5) after(1)] after(2) by simp
  ultimately show ?thesis
    using valid after by (auto simp: GetRun_eq ClaimRun_eq row_is_def may_claim_def claimed_def split: option.split)
qed

text \<open>The revision a recovery is fenced by is the row's update time, which its writers choose: a store of the run,
  or a claim of it, with a time that is not later could bring a revision back.\<close>

definition no_backdate :: "string \<Rightarrow> time \<Rightarrow> Scope \<Rightarrow> request \<Rightarrow> bool" where
  "no_backdate k t s r \<longleftrightarrow> (\<forall>x. stored_run r = Some x \<and> rowKey s (run_ID x) = k \<longrightarrow> t < run_UpdatedAt x) \<and>
     (\<forall>rid now ids. r = RClaimRun rid now ids \<and> rowKey s rid = k \<longrightarrow> t < now)"

definition recover_row :: "string \<Rightarrow> time \<Rightarrow> MemoryStore \<Rightarrow> Scope \<times> string \<times> time \<Rightarrow> MemoryStore option" where
  "recover_row k t m c = (case c of (s, rid, now) \<Rightarrow>
     if settled m \<and> wf_store m \<and> good_scope s \<and> rowKey (resolve m s) rid = k
     then (case ClaimRecovery m s rid t now of (Inr _, m') \<Rightarrow> Some m' | _ \<Rightarrow> None) else None)"

interpretation recoveries: closing_claim "row_is k (\<lambda>run. t < run_UpdatedAt run)" "request_step lib (no_backdate k t)" "recover_row k t"
  for k t lib
proof
  show "row_is k (\<lambda>run. t < run_UpdatedAt run) m'" if c: "recover_row k t m c = Some m'" for m c m'
  proof -
    obtain s rid now run where c: "c = (s, rid, now)" "settled m" "wf_store m" "good_scope s" "rowKey (resolve m s) rid = k"
      "ClaimRecovery m s rid t now = (Inr run, m')"
      using c by (cases c) (auto simp: recover_row_def split: if_splits prod.splits sum.splits)
    have "settled m' \<and> wf_store m'"
      using after_request(1) [OF c(2,4), of undefined "RClaimRecovery rid t now"] request_wf [OF c(2,3), of undefined "RClaimRecovery rid t now" s] c(6)
      by simp
    moreover have "Scope_validate (resolve m s) = None"
      using c(6) by (auto simp: ClaimRecovery_def run_op c(2) split: option.splits)
    then have "\<exists>old. mget (runs m') k = Some (recover_run t now old)" using c(5,6)
      by (auto simp: ClaimRecovery_eq c(2) recovery_claim_def split: option.splits if_splits)
    ultimately show ?thesis by (auto simp: row_is_def recover_run_def)
  qed
  show "recover_row k t m c = None" if "row_is k (\<lambda>run. t < run_UpdatedAt run) m" for m c
    using that by (auto simp: recover_row_def row_is_def ClaimRecovery_def run_op split: option.splits prod.splits)
  show "row_is k (\<lambda>run. t < run_UpdatedAt run) m'"
    if "row_is k (\<lambda>run. t < run_UpdatedAt run) m" "request_step lib (no_backdate k t) m m'" for m m'
    using that
  proof (rule request_step_row)
    fix s r old new
    assume "no_backdate k t s r" "row_change k s r old new" "\<forall>run. old = Some run \<longrightarrow> t < run_UpdatedAt run"
    then show "t < run_UpdatedAt new"
      by (auto simp: row_change_def no_backdate_def claimed_def keep_owned_phase recovery_claim_def recover_run_def
          split: option.splits request.splits if_splits)
  qed
qed

text \<open>C24: two replicas that observed the same revision of a run cannot both recover it: after one has, the other is
  refused without a change, whatever requests are served in between, as long as nobody stores or claims the run with an
  update time that is not later than the observed one.\<close>

theorem ClaimRecovery_exclusive:
  assumes "settled m" "wf_store m" "good_scope s" "ClaimRecovery m s rid observed now = (Inr run, m1)"
    and "(request_step lib (no_backdate (rowKey (resolve m s) rid) observed))\<^sup>*\<^sup>* m1 m2"
  shows "ClaimRecovery m2 s rid observed now' = (Inl (ErrRecoveryClaimStale rid), m2)"
proof -
  let ?k = "rowKey (resolve m s) rid"
  note after = after_recovery [OF assms(1,3,4)]
  have "recover_row ?k observed m (s, rid, now) = Some m1" using assms(1-4) by (simp add: recover_row_def)
  then have closed: "row_is ?k (\<lambda>run. observed < run_UpdatedAt run) m2" using recoveries.claimed_once [OF _ assms(5)] by blast
  moreover have "resolve m2 s = resolve m s" using request_steps_resolve [OF assms(5) after(1)] after(2) by simp
  moreover have "Scope_validate (resolve m s) = None"
    using assms(4) by (auto simp: ClaimRecovery_def run_op assms(1) split: option.splits)
  ultimately show ?thesis by (auto simp: ClaimRecovery_eq row_is_def recovery_claim_def split: option.split)
qed

section \<open>Paging\<close>

text \<open>A client that walks the pages of a query over one store.\<close>

definition query_rows :: "MemoryStore \<times> Scope \<times> RunQuery \<Rightarrow> Run list" where
  "query_rows st = (case st of (m, s, q) \<Rightarrow>
     runs_where (\<lambda>run. agent_matches (resolve m s) run \<and> query_matches q run) (resolve m s) m)"

definition query_fetch :: "MemoryStore \<times> Scope \<times> RunQuery \<Rightarrow> stamp option \<Rightarrow> Run list \<times> stamp option" where
  "query_fetch st c = (case st of (m, s, q) \<Rightarrow>
     (case fst (QueryRuns m s q (cursor_of c)) of
        Inl _ \<Rightarrow> ([], None) | Inr page \<Rightarrow> (rpage_Items page, stamp_of (rpage_NextCursor page))))"

definition query_ok :: "MemoryStore \<times> Scope \<times> RunQuery \<Rightarrow> bool" where
  "query_ok st = (case st of (m, s, q) \<Rightarrow>
     settled m \<and> Scope_validate (resolve m s) = None \<and> pageable run_stamp (query_rows st))"

interpretation run_pages: paged_listing run_stamp query_rows
  "\<lambda>(m, s, q). clampLimit (rq_Limit q) 200 50" query_ok query_fetch
proof
  fix st assume "query_ok st"
  obtain m s q where st: "st = (m, s, q)" by (cases st)
  have ok: "settled m" "Scope_validate (resolve m s) = None" "pageable run_stamp (query_rows st)"
    using \<open>query_ok st\<close> by (auto simp: st query_ok_def)
  show "query_fetch st None =
      page_of run_stamp (case st of (m, s, q) \<Rightarrow> clampLimit (rq_Limit q) 200 50) None (query_rows st)"
    using ok by (simp add: st query_fetch_def query_rows_def QueryRuns_def run_op split_beta)
  show "query_fetch st (Some (run_stamp x)) =
      page_of run_stamp (case st of (m, s, q) \<Rightarrow> clampLimit (rq_Limit q) 200 50) (Some (run_stamp x)) (query_rows st)"
    if "x \<in> set (query_rows st)" for x
    using ok decode_row [OF ok(3) that]
    by (simp add: st query_fetch_def query_rows_def QueryRuns_def run_op split_beta)
  show "0 < (case st of (m, s, q) \<Rightarrow> clampLimit (rq_Limit q) 200 50)"
    by (simp add: st clampLimit_pos)
  show "distinct (map run_stamp (query_rows st))" using ok(3) by (simp add: pageable_def)
qed

text \<open>Following the cursors of a run query from the first page lists every matching run exactly
  once, newest first, whatever the page size.\<close>

theorem QueryRuns_pages_complete:
  assumes "settled m" "Scope_validate (resolve m s) = None"
    and "pageable run_stamp (query_rows (m, s, q))"
  shows "walk (query_fetch (m, s, q)) (Suc (length (query_rows (m, s, q)))) None =
    newest_first run_stamp (query_rows (m, s, q))"
  using assms by (intro run_pages.walk_all) (auto simp: query_ok_def)

section \<open>Idempotency keys\<close>

lemma find_unique:
  assumes "x \<in> set xs" "P x" "\<And>y. y \<in> set xs \<Longrightarrow> P y \<Longrightarrow> y = x"
  shows "find P xs = Some x"
proof (cases "find P xs")
  case None
  then show ?thesis using assms(1,2) by (auto simp: find_None_iff)
next
  case (Some y)
  then have "y \<in> set xs" "P y" by (auto simp: find_Some_iff)
  then show ?thesis using Some assms(3) by simp
qed

lemma after_save:
  assumes "settled m" "good_scope s" "SaveRun m s run = (r, m')"
  shows "settled m'" "resolve m' s' = resolve m s'"
  using after_request [OF assms(1,2), of undefined "RSaveRun run"] assms(3) by simp_all

text \<open>The first run saved under an idempotency key is the one a lookup of the key returns, and
  a later run of the same Agent with that key is refused and changes nothing.\<close>

theorem SaveRun_idempotent:
  assumes "settled m" "wf_store m" "good_scope s" "withAgent (resolve m s) = None"
    and "run_AgentName run = sc_AgentName (resolve m s)" "\<not> blank (run_IdempotencyKey run)"
    and "row_of m s (run_ID run) = None" "SaveRun m s run = (Inr (), m')"
    and "row_of m s (run_ID again) = None" "run_ID again \<noteq> run_ID run" "run_ID again \<noteq> []"
      "run_AgentName again = run_AgentName run" "run_IdempotencyKey again = run_IdempotencyKey run"
  shows "fst (FindRunByIdempotencyKey m' s (run_IdempotencyKey run)) = Inr (Some run) \<and>
    SaveRun m' s again = (Inl (Errorf ''duplicate idempotency key''), m')"
proof -
  let ?s = "resolve m s" and ?k = "rowKey (resolve m s) (run_ID run)"
  note after = after_save [OF assms(1,3,8)]
  have key: "run_IdempotencyKey run \<noteq> []" using assms(6) by auto
  have free: "\<not> key_taken m ?s run" and m': "runs m' = mput ?k run (runs m)"
      "idempotencyPrimary m' = mput ?k True (idempotencyPrimary m)"
    using assms(4,7,8) key by (auto simp: SaveRun_def run_op assms(1) split: if_splits)
  have mem: "(?k, run) \<in> set (runs m')" using m'(1) by (intro mget_in_set) simp
  have wf: "wf_map (runs m')" using assms(2) m'(1) by (simp add: wf_store_def)
  have taken: "key_taken m' ?s again"
    using mem m'(2) assms(12,13) by (auto simp: key_taken_def list_ex_iff mgetd_def intro!: bexI [of _ "(?k, run)"])
  have only: "k = ?k \<and> r = run"
    if "(k, r) \<in> set (runs m')" "run_IdempotencyKey r = run_IdempotencyKey run"
      "run_AgentName r = sc_AgentName ?s" "mgetd False (idempotencyPrimary m') k"
      "hasPrefix k (tenantPrefix ?s)" for k r
  proof (rule ccontr)
    assume n: "\<not> (k = ?k \<and> r = run)"
    have "mget (runs m') k = Some r" using that(1) wf by (simp add: set_mget)
    then have "k \<noteq> ?k" "mget (runs m) k = Some r" using n m'(1) by (auto split: if_splits)
    then show False using free that m'(2) assms(5)
      by (auto simp: key_taken_def list_ex_iff mgetd_def dest!: mget_in_set)
  qed
  have "find (\<lambda>(k, r). run_IdempotencyKey r = run_IdempotencyKey run \<and>
      run_AgentName r = sc_AgentName ?s \<and> mgetd False (idempotencyPrimary m') k \<and>
      hasPrefix k (tenantPrefix ?s)) (runs m') = Some (?k, run)"
    using only mem m'(2) assms(5) by (intro find_unique) (auto simp: mgetd_def)
  moreover have "row_of m' s (run_ID again) = None"
    using assms(9,10) after(2) m'(1) by (simp add: rowKey_prefix)
  ultimately show ?thesis
    using after taken assms(4,6,11,13) key
    by (simp add: FindRunByIdempotencyKey_def SaveRun_def run_op resolve_resolve [OF assms(1)])
qed

end
