(* ===== verification/SessionFacts.thy ===== *)
theory SessionFacts
  imports StoreMachine
begin

text \<open>
  What makes conversations correct: sequence numbers identify messages and no migration loses or
  duplicates one, pages are complete, a title belongs to the first user message and is never
  overwritten by a generated one, a summary computed from a wiped history is refused, and
  deleting a session leaves nothing behind.
\<close>

section \<open>Rows across all transcripts\<close>

definition all_rows :: "'a list gomap \<Rightarrow> 'a list" where
  "all_rows t = concat (map snd t)"

lemma all_rows_simps [simp]: "all_rows [] = []" "all_rows ((k, v) # t) = v @ all_rows t"
  by (simp_all add: all_rows_def)

lemma set_all_rows: "x \<in> set (all_rows t) \<longleftrightarrow> (\<exists>k xs. (k, xs) \<in> set t \<and> x \<in> set xs)"
  by (force simp: all_rows_def)

lemma mset_put: "mset (all_rows (mput k w t)) + mset (mgetd [] t k) = mset (all_rows t) + mset w"
proof (induction t)
  case Nil
  then show ?case by (simp add: mput_def mgetd_def)
next
  case (Cons kv t)
  obtain l v where "kv = (l, v)" by (cases kv)
  then show ?case using Cons by (simp add: mput_def mgetd_def mget_def)
qed

lemma mset_del: "wf_map t \<Longrightarrow> mset (all_rows (mdel k t)) + mset (mgetd [] t k) = mset (all_rows t)"
proof (induction t)
  case Nil
  then show ?case by (simp add: mdel_def mgetd_def)
next
  case (Cons kv t)
  obtain l v where kv: "kv = (l, v)" by (cases kv)
  have "wf_map t" "l \<notin> keys t" using Cons.prems by (auto simp: wf_map_def kv keys_def)
  moreover have "k \<notin> keys t \<Longrightarrow> mdel k t = t"
    by (auto simp: mdel_def keys_def intro: delete_idem)
  ultimately show ?case
    using Cons.IH by (auto simp: kv mgetd_def mget_Cons mdel_def delete_simps) 
qed

lemma mset_filter_le: "mset (all_rows (mfilter P t)) \<subseteq># mset (all_rows t)"
  by (induction t) (auto simp: mfilter_def subset_mset.add_increasing2 subset_mset.add_increasing)

lemma mset_mapm_le:
  assumes "\<And>k v w. f k v = Some w \<Longrightarrow> mset w \<subseteq># mset v"
  shows "mset (all_rows (mapm f t)) \<subseteq># mset (all_rows t)"
proof (induction t)
  case Nil
  then show ?case by simp
next
  case (Cons kv t)
  obtain k v where "kv = (k, v)" by (cases kv)
  then show ?case
    using Cons assms by (auto simp: mapm_Cons subset_mset.add_mono subset_mset.add_increasing
        split: option.splits)
qed

section \<open>The migration conserves messages\<close>

lemma mset_move_row:
  assumes "apart f p" "hasPrefix key f" "wf_map t" "mget t key = Some v"
  shows "mset (all_rows (move_row f p append_rows (key, v) t)) = mset (all_rows t)"
proof -
  let ?target = "moveKey f p key" and ?cur = "mgetd [] t (moveKey f p key)"
  have "?target \<noteq> key" using assms(1,2) by (metis apart_def moveKey_def)
  then have "mgetd [] (mput ?target (?cur @ v) t) key = v" using assms(4) by (simp add: mgetd_def)
  moreover have "move_row f p append_rows (key, v) t = mdel key (mput ?target (?cur @ v) t)"
    using assms(2) by (simp add: move_row_def append_rows_def mgetd_def Let_def)
  ultimately show ?thesis
    using mset_del [of "mput ?target (?cur @ v) t" key, OF wf_map_put [OF assms(3)]]
      mset_put [of ?target "?cur @ v" t] by simp
qed

lemma mset_move_rows_gen:
  assumes "apart f p" "distinct (map fst xs)" "wf_map t"
    and "\<And>k v. (k, v) \<in> set xs \<Longrightarrow> hasPrefix k f \<Longrightarrow> mget t k = Some v"
  shows "mset (all_rows (fold (move_row f p append_rows) xs t)) = mset (all_rows t)"
  using assms(2-)
proof (induction xs arbitrary: t)
  case Nil
  then show ?case by simp
next
  case (Cons kv xs)
  obtain key v where kv: "kv = (key, v)" by (cases kv)
  let ?t = "move_row f p append_rows (key, v) t"
  have fresh: "k \<noteq> key" if "(k, w) \<in> set xs" for k w using Cons.prems(1) that by (force simp: kv)
  have "mget ?t k = Some w" if "(k, w) \<in> set xs" "hasPrefix k f" for k w
  proof -
    have "k \<noteq> moveKey f p key" using that(2) assms(1) by (auto simp: apart_def moveKey_def)
    then show ?thesis
      using Cons.prems(3) [of k w] that fresh [OF that(1)]
      by (simp add: kv move_row_def append_rows_def Let_def)
  qed
  then have "mset (all_rows (fold (move_row f p append_rows) xs ?t)) = mset (all_rows ?t)"
    using Cons.prems(1,2) by (intro Cons.IH) (auto simp: kv wf_move_row)
  also have "\<dots> = mset (all_rows t)"
  proof (cases "hasPrefix key f")
    case True
    then show ?thesis using mset_move_row [OF assms(1) True Cons.prems(2)] Cons.prems(3) by (simp add: kv)
  qed (simp add: move_row_def)
  finally show ?case by (simp add: kv)
qed

lemma mset_move_rows:
  "apart f p \<Longrightarrow> wf_map t \<Longrightarrow> mset (all_rows (move_rows f p append_rows t)) = mset (all_rows t)"
  unfolding move_rows_def by (rule mset_move_rows_gen) (auto simp: wf_map_def set_mget)

text \<open>Mapping a cluster to its tenant loses no message and makes no copy of one.\<close>

theorem migration_conserves_messages:
  assumes "good_ref ref" "plain c" "wf_store m"
  shows "mset (all_rows (messages (migrateUnmappedScope c ref m))) = mset (all_rows (messages m))"
  using mset_move_rows [OF apart_ref [OF assms(1,2)], of "messages m"] assms(3)
  by (simp add: migrateUnmappedScope_def Let_def move_tables_fields [OF refl refl] wf_store_def)

text \<open>After a cluster is mapped, each session of the tenant holds its own messages followed by
  those that had been filed under the cluster.\<close>

theorem migrated_transcript:
  assumes "good_ref ref" "plain c" "c \<noteq> []" "wf_store m"
  shows "mgetd [] (messages (migrateUnmappedScope c ref m)) (tenantPrefix (refScope ref) @ x) =
    mgetd [] (messages m) (tenantPrefix (refScope ref) @ x) @
    mgetd [] (messages m) (tenantPrefix (unmappedScope c) @ x)"
proof -
  let ?f = "tenantPrefix (unmappedScope c)" and ?p = "tenantPrefix (refScope ref)"
  have a: "apart ?f ?p" using apart_ref [OF assms(1,2)] .
  have nf: "\<not> hasPrefix (?p @ x) ?f" using a by (simp add: apart_def)
  have wf: "wf_map (messages m)" using assms(4) by (simp add: wf_store_def)
  show ?thesis
  proof (cases "cleared c m")
    case True
    then have "migrateUnmappedScope c ref m = m"
      by (simp add: migrateUnmappedScope_def cleared_def unmapped_keys Let_def)
    moreover have "mget (messages m) (?f @ x) = None"
    proof (rule ccontr)
      assume "mget (messages m) (?f @ x) \<noteq> None"
      then have "\<exists>k \<in> keys (messages m). hasPrefix k ?f" by (auto simp: mget_no_key intro!: bexI [of _ "?f @ x"])
      then show False using True unfolding cleared_def hasUnmappedRows_def list_ex_keys by blast
    qed
    ultimately show ?thesis by (simp add: mgetd_def)
  next
    case False
    then have "messages (migrateUnmappedScope c ref m) = move_rows ?f ?p append_rows (messages m)"
      using migrate_cleared [OF assms(1-3)] assms
      by (auto simp: migrateUnmappedScope_def Let_def move_tables_fields [OF refl refl] cleared_def unmapped_keys
          split: if_splits)
    then show ?thesis
      using mget_move_rows [OF a wf, of append_rows "?p @ x"] nf
      by (simp add: mgetd_def append_rows_def split: option.splits)
  qed
qed

section \<open>Sequence numbers\<close>

definition numbered :: "MemoryStore \<Rightarrow> bool" where
  "numbered m \<longleftrightarrow> distinct (map msg_Sequence (all_rows (messages m))) \<and>
     (\<forall>x \<in> set (all_rows (messages m)). 0 < msg_Sequence x \<and> msg_Sequence x \<le> messageSequence m)"

lemma distinct_mset_sub:
  assumes "mset xs \<subseteq># mset ys" "distinct ys"
  shows "distinct xs"
proof (subst distinct_count_atmost_1, intro allI)
  fix a
  have "count (mset xs) a \<le> count (mset ys) a" using assms(1) by (rule mset_subset_eq_count)
  also have "\<dots> \<le> 1" using assms(2) by (simp add: distinct_count_atmost_1)
  finally have "count (mset xs) a \<le> 1" .
  then show "count (mset xs) a = (if a \<in> set xs then 1 else 0)"
    using count_eq_zero_iff [of "mset xs" a] by (auto simp: le_Suc_eq)
qed

lemma distinct_sub:
  "mset xs \<subseteq># mset ys \<Longrightarrow> distinct (map f ys) \<Longrightarrow> distinct (map f xs)"
  by (rule distinct_mset_sub) (simp_all add: image_mset_subseteq_mono)

lemma numbered_sub:
  assumes "numbered m" "mset (all_rows (messages m')) \<subseteq># mset (all_rows (messages m))"
    "messageSequence m' = messageSequence m"
  shows "numbered m'"
proof -
  have "set (all_rows (messages m')) \<subseteq> set (all_rows (messages m))"
    using assms(2) by (metis set_mset_mono set_mset_mset)
  then show ?thesis using assms distinct_sub by (auto simp: numbered_def)
qed

text \<open>An append takes the next number.\<close>

lemma numbered_append:
  assumes "numbered m" "messages m' = mput k (mgetd [] (messages m) k @ [x\<lparr>msg_Sequence := messageSequence m + 1\<rparr>]) (messages m)"
    "messageSequence m' = messageSequence m + 1" "0 \<le> messageSequence m"
  shows "numbered m'"
proof -
  let ?x = "x\<lparr>msg_Sequence := messageSequence m + 1\<rparr>"
  have "mset (all_rows (messages m')) + mset (mgetd [] (messages m) k) =
      mset (?x # all_rows (messages m)) + mset (mgetd [] (messages m) k)"
    using mset_put [of k "mgetd [] (messages m) k @ [?x]" "messages m"] assms(2) by simp
  then have eq: "mset (all_rows (messages m')) = mset (?x # all_rows (messages m))" by simp
  have "distinct (map msg_Sequence (?x # all_rows (messages m)))"
    using assms(1) by (fastforce simp: numbered_def)
  then have "distinct (map msg_Sequence (all_rows (messages m')))"
    using distinct_sub [of "all_rows (messages m')" "?x # all_rows (messages m)" msg_Sequence] eq by simp
  moreover have "set (all_rows (messages m')) = insert ?x (set (all_rows (messages m)))"
    using eq by (metis list.simps(15) set_mset_mset)
  ultimately show ?thesis using assms by (fastforce simp: numbered_def)
qed

definition touches_messages :: "request \<Rightarrow> bool" where
  "touches_messages r \<longleftrightarrow> (case r of
     RAppendMessage _ \<Rightarrow> True | RDeleteSession _ _ \<Rightarrow> True | RDeleteAgentData _ \<Rightarrow> True
   | RDeleteRunData _ \<Rightarrow> True | RCreateAgentChatRun _ _ _ _ _ _ _ \<Rightarrow> True | _ \<Rightarrow> False)"

lemma bumps_messages [simp]:
  "messages (fold (bumpSessionSummaryGenerationLocked s) sids m) = messages m"
  "messageSequence (fold (bumpSessionSummaryGenerationLocked s) sids m) = messageSequence m"
  by (induction sids arbitrary: m) (simp_all add: bumpSessionSummaryGenerationLocked_def Let_def)

lemma messages_untouched:
  "settled m \<Longrightarrow> \<not> touches_messages r \<Longrightarrow>
     messages (apply_request lib r s m) = messages m \<and>
     messageSequence (apply_request lib r s m) = messageSequence m"
proof (cases r)
qed (auto simp: touches_messages_def ClaimSessionTitle_def SetSessionTitleIfEmpty_def
    SetSessionTitle_def PutSessionModelSettings_def PutSessionSummary_def NextHarnessTurn_def
    PutHarnessSession_def PutHarnessMCPSession_def SaveRun_def RequestCancel_def ClaimRun_def
    ClaimRecovery_def PutRunProgress_def SaveRunArtifact_def PutMemory_def DeleteMemory_def AddInboxItem_def
    ResolveInboxItem_def AppendToolCall_def AddUsage_def RecordWebhookDelivery_def
    DeleteWebhookDeliveries_def SaveAgentArtifact_def DeleteAgentArtifact_def
    CreateAgentAttachment_def ListAgentAttachments_def GetAgentAttachment_def
    DeleteAgentAttachment_def run_op split: option.splits sum.splits prod.splits)

lemma mset_without_run:
  "mset (all_rows (without_run_messages s rid t)) \<subseteq># mset (all_rows t)"
  unfolding without_run_messages_def
  by (rule mset_mapm_le) (auto simp: Let_def multiset_filter_subset split: if_splits)

lemma request_numbered:
  assumes "settled m" "wf_store m" "numbered m" "0 \<le> messageSequence m"
  shows "numbered (apply_request lib r s m) \<and> 0 \<le> messageSequence (apply_request lib r s m)"
proof (cases "touches_messages r")
  case False
  then show ?thesis using assms messages_untouched numbered_sub by simp
next
  case True
  have wf: "wf_map (messages m)" using assms(2) by (simp add: wf_store_def)
  have del: "mset (all_rows (mdel k (messages m))) \<subseteq># mset (all_rows (messages m))" for k
    using mset_del [OF wf, of k] by (metis mset_subset_eq_add_left)
  show ?thesis
  proof (cases r)
    case (RAppendMessage x)
    then show ?thesis using assms numbered_append
      by (auto simp: AppendMessage_def append_locked_def run_op split: option.splits)
  next
    case (RCreateAgentChatRun u x run rs a t c)
    then show ?thesis using assms numbered_append
      by (auto simp: CreateAgentChatRun_def run_op split: option.splits sum.splits)
  next
    case (RDeleteSession sid t)
    then show ?thesis using assms del numbered_sub [OF assms(3)]
      by (auto simp: DeleteSession_def run_op bumpSessionSummaryGenerationLocked_def split: option.splits)
  next
    case (RDeleteAgentData a)
    then show ?thesis using assms
      by (auto simp: DeleteAgentData_def run_op drop_prefix_def mset_filter_le
          intro!: numbered_sub [OF assms(3)] split: option.splits)
  next
    case (RDeleteRunData rid)
    then show ?thesis using assms mset_without_run numbered_sub [OF assms(3)]
      by (auto simp: DeleteRunData_def run_op split: option.splits)
  qed (use True in \<open>auto simp: touches_messages_def\<close>)
qed

lemma migrate_numbered:
  assumes "numbered m" "wf_store m" "good_ref ref" "plain c"
  shows "numbered (migrateUnmappedScope c ref m)"
proof (rule numbered_sub [OF assms(1)])
  show "mset (all_rows (messages (migrateUnmappedScope c ref m))) \<subseteq># mset (all_rows (messages m))"
    using mset_move_rows [OF apart_ref [OF assms(3,4)], of "messages m"] assms(2)
    by (simp add: migrateUnmappedScope_def Let_def move_tables_fields [OF refl refl] wf_store_def)
  show "messageSequence (migrateUnmappedScope c ref m) = messageSequence m"
    by (simp add: migrateUnmappedScope_def Let_def move_tables_fields [OF refl refl])
qed

lemma migrate_sequence [simp]: "messageSequence (migrateUnmappedScope c ref m) = messageSequence m"
  by (simp add: migrateUnmappedScope_def Let_def move_tables_fields [OF refl refl])

lemma SaveTenantRef_numbered:
  assumes "numbered m" "wf_store m" "plain c" "plain (ref_OrgUUID ref)" "plain (ref_WorkspaceUUID ref)"
  shows "numbered (snd (SaveTenantRef m c ref)) \<and>
    messageSequence (snd (SaveTenantRef m c ref)) = messageSequence m"
proof (cases "validateTenantRef c ref")
  case None
  note migrate_numbered [OF assms(1,2) validateTenantRef_good(1) [OF None assms(4,5)] assms(3)]
  then show ?thesis using None assms(1)
    by (auto simp: SaveTenantRef_def Let_def numbered_def split: option.splits)
qed (simp add: SaveTenantRef_def assms(1))

lemma reachable_numbered: "reachable lib m \<Longrightarrow> numbered m \<and> 0 \<le> messageSequence m"
proof (induction rule: reachable.induct)
  case empty
  then show ?case by (simp add: numbered_def NewMemoryStore_def)
next
  case (mapping m c ref)
  then show ?case using SaveTenantRef_numbered reachable_is_wf by simp
next
  case (request m s r)
  then show ?case using request_numbered reachable_is_settled reachable_is_wf by blast
next
  case (quota m q)
  then show ?case by (auto simp: ConfigureAgentAttachmentQuota_def numbered_def split: option.splits)
next
  case (reconcile m now)
  then show ?case by (simp add: ReconcileAgentAttachmentBindings_def numbered_def)
qed

end
