(* ===== verification/TranscriptFacts.thy ===== *)
theory TranscriptFacts
  imports SessionFacts
begin

text \<open>
  Conversations through their operations: what an append makes visible, pages of a transcript,
  the title claim, the generation fence of summaries, and what deleting a session wipes.
\<close>

section \<open>Transcripts\<close>

abbreviation transcript :: "MemoryStore \<Rightarrow> Scope \<Rightarrow> string \<Rightarrow> Message list" where
  "transcript m s sid \<equiv> mgetd [] (messages m) (sessionKey (resolve m s) sid)"

definition message_fetch :: "MemoryStore \<times> Scope \<times> string \<times> int \<Rightarrow> stamp option \<Rightarrow> Message list \<times> stamp option" where
  "message_fetch st c = (case st of (m, s, sid, limit) \<Rightarrow>
     (case fst (ListMessages m s sid limit (cursor_of c)) of
        Inl _ \<Rightarrow> ([], None) | Inr page \<Rightarrow> (page_Items page, stamp_of (page_NextCursor page))))"

definition message_ok :: "MemoryStore \<times> Scope \<times> string \<times> int \<Rightarrow> bool" where
  "message_ok st = (case st of (m, s, sid, limit) \<Rightarrow>
     settled m \<and> withAgent (resolve m s) = None \<and> pageable msg_stamp (transcript m s sid))"

interpretation message_pages: paged_listing msg_stamp "\<lambda>(m, s, sid, limit). transcript m s sid"
  "\<lambda>(m, s, sid, limit). clampLimit limit 500 100" message_ok message_fetch
proof
  fix st assume "message_ok st"
  obtain m s sid limit where st: "st = (m, s, sid, limit)" by (cases st)
  have ok: "settled m" "withAgent (resolve m s) = None" "pageable msg_stamp (transcript m s sid)"
    using \<open>message_ok st\<close> by (auto simp: st message_ok_def)
  show "message_fetch st None = page_of msg_stamp
      (case st of (m, s, sid, limit) \<Rightarrow> clampLimit limit 500 100) None
      (case st of (m, s, sid, limit) \<Rightarrow> transcript m s sid)"
    using ok by (simp add: st message_fetch_def ListMessages_def run_op split_beta)
  show "message_fetch st (Some (msg_stamp x)) = page_of msg_stamp
      (case st of (m, s, sid, limit) \<Rightarrow> clampLimit limit 500 100) (Some (msg_stamp x))
      (case st of (m, s, sid, limit) \<Rightarrow> transcript m s sid)"
    if "x \<in> set (case st of (m, s, sid, limit) \<Rightarrow> transcript m s sid)" for x
    using ok decode_row [OF ok(3), of x] that
    by (simp add: st message_fetch_def ListMessages_def run_op split_beta)
  show "0 < (case st of (m, s, sid, limit) \<Rightarrow> clampLimit limit 500 100)"
    by (simp add: st clampLimit_pos)
  show "distinct (map msg_stamp (case st of (m, s, sid, limit) \<Rightarrow> transcript m s sid))"
    using ok(3) by (simp add: st pageable_def)
qed

text \<open>Walking the pages of a transcript with their cursors reads every message exactly once,
  newest first, whatever the page size.\<close>

theorem ListMessages_pages_complete:
  assumes "settled m" "withAgent (resolve m s) = None" "pageable msg_stamp (transcript m s sid)"
  shows "walk (message_fetch (m, s, sid, limit)) (Suc (length (transcript m s sid))) None =
    newest_first msg_stamp (transcript m s sid)"
  using message_pages.walk_all [of "(m, s, sid, limit)" "Suc (length (transcript m s sid))"] assms
  by (simp add: message_ok_def)

text \<open>The recent window is the newest part of the transcript in order: it has at most the
  clamped number of messages, and no message left out is newer than one in it.\<close>

theorem LoadRecentMessages_newest:
  assumes "settled m" "withAgent (resolve m s) = None"
  shows "\<exists>out. fst (LoadRecentMessages m s sid limit) = Inr out \<and>
    length out = min (clampLimit limit 500 50) (length (transcript m s sid)) \<and>
    sorted (map msg_stamp out) \<and>
    (\<exists>omitted. mset (transcript m s sid) = mset omitted + mset out \<and>
       (\<forall>a \<in> set omitted. \<forall>b \<in> set out. msg_stamp a \<le> msg_stamp b))"
proof -
  let ?all = "oldest_first msg_stamp (transcript m s sid)"
  let ?n = "length ?all - clampLimit limit 500 50"
  have "sorted (map msg_stamp (take ?n ?all @ drop ?n ?all))"
    using sorted_oldest_first by simp
  then have "sorted (map msg_stamp (drop ?n ?all))"
      "\<forall>a \<in> set (take ?n ?all). \<forall>b \<in> set (drop ?n ?all). msg_stamp a \<le> msg_stamp b"
    unfolding map_append sorted_append by auto
  moreover have "mset (transcript m s sid) = mset (take ?n ?all) + mset (drop ?n ?all)"
    by (metis append_take_drop_id mset_append mset_oldest_first)
  moreover have "fst (LoadRecentMessages m s sid limit) = Inr (drop ?n ?all)"
    using assms by (simp add: LoadRecentMessages_def run_op)
  moreover have "length (drop ?n ?all) = min (clampLimit limit 500 50) (length (transcript m s sid))"
    by simp
  ultimately show ?thesis by blast
qed

lemma after_append:
  assumes "settled m" "good_scope s" "AppendMessage m s x = (r, m')"
  shows "settled m'" "resolve m' s' = resolve m s'"
  using after_request [OF assms(1,2), of undefined "RAppendMessage x"] assms(3) by simp_all

section \<open>Tool results\<close>

definition is_result :: "string \<Rightarrow> string \<Rightarrow> Message \<Rightarrow> bool" where
  "is_result runID callID x \<longleftrightarrow>
     msg_Role x = ''tool'' \<and> msg_RunID x = runID \<and> toolCallIDMatches (msg_Metadata x) callID"

lemma tool_result_loop_step:
  "tool_result_loop runID callID found (x # xs) =
     (if \<not> is_result runID callID x then tool_result_loop runID callID found xs
      else if found \<noteq> None then Inl (Errorf ''tool result identity is ambiguous'')
      else tool_result_loop runID callID (Some x) xs)"
  by (simp add: is_result_def)

lemma tool_result_loop_found:
  "tool_result_loop runID callID (Some y) xs =
     (if filter (is_result runID callID) xs = [] then Inr (Some y)
      else Inl (Errorf ''tool result identity is ambiguous''))"
  by (induction xs) (simp_all add: tool_result_loop_step del: tool_result_loop.simps(2))

lemma tool_result_loop_eq:
  "tool_result_loop runID callID None xs =
     (case filter (is_result runID callID) xs of [] \<Rightarrow> Inr None | [x] \<Rightarrow> Inr (Some x)
      | _ \<Rightarrow> Inl (Errorf ''tool result identity is ambiguous''))"
  by (induction xs)
    (auto simp: tool_result_loop_step tool_result_loop_found simp del: tool_result_loop.simps(2)
      split: list.splits)

text \<open>A tool result is returned exactly when one message of the session carries the call's
  identity and fits the artifact bound; two of them are never resolved silently.\<close>

theorem GetToolResult_unique:
  assumes "settled m" "withAgent (resolve m s) = None"
    and "\<not> blank runID" "\<not> blank sid" "\<not> blank callID"
  shows "fst (GetToolResult m s runID sid callID) = Inr (Some x) \<longleftrightarrow>
    filter (is_result runID callID) (transcript m s sid) = [x] \<and>
    length (msg_Content x) \<le> MaxAgentArtifactBytes"
  using assms
  by (auto simp: GetToolResult_def run_op tool_result_loop_eq split: list.splits)

section \<open>Titles\<close>

abbreviation title_row :: "MemoryStore \<Rightarrow> Scope \<Rightarrow> string \<Rightarrow> sessionTitle option" where
  "title_row m s sid \<equiv> mget (sessionTitles m) (sessionKey (resolve m s) sid)"

lemma after_title:
  assumes "settled m" "good_scope s"
  shows "ClaimSessionTitle m s sid first = (r, m') \<Longrightarrow> settled m' \<and> (\<forall>s'. resolve m' s' = resolve m s')"
    "SetSessionTitle m s sid title = (r, m') \<Longrightarrow> settled m' \<and> (\<forall>s'. resolve m' s' = resolve m s')"
  using after_request [OF assms, of undefined "RClaimSessionTitle sid first"]
    after_request [OF assms, of undefined "RSetSessionTitle sid title"] by auto

text \<open>The title of a session is claimed once: after a successful claim the stored claim names
  the first persisted user message, and no second claim succeeds.\<close>

theorem ClaimSessionTitle_once:
  assumes "settled m" "good_scope s" "ClaimSessionTitle m s sid first = (Inr True, m')"
  shows "title_row m s sid = None \<and>
    title_row m' s sid = Some \<lparr>title_FirstMessageID = first, title_Title = []\<rparr> \<and>
    map_option msg_ID (firstPersistedUserMessage (transcript m' s sid)) = Some first \<and>
    (\<forall>first'. fst (ClaimSessionTitle m' s sid first') \<noteq> Inr True)"
proof -
  have after: "settled m'" "\<And>s'. resolve m' s' = resolve m s'" using after_title(1) [OF assms] by auto
  have "title_row m s sid = None"
      "title_row m' s sid = Some \<lparr>title_FirstMessageID = first, title_Title = []\<rparr>"
      "map_option msg_ID (firstPersistedUserMessage (transcript m' s sid)) = Some first"
    using assms(3) after by (auto simp: ClaimSessionTitle_def run_op assms(1) split: option.splits if_splits)
  then show ?thesis using after
    by (auto simp: ClaimSessionTitle_def run_op assms(1) split: option.splits if_splits)
qed

text \<open>A title a user set is final for title generation: \<open>SetSessionTitleIfEmpty\<close> never replaces
  a title that is not empty, and in particular not the one \<open>SetSessionTitle\<close> just wrote.\<close>

theorem SetSessionTitleIfEmpty_keeps:
  assumes "settled m" "title_row m s sid = Some row" "title_Title row \<noteq> []"
  shows "snd (SetSessionTitleIfEmpty m s sid first title) = m \<and>
    fst (SetSessionTitleIfEmpty m s sid first title) \<noteq> Inr True"
  using assms by (auto simp: SetSessionTitleIfEmpty_def run_op split: option.splits)

section \<open>Model preferences\<close>

definition preference_count :: "MemoryStore \<Rightarrow> Scope \<Rightarrow> nat" where
  "preference_count m s = length (filter (\<lambda>(k, _). hasPrefix k (agentPrefix s)) (sessionModels m))"

lemma length_filter_put:
  "length (filter (\<lambda>(k, _). P k) (mput k v t)) =
     length (filter (\<lambda>(k, _). P k) t) + (if mget t k = None \<and> P k then 1 else 0)"
  by (induction t) (auto simp: mput_def mget_def)

text \<open>An Agent's conversations never hold more model preferences than the limit through this
  operation: a new one is refused at the limit, an existing one can always be replaced.\<close>

theorem PutSessionModelSettings_bounded:
  assumes "settled m" "preference_count m (resolve m s) \<le> MaxSessionModelSettingsPerAgent"
    and "PutSessionModelSettings m s sid settings now = (r, m')"
  shows "preference_count m' (resolve m s) \<le> MaxSessionModelSettingsPerAgent \<and>
    (r = Inl ErrSessionModelLimit \<longrightarrow>
       m' = m \<and> mget (sessionModels m) (sessionKey (resolve m s) sid) = None \<and>
       preference_count m (resolve m s) = MaxSessionModelSettingsPerAgent)"
  using assms
  by (auto simp: PutSessionModelSettings_def run_op preference_count_def length_filter_put
      withAgent_def Scope_validate_def split: option.splits if_splits)

section \<open>The generation fence of summaries\<close>

definition touches_generations :: "request \<Rightarrow> bool" where
  "touches_generations r \<longleftrightarrow> (case r of RDeleteSession _ _ \<Rightarrow> True | RDeleteRunData _ \<Rightarrow> True | _ \<Rightarrow> False)"

lemma generations_untouched:
  "settled m \<Longrightarrow> \<not> touches_generations r \<Longrightarrow>
     summaryGenerations (apply_request lib r s m) = summaryGenerations m"
proof (cases r)
qed (auto simp: touches_generations_def AppendMessage_def append_locked_def ClaimSessionTitle_def SetSessionTitleIfEmpty_def
    SetSessionTitle_def PutSessionModelSettings_def PutSessionSummary_def NextHarnessTurn_def
    PutHarnessSession_def PutHarnessMCPSession_def SaveRun_def RequestCancel_def ClaimRun_def
    ClaimRecovery_def PutRunProgress_def SaveRunArtifact_def PutMemory_def DeleteMemory_def AddInboxItem_def
    ResolveInboxItem_def AppendToolCall_def AddUsage_def RecordWebhookDelivery_def
    DeleteWebhookDeliveries_def SaveAgentArtifact_def DeleteAgentArtifact_def
    CreateAgentAttachment_def ListAgentAttachments_def GetAgentAttachment_def CreateAgentChatRun_def
    DeleteAgentAttachment_def DeleteAgentData_def run_op split: option.splits sum.splits prod.splits)

lemma bump_summary_generation:
  "summary_generation k (bumpSessionSummaryGenerationLocked s sid m) =
     summary_generation k m + (if k = sessionKey s sid then 1 else 0)"
  by (simp add: summary_generation_def bumpSessionSummaryGenerationLocked_def bump_generation_def
      mgetd_def Let_def)

lemma fold_bump_generation:
  "distinct sids \<Longrightarrow> summary_generation (sessionKey s sid) (fold (bumpSessionSummaryGenerationLocked s) sids m) =
     summary_generation (sessionKey s sid) m + (if sid \<in> set sids then 1 else 0)"
  by (induction sids arbitrary: m) (auto simp: bump_summary_generation sessionKey_prefix)

lemma fold_bump_mono:
  "summary_generation k m \<le> summary_generation k (fold (bumpSessionSummaryGenerationLocked s) sids m)"
proof (induction sids arbitrary: m)
  case (Cons sid sids)
  have "summary_generation k m \<le> summary_generation k (bumpSessionSummaryGenerationLocked s sid m)"
    by (simp add: bump_summary_generation)
  then show ?case using Cons.IH [of "bumpSessionSummaryGenerationLocked s sid m"] by simp
qed simp

lemma DeleteSession_generation:
  "settled m \<Longrightarrow> summary_generation k (snd (DeleteSession m s sid now)) =
     summary_generation k m +
       (if withAgent (resolve m s) = None \<and> k = sessionKey (resolve m s) sid then 1 else 0)"
  by (auto simp: DeleteSession_def run_op summary_generation_def bumpSessionSummaryGenerationLocked_def
      bump_generation_def mgetd_def split: option.splits)

lemma DeleteRunData_generation:
  assumes "settled m"
  shows "summary_generation k (snd (DeleteRunData m s rid)) =
    (if withAgent (resolve m s) = None \<and> \<not> blank rid
     then summary_generation k (fold (bumpSessionSummaryGenerationLocked (resolve m s))
            (run_sessions m (resolve m s) rid) m)
     else summary_generation k m)"
  using assms by (auto simp: DeleteRunData_def run_op summary_generation_def split: option.splits)

lemma request_generation_mono:
  assumes "settled m"
  shows "summary_generation k m \<le> summary_generation k (apply_request lib r s m)"
proof (cases r)
  case (RDeleteSession sid now)
  then show ?thesis using DeleteSession_generation [OF assms, of k s sid now] by simp
next
  case (RDeleteRunData rid)
  then show ?thesis using DeleteRunData_generation [OF assms, of k s rid] fold_bump_mono [of k m]
    by (simp split: if_splits)
qed (use generations_untouched [OF assms, of r lib s] in
  \<open>simp_all add: touches_generations_def summary_generation_def\<close>)

text \<open>The steps a summary token of one key lives through: requests of settled stores.\<close>

definition fence_step :: "PresentationLib \<Rightarrow> MemoryStore \<Rightarrow> MemoryStore \<Rightarrow> bool" where
  "fence_step lib m m' \<longleftrightarrow> settled m \<and> (\<exists>r s. good_scope s \<and> m' = apply_request lib r s m)"

interpretation summary_fence: fence "summary_generation k" "fence_step lib"
    "\<lambda>m token. token = summary_generation k m" for k lib
  by unfold_locales (auto simp: fence_step_def request_generation_mono)

lemma fence_steps:
  "(fence_step lib)\<^sup>*\<^sup>* m m' \<Longrightarrow> settled m \<Longrightarrow> settled m' \<and> (\<forall>s. resolve m' s = resolve m s)"
  by (induction rule: rtranclp_induct) (auto simp: fence_step_def after_request)

lemma PutSessionSummary_stale:
  assumes "settled m" "sum_Generation x \<noteq> summary_generation (sessionKey (resolve m s) (sum_SessionID x)) m"
  shows "\<exists>e. PutSessionSummary m s x = (Inl e, m)"
  using assms by (auto simp: PutSessionSummary_def run_op split: option.splits)

text \<open>C25: a compactor that read a session before it was deleted can never write its summary back,
  whatever requests are served in between: the write is refused and changes nothing.\<close>

theorem summary_stale_after_DeleteSession:
  assumes "settled m" "good_scope s" "withAgent (resolve m s) = None"
    and "sum_Generation x \<le> summary_generation (sessionKey (resolve m s) (sum_SessionID x)) m"
    and "(fence_step lib)\<^sup>*\<^sup>* (snd (DeleteSession m s (sum_SessionID x) now)) m2"
  shows "\<exists>e. PutSessionSummary m2 s x = (Inl e, m2)"
proof -
  let ?m1 = "snd (DeleteSession m s (sum_SessionID x) now)" and ?k = "sessionKey (resolve m s) (sum_SessionID x)"
  have "settled ?m1 \<and> (\<forall>s'. resolve ?m1 s' = resolve m s')"
    using after_request [OF assms(1,2), of lib "RDeleteSession (sum_SessionID x) now"] by simp
  then have after: "settled m2" "resolve m2 s = resolve m s" using fence_steps [OF assms(5)] by auto
  have "sum_Generation x < summary_generation ?k ?m1"
    using assms(3,4) DeleteSession_generation [OF assms(1)] by simp
  then have "sum_Generation x \<noteq> summary_generation ?k m2"
    using summary_fence.stale_refused [OF _ assms(5)] by blast
  then show ?thesis using PutSessionSummary_stale [OF after(1)] after(2) by simp
qed

text \<open>Deleting a run fences the summary of every session that holds one of its messages, and of
  the session it ran in: a summary computed before can never be written back.\<close>

theorem summary_stale_after_DeleteRunData:
  assumes "settled m" "good_scope s" "withAgent (resolve m s) = None" "\<not> blank rid"
    and "sum_SessionID x \<in> set (run_sessions m (resolve m s) rid)"
    and "sum_Generation x \<le> summary_generation (sessionKey (resolve m s) (sum_SessionID x)) m"
    and "(fence_step lib)\<^sup>*\<^sup>* (snd (DeleteRunData m s rid)) m2"
  shows "\<exists>e. PutSessionSummary m2 s x = (Inl e, m2)"
proof -
  let ?m1 = "snd (DeleteRunData m s rid)" and ?k = "sessionKey (resolve m s) (sum_SessionID x)"
  have "settled ?m1 \<and> (\<forall>s'. resolve ?m1 s' = resolve m s')"
    using after_request [OF assms(1,2), of lib "RDeleteRunData rid"] by simp
  then have after: "settled m2" "resolve m2 s = resolve m s" using fence_steps [OF assms(7)] by auto
  have "distinct (run_sessions m (resolve m s) rid)" by (simp add: run_sessions_def)
  then have "sum_Generation x < summary_generation ?k ?m1"
    using assms(3-6) DeleteRunData_generation [OF assms(1)] fold_bump_generation by simp
  then have "sum_Generation x \<noteq> summary_generation ?k m2"
    using summary_fence.stale_refused [OF _ assms(7)] by blast
  then show ?thesis using PutSessionSummary_stale [OF after(1)] after(2) by simp
qed

text \<open>The checkpoint of a session only moves forward: a summary that is written over one with a
  checkpoint has a checkpoint itself, reaching at least as far, of a supported version.\<close>

theorem checkpoint_monotone:
  assumes "settled m" "PutSessionSummary m s x = (Inr (), m')"
    and "mget (summaries m) (sessionKey (resolve m s) (sum_SessionID x)) = Some old"
    and "sum_Checkpoint old = Some c"
  shows "\<exists>c'. sum_Checkpoint x = Some c' \<and> cp_ThroughSequence c \<le> cp_ThroughSequence c' \<and>
    cp_Version c' = 1 \<and>
    mget (summaries m') (sessionKey (resolve m s) (sum_SessionID x)) = Some (cloneSessionSummary x)"
  using assms
  by (auto simp: PutSessionSummary_def run_op checkpoint_regresses_def validateSessionCheckpoint_def
      split: option.splits if_splits)

section \<open>Deleting a session\<close>

text \<open>Deleting a session leaves no transcript, title, model preference, summary or upload of
  it, and no other session of any table changes.\<close>

theorem DeleteSession_wipes:
  assumes "settled m" "wf_store m" "withAgent (resolve m s) = None"
  shows "let m' = snd (DeleteSession m s sid now); k = sessionKey (resolve m s) sid in
    mget (messages m') k = None \<and> mget (sessionTitles m') k = None \<and>
    mget (sessionModels m') k = None \<and> mget (summaries m') k = None \<and>
    (\<forall>key a. (key, a) \<in> set (agentAttachments m') \<longrightarrow>
       hasPrefix key (tenantPrefix (resolve m s)) \<longrightarrow> at_AgentName a = sc_AgentName (resolve m s) \<longrightarrow>
       at_SessionID a \<noteq> sid) \<and>
    (\<forall>k'. k' \<noteq> k \<longrightarrow> mget (messages m') k' = mget (messages m) k' \<and>
       mget (sessionTitles m') k' = mget (sessionTitles m) k' \<and>
       mget (sessionModels m') k' = mget (sessionModels m) k' \<and>
       mget (summaries m') k' = mget (summaries m) k' \<and> mget (harness m') k' = mget (harness m) k')"
  using assms
  by (auto simp: DeleteSession_def run_op bumpSessionSummaryGenerationLocked_def set_mfilter
      split: option.splits)

end
