(* ===== verification/HarnessFacts.thy ===== *)
theory HarnessFacts
  imports StoreMachine
begin

text \<open>
  Turn epochs and identities of harness sessions: a turn's epoch is new, a receipt of an older
  epoch or of another incarnation changes nothing, a deleted session stays deleted, and an MCP
  token is good until it expires.
\<close>

abbreviation harness_row :: "MemoryStore \<Rightarrow> Scope \<Rightarrow> string \<Rightarrow> HarnessSession option" where
  "harness_row m s sid \<equiv> mget (harness m) (sessionKey (resolve m s) sid)"

definition legacyTask :: "HarnessIdentity \<Rightarrow> string" where
  "legacyTask i = (if blank (hid_LegacyTaskID i) then hid_TaskID i else hid_LegacyTaskID i)"

section \<open>Identity selection\<close>

lemma selectHarnessIdentity_task:
  assumes "selectHarnessIdentity row i now = Inr row'"
  shows "hs_TaskID row' \<in> {hid_TaskID i, legacyTask i}" "hs_AgentUID row' = hid_AgentUID i"
  using assms
  by (auto simp: selectHarnessIdentity_def reset_identity_def legacyTask_def Let_def
      split: if_splits sum.splits bool.splits)

lemma selectHarnessIdentity_epochs:
  assumes "selectHarnessIdentity row i now = Inr row'"
  shows "row' = reset_identity i now row \<or>
    hs_Turns row' = hs_Turns row \<and> hs_ObservedEpoch row' = hs_ObservedEpoch row \<and>
    hs_HarnessSessionID row' = hs_HarnessSessionID row \<and> hs_BackendKey row' = hs_BackendKey row"
  using assms
  by (auto simp: selectHarnessIdentity_def Let_def split: if_splits sum.splits bool.splits)

text \<open>The row a turn runs under belongs to the Agent incarnation that asked and to its current
  or legacy task; a native session is resumed only from a row of the same incarnation, or from an
  unmarked row whose last update is provably no older than the Agent.\<close>

theorem selectHarnessIdentity_safe:
  assumes "selectHarnessIdentity row i now = Inr row'"
  shows "hs_AgentUID row' = hid_AgentUID i \<and> hs_TaskID row' \<in> {hid_TaskID i, legacyTask i} \<and>
    (hs_HarnessSessionID row' \<noteq> [] \<longrightarrow> hs_HarnessSessionID row' = hs_HarnessSessionID row \<and>
      (hs_AgentUID row = hid_AgentUID i \<or>
       hs_AgentUID row = [] \<and>
         truncate_time (hid_CreatedAt i) Second + Second \<le> hs_UpdatedAt row \<and>
         hid_CreatedAt i < hs_UpdatedAt row))"
proof -
  have gt: "t < truncate_time t Second + Second" for t by (rule truncate_time_gt) simp
  show ?thesis
    using assms selectHarnessIdentity_task [OF assms] gt [of "hid_CreatedAt i"]
    by (auto simp: selectHarnessIdentity_def reset_identity_def CheckLegacyHarnessSessionLifetime_def Let_def
        split: if_splits sum.splits bool.splits)
qed

section \<open>Turns and receipts\<close>

text \<open>A turn of the incarnation that owns the session takes an epoch above every epoch it has
  allocated, and the row keeps what the last receipt observed.\<close>

theorem NextHarnessTurn_next_epoch:
  assumes "settled m" "NextHarnessTurn m s sid now i = (Inr row, m')"
    and "harness_row m s sid = Some old" "hs_AgentUID old = hid_AgentUID i"
  shows "hs_Turns row = hs_Turns old + 1 \<and> hs_HarnessSessionID row = hs_HarnessSessionID old \<and>
    hs_ObservedEpoch row = hs_ObservedEpoch old \<and>
    mget (harness m') (sessionKey (resolve m s) sid) = Some row"
  using assms
  by (auto simp: NextHarnessTurn_def selectHarnessIdentity_def run_op Let_def
      split: option.splits sum.splits if_splits)

lemma PutHarnessSession_row:
  assumes "settled m" "PutHarnessSession m s h = (Inr (), m')"
    and "harness_row m s (hs_SessionID h) = Some old"
  shows "mget (harness m') (sessionKey (resolve m s) (hs_SessionID h)) =
    Some (merge_receipt old (if blank (hs_HarnessSessionID h)
      then h\<lparr>hs_HarnessSessionID := [], hs_BackendKey := [], hs_ObservedEpoch := 0\<rparr> else h))"
  using assms
  by (auto simp: PutHarnessSession_def run_op mgetd_def split: option.splits if_splits)

text \<open>Recording a receipt never moves an epoch backwards, and a receipt of an epoch older than
  the one observed leaves the native session and its backend as they are.\<close>

theorem PutHarnessSession_monotone:
  assumes "settled m" "PutHarnessSession m s h = (Inr (), m')"
    and "harness_row m s (hs_SessionID h) = Some old"
  shows "\<exists>new. mget (harness m') (sessionKey (resolve m s) (hs_SessionID h)) = Some new \<and>
    hs_Turns old \<le> hs_Turns new \<and> hs_Turns h \<le> hs_Turns new \<and>
    hs_ObservedEpoch old \<le> hs_ObservedEpoch new \<and>
    (hs_ObservedEpoch h < hs_ObservedEpoch old \<longrightarrow>
       hs_HarnessSessionID new = hs_HarnessSessionID old \<and> hs_BackendKey new = hs_BackendKey old)"
  using PutHarnessSession_row [OF assms] by (auto simp: merge_receipt_def Let_def)

lemma DeleteSession_tombstone:
  "settled m \<Longrightarrow> withAgent (resolve m s) = None \<Longrightarrow> harness_row m s sid = Some old \<Longrightarrow>
     mget (harness (snd (DeleteSession m s sid now))) (sessionKey (resolve m s) sid) =
       Some (harness_tombstone now old)"
  by (simp add: DeleteSession_def run_op bumpSessionSummaryGenerationLocked_def)

text \<open>C26: a receipt of any turn allocated before a session was deleted cannot bring the deleted
  native session back, and the next turn's epoch is above all of them.\<close>

theorem deleted_session_stays_deleted:
  assumes "settled m" "good_scope s" "withAgent (resolve m s) = None"
    and "harness_row m s (hs_SessionID h) = Some old" "hs_ObservedEpoch h \<le> hs_Turns old"
    and "PutHarnessSession (snd (DeleteSession m s (hs_SessionID h) now)) s h = (Inr (), m2)"
  shows "\<exists>row. mget (harness m2) (sessionKey (resolve m s) (hs_SessionID h)) = Some row \<and>
    hs_HarnessSessionID row = [] \<and> hs_Turns old < hs_Turns row + 1 \<and>
    hs_ObservedEpoch old < hs_Turns row + 2"
proof -
  let ?m1 = "snd (DeleteSession m s (hs_SessionID h) now)"
  have after: "settled ?m1" "resolve ?m1 s = resolve m s"
    using after_request [OF assms(1,2), of undefined "RDeleteSession (hs_SessionID h) now"] by simp_all
  have "harness_row ?m1 s (hs_SessionID h) = Some (harness_tombstone now old)"
    using DeleteSession_tombstone [OF assms(1,3,4)] after(2) by simp
  from PutHarnessSession_row [OF after(1) assms(6) this] show ?thesis
    using assms(5) after(2) by (auto simp: merge_receipt_def harness_tombstone_def Let_def)
qed

section \<open>MCP sessions\<close>

lemma after_mcp:
  assumes "settled m" "good_scope s" "PutHarnessMCPSession m s c = (r, m')"
  shows "settled m'" "resolve m' s' = resolve m s'"
  using after_request [OF assms(1,2), of undefined "RPutHarnessMCPSession c"] assms(3) by simp_all

text \<open>A stored MCP session is found under its token hash, bound to the tenant it was stored for,
  until it expires and not from then on; storing one drops what had expired by its creation and
  disturbs no live session of another token.\<close>

theorem MCPSession_lifetime:
  assumes "settled m" "wf_store m" "PutHarnessMCPSession m s c = (Inr (), m')"
  shows "GetHarnessMCPSession m' (mcp_TokenHash c) now =
      (if mcp_ExpiresAt c > now then Some (c\<lparr>mcp_Scope := resolve m s\<rparr>) else None) \<and>
    (hash \<noteq> mcp_TokenHash c \<longrightarrow> mcp_CreatedAt c \<le> now \<longrightarrow>
       GetHarnessMCPSession m' hash now = GetHarnessMCPSession m hash now)"
proof -
  have "wf_map (mcpSessions m)" using assms(2) by (simp add: wf_store_def)
  then show ?thesis
    using assms(1,3)
    by (auto simp: PutHarnessMCPSession_def GetHarnessMCPSession_def run_op mget_filter
        split: option.splits if_splits)
qed

end
