(* ===== verification/RecordFacts.thy ===== *)
theory RecordFacts
  imports StoreMachine
begin

text \<open>
  The inbox, usage accounting and the webhook sink: an item is resolved once, usage adds up within
  a window and across a migration, and the sink of a webhook keeps its newest deliveries.
\<close>

section \<open>Inbox\<close>

abbreviation inbox_row :: "MemoryStore \<Rightarrow> Scope \<Rightarrow> string \<Rightarrow> InboxItem option" where
  "inbox_row m s rid \<equiv> mget (inbox m) (rowKey (resolve m s) rid)"

lemma after_resolve:
  assumes "settled m" "good_scope s" "ResolveInboxItem m s rid st resp now r = (x, m')"
  shows "settled m'" "resolve m' s' = resolve m s'"
  using after_request [OF assms(1,2), of undefined "RResolveInboxItem rid st resp now r"] assms(3)
  by simp_all

text \<open>When every resolver asks for a pending item, one of them wins: after a resolution to a
  state other than pending, a second one reports that the item is already resolved and leaves the
  winner's state and response in place.\<close>

theorem ResolveInboxItem_once:
  assumes "settled m" "good_scope s"
    and "ResolveInboxItem m s rid st resp now r = (Inr it, m')" "st \<noteq> InboxStatePending"
    and "res_PendingOnly r'"
  shows "inb_State it = st \<and> inb_Response it = resp \<and> inbox_row m' s rid = Some it \<and>
    ResolveInboxItem m' s rid st' resp' now' r' = (Inl ErrInboxAlreadyResolved, m')"
proof -
  note after = after_resolve [OF assms(1-3)]
  have "inb_State it = st \<and> inb_Response it = resp \<and> inbox_row m' s rid = Some it \<and>
      Scope_validate (resolve m s) = None"
    using assms(3) after by (auto simp: ResolveInboxItem_def run_op assms(1) split: option.splits if_splits)
  then show ?thesis using assms(4,5) after
    by (simp add: ResolveInboxItem_def run_op resolve_resolve [OF assms(1)])
qed

text \<open>The answer to a question is accepted only for a question that is pending, or that was
  dismissed while its run exists and is now answered; its payload entries are added to the item's.\<close>

theorem ResolveInboxItem_question:
  assumes "settled m" "ResolveInboxItem m s rid st resp now r = (Inr it, m')"
    and "res_QuestionPayload r = Some payload"
  shows "\<exists>old. inbox_row m s rid = Some old \<and> inb_Kind old = InboxKindQuestion \<and>
    (inb_State old = InboxStatePending \<or>
     st = InboxStateAnswered \<and> inb_State old = InboxStateDenied \<and> inb_RunID old \<noteq> []) \<and>
    (\<forall>k. k \<notin> fst ` set payload \<longrightarrow> mget (inb_Payload it) k = mget (copy_into [] (inb_Payload old)) k)"
proof -
  have keep: "k \<notin> fst ` set payload \<Longrightarrow> mget (copy_into t payload) k = mget t k" for k t
    unfolding copy_into_def by (rule gm.untouched_by_writes)
  show ?thesis
    using assms by (auto simp: ResolveInboxItem_def run_op may_answer_def keep
        split: option.splits if_splits)
qed

section \<open>Usage\<close>

text \<open>The window of a moment starts at or before it and ends after it, and two moments of one
  window share its start.\<close>

theorem windowStart_bounds:
  "windowStart now window \<le> now \<and> now < windowStart now window + (if window \<le> 0 then 30 * 24 * 3600 * Second else window) \<and>
   (\<forall>later. now \<le> later \<longrightarrow> later < windowStart now window + (if window \<le> 0 then 30 * 24 * 3600 * Second else window) \<longrightarrow>
     windowStart later window = windowStart now window)"
proof -
  have same: "truncate_time t d = truncate_time u d"
    if "0 < d" "truncate_time u d \<le> t" "t < truncate_time u d + d" for t u d
  proof -
    have d: "truncate_time x d = d * (x div d)" for x
      using that(1) by (simp add: truncate_time_def algebra_simps minus_mod_eq_mult_div)
    have "t div d = u div d"
      using that(2,3) [unfolded d] by (intro int_div_pos_eq [where r = "t - d * (u div d)"]) simp_all
    then show ?thesis by (simp add: d)
  qed
  have pos: "0 < (if window \<le> 0 then 30 * 24 * 3600 * Second else window)" by simp
  show ?thesis
    unfolding windowStart_def
    by (intro conjI allI impI truncate_time_le truncate_time_gt [OF pos] same [OF pos])
      (auto intro: order_trans [OF truncate_time_le])
qed

lemma after_usage:
  assumes "settled m" "good_scope s" "AddUsage m s a i o' u now w = (x, m')"
  shows "settled m'" "resolve m' s' = resolve m s'"
  using after_request [OF assms(1,2), of undefined "RAddUsage a i o' u now w"] assms(3) by simp_all

text \<open>Usage recorded in one window adds up to what a later read in the window returns, on
  64-bit counters.\<close>

theorem AddUsage_accumulates:
  assumes "settled m" "good_scope s" "AddUsage m s agent i o' u now window = (Inr r1, m1)"
    and "windowStart later window = windowStart now window"
  shows "\<exists>r0 r2 m2. fst (GetUsage m s agent now window) = Inr r0 \<and>
    us_InputTokens r1 = i64 (us_InputTokens r0 + i) \<and> us_OutputTokens r1 = i64 (us_OutputTokens r0 + o') \<and>
    us_USDMicros r1 = i64 (us_USDMicros r0 + u) \<and> fst (GetUsage m1 s agent later window) = Inr r1 \<and>
    AddUsage m1 s agent i2 o2 u2 later window = (Inr r2, m2) \<and>
    us_InputTokens r2 = i64 (us_InputTokens r0 + i + i2)"
proof -
  note after = after_usage [OF assms(1-3)]
  have valid: "Scope_validate (resolve m s) = None"
    using assms(1,3) by (auto simp: AddUsage_def run_op split: option.splits)
  show ?thesis
    using assms(3,4) after valid
    by (auto simp: AddUsage_def GetUsage_def run_op resolve_resolve [OF assms(1)] assms(1) mgetd_def
        zero_Usage_def i64_add_left split: option.splits)
qed

text \<open>Mapping a cluster adds the usage filed under it to the tenant's window, once.\<close>

theorem migration_adds_usage:
  assumes "good_ref ref" "plain c" "wf_store m"
    and "mget (usage m) (tenantPrefix (refScope ref) @ x) = Some here"
    and "mget (usage m) (tenantPrefix (unmappedScope c) @ x) = Some there"
  shows "mget (usage (move_tables c ref m)) (tenantPrefix (refScope ref) @ x) = Some (add_usage here there) \<and>
    mget (usage (move_tables c ref m)) (tenantPrefix (unmappedScope c) @ x) = None \<and>
    us_InputTokens (add_usage here there) = i64 (us_InputTokens here + us_InputTokens there) \<and>
    us_UpdatedAt (add_usage here there) = max (us_UpdatedAt here) (us_UpdatedAt there)"
proof -
  have a: "apart (tenantPrefix (unmappedScope c)) (tenantPrefix (refScope ref))"
    using apart_ref [OF assms(1,2)] .
  have wf: "wf_map (usage m)" using assms(3) by (simp add: wf_store_def)
  show ?thesis
    using mget_move_rows [OF a wf] a assms(4,5)
    by (simp add: move_tables_fields [OF refl refl] apart_def merge_rows_def add_usage_def Let_def max_def)
qed

section \<open>Webhook deliveries\<close>

text \<open>The outcome of a delivery is fired when one route fired, otherwise failed when one failed,
  otherwise unrouted when there was no route, otherwise filtered.\<close>

theorem WebhookDeliveryRollup_spec:
  "WebhookDeliveryRollup routes =
     (if \<exists>r \<in> set routes. wr_Outcome r = ''fired'' then ''fired''
      else if \<exists>r \<in> set routes. wr_Outcome r = ''failed'' then ''failed''
      else if routes = [] then ''unrouted'' else ''filtered'')"
proof -
  have "rollup_loop failed rs =
      (if \<exists>r \<in> set rs. wr_Outcome r = ''fired'' then Some ''fired''
       else if failed \<or> (\<exists>r \<in> set rs. wr_Outcome r = ''failed'') then Some ''failed'' else None)" for failed rs
    by (induction rs arbitrary: failed) auto
  then show ?thesis by (simp add: WebhookDeliveryRollup_def)
qed

abbreviation sink :: "MemoryStore \<Rightarrow> Scope \<Rightarrow> string \<Rightarrow> WebhookDelivery list" where
  "sink m s uid \<equiv> mgetd [] (deliveries m) (deliveryKey (resolve m s) uid)"

text \<open>Recording a delivery keeps the sink of its webhook sorted and within the cap, keeps only
  the new delivery and rows that were there, and drops none that is newer than one it keeps.\<close>

theorem RecordWebhookDelivery_retains_newest:
  assumes "settled m" "RecordWebhookDelivery m s d retain clock = (Inr (), m')" "0 < retain"
  shows "\<exists>d' dropped. let kept = mgetd [] (deliveries m') (deliveryKey (resolve m s) (wd_WebhookUID d)) in
    wd_ID d' = wd_ID d \<and> wd_BodySize d' = length (wd_Body d) \<and>
    sorted (map delivery_stamp kept) \<and> length kept \<le> nat retain \<and>
    mset (sink m s (wd_WebhookUID d)) + {#d'#} = mset dropped + mset kept \<and>
    (dropped \<noteq> [] \<longrightarrow> length kept = nat retain) \<and>
    (\<forall>a \<in> set dropped. \<forall>b \<in> set kept. delivery_stamp a \<le> delivery_stamp b)"
proof -
  obtain d' where d': "wd_ID d' = wd_ID d" "wd_BodySize d' = length (wd_Body d)"
      and "deliveries m' = mput (deliveryKey (resolve m s) (wd_WebhookUID d))
        (prune (nat retain) (sortDeliveries (sink m s (wd_WebhookUID d) @ [d']))) (deliveries m)"
  proof
    let ?d = "d\<lparr>wd_BodySize := length (wd_Body d),
      wd_ReceivedAt := if IsZero (wd_ReceivedAt d) then clock else wd_ReceivedAt d\<rparr>"
    show "wd_ID ?d = wd_ID d" "wd_BodySize ?d = length (wd_Body d)" by simp_all
    show "deliveries m' = mput (deliveryKey (resolve m s) (wd_WebhookUID d))
        (prune (nat retain) (sortDeliveries (sink m s (wd_WebhookUID d) @ [?d]))) (deliveries m)"
      using assms by (auto simp: RecordWebhookDelivery_def run_op split: option.splits if_splits)
  qed
  then have m': "mgetd [] (deliveries m') (deliveryKey (resolve m s) (wd_WebhookUID d)) =
        prune (nat retain) (sortDeliveries (sink m s (wd_WebhookUID d) @ [d']))"
    by (simp add: mgetd_def)
  let ?rows = "sortDeliveries (sink m s (wd_WebhookUID d) @ [d'])"
  let ?n = "length ?rows - nat retain"
  have "sorted (map delivery_stamp (take ?n ?rows @ drop ?n ?rows))"
    using sorted_oldest_first by (simp add: sortDeliveries_def)
  then have "sorted (map delivery_stamp (drop ?n ?rows))"
      "\<forall>a \<in> set (take ?n ?rows). \<forall>b \<in> set (drop ?n ?rows). delivery_stamp a \<le> delivery_stamp b"
    unfolding map_append sorted_append by auto
  moreover have "mset (sink m s (wd_WebhookUID d)) + {#d'#} = mset (take ?n ?rows) + mset (drop ?n ?rows)"
    by (metis append_take_drop_id mset_append mset_oldest_first mset_single_iff mset.simps sortDeliveries_def)
  ultimately show ?thesis
    using d' by (intro exI [of _ d'] exI [of _ "take ?n ?rows"]) (auto simp: m' prune_def Let_def)
qed

text \<open>A listing of a sorted sink is newest first, within its limit, and made of deliveries that
  match the query, with bodies cut to the preview.\<close>

theorem ListWebhookDeliveries_newest:
  assumes "settled m" "Scope_validate (resolve m s) = None" "sorted (map delivery_stamp (sink m s uid))"
    and "fst (ListWebhookDeliveries m s uid q) = Inr out"
  shows "sorted_wrt (\<ge>) (map delivery_stamp out) \<and>
    length out \<le> (if wq_Limit q \<le> 0 then 50 else nat (wq_Limit q)) \<and>
    (\<forall>d \<in> set out. length (wd_Body d) \<le> WebhookDeliveryPreviewBytes \<and>
       (\<exists>row \<in> set (sink m s uid). delivery_matches q row \<and> d = preview_body row))"
proof -
  let ?l = "if wq_Limit q \<le> 0 then 50 else nat (wq_Limit q)"
  let ?ys = "filter (delivery_matches q) (rev (sink m s uid))"
  have out: "out = map preview_body (take ?l ?ys)"
    using assms by (simp add: ListWebhookDeliveries_def run_op)
  have stamp: "delivery_stamp (preview_body d) = delivery_stamp d" for d
    by (simp add: delivery_stamp_def preview_body_def)
  have "sorted_wrt (\<lambda>a b. delivery_stamp b \<le> delivery_stamp a) (rev (sink m s uid))"
    using assms(3) by (simp add: sorted_wrt_rev sorted_map)
  then have "sorted_wrt (\<lambda>a b. delivery_stamp b \<le> delivery_stamp a) (take ?l ?ys)"
    by (intro sorted_wrt_take sorted_wrt_filter)
  then have "sorted_wrt (\<ge>) (map delivery_stamp out)"
    by (simp add: out sorted_wrt_map stamp)
  moreover have "length (wd_Body (preview_body d)) \<le> WebhookDeliveryPreviewBytes" for d
    by (simp add: preview_body_def)
  ultimately show ?thesis by (auto simp: out dest!: in_set_takeD)
qed

end
