(* ===== verification/UploadFacts.thy ===== *)
theory UploadFacts
  imports StoreMachine
begin

text \<open>
  Uploads and captured artifacts: quotas bound what is stored, an accepted chat run binds exactly
  the uploads it names or nothing at all, what a run has accepted is immutable, and
  reconciliation leaves no upload bound to a run that does not exist.
\<close>

section \<open>The workspace quota\<close>

lemma live_drop_expired: "live_uploads s now (drop_expired s now t) = live_uploads s now t"
proof -
  have "filter (\<lambda>(key, a). hasPrefix key (tenantPrefix s) \<and> \<not> attachmentExpired a now) (drop_expired s now t) =
      filter (\<lambda>(key, a). hasPrefix key (tenantPrefix s) \<and> \<not> attachmentExpired a now) t"
    by (induction t) (auto simp: drop_expired_def mfilter_def)
  then show ?thesis by (simp add: live_uploads_def)
qed

lemma live_put_fresh:
  "mget t k = None \<Longrightarrow> mset (live_uploads s now (mput k a t)) =
     mset (live_uploads s now t) +
       (if hasPrefix k (tenantPrefix s) \<and> \<not> attachmentExpired a now then {#a#} else {#})"
proof (induction t)
  case Nil
  then show ?case by (simp add: live_uploads_def mput_def)
next
  case (Cons kv t)
  obtain l v where kv: "kv = (l, v)" by (cases kv)
  then have "l \<noteq> k" "mget t k = None" using Cons.prems by (auto simp: mget_Cons split: if_splits)
  then show ?case using Cons.IH by (simp add: kv live_uploads_def mput_def)
qed

lemma upload_bytes_mset: "mset xs = mset ys \<Longrightarrow> upload_bytes xs = upload_bytes ys"
  unfolding upload_bytes_def by (metis mset_map sum_mset_sum_list)

lemma validate_size:
  assumes "AgentAttachment_validate a = None"
  shows "at_SizeBytes a = int (length (at_Data a))" "length (at_Data a) \<le> AttachmentMaxBytes"
    "at_SHA256 a = agentAttachmentDigest (at_Data a)"
    "at_Draft a \<Longrightarrow> \<not> attachmentExpired a (at_CreatedAt a)"
  using assms content_bounded(2) [of "at_Filename a" "at_ContentType a" "at_Data a"]
  by (auto simp: AgentAttachment_validate_def attachmentExpired_def split: option.splits sum.splits if_splits)

text \<open>A new upload is stored only within the workspace quota: counted with it, the bytes of the
  tenant's live uploads are at most the quota; it is a draft whose size and digest are those of its
  bytes.\<close>

theorem CreateAgentAttachment_within_quota:
  assumes "settled m" "CreateAgentAttachment m s a = (Inr (b, True), m')"
    and "0 < q_WorkspaceMaxBytes (attachmentQuota m)"
    and "0 \<le> upload_bytes (live_uploads (resolve m s) (at_CreatedAt a) (agentAttachments m))"
      "upload_bytes (live_uploads (resolve m s) (at_CreatedAt a) (agentAttachments m)) < 2 ^ 62"
  shows "upload_bytes (live_uploads (resolve m s) (at_CreatedAt a) (agentAttachments m')) =
      upload_bytes (live_uploads (resolve m s) (at_CreatedAt a) (agentAttachments m)) + at_SizeBytes a \<and>
    upload_bytes (live_uploads (resolve m s) (at_CreatedAt a) (agentAttachments m'))
      \<le> q_WorkspaceMaxBytes (attachmentQuota m) \<and>
    b = a \<and> at_Draft a \<and> at_SizeBytes a = int (length (at_Data a)) \<and>
    at_SHA256 a = agentAttachmentDigest (at_Data a)"
proof -
  let ?s = "resolve m s" and ?now = "at_CreatedAt a" and ?t = "drop_expired (resolve m s) (at_CreatedAt a) (agentAttachments m)"
  let ?key = "agentAttachmentScopeKey (resolve m s) (at_AgentUID a) (at_ID a)"
  have draft: "at_Draft a" and valid: "AgentAttachment_validate a = None" and b: "b = a"
      and fresh: "mget ?t ?key = None"
      and quota: "checkAgentAttachmentQuotaLocked (m\<lparr>agentAttachments := ?t\<rparr>) ?s a ?now = None"
      and m': "agentAttachments m' = mput ?key a ?t"
    using assms(2)
    by (auto simp: CreateAgentAttachment_def run_op assms(1) split: option.splits if_splits)
  note size = validate_size [OF valid]
  let ?before = "upload_bytes (live_uploads ?s ?now (agentAttachments m))"
  have "mset (live_uploads ?s ?now (agentAttachments m')) = mset (a # live_uploads ?s ?now (agentAttachments m))"
    using live_put_fresh [OF fresh, of ?s ?now a] size(4) [OF draft] by (simp add: m' live_drop_expired)
  then have after: "upload_bytes (live_uploads ?s ?now (agentAttachments m')) = ?before + at_SizeBytes a"
    using upload_bytes_mset [of "live_uploads ?s ?now (agentAttachments m')"
        "a # live_uploads ?s ?now (agentAttachments m)"] by (simp add: upload_bytes_def)
  have small: "at_SizeBytes a \<le> 2 ^ 61" "0 \<le> at_SizeBytes a"
    using size(1,2) by (auto simp: AttachmentMaxBytes_def)
  have "\<not> i64 (i64 ?before + at_SizeBytes a) > q_WorkspaceMaxBytes (attachmentQuota m)"
    using quota assms(3)
    by (auto simp: checkAgentAttachmentQuotaLocked_def live_drop_expired Let_def split: if_splits)
  moreover have "i64 (i64 ?before + at_SizeBytes a) = ?before + at_SizeBytes a"
    using assms(4,5) small by (simp add: i64_add_left i64_id)
  ultimately show ?thesis using after b draft size by simp
qed

section \<open>Admission of a chat run\<close>

lemma batch_check_distinct:
  "batch_check seen n rs = None \<Longrightarrow> distinct (map rc_ID rs) \<and> set seen \<inter> rc_ID ` set rs = {}"
  by (induction seen n rs rule: batch_check.induct)
    (auto simp: Let_def split: option.splits if_splits)

lemma bind_loop_map:
  "distinct (map rc_ID rs) \<Longrightarrow> (\<And>r. r \<in> set rs \<Longrightarrow> mget byID (rc_ID r) \<noteq> None) \<Longrightarrow>
     bind_loop b byID rs = map (\<lambda>r. bind_item b (the (mget byID (rc_ID r)))) rs"
proof (induction rs arbitrary: byID)
  case Nil
  then show ?case by simp
next
  case (Cons r rs)
  obtain item where item: "mget byID (rc_ID r) = Some item" using Cons.prems(2) by fastforce
  have other: "mget (mput (rc_ID r) (bind_item b item) byID) (rc_ID q) = mget byID (rc_ID q)"
    if "q \<in> set rs" for q
  proof -
    have "rc_ID q \<in> rc_ID ` set rs" using that by (rule imageI)
    then have "rc_ID q \<noteq> rc_ID r" using Cons.prems(1) by auto
    then show ?thesis by simp
  qed
  have "bind_loop b (mput (rc_ID r) (bind_item b item) byID) rs =
      map (\<lambda>q. bind_item b (the (mget (mput (rc_ID r) (bind_item b item) byID) (rc_ID q)))) rs"
    using Cons.prems other by (intro Cons.IH) auto
  then show ?case using item other by (simp cong: map_cong)
qed

lemma bind_item_simps [simp]:
  "at_ID (bind_item b i) = at_ID i" "Receipt (bind_item b i) = Receipt i"
  "at_ActorID (bind_item b i) = at_ActorID i" "\<not> at_Draft (bind_item b i)"
  "at_Data (bind_item b i) = at_Data i"
  by (simp_all add: bind_item_def Receipt_def)

lemma bindAgentAttachmentBatch_bound:
  assumes "bindAgentAttachmentBatch items rs actor b now = Inr bound" "distinct (map rc_ID rs)"
  shows "map at_ID bound = map rc_ID rs"
    "\<forall>i < length rs. \<not> at_Draft (bound ! i) \<and> at_BindingID (bound ! i) = b \<and>
      at_ActorID (bound ! i) = actor \<and> ReceiptsMatch (rs ! i) (Receipt (bound ! i))"
proof -
  let ?byID = "fold (\<lambda>item t. mput (at_ID item) item t) items []"
  have ok: "\<And>r. r \<in> set rs \<Longrightarrow> bind_item_check ?byID actor b now r = None"
      and bound: "bound = bind_loop b ?byID rs"
    using assms(1) by (auto simp: bindAgentAttachmentBatch_def Let_def split: if_splits option.splits)
  have item: "\<exists>i. mget ?byID (rc_ID r) = Some i \<and> ReceiptsMatch r (Receipt i) \<and> at_ActorID i = actor \<and>
      at_BindingID (bind_item b i) = b" if "r \<in> set rs" for r
    using ok [OF that] by (auto simp: bind_item_check_def bind_item_def split: option.splits if_splits)
  have eq: "bound = map (\<lambda>r. bind_item b (the (mget ?byID (rc_ID r)))) rs"
    unfolding bound using item by (intro bind_loop_map assms(2)) fastforce
  show "map at_ID bound = map rc_ID rs"
    unfolding eq map_map using item by (intro map_cong refl) (fastforce simp: Receipt_def dest: ReceiptsMatch_meta)
  show "\<forall>i < length rs. \<not> at_Draft (bound ! i) \<and> at_BindingID (bound ! i) = b \<and>
      at_ActorID (bound ! i) = actor \<and> ReceiptsMatch (rs ! i) (Receipt (bound ! i))"
    using item nth_mem [of _ rs] by (fastforce simp: eq)
qed

lemma write_bound:
  assumes "distinct (map at_ID bound)" "item \<in> set bound"
  shows "mget (fold (\<lambda>item t. mput (agentAttachmentScopeKey s u (at_ID item)) item t) bound t)
    (agentAttachmentScopeKey s u (at_ID item)) = Some item"
proof -
  let ?kvs = "map (\<lambda>item. (agentAttachmentScopeKey s u (at_ID item), item)) bound"
  have inj: "agentAttachmentScopeKey s u x = agentAttachmentScopeKey s u y \<longleftrightarrow> x = y" for x y
    by (simp add: agentAttachmentScopeKey_def)
  have "distinct (map fst ?kvs)" using assms(1) by (simp add: distinct_map inj_on_def inj)
  then have "mget (fold (\<lambda>(k, v). mput k v) ?kvs t) (agentAttachmentScopeKey s u (at_ID item)) = Some item"
    using assms(2) by (intro gm.written_by_writes) auto
  then show ?thesis by (simp add: fold_map comp_def)
qed

text \<open>C27: the admission of a chat run with uploads is atomic. When it succeeds, the message is at the
  end of its transcript with the next sequence number, the run is stored, and every receipt's
  upload is bound to the run and to the actor who sent it; when it fails, nothing has changed.\<close>

theorem CreateAgentChatRun_atomic:
  assumes "settled m" "CreateAgentChatRun m s u msg run receipts actor now clock = (r, m')"
  shows "(case r of
      Inl e \<Rightarrow> m' = m
    | Inr _ \<Rightarrow> mget (runs m) (rowKey (resolve m s) (run_ID run)) = None \<and>
        mget (runs m') (rowKey (resolve m s) (run_ID run)) = Some run \<and>
        mgetd [] (messages m') (sessionKey (resolve m s) (msg_SessionID msg)) =
          mgetd [] (messages m) (sessionKey (resolve m s) (msg_SessionID msg)) @
            [msg\<lparr>msg_Sequence := messageSequence m + 1\<rparr>] \<and>
        (\<forall>receipt \<in> set receipts. \<exists>item.
           mget (agentAttachments m') (agentAttachmentScopeKey (resolve m s) u (rc_ID receipt)) = Some item \<and>
           \<not> at_Draft item \<and> at_BindingID item = run_ID run \<and> at_ActorID item = actor \<and>
           ReceiptsMatch receipt (Receipt item)))"
proof (cases r)
  case (Inl e)
  then show ?thesis using assms
    by (auto simp: CreateAgentChatRun_def run_op split: option.splits sum.splits if_splits)
next
  case (Inr unit)
  let ?s = "resolve m s"
  obtain items bound now' where
      adm: "validateAgentAttachmentAdmission receipts ?s u (msg_SessionID msg) actor (run_ID run) = None"
      and bind: "bindAgentAttachmentBatch items receipts actor (run_ID run) now' = Inr bound"
      and free: "mget (runs m) (rowKey ?s (run_ID run)) = None"
      and m': "m' = m\<lparr>messageSequence := messageSequence m + 1,
        messages := mput (sessionKey ?s (msg_SessionID msg))
          (mgetd [] (messages m) (sessionKey ?s (msg_SessionID msg)) @ [msg\<lparr>msg_Sequence := messageSequence m + 1\<rparr>])
          (messages m),
        runs := mput (rowKey ?s (run_ID run)) run (runs m),
        runScopes := mput (rowKey ?s (run_ID run)) ?s (runScopes m),
        agentAttachments := fold (\<lambda>item t. mput (agentAttachmentScopeKey ?s u (at_ID item)) item t)
          bound (agentAttachments m)\<rparr>"
    using assms Inr by (auto simp: CreateAgentChatRun_def run_op split: option.splits sum.splits if_splits)
  have "distinct (map rc_ID receipts)"
    using adm batch_check_distinct
    by (auto simp: validateAgentAttachmentAdmission_def validateAgentAttachmentBatch_def
        split: if_splits option.splits)
  note b = bindAgentAttachmentBatch_bound [OF bind this] and d = this
  have len: "length bound = length receipts" using b(1) by (metis length_map)
  have "\<exists>item. mget (agentAttachments m') (agentAttachmentScopeKey ?s u (rc_ID receipt)) = Some item \<and>
      \<not> at_Draft item \<and> at_BindingID item = run_ID run \<and> at_ActorID item = actor \<and>
      ReceiptsMatch receipt (Receipt item)" if "receipt \<in> set receipts" for receipt
  proof -
    have "\<exists>i < length receipts. receipt = receipts ! i" using that by (auto simp: in_set_conv_nth)
    then obtain i where i: "i < length receipts" "receipt = receipts ! i" by blast
    have "rc_ID receipt = at_ID (bound ! i)" using b(1) i len by (metis nth_map)
    moreover have "mget (agentAttachments m') (agentAttachmentScopeKey ?s u (at_ID (bound ! i))) = Some (bound ! i)"
      using b(1) d i(1) len by (simp add: m' write_bound)
    ultimately show ?thesis using b(2) i by auto
  qed
  then show ?thesis using Inr free by (simp add: m' mgetd_def)
qed

section \<open>Accepted uploads\<close>

definition removes_uploads :: "request \<Rightarrow> bool" where
  "removes_uploads r \<longleftrightarrow> (case r of RDeleteSession _ _ \<Rightarrow> True | RDeleteAgentData _ \<Rightarrow> True
     | RDeleteRunData _ \<Rightarrow> True | RCreateAgentChatRun _ _ _ _ _ _ _ \<Rightarrow> True | _ \<Rightarrow> False)"

lemma scan_keeps:
  "mget t k = Some a \<Longrightarrow> \<not> attachmentExpired a now \<Longrightarrow> wf_map t \<Longrightarrow>
     mget (snd (scan_uploads s u sid actor now n t)) k = Some a"
proof (induction t arbitrary: n)
  case Nil
  then show ?case by simp
next
  case (Cons kv t)
  obtain l v where kv: "kv = (l, v)" by (cases kv)
  have "wf_map t" using Cons.prems(3) by (simp add: wf_map_def)
  then have IH: "mget t k = Some a \<Longrightarrow> mget (snd (scan_uploads s u sid actor now n t)) k = Some a" for n
    using Cons.IH Cons.prems(2) by blast
  show ?case
    using Cons.prems IH by (auto simp: kv mget_Cons Let_def split_beta split: if_splits)
qed

lemma uploads_untouched:
  "settled m \<Longrightarrow> (case r of RCreateAgentAttachment _ \<Rightarrow> False | RListAgentAttachments _ _ _ _ _ \<Rightarrow> False
     | RGetAgentAttachment _ _ _ _ _ \<Rightarrow> False | RDeleteAgentAttachment _ _ _ _ _ \<Rightarrow> False
     | _ \<Rightarrow> \<not> removes_uploads r) \<Longrightarrow>
     agentAttachments (apply_request lib r s m) = agentAttachments m"
proof (cases r)
qed (auto simp: removes_uploads_def AppendMessage_def append_locked_def ClaimSessionTitle_def SetSessionTitleIfEmpty_def
    SetSessionTitle_def PutSessionModelSettings_def PutSessionSummary_def NextHarnessTurn_def
    PutHarnessSession_def PutHarnessMCPSession_def SaveRun_def RequestCancel_def ClaimRun_def
    ClaimRecovery_def PutRunProgress_def SaveRunArtifact_def PutMemory_def DeleteMemory_def AddInboxItem_def
    ResolveInboxItem_def AppendToolCall_def AddUsage_def RecordWebhookDelivery_def
    DeleteWebhookDeliveries_def SaveAgentArtifact_def DeleteAgentArtifact_def
    run_op split: option.splits sum.splits prod.splits)

text \<open>C28: what a run has accepted is immutable: apart from the deletion of its session, Agent or run,
  and from another admission, no request changes an accepted upload, expires it or removes it.\<close>

theorem accepted_upload_immutable:
  assumes "settled m" "wf_store m" "mget (agentAttachments m) k = Some a" "\<not> at_Draft a"
    and "\<not> removes_uploads r"
  shows "mget (agentAttachments (apply_request lib r s m)) k = Some a"
proof -
  have wf: "wf_map (agentAttachments m)" using assms(2) by (simp add: wf_store_def)
  have live: "\<not> attachmentExpired a now" for now using assms(4) by (simp add: attachmentExpired_def)
  have drop: "mget (drop_expired sc now (agentAttachments m)) k = Some a" for sc now
    using wf assms(3) live by (simp add: drop_expired_def mget_filter)
  show ?thesis
  proof (cases r)
    case (RCreateAgentAttachment x)
    then show ?thesis using assms(1,3) drop
      by (auto simp: CreateAgentAttachment_def run_op split: option.splits)
  next
    case (RListAgentAttachments u sid actor limit now)
    then show ?thesis using assms(1,3) scan_keeps [OF assms(3) live wf]
      by (auto simp: ListAgentAttachments_def run_op split_beta split: option.splits)
  next
    case (RGetAgentAttachment u sid actor i now)
    then show ?thesis using assms(1,3) live
      by (auto simp: GetAgentAttachment_def run_op split: option.splits)
  next
    case (RDeleteAgentAttachment u sid actor i now)
    then show ?thesis using assms(1,3,4) live
      by (auto simp: DeleteAgentAttachment_def run_op split: option.splits)
  qed (use assms uploads_untouched [OF assms(1), of r lib s] in \<open>auto simp: removes_uploads_def\<close>)
qed

section \<open>Reconciliation\<close>

text \<open>After reconciliation an upload is a draft that has not expired, or its run exists; an
  accepted upload whose run is gone comes back as the draft it was, with the same bytes, when the
  draft's time has not run out.\<close>

theorem Reconcile_restores:
  assumes "wf_store m"
    and "mget (agentAttachments (ReconcileAgentAttachmentBindings m now)) k = Some a"
  shows "(at_Draft a \<or> at_BindingID a = [] \<longrightarrow> \<not> attachmentExpired a now) \<and>
    (\<not> at_Draft a \<longrightarrow> at_BindingID a \<noteq> [] \<longrightarrow> (\<exists>x y. key_tenant k = Some (x, y) \<and>
       mget (runs m) (x @ bar @ y @ bar @ at_BindingID a) \<noteq> None)) \<and>
    (\<exists>old. mget (agentAttachments m) k = Some old \<and> at_Data a = at_Data old \<and>
       (a = old \<or> at_Draft a \<and> \<not> at_Draft old \<and> at_ExpiresAt a = at_DraftExpiresAt old))"
proof -
  have "wf_map (agentAttachments m)" using assms(1) by (simp add: wf_store_def)
  then show ?thesis
    using assms(2)
    by (auto simp: ReconcileAgentAttachmentBindings_def mget_mapm reconcile_row_def attachmentExpired_def
        split: option.splits if_splits prod.splits)
qed

end
