(* ===== verification/ArtifactFacts.thy ===== *)
theory ArtifactFacts
  imports StoreMachine
begin

text \<open>
  Captured artifacts: the owner's quota holds in every reachable store, a stored artifact never
  changes, and only its owner sees it or removes it.
\<close>

section \<open>Which requests touch artifacts\<close>

definition touches_artifacts :: "request \<Rightarrow> bool" where
  "touches_artifacts r \<longleftrightarrow> (case r of RSaveAgentArtifact _ \<Rightarrow> True | RDeleteAgentArtifact _ _ _ \<Rightarrow> True
     | RDeleteAgentData _ \<Rightarrow> True | _ \<Rightarrow> False)"

lemma bumps_artifacts [simp]:
  "agentArtifacts (fold (bumpSessionSummaryGenerationLocked s) sids m) = agentArtifacts m"
  by (induction sids arbitrary: m) (simp_all add: bumpSessionSummaryGenerationLocked_def Let_def)

lemma artifacts_untouched:
  "settled m \<Longrightarrow> \<not> touches_artifacts r \<Longrightarrow>
     agentArtifacts (apply_request lib r s m) = agentArtifacts m"
proof (cases r)
qed (auto simp: touches_artifacts_def AppendMessage_def append_locked_def ClaimSessionTitle_def SetSessionTitleIfEmpty_def
    SetSessionTitle_def PutSessionModelSettings_def PutSessionSummary_def NextHarnessTurn_def
    PutHarnessSession_def PutHarnessMCPSession_def SaveRun_def RequestCancel_def ClaimRun_def
    ClaimRecovery_def PutRunProgress_def SaveRunArtifact_def PutMemory_def DeleteMemory_def AddInboxItem_def
    ResolveInboxItem_def AppendToolCall_def AddUsage_def RecordWebhookDelivery_def
    DeleteWebhookDeliveries_def DeleteSession_def DeleteRunData_def bumpSessionSummaryGenerationLocked_def
    CreateAgentAttachment_def ListAgentAttachments_def GetAgentAttachment_def CreateAgentChatRun_def
    DeleteAgentAttachment_def run_op split: option.splits sum.splits prod.splits)

section \<open>The owner's quota\<close>

definition within_quota :: "AgentArtifact list \<Rightarrow> bool" where
  "within_quota xs \<longleftrightarrow> length xs \<le> MaxAgentArtifactsPerOwner \<and> retained_total xs \<le> MaxAgentArtifactBytesPerOwner \<and>
     (\<forall>a \<in> set xs. 0 \<le> retainedBytes a)"

definition artifact_bounds :: "AgentArtifact gomap \<Rightarrow> bool" where
  "artifact_bounds t \<longleftrightarrow> (\<forall>s owner. plain_scope s \<longrightarrow> within_quota (owned_artifacts s owner t))"

lemma validated_bytes:
  assumes "AgentArtifact_validate lib a = None"
  shows "retainedBytes a = int (length (aa_Data a) + length (aa_Input a))"
    "retainedBytes a \<le> 2 ^ 20" "aa_Digest a = artifactDigest (aa_Data a)"
proof -
  have f: "artifact_fields_check a = None" using assms by (auto simp: AgentArtifact_validate_def split: option.splits)
  have "aa_Size a = int (length (aa_Data a))" "aa_InputSize a = int (length (aa_Input a))"
      "length (aa_Data a) + length (aa_Input a) \<le> MaxAgentArtifactBytes"
      and d: "aa_Digest a = artifactDigest (aa_Data a)"
    using f by (auto simp: artifact_fields_check_def not_less split: if_splits)
  then have "aa_Size a + aa_InputSize a = int (length (aa_Data a) + length (aa_Input a))"
      "length (aa_Data a) + length (aa_Input a) \<le> 1048576"
    by (simp_all add: MaxAgentArtifactBytes_def)
  moreover from this have "retainedBytes a = aa_Size a + aa_InputSize a"
    unfolding retainedBytes_def by (intro i64_id) simp_all
  ultimately show "retainedBytes a = int (length (aa_Data a) + length (aa_Input a))" "retainedBytes a \<le> 2 ^ 20"
    by simp_all
  show "aa_Digest a = artifactDigest (aa_Data a)" by (rule d)
qed

lemma retained_total_nonneg: "\<forall>a \<in> set xs. 0 \<le> retainedBytes a \<Longrightarrow> 0 \<le> retained_total xs"
  by (induction xs) (simp_all add: retained_total_def)

lemma owned_put_fresh:
  "mget t k = None \<Longrightarrow> owned_artifacts s owner (mput k a t) =
     owned_artifacts s owner t @ (if hasPrefix k (tenantPrefix s) \<and> aa_Owner a = owner then [a] else [])"
  by (induction t) (auto simp: owned_artifacts_def mput_def mget_def split: if_splits)

lemma within_quota_sub:
  assumes "within_quota (owned_artifacts s owner t)"
  shows "within_quota (owned_artifacts s owner (mfilter P t))"
proof -
  have "length (owned_artifacts s owner (mfilter P t)) \<le> length (owned_artifacts s owner t) \<and>
      set (owned_artifacts s owner (mfilter P t)) \<subseteq> set (owned_artifacts s owner t) \<and>
      ((\<forall>a \<in> set (owned_artifacts s owner t). 0 \<le> retainedBytes a) \<longrightarrow>
        retained_total (owned_artifacts s owner (mfilter P t)) \<le> retained_total (owned_artifacts s owner t))"
    by (induction t) (auto simp: owned_artifacts_def mfilter_def retained_total_def)
  then show ?thesis using assms by (auto simp: within_quota_def)
qed

lemma mdel_as_filter: "mdel k t = mfilter (\<lambda>l _. l \<noteq> k) t"
  unfolding mdel_def mfilter_def AList.delete_eq by (rule filter_cong) auto

lemma SaveAgentArtifact_bounds:
  assumes "settled m" "good_scope s" "artifact_bounds (agentArtifacts m)"
  shows "artifact_bounds (agentArtifacts (snd (SaveAgentArtifact lib m s a)))"
proof -
  let ?s = "resolve m s"
  let ?a = "a\<lparr>aa_Presentation := contentFreePresentation lib (aa_Presentation a) (aa_Sources a)\<rparr>"
  let ?key = "agentPrefix ?s @ aa_ID a" and ?t = "agentArtifacts m"
  have plain: "plain_scope ?s" using resolve_resolved [OF assms(1,2)] by (simp add: resolved_def)
  have "agentArtifacts (snd (SaveAgentArtifact lib m s a)) = ?t \<or>
      agentArtifacts (snd (SaveAgentArtifact lib m s a)) = mput ?key ?a ?t \<and> mget ?t ?key = None \<and>
      AgentArtifact_validate lib ?a = None \<and>
      length (owned_artifacts ?s (aa_Owner a) ?t) < MaxAgentArtifactsPerOwner \<and>
      i64 (i64 (retained_total (owned_artifacts ?s (aa_Owner a) ?t)) + retainedBytes ?a)
        \<le> MaxAgentArtifactBytesPerOwner"
    by (simp add: SaveAgentArtifact_def run_op assms(1) not_le not_less split: option.splits)
  then show ?thesis
  proof (elim disjE conjE)
    assume "agentArtifacts (snd (SaveAgentArtifact lib m s a)) = ?t"
    then show ?thesis using assms(3) by simp
  next
    assume new: "agentArtifacts (snd (SaveAgentArtifact lib m s a)) = mput ?key ?a ?t" "mget ?t ?key = None"
        "AgentArtifact_validate lib ?a = None"
        "length (owned_artifacts ?s (aa_Owner a) ?t) < MaxAgentArtifactsPerOwner"
        "i64 (i64 (retained_total (owned_artifacts ?s (aa_Owner a) ?t)) + retainedBytes ?a)
           \<le> MaxAgentArtifactBytesPerOwner"
    let ?owned = "owned_artifacts ?s (aa_Owner a) ?t"
    have q: "within_quota ?owned" using assms(3) plain by (simp add: artifact_bounds_def)
    have r: "0 \<le> retainedBytes ?a" "retainedBytes ?a \<le> 2 ^ 20" using validated_bytes [OF new(3)] by simp_all
    have "0 \<le> retained_total ?owned" "retained_total ?owned \<le> 16 * 2 ^ 20"
      using q retained_total_nonneg by (auto simp: within_quota_def MaxAgentArtifactBytesPerOwner_def)
    then have "retained_total ?owned + retainedBytes ?a \<le> MaxAgentArtifactBytesPerOwner"
      using new(5) r by (simp add: i64_id)
    then have added: "within_quota (?owned @ [?a])"
      using q r(1) new(4) by (auto simp: within_quota_def retained_total_def)
    have "within_quota (owned_artifacts s' owner (mput ?key ?a ?t))" if s': "plain_scope s'" for s' owner
    proof (cases "hasPrefix ?key (tenantPrefix s') \<and> owner = aa_Owner a")
      case True
      have "hasPrefix ?key (tenantPrefix s')" using True by simp
      then have "same_tenant ?s s'"
        using hasPrefix_tenantPrefix [OF plain s', of "sc_AgentName ?s @ bar @ aa_ID a"]
        by (simp add: agentPrefix_def tenantPrefix_def)
      then have "tenantPrefix s' = tenantPrefix ?s" by (simp add: same_tenant_def tenantPrefix_def tenantKey_def)
      then have "owned_artifacts s' owner ?t = ?owned" using True by (simp add: owned_artifacts_def)
      then show ?thesis using added True by (simp add: owned_put_fresh [OF new(2)])
    next
      case False
      then show ?thesis using assms(3) s' by (auto simp: owned_put_fresh [OF new(2)] artifact_bounds_def)
    qed
    then show ?thesis by (simp add: new(1) artifact_bounds_def)
  qed
qed

lemma request_artifact_bounds:
  assumes "settled m" "good_scope s" "artifact_bounds (agentArtifacts m)"
  shows "artifact_bounds (agentArtifacts (apply_request lib r s m))"
proof (cases "touches_artifacts r")
  case False
  then show ?thesis using artifacts_untouched assms by simp
next
  case True
  have sub: "artifact_bounds (mfilter P (agentArtifacts m))" for P
    using assms(3) within_quota_sub by (simp add: artifact_bounds_def)
  show ?thesis
  proof (cases r)
    case (RSaveAgentArtifact a)
    then show ?thesis using SaveAgentArtifact_bounds [OF assms] by simp
  next
    case (RDeleteAgentArtifact u owner i)
    then show ?thesis using assms sub
      by (auto simp: DeleteAgentArtifact_def run_op mdel_as_filter split: option.splits)
  next
    case (RDeleteAgentData a)
    then show ?thesis using assms sub
      by (auto simp: DeleteAgentData_def run_op drop_agent_def split: option.splits)
  qed (use True in \<open>auto simp: touches_artifacts_def\<close>)
qed

lemma SaveTenantRef_artifacts: "agentArtifacts (snd (SaveTenantRef m c ref)) = agentArtifacts m"
  by (auto simp: SaveTenantRef_def migrateUnmappedScope_def Let_def move_tables_fields [OF refl refl]
      split: option.splits)

lemma reachable_artifact_bounds: "reachable lib m \<Longrightarrow> artifact_bounds (agentArtifacts m)"
proof (induction rule: reachable.induct)
  case empty
  then show ?case
    by (simp add: artifact_bounds_def owned_artifacts_def within_quota_def retained_total_def
        NewMemoryStore_def MaxAgentArtifactBytesPerOwner_def)
next
  case (mapping m c ref)
  then show ?case by (simp add: SaveTenantRef_artifacts)
next
  case (request m s r)
  then show ?case using request_artifact_bounds reachable_is_settled by blast
next
  case (quota m q)
  then show ?case by (auto simp: ConfigureAgentAttachmentQuota_def split: option.splits)
next
  case (reconcile m now)
  then show ?case by (simp add: ReconcileAgentAttachmentBindings_def)
qed

text \<open>C29: in every reachable store an owner holds at most 100 captured artifacts and 16 MiB of them
  in a workspace.\<close>

theorem artifact_quota_invariant:
  assumes "reachable lib m" "plain_scope s"
  shows "length (owned_artifacts s owner (agentArtifacts m)) \<le> MaxAgentArtifactsPerOwner \<and>
    retained_total (owned_artifacts s owner (agentArtifacts m)) \<le> MaxAgentArtifactBytesPerOwner"
  using reachable_artifact_bounds [OF assms(1)] assms(2) by (simp add: artifact_bounds_def within_quota_def)

text \<open>A captured artifact never changes: after any request it is what it was or it is gone, and it
  goes only when its Agent's data is deleted or its owner deletes it.\<close>

theorem artifact_immutable:
  assumes "settled m" "wf_store m" "mget (agentArtifacts m) k = Some a"
  shows "mget (agentArtifacts (apply_request lib r s m)) k = Some a \<or>
    mget (agentArtifacts (apply_request lib r s m)) k = None \<and>
      (r = RDeleteAgentData (aa_AgentName a) \<or> (\<exists>i. r = RDeleteAgentArtifact (aa_AgentUID a) (aa_Owner a) i))"
proof (cases "touches_artifacts r")
  case False
  then show ?thesis using artifacts_untouched assms by simp
next
  case True
  have wf: "wf_map (agentArtifacts m)" using assms(2) by (simp add: wf_store_def)
  show ?thesis
  proof (cases r)
    case (RSaveAgentArtifact x)
    then show ?thesis using assms
      by (auto simp: SaveAgentArtifact_def run_op split: option.splits)
  next
    case (RDeleteAgentArtifact u owner i)
    then show ?thesis using assms
      by (auto simp: DeleteAgentArtifact_def artifact_owned_by_def run_op split: option.splits if_splits)
  next
    case (RDeleteAgentData x)
    then show ?thesis using assms wf
      by (auto simp: DeleteAgentData_def drop_agent_def mget_filter run_op split: option.splits)
  qed (use True in \<open>auto simp: touches_artifacts_def\<close>)
qed

end
