(* ===== verification/IsolationFacts.thy ===== *)
theory IsolationFacts
  imports SessionFacts RunFacts
begin

text \<open>
  The properties that hold of every component: tenants do not observe each other, mapped clusters
  have no rows of their own, a mapping is final, and a write that was delayed past the mapping of
  its cluster lands in the tenant.
\<close>

section \<open>What another tenant reads\<close>

text \<open>A change confined to \<open>s\<close>, seen by another tenant \<open>b\<close>.\<close>

definition bystander :: "Scope \<Rightarrow> Scope \<Rightarrow> MemoryStore \<Rightarrow> MemoryStore \<Rightarrow> bool" where
  "bystander s b m m' \<longleftrightarrow> confined s m m' \<and> plain_scope s \<and> plain_scope b \<and> \<not> same_tenant s b"

lemma bystander_out:
  "bystander s b m m' \<Longrightarrow> hasPrefix k (tenantPrefix b) \<Longrightarrow> \<not> hasPrefix k (tenantPrefix s)"
  using tenant_disjoint [of s b k] by (simp add: bystander_def)

lemma bystander_row:
  assumes "bystander s b m m'" "hasPrefix k (tenantPrefix b)"
    and "others (\<lambda>k. hasPrefix k (tenantPrefix s)) t' = others (\<lambda>k. hasPrefix k (tenantPrefix s)) t"
  shows "mget t' k = mget t k"
  using assms(3) bystander_out [OF assms(1,2)] by (rule others_mget)

lemma bystander_filter:
  assumes "bystander s b m m'"
    and "others (\<lambda>k. hasPrefix k (tenantPrefix s)) t' = others (\<lambda>k. hasPrefix k (tenantPrefix s)) t"
  shows "filter (\<lambda>(k, v). hasPrefix k (tenantPrefix b) \<and> Q k v) t' =
    filter (\<lambda>(k, v). hasPrefix k (tenantPrefix b) \<and> Q k v) t"
  using others_rows [OF assms(2), of "\<lambda>k v. hasPrefix k (tenantPrefix b) \<and> Q k v"]
    bystander_out [OF assms(1)] by simp

lemma bystander_rows:
  assumes "bystander s b m m'"
  shows "mget (runs m') (rowKey b x) = mget (runs m) (rowKey b x)"
    "mget (messages m') (sessionKey b x) = mget (messages m) (sessionKey b x)"
    "mget (summaries m') (sessionKey b x) = mget (summaries m) (sessionKey b x)"
    "mget (summaryGenerations m') (sessionKey b x) = mget (summaryGenerations m) (sessionKey b x)"
    "mget (inbox m') (rowKey b x) = mget (inbox m) (rowKey b x)"
    "mget (usage m') (usageKey b a w) = mget (usage m) (usageKey b a w)"
    "mget (deliveries m') (deliveryKey b x) = mget (deliveries m) (deliveryKey b x)"
    "mget (agentArtifacts m') (agentPrefix b @ x) = mget (agentArtifacts m) (agentPrefix b @ x)"
    "mget (harness m') (sessionKey b x) = mget (harness m) (sessionKey b x)"
  using assms by (intro bystander_row [OF assms]; simp add: bystander_def confined_def Let_def)+

lemma bystander_calls:
  assumes "bystander s b m m'"
  shows "mget (toolCalls m') (tenantKey b) = mget (toolCalls m) (tenantKey b)"
proof (rule others_mget [where P = "\<lambda>k. k = tenantKey s"])
  show "others (\<lambda>k. k = tenantKey s) (toolCalls m') = others (\<lambda>k. k = tenantKey s) (toolCalls m)"
    using assms by (simp add: bystander_def confined_def Let_def)
  show "\<not> tenantKey b = tenantKey s"
    using assms tenantKey_eq [of s b] by (auto simp: bystander_def)
qed

lemma bystander_confined:
  assumes "bystander s b m m'"
  shows "others (\<lambda>k. hasPrefix k (tenantPrefix s)) (runs m') = others (\<lambda>k. hasPrefix k (tenantPrefix s)) (runs m)"
    "others (\<lambda>k. hasPrefix k (tenantPrefix s)) (inbox m') = others (\<lambda>k. hasPrefix k (tenantPrefix s)) (inbox m)"
    "others (\<lambda>k. hasPrefix k (tenantPrefix s)) (memories m') =
     others (\<lambda>k. hasPrefix k (tenantPrefix s)) (memories m)"
  using assms by (simp_all add: bystander_def confined_def Let_def)

lemma bystander_tables:
  assumes "bystander s b m m'"
  shows "runs_where P b m' = runs_where P b m"
    "filter (\<lambda>(k, v). hasPrefix k (tenantPrefix b) \<and> Qi k v) (inbox m') =
     filter (\<lambda>(k, v). hasPrefix k (tenantPrefix b) \<and> Qi k v) (inbox m)"
    "filter (\<lambda>(k, v). hasPrefix k (tenantPrefix b) \<and> Qm k v) (memories m') =
     filter (\<lambda>(k, v). hasPrefix k (tenantPrefix b) \<and> Qm k v) (memories m)"
proof -
  note same = bystander_filter [OF assms bystander_confined(1) [OF assms]]
    bystander_filter [OF assms bystander_confined(2) [OF assms]]
    bystander_filter [OF assms bystander_confined(3) [OF assms]]
  show "runs_where P b m' = runs_where P b m" by (simp only: runs_where_def same)
  show "filter (\<lambda>(k, v). hasPrefix k (tenantPrefix b) \<and> Qi k v) (inbox m') =
     filter (\<lambda>(k, v). hasPrefix k (tenantPrefix b) \<and> Qi k v) (inbox m)"
    "filter (\<lambda>(k, v). hasPrefix k (tenantPrefix b) \<and> Qm k v) (memories m') =
     filter (\<lambda>(k, v). hasPrefix k (tenantPrefix b) \<and> Qm k v) (memories m)"
    by (rule same)+
qed

lemma request_bystander:
  assumes "settled m" "good_scope a" "good_scope b" "\<not> same_tenant (resolve m a) (resolve m b)"
    "\<not> tenant_wide r"
  shows "bystander (resolve m a) (resolve m b) m (apply_request lib r a m)"
  using request_confined [OF assms(1,5)] resolve_resolved [OF assms(1)] assms
  by (simp add: bystander_def resolved_def)

text \<open>C1: tenants are isolated. Whatever one tenant's request does, short of deleting a run's data, the
  reads of another tenant return what they returned before.\<close>

theorem request_isolated:
  assumes "settled m" "good_scope a" "good_scope b" "\<not> same_tenant (resolve m a) (resolve m b)"
    and "\<not> tenant_wide r" "m' = apply_request lib r a m"
  shows "fst (GetRun m' b rid) = fst (GetRun m b rid) \<and>
    fst (QueryRuns m' b q cur) = fst (QueryRuns m b q cur) \<and>
    fst (ListMessages m' b sid limit cur) = fst (ListMessages m b sid limit cur) \<and>
    fst (GetSessionSummary m' b sid) = fst (GetSessionSummary m b sid) \<and>
    fst (GetHarnessSession m' b sid) = fst (GetHarnessSession m b sid) \<and>
    fst (ListInbox m' b st) = fst (ListInbox m b st) \<and>
    fst (ListMemories m' b limit) = fst (ListMemories m b limit) \<and>
    fst (ListToolCalls m' b rid) = fst (ListToolCalls m b rid) \<and>
    fst (GetUsage m' b agent now window) = fst (GetUsage m b agent now window) \<and>
    fst (ListWebhookDeliveries m' b uid dq) = fst (ListWebhookDeliveries m b uid dq) \<and>
    fst (GetAgentArtifact m' b uid owner rid) = fst (GetAgentArtifact m b uid owner rid)"
proof -
  note seen = request_bystander [OF assms(1-5), of lib, folded assms(6)]
  have after: "settled m'" "\<And>s. resolve m' s = resolve m s"
    using after_request [OF assms(1,2)] by (simp_all add: assms(6))
  note rr = resolve_resolve [OF assms(1)]
  note same = bystander_rows [OF seen] bystander_calls [OF seen] bystander_tables [OF seen]
  show ?thesis
    by (intro conjI)
      (simp_all add: GetRun_def QueryRuns_def ListMessages_def GetSessionSummary_def GetHarnessSession_def
        ListInbox_def ListMemories_def ListToolCalls_def GetUsage_def ListWebhookDeliveries_def
        GetAgentArtifact_def scoped_settled locked_settled Let_def assms(1) after rr same mgetd_def
        summary_generation_def split_beta split: option.split sum.split)
qed

section \<open>Mapped clusters\<close>

text \<open>In every reachable store, each cluster with a tenant has no row left under its cluster-keyed
  scope, so resolving a scope never moves a row and is the end of the migration.\<close>

theorem reachable_settled:
  assumes "reachable lib m"
  shows "settled m \<and> (\<forall>s. normalizeScopeLocked m s = (resolve m s, m)) \<and>
    (\<forall>c ref. GetTenantRef m c = Some ref \<longrightarrow> migrateUnmappedScope c ref m = m)"
  using reachable_is_settled [OF assms] normalize_settled migrate_settled by (auto simp: GetTenantRef_def)

text \<open>A cluster's mapping is final: no request changes it, and saving another tenant for the
  cluster is refused without a change.\<close>

theorem tenant_mapping_final:
  assumes "settled m" "GetTenantRef m c = Some ref"
  shows "GetTenantRef (apply_request lib r s m) c = Some ref \<and>
    GetTenantRef (snd (SaveTenantRef m d ref')) c = Some ref \<and>
    (ref_OrgUUID ref' \<noteq> ref_OrgUUID ref \<or> ref_WorkspaceUUID ref' \<noteq> ref_WorkspaceUUID ref \<longrightarrow>
       (\<exists>e. SaveTenantRef m c ref' = (Inl e, m)))"
  using assms request_tenants [OF assms(1), of lib r s]
  by (auto simp: GetTenantRef_def SaveTenantRef_def Let_def split: option.splits)

lemma request_steps_tenants:
  "(request_step lib P)\<^sup>*\<^sup>* m m' \<Longrightarrow> settled m \<Longrightarrow> settled m' \<and> tenants m' = tenants m"
  by (induction rule: rtranclp_induct) (auto simp: request_step_def after_request(1) request_tenants)

lemma mapped_scope:
  assumes "settled m" "mget (tenants m) c = Some ref" "good_ref ref" "validateTenantRef c ref = None"
    and "stale = (unmappedScope c)\<lparr>sc_AgentName := agent\<rparr>" "tenant = (refScope ref)\<lparr>sc_AgentName := agent\<rparr>" "\<not> blank agent"
  shows "resolve m stale = tenant\<lparr>sc_ClusterID := c\<rparr>" "withAgent (resolve m stale) = None"
    "sessionKey (resolve m stale) sid = sessionKey tenant sid"
proof -
  show res: "resolve m stale = tenant\<lparr>sc_ClusterID := c\<rparr>"
  proof -
    have "c \<noteq> []" using assms(4) by (auto simp: validateTenantRef_def split: if_splits)
    then show ?thesis using assms(2,3) by (simp add: resolve_def normalizeScopeLocked_def assms(5,6) unmappedScope_def
        refScope_def zero_Scope_def good_ref_def)
  qed
  show "sessionKey (resolve m stale) sid = sessionKey tenant sid"
    by (simp add: res sessionKey_def tenantKey_def)
  show "withAgent (resolve m stale) = None"
    using assms(4,7) by (auto simp: res assms(6) withAgent_def Scope_validate_def refScope_def
        zero_Scope_def validateTenantRef_def split: if_splits)
qed

text \<open>C14: an append resolves its scope while its cluster is unmapped, and before it takes the store's lock the
  cluster is mapped to a tenant, with any requests before and after that. What it then does under the lock puts the
  message at the end of the tenant's transcript, and no row is left under the cluster.\<close>

theorem delayed_write_lands_in_tenant:
  assumes "settled m" "mget (tenants m) c = None" "stale = (unmappedScope c)\<lparr>sc_AgentName := agent\<rparr>"
    and "normalizeScope m stale = (scope, m0)" "withAgent scope = None"
    and "(request_step lib (\<lambda>_ _. True))\<^sup>*\<^sup>* m0 before" "mapped = snd (SaveTenantRef before c ref)"
      "(request_step lib (\<lambda>_ _. True))\<^sup>*\<^sup>* mapped m1"
    and "validateTenantRef c ref = None" "plain c" "plain (ref_OrgUUID ref)" "plain (ref_WorkspaceUUID ref)"
    and "\<not> IsZero (msg_CreatedAt x)" "append_locked x scope m1 = (r, m2)" "tenant = (refScope ref)\<lparr>sc_AgentName := agent\<rparr>"
  shows "r = Inr () \<and> cleared c m2 \<and>
    (let k = sessionKey tenant (msg_SessionID x) in
     mgetd [] (messages m2) k =
       mgetd [] (messages m1) k @ [x\<lparr>msg_Sequence := messageSequence m1 + 1\<rparr>])"
proof -
  have first: "scope = stale" "m0 = m"
    using assms(2,4)
    by (auto simp: normalizeScope_def normalizeScopeLocked_def assms(3) unmappedScope_def zero_Scope_def split: if_splits)
  have agent: "\<not> blank agent" using assms(5) by (auto simp: first(1) assms(3) withAgent_def split: option.splits if_splits)
  have before: "settled before" "mget (tenants before) c = None"
    using request_steps_tenants [OF assms(6)] assms(1,2) first(2) by simp_all
  have "settled mapped" unfolding assms(7) using before assms(9-12) by (intro SaveTenantRef_settles)
  then have m1: "settled m1" "tenants m1 = tenants mapped" using request_steps_tenants [OF assms(8)] by simp_all
  have map1: "mget (tenants m1) c = Some ref"
    unfolding m1(2) using assms(9) before(2) by (simp add: assms(7) SaveTenantRef_def Let_def)
  note res = mapped_scope [OF m1(1) map1 validateTenantRef_good(1) [OF assms(9,11,12)] assms(9,3,15) agent]
  have whole: "AppendMessage m1 stale x = (r, m2)"
    unfolding assms(14) [symmetric] using res(2)
    by (simp add: AppendMessage_def append_locked_def run_op m1(1) first(1))
  have "good_scope stale"
    using assms(10) by (simp add: good_scope_def assms(3) unmappedScope_def zero_Scope_def plain_scope_def plain_def)
  then have "settled m2" "tenants m2 = tenants m1"
    using after_request(1) [OF m1(1), of stale undefined "RAppendMessage x"]
      request_tenants [OF m1(1), of undefined "RAppendMessage x" stale] whole by simp_all
  then have "cleared c m2" using settledD(4) map1 by metis
  moreover have "r = Inr ()" "messages m2 = mput (sessionKey tenant (msg_SessionID x))
      (mgetd [] (messages m1) (sessionKey tenant (msg_SessionID x)) @ [x\<lparr>msg_Sequence := messageSequence m1 + 1\<rparr>])
      (messages m1)"
    using assms(13,14) by (auto simp: append_locked_def locked_settled m1(1) first(1) res(3) Let_def)
  ultimately show ?thesis by (simp add: mgetd_def)
qed

text \<open>C23: in every reachable store the tables are maps and the sequence numbers of all stored messages
  are distinct, positive and at most the counter, so that the order of appends is theirs.\<close>

theorem reachable_wf_numbered:
  assumes "reachable lib m"
  shows "wf_store m \<and> numbered m"
  using reachable_is_wf [OF assms] reachable_numbered [OF assms] by simp

end
