(* ===== verification/Divergences.thy ===== *)
theory Divergences
  imports SessionFacts
begin

text \<open>
  Where the in-memory store does something other than its interface, or the Postgres store beside
  it, promises: a run's tool calls are deleted in every tenant, a migration leaves exported Agent
  artifacts behind, deleting an Agent's data does not fence the summaries computed from it, and a
  run admitted with uploads is not found by its idempotency key.
\<close>

section \<open>Deleting a run's data\<close>

lemma mget_without_run_calls:
  "mget (without_run_calls rid t) k = map_option (filter (\<lambda>c. tc_RunID c \<noteq> rid)) (mget t k)"
  by (induction t) (auto simp: without_run_calls_def mapm_Cons mget_def)

lemma DeleteRunData_calls:
  assumes "settled m" "withAgent (resolve m s) = None" "\<not> blank rid"
  shows "toolCalls (snd (DeleteRunData m s rid)) = without_run_calls rid (toolCalls m)"
    "fst (DeleteRunData m s rid) = Inr ()"
proof -
  have "toolCalls (fold (bumpSessionSummaryGenerationLocked a) xs m') = toolCalls m'" for a xs m'
    by (induction xs arbitrary: m') (simp_all add: bumpSessionSummaryGenerationLocked_def Let_def)
  then show "toolCalls (snd (DeleteRunData m s rid)) = without_run_calls rid (toolCalls m)"
    "fst (DeleteRunData m s rid) = Inr ()"
    using assms by (simp_all add: DeleteRunData_def run_op)
qed

text \<open>Deleting a run's data removes the tool calls filed under that run ID from the audit log of every
  tenant, not only from the log of the tenant that asked.\<close>

theorem DeleteRunData_crosses_tenants:
  assumes "settled m" "good_scope s" "withAgent (resolve m s) = None" "\<not> blank rid"
    and "Scope_validate (resolve m b) = None"
  shows "fst (ListToolCalls (snd (DeleteRunData m s rid)) b rid) = Inr []"
proof -
  have after: "settled (snd (DeleteRunData m s rid))" "resolve (snd (DeleteRunData m s rid)) b = resolve m b"
    using after_request [OF assms(1,2), of undefined "RDeleteRunData rid"] by simp_all
  show ?thesis
    by (auto simp: ListToolCalls_def scoped_settled after assms(5) DeleteRunData_calls [OF assms(1,3,4)]
        mgetd_def mget_without_run_calls oldest_first_def split: option.splits)
qed

section \<open>Exported artifacts and the migration\<close>

text \<open>Saving a cluster's tenant moves the rows of the cluster to the tenant, but no Agent artifact: one
  that was readable under the cluster's scope before is gone for every later read of that scope.\<close>

theorem SaveTenantRef_orphans_artifacts:
  assumes "settled m" "validateTenantRef c ref = None" "plain (ref_OrgUUID ref)" "plain (ref_WorkspaceUUID ref)"
      "plain c" "mget (tenants m) c = None"
    and "stale = (unmappedScope c)\<lparr>sc_AgentName := agent\<rparr>"
    and "fst (GetAgentArtifact m stale uid owner rid) = Inr (Some x)"
    and "mget (agentArtifacts m) (agentPrefix ((refScope ref)\<lparr>sc_AgentName := agent\<rparr>) @ rid) = None"
  shows "agentArtifacts (snd (SaveTenantRef m c ref)) = agentArtifacts m \<and>
    fst (GetAgentArtifact (snd (SaveTenantRef m c ref)) stale uid owner rid) = Inr None"
proof -
  let ?m = "snd (SaveTenantRef m c ref)"
  have s1: "settled ?m" using assms by (intro SaveTenantRef_settles)
  have kept: "agentArtifacts ?m = agentArtifacts m"
    using assms(2,6) by (simp add: SaveTenantRef_def Let_def migrateUnmappedScope_def
        move_tables_fields [OF refl refl])
  have map1: "mget (tenants ?m) c = Some ref"
    using assms(2,6) by (simp add: SaveTenantRef_def Let_def)
  note good = validateTenantRef_good [OF assms(2-4)]
  have res: "resolve ?m stale = ((refScope ref)\<lparr>sc_AgentName := agent\<rparr>)\<lparr>sc_ClusterID := c\<rparr>"
    using map1 good by (simp add: resolve_def normalizeScopeLocked_def assms(7) unmappedScope_def
        refScope_def zero_Scope_def good_ref_def)
  have ids: "\<not> (blank uid \<or> blank owner \<or> blank rid)" "\<not> blank agent"
    using assms(8)
    by (auto simp: GetAgentArtifact_def run_op assms(1,7) resolve_def normalizeScopeLocked_def
        unmappedScope_def withAgent_def zero_Scope_def assms(6) split: if_splits option.splits)
  have "withAgent (resolve ?m stale) = None"
    using assms(2) ids by (auto simp: res withAgent_def Scope_validate_def refScope_def
        zero_Scope_def validateTenantRef_def split: if_splits)
  moreover have "agentPrefix (resolve ?m stale) = agentPrefix ((refScope ref)\<lparr>sc_AgentName := agent\<rparr>)"
    by (simp add: res agentPrefix_def tenantKey_def)
  ultimately show ?thesis
    using ids assms(9) by (simp add: kept GetAgentArtifact_def run_op s1 artifact_owned_by_def)
qed

section \<open>Deleting an Agent's data\<close>

lemma mget_drop_prefix: "mget (drop_prefix p t) k = (if hasPrefix k p then None else mget t k)"
  by (induction t) (auto simp: drop_prefix_def mfilter_def mget_def)

text \<open>Deleting an Agent's data leaves the generation of its summaries as it was, so a summary computed
  from the deleted conversation, in flight while it was deleted, is stored and read back.\<close>

theorem DeleteAgentData_leaves_fence:
  assumes "settled m" "good_scope s" "withAgent (resolve m s) = None" "agent = sc_AgentName (resolve m s)"
    and "m' = snd (DeleteAgentData m s agent)"
    and "sum_Checkpoint x = None" "\<not> blank (sum_SessionID x)"
    and "fst (GetSessionSummary m s (sum_SessionID x)) = Inr (old, found)" "sum_Generation x = sum_Generation old"
  shows "fst (PutSessionSummary m' s x) = Inr () \<and>
    fst (GetSessionSummary (snd (PutSessionSummary m' s x)) s (sum_SessionID x)) = Inr (x, True)"
proof -
  have valid: "Scope_validate (resolve m s) = None" using assms(3) by (rule withAgent_validate)
  have after: "settled m'" "\<And>s. resolve m' s = resolve m s"
    using after_request [OF assms(1,2), of undefined "RDeleteAgentData agent"] by (simp_all add: assms(5))
  have gens: "summaryGenerations m' = summaryGenerations m"
    "mget (summaries m') (sessionKey (resolve m s) (sum_SessionID x)) = None"
    using valid by (simp_all add: assms(4,5) DeleteAgentData_def run_op assms(1) mget_drop_prefix
        sessionKey_def msgPrefix_def hasPrefix_iff)
  have gen: "sum_Generation x = summary_generation (sessionKey (resolve m s) (sum_SessionID x)) m"
    using assms(8,9) by (auto simp: GetSessionSummary_def run_op assms(1,3) split: option.splits)
  note rr = resolve_resolve [OF assms(1)]
  define m'' where "m'' = snd (PutSessionSummary m' s x)"
  have put: "PutSessionSummary m' s x = (Inr (), m'\<lparr>summaries :=
      mput (sessionKey (resolve m s) (sum_SessionID x)) x (summaries m')\<rparr>)"
    using gen by (simp add: PutSessionSummary_def cloneSessionSummary_def scoped_settled locked_settled after rr assms(3,6,7)
        validateSessionCheckpoint_def validateCheckpointAttachmentsLocked_def checkpoint_regresses_def gens
        summary_generation_def Let_def)
  have "settled m''" "\<And>s. resolve m'' s = resolve m s"
    using after_request [OF after(1) assms(2), of undefined "RPutSessionSummary x"] after(2)
    by (simp_all add: m''_def)
  then show ?thesis
    using gen by (simp add: put GetSessionSummary_def cloneSessionSummary_def scoped_settled assms(3,6) gens
        summary_generation_def m''_def Let_def)
qed

section \<open>Idempotency keys of runs with uploads\<close>

lemma find_put: "(\<And>v. \<not> P (k, v)) \<Longrightarrow> find P (mput k w t) = find P t"
  by (induction t) (auto simp: mput_def)

text \<open>A run admitted together with uploads keeps its idempotency key in its row only: looking up any
  key afterwards, the run's own among them, finds what it found before, so a retry with the same key
  is accepted again.\<close>

theorem CreateAgentChatRun_key_not_found:
  assumes "settled m" "good_scope s" "mget (idempotencyPrimary m) (rowKey (resolve m s) (run_ID run)) = None"
    and "CreateAgentChatRun m s uid msg run receipts actor now clock = (Inr (), m')"
  shows "fst (GetRun m' s (run_ID run)) = Inr run \<and>
    fst (FindRunByIdempotencyKey m' s key) = fst (FindRunByIdempotencyKey m s key)"
proof -
  have after: "settled m'" "\<And>s. resolve m' s = resolve m s"
    using after_request [OF assms(1,2), of undefined "RCreateAgentChatRun uid msg run receipts actor now clock"]
      assms(4) by simp_all
  note rr = resolve_resolve [OF assms(1)]
  have valid: "withAgent (resolve m s) = None"
    using assms(4) by (auto simp: CreateAgentChatRun_def run_op assms(1) split: option.splits)
  have rows: "runs m' = mput (rowKey (resolve m s) (run_ID run)) run (runs m)"
    "idempotencyPrimary m' = idempotencyPrimary m"
    using assms(4) valid
    by (auto simp: CreateAgentChatRun_def scoped_settled locked_settled assms(1) rr Let_def
        split: option.splits if_splits sum.splits)
  show ?thesis
    by (simp add: GetRun_def FindRunByIdempotencyKey_def scoped_settled assms(1) after valid
        withAgent_validate [OF valid] rows)
      (simp add: find_put assms(3) mgetd_def)
qed

end
