(* ===== verification/Witnesses.thy ===== *)
theory Witnesses
  imports RunFacts TranscriptFacts HarnessFacts RecordFacts UploadFacts ArtifactFacts IsolationFacts Divergences
begin

text \<open>
  A small store with one row of each kind, and the requests the properties are applied to: an
  Agent \<open>a\<close> of the tenant \<open>o|w\<close>, a second tenant \<open>p|x\<close>, and a cluster \<open>c\<close> that has no tenant yet.

  The properties applied at concrete inputs: each hypothesis is discharged by evaluating the
  definitions on the sample store.
\<close>

definition demo_scope :: Scope where
  "demo_scope = zero_Scope\<lparr>sc_OrgUUID := ''o'', sc_WorkspaceUUID := ''w'', sc_AgentName := ''a''\<rparr>"

definition other_scope :: Scope where
  "other_scope = zero_Scope\<lparr>sc_OrgUUID := ''p'', sc_WorkspaceUUID := ''x'', sc_AgentName := ''a''\<rparr>"

definition cluster_scope :: Scope where
  "cluster_scope = (unmappedScope ''c'')\<lparr>sc_AgentName := ''a''\<rparr>"

definition demo_ref :: TenantRef where
  "demo_ref = \<lparr>ref_OrgUUID = ''o'', ref_WorkspaceUUID = ''w'', ref_UpdatedAt = 1\<rparr>"

definition demo_message :: "string \<Rightarrow> string \<Rightarrow> int \<Rightarrow> Message" where
  "demo_message i role n = \<lparr>msg_ID = i, msg_Sequence = n, msg_AgentName = ''a'', msg_SessionID = ''s'',
     msg_RunID = ''r'', msg_Role = role, msg_Content = ''hi'', msg_ContentEncrypted = False,
     msg_ContentKeyID = [], msg_Metadata = [], msg_CreatedAt = 1000 * n\<rparr>"

definition demo_run :: "string \<Rightarrow> RunPhase \<Rightarrow> Run" where
  "demo_run i phase = zero_Run\<lparr>run_ID := i, run_AgentName := ''a'', run_SessionID := ''s'',
     run_Phase := phase, run_CreatedAt := 5, run_UpdatedAt := 6\<rparr>"

definition demo_summary :: SessionSummary where
  "demo_summary = zero_SessionSummary\<lparr>sum_SessionID := ''s'', sum_Summary := ''x''\<rparr>"

definition demo_checkpoint :: "int \<Rightarrow> SessionSummary" where
  "demo_checkpoint n = demo_summary\<lparr>sum_Checkpoint := Some \<lparr>cp_Version = 1, cp_ThroughSequence = n,
     cp_ThroughMessageID = [], cp_ThroughAt = 1, cp_ReplacementHistory = Some []\<rparr>\<rparr>"

definition demo_harness :: HarnessSession where
  "demo_harness = \<lparr>hs_SessionID = ''s'', hs_TaskID = ''t'', hs_AgentUID = ''u'', hs_HarnessSessionID = ''n'',
     hs_BackendKey = ''k'', hs_Turns = 3, hs_ObservedEpoch = 2, hs_UpdatedAt = 10\<rparr>"

definition demo_identity :: HarnessIdentity where
  "demo_identity = \<lparr>hid_TaskID = ''t'', hid_LegacyTaskID = [], hid_AgentUID = ''u'', hid_CreatedAt = 1\<rparr>"

definition demo_item :: InboxItem where
  "demo_item = \<lparr>inb_ID = ''i'', inb_AgentName = ''a'', inb_RunID = ''r'', inb_Kind = InboxKindApproval,
     inb_State = InboxStatePending, inb_Prompt = [], inb_Payload = [], inb_Response = [],
     inb_CreatedAt = 1, inb_UpdatedAt = 1\<rparr>"

definition demo_call :: ToolCall where
  "demo_call = \<lparr>tc_ID = ''t'', tc_CallID = ''c'', tc_AgentName = ''a'', tc_RunID = ''r'', tc_SessionID = ''s'',
     tc_Trigger = [], tc_Tool = ''get'', tc_Args = [], tc_Result = [], tc_Sources = [], tc_Presentation = None,
     tc_Outcome = [], tc_Error = [], tc_DurationMS = 1, tc_CreatedAt = 1\<rparr>"

definition demo_upload :: AgentAttachment where
  "demo_upload = \<lparr>at_ID = ''f'', at_AgentName = ''a'', at_AgentUID = ''u'', at_SessionID = ''s'', at_ActorID = ''z'',
     at_Filename = ''n.txt'', at_ContentType = ''text/plain'', at_SizeBytes = 2,
     at_SHA256 = ''8f434346648f6b96df89dda901c5176b10a6d83961dd3c1ac88b59b2dc327aa4'', at_Draft = True,
     at_CreatedAt = 1, at_ExpiresAt = Some 100, at_Data = ''hi'', at_BindingID = [], at_DraftExpiresAt = None\<rparr>"

definition demo_artifact :: AgentArtifact where
  "demo_artifact = \<lparr>aa_ID = ''y'', aa_AgentName = ''a'', aa_AgentUID = ''u'', aa_Owner = ''z'', aa_RunID = ''r'',
     aa_SessionID = ''s'', aa_ToolCallID = ''t'', aa_ToolName = ''get'', aa_Title = [], aa_MediaType = ''text/plain'',
     aa_Input = [], aa_InputDigest = [], aa_InputSize = 0, aa_Digest = [], aa_Size = 0, aa_Data = [],
     aa_Sources = [], aa_Presentation = None, aa_CreatedAt = 1\<rparr>"

definition demo_delivery :: "string \<Rightarrow> WebhookDelivery" where
  "demo_delivery i = \<lparr>wd_ID = i, wd_WebhookName = ''h'', wd_WebhookUID = ''v'', wd_DeliveryID = [], wd_ReceivedAt = 4,
     wd_Outcome = ''fired'', wd_Reason = [], wd_EventType = [], wd_Action = [], wd_Repository = [],
     wd_ContentType = [], wd_Headers = [], wd_Body = ''b'', wd_BodySize = 1, wd_BodyTruncated = False,
     wd_ReplayOf = [], wd_Routes = []\<rparr>"

definition demo_store :: MemoryStore where
  "demo_store = NewMemoryStore\<lparr>
     messages := [(''o|w|a|s'', [demo_message ''m1'' ''user'' 1, demo_message ''m2'' ''tool'' 2]),
       (''unmapped|c|a|s'', [demo_message ''m3'' ''user'' 3])],
     sessionTitles := [(''o|w|a|q'', \<lparr>title_FirstMessageID = ''m'', title_Title = ''T''\<rparr>)],
     runs := [(''o|w|r'', demo_run ''r'' RunPhasePending), (''o|w|g'', demo_run ''g'' RunPhaseRunning)],
     inbox := [(''o|w|i'', demo_item)],
     toolCalls := [(''o|w'', [demo_call]), (''p|x'', [demo_call])],
     summaries := [(''o|w|a|k'', demo_checkpoint 2)],
     harness := [(''o|w|a|s'', demo_harness)],
     agentArtifacts := [(''unmapped|c|a|y'', demo_artifact)],
     messageSequence := 3\<rparr>"

lemma demo_settled [simp]: "settled demo_store" by code_simp
lemma demo_wf [simp]: "wf_store demo_store" by code_simp
lemma demo_good [simp]: "good_scope demo_scope" "good_scope other_scope" "good_scope cluster_scope"
  by code_simp+
lemma demo_agent [simp]: "withAgent (resolve demo_store demo_scope) = None" 
  "Scope_validate (resolve demo_store demo_scope) = None"
  "Scope_validate (resolve demo_store other_scope) = None"
  by code_simp+

section \<open>Runs\<close>

definition demo_lib :: PresentationLib where
  "demo_lib = \<lparr>lib_ParseURL = (\<lambda>_. None), lib_PathUnescape = Some, lib_Base64Decode = (\<lambda>_. None),
     lib_Base64Encode = (\<lambda>x. x), lib_IsDNS1123Label = (\<lambda>_. True), lib_EncodedSize = (\<lambda>_. Some 1)\<rparr>"

definition cancelled_store :: "MemoryStore \<Rightarrow> MemoryStore" where
  "cancelled_store m = apply_request demo_lib (RRequestCancel ''r'' 9) demo_scope m"

lemma cancelled_steps:
  "P (resolve m demo_scope) (RRequestCancel ''r'' 9) \<Longrightarrow> (request_step demo_lib P)\<^sup>*\<^sup>* m (cancelled_store m)"
  unfolding cancelled_store_def by (rule r_into_rtranclp, unfold request_step_def) (use demo_good(1) in blast)

theorem ClaimRun_once_witness:
  "let m1 = snd (ClaimRun demo_store demo_scope ''r'' 7 []); m2 = cancelled_store m1 in
    fst (ClaimRun demo_store demo_scope ''r'' 7 []) \<noteq> Inl (ErrRunClaimConflict ''r'') \<and>
    ClaimRun m2 demo_scope ''r'' 8 [] = (Inl (ErrRunClaimConflict ''r''), m2)"
proof -
  let ?m1 = "snd (ClaimRun demo_store demo_scope ''r'' 7 [])"
  have c: "ClaimRun demo_store demo_scope ''r'' 7 [] = (Inr (projr (fst (ClaimRun demo_store demo_scope ''r'' 7 []))), ?m1)"
    by code_simp
  have "(request_step demo_lib (no_requeue (rowKey (resolve demo_store demo_scope) ''r'')))\<^sup>*\<^sup>* ?m1 (cancelled_store ?m1)"
    by (rule cancelled_steps) (simp add: no_requeue_def stored_run_def)
  from ClaimRun_once [OF demo_settled demo_wf demo_good(1) c this, of 8 "[]"] c
  show ?thesis unfolding Let_def by (metis Inl_Inr_False fst_conv)
qed

theorem ClaimRecovery_exclusive_witness:
  "let m1 = snd (ClaimRecovery demo_store demo_scope ''g'' 6 7); m2 = cancelled_store m1 in
    fst (ClaimRecovery demo_store demo_scope ''g'' 6 7) \<noteq> Inl (ErrRecoveryClaimStale ''g'') \<and>
    ClaimRecovery m2 demo_scope ''g'' 6 9 = (Inl (ErrRecoveryClaimStale ''g''), m2)"
proof -
  let ?m1 = "snd (ClaimRecovery demo_store demo_scope ''g'' 6 7)"
  have c: "ClaimRecovery demo_store demo_scope ''g'' 6 7 = (Inr (projr (fst (ClaimRecovery demo_store demo_scope ''g'' 6 7))), ?m1)"
    by code_simp
  have "(request_step demo_lib (no_backdate (rowKey (resolve demo_store demo_scope) ''g'') 6))\<^sup>*\<^sup>* ?m1 (cancelled_store ?m1)"
    by (rule cancelled_steps) (simp add: no_backdate_def stored_run_def)
  from ClaimRecovery_exclusive [OF demo_settled demo_wf demo_good(1) c this, of 9] c
  show ?thesis unfolding Let_def by (metis Inl_Inr_False fst_conv)
qed

theorem run_row_keeps_witness:
  "keeps (demo_run ''r'' RunPhasePending)
     (the (mget (runs (apply_request demo_lib (RClaimRun ''r'' 7 []) demo_scope demo_store)) ''o|w|r''))"
  by (rule run_row_keeps [of demo_store "''o|w|r''" _ demo_lib "RClaimRun ''r'' 7 []" demo_scope]) code_simp+

definition demo_query :: RunQuery where
  "demo_query = \<lparr>rq_Phase = [], rq_Trigger = [], rq_SessionID = ''s'', rq_ParentRunID = [], rq_Limit = 1\<rparr>"

theorem QueryRuns_pages_complete_witness:
  "walk (query_fetch (demo_store, demo_scope, demo_query))
     (Suc (length (query_rows (demo_store, demo_scope, demo_query)))) None =
    newest_first run_stamp (query_rows (demo_store, demo_scope, demo_query))"
  by (rule QueryRuns_pages_complete) code_simp+

theorem SaveRun_idempotent_witness:
  "let x = (demo_run ''n'' RunPhasePending)\<lparr>run_IdempotencyKey := ''k''\<rparr>; y = x\<lparr>run_ID := ''n2''\<rparr>;
     m' = snd (SaveRun demo_store demo_scope x) in
    fst (FindRunByIdempotencyKey m' demo_scope (run_IdempotencyKey x)) = Inr (Some x) \<and>
    SaveRun m' demo_scope y = (Inl (Errorf ''duplicate idempotency key''), m')"
  unfolding Let_def by (rule SaveRun_idempotent [of demo_store]) code_simp+

section \<open>Tenants and the migration\<close>

theorem request_isolated_witness:
  "let m' = apply_request demo_lib (RAppendMessage (demo_message ''m9'' ''user'' 9)) demo_scope demo_store in
    fst (ListToolCalls m' other_scope ''r'') = fst (ListToolCalls demo_store other_scope ''r'') \<and>
    fst (GetRun m' other_scope ''r'') = fst (GetRun demo_store other_scope ''r'')"
proof -
  have tenants: "\<not> same_tenant (resolve demo_store demo_scope) (resolve demo_store other_scope)"
    and wide: "\<not> tenant_wide (RAppendMessage (demo_message ''m9'' ''user'' 9))"
    by code_simp (simp add: tenant_wide_def)
  show ?thesis
    using request_isolated [OF demo_settled demo_good(1,2) tenants wide refl, of demo_lib]
    by (simp add: Let_def)
qed

theorem reachable_settled_witness:
  "settled NewMemoryStore \<and> (\<forall>s. normalizeScopeLocked NewMemoryStore s = (resolve NewMemoryStore s, NewMemoryStore))"
  using reachable_settled [OF reachable.empty] by blast

definition mapped_store :: MemoryStore where
  "mapped_store = snd (SaveTenantRef demo_store ''c'' demo_ref)"

theorem tenant_mapping_final_witness:
  "GetTenantRef (apply_request demo_lib (RDeleteSession ''s'' 9) demo_scope mapped_store) ''c'' = Some demo_ref \<and>
    (\<exists>e. SaveTenantRef mapped_store ''c'' (demo_ref\<lparr>ref_OrgUUID := ''p''\<rparr>) = (Inl e, mapped_store))"
proof -
  have s: "settled mapped_store" and r: "GetTenantRef mapped_store ''c'' = Some demo_ref" by code_simp+
  show ?thesis
    using tenant_mapping_final [OF s r, of demo_lib "RDeleteSession ''s'' 9" demo_scope "''c''" "demo_ref\<lparr>ref_OrgUUID := ''p''\<rparr>"]
    by (simp add: demo_ref_def)
qed

theorem delayed_write_lands_in_tenant_witness:
  "let x = demo_message ''m9'' ''user'' 9; r = fst (append_locked x cluster_scope mapped_store);
     m2 = snd (append_locked x cluster_scope mapped_store) in
   r = Inr () \<and> cleared ''c'' m2 \<and>
    (let k = sessionKey ((refScope demo_ref)\<lparr>sc_AgentName := ''a''\<rparr>) (msg_SessionID x) in
     mgetd [] (messages m2) k =
       mgetd [] (messages mapped_store) k @ [x\<lparr>msg_Sequence := messageSequence mapped_store + 1\<rparr>])"
proof -
  let ?x = "demo_message ''m9'' ''user'' 9"
  have v: "mget (tenants demo_store) ''c'' = None" "withAgent cluster_scope = None"
    "normalizeScope demo_store cluster_scope = (cluster_scope, demo_store)"
    "validateTenantRef ''c'' demo_ref = None" "plain ''c''" "plain (ref_OrgUUID demo_ref)"
    "plain (ref_WorkspaceUUID demo_ref)" "\<not> IsZero (msg_CreatedAt ?x)"
    by code_simp+
  show ?thesis
    using delayed_write_lands_in_tenant [OF demo_settled v(1) cluster_scope_def v(3,2) rtranclp.rtrancl_refl mapped_store_def
        rtranclp.rtrancl_refl v(4-8) prod.collapse [symmetric] refl]
    by (simp only: Let_def)
qed

theorem reachable_wf_numbered_witness: "wf_store NewMemoryStore \<and> numbered NewMemoryStore"
  by (rule reachable_wf_numbered [OF reachable.empty])

theorem migration_conserves_messages_witness:
  "mset (all_rows (messages (migrateUnmappedScope ''c'' demo_ref demo_store))) =
    mset (all_rows (messages demo_store))"
  by (rule migration_conserves_messages) code_simp+

theorem migrated_transcript_witness:
  "mgetd [] (messages (migrateUnmappedScope ''c'' demo_ref demo_store)) (tenantPrefix (refScope demo_ref) @ ''a|s'') =
    mgetd [] (messages demo_store) (tenantPrefix (refScope demo_ref) @ ''a|s'') @
    mgetd [] (messages demo_store) (tenantPrefix (unmappedScope ''c'') @ ''a|s'')"
  by (rule migrated_transcript) code_simp+

section \<open>Conversations\<close>

theorem ListMessages_pages_complete_witness:
  "walk (message_fetch (demo_store, demo_scope, ''s'', 1)) (Suc (length (transcript demo_store demo_scope ''s''))) None =
    newest_first msg_stamp (transcript demo_store demo_scope ''s'')"
  by (rule ListMessages_pages_complete) code_simp+

theorem LoadRecentMessages_newest_witness:
  "\<exists>out. fst (LoadRecentMessages demo_store demo_scope ''s'' 1) = Inr out \<and>
    length out = min (clampLimit 1 500 50) (length (transcript demo_store demo_scope ''s''))"
  using LoadRecentMessages_newest [OF demo_settled demo_agent(1), of "''s''" 1] by blast

theorem ClaimSessionTitle_once_witness:
  "let m' = snd (ClaimSessionTitle demo_store demo_scope ''s'' ''m1'') in
    title_row demo_store demo_scope ''s'' = None \<and>
    title_row m' demo_scope ''s'' = Some \<lparr>title_FirstMessageID = ''m1'', title_Title = []\<rparr> \<and>
    (\<forall>first'. fst (ClaimSessionTitle m' demo_scope ''s'' first') \<noteq> Inr True)"
proof -
  have c: "ClaimSessionTitle demo_store demo_scope ''s'' ''m1'' =
    (Inr True, snd (ClaimSessionTitle demo_store demo_scope ''s'' ''m1''))" by code_simp
  show ?thesis using ClaimSessionTitle_once [OF demo_settled demo_good(1) c] unfolding Let_def by blast
qed

theorem SetSessionTitleIfEmpty_keeps_witness:
  "snd (SetSessionTitleIfEmpty demo_store demo_scope ''q'' ''m'' ''New'') = demo_store \<and>
    fst (SetSessionTitleIfEmpty demo_store demo_scope ''q'' ''m'' ''New'') \<noteq> Inr True"
proof -
  have r: "title_row demo_store demo_scope ''q'' = Some \<lparr>title_FirstMessageID = ''m'', title_Title = ''T''\<rparr>"
    by code_simp
  show ?thesis using SetSessionTitleIfEmpty_keeps [OF demo_settled r, of "''m''" "''New''"] by simp
qed

theorem summary_stale_after_DeleteSession_witness:
  "let m2 = snd (DeleteSession demo_store demo_scope ''s'' 9) in
    \<exists>e. PutSessionSummary m2 demo_scope demo_summary = (Inl e, m2)"
  unfolding Let_def
  by (rule summary_stale_after_DeleteSession [of demo_store demo_scope demo_summary demo_lib 9])
    (code_simp, code_simp, code_simp, code_simp, simp add: demo_summary_def)

theorem summary_stale_after_DeleteRunData_witness:
  "let m2 = snd (DeleteRunData demo_store demo_scope ''r'') in
    \<exists>e. PutSessionSummary m2 demo_scope demo_summary = (Inl e, m2)"
  unfolding Let_def
  by (rule summary_stale_after_DeleteRunData [of demo_store demo_scope "''r''" demo_summary demo_lib])
    (code_simp, code_simp, code_simp, code_simp, code_simp, code_simp, simp)

theorem checkpoint_monotone_witness:
  "let x = (demo_checkpoint 3)\<lparr>sum_SessionID := ''k''\<rparr>; m' = snd (PutSessionSummary demo_store demo_scope x) in
    \<exists>c'. sum_Checkpoint x = Some c' \<and> 2 \<le> cp_ThroughSequence c' \<and> cp_Version c' = 1 \<and>
    mget (summaries m') (sessionKey (resolve demo_store demo_scope) (sum_SessionID x)) = Some (cloneSessionSummary x)"
proof -
  let ?x = "(demo_checkpoint 3)\<lparr>sum_SessionID := ''k''\<rparr>"
  have p: "PutSessionSummary demo_store demo_scope ?x = (Inr (), snd (PutSessionSummary demo_store demo_scope ?x))"
    "mget (summaries demo_store) (sessionKey (resolve demo_store demo_scope) (sum_SessionID ?x)) = Some (demo_checkpoint 2)"
    by code_simp+
  have c: "sum_Checkpoint (demo_checkpoint 2) = Some (the (sum_Checkpoint (demo_checkpoint 2)))"
    "cp_ThroughSequence (the (sum_Checkpoint (demo_checkpoint 2))) = 2"
    by (simp_all add: demo_checkpoint_def)
  show ?thesis using checkpoint_monotone [OF demo_settled p c(1)] by (simp only: Let_def c(2))
qed

text \<open>A checkpoint with an empty replacement history is accepted, and comes back without one, which is refused.\<close>

theorem empty_history_lost:
  "let x = (demo_checkpoint 3)\<lparr>sum_SessionID := ''k''\<rparr>; (r, m') = PutSessionSummary demo_store demo_scope x in
    r = Inr () \<and> validateSessionCheckpoint (sum_Checkpoint (fst (projr (fst (GetSessionSummary m' demo_scope ''k''))))) \<noteq> None"
  by code_simp

theorem DeleteSession_wipes_witness:
  "let m' = snd (DeleteSession demo_store demo_scope ''s'' 9); k = sessionKey (resolve demo_store demo_scope) ''s'' in
    mget (messages m') k = None \<and> mget (sessionTitles m') k = None"
  using DeleteSession_wipes [OF demo_settled demo_wf demo_agent(1), of "''s''" 9] by (simp add: Let_def)

section \<open>Harness sessions\<close>

theorem selectHarnessIdentity_safe_witness:
  "let row' = projr (selectHarnessIdentity demo_harness demo_identity 20) in
    hs_AgentUID row' = ''u'' \<and> hs_TaskID row' \<in> {''t'', legacyTask demo_identity}"
proof -
  have r: "selectHarnessIdentity demo_harness demo_identity 20 = Inr (projr (selectHarnessIdentity demo_harness demo_identity 20))"
    and i: "hid_AgentUID demo_identity = ''u''" "hid_TaskID demo_identity = ''t''"
    by code_simp+
  show ?thesis using selectHarnessIdentity_safe [OF r] unfolding Let_def i by blast
qed

theorem NextHarnessTurn_next_epoch_witness:
  "hs_Turns (projr (fst (NextHarnessTurn demo_store demo_scope ''s'' 20 demo_identity))) = 4"
proof -
  have r: "NextHarnessTurn demo_store demo_scope ''s'' 20 demo_identity =
      (Inr (projr (fst (NextHarnessTurn demo_store demo_scope ''s'' 20 demo_identity))),
       snd (NextHarnessTurn demo_store demo_scope ''s'' 20 demo_identity))"
    and o: "harness_row demo_store demo_scope ''s'' = Some demo_harness"
    and u: "hs_AgentUID demo_harness = hid_AgentUID demo_identity" and t: "hs_Turns demo_harness = 3"
    by code_simp+
  show ?thesis using NextHarnessTurn_next_epoch [OF demo_settled r o u] unfolding t by simp
qed

theorem PutHarnessSession_monotone_witness:
  "let h = demo_harness\<lparr>hs_ObservedEpoch := 1, hs_HarnessSessionID := ''late''\<rparr> in
   \<exists>new. mget (harness (snd (PutHarnessSession demo_store demo_scope h))) (sessionKey (resolve demo_store demo_scope) ''s'') =
     Some new \<and> hs_HarnessSessionID new = ''n''"
proof -
  let ?h = "demo_harness\<lparr>hs_ObservedEpoch := 1, hs_HarnessSessionID := ''late''\<rparr>"
  have r: "PutHarnessSession demo_store demo_scope ?h = (Inr (), snd (PutHarnessSession demo_store demo_scope ?h))"
    "harness_row demo_store demo_scope (hs_SessionID ?h) = Some demo_harness"
    by code_simp+
  show ?thesis using PutHarnessSession_monotone [OF demo_settled r] by (auto simp: demo_harness_def)
qed

theorem deleted_session_stays_deleted_witness:
  "\<exists>row. mget (harness (snd (PutHarnessSession (snd (DeleteSession demo_store demo_scope ''s'' 30)) demo_scope demo_harness)))
      (sessionKey (resolve demo_store demo_scope) ''s'') = Some row \<and> hs_HarnessSessionID row = []"
proof -
  have i: "hs_SessionID demo_harness = ''s''" by code_simp
  have r: "harness_row demo_store demo_scope (hs_SessionID demo_harness) = Some demo_harness"
    "hs_ObservedEpoch demo_harness \<le> hs_Turns demo_harness"
    "PutHarnessSession (snd (DeleteSession demo_store demo_scope (hs_SessionID demo_harness) 30)) demo_scope demo_harness =
      (Inr (), snd (PutHarnessSession (snd (DeleteSession demo_store demo_scope (hs_SessionID demo_harness) 30))
        demo_scope demo_harness))"
    by code_simp+
  show ?thesis
    using deleted_session_stays_deleted [OF demo_settled demo_good(1) demo_agent(1) r] unfolding i by blast
qed

definition demo_mcp :: HarnessMCPSession where
  "demo_mcp = \<lparr>mcp_TokenHash = ''h'', mcp_Scope = zero_Scope, mcp_ClusterID = [], mcp_AgentName = ''a'',
     mcp_AgentUID = ''u'', mcp_RunID = ''r'', mcp_Interactive = False, mcp_ExpiresAt = 50, mcp_CreatedAt = 10\<rparr>"

theorem MCPSession_lifetime_witness:
  "let m' = snd (PutHarnessMCPSession demo_store demo_scope demo_mcp) in
    GetHarnessMCPSession m' ''h'' 49 = Some (demo_mcp\<lparr>mcp_Scope := resolve demo_store demo_scope\<rparr>)"
proof -
  have p: "PutHarnessMCPSession demo_store demo_scope demo_mcp =
    (Inr (), snd (PutHarnessMCPSession demo_store demo_scope demo_mcp))" by code_simp
  show ?thesis using MCPSession_lifetime [OF demo_settled demo_wf p, of 49]
    by (simp add: demo_mcp_def Let_def)
qed

section \<open>Records\<close>

theorem ResolveInboxItem_once_witness:
  "let pending = \<lparr>res_PendingOnly = True, res_QuestionPayload = None\<rparr>;
     m' = snd (ResolveInboxItem demo_store demo_scope ''i'' InboxStateApproved ''yes'' 5 pending) in
    ResolveInboxItem m' demo_scope ''i'' InboxStateDenied ''no'' 6 pending = (Inl ErrInboxAlreadyResolved, m')"
proof -
  let ?p = "\<lparr>res_PendingOnly = True, res_QuestionPayload = None\<rparr> :: InboxResolution"
  let ?op = "ResolveInboxItem demo_store demo_scope ''i'' InboxStateApproved ''yes'' 5 ?p"
  have r: "?op = (Inr (projr (fst ?op)), snd ?op)" "InboxStateApproved \<noteq> InboxStatePending" "res_PendingOnly ?p"
    by code_simp+
  show ?thesis
    using ResolveInboxItem_once [OF demo_settled demo_good(1) r, of InboxStateDenied "''no''" 6]
    by (simp add: Let_def)
qed

theorem AddUsage_accumulates_witness:
  "let op = AddUsage demo_store demo_scope ''a'' 1 2 3 7 10 in
    fst (GetUsage (snd op) demo_scope ''a'' 9 10) = fst op"
proof -
  let ?op = "AddUsage demo_store demo_scope ''a'' 1 2 3 7 10"
  have r: "?op = (Inr (projr (fst ?op)), snd ?op)"
    by (simp add: AddUsage_def scoped_settled locked_settled Let_def resolve_resolve [OF demo_settled])
  have w: "windowStart 9 10 = windowStart 7 10" by code_simp
  have "fst ?op = Inr (projr (fst ?op))" using r by (metis fst_conv)
  then show ?thesis
    using AddUsage_accumulates [OF demo_settled demo_good(1) r w] unfolding Let_def by metis
qed

theorem RecordWebhookDelivery_retains_newest_witness:
  "let kept = mgetd [] (deliveries (snd (RecordWebhookDelivery demo_store demo_scope (demo_delivery ''d'') 2 9)))
     (deliveryKey (resolve demo_store demo_scope) ''v'') in length kept \<le> 2 \<and> sorted (map delivery_stamp kept)"
proof -
  let ?op = "RecordWebhookDelivery demo_store demo_scope (demo_delivery ''d'') 2 9"
  have r: "?op = (Inr (), snd ?op)" "0 < (2 :: int)" by code_simp+
  have u: "wd_WebhookUID (demo_delivery ''d'') = ''v''" by (simp add: demo_delivery_def)
  show ?thesis
    using RecordWebhookDelivery_retains_newest [OF demo_settled r, unfolded u] by (auto simp: Let_def)
qed

section \<open>Artifacts and divergences\<close>

theorem artifact_quota_invariant_witness:
  "length (owned_artifacts demo_scope ''z'' (agentArtifacts NewMemoryStore)) \<le> MaxAgentArtifactsPerOwner"
proof -
  have "plain_scope demo_scope" by code_simp
  then show ?thesis using artifact_quota_invariant [OF reachable.empty] by blast
qed

theorem artifact_immutable_witness:
  "mget (agentArtifacts (apply_request demo_lib (RDeleteSession ''s'' 9) demo_scope demo_store)) ''unmapped|c|a|y'' =
    Some demo_artifact"
proof -
  have a: "mget (agentArtifacts demo_store) ''unmapped|c|a|y'' = Some demo_artifact" by code_simp
  show ?thesis
    using artifact_immutable [OF demo_settled demo_wf a, of demo_lib "RDeleteSession ''s'' 9" demo_scope] by simp
qed

theorem DeleteRunData_crosses_tenants_witness:
  "fst (ListToolCalls demo_store other_scope ''r'') = Inr [demo_call] \<and>
   fst (ListToolCalls (snd (DeleteRunData demo_store demo_scope ''r'')) other_scope ''r'') = Inr []"
proof -
  have b: "\<not> blank ''r''" "fst (ListToolCalls demo_store other_scope ''r'') = Inr [demo_call]" by code_simp+
  show ?thesis
    using DeleteRunData_crosses_tenants [OF demo_settled demo_good(1) demo_agent(1) b(1) demo_agent(3)] b(2) by simp
qed

theorem SaveTenantRef_orphans_artifacts_witness:
  "fst (GetAgentArtifact demo_store cluster_scope ''u'' ''z'' ''y'') = Inr (Some demo_artifact) \<and>
   fst (GetAgentArtifact mapped_store cluster_scope ''u'' ''z'' ''y'') = Inr None"
proof -
  have v: "validateTenantRef ''c'' demo_ref = None" "plain (ref_OrgUUID demo_ref)"
    "plain (ref_WorkspaceUUID demo_ref)" "plain ''c''" "mget (tenants demo_store) ''c'' = None"
    and g: "fst (GetAgentArtifact demo_store cluster_scope ''u'' ''z'' ''y'') = Inr (Some demo_artifact)"
    and n: "mget (agentArtifacts demo_store) (agentPrefix ((refScope demo_ref)\<lparr>sc_AgentName := ''a''\<rparr>) @ ''y'') = None"
    by code_simp+
  show ?thesis
    using SaveTenantRef_orphans_artifacts [OF demo_settled v cluster_scope_def g n] g
    by (simp add: mapped_store_def)
qed

theorem DeleteAgentData_leaves_fence_witness:
  "let m' = snd (DeleteAgentData demo_store demo_scope ''a'') in
   fst (PutSessionSummary m' demo_scope demo_summary) = Inr () \<and>
   fst (GetSessionSummary (snd (PutSessionSummary m' demo_scope demo_summary)) demo_scope ''s'') = Inr (demo_summary, True)"
proof -
  have d: "''a'' = sc_AgentName (resolve demo_store demo_scope)" "sum_Checkpoint demo_summary = None"
    "\<not> blank (sum_SessionID demo_summary)"
    "fst (GetSessionSummary demo_store demo_scope (sum_SessionID demo_summary)) =
       Inr (zero_SessionSummary\<lparr>sum_SessionID := ''s''\<rparr>, False)"
    "sum_Generation demo_summary = sum_Generation (zero_SessionSummary\<lparr>sum_SessionID := ''s''\<rparr>)"
    and i: "sum_SessionID demo_summary = ''s''"
    by code_simp+
  show ?thesis
    using DeleteAgentData_leaves_fence [OF demo_settled demo_good(1) demo_agent(1) d(1) refl d(2-5)]
    unfolding Let_def i by blast
qed

section \<open>Uploads\<close>

definition demo_draft :: AgentAttachment where
  "demo_draft = demo_upload\<lparr>at_SHA256 := agentAttachmentDigest ''hi''\<rparr>"

lemma demo_draft_valid: "AgentAttachment_validate demo_draft = None"
proof -
  have c: "ValidateAttachmentID ''f'' = None" "NormalizeAttachmentContentType ''text/plain'' = Inr ''text/plain''"
    "\<not> (blank ''a'' \<or> blank ''u'' \<or> blank ''s'' \<or> blank ''z'')"
    by code_simp+
  have n: "TrimSpace ''n.txt'' = ''n.txt''" "filename_ok ''n.txt'' = None" "content_ok ''n.txt'' ''text/plain'' ''hi'' = None"
    by code_simp+
  have "ValidateAttachmentContent ''n.txt'' ''text/plain'' ''hi'' = None"
    by (simp only: ValidateAttachmentContent_def c(2) n sum.case option.case Let_def)
      (simp add: AttachmentKindFor_def AttachmentMaxBytesFor_def AttachmentMaxTextBytes_def
        AttachmentMaxImageBytes_def AttachmentMaxBytes_def n(3))
  then show ?thesis
    unfolding AgentAttachment_validate_def demo_draft_def demo_upload_def using c by simp
qed

theorem CreateAgentAttachment_within_quota_witness:
  "upload_bytes (live_uploads (resolve demo_store demo_scope) 1
     (agentAttachments (snd (CreateAgentAttachment demo_store demo_scope demo_draft)))) = 2"
proof -
  let ?op = "CreateAgentAttachment demo_store demo_scope demo_draft"
  have f: "at_AgentName demo_draft = ''a''" "at_Draft demo_draft" "at_BindingID demo_draft = []"
      "at_CreatedAt demo_draft = 1" "at_SizeBytes demo_draft = 2"
    by (simp_all add: demo_draft_def demo_upload_def)
  have e: "agentAttachments demo_store = []" "attachmentQuota demo_store = DefaultAgentAttachmentQuota"
    by (simp_all add: demo_store_def NewMemoryStore_def)
  have c: "''a'' = sc_AgentName (resolve demo_store demo_scope)" "0 < q_WorkspaceMaxBytes (attachmentQuota demo_store)"
    by code_simp+
  have r: "?op = (Inr (demo_draft, True), snd ?op)"
    by (simp add: CreateAgentAttachment_def scoped_settled locked_settled resolve_resolve [OF demo_settled] f
        c(1) [symmetric] demo_draft_valid checkAgentAttachmentQuotaLocked_def e drop_expired_def mfilter_def mget_def
        live_uploads_def own_drafts_def upload_bytes_def DefaultAgentAttachmentQuota_def i64_def Let_def)
  have b: "upload_bytes (live_uploads (resolve demo_store demo_scope) (at_CreatedAt demo_draft)
      (agentAttachments demo_store)) = 0"
    by (simp add: e live_uploads_def upload_bytes_def)
  show ?thesis
    using CreateAgentAttachment_within_quota [OF demo_settled r c(2), unfolded b] by (simp add: f)
qed

definition bound_upload :: AgentAttachment where
  "bound_upload = demo_upload\<lparr>at_Draft := False, at_ExpiresAt := None, at_BindingID := ''r'',
     at_DraftExpiresAt := Some 100\<rparr>"

definition upload_store :: "AgentAttachment \<Rightarrow> MemoryStore" where
  "upload_store a = demo_store\<lparr>agentAttachments := [(''o|w|a|u|f'', a)]\<rparr>"

theorem CreateAgentChatRun_atomic_witness:
  "let msg = (demo_message ''m8'' ''user'' 8)\<lparr>msg_RunID := ''n''\<rparr>; m = upload_store demo_upload;
     op = CreateAgentChatRun m demo_scope ''u'' msg (demo_run ''n'' RunPhasePending) [Receipt demo_upload] ''z'' 50 50
   in fst op = Inr () \<and> (\<exists>item. mget (agentAttachments (snd op))
        (agentAttachmentScopeKey (resolve m demo_scope) ''u'' (rc_ID (Receipt demo_upload))) = Some item \<and>
      \<not> at_Draft item \<and> at_BindingID item = run_ID (demo_run ''n'' RunPhasePending))"
proof -
  let ?m = "upload_store demo_upload"
  let ?op = "CreateAgentChatRun ?m demo_scope ''u'' ((demo_message ''m8'' ''user'' 8)\<lparr>msg_RunID := ''n''\<rparr>)
    (demo_run ''n'' RunPhasePending) [Receipt demo_upload] ''z'' 50 50"
  have s: "settled ?m" and r: "?op = (Inr (), snd ?op)" and f: "fst ?op = Inr ()" by code_simp+
  show ?thesis
    using CreateAgentChatRun_atomic [OF s r] f unfolding Let_def sum.case by (metis list.set_intros(1))
qed

theorem accepted_upload_immutable_witness:
  "mget (agentAttachments (apply_request demo_lib (RDeleteAgentAttachment ''u'' ''s'' ''z'' ''f'' 500) demo_scope
     (upload_store bound_upload))) ''o|w|a|u|f'' = Some bound_upload"
proof -
  let ?m = "upload_store bound_upload"
  have h: "settled ?m" "wf_store ?m" "mget (agentAttachments ?m) ''o|w|a|u|f'' = Some bound_upload"
    "\<not> at_Draft bound_upload" "\<not> removes_uploads (RDeleteAgentAttachment ''u'' ''s'' ''z'' ''f'' 500)"
    by code_simp+
  show ?thesis by (rule accepted_upload_immutable [OF h])
qed

theorem Reconcile_restores_witness:
  "let a = the (mget (agentAttachments (ReconcileAgentAttachmentBindings
      (upload_store (bound_upload\<lparr>at_BindingID := ''gone''\<rparr>)) 50)) ''o|w|a|u|f'') in
   at_Draft a \<and> \<not> attachmentExpired a 50 \<and> at_Data a = ''hi''"
proof -
  let ?m = "upload_store (bound_upload\<lparr>at_BindingID := ''gone''\<rparr>)"
  let ?t = "agentAttachments (ReconcileAgentAttachmentBindings ?m 50)"
  have w: "wf_store ?m" and g: "mget ?t ''o|w|a|u|f'' = Some (the (mget ?t ''o|w|a|u|f''))"
    and d: "at_Draft (the (mget ?t ''o|w|a|u|f''))"
    and o: "mget (agentAttachments ?m) ''o|w|a|u|f'' = Some (bound_upload\<lparr>at_BindingID := ''gone''\<rparr>)"
    "at_Data (bound_upload\<lparr>at_BindingID := ''gone''\<rparr>) = ''hi''"
    by code_simp+
  show ?thesis using Reconcile_restores [OF w g] d o unfolding Let_def by auto
qed

theorem CreateAgentChatRun_key_not_found_witness:
  "let run = (demo_run ''n'' RunPhasePending)\<lparr>run_IdempotencyKey := ''k''\<rparr>; m = upload_store demo_upload;
     m' = snd (CreateAgentChatRun m demo_scope ''u'' ((demo_message ''m8'' ''user'' 8)\<lparr>msg_RunID := ''n''\<rparr>) run
       [Receipt demo_upload] ''z'' 50 50) in
   fst (GetRun m' demo_scope ''n'') = Inr run \<and> fst (FindRunByIdempotencyKey m' demo_scope ''k'') = Inr None"
proof -
  let ?run = "(demo_run ''n'' RunPhasePending)\<lparr>run_IdempotencyKey := ''k''\<rparr>" and ?m = "upload_store demo_upload"
  let ?op = "CreateAgentChatRun ?m demo_scope ''u'' ((demo_message ''m8'' ''user'' 8)\<lparr>msg_RunID := ''n''\<rparr>) ?run
       [Receipt demo_upload] ''z'' 50 50"
  have h: "settled ?m" "mget (idempotencyPrimary ?m) (rowKey (resolve ?m demo_scope) (run_ID ?run)) = None"
    "?op = (Inr (), snd ?op)" and i: "run_ID ?run = ''n''"
    and f: "fst (FindRunByIdempotencyKey ?m demo_scope ''k'') = Inr None"
    by code_simp+
  show ?thesis
    using CreateAgentChatRun_key_not_found [OF h(1) demo_good(1) h(2,3), of "''k''"] unfolding Let_def i f by blast
qed

end
