(* ===== verification/BoundedKeys.thy ===== *)
theory BoundedKeys
  imports Prelude
begin

text \<open>
  What a client of a bounded map with idle eviction relies on: a value stays under its key with
  the time it was last used, until it has been idle for the whole idle time or the map is full
  and a new key arrives. The token buckets of the rate limiters are a client.

  The bounded least-recently-used map behind the hub's rate limiters
  (\<open>pkg/server/proxy/boundedkeys.go\<close>): a hash map from keys to elements of a doubly linked list
  that is kept in order of use. An element's address is a number, drawn fresh when it is pushed.
\<close>

locale recency_cache =
  fixes get :: "'b \<Rightarrow> string \<Rightarrow> time \<Rightarrow> 'v option \<times> 'b"
    and put :: "'b \<Rightarrow> string \<Rightarrow> 'v \<Rightarrow> time \<Rightarrow> 'b"
    and poke :: "string \<Rightarrow> ('v \<Rightarrow> 'v) \<Rightarrow> 'b \<Rightarrow> 'b"
    and view :: "'b \<Rightarrow> string \<Rightarrow> ('v \<times> time) option"
    and good :: "'b \<Rightarrow> bool"
    and most :: nat and idle :: int
  assumes get_value: "good b \<Longrightarrow> fst (get b k now) = map_option fst (view b k)"
    and get_good: "good b \<Longrightarrow> good (snd (get b k now))"
    and get_view: "good b \<Longrightarrow> view (snd (get b k now)) j =
      (if j = k then map_option (\<lambda>(v, _). (v, now)) (view b k) else view b j)"
    and poke_good: "good b \<Longrightarrow> good (poke k f b)"
    and poke_view: "good b \<Longrightarrow> view (poke k f b) j =
      (if j = k then map_option (\<lambda>(v, t). (f v, t)) (view b k) else view b j)"
    and put_good: "good b \<Longrightarrow> good (put b k v now)"
    and put_stored: "good b \<Longrightarrow> view (put b k v now) k = Some (v, now)"
    and put_kept: "good b \<Longrightarrow> view b k = None \<Longrightarrow> card (dom (view b)) < most \<Longrightarrow> j \<noteq> k \<Longrightarrow>
      view (put b k v now) j = view b j \<or>
      view (put b k v now) j = None \<and> (\<exists>w t. view b j = Some (w, t) \<and> idle \<le> now - t)"
    and bounded: "good b \<Longrightarrow> finite (dom (view b)) \<and> card (dom (view b)) \<le> most"
begin

lemma get_dom: "good b \<Longrightarrow> dom (view (snd (get b k now))) = dom (view b)"
  by (auto simp: get_view dom_def)

lemma poke_dom: "good b \<Longrightarrow> dom (view (poke k f b)) = dom (view b)"
  by (auto simp: poke_view dom_def)

lemma put_dom:
  "good b \<Longrightarrow> view b k = None \<Longrightarrow> card (dom (view b)) < most \<Longrightarrow>
     dom (view (put b k v now)) \<subseteq> insert k (dom (view b))"
proof
  fix j
  assume g: "good b" "view b k = None" "card (dom (view b)) < most" and j: "j \<in> dom (view (put b k v now))"
  show "j \<in> insert k (dom (view b))"
  proof (cases "j = k")
    case False
    from put_kept [OF g this, of v now] j have "view b j \<noteq> None" by (elim disjE) (simp_all add: domIff)
    then show ?thesis by (simp add: domIff)
  qed simp
qed

text \<open>A map whose keys come from a small set never evicts a key that is in use.\<close>

lemma room_for:
  assumes "good b" "view b k = None" "dom (view b) \<subseteq> S" "finite S" "card S \<le> most" "k \<in> S"
  shows "card (dom (view b)) < most"
proof -
  have "k \<notin> dom (view b)" using assms(2) by (simp add: domIff)
  then have "dom (view b) \<subset> S" using assms(3,6) by blast
  then have "card (dom (view b)) < card S" by (rule psubset_card_mono [OF assms(4)])
  then show ?thesis using assms(5) by simp
qed

end

record 'v boundedEntry =
  be_key :: string
  be_val :: 'v
  be_seen :: time

record 'v BoundedKeys =
  bk_max :: int
  bk_idle :: int
  bk_entries :: "nat gomap"
  bk_order :: "(nat \<times> 'v boundedEntry) list"
  bk_lastSweep :: time
  bk_fresh :: nat

definition DefaultMaxLimiterEntries :: int where
  "DefaultMaxLimiterEntries = 10000"

definition NewBoundedKeys :: "int \<Rightarrow> int \<Rightarrow> 'v BoundedKeys" where
  "NewBoundedKeys maxEntries idle =
     \<lparr>bk_max = (if maxEntries \<le> 0 then DefaultMaxLimiterEntries else maxEntries), bk_idle = idle,
       bk_entries = [], bk_order = [], bk_lastSweep = 0, bk_fresh = 0\<rparr>"

section \<open>The linked list\<close>

definition MoveToFront :: "nat \<Rightarrow> (nat \<times> 'e) list \<Rightarrow> (nat \<times> 'e) list" where
  "MoveToFront i xs =
     (case map_of xs i of None \<Rightarrow> xs | Some e \<Rightarrow> (i, e) # filter (\<lambda>(j, _). j \<noteq> i) xs)"

definition set_elem :: "nat \<Rightarrow> ('e \<Rightarrow> 'e) \<Rightarrow> (nat \<times> 'e) list \<Rightarrow> (nat \<times> 'e) list" where
  "set_elem i f xs = map (\<lambda>(j, e). (j, if j = i then f e else e)) xs"

section \<open>Operations\<close>

definition bk_Get :: "'v BoundedKeys \<Rightarrow> string \<Rightarrow> time \<Rightarrow> 'v option \<times> 'v BoundedKeys" where
  "bk_Get b key now =
     (case mget (bk_entries b) key of
        None \<Rightarrow> (None, b)
      | Some el \<Rightarrow>
          (map_option be_val (map_of (bk_order b) el),
           b\<lparr>bk_order := MoveToFront el (set_elem el (be_seen_update (\<lambda>_. now)) (bk_order b))\<rparr>))"

definition evict_back :: "'v BoundedKeys \<Rightarrow> 'v BoundedKeys" where
  "evict_back b =
     (if bk_order b = [] then b
      else b\<lparr>bk_entries := mdel (be_key (snd (last (bk_order b)))) (bk_entries b),
             bk_order := butlast (bk_order b)\<rparr>)"

text \<open>The loop stops at an empty list: the constructor makes the capacity positive, and with a
  capacity that is not the code's loop does not end.\<close>

function make_room :: "'v BoundedKeys \<Rightarrow> 'v BoundedKeys" where
  "make_room b =
     (if bk_order b \<noteq> [] \<and> int (length (bk_order b)) \<ge> bk_max b then make_room (evict_back b) else b)"
  by pat_completeness auto
termination by (relation "measure (\<lambda>b. length (bk_order b))") (auto simp: evict_back_def)

function sweep_loop :: "time \<Rightarrow> 'v BoundedKeys \<Rightarrow> 'v BoundedKeys" where
  "sweep_loop now b =
     (if bk_order b = [] then b
      else if Sub now (be_seen (snd (last (bk_order b)))) < bk_idle b then b
      else sweep_loop now (evict_back b))"
  by pat_completeness auto
termination by (relation "measure (\<lambda>(_, b). length (bk_order b))") (auto simp: evict_back_def)

declare make_room.simps [simp del] sweep_loop.simps [simp del]

definition bk_sweep :: "time \<Rightarrow> 'v BoundedKeys \<Rightarrow> 'v BoundedKeys" where
  "bk_sweep now b =
     (if bk_idle b \<le> 0 \<or> Sub now (bk_lastSweep b) < bk_idle b then b
      else sweep_loop now (b\<lparr>bk_lastSweep := now\<rparr>))"

definition push_front :: "string \<Rightarrow> 'v \<Rightarrow> time \<Rightarrow> 'v BoundedKeys \<Rightarrow> 'v BoundedKeys" where
  "push_front key val now b =
     b\<lparr>bk_order := (bk_fresh b, \<lparr>be_key = key, be_val = val, be_seen = now\<rparr>) # bk_order b,
       bk_entries := mput key (bk_fresh b) (bk_entries b), bk_fresh := Suc (bk_fresh b)\<rparr>"

definition bk_Put :: "'v BoundedKeys \<Rightarrow> string \<Rightarrow> 'v \<Rightarrow> time \<Rightarrow> 'v BoundedKeys" where
  "bk_Put b key val now =
     (case mget (bk_entries b) key of
        Some el \<Rightarrow> b\<lparr>bk_order := MoveToFront el
            (set_elem el (\<lambda>e. e\<lparr>be_val := val, be_seen := now\<rparr>) (bk_order b))\<rparr>
      | None \<Rightarrow> push_front key val now (make_room (bk_sweep now b)))"

definition bk_Len :: "'v BoundedKeys \<Rightarrow> nat" where
  "bk_Len b = length (bk_order b)"

text \<open>A caller that holds a pointer value changes it in place: no reordering, no new time.\<close>

definition bk_poke :: "string \<Rightarrow> ('v \<Rightarrow> 'v) \<Rightarrow> 'v BoundedKeys \<Rightarrow> 'v BoundedKeys" where
  "bk_poke key f b =
     (case mget (bk_entries b) key of None \<Rightarrow> b
      | Some el \<Rightarrow> b\<lparr>bk_order := set_elem el (be_val_update f) (bk_order b)\<rparr>)"

section \<open>The abstract map, in order of use\<close>

definition lru :: "'v BoundedKeys \<Rightarrow> 'v boundedEntry list" where
  "lru b = map snd (bk_order b)"

definition lru_touch :: "string \<Rightarrow> ('v boundedEntry \<Rightarrow> 'v boundedEntry) \<Rightarrow> 'v boundedEntry list \<Rightarrow> 'v boundedEntry list" where
  "lru_touch key f es =
     (case find (\<lambda>e. be_key e = key) es of None \<Rightarrow> es
      | Some e \<Rightarrow> f e # filter (\<lambda>e. be_key e \<noteq> key) es)"

text \<open>What an insertion keeps of the entries, most recent first: nothing idle at the old end, and
  room for one more.\<close>

definition lru_room :: "int \<Rightarrow> 'e list \<Rightarrow> 'e list" where
  "lru_room most es = take (nat (most - 1)) es"

definition drop_idle :: "int \<Rightarrow> time \<Rightarrow> 'v boundedEntry list \<Rightarrow> 'v boundedEntry list" where
  "drop_idle idle now es = rev (dropWhile (\<lambda>e. idle \<le> Sub now (be_seen e)) (rev es))"

definition lru_insert :: "bool \<Rightarrow> int \<Rightarrow> int \<Rightarrow> 'v boundedEntry \<Rightarrow> 'v boundedEntry list \<Rightarrow> 'v boundedEntry list" where
  "lru_insert sweeps most idle e es =
     e # lru_room most (if sweeps then drop_idle idle (be_seen e) es else es)"

text \<open>The map and the list agree.\<close>

definition bk_wf :: "'v BoundedKeys \<Rightarrow> bool" where
  "bk_wf b \<longleftrightarrow> 0 < bk_max b \<and> int (length (bk_order b)) \<le> bk_max b \<and>
     distinct (map fst (bk_order b)) \<and> distinct (map (be_key \<circ> snd) (bk_order b)) \<and>
     (\<forall>(i, e) \<in> set (bk_order b). i < bk_fresh b) \<and>
     (\<forall>k i. mget (bk_entries b) k = Some i \<longleftrightarrow> (\<exists>e. (i, e) \<in> set (bk_order b) \<and> be_key e = k))"

lemma bk_wfD:
  assumes "bk_wf b" "mget (bk_entries b) k = Some i"
  obtains e where "map_of (bk_order b) i = Some e" "be_key e = k" "(i, e) \<in> set (bk_order b)"
  using assms by (auto simp: bk_wf_def intro: map_of_is_SomeI)

lemma distinct_keys_inj:
  "bk_wf b \<Longrightarrow> (i, e) \<in> set (bk_order b) \<Longrightarrow> (j, e') \<in> set (bk_order b) \<Longrightarrow>
     be_key e = be_key e' \<longleftrightarrow> i = j"
proof -
  assume w: "bk_wf b" and m: "(i, e) \<in> set (bk_order b)" "(j, e') \<in> set (bk_order b)"
  have "inj_on fst (set (bk_order b))" "inj_on (be_key \<circ> snd) (set (bk_order b))"
    using w by (simp_all add: bk_wf_def distinct_map)
  from inj_onD [OF this(1) _ m] inj_onD [OF this(2) _ m] show ?thesis by auto
qed

lemma mget_mdel: "mget (mdel k t) l = (if l = k then None else mget t l)"
  by (simp add: mget_def mdel_def delete_conv')

lemma fresh_props [simp]:
  "bk_max (evict_back b) = bk_max b" "bk_idle (evict_back b) = bk_idle b"
  "bk_lastSweep (evict_back b) = bk_lastSweep b" "bk_fresh (evict_back b) = bk_fresh b"
  by (simp_all add: evict_back_def)

lemma lru_evict: "lru (evict_back b) = butlast (lru b)"
  by (simp add: lru_def evict_back_def map_butlast)

lemma evict_wf: "bk_wf b \<Longrightarrow> bk_wf (evict_back b)"
proof (cases "bk_order b = []")
  case False
  assume w: "bk_wf b"
  obtain xs i e where o: "bk_order b = xs @ [(i, e)]" using False by (metis rev_exhaust surj_pair)
  have b': "evict_back b = b\<lparr>bk_entries := mdel (be_key e) (bk_entries b), bk_order := xs\<rparr>"
    by (simp add: evict_back_def o)
  have agree: "mget (bk_entries b) k = Some j \<longleftrightarrow> (\<exists>e'. (j, e') \<in> set (xs @ [(i, e)]) \<and> be_key e' = k)" for k j
    using w unfolding bk_wf_def o by blast
  have key: "be_key e' = be_key e \<longleftrightarrow> j = i" if "(j, e') \<in> set xs" for j e'
    using distinct_keys_inj [OF w, of j e' i e] that by (simp add: o)
  have out: "(i, e') \<notin> set xs" for e'
  proof -
    have "i \<notin> fst ` set xs" using w by (simp add: bk_wf_def o)
    then show ?thesis by force
  qed
  have "mget (mdel (be_key e) (bk_entries b)) k = Some j \<longleftrightarrow> (\<exists>e'. (j, e') \<in> set xs \<and> be_key e' = k)" for k j
  proof (cases "k = be_key e")
    case True
    then show ?thesis using key out by (auto simp: mget_mdel)
  next
    case False
    then show ?thesis using agree [of k j] by (auto simp: mget_mdel)
  qed
  then show ?thesis using w unfolding b' by (auto simp: bk_wf_def o)
qed (simp add: evict_back_def)

lemma rev_dropWhile_last:
  "xs \<noteq> [] \<Longrightarrow> P (last xs) \<Longrightarrow> rev (dropWhile P (rev xs)) = rev (dropWhile P (rev (butlast xs)))"
  by (cases xs rule: rev_cases) simp_all

lemma take_butlast_room: "length xs \<ge> Suc n \<Longrightarrow> take n (butlast xs) = take n xs"
  by (cases xs rule: rev_cases) auto

lemma make_room_props:
  assumes "bk_wf b"
  shows "bk_wf (make_room b) \<and> lru (make_room b) = lru_room (bk_max b) (lru b) \<and>
    bk_idle (make_room b) = bk_idle b \<and> bk_max (make_room b) = bk_max b \<and>
    bk_lastSweep (make_room b) = bk_lastSweep b"
  using assms
proof (induction b rule: make_room.induct)
  case (1 b)
  have len: "length (lru b) = length (bk_order b)" by (simp add: lru_def)
  show ?case
  proof (cases "bk_order b \<noteq> [] \<and> int (length (bk_order b)) \<ge> bk_max b")
    case True
    have "nat (bk_max b - 1) < length (lru b)" using True "1.prems" unfolding len bk_wf_def by (cases "bk_order b") auto
    then have "take (nat (bk_max b - 1)) (butlast (lru b)) = take (nat (bk_max b - 1)) (lru b)"
      by (intro take_butlast_room) simp
    then show ?thesis
      using True "1.IH" [OF True evict_wf [OF "1.prems"]]
      by (simp add: make_room.simps [of b] lru_evict lru_room_def)
  next
    case False
    then have "length (lru b) \<le> nat (bk_max b - 1)" using "1.prems" by (auto simp: len bk_wf_def)
    then show ?thesis using False "1.prems" by (subst (1 2 3 4 5) make_room.simps) (auto simp: lru_room_def)
  qed
qed

lemma sweep_loop_props:
  assumes "bk_wf b"
  shows "bk_wf (sweep_loop now b) \<and> lru (sweep_loop now b) = drop_idle (bk_idle b) now (lru b) \<and>
    bk_idle (sweep_loop now b) = bk_idle b \<and> bk_max (sweep_loop now b) = bk_max b \<and>
    bk_lastSweep (sweep_loop now b) = bk_lastSweep b"
  using assms
proof (induction now b rule: sweep_loop.induct)
  case (1 now b)
  have last: "bk_order b \<noteq> [] \<Longrightarrow> last (lru b) = snd (last (bk_order b)) \<and> lru b \<noteq> []"
    by (simp add: lru_def last_map)
  consider "bk_order b = []" | "bk_order b \<noteq> []" "Sub now (be_seen (snd (last (bk_order b)))) < bk_idle b"
    | "bk_order b \<noteq> []" "\<not> Sub now (be_seen (snd (last (bk_order b)))) < bk_idle b" by blast
  then show ?case
  proof cases
    case 1
    then show ?thesis using "1.prems" by (simp add: sweep_loop.simps [of now b] lru_def drop_idle_def)
  next
    case 2
    obtain es e where o: "lru b = es @ [e]" using last [OF 2(1)] by (metis rev_exhaust)
    have "drop_idle (bk_idle b) now (lru b) = lru b"
      using last [OF 2(1)] 2(2) by (simp add: drop_idle_def o)
    then show ?thesis using 2 "1.prems" by (simp add: sweep_loop.simps [of now b])
  next
    case 3
    have "drop_idle (bk_idle b) now (butlast (lru b)) = drop_idle (bk_idle b) now (lru b)"
      using last 3 by (simp add: drop_idle_def rev_dropWhile_last)
    then show ?thesis
      using 3 "1.IH" [OF 3 evict_wf [OF "1.prems"]] by (simp add: sweep_loop.simps [of now b] lru_evict)
  qed
qed

definition sweeps :: "time \<Rightarrow> 'v BoundedKeys \<Rightarrow> bool" where
  "sweeps now b \<longleftrightarrow> 0 < bk_idle b \<and> bk_idle b \<le> Sub now (bk_lastSweep b)"

lemma sweep_props:
  assumes "bk_wf b"
  shows "bk_wf (bk_sweep now b) \<and>
    lru (bk_sweep now b) = (if sweeps now b then drop_idle (bk_idle b) now (lru b) else lru b) \<and>
    bk_idle (bk_sweep now b) = bk_idle b \<and> bk_max (bk_sweep now b) = bk_max b \<and>
    bk_lastSweep (bk_sweep now b) = (if sweeps now b then now else bk_lastSweep b)"
proof -
  have "bk_wf (b\<lparr>bk_lastSweep := now\<rparr>)" using assms by (simp add: bk_wf_def)
  then show ?thesis
    using sweep_loop_props [of "b\<lparr>bk_lastSweep := now\<rparr>" now] assms
    by (auto simp: bk_sweep_def sweeps_def lru_def)
qed

section \<open>Refinement\<close>

lemma find_unique_key:
  "distinct (map be_key es) \<Longrightarrow> e \<in> set es \<Longrightarrow> find (\<lambda>x. be_key x = be_key e) es = Some e"
  by (induction es) auto

lemma lru_find:
  assumes "bk_wf b" "mget (bk_entries b) key = Some el" "map_of (bk_order b) el = Some e"
  shows "find (\<lambda>e. be_key e = key) (lru b) = Some e"
proof -
  obtain e' where "map_of (bk_order b) el = Some e'" "be_key e' = key" "(el, e') \<in> set (bk_order b)"
    by (rule bk_wfD [OF assms(1,2)])
  then have "(el, e) \<in> set (bk_order b)" "be_key e = key" using assms(3) by simp_all
  moreover have "distinct (map be_key (lru b))" using assms(1) by (simp add: bk_wf_def lru_def)
  ultimately show ?thesis using find_unique_key [of "lru b" e] by (force simp: lru_def)
qed

lemma bk_agree:
  "bk_wf b \<Longrightarrow> mget (bk_entries b) k = Some i \<longleftrightarrow> (\<exists>e. (i, e) \<in> set (bk_order b) \<and> be_key e = k)"
  by (simp add: bk_wf_def)

lemma bk_no_key:
  "bk_wf b \<Longrightarrow> mget (bk_entries b) k = None \<Longrightarrow> k \<notin> be_key ` set (lru b)"
proof
  assume w: "bk_wf b" "mget (bk_entries b) k = None" and "k \<in> be_key ` set (lru b)"
  then obtain i e where "(i, e) \<in> set (bk_order b)" "be_key e = k" by (auto simp: lru_def)
  then have "mget (bk_entries b) k = Some i" using bk_agree [OF w(1)] by blast
  then show False using w(2) by simp
qed

lemma lru_find_none: "bk_wf b \<Longrightarrow> mget (bk_entries b) key = None \<Longrightarrow> find (\<lambda>e. be_key e = key) (lru b) = None"
  using bk_no_key [of b key] by (force simp: find_None_iff)

lemma set_elem_simps [simp]:
  "set_elem i f [] = []" "set_elem i f ((j, e) # xs) = (j, if j = i then f e else e) # set_elem i f xs"
  by (simp_all add: set_elem_def)

lemma map_of_set_elem: "map_of (set_elem i f xs) i = map_option f (map_of xs i)"
  by (induction xs) auto

lemma filter_set_elem: "filter (\<lambda>(j, _). j \<noteq> i) (set_elem i f xs) = filter (\<lambda>(j, _). j \<noteq> i) xs"
  by (induction xs) auto

lemma MoveToFront_set_elem:
  "map_of xs i = Some e \<Longrightarrow>
     MoveToFront i (set_elem i f xs) = (i, f e) # filter (\<lambda>(j, _). j \<noteq> i) xs"
  by (simp add: MoveToFront_def map_of_set_elem filter_set_elem)

lemma touch_props:
  assumes w: "bk_wf b" and m: "mget (bk_entries b) key = Some el" and f: "\<And>e. be_key (f e) = be_key e"
  defines "b' \<equiv> b\<lparr>bk_order := MoveToFront el (set_elem el f (bk_order b))\<rparr>"
  shows "bk_wf b' \<and> lru b' = lru_touch key f (lru b)"
proof -
  obtain e where e: "map_of (bk_order b) el = Some e" "be_key e = key" "(el, e) \<in> set (bk_order b)"
    by (rule bk_wfD [OF w m])
  let ?rest = "filter (\<lambda>(j, _). j \<noteq> el) (bk_order b)"
  have o: "bk_order b' = (el, f e) # ?rest" by (simp add: b'_def MoveToFront_set_elem [OF e(1)])
  have iff: "be_key e' = key \<longleftrightarrow> j = el" if "(j, e') \<in> set (bk_order b)" for j e'
    using distinct_keys_inj [OF w that e(3)] e(2) by simp
  have "?rest = filter ((\<lambda>e. be_key e \<noteq> key) \<circ> snd) (bk_order b)"
  proof (rule filter_cong [OF refl])
    fix x assume x: "x \<in> set (bk_order b)"
    obtain j e' where "x = (j, e')" by (cases x)
    then show "(case x of (j, _) \<Rightarrow> j \<noteq> el) \<longleftrightarrow> ((\<lambda>e. be_key e \<noteq> key) \<circ> snd) x"
      using iff [of j e'] x by simp
  qed
  then have "map snd ?rest = filter (\<lambda>e. be_key e \<noteq> key) (lru b)" by (simp only: lru_def filter_map)
  then have l: "lru b' = lru_touch key f (lru b)"
    using lru_find [OF w m e(1)] by (simp add: lru_touch_def lru_def o)
  have len: "length (bk_order b') \<le> length (bk_order b)"
  proof -
    have "length (filter (\<lambda>(j, _). j \<noteq> el) (bk_order b)) < length (bk_order b)"
      using e(3) by (intro length_filter_less) auto
    then show ?thesis by (simp add: o)
  qed
  have elems: "(\<exists>x. (j, x) \<in> set (bk_order b') \<and> be_key x = k) \<longleftrightarrow> (\<exists>x. (j, x) \<in> set (bk_order b) \<and> be_key x = k)" for j k
  proof (cases "j = el")
    case True
    then show ?thesis using e f iff [of el] by (auto simp: o)
  next
    case False
    then show ?thesis by (auto simp: o)
  qed
  have "be_key (f e) \<notin> (be_key \<circ> snd) ` set ?rest"
  proof
    assume "be_key (f e) \<in> (be_key \<circ> snd) ` set ?rest"
    then obtain j x where "(j, x) \<in> set (bk_order b)" "j \<noteq> el" "be_key x = key" using f e(2) by auto
    then show False using iff by blast
  qed
  then have "distinct (map fst (bk_order b'))" "distinct (map (be_key \<circ> snd) (bk_order b'))"
    using w by (auto simp: o bk_wf_def distinct_map_filter)
  moreover have "\<forall>(i, e) \<in> set (bk_order b'). i < bk_fresh b" using w e(3) by (auto simp: o bk_wf_def)
  moreover have "mget (bk_entries b) k = Some i \<longleftrightarrow> (\<exists>e. (i, e) \<in> set (bk_order b') \<and> be_key e = k)" for k i
    using w elems unfolding bk_wf_def by blast
  ultimately have "bk_wf b'" using w len unfolding bk_wf_def b'_def by simp
  then show ?thesis using l by simp
qed

lemma push_props:
  assumes w: "bk_wf b" and "mget (bk_entries b) key = None" and "int (length (bk_order b)) < bk_max b"
  shows "bk_wf (push_front key val now b) \<and>
    lru (push_front key val now b) = \<lparr>be_key = key, be_val = val, be_seen = now\<rparr> # lru b"
proof -
  have agree: "mget (bk_entries b) k = Some i \<longleftrightarrow> (\<exists>e. (i, e) \<in> set (bk_order b) \<and> be_key e = k)" for k i
    using w unfolding bk_wf_def by blast
  have new: "be_key e \<noteq> key" "i \<noteq> bk_fresh b" if "(i, e) \<in> set (bk_order b)" for i e
    using agree [of key i] assms(2) w that unfolding bk_wf_def by auto
  let ?b = "push_front key val now b"
  have "mget (bk_entries ?b) k = Some i \<longleftrightarrow> (\<exists>e. (i, e) \<in> set (bk_order ?b) \<and> be_key e = k)" for k i
  proof (cases "k = key")
    case True
    then show ?thesis using new by (auto simp: push_front_def)
  next
    case False
    then show ?thesis using agree [of k i] by (auto simp: push_front_def)
  qed
  moreover have "bk_fresh b \<notin> fst ` set (bk_order b)" "key \<notin> (be_key \<circ> snd) ` set (bk_order b)"
    using new by force+
  moreover have "\<forall>(i, e) \<in> set (bk_order ?b). i < bk_fresh ?b"
    using w by (auto simp: bk_wf_def push_front_def)
  ultimately have "bk_wf ?b" using w assms(3) by (simp add: bk_wf_def push_front_def)
  then show ?thesis by (simp add: push_front_def lru_def)
qed

lemma room_length: "bk_wf b \<Longrightarrow> int (length (bk_order (make_room b))) < bk_max b"
proof -
  assume w: "bk_wf b"
  have "length (bk_order (make_room b)) = length (lru (make_room b))" by (simp add: lru_def)
  also have "\<dots> \<le> nat (bk_max b - 1)" using make_room_props [OF w] by (simp add: lru_room_def)
  finally show ?thesis using w by (auto simp: bk_wf_def)
qed

lemma bk_entries_none: "bk_wf b \<Longrightarrow> mget (bk_entries b) key = None \<longleftrightarrow> key \<notin> be_key ` set (lru b)"
proof -
  assume w: "bk_wf b"
  show ?thesis
  proof (cases "mget (bk_entries b) key")
    case None
    then show ?thesis using bk_no_key [OF w None] by simp
  next
    case (Some i)
    then show ?thesis using bk_agree [OF w, of key i] by (force simp: lru_def)
  qed
qed

lemma set_drop_idle: "set (drop_idle idle now es) \<subseteq> set es"
  by (simp add: drop_idle_def) (metis set_dropWhileD subsetI set_rev)

lemma Put_props:
  assumes w: "bk_wf b"
  shows "bk_wf (bk_Put b key val now) \<and>
    lru (bk_Put b key val now) =
      (if key \<in> be_key ` set (lru b) then lru_touch key (\<lambda>e. e\<lparr>be_val := val, be_seen := now\<rparr>) (lru b)
       else lru_insert (sweeps now b) (bk_max b) (bk_idle b) \<lparr>be_key = key, be_val = val, be_seen = now\<rparr> (lru b))"
proof (cases "mget (bk_entries b) key")
  case (Some el)
  then have "key \<in> be_key ` set (lru b)" using bk_entries_none [OF w, of key] by auto
  then show ?thesis
    using touch_props [OF w Some, of "\<lambda>e. e\<lparr>be_val := val, be_seen := now\<rparr>"] Some by (simp add: bk_Put_def)
next
  case None
  let ?s = "bk_sweep now b" and ?r = "make_room (bk_sweep now b)"
  note sw = sweep_props [OF w, of now]
  then have mr: "bk_wf ?r" "lru ?r = lru_room (bk_max b) (lru ?s)" "bk_max ?r = bk_max b"
    using make_room_props [of ?s] by simp_all
  have out: "key \<notin> be_key ` set (lru b)" using None bk_entries_none [OF w] by simp
  moreover have "set (lru ?r) \<subseteq> set (lru b)"
  proof -
    have "set (lru ?s) \<subseteq> set (lru b)" using sw set_drop_idle [of "bk_idle b" now "lru b"] by simp
    then show ?thesis using set_take_subset by (auto simp: mr(2) lru_room_def dest: in_set_takeD)
  qed
  ultimately have "mget (bk_entries ?r) key = None" using bk_entries_none [OF mr(1)] by blast
  moreover have "int (length (bk_order ?r)) < bk_max ?r" using room_length [of ?s] sw mr(3) by simp
  ultimately show ?thesis
    using push_props [OF mr(1), of key val now] None out sw mr(2)
    by (simp add: bk_Put_def lru_insert_def)
qed

lemma Get_props:
  assumes w: "bk_wf b"
  shows "bk_wf (snd (bk_Get b key now)) \<and>
    fst (bk_Get b key now) = map_option be_val (find (\<lambda>e. be_key e = key) (lru b)) \<and>
    lru (snd (bk_Get b key now)) = lru_touch key (be_seen_update (\<lambda>_. now)) (lru b)"
proof (cases "mget (bk_entries b) key")
  case None
  then show ?thesis using w lru_find_none [OF w None] by (simp add: bk_Get_def lru_touch_def)
next
  case (Some el)
  obtain e where "map_of (bk_order b) el = Some e" by (rule bk_wfD [OF w Some])
  then show ?thesis
    using touch_props [OF w Some, of "be_seen_update (\<lambda>_. now)"] lru_find [OF w Some] Some
    by (simp add: bk_Get_def)
qed

section \<open>The contract\<close>

definition bk_view :: "'v BoundedKeys \<Rightarrow> string \<Rightarrow> ('v \<times> time) option" where
  "bk_view b key = map_option (\<lambda>e. (be_val e, be_seen e)) (find (\<lambda>e. be_key e = key) (lru b))"

definition bk_good :: "nat \<Rightarrow> int \<Rightarrow> 'v BoundedKeys \<Rightarrow> bool" where
  "bk_good most idle b \<longleftrightarrow> bk_wf b \<and> bk_max b = int most \<and> bk_idle b = idle"

lemma find_filter_other:
  "j \<noteq> k \<Longrightarrow> find (\<lambda>e. be_key e = j) (filter (\<lambda>e. be_key e \<noteq> k) es) = find (\<lambda>e. be_key e = j) es"
  by (induction es) auto

lemma find_touch:
  assumes "\<And>e. be_key (f e) = be_key e"
  shows "find (\<lambda>e. be_key e = j) (lru_touch k f es) =
    (if j = k then map_option f (find (\<lambda>e. be_key e = k) es) else find (\<lambda>e. be_key e = j) es)"
proof (cases "find (\<lambda>e. be_key e = k) es")
  case None
  then show ?thesis by (simp add: lru_touch_def)
next
  case (Some e)
  then have "be_key e = k" by (auto simp: find_Some_iff)
  then show ?thesis using Some assms find_filter_other [of j k es] by (simp add: lru_touch_def)
qed

lemma dom_view: "dom (bk_view b) = be_key ` set (lru b)"
proof -
  have "find (\<lambda>e. be_key e = k) (lru b) = None \<longleftrightarrow> k \<notin> be_key ` set (lru b)" for k
    by (auto simp: find_None_iff)
  then show ?thesis by (auto simp: bk_view_def dom_def)
qed

lemma card_view: "bk_wf b \<Longrightarrow> card (dom (bk_view b)) = length (bk_order b)"
proof -
  assume "bk_wf b"
  then have "distinct (map be_key (lru b))" by (simp add: bk_wf_def lru_def)
  then have "card (set (map be_key (lru b))) = length (map be_key (lru b))" by (rule distinct_card)
  moreover have "length (map be_key (lru b)) = length (bk_order b)" by (simp add: lru_def)
  ultimately show ?thesis by (simp only: dom_view set_map)
qed

text \<open>The entries a sweep drops are idle, and an insertion with room drops nothing else.\<close>

lemma find_drop_idle:
  assumes "distinct (map be_key es)"
  shows "find (\<lambda>e. be_key e = j) (drop_idle idle now es) = find (\<lambda>e. be_key e = j) es \<or>
    find (\<lambda>e. be_key e = j) (drop_idle idle now es) = None \<and>
      (\<exists>e. find (\<lambda>e. be_key e = j) es = Some e \<and> idle \<le> Sub now (be_seen e))"
  using assms
proof (induction es rule: rev_induct)
  case Nil
  then show ?case by (simp add: drop_idle_def)
next
  case (snoc e es)
  have app: "find P (es @ [e]) = (case find P es of None \<Rightarrow> if P e then Some e else None | Some x \<Rightarrow> Some x)" for P
    by (induction es) auto
  show ?case
  proof (cases "idle \<le> Sub now (be_seen e)")
    case True
    then have d: "drop_idle idle now (es @ [e]) = drop_idle idle now es" by (simp add: drop_idle_def)
    show ?thesis
    proof (cases "be_key e = j")
      case True
      then have "j \<notin> be_key ` set es" using snoc.prems by auto
      then have "find (\<lambda>e. be_key e = j) es = None" unfolding find_None_iff by blast
      moreover have "find (\<lambda>e. be_key e = j) (drop_idle idle now es) = None"
        using snoc.IH snoc.prems calculation by auto
      ultimately show ?thesis using True \<open>idle \<le> Sub now (be_seen e)\<close> by (simp add: d app)
    next
      case False
      then show ?thesis using snoc.IH snoc.prems by (auto simp: d app split: option.split)
    qed
  next
    case False
    then show ?thesis by (simp add: drop_idle_def)
  qed
qed

lemma Sub_idle: "0 < idle \<Longrightarrow> idle \<le> Sub now t \<Longrightarrow> idle \<le> now - t"
  by (auto simp: Sub_def)

lemma poke_props:
  assumes w: "bk_wf b"
  shows "bk_wf (bk_poke key f b) \<and>
    lru (bk_poke key f b) = map (\<lambda>e. if be_key e = key then be_val_update f e else e) (lru b)"
proof (cases "mget (bk_entries b) key")
  case None
  then have "map (\<lambda>e. if be_key e = key then be_val_update f e else e) (lru b) = lru b"
    using bk_no_key [OF w None] by (intro map_idI) auto
  then show ?thesis using w None by (simp add: bk_poke_def)
next
  case (Some el)
  obtain e where e: "be_key e = key" "(el, e) \<in> set (bk_order b)" by (rule bk_wfD [OF w Some])
  let ?o = "set_elem el (be_val_update f) (bk_order b)"
  have o: "?o = map (\<lambda>(j, x). (j, if be_key x = key then be_val_update f x else x)) (bk_order b)"
    unfolding set_elem_def
  proof (rule map_cong [OF refl])
    fix x assume x: "x \<in> set (bk_order b)"
    obtain j y where "x = (j, y)" by (cases x)
    then show "(case x of (j, y) \<Rightarrow> (j, if j = el then be_val_update f y else y)) =
      (case x of (j, y) \<Rightarrow> (j, if be_key y = key then be_val_update f y else y))"
      using distinct_keys_inj [OF w, of j y el e] x e by simp
  qed
  have "(\<exists>y. (i, y) \<in> set ?o \<and> be_key y = k) \<longleftrightarrow> (\<exists>y. (i, y) \<in> set (bk_order b) \<and> be_key y = k)" for i k
    unfolding set_elem_def by (force split: if_splits)
  moreover have "map fst ?o = map fst (bk_order b)" "map (be_key \<circ> snd) ?o = map (be_key \<circ> snd) (bk_order b)"
    by (auto simp: set_elem_def)
  moreover have "\<forall>(i, y) \<in> set ?o. i < bk_fresh b" using w by (auto simp: bk_wf_def set_elem_def)
  moreover have "length ?o = length (bk_order b)" by (simp add: set_elem_def)
  ultimately have "bk_wf (b\<lparr>bk_order := ?o\<rparr>)" using w by (simp add: bk_wf_def)
  then show ?thesis using Some by (simp add: bk_poke_def lru_def o case_prod_unfold)
qed

lemma find_map_poke:
  "find (\<lambda>e. be_key e = j) (map (\<lambda>e. if be_key e = k then be_val_update f e else e) es) =
    (if j = k then map_option (be_val_update f) (find (\<lambda>e. be_key e = k) es) else find (\<lambda>e. be_key e = j) es)"
  by (induction es) auto

lemma Put_kept:
  assumes w: "bk_wf b" and new: "bk_view b k = None" and room: "int (card (dom (bk_view b))) < bk_max b" and j: "j \<noteq> k"
  shows "bk_view (bk_Put b k v now) j = bk_view b j \<or>
    bk_view (bk_Put b k v now) j = None \<and> (\<exists>x t. bk_view b j = Some (x, t) \<and> bk_idle b \<le> now - t)"
proof -
  let ?kept = "if sweeps now b then drop_idle (bk_idle b) now (lru b) else lru b"
  have out: "k \<notin> be_key ` set (lru b)" using new unfolding dom_view [symmetric] by (simp add: domIff)
  have "length (lru b) \<le> nat (bk_max b - 1)" using room w card_view [OF w] by (simp add: lru_def)
  moreover have "length (drop_idle (bk_idle b) now (lru b)) \<le> length (lru b)"
    by (simp add: drop_idle_def) (metis length_dropWhile_le length_rev)
  ultimately have "lru_room (bk_max b) (lru b) = lru b"
    "lru_room (bk_max b) (drop_idle (bk_idle b) now (lru b)) = drop_idle (bk_idle b) now (lru b)"
    by (simp_all add: lru_room_def)
  then have "lru (bk_Put b k v now) = \<lparr>be_key = k, be_val = v, be_seen = now\<rparr> # ?kept"
    using Put_props [OF w, of k v now] out by (simp add: lru_insert_def)
  then have f: "find (\<lambda>e. be_key e = j) (lru (bk_Put b k v now)) = find (\<lambda>e. be_key e = j) ?kept" using j by simp
  have d: "distinct (map be_key (lru b))" using w by (simp add: bk_wf_def lru_def)
  show ?thesis
  proof (cases "sweeps now b")
    case True
    then have "0 < bk_idle b" by (simp add: sweeps_def)
    then show ?thesis
      using find_drop_idle [OF d, of j "bk_idle b" now] Sub_idle [of "bk_idle b" now] f True
      by (auto simp: bk_view_def)
  qed (simp add: bk_view_def f)
qed

interpretation keys: recency_cache bk_Get bk_Put bk_poke bk_view "bk_good most idle" most idle for most idle
proof
  fix b :: "'v BoundedKeys" and k j :: string and now :: time and v :: 'v and f :: "'v \<Rightarrow> 'v"
  assume g: "bk_good most idle b"
  then have w: "bk_wf b" and m: "bk_max b = int most" "bk_idle b = idle" by (simp_all add: bk_good_def)
  note get = Get_props [OF w, of k now] and put = Put_props [OF w, of k v now] and poke = poke_props [OF w, of k f]
  show "fst (bk_Get b k now) = map_option fst (bk_view b k)"
    using get by (simp add: bk_view_def option.map_comp comp_def)
  show "bk_good most idle (snd (bk_Get b k now))"
    using get m by (simp add: bk_good_def bk_Get_def split: option.splits)
  show "bk_view (snd (bk_Get b k now)) j = (if j = k then map_option (\<lambda>(v, _). (v, now)) (bk_view b k) else bk_view b j)"
    using get by (simp add: bk_view_def find_touch option.map_comp comp_def)
  show "bk_good most idle (bk_poke k f b)"
    using poke m by (simp add: bk_good_def bk_poke_def split: option.splits)
  show "bk_view (bk_poke k f b) j = (if j = k then map_option (\<lambda>(v, t). (f v, t)) (bk_view b k) else bk_view b j)"
    using poke by (simp add: bk_view_def find_map_poke option.map_comp comp_def)
  show "bk_good most idle (bk_Put b k v now)"
  proof -
    have "bk_max (bk_Put b k v now) = bk_max b \<and> bk_idle (bk_Put b k v now) = bk_idle b"
      using sweep_props [OF w, of now] make_room_props [of "bk_sweep now b"]
      by (simp add: bk_Put_def push_front_def split: option.split)
    then show ?thesis using put m by (simp add: bk_good_def)
  qed
  show "bk_view (bk_Put b k v now) k = Some (v, now)"
  proof (cases "k \<in> be_key ` set (lru b)")
    case True
    then have "find (\<lambda>e. be_key e = k) (lru b) \<noteq> None" by (auto simp: find_None_iff)
    then show ?thesis using put True by (auto simp: bk_view_def find_touch)
  next
    case False
    then show ?thesis using put by (simp add: bk_view_def lru_insert_def)
  qed
  show "bk_view (bk_Put b k v now) j = bk_view b j \<or> bk_view (bk_Put b k v now) j = None \<and>
      (\<exists>w t. bk_view b j = Some (w, t) \<and> idle \<le> now - t)"
    if "bk_view b k = None" "card (dom (bk_view b)) < most" "j \<noteq> k"
    using Put_kept [OF w that(1) _ that(3), of v now] that(2) m by simp
  show "finite (dom (bk_view b)) \<and> card (dom (bk_view b)) \<le> most"
    using card_view [OF w] w m by (simp add: dom_view bk_wf_def)
qed

text \<open>C17: the map of the code is the list of entries in order of use: a lookup and a store of a known key
  move its entry to the front; a new key comes first, the oldest entries that are idle go when a
  sweep is due, and the least recently used one goes when the map is full.\<close>

theorem BoundedKeys_refines_lru:
  assumes "bk_wf b"
  shows "fst (bk_Get b key now) = map_option be_val (find (\<lambda>e. be_key e = key) (lru b)) \<and>
    lru (snd (bk_Get b key now)) = lru_touch key (be_seen_update (\<lambda>_. now)) (lru b) \<and>
    lru (bk_Put b key val now) =
      (if key \<in> be_key ` set (lru b) then lru_touch key (\<lambda>e. e\<lparr>be_val := val, be_seen := now\<rparr>) (lru b)
       else lru_insert (sweeps now b) (bk_max b) (bk_idle b) \<lparr>be_key = key, be_val = val, be_seen = now\<rparr> (lru b)) \<and>
    bk_wf (snd (bk_Get b key now)) \<and> bk_wf (bk_Put b key val now) \<and>
    int (bk_Len (bk_Put b key val now)) \<le> bk_max b"
proof -
  have "bk_max (bk_Put b key val now) = bk_max b"
    using sweep_props [OF assms, of now] make_room_props [of "bk_sweep now b"]
    by (simp add: bk_Put_def push_front_def split: option.split)
  moreover have "int (bk_Len b') \<le> bk_max b'" if "bk_wf b'" for b' :: "'a BoundedKeys"
    using that by (simp add: bk_wf_def bk_Len_def)
  ultimately show ?thesis using Get_props [OF assms] Put_props [OF assms, of key val now] by metis
qed

end
