(* ===== verification/RateLimit.thy ===== *)
theory RateLimit
  imports BoundedKeys
begin

text \<open>
  The per-client token buckets of the hub (\<open>pkg/server/proxy/ratelimit.go\<close>) on the bounded map: a
  client's bucket is forgotten when it has been idle, and that never changes an answer.
\<close>

record visitor =
  vis_tokens :: int
  vis_lastVisit :: time

text \<open>Integer division of a negative duration rounds to zero in Go and down here; both mean no refill.\<close>

definition bucket_step :: "int \<Rightarrow> int \<Rightarrow> time \<Rightarrow> visitor \<Rightarrow> bool \<times> visitor" where
  "bucket_step interval burst now v =
     (let refill = Sub now (vis_lastVisit v) div interval;
          v = (if refill > 0
               then v\<lparr>vis_tokens := min (i64 (vis_tokens v + refill)) burst, vis_lastVisit := now\<rparr> else v)
      in if vis_tokens v \<le> 0 then (False, v) else (True, v\<lparr>vis_tokens := vis_tokens v - 1\<rparr>))"

definition new_visitor :: "int \<Rightarrow> time \<Rightarrow> visitor" where
  "new_visitor burst now = \<lparr>vis_tokens = burst - 1, vis_lastVisit = now\<rparr>"

text \<open>The handler, over the operations of the map it uses.\<close>

definition limit_step ::
  "('b \<Rightarrow> string \<Rightarrow> time \<Rightarrow> visitor option \<times> 'b) \<Rightarrow> ('b \<Rightarrow> string \<Rightarrow> visitor \<Rightarrow> time \<Rightarrow> 'b) \<Rightarrow>
   (string \<Rightarrow> (visitor \<Rightarrow> visitor) \<Rightarrow> 'b \<Rightarrow> 'b) \<Rightarrow> int \<Rightarrow> int \<Rightarrow> string \<Rightarrow> time \<Rightarrow> 'b \<Rightarrow> bool \<times> 'b" where
  "limit_step get put poke interval burst client now b =
     (case get b client now of
        (None, b) \<Rightarrow> (True, put b client (new_visitor burst now) now)
      | (Some v, b) \<Rightarrow> (case bucket_step interval burst now v of (ok, v') \<Rightarrow> (ok, poke client (\<lambda>_. v') b)))"

record rateLimiter =
  rl_visitors :: "visitor BoundedKeys"
  rl_interval :: int
  rl_burstSize :: int

definition newRateLimiter :: "int \<Rightarrow> int \<Rightarrow> rateLimiter" where
  "newRateLimiter interval burstSize =
     \<lparr>rl_visitors = NewBoundedKeys DefaultMaxLimiterEntries (i64 (interval * burstSize)),
       rl_interval = interval, rl_burstSize = burstSize\<rparr>"

definition isAllowed :: "rateLimiter \<Rightarrow> string \<Rightarrow> time \<Rightarrow> bool \<times> rateLimiter" where
  "isAllowed rl clientIP now =
     (case limit_step bk_Get bk_Put bk_poke (rl_interval rl) (rl_burstSize rl) clientIP now (rl_visitors rl) of
        (ok, b) \<Rightarrow> (ok, rl\<lparr>rl_visitors := b\<rparr>))"

definition tracked :: "rateLimiter \<Rightarrow> nat" where
  "tracked rl = bk_Len (rl_visitors rl)"

section \<open>The reference: one bucket for each client, kept forever\<close>

definition own_bucket :: "int \<Rightarrow> int \<Rightarrow> time \<Rightarrow> visitor option \<Rightarrow> bool \<times> visitor" where
  "own_bucket interval burst now v =
     (case v of None \<Rightarrow> (True, new_visitor burst now) | Some v \<Rightarrow> bucket_step interval burst now v)"

fun buckets_run :: "int \<Rightarrow> int \<Rightarrow> (string \<Rightarrow> visitor option) \<Rightarrow> (string \<times> time) list \<Rightarrow> bool list" where
  "buckets_run interval burst A [] = []"
| "buckets_run interval burst A ((client, now) # rs) =
     (case own_bucket interval burst now (A client) of
        (ok, v) \<Rightarrow> ok # buckets_run interval burst (A(client \<mapsto> v)) rs)"

fun limiter_run :: "rateLimiter \<Rightarrow> (string \<times> time) list \<Rightarrow> bool list" where
  "limiter_run rl [] = []"
| "limiter_run rl ((client, now) # rs) =
     (case isAllowed rl client now of (ok, rl') \<Rightarrow> ok # limiter_run rl' rs)"

section \<open>One bucket\<close>

definition fits :: "int \<Rightarrow> int \<Rightarrow> bool" where
  "fits interval burst \<longleftrightarrow> 2 \<le> interval \<and> 1 \<le> burst \<and> interval * burst < 2 ^ 62"

text \<open>Between requests a bucket holds fewer tokens than the burst.\<close>

definition bucket_ok :: "int \<Rightarrow> visitor \<Rightarrow> bool" where
  "bucket_ok burst v \<longleftrightarrow> 0 \<le> vis_tokens v \<and> vis_tokens v < burst"

lemma le_div: "0 < (i :: int) \<Longrightarrow> q \<le> x div i \<longleftrightarrow> q * i \<le> x"
proof
  assume i: "0 < i" and q: "q \<le> x div i"
  have "q * i \<le> x div i * i" using i q by (simp add: mult_right_mono)
  also have "\<dots> = x - x mod i" by (simp add: minus_mod_eq_div_mult)
  also have "\<dots> \<le> x" using i by simp
  finally show "q * i \<le> x" .
next
  assume "0 < i" and "q * i \<le> x"
  then show "q \<le> x div i" using zdiv_mono1 [of "q * i" x i] by simp
qed

lemma fits_bounds: "fits interval burst \<Longrightarrow> 1 \<le> burst \<and> burst < 2 ^ 62 \<and> 2 \<le> interval \<and> interval < 2 ^ 62"
proof -
  assume f: "fits interval burst"
  then have "1 * burst \<le> interval * burst" by (intro mult_right_mono) (auto simp: fits_def)
  moreover from f have "interval * 1 \<le> interval * burst" by (intro mult_left_mono) (auto simp: fits_def)
  ultimately show ?thesis using f unfolding fits_def by linarith
qed

lemma refill_small: "2 \<le> interval \<Longrightarrow> Sub t u div interval < 2 ^ 62"
proof -
  assume i: "2 \<le> interval"
  have "Sub t u < 2 ^ 62 * 2" by (simp add: Sub_def)
  also have "\<dots> \<le> 2 ^ 62 * interval" using i by simp
  finally show ?thesis using i le_div [of interval "2 ^ 62" "Sub t u"] by simp
qed

lemma new_ok: "1 \<le> burst \<Longrightarrow> bucket_ok burst (new_visitor burst now)"
  by (simp add: bucket_ok_def new_visitor_def)

lemma step_refill:
  assumes "fits interval burst" "bucket_ok burst v" "0 < Sub now (vis_lastVisit v) div interval"
  shows "bucket_step interval burst now v =
    (True, \<lparr>vis_tokens = min (vis_tokens v + Sub now (vis_lastVisit v) div interval) burst - 1, vis_lastVisit = now\<rparr>)"
proof -
  note f = fits_bounds [OF assms(1)]
  have "i64 (vis_tokens v + Sub now (vis_lastVisit v) div interval) = vis_tokens v + Sub now (vis_lastVisit v) div interval"
    using f refill_small [of interval now "vis_lastVisit v"] assms(2,3) by (intro i64_id) (auto simp: bucket_ok_def)
  then show ?thesis using assms(2,3) f by (auto simp: bucket_step_def Let_def bucket_ok_def)
qed

lemma step_no_refill:
  "\<not> 0 < Sub now (vis_lastVisit v) div interval \<Longrightarrow>
     bucket_step interval burst now v =
       (if vis_tokens v \<le> 0 then (False, v) else (True, v\<lparr>vis_tokens := vis_tokens v - 1\<rparr>))"
  by (simp add: bucket_step_def)

lemma step_ok:
  assumes "fits interval burst" "bucket_ok burst v"
  shows "bucket_ok burst (snd (bucket_step interval burst now v))"
proof (cases "0 < Sub now (vis_lastVisit v) div interval")
  case True
  then show ?thesis using step_refill [OF assms True] assms(2) fits_bounds [OF assms(1)] by (auto simp: bucket_ok_def)
next
  case False
  then show ?thesis using assms(2) by (auto simp: step_no_refill bucket_ok_def)
qed

lemma step_lastVisit:
  "vis_lastVisit v \<le> now \<Longrightarrow> vis_lastVisit (snd (bucket_step interval burst now v)) \<le> now"
  by (simp add: bucket_step_def Let_def)

text \<open>A bucket that was idle for the whole refill time is full again: it answers like a new one.\<close>

lemma idle_bucket_is_new:
  assumes "fits interval burst" "bucket_ok burst v" "interval * burst \<le> now - vis_lastVisit v"
  shows "bucket_step interval burst now v = (True, new_visitor burst now)"
proof -
  have f: "interval * burst < 2 ^ 62" "2 \<le> interval" "1 \<le> burst" using assms(1) by (auto simp: fits_def)
  then have "0 < interval * burst" by simp
  then have "interval * burst \<le> Sub now (vis_lastVisit v)" using assms(3) f(1) by (simp add: Sub_def)
  then have "burst \<le> Sub now (vis_lastVisit v) div interval"
    using f(2) by (simp add: le_div mult.commute)
  then show ?thesis
    using step_refill [OF assms(1,2), of now] f assms(2) by (simp add: new_visitor_def bucket_ok_def)
qed

section \<open>The answers are those of the buckets\<close>

definition sim :: "('b \<Rightarrow> string \<Rightarrow> (visitor \<times> time) option) \<Rightarrow> int \<Rightarrow> int \<Rightarrow> time \<Rightarrow> 'b \<Rightarrow>
    (string \<Rightarrow> visitor option) \<Rightarrow> bool" where
  "sim view interval burst clock b A \<longleftrightarrow>
     (\<forall>c. case A c of None \<Rightarrow> view b c = None
        | Some v \<Rightarrow> bucket_ok burst v \<and> vis_lastVisit v \<le> clock \<and>
            (case view b c of None \<Rightarrow> vis_lastVisit v + interval * burst \<le> clock
             | Some (w, t) \<Rightarrow> w = v \<and> vis_lastVisit v \<le> t \<and> t \<le> clock))"

lemma sim_view:
  "sim view interval burst clock b A \<Longrightarrow> view b c = Some (w, t) \<Longrightarrow>
     A c = Some w \<and> bucket_ok burst w \<and> vis_lastVisit w \<le> t \<and> t \<le> clock"
  by (auto simp: sim_def split: option.splits dest!: spec [where x = c])

lemma sim_own:
  "sim view interval burst clock b A \<Longrightarrow> A c = Some v \<Longrightarrow> bucket_ok burst v \<and> vis_lastVisit v \<le> clock"
  by (auto simp: sim_def split: option.splits dest!: spec [where x = c])

lemma sim_gone:
  "sim view interval burst clock b A \<Longrightarrow> A c = Some v \<Longrightarrow> view b c = None \<Longrightarrow>
     vis_lastVisit v + interval * burst \<le> clock"
  by (auto simp: sim_def split: option.splits dest!: spec [where x = c])

lemma sim_update:
  assumes s: "sim view interval burst clock b A" and "clock \<le> now"
    and v: "view b' k = Some (v, now)" "bucket_ok burst v" "vis_lastVisit v \<le> now"
    and other: "\<And>j. j \<noteq> k \<Longrightarrow> view b' j = view b j \<or>
      view b' j = None \<and> (\<exists>w t. view b j = Some (w, t) \<and> interval * burst \<le> now - t)"
  shows "sim view interval burst now b' (A(k \<mapsto> v))"
  unfolding sim_def
proof
  fix c
  show "case (A(k \<mapsto> v)) c of None \<Rightarrow> view b' c = None
    | Some v \<Rightarrow> bucket_ok burst v \<and> vis_lastVisit v \<le> now \<and>
        (case view b' c of None \<Rightarrow> vis_lastVisit v + interval * burst \<le> now
         | Some (w, t) \<Rightarrow> w = v \<and> vis_lastVisit v \<le> t \<and> t \<le> now)"
  proof (cases "c = k")
    case True
    then show ?thesis using v by simp
  next
    case False
    from s have "case A c of None \<Rightarrow> view b c = None
      | Some v \<Rightarrow> bucket_ok burst v \<and> vis_lastVisit v \<le> clock \<and>
          (case view b c of None \<Rightarrow> vis_lastVisit v + interval * burst \<le> clock
           | Some (w, t) \<Rightarrow> w = v \<and> vis_lastVisit v \<le> t \<and> t \<le> clock)"
      by (simp add: sim_def)
    then show ?thesis using other [OF False] False \<open>clock \<le> now\<close> by (auto split: option.splits)
  qed
qed

locale bucket_cache = recency_cache get put poke view good most "interval * burst"
  for get :: "'b \<Rightarrow> string \<Rightarrow> time \<Rightarrow> visitor option \<times> 'b"
    and put poke view good most and interval burst :: int
begin

lemma step_simulates:
  assumes f: "fits interval burst" and s: "sim view interval burst clock b A" and g: "good b"
    and t: "clock \<le> now" and S: "dom (view b) \<subseteq> S" "finite S" "card S \<le> most" "client \<in> S"
    and l: "limit_step get put poke interval burst client now b = (ok, b')"
    and o: "own_bucket interval burst now (A client) = (ok', v')"
  shows "ok = ok' \<and> good b' \<and> dom (view b') \<subseteq> S \<and> sim view interval burst now b' (A(client \<mapsto> v'))"
proof (cases "view b client")
  case None
  have "own_bucket interval burst now (A client) = (True, new_visitor burst now)"
  proof (cases "A client")
    case (Some v)
    then show ?thesis
      using idle_bucket_is_new [OF f, of v now] sim_own [OF s Some] sim_gone [OF s Some None] t
      by (simp add: own_bucket_def)
  qed (simp add: own_bucket_def)
  then have v': "ok'" "v' = new_visitor burst now" using o by simp_all
  obtain x b1 where b1: "get b client now = (x, b1)" by (cases "get b client now")
  have "x = None" using get_value [OF g, of client now] None b1 by simp
  then have b': "ok" "b' = put b1 client v' now" using l b1 by (simp_all add: limit_step_def v')
  have g1: "good b1" using get_good [OF g, of client now] b1 by simp
  have same: "view b1 j = view b j" for j using get_view [OF g, of client now j] b1 None by simp
  then have vb: "view b1 = view b" by blast
  have room: "card (dom (view b1)) < most" unfolding vb by (rule room_for [OF g None S])
  have n1: "view b1 client = None" using None by (simp add: vb)
  have "dom (view b') \<subseteq> insert client (dom (view b))"
    unfolding b' using put_dom [OF g1 n1 room, of v' now] by (simp only: vb)
  moreover have "sim view interval burst now b' (A(client \<mapsto> v'))"
  proof (rule sim_update [OF s t])
    show "view b' client = Some (v', now)" unfolding b' by (rule put_stored [OF g1])
    show "bucket_ok burst v'" "vis_lastVisit v' \<le> now"
      using new_ok [of burst now] fits_bounds [OF f] by (simp_all add: v' new_visitor_def)
    show "view b' j = view b j \<or> view b' j = None \<and> (\<exists>w t. view b j = Some (w, t) \<and> interval * burst \<le> now - t)"
      if "j \<noteq> client" for j
      unfolding b' using put_kept [OF g1 n1 room that, of v' now] by (simp only: vb)
  qed
  ultimately show ?thesis using put_good [OF g1, of client v' now] S(1,4) b' v' by blast
next
  case (Some p)
  obtain w t' where p: "p = (w, t')" by (cases p)
  note w = sim_view [OF s Some [unfolded p]]
  obtain x b1 where b1: "get b client now = (x, b1)" by (cases "get b client now")
  have "x = Some w" using get_value [OF g, of client now] Some b1 by (simp add: p)
  moreover have st: "bucket_step interval burst now w = (ok', v')" using o w by (simp add: own_bucket_def)
  ultimately have b': "ok = ok'" "b' = poke client (\<lambda>_. v') b1"
    using l b1 by (simp_all add: limit_step_def)
  have g1: "good b1" using get_good [OF g, of client now] b1 by simp
  have v1: "view b1 j = (if j = client then Some (w, now) else view b j)" for j
    using get_view [OF g, of client now j] b1 Some by (simp add: p)
  have vb: "view b' j = (if j = client then Some (v', now) else view b j)" for j
    unfolding b' using poke_view [OF g1, of client "\<lambda>_. v'" j] v1 by simp
  have "sim view interval burst now b' (A(client \<mapsto> v'))"
    using step_ok [OF f, of w now] step_lastVisit [of w now interval burst] w t st
    by (intro sim_update [OF s t]) (auto simp: vb)
  moreover have "dom (view b') \<subseteq> S" using S(1,4) vb by (auto simp: dom_def split: if_splits)
  ultimately show ?thesis using poke_good [OF g1] b' by simp
qed

end

interpretation buckets: bucket_cache bk_Get bk_Put bk_poke bk_view "bk_good most (interval * burst)" most
    interval burst for most interval burst
  by unfold_locales

lemma limiter_run_simulates:
  assumes "fits interval burst" "sorted (map snd rs)" "\<forall>(c, t) \<in> set rs. clock \<le> t \<and> c \<in> S"
    and "finite S" "card S \<le> most" "bk_good most (interval * burst) (rl_visitors rl)"
    and "rl_interval rl = interval" "rl_burstSize rl = burst"
    and "sim bk_view interval burst clock (rl_visitors rl) A" "dom (bk_view (rl_visitors rl)) \<subseteq> S"
  shows "limiter_run rl rs = buckets_run interval burst A rs"
  using assms
proof (induction rs arbitrary: clock rl A)
  case Nil
  then show ?case by simp
next
  case (Cons r rs)
  obtain c t where r: "r = (c, t)" by (cases r)
  obtain ok b' where l: "limit_step bk_Get bk_Put bk_poke interval burst c t (rl_visitors rl) = (ok, b')"
    by (cases "limit_step bk_Get bk_Put bk_poke interval burst c t (rl_visitors rl)")
  obtain ok' v' where o: "own_bucket interval burst t (A c) = (ok', v')"
    by (cases "own_bucket interval burst t (A c)")
  have bounds: "clock \<le> t" "c \<in> S" using Cons.prems(3) by (simp_all add: r)
  note st = buckets.step_simulates [OF Cons.prems(1,9,6) bounds(1) Cons.prems(10,4,5) bounds(2) l o]
  have "limiter_run (rl\<lparr>rl_visitors := b'\<rparr>) rs = buckets_run interval burst (A(c \<mapsto> v')) rs"
  proof (rule Cons.IH [where clock = t])
    show "\<forall>(c, u) \<in> set rs. t \<le> u \<and> c \<in> S" using Cons.prems(2,3) by (auto simp: r)
  qed (use Cons.prems st in \<open>simp_all add: r fun_upd_def\<close>)
  then show ?case using st by (simp add: r isAllowed_def Cons.prems(7,8) l o)
qed

lemma new_good: "0 < most \<Longrightarrow> bk_good most idle (NewBoundedKeys (int most) idle)"
  by (simp add: bk_good_def bk_wf_def NewBoundedKeys_def mget_def)

lemma limiter_per_client:
  assumes "fits interval burst" "sorted (map snd rs)" "card (fst ` set rs) \<le> 10000"
  shows "limiter_run (newRateLimiter interval burst) rs = buckets_run interval burst Map.empty rs"
proof (cases rs)
  case (Cons r rs')
  have w: "i64 (interval * burst) = interval * burst"
  proof -
    have b: "1 \<le> burst" "2 \<le> interval" "interval * burst < 2 ^ 62" using assms(1) by (simp_all add: fits_def)
    then have "0 < interval * burst" by simp
    then show ?thesis using b(3) by (intro i64_id) simp_all
  qed
  have good: "bk_good 10000 (interval * burst) (rl_visitors (newRateLimiter interval burst))"
    using new_good [of 10000 "interval * burst"] by (simp add: newRateLimiter_def w DefaultMaxLimiterEntries_def)
  have empty: "bk_view (rl_visitors (newRateLimiter interval burst)) = Map.empty"
    by (simp add: newRateLimiter_def NewBoundedKeys_def bk_view_def lru_def fun_eq_iff)
  show ?thesis
  proof (rule limiter_run_simulates [where clock = "snd r" and S = "fst ` set rs" and most = 10000])
    show "\<forall>(c, t) \<in> set rs. snd r \<le> t \<and> c \<in> fst ` set rs" using assms(2) Cons by force
    show "sim bk_view interval burst (snd r) (rl_visitors (newRateLimiter interval burst)) Map.empty"
      by (simp add: sim_def empty)
  qed (use assms good empty in \<open>simp_all add: newRateLimiter_def\<close>)
qed simp

text \<open>C16: as long as at most ten thousand clients are seen, forgetting idle buckets changes nothing: the
  limiter answers each request as if every client had a token bucket of its own, kept forever.\<close>

theorem limiter_is_per_client:
  assumes "fits interval burst" "sorted (map snd rs)" "card (fst ` set rs) \<le> 10000"
  shows "limiter_run (newRateLimiter interval burst) rs = buckets_run interval burst Map.empty rs"
  by (rule limiter_per_client [OF assms])

section \<open>The rate\<close>

fun admitted :: "int \<Rightarrow> int \<Rightarrow> string \<Rightarrow> time \<Rightarrow> time \<Rightarrow> (string \<Rightarrow> visitor option) \<Rightarrow> (string \<times> time) list \<Rightarrow> int" where
  "admitted interval burst c lo hi A [] = 0"
| "admitted interval burst c lo hi A ((d, t) # rs) =
     (case own_bucket interval burst t (A d) of
        (ok, v) \<Rightarrow> (if ok \<and> d = c \<and> lo \<le> t \<and> t \<le> hi then 1 else 0) + admitted interval burst c lo hi (A(d \<mapsto> v)) rs)"

lemma admitted_late: "\<forall>(_, t) \<in> set rs. hi < t \<Longrightarrow> admitted interval burst c lo hi A rs = 0"
  by (induction rs arbitrary: A) (auto split: prod.split)

lemma div_superadd: "0 < (i :: int) \<Longrightarrow> x div i + y div i \<le> (x + y) div i"
proof -
  assume i: "0 < i"
  have "x div i * i \<le> x" "y div i * i \<le> y" using le_div [OF i, of "x div i" x] le_div [OF i, of "y div i" y] by simp_all
  then show ?thesis using le_div [OF i] by (simp add: distrib_right)
qed

lemma refill_le: "0 < i \<Longrightarrow> u \<le> t \<Longrightarrow> Sub t u div i \<le> (t - u) div i"
  by (rule zdiv_mono1) (auto simp: Sub_def)

lemma admitted_from:
  assumes "fits interval burst" "sorted (map snd rs)"
    and "A c = Some v" "bucket_ok burst v" "vis_lastVisit v \<le> hi" "\<forall>(_, t) \<in> set rs. vis_lastVisit v \<le> t"
  shows "admitted interval burst c lo hi A rs \<le> vis_tokens v + (hi - vis_lastVisit v) div interval"
  using assms(2-)
proof (induction rs arbitrary: A v)
  case Nil
  have "0 \<le> (hi - vis_lastVisit v) div interval"
    using Nil.prems(4) assms(1) by (simp add: fits_def pos_imp_zdiv_nonneg_iff)
  then show ?case using Nil.prems(3) by (simp add: bucket_ok_def)
next
  case (Cons r rs)
  obtain d t where r: "r = (d, t)" by (cases r)
  obtain ok v' where o: "own_bucket interval burst t (A d) = (ok, v')" by (cases "own_bucket interval burst t (A d)")
  let ?rest = "admitted interval burst c lo hi (A(d \<mapsto> v')) rs"
  have i: "0 < interval" using assms(1) by (simp add: fits_def)
  have later: "sorted (map snd rs)" "\<forall>(_, u) \<in> set rs. t \<le> u" using Cons.prems(1) by (auto simp: r)
  have now: "vis_lastVisit v \<le> t" using Cons.prems(5) by (simp add: r)
  have adm: "admitted interval burst c lo hi A (r # rs) = (if ok \<and> d = c \<and> lo \<le> t \<and> t \<le> hi then 1 else 0) + ?rest"
    by (simp add: r o)
  consider "d \<noteq> c" | "d = c" "hi < t" | "d = c" "t \<le> hi" by linarith
  then show ?case
  proof cases
    case 1
    have "?rest \<le> vis_tokens v + (hi - vis_lastVisit v) div interval"
      by (rule Cons.IH [OF later(1)]) (use 1 Cons.prems in \<open>auto simp: r\<close>)
    then show ?thesis using 1 by (simp add: adm)
  next
    case 2
    have "?rest = 0" by (rule admitted_late) (use later 2 in auto)
    moreover have "0 \<le> (hi - vis_lastVisit v) div interval" using Cons.prems(4) i by (simp add: pos_imp_zdiv_nonneg_iff)
    ultimately show ?thesis using 2 Cons.prems(3) by (simp add: adm bucket_ok_def)
  next
    case 3
    have st: "bucket_step interval burst t v = (ok, v')" using o 3 Cons.prems(2) by (simp add: own_bucket_def)
    have ok': "bucket_ok burst v'" using step_ok [OF assms(1) Cons.prems(3), of t] st by simp
    have rest: "?rest \<le> vis_tokens v' + (hi - vis_lastVisit v') div interval" if "vis_lastVisit v' \<le> t"
      by (rule Cons.IH [OF later(1)]) (use 3 ok' that later in \<open>auto\<close>)
    show ?thesis
    proof (cases "0 < Sub t (vis_lastVisit v) div interval")
      case True
      have v': "vis_lastVisit v' = t" "vis_tokens v' + 1 \<le> vis_tokens v + Sub t (vis_lastVisit v) div interval"
        using step_refill [OF assms(1) Cons.prems(3) True] st by auto
      have "(t - vis_lastVisit v) div interval + (hi - t) div interval \<le> (hi - vis_lastVisit v) div interval"
        using div_superadd [OF i, of "t - vis_lastVisit v" "hi - t"] by simp
      then show ?thesis using rest v' refill_le [OF i now] 3(1) by (auto simp: adm)
    next
      case False
      then have "vis_lastVisit v' = vis_lastVisit v" "vis_tokens v' + (if ok then 1 else 0) = vis_tokens v"
        using st by (auto simp: step_no_refill split: if_splits)
      then show ?thesis using rest now 3(1) by (auto simp: adm split: if_splits)
    qed
  qed
qed

lemma admitted_window:
  assumes "fits interval burst" "sorted (map snd rs)" "lo \<le> hi"
    and "\<forall>v. A c = Some v \<longrightarrow> bucket_ok burst v \<and> (\<forall>(_, t) \<in> set rs. vis_lastVisit v \<le> t)"
  shows "admitted interval burst c lo hi A rs \<le> burst + (hi - lo) div interval"
  using assms(2-)
proof (induction rs arbitrary: A)
  case Nil
  have "0 \<le> (hi - lo) div interval" using Nil.prems(2) assms(1) by (simp add: fits_def pos_imp_zdiv_nonneg_iff)
  then show ?case using assms(1) by (simp add: fits_def)
next
  case (Cons r rs)
  obtain d t where r: "r = (d, t)" by (cases r)
  obtain ok v' where o: "own_bucket interval burst t (A d) = (ok, v')" by (cases "own_bucket interval burst t (A d)")
  let ?rest = "admitted interval burst c lo hi (A(d \<mapsto> v')) rs"
  have i: "0 < interval" and b: "1 \<le> burst" using assms(1) by (auto simp: fits_def)
  have later: "sorted (map snd rs)" "\<forall>(_, u) \<in> set rs. t \<le> u" using Cons.prems(1) by (auto simp: r)
  have adm: "admitted interval burst c lo hi A (r # rs) = (if ok \<and> d = c \<and> lo \<le> t \<and> t \<le> hi then 1 else 0) + ?rest"
    by (simp add: r o)
  have v'ok: "bucket_ok burst v' \<and> vis_lastVisit v' \<le> t" if "d = c"
  proof (cases "A c")
    case None
    then show ?thesis using o that new_ok [OF b, of t] by (auto simp: own_bucket_def new_visitor_def)
  next
    case (Some v)
    then have "bucket_ok burst v" "vis_lastVisit v \<le> t" "bucket_step interval burst t v = (ok, v')"
      using Cons.prems(3) o that by (auto simp: r own_bucket_def)
    then show ?thesis using step_ok [OF assms(1), of v t] step_lastVisit [of v t interval burst] by auto
  qed
  have IH: "?rest \<le> burst + (hi - lo) div interval"
  proof (rule Cons.IH [OF later(1) Cons.prems(2)])
    show "\<forall>v. (A(d \<mapsto> v')) c = Some v \<longrightarrow> bucket_ok burst v \<and> (\<forall>(_, u) \<in> set rs. vis_lastVisit v \<le> u)"
    proof (cases "d = c")
      case True
      then show ?thesis using v'ok later(2) by (auto intro: order_trans)
    next
      case False
      then show ?thesis using Cons.prems(3) by (simp add: r)
    qed
  qed
  show ?case
  proof (cases "ok \<and> d = c \<and> lo \<le> t \<and> t \<le> hi")
    case False
    then show ?thesis using IH unfolding adm by (simp only: if_False add_0)
  next
    case True
    then have dc: "d = c" and t: "lo \<le> t" "t \<le> hi" and okT: "ok" by simp_all
    have rest: "?rest \<le> vis_tokens v' + (hi - vis_lastVisit v') div interval"
      by (rule admitted_from [OF assms(1) later(1)]) (use v'ok [OF dc] dc t later(2) in \<open>auto\<close>)
    have mono: "(hi - t) div interval \<le> (hi - lo) div interval" using t i by (intro zdiv_mono1) simp_all
    show ?thesis
    proof (cases "vis_lastVisit v' = t")
      case True
      then show ?thesis using rest mono v'ok [OF dc] by (auto simp: adm bucket_ok_def)
    next
      case False
      obtain v where v: "A c = Some v" "bucket_step interval burst t v = (ok, v')"
        using o dc False by (auto simp: own_bucket_def new_visitor_def split: option.splits)
      then have vok: "bucket_ok burst v" "vis_lastVisit v \<le> t" using Cons.prems(3) by (auto simp: r)
      have nr: "\<not> 0 < Sub t (vis_lastVisit v) div interval"
        using step_refill [OF assms(1) vok(1), of t] v(2) False by auto
      then have v': "vis_lastVisit v' = vis_lastVisit v" "vis_tokens v' + 1 = vis_tokens v"
        using v(2) okT by (auto simp: step_no_refill split: if_splits)
      have "\<not> 1 \<le> Sub t (vis_lastVisit v) div interval" using nr by simp
      then have "Sub t (vis_lastVisit v) < interval" using le_div [OF i, of 1] by simp
      then have "t - vis_lastVisit v < interval"
        using fits_bounds [OF assms(1)] by (auto simp: Sub_def)
      then have "(hi - vis_lastVisit v) div interval \<le> (hi - lo + interval) div interval"
        using t i by (intro zdiv_mono1) simp_all
      also have "\<dots> = (hi - lo) div interval + 1" using i by (intro div_add_self2) simp
      finally show ?thesis using rest v' vok(1) dc by (auto simp: adm bucket_ok_def)
    qed
  qed
qed

lemma admitted_filter:
  "admitted interval burst c lo hi A rs =
     int (length (filter (\<lambda>((d, t), ok). ok \<and> d = c \<and> lo \<le> t \<and> t \<le> hi) (zip rs (buckets_run interval burst A rs))))"
  by (induction rs arbitrary: A) (auto split: prod.split)

text \<open>In any span of time the limiter admits a client at most the burst and one request for each refill
  interval the span holds, whatever the other clients do.\<close>

theorem limiter_rate:
  assumes "fits interval burst" "sorted (map snd rs)" "card (fst ` set rs) \<le> 10000" "lo \<le> hi"
  shows "int (length (filter (\<lambda>((c, t), ok). ok \<and> c = client \<and> lo \<le> t \<and> t \<le> hi)
      (zip rs (limiter_run (newRateLimiter interval burst) rs)))) \<le> burst + (hi - lo) div interval"
proof -
  show ?thesis
    unfolding limiter_per_client [OF assms(1-3)] using admitted_window [OF assms(1,2,4), of Map.empty client] by (simp add: admitted_filter)
qed

end
