(* ===== verification/Paths.thy ===== *)
theory Paths
  imports GoStrings
begin

text \<open>
  The workspace topology (\<open>pkg/kcppaths/paths.go\<close>): how the path of an Org, a team workspace or a
  provider is built, and how a path is attributed to its Org.
\<close>

definition Root :: string where "Root = ''root:railgrid''"
definition ProvidersParent :: string where "ProvidersParent = Root @ '':providers''"
definition TenantsParent :: string where "TenantsParent = Root @ '':tenants''"
definition System :: string where "System = Root @ '':system''"
definition SystemControllers :: string where "SystemControllers = System @ '':controllers''"
definition SystemProviders :: string where "SystemProviders = System @ '':providers''"
definition SystemTenants :: string where "SystemTenants = System @ '':tenants''"
definition OrgProvidersWorkspaceName :: string where "OrgProvidersWorkspaceName = ''providers''"

definition ProviderPath :: "string \<Rightarrow> string" where
  "ProviderPath name = ProvidersParent @ '':'' @ name"

definition OrgPath :: "string \<Rightarrow> string" where
  "OrgPath orgUUID = TenantsParent @ '':'' @ orgUUID"

definition WorkspacePath :: "string \<Rightarrow> string \<Rightarrow> string" where
  "WorkspacePath orgUUID wsUUID = OrgPath orgUUID @ '':'' @ wsUUID"

definition OrgProvidersParent :: "string \<Rightarrow> string" where
  "OrgProvidersParent orgUUID = OrgPath orgUUID @ '':'' @ OrgProvidersWorkspaceName"

definition OrgProviderPath :: "string \<Rightarrow> string \<Rightarrow> string" where
  "OrgProviderPath orgUUID name = OrgProvidersParent orgUUID @ '':'' @ name"

definition CutPrefix :: "string \<Rightarrow> string \<Rightarrow> string option" where
  "CutPrefix s pre = (if hasPrefix s pre then Some (drop (length pre) s) else None)"

definition SplitOrgProviderPath :: "string \<Rightarrow> (string \<times> string) option" where
  "SplitOrgProviderPath path =
     (case CutPrefix path (TenantsParent @ '':'') of None \<Rightarrow> None
      | Some rest \<Rightarrow> (case Cut rest (CHR '':'') of (orgUUID, rest, found) \<Rightarrow>
          if \<not> found \<or> orgUUID = [] then None
          else (case CutPrefix rest (OrgProvidersWorkspaceName @ '':'') of None \<Rightarrow> None
            | Some rest \<Rightarrow> if rest = [] \<or> CHR '':'' \<in> set rest then None else Some (orgUUID, rest))))"

definition SplitWorkspacePath :: "string \<Rightarrow> (string \<times> string) option" where
  "SplitWorkspacePath path =
     (case CutPrefix path (TenantsParent @ '':'') of None \<Rightarrow> None
      | Some rest \<Rightarrow> (case Cut rest (CHR '':'') of (orgUUID, wsUUID, found) \<Rightarrow>
          if \<not> found \<or> orgUUID = [] \<or> wsUUID = [] \<or> CHR '':'' \<in> set wsUUID then None
          else if wsUUID = OrgProvidersWorkspaceName then None else Some (orgUUID, wsUUID)))"

section \<open>Building and splitting are inverse\<close>

definition segment :: "string \<Rightarrow> bool" where
  "segment s \<longleftrightarrow> s \<noteq> [] \<and> CHR '':'' \<notin> set s"

lemma CutPrefix_Some: "CutPrefix s p = Some r \<longleftrightarrow> s = p @ r"
  by (auto simp: CutPrefix_def hasPrefix_iff)

lemma CutPrefix_append [simp]: "CutPrefix (p @ r) p = Some r"
  by (simp add: CutPrefix_Some)

lemma CutPrefix_append_Cons [simp]: "CutPrefix (p @ c # r) (p @ [c]) = Some r"
  by (simp add: CutPrefix_Some)

lemma paths_under_tenants:
  "WorkspacePath org ws = (TenantsParent @ '':'') @ org @ CHR '':'' # ws"
  "OrgProviderPath org name = (TenantsParent @ '':'') @ org @ CHR '':'' # (OrgProvidersWorkspaceName @ '':'') @ name"
  by (simp_all add: WorkspacePath_def OrgPath_def OrgProviderPath_def OrgProvidersParent_def)

lemma SplitWorkspacePath_Some:
  "SplitWorkspacePath path = Some (org, ws) \<longleftrightarrow>
     path = WorkspacePath org ws \<and> segment org \<and> segment ws \<and> ws \<noteq> OrgProvidersWorkspaceName"
proof
  assume "SplitWorkspacePath path = Some (org, ws)"
  then obtain rest where "path = (TenantsParent @ '':'') @ rest" "Cut rest (CHR '':'') = (org, ws, True)"
      "org \<noteq> []" "ws \<noteq> []" "CHR '':'' \<notin> set ws" "ws \<noteq> OrgProvidersWorkspaceName"
    by (auto simp: SplitWorkspacePath_def CutPrefix_Some split: option.splits prod.splits if_splits)
  then show "path = WorkspacePath org ws \<and> segment org \<and> segment ws \<and> ws \<noteq> OrgProvidersWorkspaceName"
    using CutD [of rest "CHR '':''" org ws] by (simp add: paths_under_tenants segment_def)
next
  assume "path = WorkspacePath org ws \<and> segment org \<and> segment ws \<and> ws \<noteq> OrgProvidersWorkspaceName"
  then show "SplitWorkspacePath path = Some (org, ws)"
    by (simp only: SplitWorkspacePath_def paths_under_tenants CutPrefix_append option.case segment_def
        Cut_append prod.case) simp
qed

lemma SplitOrgProviderPath_Some:
  "SplitOrgProviderPath path = Some (org, name) \<longleftrightarrow>
     path = OrgProviderPath org name \<and> segment org \<and> segment name"
proof
  assume "SplitOrgProviderPath path = Some (org, name)"
  then obtain rest rest' where "path = (TenantsParent @ '':'') @ rest" "Cut rest (CHR '':'') = (org, rest', True)"
      "rest' = (OrgProvidersWorkspaceName @ '':'') @ name" "org \<noteq> []" "name \<noteq> []" "CHR '':'' \<notin> set name"
    by (auto simp: SplitOrgProviderPath_def CutPrefix_Some split: option.splits prod.splits if_splits)
  then show "path = OrgProviderPath org name \<and> segment org \<and> segment name"
    using CutD [of rest "CHR '':''" org rest'] by (simp add: paths_under_tenants segment_def)
next
  assume "path = OrgProviderPath org name \<and> segment org \<and> segment name"
  then show "SplitOrgProviderPath path = Some (org, name)"
    by (simp only: SplitOrgProviderPath_def paths_under_tenants CutPrefix_append option.case segment_def
        Cut_append prod.case) simp
qed

text \<open>C33: a path is attributed to a team workspace exactly when it is the path built from the two
  UUIDs, and to an Org's own provider exactly when it is that provider's path; no path is both.\<close>

theorem split_paths_inverse:
  "(SplitWorkspacePath path = Some (org, ws) \<longleftrightarrow>
     path = WorkspacePath org ws \<and> segment org \<and> segment ws \<and> ws \<noteq> OrgProvidersWorkspaceName) \<and>
   (SplitOrgProviderPath path = Some (org, name) \<longleftrightarrow>
     path = OrgProviderPath org name \<and> segment org \<and> segment name) \<and>
   (SplitWorkspacePath path = None \<or> SplitOrgProviderPath path = None)"
proof -
  have "SplitWorkspacePath path = None" if "SplitOrgProviderPath path = Some (o', n)" for o' n
  proof (rule ccontr)
    assume "SplitWorkspacePath path \<noteq> None"
    then obtain a w where "SplitWorkspacePath path = Some (a, w)" by auto
    then have w: "path = WorkspacePath a w" "segment a" "segment w" by (simp_all add: SplitWorkspacePath_Some)
    have "path = OrgProviderPath o' n" "segment o'" using that by (simp_all add: SplitOrgProviderPath_Some)
    then have eq: "a @ CHR '':'' # w = o' @ CHR '':'' # ((OrgProvidersWorkspaceName @ '':'') @ n)"
      using w(1) unfolding paths_under_tenants by (metis same_append_eq)
    have "CHR '':'' \<notin> set a" "CHR '':'' \<notin> set o'" using w(2) \<open>segment o'\<close> by (simp_all add: segment_def)
    from Cut_append [OF this(1), of w] Cut_append [OF this(2), of "(OrgProvidersWorkspaceName @ '':'') @ n"]
    have "w = (OrgProvidersWorkspaceName @ '':'') @ n" unfolding eq by (simp only: prod.inject)
    then show False using w(3) by (simp add: segment_def)
  qed
  then have "SplitWorkspacePath path = None \<or> SplitOrgProviderPath path = None"
    by (cases "SplitOrgProviderPath path") auto
  then show ?thesis using SplitWorkspacePath_Some [of path org ws] SplitOrgProviderPath_Some [of path org name]
    by (intro conjI)
qed

end
