(* ===== verification/GoPaths.thy ===== *)
theory GoPaths
  imports GoStrings Prelude
begin

text \<open>
  \<open>strings.Split\<close> at one character, and \<open>filepath.Clean\<close> and \<open>filepath.Join\<close> on a system whose separator
  is the slash.

  Binary search, as \<open>sort.Search\<close> does it: the first index at which a monotone predicate holds.
\<close>

fun Split :: "char \<Rightarrow> string \<Rightarrow> string list" where
  "Split sep [] = [[]]"
| "Split sep (c # s) =
     (if c = sep then [] # Split sep s
      else case Split sep s of [] \<Rightarrow> [[c]] | w # ws \<Rightarrow> (c # w) # ws)"

lemma Split_not_Nil [simp]: "Split sep s \<noteq> []"
  by (induction s) (auto split: list.split)

text \<open>The parts kept so far are in reverse.\<close>

fun clean_parts :: "bool \<Rightarrow> string list \<Rightarrow> string list \<Rightarrow> string list" where
  "clean_parts rooted acc [] = rev acc"
| "clean_parts rooted acc (p # ps) =
     (if p = [] \<or> p = ''.'' then clean_parts rooted acc ps
      else if p = ''..'' then
        (case acc of
           [] \<Rightarrow> clean_parts rooted (if rooted then [] else [''..'']) ps
         | q # qs \<Rightarrow> clean_parts rooted (if q = ''..'' then ''..'' # acc else qs) ps)
      else clean_parts rooted (p # acc) ps)"

definition Clean :: "string \<Rightarrow> string" where
  "Clean path =
     (let rooted = hasPrefix path ''/'';
          out = (if rooted then ''/'' else []) @ Join (clean_parts rooted [] (Split (CHR ''/'') path)) ''/''
      in if out = [] then ''.'' else out)"

definition path_Join :: "string list \<Rightarrow> string" where
  "path_Join elems = (case dropWhile (\<lambda>e. e = []) elems of [] \<Rightarrow> [] | es \<Rightarrow> Clean (Join es ''/''))"

text \<open>A clean name is one path element.\<close>

definition plain_name :: "string \<Rightarrow> bool" where
  "plain_name s \<longleftrightarrow> s \<noteq> [] \<and> s \<noteq> ''.'' \<and> s \<noteq> ''..'' \<and> CHR ''/'' \<notin> set s"

function Search :: "(nat \<Rightarrow> bool) \<Rightarrow> nat \<Rightarrow> nat \<Rightarrow> nat" where
  "Search f i j =
     (if i < j then (let h = (i + j) div 2 in if f h then Search f i h else Search f (h + 1) j) else i)"
  by pat_completeness auto
termination by (relation "measure (\<lambda>(_, i, j). j - i)") auto

declare Search.simps [simp del]

lemma Search_first:
  assumes "i \<le> j" "\<forall>x y. i \<le> x \<and> x \<le> y \<and> y < j \<and> f x \<longrightarrow> f y"
  shows "i \<le> Search f i j \<and> Search f i j \<le> j \<and> (\<forall>x. i \<le> x \<and> x < Search f i j \<longrightarrow> \<not> f x) \<and>
    (Search f i j < j \<longrightarrow> f (Search f i j))"
  using assms
proof (induction f i j rule: Search.induct)
  case (1 f i j)
  let ?h = "(i + j) div 2"
  show ?case
  proof (cases "i < j")
    case False
    then have "Search f i j = i" by (simp add: Search.simps [of f i j])
    then show ?thesis using False "1.prems"(1) by auto
  next
    case True
    then have h: "i \<le> ?h" "?h < j" by auto
    show ?thesis
    proof (cases "f ?h")
      case hit: True
      have "\<forall>x y. i \<le> x \<and> x \<le> y \<and> y < ?h \<and> f x \<longrightarrow> f y" using "1.prems"(2) h(2) by (meson order.strict_trans)
      note IH = "1.IH"(1) [OF True refl hit h(1) this]
      have S: "Search f i j = Search f i ?h" using True hit by (simp add: Search.simps [of f i j] Let_def)
      have "Search f i ?h < j \<longrightarrow> f (Search f i ?h)" using IH hit by (cases "Search f i ?h = ?h") auto
      then show ?thesis unfolding S using IH h(2) by auto
    next
      case miss: False
      have low: "\<not> f x" if "i \<le> x" "x \<le> ?h" for x using "1.prems"(2) h(2) miss that by blast
      have "\<forall>x y. ?h + 1 \<le> x \<and> x \<le> y \<and> y < j \<and> f x \<longrightarrow> f y" using "1.prems"(2) h(1) by (meson add_leE order_trans)
      from "1.IH"(2) [OF True refl miss _ this] h(2)
      have IH: "?h + 1 \<le> Search f (?h + 1) j" "Search f (?h + 1) j \<le> j"
        "Search f (?h + 1) j < j \<longrightarrow> f (Search f (?h + 1) j)"
        "\<And>x. ?h + 1 \<le> x \<Longrightarrow> x < Search f (?h + 1) j \<Longrightarrow> \<not> f x" by simp_all
      have S: "Search f i j = Search f (?h + 1) j" using True miss by (simp add: Search.simps [of f i j] Let_def)
      have "\<not> f x" if "i \<le> x" "x < Search f (?h + 1) j" for x
        using that low [of x] IH(4) [of x] by (cases "x \<le> ?h") auto
      then show ?thesis unfolding S using IH(1-3) h(1) by (intro conjI) auto
    qed
  qed
qed

lemma filter_cut:
  assumes "\<forall>x \<in> set (take k xs). \<not> P x" "\<forall>x \<in> set (drop k xs). P x"
  shows "drop k xs = filter P xs" "take k xs = filter (\<lambda>x. \<not> P x) xs"
proof -
  have "filter R xs = filter R (take k xs) @ filter R (drop k xs)" for R
    by (simp only: filter_append [symmetric] append_take_drop_id)
  note split = this
  show "drop k xs = filter P xs" unfolding split using assms by simp
  show "take k xs = filter (\<lambda>x. \<not> P x) xs" unfolding split using assms by simp
qed

text \<open>On a list sorted by a key, the elements above and below a bound.\<close>

lemma Search_sorted:
  fixes key :: "'a \<Rightarrow> 'k :: linorder"
  assumes "sorted (map key xs)" "\<And>x. P x \<longleftrightarrow> \<not> Q x" "\<And>x y. key x \<le> key y \<Longrightarrow> P x \<Longrightarrow> P y"
  shows "drop (Search (\<lambda>i. P (xs ! i)) 0 (length xs)) xs = filter P xs"
    "take (Search (\<lambda>i. P (xs ! i)) 0 (length xs)) xs = filter Q xs"
proof -
  let ?k = "Search (\<lambda>i. P (xs ! i)) 0 (length xs)"
  have mono: "P (xs ! y)" if "x \<le> y" "y < length xs" "P (xs ! x)" for x y
    using assms(3) [of "xs ! x" "xs ! y"] that sorted_nth_mono [OF assms(1), of x y] by simp
  have "\<forall>x y. 0 \<le> x \<and> x \<le> y \<and> y < length xs \<and> P (xs ! x) \<longrightarrow> P (xs ! y)" using mono by blast
  note S = Search_first [OF le0 this]
  have first: "?k \<le> length xs" "?k < length xs \<Longrightarrow> P (xs ! ?k)" using S by simp_all
  have miss: "\<not> P (xs ! x)" if "x < ?k" for x using S that by simp
  have below: "\<not> P x" if x: "x \<in> set (take ?k xs)" for x
  proof -
    from x have "\<exists>n < length (take ?k xs). take ?k xs ! n = x" by (simp only: in_set_conv_nth)
    then obtain n where n: "n < length (take ?k xs)" "take ?k xs ! n = x" by (elim exE conjE)
    then have "n < ?k" by simp
    then show ?thesis using miss [of n] n(2) by simp
  qed
  have above: "P x" if x: "x \<in> set (drop ?k xs)" for x
  proof -
    from x have "\<exists>n < length (drop ?k xs). drop ?k xs ! n = x" by (simp only: in_set_conv_nth)
    then obtain n where n: "n < length (drop ?k xs)" "drop ?k xs ! n = x" by (elim exE conjE)
    then have len: "?k + n < length xs" by simp
    then have "?k < length xs" by (rule add_lessD1)
    then have "P (xs ! (?k + n))" by (intro mono [OF le_add1 len] first(2))
    then show ?thesis using n first(1) by simp
  qed
  have "\<forall>x \<in> set (take ?k xs). \<not> P x" by (intro ballI) (rule below)
  moreover have "\<forall>x \<in> set (drop ?k xs). P x" by (intro ballI) (rule above)
  ultimately have cut: "drop ?k xs = filter P xs" "take ?k xs = filter (\<lambda>x. \<not> P x) xs" by (rule filter_cut)+
  have "(\<lambda>x. \<not> P x) = Q" by (intro ext) (simp only: assms(2) not_not)
  with cut show "drop ?k xs = filter P xs" "take ?k xs = filter Q xs" by (simp_all only:)
qed

end
