(* ===== verification/TriggerFilter.thy ===== *)
theory TriggerFilter
  imports UploadPolicy GoPaths
begin

text \<open>
  Which webhook deliveries fire a Trigger (\<open>providers/agents/internal/triggerfilter\<close>). The JSON
  decoder is the argument \<open>decode\<close>: the document the body holds, or its bytes when it holds none.
\<close>

section \<open>Headers\<close>

text \<open>\<open>http.Header\<close>: values under canonical names; \<open>Get\<close> canonicalises the name it is asked for.\<close>

definition upper_char :: "char \<Rightarrow> char" where
  "upper_char c = (if CHR ''a'' \<le> c \<and> c \<le> CHR ''z'' then char_of (of_char c - 32 :: nat) else c)"

fun canonical_from :: "bool \<Rightarrow> string \<Rightarrow> string" where
  "canonical_from upper [] = []"
| "canonical_from upper (c # s) =
     (if upper then upper_char c else lower_char c) # canonical_from (c = CHR ''-'') s"

definition CanonicalHeaderKey :: "string \<Rightarrow> string" where
  "CanonicalHeaderKey s = (if list_all token_char s then canonical_from True s else s)"

type_synonym Header = "string list gomap"

definition Header_Get :: "Header \<Rightarrow> string \<Rightarrow> string" where
  "Header_Get h name = (case mgetd [] h (CanonicalHeaderKey name) of [] \<Rightarrow> [] | v # _ \<Rightarrow> v)"

section \<open>Strings\<close>

definition Contains :: "string \<Rightarrow> string \<Rightarrow> bool" where
  "Contains s t \<longleftrightarrow> list_ex (\<lambda>i. hasPrefix (drop i s) t) [0..<Suc (length s)]"

text \<open>Reading one string out of the body; of two members with one name the later one counts.\<close>

fun walk_path :: "jval \<Rightarrow> string list \<Rightarrow> jval" where
  "walk_path cur [] = cur"
| "walk_path cur (key # path) =
     (case cur of JObj ms \<Rightarrow> walk_path (mgetd JNull (rev ms) key) path | _ \<Rightarrow> JNull)"

definition BodyField :: "(string \<Rightarrow> raw_json) \<Rightarrow> string \<Rightarrow> string list \<Rightarrow> string" where
  "BodyField decode body path =
     (case decode body of
        RawInvalid _ \<Rightarrow> []
      | RawJSON doc \<Rightarrow>
          (case doc of
             JObj ms \<Rightarrow> (case walk_path (JObj ms) path of JStr s \<Rightarrow> TrimSpace s | _ \<Rightarrow> [])
           | _ \<Rightarrow> []))"

definition EventTypeHeaders :: "string list" where
  "EventTypeHeaders = [''X-GitHub-Event'', ''X-Event-Type'', ''X-Event-Key'']"

definition EventType :: "(string \<Rightarrow> raw_json) \<Rightarrow> Header \<Rightarrow> string \<Rightarrow> string" where
  "EventType decode headers body =
     (case find (\<lambda>h. \<not> blank (Header_Get headers h)) EventTypeHeaders of
        Some h \<Rightarrow> TrimSpace (Header_Get headers h)
      | None \<Rightarrow> (let v = BodyField decode body [''type''] in
          if v \<noteq> [] then v else BodyField decode body [''action'']))"

record Extracted =
  ex_EventType :: string
  ex_Action :: string
  ex_Repository :: string

definition Extract :: "(string \<Rightarrow> raw_json) \<Rightarrow> Header \<Rightarrow> string \<Rightarrow> Extracted" where
  "Extract decode headers body =
     \<lparr>ex_EventType = EventType decode headers body, ex_Action = BodyField decode body [''action''],
       ex_Repository = BodyField decode body [''repository'', ''full_name'']\<rparr>"

definition anyOf :: "string \<Rightarrow> string \<Rightarrow> bool" where
  "anyOf want got \<longleftrightarrow>
     list_ex (\<lambda>entry. TrimSpace entry \<noteq> [] \<and> EqualFold (TrimSpace entry) got) (Split (CHR '','') want)"

section \<open>Verdicts\<close>

record FilterKey =
  fk_Key :: string
  fk_Want :: string
  fk_Got :: string
  fk_Matched :: bool
  fk_Known :: bool
  fk_Reason :: string

record Verdict =
  vd_Matched :: bool
  vd_Reason :: string
  vd_Keys :: "FilterKey list"
  vd_Extracted :: Extracted

definition one_of :: "string \<Rightarrow> string \<Rightarrow> string \<Rightarrow> FilterKey" where
  "one_of key want got =
     \<lparr>fk_Key = key, fk_Want = want, fk_Got = got, fk_Matched = anyOf want got, fk_Known = True,
       fk_Reason = (if anyOf want got then [] else key @ '' does not match '' @ want)\<rparr>"

definition filter_entry :: "Extracted \<Rightarrow> Header \<Rightarrow> string \<Rightarrow> string \<Rightarrow> string \<Rightarrow> FilterKey" where
  "filter_entry ex headers body key want =
     (if key = ''eventType'' then one_of key want (ex_EventType ex)
      else if key = ''action'' then one_of key want (ex_Action ex)
      else if key = ''repository'' then one_of key want (ex_Repository ex)
      else if key = ''match'' then
        \<lparr>fk_Key = key, fk_Want = want, fk_Got = [], fk_Matched = Contains body want, fk_Known = True,
          fk_Reason = (if Contains body want then [] else ''payload does not contain '' @ want)\<rparr>
      else if hasPrefix key ''header.'' then
        (let got = Header_Get headers (TrimPrefix key ''header.'') in
         \<lparr>fk_Key = key, fk_Want = want, fk_Got = got, fk_Matched = EqualFold got want, fk_Known = True,
           fk_Reason = (if EqualFold got want then [] else key @ '' does not match'')\<rparr>)
      else \<lparr>fk_Key = key, fk_Want = want, fk_Got = [], fk_Matched = True, fk_Known = False,
             fk_Reason = key @ '' is not a filter key and is ignored''\<rparr>)"

fun evaluate_loop :: "string gomap \<Rightarrow> Header \<Rightarrow> string \<Rightarrow> Verdict \<Rightarrow> string list \<Rightarrow> Verdict" where
  "evaluate_loop flt headers body v [] = v"
| "evaluate_loop flt headers body v (key # ks) =
     (let want = TrimSpace (mgetd [] flt key) in
      if want = [] then evaluate_loop flt headers body v ks
      else (let e = filter_entry (vd_Extracted v) headers body key want;
                v = (if \<not> fk_Matched e \<and> vd_Matched v
                     then v\<lparr>vd_Matched := False, vd_Reason := fk_Reason e\<rparr> else v)
            in evaluate_loop flt headers body (v\<lparr>vd_Keys := vd_Keys v @ [e]\<rparr>) ks))"

definition Evaluate :: "(string \<Rightarrow> raw_json) \<Rightarrow> string gomap \<Rightarrow> Header \<Rightarrow> string \<Rightarrow> Verdict" where
  "Evaluate decode flt headers body =
     evaluate_loop flt headers body
       \<lparr>vd_Matched = True, vd_Reason = [], vd_Keys = [], vd_Extracted = Extract decode headers body\<rparr>
       (sort (map fst flt))"

definition Known :: "string \<Rightarrow> bool" where
  "Known key \<longleftrightarrow> key \<in> {''eventType'', ''action'', ''repository'', ''match''} \<or> hasPrefix key ''header.''"

definition UnknownKeys :: "string gomap \<Rightarrow> string list" where
  "UnknownKeys flt = sort (filter (\<lambda>key. \<not> Known key) (map fst flt))"

definition Allows :: "(string \<Rightarrow> raw_json) \<Rightarrow> string gomap \<Rightarrow> Header \<Rightarrow> string \<Rightarrow> string \<times> bool" where
  "Allows decode flt headers body =
     (if flt = [] then ([], True)
      else (let v = Evaluate decode flt headers body in (vd_Reason v, vd_Matched v)))"

section \<open>The meaning of a verdict\<close>

text \<open>The entries of a filter that count, in the order of their keys.\<close>

definition live_entries :: "(string \<Rightarrow> raw_json) \<Rightarrow> string gomap \<Rightarrow> Header \<Rightarrow> string \<Rightarrow> FilterKey list" where
  "live_entries decode flt headers body =
     map (\<lambda>key. filter_entry (Extract decode headers body) headers body key (TrimSpace (mgetd [] flt key)))
       (filter (\<lambda>key. TrimSpace (mgetd [] flt key) \<noteq> []) (sort (map fst flt)))"

lemma evaluate_loop_spec:
  "evaluate_loop flt headers body v ks =
     (let es = map (\<lambda>key. filter_entry (vd_Extracted v) headers body key (TrimSpace (mgetd [] flt key)))
                 (filter (\<lambda>key. TrimSpace (mgetd [] flt key) \<noteq> []) ks)
      in v\<lparr>vd_Matched := vd_Matched v \<and> list_all fk_Matched es,
           vd_Reason := (if vd_Matched v then (case find (\<lambda>e. \<not> fk_Matched e) es of None \<Rightarrow> vd_Reason v
                          | Some e \<Rightarrow> fk_Reason e) else vd_Reason v),
           vd_Keys := vd_Keys v @ es\<rparr>)"
  by (induction ks arbitrary: v) (auto simp: Let_def split: option.split)

lemma filter_entry_key [simp]: "fk_Key (filter_entry ex headers body key want) = key"
  by (simp add: filter_entry_def one_of_def Let_def)

lemma filter_entry_known: "fk_Known (filter_entry ex headers body key want) \<longleftrightarrow> Known key"
  by (auto simp: filter_entry_def one_of_def Known_def Let_def)

lemma filter_entry_unknown: "\<not> Known key \<Longrightarrow> fk_Matched (filter_entry ex headers body key want)"
  by (auto simp: filter_entry_def Known_def)

text \<open>A delivery fires exactly when every entry of the filter with a known key and a value passes;
  when it does not, the reason is that of the failing entry with the least key; and the entries the
  verdict marks unknown are those with a value among the keys a writer is warned about.\<close>

theorem Allows_spec:
  "(snd (Allows decode flt headers body) \<longleftrightarrow>
      (\<forall>key \<in> fst ` set flt. TrimSpace (mgetd [] flt key) = [] \<or> \<not> Known key \<or>
         fk_Matched (filter_entry (Extract decode headers body) headers body key (TrimSpace (mgetd [] flt key))))) \<and>
   (fst (Allows decode flt headers body) =
      (case find (\<lambda>e. \<not> fk_Matched e) (live_entries decode flt headers body) of
         None \<Rightarrow> [] | Some e \<Rightarrow> fk_Reason e)) \<and>
   sorted (map fk_Key (vd_Keys (Evaluate decode flt headers body))) \<and>
   map fk_Key (filter (\<lambda>e. \<not> fk_Known e) (vd_Keys (Evaluate decode flt headers body))) =
      filter (\<lambda>key. TrimSpace (mgetd [] flt key) \<noteq> []) (UnknownKeys flt)"
proof -
  let ?v = "Evaluate decode flt headers body" and ?es = "live_entries decode flt headers body"
  have v: "vd_Matched ?v = list_all fk_Matched ?es" "vd_Keys ?v = ?es"
    "vd_Reason ?v = (case find (\<lambda>e. \<not> fk_Matched e) ?es of None \<Rightarrow> [] | Some e \<Rightarrow> fk_Reason e)"
    by (simp_all add: Evaluate_def evaluate_loop_spec live_entries_def Let_def split: option.split)
  have keys: "map fk_Key ?es = filter (\<lambda>key. TrimSpace (mgetd [] flt key) \<noteq> []) (sort (map fst flt))"
    by (simp add: live_entries_def comp_def)
  have m: "snd (Allows decode flt headers body) = list_all fk_Matched ?es"
    using v by (auto simp: Allows_def Let_def live_entries_def)
  have r: "fst (Allows decode flt headers body) =
      (case find (\<lambda>e. \<not> fk_Matched e) ?es of None \<Rightarrow> [] | Some e \<Rightarrow> fk_Reason e)"
    using v by (auto simp: Allows_def Let_def live_entries_def)
  have "list_all fk_Matched ?es \<longleftrightarrow> (\<forall>key \<in> fst ` set flt. TrimSpace (mgetd [] flt key) = [] \<or> \<not> Known key \<or>
       fk_Matched (filter_entry (Extract decode headers body) headers body key (TrimSpace (mgetd [] flt key))))"
    using filter_entry_unknown by (fastforce simp: live_entries_def list_all_iff)
  moreover have "sorted (map fk_Key ?es)" unfolding keys by (simp add: sorted_filter [where f = id, simplified])
  moreover have "map fk_Key (filter (\<lambda>e. \<not> fk_Known e) ?es) =
      filter (\<lambda>key. TrimSpace (mgetd [] flt key) \<noteq> []) (UnknownKeys flt)"
    by (simp add: live_entries_def UnknownKeys_def filter_map comp_def filter_entry_known filter_sort conj_commute)
  ultimately show ?thesis using m r v(2) by simp
qed

end
