(* ===== verification/RunnerProtocol.thy ===== *)
theory RunnerProtocol
  imports UploadPolicy GoPaths
begin

text \<open>
  The wire types of the runner (\<open>pkg/runner/protocol.go\<close>): what a coordinator asks for, the receipt of an
  attempt, and the structured error. A \<open>json.RawMessage\<close> is its bytes. Phases, event types and error codes are
  strings, with their constants as abbreviations.
\<close>

section \<open>Constants\<close>

abbreviation ProtocolVersion :: string where "ProtocolVersion \<equiv> ''runner/v1''"

abbreviation PhaseAccepted :: string where "PhaseAccepted \<equiv> ''accepted''"
abbreviation PhaseStarting :: string where "PhaseStarting \<equiv> ''starting''"
abbreviation PhaseRunning :: string where "PhaseRunning \<equiv> ''running''"
abbreviation PhaseNeedsInput :: string where "PhaseNeedsInput \<equiv> ''needs_input''"
abbreviation PhaseCancelling :: string where "PhaseCancelling \<equiv> ''cancelling''"
abbreviation PhaseCancelled :: string where "PhaseCancelled \<equiv> ''cancelled''"
abbreviation PhaseCompleted :: string where "PhaseCompleted \<equiv> ''completed''"
abbreviation PhaseFailed :: string where "PhaseFailed \<equiv> ''failed''"

definition IsTerminal :: "string \<Rightarrow> bool" where
  "IsTerminal p \<longleftrightarrow> p \<in> {''cancelled'', ''completed'', ''failed''}"

lemma IsTerminal_simps [simp]:
  "IsTerminal PhaseCancelled" "IsTerminal PhaseCompleted" "IsTerminal PhaseFailed"
  "\<not> IsTerminal PhaseAccepted" "\<not> IsTerminal PhaseStarting" "\<not> IsTerminal PhaseRunning"
  "\<not> IsTerminal PhaseNeedsInput" "\<not> IsTerminal PhaseCancelling"
  by (simp_all add: IsTerminal_def)

abbreviation EventAccepted :: string where "EventAccepted \<equiv> ''accepted''"
abbreviation EventStarted :: string where "EventStarted \<equiv> ''started''"
abbreviation EventProgress :: string where "EventProgress \<equiv> ''progress''"
abbreviation EventCheckpoint :: string where "EventCheckpoint \<equiv> ''checkpoint''"
abbreviation EventNeedsInput :: string where "EventNeedsInput \<equiv> ''needs_input''"
abbreviation EventArtifact :: string where "EventArtifact \<equiv> ''artifact''"
abbreviation EventCompleted :: string where "EventCompleted \<equiv> ''completed''"
abbreviation EventFailed :: string where "EventFailed \<equiv> ''failed''"
abbreviation EventCancelled :: string where "EventCancelled \<equiv> ''cancelled''"

abbreviation ErrorInvalidRequest :: string where "ErrorInvalidRequest \<equiv> ''invalid_request''"
abbreviation ErrorForbidden :: string where "ErrorForbidden \<equiv> ''forbidden''"
abbreviation ErrorUnsupportedVersion :: string where "ErrorUnsupportedVersion \<equiv> ''unsupported_version''"
abbreviation ErrorUnsupportedCapability :: string where "ErrorUnsupportedCapability \<equiv> ''unsupported_capability''"
abbreviation ErrorBusy :: string where "ErrorBusy \<equiv> ''busy''"
abbreviation ErrorStaleAttempt :: string where "ErrorStaleAttempt \<equiv> ''stale_attempt''"
abbreviation ErrorIdempotencyConflict :: string where "ErrorIdempotencyConflict \<equiv> ''idempotency_conflict''"
abbreviation ErrorCheckpointUnavailable :: string where "ErrorCheckpointUnavailable \<equiv> ''checkpoint_unavailable''"
abbreviation ErrorUnavailable :: string where "ErrorUnavailable \<equiv> ''unavailable''"

abbreviation PermissionAllow :: string where "PermissionAllow \<equiv> ''allow''"
abbreviation PermissionDeny :: string where "PermissionDeny \<equiv> ''deny''"

definition maxIdentifierBytes :: nat where "maxIdentifierBytes = 128"
definition maxMessageBytes :: nat where "maxMessageBytes = 8192"

section \<open>Requests\<close>

record HarnessCapability =
  hc_Name :: string
  hc_Version :: string
  hc_Ready :: bool

record Capabilities =
  cap_Harnesses :: "HarnessCapability list"
  cap_Verification :: "string list"
  cap_Ready :: bool
  cap_Reasons :: "string list"

record ExecutionLimits =
  lim_MaxDurationSeconds :: int
  lim_MaxOutputBytes :: int
  lim_MaxTurns :: int

record InputFile =
  in_ID :: string
  in_Name :: string
  in_GroupID :: string
  in_RelativePath :: string
  in_MediaType :: string
  in_Digest :: string
  in_Size :: int

record ArtifactSpec =
  spec_Name :: string
  spec_Path :: string
  spec_MediaType :: string
  spec_Digest :: string

record RepositorySource =
  src_RemoteURL :: string
  src_Username :: string
  src_Token :: string

record EnvironmentVariable =
  var_Name :: string
  var_Value :: string

record MCPServer =
  mcp_Name :: string
  mcp_URL :: string
  mcp_Token :: string

text \<open>What a coordinator sends and what an adapter is given (\<open>harness.Credential\<close>) have the same fields.\<close>

record HarnessCredential =
  hcr_Kind :: string
  hcr_Value :: string
  hcr_Environment :: "EnvironmentVariable list"
  hcr_MCPServers :: "MCPServer list"

text \<open>Resource requests are their names.\<close>

record StartRequest =
  sreq_ProtocolVersion :: string
  sreq_RequestID :: string
  sreq_TaskID :: string
  sreq_AttemptID :: string
  sreq_AttemptEpoch :: nat
  sreq_RepositoryID :: string
  sreq_EnvironmentID :: string
  sreq_BaseCommit :: string
  sreq_WorkspaceID :: string
  sreq_SessionID :: string
  sreq_HarnessCredential :: "HarnessCredential option"
  sreq_Instructions :: string
  sreq_Model :: string
  sreq_ReasoningEffort :: string
  sreq_ApprovedInput :: string
  sreq_RequiredCapabilities :: "string list"
  sreq_RequiredToolchains :: "string list"
  sreq_RequiredEnvironment :: "string list"
  sreq_RequiredHarness :: string
  sreq_RequiredHarnessVersion :: string
  sreq_AskPermission :: bool
  sreq_ExportGitResult :: bool
  sreq_CommitMessage :: string
  sreq_Limits :: ExecutionLimits
  sreq_VerificationNames :: "string list"
  sreq_VerificationCommands :: "string list"
  sreq_Resources :: "string list"
  sreq_Artifacts :: "ArtifactSpec list"
  sreq_InputFiles :: "InputFile list"
  sreq_Repository :: "RepositorySource option"

record CancelRequest =
  creq_ProtocolVersion :: string
  creq_RequestID :: string
  creq_TaskID :: string
  creq_AttemptID :: string
  creq_AttemptEpoch :: nat

record ResumeRequest =
  rreq_ProtocolVersion :: string
  rreq_RequestID :: string
  rreq_TaskID :: string
  rreq_AttemptID :: string
  rreq_AttemptEpoch :: nat
  rreq_SessionID :: string
  rreq_ClarificationID :: string
  rreq_ApprovedInput :: string
  rreq_Resolution :: string
  rreq_Instructions :: string
  rreq_HarnessCredential :: "HarnessCredential option"
  rreq_PermissionID :: string
  rreq_PermissionDecision :: string

section \<open>Receipts and errors\<close>

text \<open>The receipt an error carries is beside it where it is reported; here is whether there is one.\<close>

record runner_error =
  re_Code :: string
  re_Retryable :: bool
  re_Message :: string
  re_Receipt :: bool

record Question =
  qu_ID :: string
  qu_Prompt :: string
  qu_Options :: "(string \<times> string) list"

record Clarification =
  cl_ID :: string
  cl_Text :: string
  cl_Questions :: "Question list"

record PermissionRequest =
  pr_ID :: string
  pr_Tool :: string
  pr_Input :: string

record PermissionVerdict =
  pv_Allow :: bool
  pv_Message :: string

record Artifact =
  art_ID :: string
  art_Name :: string
  art_Digest :: string
  art_Length :: int
  art_MediaType :: string
  art_CreatedAt :: time

record AttemptReceipt =
  rc_ProtocolVersion :: string
  rc_TaskID :: string
  rc_AttemptID :: string
  rc_AttemptEpoch :: nat
  rc_Phase :: string
  rc_SessionID :: string
  rc_Workdir :: string
  rc_Cursor :: nat
  rc_Blocker :: string
  rc_Clarification :: "Clarification option"
  rc_Permission :: "PermissionRequest option"
  rc_Resources :: "string list"
  rc_LastError :: "runner_error option"
  rc_Artifacts :: "Artifact list"
  rc_AcceptedAt :: time
  rc_UpdatedAt :: time

definition boundedMessage :: "string \<Rightarrow> string" where
  "boundedMessage m = (if length m \<le> maxMessageBytes then m else take maxMessageBytes m)"

section \<open>Libraries\<close>

text \<open>What the runner uses of Go's library beside the string functions: \<open>strconv.Quote\<close>, \<open>strings.ToLower\<close> and
  \<open>strings.EqualFold\<close> of text that need not be ASCII, \<open>encoding/json\<close> (into \<open>any\<close>, and of the values it marshals), \<open>url.Parse\<close> and \<open>url.PathUnescape\<close>, \<open>net.ParseIP\<close> with \<open>IsLoopback\<close>, and
  the working directory \<open>filepath.Abs\<close> starts from.\<close>

record parsedURL =
  pu_Scheme :: string
  pu_Opaque :: string
  pu_User :: "(string \<times> bool) option"  \<comment> \<open>the name, and whether there is a password\<close>
  pu_Host :: string
  pu_Hostname :: string
  pu_Path :: string
  pu_RawPath :: string
  pu_RawQuery :: string
  pu_Fragment :: string

record RunnerLib =
  rl_Quote :: "string \<Rightarrow> string"
  rl_ToLower :: "string \<Rightarrow> string"
  rl_EqualFold :: "string \<Rightarrow> string \<Rightarrow> bool"
  rl_JSON :: "string \<Rightarrow> jval option"
  rl_Marshal :: "jval \<Rightarrow> string"
  rl_MarshalStart :: "StartRequest \<Rightarrow> string"
  rl_MarshalCancel :: "CancelRequest \<Rightarrow> string"
  rl_MarshalResume :: "ResumeRequest \<Rightarrow> string"
  rl_URL :: "string \<Rightarrow> parsedURL option"
  rl_PathUnescape :: "string \<Rightarrow> string option"
  rl_LoopbackIP :: "string \<Rightarrow> bool"
  rl_Cwd :: "string option"

end
