(* ===== verification/Retry.thy ===== *)
theory Retry
  imports RunFacts RunnerProtocol
begin

text \<open>
  Retrying unattended runs (\<open>providers/agents/api/retry.go\<close>): a run a busy runner refused is handed
  back to the queue of its Agent through the store's \<open>GetRun\<close>, \<open>ListQueuedRuns\<close> and \<open>SaveRun\<close>.
  The rendering of a time in a message is the argument \<open>fmt\<close>; the projection of a row onto its
  Run object happens outside the store.
\<close>

section \<open>Backoff\<close>

abbreviation Minute :: int where "Minute \<equiv> 60 * Second"

definition defaultMaxRunAttempts :: int where "defaultMaxRunAttempts = 24"
definition runRetryBaseBackoff :: int where "runRetryBaseBackoff = Minute"
definition runRetryMaxBackoff :: int where "runRetryMaxBackoff = 5 * Minute"
definition runRetryStagger :: int where "runRetryStagger = 15 * Second"

function backoff_loop :: "int \<Rightarrow> int \<Rightarrow> int \<Rightarrow> int" where
  "backoff_loop retry i backoff =
     (if i < retry \<and> backoff < runRetryMaxBackoff then backoff_loop retry (i + 1) (backoff * 2) else backoff)"
  by pat_completeness auto
termination by (relation "measure (\<lambda>(retry, i, _). nat (retry - i))") auto

declare backoff_loop.simps [simp del]

definition runRetryBackoff :: "int \<Rightarrow> int" where
  "runRetryBackoff retry = min (backoff_loop retry 1 runRetryBaseBackoff) runRetryMaxBackoff"

section \<open>Refusals\<close>

text \<open>An error is the list of what it wraps, itself first; \<open>nil\<close> is the empty list. \<open>errors.Is\<close> and
  \<open>errors.As\<close> walk it in that order.\<close>

datatype wrapped = Canceled | DeadlineExceeded | RunnerError runner_error | OtherError string

type_synonym go_error = "wrapped list"


fun first_refusal :: "go_error \<Rightarrow> runner_error option" where
  "first_refusal [] = None"
| "first_refusal (RunnerError e # _) = Some e"
| "first_refusal (_ # es) = first_refusal es"

definition Refusal :: "go_error \<Rightarrow> runner_error option" where
  "Refusal err = (case first_refusal err of None \<Rightarrow> None
     | Some e \<Rightarrow> if re_Code e = [] then None else Some e)"

definition IsAttemptUnknown :: "go_error \<Rightarrow> bool" where
  "IsAttemptUnknown err = (case Refusal err of None \<Rightarrow> False
     | Some e \<Rightarrow> re_Code e = ErrorUnavailable \<and> \<not> re_Retryable e \<and> \<not> re_Receipt e)"

definition retryableRefusal :: "go_error \<Rightarrow> string option" where
  "retryableRefusal err =
     (if err = [] \<or> Canceled \<in> set err \<or> DeadlineExceeded \<in> set err then None
      else case Refusal err of None \<Rightarrow> None
      | Some refusal \<Rightarrow>
          if \<not> re_Retryable refusal \<or> re_Receipt refusal then None
          else if re_Code refusal = ErrorBusy \<or> re_Code refusal = ErrorUnavailable
          then Some (re_Message refusal) else None)"

section \<open>Handing a run back\<close>

definition UnattendedKinds :: "string list" where
  "UnattendedKinds = [''schedule'', ''trigger'', ''channel'']"

record taskRun =
  tr_RunID :: string
  tr_DeliveryKind :: string
  tr_MaxAttempts :: int

record runRequeued =
  rqd_cause :: go_error
  rqd_at :: time
  rqd_attempt :: int
  rqd_max :: int

definition queueStagger :: "MemoryStore \<Rightarrow> Scope \<Rightarrow> string \<Rightarrow> int \<times> MemoryStore" where
  "queueStagger m scope runID =
     (case ListQueuedRuns m scope of
        (Inl _, m) \<Rightarrow> (0, m)
      | (Inr queued, m) \<Rightarrow>
          (min (i64 (int (length (filter (\<lambda>other. run_ID other \<noteq> runID) queued)) * runRetryStagger))
             runRetryMaxBackoff, m))"

definition requeued :: "(time \<Rightarrow> string) \<Rightarrow> string \<Rightarrow> int \<Rightarrow> time \<Rightarrow> time \<Rightarrow> Run \<Rightarrow> Run" where
  "requeued fmt refused maxAttempts at retryAt stored =
     stored\<lparr>run_Retries := run_Retries stored + 1, run_Phase := RunPhasePending, run_RetryAt := Some retryAt,
       run_StartedAt := None, run_FinishedAt := None, run_Checkpoint := None,
       run_Message := ''attempt '' @ itoa (run_Retries stored + 1) @ '' of '' @ itoa maxAttempts @
         '' refused: '' @ refused @ ''; retrying at '' @ fmt retryAt,
       run_UpdatedAt := at\<rparr>"

definition max_attempts :: "taskRun \<Rightarrow> int" where
  "max_attempts run = (if tr_MaxAttempts run \<le> 0 then defaultMaxRunAttempts else tr_MaxAttempts run)"

definition retryRun :: "(time \<Rightarrow> string) \<Rightarrow> MemoryStore \<Rightarrow> Scope \<Rightarrow> taskRun \<Rightarrow> go_error \<Rightarrow> time \<Rightarrow>
    runRequeued option \<times> MemoryStore" where
  "retryRun fmt m scope run cause at =
     (if tr_DeliveryKind run \<notin> set UnattendedKinds then (None, m)
      else case retryableRefusal cause of None \<Rightarrow> (None, m)
      | Some refused \<Rightarrow>
        (case GetRun m scope (tr_RunID run) of
           (Inl _, m) \<Rightarrow> (None, m)
         | (Inr stored, m) \<Rightarrow>
             if run_CancelRequested stored then (None, m)
             else let attempt = run_Retries stored + 1 in
               if attempt \<ge> max_attempts run then (None, m)
               else (case queueStagger m scope (tr_RunID run) of (stagger, m) \<Rightarrow>
                 let retryAt = at + runRetryBackoff attempt + stagger in
                 (case SaveRun m scope (requeued fmt refused (max_attempts run) at retryAt stored) of
                    (Inl _, m) \<Rightarrow> (None, m)
                  | (Inr _, m) \<Rightarrow>
                      (Some \<lparr>rqd_cause = cause, rqd_at = retryAt, rqd_attempt = attempt,
                             rqd_max = max_attempts run\<rparr>, m)))))"

section \<open>Waking the queue\<close>

definition LastIndex :: "string \<Rightarrow> string \<Rightarrow> nat option" where
  "LastIndex s t = find (\<lambda>i. hasPrefix (drop i s) t) (rev [0..<Suc (length s)])"

definition woken :: "time \<Rightarrow> Run \<Rightarrow> Run" where
  "woken now run =
     run\<lparr>run_RetryAt := Some now, run_UpdatedAt := now,
       run_Message := (case LastIndex (run_Message run) ''; retrying at '' of
           None \<Rightarrow> run_Message run | Some i \<Rightarrow> take i (run_Message run)) @
         ''; a run on this agent finished, retrying now''\<rparr>"

definition wakes_later :: "time \<Rightarrow> Run \<Rightarrow> bool" where
  "wakes_later now run \<longleftrightarrow> (case run_RetryAt run of None \<Rightarrow> False | Some at \<Rightarrow> now < at)"

definition wakeNextQueued :: "MemoryStore \<Rightarrow> Scope \<Rightarrow> string \<Rightarrow> time \<Rightarrow> MemoryStore" where
  "wakeNextQueued m scope agentName now =
     (if agentName = [] then m
      else let scope = scope\<lparr>sc_AgentName := agentName\<rparr> in
        (case ListQueuedRuns m scope of
           (Inl _, m) \<Rightarrow> m
         | (Inr queued, m) \<Rightarrow>
             (case find (wakes_later now) queued of
                None \<Rightarrow> m
              | Some run \<Rightarrow> snd (SaveRun m scope (woken now run)))))"

definition withoutRun :: "Message list \<Rightarrow> string \<Rightarrow> Message list" where
  "withoutRun history runID =
     (if runID = [] then history else filter (\<lambda>message. msg_RunID message \<noteq> runID) history)"

section \<open>The backoff\<close>

lemma backoff_loop_closed:
  "0 < b \<Longrightarrow> min (backoff_loop retry i b) runRetryMaxBackoff = min (b * 2 ^ nat (retry - i)) runRetryMaxBackoff"
proof (induction retry i b rule: backoff_loop.induct)
  case (1 retry i b)
  show ?case
  proof (cases "i < retry \<and> b < runRetryMaxBackoff")
    case True
    then have "nat (retry - i) = Suc (nat (retry - (i + 1)))" by arith
    then show ?thesis using 1 True by (simp add: backoff_loop.simps [of retry i] mult.assoc)
  next
    case False
    have "b * 1 \<le> b * 2 ^ nat (retry - i)" using "1.prems" by (intro mult_left_mono) simp_all
    then show ?thesis using False by (auto simp: backoff_loop.simps [of retry i])
  qed
qed

lemma runRetryBackoff_eq: "runRetryBackoff n = min (Minute * 2 ^ nat (n - 1)) (5 * Minute)"
  unfolding runRetryBackoff_def
  by (subst backoff_loop_closed) (simp_all add: runRetryBaseBackoff_def runRetryMaxBackoff_def)

lemma runRetryBackoff_bounds: "Minute \<le> runRetryBackoff n" "runRetryBackoff n \<le> 5 * Minute"
proof -
  have "Minute * 1 \<le> Minute * 2 ^ nat (n - 1)" by (intro mult_left_mono) simp_all
  then show "Minute \<le> runRetryBackoff n" unfolding runRetryBackoff_eq by simp
qed (simp add: runRetryBackoff_eq)

text \<open>The wait before a retry doubles from one minute with every retry and stops at five.\<close>

theorem runRetryBackoff_closed:
  "runRetryBackoff n = min (Minute * 2 ^ nat (n - 1)) (5 * Minute)"
  by (rule runRetryBackoff_eq)

section \<open>The queue of an Agent\<close>

definition queue_rows :: "MemoryStore \<Rightarrow> Scope \<Rightarrow> Run list" where
  "queue_rows m s = oldest_first run_stamp (runs_where (\<lambda>run. run_AgentName run = sc_AgentName s \<and>
     run_Phase run = RunPhasePending \<and> run_RetryAt run \<noteq> None \<and> \<not> run_CancelRequested run) s m)"

lemma ListQueuedRuns_eq:
  "settled m \<Longrightarrow> withAgent (resolve m s) = None \<Longrightarrow> ListQueuedRuns m s = (Inr (queue_rows m (resolve m s)), m)"
  by (simp add: ListQueuedRuns_def run_op queue_rows_def)

lemma SaveRun_over:
  assumes "settled m" "withAgent (resolve m s) = None" "run_ID run \<noteq> []" "row_of m s (run_ID run) = Some old"
  obtains ip rs where "SaveRun m s run = (Inr (), m\<lparr>runs := mput (rowKey (resolve m s) (run_ID run)) (keep_owned old run) (runs m),
     idempotencyPrimary := ip, runScopes := rs\<rparr>)"
  using assms by (simp add: SaveRun_def run_op)

lemma keep_owned_requeued:
  "\<not> run_CancelRequested old \<Longrightarrow> keep_owned old (requeued fmt refused most at retryAt old) = requeued fmt refused most at retryAt old"
  by (cases old) (simp add: keep_owned_def requeued_def Let_def)

lemma keep_owned_woken: "\<not> run_CancelRequested old \<Longrightarrow> keep_owned old (woken now old) = woken now old"
  by (cases old) (simp add: keep_owned_def woken_def Let_def)

lemma queueStagger_eq:
  assumes "settled m" "withAgent (resolve m s) = None"
  shows "queueStagger m s rid = (min (i64 (int (length (filter (\<lambda>other. run_ID other \<noteq> rid)
    (queue_rows m (resolve m s)))) * runRetryStagger)) runRetryMaxBackoff, m)"
  using assms by (simp add: queueStagger_def ListQueuedRuns_eq)

definition retry_at :: "MemoryStore \<Rightarrow> Scope \<Rightarrow> string \<Rightarrow> time \<Rightarrow> Run \<Rightarrow> time" where
  "retry_at m s rid at old = at + runRetryBackoff (run_Retries old + 1) + fst (queueStagger m s rid)"

lemma retryRun_eq:
  assumes "settled m" "withAgent (resolve m s) = None" "tr_RunID t \<noteq> []"
    and "row_of m s (tr_RunID t) = Some old" "run_ID old = tr_RunID t"
    and "tr_DeliveryKind t \<in> set UnattendedKinds" "retryableRefusal cause = Some refused"
  obtains ip rs where "retryRun fmt m s t cause at =
    (if run_CancelRequested old \<or> run_Retries old + 1 \<ge> max_attempts t then (None, m)
     else (Some \<lparr>rqd_cause = cause, rqd_at = retry_at m s (tr_RunID t) at old, rqd_attempt = run_Retries old + 1,
             rqd_max = max_attempts t\<rparr>,
           m\<lparr>runs := mput (rowKey (resolve m s) (tr_RunID t))
                (requeued fmt refused (max_attempts t) at (retry_at m s (tr_RunID t) at old) old) (runs m),
             idempotencyPrimary := ip, runScopes := rs\<rparr>))"
proof -
  let ?new = "requeued fmt refused (max_attempts t) at (retry_at m s (tr_RunID t) at old) old"
  have id: "run_ID ?new = tr_RunID t" using assms(5) by (simp add: requeued_def)
  obtain ip rs where save: "SaveRun m s ?new = (Inr (), m\<lparr>runs := mput (rowKey (resolve m s) (run_ID ?new)) (keep_owned old ?new) (runs m),
     idempotencyPrimary := ip, runScopes := rs\<rparr>)"
    by (rule SaveRun_over [of m s ?new old]) (use assms id in auto)
  have get: "GetRun m s (tr_RunID t) = (Inr old, m)"
    using assms by (simp add: GetRun_def run_op withAgent_validate)
  obtain st where st: "queueStagger m s (tr_RunID t) = (st, m)"
    using queueStagger_eq [OF assms(1,2)] by blast
  then have ra: "retry_at m s (tr_RunID t) at old = at + runRetryBackoff (run_Retries old + 1) + st"
    by (simp add: retry_at_def)
  show ?thesis
  proof (rule that [where ip = ip and rs = rs], cases "run_CancelRequested old \<or> run_Retries old + 1 \<ge> max_attempts t")
    case True
    then show "retryRun fmt m s t cause at = (if run_CancelRequested old \<or> run_Retries old + 1 \<ge> max_attempts t then (None, m)
     else (Some \<lparr>rqd_cause = cause, rqd_at = retry_at m s (tr_RunID t) at old, rqd_attempt = run_Retries old + 1,
             rqd_max = max_attempts t\<rparr>,
           m\<lparr>runs := mput (rowKey (resolve m s) (tr_RunID t)) ?new (runs m), idempotencyPrimary := ip, runScopes := rs\<rparr>))"
      using assms(6,7) by (auto simp: retryRun_def get)
  next
    case False
    then show "retryRun fmt m s t cause at = (if run_CancelRequested old \<or> run_Retries old + 1 \<ge> max_attempts t then (None, m)
     else (Some \<lparr>rqd_cause = cause, rqd_at = retry_at m s (tr_RunID t) at old, rqd_attempt = run_Retries old + 1,
             rqd_max = max_attempts t\<rparr>,
           m\<lparr>runs := mput (rowKey (resolve m s) (tr_RunID t)) ?new (runs m), idempotencyPrimary := ip, runScopes := rs\<rparr>))"
      using assms(6,7) save id
      by (simp add: retryRun_def get keep_owned_requeued st ra Let_def)
  qed
qed

section \<open>Handed back\<close>

lemma after_retry:
  assumes "settled m" "good_scope s"
  shows "settled (snd (retryRun fmt m s t cause at))" "resolve (snd (retryRun fmt m s t cause at)) s' = resolve m s'"
proof -
  obtain r where get: "GetRun m s (tr_RunID t) = (r, m)"
    using assms(1) by (cases "Scope_validate (resolve m s)") (simp_all add: GetRun_def run_op)
  obtain st where stag: "queueStagger m s (tr_RunID t) = (st, m)"
    using assms(1) by (cases "withAgent (resolve m s)") (simp_all add: queueStagger_def ListQueuedRuns_def run_op)
  have save: "snd (case SaveRun m s run of (Inl _, m) \<Rightarrow> (None, m) | (Inr _, m) \<Rightarrow> (Some x, m)) = snd (SaveRun m s run)"
    for run and x :: runRequeued by (simp split: prod.split sum.split)
  have "snd (retryRun fmt m s t cause at) = m \<or> (\<exists>run. snd (retryRun fmt m s t cause at) = snd (SaveRun m s run))"
    by (cases r; cases "retryableRefusal cause") (auto simp: retryRun_def get stag Let_def save)
  then show "settled (snd (retryRun fmt m s t cause at))" "resolve (snd (retryRun fmt m s t cause at)) s' = resolve m s'"
    using assms after_save [OF assms surjective_pairing] by auto
qed

lemma mem_queue_rows:
  "run \<in> set (queue_rows m s) \<longleftrightarrow> (\<exists>k. (k, run) \<in> set (runs m) \<and> hasPrefix k (tenantPrefix s) \<and>
     run_AgentName run = sc_AgentName s \<and> run_Phase run = RunPhasePending \<and> run_RetryAt run \<noteq> None \<and>
     \<not> run_CancelRequested run)"
  by (force simp: queue_rows_def runs_where_def)

lemma stagger_bounds:
  assumes "settled m" "withAgent (resolve m s) = None"
  shows "fst (queueStagger m s rid) \<le> 5 * Minute"
    and "length (runs m) \<le> 600000000 \<Longrightarrow> 0 \<le> fst (queueStagger m s rid)"
proof -
  let ?xs = "filter (\<lambda>other. run_ID other \<noteq> rid) (queue_rows m (resolve m s))"
  show "fst (queueStagger m s rid) \<le> 5 * Minute"
    by (simp add: queueStagger_eq [OF assms] runRetryMaxBackoff_def)
  have "length ?xs \<le> length (queue_rows m (resolve m s))" by (rule length_filter_le)
  also have "\<dots> \<le> length (runs m)" by (simp add: queue_rows_def runs_where_def)
  finally have "length ?xs \<le> length (runs m)" .
  moreover assume "length (runs m) \<le> 600000000"
  ultimately have len: "int (length ?xs) \<le> 600000000" by simp
  have "i64 (int (length ?xs) * runRetryStagger) = int (length ?xs) * runRetryStagger"
    using len by (intro i64_id) (simp_all add: runRetryStagger_def)
  then show "0 \<le> fst (queueStagger m s rid)"
    by (simp add: queueStagger_eq [OF assms] runRetryMaxBackoff_def runRetryStagger_def)
qed

text \<open>C19: a run that is handed back waits in its Agent's queue with one retry more and within its policy,
  for at least a minute and at most ten; it can be claimed again, and no other run is touched.\<close>

theorem retryRun_hands_back:
  assumes "settled m" "good_scope s" "withAgent (resolve m s) = None" "tr_RunID t \<noteq> []"
    and "row_of m s (tr_RunID t) = Some old" "run_ID old = tr_RunID t" "run_AgentName old = sc_AgentName (resolve m s)"
    and "retryRun fmt m s t cause at = (Some q, m')" "length (runs m) \<le> 600000000"
  shows "(\<exists>new \<in> set (queue_rows m' (resolve m' s)). row_of m' s (tr_RunID t) = Some new \<and>
      run_Retries new = run_Retries old + 1 \<and> run_Retries new < max_attempts t \<and>
      run_RetryAt new = Some (rqd_at q) \<and> may_claim [] new) \<and>
    at + Minute \<le> rqd_at q \<and> rqd_at q \<le> at + 10 * Minute \<and>
    (\<forall>k. k = rowKey (resolve m s) (tr_RunID t) \<or> mget (runs m') k = mget (runs m) k)"
proof -
  have kind: "tr_DeliveryKind t \<in> set UnattendedKinds" and "retryableRefusal cause \<noteq> None"
    using assms(8) by (auto simp: retryRun_def split: if_splits option.splits)
  then obtain refused where ref: "retryableRefusal cause = Some refused" by blast
  let ?k = "rowKey (resolve m s) (tr_RunID t)" and ?at = "retry_at m s (tr_RunID t) at old"
  let ?new = "requeued fmt refused (max_attempts t) at ?at old"
  obtain ip rs where "retryRun fmt m s t cause at =
    (if run_CancelRequested old \<or> run_Retries old + 1 \<ge> max_attempts t then (None, m)
     else (Some \<lparr>rqd_cause = cause, rqd_at = ?at, rqd_attempt = run_Retries old + 1,
             rqd_max = max_attempts t\<rparr>,
           m\<lparr>runs := mput ?k ?new (runs m), idempotencyPrimary := ip, runScopes := rs\<rparr>))"
    by (rule retryRun_eq [OF assms(1,3-6) kind ref])
  then have live: "\<not> run_CancelRequested old" "run_Retries old + 1 < max_attempts t"
    and q: "rqd_at q = ?at" and m': "runs m' = mput ?k ?new (runs m)"
    using assms(8) by (auto split: if_splits)
  have same: "resolve m' s = resolve m s" using after_retry(2) [OF assms(1,2)] assms(8) by (metis snd_conv)
  have row: "row_of m' s (tr_RunID t) = Some ?new" by (simp add: same m')
  have "?new \<in> set (queue_rows m' (resolve m' s))"
    unfolding mem_queue_rows same
    using mget_in_set [OF row [unfolded same]] assms(7) live(1)
    by (intro exI [of _ ?k]) (simp add: requeued_def rowKey_prefix)
  moreover have "at + Minute \<le> ?at" "?at \<le> at + 10 * Minute"
    using runRetryBackoff_bounds [of "run_Retries old + 1"] stagger_bounds [OF assms(1,3), of "tr_RunID t"] assms(9)
    by (simp_all add: retry_at_def)
  moreover have "run_Retries ?new = run_Retries old + 1" "run_RetryAt ?new = Some ?at" "may_claim [] ?new"
    using live(1) by (simp_all add: requeued_def may_claim_def claimable_def)
  moreover have "\<forall>k. k = ?k \<or> mget (runs m') k = mget (runs m) k" by (simp add: m')
  ultimately show ?thesis using row live(2) unfolding q by (metis (no_types, lifting))
qed

section \<open>Refused every time\<close>

text \<open>The runner refuses every attempt: each round is a claim and, when it succeeds, a refusal. The
  count is of the claims that succeeded, so of the attempts that were dispatched.\<close>

fun refused_rounds :: "(time \<Rightarrow> string) \<Rightarrow> Scope \<Rightarrow> taskRun \<Rightarrow> go_error \<Rightarrow> (time \<times> time) list \<Rightarrow> MemoryStore \<Rightarrow> nat \<times> MemoryStore" where
  "refused_rounds fmt s t cause [] m = (0, m)"
| "refused_rounds fmt s t cause ((c, at) # ts) m =
     (case ClaimRun m s (tr_RunID t) c [] of
        (Inl _, m) \<Rightarrow> refused_rounds fmt s t cause ts m
      | (Inr _, m) \<Rightarrow> (case refused_rounds fmt s t cause ts (snd (retryRun fmt m s t cause at)) of
            (n, m) \<Rightarrow> (Suc n, m)))"

lemma claimed_row [simp]:
  "run_ID (claimed now run) = run_ID run" "run_Retries (claimed now run) = run_Retries run"
  "run_CancelRequested (claimed now run) = run_CancelRequested run" "run_Phase (claimed now run) = RunPhaseRunning"
  by (simp_all add: claimed_def)

lemma rounds_running:
  assumes "settled m" "withAgent (resolve m s) = None" "row_of m s (tr_RunID t) = Some run" "run_Phase run = RunPhaseRunning"
  shows "refused_rounds fmt s t cause ts m = (0, m)"
proof (induction ts)
  case (Cons r ts)
  have "\<not> may_claim [] run" using assms(4) by (simp add: may_claim_def claimable_def)
  then show ?case using Cons assms
    by (cases r) (simp add: ClaimRun_eq withAgent_validate)
qed simp

lemma nat_less_step: "nat (max 1 (most - n)) = (if n + 1 \<ge> most then 1 else Suc (nat (max 1 (most - (n + 1)))))"
  for most n :: int by auto

lemma rounds_count:
  assumes "settled m" "good_scope s" "withAgent (resolve m s) = None" "tr_RunID t \<noteq> []"
    and "row_of m s (tr_RunID t) = Some old" "run_ID old = tr_RunID t"
    and "tr_DeliveryKind t \<in> set UnattendedKinds" "retryableRefusal cause = Some why"
    and "may_claim [] old"
  shows "fst (refused_rounds fmt s t cause ts m) = min (length ts) (nat (max 1 (max_attempts t - run_Retries old)))"
  using assms
proof (induction ts arbitrary: m old)
  case (Cons r ts)
  obtain c at where r: "r = (c, at)" by (cases r)
  let ?k = "rowKey (resolve m s) (tr_RunID t)"
  let ?m = "m\<lparr>runs := mput ?k (claimed c old) (runs m)\<rparr>"
  have claim: "ClaimRun m s (tr_RunID t) c [] = (Inr (claimed c old), ?m)"
    using Cons.prems by (simp add: ClaimRun_eq withAgent_validate)
  note after = after_claim [OF Cons.prems(1,2) claim]
  let ?m' = "snd (retryRun fmt ?m s t cause at)"
  note after' = after_retry [OF after(1) Cons.prems(2), of fmt t cause at]
  have live: "\<not> run_CancelRequested old" using Cons.prems(9) by (simp add: may_claim_def claimable_def)
  have row: "row_of ?m s (tr_RunID t) = Some (claimed c old)" unfolding after(2) by simp
  obtain ip rs where retry: "retryRun fmt ?m s t cause at =
    (if run_CancelRequested (claimed c old) \<or> run_Retries (claimed c old) + 1 \<ge> max_attempts t then (None, ?m)
     else (Some \<lparr>rqd_cause = cause, rqd_at = retry_at ?m s (tr_RunID t) at (claimed c old),
             rqd_attempt = run_Retries (claimed c old) + 1, rqd_max = max_attempts t\<rparr>,
           ?m\<lparr>runs := mput (rowKey (resolve ?m s) (tr_RunID t)) (requeued fmt why (max_attempts t) at
                (retry_at ?m s (tr_RunID t) at (claimed c old)) (claimed c old)) (runs ?m),
             idempotencyPrimary := ip, runScopes := rs\<rparr>))"
    by (rule retryRun_eq [OF after(1) _ Cons.prems(4) row _ Cons.prems(7,8)])
      (use Cons.prems(3,6) after(2) in simp_all)
  show ?case
  proof (cases "run_Retries old + 1 \<ge> max_attempts t")
    case True
    then have "?m' = ?m" unfolding retry by simp
    moreover have "refused_rounds fmt s t cause ts ?m = (0, ?m)"
      by (rule rounds_running [OF after(1) _ row]) (use Cons.prems(3) after(2) in simp_all)
    ultimately show ?thesis using True by (simp add: r claim nat_less_step)
  next
    case False
    let ?new = "requeued fmt why (max_attempts t) at (retry_at ?m s (tr_RunID t) at (claimed c old)) (claimed c old)"
    have "runs ?m' = mput (rowKey (resolve ?m s) (tr_RunID t)) ?new (runs ?m)" using retry False live by simp
    then have "row_of ?m' s (tr_RunID t) = Some ?new" by (simp only: after'(2) mget_put simp_thms if_True)
    moreover have "run_ID ?new = tr_RunID t" "may_claim [] ?new" "run_Retries ?new = run_Retries old + 1"
      using live Cons.prems(6) by (simp_all add: requeued_def may_claim_def claimable_def)
    moreover have "withAgent (resolve ?m' s) = None" using Cons.prems(3) after(2) after'(2) by simp
    ultimately have "fst (refused_rounds fmt s t cause ts ?m') =
        min (length ts) (nat (max 1 (max_attempts t - (run_Retries old + 1))))"
      using Cons.IH [OF after'(1) Cons.prems(2) _ Cons.prems(4) _ _ Cons.prems(7,8), of ?new] by simp
    then show ?thesis using False
      by (simp add: r claim nat_less_step [of "max_attempts t" "run_Retries old"] split_def)
  qed
qed simp

text \<open>C32: a run that is refused every time is dispatched exactly as often as its policy allows, however
  often it is offered, and then left to its caller to fail.\<close>

theorem retries_exhausted:
  assumes "settled m" "good_scope s" "withAgent (resolve m s) = None" "tr_RunID t \<noteq> []"
    and "row_of m s (tr_RunID t) = Some old" "run_ID old = tr_RunID t"
    and "tr_DeliveryKind t \<in> set UnattendedKinds" "retryableRefusal cause \<noteq> None"
    and "may_claim [] old"
  shows "fst (refused_rounds fmt s t cause ts m) = min (length ts) (nat (max 1 (max_attempts t - run_Retries old)))"
  using assms rounds_count by blast

section \<open>Waking\<close>

lemma mput_map: "wf_map t \<Longrightarrow> mget t k = Some old \<Longrightarrow> mput k v t = map (\<lambda>(l, u). (l, if l = k then v else u)) t"
proof (induction t)
  case (Cons x t)
  obtain l u where x: "x = (l, u)" by (cases x)
  show ?case
  proof (cases "l = k")
    case True
    then have "\<forall>y \<in> set t. fst y \<noteq> k" using Cons.prems(1) by (auto simp: wf_map_def x)
    then have "map (\<lambda>(l, u). (l, if l = k then v else u)) t = t" by (intro map_idI) auto
    then show ?thesis using True by (simp add: mput_def x)
  next
    case False
    then show ?thesis using Cons by (simp add: mput_def x wf_map_def mget_def)
  qed
qed (simp add: mget_def)

lemma insort_map:
  "(\<And>x. x \<in> insert a (set xs) \<Longrightarrow> key (f x) = key x) \<Longrightarrow> insort_key key (f a) (map f xs) = map f (insort_key key a xs)"
  by (induction xs) auto

lemma sort_map_same_key:
  "(\<And>x. x \<in> set xs \<Longrightarrow> key (f x) = key x) \<Longrightarrow> sort_key key (map f xs) = map f (sort_key key xs)"
proof (induction xs)
  case (Cons a xs)
  then show ?case using insort_map [of a "sort_key key xs" key f] by simp
qed simp

lemma filter_map_rows:
  assumes "\<forall>x \<in> set xs. Q (g x) = Q x" "\<forall>x \<in> set xs. Q x \<longrightarrow> snd (g x) = f (snd x)"
  shows "map snd (filter Q (map g xs)) = map f (map snd (filter Q xs))"
  using assms by (induction xs) auto

text \<open>Rows are filed under the scope they were saved in and their own ID.\<close>

definition filed :: "MemoryStore \<Rightarrow> Scope \<Rightarrow> bool" where
  "filed m s \<longleftrightarrow> (\<forall>(k, run) \<in> set (runs m). hasPrefix k (tenantPrefix s) \<longrightarrow> k = rowKey s (run_ID run) \<and> run_ID run \<noteq> [])"

lemma queue_after_wake:
  assumes "wf_map (runs m)" "filed m s" "run \<in> set (queue_rows m s)" "runs m' = mput (rowKey s (run_ID run)) (woken now run) (runs m)"
  shows "queue_rows m' s = map (\<lambda>other. if run_ID other = run_ID run then woken now other else other) (queue_rows m s)"
proof -
  let ?P = "\<lambda>run. run_AgentName run = sc_AgentName s \<and> run_Phase run = RunPhasePending \<and>
    run_RetryAt run \<noteq> None \<and> \<not> run_CancelRequested run"
  let ?Q = "\<lambda>(k, run). hasPrefix k (tenantPrefix s) \<and> ?P run"
  let ?k = "rowKey s (run_ID run)" and ?f = "\<lambda>other. if run_ID other = run_ID run then woken now other else other"
  obtain k where k: "(k, run) \<in> set (runs m)" "hasPrefix k (tenantPrefix s)" "?P run"
    using assms(3) unfolding mem_queue_rows by blast
  then have get: "mget (runs m) ?k = Some run" using assms(1,2) by (auto simp: filed_def set_mget)
  have id: "run_ID (woken now r) = run_ID r" "?P (woken now r) \<longleftrightarrow> run_AgentName r = sc_AgentName s \<and>
      run_Phase r = RunPhasePending \<and> \<not> run_CancelRequested r" for r by (auto simp: woken_def)
  have same: "u = run" if "(rowKey s (run_ID run), u) \<in> set (runs m)" for u
    using that get assms(1) by (simp add: set_mget)
  let ?g = "\<lambda>(l, u). (l, if l = ?k then woken now run else u)"
  have kept: "\<forall>x \<in> set (runs m). ?Q (?g x) = ?Q x"
  proof
    fix x assume m: "x \<in> set (runs m)"
    obtain l u where x: "x = (l, u)" by (cases x)
    show "?Q (?g x) = ?Q x"
      using same [of u] m k(3) id(2) [of run] by (cases "l = ?k") (simp_all add: x)
  qed
  have new: "\<forall>x \<in> set (runs m). ?Q x \<longrightarrow> snd (?g x) = ?f (snd x)"
  proof (intro ballI impI)
    fix x assume m: "x \<in> set (runs m)" and q: "?Q x"
    obtain l u where x: "x = (l, u)" by (cases x)
    have l: "l = rowKey s (run_ID u)" using assms(2) m q by (auto simp: filed_def x)
    then have "l = ?k \<longleftrightarrow> run_ID u = run_ID run" by (simp add: rowKey_prefix)
    then show "snd (?g x) = ?f (snd x)" using same [of u] m by (cases "l = ?k") (simp_all add: x)
  qed
  have "map snd (filter ?Q (runs m')) =
map snd (filter ?Q (map ?g (runs m)))"
    by (simp only: assms(4) mput_map [OF assms(1) get])
  also have "\<dots> = map ?f (map snd (filter ?Q (runs m)))"
    by (rule filter_map_rows [OF kept new])
  finally have "runs_where ?P s m' = map ?f (runs_where ?P s m)" by (simp add: runs_where_def)
  then show ?thesis unfolding queue_rows_def oldest_first_def
    by (simp add: sort_map_same_key [of _ run_stamp ?f] woken_def run_stamp_def)
qed

text \<open>When a run of an Agent finishes, at most one queued run is woken: the oldest one that was going to
  wait longer. The queue keeps its order, every other run its row, and without such a run nothing changes.\<close>

theorem wakeNextQueued_one:
  assumes "settled m" "wf_store m" "good_scope (s\<lparr>sc_AgentName := a\<rparr>)" "withAgent (resolve m (s\<lparr>sc_AgentName := a\<rparr>)) = None"
    and "filed m (resolve m (s\<lparr>sc_AgentName := a\<rparr>))" "m' = wakeNextQueued m s a now"
    and "scope = resolve m (s\<lparr>sc_AgentName := a\<rparr>)"
  shows "case find (wakes_later now) (queue_rows m scope) of
      None \<Rightarrow> m' = m
    | Some run \<Rightarrow>
        queue_rows m' scope = map (\<lambda>r. if run_ID r = run_ID run then woken now r else r) (queue_rows m scope) \<and>
        mget (runs m') (rowKey scope (run_ID run)) = Some (woken now run) \<and>
        (\<forall>k. k = rowKey scope (run_ID run) \<or> mget (runs m') k = mget (runs m) k)"
proof -
  have a: "a \<noteq> []"
  proof
    assume "a = []"
    moreover have "sc_AgentName (resolve m (s\<lparr>sc_AgentName := a\<rparr>)) = a"
      by (simp add: resolve_def normalizeScopeLocked_def Let_def split: option.split)
    ultimately show False using assms(4) by (auto simp: withAgent_def split: option.splits)
  qed
  have m': "m' = (case find (wakes_later now) (queue_rows m scope) of None \<Rightarrow> m
      | Some run \<Rightarrow> snd (SaveRun m (s\<lparr>sc_AgentName := a\<rparr>) (woken now run)))"
    using a assms(6,7) by (simp add: wakeNextQueued_def ListQueuedRuns_eq [OF assms(1,4)] Let_def)
  show ?thesis
  proof (cases "find (wakes_later now) (queue_rows m scope)")
    case None
    then show ?thesis using m' by simp
  next
    case (Some run)
    have wf: "wf_map (runs m)" using assms(2) by (simp add: wf_store_def)
    have filed: "filed m scope" using assms(5,7) by simp
    have q: "run \<in> set (queue_rows m scope)" using Some by (auto simp: find_Some_iff)
    then obtain k where k: "(k, run) \<in> set (runs m)" "hasPrefix k (tenantPrefix scope)" "\<not> run_CancelRequested run"
      unfolding mem_queue_rows by blast
    then have id: "k = rowKey scope (run_ID run)" "run_ID run \<noteq> []" using filed by (auto simp: filed_def)
    have get: "mget (runs m) (rowKey scope (run_ID (woken now run))) = Some run"
      using k(1) wf id by (simp add: set_mget woken_def)
    obtain ip rs where "SaveRun m (s\<lparr>sc_AgentName := a\<rparr>) (woken now run) =
       (Inr (), m\<lparr>runs := mput (rowKey scope (run_ID (woken now run))) (keep_owned run (woken now run)) (runs m),
          idempotencyPrimary := ip, runScopes := rs\<rparr>)"
      unfolding assms(7)
      by (rule SaveRun_over [OF assms(1,4), of "woken now run" run]) (use get id(2) in \<open>auto simp: woken_def assms(7)\<close>)
    then have runs': "runs m' = mput (rowKey scope (run_ID run)) (woken now run) (runs m)"
      using m' Some keep_owned_woken [OF k(3), of now] by (simp add: woken_def)
    then show ?thesis using Some queue_after_wake [OF wf filed q runs'] by simp
  qed
qed

end
