(* ===== verification/EventJournal.thy ===== *)
theory EventJournal
  imports Sha256 GoPaths
begin

text \<open>
  The runner's event journals (\<open>pkg/runner/event_journal.go\<close>): one append-only file of JSON lines per
  attempt, of which the state file commits a prefix, an in-memory index from cursors to offsets, the
  byte accounting, and the replay of a range of cursors.

  The disk is the map \<open>ss_files\<close> from paths to bytes. \<open>json.Encoder\<close> is the argument \<open>enc\<close> (the line
  it writes, or \<open>None\<close>), \<open>json.Decoder\<close> the argument \<open>dec\<close> (what it reads at the head of its input and
  how many bytes it consumes). A system call that fails is the argument of type \<open>fault\<close>. Offsets and
  cursors count bytes and events of a journal of at most 257 MiB, so they do not wrap. The state
  directory is absolute and clean, as the configuration makes it, so joining a name to it appends.
\<close>

section \<open>State\<close>

record Event =
  ev_Cursor :: nat
  ev_Timestamp :: time
  ev_AttemptEpoch :: nat
  ev_Type :: string
  ev_Message :: string
  ev_Data :: string

record journalWriter =
  jw_file :: string
  jw_end :: nat
  jw_dirty :: bool

record journalPosition =
  jp_cursor :: nat
  jp_offset :: nat

record stateStore =
  ss_dir :: string
  ss_journals :: "journalWriter gomap"
  ss_eventIndex :: "journalPosition list gomap"
  ss_journalSizes :: "int gomap"
  ss_totalJournalBytes :: int
  ss_files :: "string gomap"

datatype fault = NoFault | CloseFault | OpenFault | StatFault | TruncateFault | SeekFault
  | WriteFault nat  \<comment> \<open>bytes written before the error\<close>

datatype journal_error = SysError | Cancelled | ErrEOF | ErrUnexpectedEOF | JournalError string

definition eventPath :: "string \<Rightarrow> string \<Rightarrow> string" where
  "eventPath dir attemptID = dir @ ''/events-'' @ hex_encode (sha256 attemptID) @ ''.jsonl''"

definition maxJournalBytes :: int where "maxJournalBytes = 268435456"
definition journalControlReserve :: int where "journalControlReserve = 1048576"
definition maxTotalJournalBytes :: int where "maxTotalJournalBytes = 2147483648"
definition totalJournalControlReserve :: int where "totalJournalControlReserve = 16777216"

section \<open>Accounting\<close>

definition accountJournal :: "string \<Rightarrow> int \<Rightarrow> stateStore \<Rightarrow> stateStore" where
  "accountJournal path sz s =
     s\<lparr>ss_totalJournalBytes := ss_totalJournalBytes s + (sz - mgetd 0 (ss_journalSizes s) path),
       ss_journalSizes := (if sz = 0 then mdel path (ss_journalSizes s) else mput path sz (ss_journalSizes s))\<rparr>"

definition clearEventIndex :: "string \<Rightarrow> stateStore \<Rightarrow> stateStore" where
  "clearEventIndex i s = s\<lparr>ss_eventIndex := mdel i (ss_eventIndex s)\<rparr>"

text \<open>Closing drops the handle whether or not the close succeeds.\<close>

definition closeJournal :: "bool \<Rightarrow> string \<Rightarrow> stateStore \<Rightarrow> journal_error option \<times> stateStore" where
  "closeJournal fails i s =
     (case mget (ss_journals s) i of None \<Rightarrow> (None, s)
      | Some _ \<Rightarrow> (if fails then Some SysError else None, s\<lparr>ss_journals := mdel i (ss_journals s)\<rparr>))"

fun close_all :: "(string \<Rightarrow> bool) \<Rightarrow> string list \<Rightarrow> stateStore \<Rightarrow> journal_error list \<times> stateStore" where
  "close_all fails [] s = ([], s)"
| "close_all fails (i # ids) s =
     (case closeJournal (fails i) i s of (e, s) \<Rightarrow>
        (case close_all fails ids s of (es, s) \<Rightarrow> (case_option es (\<lambda>e. e # es) e, s)))"

definition closeJournals :: "(string \<Rightarrow> bool) \<Rightarrow> stateStore \<Rightarrow> journal_error list \<times> stateStore" where
  "closeJournals fails s = close_all fails (map fst (ss_journals s)) s"

fun sync_all :: "(string \<Rightarrow> bool) \<Rightarrow> (string \<times> journalWriter) list \<Rightarrow> bool \<times> (string \<times> journalWriter) list" where
  "sync_all fails [] = (True, [])"
| "sync_all fails ((i, w) # ws) =
     (if jw_dirty w \<and> fails i then (False, (i, w) # ws)
      else case sync_all fails ws of (ok, ws) \<Rightarrow> (ok, (i, w\<lparr>jw_dirty := False\<rparr>) # ws))"

definition syncJournals :: "(string \<Rightarrow> bool) \<Rightarrow> stateStore \<Rightarrow> bool \<times> stateStore" where
  "syncJournals fails s =
     (case sync_all fails (ss_journals s) of (ok, ws) \<Rightarrow> (ok, s\<lparr>ss_journals := ws\<rparr>))"

section \<open>The cursor index\<close>

definition indexEvent :: "string \<Rightarrow> nat \<Rightarrow> nat \<Rightarrow> stateStore \<Rightarrow> stateStore" where
  "indexEvent i cursor offset s =
     (if cursor mod 256 \<noteq> 1 then s
      else let positions = mgetd [] (ss_eventIndex s) i;
               k = Search (\<lambda>k. cursor \<le> jp_cursor (positions ! k)) 0 (length positions)
        in if k < length positions \<and> jp_cursor (positions ! k) = cursor then s
           else s\<lparr>ss_eventIndex := mput i
                   (take k positions @ \<lparr>jp_cursor = cursor, jp_offset = offset\<rparr> # drop k positions) (ss_eventIndex s)\<rparr>)"

section \<open>Appending\<close>

fun encode_events :: "(Event \<Rightarrow> string option) \<Rightarrow> Event list \<Rightarrow> string option" where
  "encode_events enc [] = Some []"
| "encode_events enc (e # es) =
     (case enc e of None \<Rightarrow> None | Some line \<Rightarrow> map_option (append line) (encode_events enc es))"

definition write_at :: "nat \<Rightarrow> string \<Rightarrow> string \<Rightarrow> string" where
  "write_at pos bytes content = take pos content @ bytes @ drop (pos + length bytes) content"

text \<open>No handle, or one that stands elsewhere: reopen the file and cut it at the committed offset.\<close>

definition open_writer :: "fault \<Rightarrow> string \<Rightarrow> nat \<Rightarrow> stateStore \<Rightarrow> (journal_error + journalWriter) \<times> stateStore" where
  "open_writer fault i offset s =
     (let path = eventPath (ss_dir s) i;
          s = (if mget (ss_journals s) i \<noteq> None then clearEventIndex i s else s)
      in case closeJournal (fault = CloseFault) i s of
           (Some e, s) \<Rightarrow> (Inl e, s)
         | (None, s) \<Rightarrow>
             if fault = OpenFault then (Inl SysError, s)
             else let content = mgetd [] (ss_files s) path; s = s\<lparr>ss_files := mput path content (ss_files s)\<rparr> in
               if fault = StatFault then (Inl SysError, s)
               else if length content < offset
                 then (Inl (JournalError ''event journal is shorter than its committed prefix''), s)
               else if fault = TruncateFault then (Inl SysError, s)
               else let s = s\<lparr>ss_files := mput path (take offset content) (ss_files s)\<rparr> in
                 if fault = SeekFault then (Inl SysError, s)
                 else let w = \<lparr>jw_file = path, jw_end = offset, jw_dirty = False\<rparr> in
                   (Inr w, accountJournal path (int offset) s\<lparr>ss_journals := mput i w (ss_journals s)\<rparr>))"

definition control_event :: "Event \<Rightarrow> bool" where
  "control_event event \<longleftrightarrow> ev_Type event \<in> {''completed'', ''failed'', ''cancelled'', ''needs_input''}"

definition write_event :: "fault \<Rightarrow> string \<Rightarrow> journalWriter \<Rightarrow> string \<Rightarrow> stateStore \<Rightarrow> bool \<times> stateStore" where
  "write_event fault i w encoded s =
     (let n = (case fault of WriteFault n \<Rightarrow> min n (length encoded) | _ \<Rightarrow> length encoded);
          s = s\<lparr>ss_files := mput (jw_file w) (write_at (jw_end w) (take n encoded) (mgetd [] (ss_files s) (jw_file w)))
                 (ss_files s)\<rparr>;
          s = accountJournal (eventPath (ss_dir s) i) (int (jw_end w + n)) s
      in case fault of
           WriteFault _ \<Rightarrow> (False, snd (closeJournal False i s))
         | _ \<Rightarrow> (True, s\<lparr>ss_journals := mput i (w\<lparr>jw_end := jw_end w + length encoded, jw_dirty := True\<rparr>) (ss_journals s)\<rparr>))"

definition appendEvent :: "(Event \<Rightarrow> string option) \<Rightarrow> fault \<Rightarrow> stateStore \<Rightarrow> string \<Rightarrow> nat \<Rightarrow> Event list \<Rightarrow> Event \<Rightarrow>
    (journal_error + nat) \<times> stateStore" where
  "appendEvent enc fault s i offset retained event =
     (case encode_events enc ((if offset = 0 then retained else []) @ [event]) of
        None \<Rightarrow> (Inl (JournalError ''encode''), s)
      | Some encoded \<Rightarrow>
          let limit = maxJournalBytes + (if control_event event then journalControlReserve else 0);
              totalLimit = maxTotalJournalBytes + (if control_event event then totalJournalControlReserve else 0)
          in if int offset > limit - int (length encoded)
             then (Inl (JournalError ''event journal byte limit exceeded''), s)
             else (case (case mget (ss_journals s) i of
                           Some w \<Rightarrow> if jw_end w = offset then (Inr w, s) else open_writer fault i offset s
                         | None \<Rightarrow> open_writer fault i offset s) of
                 (Inl e, s) \<Rightarrow> (Inl e, s)
               | (Inr w, s) \<Rightarrow>
                   if ss_totalJournalBytes s > totalLimit - int (length encoded)
                   then (Inl (JournalError ''aggregate event journal storage limit exceeded''), s)
                   else (case write_event fault i w encoded s of
                       (False, s) \<Rightarrow> (Inl SysError, s)
                     | (True, s) \<Rightarrow> (Inr (jw_end w + length encoded),
                         if retained = [] \<or> offset \<noteq> 0 then indexEvent i (ev_Cursor event) offset s else s))))"

section \<open>Removal\<close>

datatype removal = Removed | RemoveFault

definition removeEvents :: "bool \<Rightarrow> removal \<Rightarrow> string \<Rightarrow> stateStore \<Rightarrow> journal_error list \<times> stateStore" where
  "removeEvents close_fails rm i s =
     (case closeJournal close_fails i s of (e, s) \<Rightarrow>
        (let s = clearEventIndex i s; path = eventPath (ss_dir s) i in
         if rm = RemoveFault \<and> mget (ss_files s) path \<noteq> None then (case_option [] (\<lambda>e. [e]) e @ [SysError], s)
         else (case_option [] (\<lambda>e. [e]) e, accountJournal path 0 s\<lparr>ss_files := mdel path (ss_files s)\<rparr>)))"

text \<open>\<open>filepath.Glob\<close> of \<open>events-*.jsonl\<close> in the state directory; the star matches no separator.\<close>

definition is_journal :: "string \<Rightarrow> string \<Rightarrow> bool" where
  "is_journal dir path \<longleftrightarrow>
     hasPrefix path (dir @ ''/events-'') \<and>
     (let rest = drop (length dir + 8) path in
      length rest \<ge> 6 \<and> drop (length rest - 6) rest = ''.jsonl'' \<and> CHR ''/'' \<notin> set rest)"

fun prune_paths :: "(string \<Rightarrow> bool) \<Rightarrow> (string \<Rightarrow> bool) \<Rightarrow> string list \<Rightarrow> stateStore \<Rightarrow> bool \<times> stateStore" where
  "prune_paths owned fails [] s = (True, s)"
| "prune_paths owned fails (path # paths) s =
     (if owned path then prune_paths owned fails paths s
      else if fails path then (False, s)
      else prune_paths owned fails paths (accountJournal path 0 s\<lparr>ss_files := mdel path (ss_files s)\<rparr>))"

definition pruneJournals :: "(string \<Rightarrow> bool) \<Rightarrow> string list \<Rightarrow> stateStore \<Rightarrow> bool \<times> stateStore" where
  "pruneJournals fails attempts s =
     prune_paths (\<lambda>path. path \<in> eventPath (ss_dir s) ` set attempts) fails
       (sort (filter (is_journal (ss_dir s)) (map fst (ss_files s)))) s"

definition loadJournalUsage :: "stateStore \<Rightarrow> stateStore" where
  "loadJournalUsage s =
     fold (\<lambda>path s. accountJournal path (int (length (mgetd [] (ss_files s) path))) s)
       (sort (filter (is_journal (ss_dir s)) (map fst (ss_files s))))
       (s\<lparr>ss_journalSizes := [], ss_totalJournalBytes := 0\<rparr>)"

section \<open>Replay\<close>

datatype decoded = Decoded Event nat | AtEOF | Malformed string

record eventReplay =
  rp_input :: string
  rp_next :: Event
  rp_through :: nat

fun index_start :: "nat \<Rightarrow> nat \<Rightarrow> nat \<Rightarrow> journalPosition list \<Rightarrow> nat" where
  "index_start after bytes start [] = start"
| "index_start after bytes start (p # ps) =
     (if jp_cursor p > after + 1 \<or> jp_offset p \<ge> bytes then start else index_start after bytes (jp_offset p) ps)"

text \<open>A decoded value has at least one byte.\<close>

function replay_scan :: "(string \<Rightarrow> decoded) \<Rightarrow> (nat \<Rightarrow> bool) \<Rightarrow> string \<Rightarrow> nat \<Rightarrow> nat \<Rightarrow> nat \<Rightarrow> string \<Rightarrow> stateStore \<Rightarrow>
    (journal_error + eventReplay) \<times> stateStore" where
  "replay_scan dec cancelled i after through offset input s =
     (if cancelled offset then (Inl Cancelled, s)
      else case dec input of
        AtEOF \<Rightarrow> (Inl ErrEOF, s)
      | Malformed m \<Rightarrow> (Inl (JournalError m), s)
      | Decoded e n \<Rightarrow>
          let s = indexEvent i (ev_Cursor e) offset s in
          if ev_Cursor e \<le> after then
            (if n = 0 \<or> input = [] then (Inl (JournalError ''no progress''), s)
             else replay_scan dec cancelled i after through (offset + n) (drop n input) s)
          else if ev_Cursor e \<noteq> after + 1
            then (Inl (JournalError ''event journal does not retain requested cursor''), s)
          else (Inr \<lparr>rp_input = drop n input, rp_next = e, rp_through = through\<rparr>, s))"
  by pat_completeness auto
termination by (relation "measure (\<lambda>(_, _, _, _, _, _, input, _). length input)") auto

declare replay_scan.simps [simp del]

definition replayEvents :: "(string \<Rightarrow> decoded) \<Rightarrow> (nat \<Rightarrow> bool) \<Rightarrow> stateStore \<Rightarrow> string \<Rightarrow> nat \<Rightarrow> nat \<Rightarrow> nat \<Rightarrow>
    (journal_error + eventReplay) \<times> stateStore" where
  "replayEvents dec cancelled s i bytes after through =
     (case mget (ss_files s) (eventPath (ss_dir s) i) of
        None \<Rightarrow> (Inl SysError, s)
      | Some content \<Rightarrow>
          let start = index_start after bytes 0 (mgetd [] (ss_eventIndex s) i)
          in replay_scan dec cancelled i after through start (take (bytes - start) (drop start content)) s)"

definition replay_next :: "(string \<Rightarrow> decoded) \<Rightarrow> eventReplay \<Rightarrow> (journal_error + Event) \<times> eventReplay" where
  "replay_next dec r =
     (let event = rp_next r in
      if ev_Cursor event > rp_through r then (Inl ErrEOF, r)
      else if ev_Cursor event < rp_through r then
        (case dec (rp_input r) of
           AtEOF \<Rightarrow> (Inl ErrUnexpectedEOF, r)
         | Malformed m \<Rightarrow> (Inl (JournalError m), r)
         | Decoded e n \<Rightarrow>
             let r = r\<lparr>rp_input := drop n (rp_input r), rp_next := e\<rparr> in
             if ev_Cursor e \<noteq> ev_Cursor event + 1
             then (Inl (JournalError ''event journal contains a cursor gap''), r) else (Inr event, r))
      else (Inr event, r\<lparr>rp_next := event\<lparr>ev_Cursor := ev_Cursor event + 1\<rparr>\<rparr>))"

text \<open>The loop that serves a replay: \<open>next\<close> until it returns an error, \<open>ErrEOF\<close> at the regular end.\<close>

function drain :: "(string \<Rightarrow> decoded) \<Rightarrow> eventReplay \<Rightarrow> Event list \<times> journal_error" where
  "drain dec r =
     (case replay_next dec r of
        (Inl e, _) \<Rightarrow> ([], e)
      | (Inr event, r) \<Rightarrow> (case drain dec r of (es, e) \<Rightarrow> (event # es, e)))"
  by pat_completeness auto
termination
  by (relation "measure (\<lambda>(_, r). Suc (rp_through r) - ev_Cursor (rp_next r))")
    (auto simp: replay_next_def Let_def split: if_splits decoded.splits)

declare drain.simps [simp del]

end
