(* ===== verification/JournalFacts.thy ===== *)
theory JournalFacts
  imports EventJournal
begin

text \<open>
  What the journals promise: the accounting adds up, the index only holds places where an event of
  the committed prefix starts, and a replay of the prefix returns exactly the events asked for.
\<close>

section \<open>Lines\<close>

abbreviation newline :: char where "newline \<equiv> CHR 0x0A"

text \<open>What the journal relies on of the JSON encoder and decoder, for the events it holds: a line ends in a
  newline; read back, with or without the newline before it, it is the event up to \<open>rt\<close> (what a round trip
  through JSON makes of it, its cursor unchanged), the newline after it being left; an empty line is the end.\<close>

definition codec :: "(Event \<Rightarrow> string option) \<Rightarrow> (string \<Rightarrow> decoded) \<Rightarrow> (Event \<Rightarrow> Event) \<Rightarrow> Event list \<Rightarrow> bool" where
  "codec enc dec rt es \<longleftrightarrow> dec [] = AtEOF \<and> dec [newline] = AtEOF \<and>
     (\<forall>e \<in> set es. \<exists>body. body \<noteq> [] \<and> enc e = Some (body @ [newline]) \<and> ev_Cursor (rt e) = ev_Cursor e \<and>
        (\<forall>ws \<in> {[], [newline]}. \<forall>rest. dec (ws @ body @ newline # rest) = Decoded (rt e) (length ws + length body)))"

definition lines :: "(Event \<Rightarrow> string option) \<Rightarrow> Event list \<Rightarrow> string" where
  "lines enc es = concat (map (\<lambda>e. the (enc e)) es)"

lemma lines_simps [simp]:
  "lines enc [] = []" "lines enc (e # es) = the (enc e) @ lines enc es" "lines enc (es @ fs) = lines enc es @ lines enc fs"
  by (simp_all add: lines_def)

lemma codecD:
  assumes "codec enc dec rt es" "e \<in> set es"
  obtains body where "body \<noteq> []" "enc e = Some (body @ [newline])" "ev_Cursor (rt e) = ev_Cursor e"
    "\<And>ws rest. ws \<in> {[], [newline]} \<Longrightarrow> dec (ws @ body @ newline # rest) = Decoded (rt e) (length ws + length body)"
  using assms unfolding codec_def by (metis (no_types, lifting))

lemma codec_sub: "codec enc dec rt es \<Longrightarrow> set fs \<subseteq> set es \<Longrightarrow> codec enc dec rt fs"
  by (auto simp: codec_def)

lemma encode_lines: "\<forall>e \<in> set es. enc e \<noteq> None \<Longrightarrow> encode_events enc es = Some (lines enc es)"
  by (induction es) (auto split: option.splits)

lemma encode_events_Some:
  "encode_events enc es = Some out \<Longrightarrow> out = lines enc es \<and> (\<forall>e \<in> set es. enc e \<noteq> None)"
  by (induction es arbitrary: out) (auto split: option.splits)

fun consecutive :: "Event list \<Rightarrow> bool" where
  "consecutive [] = True"
| "consecutive [e] = True"
| "consecutive (e # f # es) = (ev_Cursor f = ev_Cursor e + 1 \<and> consecutive (f # es))"

lemma consecutive_Cons: "consecutive (e # es) \<Longrightarrow> consecutive es"
  by (cases es) auto

lemma consecutive_append: "consecutive (es @ fs) \<Longrightarrow> consecutive es \<and> consecutive fs"
proof (induction es rule: consecutive.induct)
  case (2 e)
  then show ?case using consecutive_Cons [of e fs] by simp
qed auto

lemma consecutive_snoc:
  "consecutive (es @ [e]) \<longleftrightarrow> consecutive es \<and> (es = [] \<or> ev_Cursor e = ev_Cursor (last es) + 1)"
  by (induction es rule: consecutive.induct) auto

lemma consecutive_nth:
  "consecutive es \<Longrightarrow> k < length es \<Longrightarrow> ev_Cursor (es ! k) = ev_Cursor (hd es) + k"
proof (induction es arbitrary: k rule: consecutive.induct)
  case (3 e f es)
  then show ?case by (cases k) auto
qed auto

lemma dropWhile_cursors:
  "consecutive es \<Longrightarrow> es \<noteq> [] \<Longrightarrow> ev_Cursor (hd es) \<le> after + 1 \<Longrightarrow>
     dropWhile (\<lambda>e. ev_Cursor e \<le> after) es = filter (\<lambda>e. after < ev_Cursor e) es \<and>
     (after < ev_Cursor (last es) \<longrightarrow>
        (\<exists>e fs. dropWhile (\<lambda>e. ev_Cursor e \<le> after) es = e # fs \<and> ev_Cursor e = after + 1 \<and> ev_Cursor (last (e # fs)) = ev_Cursor (last es)))"
proof (induction es rule: consecutive.induct)
  case (3 e f es)
  have above: "\<forall>g \<in> set (f # es). ev_Cursor e < ev_Cursor g"
    using consecutive_nth [OF "3.prems"(1)] by (metis One_nat_def add_less_cancel_left add.right_neutral
        in_set_conv_nth length_Cons list.sel(1) nth_Cons_Suc not_less_eq zero_less_Suc)
  show ?case
  proof (cases "ev_Cursor e \<le> after")
    case True
    then have same: "dropWhile (\<lambda>e. ev_Cursor e \<le> after) (e # f # es) = dropWhile (\<lambda>e. ev_Cursor e \<le> after) (f # es)"
      "filter (\<lambda>e. after < ev_Cursor e) (e # f # es) = filter (\<lambda>e. after < ev_Cursor e) (f # es)"
      "last (e # f # es) = last (f # es)" by simp_all
    show ?thesis unfolding same by (rule "3.IH") (use "3.prems" True in simp_all)
  next
    case False
    then have "\<forall>g \<in> set (f # es). after < ev_Cursor g" using above by force
    then have "filter (\<lambda>e. after < ev_Cursor e) (f # es) = f # es" by (simp add: filter_id_conv)
    then show ?thesis using False 3 by auto
  qed
qed auto

lemma dropWhile_hd:
  "consecutive es \<Longrightarrow> ev_Cursor (hd es) \<le> after + 1 \<Longrightarrow>
     dropWhile (\<lambda>e. ev_Cursor e \<le> after) es = e # rest \<Longrightarrow> ev_Cursor e = after + 1"
  by (induction es rule: consecutive.induct) (auto split: if_splits)

section \<open>The index\<close>

definition starts :: "(Event \<Rightarrow> string option) \<Rightarrow> Event list \<Rightarrow> nat \<Rightarrow> nat \<Rightarrow> bool" where
  "starts enc es off cursor \<longleftrightarrow> (\<exists>pre e post. es = pre @ e # post \<and> ev_Cursor e = cursor \<and>
     (off = length (lines enc pre) \<or> pre \<noteq> [] \<and> off + 1 = length (lines enc pre)))"

definition positions :: "stateStore \<Rightarrow> string \<Rightarrow> journalPosition list" where
  "positions s i = mgetd [] (ss_eventIndex s) i"

definition index_ok :: "(Event \<Rightarrow> string option) \<Rightarrow> Event list \<Rightarrow> journalPosition list \<Rightarrow> bool" where
  "index_ok enc es ps \<longleftrightarrow> sorted_wrt (<) (map jp_cursor ps) \<and> (\<forall>p \<in> set ps. starts enc es (jp_offset p) (jp_cursor p))"

lemma index_ok_Nil [simp]: "index_ok enc es []"
  by (simp add: index_ok_def)

lemma starts_append: "starts enc es off c \<Longrightarrow> starts enc (es @ fs) off c"
  unfolding starts_def by (metis append.assoc append_Cons)

lemma index_ok_append: "index_ok enc es ps \<Longrightarrow> index_ok enc (es @ fs) ps"
  by (auto simp: index_ok_def starts_append)

lemma indexEvent_fields [simp]:
  "ss_dir (indexEvent i c off s) = ss_dir s" "ss_journals (indexEvent i c off s) = ss_journals s"
  "ss_journalSizes (indexEvent i c off s) = ss_journalSizes s" "ss_files (indexEvent i c off s) = ss_files s"
  "ss_totalJournalBytes (indexEvent i c off s) = ss_totalJournalBytes s"
  by (simp_all add: indexEvent_def Let_def)

lemma indexEvent_other: "j \<noteq> i \<Longrightarrow> positions (indexEvent i c off s) j = positions s j"
  by (simp add: indexEvent_def Let_def positions_def mgetd_def)

lemma indexEvent_ok:
  assumes "index_ok enc es (positions s i)" "starts enc es off c"
  shows "index_ok enc es (positions (indexEvent i c off s) i)"
proof -
  let ?ps = "positions s i" and ?f = "\<lambda>k. c \<le> jp_cursor (positions s i ! k)"
  let ?k = "Search ?f 0 (length ?ps)"
  have sorted: "sorted_wrt (<) (map jp_cursor ?ps)" using assms(1) by (simp add: index_ok_def)
  have less: "jp_cursor (?ps ! x) < jp_cursor (?ps ! y)" if "x < y" "y < length ?ps" for x y
    using sorted_wrt_nth_less [OF sorted, of x y] that by simp
  have mono: "\<forall>x y. 0 \<le> x \<and> x \<le> y \<and> y < length ?ps \<and> ?f x \<longrightarrow> ?f y"
  proof (intro allI impI)
    fix x y assume "0 \<le> x \<and> x \<le> y \<and> y < length ?ps \<and> ?f x"
    then show "?f y" using less [of x y] by (cases "x = y") auto
  qed
  from Search_first [OF le0 mono]
  have k: "?k \<le> length ?ps" "\<forall>x < ?k. \<not> ?f x" "?k < length ?ps \<longrightarrow> ?f ?k" by auto
  show ?thesis
  proof (cases "c mod 256 \<noteq> 1 \<or> ?k < length ?ps \<and> jp_cursor (?ps ! ?k) = c")
    case True
    then have "indexEvent i c off s = s" by (auto simp: indexEvent_def positions_def Let_def)
    then show ?thesis using assms(1) by simp
  next
    case False
    then have ps': "positions (indexEvent i c off s) i = take ?k ?ps @ \<lparr>jp_cursor = c, jp_offset = off\<rparr> # drop ?k ?ps"
      by (auto simp: indexEvent_def positions_def Let_def mgetd_def)
    have low: "jp_cursor p < c" if "p \<in> set (take ?k ?ps)" for p
      using that k(2) by (auto simp: in_set_conv_nth)
    have high: "c < jp_cursor p" if "p \<in> set (drop ?k ?ps)" for p
    proof -
      have "\<exists>y < length (drop ?k ?ps). drop ?k ?ps ! y = p" using that by (simp only: in_set_conv_nth)
      then obtain y where "y < length (drop ?k ?ps)" "drop ?k ?ps ! y = p" by blast
      then have y: "p = ?ps ! (?k + y)" "?k + y < length ?ps" using k(1) by (simp_all add: nth_drop)
      then have "c < jp_cursor (?ps ! ?k)" using k(3) False by auto
      then show ?thesis using y less [of ?k "?k + y"] by (cases "y = 0") auto
    qed
    have "sorted_wrt (<) (map jp_cursor (take ?k ?ps @ drop ?k ?ps))" using sorted by simp
    then have "sorted_wrt (<) (map jp_cursor (positions (indexEvent i c off s) i))"
      unfolding ps' map_append list.map sorted_wrt_append sorted_wrt.simps
      using low high by (auto simp del: append_take_drop_id)
    moreover have "set (positions (indexEvent i c off s) i) \<subseteq> insert \<lparr>jp_cursor = c, jp_offset = off\<rparr> (set ?ps)"
      unfolding ps' by (auto dest: in_set_takeD in_set_dropD)
    ultimately show ?thesis using assms by (auto simp: index_ok_def)
  qed
qed

lemma index_start_mem:
  "index_start after bytes start ps = start \<or>
   (\<exists>p \<in> set ps. index_start after bytes start ps = jp_offset p \<and> jp_cursor p \<le> after + 1)"
  by (induction ps arbitrary: start) (auto simp: not_less)

section \<open>Replaying a prefix\<close>

text \<open>What a scan does to the store: it only adds index entries of the attempt it reads.\<close>

definition only_index :: "string \<Rightarrow> stateStore \<Rightarrow> stateStore \<Rightarrow> bool" where
  "only_index i s s' \<longleftrightarrow> ss_dir s' = ss_dir s \<and> ss_journals s' = ss_journals s \<and> ss_journalSizes s' = ss_journalSizes s \<and>
     ss_totalJournalBytes s' = ss_totalJournalBytes s \<and> ss_files s' = ss_files s \<and>
     (\<forall>j. j \<noteq> i \<longrightarrow> positions s' j = positions s j)"

lemma only_index_refl [simp]: "only_index i s s"
  by (simp add: only_index_def)

lemma only_index_event: "only_index i (indexEvent i c off s) s' \<Longrightarrow> only_index i s s'"
  by (auto simp: only_index_def indexEvent_other)

lemma only_index_event' [simp]: "only_index i s (indexEvent i c off s)"
  by (auto simp: only_index_def indexEvent_other)

text \<open>Reading from a place where an event starts, with or without the newline before it.\<close>

definition reads_from :: "(Event \<Rightarrow> string option) \<Rightarrow> Event list \<Rightarrow> Event list \<Rightarrow> nat \<Rightarrow> string \<Rightarrow> bool" where
  "reads_from enc pre post off input \<longleftrightarrow>
     off = length (lines enc pre) \<and> input = lines enc post \<or>
     pre \<noteq> [] \<and> off + 1 = length (lines enc pre) \<and> input = newline # lines enc post"

lemma scan_prefix:
  assumes "codec enc dec rt (pre @ post)" "reads_from enc pre post off input"
  shows "\<exists>s'. replay_scan dec (\<lambda>_. False) i after through off input s =
      (case dropWhile (\<lambda>e. ev_Cursor e \<le> after) post of
         [] \<Rightarrow> Inl ErrEOF
       | e # rest \<Rightarrow> if ev_Cursor e \<noteq> after + 1
           then Inl (JournalError ''event journal does not retain requested cursor'')
           else Inr \<lparr>rp_input = newline # lines enc rest, rp_next = rt e, rp_through = through\<rparr>, s') \<and>
    only_index i s s' \<and> (index_ok enc (pre @ post) (positions s i) \<longrightarrow> index_ok enc (pre @ post) (positions s' i))"
  using assms
proof (induction post arbitrary: pre off input s)
  case Nil
  then have "input = [] \<or> input = [newline]" "dec [] = AtEOF" "dec [newline] = AtEOF"
    by (auto simp: reads_from_def codec_def)
  then show ?case by (auto simp: replay_scan.simps)
next
  case (Cons e post)
  obtain body where body: "body \<noteq> []" "enc e = Some (body @ [newline])" "ev_Cursor (rt e) = ev_Cursor e"
    "\<And>ws rest. ws \<in> {[], [newline]} \<Longrightarrow> dec (ws @ body @ newline # rest) = Decoded (rt e) (length ws + length body)"
    by (rule codecD [OF Cons.prems(1)]) auto
  let ?ws = "if off = length (lines enc pre) then [] else [newline]"
  have ws: "input = ?ws @ body @ newline # lines enc post" "?ws \<in> {[], [newline]}"
    using Cons.prems(2) body(2) by (auto simp: reads_from_def)
  let ?n = "length ?ws + length body"
  have dec: "dec input = Decoded (rt e) ?n" using body(4) [OF ws(2), of "lines enc post"] ws(1) by simp
  have drop: "drop ?n input = newline # lines enc post" "?n \<noteq> 0" "input \<noteq> []"
    using body(1) by (auto simp: ws(1))
  let ?s = "indexEvent i (ev_Cursor e) off s"
  have st: "starts enc (pre @ e # post) off (ev_Cursor e)"
    using Cons.prems(2) by (auto simp: starts_def reads_from_def)
  have step: "replay_scan dec (\<lambda>_. False) i after through off input s =
      (if ev_Cursor e \<le> after then replay_scan dec (\<lambda>_. False) i after through (off + ?n) (drop ?n input) ?s
       else if ev_Cursor e \<noteq> after + 1
         then (Inl (JournalError ''event journal does not retain requested cursor''), ?s)
       else (Inr \<lparr>rp_input = drop ?n input, rp_next = rt e, rp_through = through\<rparr>, ?s))"
    using drop(2,3) by (subst replay_scan.simps) (simp only: dec body(3) decoded.case Let_def if_False simp_thms)
  show ?case
  proof (cases "ev_Cursor e \<le> after")
    case False
    then show ?thesis unfolding step drop(1) using indexEvent_ok [OF _ st, of s i] by auto
  next
    case True
    have off: "off + length ?ws = length (lines enc pre)" using Cons.prems(2) by (auto simp: reads_from_def)
    have codec': "codec enc dec rt ((pre @ [e]) @ post)" using Cons.prems(1) by simp
    have "reads_from enc (pre @ [e]) post (off + ?n) (drop ?n input)"
      using off body(2) by (simp add: reads_from_def drop(1))
    from Cons.IH [OF codec' this, of ?s] obtain s' where s': "replay_scan dec (\<lambda>_. False) i after through (off + ?n) (drop ?n input) ?s =
      (case dropWhile (\<lambda>e. ev_Cursor e \<le> after) post of
         [] \<Rightarrow> Inl ErrEOF
       | e # rest \<Rightarrow> if ev_Cursor e \<noteq> after + 1
           then Inl (JournalError ''event journal does not retain requested cursor'')
           else Inr \<lparr>rp_input = newline # lines enc rest, rp_next = rt e, rp_through = through\<rparr>, s')"
      "only_index i ?s s'" "index_ok enc ((pre @ [e]) @ post) (positions ?s i) \<longrightarrow> index_ok enc ((pre @ [e]) @ post) (positions s' i)"
      by blast
    have "index_ok enc (pre @ e # post) (positions s i) \<longrightarrow> index_ok enc (pre @ e # post) (positions s' i)"
      using s'(3) indexEvent_ok [OF _ st, of s i] by simp
    then show ?thesis unfolding step using True s'(1) only_index_event [OF s'(2)] by simp
  qed
qed

lemma drain_prefix:
  assumes "codec enc dec rt (e # es)" "consecutive (e # es)" "through = ev_Cursor (last (e # es))"
  shows "drain dec \<lparr>rp_input = newline # lines enc es, rp_next = rt e, rp_through = through\<rparr> = (map rt (e # es), ErrEOF)"
  using assms
proof (induction es arbitrary: e)
  case Nil
  then have "ev_Cursor (rt e) = through" by (auto simp: codec_def)
  then show ?case by (simp add: drain.simps replay_next_def Let_def)
next
  case (Cons f es)
  obtain body where body: "enc f = Some (body @ [newline])" "ev_Cursor (rt f) = ev_Cursor f"
    "\<And>ws rest. ws \<in> {[], [newline]} \<Longrightarrow> dec (ws @ body @ newline # rest) = Decoded (rt f) (length ws + length body)"
    by (rule codecD [OF Cons.prems(1)]) auto
  have e: "ev_Cursor (rt e) = ev_Cursor e" using Cons.prems(1) by (auto simp: codec_def)
  have "last (e # f # es) = (e # f # es) ! Suc (length es)" by (subst last_conv_nth) simp_all
  then have less: "ev_Cursor e < through"
    using consecutive_nth [OF Cons.prems(2), of "Suc (length es)"] unfolding Cons.prems(3) by (simp del: last.simps)
  have dec: "dec (newline # lines enc (f # es)) = Decoded (rt f) (1 + length body)"
    using body(3) [of "[newline]" "lines enc es"] body(1) by simp
  have "drop (1 + length body) (newline # lines enc (f # es)) = newline # lines enc es" using body(1) by simp
  then have "replay_next dec \<lparr>rp_input = newline # lines enc (f # es), rp_next = rt e, rp_through = through\<rparr> =
      (Inr (rt e), \<lparr>rp_input = newline # lines enc es, rp_next = rt f, rp_through = through\<rparr>)"
    using less e body(2) Cons.prems(2) by (simp add: replay_next_def dec del: lines_simps)
  moreover have "drain dec \<lparr>rp_input = newline # lines enc es, rp_next = rt f, rp_through = through\<rparr> = (map rt (f # es), ErrEOF)"
    using Cons.prems by (intro Cons.IH) (auto simp: codec_def)
  ultimately show ?case by (subst drain.simps) simp
qed

text \<open>The committed prefix of an attempt's journal, and the index over it.\<close>

definition committed :: "(Event \<Rightarrow> string option) \<Rightarrow> stateStore \<Rightarrow> string \<Rightarrow> Event list \<Rightarrow> bool" where
  "committed enc s i es \<longleftrightarrow>
     length (lines enc es) \<le> length (mgetd [] (ss_files s) (eventPath (ss_dir s) i)) \<and>
     take (length (lines enc es)) (mgetd [] (ss_files s) (eventPath (ss_dir s) i)) = lines enc es \<and>
     index_ok enc es (positions s i)"

lemma take_section: "take n content = xs \<Longrightarrow> n = length xs \<Longrightarrow> take (n - start) (drop start content) = drop start xs"
  by (metis drop_take)

lemma replay_reads:
  assumes "codec enc dec rt es" "es \<noteq> []" "committed enc s i es"
  obtains pre post start input where "es = pre @ post" "post \<noteq> []" "pre = [] \<or> ev_Cursor (hd post) \<le> after + 1"
    "reads_from enc pre post start input"
    "replayEvents dec cancelled s i (length (lines enc es)) after through = replay_scan dec cancelled i after through start input s"
proof -
  let ?path = "eventPath (ss_dir s) i" and ?bytes = "length (lines enc es)"
  let ?start = "index_start after ?bytes 0 (positions s i)"
  obtain body where body: "body \<noteq> []" "enc (hd es) = Some (body @ [newline])"
    by (rule codecD [OF assms(1), of "hd es"]) (use assms(2) in auto)
  then have "?bytes \<noteq> 0" using assms(2) by (cases es) auto
  then obtain content where content: "mget (ss_files s) ?path = Some content"
    using assms(3) by (auto simp: committed_def mgetd_def split: option.splits)
  then have sect: "take (?bytes - ?start) (drop ?start content) = drop ?start (lines enc es)"
    using assms(3) by (intro take_section) (auto simp: committed_def mgetd_def)
  have eq: "replayEvents dec cancelled s i ?bytes after through =
      replay_scan dec cancelled i after through ?start (drop ?start (lines enc es)) s"
    by (simp only: replayEvents_def content option.case Let_def positions_def [symmetric] sect)
  from index_start_mem [of after ?bytes 0 "positions s i"]
  consider "?start = 0" | p where "p \<in> set (positions s i)" "?start = jp_offset p" "jp_cursor p \<le> after + 1" by auto
  then show ?thesis
  proof cases
    case 1
    then show ?thesis using that [of "[]" es ?start "drop ?start (lines enc es)"] assms(2) eq by (simp add: reads_from_def)
  next
    case 2
    then have "starts enc es ?start (jp_cursor p)" using assms(3) by (auto simp: committed_def index_ok_def)
    then obtain pre e post where p: "es = pre @ e # post" "ev_Cursor e = jp_cursor p"
        "?start = length (lines enc pre) \<or> pre \<noteq> [] \<and> ?start + 1 = length (lines enc pre)"
      by (auto simp: starts_def)
    have "reads_from enc pre (e # post) ?start (drop ?start (lines enc es))"
    proof (cases "?start = length (lines enc pre)")
      case True
      then show ?thesis by (simp add: reads_from_def p(1))
    next
      case False
      then have pre: "pre \<noteq> []" "?start + 1 = length (lines enc pre)" using p(3) by auto
      obtain body where "enc (last pre) = Some (body @ [newline])"
        by (rule codecD [OF assms(1), of "last pre"]) (use pre(1) p(1) in auto)
      moreover have "lines enc pre = lines enc (butlast pre) @ the (enc (last pre))"
        using pre(1) lines_simps(3) [of enc "butlast pre" "[last pre]"] by simp
      ultimately have "lines enc pre = (lines enc (butlast pre) @ body) @ [newline]" by simp
      then have "drop ?start (lines enc pre) = [newline]" using pre(2) by simp
      then show ?thesis using pre by (simp add: reads_from_def p(1))
    qed
    then show ?thesis using that [of pre "e # post"] p 2(3) eq by simp
  qed
qed

text \<open>Whatever it returns, a replay leaves only valid entries in the index.\<close>

lemma replay_index:
  assumes "codec enc dec rt es" "es \<noteq> []" "committed enc s i es"
    and "replayEvents dec (\<lambda>_. False) s i (length (lines enc es)) after through = (res, s')"
  shows "only_index i s s'" "index_ok enc es (positions s' i)"
proof -
  obtain pre post start input where r: "es = pre @ post" "reads_from enc pre post start input"
    "replayEvents dec (\<lambda>_. False) s i (length (lines enc es)) after through = replay_scan dec (\<lambda>_. False) i after through start input s"
    by (rule replay_reads [OF assms(1-3), of after "\<lambda>_. False" through]) auto
  have "\<exists>s2. (\<exists>x. replay_scan dec (\<lambda>_. False) i after through start input s = (x, s2)) \<and> only_index i s s2 \<and>
      (index_ok enc (pre @ post) (positions s i) \<longrightarrow> index_ok enc (pre @ post) (positions s2 i))"
    using scan_prefix [OF assms(1) [unfolded r(1)] r(2), of i after through s] by blast
  then have "only_index i s s' \<and> (index_ok enc es (positions s i) \<longrightarrow> index_ok enc es (positions s' i))"
    using assms(4) unfolding r(3) r(1) [symmetric] by auto
  then show "only_index i s s'" "index_ok enc es (positions s' i)"
    using assms(3) by (simp_all add: committed_def)
qed

lemma replay_committed:
  assumes "codec enc dec rt es" "consecutive es" "es \<noteq> []" "committed enc s i es" "ev_Cursor (hd es) \<le> after + 1"
  obtains s' where "replayEvents dec (\<lambda>_. False) s i (length (lines enc es)) after through =
      (case dropWhile (\<lambda>e. ev_Cursor e \<le> after) es of [] \<Rightarrow> Inl ErrEOF
       | e # rest \<Rightarrow> Inr \<lparr>rp_input = newline # lines enc rest, rp_next = rt e, rp_through = through\<rparr>, s')"
    "only_index i s s'" "index_ok enc es (positions s' i)"
proof -
  let ?bytes = "length (lines enc es)"
  obtain pre post start input where es: "es = pre @ post" "post \<noteq> []" "pre = [] \<or> ev_Cursor (hd post) \<le> after + 1"
    and reads: "reads_from enc pre post start input"
    and eq: "replayEvents dec (\<lambda>_. False) s i ?bytes after through = replay_scan dec (\<lambda>_. False) i after through start input s"
    by (rule replay_reads [OF assms(1,3,4), of after "\<lambda>_. False" through]) auto
  have hd_post: "ev_Cursor (hd post) \<le> after + 1" using es(1,3) assms(5) by auto
  obtain s' where s': "replay_scan dec (\<lambda>_. False) i after through start input s =
      (case dropWhile (\<lambda>e. ev_Cursor e \<le> after) post of
         [] \<Rightarrow> Inl ErrEOF
       | e # rest \<Rightarrow> if ev_Cursor e \<noteq> after + 1
           then Inl (JournalError ''event journal does not retain requested cursor'')
           else Inr \<lparr>rp_input = newline # lines enc rest, rp_next = rt e, rp_through = through\<rparr>, s')"
    "only_index i s s'" "index_ok enc es (positions s i) \<longrightarrow> index_ok enc es (positions s' i)"
    using scan_prefix [OF assms(1) [unfolded es(1)] reads, of i after through s] es(1) by blast
  have cons: "consecutive post" using consecutive_append [of pre post] assms(2) by (simp add: es(1))
  have pre: "ev_Cursor e \<le> after" if mem: "e \<in> set pre" for e
  proof -
    obtain k where k: "k < length pre" "e = pre ! k" using mem by (auto simp: in_set_conv_nth)
    have "ev_Cursor e = ev_Cursor (hd es) + k"
      using consecutive_nth [OF assms(2), of k] k by (simp add: es(1) nth_append)
    moreover have "ev_Cursor (hd post) = ev_Cursor (hd es) + length pre"
      using consecutive_nth [OF assms(2), of "length pre"] es(2) by (simp add: es(1) nth_append hd_conv_nth)
    ultimately show ?thesis using k(1) hd_post by simp
  qed
  have all: "dropWhile (\<lambda>e. ev_Cursor e \<le> after) es = dropWhile (\<lambda>e. ev_Cursor e \<le> after) post"
    unfolding es(1) using pre by (intro dropWhile_append2) auto
  have scan: "(case dropWhile (\<lambda>e. ev_Cursor e \<le> after) post of
         [] \<Rightarrow> Inl ErrEOF
       | e # rest \<Rightarrow> if ev_Cursor e \<noteq> after + 1
           then Inl (JournalError ''event journal does not retain requested cursor'')
           else Inr \<lparr>rp_input = newline # lines enc rest, rp_next = rt e, rp_through = through\<rparr>) =
      (case dropWhile (\<lambda>e. ev_Cursor e \<le> after) post of
         [] \<Rightarrow> Inl ErrEOF | e # rest \<Rightarrow> Inr \<lparr>rp_input = newline # lines enc rest, rp_next = rt e, rp_through = through\<rparr>)"
  proof (cases "dropWhile (\<lambda>e. ev_Cursor e \<le> after) post")
    case (Cons e rest)
    from dropWhile_hd [OF cons hd_post this] show ?thesis by (simp only: Cons list.case simp_thms if_False)
  next
    case Nil
    show ?thesis by (simp only: Nil list.case)
  qed
  note eq
  also note s'(1)
  also note scan
  finally have final: "replayEvents dec (\<lambda>_. False) s i ?bytes after through =
      (case dropWhile (\<lambda>e. ev_Cursor e \<le> after) es of [] \<Rightarrow> Inl ErrEOF
       | e # rest \<Rightarrow> Inr \<lparr>rp_input = newline # lines enc rest, rp_next = rt e, rp_through = through\<rparr>, s')"
    unfolding all .
  have "index_ok enc es (positions s' i)" using s'(3) assms(4) by (simp add: committed_def)
  then show ?thesis by (rule that [OF final s'(2)])
qed

section \<open>Accounting\<close>

lemma sum_mput: "wf_map t \<Longrightarrow> sum_list (map snd (mput k v t)) = sum_list (map snd t) - mgetd 0 t k + (v::int)"
proof (induction t)
  case (Cons x t)
  obtain l u where x: "x = (l, u)" by (cases x)
  show ?case
  proof (cases "l = k")
    case True
    then show ?thesis by (simp add: mput_def mgetd_def mget_def x)
  next
    case False
    then show ?thesis using Cons by (simp add: mput_def mgetd_def mget_def wf_map_def x)
  qed
qed (simp add: mput_def mgetd_def mget_def)

lemma sum_mdel: "wf_map t \<Longrightarrow> sum_list (map snd (mdel k t)) = sum_list (map snd t) - (mgetd 0 t k :: int)"
proof (induction t)
  case (Cons x t)
  obtain l u where x: "x = (l, u)" by (cases x)
  show ?case
  proof (cases "l = k")
    case True
    then have "k \<notin> fst ` set t" using Cons.prems by (simp add: wf_map_def x)
    then have "mdel k t = t" by (simp add: mdel_def AList.delete_eq filter_id_conv) force
    then show ?thesis using True by (simp add: mdel_def mgetd_def mget_def AList.delete_eq x)
  next
    case False
    then show ?thesis using Cons by (simp add: mdel_def mgetd_def mget_def wf_map_def AList.delete_eq x)
  qed
qed (simp add: mdel_def mgetd_def mget_def AList.delete_eq)

text \<open>The running total is the sum of the sizes.\<close>

definition adds_up :: "stateStore \<Rightarrow> bool" where
  "adds_up s \<longleftrightarrow> wf_map (ss_journalSizes s) \<and> ss_totalJournalBytes s = sum_list (map snd (ss_journalSizes s))"

lemma account_adds_up: "adds_up s \<Longrightarrow> adds_up (accountJournal path n s)"
  by (simp add: adds_up_def accountJournal_def sum_mput sum_mdel)

lemma account_fields [simp]:
  "ss_dir (accountJournal path n s) = ss_dir s" "ss_journals (accountJournal path n s) = ss_journals s"
  "ss_files (accountJournal path n s) = ss_files s" "ss_eventIndex (accountJournal path n s) = ss_eventIndex s"
  "positions (accountJournal path n s) i = positions s i"
  "mgetd 0 (ss_journalSizes (accountJournal path n s)) p = (if p = path then n else mgetd 0 (ss_journalSizes s) p)"
  by (auto simp: accountJournal_def positions_def mgetd_def)

lemma account_total:
  "ss_totalJournalBytes (accountJournal path n s) = ss_totalJournalBytes s + (n - mgetd 0 (ss_journalSizes s) path)"
  by (simp add: accountJournal_def)

section \<open>What an append changes\<close>

definition content :: "stateStore \<Rightarrow> string \<Rightarrow> string" where
  "content s path = mgetd [] (ss_files s) path"

text \<open>An open handle stands at the end of its file, and its file is accounted for in full.\<close>

definition writer_ok :: "stateStore \<Rightarrow> string \<Rightarrow> bool" where
  "writer_ok s i \<longleftrightarrow> (\<forall>w. mget (ss_journals s) i = Some w \<longrightarrow> jw_file w = eventPath (ss_dir s) i \<and>
     length (content s (jw_file w)) = jw_end w \<and> mgetd 0 (ss_journalSizes s) (jw_file w) = int (jw_end w))"

text \<open>A step about attempt \<open>i\<close> leaves the handles, the index and the files of the others alone.\<close>

definition only_attempt :: "string \<Rightarrow> stateStore \<Rightarrow> stateStore \<Rightarrow> bool" where
  "only_attempt i s s' \<longleftrightarrow> ss_dir s' = ss_dir s \<and>
     (\<forall>j. j \<noteq> i \<longrightarrow> mget (ss_journals s') j = mget (ss_journals s) j \<and> positions s' j = positions s j) \<and>
     (\<forall>p. p \<noteq> eventPath (ss_dir s) i \<longrightarrow> content s' p = content s p \<and>
        mgetd 0 (ss_journalSizes s') p = mgetd 0 (ss_journalSizes s) p)"

lemma only_attempt_refl [simp]: "only_attempt i s s"
  by (simp add: only_attempt_def)

lemma only_attempt_trans: "only_attempt i s t \<Longrightarrow> only_attempt i t u \<Longrightarrow> only_attempt i s u"
  by (auto simp: only_attempt_def)

lemma committed_content:
  "committed enc s i es \<longleftrightarrow> length (lines enc es) \<le> length (content s (eventPath (ss_dir s) i)) \<and>
     take (length (lines enc es)) (content s (eventPath (ss_dir s) i)) = lines enc es \<and> index_ok enc es (positions s i)"
  by (simp add: committed_def content_def)

lemma other_attempt:
  assumes "only_attempt i s s'" "j \<noteq> i" "eventPath (ss_dir s) j \<noteq> eventPath (ss_dir s) i"
  shows "committed enc s' j es \<longleftrightarrow> committed enc s j es" "writer_ok s j \<Longrightarrow> writer_ok s' j"
  using assms by (simp add: only_attempt_def committed_content) (use assms in \<open>auto simp: only_attempt_def writer_ok_def\<close>)

lemma write_at_end: "length c = pos \<Longrightarrow> write_at pos bytes c = c @ bytes"
  by (simp add: write_at_def)

lemma close_props [simp]:
  "ss_dir (snd (closeJournal f i s)) = ss_dir s" "ss_files (snd (closeJournal f i s)) = ss_files s"
  "ss_journalSizes (snd (closeJournal f i s)) = ss_journalSizes s" "positions (snd (closeJournal f i s)) = positions s"
  "ss_totalJournalBytes (snd (closeJournal f i s)) = ss_totalJournalBytes s"
  "mget (ss_journals (snd (closeJournal f i s))) j = (if j = i then None else mget (ss_journals s) j)"
  by (auto simp: closeJournal_def positions_def fun_eq_iff split: option.split)

lemma clear_props [simp]:
  "ss_dir (clearEventIndex i s) = ss_dir s" "ss_files (clearEventIndex i s) = ss_files s"
  "ss_journalSizes (clearEventIndex i s) = ss_journalSizes s" "ss_journals (clearEventIndex i s) = ss_journals s"
  "ss_totalJournalBytes (clearEventIndex i s) = ss_totalJournalBytes s"
  "positions (clearEventIndex i s) j = (if j = i then [] else positions s j)"
  by (simp_all add: clearEventIndex_def positions_def mgetd_def)

lemma open_writer_props:
  assumes "adds_up s" "committed enc s i es" "offset = length (lines enc es)" "open_writer fault i offset s = (r, s')"
  shows "only_attempt i s s' \<and> adds_up s' \<and> committed enc s' i es \<and> writer_ok s' i \<and>
    (case r of Inl _ \<Rightarrow> True | Inr w \<Rightarrow> mget (ss_journals s') i = Some w \<and> jw_end w = offset)"
proof -
  let ?p = "eventPath (ss_dir s) i"
  let ?s0 = "if mget (ss_journals s) i \<noteq> None then clearEventIndex i s else s"
  obtain e s1 where cl: "closeJournal (fault = CloseFault) i ?s0 = (e, s1)" by fastforce
  have s1e: "s1 = snd (closeJournal (fault = CloseFault) i ?s0)" by (simp only: cl snd_conv)
  have s1: "ss_dir s1 = ss_dir s" "ss_files s1 = ss_files s" "ss_journalSizes s1 = ss_journalSizes s"
      "ss_totalJournalBytes s1 = ss_totalJournalBytes s" "mget (ss_journals s1) j = (if j = i then None else mget (ss_journals s) j)"
      "positions s1 j = positions s j \<or> j = i \<and> positions s1 j = []" for j
    unfolding s1e by (cases "mget (ss_journals s) i = None"; simp)+
  have len: "offset \<le> length (content s ?p)" and pre: "take offset (content s ?p) = lines enc es"
    and idx: "index_ok enc es (positions s1 i)"
    using assms(2,3) s1(6) [of i] by (auto simp: committed_content)
  have adds: "adds_up s1" using assms(1) s1 by (simp add: adds_up_def)
  let ?c = "content s ?p"
  let ?files = "\<lambda>t c. t\<lparr>ss_files := mput ?p c (ss_files t)\<rparr>"
  have still: "only_attempt i s t \<and> adds_up t \<and> committed enc t i es \<and> writer_ok t i"
    if "ss_dir t = ss_dir s" "\<forall>j. mget (ss_journals t) j = mget (ss_journals s1) j" "\<forall>j. positions t j = positions s1 j"
      "\<forall>q. q \<noteq> ?p \<longrightarrow> content t q = content s q" "content t ?p = ?c \<or> content t ?p = take offset ?c"
      "ss_journalSizes t = ss_journalSizes s" "ss_totalJournalBytes t = ss_totalJournalBytes s" for t
  proof (intro conjI)
    show "only_attempt i s t"
      unfolding only_attempt_def
    proof (intro conjI allI impI)
      fix j assume "j \<noteq> i"
      then show "mget (ss_journals t) j = mget (ss_journals s) j" "positions t j = positions s j"
        using that(2,3) s1(5,6) [of j] by auto
    qed (use that in auto)
    show "adds_up t" using assms(1) that(6,7) by (simp add: adds_up_def)
    show "committed enc t i es" using that(1,3,5) len pre idx assms(3) by (auto simp: committed_content)
    show "writer_ok t i" using that(2) s1(5) [of i] by (simp add: writer_ok_def)
  qed
  have s1c: "content s1 q = content s q" for q by (simp add: content_def s1(2))
  let ?w = "\<lparr>jw_file = ?p, jw_end = offset, jw_dirty = False\<rparr>" and ?t = "?files (?files s1 ?c) (take offset ?c)"
  let ?u = "accountJournal ?p (int offset) ?t\<lparr>ss_journals := mput i ?w (ss_journals ?t)\<rparr>"
  have mc: "mgetd [] (ss_files s1) ?p = ?c" by (simp add: content_def s1(2))
  from assms(4) have cases: "(\<exists>e'. r = Inl e') \<and> (s' = s1 \<or> s' = ?files s1 ?c \<or> s' = ?t) \<or> r = Inr ?w \<and> s' = ?u"
    unfolding open_writer_def Let_def cl prod.case s1(1) mc
    by (cases e) (auto simp: s1(1) mc split: if_splits)
  then show ?thesis
  proof (elim disjE conjE)
    assume r: "\<exists>e'. r = Inl e'" and "s' = s1"
    then show ?thesis using still [of s1] s1 s1c by auto
  next
    assume r: "\<exists>e'. r = Inl e'" and "s' = ?files s1 ?c"
    moreover have "only_attempt i s (?files s1 ?c) \<and> adds_up (?files s1 ?c) \<and> committed enc (?files s1 ?c) i es \<and> writer_ok (?files s1 ?c) i"
      by (rule still) (simp_all add: s1 content_def mgetd_def positions_def)
    ultimately show ?thesis by auto
  next
    assume r: "\<exists>e'. r = Inl e'" and "s' = ?t"
    moreover have "only_attempt i s ?t \<and> adds_up ?t \<and> committed enc ?t i es \<and> writer_ok ?t i"
      by (rule still) (simp_all add: s1 content_def mgetd_def positions_def)
    ultimately show ?thesis by auto
  next
    assume r: "r = Inr ?w" and s': "s' = ?u"
    have t: "only_attempt i s ?t \<and> adds_up ?t \<and> committed enc ?t i es \<and> writer_ok ?t i"
      by (rule still) (simp_all add: s1 content_def mgetd_def positions_def)
    have "adds_up (accountJournal ?p (int offset) ?t)" using t account_adds_up by blast
    then have adds_u: "adds_up ?u" by (simp add: adds_up_def)
    have "only_attempt i ?t ?u" by (simp add: only_attempt_def content_def positions_def s1(1))
    then have only_u: "only_attempt i s ?u" using t only_attempt_trans by blast
    have com_u: "committed enc ?u i es"
      using t by (simp add: committed_content content_def positions_def)
    have "content ?u ?p = take offset ?c" by (simp add: content_def mgetd_def)
    then have "writer_ok ?u i" using len by (simp add: writer_ok_def s1(1))
    then show ?thesis using adds_u only_u com_u unfolding s' r by simp
  qed
qed

lemma committed_exact:
  assumes "committed enc s i es" "writer_ok s i" "mget (ss_journals s) i = Some w" "jw_end w = length (lines enc es)"
  shows "jw_file w = eventPath (ss_dir s) i" "content s (jw_file w) = lines enc es"
    "mgetd 0 (ss_journalSizes s) (jw_file w) = int (length (lines enc es))"
proof -
  show f: "jw_file w = eventPath (ss_dir s) i" using assms(2,3) by (simp add: writer_ok_def)
  have "mgetd 0 (ss_journalSizes s) (jw_file w) = int (jw_end w)" using assms(2,3) unfolding writer_ok_def by blast
  then show "mgetd 0 (ss_journalSizes s) (jw_file w) = int (length (lines enc es))" using assms(4) by simp
  have "length (content s (jw_file w)) = jw_end w" using assms(2,3) unfolding writer_ok_def by blast
  then have "length (content s (jw_file w)) = length (lines enc es)" using assms(4) by simp
  moreover have "take (length (lines enc es)) (content s (jw_file w)) = lines enc es"
    using assms(1) by (simp add: committed_content f)
  ultimately show "content s (jw_file w) = lines enc es" by simp
qed

lemma write_event_props:
  assumes "adds_up s" "writer_ok s i" "mget (ss_journals s) i = Some w" "committed enc s i es"
    and "jw_end w = length (lines enc es)" "write_event fault i w encoded s = (ok, s')"
  shows "only_attempt i s s' \<and> adds_up s' \<and> writer_ok s' i \<and> positions s' = positions s \<and> committed enc s' i es \<and>
    (ok \<longrightarrow> content s' (eventPath (ss_dir s) i) = lines enc es @ encoded \<and>
       ss_totalJournalBytes s' = ss_totalJournalBytes s + int (length encoded))"
proof -
  let ?p = "eventPath (ss_dir s) i"
  let ?n = "case fault of WriteFault n \<Rightarrow> min n (length encoded) | _ \<Rightarrow> length encoded"
  note w = committed_exact [OF assms(4,2,3,5)]
  have written: "write_at (jw_end w) (take ?n encoded) (mgetd [] (ss_files s) ?p) = lines enc es @ take ?n encoded"
    using w(1,2) assms(5) by (simp add: content_def write_at_def)
  let ?t = "accountJournal ?p (int (jw_end w + ?n)) (s\<lparr>ss_files := mput ?p (lines enc es @ take ?n encoded) (ss_files s)\<rparr>)"
  have fields: "ss_dir ?t = ss_dir s" "ss_journals ?t = ss_journals s" "positions ?t = positions s"
      "content ?t q = (if q = ?p then lines enc es @ take ?n encoded else content s q)"
      "mgetd 0 (ss_journalSizes ?t) q = (if q = ?p then int (length (lines enc es) + ?n) else mgetd 0 (ss_journalSizes s) q)" for q
    using assms(5) by (simp_all add: content_def mgetd_def accountJournal_def positions_def fun_eq_iff)
  have adds: "adds_up ?t" using assms(1) by (intro account_adds_up) (simp add: adds_up_def)
  have step: "(ok, s') = (case fault of
      WriteFault _ \<Rightarrow> (False, snd (closeJournal False i ?t))
    | _ \<Rightarrow> (True, ?t\<lparr>ss_journals := mput i (w\<lparr>jw_end := jw_end w + length encoded, jw_dirty := True\<rparr>) (ss_journals ?t)\<rparr>))"
    unfolding assms(6) [symmetric] write_event_def Let_def w(1) written by (cases fault) simp_all
  show ?thesis
  proof (cases "ok")
    case False
    then have s': "s' = snd (closeJournal False i ?t)" using step by (cases fault) auto
    have "content s' q = content ?t q" for q by (simp add: s' content_def)
    moreover have "mget (ss_journals s') i = None" by (simp add: s')
    moreover have "adds_up s'" using adds by (simp add: s' adds_up_def)
    ultimately show ?thesis using False fields assms(4)
      by (simp add: s' only_attempt_def writer_ok_def committed_content)
  next
    case True
    then have n: "?n = length encoded"
      and s': "s' = ?t\<lparr>ss_journals := mput i (w\<lparr>jw_end := jw_end w + length encoded, jw_dirty := True\<rparr>) (ss_journals ?t)\<rparr>"
      using step by (cases fault; simp)+
    have c: "content s' q = content ?t q" "positions s' = positions ?t" for q by (simp_all add: s' content_def positions_def fun_eq_iff)
    have "ss_totalJournalBytes s' = ss_totalJournalBytes s + int (length encoded)"
      using w(1,3) assms(5) n by (simp add: s' account_total)
    moreover have "adds_up s'" using adds by (simp add: s' adds_up_def)
    moreover have "only_attempt i s s'" using fields c by (simp add: only_attempt_def s')
    moreover have "writer_ok s' i" using w(1) fields(4,5) [of ?p] c(1) n assms(5) by (simp add: s' writer_ok_def)
    moreover have "committed enc s' i es" using fields(3,4) c assms(4) by (simp add: committed_content s')
    ultimately show ?thesis using True fields(3,4) c n by simp
  qed
qed

definition byte_limit :: "Event \<Rightarrow> int" where
  "byte_limit event = maxJournalBytes + (if control_event event then journalControlReserve else 0)"

definition total_limit :: "Event \<Rightarrow> int" where
  "total_limit event = maxTotalJournalBytes + (if control_event event then totalJournalControlReserve else 0)"

lemma index_ok_empty: "index_ok enc [] ps \<Longrightarrow> ps = []"
  by (cases ps) (auto simp: index_ok_def starts_def)

lemma appendEvent_eq:
  "appendEvent enc fault s i offset retained event =
     (case encode_events enc ((if offset = 0 then retained else []) @ [event]) of
        None \<Rightarrow> (Inl (JournalError ''encode''), s)
      | Some encoded \<Rightarrow>
          if int offset > byte_limit event - int (length encoded)
          then (Inl (JournalError ''event journal byte limit exceeded''), s)
          else (case (case mget (ss_journals s) i of
                        Some w \<Rightarrow> if jw_end w = offset then (Inr w, s) else open_writer fault i offset s
                      | None \<Rightarrow> open_writer fault i offset s) of
              (Inl e, s) \<Rightarrow> (Inl e, s)
            | (Inr w, s) \<Rightarrow>
                if ss_totalJournalBytes s > total_limit event - int (length encoded)
                then (Inl (JournalError ''aggregate event journal storage limit exceeded''), s)
                else (case write_event fault i w encoded s of
                    (False, s) \<Rightarrow> (Inl SysError, s)
                  | (True, s) \<Rightarrow> (Inr (jw_end w + length encoded),
                      if retained = [] \<or> offset \<noteq> 0 then indexEvent i (ev_Cursor event) offset s else s))))"
  unfolding appendEvent_def byte_limit_def total_limit_def Let_def ..

lemma appendEvent_props:
  assumes "adds_up s" "writer_ok s i" "committed enc s i es" "offset = length (lines enc es)" "offset = 0 \<longrightarrow> es = []"
    and "appendEvent enc fault s i offset retained event = (r, s')"
    and "es' = (if offset = 0 then retained else es) @ [event]"
  shows "only_attempt i s s' \<and> adds_up s' \<and> writer_ok s' i \<and>
    (case r of Inl _ \<Rightarrow> committed enc s' i es
     | Inr end' \<Rightarrow> committed enc s' i es' \<and> end' = length (lines enc es') \<and> int end' \<le> byte_limit event \<and>
         ss_totalJournalBytes s' \<le> total_limit event)"
proof (cases "encode_events enc ((if offset = 0 then retained else []) @ [event])")
  case None
  then show ?thesis using assms by (auto simp: appendEvent_def)
next
  case (Some encoded)
  note app = assms(6) [unfolded appendEvent_eq Some option.case]
  have encoded: "encoded = lines enc ((if offset = 0 then retained else []) @ [event])"
    using encode_events_Some [OF Some] by simp
  then have all: "lines enc es @ encoded = lines enc es'" using assms(4,5,7) by (auto split: if_splits)
  show ?thesis
  proof (cases "int offset > byte_limit event - int (length encoded)")
    case True
    then have "\<exists>e. r = Inl e" "s' = s" using app by (simp_all only: if_True prod.inject) auto
    then show ?thesis using assms(1-3) by auto
  next
    case small: False
    obtain r1 s1 where open_: "(case mget (ss_journals s) i of
         Some w \<Rightarrow> if jw_end w = offset then (Inr w, s) else open_writer fault i offset s
       | None \<Rightarrow> open_writer fault i offset s) = (r1, s1)" by fastforce
    have one: "only_attempt i s s1 \<and> adds_up s1 \<and> committed enc s1 i es \<and> writer_ok s1 i \<and>
      (case r1 of Inl _ \<Rightarrow> True | Inr w \<Rightarrow> mget (ss_journals s1) i = Some w \<and> jw_end w = offset)"
      using open_ open_writer_props [OF assms(1,3,4)] assms(1-3)
      by (cases "mget (ss_journals s) i") (auto split: if_splits)
    show ?thesis
    proof (cases r1)
      case (Inl e)
      then have "r = Inl e" "s' = s1" using app small
        by (simp_all only: if_False open_ prod.case sum.case prod.inject)
      then show ?thesis using one by simp
    next
      case (Inr w)
      then have w: "mget (ss_journals s1) i = Some w" "jw_end w = offset" using one by auto
      have dir: "ss_dir s1 = ss_dir s" using one by (simp add: only_attempt_def)
      show ?thesis
      proof (cases "ss_totalJournalBytes s1 > total_limit event - int (length encoded)")
        case True
        then have "\<exists>e. r = Inl e" "s' = s1" using app small Inr
          by (simp_all only: if_False if_True open_ prod.case sum.case prod.inject) auto
        then show ?thesis using one by auto
      next
        case fits: False
        obtain ok s2 where wr: "write_event fault i w encoded s1 = (ok, s2)" by fastforce
        note two = write_event_props [OF _ _ w(1) _ _ wr, of enc es]
        let ?index = "retained = [] \<or> offset \<noteq> 0"
        have res: "(r, s') = (if ok then (Inr (jw_end w + length encoded),
            if ?index then indexEvent i (ev_Cursor event) offset s2 else s2) else (Inl SysError, s2))"
          using app small Inr fits
          by (simp only: if_False open_ prod.case sum.case wr) (cases ok; simp)
        have two: "only_attempt i s1 s2 \<and> adds_up s2 \<and> writer_ok s2 i \<and> positions s2 = positions s1 \<and> committed enc s2 i es \<and>
          (ok \<longrightarrow> content s2 (eventPath (ss_dir s1) i) = lines enc es @ encoded \<and>
             ss_totalJournalBytes s2 = ss_totalJournalBytes s1 + int (length encoded))"
          by (rule two) (use one w(2) assms(4) in auto)
        have only: "only_attempt i s s2" using one two only_attempt_trans by blast
        show ?thesis
        proof (cases ok)
          case False
          then show ?thesis using res two only by simp
        next
          case True
          then have r: "r = Inr (length (lines enc es'))"
            and s': "s' = (if ?index then indexEvent i (ev_Cursor event) offset s2 else s2)"
            using res w(2) assms(4) by (auto simp: all [symmetric])
          have dir2: "ss_dir s' = ss_dir s" "ss_dir s2 = ss_dir s" using only by (auto simp: s' only_attempt_def)
          have filed: "content s' (eventPath (ss_dir s') i) = lines enc es'"
            using two True dir dir2 by (simp add: all s' content_def)
          have idx2: "index_ok enc es (positions s2 i)" using two unfolding committed_def by blast
          have "index_ok enc es' (positions s' i)"
          proof (cases ?index)
            case True
            then have es': "es' = es @ [event]" using assms(4,5,7) by auto
            have st: "starts enc es' offset (ev_Cursor event)" unfolding starts_def es' using assms(4) by blast
            have "index_ok enc es' (positions s2 i)" unfolding es' by (rule index_ok_append [OF idx2])
            from indexEvent_ok [OF this st] show ?thesis using True by (simp add: s')
          next
            case False
            then have "es = []" using assms(5) by auto
            then have "positions s2 i = []" using idx2 index_ok_empty by simp
            then show ?thesis using False by (simp add: s')
          qed
          then have "committed enc s' i es'" using filed by (simp add: committed_content)
          moreover have "only_attempt i s s'" using only
            by (simp add: s' only_attempt_def indexEvent_other content_def)
          moreover have "adds_up s'" "writer_ok s' i" using two by (auto simp: s' adds_up_def writer_ok_def content_def)
          moreover have "int (length (lines enc es')) \<le> byte_limit event"
            using small assms(4) by (simp add: all [symmetric])
          moreover have "ss_totalJournalBytes s' \<le> total_limit event" using two True fits by (simp add: s')
          ultimately show ?thesis using r by simp
        qed
      qed
    qed
  qed
qed

end
