(* ===== verification/RunnerLog.thy ===== *)
theory RunnerLog
  imports JournalFacts RunnerProtocol
begin

text \<open>
  The runner's state and the event log of its attempts (\<open>pkg/runner/runner.go\<close>, \<open>store.go\<close>,
  \<open>http.go\<close>): appending an event, saving the state file, restarting from it, and serving the events
  after a cursor from the hot cache or from the journal.
\<close>

section \<open>State\<close>

text \<open>A warm environment is here the attempt that owns it.\<close>

record attemptRecord =
  ar_EventJournalBytes :: nat
  ar_CleanupDelegated :: bool
  ar_CleanupEligible :: bool
  ar_CleanupAttempts :: int
  ar_CleanupError :: string
  ar_CleanupDone :: bool
  ar_cleanupRunning :: bool
  ar_Receipt :: AttemptReceipt
  ar_Start :: StartRequest
  ar_Fingerprint :: string
  ar_Resources :: "string list"
  ar_ArtifactSpecs :: "ArtifactSpec list"
  ar_CancelPending :: bool
  ar_OutputBytes :: int
  ar_LimitExceeded :: bool

record operationRecord =
  op_Fingerprint :: string
  op_AttemptID :: string

record artifactRecord =
  af_Artifact :: Artifact
  af_Path :: string

record persistedState =
  ps_Attempts :: "attemptRecord gomap"
  ps_Events :: "Event list gomap"
  ps_Operations :: "operationRecord gomap"
  ps_Artifacts :: "artifactRecord gomap"
  ps_Reservations :: "string gomap"  \<comment> \<open>the attempt\<close>
  ps_Environments :: "string gomap"

record runnerConfig =
  cfg_StateDir :: string
  cfg_Toolchains :: "string list"
  cfg_Environment :: "string list"
  cfg_MaximumCapacity :: int
  cfg_MaxEvents :: nat
  cfg_MaxEventBytes :: int
  cfg_MaxArtifactSize :: int
  cfg_AttemptRetentionHours :: int
  cfg_ParkedAttemptRetentionHours :: int
  cfg_MaxRetainedAttempts :: int
  cfg_Resources :: "int gomap"  \<comment> \<open>the capacity\<close>

text \<open>The clock that limits the work of an execution, and the gate its permission prompts wait at: the request, and
  whether there is a channel that takes its verdict. A clock of no limit is \<open>None\<close>.\<close>

record workClock =
  wc_remaining :: int
  wc_startedAt :: time
  wc_running :: bool
  wc_stopped :: bool
  wc_ranOut :: bool

record permissionGate =
  pg_requestID :: string
  pg_answer :: bool
  pg_clock :: "workClock option"

text \<open>Of a running execution the map holds the function that cancels its context: here, whether the context is
  cancelled. The verdicts put into the channels of the gates are kept in order, with the attempt and the request
  each was put there for.\<close>

record Runner =
  rn_cfg :: runnerConfig
  rn_store :: stateStore
  rn_state :: persistedState
  rn_capabilities :: Capabilities
  rn_running :: "bool gomap"
  rn_permissions :: "permissionGate gomap"
  rn_credentials :: "HarnessCredential gomap"
  rn_shutdown :: "string list"
  rn_closed :: bool
  rn_answers :: "(string \<times> string \<times> PermissionVerdict) list"

section \<open>Appending\<close>

definition hot :: "Runner \<Rightarrow> string \<Rightarrow> Event list" where
  "hot r i = mgetd [] (ps_Events (rn_state r)) i"

definition next_event :: "Runner \<Rightarrow> string \<Rightarrow> attemptRecord \<Rightarrow> time \<Rightarrow> string \<Rightarrow> string \<Rightarrow> string \<Rightarrow> Event" where
  "next_event r i a now eventType message data =
     \<lparr>ev_Cursor = (if hot r i = [] then 0 else ev_Cursor (last (hot r i))) + 1, ev_Timestamp = now,
       ev_AttemptEpoch = rc_AttemptEpoch (ar_Receipt a), ev_Type = eventType,
       ev_Message = boundedMessage message, ev_Data = data\<rparr>"

definition trim_hot :: "nat \<Rightarrow> Event list \<Rightarrow> Event list" where
  "trim_hot most events = (if length events > most then drop (length events - most) events else events)"

definition appendEventLocked :: "(Event \<Rightarrow> string option) \<Rightarrow> fault \<Rightarrow> time \<Rightarrow> Runner \<Rightarrow> string \<Rightarrow> string \<Rightarrow> string \<Rightarrow> string \<Rightarrow>
    (journal_error + Event) \<times> Runner" where
  "appendEventLocked enc fault now r i eventType message data =
     (case mget (ps_Attempts (rn_state r)) i of
        None \<Rightarrow> (Inl (JournalError ''attempt not found''), r)
      | Some a \<Rightarrow>
          if int (length data) > cfg_MaxEventBytes (rn_cfg r)
          then (Inl (JournalError ''event data exceeds limit''), r)
          else let event = next_event r i a now eventType message data in
            (case appendEvent enc fault (rn_store r) i (ar_EventJournalBytes a) (hot r i) event of
               (Inl e, st) \<Rightarrow> (Inl e, r\<lparr>rn_store := st\<rparr>)
             | (Inr end', st) \<Rightarrow>
                 (Inr event, r\<lparr>rn_store := st,
                    rn_state := (rn_state r)\<lparr>
                      ps_Attempts := mput i (a\<lparr>ar_EventJournalBytes := end',
                        ar_Receipt := (ar_Receipt a)\<lparr>rc_Cursor := ev_Cursor event, rc_UpdatedAt := now\<rparr>\<rparr>)
                        (ps_Attempts (rn_state r)),
                      ps_Events := mput i (trim_hot (cfg_MaxEvents (rn_cfg r)) (hot r i @ [event]))
                        (ps_Events (rn_state r))\<rparr>\<rparr>)))"

section \<open>The state file\<close>

text \<open>Of an attempt with a journal only the last cached event is saved.\<close>

definition saved_events :: "persistedState \<Rightarrow> Event list gomap" where
  "saved_events p = map (\<lambda>(i, retained).
     (i, case mget (ps_Attempts p) i of
           Some a \<Rightarrow> if ar_EventJournalBytes a > 0 \<and> length retained > 1 then drop (length retained - 1) retained else retained
         | None \<Rightarrow> retained)) (ps_Events p)"

datatype save_fault = NoSaveFault | SaveFault | DirSyncFault  \<comment> \<open>after the rename\<close>

text \<open>The state file the save leaves, when it replaces it.\<close>

definition save :: "(string \<Rightarrow> bool) \<Rightarrow> save_fault \<Rightarrow> Runner \<Rightarrow> bool \<times> persistedState option \<times> Runner" where
  "save sync_fails io r =
     (case syncJournals sync_fails (rn_store r) of (ok, st) \<Rightarrow>
        let r = r\<lparr>rn_store := st\<rparr>; snapshot = (rn_state r)\<lparr>ps_Events := saved_events (rn_state r)\<rparr> in
        if \<not> ok then (False, None, r)
        else (case io of SaveFault \<Rightarrow> (False, None, r) | DirSyncFault \<Rightarrow> (False, Some snapshot, r)
              | NoSaveFault \<Rightarrow> (True, Some snapshot, r)))"

definition idle :: "persistedState \<Rightarrow> string \<Rightarrow> bool" where
  "idle p i \<longleftrightarrow> (case mget (ps_Attempts p) i of None \<Rightarrow> True
     | Some a \<Rightarrow> IsTerminal (rc_Phase (ar_Receipt a)) \<or> rc_Phase (ar_Receipt a) = PhaseNeedsInput)"

fun close_idle :: "(string \<Rightarrow> bool) \<Rightarrow> persistedState \<Rightarrow> string list \<Rightarrow> stateStore \<Rightarrow> bool \<times> stateStore" where
  "close_idle fails p [] st = (True, st)"
| "close_idle fails p (i # ids) st =
     (if \<not> idle p i then close_idle fails p ids st
      else case closeJournal (fails i) i st of
          (Some _, st) \<Rightarrow> (False, st) | (None, st) \<Rightarrow> close_idle fails p ids st)"

definition persistLocked :: "(string \<Rightarrow> bool) \<Rightarrow> (string \<Rightarrow> bool) \<Rightarrow> save_fault \<Rightarrow> Runner \<Rightarrow> bool \<times> persistedState option \<times> Runner" where
  "persistLocked sync_fails close_fails io r =
     (case save sync_fails io r of
        (False, file, r) \<Rightarrow> (False, file, r)
      | (True, file, r) \<Rightarrow>
          (case close_idle close_fails (rn_state r) (map fst (ss_journals (rn_store r))) (rn_store r) of
             (ok, st) \<Rightarrow> (ok, file, r\<lparr>rn_store := st\<rparr>)))"

section \<open>Restarting\<close>

definition newStateStore :: "string \<Rightarrow> string gomap \<Rightarrow> stateStore" where
  "newStateStore dir files = \<lparr>ss_dir = dir, ss_journals = [], ss_eventIndex = [], ss_journalSizes = [],
     ss_totalJournalBytes = 0, ss_files = files\<rparr>"

text \<open>A new process on the state file and on what the disk holds; \<open>rt\<close> is what a round trip through
  JSON makes of an event. Whether a cleanup runs
  is not saved. The journals of attempts the state does not name are removed. This is the part of \<open>New\<close> that opens
  the runner; what it does next (\<open>recoverLocked\<close>, a retention pass, a save) is in \<open>RunnerExecution\<close>.\<close>

definition restart :: "(Event \<Rightarrow> Event) \<Rightarrow> (string \<Rightarrow> bool) \<Rightarrow> Capabilities \<Rightarrow> runnerConfig \<Rightarrow> string gomap \<Rightarrow> persistedState \<Rightarrow> bool \<times> Runner" where
  "restart rt fails caps cfg files p =
     (let state = p\<lparr>ps_Events := map (\<lambda>(i, es). (i, map rt es)) (ps_Events p),
            ps_Attempts := map (\<lambda>(i, a). (i, a\<lparr>ar_cleanupRunning := False\<rparr>)) (ps_Attempts p)\<rparr>;
          st = loadJournalUsage (newStateStore (cfg_StateDir cfg) files)
      in case pruneJournals fails (map fst (ps_Attempts p)) st of (ok, st) \<Rightarrow>
        (ok, \<lparr>rn_cfg = cfg, rn_store = st, rn_state = state, rn_capabilities = caps, rn_running = [],
               rn_permissions = [], rn_credentials = [], rn_shutdown = [], rn_closed = False, rn_answers = []\<rparr>))"

definition set_attempt :: "string \<Rightarrow> (attemptRecord \<Rightarrow> attemptRecord) \<Rightarrow> Runner \<Rightarrow> Runner" where
  "set_attempt i f r = (case mget (ps_Attempts (rn_state r)) i of None \<Rightarrow> r
     | Some a \<Rightarrow> r\<lparr>rn_state := (rn_state r)\<lparr>ps_Attempts := mput i (f a) (ps_Attempts (rn_state r))\<rparr>\<rparr>)"

definition park :: "time \<Rightarrow> string \<Rightarrow> attemptRecord \<Rightarrow> attemptRecord" where
  "park now blocker a = a\<lparr>ar_Receipt := (ar_Receipt a)\<lparr>rc_Phase := PhaseNeedsInput, rc_Blocker := blocker, rc_UpdatedAt := now\<rparr>\<rparr>"

definition drop_permission :: "time \<Rightarrow> attemptRecord \<Rightarrow> attemptRecord" where
  "drop_permission now a = (if rc_Permission (ar_Receipt a) \<noteq> None
     then a\<lparr>ar_Receipt := (ar_Receipt a)\<lparr>rc_Permission := None,
       rc_Blocker := ''runner restarted while the harness was waiting on a permission verdict; resume to continue the session'',
       rc_UpdatedAt := now\<rparr>\<rparr> else a)"

fun recover_loop :: "(Event \<Rightarrow> string option) \<Rightarrow> (string \<Rightarrow> fault) \<Rightarrow> time \<Rightarrow> string list \<Rightarrow> string list \<Rightarrow> Runner \<Rightarrow>
    journal_error option \<times> Runner" where
  "recover_loop enc faults now migrated [] r = (None, r)"
| "recover_loop enc faults now migrated (i # ids) r =
     (let r = set_attempt i (drop_permission now) r in
      case mget (ps_Attempts (rn_state r)) i of
        None \<Rightarrow> recover_loop enc faults now migrated ids r
      | Some a \<Rightarrow>
          if i \<notin> set migrated \<and> (IsTerminal (rc_Phase (ar_Receipt a)) \<or> rc_Phase (ar_Receipt a) = PhaseNeedsInput)
          then recover_loop enc faults now migrated ids r
          else let r = (if i \<in> set migrated then r
                        else set_attempt i (park now ''runner restarted; reconcile the existing harness session before resuming'') r);
                   blocker = (if i \<in> set migrated then rc_Blocker (ar_Receipt a)
                              else ''runner restarted; reconcile the existing harness session before resuming'')
            in (case appendEventLocked enc (faults i) now r i PhaseNeedsInput blocker [] of
                  (Inl e, r) \<Rightarrow> (Some e, r)
                | (Inr _, r) \<Rightarrow> recover_loop enc faults now migrated ids r))"

definition recoverLocked :: "(Event \<Rightarrow> string option) \<Rightarrow> (string \<Rightarrow> fault) \<Rightarrow> time \<Rightarrow> string list \<Rightarrow> Runner \<Rightarrow>
    journal_error option \<times> Runner" where
  "recoverLocked enc faults now migrated r =
     recover_loop enc faults now migrated (map fst (ps_Attempts (rn_state r))) r"

section \<open>Serving\<close>

datatype cursor_gap = NoGap | CursorAhead | CursorExpired

definition cursorGap :: "Event list \<Rightarrow> nat \<Rightarrow> cursor_gap" where
  "cursorGap events after =
     (if events = [] then NoGap
      else if after > ev_Cursor (last events) then CursorAhead
      else if after + 1 < ev_Cursor (hd events) then CursorExpired else NoGap)"

definition eventPageBytes :: int where "eventPageBytes = 8388608"

text \<open>Frames until the page is full: what is written, what is left of it, and whether it was cut.\<close>

fun writeSSE :: "(Event \<Rightarrow> int) \<Rightarrow> int \<Rightarrow> Event list \<Rightarrow> Event list \<times> int \<times> bool" where
  "writeSSE frame remaining [] = ([], remaining, False)"
| "writeSSE frame remaining (e # es) =
     (if frame e > remaining \<and> remaining \<noteq> eventPageBytes then ([], remaining, True)
      else case writeSSE frame (remaining - frame e) es of (out, left, full) \<Rightarrow> (e # out, left, full))"

datatype serve_error = NotFound | Gap cursor_gap | ReplayFailed journal_error

text \<open>The events one request writes before it goes live or ends.\<close>

fun serve_hot :: "(Event \<Rightarrow> int) \<Rightarrow> int \<Rightarrow> nat \<Rightarrow> Event list \<Rightarrow> Event list" where
  "serve_hot frame remaining seen [] = []"
| "serve_hot frame remaining seen (e # es) =
     (if ev_Cursor e \<le> seen then serve_hot frame remaining seen es
      else if frame e > remaining \<and> remaining \<noteq> eventPageBytes then []
      else e # serve_hot frame (remaining - frame e) (ev_Cursor e) es)"

definition serveEvents :: "(string \<Rightarrow> decoded) \<Rightarrow> (Event \<Rightarrow> int) \<Rightarrow> Runner \<Rightarrow> string \<Rightarrow> nat \<Rightarrow>
    (serve_error + Event list) \<times> Runner" where
  "serveEvents dec frame r i after =
     (case mget (ps_Attempts (rn_state r)) i of
        None \<Rightarrow> (Inl NotFound, r)
      | Some a \<Rightarrow>
          let events = hot r i; gap = cursorGap events after in
          if gap = CursorExpired \<and> ar_EventJournalBytes a > 0 then
            (case replayEvents dec (\<lambda>_. False) (rn_store r) i (ar_EventJournalBytes a) after (rc_Cursor (ar_Receipt a)) of
               (Inl e, st) \<Rightarrow> (Inl (ReplayFailed e), r\<lparr>rn_store := st\<rparr>)
             | (Inr replay, st) \<Rightarrow>
                 (case drain dec replay of (replayed, e) \<Rightarrow>
                    (case writeSSE frame eventPageBytes replayed of (out, remaining, full) \<Rightarrow>
                       (Inr (if full \<or> e \<noteq> ErrEOF then out
                             else out @ serve_hot frame remaining (if out = [] then after else ev_Cursor (last out)) events),
                        r\<lparr>rn_store := st\<rparr>))))
          else if gap \<noteq> NoGap then (Inl (Gap gap), r)
          else (Inr (serve_hot frame eventPageBytes after events), r))"

end
