(* ===== verification/LogFacts.thy ===== *)
theory LogFacts
  imports RunnerLog
begin

text \<open>
  The event log of an attempt is the sequence of its events, whatever mixture of hot cache, journal,
  state file and restarts holds it: a reader that follows the cursors sees every event once, in order,
  and what was saved survives a crash.
\<close>

section \<open>The log behind cache and journal\<close>

definition codec_on :: "(Event \<Rightarrow> string option) \<Rightarrow> (string \<Rightarrow> decoded) \<Rightarrow> (Event \<Rightarrow> Event) \<Rightarrow> Event set \<Rightarrow> bool" where
  "codec_on enc dec rt E \<longleftrightarrow> (\<forall>es. set es \<subseteq> E \<longrightarrow> codec enc dec rt es) \<and> (\<forall>e \<in> E. rt e \<in> E \<and> rt (rt e) = rt e)"

text \<open>The log \<open>H\<close>, up to the round trip through JSON: before the first append to a journal (\<open>es\<close> empty)
  the cache is the log; afterwards the journal is, and the cache is an end of it.\<close>

definition view :: "(Event \<Rightarrow> Event) \<Rightarrow> Event list \<Rightarrow> Event list \<Rightarrow> nat \<Rightarrow> Event list \<Rightarrow> bool" where
  "view rt es cache cursor H \<longleftrightarrow> consecutive H \<and>
     (if es = [] then H = map rt cache
      else H = map rt es \<and> cache \<noteq> [] \<and> (\<exists>pre. H = pre @ map rt cache) \<and> cursor = ev_Cursor (last es))"

lemma rt_cursor: "codec_on enc dec rt E \<Longrightarrow> e \<in> E \<Longrightarrow> ev_Cursor (rt e) = ev_Cursor e"
  unfolding codec_on_def codec_def by (metis empty_iff empty_set insertE list.set_intros(1) list.simps(15) subsetI)

lemma lines_empty: "codec_on enc dec rt E \<Longrightarrow> set es \<subseteq> E \<Longrightarrow> lines enc es = [] \<longleftrightarrow> es = []"
proof (cases es)
  case (Cons e fs)
  assume c: "codec_on enc dec rt E" "set es \<subseteq> E"
  then have codec: "codec enc dec rt es" by (simp add: codec_on_def)
  obtain body where "enc e = Some (body @ [newline])" by (rule codecD [OF codec, of e]) (simp_all add: Cons)
  then show ?thesis by (simp add: Cons)
qed simp

lemma consecutive_map:
  "\<forall>e \<in> set es. ev_Cursor (f e) = ev_Cursor e \<Longrightarrow> consecutive (map f es) \<longleftrightarrow> consecutive es"
  by (induction es rule: consecutive.induct) auto

lemma filter_map_cursor:
  "\<forall>e \<in> set es. ev_Cursor (f e) = ev_Cursor e \<Longrightarrow>
     filter (\<lambda>e. after < ev_Cursor e) (map f es) = map f (filter (\<lambda>e. after < ev_Cursor e) es)"
  by (induction es) auto

lemma consecutive_less: "consecutive (e # es) \<Longrightarrow> f \<in> set es \<Longrightarrow> ev_Cursor e < ev_Cursor f"
proof (induction es arbitrary: e)
  case (Cons g es)
  then show ?case using Cons.IH [of g] by (cases "f = g") auto
qed simp

lemma consecutive_le_last: "consecutive es \<Longrightarrow> e \<in> set es \<Longrightarrow> ev_Cursor e \<le> ev_Cursor (last es)"
proof (induction es)
  case (Cons f es)
  then show ?case using consecutive_less [of f es "last es"] consecutive_Cons [of f es] by (cases "es = []") auto
qed simp

lemma consecutive_ge_hd: "consecutive es \<Longrightarrow> e \<in> set es \<Longrightarrow> ev_Cursor (hd es) \<le> ev_Cursor e"
  by (cases es) (auto dest: consecutive_less)

section \<open>Pages\<close>

lemma writeSSE_take:
  "\<exists>k. fst (writeSSE frame remaining es) = take k es \<and>
     (\<not> snd (snd (writeSSE frame remaining es)) \<longrightarrow> fst (writeSSE frame remaining es) = es)"
proof (induction es arbitrary: remaining)
  case (Cons e es)
  obtain k where k: "fst (writeSSE frame (remaining - frame e) es) = take k es"
    "\<not> snd (snd (writeSSE frame (remaining - frame e) es)) \<longrightarrow> fst (writeSSE frame (remaining - frame e) es) = es"
    using Cons.IH by blast
  show ?case
  proof (cases "frame e > remaining \<and> remaining \<noteq> eventPageBytes")
    case True
    then show ?thesis by (auto intro: exI [of _ 0])
  next
    case False
    then show ?thesis using k by (auto split: prod.split intro!: exI [of _ "Suc k"])
  qed
qed simp

lemma writeSSE_progress: "es \<noteq> [] \<Longrightarrow> fst (writeSSE frame eventPageBytes es) \<noteq> []"
  by (cases es) (auto split: prod.split)

lemma serve_hot_eq:
  "consecutive es \<Longrightarrow> serve_hot frame remaining seen es = fst (writeSSE frame remaining (filter (\<lambda>e. seen < ev_Cursor e) es))"
proof (induction es arbitrary: remaining seen)
  case (Cons e es)
  note IH = Cons.IH [OF consecutive_Cons [OF Cons.prems]]
  have "filter (\<lambda>f. ev_Cursor e < ev_Cursor f) es = es" using consecutive_less [OF Cons.prems] by (simp add: filter_id_conv)
  moreover have "seen < ev_Cursor e \<Longrightarrow> filter (\<lambda>f. seen < ev_Cursor f) es = es"
    using consecutive_less [OF Cons.prems] by (simp add: filter_id_conv) (meson less_trans)
  ultimately show ?case using IH by (auto split: prod.split)
qed simp

section \<open>Serving\<close>

lemma serve_view:
  assumes "codec_on enc dec rt E" "set es \<subseteq> E" "set (hot r i) \<subseteq> E"
    and "mget (ps_Attempts (rn_state r)) i = Some a" "committed enc (rn_store r) i es"
    and "ar_EventJournalBytes a = length (lines enc es)" "view rt es (hot r i) (rc_Cursor (ar_Receipt a)) H"
    and "H \<noteq> []" "ev_Cursor (hd H) \<le> after + 1" "after \<le> ev_Cursor (last H)"
  obtains out st k where "serveEvents dec frame r i after = (Inr out, r\<lparr>rn_store := st\<rparr>)"
    "only_index i (rn_store r) st" "index_ok enc es (positions st i)"
    "map rt out = take k (filter (\<lambda>e. after < ev_Cursor e) H)" "filter (\<lambda>e. after < ev_Cursor e) H \<noteq> [] \<longrightarrow> out \<noteq> []"
    "set out \<subseteq> E"
proof -
  let ?new = "filter (\<lambda>e. after < ev_Cursor e)"
  have cur: "\<forall>e \<in> set es. ev_Cursor (rt e) = ev_Cursor e" "\<forall>e \<in> set (hot r i). ev_Cursor (rt e) = ev_Cursor e"
    using rt_cursor [OF assms(1)] assms(2,3) by blast+
  have idem: "\<forall>e \<in> set es. rt (rt e) = rt e" using assms(1,2) by (auto simp: codec_on_def)
  have H: "consecutive H" using assms(7) by (simp add: view_def)
  obtain pre where pre: "H = pre @ map rt (hot r i)" using assms(7) by (auto simp: view_def split: if_splits)
  have cache: "hot r i \<noteq> []" using assms(7,8) by (auto simp: view_def split: if_splits)
  have chot: "consecutive (hot r i)"
    using consecutive_append [of pre] H consecutive_map [OF cur(2)] by (simp add: pre)
  have last: "ev_Cursor (last H) = ev_Cursor (last (hot r i))"
    using cache cur(2) by (simp add: pre last_map)
  show ?thesis
  proof (cases "after + 1 < ev_Cursor (hd (hot r i))")
    case False
    then have gap: "cursorGap (hot r i) after = NoGap" using assms(10) last by (simp add: cursorGap_def)
    have "\<not> after < ev_Cursor e" if e: "e \<in> set pre" for e
    proof -
      obtain xs ys where xs: "pre = xs @ e # ys" using e by (auto simp: in_set_conv_decomp)
      have "consecutive (e # ys @ map rt (hot r i))" using H consecutive_append [of xs] by (simp add: pre xs)
      then have "ev_Cursor e < ev_Cursor (hd (map rt (hot r i)))"
        by (rule consecutive_less) (use hd_in_set [of "map rt (hot r i)"] cache in auto)
      moreover have "ev_Cursor (hd (map rt (hot r i))) = ev_Cursor (hd (hot r i))" using cache cur(2) by (simp add: hd_map)
      ultimately show ?thesis using False by simp
    qed
    then have new: "?new H = map rt (?new (hot r i))"
      using filter_map_cursor [OF cur(2), of after] by (simp add: pre filter_False)
    let ?out = "serve_hot frame eventPageBytes after (hot r i)"
    obtain k where "?out = take k (?new (hot r i))"
      using writeSSE_take [of frame eventPageBytes "?new (hot r i)"] by (auto simp: serve_hot_eq [OF chot])
    moreover have "?new H \<noteq> [] \<longrightarrow> ?out \<noteq> []"
      using writeSSE_progress [of "?new (hot r i)" frame] by (auto simp: serve_hot_eq [OF chot] new)
    moreover have "serveEvents dec frame r i after = (Inr ?out, r\<lparr>rn_store := rn_store r\<rparr>)"
      using assms(4) gap by (simp add: serveEvents_def Let_def)
    moreover have "set ?out \<subseteq> E" using assms(3) calculation(1) by (metis filter_is_subset order_trans set_take_subset)
    ultimately show ?thesis using that [of ?out "rn_store r" k] assms(5) by (simp add: new take_map committed_def)
  next
    case True
    then have es: "es \<noteq> []" using assms(7,9) cache cur(2) by (auto simp: view_def hd_map)
    then have Hes: "H = map rt es" and through: "rc_Cursor (ar_Receipt a) = ev_Cursor (last es)"
      using assms(7) by (simp_all add: view_def)
    have ces: "consecutive es" using H consecutive_map [OF cur(1)] by (simp add: Hes)
    have hd_es: "ev_Cursor (hd es) \<le> after + 1" using assms(9) es cur(1) by (simp add: Hes hd_map)
    have last_es: "ev_Cursor (last H) = ev_Cursor (last es)" using es cur(1) by (simp add: Hes last_map)
    have "ev_Cursor (hd (hot r i)) \<le> ev_Cursor (last (hot r i))"
      using consecutive_le_last [OF chot, of "hd (hot r i)"] cache by simp
    then have more: "after < ev_Cursor (last es)" and exp: "cursorGap (hot r i) after = CursorExpired"
      using True last last_es cache by (simp_all add: cursorGap_def)
    have codec: "codec enc dec rt es" using assms(1,2) by (simp add: codec_on_def)
    obtain st where st: "replayEvents dec (\<lambda>_. False) (rn_store r) i (length (lines enc es)) after (ev_Cursor (last es)) =
        (case dropWhile (\<lambda>e. ev_Cursor e \<le> after) es of [] \<Rightarrow> Inl ErrEOF
         | e # rest \<Rightarrow> Inr \<lparr>rp_input = newline # lines enc rest, rp_next = rt e, rp_through = ev_Cursor (last es)\<rparr>, st)"
      "only_index i (rn_store r) st" "index_ok enc es (positions st i)"
      by (rule replay_committed [OF codec ces es assms(5) hd_es])
    obtain e rest where er: "dropWhile (\<lambda>e. ev_Cursor e \<le> after) es = e # rest" "ev_Cursor (last (e # rest)) = ev_Cursor (last es)"
      and new: "?new es = e # rest"
      using dropWhile_cursors [OF ces es hd_es] more by auto
    have "set (e # rest) \<subseteq> set es" by (simp add: new [symmetric])
    then have codec': "codec enc dec rt (e # rest)" by (rule codec_sub [OF codec])
    have "es = takeWhile (\<lambda>e. ev_Cursor e \<le> after) es @ e # rest" by (simp add: er(1) [symmetric])
    then have "consecutive (e # rest)" using consecutive_append [of "takeWhile (\<lambda>e. ev_Cursor e \<le> after) es"] ces by metis
    then have drain: "drain dec \<lparr>rp_input = newline # lines enc rest, rp_next = rt e, rp_through = ev_Cursor (last es)\<rparr> =
        (map rt (e # rest), ErrEOF)"
      using drain_prefix [OF codec', of "ev_Cursor (last es)"] er(2) by simp
    have newH: "?new H = map rt (e # rest)" using filter_map_cursor [OF cur(1), of after] by (simp add: Hes new)
    obtain out remaining full where page: "writeSSE frame eventPageBytes (map rt (e # rest)) = (out, remaining, full)"
      by (metis prod_cases3)
    obtain k where k: "out = take k (map rt (e # rest))" "\<not> full \<longrightarrow> out = map rt (e # rest)"
      using writeSSE_take [of frame eventPageBytes "map rt (e # rest)"] unfolding page fst_conv snd_conv by blast
    have out: "out \<noteq> []" using writeSSE_progress [of "map rt (e # rest)" frame] page by auto
    have tail: "serve_hot frame remaining (ev_Cursor (last out)) (hot r i) = []" if "\<not> full"
    proof -
      have "last out = rt (last (e # rest))" using k(2) that by (simp only: last_map list.discI not_False_eq_True)
      moreover have "last (e # rest) \<in> set es" using \<open>set (e # rest) \<subseteq> set es\<close> last_in_set [of "e # rest"] by blast
      ultimately have "ev_Cursor (last out) = ev_Cursor (last (hot r i))" using cur(1) er(2) last last_es by simp
      then have "filter (\<lambda>f. ev_Cursor (last out) < ev_Cursor f) (hot r i) = []"
        using consecutive_le_last [OF chot] by (auto simp: filter_empty_conv not_less)
      then show ?thesis by (simp add: serve_hot_eq [OF chot])
    qed
    have "0 < ar_EventJournalBytes a" using es lines_empty [OF assms(1,2)] assms(6) by simp
    then have "serveEvents dec frame r i after = (Inr out, r\<lparr>rn_store := st\<rparr>)"
      using assms(4) exp st(1) er(1) drain page out tail
      by (simp add: serveEvents_def Let_def assms(6) through)
    moreover have "map rt out = take k (?new H)"
    proof -
      have "map rt (map rt (e # rest)) = map rt (e # rest)"
        using idem \<open>set (e # rest) \<subseteq> set es\<close> by (simp add: subset_iff)
      then show ?thesis unfolding k(1) newH take_map by (simp only: take_map [symmetric])
    qed
    moreover have "set out \<subseteq> E"
    proof -
      have "set (map rt (e # rest)) \<subseteq> E"
        using \<open>set (e # rest) \<subseteq> set es\<close> assms(1,2) by (auto simp: codec_on_def)
      then show ?thesis using set_take_subset [of k "map rt (e # rest)"] k(1) by blast
    qed
    ultimately show ?thesis using that [of out st k] st(2,3) out by simp
  qed
qed

end
