(* ===== verification/LogMachine.thy ===== *)
theory LogMachine
  imports LogFacts
begin

text \<open>
  Runs of a runner as far as its event logs go: attempts are accepted and change, events are appended
  (or not, when a system call fails), readers are served, the state is saved, the process crashes and
  a new one starts from the state file and from journals whose uncommitted ends may hold anything.
  Beside the runner, its last state file and the log of every attempt are kept, the current one and
  the one saved: a save moves the first to the second, a crash goes back to it, and the invariant
  \<open>cached\<close> ties each to the runner's cache and to the state file.

  A crash is the end of the process: what was written to a journal stays written, synced or not. When
  the machine loses its power only synced bytes are sure; \<open>PowerLoss\<close> has these runs, with the synced
  bytes counted, and derives \<open>survives\<close> from the order in which the code syncs journals and saves.
  Not among the steps are the withdrawal of a failed start (\<open>runner.go\<close>), the rollback of a Git result
  (\<open>git_result.go\<close>), and the removal of attempts by retention.
\<close>

section \<open>Steps\<close>

definition set_record :: "string \<Rightarrow> attemptRecord \<Rightarrow> Runner \<Rightarrow> Runner" where
  "set_record i a r = r\<lparr>rn_state := (rn_state r)\<lparr>ps_Attempts := mput i a (ps_Attempts (rn_state r))\<rparr>\<rparr>"

text \<open>What a process crash leaves of the disk: the journals of the attempts in the state file up to
  their committed length, with anything behind it.\<close>

definition survives :: "string set \<Rightarrow> persistedState \<Rightarrow> stateStore \<Rightarrow> string gomap \<Rightarrow> bool" where
  "survives ids p st files \<longleftrightarrow> (\<forall>i \<in> ids. \<forall>a. mget (ps_Attempts p) i = Some a \<longrightarrow>
     (let n = ar_EventJournalBytes a; path = eventPath (ss_dir st) i in
      n \<le> length (content st path) \<longrightarrow>
        n \<le> length (mgetd [] files path) \<and> take n (mgetd [] files path) = take n (content st path)))"

type_synonym logs = "string \<Rightarrow> Event list"

inductive log_run :: "(Event \<Rightarrow> string option) \<Rightarrow> (string \<Rightarrow> decoded) \<Rightarrow> (Event \<Rightarrow> Event) \<Rightarrow> Event set \<Rightarrow> string set \<Rightarrow>
    Runner \<Rightarrow> persistedState \<Rightarrow> logs \<Rightarrow> logs \<Rightarrow> bool"
  for enc dec rt E ids where
  boot: "\<lbrakk>restart rt (\<lambda>_. False) caps cfg files p = (True, r); 0 < cfg_MaxEvents cfg; ps_Attempts p = []; ps_Events p = []\<rbrakk>
    \<Longrightarrow> log_run enc dec rt E ids r p (\<lambda>_. []) (\<lambda>_. [])"
| accept: "\<lbrakk>log_run enc dec rt E ids r p H D; i \<in> ids; mget (ps_Attempts (rn_state r)) i = None; ar_EventJournalBytes a = 0\<rbrakk>
    \<Longrightarrow> log_run enc dec rt E ids (set_record i a r) p H D"
| change: "\<lbrakk>log_run enc dec rt E ids r p H D; mget (ps_Attempts (rn_state r)) i = Some a;
      ar_EventJournalBytes a' = ar_EventJournalBytes a; rc_Cursor (ar_Receipt a') = rc_Cursor (ar_Receipt a)\<rbrakk>
    \<Longrightarrow> log_run enc dec rt E ids (set_record i a' r) p H D"
| append_event: "\<lbrakk>log_run enc dec rt E ids r p H D; i \<in> ids; appendEventLocked enc fault now r i typ message data = (Inr e, r'); e \<in> E\<rbrakk>
    \<Longrightarrow> log_run enc dec rt E ids r' p (H(i := H i @ [rt e])) D"
| append_fails: "\<lbrakk>log_run enc dec rt E ids r p H D; i \<in> ids; appendEventLocked enc fault now r i typ message data = (Inl err, r')\<rbrakk>
    \<Longrightarrow> log_run enc dec rt E ids r' p H D"
| serve: "\<lbrakk>log_run enc dec rt E ids r p H D; i \<in> ids; serveEvents dec frame r i after = (res, r')\<rbrakk>
    \<Longrightarrow> log_run enc dec rt E ids r' p H D"
| persist: "\<lbrakk>log_run enc dec rt E ids r p H D; persistLocked sync_fails close_fails io r = (ok, Some p', r')\<rbrakk>
    \<Longrightarrow> log_run enc dec rt E ids r' p' H H"
| persist_fails: "\<lbrakk>log_run enc dec rt E ids r p H D; persistLocked sync_fails close_fails io r = (ok, None, r')\<rbrakk>
    \<Longrightarrow> log_run enc dec rt E ids r' p H D"
| crash: "\<lbrakk>log_run enc dec rt E ids r p H D; survives ids p (rn_store r) files; restart rt (\<lambda>_. False) caps (rn_cfg r) files p = (True, r')\<rbrakk>
    \<Longrightarrow> log_run enc dec rt E ids r' p D D"

section \<open>The invariant\<close>

text \<open>One attempt: \<open>es\<close> is what its journal holds, \<open>fs\<close> what the state file commits of it.\<close>

definition cached :: "(Event \<Rightarrow> string option) \<Rightarrow> (Event \<Rightarrow> Event) \<Rightarrow> Event set \<Rightarrow> persistedState \<Rightarrow> string \<Rightarrow> Event list \<Rightarrow>
    Event list \<Rightarrow> bool" where
  "cached enc rt E p i es H \<longleftrightarrow> set es \<subseteq> E \<and> set (mgetd [] (ps_Events p) i) \<subseteq> E \<and>
     (case mget (ps_Attempts p) i of
        None \<Rightarrow> es = [] \<and> H = [] \<and> mgetd [] (ps_Events p) i = []
      | Some a \<Rightarrow> ar_EventJournalBytes a = length (lines enc es) \<and>
          view rt es (mgetd [] (ps_Events p) i) (rc_Cursor (ar_Receipt a)) H)"

definition log_ok :: "(Event \<Rightarrow> string option) \<Rightarrow> (Event \<Rightarrow> Event) \<Rightarrow> Event set \<Rightarrow> Runner \<Rightarrow> persistedState \<Rightarrow> string \<Rightarrow>
    Event list \<Rightarrow> Event list \<Rightarrow> bool" where
  "log_ok enc rt E r p i H D \<longleftrightarrow>
     (\<exists>es fs. committed enc (rn_store r) i es \<and> cached enc rt E (rn_state r) i es H \<and> cached enc rt E p i fs D \<and>
        (\<exists>gs. es = fs @ gs) \<and> (\<exists>gs. H = D @ gs))"

definition logs_ok :: "(Event \<Rightarrow> string option) \<Rightarrow> (Event \<Rightarrow> Event) \<Rightarrow> Event set \<Rightarrow> string set \<Rightarrow> Runner \<Rightarrow> persistedState \<Rightarrow>
    logs \<Rightarrow> logs \<Rightarrow> bool" where
  "logs_ok enc rt E ids r p H D \<longleftrightarrow> adds_up (rn_store r) \<and> ss_dir (rn_store r) = cfg_StateDir (rn_cfg r) \<and>
     0 < cfg_MaxEvents (rn_cfg r) \<and>
     (\<forall>i \<in> ids. writer_ok (rn_store r) i \<and> log_ok enc rt E r p i (H i) (D i))"

text \<open>No two attempts share a journal file: the file names of the attempts do not collide.\<close>

definition own_files :: "string \<Rightarrow> string set \<Rightarrow> bool" where
  "own_files dir ids \<longleftrightarrow> inj_on (eventPath dir) ids"

lemma own_filesD: "own_files dir ids \<Longrightarrow> i \<in> ids \<Longrightarrow> j \<in> ids \<Longrightarrow> j \<noteq> i \<Longrightarrow> eventPath dir j \<noteq> eventPath dir i"
  by (auto simp: own_files_def inj_on_def)

text \<open>A step about one attempt keeps the logs of the others.\<close>

lemma log_ok_other:
  assumes "log_ok enc rt E r p j H D" "only_attempt i (rn_store r) (rn_store r')" "j \<noteq> i"
    and "eventPath (ss_dir (rn_store r)) j \<noteq> eventPath (ss_dir (rn_store r)) i"
    and "mget (ps_Attempts (rn_state r')) j = mget (ps_Attempts (rn_state r)) j"
      "mgetd [] (ps_Events (rn_state r')) j = mgetd [] (ps_Events (rn_state r)) j"
  shows "log_ok enc rt E r' p j H D"
proof -
  have "cached enc rt E (rn_state r') j es H \<longleftrightarrow> cached enc rt E (rn_state r) j es H" for es
    unfolding cached_def assms(5,6) ..
  then show ?thesis using assms(1) unfolding log_ok_def other_attempt(1) [OF assms(2-4)] by simp
qed

lemma logs_ok_step:
  assumes "logs_ok enc rt E ids r p H D" "own_files (cfg_StateDir (rn_cfg r)) ids" "i \<in> ids"
    and "only_attempt i (rn_store r) (rn_store r')" "adds_up (rn_store r')" "writer_ok (rn_store r') i" "rn_cfg r' = rn_cfg r"
    and "\<And>j. j \<noteq> i \<Longrightarrow> mget (ps_Attempts (rn_state r')) j = mget (ps_Attempts (rn_state r)) j \<and>
      mgetd [] (ps_Events (rn_state r')) j = mgetd [] (ps_Events (rn_state r)) j"
    and "log_ok enc rt E r' p i H' (D i)"
  shows "logs_ok enc rt E ids r' p (H(i := H')) D"
proof -
  have dir: "ss_dir (rn_store r') = ss_dir (rn_store r)" using assms(4) by (simp add: only_attempt_def)
  have base: "ss_dir (rn_store r) = cfg_StateDir (rn_cfg r)" "0 < cfg_MaxEvents (rn_cfg r)"
    using assms(1) by (simp_all add: logs_ok_def)
  have "writer_ok (rn_store r') j \<and> log_ok enc rt E r' p j ((H(i := H')) j) (D j)" if j: "j \<in> ids" for j
  proof (cases "j = i")
    case True
    then show ?thesis using assms(6,9) by simp
  next
    case False
    then have path: "eventPath (ss_dir (rn_store r)) j \<noteq> eventPath (ss_dir (rn_store r)) i"
      using own_filesD [OF assms(2,3) j] base(1) by simp
    have old: "writer_ok (rn_store r) j" "log_ok enc rt E r p j (H j) (D j)" using assms(1) j by (simp_all add: logs_ok_def)
    show ?thesis
      using other_attempt(2) [OF assms(4) False path old(1)] log_ok_other [OF old(2) assms(4) False path] assms(8) [OF False] False
      by simp
  qed
  then show ?thesis using base assms(5,7) dir by (simp add: logs_ok_def)
qed

section \<open>Every step keeps it\<close>

lemma view_append:
  assumes "view rt es cache cursor H" "set cache \<subseteq> E" "set es \<subseteq> E" "e \<in> E" "\<forall>e \<in> E. ev_Cursor (rt e) = ev_Cursor e"
    and "ev_Cursor e = (if cache = [] then 0 else ev_Cursor (last cache)) + 1" "H = [] \<or> cache \<noteq> []" "0 < most"
  shows "view rt ((if es = [] then cache else es) @ [e]) (trim_hot most (cache @ [e])) (ev_Cursor e) (H @ [rt e])"
proof -
  have cur: "ev_Cursor (rt e) = ev_Cursor e" using assms(4,5) by simp
  obtain pre where pre: "H = pre @ map rt cache" using assms(1) by (auto simp: view_def split: if_splits)
  have "consecutive (H @ [rt e])"
  proof (cases "cache = []")
    case True
    then show ?thesis using assms(7) by simp
  next
    case False
    then have "last cache \<in> E" using assms(2) last_in_set by blast
    then have "ev_Cursor (last H) = ev_Cursor (last cache)" using False assms(5) by (simp add: pre last_map)
    then show ?thesis using assms(1,6) False cur by (simp add: consecutive_snoc view_def)
  qed
  moreover have "map rt ((if es = [] then cache else es) @ [e]) = H @ [rt e]"
    using assms(1) by (auto simp: view_def split: if_splits)
  moreover obtain k where k: "trim_hot most (cache @ [e]) = drop k (cache @ [e])" "k \<le> length cache"
  proof (cases "length (cache @ [e]) > most")
    case True
    then show ?thesis using that [of "length (cache @ [e]) - most"] assms(8) by (simp add: trim_hot_def)
  next
    case False
    then show ?thesis using that [of 0] by (simp add: trim_hot_def)
  qed
  moreover have "H @ [rt e] = (pre @ take k (map rt cache)) @ map rt (drop k (cache @ [e]))"
    using k(2) by (simp add: pre) (simp add: drop_map [symmetric])
  moreover have "drop k (cache @ [e]) \<noteq> []" using k(2) by simp
  ultimately show ?thesis unfolding view_def by auto
qed

lemma append_log_ok:
  assumes "codec_on enc dec rt E" "logs_ok enc rt E ids r p H D" "own_files (cfg_StateDir (rn_cfg r)) ids" "i \<in> ids"
    and "appendEventLocked enc fault now r i typ message data = (res, r')" "\<And>e. res = Inr e \<Longrightarrow> e \<in> E"
  shows "logs_ok enc rt E ids r' p (case res of Inl _ \<Rightarrow> H | Inr e \<Rightarrow> H(i := H i @ [rt e])) D"
proof (cases "mget (ps_Attempts (rn_state r)) i")
  case None
  then show ?thesis using assms(2,5) by (auto simp: appendEventLocked_def)
next
  case (Some a)
  have cur: "\<forall>e \<in> E. ev_Cursor (rt e) = ev_Cursor e" using rt_cursor [OF assms(1)] by blast
  have ok: "adds_up (rn_store r)" "writer_ok (rn_store r) i" "log_ok enc rt E r p i (H i) (D i)" "0 < cfg_MaxEvents (rn_cfg r)"
    using assms(2,4) by (auto simp: logs_ok_def)
  obtain es fs gs hs where log: "committed enc (rn_store r) i es" "cached enc rt E (rn_state r) i es (H i)"
      "cached enc rt E p i fs (D i)" "es = fs @ gs" "H i = D i @ hs"
    using ok(3) unfolding log_ok_def by blast
  have sub: "set es \<subseteq> E" "set (hot r i) \<subseteq> E" and bytes: "ar_EventJournalBytes a = length (lines enc es)"
    and view: "view rt es (hot r i) (rc_Cursor (ar_Receipt a)) (H i)"
    using log(2) Some by (simp_all add: cached_def hot_def)
  have empty: "ar_EventJournalBytes a = 0 \<longleftrightarrow> es = []" using lines_empty [OF assms(1) sub(1)] bytes by simp
  let ?e = "next_event r i a now typ message data"
  show ?thesis
  proof (cases "int (length data) > cfg_MaxEventBytes (rn_cfg r)")
    case True
    then show ?thesis using assms(2,5) Some by (auto simp: appendEventLocked_def)
  next
    case False
    obtain jr st where app: "appendEvent enc fault (rn_store r) i (ar_EventJournalBytes a) (hot r i) ?e = (jr, st)" by fastforce
    let ?es' = "(if ar_EventJournalBytes a = 0 then hot r i else es) @ [?e]"
    have st: "only_attempt i (rn_store r) st \<and> adds_up st \<and> writer_ok st i \<and>
      (case jr of Inl _ \<Rightarrow> committed enc st i es
       | Inr end' \<Rightarrow> committed enc st i ?es' \<and> end' = length (lines enc ?es') \<and> int end' \<le> byte_limit ?e \<and>
           ss_totalJournalBytes st \<le> total_limit ?e)"
      by (rule appendEvent_props [OF ok(1,2) log(1) bytes _ app refl]) (simp add: empty)
    show ?thesis
    proof (cases jr)
      case (Inl err)
      then have r': "res = Inl err" "r' = r\<lparr>rn_store := st\<rparr>"
        using assms(5) Some False app by (simp_all add: appendEventLocked_def Let_def)
      have "log_ok enc rt E r' p i (H i) (D i)" using st log Inl unfolding log_ok_def r'(2) by auto
      then have "logs_ok enc rt E ids r' p (H(i := H i)) D"
        by (intro logs_ok_step [OF assms(2-4)]) (use st in \<open>simp_all add: r'(2)\<close>)
      then show ?thesis by (simp add: r'(1))
    next
      case (Inr end')
      let ?a = "a\<lparr>ar_EventJournalBytes := end', ar_Receipt := (ar_Receipt a)\<lparr>rc_Cursor := ev_Cursor ?e, rc_UpdatedAt := now\<rparr>\<rparr>"
      let ?hot = "trim_hot (cfg_MaxEvents (rn_cfg r)) (hot r i @ [?e])"
      have r': "res = Inr ?e" "r' = r\<lparr>rn_store := st, rn_state := (rn_state r)\<lparr>
          ps_Attempts := mput i ?a (ps_Attempts (rn_state r)), ps_Events := mput i ?hot (ps_Events (rn_state r))\<rparr>\<rparr>"
        using assms(5) Some False app Inr by (simp_all add: appendEventLocked_def Let_def)
      have e: "?e \<in> E" using assms(6) r'(1) by simp
      have cache: "H i = [] \<or> hot r i \<noteq> []" using view by (auto simp: view_def split: if_splits)
      have new: "view rt ?es' ?hot (ev_Cursor ?e) (H i @ [rt ?e])"
        using view_append [OF view sub(2,1) e cur _ cache ok(4)] empty by (simp add: next_event_def)
      have "set ?hot \<subseteq> E" using sub(2) e by (auto simp: trim_hot_def dest: in_set_dropD)
      then have "cached enc rt E (rn_state r') i ?es' (H i @ [rt ?e])"
        using new sub e st Inr by (simp add: cached_def r'(2) mgetd_def)
      moreover have "\<exists>gs. ?es' = fs @ gs" using log(4) empty by auto
      moreover have "committed enc (rn_store r') i ?es'" using st Inr by (simp add: r'(2))
      moreover have "\<exists>gs. H i @ [rt ?e] = D i @ gs" using log(5) by simp
      ultimately have "log_ok enc rt E r' p i (H i @ [rt ?e]) (D i)"
        using log(3) unfolding log_ok_def by blast
      then have "logs_ok enc rt E ids r' p (H(i := H i @ [rt ?e])) D"
        by (intro logs_ok_step [OF assms(2-4)]) (use st in \<open>simp_all add: r'(2) mgetd_def\<close>)
      then show ?thesis by (simp add: r'(1))
    qed
  qed
qed

text \<open>Changes of the state that leave an attempt's log fields alone.\<close>

lemma logs_ok_state:
  assumes "logs_ok enc rt E ids r p H D" "rn_store r' = rn_store r" "rn_cfg r' = rn_cfg r"
    and "\<And>i es. i \<in> ids \<Longrightarrow> cached enc rt E (rn_state r) i es (H i) \<Longrightarrow> cached enc rt E (rn_state r') i es (H i)"
  shows "logs_ok enc rt E ids r' p H D"
proof -
  have "log_ok enc rt E r' p i (H i) (D i)" if i: "i \<in> ids" for i
  proof -
    obtain es fs where "committed enc (rn_store r) i es" "cached enc rt E (rn_state r) i es (H i)"
      "cached enc rt E p i fs (D i)" "\<exists>gs. es = fs @ gs" "\<exists>gs. H i = D i @ gs"
      using assms(1) i unfolding logs_ok_def log_ok_def by blast
    then show ?thesis using assms(4) [OF i] unfolding log_ok_def assms(2) by blast
  qed
  then show ?thesis using assms(1-3) by (simp add: logs_ok_def)
qed

lemma set_record_ok:
  assumes "logs_ok enc rt E ids r p H D"
    and "(mget (ps_Attempts (rn_state r)) i = None \<and> ar_EventJournalBytes a' = 0) \<or>
      (\<exists>a. mget (ps_Attempts (rn_state r)) i = Some a \<and> ar_EventJournalBytes a' = ar_EventJournalBytes a \<and>
         rc_Cursor (ar_Receipt a') = rc_Cursor (ar_Receipt a))"
  shows "logs_ok enc rt E ids (set_record i a' r) p H D"
proof (rule logs_ok_state [OF assms(1)])
  fix j es assume c: "cached enc rt E (rn_state r) j es (H j)"
  have rec: "mget (ps_Attempts (rn_state (set_record i a' r))) j = (if j = i then Some a' else mget (ps_Attempts (rn_state r)) j)"
    "ps_Events (rn_state (set_record i a' r)) = ps_Events (rn_state r)" by (simp_all add: set_record_def)
  show "cached enc rt E (rn_state (set_record i a' r)) j es (H j)"
  proof (cases "j = i")
    case False
    then show ?thesis using c unfolding cached_def rec by simp
  next
    case True
    from assms(2) show ?thesis
    proof (elim disjE exE conjE)
      assume "mget (ps_Attempts (rn_state r)) i = None" "ar_EventJournalBytes a' = 0"
      then show ?thesis using c True unfolding cached_def rec by (simp add: view_def)
    next
      fix a assume "mget (ps_Attempts (rn_state r)) i = Some a" "ar_EventJournalBytes a' = ar_EventJournalBytes a"
        "rc_Cursor (ar_Receipt a') = rc_Cursor (ar_Receipt a)"
      then show ?thesis using c True unfolding cached_def rec by simp
    qed
  qed
qed (simp_all add: set_record_def)

lemma only_index_attempt:
  assumes "only_index i s s'" "adds_up s" "writer_ok s i"
  shows "only_attempt i s s'" "adds_up s'" "writer_ok s' i"
  using assms by (auto simp: only_index_def only_attempt_def adds_up_def writer_ok_def content_def)

lemma serve_ok:
  assumes "codec_on enc dec rt E" "logs_ok enc rt E ids r p H D" "own_files (cfg_StateDir (rn_cfg r)) ids" "i \<in> ids"
    and "serveEvents dec frame r i after = (res, r')"
  shows "logs_ok enc rt E ids r' p H D"
proof -
  have "r' = r \<or> (\<exists>a jr st. mget (ps_Attempts (rn_state r)) i = Some a \<and> ar_EventJournalBytes a > 0 \<and>
      replayEvents dec (\<lambda>_. False) (rn_store r) i (ar_EventJournalBytes a) after (rc_Cursor (ar_Receipt a)) = (jr, st) \<and>
      r' = r\<lparr>rn_store := st\<rparr>)"
    using assms(5) by (auto simp: serveEvents_def Let_def split: option.splits if_splits prod.splits sum.splits)
  then show ?thesis
  proof (elim disjE exE conjE)
    assume "r' = r"
    then show ?thesis using assms(2) by simp
  next
    fix a jr st assume a: "mget (ps_Attempts (rn_state r)) i = Some a" "ar_EventJournalBytes a > 0"
      and rep: "replayEvents dec (\<lambda>_. False) (rn_store r) i (ar_EventJournalBytes a) after (rc_Cursor (ar_Receipt a)) = (jr, st)"
      and r': "r' = r\<lparr>rn_store := st\<rparr>"
    have ok: "adds_up (rn_store r)" "writer_ok (rn_store r) i" "log_ok enc rt E r p i (H i) (D i)"
      using assms(2,4) by (auto simp: logs_ok_def)
    obtain es fs where log: "committed enc (rn_store r) i es" "cached enc rt E (rn_state r) i es (H i)"
        "cached enc rt E p i fs (D i)" "\<exists>gs. es = fs @ gs" "\<exists>gs. H i = D i @ gs"
      using ok(3) unfolding log_ok_def by blast
    have es: "set es \<subseteq> E" "ar_EventJournalBytes a = length (lines enc es)" using log(2) a(1) by (simp_all add: cached_def)
    then have "es \<noteq> []" "codec enc dec rt es" using a(2) assms(1) by (auto simp: codec_on_def)
    from replay_index [OF this(2,1) log(1) rep [unfolded es(2)]]
    have idx: "only_index i (rn_store r) st" "index_ok enc es (positions st i)" by simp_all
    have "committed enc st i es" using log(1) idx by (simp add: committed_def only_index_def)
    then have "log_ok enc rt E r' p i (H i) (D i)" using log(2-5) unfolding log_ok_def by (auto simp: r')
    then have "logs_ok enc rt E ids r' p (H(i := H i)) D"
      using only_index_attempt [OF idx(1) ok(1,2)] by (intro logs_ok_step [OF assms(2-4)]) (simp_all add: r')
    then show ?thesis by simp
  qed
qed

section \<open>Saving\<close>

text \<open>Handles are synced or closed; nothing else changes.\<close>

definition fewer_handles :: "stateStore \<Rightarrow> stateStore \<Rightarrow> bool" where
  "fewer_handles s s' \<longleftrightarrow> ss_dir s' = ss_dir s \<and> ss_eventIndex s' = ss_eventIndex s \<and> ss_journalSizes s' = ss_journalSizes s \<and>
     ss_totalJournalBytes s' = ss_totalJournalBytes s \<and> ss_files s' = ss_files s \<and>
     (\<forall>i w'. mget (ss_journals s') i = Some w' \<longrightarrow>
        (\<exists>w. mget (ss_journals s) i = Some w \<and> jw_file w' = jw_file w \<and> jw_end w' = jw_end w))"

lemma fewer_refl [simp]: "fewer_handles s s"
  by (auto simp: fewer_handles_def)

lemma fewer_trans: "fewer_handles s t \<Longrightarrow> fewer_handles t u \<Longrightarrow> fewer_handles s u"
  unfolding fewer_handles_def by metis

lemma fewer_props:
  assumes "fewer_handles s s'"
  shows "adds_up s' \<longleftrightarrow> adds_up s" "committed enc s' i es \<longleftrightarrow> committed enc s i es" "writer_ok s i \<Longrightarrow> writer_ok s' i"
    "ss_dir s' = ss_dir s"
proof -
  show "adds_up s' \<longleftrightarrow> adds_up s" "committed enc s' i es \<longleftrightarrow> committed enc s i es" "ss_dir s' = ss_dir s"
    using assms by (simp_all add: fewer_handles_def adds_up_def committed_def positions_def)
  assume w: "writer_ok s i"
  show "writer_ok s' i"
    unfolding writer_ok_def
  proof (intro allI impI)
    fix w' assume "mget (ss_journals s') i = Some w'"
    then obtain v where "mget (ss_journals s) i = Some v" "jw_file w' = jw_file v" "jw_end w' = jw_end v"
      using assms unfolding fewer_handles_def by blast
    moreover have "content s' q = content s q" "ss_journalSizes s' = ss_journalSizes s" "ss_dir s' = ss_dir s" for q
      using assms by (simp_all add: fewer_handles_def content_def)
    ultimately show "jw_file w' = eventPath (ss_dir s') i \<and> length (content s' (jw_file w')) = jw_end w' \<and>
        mgetd 0 (ss_journalSizes s') (jw_file w') = int (jw_end w')"
      using w by (auto simp: writer_ok_def)
  qed
qed

lemma sync_all_props:
  "sync_all fails ws = (ok, ws') \<Longrightarrow> mget ws' i = Some w' \<Longrightarrow>
     \<exists>w. mget ws i = Some w \<and> jw_file w' = jw_file w \<and> jw_end w' = jw_end w"
proof (induction ws arbitrary: ok ws')
  case (Cons x ws)
  obtain j w where x: "x = (j, w)" by (cases x)
  show ?case using Cons by (auto simp: x mget_def split: if_splits prod.splits)
qed simp

lemma sync_fewer: "fewer_handles s (snd (syncJournals fails s))"
  using sync_all_props [of fails "ss_journals s"]
  by (auto simp: fewer_handles_def syncJournals_def split: prod.split)

lemma close_fewer: "fewer_handles s (snd (closeJournal f i s))"
  by (auto simp: fewer_handles_def closeJournal_def split: option.split)

lemma close_idle_fewer: "close_idle fails p ids s = (ok, s') \<Longrightarrow> fewer_handles s s'"
proof (induction ids arbitrary: s)
  case (Cons i ids)
  obtain e t where t: "closeJournal (fails i) i s = (e, t)" by fastforce
  then have "fewer_handles s t" using close_fewer [of s "fails i" i] by simp
  then show ?case using Cons t fewer_trans by (auto split: if_splits option.splits)
qed simp

lemma mget_map_values: "mget (map (\<lambda>(k, v). (k, g k v)) t) i = map_option (g i) (mget t i)"
  by (induction t) (auto simp: mget_def)

lemma mgetd_saved:
  "mgetd [] (saved_events p) i = (case mget (ps_Attempts p) i of
      Some a \<Rightarrow> if ar_EventJournalBytes a > 0 \<and> length (mgetd [] (ps_Events p) i) > 1
        then drop (length (mgetd [] (ps_Events p) i) - 1) (mgetd [] (ps_Events p) i) else mgetd [] (ps_Events p) i
    | None \<Rightarrow> mgetd [] (ps_Events p) i)"
proof -
  let ?f = "\<lambda>i retained. case mget (ps_Attempts p) i of
      Some a \<Rightarrow> if ar_EventJournalBytes a > 0 \<and> length retained > 1 then drop (length retained - 1) retained else retained
    | None \<Rightarrow> retained"
  have "mget (saved_events p) i = map_option (?f i) (mget (ps_Events p) i)"
    unfolding saved_events_def by (rule mget_map_values)
  then have "mgetd [] (saved_events p) i = ?f i (mgetd [] (ps_Events p) i)"
    by (simp add: mgetd_def split: option.split)
  then show ?thesis .
qed

lemma view_last:
  assumes "view rt es cache cursor H" "es \<noteq> []"
  shows "view rt es (drop (length cache - 1) cache) cursor H"
proof -
  obtain pre where v: "consecutive H" "H = map rt es" "cache \<noteq> []" "H = pre @ map rt cache" "cursor = ev_Cursor (last es)"
    using assms by (auto simp: view_def)
  have "H = (pre @ take (length cache - 1) (map rt cache)) @ map rt (drop (length cache - 1) cache)"
    by (simp add: v(4) drop_map [symmetric])
  moreover have "drop (length cache - 1) cache \<noteq> []" using v(3) by (cases cache) auto
  ultimately show ?thesis using v(1,2,5) assms(2) unfolding view_def by auto
qed

lemma cached_saved:
  assumes "cached enc rt E p i es H"
  shows "cached enc rt E (p\<lparr>ps_Events := saved_events p\<rparr>) i es H"
proof (cases "mget (ps_Attempts p) i")
  case None
  then show ?thesis using assms by (simp add: cached_def mgetd_saved)
next
  case (Some a)
  let ?c = "mgetd [] (ps_Events p) i"
  have a: "set es \<subseteq> E" "set ?c \<subseteq> E" "ar_EventJournalBytes a = length (lines enc es)" "view rt es ?c (rc_Cursor (ar_Receipt a)) H"
    using assms Some by (simp_all add: cached_def)
  show ?thesis
  proof (cases "ar_EventJournalBytes a > 0 \<and> length ?c > 1")
    case True
    then have "es \<noteq> []" using a(3) by auto
    then have "view rt es (drop (length ?c - 1) ?c) (rc_Cursor (ar_Receipt a)) H" using view_last [OF a(4)] by simp
    moreover have "set (drop (length ?c - 1) ?c) \<subseteq> E" using a(2) by (auto dest: in_set_dropD)
    ultimately show ?thesis using a(1,3) Some True by (simp add: cached_def mgetd_saved)
  next
    case False
    then have "mgetd [] (saved_events p) i = ?c" using Some by (auto simp: mgetd_saved)
    then show ?thesis using a Some by (simp add: cached_def)
  qed
qed

lemma persist_ok:
  assumes "logs_ok enc rt E ids r p H D" "persistLocked sync_fails close_fails io r = (ok, pf, r')"
  shows "logs_ok enc rt E ids r' (case pf of None \<Rightarrow> p | Some q \<Rightarrow> q) H (case pf of None \<Rightarrow> D | Some _ \<Rightarrow> H)"
proof -
  obtain b st where sync: "syncJournals sync_fails (rn_store r) = (b, st)" by fastforce
  then have st: "fewer_handles (rn_store r) st" using sync_fewer [of "rn_store r" sync_fails] by simp
  have r': "rn_state r' = rn_state r \<and> rn_cfg r' = rn_cfg r \<and> fewer_handles (rn_store r) (rn_store r') \<and>
      (pf = None \<or> pf = Some ((rn_state r)\<lparr>ps_Events := saved_events (rn_state r)\<rparr>))"
  proof (cases "b \<and> io = NoSaveFault")
    case True
    obtain c s2 where close: "close_idle close_fails (rn_state r) (map fst (ss_journals st)) st = (c, s2)" by fastforce
    then have "fewer_handles st s2" by (rule close_idle_fewer)
    then show ?thesis using assms(2) sync True close fewer_trans [OF st]
      by (auto simp: persistLocked_def save_def Let_def)
  next
    case False
    then show ?thesis using assms(2) sync st
      by (cases io) (auto simp: persistLocked_def save_def Let_def split: if_splits)
  qed
  then have few: "fewer_handles (rn_store r) (rn_store r')" by simp
  have "log_ok enc rt E r' (case pf of None \<Rightarrow> p | Some q \<Rightarrow> q) i (H i) ((case pf of None \<Rightarrow> D | Some _ \<Rightarrow> H) i)" if i: "i \<in> ids" for i
  proof -
    obtain es fs where log: "committed enc (rn_store r) i es" "cached enc rt E (rn_state r) i es (H i)"
        "cached enc rt E p i fs (D i)" "\<exists>gs. es = fs @ gs" "\<exists>gs. H i = D i @ gs"
      using assms(1) i unfolding logs_ok_def log_ok_def by blast
    show ?thesis
    proof (cases pf)
      case None
      then show ?thesis using log r' unfolding log_ok_def fewer_props(2) [OF few] by auto
    next
      case (Some q)
      then have "cached enc rt E q i es (H i)" using cached_saved [OF log(2)] r' by auto
      then have "committed enc (rn_store r') i es \<and> cached enc rt E (rn_state r') i es (H i) \<and> cached enc rt E q i es (H i) \<and>
          (\<exists>gs. es = es @ gs) \<and> (\<exists>gs. H i = H i @ gs)"
        using log(1,2) r' by (simp add: fewer_props(2) [OF few])
      then show ?thesis unfolding log_ok_def by (simp only: Some option.case) blast
    qed
  qed
  then show ?thesis using assms(1) fewer_props [OF few] r' by (simp add: logs_ok_def)
qed

section \<open>Restarting\<close>

lemma account_only: "positions (fold (\<lambda>q s. accountJournal q (f q s) s) qs s) = positions s \<and>
    ss_journals (fold (\<lambda>q s. accountJournal q (f q s) s) qs s) = ss_journals s \<and>
    ss_dir (fold (\<lambda>q s. accountJournal q (f q s) s) qs s) = ss_dir s \<and>
    ss_files (fold (\<lambda>q s. accountJournal q (f q s) s) qs s) = ss_files s \<and>
    (adds_up s \<longrightarrow> adds_up (fold (\<lambda>q s. accountJournal q (f q s) s) qs s))"
proof (induction qs arbitrary: s)
  case (Cons q qs)
  have "positions (accountJournal q n s) = positions s" for n by (simp add: fun_eq_iff)
  then show ?case using Cons.IH [of "accountJournal q (f q s) s"] account_adds_up by simp
qed simp

lemma prune_only:
  "prune_paths owned fails paths s = (ok, s') \<Longrightarrow>
     positions s' = positions s \<and> ss_journals s' = ss_journals s \<and> ss_dir s' = ss_dir s \<and> (adds_up s \<longrightarrow> adds_up s') \<and>
     (\<forall>q. owned q \<longrightarrow> content s' q = content s q)"
proof (induction paths arbitrary: s)
  case (Cons path paths)
  let ?s = "(accountJournal path 0 s)\<lparr>ss_files := mdel path (ss_files s)\<rparr>"
  have "positions ?s = positions s" "adds_up s \<longrightarrow> adds_up ?s"
    using account_adds_up [of s path 0] by (auto simp: positions_def accountJournal_def adds_up_def fun_eq_iff)
  moreover have "\<forall>q. owned q \<longrightarrow> content ?s q = content s q" if "\<not> owned path"
    using that by (auto simp: content_def mgetd_def)
  ultimately show ?case using Cons.IH [of ?s] Cons.IH [of s] Cons.prems by (auto split: if_splits)
qed simp

lemma restart_store:
  assumes "restart rt fails caps cfg files p = (ok, r)"
  shows "rn_cfg r = cfg" "ps_Attempts (rn_state r) = map (\<lambda>(i, a). (i, a\<lparr>ar_cleanupRunning := False\<rparr>)) (ps_Attempts p)"
    "ps_Events (rn_state r) = map (\<lambda>(i, es). (i, map rt es)) (ps_Events p)"
    "positions (rn_store r) i = []" "ss_journals (rn_store r) = []" "ss_dir (rn_store r) = cfg_StateDir cfg" "adds_up (rn_store r)"
    "mget (ps_Attempts p) i \<noteq> None \<Longrightarrow>
      content (rn_store r) (eventPath (cfg_StateDir cfg) i) = mgetd [] files (eventPath (cfg_StateDir cfg) i)"
proof -
  let ?st = "loadJournalUsage (newStateStore (cfg_StateDir cfg) files)"
  obtain st where prune: "pruneJournals fails (map fst (ps_Attempts p)) ?st = (ok, st)"
    and r: "rn_cfg r = cfg" "rn_store r = st"
      "ps_Attempts (rn_state r) = map (\<lambda>(i, a). (i, a\<lparr>ar_cleanupRunning := False\<rparr>)) (ps_Attempts p)"
      "ps_Events (rn_state r) = map (\<lambda>(i, es). (i, map rt es)) (ps_Events p)"
    using assms by (auto simp: restart_def Let_def split: prod.splits)
  let ?new = "(newStateStore (cfg_StateDir cfg) files)\<lparr>ss_journalSizes := [], ss_totalJournalBytes := 0\<rparr>"
  have base: "positions ?st = positions ?new" "ss_journals ?st = ss_journals ?new" "ss_dir ?st = ss_dir ?new"
      "ss_files ?st = ss_files ?new" "adds_up ?new \<longrightarrow> adds_up ?st"
    unfolding loadJournalUsage_def
    using account_only [of "\<lambda>path s. int (length (mgetd [] (ss_files s) path))"] by simp_all
  have st0: "positions ?st i = []" "ss_journals ?st = []" "ss_dir ?st = cfg_StateDir cfg" "ss_files ?st = files" "adds_up ?st" for i
    using base by (auto simp: newStateStore_def positions_def mgetd_def adds_up_def fun_eq_iff)
  from prune_only [OF prune [unfolded pruneJournals_def]] st0
  have st: "positions st i = []" "ss_journals st = []" "ss_dir st = cfg_StateDir cfg" "adds_up st"
      "i \<in> fst ` set (ps_Attempts p) \<Longrightarrow> content st (eventPath (cfg_StateDir cfg) i) = mgetd [] files (eventPath (cfg_StateDir cfg) i)"
    by (auto simp: content_def)
  have "i \<in> fst ` set (ps_Attempts p)" if "mget (ps_Attempts p) i \<noteq> None" using that mget_in_set by force
  then show "rn_cfg r = cfg" "ps_Attempts (rn_state r) = map (\<lambda>(i, a). (i, a\<lparr>ar_cleanupRunning := False\<rparr>)) (ps_Attempts p)"
    "ps_Events (rn_state r) = map (\<lambda>(i, es). (i, map rt es)) (ps_Events p)"
    "positions (rn_store r) i = []" "ss_journals (rn_store r) = []" "ss_dir (rn_store r) = cfg_StateDir cfg" "adds_up (rn_store r)"
    "mget (ps_Attempts p) i \<noteq> None \<Longrightarrow>
      content (rn_store r) (eventPath (cfg_StateDir cfg) i) = mgetd [] files (eventPath (cfg_StateDir cfg) i)"
    using r st by simp_all
qed

lemma restart_ok:
  assumes "codec_on enc dec rt E" "restart rt fails caps cfg files p = (ok, r)" "0 < cfg_MaxEvents cfg"
    and "\<And>i. i \<in> ids \<Longrightarrow> \<exists>fs. cached enc rt E p i fs (D i) \<and> (case mget (ps_Attempts p) i of None \<Rightarrow> True
       | Some a \<Rightarrow> length (lines enc fs) \<le> length (mgetd [] files (eventPath (cfg_StateDir cfg) i)) \<and>
           take (length (lines enc fs)) (mgetd [] files (eventPath (cfg_StateDir cfg) i)) = lines enc fs)"
  shows "logs_ok enc rt E ids r p D D"
proof -
  note st = restart_store [OF assms(2)]
  have "writer_ok (rn_store r) i \<and> log_ok enc rt E r p i (D i) (D i)" if i: "i \<in> ids" for i
  proof -
    obtain fs where fs: "cached enc rt E p i fs (D i)" and disk: "case mget (ps_Attempts p) i of None \<Rightarrow> True
       | Some a \<Rightarrow> length (lines enc fs) \<le> length (mgetd [] files (eventPath (cfg_StateDir cfg) i)) \<and>
           take (length (lines enc fs)) (mgetd [] files (eventPath (cfg_StateDir cfg) i)) = lines enc fs"
      using assms(4) [OF i] by blast
    let ?c = "mgetd [] (ps_Events p) i"
    have hot: "mgetd [] (ps_Events (rn_state r)) i = map rt ?c"
      using mget_map_values [of "\<lambda>_. map rt" "ps_Events p" i] by (simp add: st(3) mgetd_def split: option.split)
    have E: "set fs \<subseteq> E" "set ?c \<subseteq> E" using fs by (simp_all add: cached_def)
    have "rt (rt e) = rt e" "rt e \<in> E" if "e \<in> set ?c" for e
      using assms(1) E(2) that by (auto simp: codec_on_def)
    then have twice: "map rt (map rt ?c) = map rt ?c" and closed: "set (map rt ?c) \<subseteq> E" by auto
    have view: "view rt fs (map rt ?c) n H \<longleftrightarrow> view rt fs ?c n H" for n H
      unfolding view_def twice by simp
    have "cached enc rt E (rn_state r) i fs (D i)"
      using fs closed mget_map_values [of "\<lambda>_ a. a\<lparr>ar_cleanupRunning := False\<rparr>" "ps_Attempts p" i]
      unfolding cached_def hot st(2) view by (cases "mget (ps_Attempts p) i") simp_all
    moreover have "committed enc (rn_store r) i fs"
    proof (cases "mget (ps_Attempts p) i")
      case None
      then have "fs = []" using fs by (simp add: cached_def)
      then show ?thesis by (simp add: committed_def st(4))
    next
      case (Some a)
      then show ?thesis using st(4,6,8) disk by (simp add: committed_content)
    qed
    ultimately have "log_ok enc rt E r p i (D i) (D i)"
      using fs unfolding log_ok_def by (metis append_Nil2)
    moreover have "writer_ok (rn_store r) i" by (simp add: writer_ok_def st(5))
    ultimately show ?thesis by simp
  qed
  then show ?thesis using st(1,6,7) assms(3) by (simp add: logs_ok_def)
qed

section \<open>Runs\<close>

lemma append_cfg: "appendEventLocked enc fault now r i typ message data = (res, r') \<Longrightarrow> rn_cfg r' = rn_cfg r"
  by (auto simp: appendEventLocked_def Let_def split: option.splits if_splits prod.splits sum.splits)

lemma serve_cfg: "serveEvents dec frame r i after = (res, r') \<Longrightarrow> rn_cfg r' = rn_cfg r"
  by (auto simp: serveEvents_def Let_def split: option.splits if_splits prod.splits sum.splits)

lemma persist_cfg: "persistLocked f g io r = (ok, pf, r') \<Longrightarrow> rn_cfg r' = rn_cfg r"
  by (auto simp: persistLocked_def save_def Let_def split: prod.splits if_splits save_fault.splits bool.splits)

lemma restart_cfg: "restart rt fails caps cfg files p = (ok, r) \<Longrightarrow> rn_cfg r = cfg"
  by (auto simp: restart_def Let_def split: prod.splits)

lemma run_ok:
  assumes "log_run enc dec rt E ids r p H D" "codec_on enc dec rt E" "own_files (cfg_StateDir (rn_cfg r)) ids"
  shows "logs_ok enc rt E ids r p H D"
  using assms
proof (induction rule: log_run.induct)
  case (boot caps cfg files p r)
  then show ?case using restart_cfg [OF boot.hyps(1)]
    by (intro restart_ok [OF boot.prems(1) boot.hyps(1)]) (auto simp: cached_def mgetd_def)
next
  case (accept r p H D i a)
  then show ?case by (intro set_record_ok) (auto simp: set_record_def)
next
  case (change r p H D i a a')
  then show ?case by (intro set_record_ok) (auto simp: set_record_def)
next
  case (append_event r p H D i fault now etype message data e r')
  have cfg: "rn_cfg r' = rn_cfg r" by (rule append_cfg [OF append_event.hyps(3)])
  have ok: "logs_ok enc rt E ids r p H D" using append_event.IH append_event.prems cfg by simp
  have "logs_ok enc rt E ids r' p (case (Inr e :: journal_error + Event) of Inl _ \<Rightarrow> H | Inr e \<Rightarrow> H(i := H i @ [rt e])) D"
    by (rule append_log_ok [OF append_event.prems(1) ok _ append_event.hyps(2,3)])
      (use append_event.prems(2) append_event.hyps(4) cfg in simp_all)
  then show ?case by (simp only: sum.case)
next
  case (append_fails r p H D i fault now etype message data err r')
  then show ?case using append_log_ok [OF append_fails.prems(1) _ _ append_fails.hyps(2,3)] append_cfg [OF append_fails.hyps(3)]
    by auto
next
  case (serve r p H D i frame after res r')
  then show ?case using serve_ok [OF serve.prems(1) _ _ serve.hyps(2,3)] serve_cfg [OF serve.hyps(3)] by auto
next
  case (persist r p H D sync_fails close_fails io ok p' r')
  then show ?case using persist_ok [OF _ persist.hyps(2)] persist_cfg [OF persist.hyps(2)] by fastforce
next
  case (persist_fails r p H D sync_fails close_fails io ok r')
  then show ?case using persist_ok [OF _ persist_fails.hyps(2)] persist_cfg [OF persist_fails.hyps(2)] by fastforce
next
  case (crash r p H D files caps r')
  have cfg: "rn_cfg r' = rn_cfg r" by (rule restart_cfg [OF crash.hyps(3)])
  have ok: "logs_ok enc rt E ids r p H D" using crash cfg by simp
  then have dir: "ss_dir (rn_store r) = cfg_StateDir (rn_cfg r)" "0 < cfg_MaxEvents (rn_cfg r)" by (simp_all add: logs_ok_def)
  show ?case
  proof (rule restart_ok [OF crash.prems(1) crash.hyps(3) dir(2)])
    fix i assume i: "i \<in> ids"
    let ?q = "eventPath (cfg_StateDir (rn_cfg r)) i"
    obtain es fs gs where log: "committed enc (rn_store r) i es" "cached enc rt E p i fs (D i)" "es = fs @ gs"
      using ok i unfolding logs_ok_def log_ok_def by blast
    have disk: "length (lines enc fs) \<le> length (content (rn_store r) ?q)" "take (length (lines enc fs)) (content (rn_store r) ?q) = lines enc fs"
    proof -
      have c: "length (lines enc es) \<le> length (content (rn_store r) ?q)" "take (length (lines enc es)) (content (rn_store r) ?q) = lines enc es"
        using log(1) by (simp_all add: committed_content dir)
      then show "length (lines enc fs) \<le> length (content (rn_store r) ?q)" by (simp add: log(3))
      have "take (length (lines enc fs)) (take (length (lines enc es)) (content (rn_store r) ?q)) = lines enc fs"
        unfolding c(2) by (simp add: log(3))
      then show "take (length (lines enc fs)) (content (rn_store r) ?q) = lines enc fs" by (simp add: log(3) min_def)
    qed
    show "\<exists>fs. cached enc rt E p i fs (D i) \<and> (case mget (ps_Attempts p) i of None \<Rightarrow> True
       | Some a \<Rightarrow> length (lines enc fs) \<le> length (mgetd [] files ?q) \<and> take (length (lines enc fs)) (mgetd [] files ?q) = lines enc fs)"
    proof (cases "mget (ps_Attempts p) i")
      case None
      then show ?thesis using log(2) by auto
    next
      case (Some a)
      then have "ar_EventJournalBytes a = length (lines enc fs)" using log(2) by (simp add: cached_def)
      moreover have "let n = ar_EventJournalBytes a; path = eventPath (ss_dir (rn_store r)) i in
          n \<le> length (content (rn_store r) path) \<longrightarrow>
          n \<le> length (mgetd [] files path) \<and> take n (mgetd [] files path) = take n (content (rn_store r) path)"
        using crash.hyps(2) i Some unfolding survives_def by blast
      ultimately show ?thesis using Some disk log(2) by (intro exI [of _ fs]) (simp add: Let_def dir(1))
    qed
  qed
qed

section \<open>What a reader sees\<close>

text \<open>A client that asks again after the last event it got, until it gets none.\<close>

fun follow :: "(string \<Rightarrow> decoded) \<Rightarrow> (Event \<Rightarrow> int) \<Rightarrow> string \<Rightarrow> nat \<Rightarrow> Runner \<Rightarrow> nat \<Rightarrow> Event list" where
  "follow dec frame i 0 r after = []"
| "follow dec frame i (Suc n) r after =
     (case serveEvents dec frame r i after of
        (Inl _, _) \<Rightarrow> []
      | (Inr out, r') \<Rightarrow> if out = [] then [] else out @ follow dec frame i n r' (ev_Cursor (last out)))"

lemma serve_logs:
  assumes "codec_on enc dec rt E" "logs_ok enc rt E ids r p H D" "i \<in> ids" "H i \<noteq> []"
    and "ev_Cursor (hd (H i)) \<le> after + 1" "after \<le> ev_Cursor (last (H i))"
  obtains out r' k where "serveEvents dec frame r i after = (Inr out, r')"
    "map rt out = take k (filter (\<lambda>e. after < ev_Cursor e) (H i))"
    "filter (\<lambda>e. after < ev_Cursor e) (H i) \<noteq> [] \<longrightarrow> out \<noteq> []" "set out \<subseteq> E" "consecutive (H i)"
proof -
  obtain es where log: "committed enc (rn_store r) i es" "cached enc rt E (rn_state r) i es (H i)"
    using assms(2,3) unfolding logs_ok_def log_ok_def by blast
  then obtain a where a: "mget (ps_Attempts (rn_state r)) i = Some a" using assms(4) by (auto simp: cached_def split: option.splits)
  have v: "set es \<subseteq> E" "set (hot r i) \<subseteq> E" "ar_EventJournalBytes a = length (lines enc es)"
      "view rt es (hot r i) (rc_Cursor (ar_Receipt a)) (H i)"
    using log(2) a by (simp_all add: cached_def hot_def)
  obtain out st k where out: "serveEvents dec frame r i after = (Inr out, r\<lparr>rn_store := st\<rparr>)"
    "map rt out = take k (filter (\<lambda>e. after < ev_Cursor e) (H i))" "filter (\<lambda>e. after < ev_Cursor e) (H i) \<noteq> [] \<longrightarrow> out \<noteq> []"
    "set out \<subseteq> E"
    by (rule serve_view [OF assms(1) v(1,2) a log(1) v(3,4) assms(4-6)])
  then show ?thesis using that [of out "r\<lparr>rn_store := st\<rparr>" k] v(4) by (simp add: view_def)
qed

lemma filter_after_nth:
  assumes "consecutive F" "0 < m" "m \<le> length F"
  shows "filter (\<lambda>e. ev_Cursor (F ! (m - 1)) < ev_Cursor e) F = drop m F"
proof -
  let ?P = "\<lambda>e. ev_Cursor (F ! (m - 1)) < ev_Cursor e"
  have nth: "ev_Cursor (F ! k) = ev_Cursor (hd F) + k" if "k < length F" for k
    using consecutive_nth [OF assms(1) that] .
  have "filter ?P (take m F) = []"
    using assms(2,3) nth by (auto simp: filter_empty_conv in_set_conv_nth)
  moreover have "filter ?P (drop m F) = drop m F"
    using assms(2,3) nth by (auto simp: filter_id_conv in_set_conv_nth)
  ultimately show ?thesis by (metis append_Nil append_take_drop_id filter_append)
qed

lemma after_suffix:
  assumes "consecutive H" "H \<noteq> []" "ev_Cursor (hd H) \<le> after + 1"
  shows "consecutive (filter (\<lambda>e. after < ev_Cursor e) H)"
  using dropWhile_cursors [OF assms] consecutive_append [of "takeWhile (\<lambda>e. ev_Cursor e \<le> after) H"] assms(1)
  by (metis takeWhile_dropWhile_id)

lemma follow_logs:
  assumes "codec_on enc dec rt E" "logs_ok enc rt E ids r p H D" "own_files (cfg_StateDir (rn_cfg r)) ids" "i \<in> ids" "H i \<noteq> []"
    and "ev_Cursor (hd (H i)) \<le> after + 1" "after \<le> ev_Cursor (last (H i))"
    and "length (filter (\<lambda>e. after < ev_Cursor e) (H i)) \<le> n"
  shows "map rt (follow dec frame i n r after) = filter (\<lambda>e. after < ev_Cursor e) (H i)"
  using assms(2,3,6-)
proof (induction n arbitrary: r after)
  case (Suc n)
  let ?F = "filter (\<lambda>e. after < ev_Cursor e) (H i)"
  obtain out r' k where out: "serveEvents dec frame r i after = (Inr out, r')" "map rt out = take k ?F"
    "?F \<noteq> [] \<longrightarrow> out \<noteq> []" "set out \<subseteq> E" "consecutive (H i)"
    by (rule serve_logs [OF assms(1) Suc.prems(1) assms(4,5) Suc.prems(3,4)])
  show ?case
  proof (cases "out = []")
    case True
    then show ?thesis using out(1,3) by auto
  next
    case False
    let ?m = "length out" and ?c = "ev_Cursor (last out)"
    have len: "?m = min k (length ?F)" using arg_cong [OF out(2), of length] by simp
    then have m: "0 < ?m" "?m \<le> length ?F" "map rt out = take ?m ?F" using False out(2) by (auto simp: min_def)
    have "ev_Cursor (rt (last out)) = ?c" using rt_cursor [OF assms(1)] out(4) False last_in_set by blast
    moreover have "rt (last out) = ?F ! (?m - 1)"
    proof -
      have "rt (last out) = map rt out ! (?m - 1)" using False by (simp add: last_conv_nth)
      also have "\<dots> = ?F ! (?m - 1)" unfolding m(3) using m(1) by (intro nth_take) linarith
      finally show ?thesis .
    qed
    ultimately have c: "?c = ev_Cursor (?F ! (?m - 1))" by simp
    have last_new: "?F ! (?m - 1) \<in> set ?F" using m(1,2) by (intro nth_mem) linarith
    then have newer: "after < ?c" "?F ! (?m - 1) \<in> set (H i)" unfolding c by auto
    have "filter (\<lambda>e. ?c < ev_Cursor e) (H i) = filter (\<lambda>e. ?c < ev_Cursor e) ?F"
      using newer(1) by (auto intro!: filter_cong)
    also have "\<dots> = drop ?m ?F" unfolding c
      by (rule filter_after_nth [OF after_suffix [OF out(5) assms(5) Suc.prems(3)] m(1,2)])
    finally have next_: "filter (\<lambda>e. ?c < ev_Cursor e) (H i) = drop ?m ?F" .
    have cfg: "rn_cfg r' = rn_cfg r" by (rule serve_cfg [OF out(1)])
    have "map rt (follow dec frame i n r' ?c) = filter (\<lambda>e. ?c < ev_Cursor e) (H i)"
    proof (rule Suc.IH)
      show "logs_ok enc rt E ids r' p H D" by (rule serve_ok [OF assms(1) Suc.prems(1,2) assms(4) out(1)])
      show "own_files (cfg_StateDir (rn_cfg r')) ids" using Suc.prems(2) cfg by simp
      show "ev_Cursor (hd (H i)) \<le> ?c + 1" using Suc.prems(3) newer(1) by simp
      show "?c \<le> ev_Cursor (last (H i))" using consecutive_le_last [OF out(5) newer(2)] c by simp
      show "length (filter (\<lambda>e. ?c < ev_Cursor e) (H i)) \<le> n" unfolding next_ length_drop using Suc.prems(5) m(1) by linarith
    qed
    then show ?thesis using False out(1) m(3) unfolding next_ by simp
  qed
qed simp

text \<open>C5: whatever mixture of cache, journal, saves, failed system calls and restarts came before, a client
  that asks again after the last event it got reads every later event of the attempt exactly once, in order.\<close>

theorem event_log_followed:
  assumes "log_run enc dec rt E ids r p H D" "codec_on enc dec rt E" "own_files (cfg_StateDir (rn_cfg r)) ids" "i \<in> ids"
    and "H i \<noteq> []" "ev_Cursor (hd (H i)) \<le> after + 1" "after \<le> ev_Cursor (last (H i))"
  shows "map rt (follow dec frame i (length (H i)) r after) = filter (\<lambda>e. after < ev_Cursor e) (H i)"
  by (rule follow_logs [OF assms(2) run_ok [OF assms(1-3)] assms(3-7)]) (rule length_filter_le)

text \<open>C30: an event that is appended leaves its journal and all journals together within their limits, which
  the reserve for control events is part of.\<close>

theorem journals_within_limits:
  assumes "log_run enc dec rt E ids r p H D" "codec_on enc dec rt E" "own_files (cfg_StateDir (rn_cfg r)) ids" "i \<in> ids"
    and "appendEventLocked enc fault now r i etype message data = (Inr e, r')"
  shows "(\<exists>a. mget (ps_Attempts (rn_state r')) i = Some a \<and>
      int (ar_EventJournalBytes a) \<le> maxJournalBytes + (if control_event e then journalControlReserve else 0)) \<and>
    sum_list (map snd (ss_journalSizes (rn_store r'))) \<le>
      maxTotalJournalBytes + (if control_event e then totalJournalControlReserve else 0)"
proof -
  have ok: "adds_up (rn_store r)" "writer_ok (rn_store r) i" "log_ok enc rt E r p i (H i) (D i)"
    using run_ok [OF assms(1-3)] assms(4) by (auto simp: logs_ok_def)
  then obtain es where log: "committed enc (rn_store r) i es" "cached enc rt E (rn_state r) i es (H i)"
    unfolding log_ok_def by blast
  obtain a where a: "mget (ps_Attempts (rn_state r)) i = Some a" using assms(5) by (auto simp: appendEventLocked_def split: option.splits)
  have es: "set es \<subseteq> E" "ar_EventJournalBytes a = length (lines enc es)" using log(2) a by (simp_all add: cached_def)
  have empty: "ar_EventJournalBytes a = 0 \<longrightarrow> es = []" using lines_empty [OF assms(2) es(1)] es(2) by simp
  obtain end' st where app: "appendEvent enc fault (rn_store r) i (ar_EventJournalBytes a) (hot r i) e = (Inr end', st)"
    and r': "rn_store r' = st" "\<exists>b. mget (ps_Attempts (rn_state r')) i = Some b \<and> ar_EventJournalBytes b = end'"
    using assms(5) a by (auto simp: appendEventLocked_def Let_def split: if_splits prod.splits sum.splits)
  from appendEvent_props [OF ok(1,2) log(1) es(2) empty app refl]
  have "adds_up st" "int end' \<le> byte_limit e" "ss_totalJournalBytes st \<le> total_limit e" by simp_all
  then show ?thesis using r' by (auto simp: adds_up_def byte_limit_def total_limit_def)
qed

end
