(* ===== verification/PowerLoss.thy ===== *)
theory PowerLoss
  imports LogMachine
begin

text \<open>
  Power losses (\<open>pkg/runner/event_journal.go\<close>, \<open>store.go\<close>). Of a journal only the bytes written before its last
  \<open>Sync\<close> are sure to be on the disk; the number of these bytes is kept for every attempt beside the runner. A power
  loss may leave anything behind them. The state file is synced before it replaces the old one, so it is whole, and
  the save syncs the journals first: what it commits of them is on the disk when it is.
\<close>

section \<open>What is on the disk\<close>

definition unsynced :: "stateStore \<Rightarrow> string \<Rightarrow> bool" where
  "unsynced s i \<longleftrightarrow> (case mget (ss_journals s) i of None \<Rightarrow> False | Some w \<Rightarrow> jw_dirty w)"

text \<open>An append cuts the journal behind its committed bytes, or writes there.\<close>

definition after_write :: "Runner \<Rightarrow> string \<Rightarrow> nat \<Rightarrow> nat" where
  "after_write r i n = (case mget (ps_Attempts (rn_state r)) i of None \<Rightarrow> n | Some a \<Rightarrow> min n (ar_EventJournalBytes a))"

text \<open>\<open>syncJournals\<close> puts the whole file of every handle it takes from dirty to clean on the disk.\<close>

definition after_sync :: "(string \<Rightarrow> bool) \<Rightarrow> stateStore \<Rightarrow> (string \<Rightarrow> nat) \<Rightarrow> string \<Rightarrow> nat" where
  "after_sync sync_fails s F i =
     (if unsynced s i \<and> \<not> unsynced (snd (syncJournals sync_fails s)) i then length (content s (eventPath (ss_dir s) i)) else F i)"

definition on_disk :: "string set \<Rightarrow> stateStore \<Rightarrow> (string \<Rightarrow> nat) \<Rightarrow> string gomap \<Rightarrow> bool" where
  "on_disk ids s F files \<longleftrightarrow>
     (\<forall>i \<in> ids. \<exists>rest. mgetd [] files (eventPath (ss_dir s) i) = take (F i) (content s (eventPath (ss_dir s) i)) @ rest)"

text \<open>The steps of \<open>log_run\<close> with power losses for crashes. A save whose directory sync fails leaves open which state
  file is on the disk. An append whose write fails while earlier events of the attempt are not synced is no step here:
  it loses events, see below.\<close>

inductive power_run :: "(Event \<Rightarrow> string option) \<Rightarrow> (string \<Rightarrow> decoded) \<Rightarrow> (Event \<Rightarrow> Event) \<Rightarrow> Event set \<Rightarrow> string set \<Rightarrow>
    Runner \<Rightarrow> persistedState \<Rightarrow> (string \<Rightarrow> nat) \<Rightarrow> bool"
  for enc dec rt E ids where
  boot: "\<lbrakk>restart rt (\<lambda>_. False) caps cfg files p = (True, r); 0 < cfg_MaxEvents cfg; ps_Attempts p = []; ps_Events p = []\<rbrakk>
    \<Longrightarrow> power_run enc dec rt E ids r p (\<lambda>_. 0)"
| accept: "\<lbrakk>power_run enc dec rt E ids r p F; i \<in> ids; mget (ps_Attempts (rn_state r)) i = None; ar_EventJournalBytes a = 0\<rbrakk>
    \<Longrightarrow> power_run enc dec rt E ids (set_record i a r) p F"
| change: "\<lbrakk>power_run enc dec rt E ids r p F; mget (ps_Attempts (rn_state r)) i = Some a;
      ar_EventJournalBytes a' = ar_EventJournalBytes a; rc_Cursor (ar_Receipt a') = rc_Cursor (ar_Receipt a)\<rbrakk>
    \<Longrightarrow> power_run enc dec rt E ids (set_record i a' r) p F"
| append_event: "\<lbrakk>power_run enc dec rt E ids r p F; i \<in> ids; appendEventLocked enc fault now r i typ message data = (Inr e, r'); e \<in> E\<rbrakk>
    \<Longrightarrow> power_run enc dec rt E ids r' p (F(i := after_write r i (F i)))"
| append_fails: "\<lbrakk>power_run enc dec rt E ids r p F; i \<in> ids; appendEventLocked enc fault now r i typ message data = (Inl err, r');
      \<not> unsynced (rn_store r) i \<or> (\<forall>n. fault \<noteq> WriteFault n)\<rbrakk>
    \<Longrightarrow> power_run enc dec rt E ids r' p (F(i := after_write r i (F i)))"
| serve: "\<lbrakk>power_run enc dec rt E ids r p F; i \<in> ids; serveEvents dec frame r i after = (res, r')\<rbrakk>
    \<Longrightarrow> power_run enc dec rt E ids r' p F"
| persist: "\<lbrakk>power_run enc dec rt E ids r p F; persistLocked sync_fails close_fails io r = (ok, Some p', r')\<rbrakk>
    \<Longrightarrow> power_run enc dec rt E ids r' p' (after_sync sync_fails (rn_store r) F)"
| persist_fails: "\<lbrakk>power_run enc dec rt E ids r p F; persistLocked sync_fails close_fails io r = (ok, None, r')\<rbrakk>
    \<Longrightarrow> power_run enc dec rt E ids r' p (after_sync sync_fails (rn_store r) F)"
| persist_unsure: "\<lbrakk>power_run enc dec rt E ids r p F; persistLocked sync_fails close_fails DirSyncFault r = (ok, Some p', r')\<rbrakk>
    \<Longrightarrow> power_run enc dec rt E ids r' p (after_sync sync_fails (rn_store r) F)"
| power_loss: "\<lbrakk>power_run enc dec rt E ids r p F; on_disk ids (rn_store r) F files;
      restart rt (\<lambda>_. False) caps (rn_cfg r) files p = (True, r')\<rbrakk>
    \<Longrightarrow> power_run enc dec rt E ids r' p (\<lambda>i. if mget (ps_Attempts p) i = None then 0 else F i)"

section \<open>The handles\<close>

text \<open>An open handle stands at the end \<open>n\<close> of the committed bytes, which are on the disk or will be at the next sync.\<close>

definition at_end :: "stateStore \<Rightarrow> string \<Rightarrow> nat \<Rightarrow> bool" where
  "at_end s i n \<longleftrightarrow> (\<forall>w. mget (ss_journals s) i = Some w \<longrightarrow> jw_end w = n)"

lemma open_writer_handle:
  assumes "open_writer fault i n s = (res, s')" "mget (ss_journals s) i = None"
  shows "case res of Inl _ \<Rightarrow> mget (ss_journals s') i = None
    | Inr w \<Rightarrow> mget (ss_journals s') i = Some w \<and> jw_end w = n \<and> \<not> jw_dirty w"
  using assms by (auto simp: open_writer_def closeJournal_def Let_def split: if_splits)

lemma write_event_handle:
  assumes "write_event fault i w encoded s = (ok, s')"
  shows "if ok then (\<exists>v. mget (ss_journals s') i = Some v \<and> jw_end v = jw_end w + length encoded \<and> jw_dirty v) \<and> (\<forall>n. fault \<noteq> WriteFault n)
    else mget (ss_journals s') i = None \<and> (\<exists>n. fault = WriteFault n)"
  using assms by (cases fault) (auto simp: write_event_def Let_def)

lemma index_handle: "mget (ss_journals (indexEvent i c n s)) j = mget (ss_journals s) j"
  by (simp add: indexEvent_def Let_def)

lemma appendEvent_handle:
  assumes "appendEvent enc fault s i n retained event = (res, s')" "at_end s i n"
  shows "case res of
      Inl _ \<Rightarrow> at_end s' i n \<and> (unsynced s i \<longrightarrow> unsynced s' i \<or> (\<exists>k. fault = WriteFault k))
    | Inr end' \<Rightarrow> at_end s' i end' \<and> unsynced s' i \<and> n \<le> end'"
proof (cases "encode_events enc ((if n = 0 then retained else []) @ [event])")
  case None
  then show ?thesis using assms by (auto simp: appendEvent_def)
next
  case (Some encoded)
  note app = assms(1) [unfolded appendEvent_eq Some option.case]
  obtain r1 s1 where open_: "(case mget (ss_journals s) i of
       Some w \<Rightarrow> if jw_end w = n then (Inr w, s) else open_writer fault i n s
     | None \<Rightarrow> open_writer fault i n s) = (r1, s1)" by fastforce
  have one: "case r1 of Inl _ \<Rightarrow> mget (ss_journals s1) i = None \<and> \<not> unsynced s i
      | Inr w \<Rightarrow> mget (ss_journals s1) i = Some w \<and> jw_end w = n \<and> (unsynced s i \<longrightarrow> jw_dirty w)"
  proof (cases "mget (ss_journals s) i")
    case None
    then show ?thesis using open_writer_handle [of fault i n s r1 s1] open_ by (cases r1) (auto simp: unsynced_def)
  next
    case (Some w)
    then show ?thesis using open_ assms(2) by (auto simp: at_end_def unsynced_def)
  qed
  show ?thesis
  proof (cases r1)
    case (Inl e)
    then show ?thesis using app open_ one assms(2) by (auto simp: at_end_def split: if_splits)
  next
    case (Inr w)
    obtain ok s2 where wr: "write_event fault i w encoded s1 = (ok, s2)" by fastforce
    show ?thesis using app open_ one assms(2) Inr wr write_event_handle [OF wr]
      by (auto simp: at_end_def unsynced_def index_handle split: if_splits bool.splits)
  qed
qed

section \<open>What the state file commits is on the disk\<close>

text \<open>Of one attempt: the record in memory, the record in the state file, and the bytes on the disk.\<close>

definition attempt_stable :: "stateStore \<Rightarrow> attemptRecord option \<Rightarrow> attemptRecord option \<Rightarrow> string \<Rightarrow> nat \<Rightarrow> bool" where
  "attempt_stable s b a i n \<longleftrightarrow> n \<le> length (content s (eventPath (ss_dir s) i)) \<and>
     (\<forall>a'. a = Some a' \<longrightarrow> ar_EventJournalBytes a' \<le> n) \<and>
     (case b of None \<Rightarrow> mget (ss_journals s) i = None
      | Some b' \<Rightarrow> at_end s i (ar_EventJournalBytes b') \<and> (ar_EventJournalBytes b' \<le> n \<or> unsynced s i))"

definition stable :: "string set \<Rightarrow> Runner \<Rightarrow> persistedState \<Rightarrow> (string \<Rightarrow> nat) \<Rightarrow> bool" where
  "stable ids r p F \<longleftrightarrow> (\<forall>i \<in> ids. attempt_stable (rn_store r) (mget (ps_Attempts (rn_state r)) i) (mget (ps_Attempts p) i) i (F i))"

lemma attempt_stable_same:
  assumes "ss_dir s' = ss_dir s" "mget (ss_journals s') i = mget (ss_journals s) i"
    "content s' (eventPath (ss_dir s) i) = content s (eventPath (ss_dir s) i)"
  shows "attempt_stable s' b a i n \<longleftrightarrow> attempt_stable s b a i n"
  using assms by (simp add: attempt_stable_def at_end_def unsynced_def split: option.split)

lemma log_ok_bytes:
  assumes "log_ok enc rt E r p i H D"
  shows "\<forall>a. mget (ps_Attempts p) i = Some a \<longrightarrow> ar_EventJournalBytes a \<le> after_write r i (ar_EventJournalBytes a)"
    and "\<forall>b. mget (ps_Attempts (rn_state r)) i = Some b \<longrightarrow>
      ar_EventJournalBytes b \<le> length (content (rn_store r) (eventPath (ss_dir (rn_store r)) i))"
proof -
  obtain es fs gs where c: "committed enc (rn_store r) i es" "cached enc rt E (rn_state r) i es H" "cached enc rt E p i fs D" "es = fs @ gs"
    using assms unfolding log_ok_def by blast
  show "\<forall>a. mget (ps_Attempts p) i = Some a \<longrightarrow> ar_EventJournalBytes a \<le> after_write r i (ar_EventJournalBytes a)"
    using c(2-4) by (auto simp: cached_def after_write_def split: option.splits)
  show "\<forall>b. mget (ps_Attempts (rn_state r)) i = Some b \<longrightarrow>
      ar_EventJournalBytes b \<le> length (content (rn_store r) (eventPath (ss_dir (rn_store r)) i))"
    using c(1,2) by (auto simp: cached_def committed_content)
qed

text \<open>A step that only writes records.\<close>

lemma set_record_stable:
  assumes "stable ids r p F"
    and "(mget (ps_Attempts (rn_state r)) i = None \<and> ar_EventJournalBytes a' = 0) \<or>
      (\<exists>a. mget (ps_Attempts (rn_state r)) i = Some a \<and> ar_EventJournalBytes a' = ar_EventJournalBytes a)"
  shows "stable ids (set_record i a' r) p F"
  unfolding stable_def
proof
  fix j assume "j \<in> ids"
  then have "attempt_stable (rn_store r) (mget (ps_Attempts (rn_state r)) j) (mget (ps_Attempts p) j) j (F j)"
    using assms(1) by (simp add: stable_def)
  then show "attempt_stable (rn_store (set_record i a' r)) (mget (ps_Attempts (rn_state (set_record i a' r))) j)
      (mget (ps_Attempts p) j) j (F j)"
    using assms(2) by (cases "j = i") (auto simp: set_record_def attempt_stable_def at_end_def)
qed

text \<open>An append, whether it succeeds or not.\<close>

lemma append_store:
  assumes "appendEventLocked enc fault now r i typ message data = (res, r')"
  shows "r' = r \<and> (\<exists>err. res = Inl err) \<or>
    (\<exists>a e jr st. mget (ps_Attempts (rn_state r)) i = Some a \<and>
       appendEvent enc fault (rn_store r) i (ar_EventJournalBytes a) (hot r i) e = (jr, st) \<and> rn_store r' = st \<and>
       (\<forall>j. j \<noteq> i \<longrightarrow> mget (ps_Attempts (rn_state r')) j = mget (ps_Attempts (rn_state r)) j) \<and>
       (case jr of Inl err \<Rightarrow> res = Inl err \<and> mget (ps_Attempts (rn_state r')) i = Some a
        | Inr end' \<Rightarrow> res = Inr e \<and> (\<exists>b. mget (ps_Attempts (rn_state r')) i = Some b \<and> ar_EventJournalBytes b = end')))"
proof (cases "mget (ps_Attempts (rn_state r)) i")
  case None
  then show ?thesis using assms by (auto simp: appendEventLocked_def)
next
  case (Some a)
  let ?e = "next_event r i a now typ message data"
  obtain jr st where app: "appendEvent enc fault (rn_store r) i (ar_EventJournalBytes a) (hot r i) ?e = (jr, st)" by fastforce
  show ?thesis
  proof (cases "int (length data) > cfg_MaxEventBytes (rn_cfg r)")
    case True
    then show ?thesis using assms Some by (auto simp: appendEventLocked_def)
  next
    case False
    then show ?thesis using assms Some app
      by (intro disjI2 exI [of _ a] exI [of _ ?e] exI [of _ jr] exI [of _ st]) (cases jr; auto simp: appendEventLocked_def Let_def)
  qed
qed

lemma append_stable:
  assumes "appendEventLocked enc fault now r i typ message data = (res, r')" "stable ids r p F" "i \<in> ids"
    and "logs_ok enc rt E ids r p H D" "logs_ok enc rt E ids r' p H' D" "own_files (cfg_StateDir (rn_cfg r)) ids"
    and "isl res \<longrightarrow> \<not> unsynced (rn_store r) i \<or> (\<forall>n. fault \<noteq> WriteFault n)"
    and "\<And>j. j \<in> ids \<Longrightarrow> j \<noteq> i \<Longrightarrow> mget (ss_journals (rn_store r')) j = mget (ss_journals (rn_store r)) j \<and>
      content (rn_store r') (eventPath (ss_dir (rn_store r)) j) = content (rn_store r) (eventPath (ss_dir (rn_store r)) j)"
  shows "stable ids r' p (F(i := after_write r i (F i)))"
  unfolding stable_def
proof
  fix j assume j: "j \<in> ids"
  have old: "attempt_stable (rn_store r) (mget (ps_Attempts (rn_state r)) j) (mget (ps_Attempts p) j) j (F j)"
    using assms(2) j by (simp add: stable_def)
  have dir: "ss_dir (rn_store r') = ss_dir (rn_store r)"
    using assms(4,5) append_cfg [OF assms(1)] by (simp add: logs_ok_def)
  show "attempt_stable (rn_store r') (mget (ps_Attempts (rn_state r')) j) (mget (ps_Attempts p) j) j ((F(i := after_write r i (F i))) j)"
  proof (cases "j = i")
    case False
    then have "mget (ps_Attempts (rn_state r')) j = mget (ps_Attempts (rn_state r)) j" using append_store [OF assms(1)] by auto
    then show ?thesis using old assms(8) [OF j False] False attempt_stable_same [OF dir] by simp
  next
    case True
    have now: "log_ok enc rt E r p i (H i) (D i)" "log_ok enc rt E r' p i (H' i) (D i)" using assms(3-5) by (auto simp: logs_ok_def)
    note bytes = log_ok_bytes(1) [OF now(1)] log_ok_bytes(2) [OF now(2)] log_ok_bytes(2) [OF now(1)]
    from append_store [OF assms(1)] show ?thesis
    proof (elim disjE conjE exE)
      assume "r' = r"
      then show ?thesis using old True bytes by (auto simp: attempt_stable_def after_write_def split: option.splits)
    next
      fix a e jr st
      assume a: "mget (ps_Attempts (rn_state r)) i = Some a" "rn_store r' = st"
        and app: "appendEvent enc fault (rn_store r) i (ar_EventJournalBytes a) (hot r i) e = (jr, st)"
        and res: "case jr of Inl err \<Rightarrow> res = Inl err \<and> mget (ps_Attempts (rn_state r')) i = Some a
          | Inr end' \<Rightarrow> res = Inr e \<and> (\<exists>b. mget (ps_Attempts (rn_state r')) i = Some b \<and> ar_EventJournalBytes b = end')"
      have "at_end (rn_store r) i (ar_EventJournalBytes a)" using old a True by (simp add: attempt_stable_def)
      note handle = appendEvent_handle [OF app this]
      have F: "after_write r i (F i) = min (F i) (ar_EventJournalBytes a)" using a by (simp add: after_write_def)
      show ?thesis
      proof (cases jr)
        case (Inl err)
        then have "isl res" "mget (ps_Attempts (rn_state r')) i = Some a" using res by auto
        then show ?thesis using old True a handle Inl bytes F assms(7) dir
          by (auto simp: attempt_stable_def after_write_def)
      next
        case (Inr end')
        then obtain b where b: "mget (ps_Attempts (rn_state r')) i = Some b" "ar_EventJournalBytes b = end'" using res by auto
        then show ?thesis using old True a handle Inr bytes F b dir
          by (auto simp: attempt_stable_def after_write_def)
      qed
    qed
  qed
qed

lemma append_only:
  assumes "appendEventLocked enc fault now r i typ message data = (res, r')" "logs_ok enc rt E ids r p H D" "i \<in> ids"
    and "codec_on enc dec rt E"
  shows "only_attempt i (rn_store r) (rn_store r')"
proof -
  have ok: "adds_up (rn_store r)" "writer_ok (rn_store r) i" "log_ok enc rt E r p i (H i) (D i)"
    using assms(2,3) by (auto simp: logs_ok_def)
  then obtain es where log: "committed enc (rn_store r) i es" "cached enc rt E (rn_state r) i es (H i)" unfolding log_ok_def by blast
  from append_store [OF assms(1)] show ?thesis
  proof (elim disjE conjE exE)
    fix a e jr st
    assume a: "mget (ps_Attempts (rn_state r)) i = Some a" "rn_store r' = st"
      and app: "appendEvent enc fault (rn_store r) i (ar_EventJournalBytes a) (hot r i) e = (jr, st)"
    have es: "set es \<subseteq> E" "ar_EventJournalBytes a = length (lines enc es)" using log(2) a(1) by (simp_all add: cached_def)
    have "ar_EventJournalBytes a = 0 \<longrightarrow> es = []" using lines_empty [OF assms(4) es(1)] es(2) by simp
    from appendEvent_props [OF ok(1,2) log(1) es(2) this app refl] show ?thesis by (simp add: a(2))
  qed simp
qed

lemma append_keeps_stable:
  assumes "appendEventLocked enc fault now r i typ message data = (res, r')" "stable ids r p F" "i \<in> ids"
    and "logs_ok enc rt E ids r p H D" "logs_ok enc rt E ids r' p H' D" "own_files (cfg_StateDir (rn_cfg r)) ids"
    and "isl res \<longrightarrow> \<not> unsynced (rn_store r) i \<or> (\<forall>n. fault \<noteq> WriteFault n)" "codec_on enc dec rt E"
  shows "stable ids r' p (F(i := after_write r i (F i)))"
proof (rule append_stable [OF assms(1-7)])
  fix j assume j: "j \<in> ids" "j \<noteq> i"
  have "ss_dir (rn_store r) = cfg_StateDir (rn_cfg r)" using assms(4) by (simp add: logs_ok_def)
  then have "eventPath (ss_dir (rn_store r)) j \<noteq> eventPath (ss_dir (rn_store r)) i" using own_filesD [OF assms(6,3) j] by simp
  then show "mget (ss_journals (rn_store r')) j = mget (ss_journals (rn_store r)) j \<and>
      content (rn_store r') (eventPath (ss_dir (rn_store r)) j) = content (rn_store r) (eventPath (ss_dir (rn_store r)) j)"
    using append_only [OF assms(1,4,3,8)] j by (simp add: only_attempt_def)
qed

lemma serve_store:
  assumes "serveEvents dec frame r i after = (res, r')" "codec_on enc dec rt E" "logs_ok enc rt E ids r p H D" "i \<in> ids"
  shows "rn_state r' = rn_state r \<and> ss_dir (rn_store r') = ss_dir (rn_store r) \<and>
    ss_journals (rn_store r') = ss_journals (rn_store r) \<and> ss_files (rn_store r') = ss_files (rn_store r)"
proof -
  have "r' = r \<or> (\<exists>a jr st. mget (ps_Attempts (rn_state r)) i = Some a \<and> ar_EventJournalBytes a > 0 \<and>
      replayEvents dec (\<lambda>_. False) (rn_store r) i (ar_EventJournalBytes a) after (rc_Cursor (ar_Receipt a)) = (jr, st) \<and>
      r' = r\<lparr>rn_store := st\<rparr>)"
    using assms(1) by (auto simp: serveEvents_def Let_def split: option.splits if_splits prod.splits sum.splits)
  then show ?thesis
  proof (elim disjE exE conjE)
    fix a jr st assume a: "mget (ps_Attempts (rn_state r)) i = Some a" "ar_EventJournalBytes a > 0"
      and rep: "replayEvents dec (\<lambda>_. False) (rn_store r) i (ar_EventJournalBytes a) after (rc_Cursor (ar_Receipt a)) = (jr, st)"
      and r': "r' = r\<lparr>rn_store := st\<rparr>"
    obtain es where log: "committed enc (rn_store r) i es" "cached enc rt E (rn_state r) i es (H i)"
      using assms(3,4) unfolding logs_ok_def log_ok_def by blast
    have es: "set es \<subseteq> E" "ar_EventJournalBytes a = length (lines enc es)" using log(2) a(1) by (simp_all add: cached_def)
    then have "es \<noteq> []" "codec enc dec rt es" using a(2) assms(2) by (auto simp: codec_on_def)
    from replay_index [OF this(2,1) log(1) rep [unfolded es(2)]] show ?thesis by (simp add: r' only_index_def)
  qed simp
qed

text \<open>A save: the handles it syncs are clean afterwards, and their files are on the disk.\<close>

lemma sync_all_dirty:
  assumes "sync_all fails ws = (ok, ws')"
  shows "(mget ws' i = None \<longleftrightarrow> mget ws i = None) \<and> (ok \<longrightarrow> (\<forall>w. mget ws' i = Some w \<longrightarrow> \<not> jw_dirty w))"
  using assms
proof (induction ws arbitrary: ok ws')
  case (Cons x ws)
  obtain j w where x: "x = (j, w)" by (cases x)
  show ?case using Cons by (auto simp: x mget_def split: if_splits prod.splits)
qed simp

lemma persist_store:
  assumes "persistLocked sync_fails close_fails io r = (ok, pf, r')" "syncJournals sync_fails (rn_store r) = (b, st)"
  shows "fewer_handles st (rn_store r') \<and> rn_state r' = rn_state r \<and> (\<not> b \<longrightarrow> rn_store r' = st \<and> pf = None) \<and>
    (\<forall>q. pf = Some q \<longrightarrow> ps_Attempts q = ps_Attempts (rn_state r))"
proof (cases "b \<and> io = NoSaveFault")
  case True
  obtain c s2 where close: "close_idle close_fails (rn_state r) (map fst (ss_journals st)) st = (c, s2)" by fastforce
  then have "fewer_handles st s2" by (rule close_idle_fewer)
  then show ?thesis using assms True close by (auto simp: persistLocked_def save_def Let_def)
next
  case False
  then show ?thesis using assms by (cases io) (auto simp: persistLocked_def save_def Let_def split: if_splits)
qed

lemma persist_stable:
  assumes "persistLocked sync_fails close_fails io r = (ok, pf, r')" "stable ids r p F" "logs_ok enc rt E ids r p H D"
    and "p' = p \<or> pf = Some p'"
  shows "stable ids r' p' (after_sync sync_fails (rn_store r) F)"
  unfolding stable_def
proof
  fix i assume i: "i \<in> ids"
  obtain b st where sync: "syncJournals sync_fails (rn_store r) = (b, st)" by fastforce
  obtain ws where ws: "sync_all sync_fails (ss_journals (rn_store r)) = (b, ws)" "st = (rn_store r)\<lparr>ss_journals := ws\<rparr>"
    using sync by (auto simp: syncJournals_def split: prod.splits)
  note step = persist_store [OF assms(1) sync] and dirty = sync_all_dirty [OF ws(1), of i]
  have few: "fewer_handles (rn_store r) st" using sync_fewer [of "rn_store r" sync_fails] sync by simp
  then have few': "fewer_handles (rn_store r) (rn_store r')" using step fewer_trans by blast
  let ?n = "after_sync sync_fails (rn_store r) F i" and ?q = "eventPath (ss_dir (rn_store r)) i"
  have old: "attempt_stable (rn_store r) (mget (ps_Attempts (rn_state r)) i) (mget (ps_Attempts p) i) i (F i)"
    using assms(2) i by (simp add: stable_def)
  have ok: "log_ok enc rt E r p i (H i) (D i)" using assms(3) i by (simp add: logs_ok_def)
  have same: "content (rn_store r') ?q = content (rn_store r) ?q" "ss_dir (rn_store r') = ss_dir (rn_store r)"
    using few' by (simp_all add: fewer_handles_def content_def)
  have n: "F i \<le> ?n" "?n \<le> length (content (rn_store r) ?q)" "unsynced (rn_store r) i \<and> \<not> unsynced st i \<Longrightarrow> ?n = length (content (rn_store r) ?q)"
    using old by (auto simp: after_sync_def attempt_stable_def sync)
  have clean: "b \<Longrightarrow> \<not> unsynced st i" using dirty ws(2) by (auto simp: unsynced_def split: option.splits)
  have bytes: "ar_EventJournalBytes c \<le> ?n \<or> unsynced (rn_store r') i \<and> \<not> b" if "mget (ps_Attempts (rn_state r)) i = Some c" for c
  proof (cases "unsynced (rn_store r) i")
    case True
    have "ar_EventJournalBytes c \<le> length (content (rn_store r) ?q)" using log_ok_bytes(2) [OF ok] that by simp
    then show ?thesis using n(3) True clean step by (cases b) auto
  next
    case False
    then show ?thesis using old that n(1) by (auto simp: attempt_stable_def)
  qed
  have end_: "at_end (rn_store r') i (ar_EventJournalBytes c)" if "mget (ps_Attempts (rn_state r)) i = Some c" for c
    using old that few' unfolding attempt_stable_def at_end_def fewer_handles_def by fastforce
  have none: "mget (ss_journals (rn_store r')) i = None" if "mget (ps_Attempts (rn_state r)) i = None"
  proof -
    have "mget (ss_journals (rn_store r)) i = None" using old that by (simp add: attempt_stable_def)
    then show ?thesis using few' unfolding fewer_handles_def by (metis option.distinct(1) option.exhaust)
  qed
  have saved: "\<forall>a. mget (ps_Attempts p') i = Some a \<longrightarrow> ar_EventJournalBytes a \<le> ?n"
  proof (cases "p' = p")
    case True
    then show ?thesis using old n(1) by (auto simp: attempt_stable_def)
  next
    case False
    then have "pf = Some p'" "b" "ps_Attempts p' = ps_Attempts (rn_state r)" using assms(4) step by auto
    then show ?thesis using bytes by auto
  qed
  show "attempt_stable (rn_store r') (mget (ps_Attempts (rn_state r')) i) (mget (ps_Attempts p') i) i ?n"
    unfolding attempt_stable_def same
    using n(2) saved bytes end_ none step by (auto split: option.split)
qed

lemma loss_survives:
  assumes "stable ids r p F" "on_disk ids (rn_store r) F files"
  shows "survives ids p (rn_store r) files"
  unfolding survives_def
proof (intro ballI allI impI)
  fix i a assume i: "i \<in> ids" and a: "mget (ps_Attempts p) i = Some a"
  let ?q = "eventPath (ss_dir (rn_store r)) i"
  have F: "ar_EventJournalBytes a \<le> F i" "F i \<le> length (content (rn_store r) ?q)"
    using assms(1) i a by (auto simp: stable_def attempt_stable_def)
  obtain rest where "mgetd [] files ?q = take (F i) (content (rn_store r) ?q) @ rest" using assms(2) i unfolding on_disk_def by blast
  then show "let n = ar_EventJournalBytes a; path = ?q in n \<le> length (content (rn_store r) path) \<longrightarrow>
      n \<le> length (mgetd [] files path) \<and> take n (mgetd [] files path) = take n (content (rn_store r) path)"
    using F by (simp add: Let_def min_absorb1)
qed

lemma loss_stable:
  assumes "stable ids r p F" "on_disk ids (rn_store r) F files" "ss_dir (rn_store r) = cfg_StateDir (rn_cfg r)"
    and "restart rt (\<lambda>_. False) caps (rn_cfg r) files p = (True, r')"
  shows "stable ids r' p (\<lambda>i. if mget (ps_Attempts p) i = None then 0 else F i)"
  unfolding stable_def
proof
  fix i assume i: "i \<in> ids"
  note new = restart_store [OF assms(4)]
  have rec: "mget (ps_Attempts (rn_state r')) i = map_option (\<lambda>a. a\<lparr>ar_cleanupRunning := False\<rparr>) (mget (ps_Attempts p) i)"
    unfolding new(2) by (rule mget_map_values)
  show "attempt_stable (rn_store r') (mget (ps_Attempts (rn_state r')) i) (mget (ps_Attempts p) i) i
      (if mget (ps_Attempts p) i = None then 0 else F i)"
  proof (cases "mget (ps_Attempts p) i")
    case None
    then show ?thesis using rec new(5) by (simp add: attempt_stable_def)
  next
    case (Some a)
    let ?q = "eventPath (cfg_StateDir (rn_cfg r)) i"
    have F: "ar_EventJournalBytes a \<le> F i" "F i \<le> length (content (rn_store r) ?q)"
      using assms(1,3) i Some by (auto simp: stable_def attempt_stable_def)
    obtain rest where "mgetd [] files ?q = take (F i) (content (rn_store r) ?q) @ rest"
      using assms(2,3) i unfolding on_disk_def by auto
    then have "F i \<le> length (content (rn_store r') ?q)" using new(8) [of i] Some F(2) by simp
    then show ?thesis using rec new(5,6) F(1) Some by (simp add: attempt_stable_def at_end_def)
  qed
qed

section \<open>Every run is a run of the log machine\<close>

lemma persist_dir_sync:
  "persistLocked sync_fails close_fails DirSyncFault r = (ok, Some p', r') \<Longrightarrow>
    persistLocked sync_fails close_fails SaveFault r = (False, None, r')"
  by (auto simp: persistLocked_def save_def Let_def split: prod.splits if_splits)

lemma power_run_logs:
  assumes "power_run enc dec rt E ids r p F" "codec_on enc dec rt E" "own_files (cfg_StateDir (rn_cfg r)) ids"
  shows "\<exists>H D. log_run enc dec rt E ids r p H D \<and> stable ids r p F"
  using assms
proof (induction rule: power_run.induct)
  case (boot caps cfg files p r)
  note new = restart_store [OF boot.hyps(1)]
  have "log_run enc dec rt E ids r p (\<lambda>_. []) (\<lambda>_. [])" by (rule log_run.boot [OF boot.hyps])
  moreover have "stable ids r p (\<lambda>_. 0)" by (simp add: stable_def attempt_stable_def new(2,5) boot.hyps(3))
  ultimately show ?case by blast
next
  case (accept r p F i a)
  obtain H D where HD: "log_run enc dec rt E ids r p H D" "stable ids r p F"
    using accept.IH accept.prems by (auto simp: set_record_def)
  then show ?case using log_run.accept [OF HD(1) accept.hyps(2-4)] set_record_stable [OF HD(2), of i a] accept.hyps(3,4) by blast
next
  case (change r p F i a a')
  obtain H D where HD: "log_run enc dec rt E ids r p H D" "stable ids r p F"
    using change.IH change.prems by (auto simp: set_record_def)
  then show ?case using log_run.change [OF HD(1) change.hyps(2-4)] set_record_stable [OF HD(2), of i a'] change.hyps(2,3) by blast
next
  case (append_event r p F i fault now etype message data e r')
  have cfg: "rn_cfg r' = rn_cfg r" by (rule append_cfg [OF append_event.hyps(3)])
  then obtain H D where HD: "log_run enc dec rt E ids r p H D" "stable ids r p F"
    using append_event.IH append_event.prems by auto
  note run = log_run.append_event [OF HD(1) append_event.hyps(2-4)]
  have own: "own_files (cfg_StateDir (rn_cfg r)) ids" using append_event.prems(2) cfg by simp
  have "stable ids r' p (F(i := after_write r i (F i)))"
    by (rule append_keeps_stable [OF append_event.hyps(3) HD(2) append_event.hyps(2) run_ok [OF HD(1) append_event.prems(1) own]
          run_ok [OF run append_event.prems] own _ append_event.prems(1)]) simp
  then show ?case using run by blast
next
  case (append_fails r p F i fault now etype message data err r')
  have cfg: "rn_cfg r' = rn_cfg r" by (rule append_cfg [OF append_fails.hyps(3)])
  then obtain H D where HD: "log_run enc dec rt E ids r p H D" "stable ids r p F"
    using append_fails.IH append_fails.prems by auto
  note run = log_run.append_fails [OF HD(1) append_fails.hyps(2,3)]
  have own: "own_files (cfg_StateDir (rn_cfg r)) ids" using append_fails.prems(2) cfg by simp
  have "stable ids r' p (F(i := after_write r i (F i)))"
    by (rule append_keeps_stable [OF append_fails.hyps(3) HD(2) append_fails.hyps(2) run_ok [OF HD(1) append_fails.prems(1) own]
          run_ok [OF run append_fails.prems] own _ append_fails.prems(1)]) (use append_fails.hyps(4) in simp)
  then show ?case using run by blast
next
  case (serve r p F i frame after res r')
  have cfg: "rn_cfg r' = rn_cfg r" by (rule serve_cfg [OF serve.hyps(3)])
  then obtain H D where HD: "log_run enc dec rt E ids r p H D" "stable ids r p F"
    using serve.IH serve.prems by auto
  have own: "own_files (cfg_StateDir (rn_cfg r)) ids" using serve.prems(2) cfg by simp
  note st = serve_store [OF serve.hyps(3) serve.prems(1) run_ok [OF HD(1) serve.prems(1) own] serve.hyps(2)]
  have "stable ids r' p F" using HD(2) st attempt_stable_same [of "rn_store r'" "rn_store r"] by (simp add: stable_def content_def)
  then show ?case using log_run.serve [OF HD(1) serve.hyps(2,3)] by blast
next
  case (persist r p F sync_fails close_fails io ok p' r')
  have cfg: "rn_cfg r' = rn_cfg r" by (rule persist_cfg [OF persist.hyps(2)])
  then obtain H D where HD: "log_run enc dec rt E ids r p H D" "stable ids r p F"
    using persist.IH persist.prems by auto
  have "logs_ok enc rt E ids r p H D" using run_ok [OF HD(1) persist.prems(1)] persist.prems(2) cfg by simp
  then show ?case using persist_stable [OF persist.hyps(2) HD(2)] log_run.persist [OF HD(1) persist.hyps(2)] by blast
next
  case (persist_fails r p F sync_fails close_fails io ok r')
  have cfg: "rn_cfg r' = rn_cfg r" by (rule persist_cfg [OF persist_fails.hyps(2)])
  then obtain H D where HD: "log_run enc dec rt E ids r p H D" "stable ids r p F"
    using persist_fails.IH persist_fails.prems by auto
  have "logs_ok enc rt E ids r p H D" using run_ok [OF HD(1) persist_fails.prems(1)] persist_fails.prems(2) cfg by simp
  then show ?case using persist_stable [OF persist_fails.hyps(2) HD(2)] log_run.persist_fails [OF HD(1) persist_fails.hyps(2)] by blast
next
  case (persist_unsure r p F sync_fails close_fails ok p' r')
  have cfg: "rn_cfg r' = rn_cfg r" by (rule persist_cfg [OF persist_unsure.hyps(2)])
  then obtain H D where HD: "log_run enc dec rt E ids r p H D" "stable ids r p F"
    using persist_unsure.IH persist_unsure.prems by auto
  have "logs_ok enc rt E ids r p H D" using run_ok [OF HD(1) persist_unsure.prems(1)] persist_unsure.prems(2) cfg by simp
  then show ?case using persist_stable [OF persist_unsure.hyps(2) HD(2)]
      log_run.persist_fails [OF HD(1) persist_dir_sync [OF persist_unsure.hyps(2)]] by blast
next
  case (power_loss r p F files caps r')
  have cfg: "rn_cfg r' = rn_cfg r" by (rule restart_cfg [OF power_loss.hyps(3)])
  then obtain H D where HD: "log_run enc dec rt E ids r p H D" "stable ids r p F"
    using power_loss.IH power_loss.prems by auto
  have "logs_ok enc rt E ids r p H D" using run_ok [OF HD(1) power_loss.prems(1)] power_loss.prems(2) cfg by simp
  then have dir: "ss_dir (rn_store r) = cfg_StateDir (rn_cfg r)" by (simp add: logs_ok_def)
  show ?case using log_run.crash [OF HD(1) loss_survives [OF HD(2) power_loss.hyps(2)] power_loss.hyps(3)]
      loss_stable [OF HD(2) power_loss.hyps(2) dir power_loss.hyps(3)] by blast
qed

section \<open>What a reader sees after a power loss\<close>

lemma prune_none: "fst (prune_paths owned (\<lambda>_. False) paths s)"
  by (induction paths arbitrary: s) auto

text \<open>A restart whose removals do not fail comes up.\<close>

lemma restart_up: "restart rt (\<lambda>_. False) caps cfg files p = (True, snd (restart rt (\<lambda>_. False) caps cfg files p))"
proof -
  have "fst (pruneJournals (\<lambda>_. False) ids s)" for ids s unfolding pruneJournals_def by (rule prune_none)
  then have "fst (restart rt (\<lambda>_. False) caps cfg files p)" by (auto simp: restart_def Let_def split: prod.split) (metis fst_conv)
  then show ?thesis by (simp add: prod_eq_iff)
qed

lemma view_empty: "cached enc rt E p i es H \<Longrightarrow> H = [] \<longleftrightarrow> mgetd [] (ps_Events p) i = []"
  by (auto simp: cached_def view_def split: option.splits if_splits)

text \<open>The first event of an attempt has number one.\<close>

lemma log_starts:
  assumes "log_run enc dec rt E ids r p H D" "codec_on enc dec rt E" "own_files (cfg_StateDir (rn_cfg r)) ids"
  shows "\<forall>i \<in> ids. (H i \<noteq> [] \<longrightarrow> ev_Cursor (hd (H i)) = 1) \<and> (D i \<noteq> [] \<longrightarrow> ev_Cursor (hd (D i)) = 1)"
  using assms
proof (induction rule: log_run.induct)
  case (append_event r p H D i fault now etype message data e r')
  have cfg: "rn_cfg r' = rn_cfg r" by (rule append_cfg [OF append_event.hyps(3)])
  then have own: "own_files (cfg_StateDir (rn_cfg r)) ids" using append_event.prems by simp
  have "log_ok enc rt E r p i (H i) (D i)"
    using run_ok [OF append_event.hyps(1) append_event.prems(1) own] append_event.hyps(2) by (simp add: logs_ok_def)
  then obtain es where "cached enc rt E (rn_state r) i es (H i)" unfolding log_ok_def by blast
  then have "H i = [] \<longleftrightarrow> hot r i = []" unfolding hot_def by (rule view_empty)
  moreover have "hot r i = [] \<longrightarrow> ev_Cursor e = 1" using append_event.hyps(3)
    by (auto simp: appendEventLocked_def next_event_def Let_def split: option.splits if_splits prod.splits sum.splits)
  moreover have "ev_Cursor (rt e) = ev_Cursor e" using rt_cursor [OF append_event.prems(1)] append_event.hyps(4) by blast
  ultimately show ?case using append_event.IH [OF append_event.prems(1) own] by auto
next
  case (append_fails r p H D i fault now etype message data err r')
  then show ?case using append_cfg [OF append_fails.hyps(3)] by simp
next
  case (serve r p H D i frame after res r')
  then show ?case using serve_cfg [OF serve.hyps(3)] by simp
next
  case (persist r p H D sync_fails close_fails io ok p' r')
  then show ?case using persist_cfg [OF persist.hyps(2)] by simp
next
  case (persist_fails r p H D sync_fails close_fails io ok r')
  then show ?case using persist_cfg [OF persist_fails.hyps(2)] by simp
next
  case (crash r p H D files caps r')
  then show ?case using restart_cfg [OF crash.hyps(3)] by simp
qed (simp_all add: set_record_def)

lemma consecutive_cursors:
  assumes "consecutive H" "H \<noteq> [] \<longrightarrow> ev_Cursor (hd H) = 1"
  shows "map ev_Cursor H = [1..<Suc (length H)]"
proof (rule nth_equalityI)
  fix k assume "k < length (map ev_Cursor H)"
  then have k: "k < length H" by simp
  then have "ev_Cursor (H ! k) = 1 + k" using consecutive_nth [OF assms(1) k] assms(2) by auto
  then show "map ev_Cursor H ! k = [1..<Suc (length H)] ! k" using k nth_upt [of 1 k "Suc (length H)"] by simp
qed (simp del: upt_Suc)

lemma filter_upt: "filter ((<) m) [1..<Suc n] = [Suc m..<Suc n]"
  by (induction n) auto

lemma after_cursors:
  assumes "consecutive H" "H \<noteq> [] \<longrightarrow> ev_Cursor (hd H) = 1"
  shows "map ev_Cursor (filter (\<lambda>e. after < ev_Cursor e) H) = [Suc after..<Suc (length H)]"
proof -
  have "map ev_Cursor (filter (\<lambda>e. after < ev_Cursor e) H) = filter ((<) after) (map ev_Cursor H)" by (simp add: filter_map o_def)
  also have "\<dots> = [Suc after..<Suc (length H)]" unfolding consecutive_cursors [OF assms] by (rule filter_upt)
  finally show ?thesis .
qed

text \<open>A beginning of the log is its events up to the last of the beginning.\<close>

lemma before_cursor:
  assumes "consecutive (D @ gs)" "D \<noteq> []"
  shows "filter (\<lambda>e. ev_Cursor e \<le> ev_Cursor (last D)) (D @ gs) = D"
proof -
  have "ev_Cursor e \<le> ev_Cursor (last D)" if "e \<in> set D" for e
    using consecutive_le_last [OF _ that] consecutive_append [OF assms(1)] by blast
  moreover have "\<not> ev_Cursor e \<le> ev_Cursor (last D)" if "e \<in> set gs" for e
  proof -
    have "D @ gs = butlast D @ last D # gs" using assms(2) by simp
    then have "consecutive (last D # gs)" using consecutive_append [of "butlast D" "last D # gs"] assms(1) by metis
    then show ?thesis using consecutive_less that by fastforce
  qed
  ultimately show ?thesis by (simp add: filter_id_conv filter_empty_conv)
qed

lemma committed_view:
  assumes "log_ok enc rt E r p i H D" "mget (ps_Attempts p) i = Some a" "0 < ar_EventJournalBytes a" "codec_on enc dec rt E"
    and "mget (ps_Attempts (rn_state r)) i = Some b"
  shows "consecutive H" "D \<noteq> []" "ev_Cursor (last D) = rc_Cursor (ar_Receipt a)" "ev_Cursor (last H) = rc_Cursor (ar_Receipt b)"
    "\<exists>gs. H = D @ gs"
proof -
  obtain es fs gs where log: "cached enc rt E (rn_state r) i es H" "cached enc rt E p i fs D" "es = fs @ gs" "\<exists>gs. H = D @ gs"
    using assms(1) unfolding log_ok_def by blast
  have fs: "set fs \<subseteq> E" "ar_EventJournalBytes a = length (lines enc fs)" "view rt fs (mgetd [] (ps_Events p) i) (rc_Cursor (ar_Receipt a)) D"
    using log(2) assms(2) by (simp_all add: cached_def)
  have es: "set es \<subseteq> E" "view rt es (mgetd [] (ps_Events (rn_state r)) i) (rc_Cursor (ar_Receipt b)) H"
    using log(1) assms(5) by (simp_all add: cached_def)
  have ne: "fs \<noteq> []" "es \<noteq> []" using assms(3) fs(2) log(3) by auto
  then have v: "D = map rt fs" "rc_Cursor (ar_Receipt a) = ev_Cursor (last fs)" "H = map rt es" "rc_Cursor (ar_Receipt b) = ev_Cursor (last es)"
    using fs(3) es(2) by (simp_all add: view_def)
  have cur: "ev_Cursor (rt e) = ev_Cursor e" if "e \<in> E" for e using rt_cursor [OF assms(4) that] .
  show "consecutive H" "D \<noteq> []" "\<exists>gs. H = D @ gs" using es(2) ne v log(4) by (auto simp: view_def)
  have "last fs \<in> E" "last es \<in> E" using ne fs(1) es(1) last_in_set by blast+
  then show "ev_Cursor (last D) = rc_Cursor (ar_Receipt a)" "ev_Cursor (last H) = rc_Cursor (ar_Receipt b)"
    using ne cur by (simp_all add: v last_map)
qed

text \<open>C6: after a power loss, however the bytes that were not synced came out of it, and a restart, a client that asks
  again after the last event it got reads exactly the events it could have read before, up to the cursor of the receipt
  in the state file; before, it reads all up to the cursor of the receipt in memory. An append whose write fails while
  earlier events are not synced is not among the steps: it loses them (\<open>failed_write_loses_committed\<close>).\<close>

theorem event_log_durable:
  assumes "power_run enc dec rt E ids r p F" "codec_on enc dec rt E" "own_files (cfg_StateDir (rn_cfg r)) ids" "i \<in> ids"
    and "mget (ps_Attempts p) i = Some a" "0 < ar_EventJournalBytes a" "after \<le> rc_Cursor (ar_Receipt a)"
    and "mget (ps_Attempts (rn_state r)) i = Some b" "rc_Cursor (ar_Receipt b) \<le> n"
    and "on_disk ids (rn_store r) F files" "restart rt (\<lambda>_. False) caps (rn_cfg r) files p = (True, r')"
  shows "map rt (follow dec frame i n r' after) =
      filter (\<lambda>e. ev_Cursor e \<le> rc_Cursor (ar_Receipt a)) (map rt (follow dec frame i n r after)) \<and>
    map ev_Cursor (map rt (follow dec frame i n r after)) = [Suc after..<Suc (rc_Cursor (ar_Receipt b))]"
proof -
  let ?new = "filter (\<lambda>e. after < ev_Cursor e)"
  obtain H D where run: "log_run enc dec rt E ids r p H D" and st: "stable ids r p F" using power_run_logs [OF assms(1-3)] by blast
  have after_run: "log_run enc dec rt E ids r' p D D" by (rule log_run.crash [OF run loss_survives [OF st assms(10)] assms(11)])
  have cfg: "rn_cfg r' = rn_cfg r" by (rule restart_cfg [OF assms(11)])
  have own': "own_files (cfg_StateDir (rn_cfg r')) ids" using assms(3) cfg by simp
  note ok = run_ok [OF run assms(2,3)] and ok' = run_ok [OF after_run assms(2) own']
  have "log_ok enc rt E r p i (H i) (D i)" using ok assms(4) by (simp add: logs_ok_def)
  note v = committed_view [OF this assms(5,6,2,8)]
  obtain gs where gs: "H i = D i @ gs" using v(5) by blast
  have hd: "H i \<noteq> []" "ev_Cursor (hd (H i)) = 1" "ev_Cursor (hd (D i)) = 1"
    using log_starts [OF run assms(2,3)] assms(4) v(2) gs by auto
  have len: "length (H i) = rc_Cursor (ar_Receipt b)"
    using consecutive_nth [OF v(1), of "length (H i) - 1"] hd v(4) by (simp add: last_conv_nth Suc_diff_Suc)
  then have n: "length (?new (H i)) \<le> n" "length (?new (D i)) \<le> n"
    using order_trans [OF length_filter_le, of "H i" n] order_trans [OF length_filter_le, of "D i" n] assms(9) gs by simp_all
  have "last (D i) \<in> set (H i)" using v(2) gs by simp
  then have le: "after \<le> ev_Cursor (last (D i))" "after \<le> ev_Cursor (last (H i))"
    using consecutive_le_last [OF v(1), of "last (D i)"] v(3) assms(7) by auto
  have before: "map rt (follow dec frame i n r after) = ?new (H i)"
    by (rule follow_logs [OF assms(2) ok assms(3,4) hd(1)]) (use hd le n in auto)
  have later: "map rt (follow dec frame i n r' after) = ?new (D i)"
    by (rule follow_logs [OF assms(2) ok' own' assms(4) v(2)]) (use hd le n in auto)
  have "?new (D i) = filter (\<lambda>e. ev_Cursor e \<le> ev_Cursor (last (D i))) (?new (H i))"
    using before_cursor [of "D i" gs] v(1,2) unfolding gs filter_filter by (metis (no_types, lifting) filter_cong filter_filter conj_commute)
  moreover have "map ev_Cursor (?new (H i)) = [Suc after..<Suc (length (H i))]" using after_cursors [OF v(1)] hd(2) by simp
  ultimately show ?thesis unfolding before later v(3) len by simp
qed

section \<open>A failed write loses events the next save commits\<close>

lemma write_fault_closes:
  assumes "mget (ss_journals s) i = Some w" "jw_end w = n" "appendEvent enc NoFault s i n retained event = (Inr end', s')"
    and "appendEvent enc (WriteFault k) s i n retained event = (res, s1)"
  shows "res = Inl SysError \<and> mget (ss_journals s1) i = None"
  using assms by (auto simp: appendEvent_eq write_event_def Let_def split: option.splits if_splits)

lemma short_journal:
  assumes "mget (ss_journals s) i = None" "length (content s (eventPath (ss_dir s) i)) < n"
  shows "\<exists>err. fst (appendEvent enc fault s i n retained event) = Inl err"
proof -
  have "\<exists>err t. open_writer fault i n s = (Inl err, t)"
    using assms by (auto simp: open_writer_def closeJournal_def content_def Let_def)
  then show ?thesis using assms(1) by (auto simp: appendEvent_eq split: option.splits)
qed

text \<open>Events of an attempt were appended and not synced yet, and the write of the next one fails. The journal is
  closed without a sync, so the next save, which syncs only open journals, commits the earlier events although nothing
  put them on the disk. After a power loss that keeps just what was synced the journal is shorter than what the state
  file commits of it, and no event of the attempt can be appended any more.\<close>

theorem failed_write_loses_committed:
  assumes "mget (ss_journals (rn_store r)) i = Some w" "mget (ps_Attempts (rn_state r)) i = Some a"
    and "jw_end w = ar_EventJournalBytes a" "F i < ar_EventJournalBytes a"
    and "appendEventLocked enc NoFault now r i typ message data = (Inr e, r0)"
    and "appendEventLocked enc (WriteFault k) now r i typ message data = (res, r1)"
    and "persistLocked sync_fails close_fails NoSaveFault r1 = (True, Some p, r2)"
    and "mgetd [] files (eventPath (cfg_StateDir (rn_cfg r)) i) =
      take (after_sync sync_fails (rn_store r1) F i) (content (rn_store r2) (eventPath (cfg_StateDir (rn_cfg r)) i))"
    and "restart rt (\<lambda>_. False) caps (rn_cfg r) files p = (True, r')"
  shows "(\<exists>c. mget (ps_Attempts p) i = Some c \<and> ar_EventJournalBytes c = ar_EventJournalBytes a) \<and>
    length (mgetd [] files (eventPath (cfg_StateDir (rn_cfg r)) i)) < ar_EventJournalBytes a \<and>
    (\<exists>err. fst (appendEventLocked enc fault later r' i typ' message' data') = Inl err)"
proof -
  let ?q = "eventPath (cfg_StateDir (rn_cfg r)) i"
  have closed: "mget (ss_journals (rn_store r1)) i = None" "mget (ps_Attempts (rn_state r1)) i = Some a"
    using assms(2,5,6)
    by (auto simp: appendEventLocked_def Let_def dest: write_fault_closes [OF assms(1,3)] split: if_splits prod.splits sum.splits)
  then have F: "after_sync sync_fails (rn_store r1) F i = F i" by (simp add: after_sync_def unsynced_def)
  obtain b st where "syncJournals sync_fails (rn_store r1) = (b, st)" by fastforce
  then have saved: "mget (ps_Attempts p) i = Some a" using persist_store [OF assms(7)] closed(2) by simp
  have short: "length (mgetd [] files ?q) < ar_EventJournalBytes a" using assms(4,8) F by simp
  note new = restart_store [OF assms(9)]
  have rec: "mget (ps_Attempts (rn_state r')) i = Some (a\<lparr>ar_cleanupRunning := False\<rparr>)"
    using saved mget_map_values [of "\<lambda>_ a. a\<lparr>ar_cleanupRunning := False\<rparr>" "ps_Attempts p" i] by (simp add: new(2))
  have "length (content (rn_store r') (eventPath (ss_dir (rn_store r')) i)) < ar_EventJournalBytes a"
    using new(6,8) saved short by simp
  then have fails: "\<exists>err. fst (appendEvent enc fault (rn_store r') i (ar_EventJournalBytes a) hs ev) = Inl err" for hs ev
    using short_journal [of "rn_store r'" i] new(5) by simp
  have "\<exists>err. fst (appendEventLocked enc fault later r' i typ' message' data') = Inl err"
    using fails [of "hot r' i" "next_event r' i (a\<lparr>ar_cleanupRunning := False\<rparr>) later typ' message' data'"]
    by (auto simp: appendEventLocked_def rec Let_def split: prod.split sum.split)
  then show ?thesis using saved short by simp
qed

end
