(* ===== verification/Retention.thy ===== *)
theory Retention
  imports LogMachine GoPaths
begin

text \<open>
  Attempt retention (\<open>pkg/runner/retention.go\<close>): which attempts the runner forgets, and what goes
  with them. The files themselves are removed later, from the list of paths a pass returns.
\<close>

section \<open>The pass\<close>

abbreviation Hour :: int where "Hour \<equiv> 3600 * Second"

definition purgeableLocked :: "Runner \<Rightarrow> string \<Rightarrow> attemptRecord \<Rightarrow> bool" where
  "purgeableLocked r i a \<longleftrightarrow>
     (let rc = ar_Receipt a in
      (IsTerminal (rc_Phase rc) \<or> rc_Phase rc = PhaseNeedsInput) \<and>
      mget (rn_running r) i = None \<and> mget (rn_permissions r) i = None \<and> \<not> ar_cleanupRunning a \<and>
      mget (ps_Environments (rn_state r)) (sreq_EnvironmentID (ar_Start a)) \<noteq> Some i \<and>
      \<not> (IsTerminal (rc_Phase rc) \<and> ar_CleanupEligible a \<and> \<not> ar_CleanupDone a \<and> ar_CleanupAttempts a < 3 \<and>
         rc_Workdir rc \<noteq> []))"

definition seen_at :: "attemptRecord \<Rightarrow> time" where
  "seen_at a = (if IsZero (rc_UpdatedAt (ar_Receipt a)) then rc_AcceptedAt (ar_Receipt a) else rc_UpdatedAt (ar_Receipt a))"

definition out_of_window :: "runnerConfig \<Rightarrow> time \<Rightarrow> attemptRecord \<Rightarrow> bool" where
  "out_of_window cfg now a \<longleftrightarrow>
     (let age = Sub now (seen_at a); phase = rc_Phase (ar_Receipt a) in
      IsTerminal phase \<and> age > i64 (cfg_AttemptRetentionHours cfg * Hour) \<or>
      phase = PhaseNeedsInput \<and> age > i64 (cfg_ParkedAttemptRetentionHours cfg * Hour))"

text \<open>The loop over the candidates, oldest first, that takes those over the cap.\<close>

fun over_cap :: "int \<Rightarrow> string list \<Rightarrow> string list \<Rightarrow> string list" where
  "over_cap over expired [] = expired"
| "over_cap over expired (i # ids) =
     (if over \<le> 0 then expired
      else if i \<in> set expired then over_cap over expired ids
      else over_cap (over - 1) (expired @ [i]) ids)"

definition candidates :: "Runner \<Rightarrow> (string \<times> attemptRecord) list" where
  "candidates r = filter (\<lambda>(i, a). purgeableLocked r i a) (ps_Attempts (rn_state r))"

definition expired_ids :: "Runner \<Rightarrow> time \<Rightarrow> string list" where
  "expired_ids r now =
     (let retained = candidates r in
      over_cap (int (length retained) - cfg_MaxRetainedAttempts (rn_cfg r))
        (map fst (filter (\<lambda>(_, a). out_of_window (rn_cfg r) now a) retained))
        (map fst (sort_key (\<lambda>(_, a). seen_at a) retained)))"

definition drop_values :: "('v \<Rightarrow> bool) \<Rightarrow> 'v gomap \<Rightarrow> 'v gomap" where
  "drop_values P t = mfilter (\<lambda>_ v. \<not> P v) t"

definition stagedInputDir :: "string \<Rightarrow> string \<Rightarrow> string" where
  "stagedInputDir stateDir attemptID = path_Join [stateDir, ''input-staging'', attemptID]"

text \<open>A journal that cannot be removed is only logged (\<open>rm\<close>, \<open>close_fails\<close>).\<close>

definition dropAttemptLocked :: "bool \<Rightarrow> removal \<Rightarrow> Runner \<Rightarrow> string \<Rightarrow> string list \<times> Runner" where
  "dropAttemptLocked close_fails rm r i =
     (case mget (ps_Attempts (rn_state r)) i of None \<Rightarrow> ([], r)
      | Some a \<Rightarrow>
          let p = rn_state r; dir = cfg_StateDir (rn_cfg r); rc = ar_Receipt a;
              artifactDir = path_Join [dir, ''artifacts'', i];
              own = path_Join [dir, ''worktrees'', rc_TaskID rc, i]
          in ([artifactDir, stagedInputDir dir i] @
                (if rc_Workdir rc \<noteq> [] \<and> blank (sreq_WorkspaceID (ar_Start a)) \<and> Clean (rc_Workdir rc) = own then [own] else []),
              r\<lparr>rn_state := p\<lparr>ps_Attempts := mdel i (ps_Attempts p), ps_Events := mdel i (ps_Events p),
                  ps_Operations := drop_values (\<lambda>op. op_AttemptID op = i) (ps_Operations p),
                  ps_Reservations := drop_values (\<lambda>v. v = i) (ps_Reservations p),
                  ps_Artifacts := drop_values (\<lambda>af. hasPrefix (af_Path af) (artifactDir @ ''/'')) (ps_Artifacts p)\<rparr>,
                rn_credentials := mdel i (rn_credentials r),
                rn_shutdown := filter (\<lambda>j. j \<noteq> i) (rn_shutdown r),
                rn_store := snd (removeEvents close_fails rm i (rn_store r))\<rparr>))"

fun drop_all :: "(string \<Rightarrow> bool \<times> removal) \<Rightarrow> string list \<Rightarrow> Runner \<Rightarrow> string list \<times> Runner" where
  "drop_all faults [] r = ([], r)"
| "drop_all faults (i # ids) r =
     (case dropAttemptLocked (fst (faults i)) (snd (faults i)) r i of (paths, r) \<Rightarrow>
        (case drop_all faults ids r of (others, r) \<Rightarrow> (paths @ others, r)))"

definition purgeAttemptsLocked :: "(string \<Rightarrow> bool \<times> removal) \<Rightarrow> Runner \<Rightarrow> time \<Rightarrow> nat \<times> string list \<times> Runner" where
  "purgeAttemptsLocked faults r now =
     (let ids = expired_ids r now in
      case drop_all faults ids r of (paths, r) \<Rightarrow> (length ids, paths, r))"

section \<open>What a pass takes\<close>

lemma over_cap_set:
  "set (over_cap over expired ids) \<subseteq> set expired \<union> set ids \<and> set expired \<subseteq> set (over_cap over expired ids) \<and>
   (distinct expired \<longrightarrow> distinct (over_cap over expired ids))"
  by (induction over expired ids rule: over_cap.induct) auto

text \<open>Enough are taken: either all candidates, or as many as are over the cap beside those expired before.\<close>

lemma over_cap_count:
  assumes "distinct expired" "distinct ids"
  shows "set ids \<subseteq> set (over_cap over expired ids) \<or> int (length expired) + over \<le> int (length (over_cap over expired ids))"
  using assms
proof (induction over expired ids rule: over_cap.induct)
  case (2 over expired i ids)
  show ?case
  proof (cases "over \<le> 0 \<or> i \<in> set expired")
    case True
    then show ?thesis using 2 over_cap_set [of over expired ids] by (auto simp: subset_iff)
  next
    case False
    then have "distinct (expired @ [i])" "distinct ids" using "2.prems" by auto
    from "2.IH"(2) [OF _ _ this] False over_cap_set [of "over - 1" "expired @ [i]" ids]
    show ?thesis by (auto simp: subset_iff)
  qed
qed simp

lemma expired_ids_props:
  assumes "wf_map (ps_Attempts (rn_state r))"
  shows "set (expired_ids r now) \<subseteq> fst ` set (candidates r)" "distinct (expired_ids r now)"
    "\<And>i a. (i, a) \<in> set (candidates r) \<Longrightarrow> out_of_window (rn_cfg r) now a \<Longrightarrow> i \<in> set (expired_ids r now)"
    "int (length (candidates r)) - int (length (expired_ids r now)) \<le> max 0 (cfg_MaxRetainedAttempts (rn_cfg r))"
proof -
  let ?c = "candidates r" and ?x = "map fst (filter (\<lambda>(_, a). out_of_window (rn_cfg r) now a) (candidates r))"
  let ?s = "map fst (sort_key (\<lambda>(_, a). seen_at a) (candidates r))"
  let ?over = "int (length ?c) - cfg_MaxRetainedAttempts (rn_cfg r)"
  have e: "expired_ids r now = over_cap ?over ?x ?s" by (simp add: expired_ids_def Let_def)
  have d: "distinct (map fst ?c)" using assms by (simp add: candidates_def wf_map_def distinct_map_filter)
  then have dx: "distinct ?x" by (rule distinct_map_filter)
  have ds: "distinct ?s" using d by (simp add: distinct_map)
  show "set (expired_ids r now) \<subseteq> fst ` set ?c" using over_cap_set [of ?over ?x ?s] unfolding e by auto
  show dd: "distinct (expired_ids r now)" using over_cap_set [of ?over ?x ?s] dx unfolding e by simp
  show "i \<in> set (expired_ids r now)" if "(i, a) \<in> set ?c" "out_of_window (rn_cfg r) now a" for i a
    using over_cap_set [of ?over ?x ?s] that unfolding e by force
  from over_cap_count [OF dx ds, of ?over]
  show "int (length ?c) - int (length (expired_ids r now)) \<le> max 0 (cfg_MaxRetainedAttempts (rn_cfg r))"
  proof
    assume "set ?s \<subseteq> set (over_cap ?over ?x ?s)"
    then have "card (fst ` set ?c) \<le> card (set (expired_ids r now))" unfolding e by (intro card_mono) auto
    then have "length ?c \<le> length (expired_ids r now)"
      using d dd by (simp add: distinct_card [symmetric] card_image distinct_map)
    then show ?thesis by simp
  qed (simp add: e)
qed

section \<open>What a pass leaves\<close>

lemma mget_drop_values: "mget t k = Some v \<Longrightarrow> \<not> P v \<Longrightarrow> mget (drop_values P t) k = Some v"
  by (induction t) (auto simp: drop_values_def mfilter_def mget_def split: if_splits)

lemma removeEvents_only: "only_attempt i s (snd (removeEvents f rm i s))"
proof -
  let ?t = "clearEventIndex i (snd (closeJournal f i s))" and ?p = "eventPath (ss_dir s) i"
  have t: "only_attempt i s ?t" by (simp add: only_attempt_def content_def)
  have out: "only_attempt i s (accountJournal p 0 ?t\<lparr>ss_files := mdel p (ss_files s)\<rparr>)" if "p = ?p" for p
    using that by (simp add: only_attempt_def content_def mgetd_def accountJournal_def positions_def clearEventIndex_def
        closeJournal_def split: option.split)
  show ?thesis
    using t out [OF refl] by (simp add: removeEvents_def split_beta Let_def)
qed

lemma mdel_absent: "mget t i = None \<Longrightarrow> mdel i t = t"
  by (simp add: mget_def mdel_def map_of_eq_None_iff)

lemma drop_one:
  assumes "dropAttemptLocked f rm r i = (paths, r')"
  shows "rn_cfg r' = rn_cfg r" "rn_running r' = rn_running r" "rn_permissions r' = rn_permissions r"
    "ps_Environments (rn_state r') = ps_Environments (rn_state r)"
    "ps_Attempts (rn_state r') = mdel i (ps_Attempts (rn_state r))"
    "j \<noteq> i \<Longrightarrow> mget (ps_Events (rn_state r')) j = mget (ps_Events (rn_state r)) j"
    "op_AttemptID v \<noteq> i \<Longrightarrow> mget (ps_Operations (rn_state r)) k = Some v \<Longrightarrow> mget (ps_Operations (rn_state r')) k = Some v"
    "only_attempt i (rn_store r) (rn_store r')"
    "j \<noteq> i \<Longrightarrow> mget (ps_Reservations (rn_state r)) k = Some j \<Longrightarrow> mget (ps_Reservations (rn_state r')) k = Some j"
    "j \<noteq> i \<Longrightarrow> mget (rn_credentials r') j = mget (rn_credentials r) j"
    "j \<noteq> i \<Longrightarrow> j \<in> set (rn_shutdown r') \<longleftrightarrow> j \<in> set (rn_shutdown r)"
proof -
  have "r' = r \<and> mget (ps_Attempts (rn_state r)) i = None \<or>
    rn_cfg r' = rn_cfg r \<and> rn_running r' = rn_running r \<and> rn_permissions r' = rn_permissions r \<and>
    ps_Environments (rn_state r') = ps_Environments (rn_state r) \<and>
    ps_Attempts (rn_state r') = mdel i (ps_Attempts (rn_state r)) \<and>
    ps_Events (rn_state r') = mdel i (ps_Events (rn_state r)) \<and>
    ps_Operations (rn_state r') = drop_values (\<lambda>op. op_AttemptID op = i) (ps_Operations (rn_state r)) \<and>
    ps_Reservations (rn_state r') = drop_values (\<lambda>v. v = i) (ps_Reservations (rn_state r)) \<and>
    rn_credentials r' = mdel i (rn_credentials r) \<and> rn_shutdown r' = filter (\<lambda>j. j \<noteq> i) (rn_shutdown r) \<and>
    rn_store r' = snd (removeEvents f rm i (rn_store r))"
    using assms by (cases "mget (ps_Attempts (rn_state r)) i") (auto simp: dropAttemptLocked_def Let_def)
  note r = this
  show "rn_cfg r' = rn_cfg r" "rn_running r' = rn_running r" "rn_permissions r' = rn_permissions r"
    "ps_Environments (rn_state r') = ps_Environments (rn_state r)"
    using r by (elim disjE; simp)+
  show "ps_Attempts (rn_state r') = mdel i (ps_Attempts (rn_state r))"
    using r by (elim disjE) (simp_all add: mdel_absent)
  show "mget (ps_Events (rn_state r')) j = mget (ps_Events (rn_state r)) j" if "j \<noteq> i"
    using r that by (elim disjE) simp_all
  show "mget (ps_Operations (rn_state r')) k = Some v" if "op_AttemptID v \<noteq> i" "mget (ps_Operations (rn_state r)) k = Some v"
    using r that by (elim disjE) (simp_all add: mget_drop_values)
  show "mget (ps_Reservations (rn_state r')) k = Some j" if "j \<noteq> i" "mget (ps_Reservations (rn_state r)) k = Some j"
    using r that by (elim disjE) (simp_all add: mget_drop_values)
  show "mget (rn_credentials r') j = mget (rn_credentials r) j" "j \<in> set (rn_shutdown r') \<longleftrightarrow> j \<in> set (rn_shutdown r)"
    if "j \<noteq> i"
    using r that by (elim disjE; simp)+
  show "only_attempt i (rn_store r) (rn_store r')"
    using r removeEvents_only [of i "rn_store r" f rm] by (elim disjE) (simp_all add: only_attempt_def)
qed

lemma drop_all_induct [consumes 1, case_names Nil Cons]:
  assumes "drop_all faults ids r = (paths, r')" and "\<And>r. P [] r r"
    and "\<And>i ids r paths r1 r'. dropAttemptLocked (fst (faults i)) (snd (faults i)) r i = (paths, r1) \<Longrightarrow>
      P ids r1 r' \<Longrightarrow> P (i # ids) r r'"
  shows "P ids r r'"
  using assms(1)
proof (induction ids arbitrary: r paths)
  case Nil
  then show ?case using assms(2) by simp
next
  case (Cons i ids)
  obtain p1 r1 where one: "dropAttemptLocked (fst (faults i)) (snd (faults i)) r i = (p1, r1)" by fastforce
  then obtain p2 where "drop_all faults ids r1 = (p2, r')" using Cons.prems by (auto split: prod.splits)
  from assms(3) [OF one Cons.IH [OF this]] show ?case .
qed

lemma drop_all_frame:
  assumes "drop_all faults ids r = (paths, r')"
  shows "rn_cfg r' = rn_cfg r \<and> rn_running r' = rn_running r \<and> rn_permissions r' = rn_permissions r \<and>
    ps_Environments (rn_state r') = ps_Environments (rn_state r) \<and> ss_dir (rn_store r') = ss_dir (rn_store r)"
  using assms by (induction rule: drop_all_induct) (auto dest: drop_one(1-4) drop_one(8) simp: only_attempt_def)

lemma drop_all_attempts:
  assumes "drop_all faults ids r = (paths, r')"
  shows "ps_Attempts (rn_state r') = filter (\<lambda>(i, _). i \<notin> set ids) (ps_Attempts (rn_state r))"
  using assms
proof (induction rule: drop_all_induct)
  case (Nil r)
  then show ?case by (simp add: split_def)
next
  case (Cons i ids r paths r1 r')
  show ?case unfolding Cons.IH drop_one(5) [OF Cons.hyps] mdel_def AList.delete_eq filter_filter
    by (intro filter_cong) auto
qed

text \<open>All that is kept of an attempt beside its record and its journal.\<close>

definition keeps_of :: "string \<Rightarrow> Runner \<Rightarrow> Runner \<Rightarrow> bool" where
  "keeps_of j r r' \<longleftrightarrow> hot r' j = hot r j \<and> mget (rn_credentials r') j = mget (rn_credentials r) j \<and>
     (j \<in> set (rn_shutdown r') \<longleftrightarrow> j \<in> set (rn_shutdown r)) \<and>
     (\<forall>k v. mget (ps_Operations (rn_state r)) k = Some v \<and> op_AttemptID v = j \<longrightarrow> mget (ps_Operations (rn_state r')) k = Some v) \<and>
     (\<forall>k. mget (ps_Reservations (rn_state r)) k = Some j \<longrightarrow> mget (ps_Reservations (rn_state r')) k = Some j)"

lemma drop_all_keeps:
  assumes "drop_all faults ids r = (paths, r')" "j \<notin> set ids"
  shows "keeps_of j r r'"
  using assms
proof (induction rule: drop_all_induct)
  case (Nil r)
  then show ?case by (simp add: keeps_of_def)
next
  case (Cons i ids r paths r1 r')
  then have ij: "j \<noteq> i" and IH: "keeps_of j r1 r'" by auto
  have "keeps_of j r r1"
    unfolding keeps_of_def
    using drop_one(6,10,11) [OF Cons.hyps(1) ij] drop_one(7,9) [OF Cons.hyps(1)] ij by (auto simp: hot_def mgetd_def)
  then show ?case using IH by (simp add: keeps_of_def)
qed

lemma drop_all_committed:
  assumes "drop_all faults ids r = (paths, r')" "j \<notin> set ids"
    "eventPath (ss_dir (rn_store r)) j \<notin> eventPath (ss_dir (rn_store r)) ` set ids"
  shows "committed enc (rn_store r') j es = committed enc (rn_store r) j es"
  using assms
proof (induction rule: drop_all_induct)
  case (Cons i ids r paths r1 r')
  note only = drop_one(8) [OF Cons.hyps]
  have dir: "ss_dir (rn_store r1) = ss_dir (rn_store r)" using only by (simp add: only_attempt_def)
  have "committed enc (rn_store r1) j es = committed enc (rn_store r) j es"
    using Cons.prems by (intro other_attempt(1) [OF only]) auto
  then show ?case using Cons.IH Cons.prems dir by simp
qed simp

lemma purge_props:
  assumes "wf_map (ps_Attempts (rn_state r))" "purgeAttemptsLocked faults r now = (n, paths, r')"
  obtains ids where "ids = expired_ids r now" "n = length ids" "drop_all faults ids r = (paths, r')" "distinct ids"
    "\<forall>i \<in> set ids. mget (ps_Attempts (rn_state r)) i \<noteq> None"
    "\<forall>i \<in> set ids. \<exists>a. mget (ps_Attempts (rn_state r)) i = Some a \<and> purgeableLocked r i a"
proof -
  let ?ids = "expired_ids r now"
  have drop: "drop_all faults ?ids r = (paths, r')" "n = length ?ids"
    using assms(2) by (auto simp: purgeAttemptsLocked_def Let_def split: prod.splits)
  have "\<exists>a. mget (ps_Attempts (rn_state r)) i = Some a \<and> purgeableLocked r i a" if "i \<in> set ?ids" for i
    using expired_ids_props(1) [OF assms(1), of now] that set_mget [OF assms(1)] by (fastforce simp: candidates_def)
  then show ?thesis using that [of ?ids] drop expired_ids_props(2) [OF assms(1)] by blast
qed

text \<open>C31: retention never touches an attempt the runner is not done with. While the attempt is in a phase it can leave
  by itself, has an execution, has a permission prompt waiting, has its cleanup running, owns the warm environment it was
  started in, or is owed a cleanup (eligible, not done, tried less than three times, with a directory), a pass leaves its
  record, cached events, operations, reservations, credential, shutdown mark and journal as they are.\<close>

theorem purge_keeps_live:
  assumes "wf_map (ps_Attempts (rn_state r))" "purgeAttemptsLocked faults r now = (n, paths, r')"
    and "own_files (ss_dir (rn_store r)) (fst ` set (ps_Attempts (rn_state r)))"
    and "mget (ps_Attempts (rn_state r)) i = Some a"
    and "rc_Phase (ar_Receipt a) \<notin> {PhaseCompleted, PhaseFailed, PhaseCancelled, PhaseNeedsInput} \<or>
      mget (rn_running r) i \<noteq> None \<or> mget (rn_permissions r) i \<noteq> None \<or> ar_cleanupRunning a \<or>
      mget (ps_Environments (rn_state r)) (sreq_EnvironmentID (ar_Start a)) = Some i \<or>
      rc_Phase (ar_Receipt a) \<noteq> PhaseNeedsInput \<and> ar_CleanupEligible a \<and> \<not> ar_CleanupDone a \<and> ar_CleanupAttempts a < 3 \<and>
        rc_Workdir (ar_Receipt a) \<noteq> []"
  shows "mget (ps_Attempts (rn_state r')) i = Some a \<and> keeps_of i r r' \<and>
    (committed enc (rn_store r') i es \<longleftrightarrow> committed enc (rn_store r) i es)"
proof -
  obtain ids where ids: "drop_all faults ids r = (paths, r')" "distinct ids"
    "\<forall>i \<in> set ids. mget (ps_Attempts (rn_state r)) i \<noteq> None"
    "\<forall>i \<in> set ids. \<exists>a. mget (ps_Attempts (rn_state r)) i = Some a \<and> purgeableLocked r i a"
    by (rule purge_props [OF assms(1,2)])
  have "\<not> purgeableLocked r i a"
    using assms(5) by (auto simp: purgeableLocked_def IsTerminal_def Let_def)
  then have i: "i \<notin> set ids" using ids(4) assms(4) by auto
  have "i \<in> fst ` set (ps_Attempts (rn_state r))" using mget_in_set [OF assms(4)] by force
  moreover have "set ids \<subseteq> fst ` set (ps_Attempts (rn_state r))"
    using ids(4) by (force dest: mget_in_set)
  ultimately have "eventPath (ss_dir (rn_store r)) i \<notin> eventPath (ss_dir (rn_store r)) ` set ids"
    using assms(3) i by (auto simp: own_files_def dest: inj_onD)
  moreover have "mget (ps_Attempts (rn_state r')) i = Some a"
    using drop_all_attempts [OF ids(1)] mget_filter [OF assms(1), of "\<lambda>i _. i \<notin> set ids" i] assms(4) i by (simp add: mfilter_def)
  ultimately show ?thesis
    using drop_all_keeps [OF ids(1) i] drop_all_committed [OF ids(1) i] by simp
qed

text \<open>After a pass no attempt the runner is done with is out of its window, and at most the configured
  number of them is left.\<close>

theorem purge_bounds:
  assumes "wf_map (ps_Attempts (rn_state r))" "purgeAttemptsLocked faults r now = (n, paths, r')"
  shows "int (length (candidates r')) \<le> max 0 (cfg_MaxRetainedAttempts (rn_cfg r)) \<and>
    (\<forall>(i, a) \<in> set (candidates r'). \<not> out_of_window (rn_cfg r) now a) \<and>
    length (candidates r) = n + length (candidates r')"
proof -
  obtain ids where ids: "ids = expired_ids r now" "n = length ids" "drop_all faults ids r = (paths, r')" "distinct ids"
    "\<forall>i \<in> set ids. mget (ps_Attempts (rn_state r)) i \<noteq> None"
    by (rule purge_props [OF assms])
  note d = drop_all_frame [OF ids(3)] drop_all_attempts [OF ids(3)]
  note x = expired_ids_props [OF assms(1), where now = now, folded ids(1)]
  have same: "purgeableLocked r' = purgeableLocked r" using d by (simp add: purgeableLocked_def fun_eq_iff)
  have c: "candidates r' = filter (\<lambda>(i, _). i \<notin> set ids) (candidates r)"
    using d by (auto simp: candidates_def same intro!: filter_cong)
  have dc: "distinct (map fst (candidates r))" using assms(1) by (simp add: candidates_def wf_map_def distinct_map_filter)
  have "length (candidates r) = length (filter (\<lambda>(i, _). i \<in> set ids) (candidates r)) + length (candidates r')"
    unfolding c using sum_length_filter_compl [of "\<lambda>(i, _). i \<in> set ids" "candidates r"] by (simp add: split_def)
  moreover have "length (filter (\<lambda>(i, _). i \<in> set ids) (candidates r)) = length ids"
  proof -
    let ?m = "map fst (filter (\<lambda>(i, _). i \<in> set ids) (candidates r))"
    have "set ?m = set ids" using x(1) by force
    moreover have "distinct ?m" using dc by (rule distinct_map_filter)
    ultimately have "length ?m = length ids" using ids(4) by (metis distinct_card)
    then show ?thesis by simp
  qed
  ultimately have n: "length (candidates r) = n + length (candidates r')" using ids(2) by simp
  moreover have "int (length (candidates r')) \<le> max 0 (cfg_MaxRetainedAttempts (rn_cfg r))"
    using x(4) n ids(2) by simp
  moreover have "\<forall>(i, a) \<in> set (candidates r'). \<not> out_of_window (rn_cfg r) now a"
    using x(3) unfolding c by auto
  ultimately show ?thesis by blast
qed

end
