(* ===== verification/RunnerWitnesses.thy ===== *)
theory RunnerWitnesses
  imports Witnesses BoundedKeys RateLimit Paths TriggerFilter Retry PowerLoss Retention
begin

text \<open>
  The properties of the hub's limiters, of the trigger filter, of the retry queue and of the runner
  applied at concrete inputs: a limiter with two clients, a delivery, a queue of two runs, and a runner
  whose cache holds one event while its journal holds two.
\<close>

section \<open>Limiters and filters\<close>

theorem BoundedKeys_refines_lru_witness:
  "lru (bk_Put (bk_Put (NewBoundedKeys 1 100) ''a'' (7 :: nat) 5) ''b'' 8 6) =
     [\<lparr>be_key = ''b'', be_val = 8, be_seen = 6\<rparr>] \<and>
   int (bk_Len (bk_Put (bk_Put (NewBoundedKeys 1 100) ''a'' (7 :: nat) 5) ''b'' 8 6)) \<le> 1"
proof -
  let ?b = "bk_Put (NewBoundedKeys 1 100) ''a'' (7 :: nat) 5"
  have "bk_wf (NewBoundedKeys 1 100 :: nat BoundedKeys)"
    by (simp add: bk_wf_def NewBoundedKeys_def)
  from BoundedKeys_refines_lru [OF this, where key = "''a''" and val = 7 and now = 5] have wf: "bk_wf ?b" by blast
  have b: "lru ?b = [\<lparr>be_key = ''a'', be_val = 7, be_seen = 5\<rparr>]" "bk_max ?b = 1" "sweeps 6 ?b = False" "bk_idle ?b = 100"
    by code_simp+
  from BoundedKeys_refines_lru [OF wf, where key = "''b''" and val = 8 and now = 6] b show ?thesis
    by (simp add: lru_insert_def lru_room_def)
qed

theorem limiter_is_per_client_witness:
  "limiter_run (newRateLimiter 100 2) [(''a'', 1), (''a'', 2), (''b'', 2), (''a'', 3), (''a'', 101)] =
     [True, True, True, False, True]"
proof -
  have "limiter_run (newRateLimiter 100 2) [(''a'', 1), (''a'', 2), (''b'', 2), (''a'', 3), (''a'', 101)] =
      buckets_run 100 2 Map.empty [(''a'', 1), (''a'', 2), (''b'', 2), (''a'', 3), (''a'', 101)]"
    by (rule limiter_is_per_client) (simp_all add: fits_def card_insert_if)
  also have "\<dots> = [True, True, True, False, True]" by code_simp
  finally show ?thesis .
qed

theorem limiter_rate_witness:
  "length (filter (\<lambda>((c, t :: int), ok). ok \<and> c = ''a'' \<and> 1 \<le> t \<and> t \<le> 101)
     (zip [(''a'', 1), (''a'', 2), (''a'', 3), (''a'', 101)]
       (limiter_run (newRateLimiter 100 2) [(''a'', 1), (''a'', 2), (''a'', 3), (''a'', 101)]))) \<le> 3"
  using limiter_rate [of 100 2 "[(''a'', 1), (''a'', 2), (''a'', 3), (''a'', 101)]" 1 101 "''a''"]
  by (simp add: fits_def del: limiter_run.simps)

theorem Allows_spec_witness:
  "\<not> snd (Allows (\<lambda>_. RawJSON (JObj [(''action'', JStr ''opened'')])) [(''action'', ''closed, merged'')] [] ''x'')"
proof -
  have "\<not> fk_Matched (filter_entry (Extract (\<lambda>_. RawJSON (JObj [(''action'', JStr ''opened'')])) [] ''x'') [] ''x''
      ''action'' (TrimSpace (mgetd [] [(''action'', ''closed, merged'')] ''action'')))"
    "TrimSpace (mgetd [] [(''action'', ''closed, merged'')] ''action'') \<noteq> []" "Known ''action''"
    by code_simp+
  then show ?thesis
    using Allows_spec [of "\<lambda>_. RawJSON (JObj [(''action'', JStr ''opened'')])" "[(''action'', ''closed, merged'')]" "[]" "''x''"]
    by simp
qed

section \<open>The retry queue\<close>

definition busy :: go_error where
  "busy = [RunnerError \<lparr>re_Code = ''busy'', re_Retryable = True, re_Message = ''slots'', re_Receipt = False\<rparr>]"

definition demo_task :: taskRun where
  "demo_task = \<lparr>tr_RunID = ''r'', tr_DeliveryKind = ''schedule'', tr_MaxAttempts = 2\<rparr>"

definition queued_run :: "string \<Rightarrow> time \<Rightarrow> Run" where
  "queued_run i at = (demo_run i RunPhasePending)\<lparr>run_RetryAt := Some at\<rparr>"

definition queue_store :: MemoryStore where
  "queue_store = demo_store\<lparr>runs := [(''o|w|r'', queued_run ''r'' 100), (''o|w|g'', queued_run ''g'' 500)]\<rparr>"

lemma queue_settled: "settled queue_store" by code_simp
lemma queue_wf: "wf_store queue_store" by code_simp
lemma queue_agent: "withAgent (resolve queue_store demo_scope) = None" by code_simp

theorem retryRun_hands_back_witness:
  "\<exists>q m'. retryRun (\<lambda>_. ''soon'') demo_store demo_scope demo_task busy 1000 = (Some q, m') \<and>
     1000 + Minute \<le> rqd_at q \<and> rqd_at q \<le> 1000 + 10 * Minute"
proof -
  let ?r = "retryRun (\<lambda>_. ''soon'') demo_store demo_scope demo_task busy 1000"
  obtain q m' where r: "?r = (Some q, m')"
  proof -
    have "fst ?r \<noteq> None" by code_simp
    then show thesis using that by (cases ?r) auto
  qed
  have row: "row_of demo_store demo_scope (tr_RunID demo_task) = Some (demo_run ''r'' RunPhasePending)"
    "run_ID (demo_run ''r'' RunPhasePending) = tr_RunID demo_task" "tr_RunID demo_task \<noteq> []"
    "run_AgentName (demo_run ''r'' RunPhasePending) = sc_AgentName (resolve demo_store demo_scope)"
    by code_simp+
  have "length (runs demo_store) \<le> 600000000" by (simp add: demo_store_def)
  from retryRun_hands_back [OF demo_settled demo_good(1) demo_agent(1) row(3,1,2,4) r this] r
  show ?thesis by blast
qed

theorem retries_exhausted_witness:
  "fst (refused_rounds (\<lambda>_. ''soon'') demo_scope demo_task busy [(1, 2), (3, 4), (5, 6), (7, 8)] demo_store) = 2"
proof -
  have row: "row_of demo_store demo_scope (tr_RunID demo_task) = Some (demo_run ''r'' RunPhasePending)"
    "run_ID (demo_run ''r'' RunPhasePending) = tr_RunID demo_task" "tr_RunID demo_task \<noteq> []"
    "tr_DeliveryKind demo_task \<in> set UnattendedKinds" "retryableRefusal busy \<noteq> None"
    "may_claim [] (demo_run ''r'' RunPhasePending)"
    "max_attempts demo_task - run_Retries (demo_run ''r'' RunPhasePending) = 2"
    by code_simp+
  from retries_exhausted [OF demo_settled demo_good(1) demo_agent(1) row(3,1,2,4,5,6), where ts = "[(1, 2), (3, 4), (5, 6), (7, 8)]"] row(7)
  show ?thesis by (simp del: refused_rounds.simps)
qed

theorem wakeNextQueued_one_witness:
  "mget (runs (wakeNextQueued queue_store demo_scope ''a'' 300)) ''o|w|g'' = Some (woken 300 (queued_run ''g'' 500)) \<and>
   mget (runs (wakeNextQueued queue_store demo_scope ''a'' 300)) ''o|w|r'' = Some (queued_run ''r'' 100)"
proof -
  have same: "demo_scope\<lparr>sc_AgentName := ''a''\<rparr> = demo_scope" by (simp add: demo_scope_def zero_Scope_def)
  have "filed queue_store (resolve queue_store demo_scope)" by code_simp
  moreover have f: "find (wakes_later 300) (queue_rows queue_store (resolve queue_store demo_scope)) = Some (queued_run ''g'' 500)"
    "rowKey (resolve queue_store demo_scope) (run_ID (queued_run ''g'' 500)) = ''o|w|g''"
    "mget (runs queue_store) ''o|w|r'' = Some (queued_run ''r'' 100)"
    by code_simp+
  note wake = wakeNextQueued_one [where m = queue_store and s = demo_scope and a = "''a''" and now = 300,
      OF queue_settled queue_wf, unfolded same, OF demo_good(1) queue_agent _ refl refl]
  ultimately have w: "mget (runs (wakeNextQueued queue_store demo_scope ''a'' 300)) ''o|w|g'' = Some (woken 300 (queued_run ''g'' 500))"
    "\<forall>k. k = ''o|w|g'' \<or> mget (runs (wakeNextQueued queue_store demo_scope ''a'' 300)) k = mget (runs queue_store) k"
    using wake f by auto
  from w(2) [THEN spec, of "''o|w|r''"] w(1) f(3) show ?thesis by simp
qed

section \<open>A log\<close>

definition log_event :: "nat \<Rightarrow> Event" where
  "log_event n = \<lparr>ev_Cursor = n, ev_Timestamp = 5, ev_AttemptEpoch = 1, ev_Type = ''progress'', ev_Message = [], ev_Data = []\<rparr>"

definition log_events :: "Event set" where
  "log_events = {log_event 1, log_event 2}"

definition log_enc :: "Event \<Rightarrow> string option" where
  "log_enc e = Some ((if ev_Cursor e = 1 then ''1'' else ''2'') @ [newline])"

definition log_dec :: "string \<Rightarrow> decoded" where
  "log_dec s = (let t = dropWhile (\<lambda>c. c = newline) s; n = length s - length t in
     case t of [] \<Rightarrow> AtEOF | c # _ \<Rightarrow> Decoded (log_event (if c = CHR ''1'' then 1 else 2)) (n + 1))"

lemma log_codec: "codec_on log_enc log_dec id log_events"
  by (auto simp: codec_on_def codec_def log_enc_def log_dec_def log_events_def log_event_def)

definition log_cfg :: runnerConfig where
  "log_cfg = \<lparr>cfg_StateDir = ''/s'', cfg_Toolchains = [], cfg_Environment = [], cfg_MaximumCapacity = 1, cfg_MaxEvents = 1,
     cfg_MaxEventBytes = 10, cfg_MaxArtifactSize = 100, cfg_AttemptRetentionHours = 1, cfg_ParkedAttemptRetentionHours = 1,
     cfg_MaxRetainedAttempts = 1, cfg_Resources = []\<rparr>"

definition log_caps :: Capabilities where
  "log_caps = \<lparr>cap_Harnesses = [\<lparr>hc_Name = ''codex'', hc_Version = ''1'', hc_Ready = True\<rparr>], cap_Verification = [],
     cap_Ready = True, cap_Reasons = []\<rparr>"

definition log_request :: StartRequest where
  "log_request = \<lparr>sreq_ProtocolVersion = ProtocolVersion, sreq_RequestID = ''q'', sreq_TaskID = ''t'', sreq_AttemptID = ''a'',
     sreq_AttemptEpoch = 1, sreq_RepositoryID = [], sreq_EnvironmentID = [], sreq_BaseCommit = [], sreq_WorkspaceID = ''w'',
     sreq_SessionID = [], sreq_HarnessCredential = None, sreq_Instructions = ''go'', sreq_Model = [], sreq_ReasoningEffort = [],
     sreq_ApprovedInput = ''p'', sreq_RequiredCapabilities = [], sreq_RequiredToolchains = [], sreq_RequiredEnvironment = [],
     sreq_RequiredHarness = [], sreq_RequiredHarnessVersion = [], sreq_AskPermission = True, sreq_ExportGitResult = False,
     sreq_CommitMessage = [], sreq_Limits = \<lparr>lim_MaxDurationSeconds = 0, lim_MaxOutputBytes = 0, lim_MaxTurns = 1\<rparr>,
     sreq_VerificationNames = [], sreq_VerificationCommands = [], sreq_Resources = [], sreq_Artifacts = [],
     sreq_InputFiles = [], sreq_Repository = None\<rparr>"

definition log_receipt :: AttemptReceipt where
  "log_receipt = \<lparr>rc_ProtocolVersion = ProtocolVersion, rc_TaskID = ''t'', rc_AttemptID = ''a'', rc_AttemptEpoch = 1,
     rc_Phase = ''running'', rc_SessionID = [], rc_Workdir = [], rc_Cursor = 0, rc_Blocker = [], rc_Clarification = None,
     rc_Permission = None, rc_Resources = [], rc_LastError = None, rc_Artifacts = [], rc_AcceptedAt = 1, rc_UpdatedAt = 1\<rparr>"

definition log_record :: attemptRecord where
  "log_record = \<lparr>ar_EventJournalBytes = 0, ar_CleanupDelegated = False, ar_CleanupEligible = False, ar_CleanupAttempts = 0,
     ar_CleanupError = [], ar_CleanupDone = False, ar_cleanupRunning = False, ar_Receipt = log_receipt, ar_Start = log_request,
     ar_Fingerprint = [], ar_Resources = [], ar_ArtifactSpecs = [], ar_CancelPending = False, ar_OutputBytes = 0,
     ar_LimitExceeded = False\<rparr>"

definition no_state :: persistedState where
  "no_state = \<lparr>ps_Attempts = [], ps_Events = [], ps_Operations = [], ps_Artifacts = [], ps_Reservations = [], ps_Environments = []\<rparr>"

definition log_start :: Runner where
  "log_start = set_record ''a'' log_record (snd (restart id (\<lambda>_. False) log_caps log_cfg [] no_state))"

definition log_append :: "Runner \<Rightarrow> (journal_error + Event) \<times> Runner" where
  "log_append r = appendEventLocked log_enc NoFault 5 r ''a'' ''progress'' [] []"

lemmas log_defs = log_start_def log_append_def log_record_def log_receipt_def log_request_def log_cfg_def no_state_def set_record_def restart_def
  loadJournalUsage_def newStateStore_def pruneJournals_def appendEventLocked_def hot_def mget_def mgetd_def mput_def

lemma log_started:
  "log_run log_enc log_dec id log_events {''a''} log_start no_state (\<lambda>_. []) (\<lambda>_. [])"
proof -
  have "log_run log_enc log_dec id log_events {''a''} (snd (restart id (\<lambda>_. False) log_caps log_cfg [] no_state)) no_state
      (\<lambda>_. []) (\<lambda>_. [])"
    by (rule log_run.boot [where cfg = log_cfg and files = "[]"]) (simp_all add: log_defs)
  from log_run.accept [OF this, of "''a''" log_record] show ?thesis by (simp add: log_defs)
qed

lemmas append_defs = next_event_def appendEvent_def log_enc_def log_event_def boundedMessage_def maxMessageBytes_def
  open_writer_def closeJournal_def control_event_def maxJournalBytes_def maxTotalJournalBytes_def accountJournal_def
  write_event_def write_at_def mdel_def indexEvent_def trim_hot_def Search.simps Let_def

definition log_one :: Runner where "log_one = snd (log_append log_start)"
definition log_two :: Runner where "log_two = snd (log_append log_one)"

lemma log_first: "log_append log_start = (Inr (log_event 1), log_one)"
proof -
  have "fst (log_append log_start) = Inr (log_event 1)" by (simp add: log_defs append_defs)
  then show ?thesis by (simp add: log_one_def prod_eq_iff)
qed

lemma log_second: "log_append log_one = (Inr (log_event 2), log_two)"
proof -
  have "fst (log_append log_one) = Inr (log_event 2)" by (simp add: log_one_def log_defs append_defs)
  then show ?thesis by (simp add: log_two_def prod_eq_iff)
qed

lemma log_ran:
  "log_run log_enc log_dec id log_events {''a''} log_two no_state ((\<lambda>_. [])(''a'' := [log_event 1, log_event 2])) (\<lambda>_. [])"
proof -
  have "log_run log_enc log_dec id log_events {''a''} log_one no_state ((\<lambda>_. [])(''a'' := [log_event 1])) (\<lambda>_. [])"
    using log_run.append_event [OF log_started _ log_first [unfolded log_append_def]] by (simp add: log_events_def)
  from log_run.append_event [OF this _ log_second [unfolded log_append_def]] show ?thesis by (simp add: log_events_def)
qed

lemma one_file: "own_files dir {i}"
  by (simp add: own_files_def)

theorem event_log_followed_witness:
  "hot log_two ''a'' = [log_event 2] \<and>
   follow log_dec (\<lambda>_. 1) ''a'' 2 log_two 0 = [log_event 1, log_event 2]"
proof -
  have "hot log_two ''a'' = [log_event 2]"
    by (simp add: log_two_def log_one_def log_defs append_defs)
  moreover have "map id (follow log_dec (\<lambda>_. 1) ''a'' 2 log_two 0) = filter (\<lambda>e. 0 < ev_Cursor e) [log_event 1, log_event 2]"
    using event_log_followed [OF log_ran log_codec one_file, where i = "''a''" and after = 0 and frame = "\<lambda>_. 1"]
    by (simp add: log_event_def numeral_2_eq_2)
  ultimately show ?thesis by (simp add: log_event_def)
qed

text \<open>The first event is saved, the second is not yet; the power loss leaves a wrong byte behind the first.\<close>

definition log_persist :: "Runner \<Rightarrow> bool \<times> persistedState option \<times> Runner" where
  "log_persist r = persistLocked (\<lambda>_. False) (\<lambda>_. False) NoSaveFault r"

definition log_file :: persistedState where "log_file = the (fst (snd (log_persist log_one)))"
definition log_saved :: Runner where "log_saved = snd (snd (log_persist log_one))"
definition log_more :: Runner where "log_more = snd (log_append log_saved)"
definition log_disk :: "string gomap" where "log_disk = [(eventPath ''/s'' ''a'', ''1'' @ [newline] @ ''x'')]"
definition log_again :: Runner where "log_again = snd (restart id (\<lambda>_. False) log_caps log_cfg log_disk log_file)"

lemmas persist_defs = log_persist_def persistLocked_def save_def syncJournals_def saved_events_def idle_def IsTerminal_def closeJournal_def

lemma log_persisted: "log_persist log_one = (True, Some log_file, log_saved)"
proof -
  have "fst (log_persist log_one) \<and> fst (snd (log_persist log_one)) \<noteq> None"
    by (simp add: log_one_def log_defs append_defs persist_defs)
  then show ?thesis by (simp add: log_file_def log_saved_def prod_eq_iff)
qed

lemma log_third: "log_append log_saved = (Inr (log_event 2), log_more)"
proof -
  have "fst (log_append log_saved) = Inr (log_event 2)" by (simp add: log_saved_def log_one_def log_defs append_defs persist_defs)
  then show ?thesis by (simp add: log_more_def prod_eq_iff)
qed

text \<open>What \<open>power_run\<close> keeps of the disk beside it.\<close>

definition log_synced :: "string \<Rightarrow> nat" where
  "log_synced = (let F = (\<lambda>_. 0)(''a'' := after_write log_start ''a'' 0); G = after_sync (\<lambda>_. False) (rn_store log_one) F
     in G(''a'' := after_write log_saved ''a'' (G ''a'')))"

lemma log_powered: "power_run log_enc log_dec id log_events {''a''} log_more log_file log_synced"
proof -
  have "power_run log_enc log_dec id log_events {''a''} (snd (restart id (\<lambda>_. False) log_caps log_cfg [] no_state)) no_state (\<lambda>_. 0)"
    by (rule power_run.boot [where cfg = log_cfg and files = "[]"]) (simp_all add: log_defs)
  from power_run.accept [OF this, of "''a''" log_record]
  have "power_run log_enc log_dec id log_events {''a''} log_start no_state (\<lambda>_. 0)" by (simp add: log_defs)
  from power_run.append_event [OF this _ log_first [unfolded log_append_def]]
  have "power_run log_enc log_dec id log_events {''a''} log_one no_state ((\<lambda>_. 0)(''a'' := after_write log_start ''a'' 0))"
    by (simp add: log_events_def)
  from power_run.append_event [OF power_run.persist [OF this log_persisted [unfolded log_persist_def]] _ log_third [unfolded log_append_def]]
  show ?thesis by (simp add: log_events_def log_synced_def Let_def)
qed

lemmas disk_defs = log_more_def log_saved_def log_file_def log_one_def log_defs append_defs persist_defs

theorem event_log_durable_witness:
  "map ev_Cursor (follow log_dec (\<lambda>_. 1) ''a'' 2 log_more 0) = [1, 2] \<and>
   map ev_Cursor (follow log_dec (\<lambda>_. 1) ''a'' 2 log_again 0) = [1]"
proof -
  obtain a where a: "mget (ps_Attempts log_file) ''a'' = Some a" "0 < ar_EventJournalBytes a" "rc_Cursor (ar_Receipt a) = 1"
    by (simp add: disk_defs)
  obtain b where b: "mget (ps_Attempts (rn_state log_more)) ''a'' = Some b" "rc_Cursor (ar_Receipt b) = 2"
    by (simp add: disk_defs)
  have synced: "log_synced ''a'' = 2"
    by (simp add: log_synced_def after_write_def after_sync_def unsynced_def content_def disk_defs)
  have disk: "on_disk {''a''} (rn_store log_more) log_synced log_disk"
    by (simp add: on_disk_def synced content_def log_disk_def disk_defs)
  have cfg: "rn_cfg log_more = log_cfg" by (simp add: disk_defs)
  have again: "restart id (\<lambda>_. False) log_caps (rn_cfg log_more) log_disk log_file = (True, log_again)"
    unfolding cfg log_again_def by (rule restart_up)
  from event_log_durable [OF log_powered log_codec one_file _ a(1,2) _ b(1) _ disk again, of 0 2 "\<lambda>_. 1"] a(3) b(2)
  have "map ev_Cursor (follow log_dec (\<lambda>_. 1) ''a'' 2 log_more 0) = [1, 2]"
    "follow log_dec (\<lambda>_. 1) ''a'' 2 log_again 0 = filter (\<lambda>e. ev_Cursor e \<le> 1) (follow log_dec (\<lambda>_. 1) ''a'' 2 log_more 0)"
    by (simp_all add: upt_rec)
  moreover have "map ev_Cursor (filter (\<lambda>e. ev_Cursor e \<le> 1) es) = filter (\<lambda>c. c \<le> 1) (map ev_Cursor es)" for es :: "Event list"
    by (simp add: filter_map o_def)
  ultimately show ?thesis by simp
qed

text \<open>The write of the second event fails while the first is not synced, and the disk keeps nothing.\<close>

definition log_broken :: Runner where
  "log_broken = snd (appendEventLocked log_enc (WriteFault 0) 5 log_one ''a'' ''progress'' [] [])"

theorem failed_write_loses_committed_witness:
  "\<exists>c. mget (ps_Attempts (the (fst (snd (log_persist log_broken))))) ''a'' = Some c \<and> ar_EventJournalBytes c = 2"
proof -
  let ?res = "fst (appendEventLocked log_enc (WriteFault 0) 5 log_one ''a'' ''progress'' [] [])"
  obtain w a where w: "mget (ss_journals (rn_store log_one)) ''a'' = Some w" "mget (ps_Attempts (rn_state log_one)) ''a'' = Some a"
    "jw_end w = ar_EventJournalBytes a" "ar_EventJournalBytes a = 2"
    by (simp add: disk_defs)
  have broken: "appendEventLocked log_enc (WriteFault 0) 5 log_one ''a'' ''progress'' [] [] = (?res, log_broken)" by (simp add: log_broken_def)
  obtain p r2 where p: "log_persist log_broken = (True, Some p, r2)"
    by (simp add: log_broken_def disk_defs)
  have F: "after_sync (\<lambda>_. False) (rn_store log_broken) (\<lambda>_. 0) ''a'' = 0"
    by (simp add: after_sync_def unsynced_def log_broken_def disk_defs)
  have cfg: "rn_cfg log_one = log_cfg" by (simp add: disk_defs)
  from failed_write_loses_committed [OF w(1-3), of "\<lambda>_. 0", OF _ log_second [unfolded log_append_def] broken p [unfolded log_persist_def]
      _ restart_up, where files = "[]" and fault = NoFault and later = 6 and typ' = "''progress''" and message' = "[]" and data' = "[]"]
  show ?thesis using w(4) F p by (simp add: mgetd_def)
qed

theorem journals_within_limits_witness:
  "sum_list (map snd (ss_journalSizes (rn_store log_two))) \<le> maxTotalJournalBytes"
proof -
  have "log_run log_enc log_dec id log_events {''a''} log_one no_state ((\<lambda>_. [])(''a'' := [log_event 1])) (\<lambda>_. [])"
    using log_run.append_event [OF log_started _ log_first [unfolded log_append_def]] by (simp add: log_events_def)
  from journals_within_limits [OF this log_codec one_file _ log_second [unfolded log_append_def]] show ?thesis
    by (simp add: control_event_def log_event_def)
qed

section \<open>Retention\<close>

definition aged :: "time \<Rightarrow> attemptRecord" where
  "aged t = log_record\<lparr>ar_Receipt := (ar_Receipt log_record)\<lparr>rc_Phase := ''completed'', rc_UpdatedAt := t\<rparr>\<rparr>"

definition purged_runner :: Runner where
  "purged_runner = log_start\<lparr>rn_running := [(''a'', False)],
     rn_state := no_state\<lparr>ps_Attempts := [(''a'', log_record), (''b'', aged 1), (''c'', aged 2), (''d'', aged 3)]\<rparr>\<rparr>"

abbreviation no_faults :: "string \<Rightarrow> bool \<times> removal" where "no_faults \<equiv> \<lambda>_. (False, Removed)"

theorem purge_bounds_witness:
  "length (candidates (snd (snd (purgeAttemptsLocked no_faults purged_runner 10)))) \<le> 1 \<and>
   candidates purged_runner = [(''b'', aged 1), (''c'', aged 2), (''d'', aged 3)]"
proof -
  have wf: "wf_map (ps_Attempts (rn_state purged_runner))" and cfg: "rn_cfg purged_runner = log_cfg"
    by (simp_all add: purged_runner_def wf_map_def log_defs)
  obtain n paths r' where p: "purgeAttemptsLocked no_faults purged_runner 10 = (n, paths, r')" by (metis prod_cases3)
  have "candidates purged_runner = [(''b'', aged 1), (''c'', aged 2), (''d'', aged 3)]"
    by (simp add: candidates_def purged_runner_def purgeableLocked_def aged_def log_defs IsTerminal_def Let_def)
  with purge_bounds [OF wf p] show ?thesis by (simp add: p cfg log_cfg_def)
qed

theorem purge_keeps_live_witness:
  "let r = log_two\<lparr>rn_running := [(''a'', False)]\<rparr> in
   hot (snd (snd (purgeAttemptsLocked no_faults r (9 * Hour)))) ''a'' = [log_event 2]"
proof -
  let ?r = "log_two\<lparr>rn_running := [(''a'', False)]\<rparr>"
  have two: "hot ?r ''a'' = [log_event 2]" "map fst (ps_Attempts (rn_state ?r)) = [''a'']"
    "mget (ps_Attempts (rn_state ?r)) ''a'' \<noteq> None"
    by (simp_all add: log_two_def log_one_def log_defs append_defs)
  have wf: "wf_map (ps_Attempts (rn_state ?r))" using two(2) by (simp add: wf_map_def)
  have "fst ` set (ps_Attempts (rn_state ?r)) = {''a''}" using two(2) by (metis list.set_map list.simps(15) empty_set)
  then have own: "own_files (ss_dir (rn_store ?r)) (fst ` set (ps_Attempts (rn_state ?r)))" by (simp only: one_file)
  obtain n paths r' where p: "purgeAttemptsLocked no_faults ?r (9 * Hour) = (n, paths, r')" by (metis prod_cases3)
  obtain a where a: "mget (ps_Attempts (rn_state ?r)) ''a'' = Some a" using two(3) by blast
  have "mget (rn_running ?r) ''a'' \<noteq> None" by (simp add: mget_def)
  from purge_keeps_live [OF wf p own a] this p two(1) show ?thesis by (simp add: Let_def keeps_of_def)
qed

section \<open>Where the code does something else\<close>

definition crowded_runner :: Runner where
  "crowded_runner = purged_runner\<lparr>rn_cfg := log_cfg\<lparr>cfg_MaxRetainedAttempts := 2\<rparr>,
     rn_state := no_state\<lparr>ps_Attempts := [(''b'', aged 1), (''c'', aged (2 * Hour)), (''d'', aged (2 * Hour + 1))]\<rparr>\<rparr>"

text \<open>An attempt that is out of its window counts towards the excess over the cap although it goes anyway, so
  an attempt inside its window goes with it, and fewer are left than the cap allows.\<close>

theorem purge_drops_too_many:
  "expired_ids crowded_runner (2 * Hour + 2) = [''b'', ''c''] \<and>
   \<not> out_of_window (rn_cfg crowded_runner) (2 * Hour + 2) (aged (2 * Hour)) \<and>
   length (candidates crowded_runner) - 1 = nat (cfg_MaxRetainedAttempts (rn_cfg crowded_runner))"
proof -
  have w: "out_of_window (rn_cfg crowded_runner) (2 * Hour + 2) (aged t) \<longleftrightarrow> t < Hour" if "t \<in> {1, 2 * Hour, 2 * Hour + 1}" for t
    using that by (auto simp: out_of_window_def seen_at_def aged_def crowded_runner_def log_cfg_def log_record_def
        IsTerminal_def Sub_def i64_def Let_def)
  have c: "candidates crowded_runner = [(''b'', aged 1), (''c'', aged (2 * Hour)), (''d'', aged (2 * Hour + 1))]"
    by (simp add: candidates_def crowded_runner_def purged_runner_def purgeableLocked_def aged_def log_defs IsTerminal_def Let_def)
  have s: "seen_at (aged t) = t" if "0 < t" for t
    using that by (simp add: seen_at_def aged_def)
  show ?thesis
    using w [of 1] w [of "2 * Hour"] w [of "2 * Hour + 1"]
    by (simp add: expired_ids_def c s Let_def) (simp add: crowded_runner_def)
qed

text \<open>A header filter compares without regard to case, although it is documented as an exact match.\<close>

theorem header_filter_ignores_case:
  "snd (Allows (\<lambda>_. RawInvalid []) [(''header.X-Team'', ''Core'')] [(''X-Team'', [''CORE''])] [])"
  by code_simp

end
