(* ===== verification/StudioTypes.thy ===== *)
theory StudioTypes
  imports Cursors
begin

text \<open>
  The rows of the App Studio store (\<open>providers/app-studio/store/store.go\<close>, \<open>thread.go\<close>,
  \<open>claims.go\<close>, \<open>assistant_review_mode.go\<close>) and the functions that prepare and validate them. String-typed
  enumerations are strings, with their constants as abbreviations, since the code checks them at run time.
  A \<open>json.RawMessage\<close> is \<open>None\<close> when it has no bytes, else the document its bytes hold in the compact
  spelling. \<open>time.Now\<close> is the argument \<open>now\<close>; \<open>UTC()\<close> and the copies that protect a caller's buffer
  are the identity.
\<close>

section \<open>Errors\<close>

datatype studio_error =
    ErrAssistantThreadNotFound
  | ErrAssistantThreadConflict
  | ErrAssistantThreadActive
  | ErrAssistantTurnNotFound
  | ErrAssistantTurnConflict
  | ErrAssistantThreadEventConflict
  | ErrAssistantRunNotFound
  | ErrAssistantRunConflict
  | ErrAssistantRunEventConflict
  | ErrAssistantConversationItemConflict
  | ErrAssistantApprovalModeInvalid
  | ErrProjectBootstrapPermitConflict
  | ErrAttachmentNotFound
  | ErrAttachmentConflict
  | ErrAttachmentForbidden
  | ErrAttachmentImmutable
  | ErrAttachmentReceiptMismatch
  | ErrAttachmentQuotaExceeded
  | ErrAttachmentProjectDeleted
  | ErrProjectThumbnailNotFound
  | AttachmentPolicy store_error  \<comment> \<open>an error of the SDK's attachment checks\<close>
  | StudioErrorf string
  | NilMapPanic  \<comment> \<open>assignment to an entry of a nil map\<close>

type_synonym 'a outcome = "studio_error + 'a"

section \<open>Scope\<close>

record StudioScope =
  sp_OrgUUID :: string
  sp_WorkspaceUUID :: string
  sp_ProjectName :: string
  sp_ProjectUID :: string

definition StudioScope_validate :: "StudioScope \<Rightarrow> studio_error option" where
  "StudioScope_validate s =
     (if blank (sp_OrgUUID s) \<or> blank (sp_WorkspaceUUID s) \<or> blank (sp_ProjectName s) \<or> blank (sp_ProjectUID s)
      then Some (StudioErrorf ''scope is incomplete'') else None)"

section \<open>Messages, runs and their events\<close>

record StudioMessage =
  smsg_ID :: string
  smsg_ProjectName :: string
  smsg_ProjectUID :: string
  smsg_ActorID :: string
  smsg_Role :: string
  smsg_Content :: string
  smsg_ContentEncrypted :: bool
  smsg_ContentKeyID :: string
  smsg_Metadata :: "jval gomap"
  smsg_CreatedAt :: time
  smsg_UpdatedAt :: time

definition prepareMessage :: "time \<Rightarrow> StudioScope \<Rightarrow> StudioMessage \<Rightarrow> StudioMessage" where
  "prepareMessage now scope msg =
     (let created = (if IsZero (smsg_CreatedAt msg) then now else smsg_CreatedAt msg) in
      msg\<lparr>smsg_ProjectName := sp_ProjectName scope, smsg_ProjectUID := sp_ProjectUID scope, smsg_CreatedAt := created,
          smsg_UpdatedAt := (if IsZero (smsg_UpdatedAt msg) then created else smsg_UpdatedAt msg)\<rparr>)"

abbreviation RunPendingPermission :: string where "RunPendingPermission \<equiv> ''pending_permission''"
abbreviation RunPendingInput :: string where "RunPendingInput \<equiv> ''pending_input''"
abbreviation RunRunning :: string where "RunRunning \<equiv> ''running''"
abbreviation RunStopping :: string where "RunStopping \<equiv> ''stopping''"

definition assistantRunStatusTerminal :: "string \<Rightarrow> bool" where
  "assistantRunStatusTerminal status \<longleftrightarrow> status \<in> {''completed'', ''failed'', ''interrupted'', ''aborted''}"

definition assistantRunStatusWaitsForInput :: "string \<Rightarrow> bool" where
  "assistantRunStatusWaitsForInput status \<longleftrightarrow> status \<in> {RunPendingPermission, RunPendingInput}"

definition assistantRunModeValid :: "string \<Rightarrow> bool" where
  "assistantRunModeValid mode \<longleftrightarrow> mode \<in> {''default'', ''plan'', ''review''}"

definition NormalizeAssistantApprovalMode :: "string \<Rightarrow> string outcome" where
  "NormalizeAssistantApprovalMode mode =
     (let mode = ToLower (TrimSpace mode) in
      if mode = [] then Inr ''on_request''
      else if mode \<in> {''on_request'', ''always_ask'', ''never'', ''auto_approve''} then Inr mode
      else Inl ErrAssistantApprovalModeInvalid)"

record AssistantRun =
  arun_ID :: string
  arun_ThreadID :: string
  arun_ProjectName :: string
  arun_ProjectUID :: string
  arun_Mode :: string
  arun_ApprovalMode :: string
  arun_Status :: string
  arun_ClientRequestID :: string
  arun_UserMessageID :: string
  arun_ActiveMessageID :: string
  arun_Revision :: int
  arun_RequestID :: string
  arun_Checkpoint :: "raw_json option"
  arun_Audit :: "raw_json option"
  arun_Error :: "raw_json option"
  arun_AbortReason :: string
  arun_CreatedAt :: time
  arun_UpdatedAt :: time

text \<open>The normalised mode of an invalid one is the empty string.\<close>

definition prepareAssistantRun :: "time \<Rightarrow> StudioScope \<Rightarrow> AssistantRun \<Rightarrow> AssistantRun" where
  "prepareAssistantRun now scope run =
     (let created = (if IsZero (arun_CreatedAt run) then now else arun_CreatedAt run) in
      run\<lparr>arun_ProjectName := sp_ProjectName scope, arun_ProjectUID := sp_ProjectUID scope,
          arun_ApprovalMode := (case NormalizeAssistantApprovalMode (arun_ApprovalMode run) of Inr m \<Rightarrow> m | Inl _ \<Rightarrow> []),
          arun_CreatedAt := created,
          arun_UpdatedAt := (if IsZero (arun_UpdatedAt run) then created else arun_UpdatedAt run)\<rparr>)"

definition json_Valid :: "raw_json \<Rightarrow> bool" where
  "json_Valid j \<longleftrightarrow> (case j of RawJSON _ \<Rightarrow> True | RawInvalid _ \<Rightarrow> False)"

definition validateAssistantRunMode :: "AssistantRun \<Rightarrow> studio_error option" where
  "validateAssistantRunMode run =
     (if assistantRunModeValid (arun_Mode run) then None
      else Some (StudioErrorf ''assistant run mode must be default, plan, or review''))"

definition validateAssistantRun :: "AssistantRun \<Rightarrow> studio_error option" where
  "validateAssistantRun run =
     (if arun_ID run = [] \<or> arun_Status run = [] then Some (StudioErrorf ''assistant run id and status are required'')
      else case NormalizeAssistantApprovalMode (arun_ApprovalMode run) of Inl e \<Rightarrow> Some e
      | Inr _ \<Rightarrow>
          if arun_Status run \<notin> {RunPendingPermission, RunPendingInput, RunRunning, RunStopping,
               ''completed'', ''failed'', ''interrupted'', ''aborted''}
          then Some (StudioErrorf ''invalid assistant run status'')
          else if (case arun_Error run of None \<Rightarrow> False | Some j \<Rightarrow> \<not> json_Valid j)
          then Some (StudioErrorf ''assistant run error must be valid json'')
          else if arun_AbortReason run \<notin> {[], ''interrupted'', ''replaced'', ''budget_limited'', ''iteration_limited''}
          then Some (StudioErrorf ''invalid assistant run abort reason'')
          else validateAssistantRunMode run)"

definition validateNewAssistantRun :: "StudioMessage \<Rightarrow> StudioMessage \<Rightarrow> AssistantRun \<Rightarrow> studio_error option" where
  "validateNewAssistantRun user assistant run =
     (case validateAssistantRun run of Some e \<Rightarrow> Some e
      | None \<Rightarrow>
          if smsg_ID user = [] \<or> smsg_ID assistant = [] \<or> smsg_ID user = smsg_ID assistant
          then Some (StudioErrorf ''distinct user and assistant message ids are required'')
          else if smsg_Role user \<noteq> ''user'' \<or> blank (smsg_ActorID user)
          then Some (StudioErrorf ''user message role and actor are required'')
          else if smsg_Role assistant \<noteq> ''assistant'' then Some (StudioErrorf ''assistant message role is required'')
          else if arun_ClientRequestID run = [] \<or> arun_ActiveMessageID run = [] \<or>
            arun_UserMessageID run \<noteq> smsg_ID user \<or> arun_ActiveMessageID run \<noteq> smsg_ID assistant
          then Some (StudioErrorf ''assistant run message and client request ids must match its messages'')
          else if arun_Revision run \<noteq> 1 then Some (StudioErrorf ''new assistant run revision must be 1'')
          else None)"

definition validateAssistantRunSnapshot :: "AssistantRun \<Rightarrow> StudioMessage list \<Rightarrow> int \<Rightarrow> studio_error option" where
  "validateAssistantRunSnapshot run ms expectedRevision =
     (case validateAssistantRun run of Some e \<Rightarrow> Some e
      | None \<Rightarrow>
          if expectedRevision < 1 \<or> arun_Revision run \<noteq> i64 (expectedRevision + 1) then Some ErrAssistantRunConflict
          else if list_ex (\<lambda>message. smsg_ID message = []) ms then Some (StudioErrorf ''snapshot message id is required'')
          else None)"

record AssistantRunEvent =
  aev_RunID :: string
  aev_ProjectName :: string
  aev_ProjectUID :: string
  aev_Sequence :: int
  aev_Type :: string
  aev_CallID :: string
  aev_ToolName :: string
  aev_ArgsDigest :: string
  aev_Payload :: "raw_json option"
  aev_CreatedAt :: time

definition default_payload :: "raw_json option \<Rightarrow> raw_json" where
  "default_payload p = (case p of None \<Rightarrow> RawJSON (JObj []) | Some j \<Rightarrow> j)"

definition prepareAssistantRunEvent :: "time \<Rightarrow> StudioScope \<Rightarrow> AssistantRunEvent \<Rightarrow> int \<Rightarrow> AssistantRunEvent outcome" where
  "prepareAssistantRunEvent now scope event expectedSequence =
     (case StudioScope_validate scope of Some e \<Rightarrow> Inl e
      | None \<Rightarrow>
          let runID = TrimSpace (aev_RunID event); ty = TrimSpace (aev_Type event);
              payload = default_payload (aev_Payload event)
          in if runID = [] \<or> ty = [] then Inl (StudioErrorf ''assistant run event run id and type are required'')
          else if expectedSequence < 0 \<or> expectedSequence = 2 ^ 63 - 1 then Inl ErrAssistantRunEventConflict
          else if aev_Sequence event \<noteq> 0 \<and> aev_Sequence event \<noteq> expectedSequence + 1 then Inl ErrAssistantRunEventConflict
          else if \<not> json_Valid payload then Inl (StudioErrorf ''assistant run event payload is not valid json'')
          else Inr (event\<lparr>aev_RunID := runID, aev_Type := ty, aev_CallID := TrimSpace (aev_CallID event),
            aev_ToolName := TrimSpace (aev_ToolName event), aev_ArgsDigest := TrimSpace (aev_ArgsDigest event),
            aev_Sequence := expectedSequence + 1, aev_Payload := Some payload,
            aev_CreatedAt := (if IsZero (aev_CreatedAt event) then now else aev_CreatedAt event),
            aev_ProjectName := sp_ProjectName scope, aev_ProjectUID := sp_ProjectUID scope\<rparr>))"

definition validateAssistantRunEventList :: "StudioScope \<Rightarrow> string \<Rightarrow> int \<Rightarrow> string outcome" where
  "validateAssistantRunEventList scope runID afterSequence =
     (case StudioScope_validate scope of Some e \<Rightarrow> Inl e
      | None \<Rightarrow>
          let runID = TrimSpace runID in
          if runID = [] then Inl (StudioErrorf ''assistant run event run id is required'')
          else if afterSequence < 0 then Inl ErrAssistantRunEventConflict else Inr runID)"

section \<open>Conversation items\<close>

record AssistantConversationItem =
  ci_ID :: string
  ci_RunID :: string
  ci_ProjectName :: string
  ci_ProjectUID :: string
  ci_Sequence :: int
  ci_Type :: string
  ci_Payload :: "raw_json option"
  ci_CreatedAt :: time

definition prepareAssistantConversationItem ::
  "time \<Rightarrow> StudioScope \<Rightarrow> AssistantConversationItem \<Rightarrow> AssistantConversationItem outcome" where
  "prepareAssistantConversationItem now scope item =
     (case StudioScope_validate scope of Some e \<Rightarrow> Inl e
      | None \<Rightarrow>
          let ident = TrimSpace (ci_ID item); runID = TrimSpace (ci_RunID item); ty = TrimSpace (ci_Type item);
              payload = default_payload (ci_Payload item)
          in if ident = [] \<or> runID = [] \<or> ty = []
          then Inl (StudioErrorf ''assistant conversation item id, run id, and type are required'')
          else if \<not> json_Valid payload
          then Inl (StudioErrorf ''assistant conversation item payload must be valid json'')
          else Inr (item\<lparr>ci_ID := ident, ci_RunID := runID, ci_Type := ty, ci_ProjectName := sp_ProjectName scope,
            ci_ProjectUID := sp_ProjectUID scope, ci_Payload := Some payload,
            ci_CreatedAt := (if IsZero (ci_CreatedAt item) then now else ci_CreatedAt item)\<rparr>))"

text \<open>Decoding into \<open>any\<close> with literal numbers and marshalling again: the members of an object sorted by
  name, the last of two with one name.\<close>

fun canonical :: "jval \<Rightarrow> jval" where
  "canonical (JArr vs) = JArr (map canonical vs)"
| "canonical (JObj ms) = JObj (sort_key fst (AList.clearjunk (rev (map (\<lambda>(k, v). (k, canonical v)) ms))))"
| "canonical v = v"

definition canonicalAssistantConversationPayload :: "raw_json option \<Rightarrow> jval option" where
  "canonicalAssistantConversationPayload p =
     (case p of Some (RawJSON v) \<Rightarrow> Some (canonical v) | _ \<Rightarrow> None)"

definition assistantConversationPayloadEqual :: "raw_json option \<Rightarrow> raw_json option \<Rightarrow> bool" where
  "assistantConversationPayloadEqual l r \<longleftrightarrow>
     canonicalAssistantConversationPayload l \<noteq> None \<and>
     canonicalAssistantConversationPayload l = canonicalAssistantConversationPayload r"

definition assistantConversationItemsMatch :: "AssistantConversationItem \<Rightarrow> AssistantConversationItem \<Rightarrow> bool" where
  "assistantConversationItemsMatch existing candidate \<longleftrightarrow>
     TrimSpace (ci_RunID existing) = TrimSpace (ci_RunID candidate) \<and>
     TrimSpace (ci_Type existing) = TrimSpace (ci_Type candidate) \<and>
     assistantConversationPayloadEqual (ci_Payload existing) (ci_Payload candidate)"

section \<open>Threads, turns and thread events\<close>

abbreviation ThreadIdle :: string where "ThreadIdle \<equiv> ''idle''"
abbreviation ThreadActive :: string where "ThreadActive \<equiv> ''active''"
abbreviation ThreadArchived :: string where "ThreadArchived \<equiv> ''archived''"
abbreviation TurnInProgress :: string where "TurnInProgress \<equiv> ''in_progress''"

record AssistantThread =
  th_ID :: string
  th_Title :: string
  th_Status :: string
  th_ActorID :: string
  th_ReasoningEffortByModel :: "string gomap"
  th_CreatedAt :: time
  th_UpdatedAt :: time

record AssistantTurn =
  tn_ID :: string
  tn_ThreadID :: string
  tn_ActorID :: string
  tn_ClientUserMessageID :: string
  tn_Mode :: string
  tn_ApprovalMode :: string
  tn_Status :: string
  tn_Checkpoint :: "raw_json option"
  tn_Error :: "raw_json option"
  tn_CreatedAt :: time
  tn_UpdatedAt :: time

record AssistantThreadEvent =
  te_ThreadID :: string
  te_TurnID :: string
  te_Sequence :: int
  te_Type :: string
  te_ItemID :: string
  te_RequestID :: string
  te_Payload :: "raw_json option"
  te_CreatedAt :: time

definition prepareAssistantThread :: "time \<Rightarrow> AssistantThread \<Rightarrow> AssistantThread outcome" where
  "prepareAssistantThread now thread =
     (let ident = TrimSpace (th_ID thread); actor = TrimSpace (th_ActorID thread);
          status = (if th_Status thread = [] then ThreadIdle else th_Status thread);
          created = (if IsZero (th_CreatedAt thread) then now else th_CreatedAt thread)
      in if ident = [] \<or> actor = [] then Inl (StudioErrorf ''assistant thread id and actor are required'')
      else if status \<notin> {ThreadIdle, ThreadActive, ThreadArchived} then Inl (StudioErrorf ''invalid assistant thread status'')
      else Inr (thread\<lparr>th_ID := ident, th_Title := TrimSpace (th_Title thread), th_Status := status, th_ActorID := actor,
        th_CreatedAt := created, th_UpdatedAt := (if IsZero (th_UpdatedAt thread) then created else th_UpdatedAt thread)\<rparr>))"

definition assistantTurnStatusValid :: "string \<Rightarrow> bool" where
  "assistantTurnStatusValid status \<longleftrightarrow> status \<in> {TurnInProgress, ''completed'', ''interrupted'', ''failed''}"

definition assistantTurnStatusTerminal :: "string \<Rightarrow> bool" where
  "assistantTurnStatusTerminal status \<longleftrightarrow> status = ''completed'' \<or> status = ''interrupted'' \<or> status = ''failed''"

definition prepareAssistantTurn :: "time \<Rightarrow> AssistantTurn \<Rightarrow> AssistantTurn outcome" where
  "prepareAssistantTurn now turn =
     (let ident = TrimSpace (tn_ID turn); thread = TrimSpace (tn_ThreadID turn); actor = TrimSpace (tn_ActorID turn);
          client = TrimSpace (tn_ClientUserMessageID turn); mode = (if tn_Mode turn = [] then ''default'' else tn_Mode turn)
      in if ident = [] \<or> thread = [] \<or> actor = [] \<or> client = []
      then Inl (StudioErrorf ''assistant turn id, thread id, actor, and client user message id are required'')
      else if \<not> assistantRunModeValid mode then Inl (StudioErrorf ''invalid assistant turn mode'')
      else case NormalizeAssistantApprovalMode (tn_ApprovalMode turn) of Inl e \<Rightarrow> Inl e
      | Inr approval \<Rightarrow>
          let status = (if tn_Status turn = [] then TurnInProgress else tn_Status turn);
              created = (if IsZero (tn_CreatedAt turn) then now else tn_CreatedAt turn);
              checkpoint = default_payload (tn_Checkpoint turn); err = default_payload (tn_Error turn)
          in if \<not> assistantTurnStatusValid status then Inl (StudioErrorf ''invalid assistant turn status'')
          else if \<not> json_Valid checkpoint \<or> \<not> json_Valid err
          then Inl (StudioErrorf ''assistant turn checkpoint and error must be valid json'')
          else Inr (turn\<lparr>tn_ID := ident, tn_ThreadID := thread, tn_ActorID := actor, tn_ClientUserMessageID := client,
            tn_Mode := mode, tn_ApprovalMode := approval, tn_Status := status, tn_Checkpoint := Some checkpoint,
            tn_Error := Some err, tn_CreatedAt := created,
            tn_UpdatedAt := (if IsZero (tn_UpdatedAt turn) then created else tn_UpdatedAt turn)\<rparr>))"

definition prepareAssistantThreadEvent :: "time \<Rightarrow> AssistantThreadEvent \<Rightarrow> AssistantThreadEvent outcome" where
  "prepareAssistantThreadEvent now event =
     (let thread = TrimSpace (te_ThreadID event); ty = TrimSpace (te_Type event); payload = default_payload (te_Payload event)
      in if thread = [] \<or> ty = [] then Inl (StudioErrorf ''assistant thread event thread id and type are required'')
      else if \<not> json_Valid payload then Inl (StudioErrorf ''assistant thread event payload must be valid json'')
      else Inr (event\<lparr>te_ThreadID := thread, te_TurnID := TrimSpace (te_TurnID event), te_Type := ty,
        te_ItemID := TrimSpace (te_ItemID event), te_RequestID := TrimSpace (te_RequestID event), te_Payload := Some payload,
        te_CreatedAt := (if IsZero (te_CreatedAt event) then now else te_CreatedAt event)\<rparr>))"

section \<open>Limits and cursors\<close>

definition normalizeLimit :: "int \<Rightarrow> nat" where
  "normalizeLimit limit = (if limit \<le> 0 then 50 else if limit > 500 then 500 else nat limit)"

lemma normalizeLimit_pos [simp]: "0 < normalizeLimit limit"
  by (simp add: normalizeLimit_def)

definition studio_decodeCursor :: "cursor \<Rightarrow> (time \<times> string) outcome" where
  "studio_decodeCursor raw =
     (case raw of NoCursor \<Rightarrow> Inr (0, []) | BadCursor _ \<Rightarrow> Inl (StudioErrorf ''decode cursor'')
      | Cursor t i \<Rightarrow> if IsZero t \<or> blank i then Inl (StudioErrorf ''cursor is missing createdAt or id'') else Inr (t, i))"

definition decodeThreadCursor :: "cursor \<Rightarrow> (time \<times> string) outcome" where
  "decodeThreadCursor raw =
     (case raw of NoCursor \<Rightarrow> Inr (0, []) | BadCursor _ \<Rightarrow> Inl ErrAssistantThreadConflict
      | Cursor t i \<Rightarrow> if IsZero t \<or> blank i then Inl ErrAssistantThreadConflict else Inr (t, i))"

section \<open>Attachments, thumbnails and spend\<close>

record StudioAttachment =
  sa_ID :: string
  sa_ProjectName :: string
  sa_ProjectUID :: string
  sa_ActorID :: string
  sa_Filename :: string
  sa_ContentType :: string
  sa_SizeBytes :: int
  sa_SHA256 :: string
  sa_Draft :: bool
  sa_CreatedAt :: time
  sa_ExpiresAt :: "time option"
  sa_Data :: string
  sa_DataEncrypted :: bool
  sa_DataKeyID :: string
  sa_BindingID :: string
  sa_DraftExpiresAt :: "time option"

record AttachmentQuota =
  aq_WorkspaceMaxBytes :: int
  aq_DraftProjectMaxBytes :: int
  aq_DraftProjectMaxCount :: int

record ProjectThumbnail =
  pt_CommitSHA :: string
  pt_CommitCreatedAt :: time
  pt_CommitOrder :: string
  pt_Variant :: string
  pt_ContentType :: string
  pt_SHA256 :: string
  pt_Data :: string
  pt_DataEncrypted :: bool
  pt_DataKeyID :: string
  pt_CapturedAt :: time

record OrganizationSpend =
  os_OrgUUID :: string
  os_PeriodStart :: time
  os_InputTokens :: int
  os_OutputTokens :: int
  os_USDMicros :: int
  os_UpdatedAt :: time

section \<open>Replica claims\<close>

record ReplicaClaim =
  cl_Key :: string
  cl_Kind :: string
  cl_ScopeKey :: string
  cl_OwnerReplica :: string
  cl_OwnerAddr :: string
  cl_Detail :: string
  cl_Revision :: int
  cl_HeartbeatAt :: time

definition Live :: "ReplicaClaim \<Rightarrow> time \<Rightarrow> int \<Rightarrow> bool" where
  "Live c now staleAfter \<longleftrightarrow> \<not> IsZero (cl_HeartbeatAt c) \<and> Sub now (cl_HeartbeatAt c) \<le> staleAfter"

end
