(* ===== verification/StudioStore.thy ===== *)
theory StudioStore
  imports StudioTypes
begin

text \<open>
  The state of App Studio's in-memory store (\<open>providers/app-studio/store/memory.go\<close>), whose tables are
  maps from a scope to a map of rows, and the broadcaster that wakes the streams waiting on a thread
  (\<open>thread_notify.go\<close>).
\<close>

section \<open>Tables under a scope\<close>

type_synonym 'v scoped = "(StudioScope \<times> 'v gomap) list"

text \<open>The rows of a scope; a missing inner map reads as an empty one.\<close>

definition inner :: "(StudioScope \<times> 'a list) list \<Rightarrow> StudioScope \<Rightarrow> 'a list" where
  "inner t s = (case map_of t s of None \<Rightarrow> [] | Some m \<Rightarrow> m)"

text \<open>Whether the inner map is allocated, and assignment to one of its entries, allocating it first.\<close>

definition allocated :: "(StudioScope \<times> 'a list) list \<Rightarrow> StudioScope \<Rightarrow> bool" where
  "allocated t s \<longleftrightarrow> map_of t s \<noteq> None"

definition set_inner :: "StudioScope \<Rightarrow> 'a list \<Rightarrow> (StudioScope \<times> 'a list) list \<Rightarrow> (StudioScope \<times> 'a list) list" where
  "set_inner s m t = AList.update s m t"

definition put2 :: "StudioScope \<Rightarrow> string \<Rightarrow> 'v \<Rightarrow> 'v scoped \<Rightarrow> 'v scoped" where
  "put2 s k v t = set_inner s (mput k v (inner t s)) t"

definition del2 :: "StudioScope \<Rightarrow> string \<Rightarrow> 'v scoped \<Rightarrow> 'v scoped" where
  "del2 s k t = (if allocated t s then set_inner s (mdel k (inner t s)) t else t)"

text \<open>Deleting entries of an inner map, which does nothing to a nil one.\<close>

definition edit_inner :: "StudioScope \<Rightarrow> ('a list \<Rightarrow> 'a list) \<Rightarrow> (StudioScope \<times> 'a list) list \<Rightarrow> (StudioScope \<times> 'a list) list" where
  "edit_inner s f t = (if allocated t s then set_inner s (f (inner t s)) t else t)"

definition drop_scope :: "StudioScope \<Rightarrow> (StudioScope \<times> 'a) list \<Rightarrow> (StudioScope \<times> 'a) list" where
  "drop_scope s t = AList.delete s t"

definition prune :: "StudioScope \<Rightarrow> (StudioScope \<times> 'a list) list \<Rightarrow> (StudioScope \<times> 'a list) list" where
  "prune s t = (if inner t s = [] then drop_scope s t else t)"

named_theorems scoped "reading tables under a scope"

lemma inner_Nil [scoped, simp]: "inner [] s = []"
  by (simp add: inner_def)

lemma inner_set [scoped, simp]: "inner (set_inner s m t) s' = (if s' = s then m else inner t s')"
  by (simp add: inner_def set_inner_def update_conv')

lemma inner_put2 [scoped, simp]: "inner (put2 s k v t) s' = (if s' = s then mput k v (inner t s) else inner t s')"
  by (simp add: put2_def)

lemma inner_del2 [scoped, simp]: "inner (del2 s k t) s' = (if s' = s then mdel k (inner t s) else inner t s')"
  by (auto simp: del2_def allocated_def inner_def set_inner_def update_conv' mdel_def)

lemma inner_edit [scoped, simp]: "f [] = [] \<Longrightarrow> inner (edit_inner s f t) s' = (if s' = s then f (inner t s) else inner t s')"
  by (auto simp: edit_inner_def allocated_def inner_def set_inner_def update_conv')

lemma inner_drop [scoped, simp]: "inner (drop_scope s t) s' = (if s' = s then [] else inner t s')"
  by (simp add: inner_def drop_scope_def delete_conv')

lemma inner_prune [scoped, simp]: "inner (prune s t) s' = inner t s'"
  by (simp add: prune_def)

interpretation studio_table: keyed_table "\<lambda>t (s, k). mget (inner t s) k" "\<lambda>(s, k) v. put2 s k v" "\<lambda>(s, k). del2 s k"
  by unfold_locales (auto split: prod.splits)

section \<open>Waking streams\<close>

text \<open>Subscribers of a key are channels of capacity one, by number; \<open>True\<close> is a pending signal.\<close>

record threadEventBroadcaster =
  bc_subs :: "(nat \<times> bool) list gomap"
  bc_next :: nat

definition subscribe :: "string \<Rightarrow> threadEventBroadcaster \<Rightarrow> nat \<times> threadEventBroadcaster" where
  "subscribe key b =
     (bc_next b, b\<lparr>bc_subs := mput key ((bc_next b, False) # mgetd [] (bc_subs b) key) (bc_subs b), bc_next := bc_next b + 1\<rparr>)"

definition release :: "string \<Rightarrow> nat \<Rightarrow> threadEventBroadcaster \<Rightarrow> threadEventBroadcaster" where
  "release key ch b =
     (case mget (bc_subs b) key of None \<Rightarrow> b
      | Some chs \<Rightarrow>
          let left = filter (\<lambda>(c, _). c \<noteq> ch) chs in
          b\<lparr>bc_subs := (if left = [] then mdel key (bc_subs b) else mput key left (bc_subs b))\<rparr>)"

definition publish :: "string \<Rightarrow> threadEventBroadcaster \<Rightarrow> threadEventBroadcaster" where
  "publish key b =
     (case mget (bc_subs b) key of None \<Rightarrow> b
      | Some chs \<Rightarrow> b\<lparr>bc_subs := mput key (map (\<lambda>(c, _). (c, True)) chs) (bc_subs b)\<rparr>)"

definition publishAll :: "threadEventBroadcaster \<Rightarrow> threadEventBroadcaster" where
  "publishAll b = b\<lparr>bc_subs := map (\<lambda>(key, chs). (key, map (\<lambda>(c, _). (c, True)) chs)) (bc_subs b)\<rparr>"

definition key_component :: "string \<Rightarrow> string" where
  "key_component c = itoa (int (length c)) @ '':'' @ c"

definition threadEventKey :: "StudioScope \<Rightarrow> string \<Rightarrow> string" where
  "threadEventKey s threadID =
     concat (map key_component
       [sp_OrgUUID s, sp_WorkspaceUUID s, sp_ProjectName s, sp_ProjectUID s, TrimSpace threadID])"

section \<open>The store\<close>

type_synonym lookup_key = "string \<times> string"

record AssistantApprovalPreference =
  ap_ActorID :: string
  ap_Mode :: string
  ap_UpdatedAt :: time

record projectBootstrapPermit =
  bp_actor :: string
  bp_promptDigest :: string
  bp_clientRequestID :: string

record StudioStore =
  threadEventSignals :: threadEventBroadcaster
  assistantThreads :: "AssistantThread scoped"
  assistantTurns :: "AssistantTurn gomap scoped"
  threadEvents :: "AssistantThreadEvent list scoped"
  threadTurnEvents :: "AssistantThreadEvent list scoped"
  threadTurnEventIndex :: "(lookup_key \<times> AssistantThreadEvent list) list scoped"
  threadTurnStarts :: "int gomap scoped"
  studioMessages :: "StudioMessage scoped"
  assistantRuns :: "AssistantRun scoped"
  assistantEvents :: "AssistantRunEvent list scoped"
  assistantEventLookup :: "(StudioScope \<times> (lookup_key \<times> AssistantRunEvent list) list) list"
  conversationItems :: "(StudioScope \<times> AssistantConversationItem list) list"
  conversationSequences :: "(StudioScope \<times> int) list"
  replicaClaims :: "ReplicaClaim gomap"
  approvalModes :: "AssistantApprovalPreference scoped"
  bootstrapPermits :: "(StudioScope \<times> projectBootstrapPermit) list"
  projectThumbnails :: "(StudioScope \<times> ProjectThumbnail) list"
  studioAttachments :: "StudioAttachment scoped"
  attachmentDeleted :: "StudioScope list"
  studioQuota :: AttachmentQuota
  organizationSpend :: "((string \<times> time) \<times> OrganizationSpend) list"

definition DefaultAttachmentQuota :: AttachmentQuota where
  "DefaultAttachmentQuota =
     \<lparr>aq_WorkspaceMaxBytes = 2 ^ 30, aq_DraftProjectMaxBytes = 128 * 2 ^ 20, aq_DraftProjectMaxCount = 64\<rparr>"

definition NewStudioStore :: StudioStore where
  "NewStudioStore = \<lparr>threadEventSignals = \<lparr>bc_subs = [], bc_next = 0\<rparr>, assistantThreads = [], assistantTurns = [],
     threadEvents = [], threadTurnEvents = [], threadTurnEventIndex = [], threadTurnStarts = [], studioMessages = [],
     assistantRuns = [], assistantEvents = [], assistantEventLookup = [], conversationItems = [],
     conversationSequences = [], replicaClaims = [], approvalModes = [], bootstrapPermits = [], projectThumbnails = [],
     studioAttachments = [], attachmentDeleted = [], studioQuota = DefaultAttachmentQuota, organizationSpend = []\<rparr>"

text \<open>Running an operation that first validates its scope.\<close>

definition in_scope :: "StudioScope \<Rightarrow> StudioStore \<Rightarrow> ('a outcome \<times> StudioStore) \<Rightarrow> 'a outcome \<times> StudioStore" where
  "in_scope scope m op = (case StudioScope_validate scope of Some e \<Rightarrow> (Inl e, m) | None \<Rightarrow> op)"

section \<open>Thread keys are unambiguous\<close>

lemma digits_only: "c \<in> set (digits n) \<Longrightarrow> of_char c \<le> (57 :: nat)"
proof (induction n rule: digits.induct)
  case (1 n)
  show ?case
  proof (cases "n < 10")
    case True
    then show ?thesis using "1.prems" by (subst (asm) digits.simps) simp
  next
    case False
    then have "c \<in> set (digits (n div 10)) \<or> c = char_of (48 + n mod 10)"
      using "1.prems" by (subst (asm) digits.simps) auto
    then show ?thesis using "1.IH" [OF False] by auto
  qed
qed

lemma key_component_append:
  "key_component a @ x = key_component b @ y \<longleftrightarrow> a = b \<and> x = y"
proof
  assume h: "key_component a @ x = key_component b @ y"
  have digits: "CHR '':'' \<notin> set (itoa (int n))" for n
    using digits_only [of "CHR '':''" n] by (auto simp: itoa_def)
  from h have "itoa (int (length a)) @ CHR '':'' # (a @ x) = itoa (int (length b)) @ CHR '':'' # (b @ y)"
    by (simp add: key_component_def)
  then have e: "itoa (int (length a)) = itoa (int (length b)) \<and> a @ x = b @ y"
    using sep_append_eq [OF digits digits] by blast
  then have "length a = length b" using itoa_inject by simp
  with e show "a = b \<and> x = y" by simp
qed simp

lemma threadEventKey_inject:
  "threadEventKey s t = threadEventKey s' t' \<longleftrightarrow> s = s' \<and> TrimSpace t = TrimSpace t'"
proof -
  have "key_component a = key_component b \<longleftrightarrow> a = b" for a b using key_component_append [of a "[]" b "[]"] by simp
  then show ?thesis
    by (cases s; cases s') (auto simp: threadEventKey_def key_component_append)
qed

end
