(* ===== verification/StudioThreads.thy ===== *)
theory StudioThreads
  imports StudioStore GoPaths
begin

text \<open>
  Threads, turns and the append-only event log of a thread
  (\<open>providers/app-studio/store/thread_memory.go\<close>), with the tables kept beside the log: the events of
  turns, their index by turn and type, and where each turn started. An assignment to an entry of a nil
  inner map allocates the map here; in a reachable store the map is there whenever a row that guards the
  assignment is (\<open>StudioMachine\<close>). Sequence numbers count the events of a log held in memory, from one,
  and are unbounded integers.
\<close>

section \<open>The log and what is kept beside it\<close>

definition latestAssistantThreadEventSequence :: "AssistantThreadEvent list \<Rightarrow> int" where
  "latestAssistantThreadEventSequence events = (if events = [] then 0 else te_Sequence (last events))"

definition thread_log :: "StudioStore \<Rightarrow> StudioScope \<Rightarrow> string \<Rightarrow> AssistantThreadEvent list" where
  "thread_log m scope threadID = mgetd [] (inner (threadEvents m) scope) threadID"

definition turn_log :: "StudioStore \<Rightarrow> StudioScope \<Rightarrow> string \<Rightarrow> AssistantThreadEvent list" where
  "turn_log m scope threadID = mgetd [] (inner (threadTurnEvents m) scope) threadID"

definition turn_index :: "StudioStore \<Rightarrow> StudioScope \<Rightarrow> string \<Rightarrow> lookup_key \<Rightarrow> AssistantThreadEvent list" where
  "turn_index m scope threadID key =
     (case map_of (mgetd [] (inner (threadTurnEventIndex m) scope) threadID) key of None \<Rightarrow> [] | Some es \<Rightarrow> es)"

definition turn_starts :: "StudioStore \<Rightarrow> StudioScope \<Rightarrow> string \<Rightarrow> int gomap" where
  "turn_starts m scope threadID = mgetd [] (inner (threadTurnStarts m) scope) threadID"

definition turns_of :: "StudioStore \<Rightarrow> StudioScope \<Rightarrow> string \<Rightarrow> AssistantTurn gomap" where
  "turns_of m scope threadID = mgetd [] (inner (assistantTurns m) scope) threadID"

definition thread_row :: "StudioStore \<Rightarrow> StudioScope \<Rightarrow> string \<Rightarrow> AssistantThread option" where
  "thread_row m scope threadID = mget (inner (assistantThreads m) scope) threadID"

definition append_turn_event :: "StudioScope \<Rightarrow> string \<Rightarrow> AssistantThreadEvent \<Rightarrow> StudioStore \<Rightarrow> StudioStore" where
  "append_turn_event scope threadID event m =
     (if blank (te_TurnID event) then m
      else let turnID = TrimSpace (te_TurnID event); key = (turnID, TrimSpace (te_Type event));
               index = mgetd [] (inner (threadTurnEventIndex m) scope) threadID;
               starts = turn_starts m scope threadID
        in m\<lparr>threadTurnEvents := put2 scope threadID (turn_log m scope threadID @ [event]) (threadTurnEvents m),
             threadTurnEventIndex := put2 scope threadID
               (AList.update key (turn_index m scope threadID key @ [event]) index) (threadTurnEventIndex m),
             threadTurnStarts :=
               (if te_Type event = ''turn.started''
                then put2 scope threadID
                  (if mget starts turnID = None then mput turnID (te_Sequence event) starts else starts) (threadTurnStarts m)
                else threadTurnStarts m)\<rparr>)"

definition appendAssistantThreadTurnEventsLocked ::
  "StudioScope \<Rightarrow> string \<Rightarrow> AssistantThreadEvent list \<Rightarrow> StudioStore \<Rightarrow> StudioStore" where
  "appendAssistantThreadTurnEventsLocked scope threadID events m = fold (append_turn_event scope threadID) events m"

text \<open>Appending prepared events to the log and to the tables beside it.\<close>

definition append_events :: "StudioScope \<Rightarrow> string \<Rightarrow> AssistantThreadEvent list \<Rightarrow> StudioStore \<Rightarrow> StudioStore" where
  "append_events scope threadID events m =
     appendAssistantThreadTurnEventsLocked scope threadID events
       (m\<lparr>threadEvents := put2 scope threadID (thread_log m scope threadID @ events) (threadEvents m)\<rparr>)"

fun number_from :: "int \<Rightarrow> AssistantThreadEvent list \<Rightarrow> AssistantThreadEvent list" where
  "number_from base [] = []"
| "number_from base (e # es) = e\<lparr>te_Sequence := base + 1\<rparr> # number_from (base + 1) es"

fun prepare_events ::
  "(AssistantThreadEvent \<Rightarrow> AssistantThreadEvent outcome) \<Rightarrow> AssistantThreadEvent list \<Rightarrow> AssistantThreadEvent list outcome" where
  "prepare_events prepare [] = Inr []"
| "prepare_events prepare (e # es) =
     (case prepare e of Inl err \<Rightarrow> Inl err
      | Inr e \<Rightarrow> (case prepare_events prepare es of Inl err \<Rightarrow> Inl err | Inr es \<Rightarrow> Inr (e # es)))"

section \<open>Threads\<close>

text \<open>The log of a new thread replaces what is filed under its ID.\<close>

definition CreateAssistantThread ::
  "time \<Rightarrow> StudioStore \<Rightarrow> StudioScope \<Rightarrow> AssistantThread \<Rightarrow> AssistantThreadEvent list \<Rightarrow> AssistantThread outcome \<times> StudioStore" where
  "CreateAssistantThread now m scope thread events =
     in_scope scope m (case prepareAssistantThread now thread of Inl e \<Rightarrow> (Inl e, m)
      | Inr prepared \<Rightarrow>
          (case thread_row m scope (th_ID prepared) of
             Some existing \<Rightarrow>
               (if th_ActorID existing \<noteq> th_ActorID prepared then Inl ErrAssistantThreadConflict else Inr existing, m)
           | None \<Rightarrow>
               (case prepare_events (\<lambda>e. prepareAssistantThreadEvent now (e\<lparr>te_ThreadID := th_ID prepared\<rparr>)) events of
                  Inl e \<Rightarrow> (Inl e, m)
                | Inr preparedEvents \<Rightarrow>
                    (Inr prepared,
                     append_events scope (th_ID prepared) (number_from 0 preparedEvents)
                       (m\<lparr>assistantThreads := put2 scope (th_ID prepared) prepared (assistantThreads m),
                          threadEvents := put2 scope (th_ID prepared) [] (threadEvents m)\<rparr>)))))"

definition GetAssistantThread :: "StudioStore \<Rightarrow> StudioScope \<Rightarrow> string \<Rightarrow> AssistantThread outcome \<times> StudioStore" where
  "GetAssistantThread m scope threadID =
     in_scope scope m
       (case thread_row m scope (TrimSpace threadID) of None \<Rightarrow> Inl ErrAssistantThreadNotFound | Some t \<Rightarrow> Inr t, m)"

definition LatestAssistantThreadEventSequence :: "StudioStore \<Rightarrow> StudioScope \<Rightarrow> string \<Rightarrow> int outcome \<times> StudioStore" where
  "LatestAssistantThreadEventSequence m scope threadID =
     in_scope scope m
       (case thread_row m scope (TrimSpace threadID) of None \<Rightarrow> Inl ErrAssistantThreadNotFound
        | Some _ \<Rightarrow> Inr (latestAssistantThreadEventSequence (thread_log m scope (TrimSpace threadID))), m)"

definition thread_stamp :: "AssistantThread \<Rightarrow> stamp" where
  "thread_stamp t = Stamp (th_UpdatedAt t) (th_ID t)"

definition ListAssistantThreads ::
  "StudioStore \<Rightarrow> StudioScope \<Rightarrow> string \<Rightarrow> bool \<Rightarrow> int \<Rightarrow> cursor \<Rightarrow> (AssistantThread list \<times> cursor) outcome \<times> StudioStore" where
  "ListAssistantThreads m scope actorID includeArchived limit cursor =
     in_scope scope m (case decodeThreadCursor cursor of Inl e \<Rightarrow> (Inl e, m)
      | Inr bound \<Rightarrow>
          let items = newest_first thread_stamp
                (filter (\<lambda>t. th_ActorID t = TrimSpace actorID \<and> (includeArchived \<or> th_Status t \<noteq> ThreadArchived))
                  (map snd (inner (assistantThreads m) scope)));
              items = (case bound_of bound of None \<Rightarrow> items | Some c \<Rightarrow> dropWhile (\<lambda>t. \<not> thread_stamp t < c) items);
              page = take (normalizeLimit limit) items
          in (Inr (page, if length page < length items then cursor_of (Some (thread_stamp (last page))) else NoCursor), m))"

definition UpdateAssistantThread :: "time \<Rightarrow> StudioStore \<Rightarrow> StudioScope \<Rightarrow> AssistantThread \<Rightarrow> AssistantThread outcome \<times> StudioStore" where
  "UpdateAssistantThread now m scope thread =
     in_scope scope m (case prepareAssistantThread now thread of Inl e \<Rightarrow> (Inl e, m)
      | Inr prepared \<Rightarrow>
          (case thread_row m scope (th_ID prepared) of None \<Rightarrow> (Inl ErrAssistantThreadNotFound, m)
           | Some existing \<Rightarrow>
               if th_ActorID existing \<noteq> th_ActorID prepared then (Inl ErrAssistantThreadConflict, m)
               else let prepared = prepared\<lparr>th_CreatedAt := th_CreatedAt existing\<rparr> in
                 (Inr prepared, m\<lparr>assistantThreads := put2 scope (th_ID prepared) prepared (assistantThreads m)\<rparr>)))"

text \<open>A string as the JSON encoder writes it: what is no UTF-8 becomes the replacement character.\<close>

definition json_string :: "string \<Rightarrow> jval" where
  "json_string s = JStr (concat (runes s))"

definition SetAssistantThreadTitleIfEmpty ::
  "time \<Rightarrow> StudioStore \<Rightarrow> StudioScope \<Rightarrow> string \<Rightarrow> string \<Rightarrow> string \<Rightarrow> AssistantThreadEvent \<Rightarrow>
   (AssistantThread \<times> bool) outcome \<times> StudioStore" where
  "SetAssistantThreadTitleIfEmpty now m scope threadID actorID title event =
     in_scope scope m (let threadID = TrimSpace threadID; actorID = TrimSpace actorID; title = TrimSpace title in
       if threadID = [] \<or> actorID = [] then (Inl (StudioErrorf ''assistant thread id and actor are required''), m)
       else if title = [] then (Inl (StudioErrorf ''assistant thread title is required''), m)
       else case prepareAssistantThreadEvent now (event\<lparr>te_ThreadID := threadID\<rparr>) of Inl e \<Rightarrow> (Inl e, m)
       | Inr preparedEvent \<Rightarrow>
           (case thread_row m scope threadID of None \<Rightarrow> (Inl ErrAssistantThreadNotFound, m)
            | Some thread \<Rightarrow>
                if th_ActorID thread \<noteq> actorID then (Inl ErrAssistantThreadConflict, m)
                else if th_Status thread = ThreadArchived \<or> \<not> blank (th_Title thread) then (Inr (thread, False), m)
                else let
                    payload = (if te_Payload preparedEvent \<in> {None, Some (RawJSON (JObj []))}
                      then Some (RawJSON (JObj [(''thread'', JObj [(''id'', json_string (th_ID thread)), (''title'', json_string title)])]))
                      else te_Payload preparedEvent);
                    thread = thread\<lparr>th_Title := title, th_UpdatedAt := now\<rparr>;
                    preparedEvent = preparedEvent\<lparr>te_Payload := payload,
                      te_Sequence := latestAssistantThreadEventSequence (thread_log m scope threadID) + 1\<rparr>
                  in (Inr (thread, True),
                      append_events scope threadID [preparedEvent]
                        (m\<lparr>assistantThreads := put2 scope threadID thread (assistantThreads m)\<rparr>))))"

definition UpdateAssistantThreadWithEvent ::
  "time \<Rightarrow> StudioStore \<Rightarrow> StudioScope \<Rightarrow> AssistantThread \<Rightarrow> AssistantThreadEvent \<Rightarrow> int \<Rightarrow>
   (AssistantThread \<times> AssistantThreadEvent) outcome \<times> StudioStore" where
  "UpdateAssistantThreadWithEvent now m scope thread event expectedSequence =
     in_scope scope m (case prepareAssistantThread now thread of Inl e \<Rightarrow> (Inl e, m)
      | Inr prepared \<Rightarrow>
        (case prepareAssistantThreadEvent now (event\<lparr>te_ThreadID := th_ID prepared\<rparr>) of Inl e \<Rightarrow> (Inl e, m)
         | Inr preparedEvent \<Rightarrow>
          (case thread_row m scope (th_ID prepared) of None \<Rightarrow> (Inl ErrAssistantThreadNotFound, m)
           | Some existing \<Rightarrow>
               let currentSequence = latestAssistantThreadEventSequence (thread_log m scope (th_ID prepared)) in
               if th_ActorID existing \<noteq> th_ActorID prepared then (Inl ErrAssistantThreadConflict, m)
               else if currentSequence \<noteq> expectedSequence then (Inl ErrAssistantThreadEventConflict, m)
               else let prepared = prepared\<lparr>th_CreatedAt := th_CreatedAt existing\<rparr>;
                        preparedEvent = preparedEvent\<lparr>te_Sequence := currentSequence + 1\<rparr>
                 in (Inr (prepared, preparedEvent),
                     append_events scope (th_ID prepared) [preparedEvent]
                       (m\<lparr>assistantThreads := put2 scope (th_ID prepared) prepared (assistantThreads m)\<rparr>)))))"

definition AppendAssistantThreadEvent ::
  "time \<Rightarrow> StudioStore \<Rightarrow> StudioScope \<Rightarrow> AssistantThreadEvent \<Rightarrow> int \<Rightarrow> AssistantThreadEvent outcome \<times> StudioStore" where
  "AppendAssistantThreadEvent now m scope event expectedSequence =
     in_scope scope m (case prepareAssistantThreadEvent now event of Inl e \<Rightarrow> (Inl e, m)
      | Inr prepared \<Rightarrow>
          let currentSequence = latestAssistantThreadEventSequence (thread_log m scope (te_ThreadID prepared)) in
          if thread_row m scope (te_ThreadID prepared) = None then (Inl ErrAssistantThreadNotFound, m)
          else if currentSequence \<noteq> expectedSequence then (Inl ErrAssistantThreadEventConflict, m)
          else let prepared = prepared\<lparr>te_Sequence := currentSequence + 1\<rparr>;
                   m = append_events scope (te_ThreadID prepared) [prepared] m
            in (Inr prepared,
                m\<lparr>threadEventSignals := publish (threadEventKey scope (te_ThreadID prepared)) (threadEventSignals m)\<rparr>))"

definition WatchAssistantThreadEvents :: "StudioStore \<Rightarrow> StudioScope \<Rightarrow> string \<Rightarrow> nat outcome \<times> StudioStore" where
  "WatchAssistantThreadEvents m scope threadID =
     in_scope scope m
       (if blank threadID then (Inl (StudioErrorf ''assistant thread id is required''), m)
        else case subscribe (threadEventKey scope threadID) (threadEventSignals m) of
          (ch, b) \<Rightarrow> (Inr ch, m\<lparr>threadEventSignals := b\<rparr>))"

section \<open>Turns\<close>

text \<open>The loop over the turns of the thread, in the order the map is iterated.\<close>

fun find_turn :: "string \<Rightarrow> AssistantTurn list \<Rightarrow> AssistantTurn option outcome" where
  "find_turn client [] = Inr None"
| "find_turn client (t # ts) =
     (if tn_ClientUserMessageID t = client then Inr (Some t)
      else if \<not> assistantTurnStatusTerminal (tn_Status t) then Inl ErrAssistantTurnConflict
      else find_turn client ts)"

definition CreateAssistantTurn ::
  "time \<Rightarrow> StudioStore \<Rightarrow> StudioScope \<Rightarrow> AssistantTurn \<Rightarrow> AssistantThreadEvent list \<Rightarrow> AssistantTurn outcome \<times> StudioStore" where
  "CreateAssistantTurn now m scope turn events =
     in_scope scope m (case prepareAssistantTurn now turn of Inl e \<Rightarrow> (Inl e, m)
      | Inr prepared \<Rightarrow>
        (let threadID = tn_ThreadID prepared in
         case prepare_events (\<lambda>e. prepareAssistantThreadEvent now (e\<lparr>te_ThreadID := threadID, te_TurnID := tn_ID prepared\<rparr>)) events of
           Inl e \<Rightarrow> (Inl e, m)
         | Inr preparedEvents \<Rightarrow>
          (case thread_row m scope threadID of None \<Rightarrow> (Inl ErrAssistantThreadNotFound, m)
           | Some thread \<Rightarrow>
               if th_ActorID thread \<noteq> tn_ActorID prepared then (Inl ErrAssistantTurnConflict, m)
               else (case find_turn (tn_ClientUserMessageID prepared) (map snd (turns_of m scope threadID)) of
                   Inl e \<Rightarrow> (Inl e, m)
                 | Inr (Some existing) \<Rightarrow> (Inr existing, m)
                 | Inr None \<Rightarrow>
                     let m = m\<lparr>assistantTurns := put2 scope threadID
                               (mput (tn_ID prepared) prepared (turns_of m scope threadID)) (assistantTurns m)\<rparr>;
                         base = latestAssistantThreadEventSequence (thread_log m scope threadID);
                         m = append_events scope threadID (number_from base preparedEvents) m;
                         thread = thread\<lparr>th_Status := ThreadActive, th_UpdatedAt := tn_UpdatedAt prepared\<rparr>
                     in (Inr prepared, m\<lparr>assistantThreads := put2 scope (th_ID thread) thread (assistantThreads m)\<rparr>)))))"

definition GetAssistantTurn :: "StudioStore \<Rightarrow> StudioScope \<Rightarrow> string \<Rightarrow> string \<Rightarrow> AssistantTurn outcome \<times> StudioStore" where
  "GetAssistantTurn m scope threadID turnID =
     in_scope scope m
       (case mget (turns_of m scope (TrimSpace threadID)) (TrimSpace turnID) of
          None \<Rightarrow> Inl ErrAssistantTurnNotFound | Some t \<Rightarrow> Inr t, m)"

definition FindAssistantTurnByClientUserMessageID ::
  "StudioStore \<Rightarrow> StudioScope \<Rightarrow> string \<Rightarrow> string \<Rightarrow> AssistantTurn outcome \<times> StudioStore" where
  "FindAssistantTurnByClientUserMessageID m scope threadID client =
     in_scope scope m
       (case find (\<lambda>t. tn_ClientUserMessageID t = TrimSpace client) (map snd (turns_of m scope (TrimSpace threadID))) of
          None \<Rightarrow> Inl ErrAssistantTurnNotFound | Some t \<Rightarrow> Inr t, m)"

definition ActiveAssistantTurn :: "StudioStore \<Rightarrow> StudioScope \<Rightarrow> string \<Rightarrow> AssistantTurn outcome \<times> StudioStore" where
  "ActiveAssistantTurn m scope threadID =
     in_scope scope m
       (case find (\<lambda>t. \<not> assistantTurnStatusTerminal (tn_Status t)) (map snd (turns_of m scope (TrimSpace threadID))) of
          None \<Rightarrow> Inl ErrAssistantTurnNotFound | Some t \<Rightarrow> Inr t, m)"

definition zero_thread :: AssistantThread where
  "zero_thread = \<lparr>th_ID = [], th_Title = [], th_Status = [], th_ActorID = [], th_ReasoningEffortByModel = [],
     th_CreatedAt = 0, th_UpdatedAt = 0\<rparr>"

definition same_turn_contract :: "AssistantTurn \<Rightarrow> AssistantTurn \<Rightarrow> bool" where
  "same_turn_contract a b \<longleftrightarrow> tn_ActorID a = tn_ActorID b \<and> tn_ClientUserMessageID a = tn_ClientUserMessageID b \<and>
     tn_Mode a = tn_Mode b \<and> tn_ApprovalMode a = tn_ApprovalMode b"

definition project_turn :: "StudioScope \<Rightarrow> AssistantTurn \<Rightarrow> StudioStore \<Rightarrow> StudioStore" where
  "project_turn scope prepared m =
     (let thread = mgetd zero_thread (inner (assistantThreads m) scope) (tn_ThreadID prepared);
          thread = thread\<lparr>th_Status := (if assistantTurnStatusTerminal (tn_Status prepared) then ThreadIdle else ThreadActive),
            th_UpdatedAt := tn_UpdatedAt prepared\<rparr>
      in m\<lparr>assistantThreads := put2 scope (tn_ThreadID prepared) thread (assistantThreads m)\<rparr>)"

definition put_turn :: "StudioScope \<Rightarrow> AssistantTurn \<Rightarrow> StudioStore \<Rightarrow> StudioStore" where
  "put_turn scope turn m =
     m\<lparr>assistantTurns := put2 scope (tn_ThreadID turn) (mput (tn_ID turn) turn (turns_of m scope (tn_ThreadID turn))) (assistantTurns m)\<rparr>"

definition SaveAssistantTurn :: "time \<Rightarrow> StudioStore \<Rightarrow> StudioScope \<Rightarrow> AssistantTurn \<Rightarrow> unit outcome \<times> StudioStore" where
  "SaveAssistantTurn now m scope turn =
     in_scope scope m (case prepareAssistantTurn now turn of Inl e \<Rightarrow> (Inl e, m)
      | Inr prepared \<Rightarrow>
          (case mget (turns_of m scope (tn_ThreadID prepared)) (tn_ID prepared) of None \<Rightarrow> (Inl ErrAssistantTurnNotFound, m)
           | Some existing \<Rightarrow>
               if \<not> same_turn_contract existing prepared then (Inl ErrAssistantTurnConflict, m)
               else let prepared = prepared\<lparr>tn_CreatedAt := tn_CreatedAt existing\<rparr> in
                 (Inr (), project_turn scope prepared (put_turn scope prepared m))))"

definition SaveAssistantTurnWithEvent ::
  "time \<Rightarrow> StudioStore \<Rightarrow> StudioScope \<Rightarrow> AssistantTurn \<Rightarrow> AssistantThreadEvent \<Rightarrow> int \<Rightarrow> unit outcome \<times> StudioStore" where
  "SaveAssistantTurnWithEvent now m scope turn event expectedSequence =
     in_scope scope m (case prepareAssistantTurn now turn of Inl e \<Rightarrow> (Inl e, m)
      | Inr prepared \<Rightarrow>
        (let threadID = tn_ThreadID prepared in
         case prepareAssistantThreadEvent now (event\<lparr>te_ThreadID := threadID, te_TurnID := tn_ID prepared\<rparr>) of Inl e \<Rightarrow> (Inl e, m)
         | Inr preparedEvent \<Rightarrow>
          (case mget (turns_of m scope threadID) (tn_ID prepared) of None \<Rightarrow> (Inl ErrAssistantTurnNotFound, m)
           | Some existing \<Rightarrow>
               let currentSequence = latestAssistantThreadEventSequence (thread_log m scope threadID) in
               if \<not> same_turn_contract existing prepared then (Inl ErrAssistantTurnConflict, m)
               else if currentSequence \<noteq> expectedSequence then (Inl ErrAssistantThreadEventConflict, m)
               else let prepared = prepared\<lparr>tn_CreatedAt := tn_CreatedAt existing\<rparr>;
                        m = append_events scope threadID [preparedEvent\<lparr>te_Sequence := currentSequence + 1\<rparr>] (put_turn scope prepared m)
                 in (Inr (), project_turn scope prepared m))))"

section \<open>Reading the log\<close>

text \<open>The first event after a sequence number, and the first at or above one, by binary search.\<close>

definition after_index :: "AssistantThreadEvent list \<Rightarrow> int \<Rightarrow> nat" where
  "after_index events after = Search (\<lambda>i. te_Sequence (events ! i) > after) 0 (length events)"

definition before_index :: "AssistantThreadEvent list \<Rightarrow> int \<Rightarrow> nat" where
  "before_index events before =
     (if before > 0 then Search (\<lambda>i. te_Sequence (events ! i) \<ge> before) 0 (length events) else length events)"

definition page_after :: "AssistantThreadEvent list \<Rightarrow> int \<Rightarrow> nat \<Rightarrow> AssistantThreadEvent list" where
  "page_after events after limit = take limit (drop (after_index events after) events)"

definition page_before :: "AssistantThreadEvent list \<Rightarrow> int \<Rightarrow> nat \<Rightarrow> AssistantThreadEvent list" where
  "page_before events before limit =
     (let stop = before_index events before; start = stop - limit in drop start (take stop events))"

definition of_thread :: "StudioStore \<Rightarrow> StudioScope \<Rightarrow> string \<Rightarrow> 'a \<Rightarrow> 'a outcome \<times> StudioStore" where
  "of_thread m scope threadID r =
     (if thread_row m scope threadID = None then Inl ErrAssistantThreadNotFound else Inr r, m)"

definition ListAssistantThreadEvents ::
  "StudioStore \<Rightarrow> StudioScope \<Rightarrow> string \<Rightarrow> int \<Rightarrow> int \<Rightarrow> AssistantThreadEvent list outcome \<times> StudioStore" where
  "ListAssistantThreadEvents m scope threadID after limit =
     in_scope scope m (of_thread m scope (TrimSpace threadID)
       (page_after (thread_log m scope (TrimSpace threadID)) after (normalizeLimit limit)))"

definition ListAssistantThreadEventsBefore ::
  "StudioStore \<Rightarrow> StudioScope \<Rightarrow> string \<Rightarrow> int \<Rightarrow> int \<Rightarrow> AssistantThreadEvent list outcome \<times> StudioStore" where
  "ListAssistantThreadEventsBefore m scope threadID before limit =
     in_scope scope m (of_thread m scope (TrimSpace threadID)
       (page_before (thread_log m scope (TrimSpace threadID)) before (normalizeLimit limit)))"

definition ListAssistantThreadTurnEventsBefore ::
  "StudioStore \<Rightarrow> StudioScope \<Rightarrow> string \<Rightarrow> int \<Rightarrow> int \<Rightarrow> AssistantThreadEvent list outcome \<times> StudioStore" where
  "ListAssistantThreadTurnEventsBefore m scope threadID before limit =
     in_scope scope m (of_thread m scope (TrimSpace threadID)
       (page_before (turn_log m scope (TrimSpace threadID)) before (normalizeLimit limit)))"

definition ListAssistantThreadTurnEventsAfter ::
  "StudioStore \<Rightarrow> StudioScope \<Rightarrow> string \<Rightarrow> string \<Rightarrow> string \<Rightarrow> int \<Rightarrow> int \<Rightarrow> AssistantThreadEvent list outcome \<times> StudioStore" where
  "ListAssistantThreadTurnEventsAfter m scope threadID turnID eventType after limit =
     in_scope scope m
       (if TrimSpace turnID = [] \<or> TrimSpace eventType = []
        then (Inl (StudioErrorf ''assistant turn id and event type are required''), m)
        else of_thread m scope (TrimSpace threadID)
          (page_after (turn_index m scope (TrimSpace threadID) (TrimSpace turnID, TrimSpace eventType)) after (normalizeLimit limit)))"

definition ListAssistantThreadTurnEventsByTypeAfter ::
  "StudioStore \<Rightarrow> StudioScope \<Rightarrow> string \<Rightarrow> string \<Rightarrow> int \<Rightarrow> int \<Rightarrow> AssistantThreadEvent list outcome \<times> StudioStore" where
  "ListAssistantThreadTurnEventsByTypeAfter m scope threadID eventType after limit =
     in_scope scope m
       (if TrimSpace eventType = [] then (Inl (StudioErrorf ''assistant thread event type is required''), m)
        else let events = turn_log m scope (TrimSpace threadID) in
          of_thread m scope (TrimSpace threadID)
            (take (normalizeLimit limit)
              (filter (\<lambda>e. te_Type e = TrimSpace eventType) (drop (after_index events after) events))))"

definition GetAssistantThreadTurnStartSequence ::
  "StudioStore \<Rightarrow> StudioScope \<Rightarrow> string \<Rightarrow> string \<Rightarrow> int outcome \<times> StudioStore" where
  "GetAssistantThreadTurnStartSequence m scope threadID turnID =
     in_scope scope m
       (let threadID = TrimSpace threadID; n = mgetd 0 (turn_starts m scope threadID) (TrimSpace turnID) in
        if thread_row m scope threadID = None then Inl ErrAssistantThreadNotFound
        else if n > 0 then Inr n else Inl ErrAssistantTurnNotFound, m)"

definition AssistantThreadActivity :: "StudioStore \<Rightarrow> StudioScope \<Rightarrow> string \<Rightarrow> (nat \<times> time) outcome \<times> StudioStore" where
  "AssistantThreadActivity m scope threadID =
     in_scope scope m
       (case thread_row m scope (TrimSpace threadID) of None \<Rightarrow> Inl ErrAssistantThreadNotFound
        | Some thread \<Rightarrow>
            Inr (fold (\<lambda>(_, turn) (count, latest). (count + 1, max latest (tn_UpdatedAt turn)))
              (turns_of m scope (TrimSpace threadID)) (0, th_UpdatedAt thread)), m)"

end
