(* ===== verification/StudioRuns.thy ===== *)
theory StudioRuns
  imports StudioStore
begin

text \<open>
  Messages, runs, run events and the conversation of a project, with the bootstrap permits and approval
  preferences (\<open>providers/app-studio/store/memory.go\<close>). Operations whose names the agents store has
  too carry the prefix \<open>as_\<close>. The conversation's high-water mark starts at zero and moves by one with
  each item, so it is an unbounded integer; revisions, which a caller supplies, are wrapped to 64 bits.
\<close>

section \<open>Bootstrap permits\<close>

definition CreateProjectBootstrapPermit :: "StudioStore \<Rightarrow> StudioScope \<Rightarrow> string \<Rightarrow> string \<Rightarrow> unit outcome \<times> StudioStore" where
  "CreateProjectBootstrapPermit m scope actor promptDigest =
     in_scope scope m (let actor = TrimSpace actor; promptDigest = TrimSpace promptDigest in
       if actor = [] \<or> promptDigest = [] then (Inl (StudioErrorf ''bootstrap permit actor and prompt digest are required''), m)
       else case map_of (bootstrapPermits m) scope of
         Some existing \<Rightarrow>
           (if bp_actor existing \<noteq> actor \<or> bp_promptDigest existing \<noteq> promptDigest
            then Inl ErrProjectBootstrapPermitConflict else Inr (), m)
       | None \<Rightarrow>
           (Inr (), m\<lparr>bootstrapPermits := AList.update scope
              \<lparr>bp_actor = actor, bp_promptDigest = promptDigest, bp_clientRequestID = []\<rparr> (bootstrapPermits m)\<rparr>))"

definition ConsumeProjectBootstrapPermit ::
  "StudioStore \<Rightarrow> StudioScope \<Rightarrow> string \<Rightarrow> string \<Rightarrow> string \<Rightarrow> bool outcome \<times> StudioStore" where
  "ConsumeProjectBootstrapPermit m scope actor promptDigest clientRequestID =
     in_scope scope m
       (let actor = TrimSpace actor; promptDigest = TrimSpace promptDigest; clientRequestID = TrimSpace clientRequestID in
       if actor = [] \<or> promptDigest = [] \<or> clientRequestID = []
       then (Inl (StudioErrorf ''bootstrap permit actor, prompt digest, and client request ID are required''), m)
       else case map_of (bootstrapPermits m) scope of
         None \<Rightarrow> (Inr False, m)
       | Some permit \<Rightarrow>
           if bp_actor permit \<noteq> actor \<or> bp_promptDigest permit \<noteq> promptDigest then (Inr False, m)
           else if bp_clientRequestID permit \<noteq> [] \<and> bp_clientRequestID permit \<noteq> clientRequestID
           then (Inl ErrProjectBootstrapPermitConflict, m)
           else (Inr True, m\<lparr>bootstrapPermits := AList.update scope
             (permit\<lparr>bp_clientRequestID := clientRequestID\<rparr>) (bootstrapPermits m)\<rparr>))"

section \<open>Approval preferences\<close>

definition GetAssistantApprovalPreference ::
  "StudioStore \<Rightarrow> StudioScope \<Rightarrow> string \<Rightarrow> AssistantApprovalPreference outcome \<times> StudioStore" where
  "GetAssistantApprovalPreference m scope actor =
     in_scope scope m (let actor = TrimSpace actor in
       (if actor = [] then Inl (StudioErrorf ''assistant approval preference actor is required'')
        else case mget (inner (approvalModes m) scope) actor of
          Some preference \<Rightarrow> Inr preference
        | None \<Rightarrow> Inr \<lparr>ap_ActorID = actor, ap_Mode = ''on_request'', ap_UpdatedAt = 0\<rparr>, m))"

definition SetAssistantApprovalPreference ::
  "time \<Rightarrow> StudioStore \<Rightarrow> StudioScope \<Rightarrow> AssistantApprovalPreference \<Rightarrow> AssistantApprovalPreference outcome \<times> StudioStore" where
  "SetAssistantApprovalPreference now m scope preference =
     in_scope scope m (let actor = TrimSpace (ap_ActorID preference) in
       if actor = [] then (Inl (StudioErrorf ''assistant approval preference actor is required''), m)
       else case NormalizeAssistantApprovalMode (ap_Mode preference) of Inl e \<Rightarrow> (Inl e, m)
       | Inr mode \<Rightarrow>
           let preference = preference\<lparr>ap_ActorID := actor, ap_Mode := mode,
                 ap_UpdatedAt := (if IsZero (ap_UpdatedAt preference) then now else ap_UpdatedAt preference)\<rparr>
           in (Inr preference, m\<lparr>approvalModes := put2 scope actor preference (approvalModes m)\<rparr>))"

section \<open>Messages\<close>

definition studio_messages :: "StudioStore \<Rightarrow> StudioScope \<Rightarrow> StudioMessage gomap" where
  "studio_messages m scope = inner (studioMessages m) scope"

definition smsg_stamp :: "StudioMessage \<Rightarrow> stamp" where
  "smsg_stamp x = Stamp (smsg_CreatedAt x) (smsg_ID x)"

definition sortedMessages :: "StudioMessage gomap \<Rightarrow> StudioMessage list" where
  "sortedMessages msgs = oldest_first smsg_stamp (map snd msgs)"

text \<open>Writing a message under its ID, unless the ID is another actor's.\<close>

definition actor_differs :: "StudioMessage gomap \<Rightarrow> StudioMessage \<Rightarrow> bool" where
  "actor_differs msgs msg \<longleftrightarrow>
     (case mget msgs (smsg_ID msg) of None \<Rightarrow> False | Some existing \<Rightarrow> smsg_ActorID existing \<noteq> smsg_ActorID msg)"

definition put_message :: "StudioScope \<Rightarrow> StudioMessage \<Rightarrow> StudioStore \<Rightarrow> StudioStore" where
  "put_message scope msg m = m\<lparr>studioMessages := put2 scope (smsg_ID msg) msg (studioMessages m)\<rparr>"

definition allocate_messages :: "StudioScope \<Rightarrow> StudioStore \<Rightarrow> StudioStore" where
  "allocate_messages scope m = m\<lparr>studioMessages := set_inner scope (studio_messages m scope) (studioMessages m)\<rparr>"

definition as_AppendMessage :: "time \<Rightarrow> StudioStore \<Rightarrow> StudioScope \<Rightarrow> StudioMessage \<Rightarrow> unit outcome \<times> StudioStore" where
  "as_AppendMessage now m scope msg =
     in_scope scope m
       (if smsg_ID msg = [] then (Inl (StudioErrorf ''message id is required''), m)
        else let msg = prepareMessage now scope msg; m = allocate_messages scope m in
          if actor_differs (studio_messages m scope) msg then (Inl (StudioErrorf ''message actor is immutable''), m)
          else (Inr (), put_message scope msg m))"

text \<open>The page starts at the first message past the cursor.\<close>

definition as_ListMessages ::
  "StudioStore \<Rightarrow> StudioScope \<Rightarrow> int \<Rightarrow> cursor \<Rightarrow> (StudioMessage list \<times> cursor) outcome \<times> StudioStore" where
  "as_ListMessages m scope limit cursor =
     in_scope scope m (let all = sortedMessages (studio_messages m scope) in
       (case studio_decodeCursor cursor of Inl e \<Rightarrow> Inl e
        | Inr bound \<Rightarrow>
            let rest = (case bound_of bound of None \<Rightarrow> all | Some c \<Rightarrow> dropWhile (\<lambda>msg. \<not> smsg_stamp msg > c) all);
                page = take (normalizeLimit limit) rest
            in Inr (page, if length page < length rest then cursor_of (Some (smsg_stamp (last page))) else NoCursor), m))"

definition as_LoadRecentMessages :: "StudioStore \<Rightarrow> StudioScope \<Rightarrow> int \<Rightarrow> StudioMessage list outcome \<times> StudioStore" where
  "as_LoadRecentMessages m scope limit =
     in_scope scope m (let all = sortedMessages (studio_messages m scope) in
       (Inr (drop (length all - normalizeLimit limit) all), m))"

fun messages_by_id :: "StudioMessage gomap \<Rightarrow> string list \<Rightarrow> string list \<Rightarrow> StudioMessage list" where
  "messages_by_id msgs seen [] = []"
| "messages_by_id msgs seen (raw # rest) =
     (let ident = TrimSpace raw in
      if ident = [] \<or> ident \<in> set seen then messages_by_id msgs seen rest
      else (case mget msgs ident of None \<Rightarrow> [] | Some message \<Rightarrow> [message]) @
        messages_by_id msgs (ident # seen) rest)"

definition GetMessagesByIDs :: "StudioStore \<Rightarrow> StudioScope \<Rightarrow> string list \<Rightarrow> StudioMessage list outcome \<times> StudioStore" where
  "GetMessagesByIDs m scope messageIDs = in_scope scope m (Inr (messages_by_id (studio_messages m scope) [] messageIDs), m)"

section \<open>Runs\<close>

definition studio_runs :: "StudioStore \<Rightarrow> StudioScope \<Rightarrow> AssistantRun gomap" where
  "studio_runs m scope = inner (assistantRuns m) scope"

definition put_arun :: "StudioScope \<Rightarrow> AssistantRun \<Rightarrow> StudioStore \<Rightarrow> StudioStore" where
  "put_arun scope run m = m\<lparr>assistantRuns := put2 scope (arun_ID run) run (assistantRuns m)\<rparr>"

text \<open>Two runs of a thread that may not both be stored.\<close>

definition run_clash :: "AssistantRun \<Rightarrow> AssistantRun \<Rightarrow> bool" where
  "run_clash run existing \<longleftrightarrow> arun_ThreadID existing = arun_ThreadID run \<and>
     (arun_ClientRequestID run \<noteq> [] \<and> arun_ClientRequestID existing = arun_ClientRequestID run \<or>
      \<not> assistantRunStatusTerminal (arun_Status run) \<and> \<not> assistantRunStatusTerminal (arun_Status existing))"

definition validateUniqueAssistantRun :: "AssistantRun gomap \<Rightarrow> AssistantRun \<Rightarrow> studio_error option" where
  "validateUniqueAssistantRun rs run =
     (if list_ex (\<lambda>(ident, existing). ident \<noteq> arun_ID run \<and> run_clash run existing) rs
      then Some ErrAssistantRunConflict else None)"

text \<open>Runs are filed under their IDs. The inner map is allocated before the checks; an empty one that a
  refused write leaves behind reads the same.\<close>

definition SaveAssistantRun :: "time \<Rightarrow> StudioStore \<Rightarrow> StudioScope \<Rightarrow> AssistantRun \<Rightarrow> unit outcome \<times> StudioStore" where
  "SaveAssistantRun now m scope run =
     in_scope scope m (case validateAssistantRun run of Some e \<Rightarrow> (Inl e, m)
      | None \<Rightarrow>
          let run = prepareAssistantRun now scope run;
              m = m\<lparr>assistantRuns := set_inner scope (studio_runs m scope) (assistantRuns m)\<rparr>;
              save = (\<lambda>run. case validateUniqueAssistantRun (studio_runs m scope) run of Some e \<Rightarrow> (Inl e, m)
                | None \<Rightarrow> (Inr (), put_arun scope run m))
          in case mget (studio_runs m scope) (arun_ID run) of None \<Rightarrow> save run
          | Some existing \<Rightarrow>
              if arun_ThreadID run \<noteq> arun_ThreadID existing then (Inl ErrAssistantRunConflict, m)
              else let run = run\<lparr>arun_CreatedAt := arun_CreatedAt existing,
                     arun_ClientRequestID := arun_ClientRequestID existing,
                     arun_UserMessageID := arun_UserMessageID existing, arun_Revision := arun_Revision existing\<rparr>
                in if arun_Mode run \<noteq> arun_Mode existing \<or> arun_ApprovalMode run \<noteq> arun_ApprovalMode existing
                then (Inl ErrAssistantRunConflict, m) else save run)"

definition CreateAssistantRun ::
  "time \<Rightarrow> StudioStore \<Rightarrow> StudioScope \<Rightarrow> StudioMessage \<Rightarrow> StudioMessage \<Rightarrow> AssistantRun \<Rightarrow>
   AssistantRun outcome \<times> StudioStore" where
  "CreateAssistantRun now m scope user assistant run =
     in_scope scope m (case validateNewAssistantRun user assistant run of Some e \<Rightarrow> (Inl e, m)
      | None \<Rightarrow>
          let user = prepareMessage now scope user; assistant = prepareMessage now scope assistant;
              run = prepareAssistantRun now scope run; rs = studio_runs m scope
          in case mget rs (arun_ID run) of
            Some existing \<Rightarrow>
              (if arun_ThreadID existing \<noteq> arun_ThreadID run \<or> arun_ClientRequestID existing \<noteq> arun_ClientRequestID run
               then Inl ErrAssistantRunConflict else Inr existing, m)
          | None \<Rightarrow>
              (case find (\<lambda>existing. arun_ThreadID existing = arun_ThreadID run \<and>
                  arun_ClientRequestID existing = arun_ClientRequestID run) (map snd rs) of
                 Some existing \<Rightarrow> (Inr existing, m)
               | None \<Rightarrow>
                   (case validateUniqueAssistantRun rs run of Some e \<Rightarrow> (Inl e, m)
                    | None \<Rightarrow> (Inr run, put_arun scope run (put_message scope assistant (put_message scope user m))))))"

text \<open>Writing the lifecycle message into a project that has no message map panics.\<close>

definition RequestAssistantRunStopWithAssistantMessage ::
  "time \<Rightarrow> StudioStore \<Rightarrow> StudioScope \<Rightarrow> string \<Rightarrow> int \<Rightarrow> StudioMessage \<Rightarrow> time \<Rightarrow> AssistantRun outcome \<times> StudioStore" where
  "RequestAssistantRunStopWithAssistantMessage clock m scope runID expectedRunRevision assistant now =
     in_scope scope m
       (if runID = [] \<or> expectedRunRevision < 1 then (Inl (StudioErrorf ''assistant run and revision are required''), m)
        else let now = (if IsZero now then clock else now) in
        case mget (studio_runs m scope) runID of None \<Rightarrow> (Inl ErrAssistantRunConflict, m)
        | Some run \<Rightarrow>
            if arun_Revision run \<noteq> expectedRunRevision \<or> arun_Status run \<noteq> RunRunning then (Inl ErrAssistantRunConflict, m)
            else let run = run\<lparr>arun_Status := RunStopping, arun_Revision := i64 (arun_Revision run + 1), arun_UpdatedAt := now\<rparr>;
                     save = (\<lambda>m. (Inr run, m\<lparr>assistantRuns := put2 scope runID run (assistantRuns m)\<rparr>))
              in if smsg_ID assistant = [] then save m
              else if smsg_Role assistant \<noteq> ''assistant'' \<or> smsg_ID assistant \<noteq> arun_ActiveMessageID run
              then (Inl (StudioErrorf ''assistant lifecycle message must be the active run message''), m)
              else let assistant = prepareMessage clock scope assistant in
                if actor_differs (studio_messages m scope) assistant
                then (Inl (StudioErrorf ''message actor is immutable''), m)
                else if \<not> allocated (studioMessages m) scope then (Inl NilMapPanic, m)
                else save (put_message scope assistant m))"

text \<open>A snapshot whose third message, say, is refused has already written the first two.\<close>

fun put_messages :: "StudioScope \<Rightarrow> StudioMessage list \<Rightarrow> StudioStore \<Rightarrow> studio_error option \<times> StudioStore" where
  "put_messages scope [] m = (None, m)"
| "put_messages scope (message # rest) m =
     (if actor_differs (studio_messages m scope) message then (Some (StudioErrorf ''message actor is immutable''), m)
      else put_messages scope rest (put_message scope message m))"

definition SaveAssistantRunSnapshot ::
  "time \<Rightarrow> StudioStore \<Rightarrow> StudioScope \<Rightarrow> AssistantRun \<Rightarrow> StudioMessage list \<Rightarrow> int \<Rightarrow> unit outcome \<times> StudioStore" where
  "SaveAssistantRunSnapshot now m scope run ms expectedRevision =
     in_scope scope m (case validateAssistantRunSnapshot run ms expectedRevision of Some e \<Rightarrow> (Inl e, m)
      | None \<Rightarrow>
          let run = prepareAssistantRun now scope run; prepared = map (prepareMessage now scope) ms
          in case mget (studio_runs m scope) (arun_ID run) of None \<Rightarrow> (Inl ErrAssistantRunConflict, m)
          | Some current \<Rightarrow>
              if arun_Revision current \<noteq> expectedRevision then (Inl ErrAssistantRunConflict, m)
              else if arun_Mode run \<noteq> arun_Mode current \<or> arun_ApprovalMode run \<noteq> arun_ApprovalMode current
              then (Inl ErrAssistantRunConflict, m)
              else if arun_ThreadID run \<noteq> arun_ThreadID current then (Inl ErrAssistantRunConflict, m)
              else let run = run\<lparr>arun_CreatedAt := arun_CreatedAt current,
                     arun_ClientRequestID := arun_ClientRequestID current, arun_UserMessageID := arun_UserMessageID current\<rparr>
                in case validateUniqueAssistantRun (studio_runs m scope) run of Some e \<Rightarrow> (Inl e, m)
                | None \<Rightarrow>
                    (case put_messages scope prepared (allocate_messages scope m) of
                       (Some e, m) \<Rightarrow> (Inl e, m)
                     | (None, m) \<Rightarrow> (Inr (), put_arun scope run m)))"

definition ClaimAssistantRun ::
  "time \<Rightarrow> StudioStore \<Rightarrow> StudioScope \<Rightarrow> string \<Rightarrow> string \<Rightarrow> time \<Rightarrow> AssistantRun outcome \<times> StudioStore" where
  "ClaimAssistantRun clock m scope ident requestID now =
     in_scope scope m
       (if ident = [] \<or> requestID = [] then (Inl (StudioErrorf ''assistant run id and request id are required''), m)
        else let now = (if IsZero now then clock else now) in
        case mget (studio_runs m scope) ident of None \<Rightarrow> (Inl ErrAssistantRunNotFound, m)
        | Some run \<Rightarrow>
            if \<not> assistantRunStatusWaitsForInput (arun_Status run) \<or> arun_RequestID run \<noteq> requestID
            then (Inl (StudioErrorf ''assistant run is not waiting for this request''), m)
            else let run = run\<lparr>arun_Status := RunRunning, arun_UpdatedAt := now\<rparr> in
              (Inr run, m\<lparr>assistantRuns := put2 scope ident run (assistantRuns m)\<rparr>))"

definition GetAssistantRun :: "StudioStore \<Rightarrow> StudioScope \<Rightarrow> string \<Rightarrow> AssistantRun outcome \<times> StudioStore" where
  "GetAssistantRun m scope ident =
     in_scope scope m
       (if ident = [] then Inl (StudioErrorf ''assistant run id is required'')
        else case mget (studio_runs m scope) ident of None \<Rightarrow> Inl ErrAssistantRunNotFound | Some run \<Rightarrow> Inr run, m)"

definition find_arun :: "(AssistantRun \<Rightarrow> bool) \<Rightarrow> AssistantRun list \<Rightarrow> AssistantRun outcome" where
  "find_arun P rs = (case find P rs of None \<Rightarrow> Inl ErrAssistantRunNotFound | Some run \<Rightarrow> Inr run)"

definition FindAssistantRunByClientRequestID :: "StudioStore \<Rightarrow> StudioScope \<Rightarrow> string \<Rightarrow> AssistantRun outcome \<times> StudioStore" where
  "FindAssistantRunByClientRequestID m scope clientRequestID =
     in_scope scope m
       (if clientRequestID = [] then Inl (StudioErrorf ''assistant run client request id is required'')
        else find_arun (\<lambda>run. arun_ThreadID run = [] \<and> arun_ClientRequestID run = clientRequestID)
          (map snd (studio_runs m scope)), m)"

definition FindAssistantRunByThreadClientRequestID ::
  "StudioStore \<Rightarrow> StudioScope \<Rightarrow> string \<Rightarrow> string \<Rightarrow> AssistantRun outcome \<times> StudioStore" where
  "FindAssistantRunByThreadClientRequestID m scope threadID clientRequestID =
     in_scope scope m (let threadID = TrimSpace threadID; clientRequestID = TrimSpace clientRequestID in
       (if threadID = [] \<or> clientRequestID = []
        then Inl (StudioErrorf ''assistant thread and client request ids are required'')
        else find_arun (\<lambda>run. arun_ThreadID run = threadID \<and> arun_ClientRequestID run = clientRequestID)
          (map snd (studio_runs m scope)), m))"

fun latest_arun :: "AssistantRun option \<Rightarrow> AssistantRun list \<Rightarrow> AssistantRun option" where
  "latest_arun latest [] = latest"
| "latest_arun latest (run # rs) =
     latest_arun
       (case latest of None \<Rightarrow> Some run
        | Some l \<Rightarrow> if arun_UpdatedAt run > arun_UpdatedAt l \<or> arun_UpdatedAt run = arun_UpdatedAt l \<and> arun_ID run > arun_ID l
            then Some run else Some l) rs"

definition LatestAssistantRun :: "StudioStore \<Rightarrow> StudioScope \<Rightarrow> AssistantRun outcome \<times> StudioStore" where
  "LatestAssistantRun m scope =
     in_scope scope m
       (case latest_arun None (map snd (studio_runs m scope)) of None \<Rightarrow> Inl ErrAssistantRunNotFound | Some run \<Rightarrow> Inr run, m)"

definition LatestAssistantRunForThread :: "StudioStore \<Rightarrow> StudioScope \<Rightarrow> string \<Rightarrow> AssistantRun outcome \<times> StudioStore" where
  "LatestAssistantRunForThread m scope threadID =
     in_scope scope m (let threadID = TrimSpace threadID in
       (if threadID = [] then Inl (StudioErrorf ''assistant thread id is required'')
        else case latest_arun None (filter (\<lambda>run. arun_ThreadID run = threadID) (map snd (studio_runs m scope))) of
          None \<Rightarrow> Inl ErrAssistantRunNotFound | Some run \<Rightarrow> Inr run, m))"

definition ListActiveAssistantRuns :: "StudioStore \<Rightarrow> StudioScope \<Rightarrow> AssistantRun list outcome \<times> StudioStore" where
  "ListActiveAssistantRuns m scope =
     in_scope scope m
       (Inr (oldest_first (\<lambda>run. Stamp (arun_CreatedAt run) (arun_ID run))
          (filter (\<lambda>run. \<not> assistantRunStatusTerminal (arun_Status run)) (map snd (studio_runs m scope)))), m)"

section \<open>Run events\<close>

definition run_log :: "StudioStore \<Rightarrow> StudioScope \<Rightarrow> string \<Rightarrow> AssistantRunEvent list" where
  "run_log m scope runID = mgetd [] (inner (assistantEvents m) scope) runID"

definition run_lookup :: "StudioStore \<Rightarrow> StudioScope \<Rightarrow> lookup_key \<Rightarrow> AssistantRunEvent list" where
  "run_lookup m scope key =
     (case map_of (inner (assistantEventLookup m) scope) key of None \<Rightarrow> [] | Some es \<Rightarrow> es)"

definition AppendAssistantRunEvent ::
  "time \<Rightarrow> StudioStore \<Rightarrow> StudioScope \<Rightarrow> AssistantRunEvent \<Rightarrow> int \<Rightarrow> AssistantRunEvent outcome \<times> StudioStore" where
  "AppendAssistantRunEvent now m scope event expectedSequence =
     (case prepareAssistantRunEvent now scope event expectedSequence of Inl e \<Rightarrow> (Inl e, m)
      | Inr event \<Rightarrow>
          if mget (studio_runs m scope) (aev_RunID event) = None then (Inl ErrAssistantRunNotFound, m)
          else let events = run_log m scope (aev_RunID event);
                   currentSequence = (if events = [] then 0 else aev_Sequence (last events));
                   key = (aev_RunID event, aev_Type event);
                   m = m\<lparr>assistantEvents := set_inner scope (inner (assistantEvents m) scope) (assistantEvents m)\<rparr>
            in if currentSequence \<noteq> expectedSequence then (Inl ErrAssistantRunEventConflict, m)
            else (Inr event,
              m\<lparr>assistantEvents := put2 scope (aev_RunID event) (events @ [event]) (assistantEvents m),
                assistantEventLookup := set_inner scope
                  (AList.update key (run_lookup m scope key @ [event]) (inner (assistantEventLookup m) scope))
                  (assistantEventLookup m)\<rparr>))"

definition ListAssistantRunEvents ::
  "StudioStore \<Rightarrow> StudioScope \<Rightarrow> string \<Rightarrow> int \<Rightarrow> int \<Rightarrow> AssistantRunEvent list outcome \<times> StudioStore" where
  "ListAssistantRunEvents m scope runID afterSequence limit =
     (case validateAssistantRunEventList scope runID afterSequence of Inl e \<Rightarrow> (Inl e, m)
      | Inr runID \<Rightarrow>
          (if mget (studio_runs m scope) runID = None then Inl ErrAssistantRunNotFound
           else Inr (take (normalizeLimit limit) (filter (\<lambda>event. \<not> aev_Sequence event \<le> afterSequence) (run_log m scope runID))), m))"

fun events_of_runs :: "(string \<Rightarrow> AssistantRunEvent list) \<Rightarrow> nat \<Rightarrow> string list \<Rightarrow> string list \<Rightarrow> AssistantRunEvent list" where
  "events_of_runs stored perRunLimit seen [] = []"
| "events_of_runs stored perRunLimit seen (raw # rest) =
     (let runID = TrimSpace raw in
      if runID = [] \<or> runID \<in> set seen then events_of_runs stored perRunLimit seen rest
      else drop (length (stored runID) - perRunLimit) (stored runID) @ events_of_runs stored perRunLimit (runID # seen) rest)"

definition ListAssistantRunEventsByRuns ::
  "StudioStore \<Rightarrow> StudioScope \<Rightarrow> string list \<Rightarrow> string \<Rightarrow> int \<Rightarrow> AssistantRunEvent list outcome \<times> StudioStore" where
  "ListAssistantRunEventsByRuns m scope runIDs eventType perRunLimit =
     in_scope scope m (let eventType = TrimSpace eventType in
       (Inr (if eventType = [] \<or> perRunLimit \<le> 0 then []
         else events_of_runs (\<lambda>runID. run_lookup m scope (runID, eventType)) (nat perRunLimit) [] runIDs), m))"

section \<open>The conversation\<close>

definition conversation :: "StudioStore \<Rightarrow> StudioScope \<Rightarrow> AssistantConversationItem list" where
  "conversation m scope = inner (conversationItems m) scope"

definition high_water :: "StudioStore \<Rightarrow> StudioScope \<Rightarrow> int" where
  "high_water m scope = (case map_of (conversationSequences m) scope of None \<Rightarrow> 0 | Some n \<Rightarrow> n)"

definition AppendAssistantConversationItem ::
  "time \<Rightarrow> StudioStore \<Rightarrow> StudioScope \<Rightarrow> AssistantConversationItem \<Rightarrow> AssistantConversationItem outcome \<times> StudioStore" where
  "AppendAssistantConversationItem now m scope item =
     (case prepareAssistantConversationItem now scope item of Inl e \<Rightarrow> (Inl e, m)
      | Inr prepared \<Rightarrow>
          (case find (\<lambda>existing. ci_ID existing = ci_ID prepared \<and> ci_RunID existing = ci_RunID prepared) (conversation m scope) of
             Some existing \<Rightarrow>
               (if assistantConversationItemsMatch existing prepared then Inr existing else Inl ErrAssistantConversationItemConflict, m)
           | None \<Rightarrow>
               let sequence = fold max (map ci_Sequence (conversation m scope)) (high_water m scope) + 1;
                   prepared = prepared\<lparr>ci_Sequence := sequence\<rparr>
               in (Inr prepared, m\<lparr>conversationSequences := AList.update scope sequence (conversationSequences m),
                    conversationItems := set_inner scope (conversation m scope @ [prepared]) (conversationItems m)\<rparr>)))"

text \<open>The turns of the thread are looked up under its ID as given.\<close>

definition listAssistantConversationItems ::
  "StudioStore \<Rightarrow> StudioScope \<Rightarrow> string \<Rightarrow> int \<Rightarrow> int \<Rightarrow> AssistantConversationItem list outcome \<times> StudioStore" where
  "listAssistantConversationItems m scope threadID afterSequence limit =
     in_scope scope m
       (Inr (take (normalizeLimit limit)
          (filter (\<lambda>item.
             (threadID = [] \<or> mget (mgetd [] (inner (assistantTurns m) scope) threadID) (ci_RunID item) \<noteq> None) \<and>
             \<not> ci_Sequence item \<le> afterSequence) (conversation m scope))), m)"

definition ListAssistantConversationItems ::
  "StudioStore \<Rightarrow> StudioScope \<Rightarrow> int \<Rightarrow> int \<Rightarrow> AssistantConversationItem list outcome \<times> StudioStore" where
  "ListAssistantConversationItems m scope afterSequence limit = listAssistantConversationItems m scope [] afterSequence limit"

definition ListAssistantThreadConversationItems ::
  "StudioStore \<Rightarrow> StudioScope \<Rightarrow> string \<Rightarrow> int \<Rightarrow> int \<Rightarrow> AssistantConversationItem list outcome \<times> StudioStore" where
  "ListAssistantThreadConversationItems m scope threadID afterSequence limit =
     (if blank threadID then (Inl (StudioErrorf ''assistant conversation thread is required''), m)
      else listAssistantConversationItems m scope threadID afterSequence limit)"

end
