(* ===== verification/StudioAttachments.thy ===== *)
theory StudioAttachments
  imports StudioStore UploadPolicy
begin

text \<open>
  Attachments of App Studio projects (\<open>providers/app-studio/store/attachment.go\<close>, \<open>memory.go\<close>) and the
  project thumbnails (\<open>project_thumbnail.go\<close>) of the in-memory store. An attachment is a draft with an
  expiry until a turn binds it; the workspace quota counts every live attachment, the draft quotas
  those of one project. All calls of \<open>time.Now\<close> in one operation read the same instant.
\<close>

section \<open>Quotas\<close>

definition ParseInt10 :: "string \<Rightarrow> int option" where
  "ParseInt10 s =
     (let (negative, ds) = (case s of [] \<Rightarrow> (False, [])
            | c # r \<Rightarrow> if c = CHR ''-'' then (True, r) else if c = CHR ''+'' then (False, r) else (False, s));
          v = int (undigits ds)
      in if ds = [] \<or> \<not> list_all (\<lambda>c. CHR ''0'' \<le> c \<and> c \<le> CHR ''9'') ds then None
      else if negative then (if v \<le> 2 ^ 63 then Some (- v) else None)
      else if v < 2 ^ 63 then Some v else None)"

definition quota_suffixes :: "(string \<times> int) list" where
  "quota_suffixes = [(''Ki'', 2 ^ 10), (''Mi'', 2 ^ 20), (''Gi'', 2 ^ 30), (''Ti'', 2 ^ 40)]"

definition ParseAttachmentQuotaBytes :: "string \<Rightarrow> int outcome" where
  "ParseAttachmentQuotaBytes raw =
     (let raw = TrimSpace raw in
      if raw = [] then Inl (StudioErrorf ''attachment quota is empty'')
      else let (valuePart, multiplier) =
            (case find (\<lambda>(suffix, _). length raw > length suffix \<and>
                EqualFold (drop (length raw - length suffix) raw) suffix) quota_suffixes of
               None \<Rightarrow> (raw, 1)
             | Some (suffix, factor) \<Rightarrow> (TrimSpace (take (length raw - length suffix) raw), factor))
        in case ParseInt10 valuePart of
          None \<Rightarrow> Inl (StudioErrorf ''attachment quota must be a non-negative byte count or IEC value'')
        | Some v \<Rightarrow>
            if v < 0 then Inl (StudioErrorf ''attachment quota must be a non-negative byte count or IEC value'')
            else if v > (2 ^ 63 - 1) div multiplier then Inl (StudioErrorf ''attachment quota is too large'')
            else Inr (i64 (v * multiplier)))"

definition validateAttachmentQuota :: "AttachmentQuota \<Rightarrow> studio_error option" where
  "validateAttachmentQuota quota =
     (if aq_WorkspaceMaxBytes quota < 0 then Some (StudioErrorf ''attachment workspace quota cannot be negative'')
      else if aq_DraftProjectMaxBytes quota < 0
      then Some (StudioErrorf ''attachment draft project byte quota cannot be negative'')
      else if aq_DraftProjectMaxCount quota < 0
      then Some (StudioErrorf ''attachment draft project count quota cannot be negative'')
      else None)"

definition ConfigureAttachmentQuota :: "StudioStore \<Rightarrow> AttachmentQuota \<Rightarrow> unit outcome \<times> StudioStore" where
  "ConfigureAttachmentQuota m quota =
     (case validateAttachmentQuota quota of Some e \<Rightarrow> (Inl e, m) | None \<Rightarrow> (Inr (), m\<lparr>studioQuota := quota\<rparr>))"

section \<open>Preparing an upload and checking a receipt\<close>

definition prepareAttachment :: "time \<Rightarrow> StudioScope \<Rightarrow> StudioAttachment \<Rightarrow> StudioAttachment outcome" where
  "prepareAttachment now scope att =
     (case StudioScope_validate scope of Some e \<Rightarrow> Inl e
      | None \<Rightarrow>
       (let att = att\<lparr>sa_ID := TrimSpace (sa_ID att), sa_ActorID := TrimSpace (sa_ActorID att),
              sa_Filename := TrimSpace (sa_Filename att), sa_ContentType := ToLower (TrimSpace (sa_ContentType att)),
              sa_SHA256 := ToLower (TrimSpace (sa_SHA256 att))\<rparr>
        in case ValidateAttachmentID (sa_ID att) of Some e \<Rightarrow> Inl (AttachmentPolicy e)
        | None \<Rightarrow>
          if sa_ActorID att = [] then Inl (StudioErrorf ''attachment actor is required'')
          else if \<not> valid_utf8 (sa_ActorID att) then Inl (StudioErrorf ''attachment actor must be valid UTF-8'')
          else case NormalizeAttachmentContentType (sa_ContentType att) of Inl e \<Rightarrow> Inl (AttachmentPolicy e)
          | Inr contentType \<Rightarrow>
            (let att = att\<lparr>sa_ContentType := contentType,
                   sa_CreatedAt := truncate_time (if IsZero (sa_CreatedAt att) then now else sa_CreatedAt att) Microsecond,
                   sa_ExpiresAt := map_option (\<lambda>t. truncate_time t Microsecond) (sa_ExpiresAt att)\<rparr>
             in if \<not> sa_Draft att \<and> sa_ExpiresAt att \<noteq> None then Inl (StudioErrorf ''non-draft attachments cannot expire'')
             else if sa_Draft att \<and> sa_ExpiresAt att = None then Inl (StudioErrorf ''draft attachments require an expiry'')
             else let att = att\<lparr>sa_ProjectName := sp_ProjectName scope, sa_ProjectUID := sp_ProjectUID scope\<rparr>
             in if sa_SizeBytes att \<le> 0 then Inl (StudioErrorf ''attachment size must be positive'')
             else if length (sa_SHA256 att) \<noteq> 64 then Inl (StudioErrorf ''attachment sha256 must be a hexadecimal digest'')
             else if \<not> hex_decodes (sa_SHA256 att) then Inl (StudioErrorf ''attachment sha256 must be hexadecimal'')
             else if sa_DataEncrypted att \<noteq> (\<not> blank (sa_DataKeyID att))
             then Inl (StudioErrorf ''attachment encryption metadata is inconsistent'')
             else if sa_DataEncrypted att then
               (if sa_Data att = [] then Inl (StudioErrorf ''encrypted attachment data is required'') else Inr att)
             else if int (length (sa_Data att)) \<noteq> sa_SizeBytes att
             then Inl (StudioErrorf ''attachment size does not match data'')
             else case ValidateAttachmentContent (sa_Filename att) (sa_ContentType att) (sa_Data att) of
               Some e \<Rightarrow> Inl (AttachmentPolicy e)
             | None \<Rightarrow>
                 if \<not> EqualFold (sa_SHA256 att) (hexDigest (sa_Data att))
                 then Inl (StudioErrorf ''attachment sha256 does not match data'') else Inr att)))"

definition studio_receipt :: "StudioAttachment \<Rightarrow> AttachmentReceipt" where
  "studio_receipt a = \<lparr>rc_ID = sa_ID a, rc_Filename = sa_Filename a, rc_ContentType = sa_ContentType a,
     rc_SizeBytes = sa_SizeBytes a, rc_SHA256 = sa_SHA256 a, rc_CreatedAt = sa_CreatedAt a\<rparr>"

definition attachmentUploadMetadataMatches :: "StudioAttachment \<Rightarrow> StudioAttachment \<Rightarrow> bool" where
  "attachmentUploadMetadataMatches existing candidate \<longleftrightarrow>
     sa_ActorID existing = sa_ActorID candidate \<and>
     UploadMetadataMatches (studio_receipt existing) (studio_receipt candidate) \<and> sa_Data existing = sa_Data candidate"

definition validateAttachmentReceipt :: "StudioAttachment \<Rightarrow> AttachmentReceipt \<Rightarrow> string \<Rightarrow> studio_error option" where
  "validateAttachmentReceipt att receipt actor =
     (if sa_ActorID att \<noteq> actor then Some ErrAttachmentForbidden
      else case NormalizeAttachmentContentType (rc_ContentType receipt) of Inl _ \<Rightarrow> Some ErrAttachmentReceiptMismatch
      | Inr contentType \<Rightarrow>
          if IsZero (rc_CreatedAt receipt) \<or> sa_Filename att \<noteq> rc_Filename receipt \<or> sa_ContentType att \<noteq> contentType \<or>
            sa_SizeBytes att \<noteq> rc_SizeBytes receipt \<or> \<not> EqualFold (sa_SHA256 att) (TrimSpace (rc_SHA256 receipt)) \<or>
            \<not> IsZero (rc_CreatedAt receipt) \<and> sa_CreatedAt att \<noteq> rc_CreatedAt receipt
          then Some ErrAttachmentReceiptMismatch else None)"

definition studio_attachmentExpired :: "StudioAttachment \<Rightarrow> time \<Rightarrow> bool" where
  "studio_attachmentExpired att before \<longleftrightarrow>
     sa_Draft att \<and> (case sa_ExpiresAt att of None \<Rightarrow> False | Some t \<Rightarrow> \<not> t > before)"

section \<open>Uploading\<close>

definition atts :: "StudioStore \<Rightarrow> StudioScope \<Rightarrow> StudioAttachment gomap" where
  "atts m scope = inner (studioAttachments m) scope"

definition same_workspace :: "StudioScope \<Rightarrow> StudioScope \<Rightarrow> bool" where
  "same_workspace s t \<longleftrightarrow> sp_OrgUUID s = sp_OrgUUID t \<and> sp_WorkspaceUUID s = sp_WorkspaceUUID t"

text \<open>What the admission loop drops on its way, and what it counts.\<close>

definition drop_expired_workspace :: "StudioScope \<Rightarrow> time \<Rightarrow> StudioAttachment scoped \<Rightarrow> StudioAttachment scoped" where
  "drop_expired_workspace scope now t =
     map (\<lambda>(s, rows). (s, if same_workspace s scope then mfilter (\<lambda>_ a. \<not> studio_attachmentExpired a now) rows else rows)) t"

definition workspace_rows :: "StudioScope \<Rightarrow> StudioAttachment scoped \<Rightarrow> StudioAttachment list" where
  "workspace_rows scope t = concat (map (\<lambda>(s, rows). if same_workspace s scope then map snd rows else []) t)"

definition sa_bytes :: "StudioAttachment list \<Rightarrow> int" where
  "sa_bytes xs = i64 (sum_list (map sa_SizeBytes xs))"

definition quota_exceeded :: "AttachmentQuota \<Rightarrow> StudioScope \<Rightarrow> StudioAttachment scoped \<Rightarrow> StudioAttachment \<Rightarrow> bool" where
  "quota_exceeded quota scope t candidate =
     (let drafts = filter sa_Draft (map snd (inner t scope)) in
      aq_WorkspaceMaxBytes quota > 0 \<and>
        i64 (sa_bytes (workspace_rows scope t) + sa_SizeBytes candidate) > aq_WorkspaceMaxBytes quota \<or>
      sa_Draft candidate \<and>
       (aq_DraftProjectMaxCount quota > 0 \<and> int (length drafts) + 1 > aq_DraftProjectMaxCount quota \<or>
        aq_DraftProjectMaxBytes quota > 0 \<and> i64 (sa_bytes drafts + sa_SizeBytes candidate) > aq_DraftProjectMaxBytes quota))"

definition CreateAttachment ::
  "time \<Rightarrow> StudioStore \<Rightarrow> StudioScope \<Rightarrow> StudioAttachment \<Rightarrow> StudioAttachment outcome \<times> StudioStore" where
  "CreateAttachment now m scope att =
     (case prepareAttachment now scope att of Inl e \<Rightarrow> (Inl e, m)
      | Inr prepared \<Rightarrow>
          if scope \<in> set (attachmentDeleted m) then (Inl ErrAttachmentProjectDeleted, m)
          else let m = m\<lparr>studioAttachments := set_inner scope (atts m scope) (studioAttachments m)\<rparr> in
            if mget (atts m scope) (sa_ID prepared) \<noteq> None then (Inl ErrAttachmentConflict, m)
            else let m = m\<lparr>studioAttachments := drop_expired_workspace scope now (studioAttachments m)\<rparr> in
              if quota_exceeded (studioQuota m) scope (studioAttachments m) prepared then (Inl ErrAttachmentQuotaExceeded, m)
              else (Inr prepared, m\<lparr>studioAttachments := put2 scope (sa_ID prepared) prepared (studioAttachments m)\<rparr>))"

definition GetAttachment :: "time \<Rightarrow> StudioStore \<Rightarrow> StudioScope \<Rightarrow> string \<Rightarrow> StudioAttachment outcome \<times> StudioStore" where
  "GetAttachment now m scope ident =
     in_scope scope m (let ident = TrimSpace ident in
       case mget (atts m scope) ident of None \<Rightarrow> (Inl ErrAttachmentNotFound, m)
       | Some att \<Rightarrow>
           if studio_attachmentExpired att now
           then (Inl ErrAttachmentNotFound, m\<lparr>studioAttachments := del2 scope ident (studioAttachments m)\<rparr>)
           else (Inr att, m))"

definition match_existing :: "StudioAttachment \<Rightarrow> StudioAttachment \<Rightarrow> (StudioAttachment \<times> bool) outcome" where
  "match_existing prepared existing =
     (if attachmentUploadMetadataMatches existing prepared then Inr (existing, False) else Inl ErrAttachmentConflict)"

text \<open>A retried upload: read, create, and read again when another upload of the ID, or the quota, came first.
  Between the three calls other operations may run; here they follow each other.\<close>

definition CreateAttachmentIdempotent ::
  "time \<Rightarrow> StudioStore \<Rightarrow> StudioScope \<Rightarrow> StudioAttachment \<Rightarrow> (StudioAttachment \<times> bool) outcome \<times> StudioStore" where
  "CreateAttachmentIdempotent now m scope candidate =
     (case prepareAttachment now scope candidate of Inl e \<Rightarrow> (Inl e, m)
      | Inr prepared \<Rightarrow>
          (case GetAttachment now m scope (sa_ID prepared) of
             (Inr existing, m) \<Rightarrow> (match_existing prepared existing, m)
           | (Inl e, m) \<Rightarrow>
               if e \<noteq> ErrAttachmentNotFound then (Inl e, m)
               else (case CreateAttachment now m scope prepared of
                   (Inr created, m) \<Rightarrow> (Inr (created, True), m)
                 | (Inl e, m) \<Rightarrow>
                     if e \<noteq> ErrAttachmentConflict \<and> e \<noteq> ErrAttachmentQuotaExceeded then (Inl e, m)
                     else (case GetAttachment now m scope (sa_ID prepared) of
                         (Inl _, m) \<Rightarrow> (Inl e, m)
                       | (Inr existing, m) \<Rightarrow> (match_existing prepared existing, m)))))"

definition VerifyAttachmentReceipt ::
  "time \<Rightarrow> StudioStore \<Rightarrow> StudioScope \<Rightarrow> AttachmentReceipt \<Rightarrow> string \<Rightarrow> StudioAttachment outcome \<times> StudioStore" where
  "VerifyAttachmentReceipt now m scope receipt actor =
     (let actor = TrimSpace actor in
      if actor = [] then (Inl ErrAttachmentForbidden, m)
      else case GetAttachment now m scope (rc_ID receipt) of
        (Inl e, m) \<Rightarrow> (Inl e, m)
      | (Inr att, m) \<Rightarrow>
          (case validateAttachmentReceipt att receipt actor of Some e \<Rightarrow> Inl e | None \<Rightarrow> Inr att, m))"

definition ListAttachments :: "time \<Rightarrow> StudioStore \<Rightarrow> StudioScope \<Rightarrow> StudioAttachment list outcome \<times> StudioStore" where
  "ListAttachments now m scope =
     in_scope scope m
       (if atts m scope = [] then (Inr [], m)
        else let rows = mfilter (\<lambda>_ a. \<not> studio_attachmentExpired a now) (atts m scope) in
          (Inr (newest_first (\<lambda>a. Stamp (sa_CreatedAt a) (sa_ID a)) (map snd rows)),
           m\<lparr>studioAttachments := prune scope (set_inner scope rows (studioAttachments m))\<rparr>))"

section \<open>Binding\<close>

fun bind_checks ::
  "StudioScope \<Rightarrow> time \<Rightarrow> string \<Rightarrow> string \<Rightarrow> string list \<Rightarrow> AttachmentReceipt list \<Rightarrow> StudioStore \<Rightarrow>
   StudioAttachment list outcome \<times> StudioStore" where
  "bind_checks scope now actor bindingID seen [] m = (Inr [], m)"
| "bind_checks scope now actor bindingID seen (receipt # receipts) m =
     (let ident = TrimSpace (rc_ID receipt) in
      if ident \<in> set seen then (Inl ErrAttachmentReceiptMismatch, m)
      else case mget (atts m scope) ident of None \<Rightarrow> (Inl ErrAttachmentNotFound, m)
      | Some att \<Rightarrow>
          if studio_attachmentExpired att now
          then (Inl ErrAttachmentNotFound, m\<lparr>studioAttachments := del2 scope (sa_ID att) (studioAttachments m)\<rparr>)
          else case validateAttachmentReceipt att receipt actor of Some e \<Rightarrow> (Inl e, m)
          | None \<Rightarrow>
              if \<not> sa_Draft att \<and> sa_BindingID att \<noteq> [] \<and> sa_BindingID att \<noteq> bindingID then (Inl ErrAttachmentConflict, m)
              else (case bind_checks scope now actor bindingID (ident # seen) receipts m of
                  (Inl e, m) \<Rightarrow> (Inl e, m) | (Inr rest, m) \<Rightarrow> (Inr (att # rest), m)))"

definition bind_attachment :: "string \<Rightarrow> StudioAttachment \<Rightarrow> StudioAttachment" where
  "bind_attachment bindingID att =
     (if sa_Draft att
      then att\<lparr>sa_Draft := False, sa_BindingID := bindingID, sa_DraftExpiresAt := sa_ExpiresAt att, sa_ExpiresAt := None\<rparr>
      else att)"

definition BindAttachments ::
  "time \<Rightarrow> StudioStore \<Rightarrow> StudioScope \<Rightarrow> AttachmentReceipt list \<Rightarrow> string \<Rightarrow> string \<Rightarrow> StudioAttachment list outcome \<times> StudioStore" where
  "BindAttachments now m scope receipts actor bindingID =
     in_scope scope m (let actor = TrimSpace actor; bindingID = TrimSpace bindingID in
       if actor = [] \<or> bindingID = [] \<or> receipts = []
       then (Inl (StudioErrorf ''attachment actor, binding ID, and receipts are required''), m)
       else case bind_checks scope now actor bindingID [] receipts m of
         (Inl e, m) \<Rightarrow> (Inl e, m)
       | (Inr found, m) \<Rightarrow>
           (Inr (map (bind_attachment bindingID) found),
            m\<lparr>studioAttachments := fold (\<lambda>att t. if sa_Draft att then put2 scope (sa_ID att) (bind_attachment bindingID att) t else t)
                found (studioAttachments m)\<rparr>))"

definition BindAttachment ::
  "time \<Rightarrow> StudioStore \<Rightarrow> StudioScope \<Rightarrow> AttachmentReceipt \<Rightarrow> string \<Rightarrow> StudioAttachment outcome \<times> StudioStore" where
  "BindAttachment now m scope receipt actor =
     (case BindAttachments now m scope [receipt] actor (''legacy:'' @ TrimSpace (rc_ID receipt)) of
        (Inl e, m) \<Rightarrow> (Inl e, m) | (Inr bound, m) \<Rightarrow> (Inr (hd bound), m))"

definition unbind :: "StudioAttachment \<Rightarrow> StudioAttachment" where
  "unbind att = att\<lparr>sa_Draft := True, sa_ExpiresAt := sa_DraftExpiresAt att, sa_DraftExpiresAt := None, sa_BindingID := []\<rparr>"

definition RollbackAttachmentBinding :: "StudioStore \<Rightarrow> StudioScope \<Rightarrow> string \<Rightarrow> unit outcome \<times> StudioStore" where
  "RollbackAttachmentBinding m scope bindingID =
     in_scope scope m (let bindingID = TrimSpace bindingID in
       if bindingID = [] then (Inl (StudioErrorf ''attachment binding ID is required''), m)
       else (Inr (), m\<lparr>studioAttachments := edit_inner scope
         (map (\<lambda>(ident, att). (ident, if sa_BindingID att \<noteq> bindingID then att else unbind att))) (studioAttachments m)\<rparr>))"

definition reconcile_attachment :: "StudioStore \<Rightarrow> StudioScope \<Rightarrow> time \<Rightarrow> StudioAttachment \<Rightarrow> StudioAttachment option" where
  "reconcile_attachment m scope now att =
     (if sa_Draft att \<or>
        list_ex (\<lambda>(_, ts). list_ex (\<lambda>(_, turn). tn_ID turn = sa_BindingID att) ts) (inner (assistantTurns m) scope)
      then Some att
      else let expires = (case sa_DraftExpiresAt att of None \<Rightarrow> sa_CreatedAt att + 24 * 3600 * Second | Some t \<Rightarrow> t) in
        if \<not> expires > now then None
        else Some (att\<lparr>sa_Draft := True, sa_BindingID := [], sa_ExpiresAt := Some expires, sa_DraftExpiresAt := None\<rparr>))"

definition ReconcileAttachmentBindings :: "time \<Rightarrow> StudioStore \<Rightarrow> StudioStore" where
  "ReconcileAttachmentBindings now m =
     m\<lparr>studioAttachments := filter (\<lambda>(_, rows). rows \<noteq> [])
        (map (\<lambda>(s, rows). (s, mapm (\<lambda>_ att. reconcile_attachment m s now att) rows)) (studioAttachments m))\<rparr>"

section \<open>Deleting\<close>

definition DeleteAttachment :: "StudioStore \<Rightarrow> StudioScope \<Rightarrow> string \<Rightarrow> string \<Rightarrow> unit outcome \<times> StudioStore" where
  "DeleteAttachment m scope ident actor =
     in_scope scope m (let ident = TrimSpace ident; actor = TrimSpace actor in
       case mget (atts m scope) ident of None \<Rightarrow> (Inl ErrAttachmentNotFound, m)
       | Some att \<Rightarrow>
           if sa_ActorID att \<noteq> actor then (Inl ErrAttachmentForbidden, m)
           else if \<not> sa_Draft att then (Inl ErrAttachmentImmutable, m)
           else (Inr (), m\<lparr>studioAttachments := prune scope (del2 scope ident (studioAttachments m))\<rparr>))"

definition DeleteProjectAttachments :: "StudioStore \<Rightarrow> StudioScope \<Rightarrow> unit outcome \<times> StudioStore" where
  "DeleteProjectAttachments m scope =
     in_scope scope m (Inr (), m\<lparr>studioAttachments := drop_scope scope (studioAttachments m),
       attachmentDeleted := List.insert scope (attachmentDeleted m)\<rparr>)"

definition DeleteExpiredAttachments :: "StudioStore \<Rightarrow> time \<Rightarrow> nat \<times> StudioStore" where
  "DeleteExpiredAttachments m before =
     (length (filter (\<lambda>(_, a). studio_attachmentExpired a before) (concat (map snd (studioAttachments m)))),
      m\<lparr>studioAttachments := filter (\<lambda>(_, rows). rows \<noteq> [])
         (map (\<lambda>(s, rows). (s, mfilter (\<lambda>_ a. \<not> studio_attachmentExpired a before) rows)) (studioAttachments m))\<rparr>)"

section \<open>Thumbnails\<close>

definition validateProjectThumbnail :: "StudioScope \<Rightarrow> ProjectThumbnail \<Rightarrow> studio_error option" where
  "validateProjectThumbnail scope t =
     (case StudioScope_validate scope of Some e \<Rightarrow> Some e
      | None \<Rightarrow>
          if blank (pt_CommitSHA t) \<or> blank (pt_CommitOrder t) \<or> blank (pt_Variant t) \<or> blank (pt_SHA256 t) \<or> pt_Data t = []
          then Some (StudioErrorf ''thumbnail commit, order, variant, digest, and image data are required'')
          else if IsZero (pt_CommitCreatedAt t) then Some (StudioErrorf ''thumbnail commit creation time is required'')
          else if pt_ContentType t \<noteq> ''image/png'' \<and> pt_ContentType t \<noteq> ''image/jpeg''
          then Some (StudioErrorf ''unsupported thumbnail content type'')
          else if pt_DataEncrypted t \<noteq> (\<not> blank (pt_DataKeyID t))
          then Some (StudioErrorf ''thumbnail encryption metadata is inconsistent'')
          else if IsZero (pt_CapturedAt t) then Some (StudioErrorf ''thumbnail capture time is required'')
          else None)"

definition projectThumbnailNewer :: "time \<Rightarrow> string \<Rightarrow> time \<Rightarrow> string \<Rightarrow> bool" where
  "projectThumbnailNewer leftCreatedAt leftOrder rightCreatedAt rightOrder =
     (if leftCreatedAt > rightCreatedAt then True
      else if leftCreatedAt < rightCreatedAt then False
      else TrimSpace leftOrder > TrimSpace rightOrder)"

definition GetProjectThumbnail :: "StudioStore \<Rightarrow> StudioScope \<Rightarrow> ProjectThumbnail outcome \<times> StudioStore" where
  "GetProjectThumbnail m scope =
     in_scope scope m
       (case map_of (projectThumbnails m) scope of None \<Rightarrow> Inl ErrProjectThumbnailNotFound | Some t \<Rightarrow> Inr t, m)"

definition PutProjectThumbnail :: "StudioStore \<Rightarrow> StudioScope \<Rightarrow> ProjectThumbnail \<Rightarrow> unit outcome \<times> StudioStore" where
  "PutProjectThumbnail m scope t =
     (case validateProjectThumbnail scope t of Some e \<Rightarrow> (Inl e, m)
      | None \<Rightarrow>
          if (case map_of (projectThumbnails m) scope of None \<Rightarrow> False
              | Some c \<Rightarrow> projectThumbnailNewer (pt_CommitCreatedAt c) (pt_CommitOrder c) (pt_CommitCreatedAt t) (pt_CommitOrder t))
          then (Inr (), m)
          else (Inr (), m\<lparr>projectThumbnails := AList.update scope t (projectThumbnails m)\<rparr>))"

definition DeleteProjectThumbnail :: "StudioStore \<Rightarrow> StudioScope \<Rightarrow> unit outcome \<times> StudioStore" where
  "DeleteProjectThumbnail m scope =
     in_scope scope m (Inr (), m\<lparr>projectThumbnails := AList.delete scope (projectThumbnails m)\<rparr>)"

end
