(* ===== verification/StudioRetention.thy ===== *)
theory StudioRetention
  imports StudioThreads StudioRuns StudioAttachments
begin

text \<open>
  Deleting a thread with what its turns own, deleting a project, and the retention sweep
  (\<open>providers/app-studio/store/thread_memory.go\<close>, \<open>memory.go\<close>). A \<open>range\<close> loop that deletes entries of
  the map it runs over, or those of the visited keys, is a filter of that map.
\<close>

section \<open>Deleting a thread\<close>

definition nonempty :: "string list \<Rightarrow> string list" where
  "nonempty = filter (\<lambda>s. s \<noteq> [])"

text \<open>The messages of the runs that carry a turn's ID.\<close>

definition run_messages :: "AssistantRun gomap \<Rightarrow> string list \<Rightarrow> string list" where
  "run_messages rs turnIDs =
     concat (map (\<lambda>i. case mget rs i of None \<Rightarrow> [] | Some run \<Rightarrow> nonempty [arun_UserMessageID run, arun_ActiveMessageID run]) turnIDs)"

definition forget_turns :: "StudioScope \<Rightarrow> string list \<Rightarrow> StudioStore \<Rightarrow> StudioStore" where
  "forget_turns scope turnIDs m =
     (if turnIDs = [] then m
      else let rs = studio_runs m scope; doomed = filter (\<lambda>i. mget rs i \<noteq> None) turnIDs;
               msgs = run_messages rs turnIDs; items = filter (\<lambda>item. ci_RunID item \<notin> set turnIDs) (conversation m scope)
        in m\<lparr>assistantRuns := edit_inner scope (mfilter (\<lambda>i _. i \<notin> set doomed)) (assistantRuns m),
             assistantEvents := edit_inner scope (mfilter (\<lambda>i _. i \<notin> set doomed)) (assistantEvents m),
             assistantEventLookup := edit_inner scope (filter (\<lambda>((i, _), _). i \<notin> set turnIDs)) (assistantEventLookup m),
             studioMessages := edit_inner scope (mfilter (\<lambda>i _. i \<notin> set msgs)) (studioMessages m),
             conversationItems :=
               (if conversation m scope = [] then conversationItems m
                else if items = [] then drop_scope scope (conversationItems m)
                else set_inner scope items (conversationItems m))\<rparr>)"

definition drop_bound :: "StudioScope \<Rightarrow> string list \<Rightarrow> StudioStore \<Rightarrow> StudioStore" where
  "drop_bound scope turnIDs m =
     (if atts m scope = [] then m
      else m\<lparr>studioAttachments := prune scope
        (edit_inner scope (mfilter (\<lambda>_ a. sa_BindingID a \<notin> set turnIDs)) (studioAttachments m))\<rparr>)"

definition drop_thread :: "StudioScope \<Rightarrow> string \<Rightarrow> StudioStore \<Rightarrow> StudioStore" where
  "drop_thread scope threadID m =
     m\<lparr>assistantThreads := del2 scope threadID (assistantThreads m),
       assistantTurns := del2 scope threadID (assistantTurns m),
       threadEvents := del2 scope threadID (threadEvents m),
       threadTurnEvents := del2 scope threadID (threadTurnEvents m),
       threadTurnEventIndex := del2 scope threadID (threadTurnEventIndex m),
       threadTurnStarts := del2 scope threadID (threadTurnStarts m)\<rparr>"

text \<open>Dropping the inner maps that have become empty.\<close>

definition prune_threads :: "StudioScope \<Rightarrow> StudioStore \<Rightarrow> StudioStore" where
  "prune_threads scope m =
     m\<lparr>assistantThreads := prune scope (assistantThreads m), assistantTurns := prune scope (assistantTurns m),
       threadEvents := prune scope (threadEvents m), threadTurnEvents := prune scope (threadTurnEvents m),
       threadTurnEventIndex := prune scope (threadTurnEventIndex m), threadTurnStarts := prune scope (threadTurnStarts m)\<rparr>"

definition prune_run_tables :: "StudioScope \<Rightarrow> StudioStore \<Rightarrow> StudioStore" where
  "prune_run_tables scope m =
     m\<lparr>assistantRuns := prune scope (assistantRuns m), assistantEvents := prune scope (assistantEvents m),
       assistantEventLookup := prune scope (assistantEventLookup m)\<rparr>"

definition DeleteAssistantThread :: "StudioStore \<Rightarrow> StudioScope \<Rightarrow> string \<Rightarrow> string \<Rightarrow> unit outcome \<times> StudioStore" where
  "DeleteAssistantThread m scope threadID actorID =
     in_scope scope m (let threadID = TrimSpace threadID; actorID = TrimSpace actorID in
       if threadID = [] \<or> actorID = [] then (Inl (StudioErrorf ''assistant thread id and actor are required''), m)
       else case thread_row m scope threadID of None \<Rightarrow> (Inl ErrAssistantThreadNotFound, m)
       | Some thread \<Rightarrow>
           if th_ActorID thread \<noteq> actorID then (Inl ErrAssistantThreadConflict, m)
           else let turns = turns_of m scope threadID in
             if list_ex (\<lambda>(_, turn). \<not> assistantTurnStatusTerminal (tn_Status turn)) turns then (Inl ErrAssistantThreadActive, m)
             else let m = forget_turns scope (map fst turns) m;
                      m = drop_bound scope (map (\<lambda>(_, turn). tn_ID turn) turns) m;
                      m = prune_run_tables scope (prune_threads scope (drop_thread scope threadID m))
               in (Inr (), m\<lparr>studioMessages := prune scope (studioMessages m)\<rparr>))"

section \<open>Deleting a project\<close>

definition DeleteProjectMessages :: "StudioStore \<Rightarrow> StudioScope \<Rightarrow> unit outcome \<times> StudioStore" where
  "DeleteProjectMessages m scope =
     in_scope scope m (Inr (), m\<lparr>studioMessages := drop_scope scope (studioMessages m),
       assistantRuns := drop_scope scope (assistantRuns m), assistantEvents := drop_scope scope (assistantEvents m),
       assistantEventLookup := drop_scope scope (assistantEventLookup m),
       conversationItems := drop_scope scope (conversationItems m),
       conversationSequences := drop_scope scope (conversationSequences m),
       assistantThreads := drop_scope scope (assistantThreads m), assistantTurns := drop_scope scope (assistantTurns m),
       threadEvents := drop_scope scope (threadEvents m), threadTurnEvents := drop_scope scope (threadTurnEvents m),
       threadTurnEventIndex := drop_scope scope (threadTurnEventIndex m),
       threadTurnStarts := drop_scope scope (threadTurnStarts m),
       bootstrapPermits := drop_scope scope (bootstrapPermits m), approvalModes := drop_scope scope (approvalModes m),
       projectThumbnails := drop_scope scope (projectThumbnails m),
       studioAttachments := drop_scope scope (studioAttachments m),
       attachmentDeleted := List.insert scope (attachmentDeleted m)\<rparr>)"

section \<open>The retention sweep\<close>

text \<open>The messages that runs which have not ended point at.\<close>

definition protectedMessages :: "StudioStore \<Rightarrow> StudioScope \<Rightarrow> string list" where
  "protectedMessages m scope =
     concat (map (\<lambda>(_, run). if assistantRunStatusTerminal (arun_Status run) then []
       else nonempty [arun_UserMessageID run, arun_ActiveMessageID run]) (studio_runs m scope))"

definition message_doomed :: "time \<Rightarrow> string list \<Rightarrow> string \<Rightarrow> StudioMessage \<Rightarrow> bool" where
  "message_doomed before protected i message \<longleftrightarrow> smsg_CreatedAt message < before \<and> i \<notin> set protected"

definition run_doomed :: "time \<Rightarrow> AssistantRun \<Rightarrow> bool" where
  "run_doomed before run \<longleftrightarrow> assistantRunStatusTerminal (arun_Status run) \<and> arun_UpdatedAt run < before"

definition sweep_messages :: "time \<Rightarrow> StudioScope \<Rightarrow> nat \<times> StudioStore \<Rightarrow> nat \<times> StudioStore" where
  "sweep_messages before scope nm =
     (let (n, m) = nm; doomed = message_doomed before (protectedMessages m scope) in
      (n + length (filter (\<lambda>(i, x). doomed i x) (studio_messages m scope)),
       m\<lparr>studioMessages := prune scope (edit_inner scope (mfilter (\<lambda>i x. \<not> doomed i x)) (studioMessages m))\<rparr>))"

definition forget_runs :: "StudioScope \<Rightarrow> string list \<Rightarrow> StudioStore \<Rightarrow> StudioStore" where
  "forget_runs scope doomed m =
     m\<lparr>assistantRuns := edit_inner scope (mfilter (\<lambda>i _. i \<notin> set doomed)) (assistantRuns m),
       assistantEvents := edit_inner scope (mfilter (\<lambda>i _. i \<notin> set doomed)) (assistantEvents m),
       assistantEventLookup := edit_inner scope (filter (\<lambda>((i, _), _). i \<notin> set doomed)) (assistantEventLookup m),
       conversationItems := edit_inner scope (filter (\<lambda>item. ci_RunID item \<notin> set doomed)) (conversationItems m)\<rparr>"

definition sweep_runs :: "time \<Rightarrow> StudioScope \<Rightarrow> nat \<times> StudioStore \<Rightarrow> nat \<times> StudioStore" where
  "sweep_runs before scope nm =
     (let (n, m) = nm; doomed = map fst (filter (\<lambda>(_, run). run_doomed before run) (studio_runs m scope));
          m = prune_run_tables scope (forget_runs scope doomed m)
      in (n + length doomed, m\<lparr>conversationItems := prune scope (conversationItems m)\<rparr>))"

definition retire_thread :: "time \<Rightarrow> StudioScope \<Rightarrow> string \<Rightarrow> StudioStore \<Rightarrow> StudioStore" where
  "retire_thread before scope threadID m =
     (case thread_row m scope threadID of None \<Rightarrow> m
      | Some thread \<Rightarrow>
          if \<not> th_UpdatedAt thread < before \<or> th_Status thread = ThreadActive then m
          else let turns = turns_of m scope threadID in
            if list_ex (\<lambda>(_, turn). \<not> assistantTurnStatusTerminal (tn_Status turn)) turns then m
            else drop_thread scope threadID (drop_bound scope (map fst turns) m))"

definition sweep_threads :: "time \<Rightarrow> StudioScope \<Rightarrow> StudioStore \<Rightarrow> StudioStore" where
  "sweep_threads before scope m =
     prune_threads scope (fold (retire_thread before scope) (map fst (inner (assistantThreads m) scope)) m)"

text \<open>The count is of messages and runs; threads are not counted.\<close>

definition DeleteMessagesOlderThan :: "StudioStore \<Rightarrow> time \<Rightarrow> nat \<times> StudioStore" where
  "DeleteMessagesOlderThan m before =
     (case fold (sweep_messages before) (map fst (studioMessages m)) (0, m) of
        (n, m) \<Rightarrow> (case fold (sweep_runs before) (map fst (assistantRuns m)) (n, m) of
          (n, m) \<Rightarrow> (n, fold (sweep_threads before) (map fst (assistantThreads m)) m)))"

end
