(* ===== verification/StudioThreadFacts.thy ===== *)
theory StudioThreadFacts
  imports StudioThreads
begin

text \<open>
  What appending does to the log of a thread and to the tables kept beside it: the turn log, its index
  and the starts stay filters of the one log, whose events are numbered from one.

  Every thread, turn and event operation keeps threads well formed and only extends the logs.
\<close>

section \<open>Filters of the log\<close>

definition turn_event :: "AssistantThreadEvent \<Rightarrow> bool" where
  "turn_event e \<longleftrightarrow> \<not> blank (te_TurnID e)"

definition turn_key :: "AssistantThreadEvent \<Rightarrow> lookup_key" where
  "turn_key e = (TrimSpace (te_TurnID e), TrimSpace (te_Type e))"

definition starts_turn :: "string \<Rightarrow> AssistantThreadEvent \<Rightarrow> bool" where
  "starts_turn turnID e \<longleftrightarrow> turn_event e \<and> TrimSpace (te_TurnID e) = turnID \<and> te_Type e = ''turn.started''"

definition numbered :: "AssistantThreadEvent list \<Rightarrow> bool" where
  "numbered es \<longleftrightarrow> (\<forall>i < length es. te_Sequence (es ! i) = int i + 1)"

definition tables_agree :: "StudioStore \<Rightarrow> StudioScope \<Rightarrow> string \<Rightarrow> bool" where
  "tables_agree m scope tid \<longleftrightarrow>
     turn_log m scope tid = filter turn_event (thread_log m scope tid) \<and>
     (\<forall>key. turn_index m scope tid key = filter (\<lambda>e. turn_event e \<and> turn_key e = key) (thread_log m scope tid)) \<and>
     (\<forall>turnID. mget (turn_starts m scope tid) turnID =
        map_option te_Sequence (find (starts_turn turnID) (thread_log m scope tid)))"

lemma numbered_Nil [simp]: "numbered []"
  by (simp add: numbered_def)

lemma numbered_latest: "numbered es \<Longrightarrow> latestAssistantThreadEventSequence es = int (length es)"
  by (cases es rule: rev_cases) (auto simp: numbered_def latestAssistantThreadEventSequence_def)

lemma length_number_from [simp]: "length (number_from b es) = length es"
  by (induction b es rule: number_from.induct) simp_all

lemma number_from_nth: "i < length es \<Longrightarrow> te_Sequence (number_from b es ! i) = b + int i + 1"
proof (induction b es arbitrary: i rule: number_from.induct)
  case (2 b e es)
  then show ?case by (cases i) simp_all
qed simp

lemma numbered_append_events: "numbered log \<Longrightarrow> numbered (log @ number_from (int (length log)) es)"
  by (auto simp: numbered_def nth_append number_from_nth)

lemma number_from_one: "[e\<lparr>te_Sequence := b + 1\<rparr>] = number_from b [e]"
  by simp

section \<open>Reading after appending\<close>

lemma turn_event_step [simp]:
  "thread_log (append_turn_event scope tid e m) = thread_log m"
  "turns_of (append_turn_event scope tid e m) = turns_of m"
  "thread_row (append_turn_event scope tid e m) = thread_row m"
  by (simp_all add: append_turn_event_def Let_def thread_log_def turns_of_def thread_row_def fun_eq_iff)

lemma turn_log_step:
  "turn_log (append_turn_event scope tid e m) s t =
     (if s = scope \<and> t = tid \<and> turn_event e then turn_log m scope tid @ [e] else turn_log m s t)"
  by (simp add: append_turn_event_def Let_def turn_log_def turn_event_def mgetd_def)

lemma turn_index_step:
  "turn_index (append_turn_event scope tid e m) s t key =
     (if s = scope \<and> t = tid \<and> turn_event e \<and> turn_key e = key then turn_index m scope tid key @ [e] else turn_index m s t key)"
  by (auto simp: append_turn_event_def Let_def turn_index_def turn_event_def turn_key_def mgetd_def update_conv')

lemma turn_starts_step:
  "mget (turn_starts (append_turn_event scope tid e m) s t) turnID =
     (if s = scope \<and> t = tid \<and> starts_turn turnID e \<and> mget (turn_starts m scope tid) turnID = None
      then Some (te_Sequence e) else mget (turn_starts m s t) turnID)"
  by (auto simp: append_turn_event_def Let_def turn_starts_def turn_event_def starts_turn_def mgetd_def)

lemma turn_events_fold [simp]:
  "thread_log (appendAssistantThreadTurnEventsLocked scope tid es m) = thread_log m"
  "turns_of (appendAssistantThreadTurnEventsLocked scope tid es m) = turns_of m"
  "thread_row (appendAssistantThreadTurnEventsLocked scope tid es m) = thread_row m"
  unfolding appendAssistantThreadTurnEventsLocked_def by (induction es arbitrary: m) simp_all

lemma turn_log_fold:
  "turn_log (appendAssistantThreadTurnEventsLocked scope tid es m) s t =
     turn_log m s t @ (if s = scope \<and> t = tid then filter turn_event es else [])"
  unfolding appendAssistantThreadTurnEventsLocked_def
  by (induction es arbitrary: m) (auto simp: turn_log_step)

lemma turn_index_fold:
  "turn_index (appendAssistantThreadTurnEventsLocked scope tid es m) s t key =
     turn_index m s t key @ (if s = scope \<and> t = tid then filter (\<lambda>e. turn_event e \<and> turn_key e = key) es else [])"
  unfolding appendAssistantThreadTurnEventsLocked_def
  by (induction es arbitrary: m) (auto simp: turn_index_step)

lemma turn_starts_fold:
  "mget (turn_starts (appendAssistantThreadTurnEventsLocked scope tid es m) s t) turnID =
     (case mget (turn_starts m s t) turnID of Some n \<Rightarrow> Some n
      | None \<Rightarrow> if s = scope \<and> t = tid then map_option te_Sequence (find (starts_turn turnID) es) else None)"
  unfolding appendAssistantThreadTurnEventsLocked_def
  by (induction es arbitrary: m) (auto simp: turn_starts_step split: option.splits)

lemma append_events_reads [simp]:
  "thread_log (append_events scope tid es m) s t =
     (if s = scope \<and> t = tid then thread_log m scope tid @ es else thread_log m s t)"
  "turns_of (append_events scope tid es m) = turns_of m"
  "thread_row (append_events scope tid es m) = thread_row m"
  by (simp_all add: append_events_def) (simp_all add: thread_log_def turns_of_def thread_row_def mgetd_def fun_eq_iff)

lemma find_append: "find P (xs @ ys) = (case find P xs of None \<Rightarrow> find P ys | Some x \<Rightarrow> Some x)"
  by (induction xs) auto

lemma append_events_agree:
  assumes "tables_agree m s t"
  shows "tables_agree (append_events scope tid es m) s t"
proof -
  let ?m = "m\<lparr>threadEvents := put2 scope tid (thread_log m scope tid @ es) (threadEvents m)\<rparr>"
  have same: "turn_log ?m = turn_log m" "turn_index ?m = turn_index m" "turn_starts ?m = turn_starts m"
    by (simp_all add: turn_log_def turn_index_def turn_starts_def fun_eq_iff)
  have log: "turn_log m s t = filter turn_event (thread_log m s t)"
    and idx: "\<And>key. turn_index m s t key = filter (\<lambda>e. turn_event e \<and> turn_key e = key) (thread_log m s t)"
    and sts: "\<And>turnID. mget (turn_starts m s t) turnID = map_option te_Sequence (find (starts_turn turnID) (thread_log m s t))"
    using assms unfolding tables_agree_def by blast+
  have new: "thread_log (append_events scope tid es m) s t = thread_log m s t @ (if s = scope \<and> t = tid then es else [])"
    by simp
  have "turn_log (append_events scope tid es m) s t = filter turn_event (thread_log (append_events scope tid es m) s t)"
    unfolding new by (simp add: append_events_def turn_log_fold same log)
  moreover have "turn_index (append_events scope tid es m) s t key =
      filter (\<lambda>e. turn_event e \<and> turn_key e = key) (thread_log (append_events scope tid es m) s t)" for key
    unfolding new by (simp add: append_events_def turn_index_fold same idx)
  moreover have "mget (turn_starts (append_events scope tid es m) s t) turnID =
      map_option te_Sequence (find (starts_turn turnID) (thread_log (append_events scope tid es m) s t))" for turnID
    unfolding new by (auto simp: append_events_def turn_starts_fold same sts find_append split: option.splits)
  ultimately show ?thesis by (simp add: tables_agree_def)
qed

section \<open>Well-formed threads\<close>

definition thread_ok :: "StudioStore \<Rightarrow> StudioScope \<Rightarrow> string \<Rightarrow> bool" where
  "thread_ok m s t \<longleftrightarrow> numbered (thread_log m s t) \<and> tables_agree m s t \<and>
     (case thread_row m s t of None \<Rightarrow> thread_log m s t = [] \<and> turns_of m s t = [] | Some r \<Rightarrow> th_ID r = t) \<and>
     wf_map (turns_of m s t) \<and> (\<forall>(k, turn) \<in> set (turns_of m s t). tn_ID turn = k \<and> tn_ThreadID turn = t)"

definition threads_ok :: "StudioStore \<Rightarrow> bool" where
  "threads_ok m \<longleftrightarrow> (\<forall>s t. thread_ok m s t)"

text \<open>What every operation but a deletion does: logs grow at the end, and threads keep their owner.\<close>

definition keeps :: "StudioStore \<Rightarrow> StudioStore \<Rightarrow> bool" where
  "keeps m m' \<longleftrightarrow> threads_ok m' \<and> (\<forall>s t. \<exists>es. thread_log m' s t = thread_log m s t @ es) \<and>
     (\<forall>s t r. thread_row m s t = Some r \<longrightarrow> (\<exists>r'. thread_row m' s t = Some r' \<and> th_ActorID r' = th_ActorID r))"

lemma keepsI:
  assumes "\<And>s t. thread_ok m' s t" "\<And>s t. \<exists>es. thread_log m' s t = thread_log m s t @ es"
    "\<And>s t r. thread_row m s t = Some r \<Longrightarrow> \<exists>r'. thread_row m' s t = Some r' \<and> th_ActorID r' = th_ActorID r"
  shows "keeps m m'"
  unfolding keeps_def threads_ok_def using assms by blast

lemma keeps_ok: "keeps m m' \<Longrightarrow> threads_ok m'"
  by (simp add: keeps_def)

lemma keeps_row: "keeps m m' \<Longrightarrow> thread_row m s t \<noteq> None \<Longrightarrow> thread_row m' s t \<noteq> None"
  unfolding keeps_def by blast

lemma keeps_same: "threads_ok m \<Longrightarrow> keeps m m"
  by (rule keepsI) (auto simp: threads_ok_def)

lemma keeps_trans:
  assumes a: "keeps m m'" and b: "keeps m' m''" shows "keeps m m''"
proof (rule keepsI)
  show "thread_ok m'' s t" for s t using b by (simp add: keeps_def threads_ok_def)
  show "\<exists>es. thread_log m'' s t = thread_log m s t @ es" for s t
  proof -
    from a obtain es where "thread_log m' s t = thread_log m s t @ es" unfolding keeps_def by blast
    moreover from b obtain fs where "thread_log m'' s t = thread_log m' s t @ fs" unfolding keeps_def by blast
    ultimately show ?thesis by simp
  qed
  show "\<exists>r'. thread_row m'' s t = Some r' \<and> th_ActorID r' = th_ActorID r" if r: "thread_row m s t = Some r" for s t r
  proof -
    from a r obtain r' where "thread_row m' s t = Some r'" "th_ActorID r' = th_ActorID r" unfolding keeps_def by blast
    with b show ?thesis unfolding keeps_def by fastforce
  qed
qed

lemma thread_ok_same:
  assumes "thread_ok m s t" "thread_log m' = thread_log m" "turn_log m' = turn_log m" "turn_index m' = turn_index m"
    "turn_starts m' = turn_starts m" "thread_row m' = thread_row m" "turns_of m' = turns_of m"
  shows "thread_ok m' s t"
  using assms(1) unfolding thread_ok_def tables_agree_def assms(2-) .

definition thread_part :: "StudioStore \<Rightarrow> _" where
  "thread_part m = (assistantThreads m, assistantTurns m, threadEvents m, threadTurnEvents m, threadTurnEventIndex m, threadTurnStarts m)"

lemma thread_part_reads:
  assumes "thread_part m' = thread_part m"
  shows "thread_log m' = thread_log m" "turn_log m' = turn_log m" "turn_index m' = turn_index m"
    "turn_starts m' = turn_starts m" "thread_row m' = thread_row m" "turns_of m' = turns_of m"
  using assms by (simp_all add: thread_part_def thread_log_def turn_log_def turn_index_def turn_starts_def
      thread_row_def turns_of_def fun_eq_iff)

lemma keeps_part:
  assumes "threads_ok m" "thread_part m' = thread_part m" shows "keeps m m'"
proof (rule keepsI)
  note reads = thread_part_reads [OF assms(2)]
  show "thread_ok m' s t" for s t using assms(1) thread_ok_same [OF _ reads] by (simp add: threads_ok_def)
  show "\<exists>es. thread_log m' s t = thread_log m s t @ es" for s t unfolding reads by simp
  show "\<exists>r'. thread_row m' s t = Some r' \<and> th_ActorID r' = th_ActorID r" if "thread_row m s t = Some r" for s t r
    unfolding reads using that by simp
qed

text \<open>Appending events numbered on from the last, writing a thread's row, and writing a turn.\<close>

lemma keeps_append:
  assumes ok: "threads_ok m" and row: "thread_row m scope tid \<noteq> None"
    and b: "b = latestAssistantThreadEventSequence (thread_log m scope tid)"
  shows "keeps m (append_events scope tid (number_from b es) m)"
proof (rule keepsI)
  note old = ok [unfolded threads_ok_def thread_ok_def, rule_format]
  have b: "b = int (length (thread_log m scope tid))" using b numbered_latest old by simp
  show "thread_ok (append_events scope tid (number_from b es) m) s t" for s t
    unfolding thread_ok_def append_events_reads
    using old [of s t] row append_events_agree [of m s t] numbered_append_events [of "thread_log m scope tid" es] b
    by (auto split: option.splits)
qed (auto)

lemma keeps_put_row:
  assumes ok: "threads_ok m" and row: "thread_row m scope tid = Some r" and r: "th_ID r' = tid" "th_ActorID r' = th_ActorID r"
  shows "keeps m (m\<lparr>assistantThreads := put2 scope tid r' (assistantThreads m)\<rparr>)" (is "keeps m ?m")
proof (rule keepsI)
  have reads: "thread_log ?m = thread_log m" "turn_log ?m = turn_log m" "turn_index ?m = turn_index m"
    "turn_starts ?m = turn_starts m" "turns_of ?m = turns_of m"
    by (simp_all add: thread_log_def turn_log_def turn_index_def turn_starts_def turns_of_def fun_eq_iff)
  have new: "thread_row ?m s t = (if s = scope \<and> t = tid then Some r' else thread_row m s t)" for s t
    by (simp add: thread_row_def)
  show "thread_ok ?m s t" for s t
    using ok [unfolded threads_ok_def, rule_format, of s t] r(1) row
    unfolding thread_ok_def tables_agree_def reads new by (auto split: if_splits option.splits)
  show "\<exists>es. thread_log ?m s t = thread_log m s t @ es" for s t unfolding reads by simp
  show "\<exists>r'. thread_row ?m s t = Some r' \<and> th_ActorID r' = th_ActorID q" if "thread_row m s t = Some q" for s t q
    unfolding new using that row r(2) by auto
qed

lemma keeps_put_turn:
  assumes ok: "threads_ok m" and row: "thread_row m scope (tn_ThreadID turn) \<noteq> None"
  shows "keeps m (put_turn scope turn m)"
proof (rule keepsI)
  let ?m = "put_turn scope turn m"
  have reads: "thread_log ?m = thread_log m" "turn_log ?m = turn_log m" "turn_index ?m = turn_index m"
    "turn_starts ?m = turn_starts m" "thread_row ?m = thread_row m"
    by (simp_all add: put_turn_def thread_log_def turn_log_def turn_index_def turn_starts_def thread_row_def fun_eq_iff)
  have new: "turns_of ?m s t =
      (if s = scope \<and> t = tn_ThreadID turn then mput (tn_ID turn) turn (turns_of m scope (tn_ThreadID turn)) else turns_of m s t)" for s t
    by (simp add: put_turn_def turns_of_def mgetd_def)
  show "thread_ok ?m s t" for s t
    using ok [unfolded threads_ok_def, rule_format, of s t] row
    unfolding thread_ok_def tables_agree_def reads new by (auto split: if_splits option.splits dest!: set_mput)
  show "\<exists>es. thread_log ?m s t = thread_log m s t @ es" for s t unfolding reads by simp
  show "\<exists>r'. thread_row ?m s t = Some r' \<and> th_ActorID r' = th_ActorID q" if "thread_row m s t = Some q" for s t q
    unfolding reads using that by simp
qed

lemma in_scope_keeps: "threads_ok m \<Longrightarrow> keeps m (snd r) \<Longrightarrow> keeps m (snd (in_scope scope m r))"
  by (simp add: in_scope_def keeps_same split: option.splits)

lemma prepareAssistantThread_id: "prepareAssistantThread now thread = Inr p \<Longrightarrow> th_ID p = TrimSpace (th_ID thread)"
  by (auto simp: prepareAssistantThread_def Let_def split: if_splits)

lemma keeps_append_one:
  assumes "threads_ok m" "thread_row m scope tid \<noteq> None" "b = latestAssistantThreadEventSequence (thread_log m scope tid)"
  shows "keeps m (append_events scope tid [e\<lparr>te_Sequence := b + 1\<rparr>] m)"
  using keeps_append [OF assms, of "[e]"] by simp

text \<open>Writing the row first and appending then, as the operations that do both.\<close>

lemma put_row_reads [simp]:
  "thread_log (m\<lparr>assistantThreads := t\<rparr>) = thread_log m" "turns_of (m\<lparr>assistantThreads := t\<rparr>) = turns_of m"
  "thread_row (m\<lparr>assistantThreads := put2 scope tid r (assistantThreads m)\<rparr>) s u =
     (if s = scope \<and> u = tid then Some r else thread_row m s u)"
  by (simp_all add: thread_log_def turns_of_def thread_row_def fun_eq_iff)

lemma put_turn_reads [simp]:
  "thread_log (put_turn scope turn m) = thread_log m" "thread_row (put_turn scope turn m) = thread_row m"
  by (simp_all add: put_turn_def thread_log_def thread_row_def fun_eq_iff)

lemma keeps_row_and_append:
  assumes "threads_ok m" "thread_row m scope tid = Some r" "th_ID r' = tid" "th_ActorID r' = th_ActorID r"
    and b: "b = latestAssistantThreadEventSequence (thread_log m scope tid)"
  shows "keeps m (append_events scope tid [e\<lparr>te_Sequence := b + 1\<rparr>] (m\<lparr>assistantThreads := put2 scope tid r' (assistantThreads m)\<rparr>))"
proof -
  note k = keeps_put_row [OF assms(1-4)]
  from keeps_append_one [OF keeps_ok [OF k], of scope tid b e] b show ?thesis by (intro keeps_trans [OF k]) simp
qed

lemma keeps_project_turn:
  assumes ok: "threads_ok m" and row: "thread_row m scope (tn_ThreadID turn) \<noteq> None"
  shows "keeps m (project_turn scope turn m)"
proof -
  from row obtain r where r: "thread_row m scope (tn_ThreadID turn) = Some r" by blast
  then have "th_ID r = tn_ThreadID turn"
    using ok by (auto simp: threads_ok_def thread_ok_def dest!: spec [of _ scope] spec [of _ "tn_ThreadID turn"])
  moreover have "mgetd zero_thread (inner (assistantThreads m) scope) (tn_ThreadID turn) = r"
    using r by (simp add: thread_row_def mgetd_def)
  ultimately show ?thesis
    unfolding project_turn_def Let_def by (intro keeps_put_row [OF ok r]) simp_all
qed

lemma turn_has_thread:
  assumes "threads_ok m" "mget (turns_of m scope tid) k = Some turn"
  shows "thread_row m scope tid \<noteq> None" "tn_ID turn = k" "tn_ThreadID turn = tid"
  using assms(1) [unfolded threads_ok_def, rule_format, of scope tid] assms(2) mget_in_set [OF assms(2)]
  by (auto simp: thread_ok_def split: option.splits)

section \<open>Threads\<close>

lemma CreateAssistantThread_keeps:
  assumes ok: "threads_ok m" shows "keeps m (snd (CreateAssistantThread now m scope thread events))"
  unfolding CreateAssistantThread_def
proof (rule in_scope_keeps [OF ok])
  let ?new = "\<lambda>p. m\<lparr>assistantThreads := put2 scope (th_ID p) p (assistantThreads m),
    threadEvents := put2 scope (th_ID p) [] (threadEvents m)\<rparr>"
  have "keeps m (?new p)" if none: "thread_row m scope (th_ID p) = None" for p
  proof (rule keepsI)
    let ?m = "?new p"
    note old = ok [unfolded threads_ok_def thread_ok_def, rule_format]
    have empty: "thread_log m scope (th_ID p) = []" using old [of scope "th_ID p"] none by simp
    have log: "thread_log ?m = thread_log m" using empty by (auto simp: fun_eq_iff thread_log_def mgetd_def)
    have reads: "turn_log ?m = turn_log m" "turn_index ?m = turn_index m"
      "turn_starts ?m = turn_starts m" "turns_of ?m = turns_of m"
      by (simp_all add: turn_log_def turn_index_def turn_starts_def turns_of_def fun_eq_iff)
    have row: "thread_row ?m s t = (if s = scope \<and> t = th_ID p then Some p else thread_row m s t)" for s t
      by (simp add: thread_row_def)
    show "thread_ok ?m s t" for s t
      using old [of s t] unfolding thread_ok_def tables_agree_def log reads row by (auto split: option.splits)
    show "\<exists>es. thread_log ?m s t = thread_log m s t @ es" for s t unfolding log by simp
    show "\<exists>r'. thread_row ?m s t = Some r' \<and> th_ActorID r' = th_ActorID q" if "thread_row m s t = Some q" for s t q
      unfolding row using that none by auto
  qed
  note new = this
  have appended: "keeps m (append_events scope (th_ID p) (number_from 0 es) (?new p))"
    if none: "thread_row m scope (th_ID p) = None" for p es
  proof (rule keeps_trans [OF new [OF none] keeps_append [OF keeps_ok [OF new [OF none]]]])
    show "thread_row (?new p) scope (th_ID p) \<noteq> None" by (simp add: thread_row_def)
    show "0 = latestAssistantThreadEventSequence (thread_log (?new p) scope (th_ID p))"
      by (simp add: thread_log_def mgetd_def latestAssistantThreadEventSequence_def)
  qed
  show "keeps m (snd (case prepareAssistantThread now thread of Inl e \<Rightarrow> (Inl e, m)
      | Inr prepared \<Rightarrow>
          (case thread_row m scope (th_ID prepared) of
             Some existing \<Rightarrow>
               (if th_ActorID existing \<noteq> th_ActorID prepared then Inl ErrAssistantThreadConflict else Inr existing, m)
           | None \<Rightarrow>
               (case prepare_events (\<lambda>e. prepareAssistantThreadEvent now (e\<lparr>te_ThreadID := th_ID prepared\<rparr>)) events of
                  Inl e \<Rightarrow> (Inl e, m)
                | Inr preparedEvents \<Rightarrow>
                    (Inr prepared,
                     append_events scope (th_ID prepared) (number_from 0 preparedEvents)
                       (m\<lparr>assistantThreads := put2 scope (th_ID prepared) prepared (assistantThreads m),
                          threadEvents := put2 scope (th_ID prepared) [] (threadEvents m)\<rparr>))))))"
    using keeps_same [OF ok] appended by (simp split: sum.splits option.splits)
qed

lemma UpdateAssistantThread_keeps:
  assumes ok: "threads_ok m" shows "keeps m (snd (UpdateAssistantThread now m scope thread))"
  unfolding UpdateAssistantThread_def
  by (rule in_scope_keeps [OF ok])
    (auto simp: Let_def keeps_same [OF ok] intro!: keeps_put_row [OF ok] split: sum.splits option.splits)

lemma thread_row_id: "threads_ok m \<Longrightarrow> thread_row m scope t = Some r \<Longrightarrow> th_ID r = t"
  by (auto simp: threads_ok_def thread_ok_def dest!: spec [of _ scope] spec [of _ t])

lemma SetAssistantThreadTitleIfEmpty_keeps:
  assumes ok: "threads_ok m" shows "keeps m (snd (SetAssistantThreadTitleIfEmpty now m scope threadID actorID title event))"
proof -
  have "keeps m (append_events scope t [e\<lparr>te_Payload := p, te_Sequence := latestAssistantThreadEventSequence (thread_log m scope t) + 1\<rparr>]
      (m\<lparr>assistantThreads := put2 scope t (r\<lparr>th_Title := ti, th_UpdatedAt := u\<rparr>) (assistantThreads m)\<rparr>))"
    if "thread_row m scope t = Some r" for t e p r ti u
    using thread_row_id [OF ok that] by (intro keeps_row_and_append [OF ok that]) simp_all
  then show ?thesis
    unfolding SetAssistantThreadTitleIfEmpty_def
    by (intro in_scope_keeps [OF ok]) (auto simp: Let_def keeps_same [OF ok] split: sum.splits option.splits)
qed

lemma UpdateAssistantThreadWithEvent_keeps:
  assumes ok: "threads_ok m" shows "keeps m (snd (UpdateAssistantThreadWithEvent now m scope thread event expected))"
proof -
  have "keeps m (append_events scope (th_ID p) [e\<lparr>te_Sequence := latestAssistantThreadEventSequence (thread_log m scope (th_ID p)) + 1\<rparr>]
      (m\<lparr>assistantThreads := put2 scope (th_ID p) (p\<lparr>th_CreatedAt := c\<rparr>) (assistantThreads m)\<rparr>))"
    if "thread_row m scope (th_ID p) = Some r" "th_ActorID r = th_ActorID p" for e p r c
    using that(2) by (intro keeps_row_and_append [OF ok that(1)]) simp_all
  then show ?thesis
    unfolding UpdateAssistantThreadWithEvent_def
    by (intro in_scope_keeps [OF ok]) (auto simp: Let_def keeps_same [OF ok] split: sum.splits option.splits)
qed

lemma AppendAssistantThreadEvent_keeps:
  assumes ok: "threads_ok m" shows "keeps m (snd (AppendAssistantThreadEvent now m scope event expected))"
proof -
  have "keeps m (append_events scope t [e\<lparr>te_Sequence := latestAssistantThreadEventSequence (thread_log m scope t) + 1\<rparr>] m
      \<lparr>threadEventSignals := b\<rparr>)"
    if "thread_row m scope t \<noteq> None" for t e b
  proof -
    note k = keeps_append_one [OF ok that refl, of e]
    show ?thesis by (rule keeps_trans [OF k keeps_part [OF keeps_ok [OF k]]]) (simp add: thread_part_def)
  qed
  then show ?thesis
    unfolding AppendAssistantThreadEvent_def
    by (intro in_scope_keeps [OF ok]) (auto simp: Let_def keeps_same [OF ok] split: sum.splits)
qed

lemma WatchAssistantThreadEvents_keeps:
  assumes ok: "threads_ok m" shows "keeps m (snd (WatchAssistantThreadEvents m scope threadID))"
  unfolding WatchAssistantThreadEvents_def
  by (rule in_scope_keeps [OF ok])
    (auto simp: subscribe_def keeps_same [OF ok] thread_part_def intro!: keeps_part [OF ok])

section \<open>Turns\<close>

lemma CreateAssistantTurn_keeps:
  assumes ok: "threads_ok m" shows "keeps m (snd (CreateAssistantTurn now m scope turn events))"
proof -
  have "keeps m (append_events scope (tn_ThreadID p)
      (number_from (latestAssistantThreadEventSequence (thread_log (m\<lparr>assistantTurns := at\<rparr>) scope (tn_ThreadID p))) es)
      (m\<lparr>assistantTurns := at\<rparr>)
      \<lparr>assistantThreads := put2 scope (th_ID r) (r\<lparr>th_Status := x, th_UpdatedAt := u\<rparr>)
        (assistantThreads (append_events scope (tn_ThreadID p)
          (number_from (latestAssistantThreadEventSequence (thread_log (m\<lparr>assistantTurns := at\<rparr>) scope (tn_ThreadID p))) es)
          (m\<lparr>assistantTurns := at\<rparr>)))\<rparr>)"
    if r: "thread_row m scope (tn_ThreadID p) = Some r"
      and at: "at = put2 scope (tn_ThreadID p) (mput (tn_ID p) p (turns_of m scope (tn_ThreadID p))) (assistantTurns m)"
    for p r x u es at
  proof -
    have put: "m\<lparr>assistantTurns := at\<rparr> = put_turn scope p m" by (simp add: put_turn_def at)
    have k1: "keeps m (put_turn scope p m)" by (rule keeps_put_turn [OF ok]) (simp add: r)
    let ?b = "latestAssistantThreadEventSequence (thread_log (put_turn scope p m) scope (tn_ThreadID p))"
    have k2: "keeps (put_turn scope p m) (append_events scope (tn_ThreadID p) (number_from ?b es) (put_turn scope p m))"
      by (rule keeps_append [OF keeps_ok [OF k1]]) (simp_all add: r)
    have r': "thread_row (append_events scope (tn_ThreadID p) (number_from ?b es) (put_turn scope p m)) scope (th_ID r) = Some r"
      by (simp add: r thread_row_id [OF ok r])
    show ?thesis
      unfolding put by (rule keeps_trans [OF k1 keeps_trans [OF k2 keeps_put_row [OF keeps_ok [OF k2] r']]]) simp_all
  qed
  then show ?thesis
    unfolding CreateAssistantTurn_def
    by (intro in_scope_keeps [OF ok]) (auto simp: Let_def keeps_same [OF ok] split: sum.splits option.splits)
qed

lemma SaveAssistantTurn_keeps:
  assumes ok: "threads_ok m" shows "keeps m (snd (SaveAssistantTurn now m scope turn))"
proof -
  have "keeps m (project_turn scope (p\<lparr>tn_CreatedAt := c\<rparr>) (put_turn scope (p\<lparr>tn_CreatedAt := c\<rparr>) m))"
    if "mget (turns_of m scope (tn_ThreadID p)) k = Some e" for p c k e
  proof -
    have row: "thread_row m scope (tn_ThreadID p) \<noteq> None" using turn_has_thread [OF ok that] by simp
    have k1: "keeps m (put_turn scope (p\<lparr>tn_CreatedAt := c\<rparr>) m)" by (rule keeps_put_turn [OF ok]) (simp add: row)
    show ?thesis by (rule keeps_trans [OF k1 keeps_project_turn [OF keeps_ok [OF k1]]]) (simp add: row)
  qed
  then show ?thesis
    unfolding SaveAssistantTurn_def
    by (intro in_scope_keeps [OF ok]) (auto simp: Let_def keeps_same [OF ok] split: sum.splits option.splits)
qed

lemma SaveAssistantTurnWithEvent_keeps:
  assumes ok: "threads_ok m" shows "keeps m (snd (SaveAssistantTurnWithEvent now m scope turn event expected))"
proof -
  have "keeps m (project_turn scope (p\<lparr>tn_CreatedAt := c\<rparr>) (append_events scope (tn_ThreadID p)
      [ev\<lparr>te_Sequence := latestAssistantThreadEventSequence (thread_log m scope (tn_ThreadID p)) + 1\<rparr>]
      (put_turn scope (p\<lparr>tn_CreatedAt := c\<rparr>) m)))"
    if "mget (turns_of m scope (tn_ThreadID p)) k = Some e" for p c k e ev
  proof -
    have row: "thread_row m scope (tn_ThreadID p) \<noteq> None" using turn_has_thread [OF ok that] by simp
    have k1: "keeps m (put_turn scope (p\<lparr>tn_CreatedAt := c\<rparr>) m)" by (rule keeps_put_turn [OF ok]) (simp add: row)
    have k2: "keeps (put_turn scope (p\<lparr>tn_CreatedAt := c\<rparr>) m) (append_events scope (tn_ThreadID p)
      [ev\<lparr>te_Sequence := latestAssistantThreadEventSequence (thread_log m scope (tn_ThreadID p)) + 1\<rparr>]
      (put_turn scope (p\<lparr>tn_CreatedAt := c\<rparr>) m))"
      by (rule keeps_append_one [OF keeps_ok [OF k1]]) (simp_all add: row)
    show ?thesis
      by (rule keeps_trans [OF k1 keeps_trans [OF k2 keeps_project_turn [OF keeps_ok [OF k2]]]]) (simp add: row)
  qed
  then show ?thesis
    unfolding SaveAssistantTurnWithEvent_def
    by (intro in_scope_keeps [OF ok]) (auto simp: Let_def keeps_same [OF ok] split: sum.splits option.splits)
qed

end
