(* ===== verification/StudioRunFacts.thy ===== *)
theory StudioRunFacts
  imports StudioRuns
begin

text \<open>
  The invariant of runs and of their event logs: no two runs of a thread that clash, logs numbered from
  one and found through the lookup by type; and the numbering of a project's conversation.
\<close>

section \<open>The invariant of runs\<close>

definition run_numbered :: "AssistantRunEvent list \<Rightarrow> bool" where
  "run_numbered es \<longleftrightarrow> (\<forall>i < length es. aev_Sequence (es ! i) = int i + 1)"

definition no_clash :: "AssistantRun gomap \<Rightarrow> bool" where
  "no_clash rs \<longleftrightarrow> wf_map rs \<and> (\<forall>i r. mget rs i = Some r \<longrightarrow> arun_ID r = i) \<and>
     (\<forall>i j r q. mget rs i = Some r \<longrightarrow> mget rs j = Some q \<longrightarrow> i \<noteq> j \<longrightarrow> \<not> run_clash r q)"

definition run_events_ok :: "StudioStore \<Rightarrow> StudioScope \<Rightarrow> string \<Rightarrow> bool" where
  "run_events_ok m s i \<longleftrightarrow> run_numbered (run_log m s i) \<and> (mget (studio_runs m s) i = None \<longrightarrow> run_log m s i = []) \<and>
     (\<forall>ty. run_lookup m s (i, ty) = filter (\<lambda>e. aev_Type e = ty) (run_log m s i))"

definition runs_ok :: "StudioStore \<Rightarrow> bool" where
  "runs_ok m \<longleftrightarrow> (\<forall>s. no_clash (studio_runs m s)) \<and> (\<forall>s i. run_events_ok m s i)"

definition run_part :: "StudioStore \<Rightarrow> _" where
  "run_part m = (assistantRuns m, assistantEvents m, assistantEventLookup m)"

lemma run_part_reads:
  assumes "run_part m' = run_part m"
  shows "studio_runs m' = studio_runs m" "run_log m' = run_log m" "run_lookup m' = run_lookup m"
  using assms by (simp_all add: run_part_def studio_runs_def run_log_def run_lookup_def fun_eq_iff)

lemma runs_ok_same:
  assumes "runs_ok m" "studio_runs m' = studio_runs m" "run_log m' = run_log m" "run_lookup m' = run_lookup m"
  shows "runs_ok m'"
  using assms(1) unfolding runs_ok_def run_events_ok_def assms(2-) .

lemma runs_ok_part: "runs_ok m \<Longrightarrow> run_part m' = run_part m \<Longrightarrow> runs_ok m'"
  using runs_ok_same run_part_reads by blast

lemma run_clash_sym: "run_clash a b \<longleftrightarrow> run_clash b a"
  by (auto simp: run_clash_def)

lemma validateUnique_None:
  assumes "validateUniqueAssistantRun rs run = None" "mget rs i = Some q" "i \<noteq> arun_ID run"
  shows "\<not> run_clash run q"
  using assms(1,3) mget_in_set [OF assms(2)]
  by (auto simp: validateUniqueAssistantRun_def list_ex_iff split: if_splits)

lemma no_clash_put:
  assumes "no_clash rs" "\<And>i q. mget rs i = Some q \<Longrightarrow> i \<noteq> arun_ID run \<Longrightarrow> \<not> run_clash run q"
  shows "no_clash (mput (arun_ID run) run rs)"
  using assms unfolding no_clash_def by (auto simp: run_clash_sym)

text \<open>Writing a run that clashes with no other one.\<close>

lemma put_run_ok:
  assumes ok: "runs_ok m" and new: "\<And>i q. mget (studio_runs m s) i = Some q \<Longrightarrow> i \<noteq> arun_ID run \<Longrightarrow> \<not> run_clash run q"
    and k: "k = arun_ID run" and part: "assistantEvents m' = assistantEvents m" "assistantEventLookup m' = assistantEventLookup m"
    "assistantRuns m' = put2 s k run (assistantRuns m)"
  shows "runs_ok m'"
proof -
  have rs: "studio_runs m' s' = (if s' = s then mput (arun_ID run) run (studio_runs m s) else studio_runs m s')" for s'
    by (simp add: studio_runs_def part k)
  have reads: "run_log m' = run_log m" "run_lookup m' = run_lookup m"
    by (simp_all add: run_log_def run_lookup_def part fun_eq_iff)
  have "no_clash (studio_runs m' s')" for s'
    unfolding rs using ok no_clash_put [OF _ new] by (auto simp: runs_ok_def)
  moreover have "run_events_ok m' s' i" for s' i
    using ok unfolding runs_ok_def run_events_ok_def reads rs by auto
  ultimately show ?thesis by (simp add: runs_ok_def)
qed

text \<open>A run whose thread, request and liveness are those of the stored run clashes with no other one.\<close>

lemma replace_run_no_clash:
  assumes ok: "runs_ok m" and old: "mget (studio_runs m s) k = Some old"
    and same: "arun_ThreadID run = arun_ThreadID old" "arun_ClientRequestID run = arun_ClientRequestID old"
      "\<not> assistantRunStatusTerminal (arun_Status run) \<longrightarrow> \<not> assistantRunStatusTerminal (arun_Status old)"
    and other: "mget (studio_runs m s) i = Some q" "i \<noteq> k"
  shows "\<not> run_clash run q"
proof -
  have "\<not> run_clash old q" using ok old other unfolding runs_ok_def no_clash_def by metis
  then show ?thesis using same by (auto simp: run_clash_def)
qed

lemma stored_id: "runs_ok m \<Longrightarrow> mget (studio_runs m s) k = Some r \<Longrightarrow> arun_ID r = k"
  by (simp add: runs_ok_def no_clash_def)

section \<open>Operations\<close>

lemma in_scope_runs_ok: "runs_ok m \<Longrightarrow> runs_ok (snd r) \<Longrightarrow> runs_ok (snd (in_scope scope m r))"
  by (simp add: in_scope_def split: option.splits)

lemma prepareAssistantRun_keeps [simp]:
  "arun_ID (prepareAssistantRun now scope run) = arun_ID run"
  "arun_ThreadID (prepareAssistantRun now scope run) = arun_ThreadID run"
  "arun_Revision (prepareAssistantRun now scope run) = arun_Revision run"
  "arun_ClientRequestID (prepareAssistantRun now scope run) = arun_ClientRequestID run"
  "arun_Status (prepareAssistantRun now scope run) = arun_Status run"
  by (simp_all add: prepareAssistantRun_def Let_def)

lemma allocate_runs_ok:
  assumes "runs_ok m" shows "runs_ok (m\<lparr>assistantRuns := set_inner scope (studio_runs m scope) (assistantRuns m)\<rparr>)"
  by (rule runs_ok_same [OF assms]) (simp_all add: studio_runs_def run_log_def run_lookup_def fun_eq_iff)

lemma SaveAssistantRun_ok:
  assumes ok: "runs_ok m" shows "runs_ok (snd (SaveAssistantRun now m scope run))"
proof -
  let ?m = "m\<lparr>assistantRuns := set_inner scope (studio_runs m scope) (assistantRuns m)\<rparr>"
  note ok' = allocate_runs_ok [OF ok, of scope]
  have put: "runs_ok (put_arun scope r ?m)" if "validateUniqueAssistantRun (studio_runs ?m scope) r = None" for r
    using validateUnique_None [OF that] by (intro put_run_ok [OF ok' _ refl]) (auto simp: put_arun_def)
  show ?thesis
    unfolding SaveAssistantRun_def
    by (rule in_scope_runs_ok [OF ok]) (auto simp: Let_def ok ok' put split: option.splits)
qed

lemma put_message_part [simp]: "run_part (put_message scope msg m) = run_part m" "run_part (allocate_messages scope m) = run_part m"
  by (simp_all add: put_message_def allocate_messages_def run_part_def)

lemma put_messages_part: "run_part (snd (put_messages scope ms m)) = run_part m"
  by (induction scope ms m rule: put_messages.induct) simp_all

lemma CreateAssistantRun_ok:
  assumes ok: "runs_ok m" shows "runs_ok (snd (CreateAssistantRun now m scope user assistant run))"
proof -
  have put: "runs_ok (put_arun scope r (put_message scope a (put_message scope b m)))"
    if "validateUniqueAssistantRun (studio_runs m scope) r = None" for r a b
    using validateUnique_None [OF that]
    by (intro put_run_ok [OF ok _ refl]) (auto simp: put_arun_def put_message_def)
  show ?thesis
    unfolding CreateAssistantRun_def
    by (rule in_scope_runs_ok [OF ok]) (auto simp: Let_def ok put split: option.splits)
qed

lemma RequestAssistantRunStop_ok:
  assumes ok: "runs_ok m"
  shows "runs_ok (snd (RequestAssistantRunStopWithAssistantMessage clock m scope runID expected assistant now))"
proof -
  have put: "runs_ok (n\<lparr>assistantRuns := put2 scope runID
      (run\<lparr>arun_Status := RunStopping, arun_Revision := v, arun_UpdatedAt := t\<rparr>) (assistantRuns n)\<rparr>)"
    if run: "mget (studio_runs m scope) runID = Some run" "arun_Status run = RunRunning" and part: "run_part n = run_part m" for run n v t
  proof (rule put_run_ok [OF runs_ok_part [OF ok part]])
    let ?r = "run\<lparr>arun_Status := RunStopping, arun_Revision := v, arun_UpdatedAt := t\<rparr>"
    show "runID = arun_ID ?r" using stored_id [OF ok run(1)] by simp
    show "\<not> run_clash ?r q" if "mget (studio_runs n scope) i = Some q" "i \<noteq> arun_ID ?r" for i q
      using that stored_id [OF ok run(1)] run_part_reads(1) [OF part] run(2)
      by (intro replace_run_no_clash [OF ok run(1)]) (simp_all add: assistantRunStatusTerminal_def)
  qed simp_all
  show ?thesis
    unfolding RequestAssistantRunStopWithAssistantMessage_def
    by (rule in_scope_runs_ok [OF ok]) (simp add: Let_def ok put split: option.splits)
qed

lemma ClaimAssistantRun_ok:
  assumes ok: "runs_ok m" shows "runs_ok (snd (ClaimAssistantRun clock m scope ident requestID now))"
proof -
  have put: "runs_ok (m\<lparr>assistantRuns := put2 scope ident (run\<lparr>arun_Status := RunRunning, arun_UpdatedAt := t\<rparr>) (assistantRuns m)\<rparr>)"
    if run: "mget (studio_runs m scope) ident = Some run" "assistantRunStatusWaitsForInput (arun_Status run)" for run t
  proof (rule put_run_ok [OF ok])
    let ?r = "run\<lparr>arun_Status := RunRunning, arun_UpdatedAt := t\<rparr>"
    show "ident = arun_ID ?r" using stored_id [OF ok run(1)] by simp
    show "\<not> run_clash ?r q" if "mget (studio_runs m scope) i = Some q" "i \<noteq> arun_ID ?r" for i q
      using that stored_id [OF ok run(1)] run(2)
      by (intro replace_run_no_clash [OF ok run(1)])
        (auto simp: assistantRunStatusTerminal_def assistantRunStatusWaitsForInput_def)
  qed simp_all
  show ?thesis
    unfolding ClaimAssistantRun_def
    by (rule in_scope_runs_ok [OF ok]) (simp add: Let_def ok put split: option.splits)
qed

lemma SaveAssistantRunSnapshot_ok:
  assumes ok: "runs_ok m" shows "runs_ok (snd (SaveAssistantRunSnapshot now m scope run ms expected))"
proof -
  have put: "runs_ok (put_arun scope r n)"
    if "validateUniqueAssistantRun (studio_runs m scope) r = None" and part: "run_part n = run_part m" for r n
    using validateUnique_None [OF that(1)] part run_part_reads(1) [OF part]
    by (intro put_run_ok [OF runs_ok_part [OF ok part] _ refl]) (auto simp: put_arun_def)
  have part: "run_part n = run_part m" if "put_messages scope ps (allocate_messages scope m) = (e, n)" for e n ps
    using put_messages_part [of scope ps "allocate_messages scope m"] that by simp
  show ?thesis
    unfolding SaveAssistantRunSnapshot_def
    by (rule in_scope_runs_ok [OF ok])
      (auto simp: Let_def ok intro: put part runs_ok_part [OF ok part] split: option.splits prod.splits)
qed

lemma prepareAssistantRunEvent_seq:
  "prepareAssistantRunEvent now scope event expected = Inr e \<Longrightarrow> aev_Sequence e = expected + 1"
  by (auto simp: prepareAssistantRunEvent_def Let_def split: option.splits if_splits)

lemma run_numbered_latest:
  "run_numbered es \<Longrightarrow> (if es = [] then 0 else aev_Sequence (last es)) = int (length es)"
  by (cases es rule: rev_cases) (auto simp: run_numbered_def)

lemma AppendAssistantRunEvent_ok:
  assumes ok: "runs_ok m" shows "runs_ok (snd (AppendAssistantRunEvent now m scope event expected))"
proof (cases "prepareAssistantRunEvent now scope event expected")
  case (Inl e)
  then show ?thesis using ok by (simp add: AppendAssistantRunEvent_def)
next
  case (Inr e)
  let ?i = "aev_RunID e" and ?a = "m\<lparr>assistantEvents := set_inner scope (inner (assistantEvents m) scope) (assistantEvents m)\<rparr>"
  let ?log = "run_log m scope ?i" and ?key = "(aev_RunID e, aev_Type e)"
  let ?n = "?a\<lparr>assistantEvents := put2 scope ?i (?log @ [e]) (assistantEvents ?a),
    assistantEventLookup := set_inner scope (AList.update ?key (run_lookup ?a scope ?key @ [e]) (inner (assistantEventLookup ?a) scope))
      (assistantEventLookup ?a)\<rparr>"
  have a: "runs_ok ?a"
    by (rule runs_ok_same [OF ok]) (simp_all add: studio_runs_def run_log_def run_lookup_def fun_eq_iff)
  have n: "runs_ok ?n" if run: "mget (studio_runs m scope) ?i \<noteq> None"
    and latest: "(if ?log = [] then 0 else aev_Sequence (last ?log)) = expected"
  proof -
    have rs: "studio_runs ?n = studio_runs m" by (simp add: studio_runs_def fun_eq_iff)
    have log: "run_log ?n s i = run_log m s i @ (if s = scope \<and> i = ?i then [e] else [])" for s i
      by (simp add: run_log_def mgetd_def)
    have look: "run_lookup ?n s k = run_lookup m s k @ (if s = scope \<and> k = ?key then [e] else [])" for s k
      by (simp add: run_lookup_def update_conv')
    have old: "run_events_ok m s i" for s i using ok by (simp add: runs_ok_def)
    have seq: "aev_Sequence e = int (length ?log) + 1"
      using run_numbered_latest [of ?log] old [of scope ?i] latest prepareAssistantRunEvent_seq [OF Inr]
      by (simp add: run_events_ok_def)
    have num: "run_numbered (run_log ?n s i)" for s i
      using old [of s i] seq unfolding log by (auto simp: run_events_ok_def run_numbered_def nth_append less_Suc_eq)
    have lookup: "run_lookup ?n s (i, ty) = filter (\<lambda>x. aev_Type x = ty) (run_log ?n s i)" for s i ty
      unfolding log look using old [of s i] by (auto simp: run_events_ok_def)
    have none: "run_log ?n s i = []" if "mget (studio_runs m s) i = None" for s i
      unfolding log using old [of s i] run that by (auto simp: run_events_ok_def)
    have "run_events_ok ?n s i" for s i
      unfolding run_events_ok_def rs using num none lookup by blast
    then show ?thesis using ok unfolding runs_ok_def rs by blast
  qed
  show ?thesis
    using ok a n by (simp add: AppendAssistantRunEvent_def Inr Let_def)
qed

end
