(* ===== verification/StudioRetentionFacts.thy ===== *)
theory StudioRetentionFacts
  imports StudioRetention StudioThreadFacts StudioRunFacts
begin

text \<open>
  Deletions cut whole threads and whole runs out of the store, never a part of one, so both invariants
  survive them; the conversation keeps its numbering and its high-water mark.
\<close>

section \<open>Reading filtered tables\<close>

lemma mget_filter_keys: "mget (mfilter (\<lambda>i _. P i) t) k = (if P k then mget t k else None)"
  by (induction t) (auto simp: mget_def mfilter_def)

lemma mgetd_filter_keys: "mgetd d (mfilter (\<lambda>i _. P i) t) k = (if P k then mgetd d t k else d)"
  by (simp add: mgetd_def mget_filter_keys)

lemma mfilter_Nil [simp]: "mfilter P [] = []"
  by (simp add: mfilter_def)

lemma map_of_filter_fst: "map_of (filter (\<lambda>((i, _), _). P i) t) (k, ty) = (if P k then map_of t (k, ty) else None)"
  by (induction t) auto

section \<open>Threads\<close>

definition same_thread :: "StudioStore \<Rightarrow> StudioStore \<Rightarrow> StudioScope \<Rightarrow> string \<Rightarrow> bool" where
  "same_thread m m' s t \<longleftrightarrow> thread_row m' s t = thread_row m s t \<and> thread_log m' s t = thread_log m s t \<and>
     turn_log m' s t = turn_log m s t \<and> turn_index m' s t = turn_index m s t \<and>
     turn_starts m' s t = turn_starts m s t \<and> turns_of m' s t = turns_of m s t"

definition no_thread :: "StudioStore \<Rightarrow> StudioScope \<Rightarrow> string \<Rightarrow> bool" where
  "no_thread m s t \<longleftrightarrow> thread_row m s t = None \<and> thread_log m s t = [] \<and> turn_log m s t = [] \<and>
     turn_index m s t = (\<lambda>_. []) \<and> turn_starts m s t = [] \<and> turns_of m s t = []"

definition thread_cut :: "StudioStore \<Rightarrow> StudioStore \<Rightarrow> bool" where
  "thread_cut m m' \<longleftrightarrow> (\<forall>s t. same_thread m m' s t \<or> no_thread m' s t)"

lemma thread_cut_refl [simp]: "thread_cut m m"
  by (simp add: thread_cut_def same_thread_def)

lemma same_thread_trans: "same_thread m m' s t \<Longrightarrow> same_thread m' m'' s t \<Longrightarrow> same_thread m m'' s t"
  by (simp add: same_thread_def)

lemma same_no_thread: "no_thread m' s t \<Longrightarrow> same_thread m' m'' s t \<Longrightarrow> no_thread m'' s t"
  by (simp add: same_thread_def no_thread_def)

lemma thread_cut_trans:
  assumes a: "thread_cut m m'" and b: "thread_cut m' m''" shows "thread_cut m m''"
  unfolding thread_cut_def
proof (intro allI)
  fix s t
  have "same_thread m m' s t \<or> no_thread m' s t" using a by (simp add: thread_cut_def)
  moreover have "same_thread m' m'' s t \<or> no_thread m'' s t" using b by (simp add: thread_cut_def)
  ultimately show "same_thread m m'' s t \<or> no_thread m'' s t" by (blast intro: same_thread_trans same_no_thread)
qed

lemma no_thread_ok: "no_thread m s t \<Longrightarrow> thread_ok m s t"
  by (simp add: no_thread_def thread_ok_def tables_agree_def)

lemma same_thread_ok: 
  assumes "same_thread m m' s t" "thread_ok m s t" shows "thread_ok m' s t"
proof -
  from assms(1) have eqs: "thread_row m' s t = thread_row m s t" "thread_log m' s t = thread_log m s t"
    "turn_log m' s t = turn_log m s t" "turn_index m' s t = turn_index m s t"
    "turn_starts m' s t = turn_starts m s t" "turns_of m' s t = turns_of m s t"
    by (simp_all only: same_thread_def)
  show ?thesis using assms(2) unfolding thread_ok_def tables_agree_def eqs .
qed

lemma thread_cut_ok:
  assumes ok: "threads_ok m" and cut: "thread_cut m m'" shows "threads_ok m'"
  unfolding threads_ok_def
proof (intro allI)
  fix s t
  have "thread_ok m s t" using ok by (simp add: threads_ok_def)
  moreover have "same_thread m m' s t \<or> no_thread m' s t" using cut by (simp add: thread_cut_def)
  ultimately show "thread_ok m' s t" by (blast intro: same_thread_ok no_thread_ok)
qed

lemma thread_part_cut:
  assumes "thread_part m' = thread_part m" shows "thread_cut m m'"
  unfolding thread_cut_def same_thread_def thread_part_reads [OF assms] by simp

lemma drop_thread_reads:
  "thread_row (drop_thread scope tid m) s t = (if s = scope \<and> t = tid then None else thread_row m s t)"
  "thread_log (drop_thread scope tid m) s t = (if s = scope \<and> t = tid then [] else thread_log m s t)"
  "turn_log (drop_thread scope tid m) s t = (if s = scope \<and> t = tid then [] else turn_log m s t)"
  "turn_index (drop_thread scope tid m) s t = (if s = scope \<and> t = tid then (\<lambda>_. []) else turn_index m s t)"
  "turn_starts (drop_thread scope tid m) s t = (if s = scope \<and> t = tid then [] else turn_starts m s t)"
  "turns_of (drop_thread scope tid m) s t = (if s = scope \<and> t = tid then [] else turns_of m s t)"
  by (simp_all add: drop_thread_def thread_row_def thread_log_def turn_log_def turn_index_def turn_starts_def
      turns_of_def mgetd_def fun_eq_iff)

lemma drop_thread_same: "\<not> (s = scope \<and> t = tid) \<Longrightarrow> same_thread m (drop_thread scope tid m) s t"
  by (auto simp: same_thread_def drop_thread_reads)

lemma drop_thread_none: "no_thread (drop_thread scope tid m) scope tid"
  by (simp add: no_thread_def drop_thread_reads)

lemma drop_thread_cut: "thread_cut m (drop_thread scope tid m)"
  unfolding thread_cut_def
proof (intro allI)
  show "same_thread m (drop_thread scope tid m) s t \<or> no_thread (drop_thread scope tid m) s t" for s t
    using drop_thread_same [of s scope t tid m] drop_thread_none [of scope tid m] by (cases "s = scope \<and> t = tid") auto
qed

lemma prune_threads_same: "same_thread m (prune_threads scope m) s t"
  by (simp add: same_thread_def prune_threads_def thread_row_def thread_log_def turn_log_def turn_index_def
      turn_starts_def turns_of_def fun_eq_iff)

lemma prune_threads_cut: "thread_cut m (prune_threads scope m)"
  by (simp add: thread_cut_def prune_threads_same)

lemma other_tables [simp]:
  "thread_part (forget_turns scope ids m) = thread_part m" "thread_part (drop_bound scope ids m) = thread_part m"
  "thread_part (prune_run_tables scope m) = thread_part m" "thread_part (m\<lparr>studioMessages := x\<rparr>) = thread_part m"
  "thread_part (m\<lparr>conversationItems := c\<rparr>) = thread_part m" "thread_part (forget_runs scope ids m) = thread_part m"
  by (simp_all add: thread_part_def forget_turns_def drop_bound_def prune_run_tables_def forget_runs_def Let_def)

lemma in_scope_either: "P m \<Longrightarrow> P (snd r) \<Longrightarrow> P (snd (in_scope scope m r))"
  by (auto simp: in_scope_def split: option.splits)

text \<open>The state a deletion of a thread leaves.\<close>

definition thread_deleted :: "StudioScope \<Rightarrow> string \<Rightarrow> StudioStore \<Rightarrow> StudioStore" where
  "thread_deleted scope threadID m =
     (let turns = turns_of m scope threadID;
          m = drop_bound scope (map (\<lambda>(_, turn). tn_ID turn) turns) (forget_turns scope (map fst turns) m);
          m = prune_run_tables scope (prune_threads scope (drop_thread scope threadID m))
      in m\<lparr>studioMessages := prune scope (studioMessages m)\<rparr>)"

lemma DeleteAssistantThread_state:
  "snd (DeleteAssistantThread m scope threadID actorID) = m \<or>
   snd (DeleteAssistantThread m scope threadID actorID) = thread_deleted scope (TrimSpace threadID) m"
  by (auto simp: DeleteAssistantThread_def in_scope_def thread_deleted_def Let_def split: option.splits)

lemma thread_deleted_cut: "thread_cut m (thread_deleted scope tid m)"
proof -
  let ?n = "drop_bound scope (map (\<lambda>(_, turn). tn_ID turn) (turns_of m scope tid))
    (forget_turns scope (map fst (turns_of m scope tid)) m)"
  have "thread_cut m ?n" by (rule thread_part_cut) simp
  also have "thread_cut ?n (drop_thread scope tid ?n)" by (rule drop_thread_cut)
  also (thread_cut_trans) have "thread_cut (drop_thread scope tid ?n) (prune_threads scope (drop_thread scope tid ?n))"
    by (rule prune_threads_cut)
  also (thread_cut_trans) have "thread_cut (prune_threads scope (drop_thread scope tid ?n)) (thread_deleted scope tid m)"
    by (rule thread_part_cut) (simp add: thread_deleted_def Let_def)
  finally (thread_cut_trans) show ?thesis .
qed

lemma DeleteAssistantThread_threads:
  "threads_ok m \<Longrightarrow> threads_ok (snd (DeleteAssistantThread m scope threadID actorID))"
  using DeleteAssistantThread_state [of m scope threadID actorID] thread_cut_ok [OF _ thread_deleted_cut] by auto

lemma DeleteProjectMessages_cut: "thread_cut m (snd (DeleteProjectMessages m scope))"
proof -
  have "same_thread m (snd (DeleteProjectMessages m scope)) s t \<or> no_thread (snd (DeleteProjectMessages m scope)) s t" for s t
    by (cases "StudioScope_validate scope"; cases "s = scope")
      (simp_all add: DeleteProjectMessages_def in_scope_def same_thread_def no_thread_def thread_row_def thread_log_def
        turn_log_def turn_index_def turn_starts_def turns_of_def mgetd_def fun_eq_iff)
  then show ?thesis by (simp add: thread_cut_def)
qed

section \<open>Runs\<close>

definition same_run :: "StudioStore \<Rightarrow> StudioStore \<Rightarrow> StudioScope \<Rightarrow> string \<Rightarrow> bool" where
  "same_run m m' s i \<longleftrightarrow> mget (studio_runs m' s) i = mget (studio_runs m s) i \<and> run_log m' s i = run_log m s i \<and>
     (\<forall>ty. run_lookup m' s (i, ty) = run_lookup m s (i, ty))"

definition no_run :: "StudioStore \<Rightarrow> StudioScope \<Rightarrow> string \<Rightarrow> bool" where
  "no_run m s i \<longleftrightarrow> mget (studio_runs m s) i = None \<and> run_log m s i = [] \<and> (\<forall>ty. run_lookup m s (i, ty) = [])"

definition run_cut :: "StudioStore \<Rightarrow> StudioStore \<Rightarrow> bool" where
  "run_cut m m' \<longleftrightarrow> (\<forall>s. wf_map (studio_runs m s) \<longrightarrow> wf_map (studio_runs m' s)) \<and> (\<forall>s i. same_run m m' s i \<or> no_run m' s i)"

lemma run_cut_refl [simp]: "run_cut m m"
  by (simp add: run_cut_def same_run_def)

lemma same_run_trans: "same_run m m' s i \<Longrightarrow> same_run m' m'' s i \<Longrightarrow> same_run m m'' s i"
  by (simp add: same_run_def)

lemma same_no_run: "no_run m' s i \<Longrightarrow> same_run m' m'' s i \<Longrightarrow> no_run m'' s i"
  by (simp add: same_run_def no_run_def)

lemma run_cut_trans:
  assumes a: "run_cut m m'" and b: "run_cut m' m''" shows "run_cut m m''"
  unfolding run_cut_def
proof (intro conjI allI impI)
  fix s assume "wf_map (studio_runs m s)"
  then show "wf_map (studio_runs m'' s)" using a b by (simp add: run_cut_def)
next
  fix s i
  have "same_run m m' s i \<or> no_run m' s i" using a by (simp add: run_cut_def)
  moreover have "same_run m' m'' s i \<or> no_run m'' s i" using b by (simp add: run_cut_def)
  ultimately show "same_run m m'' s i \<or> no_run m'' s i" by (blast intro: same_run_trans same_no_run)
qed

lemma run_part_cut:
  assumes "run_part m' = run_part m" shows "run_cut m m'"
  unfolding run_cut_def same_run_def run_part_reads [OF assms] by simp

lemma run_cut_ok:
  assumes ok: "runs_ok m" and cut: "run_cut m m'" shows "runs_ok m'"
proof -
  have some: "mget (studio_runs m s) i = Some r" if "mget (studio_runs m' s) i = Some r" for s i r
    
  proof -
    have "same_run m m' s i \<or> no_run m' s i" using cut by (simp add: run_cut_def)
    then show ?thesis using that by (auto simp: same_run_def no_run_def)
  qed
  have wf: "wf_map (studio_runs m' s)" for s
    using ok cut by (simp add: run_cut_def runs_ok_def no_clash_def)
  have ids: "arun_ID r = i" if "mget (studio_runs m' s) i = Some r" for s i r
    using stored_id [OF ok some [OF that]] .
  have clash: "\<not> run_clash r q" if "mget (studio_runs m' s) i = Some r" "mget (studio_runs m' s) j = Some q" "i \<noteq> j" for s i j r q
    using ok some [OF that(1)] some [OF that(2)] that(3) unfolding runs_ok_def no_clash_def by blast
  have "no_clash (studio_runs m' s)" for s unfolding no_clash_def using wf ids clash by blast
  moreover have "run_events_ok m' s i" for s i
  proof (cases "same_run m m' s i")
    case True
    then show ?thesis using ok by (simp add: runs_ok_def run_events_ok_def same_run_def)
  next
    case False
    then have "no_run m' s i" using cut by (auto simp: run_cut_def)
    then show ?thesis by (simp add: run_events_ok_def no_run_def run_numbered_def)
  qed
  ultimately show ?thesis by (simp add: runs_ok_def)
qed

lemma forget_runs_reads:
  "studio_runs (forget_runs scope D m) s = (if s = scope then mfilter (\<lambda>i _. i \<notin> set D) (studio_runs m s) else studio_runs m s)"
  "run_log (forget_runs scope D m) s i = (if s = scope \<and> i \<in> set D then [] else run_log m s i)"
  "run_lookup (forget_runs scope D m) s (i, ty) = (if s = scope \<and> i \<in> set D then [] else run_lookup m s (i, ty))"
  by (simp_all add: forget_runs_def studio_runs_def run_log_def run_lookup_def mgetd_filter_keys map_of_filter_fst)

lemma forget_runs_cut: "run_cut m (forget_runs scope D m)"
  unfolding run_cut_def same_run_def no_run_def forget_runs_reads by (auto simp: mget_filter_keys)

lemma forget_turns_reads:
  "studio_runs (forget_turns scope D m) s =
     (if s = scope \<and> D \<noteq> [] then mfilter (\<lambda>i _. \<not> (i \<in> set D \<and> mget (studio_runs m s) i \<noteq> None)) (studio_runs m s) else studio_runs m s)"
  "run_log (forget_turns scope D m) s i =
     (if s = scope \<and> i \<in> set D \<and> mget (studio_runs m s) i \<noteq> None then [] else run_log m s i)"
  "run_lookup (forget_turns scope D m) s (i, ty) = (if s = scope \<and> i \<in> set D then [] else run_lookup m s (i, ty))"
  by (auto simp add: forget_turns_def Let_def studio_runs_def run_log_def run_lookup_def mgetd_filter_keys map_of_filter_fst)

lemma forget_turns_cut:
  assumes ok: "runs_ok m" shows "run_cut m (forget_turns scope D m)"
proof -
  have empty: "run_lookup m s (i, ty) = []" if "mget (studio_runs m s) i = None" for s i ty
    using ok that by (simp add: runs_ok_def run_events_ok_def)
  have "same_run m (forget_turns scope D m) s i \<or> no_run (forget_turns scope D m) s i" for s i
    unfolding same_run_def no_run_def forget_turns_reads
    using empty [of s i] by (cases "s = scope \<and> i \<in> set D") (auto simp: mget_filter_keys)
  moreover have "wf_map (studio_runs m s) \<longrightarrow> wf_map (studio_runs (forget_turns scope D m) s)" for s
    by (simp add: forget_turns_reads)
  ultimately show ?thesis by (simp add: run_cut_def)
qed

lemma prune_run_tables_reads [simp]:
  "studio_runs (prune_run_tables scope m) = studio_runs m" "run_log (prune_run_tables scope m) = run_log m"
  "run_lookup (prune_run_tables scope m) = run_lookup m"
  by (simp_all add: prune_run_tables_def studio_runs_def run_log_def run_lookup_def fun_eq_iff)

lemma prune_run_tables_cut: "run_cut m (prune_run_tables scope m)"
  by (simp add: run_cut_def same_run_def)

lemma other_run_tables [simp]:
  "run_part (drop_thread scope tid m) = run_part m" "run_part (prune_threads scope m) = run_part m"
  "run_part (drop_bound scope ids m) = run_part m" "run_part (m\<lparr>studioMessages := x\<rparr>) = run_part m"
  "run_part (m\<lparr>conversationItems := c\<rparr>) = run_part m"
  by (simp_all add: run_part_def drop_thread_def prune_threads_def drop_bound_def)

lemma thread_deleted_run_cut:
  assumes "runs_ok m" shows "run_cut m (thread_deleted scope tid m)"
proof -
  let ?f = "forget_turns scope (map fst (turns_of m scope tid)) m"
  let ?n = "prune_threads scope (drop_thread scope tid (drop_bound scope (map (\<lambda>(_, turn). tn_ID turn) (turns_of m scope tid)) ?f))"
  have "run_cut m ?f" by (rule forget_turns_cut [OF assms])
  also have "run_cut ?f ?n" by (rule run_part_cut) simp
  also (run_cut_trans) have "run_cut ?n (prune_run_tables scope ?n)" by (rule prune_run_tables_cut)
  also (run_cut_trans) have "run_cut (prune_run_tables scope ?n) (thread_deleted scope tid m)"
    by (rule run_part_cut) (simp add: thread_deleted_def Let_def)
  finally (run_cut_trans) show ?thesis .
qed

lemma DeleteAssistantThread_runs: "runs_ok m \<Longrightarrow> runs_ok (snd (DeleteAssistantThread m scope threadID actorID))"
  using DeleteAssistantThread_state [of m scope threadID actorID] run_cut_ok [OF _ thread_deleted_run_cut] by auto

lemma DeleteProjectMessages_run_cut: "run_cut m (snd (DeleteProjectMessages m scope))"
proof -
  have "same_run m (snd (DeleteProjectMessages m scope)) s i \<or> no_run (snd (DeleteProjectMessages m scope)) s i" for s i
    by (cases "StudioScope_validate scope"; cases "s = scope")
      (simp_all add: DeleteProjectMessages_def in_scope_def same_run_def no_run_def studio_runs_def run_log_def run_lookup_def mgetd_def)
  moreover have "wf_map (studio_runs m s) \<longrightarrow> wf_map (studio_runs (snd (DeleteProjectMessages m scope)) s)" for s
    by (cases "StudioScope_validate scope") (simp_all add: DeleteProjectMessages_def in_scope_def studio_runs_def)
  ultimately show ?thesis by (simp add: run_cut_def)
qed

end
