(* ===== verification/StudioSweep.thy ===== *)
theory StudioSweep
  imports StudioRetentionFacts
begin

text \<open>
  The numbering of a project's conversation: items carry strictly growing numbers bounded by the
  high-water mark, an item of a run is stored once, and deleting runs only drops items.

  What the retention sweep removes and what it keeps.
\<close>

definition conv_ok :: "StudioStore \<Rightarrow> bool" where
  "conv_ok m \<longleftrightarrow> (\<forall>s. sorted_wrt (<) (map ci_Sequence (conversation m s)) \<and>
     (\<forall>item \<in> set (conversation m s). ci_Sequence item \<le> high_water m s) \<and>
     distinct (map (\<lambda>item. (ci_ID item, ci_RunID item)) (conversation m s)))"

text \<open>A store whose conversations are those of another with some items dropped, and whose marks are its marks.\<close>

definition conv_cut :: "StudioStore \<Rightarrow> StudioStore \<Rightarrow> bool" where
  "conv_cut m m' \<longleftrightarrow> (\<forall>s. (\<exists>P. conversation m' s = filter P (conversation m s)) \<and> high_water m' s = high_water m s)"

lemma conv_cut_refl [simp]: "conv_cut m m"
proof -
  have "conversation m s = filter (\<lambda>_. True) (conversation m s)" for s by simp
  then show ?thesis unfolding conv_cut_def by blast
qed

lemma conv_cut_trans:
  assumes a: "conv_cut m m'" and b: "conv_cut m' m''" shows "conv_cut m m''"
  unfolding conv_cut_def
proof (intro allI conjI)
  fix s
  obtain P where P: "conversation m' s = filter P (conversation m s)" using a by (auto simp: conv_cut_def)
  obtain Q where Q: "conversation m'' s = filter Q (conversation m' s)" using b by (auto simp: conv_cut_def)
  show "\<exists>R. conversation m'' s = filter R (conversation m s)" unfolding Q P filter_filter by blast
  show "high_water m'' s = high_water m s" using a b by (simp add: conv_cut_def)
qed

definition conv_part :: "StudioStore \<Rightarrow> _" where
  "conv_part m = (conversationItems m, conversationSequences m)"

lemma conv_part_reads:
  assumes "conv_part m' = conv_part m" shows "conversation m' = conversation m" "high_water m' = high_water m"
  using assms by (simp_all add: conv_part_def conversation_def high_water_def fun_eq_iff)

lemma conv_part_cut:
  assumes "conv_part m' = conv_part m" shows "conv_cut m m'"
proof -
  have "conv_cut m' m'" by simp
  then show ?thesis unfolding conv_cut_def conv_part_reads [OF assms] .
qed

lemma conv_cut_ok:
  assumes ok: "conv_ok m" and cut: "conv_cut m m'" shows "conv_ok m'"
  unfolding conv_ok_def
proof (intro allI)
  fix s
  obtain P where P: "conversation m' s = filter P (conversation m s)" using cut by (auto simp: conv_cut_def)
  have w: "high_water m' s = high_water m s" using cut by (simp add: conv_cut_def)
  have o: "sorted_wrt (<) (map ci_Sequence (conversation m s))"
    "\<forall>item \<in> set (conversation m s). ci_Sequence item \<le> high_water m s"
    "distinct (map (\<lambda>item. (ci_ID item, ci_RunID item)) (conversation m s))"
    using ok by (simp_all add: conv_ok_def)
  show "sorted_wrt (<) (map ci_Sequence (conversation m' s)) \<and>
     (\<forall>item \<in> set (conversation m' s). ci_Sequence item \<le> high_water m' s) \<and>
     distinct (map (\<lambda>item. (ci_ID item, ci_RunID item)) (conversation m' s))"
    unfolding P w using o by (simp add: sorted_wrt_map sorted_wrt_filter distinct_map_filter)
qed

section \<open>Appending\<close>

lemma fold_max_bound: "\<forall>x \<in> set xs. x \<le> (b :: int) \<Longrightarrow> fold max xs b = b"
  by (induction xs) (simp_all add: max_def)

text \<open>Either nothing changes, or the next number goes to a new item at the end.\<close>

definition appends_item :: "StudioScope \<Rightarrow> AssistantConversationItem \<Rightarrow> StudioStore \<Rightarrow> StudioStore \<Rightarrow> bool" where
  "appends_item scope item m m' \<longleftrightarrow> ci_Sequence item = high_water m scope + 1 \<and>
     (\<forall>s. conversation m' s = conversation m s @ (if s = scope then [item] else [])) \<and>
     (\<forall>s. high_water m' s = (if s = scope then high_water m scope + 1 else high_water m s)) \<and>
     (ci_ID item, ci_RunID item) \<notin> (\<lambda>x. (ci_ID x, ci_RunID x)) ` set (conversation m scope)"

lemma AppendAssistantConversationItem_cases:
  assumes ok: "conv_ok m"
  obtains (unchanged) "snd (AppendAssistantConversationItem now m scope item) = m"
      "\<And>a. fst (AppendAssistantConversationItem now m scope item) = Inr a \<Longrightarrow> a \<in> set (conversation m scope)"
  | (appended) a where "fst (AppendAssistantConversationItem now m scope item) = Inr a"
      "appends_item scope a m (snd (AppendAssistantConversationItem now m scope item))"
proof (cases "prepareAssistantConversationItem now scope item")
  case (Inl e)
  then show thesis using unchanged by (simp add: AppendAssistantConversationItem_def)
next
  case (Inr p)
  let ?P = "\<lambda>x. ci_ID x = ci_ID p \<and> ci_RunID x = ci_RunID p"
  show thesis
  proof (cases "find ?P (conversation m scope)")
    case (Some x)
    then have "x \<in> set (conversation m scope)" by (auto simp: find_Some_iff)
    then show thesis
      by (intro unchanged) (auto simp: AppendAssistantConversationItem_def Inr Some split: if_splits)
  next
    case None
    let ?a = "p\<lparr>ci_Sequence := high_water m scope + 1\<rparr>"
    have max: "fold max (map ci_Sequence (conversation m scope)) (high_water m scope) = high_water m scope"
      using ok by (intro fold_max_bound) (simp add: conv_ok_def)
    let ?n = "m\<lparr>conversationSequences := AList.update scope (high_water m scope + 1) (conversationSequences m),
      conversationItems := set_inner scope (conversation m scope @ [?a]) (conversationItems m)\<rparr>"
    have r: "AppendAssistantConversationItem now m scope item = (Inr ?a, ?n)"
      by (simp add: AppendAssistantConversationItem_def Inr None max Let_def)
    have conv: "conversation ?n s = conversation m s @ (if s = scope then [?a] else [])" for s by (simp add: conversation_def)
    have mark: "high_water ?n s = (if s = scope then high_water m scope + 1 else high_water m s)" for s
      by (simp add: high_water_def update_conv')
    have "appends_item scope ?a m ?n"
      unfolding appends_item_def using None conv mark by (auto simp: find_None_iff)
    then show thesis using appended [of ?a] r by simp
  qed
qed

lemma appends_item_ok:
  assumes ok: "conv_ok m" and app: "appends_item scope a m m'" shows "conv_ok m'"
  unfolding conv_ok_def
proof (intro allI)
  fix s
  have o: "sorted_wrt (<) (map ci_Sequence (conversation m s))"
    "\<forall>item \<in> set (conversation m s). ci_Sequence item \<le> high_water m s"
    "distinct (map (\<lambda>item. (ci_ID item, ci_RunID item)) (conversation m s))"
    using ok by (simp_all add: conv_ok_def)
  show "sorted_wrt (<) (map ci_Sequence (conversation m' s)) \<and>
     (\<forall>item \<in> set (conversation m' s). ci_Sequence item \<le> high_water m' s) \<and>
     distinct (map (\<lambda>item. (ci_ID item, ci_RunID item)) (conversation m' s))"
    using app o unfolding appends_item_def by (cases "s = scope") (auto simp: sorted_wrt_append)
qed

lemma AppendAssistantConversationItem_ok:
  assumes "conv_ok m" shows "conv_ok (snd (AppendAssistantConversationItem now m scope item))"
  by (rule AppendAssistantConversationItem_cases [OF assms, of now scope item]) (simp_all add: assms appends_item_ok [OF assms])

lemma AppendAssistantConversationItem_mark:
  assumes "conv_ok m" shows "high_water m s \<le> high_water (snd (AppendAssistantConversationItem now m scope item)) s"
  by (rule AppendAssistantConversationItem_cases [OF assms, of now scope item]) (simp_all add: appends_item_def)

section \<open>Deletions\<close>

lemma forget_runs_conv: "conv_cut m (forget_runs scope D m)"
proof -
  have "\<exists>P. conversation (forget_runs scope D m) s = filter P (conversation m s)" for s
  proof (cases "s = scope")
    case True
    then show ?thesis by (auto simp: forget_runs_def conversation_def)
  next
    case False
    then have "conversation (forget_runs scope D m) s = filter (\<lambda>_. True) (conversation m s)"
      by (simp add: forget_runs_def conversation_def)
    then show ?thesis by blast
  qed
  moreover have "high_water (forget_runs scope D m) s = high_water m s" for s by (simp add: forget_runs_def high_water_def)
  ultimately show ?thesis by (simp add: conv_cut_def)
qed

lemma forget_turns_conversation:
  "conversation (forget_turns scope D m) s =
     (if s = scope then filter (\<lambda>item. ci_RunID item \<notin> set D) (conversation m s) else conversation m s)"
  by (auto simp: forget_turns_def Let_def conversation_def)

lemma forget_turns_conv: "conv_cut m (forget_turns scope D m)"
proof -
  have "\<exists>P. conversation (forget_turns scope D m) s = filter P (conversation m s)" for s
  proof (cases "s = scope")
    case False
    have "conversation m s = filter (\<lambda>_. True) (conversation m s)" by simp
    then have "\<exists>P. conversation m s = filter P (conversation m s)" by (rule exI [where x = "\<lambda>_. True"])
    with False show ?thesis unfolding forget_turns_conversation by simp
  qed (auto simp: forget_turns_conversation)
  moreover have "high_water (forget_turns scope D m) s = high_water m s" for s
    by (simp add: forget_turns_def high_water_def Let_def)
  ultimately show ?thesis by (simp add: conv_cut_def)
qed

lemma other_conv_tables [simp]:
  "conv_part (drop_thread scope tid m) = conv_part m" "conv_part (prune_threads scope m) = conv_part m"
  "conv_part (drop_bound scope ids m) = conv_part m" "conv_part (prune_run_tables scope m) = conv_part m"
  "conv_part (m\<lparr>studioMessages := x\<rparr>) = conv_part m"
  by (simp_all add: conv_part_def drop_thread_def prune_threads_def drop_bound_def prune_run_tables_def)

lemma thread_deleted_conv: "conv_cut m (thread_deleted scope tid m)"
proof -
  let ?f = "forget_turns scope (map fst (turns_of m scope tid)) m"
  have "conv_cut m ?f" by (rule forget_turns_conv)
  also have "conv_cut ?f (thread_deleted scope tid m)"
    by (rule conv_part_cut) (simp add: thread_deleted_def Let_def)
  finally (conv_cut_trans) show ?thesis .
qed

lemma DeleteAssistantThread_conv: "conv_cut m (snd (DeleteAssistantThread m scope threadID actorID))"
  using DeleteAssistantThread_state [of m scope threadID actorID] thread_deleted_conv [of m scope] by auto

lemma DeleteProjectMessages_conversation:
  assumes "StudioScope_validate scope = None"
  shows "conversation (snd (DeleteProjectMessages m scope)) s = (if s = scope then [] else conversation m s)"
    "high_water (snd (DeleteProjectMessages m scope)) s = (if s = scope then 0 else high_water m s)"
  using assms by (simp_all add: DeleteProjectMessages_def in_scope_def conversation_def high_water_def)
    (simp add: drop_scope_def delete_conv')

lemma DeleteProjectMessages_conv_ok: "conv_ok m \<Longrightarrow> conv_ok (snd (DeleteProjectMessages m scope))"
proof (cases "StudioScope_validate scope")
  case None
  assume "conv_ok m"
  then show ?thesis unfolding conv_ok_def DeleteProjectMessages_conversation [OF None] by auto
next
  case (Some e)
  assume "conv_ok m"
  then show ?thesis by (simp add: DeleteProjectMessages_def in_scope_def Some)
qed

section \<open>Threads\<close>

text \<open>A loop that cuts out the entry \<open>k\<close> when it is doomed and leaves it alone in every other round.\<close>

lemma fold_cut:
  assumes cut: "\<And>m. D m \<Longrightarrow> N (f k m)" and keep: "\<And>x m. x \<noteq> k \<or> \<not> D m \<Longrightarrow> S m (f x m)"
    and gone: "\<And>x m. N m \<Longrightarrow> N (f x m)" and same: "\<And>m m'. S m m' \<Longrightarrow> D m' = D m"
    and refl: "\<And>m. S m m" and trans: "\<And>m m' m''. S m m' \<Longrightarrow> S m' m'' \<Longrightarrow> S m m''"
  shows "if D m \<and> k \<in> set xs then N (fold f xs m) else S m (fold f xs m)"
proof (induction xs arbitrary: m)
  case Nil
  then show ?case by (simp add: refl)
next
  case (Cons x xs)
  have gone': "N m \<Longrightarrow> N (fold f ys m)" for ys m
    by (induction ys arbitrary: m) (simp_all add: gone)
  show ?case
  proof (cases "x = k \<and> D m")
    case True
    then show ?thesis using gone' [OF cut [of m], of xs] by simp
  next
    case False
    then have s: "S m (f x m)" using keep by blast
    then have "D (f x m) = D m" by (rule same)
    with Cons.IH [of "f x m"] False show ?thesis
      using trans [OF s] by (cases "D m \<and> k \<in> set xs") auto
  qed
qed

definition thread_doomed :: "time \<Rightarrow> StudioStore \<Rightarrow> StudioScope \<Rightarrow> string \<Rightarrow> bool" where
  "thread_doomed before m s t \<longleftrightarrow>
     (case thread_row m s t of None \<Rightarrow> False
      | Some r \<Rightarrow> th_UpdatedAt r < before \<and> th_Status r \<noteq> ThreadActive \<and>
          (\<forall>(_, turn) \<in> set (turns_of m s t). assistantTurnStatusTerminal (tn_Status turn)))"

lemma same_thread_doomed:
  assumes "same_thread m m' s t" shows "thread_doomed before m' s t = thread_doomed before m s t"
proof -
  have eqs: "thread_row m' s t = thread_row m s t" "turns_of m' s t = turns_of m s t"
    using assms by (simp_all only: same_thread_def)
  show ?thesis unfolding thread_doomed_def eqs ..
qed

lemma same_thread_refl [simp]: "same_thread m m s t"
  by (simp add: same_thread_def)

lemma same_thread_part: "thread_part m' = thread_part m \<Longrightarrow> same_thread m m' s t"
  by (simp only: same_thread_def thread_part_reads [of m' m])

lemma retire_thread_row:
  assumes "x = t \<and> thread_doomed before m s t" shows "no_thread (retire_thread before s x m) s t"
proof -
  obtain r where r: "thread_row m s t = Some r" using assms by (auto simp: thread_doomed_def split: option.splits)
  have "\<not> list_ex (\<lambda>(_, turn). \<not> assistantTurnStatusTerminal (tn_Status turn)) (turns_of m s t)"
    using assms r by (auto simp: thread_doomed_def list_ex_iff)
  then show ?thesis
    using assms r drop_thread_none [of s t "drop_bound s (map fst (turns_of m s t)) m"]
    by (simp add: retire_thread_def Let_def thread_doomed_def)
qed

lemma retire_thread_other:
  assumes "x \<noteq> t \<or> \<not> thread_doomed before m s t" shows "same_thread m (retire_thread before s x m) s t"
proof (cases "x = t")
  case True
  then have "\<not> thread_doomed before m s t" using assms by simp
  then show ?thesis
    using True by (auto simp: retire_thread_def thread_doomed_def Let_def list_ex_iff split: option.splits)
next
  case False
  have "same_thread m (drop_bound s ids m) s t" for ids by (rule same_thread_part) simp
  then have "same_thread m (drop_thread s x (drop_bound s ids m)) s t" for ids
    using False by (blast intro: same_thread_trans drop_thread_same)
  then show ?thesis by (simp add: retire_thread_def Let_def split: option.splits)
qed

lemma retire_thread_scope:
  assumes "s \<noteq> sc" shows "same_thread m (retire_thread before sc x m) s t"
proof -
  have "same_thread m (drop_bound sc ids m) s t" for ids by (rule same_thread_part) simp
  then have "same_thread m (drop_thread sc x (drop_bound sc ids m)) s t" for ids
    using assms by (blast intro: same_thread_trans drop_thread_same)
  then show ?thesis by (simp add: retire_thread_def Let_def split: option.splits)
qed

lemma no_thread_not_doomed: "no_thread m s t \<Longrightarrow> \<not> thread_doomed before m s t"
  by (simp add: no_thread_def thread_doomed_def)

lemma retire_thread_gone: "no_thread m s t \<Longrightarrow> no_thread (retire_thread before s x m) s t"
  using same_no_thread retire_thread_other no_thread_not_doomed by blast

lemma row_listed: "thread_row m s t = Some r \<Longrightarrow> t \<in> fst ` set (inner (assistantThreads m) s)"
  unfolding thread_row_def by (force dest: mget_in_set)

lemma row_scope_listed: "thread_row m s t = Some r \<Longrightarrow> s \<in> fst ` set (assistantThreads m)"
  by (force simp: thread_row_def inner_def split: option.splits dest: map_of_SomeD)

lemma sweep_threads_scope:
  "if thread_doomed before m s t then no_thread (sweep_threads before s m) s t else same_thread m (sweep_threads before s m) s t"
proof -
  let ?xs = "map fst (inner (assistantThreads m) s)"
  have "if thread_doomed before m s t \<and> t \<in> set ?xs then no_thread (fold (retire_thread before s) ?xs m) s t
    else same_thread m (fold (retire_thread before s) ?xs m) s t"
    by (rule fold_cut [where D = "\<lambda>m. thread_doomed before m s t" and N = "\<lambda>m. no_thread m s t"
          and S = "\<lambda>m m'. same_thread m m' s t"])
      (auto simp: same_thread_doomed intro: retire_thread_row retire_thread_other retire_thread_gone same_thread_trans)
  moreover have "t \<in> set ?xs" if "thread_doomed before m s t"
    using that row_listed [of m s t] by (auto simp: thread_doomed_def split: option.splits)
  ultimately show ?thesis
    unfolding sweep_threads_def
    by (auto intro: same_thread_trans [OF _ prune_threads_same] same_no_thread [OF _ prune_threads_same] split: if_splits)
qed

lemma sweep_threads_other:
  assumes "s \<noteq> sc" shows "same_thread m (sweep_threads before sc m) s t"
proof -
  have "same_thread m (fold (retire_thread before sc) xs m) s t" for xs
    by (induction xs arbitrary: m) (auto intro: same_thread_trans retire_thread_scope [OF assms])
  then show ?thesis unfolding sweep_threads_def by (blast intro: same_thread_trans prune_threads_same)
qed

lemma sweep_all_threads:
  "if thread_doomed before m s t then no_thread (fold (sweep_threads before) (map fst (assistantThreads m)) m) s t
   else same_thread m (fold (sweep_threads before) (map fst (assistantThreads m)) m) s t"
proof -
  let ?xs = "map fst (assistantThreads m)"
  have keep: "same_thread n (sweep_threads before x n) s t" if "x \<noteq> s \<or> \<not> thread_doomed before n s t" for x n
    using sweep_threads_scope [of before n s t] sweep_threads_other [of s x n before t] that by (cases "x = s") auto
  have gone: "no_thread (sweep_threads before x n) s t" if "no_thread n s t" for x n
    using same_no_thread [OF that keep] no_thread_not_doomed [OF that] by blast
  have "if thread_doomed before m s t \<and> s \<in> set ?xs then no_thread (fold (sweep_threads before) ?xs m) s t
    else same_thread m (fold (sweep_threads before) ?xs m) s t"
  proof (rule fold_cut [where D = "\<lambda>m. thread_doomed before m s t" and N = "\<lambda>m. no_thread m s t"
        and S = "\<lambda>m m'. same_thread m m' s t"])
    show "no_thread (sweep_threads before s n) s t" if "thread_doomed before n s t" for n
      using sweep_threads_scope [of before n s t] that by simp
  qed (rule keep gone same_thread_doomed same_thread_refl | erule same_thread_trans | assumption)+
  moreover have "s \<in> set ?xs" if "thread_doomed before m s t"
    using that row_scope_listed [of m s t] by (auto simp: thread_doomed_def split: option.splits)
  ultimately show ?thesis by auto
qed

section \<open>What each sweep touches\<close>

lemma sweep_messages_parts [simp]:
  "thread_part (snd (sweep_messages before sc nm)) = thread_part (snd nm)"
  "run_part (snd (sweep_messages before sc nm)) = run_part (snd nm)"
  "conv_part (snd (sweep_messages before sc nm)) = conv_part (snd nm)"
  by (cases nm, simp add: sweep_messages_def Let_def thread_part_def run_part_def conv_part_def)+

lemma sweep_runs_threads [simp]: "thread_part (snd (sweep_runs before sc nm)) = thread_part (snd nm)"
  by (cases nm) (simp add: sweep_runs_def Let_def)

lemma sweep_runs_cut: "run_cut (snd nm) (snd (sweep_runs before sc nm))"
proof (cases nm)
  case (Pair n m)
  let ?D = "map fst (filter (\<lambda>(_, run). run_doomed before run) (studio_runs m sc))"
  have "run_cut m (forget_runs sc ?D m)" by (rule forget_runs_cut)
  also have "run_cut (forget_runs sc ?D m) (prune_run_tables sc (forget_runs sc ?D m))" by (rule prune_run_tables_cut)
  also (run_cut_trans) have "run_cut (prune_run_tables sc (forget_runs sc ?D m)) (snd (sweep_runs before sc nm))"
    by (rule run_part_cut) (simp add: Pair sweep_runs_def Let_def)
  finally (run_cut_trans) show ?thesis by (simp add: Pair)
qed

lemma prune_conv: "conv_cut m (m\<lparr>conversationItems := prune sc (conversationItems m)\<rparr>)"
proof -
  have "conversation (m\<lparr>conversationItems := prune sc (conversationItems m)\<rparr>) = conversation m"
    "high_water (m\<lparr>conversationItems := prune sc (conversationItems m)\<rparr>) = high_water m"
    by (simp_all add: conversation_def high_water_def fun_eq_iff)
  moreover have "conv_cut m m" by simp
  ultimately show ?thesis unfolding conv_cut_def by simp
qed

lemma sweep_runs_conv: "conv_cut (snd nm) (snd (sweep_runs before sc nm))"
proof (cases nm)
  case (Pair n m)
  let ?D = "map fst (filter (\<lambda>(_, run). run_doomed before run) (studio_runs m sc))"
  let ?p = "prune_run_tables sc (forget_runs sc ?D m)"
  have "conv_cut m (forget_runs sc ?D m)" by (rule forget_runs_conv)
  also have "conv_cut (forget_runs sc ?D m) ?p" by (rule conv_part_cut) simp
  also (conv_cut_trans) have "conv_cut ?p (?p\<lparr>conversationItems := prune sc (conversationItems ?p)\<rparr>)" by (rule prune_conv)
  also (conv_cut_trans) have "?p\<lparr>conversationItems := prune sc (conversationItems ?p)\<rparr> = snd (sweep_runs before sc nm)"
    by (simp add: Pair sweep_runs_def Let_def)
  finally show ?thesis by (simp add: Pair)
qed

lemma sweep_threads_parts [simp]:
  "run_part (sweep_threads before sc m) = run_part m" "conv_part (sweep_threads before sc m) = conv_part m"
  "studioMessages (sweep_threads before sc m) = studioMessages m"
proof -
  have *: "run_part (fold (retire_thread before sc) xs m) = run_part m \<and> conv_part (fold (retire_thread before sc) xs m) = conv_part m \<and>
      studioMessages (fold (retire_thread before sc) xs m) = studioMessages m" for xs
    by (induction xs arbitrary: m) (auto simp: retire_thread_def Let_def drop_thread_def drop_bound_def run_part_def conv_part_def split: option.splits)
  show "run_part (sweep_threads before sc m) = run_part m" "conv_part (sweep_threads before sc m) = conv_part m"
    "studioMessages (sweep_threads before sc m) = studioMessages m"
    using * by (simp_all add: sweep_threads_def) (simp add: prune_threads_def)
qed

lemma fold_same: "(\<And>x m. R (f x m) = R m) \<Longrightarrow> R (fold f xs m) = R m"
  by (induction xs arbitrary: m) simp_all

lemma fold_rel:
  assumes "\<And>x m. R m (f x m)" "\<And>m. R m m" "\<And>m m' m''. R m m' \<Longrightarrow> R m' m'' \<Longrightarrow> R m m''"
  shows "R m (fold f xs m)"
proof (induction xs arbitrary: m)
  case (Cons x xs)
  then show ?case using assms(3) [OF assms(1) Cons.IH] by simp
qed (simp add: assms(2))

text \<open>The store between the sweeps.\<close>

definition swept_messages :: "time \<Rightarrow> StudioStore \<Rightarrow> nat \<times> StudioStore" where
  "swept_messages before m = fold (sweep_messages before) (map fst (studioMessages m)) (0, m)"

definition swept_runs :: "time \<Rightarrow> StudioStore \<Rightarrow> nat \<times> StudioStore" where
  "swept_runs before m =
     (let nm = swept_messages before m in fold (sweep_runs before) (map fst (assistantRuns (snd nm))) nm)"

lemma DeleteMessagesOlderThan_state:
  "DeleteMessagesOlderThan m before =
     (let nm = swept_runs before m in
      (fst nm, fold (sweep_threads before) (map fst (assistantThreads (snd nm))) (snd nm)))"
  by (simp add: DeleteMessagesOlderThan_def swept_runs_def swept_messages_def Let_def split: prod.splits)

lemma swept_messages_parts:
  "thread_part (snd (swept_messages before m)) = thread_part m" "run_part (snd (swept_messages before m)) = run_part m"
  "conv_part (snd (swept_messages before m)) = conv_part m"
  unfolding swept_messages_def
  using fold_same [of "\<lambda>nm. thread_part (snd nm)" "sweep_messages before"]
    fold_same [of "\<lambda>nm. run_part (snd nm)" "sweep_messages before"]
    fold_same [of "\<lambda>nm. conv_part (snd nm)" "sweep_messages before"] by simp_all

lemma swept_runs_parts:
  "thread_part (snd (swept_runs before m)) = thread_part m" "run_cut m (snd (swept_runs before m))"
  "conv_cut m (snd (swept_runs before m))"
proof -
  let ?nm = "swept_messages before m"
  have e: "swept_runs before m = fold (sweep_runs before) (map fst (assistantRuns (snd ?nm))) ?nm"
    by (simp add: swept_runs_def Let_def)
  show "thread_part (snd (swept_runs before m)) = thread_part m"
    unfolding e using fold_same [of "\<lambda>nm. thread_part (snd nm)" "sweep_runs before"] swept_messages_parts(1) by simp
  have "run_cut (snd ?nm) (snd (swept_runs before m))"
    unfolding e by (rule fold_rel [where R = "\<lambda>a b. run_cut (snd a) (snd b)"]) (auto intro: sweep_runs_cut run_cut_trans)
  then show "run_cut m (snd (swept_runs before m))" by (rule run_cut_trans [OF run_part_cut [OF swept_messages_parts(2)]])
  have "conv_cut (snd ?nm) (snd (swept_runs before m))"
    unfolding e by (rule fold_rel [where R = "\<lambda>a b. conv_cut (snd a) (snd b)"]) (auto intro: sweep_runs_conv conv_cut_trans)
  then show "conv_cut m (snd (swept_runs before m))" by (rule conv_cut_trans [OF conv_part_cut [OF swept_messages_parts(3)]])
qed

lemma sweep_state_parts:
  "run_cut m (snd (DeleteMessagesOlderThan m before))" "conv_cut m (snd (DeleteMessagesOlderThan m before))"
proof -
  let ?n = "snd (swept_runs before m)" and ?f = "snd (DeleteMessagesOlderThan m before)"
  have f: "?f = fold (sweep_threads before) (map fst (assistantThreads ?n)) ?n"
    by (simp add: DeleteMessagesOlderThan_state Let_def)
  have "run_part ?f = run_part ?n" "conv_part ?f = conv_part ?n" unfolding f by (rule fold_same, simp)+
  then show "run_cut m ?f" "conv_cut m ?f"
    using run_cut_trans [OF swept_runs_parts(2) run_part_cut] conv_cut_trans [OF swept_runs_parts(3) conv_part_cut] by blast+
qed

lemma sweep_cases:
  "if thread_doomed before m s t then no_thread (snd (DeleteMessagesOlderThan m before)) s t
   else same_thread m (snd (DeleteMessagesOlderThan m before)) s t"
proof -
  let ?n = "snd (swept_runs before m)"
  have same: "same_thread m ?n s t" by (rule same_thread_part [OF swept_runs_parts(1)])
  show ?thesis
    using sweep_all_threads [of before ?n s t] same_thread_doomed [OF same] same_thread_trans [OF same]
    by (simp add: DeleteMessagesOlderThan_state Let_def split: if_splits)
qed

lemma sweep_thread_cut: "thread_cut m (snd (DeleteMessagesOlderThan m before))"
  unfolding thread_cut_def using sweep_cases [of before m] by (metis (full_types))

end
