(* ===== verification/StudioClaims.thy ===== *)
theory StudioClaims
  imports StudioStore Sha256
begin

text \<open>
  Replica claims of App Studio (\<open>providers/app-studio/store/claims.go\<close>): which replica owns a project's
  activity, a run, a thread or a workspace. A claim is held by a heartbeat: a foreign claim is
  taken only once it is stale. The clock is the argument \<open>now\<close>.
\<close>

section \<open>Keys\<close>

definition ReplicaClaimScopeKey :: "StudioScope \<Rightarrow> string" where
  "ReplicaClaimScopeKey scope =
     sp_OrgUUID scope @ ''/'' @ sp_WorkspaceUUID scope @ ''/'' @ sp_ProjectName scope @ ''/'' @ sp_ProjectUID scope"

definition ActivityClaimKey :: "StudioScope \<Rightarrow> string" where
  "ActivityClaimKey scope = ''activity'' @ ''/'' @ ReplicaClaimScopeKey scope"

definition AssistantRunClaimKey :: "StudioScope \<Rightarrow> string \<Rightarrow> string \<Rightarrow> string" where
  "AssistantRunClaimKey scope threadID runID =
     ''activity'' @ ''/run/'' @ hexDigest (ReplicaClaimScopeKey scope @ [CHR 0x00] @ threadID @ [CHR 0x00] @ runID)"

definition AssistantThreadClaimKey :: "StudioScope \<Rightarrow> string \<Rightarrow> string" where
  "AssistantThreadClaimKey scope threadID =
     ''activity'' @ ''/thread/'' @ hexDigest (ReplicaClaimScopeKey scope @ [CHR 0x00] @ TrimSpace threadID)"

definition ThumbnailClaimKey :: "StudioScope \<Rightarrow> string" where
  "ThumbnailClaimKey scope = ''thumbnail'' @ ''/'' @ ReplicaClaimScopeKey scope"

section \<open>Operations\<close>

text \<open>The Unix epoch.\<close>

definition replicaClaimRelinquishedAt :: time where
  "replicaClaimRelinquishedAt = 62135596800 * Second"

definition claim_row :: "StudioStore \<Rightarrow> string \<Rightarrow> ReplicaClaim option" where
  "claim_row m key = mget (replicaClaims m) key"

definition put_claim :: "string \<Rightarrow> ReplicaClaim \<Rightarrow> StudioStore \<Rightarrow> StudioStore" where
  "put_claim key c m = m\<lparr>replicaClaims := mput key c (replicaClaims m)\<rparr>"

definition RelinquishReplicaClaims :: "StudioStore \<Rightarrow> string \<Rightarrow> string \<Rightarrow> nat \<times> StudioStore" where
  "RelinquishReplicaClaims m kind ownerReplica =
     (let hit = (\<lambda>c. cl_Kind c = kind \<and> cl_OwnerReplica c = ownerReplica) in
      (length (filter (\<lambda>(_, c). hit c) (replicaClaims m)),
       m\<lparr>replicaClaims := map (\<lambda>(key, c). (key, if hit c then c\<lparr>cl_HeartbeatAt := replicaClaimRelinquishedAt\<rparr> else c))
         (replicaClaims m)\<rparr>))"

text \<open>The claim that holds after the call, and whether it is the caller's; \<open>None\<close> stands for the zero claim.\<close>

definition TakeOverReplicaClaim ::
  "time \<Rightarrow> StudioStore \<Rightarrow> ReplicaClaim \<Rightarrow> string \<Rightarrow> (ReplicaClaim option \<times> bool) \<times> StudioStore" where
  "TakeOverReplicaClaim now m claim expectedOwner =
     (case claim_row m (cl_Key claim) of None \<Rightarrow> ((None, False), m)
      | Some current \<Rightarrow>
          if cl_OwnerReplica current \<noteq> expectedOwner then ((Some current, cl_OwnerReplica current = cl_OwnerReplica claim), m)
          else let current = current\<lparr>cl_OwnerReplica := cl_OwnerReplica claim, cl_OwnerAddr := cl_OwnerAddr claim,
                 cl_Detail := cl_Detail claim, cl_HeartbeatAt := now\<rparr>
            in ((Some current, True), put_claim (cl_Key claim) current m))"

definition TryClaimReplica :: "time \<Rightarrow> StudioStore \<Rightarrow> ReplicaClaim \<Rightarrow> int \<Rightarrow> (ReplicaClaim \<times> bool) \<times> StudioStore" where
  "TryClaimReplica now m claim staleAfter =
     (case claim_row m (cl_Key claim) of
        None \<Rightarrow>
          (let c = claim\<lparr>cl_Revision := 0, cl_HeartbeatAt := now\<rparr> in ((c, True), put_claim (cl_Key claim) c m))
      | Some current \<Rightarrow>
          if cl_OwnerReplica current \<noteq> cl_OwnerReplica claim \<and> Live current now staleAfter then ((current, False), m)
          else (let c = claim\<lparr>cl_Revision := cl_Revision current, cl_HeartbeatAt := now\<rparr>
            in ((c, True), put_claim (cl_Key claim) c m)))"

definition RenewReplicaClaim :: "time \<Rightarrow> StudioStore \<Rightarrow> string \<Rightarrow> string \<Rightarrow> bool \<times> StudioStore" where
  "RenewReplicaClaim now m claimKey ownerReplica =
     (case claim_row m claimKey of None \<Rightarrow> (False, m)
      | Some current \<Rightarrow>
          if cl_OwnerReplica current \<noteq> ownerReplica then (False, m)
          else (True, put_claim claimKey (current\<lparr>cl_HeartbeatAt := now\<rparr>) m))"

definition ReleaseReplicaClaim :: "StudioStore \<Rightarrow> string \<Rightarrow> string \<Rightarrow> StudioStore" where
  "ReleaseReplicaClaim m claimKey ownerReplica =
     (case claim_row m claimKey of None \<Rightarrow> m
      | Some current \<Rightarrow>
          if cl_OwnerReplica current = ownerReplica then m\<lparr>replicaClaims := mdel claimKey (replicaClaims m)\<rparr> else m)"

definition LiveReplicaClaims :: "time \<Rightarrow> StudioStore \<Rightarrow> string \<Rightarrow> int \<Rightarrow> ReplicaClaim list" where
  "LiveReplicaClaims now m scopeKey staleAfter =
     filter (\<lambda>c. cl_ScopeKey c = scopeKey \<and> Live c now staleAfter) (map snd (replicaClaims m))"

definition BumpReplicaClaimRevision :: "StudioStore \<Rightarrow> string \<Rightarrow> string \<Rightarrow> int \<Rightarrow> StudioStore" where
  "BumpReplicaClaimRevision m claimKey ownerReplica revision =
     (case claim_row m claimKey of None \<Rightarrow> m
      | Some current \<Rightarrow>
          if cl_OwnerReplica current = ownerReplica \<and> revision > cl_Revision current
          then put_claim claimKey (current\<lparr>cl_Revision := revision\<rparr>) m else m)"

end
