(* ===== verification/StudioMachine.thy ===== *)
theory StudioMachine
  imports StudioSweep StudioClaims
begin

text \<open>
  The App Studio store as a machine: its requests, what one does to the store, the stores that can be
  reached from an empty one, and the invariants that hold in all of them. Every operation runs under the
  store's mutex, so an execution of concurrent callers is a sequence of requests.

  The invariants of threads, runs and the conversation hold in every store that can be reached.
\<close>

section \<open>Requests\<close>

datatype thread_request =
    CreateThread time StudioScope AssistantThread "AssistantThreadEvent list"
  | UpdateThread time StudioScope AssistantThread
  | SetTitle time StudioScope string string string AssistantThreadEvent
  | UpdateThreadEvent time StudioScope AssistantThread AssistantThreadEvent int
  | AppendThreadEvent time StudioScope AssistantThreadEvent int
  | Watch StudioScope string
  | Unwatch StudioScope string nat
  | CreateTurn time StudioScope AssistantTurn "AssistantThreadEvent list"
  | SaveTurn time StudioScope AssistantTurn
  | SaveTurnEvent time StudioScope AssistantTurn AssistantThreadEvent int

datatype run_request =
    CreatePermit StudioScope string string
  | ConsumePermit StudioScope string string string
  | SetPreference time StudioScope AssistantApprovalPreference
  | PutMessage time StudioScope StudioMessage
  | SaveARun time StudioScope AssistantRun
  | CreateARun time StudioScope StudioMessage StudioMessage AssistantRun
  | StopRun time StudioScope string int StudioMessage time
  | Snapshot time StudioScope AssistantRun "StudioMessage list" int
  | ClaimRunRequest time StudioScope string string time
  | AppendRunEvent time StudioScope AssistantRunEvent int
  | AppendItem time StudioScope AssistantConversationItem

datatype attachment_request =
    SetQuota AttachmentQuota
  | Upload time StudioScope StudioAttachment
  | ReadUpload time StudioScope string
  | ListUploads time StudioScope
  | Bind time StudioScope "AttachmentReceipt list" string string
  | Rollback StudioScope string
  | Reconcile time
  | DropUpload StudioScope string string
  | DropUploads StudioScope
  | ExpireUploads time
  | PutThumbnail StudioScope ProjectThumbnail
  | DropThumbnail StudioScope

datatype claim_request =
    TryClaim time ReplicaClaim int
  | TakeOver time ReplicaClaim string
  | Renew time string string
  | Release string string
  | Relinquish string string
  | Bump string string int

datatype delete_request =
    DeleteThread StudioScope string string
  | DeleteProject StudioScope
  | DeleteOld time

datatype studio_request =
    ThreadRequest thread_request
  | RunRequest run_request
  | AttachmentRequest attachment_request
  | ClaimRequest claim_request
  | DeleteRequest delete_request

fun thread_step :: "thread_request \<Rightarrow> StudioStore \<Rightarrow> StudioStore" where
  "thread_step (CreateThread now s thread events) m = snd (CreateAssistantThread now m s thread events)"
| "thread_step (UpdateThread now s thread) m = snd (UpdateAssistantThread now m s thread)"
| "thread_step (SetTitle now s tid actor title event) m = snd (SetAssistantThreadTitleIfEmpty now m s tid actor title event)"
| "thread_step (UpdateThreadEvent now s thread event seq) m = snd (UpdateAssistantThreadWithEvent now m s thread event seq)"
| "thread_step (AppendThreadEvent now s event seq) m = snd (AppendAssistantThreadEvent now m s event seq)"
| "thread_step (Watch s tid) m = snd (WatchAssistantThreadEvents m s tid)"
| "thread_step (Unwatch s tid ch) m = m\<lparr>threadEventSignals := release (threadEventKey s tid) ch (threadEventSignals m)\<rparr>"
| "thread_step (CreateTurn now s turn events) m = snd (CreateAssistantTurn now m s turn events)"
| "thread_step (SaveTurn now s turn) m = snd (SaveAssistantTurn now m s turn)"
| "thread_step (SaveTurnEvent now s turn event seq) m = snd (SaveAssistantTurnWithEvent now m s turn event seq)"

fun run_step :: "run_request \<Rightarrow> StudioStore \<Rightarrow> StudioStore" where
  "run_step (CreatePermit s actor digest) m = snd (CreateProjectBootstrapPermit m s actor digest)"
| "run_step (ConsumePermit s actor digest client) m = snd (ConsumeProjectBootstrapPermit m s actor digest client)"
| "run_step (SetPreference now s preference) m = snd (SetAssistantApprovalPreference now m s preference)"
| "run_step (PutMessage now s msg) m = snd (as_AppendMessage now m s msg)"
| "run_step (SaveARun now s run) m = snd (SaveAssistantRun now m s run)"
| "run_step (CreateARun now s user assistant run) m = snd (CreateAssistantRun now m s user assistant run)"
| "run_step (StopRun clock s i v assistant now) m =
     snd (RequestAssistantRunStopWithAssistantMessage clock m s i v assistant now)"
| "run_step (Snapshot now s run ms v) m = snd (SaveAssistantRunSnapshot now m s run ms v)"
| "run_step (ClaimRunRequest clock s i req now) m = snd (ClaimAssistantRun clock m s i req now)"
| "run_step (AppendRunEvent now s event seq) m = snd (AppendAssistantRunEvent now m s event seq)"
| "run_step (AppendItem now s item) m = snd (AppendAssistantConversationItem now m s item)"

fun attachment_step :: "attachment_request \<Rightarrow> StudioStore \<Rightarrow> StudioStore" where
  "attachment_step (SetQuota q) m = snd (ConfigureAttachmentQuota m q)"
| "attachment_step (Upload now s a) m = snd (CreateAttachment now m s a)"
| "attachment_step (ReadUpload now s i) m = snd (GetAttachment now m s i)"
| "attachment_step (ListUploads now s) m = snd (ListAttachments now m s)"
| "attachment_step (Bind now s receipts actor binding) m = snd (BindAttachments now m s receipts actor binding)"
| "attachment_step (Rollback s binding) m = snd (RollbackAttachmentBinding m s binding)"
| "attachment_step (Reconcile now) m = ReconcileAttachmentBindings now m"
| "attachment_step (DropUpload s i actor) m = snd (DeleteAttachment m s i actor)"
| "attachment_step (DropUploads s) m = snd (DeleteProjectAttachments m s)"
| "attachment_step (ExpireUploads before) m = snd (DeleteExpiredAttachments m before)"
| "attachment_step (PutThumbnail s t) m = snd (PutProjectThumbnail m s t)"
| "attachment_step (DropThumbnail s) m = snd (DeleteProjectThumbnail m s)"

fun claim_step :: "claim_request \<Rightarrow> StudioStore \<Rightarrow> StudioStore" where
  "claim_step (TryClaim now claim stale) m = snd (TryClaimReplica now m claim stale)"
| "claim_step (TakeOver now claim expected) m = snd (TakeOverReplicaClaim now m claim expected)"
| "claim_step (Renew now key owner) m = snd (RenewReplicaClaim now m key owner)"
| "claim_step (Release key owner) m = ReleaseReplicaClaim m key owner"
| "claim_step (Relinquish kind owner) m = snd (RelinquishReplicaClaims m kind owner)"
| "claim_step (Bump key owner v) m = BumpReplicaClaimRevision m key owner v"

fun delete_step :: "delete_request \<Rightarrow> StudioStore \<Rightarrow> StudioStore" where
  "delete_step (DeleteThread s tid actor) m = snd (DeleteAssistantThread m s tid actor)"
| "delete_step (DeleteProject s) m = snd (DeleteProjectMessages m s)"
| "delete_step (DeleteOld before) m = snd (DeleteMessagesOlderThan m before)"

fun studio_step :: "studio_request \<Rightarrow> StudioStore \<Rightarrow> StudioStore" where
  "studio_step (ThreadRequest r) m = thread_step r m"
| "studio_step (RunRequest r) m = run_step r m"
| "studio_step (AttachmentRequest r) m = attachment_step r m"
| "studio_step (ClaimRequest r) m = claim_step r m"
| "studio_step (DeleteRequest r) m = delete_step r m"

inductive studio_reachable :: "StudioStore \<Rightarrow> bool" where
  fresh: "studio_reachable NewStudioStore"
| request: "studio_reachable m \<Longrightarrow> studio_reachable (studio_step r m)"

section \<open>What each part touches\<close>

lemma in_scope_part: "part (snd r) = part m \<Longrightarrow> part (snd (in_scope scope m r)) = part m"
  by (simp add: in_scope_def split: option.splits)

lemma append_turn_event_parts [simp]:
  "run_part (append_turn_event s t e m) = run_part m" "conv_part (append_turn_event s t e m) = conv_part m"
  by (simp_all add: append_turn_event_def Let_def run_part_def conv_part_def)

lemma append_events_parts [simp]:
  "run_part (append_events s t es m) = run_part m" "conv_part (append_events s t es m) = conv_part m"
proof -
  have "run_part (appendAssistantThreadTurnEventsLocked s t es m) = run_part m"
    "conv_part (appendAssistantThreadTurnEventsLocked s t es m) = conv_part m" for m
    unfolding appendAssistantThreadTurnEventsLocked_def by (induction es arbitrary: m) simp_all
  then show "run_part (append_events s t es m) = run_part m" "conv_part (append_events s t es m) = conv_part m"
    by (simp_all add: append_events_def) (simp_all add: run_part_def conv_part_def)
qed

lemma thread_updates_parts [simp]:
  "run_part (m\<lparr>assistantThreads := a\<rparr>) = run_part m" "conv_part (m\<lparr>assistantThreads := a\<rparr>) = conv_part m"
  "run_part (m\<lparr>assistantThreads := a, threadEvents := b\<rparr>) = run_part m"
  "conv_part (m\<lparr>assistantThreads := a, threadEvents := b\<rparr>) = conv_part m"
  "run_part (m\<lparr>assistantTurns := c\<rparr>) = run_part m" "conv_part (m\<lparr>assistantTurns := c\<rparr>) = conv_part m"
  "run_part (m\<lparr>threadEventSignals := d\<rparr>) = run_part m" "conv_part (m\<lparr>threadEventSignals := d\<rparr>) = conv_part m"
  by (simp_all add: run_part_def conv_part_def)

lemma turn_updates_parts [simp]:
  "run_part (put_turn s turn m) = run_part m" "conv_part (put_turn s turn m) = conv_part m"
  "run_part (project_turn s turn m) = run_part m" "conv_part (project_turn s turn m) = conv_part m"
  by (simp_all add: put_turn_def project_turn_def Let_def)

lemmas thread_operations = CreateAssistantThread_def UpdateAssistantThread_def SetAssistantThreadTitleIfEmpty_def
  UpdateAssistantThreadWithEvent_def AppendAssistantThreadEvent_def WatchAssistantThreadEvents_def
  CreateAssistantTurn_def SaveAssistantTurn_def SaveAssistantTurnWithEvent_def

lemma thread_step_parts: "run_part (thread_step r m) = run_part m \<and> conv_part (thread_step r m) = conv_part m"
  by (cases r) (simp_all add: thread_operations in_scope_def Let_def split: option.splits sum.splits prod.splits)

lemma thread_step_keeps:
  assumes "threads_ok m" shows "keeps m (thread_step r m)"
proof (cases r)
  case (Unwatch s tid ch)
  then show ?thesis using assms by (simp add: keeps_part thread_part_def)
qed (simp_all add: assms CreateAssistantThread_keeps UpdateAssistantThread_keeps SetAssistantThreadTitleIfEmpty_keeps
    UpdateAssistantThreadWithEvent_keeps AppendAssistantThreadEvent_keeps WatchAssistantThreadEvents_keeps
    CreateAssistantTurn_keeps SaveAssistantTurn_keeps SaveAssistantTurnWithEvent_keeps)

lemma message_parts [simp]:
  "thread_part (put_message s msg m) = thread_part m" "conv_part (put_message s msg m) = conv_part m"
  "thread_part (allocate_messages s m) = thread_part m" "conv_part (allocate_messages s m) = conv_part m"
  "thread_part (put_arun s run m) = thread_part m" "conv_part (put_arun s run m) = conv_part m"
  "thread_part (m\<lparr>assistantRuns := a\<rparr>) = thread_part m" "conv_part (m\<lparr>assistantRuns := a\<rparr>) = conv_part m"
  by (simp_all add: put_message_def allocate_messages_def put_arun_def thread_part_def conv_part_def)

lemma put_messages_parts:
  "thread_part (snd (put_messages s ms m)) = thread_part m" "conv_part (snd (put_messages s ms m)) = conv_part m"
  by (induction s ms m rule: put_messages.induct) simp_all

lemma SaveAssistantRunSnapshot_parts:
  "thread_part (snd (SaveAssistantRunSnapshot now m scope run ms v)) = thread_part m"
  "conv_part (snd (SaveAssistantRunSnapshot now m scope run ms v)) = conv_part m"
  using put_messages_parts [of scope _ "allocate_messages scope m"]
  by (auto simp: SaveAssistantRunSnapshot_def in_scope_def Let_def split: option.splits prod.splits)
    (metis snd_conv)+

lemma run_step_threads: "thread_part (run_step r m) = thread_part m"
  by (cases r)
    (simp_all add: SaveAssistantRunSnapshot_parts CreateProjectBootstrapPermit_def ConsumeProjectBootstrapPermit_def
      SetAssistantApprovalPreference_def as_AppendMessage_def SaveAssistantRun_def CreateAssistantRun_def
      RequestAssistantRunStopWithAssistantMessage_def ClaimAssistantRun_def AppendAssistantRunEvent_def
      AppendAssistantConversationItem_def in_scope_def Let_def split: option.splits sum.splits,
     simp_all add: thread_part_def)

section \<open>Run requests\<close>

lemmas message_operations = CreateProjectBootstrapPermit_def ConsumeProjectBootstrapPermit_def
  SetAssistantApprovalPreference_def as_AppendMessage_def

lemma run_step_conv: "(\<nexists>now s item. r = AppendItem now s item) \<Longrightarrow> conv_part (run_step r m) = conv_part m"
  by (cases r)
    (simp_all add: SaveAssistantRunSnapshot_parts message_operations SaveAssistantRun_def CreateAssistantRun_def
      RequestAssistantRunStopWithAssistantMessage_def ClaimAssistantRun_def AppendAssistantRunEvent_def
      in_scope_def Let_def split: option.splits sum.splits,
     simp_all add: conv_part_def)

lemma run_step_conv_ok: "conv_ok m \<Longrightarrow> conv_ok (run_step r m)"
proof (cases "\<exists>now s item. r = AppendItem now s item")
  case True
  assume "conv_ok m"
  with True show ?thesis by (auto simp: AppendAssistantConversationItem_ok)
next
  case False
  assume "conv_ok m"
  with False show ?thesis using conv_cut_ok [OF _ conv_part_cut [OF run_step_conv]] by blast
qed

lemma item_run_part: "run_part (snd (AppendAssistantConversationItem now m s item)) = run_part m"
  by (simp add: AppendAssistantConversationItem_def Let_def run_part_def split: sum.splits option.splits)

lemma message_operations_part:
  "run_part (snd (CreateProjectBootstrapPermit m s actor digest)) = run_part m"
  "run_part (snd (ConsumeProjectBootstrapPermit m s actor digest client)) = run_part m"
  "run_part (snd (SetAssistantApprovalPreference now m s preference)) = run_part m"
  "run_part (snd (as_AppendMessage now m s msg)) = run_part m"
  by (simp_all add: message_operations in_scope_def Let_def split: option.splits sum.splits) (simp_all add: run_part_def)

lemma run_step_runs_ok:
  assumes "runs_ok m" shows "runs_ok (run_step r m)"
  by (cases r)
    (simp_all add: assms SaveAssistantRun_ok CreateAssistantRun_ok RequestAssistantRunStop_ok SaveAssistantRunSnapshot_ok
      ClaimAssistantRun_ok AppendAssistantRunEvent_ok runs_ok_part [OF assms message_operations_part(1)]
      runs_ok_part [OF assms message_operations_part(2)] runs_ok_part [OF assms message_operations_part(3)]
      runs_ok_part [OF assms message_operations_part(4)] runs_ok_part [OF assms item_run_part])

section \<open>Attachment and claim requests\<close>

definition core :: "StudioStore \<Rightarrow> _" where
  "core m = (thread_part m, run_part m, conv_part m)"

lemma core_updates [simp]:
  "core (m\<lparr>studioAttachments := a\<rparr>) = core m" "core (m\<lparr>studioQuota := q\<rparr>) = core m"
  "core (m\<lparr>projectThumbnails := t\<rparr>) = core m" "core (m\<lparr>replicaClaims := c\<rparr>) = core m"
  "core (m\<lparr>studioAttachments := a, attachmentDeleted := d\<rparr>) = core m"
  by (simp_all add: core_def thread_part_def run_part_def conv_part_def)

lemma bind_checks_core: "core (snd (bind_checks s now actor binding seen receipts m)) = core m"
proof (induction receipts arbitrary: seen)
  case (Cons receipt receipts)
  then show ?case
    by (auto simp: Let_def split: option.splits sum.splits prod.splits) (metis snd_conv)+
qed simp

lemma BindAttachments_core: "core (snd (BindAttachments now m s receipts actor binding)) = core m"
  using bind_checks_core [of s now "TrimSpace actor" "TrimSpace binding" "[]" receipts m]
  by (cases "bind_checks s now (TrimSpace actor) (TrimSpace binding) [] receipts m")
    (simp add: BindAttachments_def in_scope_def Let_def split: option.splits sum.splits)

lemma attachment_step_core: "core (attachment_step r m) = core m"
  by (cases r)
    (simp_all add: BindAttachments_core ConfigureAttachmentQuota_def CreateAttachment_def GetAttachment_def ListAttachments_def
      RollbackAttachmentBinding_def ReconcileAttachmentBindings_def DeleteAttachment_def DeleteProjectAttachments_def
      DeleteExpiredAttachments_def PutProjectThumbnail_def DeleteProjectThumbnail_def in_scope_def Let_def
      split: option.splits sum.splits)

lemma claim_step_core: "core (claim_step r m) = core m"
  by (cases r)
    (simp_all add: TryClaimReplica_def TakeOverReplicaClaim_def RenewReplicaClaim_def ReleaseReplicaClaim_def
      RelinquishReplicaClaims_def BumpReplicaClaimRevision_def put_claim_def Let_def split: option.splits)

lemma core_parts:
  assumes "core m' = core m"
  shows "thread_part m' = thread_part m" "run_part m' = run_part m" "conv_part m' = conv_part m"
  using assms by (simp_all add: core_def)

section \<open>Deletions and the three invariants\<close>

lemma delete_step_cut: "thread_cut m (delete_step r m)" 
  using DeleteAssistantThread_state thread_deleted_cut
  by (cases r) (auto simp: DeleteProjectMessages_cut sweep_thread_cut, metis thread_cut_refl)

lemma delete_step_runs:
  assumes "runs_ok m" shows "runs_ok (delete_step r m)"
  by (cases r) (simp_all add: assms DeleteAssistantThread_runs run_cut_ok [OF assms DeleteProjectMessages_run_cut]
      run_cut_ok [OF assms sweep_state_parts(1)])

lemma delete_step_conv:
  assumes "conv_ok m" shows "conv_ok (delete_step r m)"
  by (cases r) (simp_all add: assms DeleteProjectMessages_conv_ok conv_cut_ok [OF assms DeleteAssistantThread_conv]
      conv_cut_ok [OF assms sweep_state_parts(2)])

definition studio_ok :: "StudioStore \<Rightarrow> bool" where
  "studio_ok m \<longleftrightarrow> threads_ok m \<and> runs_ok m \<and> conv_ok m"

lemma studio_fresh: "studio_ok NewStudioStore"
  by (simp add: studio_ok_def threads_ok_def thread_ok_def tables_agree_def runs_ok_def no_clash_def run_events_ok_def
      run_numbered_def conv_ok_def NewStudioStore_def thread_log_def turn_log_def turn_index_def turn_starts_def
      turns_of_def thread_row_def studio_runs_def run_log_def run_lookup_def conversation_def mgetd_def)

lemma studio_step_ok:
  assumes ok: "studio_ok m" shows "studio_ok (studio_step r m)"
proof -
  have parts: "threads_ok m" "runs_ok m" "conv_ok m" using ok by (simp_all add: studio_ok_def)
  have same: "studio_ok m'" if "core m' = core m" for m'
    using keeps_ok [OF keeps_part [OF parts(1)]] runs_ok_part [OF parts(2)] conv_cut_ok [OF parts(3) conv_part_cut]
      core_parts [OF that] unfolding studio_ok_def by blast
  show ?thesis
  proof (cases r)
    case (ThreadRequest q)
    have "threads_ok (thread_step q m)" by (rule keeps_ok [OF thread_step_keeps [OF parts(1)]])
    moreover have "runs_ok (thread_step q m)" using thread_step_parts [of q m] runs_ok_part [OF parts(2)] by blast
    moreover have "conv_ok (thread_step q m)" using thread_step_parts [of q m] conv_cut_ok [OF parts(3) conv_part_cut] by blast
    ultimately show ?thesis by (simp add: ThreadRequest studio_ok_def)
  next
    case (RunRequest q)
    have "threads_ok (run_step q m)" by (rule keeps_ok [OF keeps_part [OF parts(1) run_step_threads]])
    then show ?thesis using parts by (simp add: RunRequest studio_ok_def run_step_runs_ok run_step_conv_ok)
  next
    case (AttachmentRequest q)
    show ?thesis by (simp add: AttachmentRequest same [OF attachment_step_core])
  next
    case (ClaimRequest q)
    show ?thesis by (simp add: ClaimRequest same [OF claim_step_core])
  next
    case (DeleteRequest q)
    show ?thesis
      using parts by (simp add: DeleteRequest studio_ok_def delete_step_runs delete_step_conv thread_cut_ok [OF _ delete_step_cut])
  qed
qed

lemma studio_reachable_ok: "studio_reachable m \<Longrightarrow> studio_ok m"
  by (induction rule: studio_reachable.induct) (simp_all add: studio_fresh studio_step_ok)

section \<open>Requests that do not delete\<close>

text \<open>Steps under which a thread's log only grows.\<close>

definition undeleting :: "studio_request \<Rightarrow> bool" where
  "undeleting r \<longleftrightarrow> (case r of DeleteRequest _ \<Rightarrow> False | _ \<Rightarrow> True)"

lemma undeleting_keeps:
  assumes "threads_ok m" "undeleting r" shows "keeps m (studio_step r m)"
  using assms keeps_part [OF assms(1) core_parts(1) [OF attachment_step_core]]
    keeps_part [OF assms(1) core_parts(1) [OF claim_step_core]] keeps_part [OF assms(1) run_step_threads]
  by (cases r) (simp_all add: undeleting_def thread_step_keeps)

definition later :: "StudioStore \<Rightarrow> StudioStore \<Rightarrow> bool" where
  "later m m' \<longleftrightarrow> studio_ok m \<and> (\<exists>r. undeleting r \<and> m' = studio_step r m)"

end
