(* ===== verification/StudioFacts.thy ===== *)
theory StudioFacts
  imports StudioMachine
begin

text \<open>
  What the App Studio store promises its clients: logs that can be followed and paged without loss,
  writers that cannot both win, runs that do not overlap, and deletions that take exactly what they should.
\<close>

section \<open>Reading a log\<close>

lemma numbered_sorted: "numbered es \<Longrightarrow> sorted (map te_Sequence es)"
  by (simp add: numbered_def sorted_iff_nth_mono)

lemma page_after_filter:
  assumes "sorted (map te_Sequence es)"
  shows "drop (after_index es after) es = filter (\<lambda>e. te_Sequence e > after) es"
  unfolding after_index_def
  by (rule Search_sorted(1) [OF assms, where Q = "\<lambda>e. te_Sequence e \<le> after"]) auto

lemma page_before_filter:
  assumes "sorted (map te_Sequence es)"
  shows "page_before es before limit =
    (let older = filter (\<lambda>e. before > 0 \<longrightarrow> te_Sequence e < before) es in drop (length older - limit) older)"
proof (cases "before > 0")
  case True
  let ?k = "Search (\<lambda>i. te_Sequence (es ! i) \<ge> before) 0 (length es)"
  have t: "take ?k es = filter (\<lambda>e. te_Sequence e < before) es"
    by (rule Search_sorted(2) [OF assms, where P = "\<lambda>e. te_Sequence e \<ge> before"]) auto
  have "\<forall>x y. 0 \<le> x \<and> x \<le> y \<and> y < length es \<and> te_Sequence (es ! x) \<ge> before \<longrightarrow> te_Sequence (es ! y) \<ge> before"
  proof (intro allI impI, elim conjE)
    fix x y assume h: "x \<le> y" "y < length es" "te_Sequence (es ! x) \<ge> before"
    have "te_Sequence (es ! x) \<le> te_Sequence (es ! y)" using sorted_nth_mono [OF assms, of x y] h by simp
    with h(3) show "te_Sequence (es ! y) \<ge> before" by (rule order_trans)
  qed
  from Search_first [OF le0 this] have "?k \<le> length es" by (elim conjE)
  then have "length (take ?k es) = ?k" by (simp only: length_take min_absorb2)
  then have "?k = length (filter (\<lambda>e. te_Sequence e < before) es)" unfolding t ..
  then show ?thesis using True t by (simp add: page_before_def before_index_def Let_def)
next
  case False
  then show ?thesis by (simp add: page_before_def before_index_def Let_def)
qed

lemma ok_thread:
  assumes "studio_reachable m" shows "thread_ok m s t"
  using studio_reachable_ok [OF assms] by (simp add: studio_ok_def threads_ok_def)

lemma logs_sorted:
  assumes "studio_reachable m"
  shows "sorted (map te_Sequence (thread_log m s t))" "sorted (map te_Sequence (turn_log m s t))"
    "sorted (map te_Sequence (turn_index m s t key))"
proof -
  have n: "numbered (thread_log m s t)" and tables: "tables_agree m s t"
    using ok_thread [OF assms, of s t] by (simp_all add: thread_ok_def)
  show l: "sorted (map te_Sequence (thread_log m s t))" using n by (rule numbered_sorted)
  show "sorted (map te_Sequence (turn_log m s t))" "sorted (map te_Sequence (turn_index m s t key))"
    using tables sorted_filter [OF l] unfolding tables_agree_def by (simp_all only:)
qed

lemma numbered_after:
  assumes "numbered es" shows "filter (\<lambda>e. te_Sequence e > int k) es = drop k es"
proof -
  have "filter (\<lambda>e. te_Sequence e > int k) (take k es) = []"
    using assms by (auto simp: filter_empty_conv numbered_def in_set_conv_nth)
  moreover have "filter (\<lambda>e. te_Sequence e > int k) (drop k es) = drop k es"
  proof (intro filter_True ballI)
    fix x assume "x \<in> set (drop k es)"
    then have "\<exists>n < length (drop k es). drop k es ! n = x" by (simp only: in_set_conv_nth)
    then obtain n where "n < length (drop k es)" "drop k es ! n = x" by (elim exE conjE)
    then show "te_Sequence x > int k" using assms by (auto simp: numbered_def)
  qed
  ultimately show ?thesis by (metis append_Nil append_take_drop_id filter_append)
qed

text \<open>C7: In every store that can be reached by any requests, the log of a thread is numbered from one
  without gaps, what is kept beside the log agrees with it (the turn log, the index by turn and type and the
  starts of turns are filters of the log), a turn belongs to the thread it is filed under, and nothing is kept
  of a thread that does not exist.\<close>

theorem thread_log_invariant:
  assumes "studio_reachable m"
  shows "(\<forall>i < length (thread_log m scope tid). te_Sequence (thread_log m scope tid ! i) = int i + 1) \<and>
    turn_log m scope tid = filter turn_event (thread_log m scope tid) \<and>
    turn_index m scope tid key = filter (\<lambda>e. turn_event e \<and> turn_key e = key) (thread_log m scope tid) \<and>
    mget (turn_starts m scope tid) turnID = map_option te_Sequence (find (starts_turn turnID) (thread_log m scope tid)) \<and>
    (\<forall>(k, turn) \<in> set (turns_of m scope tid). tn_ID turn = k \<and> tn_ThreadID turn = tid) \<and>
    (thread_row m scope tid = None \<longrightarrow> thread_log m scope tid = [] \<and> turns_of m scope tid = [])"
proof -
  have t: "thread_ok m scope tid" by (rule ok_thread [OF assms])
  have n: "numbered (thread_log m scope tid)" and a: "tables_agree m scope tid" using t by (simp_all add: thread_ok_def)
  have turns: "\<forall>(k, turn) \<in> set (turns_of m scope tid). tn_ID turn = k \<and> tn_ThreadID turn = tid"
    and none: "thread_row m scope tid = None \<longrightarrow> thread_log m scope tid = [] \<and> turns_of m scope tid = []"
    using t unfolding thread_ok_def by (simp_all split: option.splits)
  show ?thesis using n [unfolded numbered_def] a [unfolded tables_agree_def] turns none by blast
qed

text \<open>The reference: a scan of the log, from the front or from the back.\<close>

definition scan_after :: "AssistantThreadEvent list \<Rightarrow> (AssistantThreadEvent \<Rightarrow> bool) \<Rightarrow> int \<Rightarrow> int \<Rightarrow> AssistantThreadEvent list" where
  "scan_after es P after limit = take (normalizeLimit limit) (filter (\<lambda>e. P e \<and> te_Sequence e > after) es)"

definition scan_before :: "AssistantThreadEvent list \<Rightarrow> (AssistantThreadEvent \<Rightarrow> bool) \<Rightarrow> int \<Rightarrow> int \<Rightarrow> AssistantThreadEvent list" where
  "scan_before es P before limit =
     rev (take (normalizeLimit limit) (filter (\<lambda>e. P e \<and> (before > 0 \<longrightarrow> te_Sequence e < before)) (rev es)))"

lemma scan_before_drop:
  "scan_before es P before limit =
     (let older = filter (\<lambda>e. P e \<and> (before > 0 \<longrightarrow> te_Sequence e < before)) es in drop (length older - normalizeLimit limit) older)"
  by (simp add: scan_before_def Let_def rev_filter [symmetric] take_rev)

text \<open>C8: Whatever table a listing of events reads and however it searches it, the page is the one a scan of
  the thread's single log would give: the events after (or before) the given sequence that the listing
  selects, cut at the limit.\<close>

theorem listings_scan_the_log:
  assumes r: "studio_reachable m" and scope: "StudioScope_validate scope = None"
    and row: "thread_row m scope (TrimSpace tid) \<noteq> None"
    and turn: "TrimSpace turnID \<noteq> []" and ty: "TrimSpace ty \<noteq> []"
  shows "fst (ListAssistantThreadEvents m scope tid after limit) =
      Inr (scan_after (thread_log m scope (TrimSpace tid)) (\<lambda>_. True) after limit) \<and>
    fst (ListAssistantThreadEventsBefore m scope tid before limit) =
      Inr (scan_before (thread_log m scope (TrimSpace tid)) (\<lambda>_. True) before limit) \<and>
    fst (ListAssistantThreadTurnEventsBefore m scope tid before limit) =
      Inr (scan_before (thread_log m scope (TrimSpace tid)) turn_event before limit) \<and>
    fst (ListAssistantThreadTurnEventsAfter m scope tid turnID ty after limit) =
      Inr (scan_after (thread_log m scope (TrimSpace tid))
        (\<lambda>e. turn_event e \<and> turn_key e = (TrimSpace turnID, TrimSpace ty)) after limit) \<and>
    fst (ListAssistantThreadTurnEventsByTypeAfter m scope tid ty after limit) =
      Inr (scan_after (thread_log m scope (TrimSpace tid)) (\<lambda>e. turn_event e \<and> te_Type e = TrimSpace ty) after limit)"
proof -
  let ?log = "thread_log m scope (TrimSpace tid)"
  note s = logs_sorted [OF r, of scope "TrimSpace tid"]
  have "tables_agree m scope (TrimSpace tid)" using ok_thread [OF r] by (simp add: thread_ok_def)
  then have tl: "turn_log m scope (TrimSpace tid) = filter turn_event ?log"
    and ti: "\<And>key. turn_index m scope (TrimSpace tid) key = filter (\<lambda>e. turn_event e \<and> turn_key e = key) ?log"
    unfolding tables_agree_def by blast+
  have found: "fst (in_scope scope m (of_thread m scope (TrimSpace tid) x)) = Inr x" for x
    using scope row by (simp add: in_scope_def of_thread_def)
  have 1: "page_after ?log after (normalizeLimit limit) = scan_after ?log (\<lambda>_. True) after limit"
    by (simp add: page_after_def page_after_filter [OF s(1)] scan_after_def)
  have 2: "page_before ?log before (normalizeLimit limit) = scan_before ?log (\<lambda>_. True) before limit"
    by (simp add: page_before_filter [OF s(1)] scan_before_drop)
  have 3: "page_before (turn_log m scope (TrimSpace tid)) before (normalizeLimit limit) = scan_before ?log turn_event before limit"
    unfolding page_before_filter [OF s(2)] scan_before_drop unfolding tl by simp
  have 4: "page_after (turn_index m scope (TrimSpace tid) key) after (normalizeLimit limit) =
      scan_after ?log (\<lambda>e. turn_event e \<and> turn_key e = key) after limit" for key
    unfolding page_after_def page_after_filter [OF s(3)] scan_after_def unfolding ti by simp
  have 5: "take (normalizeLimit limit) (filter (\<lambda>e. te_Type e = TrimSpace ty)
      (drop (after_index (turn_log m scope (TrimSpace tid)) after) (turn_log m scope (TrimSpace tid)))) =
      scan_after ?log (\<lambda>e. turn_event e \<and> te_Type e = TrimSpace ty) after limit"
    unfolding page_after_filter [OF s(2)] scan_after_def unfolding tl by (simp add: conj_ac)
  show ?thesis
    unfolding ListAssistantThreadEvents_def ListAssistantThreadEventsBefore_def ListAssistantThreadTurnEventsBefore_def
      ListAssistantThreadTurnEventsAfter_def ListAssistantThreadTurnEventsByTypeAfter_def Let_def 1 2 3 4 5
    by (simp add: found turn ty)
qed

text \<open>A client that lists after the last sequence it has seen, until a page is empty.\<close>

fun follow_thread :: "StudioStore \<Rightarrow> StudioScope \<Rightarrow> string \<Rightarrow> int \<Rightarrow> nat \<Rightarrow> int \<Rightarrow> AssistantThreadEvent list" where
  "follow_thread m scope tid limit 0 after = []"
| "follow_thread m scope tid limit (Suc n) after =
     (case fst (ListAssistantThreadEvents m scope tid after limit) of Inl _ \<Rightarrow> []
      | Inr es \<Rightarrow> if es = [] then [] else es @ follow_thread m scope tid limit n (te_Sequence (last es)))"

lemma ListAssistantThreadEvents_page:
  assumes r: "studio_reachable m" and scope: "StudioScope_validate scope = None" and row: "thread_row m scope (TrimSpace tid) \<noteq> None"
  shows "fst (ListAssistantThreadEvents m scope tid (int k) limit) =
    Inr (take (normalizeLimit limit) (drop k (thread_log m scope (TrimSpace tid))))"
proof -
  have "numbered (thread_log m scope (TrimSpace tid))" using ok_thread [OF r] by (simp add: thread_ok_def)
  then show ?thesis
    using scope row page_after_filter [OF logs_sorted(1) [OF r]]
    by (simp add: ListAssistantThreadEvents_def in_scope_def of_thread_def page_after_def numbered_after)
qed

text \<open>C34: A client that starts at any sequence number and keeps listing after the last event it received
  gets every later event of the thread exactly once, in order, whatever page size it asks for, with at most
  one request more than there are events.\<close>

theorem thread_stream_complete:
  assumes r: "studio_reachable m" and scope: "StudioScope_validate scope = None"
    and row: "thread_row m scope (TrimSpace tid) \<noteq> None" and fuel: "length (thread_log m scope (TrimSpace tid)) < n + k"
  shows "follow_thread m scope tid limit n (int k) = drop k (thread_log m scope (TrimSpace tid))"
  using fuel
proof (induction n arbitrary: k)
  case 0
  then show ?case by simp
next
  case (Suc n)
  let ?log = "thread_log m scope (TrimSpace tid)" and ?l = "normalizeLimit limit"
  note page = ListAssistantThreadEvents_page [OF r scope row, of k limit]
  show ?case
  proof (cases "k < length ?log")
    case False
    then show ?thesis by (simp add: page)
  next
    case True
    let ?es = "take ?l (drop k ?log)"
    have ne: "?es \<noteq> []" using True normalizeLimit_pos [of limit] by simp
    have len: "0 < length ?es" "k + length ?es \<le> length ?log" using True normalizeLimit_pos [of limit] by auto
    have nth: "last ?es = ?log ! (k + length ?es - 1)"
    proof -
      have j: "length ?es - 1 < length ?es" by (rule diff_less) (use len(1) in auto)
      have "last ?es = ?es ! (length ?es - 1)" using ne by (rule last_conv_nth)
      also have "\<dots> = drop k ?log ! (length ?es - 1)" by (rule nth_take, rule order.strict_trans2 [OF j]) simp
      also have "\<dots> = ?log ! (k + (length ?es - 1))" using True by (intro nth_drop) simp
      also have "k + (length ?es - 1) = k + length ?es - 1" using len(1) by linarith
      finally show ?thesis .
    qed
    have "numbered ?log" using ok_thread [OF r] by (simp add: thread_ok_def)
    moreover have "k + length ?es - 1 < length ?log" using len by linarith
    ultimately have "te_Sequence (?log ! (k + length ?es - 1)) = int (k + length ?es - 1) + 1"
      unfolding numbered_def by blast
    moreover have "int (k + length ?es - 1) + 1 = int (k + length ?es)" using len(1) by linarith
    ultimately have seq: "te_Sequence (last ?es) = int (k + length ?es)" unfolding nth by (simp only:)
    have "follow_thread m scope tid limit n (int (k + length ?es)) = drop (k + length ?es) ?log"
      by (intro Suc.IH) (use Suc.prems len(1) in linarith)
    moreover have "?es @ drop (k + length ?es) ?log = drop k ?log"
    proof -
      have "drop (k + length ?es) ?log = drop (length ?es) (drop k ?log)" by (simp add: add.commute)
      also have "\<dots> = drop ?l (drop k ?log)" by (simp add: min_def)
      finally show ?thesis by (simp only: append_take_drop_id)
    qed
    ultimately show ?thesis using ne by (simp only: follow_thread.simps page sum.case if_False seq)
  qed
qed

end
