(* ===== verification/StudioWriters.thy ===== *)
theory StudioWriters
  imports StudioMachine
begin

text \<open>
  Racing writers: events and run snapshots are written at an expected position, so that of two writers that
  read the same one the second is refused; runs of a thread do not overlap; a retried start finds its run;
  and the numbers of a conversation are never given twice.
\<close>

section \<open>Appending at an expected sequence\<close>

definition expects :: "StudioScope \<Rightarrow> string \<Rightarrow> StudioStore \<Rightarrow> int \<Rightarrow> bool" where
  "expects scope tid m e \<longleftrightarrow> studio_ok m \<and> e = latestAssistantThreadEventSequence (thread_log m scope tid)"

lemma later_ok: "later m m' \<Longrightarrow> studio_ok m'"
  unfolding later_def using studio_step_ok by blast

lemma later_log:
  assumes "later m m'" shows "length (thread_log m s t) \<le> length (thread_log m' s t)"
proof -
  obtain r where "studio_ok m" "undeleting r" and m': "m' = studio_step r m" using assms by (auto simp: later_def)
  then have "keeps m m'" unfolding m' by (intro undeleting_keeps) (simp_all add: studio_ok_def)
  then obtain es where "thread_log m' s t = thread_log m s t @ es" unfolding keeps_def by blast
  then show ?thesis by simp
qed

interpretation thread_fence: fence "\<lambda>m. int (length (thread_log m s t))" later "expects s t" for s t
proof unfold_locales
  fix m e assume "expects s t m e"
  then show "e = int (length (thread_log m s t))"
    using numbered_latest [of "thread_log m s t"] by (simp add: expects_def studio_ok_def threads_ok_def thread_ok_def)
next
  fix m m' assume "later m m'"
  then show "int (length (thread_log m s t)) \<le> int (length (thread_log m' s t))" using later_log by simp
qed

lemma later_steps_ok: "later\<^sup>*\<^sup>* m m' \<Longrightarrow> studio_ok m \<Longrightarrow> studio_ok m'"
  by (induction rule: rtranclp_induct) (auto intro: later_ok)

lemma append_accepted:
  assumes "fst (AppendAssistantThreadEvent now m scope event expected) = Inr a"
  shows "te_ThreadID a = TrimSpace (te_ThreadID event)"
    "expected = latestAssistantThreadEventSequence (thread_log m scope (te_ThreadID a))"
    "thread_log (snd (AppendAssistantThreadEvent now m scope event expected)) scope (te_ThreadID a) =
       thread_log m scope (te_ThreadID a) @ [a]"
proof -
  from assms show "te_ThreadID a = TrimSpace (te_ThreadID event)"
    "expected = latestAssistantThreadEventSequence (thread_log m scope (te_ThreadID a))"
    by (auto simp: AppendAssistantThreadEvent_def in_scope_def prepareAssistantThreadEvent_def Let_def
        split: option.splits sum.splits if_splits)
  have sig: "thread_log (m\<lparr>threadEventSignals := b\<rparr>) = thread_log m" for m b by (simp add: thread_log_def fun_eq_iff)
  from assms show "thread_log (snd (AppendAssistantThreadEvent now m scope event expected)) scope (te_ThreadID a) =
       thread_log m scope (te_ThreadID a) @ [a]"
    by (auto simp: AppendAssistantThreadEvent_def in_scope_def Let_def sig split: option.splits sum.splits if_splits)
qed

lemma numberedD: "numbered es \<Longrightarrow> i < length es \<Longrightarrow> te_Sequence (es ! i) = int i + 1"
  by (simp add: numbered_def)

text \<open>C12: An event a client appends at an expected sequence lands directly after the events it had seen, and
  from then on nobody else gets an event in at that position: whatever requests other than deletions happen in
  between, a second append that expects the same sequence is refused.\<close>

theorem one_append_wins:
  assumes reach: "studio_reachable m" and first: "AppendAssistantThreadEvent now m scope event expected = (Inr a, m1)"
    and between: "later\<^sup>*\<^sup>* m1 m2" and same: "TrimSpace (te_ThreadID event') = TrimSpace (te_ThreadID event)"
  shows "te_Sequence a = expected + 1 \<and> (\<nexists>b. fst (AppendAssistantThreadEvent now' m2 scope event' expected) = Inr b)"
proof -
  let ?t = "TrimSpace (te_ThreadID event)"
  have f: "fst (AppendAssistantThreadEvent now m scope event expected) = Inr a" using first by simp
  have t: "te_ThreadID a = ?t" by (rule append_accepted(1) [OF f])
  have e: "expected = latestAssistantThreadEventSequence (thread_log m scope ?t)" using append_accepted(2) [OF f] t by simp
  have log: "thread_log m1 scope ?t = thread_log m scope ?t @ [a]" using append_accepted(3) [OF f] t first by simp
  have ok: "studio_ok m" by (rule studio_reachable_ok [OF reach])
  have m1: "m1 = studio_step (ThreadRequest (AppendThreadEvent now scope event expected)) m" using first by simp
  have ok1: "studio_ok m1" unfolding m1 by (rule studio_step_ok [OF ok])
  have n: "expected = int (length (thread_log m scope ?t))"
    using thread_fence.accepts_current [of scope ?t m expected] ok e by (simp add: expects_def)
  have "numbered (thread_log m1 scope ?t)" using ok1 by (simp add: studio_ok_def threads_ok_def thread_ok_def)
  then have "te_Sequence ((thread_log m scope ?t @ [a]) ! length (thread_log m scope ?t)) = int (length (thread_log m scope ?t)) + 1"
    unfolding log by (rule numberedD) simp
  then have seq: "te_Sequence a = expected + 1" using n by simp
  have "\<not> expects scope ?t m2 expected"
    using n log by (intro thread_fence.stale_refused [OF _ between]) simp
  moreover have "expects scope ?t m2 expected" if "fst (AppendAssistantThreadEvent now' m2 scope event' expected) = Inr b" for b
    using append_accepted(1,2) [OF that] same later_steps_ok [OF between ok1] by (simp add: expects_def)
  ultimately show ?thesis using seq by blast
qed

section \<open>Runs of a thread\<close>

text \<open>C11: In every reachable store at most one run of a thread is under way, and a client request has at most
  one run in its thread.\<close>

theorem runs_do_not_overlap:
  assumes "studio_reachable m" and "mget (studio_runs m scope) i = Some r" "mget (studio_runs m scope) j = Some q"
    and "arun_ThreadID r = arun_ThreadID q" and "i \<noteq> j"
  shows "(assistantRunStatusTerminal (arun_Status r) \<or> assistantRunStatusTerminal (arun_Status q)) \<and>
    (arun_ClientRequestID r = [] \<or> arun_ClientRequestID r \<noteq> arun_ClientRequestID q)"
proof -
  have "no_clash (studio_runs m scope)" using studio_reachable_ok [OF assms(1)] by (simp add: studio_ok_def runs_ok_def)
  then have "\<not> run_clash r q" using assms(2,3,5) unfolding no_clash_def by blast
  then show ?thesis using assms(4) by (auto simp: run_clash_def)
qed

lemma validateNew_client: "validateNewAssistantRun user assistant run = None \<Longrightarrow> arun_ClientRequestID run \<noteq> []"
  by (auto simp: validateNewAssistantRun_def split: option.splits if_splits)

lemma CreateAssistantRun_stored:
  assumes ok: "runs_ok m" and c: "CreateAssistantRun now m scope user assistant run = (Inr r, m1)"
  shows "mget (studio_runs m1 scope) (arun_ID r) = Some r" "arun_ThreadID r = arun_ThreadID run"
    "arun_ClientRequestID r = arun_ClientRequestID run" "StudioScope_validate scope = None"
proof -
  have ids: "\<And>i q. mget (studio_runs m scope) i = Some q \<Longrightarrow> arun_ID q = i" by (rule stored_id [OF ok])
  have mem: "mget (studio_runs m scope) (arun_ID q) = Some q \<and> P q"
    if "find P (map snd (studio_runs m scope)) = Some q" for P q
  proof -
    from that have q: "q \<in> set (map snd (studio_runs m scope))" "P q" by (auto simp: find_Some_iff)
    then obtain i where i: "(i, q) \<in> set (studio_runs m scope)" unfolding set_map by (metis imageE prod.collapse)
    then have "mget (studio_runs m scope) i = Some q" using ok by (simp add: runs_ok_def no_clash_def set_mget)
    with ids q(2) show ?thesis by simp
  qed
  have new: "mget (studio_runs (put_arun scope p (put_message scope a (put_message scope b m))) scope) k = Some p"
    if "arun_ID p = k" for p a b k
    using that by (simp add: put_arun_def put_message_def studio_runs_def)
  show "mget (studio_runs m1 scope) (arun_ID r) = Some r" "arun_ThreadID r = arun_ThreadID run"
    "arun_ClientRequestID r = arun_ClientRequestID run" "StudioScope_validate scope = None"
    using c ids mem new
    by (auto simp: CreateAssistantRun_def in_scope_def Let_def split: option.splits if_splits)
qed

text \<open>Starting a run is idempotent: whoever starts a run again in the same thread for the same client
  request, with whatever new run and message IDs, gets the run that was started first, and the store stays as
  it is.\<close>

theorem retried_start_finds_run:
  assumes reach: "studio_reachable m" and started: "CreateAssistantRun now m scope user assistant run = (Inr r, m1)"
    and valid: "validateNewAssistantRun user' assistant' run' = None"
    and same: "arun_ThreadID run' = arun_ThreadID run" "arun_ClientRequestID run' = arun_ClientRequestID run"
    and ident: "arun_ID run' = arun_ID r \<or> mget (studio_runs m1 scope) (arun_ID run') = None"
  shows "CreateAssistantRun now' m1 scope user' assistant' run' = (Inr r, m1)"
proof -
  have ok: "runs_ok m" using studio_reachable_ok [OF reach] by (simp add: studio_ok_def)
  note stored = CreateAssistantRun_stored [OF ok started]
  have ok1: "runs_ok m1" using CreateAssistantRun_ok [OF ok, of now scope user assistant run] started by simp
  let ?P = "\<lambda>e. arun_ThreadID e = arun_ThreadID run' \<and> arun_ClientRequestID e = arun_ClientRequestID run'"
  have in_m1: "r \<in> set (map snd (studio_runs m1 scope))" using mget_in_set [OF stored(1)] by force
  have only: "q = r" if q: "q \<in> set (map snd (studio_runs m1 scope))" "?P q" for q
  proof -
    obtain i where i: "(i, q) \<in> set (studio_runs m1 scope)" using q(1) by auto
    have c: "no_clash (studio_runs m1 scope)" using ok1 by (simp add: runs_ok_def)
    then have qi: "mget (studio_runs m1 scope) i = Some q" using i by (simp add: no_clash_def set_mget)
    have "run_clash q r"
      using q(2) stored(2,3) same validateNew_client [OF valid] by (simp add: run_clash_def)
    then have "i = arun_ID r" using c qi stored(1) unfolding no_clash_def by blast
    then show ?thesis using qi stored(1) by simp
  qed
  have found: "find ?P (map snd (studio_runs m1 scope)) = Some r"
  proof (cases "find ?P (map snd (studio_runs m1 scope))")
    case None
    then show ?thesis using in_m1 stored(2,3) same by (auto simp: find_None_iff)
  next
    case (Some q)
    then have "q \<in> set (map snd (studio_runs m1 scope))" "?P q" by (auto simp: find_Some_iff)
    then show ?thesis using Some only by blast
  qed
  show ?thesis
  proof (cases "arun_ID run' = arun_ID r")
    case True
    then show ?thesis using stored same valid by (simp add: CreateAssistantRun_def in_scope_def Let_def)
  next
    case False
    then have "mget (studio_runs m1 scope) (arun_ID run') = None" using ident by simp
    then show ?thesis using stored(4) valid found by (simp add: CreateAssistantRun_def in_scope_def Let_def)
  qed
qed

end
