(* ===== verification/StudioRevisions.thy ===== *)
theory StudioRevisions
  imports StudioWriters
begin

text \<open>
  Revisions of a run, which snapshots compare and swap, and the high-water mark of a conversation: neither
  moves backwards.
\<close>

section \<open>Revisions of a run\<close>

definition run_revision :: "StudioScope \<Rightarrow> string \<Rightarrow> StudioStore \<Rightarrow> int" where
  "run_revision s i m = (case mget (studio_runs m s) i of None \<Rightarrow> 0 | Some r \<Rightarrow> arun_Revision r)"

text \<open>The run stays, and its revision does not fall.\<close>

definition advances :: "StudioScope \<Rightarrow> string \<Rightarrow> StudioStore \<Rightarrow> StudioStore \<Rightarrow> bool" where
  "advances s i m m' \<longleftrightarrow> (\<forall>r. mget (studio_runs m s) i = Some r \<longrightarrow> arun_Revision r < 2 ^ 63 - 1 \<longrightarrow>
     (\<exists>r'. mget (studio_runs m' s) i = Some r' \<and> arun_Revision r \<le> arun_Revision r'))"

lemma advances_part: "run_part m' = run_part m \<Longrightarrow> advances s i m m'"
  by (simp only: advances_def run_part_reads [of m' m]) blast

lemma advances_put:
  assumes "studio_runs m' = (studio_runs m)(scope := mput k q (studio_runs m scope))"
    "\<And>r. mget (studio_runs m scope) k = Some r \<Longrightarrow> arun_Revision r < 2 ^ 63 - 1 \<Longrightarrow> arun_Revision r \<le> arun_Revision q"
  shows "advances s i m m'"
  unfolding advances_def assms(1) using assms(2) by auto

lemma i64_next: "1 \<le> x \<Longrightarrow> x < 2 ^ 63 - 1 \<Longrightarrow> i64 (x + 1) = x + 1"
  by (rule i64_id) simp_all

lemma in_scope_advances: "advances s i m (snd r) \<Longrightarrow> advances s i m (snd (in_scope scope m r))"
  by (auto simp: in_scope_def advances_part split: option.splits)

lemma put_arun_runs:
  "studio_runs (put_arun scope q m) = (studio_runs m)(scope := mput (arun_ID q) q (studio_runs m scope))"
  by (simp add: put_arun_def studio_runs_def fun_eq_iff)

lemma allocate_runs_runs: "studio_runs (m\<lparr>assistantRuns := set_inner scope (studio_runs m scope) (assistantRuns m)\<rparr>) = studio_runs m"
  by (simp add: studio_runs_def fun_eq_iff)

lemma advances_reads: "studio_runs m' = studio_runs m \<Longrightarrow> advances s i m m'"
  by (auto simp: advances_def)

lemma SaveAssistantRun_advances: "advances s i m (snd (SaveAssistantRun now m scope run))"
proof -
  let ?m = "m\<lparr>assistantRuns := set_inner scope (studio_runs m scope) (assistantRuns m)\<rparr>"
  have same: "advances s i m ?m" by (rule advances_reads [OF allocate_runs_runs])
  have put: "advances s i m (put_arun scope q ?m)"
    if "\<And>r. mget (studio_runs m scope) (arun_ID q) = Some r \<Longrightarrow> arun_Revision q = arun_Revision r" for q
    using that by (intro advances_put [where k = "arun_ID q" and q = q and scope = scope])
      (simp_all add: put_arun_runs allocate_runs_runs)
  show ?thesis
    unfolding SaveAssistantRun_def
    by (rule in_scope_advances)
      (auto simp: Let_def allocate_runs_runs advances_part same intro!: put split: option.splits)
qed

lemma message_runs [simp]:
  "studio_runs (put_message scope a m) = studio_runs m" "studio_runs (allocate_messages scope m) = studio_runs m"
  by (simp_all add: put_message_def allocate_messages_def studio_runs_def fun_eq_iff)

lemma CreateAssistantRun_advances: "advances s i m (snd (CreateAssistantRun now m scope user assistant run))"
proof -
  have put: "advances s i m (put_arun scope q (put_message scope a (put_message scope b m)))"
    if "mget (studio_runs m scope) (arun_ID q) = None" for q a b
    using that by (intro advances_put [where k = "arun_ID q" and q = q and scope = scope]) (simp_all add: put_arun_runs)
  show ?thesis
    unfolding CreateAssistantRun_def
    by (rule in_scope_advances) (auto simp: Let_def advances_part intro!: put split: option.splits)
qed

lemma RequestAssistantRunStop_advances:
  "advances s i m (snd (RequestAssistantRunStopWithAssistantMessage clock m scope runID expected assistant now))"
proof -
  have put: "advances s i m (n\<lparr>assistantRuns := put2 scope runID (run\<lparr>arun_Status := x, arun_Revision := i64 (arun_Revision run + 1), arun_UpdatedAt := t\<rparr>)
      (assistantRuns n)\<rparr>)"
    if "mget (studio_runs m scope) runID = Some run" "1 \<le> arun_Revision run" "studio_runs n = studio_runs m" for run n x t
    using that by (intro advances_put [where k = runID and scope = scope
          and q = "run\<lparr>arun_Status := x, arun_Revision := i64 (arun_Revision run + 1), arun_UpdatedAt := t\<rparr>"])
      (auto simp: studio_runs_def fun_eq_iff i64_next)
  show ?thesis
    unfolding RequestAssistantRunStopWithAssistantMessage_def
    by (rule in_scope_advances) (auto simp: Let_def advances_part intro!: put split: option.splits)
qed

lemma ClaimAssistantRun_advances: "advances s i m (snd (ClaimAssistantRun clock m scope ident req now))"
proof -
  have put: "advances s i m (m\<lparr>assistantRuns := put2 scope ident (run\<lparr>arun_Status := x, arun_UpdatedAt := t\<rparr>) (assistantRuns m)\<rparr>)"
    if "mget (studio_runs m scope) ident = Some run" for run x t
    using that by (intro advances_put [where k = ident and scope = scope and q = "run\<lparr>arun_Status := x, arun_UpdatedAt := t\<rparr>"])
      (auto simp: studio_runs_def fun_eq_iff)
  show ?thesis
    unfolding ClaimAssistantRun_def
    by (rule in_scope_advances) (auto simp: Let_def advances_part intro!: put split: option.splits)
qed

lemma put_messages_runs: "studio_runs (snd (put_messages scope ms m)) = studio_runs m"
  by (rule run_part_reads(1) [OF put_messages_part])

lemma snapshot_accepted:
  assumes "fst (SaveAssistantRunSnapshot now m scope run ms expected) = Inr u"
  shows "\<exists>c. mget (studio_runs m scope) (arun_ID run) = Some c \<and> arun_Revision c = expected" "1 \<le> expected"
    "\<exists>q. studio_runs (snd (SaveAssistantRunSnapshot now m scope run ms expected)) =
       (studio_runs m)(scope := mput (arun_ID run) q (studio_runs m scope)) \<and> arun_Revision q = i64 (expected + 1)"
proof -
  from assms show "\<exists>c. mget (studio_runs m scope) (arun_ID run) = Some c \<and> arun_Revision c = expected"
    by (auto simp: SaveAssistantRunSnapshot_def in_scope_def Let_def split: option.splits if_splits)
  from assms show "1 \<le> expected"
    by (auto simp: SaveAssistantRunSnapshot_def in_scope_def Let_def validateAssistantRunSnapshot_def split: option.splits if_splits)
  have runs: "studio_runs n = studio_runs m" if "put_messages scope ps (allocate_messages scope m) = (e, n)" for e n ps
    using put_messages_runs [of scope ps "allocate_messages scope m"] that by simp
  from assms show "\<exists>q. studio_runs (snd (SaveAssistantRunSnapshot now m scope run ms expected)) =
       (studio_runs m)(scope := mput (arun_ID run) q (studio_runs m scope)) \<and> arun_Revision q = i64 (expected + 1)"
    by (auto simp: SaveAssistantRunSnapshot_def in_scope_def Let_def validateAssistantRunSnapshot_def put_arun_runs runs
        split: option.splits if_splits prod.splits)
qed

lemma snapshot_refused_runs:
  assumes "fst (SaveAssistantRunSnapshot now m scope run ms expected) = Inl e"
  shows "studio_runs (snd (SaveAssistantRunSnapshot now m scope run ms expected)) = studio_runs m"
proof -
  have runs: "studio_runs n = studio_runs m" if "put_messages scope ps (allocate_messages scope m) = (e, n)" for e n ps
    using put_messages_runs [of scope ps "allocate_messages scope m"] that by simp
  from assms show ?thesis
    by (auto simp: SaveAssistantRunSnapshot_def in_scope_def Let_def runs split: option.splits if_splits prod.splits)
qed

lemma SaveAssistantRunSnapshot_advances: "advances s i m (snd (SaveAssistantRunSnapshot now m scope run ms expected))"
proof (cases "fst (SaveAssistantRunSnapshot now m scope run ms expected)")
  case (Inl e)
  show ?thesis by (rule advances_reads [OF snapshot_refused_runs [OF Inl]])
next
  case (Inr u)
  obtain q where q: "studio_runs (snd (SaveAssistantRunSnapshot now m scope run ms expected)) =
       (studio_runs m)(scope := mput (arun_ID run) q (studio_runs m scope))" "arun_Revision q = i64 (expected + 1)"
    using snapshot_accepted(3) [OF Inr] by blast
  show ?thesis
    by (rule advances_put [OF q(1)]) (use snapshot_accepted(1,2) [OF Inr] q(2) i64_next [of expected] in auto)
qed

lemma AppendAssistantRunEvent_runs: "studio_runs (snd (AppendAssistantRunEvent now m scope event expected)) = studio_runs m"
  by (simp add: AppendAssistantRunEvent_def Let_def studio_runs_def fun_eq_iff split: sum.splits)

lemma run_step_advances: "advances s i m (run_step r m)"
  by (cases r)
    (simp_all add: SaveAssistantRun_advances CreateAssistantRun_advances RequestAssistantRunStop_advances
      ClaimAssistantRun_advances SaveAssistantRunSnapshot_advances advances_reads [OF AppendAssistantRunEvent_runs]
      advances_part [OF message_operations_part(1)] advances_part [OF message_operations_part(2)]
      advances_part [OF message_operations_part(3)] advances_part [OF message_operations_part(4)]
      advances_part [OF item_run_part])

lemma studio_step_advances:
  assumes "undeleting r" shows "advances s i m (studio_step r m)"
  using assms thread_step_parts advances_part core_parts(2) [OF attachment_step_core] core_parts(2) [OF claim_step_core]
  by (cases r) (simp_all add: undeleting_def run_step_advances)

text \<open>A step that deletes nothing, from a store that holds the run at a revision with a successor.\<close>

definition run_later :: "StudioScope \<Rightarrow> string \<Rightarrow> StudioStore \<Rightarrow> StudioStore \<Rightarrow> bool" where
  "run_later s i m m' \<longleftrightarrow> mget (studio_runs m s) i \<noteq> None \<and> run_revision s i m < 2 ^ 63 - 1 \<and>
     (\<exists>r. undeleting r \<and> m' = studio_step r m)"

definition at_revision :: "StudioScope \<Rightarrow> string \<Rightarrow> StudioStore \<Rightarrow> int \<Rightarrow> bool" where
  "at_revision s i m v \<longleftrightarrow> (\<exists>r. mget (studio_runs m s) i = Some r \<and> arun_Revision r = v)"

interpretation run_fence: fence "run_revision s i" "run_later s i" "at_revision s i" for s i
proof unfold_locales
  fix m v assume "at_revision s i m v"
  then show "v = run_revision s i m" by (auto simp: at_revision_def run_revision_def)
next
  fix m m' assume "run_later s i m m'"
  then obtain r q where q: "mget (studio_runs m s) i = Some q" "arun_Revision q < 2 ^ 63 - 1"
    and "undeleting r" "m' = studio_step r m" by (auto simp: run_later_def run_revision_def)
  then have "advances s i m m'" using studio_step_advances by blast
  then obtain q' where "mget (studio_runs m' s) i = Some q'" "arun_Revision q \<le> arun_Revision q'"
    using q unfolding advances_def by blast
  with q show "run_revision s i m \<le> run_revision s i m'" by (simp add: run_revision_def)
qed

text \<open>C35: Snapshots of a run compare and swap its revision: once a snapshot written at a revision is stored, no
  other writer that had read the run at that revision can store one, whatever requests other than deletions
  come in between.\<close>

theorem one_snapshot_wins:
  assumes first: "SaveAssistantRunSnapshot now m scope run ms expected = (Inr u, m1)" and below: "expected < 2 ^ 63 - 1"
    and between: "(run_later scope (arun_ID run))\<^sup>*\<^sup>* m1 m2" and same: "arun_ID run' = arun_ID run"
  shows "run_revision scope (arun_ID run) m1 = expected + 1 \<and>
    (\<nexists>v. fst (SaveAssistantRunSnapshot now' m2 scope run' ms' expected) = Inr v)"
proof -
  have f: "fst (SaveAssistantRunSnapshot now m scope run ms expected) = Inr u" using first by simp
  have m1: "snd (SaveAssistantRunSnapshot now m scope run ms expected) = m1" using first by simp
  have next_rev: "i64 (expected + 1) = expected + 1" using snapshot_accepted(2) [OF f] below by (rule i64_next)
  have "run_revision scope (arun_ID run) m1 = expected + 1"
    using snapshot_accepted(3) [OF f] unfolding m1 next_rev by (auto simp: run_revision_def)
  moreover have "\<not> at_revision scope (arun_ID run) m2 expected"
    using calculation by (intro run_fence.stale_refused [OF _ between]) simp
  moreover have "at_revision scope (arun_ID run) m2 expected"
    if "fst (SaveAssistantRunSnapshot now' m2 scope run' ms' expected) = Inr v" for v
    using snapshot_accepted(1) [OF that] same by (simp add: at_revision_def)
  ultimately show ?thesis by blast
qed

section \<open>The numbers of a conversation\<close>

definition conv_later :: "StudioScope \<Rightarrow> StudioStore \<Rightarrow> StudioStore \<Rightarrow> bool" where
  "conv_later s m m' \<longleftrightarrow> studio_ok m \<and> (\<exists>r. r \<noteq> DeleteRequest (DeleteProject s) \<and> m' = studio_step r m)"

lemma conv_part_mark:
  assumes "conv_part m' = conv_part m" shows "high_water m' s = high_water m s"
  unfolding conv_part_reads(2) [OF assms] ..

lemma studio_step_mark:
  assumes ok: "studio_ok m" and r: "r \<noteq> DeleteRequest (DeleteProject s)"
  shows "high_water m s \<le> high_water (studio_step r m) s"
proof (cases r)
  case (ThreadRequest q)
  have "conv_part (thread_step q m) = conv_part m" using thread_step_parts by blast
  from conv_part_mark [OF this] show ?thesis by (simp add: ThreadRequest)
next
  case (RunRequest q)
  show ?thesis
  proof (cases "\<exists>now t item. q = AppendItem now t item")
    case True
    then show ?thesis using ok by (auto simp: RunRequest studio_ok_def AppendAssistantConversationItem_mark)
  next
    case False
    then have "conv_part (run_step q m) = conv_part m" by (intro run_step_conv) blast
    from conv_part_mark [OF this] show ?thesis by (simp add: RunRequest)
  qed
next
  case (AttachmentRequest q)
  then show ?thesis by (simp add: conv_part_mark [OF core_parts(3) [OF attachment_step_core]])
next
  case (ClaimRequest q)
  then show ?thesis by (simp add: conv_part_mark [OF core_parts(3) [OF claim_step_core]])
next
  case (DeleteRequest q)
  show ?thesis
  proof (cases q)
    case (DeleteThread a b c)
    then show ?thesis using DeleteAssistantThread_conv [of m a b c] by (simp add: DeleteRequest conv_cut_def)
  next
    case (DeleteProject a)
    then have "s \<noteq> a" using r DeleteRequest by simp
    then show ?thesis
      using DeleteProjectMessages_conversation(2) [of a m s]
      by (cases "StudioScope_validate a") (simp_all add: DeleteRequest DeleteProject, simp add: DeleteProjectMessages_def in_scope_def)
  next
    case (DeleteOld before)
    then show ?thesis using sweep_state_parts(2) [of m before] by (simp add: DeleteRequest conv_cut_def)
  qed
qed

interpretation conv_fence: fence "\<lambda>m. high_water m s" "conv_later s" "\<lambda>m n. n = high_water m s" for s
  by unfold_locales (auto simp: conv_later_def studio_step_mark)

lemma conv_steps_ok: "(conv_later s)\<^sup>*\<^sup>* m m' \<Longrightarrow> studio_ok m \<Longrightarrow> studio_ok m'"
proof (induction rule: rtranclp_induct)
  case (step y z)
  then obtain r where "z = studio_step r y" by (auto simp: conv_later_def)
  with step show ?case using studio_step_ok by simp
qed

text \<open>C36: The numbers of a project's conversation are never given twice: an item appended later gets a larger
  one than every item before it, even when retention or the deletion of threads has removed them all, as long
  as the project itself is not deleted.\<close>

theorem conversation_numbers_grow:
  assumes reach: "studio_reachable m" and first: "AppendAssistantConversationItem now m scope item = (Inr a, m1)"
    and between: "(conv_later scope)\<^sup>*\<^sup>* m1 m2" and last: "AppendAssistantConversationItem now' m2 scope item' = (Inr b, m3)"
    and new: "b \<notin> set (conversation m2 scope)"
  shows "ci_Sequence a < ci_Sequence b"
proof -
  have ok: "studio_ok m" by (rule studio_reachable_ok [OF reach])
  have ok1: "studio_ok m1" using studio_step_ok [OF ok, of "RunRequest (AppendItem now scope item)"] first by simp
  have ok2: "conv_ok m2" using conv_steps_ok [OF between ok1] by (simp add: studio_ok_def)
  have c: "conv_ok m" using ok by (simp add: studio_ok_def)
  have a: "ci_Sequence a \<le> high_water m1 scope"
  proof (rule AppendAssistantConversationItem_cases [OF c, of now scope item])
    assume "snd (AppendAssistantConversationItem now m scope item) = m"
      and "\<And>a. fst (AppendAssistantConversationItem now m scope item) = Inr a \<Longrightarrow> a \<in> set (conversation m scope)"
    then have "m1 = m" "a \<in> set (conversation m scope)" using first by simp_all
    then show ?thesis using c by (simp add: conv_ok_def)
  next
    fix x assume "fst (AppendAssistantConversationItem now m scope item) = Inr x"
      "appends_item scope x m (snd (AppendAssistantConversationItem now m scope item))"
    then show ?thesis using first by (simp add: appends_item_def)
  qed
  have mono: "high_water m1 scope \<le> high_water m2 scope" by (rule conv_fence.steps_mono [OF between])
  have b: "ci_Sequence b = high_water m2 scope + 1"
  proof (rule AppendAssistantConversationItem_cases [OF ok2, of now' scope item'])
    assume "\<And>a. fst (AppendAssistantConversationItem now' m2 scope item') = Inr a \<Longrightarrow> a \<in> set (conversation m2 scope)"
    then show ?thesis using last new by simp
  next
    fix x assume "fst (AppendAssistantConversationItem now' m2 scope item') = Inr x"
      "appends_item scope x m2 (snd (AppendAssistantConversationItem now' m2 scope item'))"
    then show ?thesis using last by (simp add: appends_item_def)
  qed
  from a mono b show ?thesis by linarith
qed

end
