(* ===== verification/StudioLifetimes.thy ===== *)
theory StudioLifetimes
  imports StudioMachine
begin

text \<open>What retention and deletion take with them, and what they leave.\<close>

section \<open>A run that can be resumed\<close>

text \<open>The run, its events, its messages and its items of the conversation, as they were.\<close>

definition run_kept :: "StudioStore \<Rightarrow> StudioScope \<Rightarrow> string \<Rightarrow> AssistantRun \<Rightarrow> StudioStore \<Rightarrow> bool" where
  "run_kept m s i run m' \<longleftrightarrow> wf_map (studio_runs m' s) \<and> mget (studio_runs m' s) i = Some run \<and>
     run_log m' s i = run_log m s i \<and>
     filter (\<lambda>x. ci_RunID x = i) (conversation m' s) = filter (\<lambda>x. ci_RunID x = i) (conversation m s) \<and>
     (\<forall>k \<in> {arun_UserMessageID run, arun_ActiveMessageID run}. k \<noteq> [] \<longrightarrow>
        mget (studio_messages m' s) k = mget (studio_messages m s) k)"

lemma sweep_messages_kept:
  assumes kept: "run_kept m s i run (snd nm)" and alive: "\<not> assistantRunStatusTerminal (arun_Status run)"
  shows "run_kept m s i run (snd (sweep_messages before sc nm))"
proof -
  obtain n m' where nm: "nm = (n, m')" by (cases nm)
  let ?f = "snd (sweep_messages before sc nm)"
  note reads = run_part_reads [OF sweep_messages_parts(2) [of before sc nm]] conv_part_reads [OF sweep_messages_parts(3) [of before sc nm]]
  have "(i, run) \<in> set (studio_runs m' s)" using kept by (intro mget_in_set) (simp add: run_kept_def nm)
  then have protected: "k \<in> set (protectedMessages m' s)"
    if "k \<in> {arun_UserMessageID run, arun_ActiveMessageID run}" "k \<noteq> []" for k
    using that alive by (fastforce simp: protectedMessages_def nonempty_def)
  have "mget (studio_messages ?f s) k = mget (studio_messages m' s) k"
    if "k \<in> {arun_UserMessageID run, arun_ActiveMessageID run}" "k \<noteq> []" for k
    using protected [OF that]
    by (auto simp: nm sweep_messages_def Let_def studio_messages_def message_doomed_def mget_filter_key)
  then show ?thesis
    using kept unfolding run_kept_def reads by (simp add: nm)
qed

lemma sweep_runs_kept:
  assumes kept: "run_kept m s i run (snd nm)" and alive: "\<not> assistantRunStatusTerminal (arun_Status run)"
  shows "run_kept m s i run (snd (sweep_runs before sc nm))"
proof -
  obtain n m' where nm: "nm = (n, m')" by (cases nm)
  let ?D = "map fst (filter (\<lambda>(_, run). run_doomed before run) (studio_runs m' sc))"
  let ?f = "snd (sweep_runs before sc nm)"
  have notin: "i \<notin> set ?D" if sc: "sc = s"
  proof
    assume "i \<in> set ?D"
    then obtain r where r: "(i, r) \<in> set (studio_runs m' s)" "run_doomed before r" using sc by auto
    then have "r = run" using kept by (simp add: run_kept_def nm set_mget)
    then show False using r(2) alive by (simp add: run_doomed_def)
  qed
  have state: "?f = (prune_run_tables sc (forget_runs sc ?D m'))
      \<lparr>conversationItems := prune sc (conversationItems (prune_run_tables sc (forget_runs sc ?D m')))\<rparr>"
    by (simp add: nm sweep_runs_def Let_def)
  have runs: "studio_runs ?f = studio_runs (forget_runs sc ?D m')" "run_log ?f = run_log (forget_runs sc ?D m')"
    unfolding state by (simp_all add: prune_run_tables_def studio_runs_def run_log_def fun_eq_iff)
  have conv: "conversation ?f s = (if s = sc then filter (\<lambda>x. ci_RunID x \<notin> set ?D) (conversation m' s) else conversation m' s)"
    unfolding state by (simp add: conversation_def prune_run_tables_def forget_runs_def)
  have msgs: "studio_messages ?f = studio_messages m'"
    unfolding state by (simp add: studio_messages_def prune_run_tables_def forget_runs_def fun_eq_iff)
  have "filter (\<lambda>x. ci_RunID x = i) (conversation ?f s) = filter (\<lambda>x. ci_RunID x = i) (conversation m' s)"
    unfolding conv using notin by (auto intro!: filter_cong)
  moreover have "mget (studio_runs ?f s) i = mget (studio_runs m' s) i"
    unfolding runs forget_runs_reads using notin by (cases "s = sc") (simp_all add: mget_filter_keys)
  moreover have "wf_map (studio_runs ?f s)"
    unfolding runs forget_runs_reads using kept by (cases "s = sc") (simp_all add: run_kept_def nm)
  moreover have "run_log ?f s i = run_log m' s i" unfolding runs forget_runs_reads using notin by auto
  ultimately show ?thesis using kept unfolding run_kept_def msgs by (simp add: nm)
qed

lemma sweep_threads_kept: "run_kept m s i run m' \<Longrightarrow> run_kept m s i run (sweep_threads before sc m')"
  unfolding run_kept_def run_part_reads [OF sweep_threads_parts(1) [of before sc m']]
    conv_part_reads [OF sweep_threads_parts(2) [of before sc m']] by (simp add: studio_messages_def)

lemma fold_inv: "P m \<Longrightarrow> (\<And>x m. P m \<Longrightarrow> P (f x m)) \<Longrightarrow> P (fold f xs m)"
  by (induction xs arbitrary: m) simp_all

text \<open>C15: Retention never breaks a run that can still be resumed: whatever the cut-off, a run that has not ended
  keeps its row, its events, its part of the conversation, and the user's and assistant's messages it points at.\<close>

theorem retention_keeps_resumable_runs:
  assumes reach: "studio_reachable m" and run: "mget (studio_runs m s) i = Some run"
    and alive: "\<not> assistantRunStatusTerminal (arun_Status run)"
  shows "let m' = snd (DeleteMessagesOlderThan m before) in
    mget (studio_runs m' s) i = Some run \<and> run_log m' s i = run_log m s i \<and>
    filter (\<lambda>x. ci_RunID x = i) (conversation m' s) = filter (\<lambda>x. ci_RunID x = i) (conversation m s) \<and>
    (\<forall>k \<in> {arun_UserMessageID run, arun_ActiveMessageID run}. k \<noteq> [] \<longrightarrow>
        mget (studio_messages m' s) k = mget (studio_messages m s) k)"
proof -
  have "wf_map (studio_runs m s)" using studio_reachable_ok [OF reach] by (simp add: studio_ok_def runs_ok_def no_clash_def)
  then have "run_kept m s i run m" using run by (simp add: run_kept_def)
  then have "run_kept m s i run (snd (swept_messages before m))"
    unfolding swept_messages_def
    by (intro fold_inv [where P = "\<lambda>nm. run_kept m s i run (snd nm)"] sweep_messages_kept [OF _ alive]) simp_all
  then have "run_kept m s i run (snd (swept_runs before m))"
    unfolding swept_runs_def Let_def
    by (intro fold_inv [where P = "\<lambda>nm. run_kept m s i run (snd nm)"] sweep_runs_kept [OF _ alive])
  then have "run_kept m s i run (snd (DeleteMessagesOlderThan m before))"
    by (simp add: DeleteMessagesOlderThan_state Let_def) (intro fold_inv [where P = "run_kept m s i run"] sweep_threads_kept)
  then show ?thesis by (simp add: run_kept_def Let_def)
qed

section \<open>Threads\<close>

text \<open>Retention takes a thread whole or not at all: it removes exactly the threads that were last updated
  before the cut-off, are not active and have no turn in progress, with every turn and event of theirs, and
  leaves every other thread as it was.\<close>

theorem retention_takes_whole_threads:
  "let m' = snd (DeleteMessagesOlderThan m before) in
    if thread_doomed before m s t
    then thread_row m' s t = None \<and> thread_log m' s t = [] \<and> turn_log m' s t = [] \<and> turns_of m' s t = []
    else thread_row m' s t = thread_row m s t \<and> thread_log m' s t = thread_log m s t \<and>
      turn_log m' s t = turn_log m s t \<and> turns_of m' s t = turns_of m s t"
  using sweep_cases [of before m s t] by (simp add: Let_def no_thread_def same_thread_def split: if_splits)

lemma thread_deleted_reads:
  "studio_runs (thread_deleted scope tid m) = studio_runs (forget_turns scope (map fst (turns_of m scope tid)) m)"
  "conversation (thread_deleted scope tid m) = conversation (forget_turns scope (map fst (turns_of m scope tid)) m)"
  by (simp_all add: thread_deleted_def Let_def studio_runs_def conversation_def prune_run_tables_def prune_threads_def
      drop_thread_def drop_bound_def fun_eq_iff)

lemma thread_deleted_same:
  assumes "\<not> (s = scope \<and> t = tid)" shows "same_thread m (thread_deleted scope tid m) s t"
proof -
  let ?n = "drop_bound scope (map (\<lambda>(_, turn). tn_ID turn) (turns_of m scope tid))
    (forget_turns scope (map fst (turns_of m scope tid)) m)"
  have "same_thread m ?n s t" by (rule same_thread_part) simp
  moreover have "same_thread ?n (drop_thread scope tid ?n) s t" by (rule drop_thread_same [OF assms])
  moreover have "same_thread (drop_thread scope tid ?n) (prune_threads scope (drop_thread scope tid ?n)) s t"
    by (rule prune_threads_same)
  moreover have "same_thread (prune_threads scope (drop_thread scope tid ?n)) (thread_deleted scope tid m) s t"
    by (rule same_thread_part) (simp add: thread_deleted_def Let_def)
  ultimately show ?thesis by (blast intro: same_thread_trans)
qed

lemma thread_deleted_none: "no_thread (thread_deleted scope tid m) scope tid"
proof -
  let ?n = "drop_bound scope (map (\<lambda>(_, turn). tn_ID turn) (turns_of m scope tid))
    (forget_turns scope (map fst (turns_of m scope tid)) m)"
  have "no_thread (prune_threads scope (drop_thread scope tid ?n)) scope tid"
    by (rule same_no_thread [OF drop_thread_none prune_threads_same])
  then show ?thesis
    by (rule same_no_thread) (rule same_thread_part, simp add: thread_deleted_def Let_def)
qed

text \<open>The messages, attachments and runs a deletion goes over.\<close>

lemma thread_deleted_parts:
  fixes scope tid m
  defines "ids \<equiv> map fst (turns_of m scope tid)"
  shows "studio_messages (thread_deleted scope tid m) s =
      (if s = scope \<and> ids \<noteq> [] then mfilter (\<lambda>k _. k \<notin> set (run_messages (studio_runs m scope) ids)) (studio_messages m s)
       else studio_messages m s)"
    "atts (thread_deleted scope tid m) s =
      (if s = scope then mfilter (\<lambda>_ a. sa_BindingID a \<notin> (\<lambda>(_, turn). tn_ID turn) ` set (turns_of m scope tid)) (atts m s)
       else atts m s)"
    "run_log (thread_deleted scope tid m) s i =
      (if s = scope \<and> i \<in> set ids \<and> mget (studio_runs m s) i \<noteq> None then [] else run_log m s i)"
proof -
  let ?f = "forget_turns scope ids m" and ?b = "map (\<lambda>(_, turn). tn_ID turn) (turns_of m scope tid)"
  have shape: "studio_messages (thread_deleted scope tid m) = studio_messages ?f"
    "atts (thread_deleted scope tid m) = atts (drop_bound scope ?b ?f)"
    "run_log (thread_deleted scope tid m) = run_log ?f"
    by (simp_all add: thread_deleted_def Let_def ids_def studio_messages_def atts_def run_log_def prune_run_tables_def
        prune_threads_def drop_thread_def drop_bound_def fun_eq_iff)
  have "atts ?f = atts m" by (simp add: forget_turns_def atts_def fun_eq_iff Let_def)
  then have "atts (drop_bound scope ?b ?f) s =
      (if s = scope then mfilter (\<lambda>_ a. sa_BindingID a \<notin> set ?b) (atts m s) else atts m s)"
    by (auto simp: drop_bound_def atts_def fun_eq_iff mfilter_def)
  then show "atts (thread_deleted scope tid m) s =
      (if s = scope then mfilter (\<lambda>_ a. sa_BindingID a \<notin> (\<lambda>(_, turn). tn_ID turn) ` set (turns_of m scope tid)) (atts m s)
       else atts m s)"
    unfolding shape by simp
  show "studio_messages (thread_deleted scope tid m) s =
      (if s = scope \<and> ids \<noteq> [] then mfilter (\<lambda>k _. k \<notin> set (run_messages (studio_runs m scope) ids)) (studio_messages m s)
       else studio_messages m s)"
    unfolding shape by (simp add: forget_turns_def studio_messages_def Let_def)
  show "run_log (thread_deleted scope tid m) s i =
      (if s = scope \<and> i \<in> set ids \<and> mget (studio_runs m s) i \<noteq> None then [] else run_log m s i)"
    unfolding shape by (rule forget_turns_reads(2))
qed

text \<open>The messages the runs of a thread's turns point at.\<close>

definition thread_messages :: "StudioStore \<Rightarrow> StudioScope \<Rightarrow> string \<Rightarrow> string set" where
  "thread_messages m s t = {k. k \<noteq> [] \<and> (\<exists>i \<in> fst ` set (turns_of m s t). \<exists>run. mget (studio_runs m s) i = Some run \<and>
     (k = arun_UserMessageID run \<or> k = arun_ActiveMessageID run))}"

lemma run_messages_set: "set (run_messages (studio_runs m s) (map fst (turns_of m s t))) = thread_messages m s t"
  by (force simp: run_messages_def thread_messages_def nonempty_def split: option.splits)

text \<open>C37: Deleting a thread is refused while a turn of it is in progress; when it succeeds, nothing of the thread is
  left: not its row, log or turns, nor, for each of its turns, the run with the turn's ID and the run's events, the
  messages the run points at, the items of the conversation and the attachments bound to the turn. Everything else is
  kept: the other threads, runs, run events, messages, conversation items and attachments of every project.\<close>

theorem deleted_thread_leaves_nothing:
  assumes reach: "studio_reachable m" and deleted: "DeleteAssistantThread m scope tid actor = (Inr u, m')"
  defines "t \<equiv> TrimSpace tid"
  defines "ids \<equiv> fst ` set (turns_of m scope t)"
  shows "(\<forall>(i, turn) \<in> set (turns_of m scope t). assistantTurnStatusTerminal (tn_Status turn) \<and> tn_ID turn = i) \<and>
    thread_row m' scope t = None \<and> thread_log m' scope t = [] \<and> turns_of m' scope t = [] \<and>
    (\<forall>i \<in> ids. mget (studio_runs m' scope) i = None \<and> run_log m' scope i = [] \<and>
      (\<forall>x \<in> set (conversation m' scope). ci_RunID x \<noteq> i) \<and> (\<forall>(k, a) \<in> set (atts m' scope). sa_BindingID a \<noteq> i)) \<and>
    (\<forall>k \<in> thread_messages m scope t. mget (studio_messages m' scope) k = None) \<and>
    (s = scope \<and> t' = t \<or>
      thread_row m' s t' = thread_row m s t' \<and> thread_log m' s t' = thread_log m s t' \<and> turns_of m' s t' = turns_of m s t') \<and>
    (s = scope \<and> i \<in> ids \<or> mget (studio_runs m' s) i = mget (studio_runs m s) i \<and> run_log m' s i = run_log m s i) \<and>
    (s = scope \<and> k \<in> thread_messages m scope t \<or> mget (studio_messages m' s) k = mget (studio_messages m s) k) \<and>
    conversation m' s = filter (\<lambda>x. s \<noteq> scope \<or> ci_RunID x \<notin> ids) (conversation m s) \<and>
    atts m' s = filter (\<lambda>(_, a). s \<noteq> scope \<or> sa_BindingID a \<notin> ids) (atts m s)"
proof -
  let ?ids = "map fst (turns_of m scope t)"
  have m': "m' = thread_deleted scope t m"
    and ended: "\<forall>(k, turn) \<in> set (turns_of m scope t). assistantTurnStatusTerminal (tn_Status turn)"
    using deleted by (auto simp: DeleteAssistantThread_def in_scope_def thread_deleted_def Let_def list_ex_iff t_def
        split: option.splits if_splits)
  have ok: "studio_ok m" by (rule studio_reachable_ok [OF reach])
  then have keys: "\<forall>(k, turn) \<in> set (turns_of m scope t). tn_ID turn = k"
    by (force simp: studio_ok_def threads_ok_def thread_ok_def dest!: spec [of _ scope] spec [of _ t])
  then have bound: "(\<lambda>(_, turn). tn_ID turn) ` set (turns_of m scope t) = ids" unfolding ids_def by force
  have ids: "set ?ids = ids" "?ids = [] \<longleftrightarrow> ids = {}" by (auto simp: ids_def)
  have none: "no_thread m' scope t" unfolding m' by (rule thread_deleted_none)
  have same: "s = scope \<and> t' = t \<or> same_thread m m' s t'" unfolding m' using thread_deleted_same by blast
  have runs: "mget (studio_runs m' s) i = (if s = scope \<and> i \<in> ids then None else mget (studio_runs m s) i)" for s i
    unfolding m' thread_deleted_reads forget_turns_reads ids(1)
    by (cases "mget (studio_runs m s) i") (auto simp: mget_filter_keys ids_def)
  have "run_log m s i = []" if "mget (studio_runs m s) i = None" for s i
    using ok that by (simp add: studio_ok_def runs_ok_def run_events_ok_def)
  then have logs: "run_log m' s i = (if s = scope \<and> i \<in> ids then [] else run_log m s i)" for s i
    unfolding m' thread_deleted_parts(3) ids(1) by auto
  have conv: "conversation m' s = filter (\<lambda>x. s \<noteq> scope \<or> ci_RunID x \<notin> ids) (conversation m s)" for s
    unfolding m' thread_deleted_reads forget_turns_conversation ids(1) by (auto simp: ids intro!: filter_True [symmetric])
  have bindings: "atts m' s = filter (\<lambda>(_, a). s \<noteq> scope \<or> sa_BindingID a \<notin> ids) (atts m s)" for s
    unfolding m' thread_deleted_parts(2) bound by (auto simp: mfilter_def intro!: filter_cong filter_True [symmetric])
  have msgs: "mget (studio_messages m' s) k =
      (if s = scope \<and> k \<in> thread_messages m scope t then None else mget (studio_messages m s) k)" for s k
    unfolding m' thread_deleted_parts(1) run_messages_set
    by (auto simp: mget_filter_keys thread_messages_def)
  have gone: "thread_row m' scope t = None" "thread_log m' scope t = []" "turns_of m' scope t = []"
    using none by (simp_all add: no_thread_def)
  have kept: "s = scope \<and> t' = t \<or>
      thread_row m' s t' = thread_row m s t' \<and> thread_log m' s t' = thread_log m s t' \<and> turns_of m' s t' = turns_of m s t'"
    using same unfolding same_thread_def by blast
  show ?thesis using ended keys gone kept by (auto simp: runs logs conv bindings msgs)
qed

section \<open>Claims\<close>

lemma claim_put [simp]: "claim_row (put_claim k c m) key = (if key = k then Some c else claim_row m key)"
  by (simp add: claim_row_def put_claim_def)

lemma claim_release [simp]: "claim_row (m\<lparr>replicaClaims := mdel k (replicaClaims m)\<rparr>) key = (if key = k then None else claim_row m key)"
  by (simp add: claim_row_def)

lemma claim_relinquish:
  "claim_row (snd (RelinquishReplicaClaims m kind owner)) key =
     map_option (\<lambda>c. if cl_Kind c = kind \<and> cl_OwnerReplica c = owner then c\<lparr>cl_HeartbeatAt := replicaClaimRelinquishedAt\<rparr> else c)
       (claim_row m key)"
  by (simp add: RelinquishReplicaClaims_def claim_row_def mget_def map_of_map)

text \<open>Requests that respect a claim: no clock runs behind the heartbeat, a rival's attempt falls into the time
  the claim is live, and nobody hands the claim over or gives it up in the owner's name.\<close>

fun yields_to :: "string \<Rightarrow> string \<Rightarrow> time \<Rightarrow> claim_request \<Rightarrow> bool" where
  "yields_to key owner beat (TryClaim now claim stale) \<longleftrightarrow>
     (cl_Key claim = key \<longrightarrow> beat \<le> now \<and> (cl_OwnerReplica claim = owner \<or> Sub now beat \<le> stale))"
| "yields_to key owner beat (TakeOver now claim expected) \<longleftrightarrow> (cl_Key claim = key \<longrightarrow> expected \<noteq> owner)"
| "yields_to key owner beat (Renew now k o') \<longleftrightarrow> (k = key \<longrightarrow> beat \<le> now)"
| "yields_to key owner beat (Release k o') \<longleftrightarrow> \<not> (k = key \<and> o' = owner)"
| "yields_to key owner beat (Relinquish kind o') \<longleftrightarrow> o' \<noteq> owner"
| "yields_to key owner beat (Bump k o' v) \<longleftrightarrow> True"

definition held :: "StudioStore \<Rightarrow> string \<Rightarrow> string \<Rightarrow> time \<Rightarrow> bool" where
  "held m key owner beat \<longleftrightarrow>
     (case claim_row m key of None \<Rightarrow> False | Some c \<Rightarrow> cl_OwnerReplica c = owner \<and> beat \<le> cl_HeartbeatAt c)"

lemma Sub_antimono: "t \<le> u \<Longrightarrow> Sub now u \<le> Sub now t"
  by (simp add: Sub_def)

lemma held_live: "0 < beat \<Longrightarrow> beat \<le> cl_HeartbeatAt c \<Longrightarrow> Sub now beat \<le> stale \<Longrightarrow> Live c now stale"
  using Sub_antimono [of beat "cl_HeartbeatAt c" now] by (auto simp: Live_def)

lemma claim_step_held:
  assumes held: "held m key owner beat" and beat: "0 < beat" and ok: "yields_to key owner beat r"
  shows "held (claim_step r m) key owner beat"
proof -
  obtain c where c: "claim_row m key = Some c" "cl_OwnerReplica c = owner" "beat \<le> cl_HeartbeatAt c"
    using held by (auto simp: held_def split: option.splits)
  show ?thesis
  proof (cases r)
    case (TryClaim now claim stale)
    then show ?thesis
      using c ok held_live [OF beat c(3), of now stale]
      by (auto simp: held_def TryClaimReplica_def Let_def split: option.splits)
  next
    case (TakeOver now claim expected)
    then show ?thesis using c ok by (auto simp: held_def TakeOverReplicaClaim_def Let_def split: option.splits)
  next
    case (Renew now k o')
    then show ?thesis using c ok by (auto simp: held_def RenewReplicaClaim_def split: option.splits)
  next
    case (Release k o')
    then show ?thesis using c ok by (auto simp: held_def ReleaseReplicaClaim_def split: option.splits)
  next
    case (Relinquish kind o')
    then show ?thesis using c ok by (auto simp: held_def claim_relinquish)
  next
    case (Bump k o' v)
    then show ?thesis using c by (auto simp: held_def BumpReplicaClaimRevision_def split: option.splits)
  qed
qed

text \<open>C38: While a replica's claim is live nobody else gets it: after any sequence of requests that neither hand
  the claim over nor give it up in the owner's name, with rivals trying only within the stale limit after the
  heartbeat, the claim is still the owner's, and a rival's attempt at such a time is declined and told so.\<close>

theorem claim_exclusive_while_live:
  assumes "TryClaimReplica now m claim stale = ((c, True), m1)" and "0 < now"
    and "list_all (yields_to (cl_Key claim) (cl_OwnerReplica claim) now) rs"
    and "cl_Key rival = cl_Key claim" "cl_OwnerReplica rival \<noteq> cl_OwnerReplica claim" "Sub later_now now \<le> limit"
  shows "\<exists>d. TryClaimReplica later_now (fold claim_step rs m1) rival limit = ((d, False), fold claim_step rs m1) \<and>
    cl_OwnerReplica d = cl_OwnerReplica claim"
proof -
  have "held m1 (cl_Key claim) (cl_OwnerReplica claim) now"
    using assms(1) by (auto simp: TryClaimReplica_def held_def Let_def split: option.splits if_splits)
  then have "held (fold claim_step rs m1) (cl_Key claim) (cl_OwnerReplica claim) now"
    using assms(3) by (induction rs arbitrary: m1) (auto intro: claim_step_held [OF _ assms(2)])
  then obtain d where d: "claim_row (fold claim_step rs m1) (cl_Key claim) = Some d"
    "cl_OwnerReplica d = cl_OwnerReplica claim" "now \<le> cl_HeartbeatAt d"
    by (auto simp: held_def split: option.splits)
  have "Live d later_now limit" by (rule held_live [OF assms(2) d(3) assms(6)])
  then show ?thesis using d assms(4,5) by (auto simp: TryClaimReplica_def)
qed

definition claim_revision :: "string \<Rightarrow> StudioStore \<Rightarrow> int" where
  "claim_revision key m = (case claim_row m key of None \<Rightarrow> 0 | Some c \<Rightarrow> cl_Revision c)"

definition unreleased :: "string \<Rightarrow> StudioStore \<Rightarrow> StudioStore \<Rightarrow> bool" where
  "unreleased key m m' \<longleftrightarrow> (\<exists>r. (\<forall>owner. r \<noteq> Release key owner) \<and> m' = claim_step r m)"

lemma claim_step_floor: "(\<forall>owner. r \<noteq> Release key owner) \<Longrightarrow> claim_revision key m \<le> claim_revision key (claim_step r m)"
  by (cases r)
    (auto simp: claim_revision_def TryClaimReplica_def TakeOverReplicaClaim_def RenewReplicaClaim_def ReleaseReplicaClaim_def
      claim_relinquish BumpReplicaClaimRevision_def Let_def split: option.splits)

interpretation claim_fence: fence "claim_revision key" "unreleased key" "\<lambda>m v. v = claim_revision key m" for key
  by unfold_locales (auto simp: unreleased_def intro: claim_step_floor)

text \<open>The revision floor of a claim survives the claim moving between replicas: as long as it is not
  released, no acquisition, take-over, renewal or bump lowers it, and a bump by its owner raises it.\<close>

theorem claim_revision_floor:
  assumes "claim_row m key = Some c" and "v > cl_Revision c"
    and "(unreleased key)\<^sup>*\<^sup>* (BumpReplicaClaimRevision m key (cl_OwnerReplica c) v) m'"
  shows "v \<le> claim_revision key m'"
proof -
  have "claim_revision key (BumpReplicaClaimRevision m key (cl_OwnerReplica c) v) = v"
    using assms(1,2) by (simp add: BumpReplicaClaimRevision_def claim_revision_def)
  then show ?thesis using claim_fence.steps_mono [OF assms(3)] by simp
qed

end
