(* ===== verification/StudioWitnesses.thy ===== *)
theory StudioWitnesses
  imports StudioMachine StudioFacts StudioRevisions StudioLifetimes
begin

text \<open>
  Edges of the App Studio store: the notation of quotas, and behaviours of the in-memory store that the
  Postgres store, whose unique indexes and row order differ, does not share.

  One execution of the App Studio store: a thread gets two turns, a run with its messages is started,
  snapshots are saved, items are appended. The witnesses apply the properties to its states.
\<close>

section \<open>Quotas\<close>

lemma digits_chars: "c \<in> set (digits n) \<Longrightarrow> CHR ''0'' \<le> c \<and> c \<le> CHR ''9''"
proof (induction n rule: digits.induct)
  case (1 n)
  have d: "CHR ''0'' \<le> char_of (48 + k) \<and> char_of (48 + k) \<le> CHR ''9''" if "k < 10" for k :: nat
  proof -
    have "k \<in> {0, 1, 2, 3, 4, 5, 6, 7, 8, 9}" using that by auto
    then show ?thesis by (auto simp: less_eq_char_def)
  qed
  show ?case
  proof (cases "n < 10")
    case True
    then show ?thesis using "1.prems" d [of n] by (subst (asm) digits.simps) simp
  next
    case False
    then have "c \<in> set (digits (n div 10)) \<or> c = char_of (48 + n mod 10)"
      using "1.prems" by (subst (asm) digits.simps) auto
    then show ?thesis using "1.IH" [OF False] d [of "n mod 10"] by auto
  qed
qed

lemma digits_ne [simp]: "digits n \<noteq> []"
  by (subst digits.simps) simp

lemma digit_graphic: "CHR ''0'' \<le> c \<Longrightarrow> c \<le> CHR ''9'' \<Longrightarrow> graphic c"
  by (auto simp: graphic_def less_eq_char_def less_char_def)

lemma itoa_digits: "0 \<le> n \<Longrightarrow> itoa n = digits (nat n)"
  by (simp add: itoa_def)

lemma ParseInt10_itoa: "0 \<le> n \<Longrightarrow> n < 2 ^ 63 \<Longrightarrow> ParseInt10 (itoa n) = Some n"
proof -
  assume n: "0 \<le> n" "n < 2 ^ 63"
  obtain c r where cr: "digits (nat n) = c # r" by (cases "digits (nat n)") auto
  have all: "list_all (\<lambda>c. CHR ''0'' \<le> c \<and> c \<le> CHR ''9'') (digits (nat n))"
    using digits_chars by (auto simp: list_all_iff)
  have "CHR ''0'' \<le> c" using all cr by simp
  then have "c \<noteq> CHR ''-''" "c \<noteq> CHR ''+''" by (auto simp: less_eq_char_def)
  then show ?thesis
    using n all undigits_digits [of "nat n"] by (simp add: ParseInt10_def itoa_digits cr)
qed

lemma TrimSpace_number:
  assumes "s = [] \<or> graphic (last s)" shows "TrimSpace (digits n @ s) = digits n @ s"
proof -
  have g: "graphic c" if "c \<in> set (digits n)" for c using digits_chars [OF that] digit_graphic by blast
  have "graphic (hd (digits n))" "graphic (last (digits n))" by (intro g hd_in_set last_in_set digits_ne)+
  then show ?thesis using assms by (intro TrimSpace_graphic) (auto simp: last_append)
qed

text \<open>The suffix of a number, and that a bare number has none.\<close>

lemma no_suffix: "find (\<lambda>(suffix, _). length (digits n) > length suffix \<and>
    EqualFold (drop (length (digits n) - length suffix) (digits n)) suffix) quota_suffixes = None"
proof -
  have "\<not> EqualFold (drop (length (digits n) - Suc (Suc 0)) (digits n)) [k, CHR ''i'']" for k
  proof
    let ?d = "drop (length (digits n) - Suc (Suc 0)) (digits n)"
    assume "EqualFold ?d [k, CHR ''i'']"
    then have m: "map lower_char ?d = [lower_char k, lower_char (CHR ''i'')]" by (simp add: EqualFold_def ToLower_def)
    then have "last (map lower_char ?d) = lower_char (CHR ''i'')" by simp
    moreover have ne: "?d \<noteq> []" using m by auto
    ultimately have "lower_char (last ?d) = lower_char (CHR ''i'')" by (simp add: last_map)
    moreover have "last ?d \<in> set (digits n)" using last_in_set [OF ne] by (rule in_set_dropD)
    ultimately show False using digits_chars [of "last ?d" n] by (auto simp: lower_char_def less_eq_char_def split: if_splits)
  qed
  then show ?thesis by (simp add: quota_suffixes_def)
qed

text \<open>Quotas round-trip: a byte count written in decimal, with or without an IEC suffix, is read back as
  exactly that many bytes as long as it fits into 64 bits, and is refused, never wrapped around, when it does
  not.\<close>

theorem quota_roundtrip:
  assumes "0 \<le> n" "n < 2 ^ 63" and "(suffix, factor) \<in> set (([], 1) # quota_suffixes)"
  shows "ParseAttachmentQuotaBytes (itoa n @ suffix) =
    (if n * factor < 2 ^ 63 then Inr (n * factor) else Inl (StudioErrorf ''attachment quota is too large''))"
proof -
  let ?r = "digits (nat n) @ suffix"
  have s: "suffix = [] \<and> factor = 1 \<or> (suffix, factor) \<in> set quota_suffixes" using assms(3) by auto
  then have g: "suffix = [] \<or> graphic (last suffix)" by (auto simp: quota_suffixes_def graphic_def)
  have trim: "TrimSpace ?r = ?r" by (rule TrimSpace_number [OF g])
  have parse: "ParseInt10 (digits (nat n)) = Some n" using ParseInt10_itoa [OF assms(1,2)] assms(1) by (simp add: itoa_digits)
  have big: "n > (2 ^ 63 - 1) div factor \<longleftrightarrow> \<not> n * factor < 2 ^ 63"
  proof -
    have "factor \<in> {1, 2 ^ 10, 2 ^ 20, 2 ^ 30, 2 ^ 40}" using s by (auto simp: quota_suffixes_def)
    then show ?thesis by (elim insertE emptyE) (simp_all, linarith+)
  qed
  have fits: "i64 (n * factor) = n * factor" if "n * factor < 2 ^ 63"
  proof -
    have "0 \<le> n * factor" using s assms(1) by (auto simp: quota_suffixes_def)
    then show ?thesis using that by (intro i64_id) simp_all
  qed
  have split: "(case find (\<lambda>(suffix, _). length ?r > length suffix \<and> EqualFold (drop (length ?r - length suffix) ?r) suffix) quota_suffixes of
        None \<Rightarrow> (?r, 1) | Some (suffix, factor) \<Rightarrow> (TrimSpace (take (length ?r - length suffix) ?r), factor)) = (digits (nat n), factor)"
  proof (cases "suffix = []")
    case True
    then have "factor = 1" using s by (auto simp: quota_suffixes_def)
    with True show ?thesis using no_suffix [of "nat n"] by simp
  next
    case False
    then have "(suffix, factor) \<in> set quota_suffixes" using s by simp
    then show ?thesis
      using TrimSpace_number [of "[]" "nat n"]
      by (auto simp: quota_suffixes_def EqualFold_def ToLower_def lower_char_def)
  qed
  show ?thesis
    unfolding ParseAttachmentQuotaBytes_def itoa_digits [OF assms(1)] Let_def trim split
    using parse big fits assms(1) by simp
qed

section \<open>Turns\<close>

text \<open>Retrying the start of a turn while another turn of the thread is in progress gives the turn or a
  conflict depending on which of the two the map iteration visits first.\<close>

theorem turn_retry_depends_on_map_order:
  assumes "tn_ClientUserMessageID old = client" "tn_ClientUserMessageID busy \<noteq> client"
    and "\<not> assistantTurnStatusTerminal (tn_Status busy)"
  shows "find_turn client [old, busy] = Inr (Some old) \<and> find_turn client [busy, old] = Inl ErrAssistantTurnConflict"
  using assms by simp

section \<open>Waking streams\<close>

lemma silent_append [simp]: "threadEventSignals (append_events s t es m) = threadEventSignals m"
proof -
  have "threadEventSignals (appendAssistantThreadTurnEventsLocked s t es m) = threadEventSignals m" for m
    unfolding appendAssistantThreadTurnEventsLocked_def by (induction es arbitrary: m) (simp_all add: append_turn_event_def Let_def)
  then show ?thesis by (simp add: append_events_def)
qed

text \<open>Only a plain append wakes the streams that wait on a thread: creating a turn, saving one with its
  event, and updating or titling a thread write to the log too, but signal nobody.\<close>

theorem other_appends_are_silent:
  "threadEventSignals (snd (CreateAssistantTurn now m s turn events)) = threadEventSignals m \<and>
   threadEventSignals (snd (SaveAssistantTurnWithEvent now m s turn event v)) = threadEventSignals m \<and>
   threadEventSignals (snd (UpdateAssistantThreadWithEvent now m s thread event v)) = threadEventSignals m \<and>
   threadEventSignals (snd (SetAssistantThreadTitleIfEmpty now m s tid actor title event)) = threadEventSignals m"
  by (simp add: CreateAssistantTurn_def SaveAssistantTurnWithEvent_def UpdateAssistantThreadWithEvent_def
      SetAssistantThreadTitleIfEmpty_def in_scope_def Let_def project_turn_def put_turn_def
      split: option.splits sum.splits)

section \<open>An execution\<close>

definition sp :: StudioScope where
  "sp = \<lparr>sp_OrgUUID = ''o'', sp_WorkspaceUUID = ''w'', sp_ProjectName = ''p'', sp_ProjectUID = ''u''\<rparr>"

definition th0 :: AssistantThread where
  "th0 = \<lparr>th_ID = ''t'', th_Title = [], th_Status = [], th_ActorID = ''a'', th_ReasoningEffortByModel = [],
     th_CreatedAt = 0, th_UpdatedAt = 0\<rparr>"

definition te0 :: "string \<Rightarrow> string \<Rightarrow> AssistantThreadEvent" where
  "te0 turn ty = \<lparr>te_ThreadID = ''t'', te_TurnID = turn, te_Sequence = 0, te_Type = ty, te_ItemID = [], te_RequestID = [],
     te_Payload = None, te_CreatedAt = 0\<rparr>"

definition tn0 :: "string \<Rightarrow> string \<Rightarrow> string \<Rightarrow> AssistantTurn" where
  "tn0 i client status = \<lparr>tn_ID = i, tn_ThreadID = ''t'', tn_ActorID = ''a'', tn_ClientUserMessageID = client, tn_Mode = [],
     tn_ApprovalMode = [], tn_Status = status, tn_Checkpoint = None, tn_Error = None, tn_CreatedAt = 0, tn_UpdatedAt = 0\<rparr>"

definition msg0 :: "string \<Rightarrow> string \<Rightarrow> StudioMessage" where
  "msg0 i role = \<lparr>smsg_ID = i, smsg_ProjectName = [], smsg_ProjectUID = [], smsg_ActorID = ''a'', smsg_Role = role,
     smsg_Content = [], smsg_ContentEncrypted = False, smsg_ContentKeyID = [], smsg_Metadata = [], smsg_CreatedAt = 0,
     smsg_UpdatedAt = 0\<rparr>"

definition arun0 :: "string \<Rightarrow> string \<Rightarrow> string \<Rightarrow> string \<Rightarrow> int \<Rightarrow> AssistantRun" where
  "arun0 i user assistant status v = \<lparr>arun_ID = i, arun_ThreadID = ''t'', arun_ProjectName = [], arun_ProjectUID = [],
     arun_Mode = ''plan'', arun_ApprovalMode = ''never'', arun_Status = status, arun_ClientRequestID = ''c'',
     arun_UserMessageID = user, arun_ActiveMessageID = assistant, arun_Revision = v, arun_RequestID = [],
     arun_Checkpoint = None, arun_Audit = None, arun_Error = None, arun_AbortReason = [], arun_CreatedAt = 0, arun_UpdatedAt = 0\<rparr>"

definition item0 :: "string \<Rightarrow> AssistantConversationItem" where
  "item0 i = \<lparr>ci_ID = i, ci_RunID = ''r1'', ci_ProjectName = [], ci_ProjectUID = [], ci_Sequence = 0, ci_Type = ''x'',
     ci_Payload = None, ci_CreatedAt = 0\<rparr>"

definition claim0 :: "string \<Rightarrow> ReplicaClaim" where
  "claim0 owner = \<lparr>cl_Key = ''k'', cl_Kind = ''project'', cl_ScopeKey = [], cl_OwnerReplica = owner, cl_OwnerAddr = [], cl_Detail = [],
     cl_Revision = 0, cl_HeartbeatAt = 0\<rparr>"

abbreviation do_thread :: "thread_request \<Rightarrow> StudioStore \<Rightarrow> StudioStore" where
  "do_thread r \<equiv> studio_step (ThreadRequest r)"

abbreviation do_run :: "run_request \<Rightarrow> StudioStore \<Rightarrow> StudioStore" where
  "do_run r \<equiv> studio_step (RunRequest r)"

definition s1 :: StudioStore where "s1 = do_thread (CreateThread 5 sp th0 [te0 [] ''thread.created'']) NewStudioStore"
definition s2 :: StudioStore where "s2 = do_thread (CreateTurn 6 sp (tn0 ''r1'' ''c'' []) [te0 ''r1'' ''turn.started'']) s1"
definition s3 :: StudioStore where "s3 = do_thread (SaveTurn 7 sp (tn0 ''r1'' ''c'' ''completed'')) s2"
definition s4 :: StudioStore where "s4 = do_run (CreateARun 8 sp (msg0 ''m1'' ''user'') (msg0 ''m2'' ''assistant'') (arun0 ''r1'' ''m1'' ''m2'' ''running'' 1)) s3"

lemma s_reachable: "studio_reachable s1" "studio_reachable s2" "studio_reachable s3" "studio_reachable s4"
  unfolding s4_def s3_def s2_def s1_def by (intro studio_reachable.intros)+

definition s5 :: StudioStore where
  "s5 = do_run (SaveARun 9 sp (arun0 ''r1'' ''m1'' ''m2'' ''completed'' 1)) s4"

definition s6 :: StudioStore where
  "s6 = do_run (CreateARun 10 sp (msg0 ''m3'' ''user'') (msg0 ''m4'' ''assistant'')
     (arun0 ''r2'' ''m3'' ''m4'' ''running'' 1\<lparr>arun_ClientRequestID := ''d''\<rparr>)) s5"

definition s7 :: StudioStore where "s7 = do_run (AppendItem 11 sp (item0 ''i1'')) s4"
definition s8 :: StudioStore where "s8 = studio_step (DeleteRequest (DeleteThread sp ''t'' ''a'')) s3"
definition c1 :: StudioStore where "c1 = snd (TryClaimReplica 10 NewStudioStore (claim0 ''A'') 5)"

lemma later_reachable: "studio_reachable s6"
  unfolding s6_def s5_def by (intro studio_reachable.intros s_reachable)

lemma sp_valid: "StudioScope_validate sp = None"
  by code_simp

lemma trims: "TrimSpace ''t'' = ''t''" "TrimSpace ''r1'' = ''r1''" "TrimSpace ''x'' = ''x''" "TrimSpace ''a'' = ''a''"
  by code_simp+

lemma s2_facts: "map te_Sequence (thread_log s2 sp ''t'') = [1, 2]" "length (thread_log s2 sp ''t'') = 2"
  "thread_row s2 sp ''t'' \<noteq> None"
  by code_simp+

text \<open>A successful result.\<close>

lemma succeeded: "\<not> isl (fst x) \<Longrightarrow> x = (Inr (projr (fst x)), snd x)"
  by (cases x) (auto simp: isl_def split: sum.splits)

section \<open>Reading\<close>

theorem thread_log_invariant_witness:
  "te_Sequence (thread_log s2 sp ''t'' ! 1) = 2 \<and> turn_log s2 sp ''t'' = filter turn_event (thread_log s2 sp ''t'')"
  using thread_log_invariant [OF s_reachable(2), where scope = sp and tid = "''t''" and key = "([], [])" and turnID = "[]"] s2_facts(2)
  by simp

theorem listings_scan_the_log_witness:
  "fst (ListAssistantThreadTurnEventsAfter s2 sp ''t'' ''r1'' ''x'' 1 1) =
     Inr (scan_after (thread_log s2 sp ''t'') (\<lambda>e. turn_event e \<and> turn_key e = (''r1'', ''x'')) 1 1)"
  using listings_scan_the_log [OF s_reachable(2) sp_valid, where tid = "''t''" and turnID = "''r1''" and ty = "''x''"
      and after = 1 and limit = 1 and before = 0] s2_facts(3)
  by (simp add: trims)

theorem thread_stream_complete_witness: "follow_thread s2 sp ''t'' 1 3 (int 1) = drop 1 (thread_log s2 sp ''t'')"
proof -
  have fuel: "length (thread_log s2 sp ''t'') < 3 + 1" by (simp add: s2_facts(2))
  have "thread_row s2 sp (TrimSpace ''t'') \<noteq> None" "length (thread_log s2 sp (TrimSpace ''t'')) < 3 + 1"
    unfolding trims by (rule s2_facts(3) fuel)+
  from thread_stream_complete [OF s_reachable(2) sp_valid this] show ?thesis unfolding trims .
qed

section \<open>Writing\<close>

theorem one_append_wins_witness:
  "te_Sequence (projr (fst (AppendAssistantThreadEvent 9 s2 sp (te0 [] ''x'') 2))) = 2 + 1 \<and>
   (\<nexists>b. fst (AppendAssistantThreadEvent 10 (snd (AppendAssistantThreadEvent 9 s2 sp (te0 [] ''x'') 2)) sp (te0 [] ''y'') 2) = Inr b)"
proof (rule one_append_wins [OF s_reachable(2) succeeded rtranclp.rtrancl_refl])
  show "\<not> isl (fst (AppendAssistantThreadEvent 9 s2 sp (te0 [] ''x'') 2))" by code_simp
qed (simp add: te0_def)

theorem runs_do_not_overlap_witness:
  "assistantRunStatusTerminal (arun_Status (the (mget (studio_runs s6 sp) ''r1''))) \<or>
   assistantRunStatusTerminal (arun_Status (the (mget (studio_runs s6 sp) ''r2'')))"
proof -
  have r: "mget (studio_runs s6 sp) ''r1'' = Some (the (mget (studio_runs s6 sp) ''r1''))"
    "mget (studio_runs s6 sp) ''r2'' = Some (the (mget (studio_runs s6 sp) ''r2''))" by code_simp+
  have t: "arun_ThreadID (the (mget (studio_runs s6 sp) ''r1'')) = arun_ThreadID (the (mget (studio_runs s6 sp) ''r2''))" by code_simp
  show ?thesis using runs_do_not_overlap [OF later_reachable r t] by simp
qed

theorem retried_start_finds_run_witness:
  "CreateAssistantRun 20 s4 sp (msg0 ''m8'' ''user'') (msg0 ''m9'' ''assistant'') (arun0 ''r9'' ''m8'' ''m9'' ''running'' 1) =
     (Inr (projr (fst (CreateAssistantRun 8 s3 sp (msg0 ''m1'' ''user'') (msg0 ''m2'' ''assistant'') (arun0 ''r1'' ''m1'' ''m2'' ''running'' 1)))), s4)"
proof (rule retried_start_finds_run [OF s_reachable(3)])
  let ?c = "CreateAssistantRun 8 s3 sp (msg0 ''m1'' ''user'') (msg0 ''m2'' ''assistant'') (arun0 ''r1'' ''m1'' ''m2'' ''running'' 1)"
  have "\<not> isl (fst ?c)" by code_simp
  from succeeded [OF this] show "?c = (Inr (projr (fst ?c)), s4)" by (simp add: s4_def)
  show "validateNewAssistantRun (msg0 ''m8'' ''user'') (msg0 ''m9'' ''assistant'') (arun0 ''r9'' ''m8'' ''m9'' ''running'' 1) = None"
    by code_simp
  have "mget (studio_runs s4 sp) (arun_ID (arun0 ''r9'' ''m8'' ''m9'' ''running'' 1)) = None" by code_simp
  then show "arun_ID (arun0 ''r9'' ''m8'' ''m9'' ''running'' 1) = arun_ID (projr (fst ?c)) \<or>
      mget (studio_runs s4 sp) (arun_ID (arun0 ''r9'' ''m8'' ''m9'' ''running'' 1)) = None" ..
qed (simp_all add: arun0_def)

theorem one_snapshot_wins_witness:
  "run_revision sp ''r1'' (snd (SaveAssistantRunSnapshot 12 s4 sp (arun0 ''r1'' ''m1'' ''m2'' ''running'' 2) [] 1)) = 2"
proof -
  have "\<not> isl (fst (SaveAssistantRunSnapshot 12 s4 sp (arun0 ''r1'' ''m1'' ''m2'' ''running'' 2) [] 1))" by code_simp
  from one_snapshot_wins [OF succeeded [OF this] _ rtranclp.rtrancl_refl refl]
  show ?thesis by (simp add: arun0_def)
qed

theorem conversation_numbers_grow_witness:
  "ci_Sequence (projr (fst (AppendAssistantConversationItem 11 s4 sp (item0 ''i1'')))) <
   ci_Sequence (projr (fst (AppendAssistantConversationItem 12 s7 sp (item0 ''i2''))))"
proof (rule conversation_numbers_grow [OF s_reachable(4) _ rtranclp.rtrancl_refl])
  have "\<not> isl (fst (AppendAssistantConversationItem 11 s4 sp (item0 ''i1'')))" by code_simp
  from succeeded [OF this]
  show "AppendAssistantConversationItem 11 s4 sp (item0 ''i1'') =
      (Inr (projr (fst (AppendAssistantConversationItem 11 s4 sp (item0 ''i1'')))), s7)" by (simp add: s7_def)
  have "\<not> isl (fst (AppendAssistantConversationItem 12 s7 sp (item0 ''i2'')))" by code_simp
  from succeeded [OF this]
  show "AppendAssistantConversationItem 12 s7 sp (item0 ''i2'') =
      (Inr (projr (fst (AppendAssistantConversationItem 12 s7 sp (item0 ''i2'')))),
       snd (AppendAssistantConversationItem 12 s7 sp (item0 ''i2'')))" .
  show "projr (fst (AppendAssistantConversationItem 12 s7 sp (item0 ''i2''))) \<notin> set (conversation s7 sp)" by code_simp
qed

section \<open>Retention and deletion\<close>

theorem retention_keeps_resumable_runs_witness:
  "mget (studio_runs (snd (DeleteMessagesOlderThan s4 100)) sp) ''r1'' = mget (studio_runs s4 sp) ''r1''"
proof -
  have r: "mget (studio_runs s4 sp) ''r1'' = Some (the (mget (studio_runs s4 sp) ''r1''))"
    "\<not> assistantRunStatusTerminal (arun_Status (the (mget (studio_runs s4 sp) ''r1'')))" by code_simp+
  show ?thesis using retention_keeps_resumable_runs [OF s_reachable(4) r, of 100] r(1) by (simp add: Let_def)
qed

theorem deleted_thread_leaves_nothing_witness: "thread_row s8 sp ''t'' = None \<and> turns_of s8 sp ''t'' = []"
proof -
  have "\<not> isl (fst (DeleteAssistantThread s3 sp ''t'' ''a''))" by code_simp
  from deleted_thread_leaves_nothing [OF s_reachable(3) succeeded [OF this], where s = sp and t' = "''t''" and i = "[]" and k = "[]"]
  show ?thesis by (simp add: s8_def trims)
qed

section \<open>Claims and quotas\<close>

theorem claim_exclusive_while_live_witness:
  "snd (fst (TryClaimReplica 13 (fold claim_step [Renew 11 ''k'' ''A'', TryClaim 12 (claim0 ''B'') 5] c1) (claim0 ''B'') 5)) = False"
proof -
  have c: "TryClaimReplica 10 NewStudioStore (claim0 ''A'') 5 =
      ((fst (fst (TryClaimReplica 10 NewStudioStore (claim0 ''A'') 5)), True), c1)"
    unfolding c1_def prod_eq_iff fst_conv snd_conv by (intro conjI refl) code_simp
  have y: "list_all (yields_to (cl_Key (claim0 ''A'')) (cl_OwnerReplica (claim0 ''A'')) 10) [Renew 11 ''k'' ''A'', TryClaim 12 (claim0 ''B'') 5]"
    by (simp add: claim0_def Sub_def)
  show ?thesis
    using claim_exclusive_while_live [OF c _ y, where rival = "claim0 ''B''" and later_now = 13 and limit = 5]
    by (auto simp: claim0_def Sub_def)
qed

theorem claim_revision_floor_witness: "7 \<le> claim_revision ''k'' (BumpReplicaClaimRevision c1 ''k'' ''A'' 7)"
proof -
  have c: "claim_row c1 ''k'' = Some (the (claim_row c1 ''k''))" "7 > cl_Revision (the (claim_row c1 ''k''))"
    "cl_OwnerReplica (the (claim_row c1 ''k'')) = ''A''" by code_simp+
  show ?thesis using claim_revision_floor [OF c(1,2) rtranclp.rtrancl_refl] unfolding c(3) .
qed

theorem quota_roundtrip_witness: "ParseAttachmentQuotaBytes (itoa 3 @ ''Ki'') = Inr 3072"
  using quota_roundtrip [of 3 "''Ki''" "2 ^ 10"] by (simp add: quota_suffixes_def)

theorem turn_retry_depends_on_map_order_witness:
  "find_turn ''c'' [tn0 ''r1'' ''c'' ''completed'', tn0 ''r2'' ''d'' TurnInProgress] = Inr (Some (tn0 ''r1'' ''c'' ''completed'')) \<and>
   find_turn ''c'' [tn0 ''r2'' ''d'' TurnInProgress, tn0 ''r1'' ''c'' ''completed''] = Inl ErrAssistantTurnConflict"
  by (rule turn_retry_depends_on_map_order) (simp_all add: tn0_def assistantTurnStatusTerminal_def)

section \<open>Where the in-memory store is weaker than the database\<close>

definition revived :: StudioStore where
  "revived = do_thread (SaveTurn 9 sp (tn0 ''r1'' ''c'' TurnInProgress))
     (do_thread (CreateTurn 8 sp (tn0 ''r2'' ''d'' []) []) s3)"

text \<open>A turn that has ended can be saved as in progress again while another one runs: the in-memory store
  then holds two active turns of one thread, which the database's unique index forbids.\<close>

theorem two_active_turns:
  "studio_reachable revived \<and> map (\<lambda>(_, turn). tn_Status turn) (turns_of revived sp ''t'') = [TurnInProgress, TurnInProgress]"
proof
  show "studio_reachable revived" unfolding revived_def by (intro studio_reachable.intros s_reachable)
  show "map (\<lambda>(_, turn). tn_Status turn) (turns_of revived sp ''t'') = [TurnInProgress, TurnInProgress]" by code_simp
qed

definition unmessaged :: StudioStore where
  "unmessaged = do_run (SaveARun 5 sp (arun0 ''r1'' [] ''m2'' ''running'' 1)) NewStudioStore"

text \<open>Asking a run to stop with a lifecycle message panics when the project has no message map, which a
  saved run does not need.\<close>

theorem stop_panics_without_messages:
  "studio_reachable unmessaged \<and>
   fst (RequestAssistantRunStopWithAssistantMessage 6 unmessaged sp ''r1'' 1 (msg0 ''m2'' ''assistant'') 6) = Inl NilMapPanic"
proof
  show "studio_reachable unmessaged" unfolding unmessaged_def by (intro studio_reachable.intros)
  show "fst (RequestAssistantRunStopWithAssistantMessage 6 unmessaged sp ''r1'' 1 (msg0 ''m2'' ''assistant'') 6) = Inl NilMapPanic"
    by code_simp
qed

end
