(* ===== verification/RunnerRequests.thy ===== *)
theory RunnerRequests
  imports RunnerProtocol
begin

text \<open>
  The manifest of files staged for an attempt (\<open>pkg/runner/inputs.go\<close>): what one file may be called and where
  it may go, and that no two files of a manifest would be written to the same path or one inside the other. A
  check returns the text of its error.

  The checks of what a coordinator sends (\<open>pkg/runner/runner.go\<close>, \<open>git_fetch.go\<close>, \<open>git_result.go\<close>,
  \<open>workspace.go\<close>, \<open>harness/reasoning.go\<close>): the identity of an attempt, the approved envelope of a start, the clone
  source, and the identity the harness runs as. A check returns the text of its error.
\<close>

section \<open>Identifiers\<close>

text \<open>The character classes \<open>[a-z]\<close>, \<open>[A-Z]\<close> and \<open>[0-9]\<close> of the patterns.\<close>

definition lower_letter :: "char \<Rightarrow> bool" where
  "lower_letter c \<longleftrightarrow> CHR ''a'' \<le> c \<and> c \<le> CHR ''z''"

definition upper_letter :: "char \<Rightarrow> bool" where
  "upper_letter c \<longleftrightarrow> CHR ''A'' \<le> c \<and> c \<le> CHR ''Z''"

definition decimal_digit :: "char \<Rightarrow> bool" where
  "decimal_digit c \<longleftrightarrow> CHR ''0'' \<le> c \<and> c \<le> CHR ''9''"

definition alnum :: "char \<Rightarrow> bool" where
  "alnum c \<longleftrightarrow> upper_letter c \<or> lower_letter c \<or> decimal_digit c"

text \<open>\<open>identifierPattern\<close>: a letter or digit, then at most 127 letters, digits, dots, underscores or dashes.\<close>

definition identifierPattern :: "string \<Rightarrow> bool" where
  "identifierPattern s \<longleftrightarrow> s \<noteq> [] \<and> alnum (hd s) \<and> length s \<le> 128 \<and>
     list_all (\<lambda>c. alnum c \<or> c \<in> {CHR ''.'', CHR ''_'', CHR ''-''}) (tl s)"

definition has_control :: "string \<Rightarrow> bool" where
  "has_control s \<longleftrightarrow> list_ex rune_control (runes s)"

definition contains_any :: "string \<Rightarrow> char list \<Rightarrow> bool" where
  "contains_any s cs \<longleftrightarrow> list_ex (\<lambda>c. c \<in> set cs) s"

section \<open>Paths\<close>

definition path_Dir :: "string \<Rightarrow> string" where
  "path_Dir s = Clean (rev (dropWhile (\<lambda>c. c \<noteq> CHR ''/'') (rev s)))"

text \<open>The directories above a path, nearest first; a path of \<open>n\<close> bytes has fewer than \<open>n\<close> of them.\<close>

fun dirs_above :: "nat \<Rightarrow> string \<Rightarrow> string list" where
  "dirs_above 0 d = []"
| "dirs_above (Suc n) d = (let parent = path_Dir d in if parent = ''.'' then [] else parent # dirs_above n parent)"

definition parents :: "string \<Rightarrow> string list" where
  "parents d = dirs_above (length d) d"

definition bad_component :: "string \<Rightarrow> bool" where
  "bad_component c \<longleftrightarrow> c = [] \<or> c = ''.'' \<or> c = ''..'' \<or> length c > 255"

fun components_ok :: "string list \<Rightarrow> string option" where
  "components_ok [] = None"
| "components_ok (c # cs) =
     (if bad_component c then Some ''input relativePath contains an unsafe component''
      else if has_control c then Some ''input relativePath contains a control character''
      else components_ok cs)"

definition validateInputRelativePath :: "RunnerLib \<Rightarrow> string \<Rightarrow> string option" where
  "validateInputRelativePath lib v =
     (if v = [] \<or> length v > 512 \<or> \<not> valid_utf8 v \<or> TrimSpace v \<noteq> v \<or> hasPrefix v ''/'' \<or> Clean v \<noteq> v \<or>
         contains_any v [CHR 0x5C, CHR '':'']
      then Some ''input relativePath must be a clean relative path''
      else case components_ok (Split (CHR ''/'') v) of
        Some e \<Rightarrow> Some e
      | None \<Rightarrow>
          (case rl_PathUnescape lib v of
             None \<Rightarrow> Some ''input relativePath contains an invalid percent escape''
           | Some decoded \<Rightarrow>
               if decoded \<noteq> v \<and> (contains_any decoded [CHR ''/'', CHR 0x5C] \<or> hasPrefix decoded ''/'' \<or> Clean decoded \<noteq> decoded)
               then Some ''input relativePath contains an encoded path separator or traversal''
               else if decoded \<noteq> v \<and> list_ex (\<lambda>c. c = ''.'' \<or> c = ''..'') (Split (CHR ''/'') decoded)
               then Some ''input relativePath contains encoded traversal''
               else None))"

section \<open>One file\<close>

definition MaxInputFiles :: nat where "MaxInputFiles = 1024"
definition MaxInputFileBytes :: int where "MaxInputFileBytes = 33554432"
definition MaxInputBytes :: int where "MaxInputBytes = 67108864"

definition safe_filename :: "string \<Rightarrow> bool" where
  "safe_filename s \<longleftrightarrow> s \<noteq> [] \<and> length s \<le> 255 \<and> valid_utf8 s \<and> TrimSpace s = s \<and> s \<noteq> ''.'' \<and> s \<noteq> ''..'' \<and>
     \<not> contains_any s [CHR ''/'', CHR 0x5C, CHR '':''] \<and> last s \<noteq> CHR ''.''"

definition input_path_ok :: "RunnerLib \<Rightarrow> InputFile \<Rightarrow> string option" where
  "input_path_ok lib f =
     (if in_RelativePath f \<noteq> [] then
        (case validateInputRelativePath lib (in_RelativePath f) of
           Some e \<Rightarrow> Some e
         | None \<Rightarrow> if path_Base (in_RelativePath f) \<noteq> in_Name f
             then Some ''input file name must match the final relativePath component'' else None)
      else if in_GroupID f \<noteq> [] then Some ''grouped input files require a relativePath'' else None)"

definition digest_error :: string where
  "digest_error = ''input file digest must be sha256 followed by 64 lowercase hexadecimal characters''"

definition ValidateInputFile :: "RunnerLib \<Rightarrow> InputFile \<Rightarrow> string option" where
  "ValidateInputFile lib f =
     (if \<not> identifierPattern (in_ID f) then Some ''input file ID is not a valid runner identifier''
      else if \<not> safe_filename (in_Name f) then Some ''input file name must be a single safe filename''
      else if in_GroupID f \<noteq> [] \<and> \<not> identifierPattern (in_GroupID f)
        then Some ''input file groupID is not a valid runner identifier''
      else case input_path_ok lib f of
        Some e \<Rightarrow> Some e
      | None \<Rightarrow>
          if has_control (in_Name f) then Some ''input file name contains a control character''
          else if in_MediaType f = [] \<or> length (in_MediaType f) > 127
            then Some ''input file mediaType is required and must be at most 127 bytes''
          else if (case ParseMediaType (in_MediaType f) of None \<Rightarrow> True | Some t \<Rightarrow> t = [])
            then Some ''input file mediaType must be a valid MIME type''
          else if in_Size f < 0 \<or> in_Size f > MaxInputFileBytes
            then Some ''input file size must be between 0 and 33554432 bytes''
          else if length (in_Digest f) \<noteq> 71 \<or> \<not> hasPrefix (in_Digest f) ''sha256:'' then Some digest_error
          else if \<not> hex_decodes (TrimPrefix (in_Digest f) ''sha256:'') \<or> ToLower (in_Digest f) \<noteq> in_Digest f
            then Some digest_error
          else None)"

section \<open>The manifest\<close>

definition input_group :: "InputFile \<Rightarrow> string" where
  "input_group f = (if in_GroupID f \<noteq> [] then ''group-'' @ in_GroupID f else in_ID f)"

definition inputRelativePath :: "InputFile \<Rightarrow> string" where
  "inputRelativePath f = (if in_RelativePath f \<noteq> [] then in_RelativePath f else in_Name f)"

definition destination :: "RunnerLib \<Rightarrow> InputFile \<Rightarrow> string" where
  "destination lib f = rl_ToLower lib (input_group f @ ''/'' @ inputRelativePath f)"

text \<open>The file already using the destination, or one above or below it; \<open>[]\<close> when there is none.\<close>

definition collidingInputDestination :: "string gomap \<Rightarrow> string gomap \<Rightarrow> string \<Rightarrow> string" where
  "collidingInputDestination destinations children d =
     (case mget destinations d of
        Some previous \<Rightarrow> previous
      | None \<Rightarrow>
          (case List.map_filter (mget destinations) (parents d) of
             previous # _ \<Rightarrow> previous
           | [] \<Rightarrow> mgetd [] children d))"

fun note_parents :: "string \<Rightarrow> string list \<Rightarrow> string gomap \<Rightarrow> string gomap" where
  "note_parents i [] children = children"
| "note_parents i (p # ps) children =
     note_parents i ps (if mget children p = None then mput p i children else children)"

fun validate_files :: "RunnerLib \<Rightarrow> string list \<Rightarrow> string gomap \<Rightarrow> string gomap \<Rightarrow> int \<Rightarrow> InputFile list \<Rightarrow> string option" where
  "validate_files lib seen destinations children used [] = None"
| "validate_files lib seen destinations children used (f # fs) =
     (case ValidateInputFile lib f of
        Some e \<Rightarrow> Some e
      | None \<Rightarrow>
          if in_ID f \<in> set seen then Some (''input file ID '' @ rl_Quote lib (in_ID f) @ '' is repeated'')
          else let d = destination lib f; previous = collidingInputDestination destinations children d in
            if previous \<noteq> []
            then Some (''input destination collision: files '' @ rl_Quote lib previous @ '' and '' @ rl_Quote lib (in_ID f) @
                '' target the same relative path or a file/directory prefix'')
            else if used > MaxInputBytes - in_Size f then Some ''input files exceed the 67108864-byte aggregate limit''
            else validate_files lib (in_ID f # seen) (mput d (in_ID f) destinations)
                (note_parents (in_ID f) (parents d) children) (used + in_Size f) fs)"

definition validateInputFiles :: "RunnerLib \<Rightarrow> InputFile list \<Rightarrow> string option" where
  "validateInputFiles lib files =
     (if length files > MaxInputFiles then Some ''input file count exceeds the 1024-file limit''
      else validate_files lib [] [] [] 0 files)"

section \<open>Identity\<close>

definition validateIdentifier :: "string \<Rightarrow> string \<Rightarrow> string option" where
  "validateIdentifier name v =
     (if v = [] \<or> length v > maxIdentifierBytes \<or> \<not> identifierPattern v then Some (name @ '' is invalid'') else None)"

definition validateMutationIdentity :: "string \<Rightarrow> string \<Rightarrow> nat \<Rightarrow> string \<Rightarrow> string option" where
  "validateMutationIdentity taskID attemptID epoch requestID =
     (case validateIdentifier ''taskID'' taskID of
        Some e \<Rightarrow> Some e
      | None \<Rightarrow>
          (case validateIdentifier ''attemptID'' attemptID of
             Some e \<Rightarrow> Some e
           | None \<Rightarrow> if epoch = 0 then Some ''attemptEpoch is required'' else validateIdentifier ''requestID'' requestID))"

definition validClarificationID :: "string \<Rightarrow> bool" where
  "validClarificationID v \<longleftrightarrow> v \<noteq> [] \<and> v = TrimSpace v \<and> length v \<le> maxIdentifierBytes \<and> valid_utf8 v \<and>
     \<not> contains_any v [CHR '' '', CHR 0x09, CHR 0x0D, CHR 0x0A]"

definition validHarnessClarification :: "Clarification \<Rightarrow> bool" where
  "validHarnessClarification c \<longleftrightarrow> validClarificationID (cl_ID c) \<and> valid_utf8 (cl_Text c) \<and> \<not> blank (cl_Text c) \<and>
     length (cl_Text c) \<le> maxMessageBytes"

definition isGitResultArtifactName :: "string \<Rightarrow> bool" where
  "isGitResultArtifactName n \<longleftrightarrow> n \<in> {''git-result.bundle'', ''git-result.json'', ''screenshots.json''}"

definition validateCommitMessage :: "string \<Rightarrow> string option" where
  "validateCommitMessage m =
     (let trimmed = TrimSpace m in
      if trimmed = [] then None
      else if length trimmed > 200 \<or> trimmed \<noteq> m \<and> contains_any m [CHR 0x0A, CHR 0x0D]
        then Some ''commitMessage must be one line of at most 200 bytes''
      else if list_ex (\<lambda>c. c < CHR 0x20 \<or> c = CHR 0x7F) trimmed
        then Some ''commitMessage must not contain control characters''
      else None)"

definition validateArtifactRelativePath :: "string \<Rightarrow> string option" where
  "validateArtifactRelativePath relative =
     (if relative = [] \<or> hasPrefix relative ''/'' then Some ''artifact path must be relative to the task worktree''
      else let clean = Clean relative in
        if clean = ''.'' \<or> clean = ''..'' \<or> hasPrefix clean ''../'' then Some ''artifact path escapes the task worktree''
        else None)"

definition effortPattern :: "string \<Rightarrow> bool" where
  "effortPattern s \<longleftrightarrow> s \<noteq> [] \<and> lower_letter (hd s) \<and> length s \<le> 32 \<and>
     list_all (\<lambda>c. lower_letter c \<or> decimal_digit c \<or> c = CHR ''_'' \<or> c = CHR ''-'') (tl s)"

definition ValidateReasoningEffort :: "RunnerLib \<Rightarrow> string \<Rightarrow> string \<Rightarrow> string option" where
  "ValidateReasoningEffort lib name effort =
     (if effort = [] then None
      else if name \<noteq> ''codex''
        then Some (''reasoningEffort is supported only by Codex; harness '' @ rl_Quote lib name @ '' does not support it'')
      else if \<not> effortPattern effort
        then Some ''reasoningEffort must be a lowercase Codex effort name of at most 32 characters''
      else None)"

section \<open>Clone sources\<close>

text \<open>\<open>filepath.Abs\<close>; the path is the right component.\<close>

definition path_Abs :: "RunnerLib \<Rightarrow> string \<Rightarrow> string + string" where
  "path_Abs lib p =
     (if hasPrefix p ''/'' then Inr (Clean p)
      else case rl_Cwd lib of None \<Rightarrow> Inl ''getwd'' | Some cwd \<Rightarrow> Inr (path_Join [cwd, p]))"

definition isWindowsAbsolutePath :: "string \<Rightarrow> bool" where
  "isWindowsAbsolutePath v \<longleftrightarrow> length v \<ge> 3 \<and>
     (lower_letter (v ! 0) \<or> upper_letter (v ! 0)) \<and> v ! 1 = CHR '':'' \<and>
     (v ! 2 = CHR ''/'' \<or> v ! 2 = CHR 0x5C)"

definition validSSHHost :: "string \<Rightarrow> bool" where
  "validSSHHost h \<longleftrightarrow> h \<noteq> [] \<and> \<not> hasPrefix h ''-'' \<and> \<not> has_control h \<and>
     \<not> contains_any h [CHR '' '', CHR 0x09, CHR 0x0D, CHR 0x0A, CHR ''/'', CHR ''?'', CHR ''#'']"

text \<open>The part after the last \<open>@\<close>, when what is before it names a user.\<close>

definition scp_host :: "string \<Rightarrow> string option" where
  "scp_host userHost =
     (if CHR ''@'' \<notin> set userHost then Some userHost
      else let host = rev (takeWhile (\<lambda>c. c \<noteq> CHR ''@'') (rev userHost));
               user = take (length userHost - length host - 1) userHost in
        if user = [] \<or> host = [] \<or> CHR '':'' \<in> set user then None else Some host)"

definition isSCPRemote :: "string \<Rightarrow> bool" where
  "isSCPRemote v \<longleftrightarrow> \<not> hasPrefix (ToLower v) ''ext::'' \<and>
     (case Cut v (CHR '':'') of (userHost, rest, found) \<Rightarrow>
        found \<and> userHost \<noteq> [] \<and> rest \<noteq> [] \<and> CHR ''/'' \<notin> set userHost \<and> \<not> hasPrefix rest ''//'' \<and>
        \<not> contains_any v [CHR '' '', CHR 0x09, CHR 0x0D, CHR 0x0A, CHR ''?'', CHR ''#''] \<and> \<not> has_control v \<and>
        (case scp_host userHost of None \<Rightarrow> False | Some h \<Rightarrow> validSSHHost h))"

definition validateNetworkRemote :: "parsedURL \<Rightarrow> bool \<Rightarrow> string option" where
  "validateNetworkRemote u ssh =
     (if pu_Opaque u \<noteq> [] \<or> pu_Host u = [] \<or> pu_RawQuery u \<noteq> [] \<or> pu_Fragment u \<noteq> []
        then Some ''fetch remote URL has unsupported options''
      else case (case pu_User u of None \<Rightarrow> None
          | Some (name, password) \<Rightarrow>
              if \<not> ssh \<or> password then Some ''fetch remote URL must not contain embedded credentials''
              else if has_control name then Some ''fetch remote URL contains an invalid SSH user'' else None) of
        Some e \<Rightarrow> Some e
      | None \<Rightarrow>
          if pu_Hostname u = [] \<or> hasPrefix (pu_Hostname u) ''-'' \<or> has_control (pu_Hostname u)
            then Some ''fetch remote URL has an invalid host''
          else if pu_Path u = [] \<or> has_control (pu_Path u) \<or> has_control (pu_RawPath u)
            then Some ''fetch remote URL has an invalid path''
          else None)"

definition localPathFromFileURL :: "RunnerLib \<Rightarrow> parsedURL \<Rightarrow> string + string" where
  "localPathFromFileURL lib u =
     (if pu_User u \<noteq> None \<or> pu_RawQuery u \<noteq> [] \<or> pu_Fragment u \<noteq> [] \<or> pu_Opaque u \<noteq> []
        then Inl ''file fetch remote URL has unsupported credentials or options''
      else if pu_Host u \<noteq> [] \<and> \<not> rl_EqualFold lib (pu_Host u) ''localhost''
        then Inl ''file fetch remote URL must not name a remote host''
      else if pu_Path u = [] \<or> has_control (pu_Path u) \<or> has_control (pu_RawPath u)
        then Inl ''file fetch remote URL has an invalid path''
      else path_Abs lib (pu_Path u))"

definition validateFetchRemoteURL :: "RunnerLib \<Rightarrow> string \<Rightarrow> string + string" where
  "validateFetchRemoteURL lib raw =
     (if raw = [] then Inl ''fetch remote URL is empty''
      else if TrimSpace raw \<noteq> raw then Inl ''fetch remote URL must not have surrounding whitespace''
      else if hasPrefix raw ''-'' then Inl ''fetch remote URL must not begin with an option''
      else if has_control raw then Inl ''fetch remote URL contains a control character''
      else if isWindowsAbsolutePath raw then Inl ''windows fetch remote paths are only valid on Windows''
      else if hasPrefix raw ''/'' then path_Abs lib raw
      else if isSCPRemote raw then Inr raw
      else case rl_URL lib raw of
        None \<Rightarrow> Inl ''fetch remote URL is malformed''
      | Some u \<Rightarrow>
          (let scheme = ToLower (pu_Scheme u) in
           if scheme = [] then path_Abs lib raw
           else if scheme = ''file'' then localPathFromFileURL lib u
           else if scheme = ''https'' \<or> scheme = ''ssh'' then
             (case validateNetworkRemote u (scheme = ''ssh'') of Some e \<Rightarrow> Inl e | None \<Rightarrow> Inr raw)
           else Inl ''fetch remote URL scheme is not allowed''))"

definition fetchRemoteKindOf :: "string \<Rightarrow> string" where
  "fetchRemoteKindOf remote =
     (if isSCPRemote remote \<or> hasPrefix (ToLower remote) ''ssh://'' then ''ssh''
      else if hasPrefix (ToLower remote) ''https://'' then ''https'' else ''file'')"

definition validateCloneSource :: "RunnerLib \<Rightarrow> RepositorySource \<Rightarrow> string + string" where
  "validateCloneSource lib source =
     (case validateFetchRemoteURL lib (TrimSpace (src_RemoteURL source)) of
        Inl e \<Rightarrow> Inl (''clone source URL is not allowed: '' @ e)
      | Inr remote \<Rightarrow>
          if src_Token source \<noteq> [] \<and> fetchRemoteKindOf remote \<noteq> ''https''
            then Inl ''a clone credential is only used with an HTTPS remote''
          else if contains_any (src_Username source) [CHR '':'', CHR 0x0D, CHR 0x0A] \<or> has_control (src_Token source)
            then Inl ''clone credential contains an invalid character''
          else Inr remote)"

section \<open>The start request\<close>

text \<open>\<open>json.Unmarshal\<close> into \<open>map[string]json.RawMessage\<close>: of a repeated member the last counts, and \<open>null\<close>
  leaves the map empty.\<close>

definition envelope_of :: "RunnerLib \<Rightarrow> string \<Rightarrow> (string \<times> jval) list option" where
  "envelope_of lib raw = (case rl_JSON lib raw of Some (JObj members) \<Rightarrow> Some (rev members) | Some JNull \<Rightarrow> Some [] | _ \<Rightarrow> None)"

definition nonEmptyJSON :: "jval option \<Rightarrow> bool" where
  "nonEmptyJSON v \<longleftrightarrow> v \<noteq> None \<and> v \<noteq> Some JNull"

definition approved_input_error :: "RunnerLib \<Rightarrow> string \<Rightarrow> string option" where
  "approved_input_error lib raw =
     (if raw = [] then Some ''approvedInput provenance envelope is required''
      else case envelope_of lib raw of
        None \<Rightarrow> Some ''approvedInput must be a nonempty JSON object''
      | Some envelope \<Rightarrow>
          if envelope = [] then Some ''approvedInput must be a nonempty JSON object''
          else if \<not> nonEmptyJSON (map_of envelope ''provenance'') \<and> \<not> nonEmptyJSON (map_of envelope ''manualAuthorization'') \<and>
            \<not> nonEmptyJSON (map_of envelope ''authorization'')
          then Some ''approvedInput must include provenance or manualAuthorization''
          else None)"

definition equivalentJSON :: "RunnerLib \<Rightarrow> string \<Rightarrow> string \<Rightarrow> bool" where
  "equivalentJSON lib left right =
     (case (rl_JSON lib left, rl_JSON lib right) of
        (Some l, Some r) \<Rightarrow> hex_encode (sha256 (rl_Marshal lib l)) = hex_encode (sha256 (rl_Marshal lib r))
      | _ \<Rightarrow> False)"

definition attempt_shape_error :: "RunnerLib \<Rightarrow> StartRequest \<Rightarrow> string option" where
  "attempt_shape_error lib req =
     (let workspaceID = TrimSpace (sreq_WorkspaceID req); repositoryID = TrimSpace (sreq_RepositoryID req) in
      if workspaceID \<noteq> [] \<and> repositoryID \<noteq> [] then Some ''workspaceID and repositoryID are mutually exclusive''
      else if workspaceID \<noteq> [] then
        (if \<not> identifierPattern workspaceID then Some ''workspaceID is not a valid identifier''
         else if \<not> blank (sreq_BaseCommit req) then Some ''a workspace attempt cannot pin a base commit''
         else if sreq_Repository req \<noteq> None then Some ''a workspace attempt cannot name a repository source''
         else if sreq_ExportGitResult req then Some ''a workspace attempt cannot export a Git result''
         else None)
      else if repositoryID = [] \<or> blank (sreq_BaseCommit req)
        then Some ''repositoryID and baseCommit are required unless workspaceID is set''
      else if \<not> identifierPattern repositoryID then Some ''repositoryID is not a valid identifier''
      else case sreq_Repository req of
        None \<Rightarrow> None
      | Some source \<Rightarrow> (case validateCloneSource lib source of Inl e \<Rightarrow> Some e | Inr _ \<Rightarrow> None))"

fun first_error :: "('a \<Rightarrow> string option) \<Rightarrow> 'a list \<Rightarrow> string option" where
  "first_error f [] = None"
| "first_error f (x # xs) = (case f x of Some e \<Rightarrow> Some e | None \<Rightarrow> first_error f xs)"

fun artifacts_error :: "bool \<Rightarrow> string list \<Rightarrow> ArtifactSpec list \<Rightarrow> string option" where
  "artifacts_error export seen [] = None"
| "artifacts_error export seen (a # as) =
     (case validateIdentifier ''artifact name'' (spec_Name a) of
        Some e \<Rightarrow> Some e
      | None \<Rightarrow>
          if export \<and> isGitResultArtifactName (spec_Name a)
            then Some ''artifact name is reserved for the runner Git result export''
          else if spec_Name a \<in> set seen then Some ''artifact allowlist contains duplicate names''
          else if spec_Path a = [] then Some ''artifact allowlist requires an approved relative path''
          else case validateArtifactRelativePath (spec_Path a) of
            Some e \<Rightarrow> Some e
          | None \<Rightarrow> artifacts_error export (spec_Name a # seen) as)"

definition manifest_error :: "RunnerLib \<Rightarrow> StartRequest \<Rightarrow> string option" where
  "manifest_error lib req =
     (case first_error (validateIdentifier ''resource name'') (sreq_Resources req) of
        Some e \<Rightarrow> Some e
      | None \<Rightarrow>
          (case validateInputFiles lib (sreq_InputFiles req) of
             Some e \<Rightarrow> Some e
           | None \<Rightarrow>
               if \<not> distinct (sreq_Resources req) then Some ''resource reservations contain duplicate names''
               else case artifacts_error (sreq_ExportGitResult req) [] (sreq_Artifacts req) of
                 Some e \<Rightarrow> Some e
               | None \<Rightarrow>
                   (let limits = sreq_Limits req in
                    if lim_MaxDurationSeconds limits < 0 \<or> lim_MaxOutputBytes limits < 0 \<or> lim_MaxTurns limits < 0
                    then Some ''execution limits cannot be negative'' else None)))"

definition validateProtocolVersion :: "string \<Rightarrow> string option" where
  "validateProtocolVersion v = (if v \<noteq> ProtocolVersion then Some ''protocolVersion must be runner/v1'' else None)"

definition session_instructions_error :: "StartRequest \<Rightarrow> string option" where
  "session_instructions_error req =
     (let session = TrimSpace (sreq_SessionID req) in
      if session \<noteq> [] \<and> \<not> identifierPattern session then Some ''sessionID is not a valid identifier''
      else if blank (sreq_Instructions req) then Some ''instructions are required'' else None)"

definition validateStartRequest :: "RunnerLib \<Rightarrow> StartRequest \<Rightarrow> string option" where
  "validateStartRequest lib req =
     (if sreq_EnvironmentID req \<noteq> [] \<and> (\<not> identifierPattern (sreq_EnvironmentID req) \<or> sreq_WorkspaceID req \<noteq> [])
      then Some ''environmentID requires a repository attempt and must be a runner identifier''
      else first_error (\<lambda>check. check ())
        [\<lambda>_. validateProtocolVersion (sreq_ProtocolVersion req),
         \<lambda>_. validateMutationIdentity (sreq_TaskID req) (sreq_AttemptID req) (sreq_AttemptEpoch req) (sreq_RequestID req),
         \<lambda>_. attempt_shape_error lib req,
         \<lambda>_. if sreq_InputFiles req \<noteq> [] \<and> blank (sreq_WorkspaceID req)
              then Some ''inputFiles require a persistent workspace attempt'' else None,
         \<lambda>_. validateCommitMessage (sreq_CommitMessage req),
         \<lambda>_. session_instructions_error req,
         \<lambda>_. approved_input_error lib (sreq_ApprovedInput req),
         \<lambda>_. manifest_error lib req])"

section \<open>The identity a harness runs as\<close>

definition maxHarnessCredentialBytes :: nat where "maxHarnessCredentialBytes = 65536"

definition credentialEnvironmentPattern :: "string \<Rightarrow> bool" where
  "credentialEnvironmentPattern s \<longleftrightarrow> s \<noteq> [] \<and> upper_letter (hd s) \<and>
     list_all (\<lambda>c. upper_letter c \<or> decimal_digit c \<or> c = CHR ''_'') (tl s)"

definition allowedCredentialEnvironment :: "string list" where
  "allowedCredentialEnvironment = [''GH_TOKEN'', ''GITHUB_TOKEN'']"

fun credential_variables :: "RunnerLib \<Rightarrow> string list \<Rightarrow> EnvironmentVariable list \<Rightarrow> string + EnvironmentVariable list" where
  "credential_variables lib seen [] = Inr []"
| "credential_variables lib seen (v # vs) =
     (let name = TrimSpace (var_Name v); about = ''harnessCredential environment '' in
      if \<not> credentialEnvironmentPattern name
        then Inl (about @ ''name '' @ rl_Quote lib (var_Name v) @ '' is not an upper-case variable name'')
      else if name \<notin> set allowedCredentialEnvironment
        then Inl (about @ ''name '' @ rl_Quote lib name @
          '' is not allowed; a credential may be brought only as one of the names the runner lists'')
      else if name \<in> set seen then Inl (about @ ''names '' @ rl_Quote lib name @ '' twice'')
      else if var_Value v = [] then Inl (about @ name @ '' is empty'')
      else if length (var_Value v) > maxHarnessCredentialBytes then Inl (about @ name @ '' is oversized'')
      else if contains_any (var_Value v) [CHR 0x0D, CHR 0x0A, CHR 0x00] then Inl (about @ name @ '' contains invalid whitespace'')
      else case credential_variables lib (name # seen) vs of
        Inl e \<Rightarrow> Inl e | Inr out \<Rightarrow> Inr (\<lparr>var_Name = name, var_Value = var_Value v\<rparr> # out))"

definition credentialEnvironmentOf :: "RunnerLib \<Rightarrow> EnvironmentVariable list \<Rightarrow> string + EnvironmentVariable list" where
  "credentialEnvironmentOf lib vs =
     (if length vs > 8
      then Inl (''harnessCredential environment has '' @ itoa (int (length vs)) @ '' variables, more than 8'')
      else credential_variables lib [] vs)"

definition mcpServerNamePattern :: "string \<Rightarrow> bool" where
  "mcpServerNamePattern s \<longleftrightarrow> s \<noteq> [] \<and> lower_letter (hd s) \<and> length s \<le> 32 \<and>
     list_all (\<lambda>c. lower_letter c \<or> decimal_digit c \<or> c = CHR ''-'') (tl s)"

definition isLoopbackHost :: "RunnerLib \<Rightarrow> string \<Rightarrow> bool" where
  "isLoopbackHost lib host \<longleftrightarrow> rl_EqualFold lib host ''localhost'' \<or> rl_LoopbackIP lib host"

definition validateMCPServerURL :: "RunnerLib \<Rightarrow> string \<Rightarrow> string option" where
  "validateMCPServerURL lib raw =
     (case rl_URL lib raw of
        None \<Rightarrow> Some ''does not parse''
      | Some u \<Rightarrow>
          if pu_Host u = [] \<or> pu_Hostname u = [] then Some ''has no host''
          else if pu_User u \<noteq> None then Some ''carries userinfo''
          else if pu_Fragment u \<noteq> [] \<or> CHR ''#'' \<in> set raw then Some ''carries a fragment''
          else if pu_Scheme u = ''https'' then None
          else if pu_Scheme u = ''http'' then
            (if isLoopbackHost lib (pu_Hostname u) then None else Some ''must be https unless the host is loopback'')
          else Some (''scheme '' @ rl_Quote lib (pu_Scheme u) @ '' is not https''))"

fun credential_servers :: "RunnerLib \<Rightarrow> string list \<Rightarrow> MCPServer list \<Rightarrow> string + MCPServer list" where
  "credential_servers lib seen [] = Inr []"
| "credential_servers lib seen (s # ss) =
     (let name = mcp_Name s; about = ''harnessCredential mcpServers '' in
      if \<not> mcpServerNamePattern name then Inl (about @ ''name '' @ rl_Quote lib name @ '' is not a lower-case server name'')
      else if name = ''railgrid'' then Inl (about @ ''name '' @ rl_Quote lib name @ '' is reserved for the runner'')
      else if name \<in> set seen then Inl (about @ ''names '' @ rl_Quote lib name @ '' twice'')
      else case validateMCPServerURL lib (mcp_URL s) of
        Some e \<Rightarrow> Inl (about @ name @ '' url: '' @ e)
      | None \<Rightarrow>
          if mcp_Token s = [] then Inl (about @ name @ '' token is empty'')
          else if length (mcp_Token s) > 4096 then Inl (about @ name @ '' token is oversized'')
          else if list_ex (\<lambda>r. rune_space r \<or> rune_control r) (runes (mcp_Token s))
            then Inl (about @ name @ '' token contains invalid whitespace'')
          else case credential_servers lib (name # seen) ss of Inl e \<Rightarrow> Inl e | Inr out \<Rightarrow> Inr (s # out))"

definition credentialMCPServersOf :: "RunnerLib \<Rightarrow> MCPServer list \<Rightarrow> string + MCPServer list" where
  "credentialMCPServersOf lib ss =
     (if length ss > 4
      then Inl (''harnessCredential mcpServers has '' @ itoa (int (length ss)) @ '' servers, more than 4'')
      else credential_servers lib [] ss)"

definition harnessCredentialOf :: "RunnerLib \<Rightarrow> HarnessCredential option \<Rightarrow> string + HarnessCredential" where
  "harnessCredentialOf lib value =
     (case value of
        None \<Rightarrow> Inl ''harnessCredential is required''
      | Some v \<Rightarrow>
          let kind = TrimSpace (hcr_Kind v); raw = TrimSpace (hcr_Value v) in
          if kind \<notin> {''claude-oauth'', ''claude-apikey'', ''codex-auth''}
            then Inl (''harnessCredential kind '' @ rl_Quote lib (hcr_Kind v) @ '' is not supported'')
          else if raw = [] then Inl ''harnessCredential value is empty''
          else if length raw > maxHarnessCredentialBytes then Inl ''harnessCredential value is oversized''
          else if CHR 0x00 \<in> set raw then Inl ''harnessCredential value contains a NUL''
          else if kind \<noteq> ''codex-auth'' \<and> contains_any raw [CHR 0x0D, CHR 0x0A]
            then Inl ''harnessCredential value contains invalid whitespace''
          else case credentialEnvironmentOf lib (hcr_Environment v) of
            Inl e \<Rightarrow> Inl e
          | Inr environment \<Rightarrow>
              (case credentialMCPServersOf lib (hcr_MCPServers v) of
                 Inl e \<Rightarrow> Inl e
               | Inr servers \<Rightarrow> Inr \<lparr>hcr_Kind = kind, hcr_Value = raw, hcr_Environment = environment, hcr_MCPServers = servers\<rparr>))"

definition credential_empty :: "HarnessCredential \<Rightarrow> bool" where
  "credential_empty c \<longleftrightarrow> hcr_Kind c = [] \<or> hcr_Value c = []"

end
