(* ===== verification/RunnerAttempts.thy ===== *)
theory RunnerAttempts
  imports RunnerRequests Retention
begin

text \<open>
  What the operations on attempts share (\<open>pkg/runner/runner.go\<close>, \<open>permission.go\<close>, \<open>cleanup.go\<close>): admission, resources,
  the launch of a harness, and the end of an attempt. An operation runs under the runner's mutex, on the runner
  and its last state file, and returns both; what the world answers while it runs is its argument \<open>w\<close>.

  How an attempt's harness is started and how an attempt ends (\<open>startExecutionLocked\<close> and \<open>finishLocked\<close> of
  \<open>pkg/runner/runner.go\<close>, \<open>scheduleCleanupLocked\<close> of \<open>cleanup.go\<close>, the clock of \<open>permission.go\<close>, the launch paths of
  \<open>inputs.go\<close> and \<open>input_staging.go\<close>).
\<close>

section \<open>The world\<close>

text \<open>The clock, which does not move while an operation holds the mutex; of its appends and saves, by their number
  in the operation, which fail and how; the text of a failing system call; and the outcomes of the work on files
  and repositories: preparing the directory of an attempt, moving staged inputs into it, reading them for a launch,
  inspecting it for a resume, the source of an artifact, and a repository's cleanup hook.\<close>

datatype op_error = Refused runner_error "AttemptReceipt option" | Plain string

record artifact_source =
  as_Failure :: "string option"  \<comment> \<open>until the bytes are copied\<close>
  as_Digest :: string
  as_Length :: int
  as_FinalFailure :: "string option"  \<comment> \<open>of the copy\<close>
  as_ID :: string

datatype cleanup_outcome = CleanedUp | NoHook | HookFailed string

record world =
  w_lib :: RunnerLib
  w_now :: time
  w_enc :: "Event \<Rightarrow> string option"
  w_append :: "nat \<Rightarrow> fault"
  w_sync :: "nat \<Rightarrow> string \<Rightarrow> bool"
  w_close :: "nat \<Rightarrow> string \<Rightarrow> bool"
  w_save :: "nat \<Rightarrow> save_fault"
  w_errno :: string
  w_purge :: "string \<Rightarrow> bool \<times> removal"
  w_workdir :: "op_error + string"
  w_staged :: "op_error option"
  w_inputs :: "string option"
  w_inspect :: "string option"
  w_artifact :: artifact_source
  w_artifactEvent :: "string \<Rightarrow> (string \<times> string \<times> string \<times> string) option"
  w_cleanup :: cleanup_outcome

type_synonym live = "Runner \<times> persistedState"

abbreviation attempts :: "Runner \<Rightarrow> attemptRecord gomap" where
  "attempts r \<equiv> ps_Attempts (rn_state r)"

abbreviation phase :: "attemptRecord \<Rightarrow> string" where
  "phase a \<equiv> rc_Phase (ar_Receipt a)"

text \<open>The receipt of an attempt that is there.\<close>

definition receipt_of :: "Runner \<Rightarrow> string \<Rightarrow> AttemptReceipt option" where
  "receipt_of r i = map_option ar_Receipt (mget (attempts r) i)"

definition protocolError :: "string \<Rightarrow> bool \<Rightarrow> string \<Rightarrow> AttemptReceipt option \<Rightarrow> op_error" where
  "protocolError code retryable message receipt =
     Refused \<lparr>re_Code = code, re_Retryable = retryable, re_Message = message, re_Receipt = receipt \<noteq> None\<rparr> receipt"

definition error_text :: "op_error \<Rightarrow> string" where
  "error_text e = (case e of Refused re _ \<Rightarrow> re_Code re @ '': '' @ re_Message re | Plain t \<Rightarrow> t)"

definition journal_text :: "world \<Rightarrow> journal_error \<Rightarrow> string" where
  "journal_text w e = (case e of JournalError t \<Rightarrow> t | _ \<Rightarrow> w_errno w)"

section \<open>Receipts, events and the state file\<close>

definition set_receipt :: "string \<Rightarrow> (AttemptReceipt \<Rightarrow> AttemptReceipt) \<Rightarrow> Runner \<Rightarrow> Runner" where
  "set_receipt i f = set_attempt i (\<lambda>a. a\<lparr>ar_Receipt := f (ar_Receipt a)\<rparr>)"

text \<open>The \<open>k\<close>-th append and the \<open>k\<close>-th save of an operation; an error is its text.\<close>

definition append_event :: "world \<Rightarrow> nat \<Rightarrow> string \<Rightarrow> string \<Rightarrow> string \<Rightarrow> string \<Rightarrow> Runner \<Rightarrow> string option \<times> Runner" where
  "append_event w k i eventType message data r =
     (case appendEventLocked (w_enc w) (w_append w k) (w_now w) r i eventType message data of
        (Inl e, r) \<Rightarrow> (Some (journal_text w e), r) | (Inr _, r) \<Rightarrow> (None, r))"

definition persist :: "world \<Rightarrow> nat \<Rightarrow> live \<Rightarrow> string option \<times> live" where
  "persist w k s =
     (case persistLocked (w_sync w k) (w_close w k) (w_save w k) (fst s) of
        (ok, file, r) \<Rightarrow> (if ok then None else Some (w_errno w), r, case file of None \<Rightarrow> snd s | Some p \<Rightarrow> p))"

definition record_operation :: "string \<Rightarrow> string \<Rightarrow> string \<Rightarrow> Runner \<Rightarrow> Runner" where
  "record_operation key fingerprint i r =
     r\<lparr>rn_state := (rn_state r)\<lparr>ps_Operations :=
       mput key \<lparr>op_Fingerprint = fingerprint, op_AttemptID = i\<rparr> (ps_Operations (rn_state r))\<rparr>\<rparr>"

definition NUL :: char where "NUL = CHR 0x00"

definition operationKey :: "string \<Rightarrow> string \<Rightarrow> string \<Rightarrow> nat \<Rightarrow> string \<Rightarrow> string" where
  "operationKey kind taskID attemptID epoch requestID =
     kind @ NUL # taskID @ NUL # attemptID @ NUL # digits epoch @ NUL # requestID"

definition receiptForAttemptLocked :: "Runner \<Rightarrow> string \<Rightarrow> op_error + AttemptReceipt" where
  "receiptForAttemptLocked r i =
     (case receipt_of r i of None \<Rightarrow> Inl (protocolError ErrorUnavailable False ''attempt not found'' None) | Some rc \<Rightarrow> Inr rc)"

text \<open>What a recorded operation answers to the same key. Of an attempt that is gone a conflict carries the receipt
  of no attempt.\<close>

definition no_receipt :: AttemptReceipt where
  "no_receipt = \<lparr>rc_ProtocolVersion = [], rc_TaskID = [], rc_AttemptID = [], rc_AttemptEpoch = 0, rc_Phase = [],
     rc_SessionID = [], rc_Workdir = [], rc_Cursor = 0, rc_Blocker = [], rc_Clarification = None, rc_Permission = None,
     rc_Resources = [], rc_LastError = None, rc_Artifacts = [], rc_AcceptedAt = 0, rc_UpdatedAt = 0\<rparr>"

definition conflict :: "Runner \<Rightarrow> string \<Rightarrow> op_error" where
  "conflict r i = protocolError ErrorIdempotencyConflict False ''request ID was already used with different content''
     (Some (case receipt_of r i of None \<Rightarrow> no_receipt | Some rc \<Rightarrow> rc))"

section \<open>Admission\<close>

text \<open>An attempt parked on a permission prompt still holds its child; any other parked attempt holds nothing.\<close>

definition active :: "Runner \<Rightarrow> string \<Rightarrow> attemptRecord \<Rightarrow> bool" where
  "active r i a \<longleftrightarrow> \<not> IsTerminal (phase a) \<and> \<not> (phase a = PhaseNeedsInput \<and> mget (rn_permissions r) i = None)"

definition activeCountLocked :: "Runner \<Rightarrow> int" where
  "activeCountLocked r = int (length (filter (\<lambda>(i, a). active r i a) (attempts r)))"

fun first_missing :: "string \<Rightarrow> (string \<Rightarrow> bool) \<Rightarrow> string list \<Rightarrow> op_error option" where
  "first_missing message offered [] = None"
| "first_missing message offered (x # xs) =
     (if offered x then first_missing message offered xs
      else Some (protocolError ErrorUnsupportedCapability False (message @ x) None))"

definition harness_offers :: "HarnessCapability list \<Rightarrow> string" where
  "harness_offers hs = Join (map (\<lambda>h. hc_Name h @ '' '' @ hc_Version h @ '' ('' @
     (if hc_Ready h then ''ready'' else ''not ready'') @ '')'') hs) '', ''"

definition harness_error :: "Capabilities \<Rightarrow> StartRequest \<Rightarrow> op_error option" where
  "harness_error caps req =
     (let want = sreq_RequiredHarness req; version = sreq_RequiredHarnessVersion req in
      if want = [] \<or> list_ex (\<lambda>h. hc_Name h = want \<and> (version = [] \<or> hc_Version h = version) \<and> hc_Ready h) (cap_Harnesses caps)
      then None
      else Some (protocolError ErrorUnsupportedCapability False
        (''required harness '' @ want @ (if version = [] then [] else '' '' @ version) @
         '' is unavailable; this runner offers '' @ harness_offers (cap_Harnesses caps)) None))"

fun first_some :: "'a option list \<Rightarrow> 'a option" where
  "first_some [] = None"
| "first_some (x # xs) = (case x of Some e \<Rightarrow> Some e | None \<Rightarrow> first_some xs)"

definition checkStartRequirementsLocked :: "Runner \<Rightarrow> StartRequest \<Rightarrow> op_error option" where
  "checkStartRequirementsLocked r req =
     (let caps = rn_capabilities r; cfg = rn_cfg r in
      if \<not> cap_Ready caps
        then Some (protocolError ErrorUnavailable True (''runner is not ready: '' @ Join (cap_Reasons caps) ''; '') None)
      else if lim_MaxTurns (sreq_Limits req) > 1
        then Some (protocolError ErrorUnsupportedCapability False ''runner supports at most one harness turn per execution'' None)
      else first_some
        [first_missing ''required capability is unavailable: ''
           (\<lambda>c. c \<in> set (cap_Verification caps) \<or> c \<in> set (cfg_Environment cfg) \<or> c \<in> set (cfg_Toolchains cfg))
           (sreq_RequiredCapabilities req),
         first_missing ''required toolchain is unavailable: '' (\<lambda>c. c \<in> set (cfg_Toolchains cfg)) (sreq_RequiredToolchains req),
         first_missing ''required environment is unavailable: '' (\<lambda>c. c \<in> set (cfg_Environment cfg)) (sreq_RequiredEnvironment req),
         harness_error caps req,
         first_missing ''resource is not configured: '' (\<lambda>c. mget (cfg_Resources cfg) c \<noteq> None) (sreq_Resources req),
         if activeCountLocked r \<ge> cfg_MaximumCapacity cfg
         then Some (protocolError ErrorBusy True ''runner execution capacity is full'' None) else None])"

definition highest_epoch :: "Runner \<Rightarrow> string \<Rightarrow> string \<Rightarrow> nat" where
  "highest_epoch r taskID attemptID =
     fold (\<lambda>(i, a) highest. if rc_TaskID (ar_Receipt a) \<noteq> taskID \<or> i = attemptID then highest
        else if rc_AttemptEpoch (ar_Receipt a) > highest then rc_AttemptEpoch (ar_Receipt a) else highest) (attempts r) 0"

definition checkEpochLocked :: "Runner \<Rightarrow> string \<Rightarrow> string \<Rightarrow> nat \<Rightarrow> op_error option" where
  "checkEpochLocked r taskID attemptID epoch =
     (let highest = highest_epoch r taskID attemptID in
      if highest \<noteq> 0 \<and> epoch \<le> highest then
        (case find (\<lambda>(_, a). rc_TaskID (ar_Receipt a) = taskID \<and> rc_AttemptEpoch (ar_Receipt a) = highest) (attempts r) of
           None \<Rightarrow> None
         | Some (_, a) \<Rightarrow> Some (protocolError ErrorStaleAttempt False ''attempt epoch is obsolete'' (Some (ar_Receipt a))))
      else None)"

definition attemptForMutationLocked :: "Runner \<Rightarrow> string \<Rightarrow> string \<Rightarrow> nat \<Rightarrow> op_error + attemptRecord" where
  "attemptForMutationLocked r taskID attemptID epoch =
     (case mget (attempts r) attemptID of
        None \<Rightarrow> Inl (protocolError ErrorUnavailable False ''attempt not found'' None)
      | Some a \<Rightarrow>
          if rc_TaskID (ar_Receipt a) \<noteq> taskID \<or> rc_AttemptEpoch (ar_Receipt a) \<noteq> epoch
          then Inl (protocolError ErrorStaleAttempt False ''attempt identity or epoch is obsolete'' (Some (ar_Receipt a)))
          else Inr a)"

section \<open>Resources\<close>

definition reservationKey :: "string \<Rightarrow> string \<Rightarrow> string" where
  "reservationKey name i = name @ ''/'' @ i"

text \<open>The name in a reservation's key: what is before its last slash.\<close>

definition reserved_name :: "string \<Rightarrow> string" where
  "reserved_name key = rev (tl (dropWhile (\<lambda>c. c \<noteq> CHR ''/'') (rev key)))"

definition used_by_others :: "Runner \<Rightarrow> string \<Rightarrow> string \<Rightarrow> int" where
  "used_by_others r i name =
     int (length (filter (\<lambda>(key, owner). owner \<noteq> i \<and> CHR ''/'' \<in> set key \<and> reserved_name key \<noteq> [] \<and> reserved_name key = name)
       (ps_Reservations (rn_state r))))"

fun resource_error :: "Runner \<Rightarrow> string \<Rightarrow> string list \<Rightarrow> op_error option" where
  "resource_error r i [] = None"
| "resource_error r i (name # names) =
     (case mget (cfg_Resources (rn_cfg r)) name of
        None \<Rightarrow> Some (protocolError ErrorUnsupportedCapability False (''resource is not configured: '' @ name) None)
      | Some capacity \<Rightarrow>
          if used_by_others r i name \<ge> capacity
          then Some (protocolError ErrorBusy True (''resource is already reserved: '' @ name) None)
          else resource_error r i names)"

definition put_reservations :: "string \<Rightarrow> string list \<Rightarrow> Runner \<Rightarrow> Runner" where
  "put_reservations i names r =
     r\<lparr>rn_state := (rn_state r)\<lparr>ps_Reservations :=
       fold (\<lambda>name. mput (reservationKey name i) i) names (ps_Reservations (rn_state r))\<rparr>\<rparr>"

definition reserveResourcesLocked :: "string \<Rightarrow> string list \<Rightarrow> Runner \<Rightarrow> op_error option \<times> Runner" where
  "reserveResourcesLocked i names r =
     (case resource_error r i names of Some e \<Rightarrow> (Some e, r) | None \<Rightarrow> (None, put_reservations i names r))"

definition releaseResourcesLocked :: "string \<Rightarrow> string list \<Rightarrow> Runner \<Rightarrow> Runner" where
  "releaseResourcesLocked i names r =
     r\<lparr>rn_state := (rn_state r)\<lparr>ps_Reservations :=
       fold (\<lambda>name. mdel (reservationKey name i)) names (ps_Reservations (rn_state r))\<rparr>\<rparr>"

section \<open>The work clock\<close>

definition newWorkClock :: "int \<Rightarrow> time \<Rightarrow> workClock option" where
  "newWorkClock limit now =
     (if limit \<le> 0 then None
      else Some \<lparr>wc_remaining = limit, wc_startedAt = now, wc_running = True, wc_stopped = False, wc_ranOut = False\<rparr>)"

definition clock_expired :: "workClock option \<Rightarrow> bool" where
  "clock_expired c = (case c of None \<Rightarrow> False | Some c \<Rightarrow> wc_ranOut c)"

definition clock_pause :: "time \<Rightarrow> workClock option \<Rightarrow> workClock option" where
  "clock_pause now = map_option (\<lambda>c. if wc_stopped c \<or> \<not> wc_running c then c
     else c\<lparr>wc_running := False, wc_remaining := max 0 (wc_remaining c - Sub now (wc_startedAt c))\<rparr>)"

definition clock_unpause :: "time \<Rightarrow> workClock option \<Rightarrow> workClock option" where
  "clock_unpause now = map_option (\<lambda>c. if wc_stopped c \<or> wc_running c then c
     else c\<lparr>wc_running := True, wc_startedAt := now\<rparr>)"

text \<open>The timer fires when what is left has passed since the clock was last started.\<close>

definition clock_due :: "time \<Rightarrow> workClock option \<Rightarrow> bool" where
  "clock_due now c = (case c of None \<Rightarrow> False
     | Some c \<Rightarrow> wc_running c \<and> \<not> wc_stopped c \<and> Sub now (wc_startedAt c) \<ge> wc_remaining c)"

definition clock_fire :: "workClock option \<Rightarrow> workClock option" where
  "clock_fire = map_option (\<lambda>c. c\<lparr>wc_ranOut := True\<rparr>)"

text \<open>The timer of an execution fires: its context is cancelled.\<close>

definition expire :: "string \<Rightarrow> Runner \<Rightarrow> Runner" where
  "expire i r =
     (case mget (rn_permissions r) i of None \<Rightarrow> r
      | Some g \<Rightarrow> r\<lparr>rn_permissions := mput i (g\<lparr>pg_clock := clock_fire (pg_clock g)\<rparr>) (rn_permissions r),
            rn_running := (if mget (rn_running r) i = None then rn_running r else mput i True (rn_running r))\<rparr>)"

section \<open>Starting a harness\<close>

record launch =
  la_AttemptID :: string
  la_Workdir :: string
  la_SessionID :: string
  la_Instructions :: string
  la_Model :: string
  la_ReasoningEffort :: string
  la_Credential :: HarnessCredential
  la_InputFiles :: "(InputFile \<times> string) list"
  la_Permissions :: bool

definition inputDirectoryComponents :: "InputFile \<Rightarrow> string list" where
  "inputDirectoryComponents f =
     input_group f # (let parent = path_Dir (inputRelativePath f) in if parent = ''.'' then [] else Split (CHR ''/'') parent)"

definition materializedInputPath :: "string \<Rightarrow> string \<Rightarrow> InputFile \<Rightarrow> string" where
  "materializedInputPath workdir i f =
     path_Join (path_Join [workdir, ''.railgrid'', ''inputs'', i] # inputDirectoryComponents f @ [path_Base (inputRelativePath f)])"

definition launchInputFiles :: "world \<Rightarrow> string \<Rightarrow> string \<Rightarrow> InputFile list \<Rightarrow> string + (InputFile \<times> string) list" where
  "launchInputFiles w workdir i files =
     (if files = [] then Inr []
      else case validateInputFiles (w_lib w) files of
        Some e \<Rightarrow> Inl e
      | None \<Rightarrow> (case w_inputs w of Some e \<Rightarrow> Inl e | None \<Rightarrow> Inr (map (\<lambda>f. (f, materializedInputPath workdir i f)) files)))"

definition screenshotDirectory :: string where "screenshotDirectory = ''artifacts/screenshots''"

definition line_break :: string where "line_break = [CHR 0x0A]"

definition screenshotInstructions :: "string \<Rightarrow> string" where
  "screenshotInstructions workdir =
     line_break @ line_break @ ''Screenshot output directory (absolute): '' @ path_Join [workdir, screenshotDirectory] @
     ''. This is rooted at the Git checkout, regardless of your current working directory; never put screenshots inside a provider/module directory.'' @
     line_break @ ''Screenshot attachments: save PNG/JPEG images directly in '' @ screenshotDirectory @
     ''/ using simple filenames (letters, digits, dots, underscores, hyphens). Maximum 8 images, 2 MiB each, 8 MiB total. Reference them in your final response as ![description]('' @
     screenshotDirectory @
     ''/name.png). New evidence files are exported separately from Git. Do not commit new screenshots. Never capture credentials or include them in your report.''"

definition credential_error :: string where
  "credential_error = ''attempt has no harness credential in this process; resume it with one''"

text \<open>The session is the attempt's own, or the one the start asked to continue.\<close>

definition launch_of :: "attemptRecord \<Rightarrow> string \<Rightarrow> string \<Rightarrow> string \<Rightarrow> HarnessCredential \<Rightarrow> (InputFile \<times> string) list \<Rightarrow> launch" where
  "launch_of a i instructions model credential inputs =
     (let rc = ar_Receipt a; st = ar_Start a in
      \<lparr>la_AttemptID = i, la_Workdir = rc_Workdir rc,
        la_SessionID = (if rc_SessionID rc = [] then sreq_SessionID st else rc_SessionID rc),
        la_Instructions = instructions @ (if sreq_ExportGitResult st then screenshotInstructions (rc_Workdir rc) else []),
        la_Model = model, la_ReasoningEffort = sreq_ReasoningEffort st, la_Credential = credential, la_InputFiles = inputs,
        la_Permissions = sreq_AskPermission st\<rparr>)"

definition begin_execution :: "world \<Rightarrow> string \<Rightarrow> attemptRecord \<Rightarrow> Runner \<Rightarrow> Runner" where
  "begin_execution w i a r =
     set_receipt i (\<lambda>rc. rc\<lparr>rc_Phase := PhaseStarting, rc_Blocker := [], rc_UpdatedAt := w_now w\<rparr>)
       (r\<lparr>rn_running := mput i False (rn_running r),
          rn_permissions := mput i \<lparr>pg_requestID = [], pg_answer = False,
            pg_clock = newWorkClock (i64 (lim_MaxDurationSeconds (sreq_Limits (ar_Start a)) * Second)) (w_now w)\<rparr> (rn_permissions r)\<rparr>)"

definition undo_execution :: "string \<Rightarrow> attemptRecord \<Rightarrow> Runner \<Rightarrow> Runner" where
  "undo_execution i a r =
     set_receipt i (\<lambda>rc. rc\<lparr>rc_Phase := phase a, rc_Blocker := rc_Blocker (ar_Receipt a), rc_UpdatedAt := rc_UpdatedAt (ar_Receipt a)\<rparr>)
       (r\<lparr>rn_running := mdel i (rn_running r), rn_permissions := mdel i (rn_permissions r)\<rparr>)"

text \<open>The error, or the launch handed to the adapter; neither when the attempt runs already. The text a warm
  environment adds to the instructions is left out.\<close>

definition startExecutionLocked :: "world \<Rightarrow> nat \<Rightarrow> string \<Rightarrow> string \<Rightarrow> string \<Rightarrow> live \<Rightarrow> (string + launch option) \<times> live" where
  "startExecutionLocked w k i instructions model s =
     (let r = fst s in
      if mget (rn_running r) i \<noteq> None then (Inr None, s)
      else case mget (attempts r) i of
        None \<Rightarrow> (Inl ''attempt not found'', s)
      | Some a \<Rightarrow>
          (case mget (rn_credentials r) i of
             None \<Rightarrow> (Inl credential_error, s)
           | Some credential \<Rightarrow>
               if credential_empty credential then (Inl credential_error, s)
               else case launchInputFiles w (rc_Workdir (ar_Receipt a)) i (sreq_InputFiles (ar_Start a)) of
                 Inl e \<Rightarrow> (Inl e, s)
               | Inr inputs \<Rightarrow>
                   (case persist w k (begin_execution w i a r, snd s) of
                      (Some e, (r, p)) \<Rightarrow> (Inl e, (undo_execution i a r, p))
                    | (None, s) \<Rightarrow> (Inr (Some (launch_of a i instructions model credential inputs)), s))))"

section \<open>Cleaning up\<close>

text \<open>An attempt whose warm environment keeps the directory has no cleanup of its own; what becomes of the
  environment is not modelled.\<close>

definition owns_environment :: "Runner \<Rightarrow> string \<Rightarrow> attemptRecord \<Rightarrow> bool" where
  "owns_environment r i a \<longleftrightarrow> IsTerminal (phase a) \<and> mget (ps_Environments (rn_state r)) (sreq_EnvironmentID (ar_Start a)) = Some i"

definition cleanup_due :: "attemptRecord \<Rightarrow> bool" where
  "cleanup_due a \<longleftrightarrow> ar_CleanupEligible a \<and> IsTerminal (phase a) \<and> \<not> ar_CleanupDone a \<and> \<not> ar_cleanupRunning a \<and>
     rc_Workdir (ar_Receipt a) \<noteq> [] \<and> ar_CleanupAttempts a < 3"

definition scheduleCleanupLocked :: "world \<Rightarrow> nat \<Rightarrow> string \<Rightarrow> live \<Rightarrow> live" where
  "scheduleCleanupLocked w k i s =
     (case mget (attempts (fst s)) i of
        None \<Rightarrow> s
      | Some a \<Rightarrow>
          if ar_CleanupDelegated a \<or> owns_environment (fst s) i a \<or> \<not> cleanup_due a then s
          else case persist w k (set_attempt i (\<lambda>a. a\<lparr>ar_cleanupRunning := True, ar_CleanupAttempts := ar_CleanupAttempts a + 1\<rparr>) (fst s), snd s) of
            (Some _, (r, p)) \<Rightarrow>
              (set_attempt i (\<lambda>a. a\<lparr>ar_cleanupRunning := False, ar_CleanupAttempts := ar_CleanupAttempts a - 1\<rparr>) r, p)
          | (None, s) \<Rightarrow> s)"

text \<open>The end of the hook.\<close>

definition finish_cleanup :: "world \<Rightarrow> string \<Rightarrow> live \<Rightarrow> live" where
  "finish_cleanup w i s =
     (case mget (attempts (fst s)) i of
        None \<Rightarrow> s
      | Some _ \<Rightarrow>
          snd (persist w 0 (set_attempt i (\<lambda>a. a\<lparr>ar_cleanupRunning := False,
              ar_CleanupDone := (case w_cleanup w of HookFailed _ \<Rightarrow> False | _ \<Rightarrow> True),
              ar_CleanupError := (case w_cleanup w of HookFailed e \<Rightarrow> e | _ \<Rightarrow> [])\<rparr>) (fst s), snd s)))"

section \<open>Ending an attempt\<close>

definition final_event :: "string \<Rightarrow> string" where
  "final_event p =
     (if p = PhaseCompleted then EventCompleted else if p = PhaseFailed then EventFailed
      else if p = PhaseCancelled then EventCancelled else if p = PhaseNeedsInput then EventNeedsInput else EventProgress)"

definition internal_error :: "string \<Rightarrow> runner_error" where
  "internal_error message = \<lparr>re_Code = ErrorUnavailable, re_Retryable = False, re_Message = message, re_Receipt = False\<rparr>"

definition end_receipt :: "world \<Rightarrow> string \<Rightarrow> string \<Rightarrow> string option \<Rightarrow> AttemptReceipt \<Rightarrow> AttemptReceipt" where
  "end_receipt w p blocker lastErr rc =
     rc\<lparr>rc_Phase := p, rc_Blocker := blocker,
       rc_Clarification := (if p \<noteq> PhaseNeedsInput then None else rc_Clarification rc),
       rc_Permission := None, rc_UpdatedAt := w_now w,
       rc_LastError := (case (lastErr, rc_LastError rc) of (Some e, None) \<Rightarrow> Some (internal_error e) | (_, le) \<Rightarrow> le)\<rparr>"

text \<open>The last event of the phase; one that cannot be recorded is in the receipt instead, and nothing completes
  without it.\<close>

definition record_end :: "world \<Rightarrow> nat \<Rightarrow> string \<Rightarrow> string \<Rightarrow> string \<Rightarrow> Runner \<Rightarrow> Runner" where
  "record_end w k i p blocker r =
     (if hot r i \<noteq> [] \<and> ev_Type (last (hot r i)) = final_event p \<and> p = PhaseNeedsInput then r
      else case append_event w k i (final_event p) blocker [] r of
        (None, r) \<Rightarrow> r
      | (Some e, r) \<Rightarrow>
          set_receipt i (\<lambda>rc. rc\<lparr>rc_Blocker := boundedMessage (blocker @ '' (event journal unavailable: '' @ e @ '')''),
            rc_LastError := Some (internal_error (''record final event: '' @ e)),
            rc_Phase := (if p = PhaseCompleted then PhaseFailed else rc_Phase rc)\<rparr>) r)"

definition drop_credential :: "string \<Rightarrow> Runner \<Rightarrow> Runner" where
  "drop_credential i r = r\<lparr>rn_credentials := mdel i (rn_credentials r)\<rparr>"

definition finishLocked :: "world \<Rightarrow> nat \<Rightarrow> string \<Rightarrow> string \<Rightarrow> string \<Rightarrow> string option \<Rightarrow> live \<Rightarrow> live" where
  "finishLocked w k i p blocker lastErr s =
     (case mget (attempts (fst s)) i of
        None \<Rightarrow> s
      | Some a \<Rightarrow>
          if IsTerminal (phase a) \<and> p \<noteq> PhaseCancelling then s
          else let r = record_end w k i p blocker (set_receipt i (end_receipt w p blocker lastErr) (fst s));
                   r = releaseResourcesLocked i (ar_Resources a) r;
                   r = (if IsTerminal p \<or> p = PhaseNeedsInput then drop_credential i r else r)
            in scheduleCleanupLocked w (k + 1) i (snd (persist w k (r, snd s))))"

text \<open>What the end of an execution leaves of it.\<close>

definition forget_execution :: "string \<Rightarrow> Runner \<Rightarrow> Runner" where
  "forget_execution i r = r\<lparr>rn_running := mdel i (rn_running r), rn_shutdown := filter (\<lambda>j. j \<noteq> i) (rn_shutdown r)\<rparr>"

end
