(* ===== verification/RunnerControl.thy ===== *)
theory RunnerControl
  imports RunnerAttempts
begin

text \<open>
  Permission prompts (\<open>pkg/runner/permission.go\<close>, \<open>resumePermissionLocked\<close> of \<open>runner.go\<close>): a harness that wants to use
  a tool parks its attempt with its child alive, and a resume that names the request hands the verdict to the call
  that still waits.

  What a coordinator asks of the runner (\<open>pkg/runner/runner.go\<close>, \<open>cancel_unseen.go\<close>): accept an attempt, look at it,
  cancel it, resume it. Every mutation has a request ID; its key and a digest of its content are kept, so that the
  same request answers the same attempt and a changed one is refused. Starts that ask for a warm environment are
  outside the model.
\<close>

section \<open>The gate\<close>

definition gate_open :: "string \<Rightarrow> permissionGate \<Rightarrow> permissionGate" where
  "gate_open requestID g = g\<lparr>pg_requestID := requestID, pg_answer := True\<rparr>"

definition gate_close :: "permissionGate \<Rightarrow> permissionGate" where
  "gate_close g = g\<lparr>pg_requestID := [], pg_answer := False\<rparr>"

definition gate_clock :: "(workClock option \<Rightarrow> workClock option) \<Rightarrow> permissionGate \<Rightarrow> permissionGate" where
  "gate_clock f g = g\<lparr>pg_clock := f (pg_clock g)\<rparr>"

definition set_gate :: "string \<Rightarrow> permissionGate \<Rightarrow> Runner \<Rightarrow> Runner" where
  "set_gate i g r = r\<lparr>rn_permissions := mput i g (rn_permissions r)\<rparr>"

definition deliver :: "string \<Rightarrow> string \<Rightarrow> PermissionVerdict \<Rightarrow> permissionGate \<Rightarrow> Runner \<Rightarrow> Runner option" where
  "deliver i requestID verdict g r =
     (if \<not> pg_answer g \<or> pg_requestID g = [] \<or> pg_requestID g \<noteq> requestID then None
      else Some (set_gate i (gate_close g) (r\<lparr>rn_answers := rn_answers r @ [(i, requestID, verdict)]\<rparr>)))"

section \<open>Asking\<close>

definition MaxPermissionInputBytes :: nat where "MaxPermissionInputBytes = 4096"

text \<open>Cut at a byte that starts a rune; \<open>rune_start\<close> is \<open>utf8.RuneStart\<close>.\<close>

definition rune_start :: "char \<Rightarrow> bool" where
  "rune_start c \<longleftrightarrow> \<not> cont c"

fun cut_back :: "string \<Rightarrow> nat \<Rightarrow> nat" where
  "cut_back s 0 = 0"
| "cut_back s (Suc n) = (if rune_start (s ! Suc n) then Suc n else cut_back s n)"

definition boundedPermissionRequest :: "PermissionRequest \<Rightarrow> PermissionRequest" where
  "boundedPermissionRequest q =
     \<lparr>pr_ID = TrimSpace (pr_ID q), pr_Tool = TrimSpace (pr_Tool q),
       pr_Input = (if length (pr_Input q) > MaxPermissionInputBytes
         then take (cut_back (pr_Input q) MaxPermissionInputBytes) (pr_Input q) else pr_Input q)\<rparr>"

definition validPermissionRequest :: "PermissionRequest \<Rightarrow> bool" where
  "validPermissionRequest q \<longleftrightarrow> validClarificationID (pr_ID q) \<and> pr_Tool q \<noteq> [] \<and> length (pr_Tool q) \<le> maxIdentifierBytes \<and>
     valid_utf8 (pr_Tool q) \<and> valid_utf8 (pr_Input q)"

definition permissionBlocker :: "PermissionRequest \<Rightarrow> string" where
  "permissionBlocker q = ''the harness is asking permission to use '' @ pr_Tool q"

definition park_receipt :: "world \<Rightarrow> PermissionRequest \<Rightarrow> AttemptReceipt \<Rightarrow> AttemptReceipt" where
  "park_receipt w q rc =
     rc\<lparr>rc_Phase := PhaseNeedsInput, rc_Blocker := permissionBlocker q, rc_Clarification := None, rc_Permission := Some q,
       rc_UpdatedAt := w_now w\<rparr>"

text \<open>The asker waits at the gate, or has its error.\<close>

definition parkOnPermission :: "world \<Rightarrow> string \<Rightarrow> PermissionRequest \<Rightarrow> live \<Rightarrow> string option \<times> live" where
  "parkOnPermission w i q s =
     (let r = fst s in
      case mget (attempts r) i of
        None \<Rightarrow> (Some ''attempt no longer exists'', s)
      | Some a \<Rightarrow>
          if IsTerminal (phase a) \<or> phase a = PhaseCancelling
          then (Some ''attempt is no longer accepting a permission request'', s)
          else case mget (rn_permissions r) i of
            None \<Rightarrow> (Some ''attempt has no permission gate in this process'', s)
          | Some g \<Rightarrow>
              let waiting = gate_clock (clock_pause (w_now w)) (gate_open (pr_ID q) g);
                  given_up = gate_clock (clock_unpause (w_now w)) (gate_close waiting);
                  r = set_receipt i (park_receipt w q) (set_gate i waiting r)
              in (case append_event w 0 i EventNeedsInput (permissionBlocker q) [] r of
                    (Some e, r) \<Rightarrow> (Some e, (set_gate i given_up r, snd s))
                  | (None, r) \<Rightarrow>
                      (case persist w 0 (r, snd s) of
                         (Some e, (r, p)) \<Rightarrow> (Some e, (set_gate i given_up r, p))
                       | (None, s) \<Rightarrow> (None, s))))"

definition AskPermission :: "world \<Rightarrow> string \<Rightarrow> PermissionRequest \<Rightarrow> live \<Rightarrow> string option \<times> live" where
  "AskPermission w i q s =
     (let q = boundedPermissionRequest q in
      if \<not> validPermissionRequest q then (Some ''harness permission request is malformed'', s)
      else parkOnPermission w i q s)"

text \<open>The asker gives up, because its context ended.\<close>

definition abandonPermission :: "world \<Rightarrow> string \<Rightarrow> string \<Rightarrow> live \<Rightarrow> live" where
  "abandonPermission w i requestID s =
     (let r = fst s;
          r = (case mget (rn_permissions r) i of None \<Rightarrow> r
               | Some g \<Rightarrow> set_gate i (gate_clock (clock_unpause (w_now w)) (gate_close g)) r)
      in case receipt_of r i of
           None \<Rightarrow> (r, snd s)
         | Some rc \<Rightarrow>
             (case rc_Permission rc of
                None \<Rightarrow> (r, snd s)
              | Some q \<Rightarrow> if pr_ID q \<noteq> requestID then (r, snd s)
                  else snd (persist w 0 (set_receipt i (\<lambda>rc. rc\<lparr>rc_Permission := None, rc_UpdatedAt := w_now w\<rparr>) r, snd s))))"

section \<open>Answering\<close>

definition not_waiting :: string where
  "not_waiting = ''the harness is no longer waiting on that permission request''"

definition answer_receipt :: "world \<Rightarrow> AttemptReceipt \<Rightarrow> AttemptReceipt" where
  "answer_receipt w rc =
     rc\<lparr>rc_Permission := None, rc_Phase := PhaseRunning, rc_Blocker := [], rc_LastError := None, rc_UpdatedAt := w_now w\<rparr>"

definition answerPermissionLocked :: "world \<Rightarrow> string \<Rightarrow> string \<Rightarrow> PermissionVerdict \<Rightarrow> live \<Rightarrow> string option \<times> live" where
  "answerPermissionLocked w i requestID verdict s =
     (let r = fst s in
      case mget (rn_permissions r) i of
        None \<Rightarrow> (Some not_waiting, s)
      | Some g \<Rightarrow>
          (case deliver i requestID verdict g r of
             None \<Rightarrow> (Some not_waiting, s)
           | Some r \<Rightarrow>
               let r = set_receipt i (answer_receipt w) (set_gate i (gate_clock (clock_unpause (w_now w)) (gate_close g)) r);
                   message = (if pv_Allow verdict then ''permission granted'' else ''permission denied'')
               in (case append_event w 0 i EventProgress message [] r of
                     (Some e, r) \<Rightarrow> (Some e, (r, snd s))
                   | (None, r) \<Rightarrow> persist w 0 (r, snd s))))"

definition denial :: string where
  "denial = ''A human denied this tool call. Do not retry it; explain what you would have done, or take another route.''"

definition verdict_of :: "ResumeRequest \<Rightarrow> PermissionVerdict" where
  "verdict_of req =
     (let allow = (rreq_PermissionDecision req = PermissionAllow); message = boundedMessage (TrimSpace (rreq_Resolution req))
      in \<lparr>pv_Allow = allow, pv_Message = (if \<not> allow \<and> message = [] then denial else message)\<rparr>)"

text \<open>What is wrong with a resume of an attempt parked on the request, or naming one.\<close>

definition permission_refusal :: "AttemptReceipt \<Rightarrow> ResumeRequest \<Rightarrow> op_error option" where
  "permission_refusal rc req =
     (case rc_Permission rc of
        None \<Rightarrow> Some (protocolError ErrorCheckpointUnavailable False ''attempt has no outstanding permission request'' (Some rc))
      | Some outstanding \<Rightarrow>
          if rreq_PermissionID req = []
            then Some (protocolError ErrorCheckpointUnavailable False ''resume must answer the outstanding permission request'' (Some rc))
          else if \<not> validClarificationID (rreq_PermissionID req)
            then Some (protocolError ErrorInvalidRequest False ''permissionID is invalid'' (Some rc))
          else if rreq_PermissionID req \<noteq> pr_ID outstanding
            then Some (protocolError ErrorCheckpointUnavailable False ''resume permission does not match the outstanding request'' (Some rc))
          else if rreq_ClarificationID req \<noteq> []
            then Some (protocolError ErrorCheckpointUnavailable False ''attempt has no outstanding clarification'' (Some rc))
          else if rreq_PermissionDecision req \<notin> {PermissionAllow, PermissionDeny}
            then Some (protocolError ErrorInvalidRequest False ''permissionDecision must be allow or deny'' (Some rc))
          else None)"

text \<open>\<open>None\<close> when the resume is not about a permission.\<close>

definition resumePermissionLocked :: "world \<Rightarrow> attemptRecord \<Rightarrow> ResumeRequest \<Rightarrow> string \<Rightarrow> string \<Rightarrow> live \<Rightarrow>
    (op_error + AttemptReceipt) option \<times> live" where
  "resumePermissionLocked w a req opKey fingerprint s =
     (let rc = ar_Receipt a; i = rreq_AttemptID req in
      if rreq_PermissionID req = [] \<and> rc_Permission rc = None then
        (if rreq_PermissionDecision req \<noteq> []
         then (Some (Inl (protocolError ErrorInvalidRequest False ''permissionDecision requires permissionID'' (Some rc))), s)
         else (None, s))
      else case permission_refusal rc req of
        Some e \<Rightarrow> (Some (Inl e), s)
      | None \<Rightarrow>
          (case answerPermissionLocked w i (rreq_PermissionID req) (verdict_of req) s of
             (Some e, s) \<Rightarrow> (Some (Inl (protocolError ErrorCheckpointUnavailable False e (receipt_of (fst s) i))), s)
           | (None, (r, p)) \<Rightarrow>
               (case persist w 1 (record_operation opKey fingerprint i r, p) of
                  (Some e, s) \<Rightarrow> (Some (Inl (protocolError ErrorUnavailable True e (receipt_of (fst s) i))), s)
                | (None, s) \<Rightarrow> (Some (receiptForAttemptLocked (fst s) i), s))))"

section \<open>Digests\<close>

definition fingerprint :: "string \<Rightarrow> string" where
  "fingerprint marshalled = hex_encode (sha256 marshalled)"

text \<open>The clone source and the credential are dispatch data, and part of nothing durable.\<close>

definition stripped :: "StartRequest \<Rightarrow> StartRequest" where
  "stripped req = req\<lparr>sreq_Repository := None, sreq_HarnessCredential := None\<rparr>"

section \<open>Start\<close>

definition effort_error :: "world \<Rightarrow> Runner \<Rightarrow> StartRequest \<Rightarrow> string option" where
  "effort_error w r req =
     (if sreq_ReasoningEffort req = [] then None
      else ValidateReasoningEffort (w_lib w)
        (if sreq_RequiredHarness req \<noteq> [] then sreq_RequiredHarness req
         else case cap_Harnesses (rn_capabilities r) of [h] \<Rightarrow> hc_Name h | _ \<Rightarrow> [])
        (sreq_ReasoningEffort req))"

text \<open>The checks that need no lock, and the credential.\<close>

definition start_credential :: "world \<Rightarrow> Runner \<Rightarrow> StartRequest \<Rightarrow> op_error + HarnessCredential" where
  "start_credential w r req =
     (case validateProtocolVersion (sreq_ProtocolVersion req) of
        Some e \<Rightarrow> Inl (protocolError ErrorUnsupportedVersion False e None)
      | None \<Rightarrow>
          (case first_some [effort_error w r req, validateStartRequest (w_lib w) req] of
             Some e \<Rightarrow> Inl (protocolError ErrorInvalidRequest False e None)
           | None \<Rightarrow>
               (case harnessCredentialOf (w_lib w) (sreq_HarnessCredential req) of
                  Inl e \<Rightarrow> Inl (protocolError ErrorInvalidRequest False e None)
                | Inr credential \<Rightarrow> Inr credential)))"

definition start_key :: "StartRequest \<Rightarrow> string" where
  "start_key req = operationKey ''start'' (sreq_TaskID req) (sreq_AttemptID req) (sreq_AttemptEpoch req) (sreq_RequestID req)"

definition start_fingerprint :: "world \<Rightarrow> StartRequest \<Rightarrow> string" where
  "start_fingerprint w req = fingerprint (rl_MarshalStart (w_lib w) (stripped req))"

text \<open>A retry of a start that was recorded launches the attempt when nothing did.\<close>

definition replay_start :: "world \<Rightarrow> HarnessCredential \<Rightarrow> string \<Rightarrow> operationRecord \<Rightarrow> live \<Rightarrow> (op_error + AttemptReceipt) \<times> live" where
  "replay_start w credential fp prior s =
     (let r = fst s; i = op_AttemptID prior in
      if op_Fingerprint prior \<noteq> fp then (Inl (conflict r i), s)
      else case mget (attempts r) i of
        None \<Rightarrow> (receiptForAttemptLocked r i, s)
      | Some a \<Rightarrow>
          if phase a = PhaseAccepted \<and> \<not> ar_CancelPending a then
            (case startExecutionLocked w 0 i (sreq_Instructions (ar_Start a)) (sreq_Model (ar_Start a))
                (r\<lparr>rn_credentials := mput i credential (rn_credentials r)\<rparr>, snd s) of
               (Inl e, s) \<Rightarrow>
                 (Inl (protocolError ErrorUnavailable True (''persist starting attempt: '' @ e) (receipt_of (fst s) i)), s)
             | (Inr _, s) \<Rightarrow> (receiptForAttemptLocked (fst s) i, s))
          else (receiptForAttemptLocked r i, s))"

definition accepted_receipt :: "world \<Rightarrow> string \<Rightarrow> StartRequest \<Rightarrow> AttemptReceipt" where
  "accepted_receipt w workdir req =
     no_receipt\<lparr>rc_ProtocolVersion := ProtocolVersion, rc_TaskID := sreq_TaskID req, rc_AttemptID := sreq_AttemptID req,
       rc_AttemptEpoch := sreq_AttemptEpoch req, rc_Phase := PhaseAccepted, rc_Workdir := workdir,
       rc_Resources := sort (sreq_Resources req), rc_AcceptedAt := w_now w, rc_UpdatedAt := w_now w\<rparr>"

definition accepted_record :: "world \<Rightarrow> string \<Rightarrow> StartRequest \<Rightarrow> attemptRecord" where
  "accepted_record w workdir req =
     \<lparr>ar_EventJournalBytes = 0, ar_CleanupDelegated = False, ar_CleanupEligible = True, ar_CleanupAttempts = 0,
       ar_CleanupError = [], ar_CleanupDone = False, ar_cleanupRunning = False, ar_Receipt = accepted_receipt w workdir req,
       ar_Start = stripped req, ar_Fingerprint = start_fingerprint w req, ar_Resources = sort (sreq_Resources req),
       ar_ArtifactSpecs = sreq_Artifacts req, ar_CancelPending = False, ar_OutputBytes = 0, ar_LimitExceeded = False\<rparr>"

text \<open>The retention pass, then the new record with its credential and its operation.\<close>

definition enter_attempt :: "world \<Rightarrow> HarnessCredential \<Rightarrow> string \<Rightarrow> StartRequest \<Rightarrow> Runner \<Rightarrow> Runner" where
  "enter_attempt w credential workdir req r =
     (let i = sreq_AttemptID req; r = snd (snd (purgeAttemptsLocked (w_purge w) r (w_now w)));
          r = r\<lparr>rn_state := (rn_state r)\<lparr>ps_Attempts := mput i (accepted_record w workdir req) (attempts r)\<rparr>,
                rn_credentials := mput i credential (rn_credentials r)\<rparr>
      in record_operation (start_key req) (start_fingerprint w req) i r)"

text \<open>Acceptance that could not be recorded is taken back; the error names what else failed.\<close>

definition withdraw_error :: "world \<Rightarrow> string \<Rightarrow> string \<Rightarrow> Runner \<Rightarrow> string" where
  "withdraw_error w e i r =
     Join (e # map (journal_text w) (fst (removeEvents (fst (w_purge w i)) (snd (w_purge w i)) i (rn_store r)))) line_break"

definition withdraw_attempt :: "world \<Rightarrow> StartRequest \<Rightarrow> Runner \<Rightarrow> Runner" where
  "withdraw_attempt w req r =
     (let i = sreq_AttemptID req; p = rn_state r in
      releaseResourcesLocked i (sreq_Resources req)
        (drop_credential i (r\<lparr>rn_state := p\<lparr>ps_Operations := mdel (start_key req) (ps_Operations p), ps_Attempts := mdel i (ps_Attempts p)\<rparr>,
           rn_store := snd (removeEvents (fst (w_purge w i)) (snd (w_purge w i)) i (rn_store r))\<rparr>)))"

definition accept_start :: "world \<Rightarrow> HarnessCredential \<Rightarrow> string \<Rightarrow> StartRequest \<Rightarrow> live \<Rightarrow> (op_error + AttemptReceipt) \<times> live" where
  "accept_start w credential workdir req s =
     (let i = sreq_AttemptID req in
      case append_event w 0 i EventAccepted ''attempt accepted'' [] (enter_attempt w credential workdir req (fst s)) of
        (Some e, r) \<Rightarrow> (Inl (Plain (withdraw_error w e i r)), (withdraw_attempt w req r, snd s))
      | (None, r) \<Rightarrow>
          (case persist w 0 (r, snd s) of
             (Some e, s) \<Rightarrow> (Inl (protocolError ErrorUnavailable True (''persist accepted attempt: '' @ e) None), s)
           | (None, s) \<Rightarrow>
               (case startExecutionLocked w 1 i (sreq_Instructions req) (sreq_Model req) s of
                  (Inl e, s) \<Rightarrow>
                    (Inl (protocolError ErrorUnavailable True (''persist starting attempt: '' @ e) (receipt_of (fst s) i)), s)
                | (Inr _, s) \<Rightarrow> (receiptForAttemptLocked (fst s) i, s))))"

text \<open>The directory is prepared and the staged files are moved into it before the attempt is accepted.\<close>

definition new_start :: "world \<Rightarrow> HarnessCredential \<Rightarrow> StartRequest \<Rightarrow> live \<Rightarrow> (op_error + AttemptReceipt) \<times> live" where
  "new_start w credential req s =
     (let i = sreq_AttemptID req in
      case checkStartRequirementsLocked (fst s) req of
        Some e \<Rightarrow> (Inl e, s)
      | None \<Rightarrow>
          (case reserveResourcesLocked i (sreq_Resources req) (fst s) of
             (Some e, r) \<Rightarrow> (Inl e, (r, snd s))
           | (None, r) \<Rightarrow>
               (case w_workdir w of
                  Inl e \<Rightarrow>
                    (Inl (case e of Refused _ _ \<Rightarrow> e | Plain t \<Rightarrow> protocolError ErrorUnavailable True t None),
                     (releaseResourcesLocked i (sreq_Resources req) r, snd s))
                | Inr workdir \<Rightarrow>
                    (case (if sreq_InputFiles req = [] then None else w_staged w) of
                       Some e \<Rightarrow>
                         (Inl (case e of Refused _ _ \<Rightarrow> e
                            | Plain t \<Rightarrow> protocolError ErrorUnavailable True (''consume staged inputs: '' @ t) None),
                          (releaseResourcesLocked i (sreq_Resources req) r, snd s))
                     | None \<Rightarrow> accept_start w credential workdir req (r, snd s)))))"

definition bound_elsewhere :: "AttemptReceipt \<Rightarrow> op_error" where
  "bound_elsewhere rc = protocolError ErrorIdempotencyConflict False ''attempt ID is already bound to different content'' (Some rc)"

definition Start :: "world \<Rightarrow> StartRequest \<Rightarrow> live \<Rightarrow> (op_error + AttemptReceipt) \<times> live" where
  "Start w req s =
     (let r = fst s; i = sreq_AttemptID req; fp = start_fingerprint w req in
      case start_credential w r req of
        Inl e \<Rightarrow> (Inl e, s)
      | Inr credential \<Rightarrow>
          if rn_closed r then (Inl (protocolError ErrorUnavailable True ''runner is closed'' None), s)
          else case mget (ps_Operations (rn_state r)) (start_key req) of
            Some prior \<Rightarrow> replay_start w credential fp prior s
          | None \<Rightarrow>
              (case checkEpochLocked r (sreq_TaskID req) i (sreq_AttemptEpoch req) of
                 Some e \<Rightarrow> (Inl e, s)
               | None \<Rightarrow>
                   (case mget (attempts r) i of
                      Some a \<Rightarrow>
                        (if ar_Fingerprint a \<noteq> fp \<or> rc_TaskID (ar_Receipt a) \<noteq> sreq_TaskID req \<or>
                            rc_AttemptEpoch (ar_Receipt a) \<noteq> sreq_AttemptEpoch req
                         then (Inl (bound_elsewhere (ar_Receipt a)), s) else (Inr (ar_Receipt a), s))
                    | None \<Rightarrow> new_start w credential req s)))"

section \<open>Inspect\<close>

definition Inspect :: "Runner \<Rightarrow> string \<Rightarrow> op_error + AttemptReceipt" where
  "Inspect r i =
     (case validateIdentifier ''attemptID'' i of
        Some e \<Rightarrow> Inl (protocolError ErrorInvalidRequest False e None)
      | None \<Rightarrow> receiptForAttemptLocked r i)"

section \<open>Cancel\<close>

definition cancel_key :: "CancelRequest \<Rightarrow> string" where
  "cancel_key req = operationKey ''cancel'' (creq_TaskID req) (creq_AttemptID req) (creq_AttemptEpoch req) (creq_RequestID req)"

definition fence_blocker :: string where
  "fence_blocker = ''cancelled while absent from local journal; delayed start fenced''"

definition no_request :: StartRequest where
  "no_request = \<lparr>sreq_ProtocolVersion = [], sreq_RequestID = [], sreq_TaskID = [], sreq_AttemptID = [], sreq_AttemptEpoch = 0,
     sreq_RepositoryID = [], sreq_EnvironmentID = [], sreq_BaseCommit = [], sreq_WorkspaceID = [], sreq_SessionID = [],
     sreq_HarnessCredential = None, sreq_Instructions = [], sreq_Model = [], sreq_ReasoningEffort = [], sreq_ApprovedInput = [],
     sreq_RequiredCapabilities = [], sreq_RequiredToolchains = [], sreq_RequiredEnvironment = [], sreq_RequiredHarness = [],
     sreq_RequiredHarnessVersion = [], sreq_AskPermission = False, sreq_ExportGitResult = False, sreq_CommitMessage = [],
     sreq_Limits = \<lparr>lim_MaxDurationSeconds = 0, lim_MaxOutputBytes = 0, lim_MaxTurns = 0\<rparr>, sreq_VerificationNames = [],
     sreq_VerificationCommands = [], sreq_Resources = [], sreq_Artifacts = [], sreq_InputFiles = [], sreq_Repository = None\<rparr>"

definition fence_record :: "world \<Rightarrow> string \<Rightarrow> CancelRequest \<Rightarrow> attemptRecord" where
  "fence_record w fp req =
     \<lparr>ar_EventJournalBytes = 0, ar_CleanupDelegated = False, ar_CleanupEligible = False, ar_CleanupAttempts = 0,
       ar_CleanupError = [], ar_CleanupDone = False, ar_cleanupRunning = False,
       ar_Receipt = no_receipt\<lparr>rc_ProtocolVersion := ProtocolVersion, rc_TaskID := creq_TaskID req,
         rc_AttemptID := creq_AttemptID req, rc_AttemptEpoch := creq_AttemptEpoch req, rc_Phase := PhaseCancelled,
         rc_UpdatedAt := w_now w, rc_Cursor := 1, rc_Blocker := fence_blocker\<rparr>,
       ar_Start = no_request, ar_Fingerprint = fp, ar_Resources = [], ar_ArtifactSpecs = [], ar_CancelPending = True,
       ar_OutputBytes = 0, ar_LimitExceeded = False\<rparr>"

text \<open>The state with the fence is saved before the runner takes it on.\<close>

definition cancelUnseenLocked :: "world \<Rightarrow> CancelRequest \<Rightarrow> string \<Rightarrow> string \<Rightarrow> live \<Rightarrow> (op_error + AttemptReceipt) \<times> live" where
  "cancelUnseenLocked w req opKey fp s =
     (let r = fst s; i = creq_AttemptID req; p = rn_state r in
      case checkEpochLocked r (creq_TaskID req) i (creq_AttemptEpoch req) of
        Some e \<Rightarrow> (Inl e, s)
      | None \<Rightarrow>
          let next = p\<lparr>ps_Attempts := mput i (fence_record w fp req) (ps_Attempts p),
                ps_Operations := mput opKey \<lparr>op_Fingerprint = fp, op_AttemptID = i\<rparr> (ps_Operations p),
                ps_Events := mput i [\<lparr>ev_Cursor = 1, ev_Timestamp = w_now w, ev_AttemptEpoch = creq_AttemptEpoch req,
                  ev_Type = EventCancelled, ev_Message = fence_blocker, ev_Data = []\<rparr>] (ps_Events p)\<rparr>
          in (case save (w_sync w 0) (w_save w 0) (r\<lparr>rn_state := next\<rparr>) of
                (ok, file, r') \<Rightarrow>
                  (let p' = (case file of None \<Rightarrow> snd s | Some q \<Rightarrow> q) in
                   if ok then (Inr (ar_Receipt (fence_record w fp req)), (r', p'))
                   else (Inl (protocolError ErrorUnavailable True (''persist cancellation fence: '' @ w_errno w) None),
                     (r'\<lparr>rn_state := p\<rparr>, p')))))"

definition cancel_receipt :: "world \<Rightarrow> AttemptReceipt \<Rightarrow> AttemptReceipt" where
  "cancel_receipt w rc =
     rc\<lparr>rc_Phase := PhaseCancelling, rc_Blocker := ''cancellation requested; waiting for harness exit'', rc_UpdatedAt := w_now w\<rparr>"

text \<open>A running attempt is cancelled through its context; one without a child is cancelled at once.\<close>

definition cancel_known :: "world \<Rightarrow> CancelRequest \<Rightarrow> string \<Rightarrow> attemptRecord \<Rightarrow> live \<Rightarrow> (op_error + AttemptReceipt) \<times> live" where
  "cancel_known w req fp a s =
     (let i = creq_AttemptID req; r = record_operation (cancel_key req) fp i (fst s) in
      if IsTerminal (phase a) then
        (case persist w 0 (r, snd s) of
           (Some e, s) \<Rightarrow> (Inl (protocolError ErrorUnavailable True e (receipt_of (fst s) i)), s)
         | (None, s) \<Rightarrow> (receiptForAttemptLocked (fst s) i, s))
      else case append_event w 0 i EventProgress ''cancellation requested'' []
          (set_receipt i (cancel_receipt w) (set_attempt i (\<lambda>a. a\<lparr>ar_CancelPending := True\<rparr>) r)) of
        (Some e, r) \<Rightarrow> (Inl (Plain e), (r, snd s))
      | (None, r) \<Rightarrow>
          (case persist w 0 (r, snd s) of
             (Some e, s) \<Rightarrow> (Inl (protocolError ErrorUnavailable True e (receipt_of (fst s) i)), s)
           | (None, s) \<Rightarrow>
               let s = (if mget (rn_running (fst s)) i \<noteq> None
                  then ((fst s)\<lparr>rn_running := mput i True (rn_running (fst s))\<rparr>, snd s)
                  else finishLocked w 1 i PhaseCancelled ''cancelled after restart; no active harness process'' None s)
               in (receiptForAttemptLocked (fst s) i, s)))"

definition Cancel :: "world \<Rightarrow> CancelRequest \<Rightarrow> live \<Rightarrow> (op_error + AttemptReceipt) \<times> live" where
  "Cancel w req s =
     (let r = fst s; i = creq_AttemptID req; fp = fingerprint (rl_MarshalCancel (w_lib w) req) in
      case validateMutationIdentity (creq_TaskID req) i (creq_AttemptEpoch req) (creq_RequestID req) of
        Some e \<Rightarrow> (Inl (protocolError ErrorInvalidRequest False e None), s)
      | None \<Rightarrow>
          if creq_ProtocolVersion req \<noteq> ProtocolVersion
            then (Inl (protocolError ErrorUnsupportedVersion False ''protocolVersion must be runner/v1'' None), s)
          else if rn_closed r then (Inl (protocolError ErrorUnavailable True ''runner is closed'' None), s)
          else case mget (ps_Operations (rn_state r)) (cancel_key req) of
            Some prior \<Rightarrow>
              (if op_Fingerprint prior \<noteq> fp then Inl (conflict r (op_AttemptID prior))
               else receiptForAttemptLocked r (op_AttemptID prior), s)
          | None \<Rightarrow>
              if mget (attempts r) i = None then cancelUnseenLocked w req (cancel_key req) fp s
              else (case attemptForMutationLocked r (creq_TaskID req) i (creq_AttemptEpoch req) of
                Inl e \<Rightarrow> (Inl e, s)
              | Inr a \<Rightarrow> cancel_known w req fp a s))"

section \<open>Resume\<close>

definition resume_key :: "ResumeRequest \<Rightarrow> string" where
  "resume_key req = operationKey ''resume'' (rreq_TaskID req) (rreq_AttemptID req) (rreq_AttemptEpoch req) (rreq_RequestID req)"

definition resume_fingerprint :: "world \<Rightarrow> ResumeRequest \<Rightarrow> string" where
  "resume_fingerprint w req = fingerprint (rl_MarshalResume (w_lib w) (req\<lparr>rreq_HarnessCredential := None\<rparr>))"

text \<open>What refuses any resume, and what refuses one that launches the harness again.\<close>

definition resume_refusal :: "AttemptReceipt \<Rightarrow> ResumeRequest \<Rightarrow> op_error option" where
  "resume_refusal rc req =
     (if rc_Phase rc \<noteq> PhaseNeedsInput then
        Some (if IsTerminal (rc_Phase rc) then protocolError ErrorCheckpointUnavailable False ''attempt is not resumable'' (Some rc)
          else protocolError ErrorBusy True ''attempt is still executing'' (Some rc))
      else if rreq_SessionID req = [] \<or> rreq_SessionID req \<noteq> rc_SessionID rc
        then Some (protocolError ErrorCheckpointUnavailable False ''resume session does not match the attempt'' (Some rc))
      else if rreq_ClarificationID req \<noteq> [] \<and> \<not> validClarificationID (rreq_ClarificationID req)
        then Some (protocolError ErrorInvalidRequest False ''clarificationID is invalid'' (Some rc))
      else None)"

definition relaunch_refusal :: "world \<Rightarrow> attemptRecord \<Rightarrow> ResumeRequest \<Rightarrow> op_error option" where
  "relaunch_refusal w a req =
     (let rc = ar_Receipt a; refuse = (\<lambda>code message. Some (protocolError code False message (Some rc))) in
      if (case rc_Clarification rc of
            Some outstanding \<Rightarrow> rreq_ClarificationID req = [] \<or> rreq_ClarificationID req \<noteq> cl_ID outstanding
          | None \<Rightarrow> False)
        then refuse ErrorCheckpointUnavailable ''resume clarification does not match the outstanding question''
      else if rc_Clarification rc = None \<and> rreq_ClarificationID req \<noteq> []
        then refuse ErrorCheckpointUnavailable ''attempt has no outstanding clarification''
      else if rreq_ApprovedInput req \<noteq> [] \<and>
          \<not> equivalentJSON (w_lib w) (rreq_ApprovedInput req) (sreq_ApprovedInput (ar_Start a))
        then refuse ErrorForbidden ''resume cannot amend approved input''
      else if rreq_Instructions req \<noteq> [] \<and> rreq_Instructions req \<noteq> sreq_Instructions (ar_Start a)
        then refuse ErrorForbidden ''resume cannot amend approved instructions''
      else if blank (rreq_Resolution req) then refuse ErrorInvalidRequest ''resume requires an explicit resolution''
      else if rc_SessionID rc = [] then refuse ErrorCheckpointUnavailable ''attempt has no recoverable session''
      else case w_inspect w of Some e \<Rightarrow> refuse ErrorCheckpointUnavailable e | None \<Rightarrow> None)"

definition resume_receipt :: "world \<Rightarrow> AttemptReceipt \<Rightarrow> AttemptReceipt" where
  "resume_receipt w rc =
     rc\<lparr>rc_Phase := PhaseAccepted, rc_Blocker := [], rc_Clarification := None, rc_LastError := None, rc_UpdatedAt := w_now w\<rparr>"

definition resolution_header :: string where
  "resolution_header = line_break @ line_break @ ''Resolution:'' @ line_break"

definition relaunch :: "world \<Rightarrow> HarnessCredential \<Rightarrow> string \<Rightarrow> attemptRecord \<Rightarrow> ResumeRequest \<Rightarrow> live \<Rightarrow> (op_error + AttemptReceipt) \<times> live" where
  "relaunch w credential fp a req s =
     (let i = rreq_AttemptID req in
      case checkStartRequirementsLocked (fst s) (ar_Start a) of
        Some e \<Rightarrow> (Inl e, s)
      | None \<Rightarrow>
          (case reserveResourcesLocked i (ar_Resources a) (fst s) of
             (Some e, r) \<Rightarrow> (Inl e, (r, snd s))
           | (None, r) \<Rightarrow>
               let r = record_operation (resume_key req) fp i r;
                   r = r\<lparr>rn_credentials := mput i credential (rn_credentials r)\<rparr>;
                   r = set_receipt i (resume_receipt w) (set_attempt i (\<lambda>a. a\<lparr>ar_CancelPending := False\<rparr>) r)
               in (case append_event w 0 i EventAccepted ''resume accepted'' [] r of
                     (Some e, r) \<Rightarrow> (Inl (Plain e), (r, snd s))
                   | (None, r) \<Rightarrow>
                       (case persist w 0 (r, snd s) of
                          (Some e, s) \<Rightarrow> (Inl (protocolError ErrorUnavailable True e (receipt_of (fst s) i)), s)
                        | (None, s) \<Rightarrow>
                            (case startExecutionLocked w 1 i (sreq_Instructions (ar_Start a) @ resolution_header @ rreq_Resolution req)
                                (sreq_Model (ar_Start a)) s of
                               (Inl e, s) \<Rightarrow>
                                 (Inl (protocolError ErrorUnavailable True (''persist starting resume: '' @ e) (receipt_of (fst s) i)), s)
                             | (Inr _, s) \<Rightarrow> (receiptForAttemptLocked (fst s) i, s))))))"

definition resume_known :: "world \<Rightarrow> HarnessCredential \<Rightarrow> string \<Rightarrow> attemptRecord \<Rightarrow> ResumeRequest \<Rightarrow> live \<Rightarrow> (op_error + AttemptReceipt) \<times> live" where
  "resume_known w credential fp a req s =
     (case resume_refusal (ar_Receipt a) req of
        Some e \<Rightarrow> (Inl e, s)
      | None \<Rightarrow>
          (case resumePermissionLocked w a req (resume_key req) fp s of
             (Some answer, s) \<Rightarrow> (answer, s)
           | (None, s) \<Rightarrow>
               (case relaunch_refusal w a req of Some e \<Rightarrow> (Inl e, s) | None \<Rightarrow> relaunch w credential fp a req s)))"

definition Resume :: "world \<Rightarrow> ResumeRequest \<Rightarrow> live \<Rightarrow> (op_error + AttemptReceipt) \<times> live" where
  "Resume w req s =
     (let r = fst s; i = rreq_AttemptID req; fp = resume_fingerprint w req in
      case validateMutationIdentity (rreq_TaskID req) i (rreq_AttemptEpoch req) (rreq_RequestID req) of
        Some e \<Rightarrow> (Inl (protocolError ErrorInvalidRequest False e None), s)
      | None \<Rightarrow>
          if rreq_ProtocolVersion req \<noteq> ProtocolVersion
            then (Inl (protocolError ErrorUnsupportedVersion False ''protocolVersion must be runner/v1'' None), s)
          else case harnessCredentialOf (w_lib w) (rreq_HarnessCredential req) of
            Inl e \<Rightarrow> (Inl (protocolError ErrorInvalidRequest False e None), s)
          | Inr credential \<Rightarrow>
              if rn_closed r then (Inl (protocolError ErrorUnavailable True ''runner is closed'' None), s)
              else case mget (ps_Operations (rn_state r)) (resume_key req) of
                Some prior \<Rightarrow>
                  (if op_Fingerprint prior \<noteq> fp then Inl (conflict r (op_AttemptID prior))
                   else receiptForAttemptLocked r (op_AttemptID prior), s)
              | None \<Rightarrow>
                  (case attemptForMutationLocked r (rreq_TaskID req) i (rreq_AttemptEpoch req) of
                     Inl e \<Rightarrow> (Inl e, s)
                   | Inr a \<Rightarrow> resume_known w credential fp a req s))"

end
