(* ===== verification/RunnerExecution.thy ===== *)
theory RunnerExecution
  imports RunnerControl
begin

text \<open>
  What an execution does to its attempt (\<open>execute\<close>, \<open>handleHarnessEvent\<close> and \<open>recordArtifactLocked\<close> of
  \<open>pkg/runner/runner.go\<close>, \<open>finishGitResultLocked\<close> of \<open>git_result.go\<close>): the events its harness emits, the
  reconciliation of its result, and the closing of the runner. The harness itself and the export of a Git result
  run without the mutex; here are their outcomes.
\<close>

section \<open>Artifacts\<close>

definition find_spec :: "string \<Rightarrow> ArtifactSpec list \<Rightarrow> ArtifactSpec option" where
  "find_spec name specs = find (\<lambda>s. spec_Name s = name) specs"

definition size_error :: "Runner \<Rightarrow> string" where
  "size_error r = ''artifact exceeds '' @ itoa (cfg_MaxArtifactSize (rn_cfg r)) @ ''-byte limit''"

text \<open>What is wrong with the source of an artifact, beside its place.\<close>

definition source_error :: "Runner \<Rightarrow> artifact_source \<Rightarrow> ArtifactSpec \<Rightarrow> string \<Rightarrow> string option" where
  "source_error r src spec digest =
     (case as_Failure src of
        Some e \<Rightarrow> Some e
      | None \<Rightarrow>
          if as_Length src > cfg_MaxArtifactSize (rn_cfg r) then Some (size_error r)
          else if spec_Digest spec \<noteq> [] \<and> spec_Digest spec \<noteq> as_Digest src
            then Some ''artifact digest differs from the approved allowlist''
          else if digest \<noteq> [] \<and> digest \<noteq> as_Digest src then Some ''artifact event digest does not match bytes''
          else as_FinalFailure src)"

definition artifact_path :: "Runner \<Rightarrow> string \<Rightarrow> string \<Rightarrow> string" where
  "artifact_path r i artifactID = path_Join [path_Join [cfg_StateDir (rn_cfg r), ''artifacts'', i], artifactID @ ''.bin'']"

definition store_artifact :: "string \<Rightarrow> Artifact \<Rightarrow> string \<Rightarrow> Runner \<Rightarrow> Runner" where
  "store_artifact i art path r =
     set_receipt i (\<lambda>rc. rc\<lparr>rc_Artifacts := rc_Artifacts rc @ [art]\<rparr>)
       (r\<lparr>rn_state := (rn_state r)\<lparr>ps_Artifacts := mput (art_ID art) \<lparr>af_Artifact = art, af_Path = path\<rparr> (ps_Artifacts (rn_state r))\<rparr>\<rparr>)"

definition recordArtifactLocked :: "world \<Rightarrow> string \<Rightarrow> attemptRecord \<Rightarrow> string \<Rightarrow> Runner \<Rightarrow> string option \<times> Runner" where
  "recordArtifactLocked w i a data r =
     (case (if data = [] then None else w_artifactEvent w data) of
        None \<Rightarrow> (Some ''artifact event requires a JSON name/path payload'', r)
      | Some (name, path, mediaType, digest) \<Rightarrow>
          if sreq_ExportGitResult (ar_Start a) \<and> isGitResultArtifactName name
            then (Some ''artifact name is reserved for the runner Git result export'', r)
          else case find_spec name (ar_ArtifactSpecs a) of
            None \<Rightarrow> (Some ''artifact name is not in the approved allowlist'', r)
          | Some spec \<Rightarrow>
              if list_ex (\<lambda>art. art_Name art = name) (rc_Artifacts (ar_Receipt a))
                then (Some ''artifact name has already been recorded and is immutable'', r)
              else if spec_Path spec \<noteq> [] \<and> spec_Path spec \<noteq> path
                then (Some ''artifact path differs from the approved allowlist'', r)
              else case validateArtifactRelativePath path of
                Some e \<Rightarrow> (Some e, r)
              | None \<Rightarrow>
                  (case source_error r (w_artifact w) spec digest of
                     Some e \<Rightarrow> (Some e, r)
                   | None \<Rightarrow>
                       let media = (if mediaType \<noteq> [] then mediaType else if spec_MediaType spec \<noteq> [] then spec_MediaType spec
                              else ''application/octet-stream'');
                           art = \<lparr>art_ID = as_ID (w_artifact w), art_Name = name, art_Digest = as_Digest (w_artifact w),
                              art_Length = as_Length (w_artifact w), art_MediaType = media, art_CreatedAt = w_now w\<rparr>
                       in (None, store_artifact i art (artifact_path r i (art_ID art)) r)))"

section \<open>Events of the harness\<close>

record harness_event =
  he_Type :: string
  he_SessionID :: string
  he_Message :: string
  he_Data :: "string option"
  he_Clarification :: "Clarification option"

definition firstHarnessFailure :: "attemptRecord \<Rightarrow> string" where
  "firstHarnessFailure a =
     (case rc_LastError (ar_Receipt a) of
        Some e \<Rightarrow> if re_Message e \<noteq> [] then re_Message e else ''harness event handling failed''
      | None \<Rightarrow> ''harness event handling failed'')"

text \<open>The first failure cancels the execution; its error is the answer to the harness.\<close>

definition failHarnessEventLocked :: "world \<Rightarrow> nat \<Rightarrow> string \<Rightarrow> string \<Rightarrow> live \<Rightarrow> string \<times> live" where
  "failHarnessEventLocked w k i failure s =
     (case mget (attempts (fst s)) i of
        None \<Rightarrow> (failure, s)
      | Some a \<Rightarrow>
          if rc_LastError (ar_Receipt a) \<noteq> None then (firstHarnessFailure a, s)
          else let message = (if failure = [] then ''harness event handling failed'' else failure);
                   r = set_receipt i (\<lambda>rc. rc\<lparr>rc_Phase := PhaseCancelling, rc_Blocker := message,
                         rc_LastError := Some (internal_error message), rc_UpdatedAt := w_now w\<rparr>)
                       (set_attempt i (\<lambda>a. a\<lparr>ar_CancelPending := True\<rparr>) (fst s))
            in (case append_event w k i EventProgress message [] r of (appendErr, r) \<Rightarrow>
                 (case persist w k (r, snd s) of (persistErr, (r, p)) \<Rightarrow>
                    (Join (failure # List.map_filter id [appendErr, persistErr]) line_break,
                     (if mget (rn_running r) i = None then r else r\<lparr>rn_running := mput i True (rn_running r)\<rparr>, p)))))"

definition protocol_type :: "string \<Rightarrow> string" where
  "protocol_type t =
     (if t \<in> {EventAccepted, EventStarted, EventProgress, EventCheckpoint, EventNeedsInput, EventArtifact, EventCompleted,
         EventFailed, EventCancelled} then t else EventProgress)"

definition event_message :: "harness_event \<Rightarrow> string" where
  "event_message e = (if length (he_Message e) > maxMessageBytes then take maxMessageBytes (he_Message e) else he_Message e)"

definition event_bytes :: "harness_event \<Rightarrow> int" where
  "event_bytes e = int (length (event_message e) + length (case_option [] id (he_Data e)))"

text \<open>What is wrong with an event before it is recorded; only an output over its limit leaves a mark.\<close>

definition event_refusal :: "Runner \<Rightarrow> attemptRecord \<Rightarrow> harness_event \<Rightarrow> string option" where
  "event_refusal r a e =
     (if he_SessionID e \<noteq> [] \<and> rc_SessionID (ar_Receipt a) \<noteq> [] \<and> he_SessionID e \<noteq> rc_SessionID (ar_Receipt a)
        then Some ''harness event returned a foreign session ID''
      else if int (length (case_option [] id (he_Data e))) > cfg_MaxEventBytes (rn_cfg r)
        then Some (''harness event exceeds '' @ itoa (cfg_MaxEventBytes (rn_cfg r)) @ ''-byte limit'')
      else None)"

definition over_limit :: "attemptRecord \<Rightarrow> harness_event \<Rightarrow> bool" where
  "over_limit a e \<longleftrightarrow>
     (let limit = lim_MaxOutputBytes (sreq_Limits (ar_Start a)) in limit > 0 \<and> ar_OutputBytes a + event_bytes e > limit)"

definition event_receipt :: "world \<Rightarrow> string \<Rightarrow> string \<Rightarrow> AttemptReceipt \<Rightarrow> AttemptReceipt" where
  "event_receipt w t message rc =
     (if t \<in> {EventStarted, EventProgress, EventCheckpoint, EventCompleted, EventFailed}
        then (if rc_Phase rc \<noteq> PhaseCancelling then rc\<lparr>rc_Phase := PhaseRunning\<rparr> else rc)
      else if t = EventNeedsInput then rc\<lparr>rc_Phase := PhaseNeedsInput, rc_Blocker := message\<rparr>
      else if t = EventCancelled then rc\<lparr>rc_Phase := PhaseCancelling\<rparr> else rc)\<lparr>rc_UpdatedAt := w_now w\<rparr>"

definition event_clarification :: "harness_event \<Rightarrow> Clarification option" where
  "event_clarification e =
     (case he_Clarification e of
        Some c \<Rightarrow> if he_Type e \<in> {EventNeedsInput, ''item/tool/requestUserInput''} \<and> validHarnessClarification c then Some c else None
      | None \<Rightarrow> None)"

text \<open>The event is in the log: the receipt follows it, and an artifact is taken over.\<close>

definition apply_event :: "world \<Rightarrow> string \<Rightarrow> harness_event \<Rightarrow> live \<Rightarrow> string option \<times> live" where
  "apply_event w i e s =
     (let t = protocol_type (he_Type e); r = set_receipt i (event_receipt w t (event_message e)) (fst s) in
      case (if t \<noteq> EventArtifact then (None, r)
            else case mget (attempts r) i of None \<Rightarrow> (None, r)
              | Some a \<Rightarrow> recordArtifactLocked w i a (case_option [] id (he_Data e)) r) of
        (Some failure, r) \<Rightarrow> (case failHarnessEventLocked w 1 i failure (r, snd s) of (e, s) \<Rightarrow> (Some e, s))
      | (None, r) \<Rightarrow>
          let r = (case event_clarification e of None \<Rightarrow> r | Some c \<Rightarrow> set_receipt i (\<lambda>rc. rc\<lparr>rc_Clarification := Some c\<rparr>) r) in
          (case persist w 0 (r, snd s) of
             (Some failure, s) \<Rightarrow> (case failHarnessEventLocked w 1 i failure s of (e, s) \<Rightarrow> (Some e, s))
           | (None, s) \<Rightarrow> (None, s)))"

text \<open>The error the harness gets for its event.\<close>

definition handleHarnessEvent :: "world \<Rightarrow> string \<Rightarrow> harness_event \<Rightarrow> live \<Rightarrow> string option \<times> live" where
  "handleHarnessEvent w i e s =
     (case mget (attempts (fst s)) i of
        None \<Rightarrow> (Some ''attempt no longer exists'', s)
      | Some a \<Rightarrow>
          if rc_LastError (ar_Receipt a) \<noteq> None then (Some (firstHarnessFailure a), s)
          else if IsTerminal (phase a)
            then (Some (''harness event arrived after attempt entered terminal phase '' @ phase a), s)
          else let fail = (\<lambda>failure s. case failHarnessEventLocked w 1 i failure s of (e, s) \<Rightarrow> (Some e, s));
                   named = (if he_SessionID e \<noteq> [] \<and> rc_SessionID (ar_Receipt a) = []
                     then set_receipt i (\<lambda>rc. rc\<lparr>rc_SessionID := he_SessionID e\<rparr>) (fst s) else fst s)
            in (case event_refusal (fst s) a e of
                  Some failure \<Rightarrow> fail failure (named, snd s)
                | None \<Rightarrow>
                    if over_limit a e
                    then fail ''harness output limit exceeded'' (set_attempt i (\<lambda>a. a\<lparr>ar_LimitExceeded := True\<rparr>) named, snd s)
                    else (case append_event w 0 i (protocol_type (he_Type e)) (event_message e) (case_option [] id (he_Data e))
                          (set_attempt i (\<lambda>a. a\<lparr>ar_OutputBytes := ar_OutputBytes a + event_bytes e\<rparr>) named) of
                        (Some failure, r) \<Rightarrow> fail failure (r, snd s)
                      | (None, r) \<Rightarrow> apply_event w i e (r, snd s))))"

section \<open>Git results\<close>

text \<open>\<open>pathWithin\<close> the state directory, which is absolute and clean, of an absolute path.\<close>

definition path_within :: "string \<Rightarrow> string \<Rightarrow> bool" where
  "path_within dir path \<longleftrightarrow> (let c = Clean path in c = dir \<or> hasPrefix c (dir @ ''/''))"

text \<open>The artifacts of the export, each with its event. What was added is to be undone when an event cannot be recorded,
  but not when an artifact is refused.\<close>

fun add_results :: "world \<Rightarrow> nat \<Rightarrow> string \<Rightarrow> (Artifact \<times> string) list \<Rightarrow> string list \<Rightarrow> Runner \<Rightarrow> (string \<times> bool) option \<times> string list \<times> Runner" where
  "add_results w k i [] added r = (None, added, r)"
| "add_results w k i ((art, path) # items) added r =
     (if \<not> isGitResultArtifactName (art_Name art) then (Some (''git result artifact name is not reserved'', False), added, r)
      else if \<not> path_within (cfg_StateDir (rn_cfg r)) path then (Some (''git result artifact path is outside runner state'', False), added, r)
      else if mget (ps_Artifacts (rn_state r)) (art_ID art) \<noteq> None
        then (Some (''git result artifact ID already exists'', False), added, r)
      else case append_event w k i EventArtifact (''Git result artifact exported: '' @ art_Name art) [] (store_artifact i art path r) of
        (Some e, r) \<Rightarrow> (Some (e, True), added @ [art_ID art], r)
      | (None, r) \<Rightarrow> add_results w (Suc k) i items (added @ [art_ID art]) r)"

definition restore_results :: "string \<Rightarrow> AttemptReceipt \<Rightarrow> Event list \<Rightarrow> string list \<Rightarrow> Runner \<Rightarrow> Runner" where
  "restore_results i rc events added r =
     (let r = set_receipt i (\<lambda>_. rc) r; p = rn_state r in
      r\<lparr>rn_state := p\<lparr>ps_Artifacts := fold mdel added (ps_Artifacts p), ps_Events := mput i events (ps_Events p)\<rparr>\<rparr>)"

definition finishGitResultLocked :: "world \<Rightarrow> string \<Rightarrow> (Artifact \<times> string) list \<Rightarrow> live \<Rightarrow> string option \<times> live" where
  "finishGitResultLocked w i items s =
     (case mget (attempts (fst s)) i of
        None \<Rightarrow> (Some ''attempt is already terminal'', s)
      | Some a \<Rightarrow>
          if IsTerminal (phase a) then (Some ''attempt is already terminal'', s)
          else let restore = restore_results i (ar_Receipt a) (hot (fst s) i); n = length items in
            (case add_results w 0 i items [] (fst s) of
               (Some (e, undo), added, r) \<Rightarrow> (Some e, (if undo then restore added r else r, snd s))
             | (None, added, r) \<Rightarrow>
                 (case append_event w n i EventCompleted [] []
                     (set_receipt i (\<lambda>rc. rc\<lparr>rc_Phase := PhaseCompleted, rc_Blocker := [], rc_UpdatedAt := w_now w\<rparr>) r) of
                    (Some e, r) \<Rightarrow> (Some e, (restore added r, snd s))
                  | (None, r) \<Rightarrow>
                      (case persist w n (releaseResourcesLocked i (ar_Resources a) r, snd s) of
                         (Some e, (r, p)) \<Rightarrow> (Some e, (put_reservations i (ar_Resources a) (restore added r), p))
                       | (None, s) \<Rightarrow> (None, scheduleCleanupLocked w (n + 1) i s)))))"

section \<open>The end of an execution\<close>

record harness_result =
  hr_Phase :: string
  hr_SessionID :: string
  hr_Blocker :: string
  hr_Clarification :: "Clarification option"

text \<open>The error of the run, and whether it is \<open>context.Canceled\<close>.\<close>

type_synonym run_error = "(string \<times> bool) option"

definition end_with :: "world \<Rightarrow> nat \<Rightarrow> string \<Rightarrow> string \<Rightarrow> string \<Rightarrow> string option \<Rightarrow> live \<Rightarrow> live" where
  "end_with w k i p blocker lastErr s = finishLocked w k i p blocker lastErr (forget_execution i (fst s), snd s)"

definition exit_blocker :: string where "exit_blocker = ''harness exited after cancellation''"
definition shutdownBlocker :: string where
  "shutdownBlocker = ''runner shut down while harness was active; reconcile the existing harness session before resuming''"

definition drop_gate :: "string \<Rightarrow> Runner \<Rightarrow> Runner" where
  "drop_gate i r = r\<lparr>rn_permissions := mdel i (rn_permissions r)\<rparr>"

text \<open>The session the attempt has when the result is looked at.\<close>

definition adopt_session :: "string \<Rightarrow> harness_result \<Rightarrow> Runner \<Rightarrow> Runner" where
  "adopt_session i res r =
     set_receipt i (\<lambda>rc. if rc_SessionID rc = [] \<and> hr_SessionID res \<noteq> [] then rc\<lparr>rc_SessionID := hr_SessionID res\<rparr> else rc) r"

definition kept_clarification :: "harness_result \<Rightarrow> Clarification option" where
  "kept_clarification res =
     (case hr_Clarification res of
        Some c \<Rightarrow> if hr_Phase res = PhaseNeedsInput \<and> validHarnessClarification c then Some c else None
      | None \<Rightarrow> None)"

definition interrupted :: "harness_result \<Rightarrow> run_error \<Rightarrow> bool" where
  "interrupted res err \<longleftrightarrow> hr_Phase res \<in> {PhaseCancelled, PhaseNeedsInput, []} \<and> (case err of None \<Rightarrow> True | Some (_, canceled) \<Rightarrow> canceled)"

text \<open>The phase the harness returned, when nothing else decides; a completed attempt that exports its Git result is
  left for \<open>finish_export\<close>.\<close>

definition settle :: "world \<Rightarrow> string \<Rightarrow> attemptRecord \<Rightarrow> harness_result \<Rightarrow> live \<Rightarrow> live" where
  "settle w i a res s =
     (if hr_Phase res = PhaseCompleted then
        (if sreq_ExportGitResult (ar_Start a) then s else end_with w 0 i PhaseCompleted [] None s)
      else if hr_Phase res = PhaseCancelled then end_with w 0 i PhaseCancelled ''harness cancelled'' None s
      else if hr_Phase res = PhaseNeedsInput then
        end_with w 0 i PhaseNeedsInput (hr_Blocker res) None
          (case kept_clarification res of None \<Rightarrow> s
           | Some c \<Rightarrow> (set_receipt i (\<lambda>rc. rc\<lparr>rc_Clarification := Some c\<rparr>) (fst s), snd s))
      else if hr_Phase res = PhaseFailed then end_with w 0 i PhaseFailed (hr_Blocker res) None s
      else end_with w 0 i PhaseFailed ''harness returned no terminal phase'' None s)"

definition execution_ended :: "world \<Rightarrow> string \<Rightarrow> harness_result \<Rightarrow> run_error \<Rightarrow> live \<Rightarrow> live" where
  "execution_ended w i res err s =
     (let over = (case mget (rn_permissions (fst s)) i of None \<Rightarrow> False | Some g \<Rightarrow> clock_expired (pg_clock g));
          r = drop_gate i (fst s); s = (r, snd s)
      in case mget (attempts r) i of
           None \<Rightarrow> (forget_execution i r, snd s)
         | Some a \<Rightarrow>
             (case rc_LastError (ar_Receipt a) of
                Some e \<Rightarrow> end_with w 0 i PhaseFailed
                  (if rc_Blocker (ar_Receipt a) = [] then re_Message e else rc_Blocker (ar_Receipt a)) None s
              | None \<Rightarrow>
                  let shutdown = (i \<in> set (rn_shutdown r)); cancelled = (mget (rn_running r) i = Some True);
                      s = (adopt_session i res r, snd s);
                      session = (case receipt_of (fst s) i of None \<Rightarrow> [] | Some rc \<Rightarrow> rc_SessionID rc)
                  in if hr_SessionID res \<noteq> [] \<and> hr_SessionID res \<noteq> session
                       then end_with w 0 i PhaseFailed ''harness returned a foreign session ID'' (Some ''foreign session ID'') s
                     else if ar_LimitExceeded a \<or> over
                       then end_with w 0 i PhaseFailed
                         (if rc_Blocker (ar_Receipt a) = [] \<and> over then ''harness exceeded the approved execution duration''
                          else rc_Blocker (ar_Receipt a)) None s
                     else if ar_CancelPending a then end_with w 0 i PhaseCancelled exit_blocker None s
                     else if shutdown \<and> cancelled \<and> interrupted res err
                       then end_with w 0 i PhaseNeedsInput shutdownBlocker None s
                     else case err of
                       Some (e, _) \<Rightarrow> end_with w 0 i PhaseFailed e (Some e) s
                     | None \<Rightarrow> settle w i a res s))"

text \<open>The second half, when the export has ended with an error or with artifacts.\<close>

definition finish_export :: "world \<Rightarrow> string \<Rightarrow> string option \<Rightarrow> (Artifact \<times> string) list \<Rightarrow> live \<Rightarrow> live" where
  "finish_export w i exportErr items s =
     (let r = fst s in
      case mget (attempts r) i of
        None \<Rightarrow> (forget_execution i r, snd s)
      | Some a \<Rightarrow>
          if ar_CancelPending a then end_with w 0 i PhaseCancelled exit_blocker None s
          else if i \<in> set (rn_shutdown r) \<and> mget (rn_running r) i = Some True
            then end_with w 0 i PhaseNeedsInput shutdownBlocker None s
          else case exportErr of
            Some e \<Rightarrow> (let message = ''git result export failed: '' @ e in end_with w 0 i PhaseFailed message (Some message) s)
          | None \<Rightarrow>
              (case finishGitResultLocked w i items (forget_execution i r, snd s) of
                 (None, s) \<Rightarrow> s
               | (Some e, s) \<Rightarrow>
                   (let message = ''persist git result export: '' @ e in
                    finishLocked w (length items + 2) i PhaseFailed message (Some message) s)))"

section \<open>Closing and opening the runner\<close>

text \<open>Every running execution is cancelled and will be drained; what it reports is no operator's cancellation.\<close>

definition begin_close :: "Runner \<Rightarrow> Runner" where
  "begin_close r = (if rn_closed r then r
     else r\<lparr>rn_closed := True, rn_shutdown := rn_shutdown r @ filter (\<lambda>i. i \<notin> set (rn_shutdown r)) (map fst (rn_running r)),
            rn_running := map (\<lambda>(i, _). (i, True)) (rn_running r)\<rparr>)"

text \<open>The periodic retention pass.\<close>

definition sweep :: "world \<Rightarrow> live \<Rightarrow> live" where
  "sweep w s =
     (if rn_closed (fst s) then s
      else case purgeAttemptsLocked (w_purge w) (fst s) (w_now w) of
        (removed, _, r) \<Rightarrow> if removed > 0 then snd (persist w 0 (r, snd s)) else (r, snd s))"

text \<open>A runner on a state directory: the process that starts recovers every attempt, forgets what retention takes,
  saves, and owes the cleanups. No runner when it does not start; the state file may be new all the same.\<close>

definition New :: "world \<Rightarrow> (Event \<Rightarrow> Event) \<Rightarrow> (string \<Rightarrow> bool) \<Rightarrow> (string \<Rightarrow> fault) \<Rightarrow> Capabilities \<Rightarrow> runnerConfig \<Rightarrow> string gomap \<Rightarrow>
    persistedState \<Rightarrow> Runner option \<times> persistedState" where
  "New w rt prune_fails faults caps cfg files p =
     (case restart rt prune_fails caps cfg files p of
        (False, _) \<Rightarrow> (None, p)
      | (True, r) \<Rightarrow>
          (case recoverLocked (w_enc w) faults (w_now w) [] r of
             (Some _, _) \<Rightarrow> (None, p)
           | (None, r) \<Rightarrow>
               (case persist w 0 (snd (snd (purgeAttemptsLocked (w_purge w) r (w_now w))), p) of
                  (Some _, (_, p)) \<Rightarrow> (None, p)
                | (None, s) \<Rightarrow>
                    (case fold (\<lambda>i. scheduleCleanupLocked w 1 i) (map fst (attempts (fst s))) s of (r, p) \<Rightarrow> (Some r, p)))))"

end
