(* ===== verification/RunnerLife.thy ===== *)
theory RunnerLife
  imports RunnerExecution
begin

text \<open>
  What the runner promises of the life of its attempts, without receipts, events or files: which attempts there
  are, of which task and epoch and in which phase, which of them have a harness, which executions are not over, and
  what of it the state file says. An attempt enters under a newer epoch than every other of its task while there is
  room, or as a fence that nothing gets past; it has a harness only from acceptance on; it ends when its execution
  has.

  What each step of the runner's operations leaves alone, and what it does to the life of the attempts
  (\<open>RunnerLife\<close>): appending an event and saving move no attempt, changing a receipt moves its own.
\<close>

section \<open>States\<close>

datatype attempt_life = Life (life_task: string) (life_epoch: nat) (life_phase: string)

record life =
  lf_att :: "string \<Rightarrow> attempt_life option"
  lf_run :: "string set"
  lf_gate :: "string set"
  lf_saved :: "string \<Rightarrow> attempt_life option"

definition in_phase :: "string \<Rightarrow> attempt_life \<Rightarrow> attempt_life" where
  "in_phase p x = Life (life_task x) (life_epoch x) p"

lemma in_phase_simps [simp]:
  "life_phase (in_phase p x) = p" "life_task (in_phase p x) = life_task x" "life_epoch (in_phase p x) = life_epoch x"
  "in_phase p (in_phase q x) = in_phase p x" "in_phase p (Life t e q) = Life t e p"
  by (simp_all add: in_phase_def)

lemma in_phase_eq [simp]: "in_phase p x = in_phase q x \<longleftrightarrow> p = q"
  by (simp add: in_phase_def)

definition occupied :: "life \<Rightarrow> string set" where
  "occupied l = {i. \<exists>x. lf_att l i = Some x \<and> \<not> IsTerminal (life_phase x) \<and> \<not> (life_phase x = PhaseNeedsInput \<and> i \<notin> lf_gate l)}"

text \<open>Room for one more.\<close>

definition room :: "int \<Rightarrow> life \<Rightarrow> bool" where
  "room most l \<longleftrightarrow> finite (occupied l) \<and> int (card (occupied l)) < most"

definition newest :: "life \<Rightarrow> string \<Rightarrow> string \<Rightarrow> nat \<Rightarrow> bool" where
  "newest l i t e \<longleftrightarrow> (\<forall>j x. j \<noteq> i \<and> lf_att l j = Some x \<and> life_task x = t \<longrightarrow> life_epoch x < e)"

definition reopened_phase :: "string \<Rightarrow> string" where
  "reopened_phase p = (if IsTerminal p then p else PhaseNeedsInput)"

definition reopened :: "attempt_life \<Rightarrow> attempt_life" where
  "reopened x = in_phase (reopened_phase (life_phase x)) x"

section \<open>Steps\<close>

text \<open>\<open>X\<close> are the attempts that may enter.\<close>

inductive life_step :: "int \<Rightarrow> string set \<Rightarrow> life \<Rightarrow> life \<Rightarrow> bool" for most X where
  enter: "\<lbrakk>i \<in> X; lf_att l i = None; newest l i t e; room most l\<rbrakk> \<Longrightarrow>
    life_step most X l (l\<lparr>lf_att := (lf_att l)(i := Some (Life t e PhaseAccepted))\<rparr>)"
| withdraw: "\<lbrakk>lf_att l i = Some x; life_phase x = PhaseAccepted; i \<notin> lf_run l\<rbrakk> \<Longrightarrow>
    life_step most X l (l\<lparr>lf_att := (lf_att l)(i := None)\<rparr>)"
| fence: "\<lbrakk>i \<in> X; lf_att l i = None; newest l i t e\<rbrakk> \<Longrightarrow>
    life_step most X l (l\<lparr>lf_att := (lf_att l)(i := Some (Life t e PhaseCancelled)),
      lf_saved := (lf_att l)(i := Some (Life t e PhaseCancelled))\<rparr>)"
| fence_lost: "\<lbrakk>i \<in> X; lf_att l i = None; newest l i t e\<rbrakk> \<Longrightarrow>  \<comment> \<open>the file has it, the runner does not\<close>
    life_step most X l (l\<lparr>lf_saved := (lf_att l)(i := Some (Life t e PhaseCancelled))\<rparr>)"
| launch: "\<lbrakk>lf_att l i = Some x; life_phase x = PhaseAccepted; i \<notin> lf_run l\<rbrakk> \<Longrightarrow>
    life_step most X l (l\<lparr>lf_att := (lf_att l)(i := Some (in_phase PhaseStarting x)), lf_run := insert i (lf_run l),
      lf_gate := insert i (lf_gate l)\<rparr>)"
| launch_fails: "\<lbrakk>lf_att l i = Some x; life_phase x = PhaseStarting; i \<in> lf_gate l\<rbrakk> \<Longrightarrow>
    life_step most X l (l\<lparr>lf_att := (lf_att l)(i := Some (in_phase PhaseAccepted x)), lf_run := lf_run l - {i},
      lf_gate := lf_gate l - {i}\<rparr>)"
| resume: "\<lbrakk>lf_att l i = Some x; life_phase x = PhaseNeedsInput; room most l\<rbrakk> \<Longrightarrow>
    life_step most X l (l\<lparr>lf_att := (lf_att l)(i := Some (in_phase PhaseAccepted x))\<rparr>)"
| move: "\<lbrakk>lf_att l i = Some x; \<not> IsTerminal (life_phase x); \<not> IsTerminal p; p \<noteq> PhaseAccepted\<rbrakk> \<Longrightarrow>
    life_step most X l (l\<lparr>lf_att := (lf_att l)(i := Some (in_phase p x))\<rparr>)"
| harness_exits: "life_step most X l (l\<lparr>lf_gate := lf_gate l - {i}\<rparr>)"
| execution_ends: "i \<notin> lf_gate l \<Longrightarrow> life_step most X l (l\<lparr>lf_run := lf_run l - {i}\<rparr>)"
| attempt_ends: "\<lbrakk>lf_att l i = Some x; \<not> IsTerminal (life_phase x); i \<notin> lf_run l; p \<noteq> PhaseAccepted\<rbrakk> \<Longrightarrow>
    life_step most X l (l\<lparr>lf_att := (lf_att l)(i := Some (in_phase p x))\<rparr>)"
| forget: "\<lbrakk>lf_att l i = Some x; IsTerminal (life_phase x) \<or> life_phase x = PhaseNeedsInput; i \<notin> lf_run l; i \<notin> lf_gate l\<rbrakk> \<Longrightarrow>
    life_step most X l (l\<lparr>lf_att := (lf_att l)(i := None)\<rparr>)"
| saves: "life_step most X l (l\<lparr>lf_saved := lf_att l\<rparr>)"
| published: "\<lbrakk>lf_att l i = Some x; \<not> IsTerminal (life_phase x); i \<notin> lf_run l\<rbrakk> \<Longrightarrow>  \<comment> \<open>the file says it completed\<close>
    life_step most X l (l\<lparr>lf_saved := (lf_att l)(i := Some (in_phase PhaseCompleted x))\<rparr>)"
| reopen: "\<lbrakk>\<forall>i. S i = None \<or> S i = map_option reopened (lf_saved l i)\<rbrakk> \<Longrightarrow>
    life_step most X l (l\<lparr>lf_att := S, lf_run := {}, lf_gate := {}\<rparr>)"
| reopen_fails: "\<lbrakk>\<forall>i. S i = None \<or> S i = map_option reopened (lf_saved l i)\<rbrakk> \<Longrightarrow>
    life_step most X l (l\<lparr>lf_saved := S\<rparr>)"

text \<open>An empty runner, then any steps.\<close>

definition empty_life :: life where
  "empty_life = \<lparr>lf_att = \<lambda>_. None, lf_run = {}, lf_gate = {}, lf_saved = \<lambda>_. None\<rparr>"

definition life_steps :: "int \<Rightarrow> string set \<Rightarrow> life \<Rightarrow> life \<Rightarrow> bool" where
  "life_steps most X = (life_step most X)\<^sup>*\<^sup>*"

section \<open>The invariant\<close>

text \<open>What holds a place: a harness, or an attempt that is to get one.\<close>

definition held :: "life \<Rightarrow> string set" where
  "held l = lf_gate l \<union> {i. \<exists>x. lf_att l i = Some x \<and> life_phase x = PhaseAccepted}"

definition tasks_ok :: "(string \<Rightarrow> attempt_life option) \<Rightarrow> bool" where
  "tasks_ok m \<longleftrightarrow> (\<forall>i j x y. i \<noteq> j \<and> m i = Some x \<and> m j = Some y \<and> life_task x = life_task y \<longrightarrow> life_epoch x \<noteq> life_epoch y)"

definition life_ok :: "int \<Rightarrow> life \<Rightarrow> bool" where
  "life_ok most l \<longleftrightarrow> lf_gate l \<subseteq> lf_run l \<and>
     (\<forall>i \<in> lf_run l. \<exists>x. lf_att l i = Some x \<and> \<not> IsTerminal (life_phase x)) \<and>
     finite (held l) \<and> int (card (held l)) \<le> most \<and> tasks_ok (lf_att l) \<and> tasks_ok (lf_saved l)"

lemma held_occupied: "life_ok most l \<Longrightarrow> held l \<subseteq> occupied l"
  by (fastforce simp: life_ok_def held_def occupied_def)

lemma card_le_subset: "finite A \<Longrightarrow> int (card A) \<le> n \<Longrightarrow> B \<subseteq> A \<Longrightarrow> finite B \<and> int (card B) \<le> n"
  by (meson card_mono finite_subset of_nat_le_iff order_trans)

lemma held_room:
  assumes "life_ok most l" "room most l" "B \<subseteq> insert i (held l)"
  shows "finite B \<and> int (card B) \<le> most"
proof -
  have f: "finite (held l)" using assms(1) by (simp add: life_ok_def)
  have "card (held l) \<le> card (occupied l)"
    using held_occupied [OF assms(1)] assms(2) by (simp add: room_def card_mono)
  then have "int (card (insert i (held l))) \<le> most"
    using assms(2) f by (simp add: room_def card_insert_if)
  then show ?thesis using f assms(3) by (intro card_le_subset [of "insert i (held l)"]) auto
qed

lemma shrink_ok:
  assumes "life_ok most l" "held l' \<subseteq> held l" "lf_gate l' \<subseteq> lf_run l'"
    and "\<And>i. i \<in> lf_run l' \<Longrightarrow> \<exists>x. lf_att l' i = Some x \<and> \<not> IsTerminal (life_phase x)"
    and "tasks_ok (lf_att l')" "tasks_ok (lf_saved l')"
  shows "life_ok most l'"
  using assms card_le_subset [of "held l" most "held l'"] by (simp add: life_ok_def)

lemma tasks_ok_drop: "tasks_ok m \<Longrightarrow> tasks_ok (m(i := None))"
  unfolding tasks_ok_def by auto

lemma tasks_ok_phase: "tasks_ok m \<Longrightarrow> m i = Some x \<Longrightarrow> tasks_ok (m(i := Some (in_phase p x)))"
  unfolding tasks_ok_def by (metis (no_types, lifting) fun_upd_apply in_phase_simps(2,3) option.inject)

lemma tasks_ok_new:
  assumes "tasks_ok (lf_att l)" "newest l i t e"
  shows "tasks_ok ((lf_att l)(i := Some (Life t e p)))"
proof -
  have less: "life_epoch z < e" if "m \<noteq> i" "lf_att l m = Some z" "life_task z = t" for m z
    using assms(2) that by (simp add: newest_def)
  show ?thesis
    using assms(1) less unfolding tasks_ok_def by (auto split: if_splits) (metis less_irrefl)+
qed

lemma reopened_from:
  assumes "\<forall>i. S i = None \<or> S i = map_option reopened (m i)" "S i = Some x"
  shows "\<exists>y. m i = Some y \<and> x = reopened y"
  using assms(1) [rule_format, of i] assms(2) by (cases "m i") simp_all

lemma tasks_ok_reopened:
  assumes "tasks_ok m" "\<forall>i. S i = None \<or> S i = map_option reopened (m i)"
  shows "tasks_ok S"
  unfolding tasks_ok_def
proof (intro allI impI, elim conjE)
  fix i j x y
  assume h: "i \<noteq> j" "S i = Some x" "S j = Some y" "life_task x = life_task y"
  obtain x' y' where "m i = Some x'" "x = reopened x'" "m j = Some y'" "y = reopened y'"
    using reopened_from [OF assms(2) h(2)] reopened_from [OF assms(2) h(3)] by metis
  then show "life_epoch x \<noteq> life_epoch y" using assms(1) h(1,4) unfolding tasks_ok_def reopened_def by simp
qed

lemmas life_sets = life_ok_def held_def

lemma life_step_ok: "life_step most X l l' \<Longrightarrow> life_ok most l \<Longrightarrow> life_ok most l'"
proof (induction rule: life_step.induct)
  case (enter i l t e)
  have "held (l\<lparr>lf_att := (lf_att l)(i := Some (Life t e PhaseAccepted))\<rparr>) \<subseteq> insert i (held l)" by (auto simp: held_def)
  from held_room [OF enter.prems enter.hyps(4) this] show ?case
    using enter tasks_ok_new [of l i t e] by (auto simp: life_ok_def)
next
  case (withdraw l i x)
  show ?case by (rule shrink_ok [OF withdraw.prems]) (use withdraw in \<open>auto simp: life_sets intro: tasks_ok_drop\<close>)
next
  case (fence i l t e)
  show ?case by (rule shrink_ok [OF fence.prems]) (use fence in \<open>auto simp: life_sets intro: tasks_ok_new\<close>)
next
  case (fence_lost i l t e)
  show ?case by (rule shrink_ok [OF fence_lost.prems]) (use fence_lost in \<open>auto simp: life_sets intro: tasks_ok_new\<close>)
next
  case (launch l i x)
  show ?case by (rule shrink_ok [OF launch.prems]) (use launch in \<open>auto simp: life_sets intro: tasks_ok_phase\<close>)
next
  case (launch_fails l i x)
  show ?case by (rule shrink_ok [OF launch_fails.prems]) (use launch_fails in \<open>auto simp: life_sets intro: tasks_ok_phase\<close>)
next
  case (resume l i x)
  have "held (l\<lparr>lf_att := (lf_att l)(i := Some (in_phase PhaseAccepted x))\<rparr>) \<subseteq> insert i (held l)" by (auto simp: held_def)
  from held_room [OF resume.prems resume.hyps(3) this] show ?case
    using resume tasks_ok_phase [of "lf_att l", OF _ resume.hyps(1)] by (auto simp: life_ok_def)
next
  case (move l i x p)
  show ?case by (rule shrink_ok [OF move.prems]) (use move in \<open>auto simp: life_sets intro: tasks_ok_phase split: if_splits\<close>)
next
  case (harness_exits l i)
  show ?case by (rule shrink_ok [OF harness_exits]) (use harness_exits in \<open>auto simp: life_sets\<close>)
next
  case (execution_ends i l)
  show ?case by (rule shrink_ok [OF execution_ends.prems]) (use execution_ends in \<open>auto simp: life_sets\<close>)
next
  case (attempt_ends l i x p)
  show ?case
    by (rule shrink_ok [OF attempt_ends.prems]) (use attempt_ends in \<open>auto simp: life_sets intro: tasks_ok_phase split: if_splits\<close>)
next
  case (forget l i x)
  show ?case by (rule shrink_ok [OF forget.prems]) (use forget in \<open>auto simp: life_sets intro: tasks_ok_drop\<close>)
next
  case (saves l)
  then show ?case by (simp add: life_sets)
next
  case (published l i x)
  then show ?case using tasks_ok_phase [of "lf_att l" i x] by (simp add: life_sets)
next
  case (reopen S l)
  have "\<exists>x. S i = Some x \<and> life_phase x = PhaseAccepted \<Longrightarrow> False" for i
    using reopened_from [OF reopen.hyps, of i] by (auto simp: reopened_def reopened_phase_def split: if_splits)
  then have "held (l\<lparr>lf_att := S, lf_run := {}, lf_gate := {}\<rparr>) = {}" by (auto simp: held_def)
  then show ?case
    by (intro shrink_ok [OF reopen.prems]) (use reopen tasks_ok_reopened in \<open>auto simp: life_ok_def\<close>)
next
  case (reopen_fails S l)
  show ?case
    by (rule shrink_ok [OF reopen_fails.prems]) (use reopen_fails tasks_ok_reopened in \<open>auto simp: life_sets\<close>)
qed

lemma life_steps_ok: "life_steps most X l l' \<Longrightarrow> life_ok most l \<Longrightarrow> life_ok most l'"
  unfolding life_steps_def by (induction rule: rtranclp_induct) (auto intro: life_step_ok)

lemma empty_life_ok: "0 \<le> most \<Longrightarrow> life_ok most empty_life"
  by (simp add: life_ok_def empty_life_def held_def tasks_ok_def)

section \<open>A phase that is final\<close>

text \<open>As long as the attempt does not enter again, a terminal phase that the state file does not contradict stays,
  and nothing runs for it.\<close>

definition settled_as :: "string \<Rightarrow> string \<Rightarrow> life \<Rightarrow> bool" where
  "settled_as i p l \<longleftrightarrow> IsTerminal p \<and> (\<forall>x. lf_att l i = Some x \<longrightarrow> life_phase x = p) \<and>
     (\<forall>x. lf_saved l i = Some x \<longrightarrow> life_phase x = p) \<and> i \<notin> lf_run l \<and> i \<notin> lf_gate l"

lemma settled_reopened:
  assumes "settled_as i p l" "\<forall>i. S i = None \<or> S i = map_option reopened (lf_saved l i)" "S i = Some x"
  shows "life_phase x = p"
proof -
  obtain y where y: "lf_saved l i = Some y" "x = reopened y" using reopened_from [OF assms(2,3)] by blast
  then have "life_phase y = p" "IsTerminal p" using assms(1) by (simp_all add: settled_as_def)
  then show ?thesis by (simp add: y(2) reopened_def reopened_phase_def)
qed

lemma settled_step:
  assumes "life_step most X l l'" "settled_as i p l" "i \<notin> X"
  shows "settled_as i p l'"
  using assms
proof (induction rule: life_step.induct)
  case (reopen S l)
  then show ?case using settled_reopened [OF reopen.prems(1) reopen.hyps] by (simp add: settled_as_def)
next
  case (reopen_fails S l)
  then show ?case using settled_reopened [OF reopen_fails.prems(1) reopen_fails.hyps] by (simp add: settled_as_def)
qed (auto simp: settled_as_def split: if_splits)

lemma settled_steps: "life_steps most X l l' \<Longrightarrow> settled_as i p l \<Longrightarrow> i \<notin> X \<Longrightarrow> settled_as i p l'"
  unfolding life_steps_def by (induction rule: rtranclp_induct) (auto intro: settled_step)

section \<open>Several steps\<close>

lemma life_refl [simp]: "life_steps most X l l"
  by (simp add: life_steps_def)

lemma life_one: "life_step most X l l' \<Longrightarrow> life_steps most X l l'"
  by (simp add: life_steps_def)

lemma life_trans: "life_steps most X l m \<Longrightarrow> life_steps most X m n \<Longrightarrow> life_steps most X l n"
  by (simp add: life_steps_def)

lemma life_step_mono: "life_step most X l l' \<Longrightarrow> X \<subseteq> Y \<Longrightarrow> life_step most Y l l'"
  by (induction rule: life_step.induct) (auto intro: life_step.intros)

lemma life_steps_mono: "life_steps most X l l' \<Longrightarrow> X \<subseteq> Y \<Longrightarrow> life_steps most Y l l'"
  unfolding life_steps_def by (induction rule: rtranclp_induct) (auto intro: rtranclp.rtrancl_into_rtrancl life_step_mono)

section \<open>The life of a runner\<close>

definition receipt_life :: "AttemptReceipt \<Rightarrow> attempt_life" where
  "receipt_life rc = Life (rc_TaskID rc) (rc_AttemptEpoch rc) (rc_Phase rc)"

definition lives :: "attemptRecord gomap \<Rightarrow> string \<Rightarrow> attempt_life option" where
  "lives m i = map_option (\<lambda>a. receipt_life (ar_Receipt a)) (mget m i)"

definition life_of :: "live \<Rightarrow> life" where
  "life_of s = \<lparr>lf_att = lives (attempts (fst s)), lf_run = {i. mget (rn_running (fst s)) i \<noteq> None},
     lf_gate = {i. mget (rn_permissions (fst s)) i \<noteq> None}, lf_saved = lives (ps_Attempts (snd s))\<rparr>"

lemma life_of_simps [simp]:
  "lf_att (life_of s) = lives (attempts (fst s))" "lf_run (life_of s) = {i. mget (rn_running (fst s)) i \<noteq> None}"
  "lf_gate (life_of s) = {i. mget (rn_permissions (fst s)) i \<noteq> None}" "lf_saved (life_of s) = lives (ps_Attempts (snd s))"
  by (simp_all add: life_of_def)

lemma receipt_life_simps [simp]:
  "life_task (receipt_life rc) = rc_TaskID rc" "life_epoch (receipt_life rc) = rc_AttemptEpoch rc" "life_phase (receipt_life rc) = rc_Phase rc"
  by (simp_all add: receipt_life_def)

lemma receipt_life_eq:
  "receipt_life rc = receipt_life rc' \<longleftrightarrow>
     rc_TaskID rc = rc_TaskID rc' \<and> rc_AttemptEpoch rc = rc_AttemptEpoch rc' \<and> rc_Phase rc = rc_Phase rc'"
  by (simp add: receipt_life_def)

definition most_of :: "live \<Rightarrow> int" where
  "most_of s = cfg_MaximumCapacity (rn_cfg (fst s))"

text \<open>Distinct attempts under distinct names.\<close>

definition tidy :: "live \<Rightarrow> bool" where
  "tidy s \<longleftrightarrow> wf_map (attempts (fst s)) \<and> wf_map (ps_Attempts (snd s))"

definition good :: "live \<Rightarrow> bool" where
  "good s \<longleftrightarrow> tidy s \<and> life_ok (most_of s) (life_of s)"

text \<open>An operation is a sequence of steps in the life of the attempts; only those in \<open>X\<close> enter.\<close>

definition refines :: "string set \<Rightarrow> live \<Rightarrow> live \<Rightarrow> bool" where
  "refines X s s' \<longleftrightarrow> (good s \<longrightarrow> tidy s' \<and> rn_cfg (fst s') = rn_cfg (fst s) \<and> life_steps (most_of s) X (life_of s) (life_of s'))"

lemma refines_good: "refines X s s' \<Longrightarrow> good s \<Longrightarrow> good s'"
  using life_steps_ok by (fastforce simp: refines_def good_def most_of_def)

lemma refines_refl [simp]: "refines X s s"
  by (simp add: refines_def good_def)

lemma refines_trans: "refines X s t \<Longrightarrow> refines X t u \<Longrightarrow> refines X s u"
  using refines_good [of X s t] by (auto simp: refines_def most_of_def intro: life_trans)

lemma refines_mono: "refines X s t \<Longrightarrow> X \<subseteq> Y \<Longrightarrow> refines Y s t"
  by (auto simp: refines_def intro: life_steps_mono)

lemma refines_eq: "tidy s \<longrightarrow> tidy s' \<Longrightarrow> rn_cfg (fst s') = rn_cfg (fst s) \<Longrightarrow> life_of s' = life_of s \<Longrightarrow> refines X s s'"
  by (simp add: refines_def good_def)

lemma refines_step:
  assumes "tidy s \<longrightarrow> tidy s'" "rn_cfg (fst s') = rn_cfg (fst s)" "good s \<Longrightarrow> life_step (most_of s) X (life_of s) (life_of s')"
  shows "refines X s s'"
  using assms by (auto simp: refines_def good_def intro: life_one)

section \<open>Records of attempts\<close>

text \<open>Two maps with the same attempts but for what appending an event changes.\<close>

definition core :: "attemptRecord \<Rightarrow> attemptRecord" where
  "core a = a\<lparr>ar_EventJournalBytes := 0, ar_Receipt := (ar_Receipt a)\<lparr>rc_Cursor := 0, rc_UpdatedAt := 0\<rparr>\<rparr>"

definition same_attempts :: "attemptRecord gomap \<Rightarrow> attemptRecord gomap \<Rightarrow> bool" where
  "same_attempts m m' \<longleftrightarrow> map fst m' = map fst m \<and> (\<forall>i. map_option core (mget m' i) = map_option core (mget m i))"

lemma same_refl [simp]: "same_attempts m m"
  by (simp add: same_attempts_def)

lemma core_sel:
  "ar_Start (core a) = ar_Start a"
  "ar_Fingerprint (core a) = ar_Fingerprint a"
  "ar_Resources (core a) = ar_Resources a"
  "ar_CancelPending (core a) = ar_CancelPending a"
  "ar_LimitExceeded (core a) = ar_LimitExceeded a"
  "ar_ArtifactSpecs (core a) = ar_ArtifactSpecs a"
  "rc_TaskID (ar_Receipt (core a)) = rc_TaskID (ar_Receipt a)"
  "rc_AttemptEpoch (ar_Receipt (core a)) = rc_AttemptEpoch (ar_Receipt a)"
  "rc_Phase (ar_Receipt (core a)) = rc_Phase (ar_Receipt a)"
  "rc_AttemptID (ar_Receipt (core a)) = rc_AttemptID (ar_Receipt a)"
  "rc_SessionID (ar_Receipt (core a)) = rc_SessionID (ar_Receipt a)"
  "rc_Permission (ar_Receipt (core a)) = rc_Permission (ar_Receipt a)"
  "rc_Workdir (ar_Receipt (core a)) = rc_Workdir (ar_Receipt a)"
  "rc_LastError (ar_Receipt (core a)) = rc_LastError (ar_Receipt a)"
  "rc_Blocker (ar_Receipt (core a)) = rc_Blocker (ar_Receipt a)"
  by (simp_all add: core_def)

lemma core_fields:
  assumes "core a = core b"
  shows "ar_Start a = ar_Start b" "ar_Fingerprint a = ar_Fingerprint b" "ar_Resources a = ar_Resources b"
    "ar_CancelPending a = ar_CancelPending b" "ar_LimitExceeded a = ar_LimitExceeded b" "ar_ArtifactSpecs a = ar_ArtifactSpecs b"
    "rc_TaskID (ar_Receipt a) = rc_TaskID (ar_Receipt b)" "rc_AttemptEpoch (ar_Receipt a) = rc_AttemptEpoch (ar_Receipt b)"
    "phase a = phase b" "rc_AttemptID (ar_Receipt a) = rc_AttemptID (ar_Receipt b)" "rc_SessionID (ar_Receipt a) = rc_SessionID (ar_Receipt b)"
    "rc_Permission (ar_Receipt a) = rc_Permission (ar_Receipt b)" "rc_Workdir (ar_Receipt a) = rc_Workdir (ar_Receipt b)"
    "rc_LastError (ar_Receipt a) = rc_LastError (ar_Receipt b)" "rc_Blocker (ar_Receipt a) = rc_Blocker (ar_Receipt b)"
  using arg_cong [OF assms, of "\<lambda>a. ar_Start a"]
    arg_cong [OF assms, of "\<lambda>a. ar_Fingerprint a"]
    arg_cong [OF assms, of "\<lambda>a. ar_Resources a"]
    arg_cong [OF assms, of "\<lambda>a. ar_CancelPending a"]
    arg_cong [OF assms, of "\<lambda>a. ar_LimitExceeded a"]
    arg_cong [OF assms, of "\<lambda>a. ar_ArtifactSpecs a"]
    arg_cong [OF assms, of "\<lambda>a. rc_TaskID (ar_Receipt a)"]
    arg_cong [OF assms, of "\<lambda>a. rc_AttemptEpoch (ar_Receipt a)"]
    arg_cong [OF assms, of "\<lambda>a. rc_Phase (ar_Receipt a)"]
    arg_cong [OF assms, of "\<lambda>a. rc_AttemptID (ar_Receipt a)"]
    arg_cong [OF assms, of "\<lambda>a. rc_SessionID (ar_Receipt a)"]
    arg_cong [OF assms, of "\<lambda>a. rc_Permission (ar_Receipt a)"]
    arg_cong [OF assms, of "\<lambda>a. rc_Workdir (ar_Receipt a)"]
    arg_cong [OF assms, of "\<lambda>a. rc_LastError (ar_Receipt a)"]
    arg_cong [OF assms, of "\<lambda>a. rc_Blocker (ar_Receipt a)"]
  by (simp_all only: core_sel)

lemma same_attemptsD:
  assumes "same_attempts m m'" "mget m i = Some a"
  obtains b where "mget m' i = Some b" "core b = core a"
  using assms unfolding same_attempts_def by (metis map_option_eq_Some)

lemma same_attempts_None: "same_attempts m m' \<Longrightarrow> mget m' i = None \<longleftrightarrow> mget m i = None"
  unfolding same_attempts_def by (metis map_option_is_None)

lemma same_lives: "same_attempts m m' \<Longrightarrow> lives m' = lives m"
proof
  fix i assume s: "same_attempts m m'"
  show "lives m' i = lives m i"
  proof (cases "mget m i")
    case None
    then show ?thesis using same_attempts_None [OF s] by (simp add: lives_def)
  next
    case (Some a)
    then obtain b where "mget m' i = Some b" "core b = core a" by (rule same_attemptsD [OF s])
    note b = this
    have "receipt_life (ar_Receipt b) = receipt_life (ar_Receipt a)"
      using core_fields(7-9) [OF b(2)] by (simp add: receipt_life_eq)
    then show ?thesis using Some b(1) by (simp add: lives_def)
  qed
qed

lemma same_wf: "same_attempts m m' \<Longrightarrow> wf_map m' \<longleftrightarrow> wf_map m"
  by (simp add: same_attempts_def wf_map_def)

lemma mput_known_keys: "mget m i \<noteq> None \<Longrightarrow> map fst (mput i a m) = map fst m"
  by (simp add: mput_def update_keys mget_def map_of_eq_None_iff)

lemma same_mput: "mget m i = Some a \<Longrightarrow> core b = core a \<Longrightarrow> same_attempts m (mput i b m)"
  by (simp add: same_attempts_def mput_known_keys)

section \<open>Appending and saving\<close>

lemma append_frame:
  assumes "append_event w k i t message data r = (e, r')"
  shows "\<exists>st m es. r' = r\<lparr>rn_store := st, rn_state := (rn_state r)\<lparr>ps_Attempts := m, ps_Events := es\<rparr>\<rparr> \<and> same_attempts (attempts r) m"
proof -
  have "r' = r \<or> (\<exists>st. r' = r\<lparr>rn_store := st\<rparr>) \<or> (\<exists>a b st es. mget (attempts r) i = Some a \<and> core b = core a \<and>
      r' = r\<lparr>rn_store := st, rn_state := (rn_state r)\<lparr>ps_Attempts := mput i b (attempts r), ps_Events := es\<rparr>\<rparr>)"
  proof (cases "mget (attempts r) i")
    case None
    then show ?thesis using assms by (simp add: append_event_def appendEventLocked_def)
  next
    case (Some a)
    let ?ev = "next_event r i a (w_now w) t message data"
    show ?thesis
    proof (cases "int (length data) > cfg_MaxEventBytes (rn_cfg r)")
      case True
      then show ?thesis using assms Some by (simp add: append_event_def appendEventLocked_def)
    next
      case False
      obtain jr st where app: "appendEvent (w_enc w) (w_append w k) (rn_store r) i (ar_EventJournalBytes a) (hot r i) ?ev = (jr, st)"
        by fastforce
      show ?thesis
      proof (cases jr)
        case (Inl err)
        then show ?thesis using assms Some False app by (auto simp: append_event_def appendEventLocked_def Let_def)
      next
        case (Inr n)
        let ?b = "a\<lparr>ar_EventJournalBytes := n, ar_Receipt := (ar_Receipt a)\<lparr>rc_Cursor := ev_Cursor ?ev, rc_UpdatedAt := w_now w\<rparr>\<rparr>"
        have "core ?b = core a" by (simp add: core_def)
        then show ?thesis using assms Some False app Inr by (auto simp: append_event_def appendEventLocked_def Let_def)
      qed
    qed
  qed
  then show ?thesis
  proof (elim disjE exE conjE)
    assume "r' = r"
    then show ?thesis by (intro exI [of _ "rn_store r"] exI [of _ "attempts r"] exI [of _ "ps_Events (rn_state r)"]) simp
  next
    fix st assume "r' = r\<lparr>rn_store := st\<rparr>"
    then show ?thesis by (intro exI [of _ st] exI [of _ "attempts r"] exI [of _ "ps_Events (rn_state r)"]) simp
  next
    fix a b st es assume h: "mget (attempts r) i = Some a" "core b = core a"
      "r' = r\<lparr>rn_store := st, rn_state := (rn_state r)\<lparr>ps_Attempts := mput i b (attempts r), ps_Events := es\<rparr>\<rparr>"
    show ?thesis using h(3) same_mput [OF h(1,2)] by blast
  qed
qed

lemma append_quiet:
  assumes "append_event w k i t message data r = (e, r')"
  shows "rn_cfg r' = rn_cfg r" "rn_capabilities r' = rn_capabilities r" "rn_running r' = rn_running r"
    "rn_permissions r' = rn_permissions r" "rn_credentials r' = rn_credentials r" "rn_shutdown r' = rn_shutdown r"
    "rn_closed r' = rn_closed r" "rn_answers r' = rn_answers r" "ps_Operations (rn_state r') = ps_Operations (rn_state r)"
    "ps_Artifacts (rn_state r') = ps_Artifacts (rn_state r)" "ps_Reservations (rn_state r') = ps_Reservations (rn_state r)"
    "ps_Environments (rn_state r') = ps_Environments (rn_state r)" "same_attempts (attempts r) (attempts r')"
  using append_frame [OF assms] by auto

lemma persist_frame:
  assumes "persist w k s = (e, s')"
  shows "\<exists>st. fst s' = (fst s)\<lparr>rn_store := st\<rparr>"
    "snd s' = snd s \<or> snd s' = (rn_state (fst s))\<lparr>ps_Events := saved_events (rn_state (fst s))\<rparr>"
    "e = None \<Longrightarrow> snd s' = (rn_state (fst s))\<lparr>ps_Events := saved_events (rn_state (fst s))\<rparr>"
proof -
  let ?snap = "(rn_state (fst s))\<lparr>ps_Events := saved_events (rn_state (fst s))\<rparr>"
  obtain b st where sync: "syncJournals (w_sync w k) (rn_store (fst s)) = (b, st)" by fastforce
  have "(\<exists>st. fst s' = (fst s)\<lparr>rn_store := st\<rparr>) \<and> (snd s' = snd s \<or> snd s' = ?snap) \<and> (e = None \<longrightarrow> snd s' = ?snap)"
  proof (cases "b \<and> w_save w k = NoSaveFault")
    case True
    obtain c s2 where "close_idle (w_close w k) (rn_state (fst s)) (map fst (ss_journals st)) st = (c, s2)" by fastforce
    then show ?thesis using assms sync True by (auto simp: persist_def persistLocked_def save_def Let_def)
  next
    case False
    then show ?thesis using assms sync
      by (cases "w_save w k") (auto simp: persist_def persistLocked_def save_def Let_def split: if_splits)
  qed
  then show "\<exists>st. fst s' = (fst s)\<lparr>rn_store := st\<rparr>"
    "snd s' = snd s \<or> snd s' = ?snap" "e = None \<Longrightarrow> snd s' = ?snap" by auto
qed

lemma persist_quiet:
  assumes "persist w k s = (e, s')"
  shows "rn_cfg (fst s') = rn_cfg (fst s)" "rn_capabilities (fst s') = rn_capabilities (fst s)" "rn_running (fst s') = rn_running (fst s)"
    "rn_permissions (fst s') = rn_permissions (fst s)" "rn_credentials (fst s') = rn_credentials (fst s)"
    "rn_shutdown (fst s') = rn_shutdown (fst s)" "rn_closed (fst s') = rn_closed (fst s)" "rn_answers (fst s') = rn_answers (fst s)"
    "rn_state (fst s') = rn_state (fst s)"
  using persist_frame(1) [OF assms] by auto

lemma append_refines:
  assumes "append_event w k i t message data r = (e, r')"
  shows "refines X (r, p) (r', p)"
proof -
  note q = append_quiet [OF assms]
  show ?thesis using q same_wf [OF q(13)] same_lives [OF q(13)] by (intro refines_eq) (simp_all add: tidy_def life_of_def)
qed

lemma persist_refines:
  assumes "persist w k s = (e, s')"
  shows "refines X s s'"
proof -
  note q = persist_quiet [OF assms] and f = persist_frame(2) [OF assms]
  show ?thesis
  proof (cases "snd s' = snd s")
    case True
    then show ?thesis using q by (intro refines_eq) (simp_all add: tidy_def life_of_def)
  next
    case False
    then have p: "ps_Attempts (snd s') = attempts (fst s)" using f by auto
    have "life_of s' = (life_of s)\<lparr>lf_saved := lf_att (life_of s)\<rparr>" using q p by (simp add: life_of_def)
    then have "life_step (most_of s) X (life_of s) (life_of s')" by (simp only:) (rule life_step.saves)
    then show ?thesis using q p by (intro refines_step) (simp_all add: tidy_def)
  qed
qed

section \<open>Changing a record\<close>

lemma set_attempt_mget [simp]:
  "mget (attempts (set_attempt i f r)) j = (if j = i then map_option f (mget (attempts r) i) else mget (attempts r) j)"
  by (simp add: set_attempt_def split: option.split)

lemma set_attempt_quiet [simp]:
  "rn_cfg (set_attempt i f r) = rn_cfg r" "rn_capabilities (set_attempt i f r) = rn_capabilities r"
  "rn_running (set_attempt i f r) = rn_running r" "rn_permissions (set_attempt i f r) = rn_permissions r"
  "rn_credentials (set_attempt i f r) = rn_credentials r" "rn_shutdown (set_attempt i f r) = rn_shutdown r"
  "rn_closed (set_attempt i f r) = rn_closed r" "rn_answers (set_attempt i f r) = rn_answers r"
  "rn_store (set_attempt i f r) = rn_store r"
  "ps_Events (rn_state (set_attempt i f r)) = ps_Events (rn_state r)"
  "ps_Operations (rn_state (set_attempt i f r)) = ps_Operations (rn_state r)"
  "ps_Artifacts (rn_state (set_attempt i f r)) = ps_Artifacts (rn_state r)"
  "ps_Reservations (rn_state (set_attempt i f r)) = ps_Reservations (rn_state r)"
  "ps_Environments (rn_state (set_attempt i f r)) = ps_Environments (rn_state r)"
  "map fst (attempts (set_attempt i f r)) = map fst (attempts r)"
  by (auto simp: set_attempt_def mput_known_keys split: option.split)

lemma set_attempt_wf [simp]: "wf_map (attempts (set_attempt i f r)) \<longleftrightarrow> wf_map (attempts r)"
  by (simp add: wf_map_def)

lemma lives_set_attempt:
  "lives (attempts (set_attempt i f r)) = (lives (attempts r))(i := map_option (\<lambda>a. receipt_life (ar_Receipt (f a))) (mget (attempts r) i))"
  by (auto simp: lives_def fun_eq_iff option.map_comp comp_def)

lemma set_receipt_mget [simp]:
  "mget (attempts (set_receipt i f r)) j =
     (if j = i then map_option (\<lambda>a. a\<lparr>ar_Receipt := f (ar_Receipt a)\<rparr>) (mget (attempts r) i) else mget (attempts r) j)"
  by (simp add: set_receipt_def)

lemma set_receipt_quiet [simp]:
  "rn_cfg (set_receipt i f r) = rn_cfg r" "rn_capabilities (set_receipt i f r) = rn_capabilities r"
  "rn_running (set_receipt i f r) = rn_running r" "rn_permissions (set_receipt i f r) = rn_permissions r"
  "rn_credentials (set_receipt i f r) = rn_credentials r" "rn_shutdown (set_receipt i f r) = rn_shutdown r"
  "rn_closed (set_receipt i f r) = rn_closed r" "rn_answers (set_receipt i f r) = rn_answers r"
  "rn_store (set_receipt i f r) = rn_store r"
  "ps_Events (rn_state (set_receipt i f r)) = ps_Events (rn_state r)"
  "ps_Operations (rn_state (set_receipt i f r)) = ps_Operations (rn_state r)"
  "ps_Artifacts (rn_state (set_receipt i f r)) = ps_Artifacts (rn_state r)"
  "ps_Reservations (rn_state (set_receipt i f r)) = ps_Reservations (rn_state r)"
  "ps_Environments (rn_state (set_receipt i f r)) = ps_Environments (rn_state r)"
  "map fst (attempts (set_receipt i f r)) = map fst (attempts r)"
  "wf_map (attempts (set_receipt i f r)) \<longleftrightarrow> wf_map (attempts r)"
  by (simp_all add: set_receipt_def)

lemma lives_set_receipt:
  "lives (attempts (set_receipt i f r)) = (lives (attempts r))(i := map_option (\<lambda>a. receipt_life (f (ar_Receipt a))) (mget (attempts r) i))"
  by (simp add: set_receipt_def lives_set_attempt)

lemma lives_Some: "mget m i = Some a \<Longrightarrow> lives m i = Some (receipt_life (ar_Receipt a))"
  by (simp add: lives_def)

lemma lives_None: "lives m i = None \<longleftrightarrow> mget m i = None"
  by (simp add: lives_def)

text \<open>Changes that keep task, epoch and phase, and changes of the phase.\<close>

lemma set_attempt_refines:
  assumes "\<And>a. ar_Receipt (f a) = ar_Receipt a"
  shows "refines X (r, p) (set_attempt i f r, p)"
proof -
  have "lives (attempts (set_attempt i f r)) = lives (attempts r)"
    unfolding lives_set_attempt assms by (simp add: fun_eq_iff lives_def)
  then show ?thesis by (intro refines_eq) (simp_all add: tidy_def life_of_def)
qed

lemma set_receipt_silent:
  assumes "\<And>rc. rc_TaskID (f rc) = rc_TaskID rc" "\<And>rc. rc_AttemptEpoch (f rc) = rc_AttemptEpoch rc" "\<And>rc. rc_Phase (f rc) = rc_Phase rc"
  shows "refines X (r, p) (set_receipt i f r, p)"
proof -
  have "receipt_life (f rc) = receipt_life rc" for rc using assms by (simp add: receipt_life_eq)
  then have "lives (attempts (set_receipt i f r)) = lives (attempts r)"
    unfolding lives_set_receipt by (simp add: fun_eq_iff lives_def)
  then show ?thesis by (intro refines_eq) (simp_all add: tidy_def life_of_def)
qed

lemma life_set_receipt:
  assumes "mget (attempts r) i = Some a" "receipt_life (f (ar_Receipt a)) = in_phase q (receipt_life (ar_Receipt a))"
  shows "life_of (set_receipt i f r, p) = (life_of (r, p))\<lparr>lf_att := (lf_att (life_of (r, p)))(i := Some (in_phase q (receipt_life (ar_Receipt a))))\<rparr>"
  using assms by (simp add: life_of_def lives_set_receipt)

lemma receipt_in_phase:
  "rc_TaskID rc' = rc_TaskID rc \<Longrightarrow> rc_AttemptEpoch rc' = rc_AttemptEpoch rc \<Longrightarrow> rc_Phase rc' = q \<Longrightarrow>
     receipt_life rc' = in_phase q (receipt_life rc)"
  by (simp add: receipt_life_def)

lemma set_receipt_move:
  assumes "mget (attempts r) i = Some a" "\<not> IsTerminal (phase a)" "\<not> IsTerminal q" "q \<noteq> PhaseAccepted"
    and "receipt_life (f (ar_Receipt a)) = in_phase q (receipt_life (ar_Receipt a))"
  shows "refines X (r, p) (set_receipt i f r, p)"
proof (rule refines_step)
  show "life_step (most_of (r, p)) X (life_of (r, p)) (life_of (set_receipt i f r, p))"
    unfolding life_set_receipt [where f = f, OF assms(1,5)]
    by (rule life_step.move) (use assms in \<open>simp_all add: lives_Some\<close>)
qed (simp_all add: tidy_def)

lemma set_receipt_keeps:
  assumes "mget (attempts r) i = Some a" "receipt_life (f (ar_Receipt a)) = receipt_life (ar_Receipt a)"
  shows "refines X (r, p) (set_receipt i f r, p)"
proof -
  have "lives (attempts (set_receipt i f r)) = lives (attempts r)"
    unfolding lives_set_receipt using assms by (simp add: fun_eq_iff lives_def)
  then show ?thesis by (intro refines_eq) (simp_all add: tidy_def life_of_def)
qed

section \<open>Changes beside the attempts\<close>

lemma silent_refines:
  assumes "rn_cfg r' = rn_cfg r" "attempts r' = attempts r" "rn_running r' = rn_running r" "rn_permissions r' = rn_permissions r"
  shows "refines X (r, p) (r', p)"
  using assms by (intro refines_eq) (simp_all add: tidy_def life_of_def)

lemma gate_refines: "mget (rn_permissions r) i \<noteq> None \<Longrightarrow> refines X (r, p) (set_gate i g r, p)"
  by (intro refines_eq) (auto simp: tidy_def life_of_def set_gate_def)

lemma flag_refines: "mget (rn_running r) i \<noteq> None \<Longrightarrow> refines X (r, p) (r\<lparr>rn_running := mput i b (rn_running r)\<rparr>, p)"
  by (intro refines_eq) (auto simp: tidy_def life_of_def)

lemma drop_gate_refines: "refines X (r, p) (drop_gate i r, p)"
proof (rule refines_step)
  have "life_of (drop_gate i r, p) = (life_of (r, p))\<lparr>lf_gate := lf_gate (life_of (r, p)) - {i}\<rparr>"
    by (auto simp: life_of_def drop_gate_def)
  then show "life_step (most_of (r, p)) X (life_of (r, p)) (life_of (drop_gate i r, p))"
    by (simp only:) (rule life_step.harness_exits)
qed (simp_all add: tidy_def drop_gate_def)

lemma forget_refines: "mget (rn_permissions r) i = None \<Longrightarrow> refines X (r, p) (forget_execution i r, p)"
proof (rule refines_step)
  assume g: "mget (rn_permissions r) i = None"
  have "life_of (forget_execution i r, p) = (life_of (r, p))\<lparr>lf_run := lf_run (life_of (r, p)) - {i}\<rparr>"
    by (auto simp: life_of_def forget_execution_def)
  then show "life_step (most_of (r, p)) X (life_of (r, p)) (life_of (forget_execution i r, p))"
    by (simp only:) (rule life_step.execution_ends, simp add: g)
qed (simp_all add: tidy_def forget_execution_def)

end
