(* ===== verification/RunnerRefines.thy ===== *)
theory RunnerRefines
  imports RunnerLife
begin

text \<open>
  Every operation of the runner is a sequence of steps in the life of its attempts (\<open>RunnerLife\<close>), whatever the
  world answers: launches, ends, permission prompts and events first, then what a coordinator asks for, the end of
  an execution, and a new process.

  The operations that move an attempt while its harness runs, and those that end it, as steps in the life of
  the attempts: permission prompts and their answers, events, results.

  What an execution does to the life of its attempt: each event its harness emits, the end of the harness, and the
  end of the export of its Git result.
\<close>

section \<open>Launching\<close>

lemma launch_step:
  assumes "mget (rn_running r) i = None" "mget (attempts r) i = Some a" "phase a = PhaseAccepted"
  shows "refines X (r, p) (begin_execution w i a r, p)"
proof (rule refines_step)
  have "life_of (begin_execution w i a r, p) = (life_of (r, p))\<lparr>
      lf_att := (lf_att (life_of (r, p)))(i := Some (in_phase PhaseStarting (receipt_life (ar_Receipt a)))),
      lf_run := insert i (lf_run (life_of (r, p))), lf_gate := insert i (lf_gate (life_of (r, p)))\<rparr>"
    using assms(2) by (auto simp: life_of_def begin_execution_def lives_set_receipt receipt_life_def)
  then show "life_step (most_of (r, p)) X (life_of (r, p)) (life_of (begin_execution w i a r, p))"
    by (simp only:) (rule life_step.launch, use assms in \<open>simp_all add: lives_Some\<close>)
qed (simp_all add: tidy_def begin_execution_def)

lemma begin_quiet [simp]:
  "rn_cfg (begin_execution w i a r) = rn_cfg r"
  "rn_credentials (begin_execution w i a r) = rn_credentials r" "rn_closed (begin_execution w i a r) = rn_closed r"
  "rn_answers (begin_execution w i a r) = rn_answers r"
  "ps_Operations (rn_state (begin_execution w i a r)) = ps_Operations (rn_state r)"
  by (simp_all add: begin_execution_def)

lemma undo_step:
  assumes "mget (attempts r) i = Some b" "phase b = PhaseStarting" "mget (rn_permissions r) i \<noteq> None" "phase a = PhaseAccepted"
  shows "refines X (r, p) (undo_execution i a r, p)"
proof (rule refines_step)
  have "life_of (undo_execution i a r, p) = (life_of (r, p))\<lparr>
      lf_att := (lf_att (life_of (r, p)))(i := Some (in_phase PhaseAccepted (receipt_life (ar_Receipt b)))),
      lf_run := lf_run (life_of (r, p)) - {i}, lf_gate := lf_gate (life_of (r, p)) - {i}\<rparr>"
    using assms by (auto simp: life_of_def undo_execution_def lives_set_receipt receipt_life_def)
  then show "life_step (most_of (r, p)) X (life_of (r, p)) (life_of (undo_execution i a r, p))"
    by (simp only:) (rule life_step.launch_fails, use assms in \<open>simp_all add: lives_Some\<close>)
qed (simp_all add: tidy_def undo_execution_def)

lemma startExecution_cases:
  assumes "startExecutionLocked w k i instructions model s = (res, s')" "s' \<noteq> s"
  obtains a e t where "mget (rn_running (fst s)) i = None" "mget (attempts (fst s)) i = Some a"
    "persist w k (begin_execution w i a (fst s), snd s) = (e, t)"
    "s' = (case e of None \<Rightarrow> t | Some _ \<Rightarrow> (undo_execution i a (fst t), snd t))"
proof -
  obtain a where a: "mget (rn_running (fst s)) i = None" "mget (attempts (fst s)) i = Some a"
    using assms unfolding startExecutionLocked_def Let_def by (cases "mget (rn_running (fst s)) i"; cases "mget (attempts (fst s)) i") simp_all
  obtain e t where p: "persist w k (begin_execution w i a (fst s), snd s) = (e, t)" by (rule prod.exhaust)
  have "s' = (case e of None \<Rightarrow> t | Some _ \<Rightarrow> (undo_execution i a (fst t), snd t))"
    using assms unfolding startExecutionLocked_def Let_def p a option.case
    by (simp add: p split: if_splits option.splits sum.splits prod.splits)
  then show thesis by (rule that [OF a p])
qed
lemma startExecution_refines:
  assumes "startExecutionLocked w k i instructions model s = (res, s')"
    and "\<And>a. mget (rn_running (fst s)) i = None \<Longrightarrow> mget (attempts (fst s)) i = Some a \<Longrightarrow> phase a = PhaseAccepted"
  shows "refines X s s'"
proof (cases "s' = s")
  case False
  obtain r p where s: "s = (r, p)" by (cases s)
  obtain a e t where a: "mget (rn_running r) i = None" "mget (attempts r) i = Some a"
    and pers: "persist w k (begin_execution w i a r, p) = (e, t)"
    and s': "s' = (case e of None \<Rightarrow> t | Some _ \<Rightarrow> (undo_execution i a (fst t), snd t))"
    by (rule startExecution_cases [OF assms(1) False]) (simp add: s)
  have acc: "phase a = PhaseAccepted" using assms(2) a by (simp add: s)
  have one: "refines X (r, p) t"
    by (rule refines_trans [OF launch_step [OF a acc] persist_refines [OF pers]])
  note q = persist_quiet [OF pers, simplified]
  have b: "mget (attempts (fst t)) i = Some (a\<lparr>ar_Receipt := (ar_Receipt a)\<lparr>rc_Phase := PhaseStarting, rc_Blocker := [], rc_UpdatedAt := w_now w\<rparr>\<rparr>)"
    using q(9) a(2) by (simp add: begin_execution_def)
  have "mget (rn_permissions (fst t)) i \<noteq> None" using q(4) by (simp add: begin_execution_def)
  from refines_trans [OF one, of "(undo_execution i a (fst t), snd t)"] undo_step [OF b _ this acc, of X "snd t"] one
  show ?thesis unfolding s s' by (simp split: option.split)
qed simp

section \<open>Ending\<close>

lemma scheduleCleanup_refines: "refines X s (scheduleCleanupLocked w k i s)"
proof -
  obtain r p where s: "s = (r, p)" by (cases s)
  define f where "f = (\<lambda>a :: attemptRecord. a\<lparr>ar_cleanupRunning := True, ar_CleanupAttempts := ar_CleanupAttempts a + 1\<rparr>)"
  define g where "g = (\<lambda>a :: attemptRecord. a\<lparr>ar_cleanupRunning := False, ar_CleanupAttempts := ar_CleanupAttempts a - 1\<rparr>)"
  obtain e r1 p1 where t: "persist w k (set_attempt i f r, p) = (e, r1, p1)" by (metis prod.exhaust)
  have "refines X (r, p) (set_attempt i f r, p)" by (rule set_attempt_refines) (simp add: f_def)
  then have one: "refines X (r, p) (r1, p1)" using persist_refines [OF t] refines_trans by blast
  have "refines X (r1, p1) (set_attempt i g r1, p1)" by (rule set_attempt_refines) (simp add: g_def)
  then have two: "refines X (r, p) (set_attempt i g r1, p1)" using one refines_trans by blast
  have "scheduleCleanupLocked w k i s \<in> {(r, p), (r1, p1), (set_attempt i g r1, p1)}"
    unfolding scheduleCleanupLocked_def s fst_conv snd_conv f_def [symmetric] g_def [symmetric] t
    by (cases "mget (attempts r) i"; cases e) simp_all
  then show ?thesis using one two unfolding s by (metis insertE refines_refl singletonD)
qed

lemma scheduleCleanup_running: "rn_running (fst (scheduleCleanupLocked w k i s)) = rn_running (fst s)"
proof -
  obtain e t where "persist w k (set_attempt i (\<lambda>a. a\<lparr>ar_cleanupRunning := True, ar_CleanupAttempts := ar_CleanupAttempts a + 1\<rparr>) (fst s), snd s) = (e, t)"
    by (rule prod.exhaust)
  note t = this
  show ?thesis using persist_quiet(3) [OF t] unfolding scheduleCleanupLocked_def t
    by (cases "mget (attempts (fst s)) i"; cases e) (simp_all add: split_beta)
qed

lemma append_lives:
  assumes "append_event w k i t message data r = (e, r')"
  shows "lives (attempts r') = lives (attempts r)" "wf_map (attempts r') \<longleftrightarrow> wf_map (attempts r)"
  using append_quiet(13) [OF assms] by (auto simp: same_lives same_wf)

lemma record_end_effect:
  assumes "lives (attempts r) i = Some x" "life_phase x = q"
  shows "\<exists>q'. (q' = q \<or> q' = PhaseFailed) \<and> lives (attempts (record_end w k i q blocker r)) = (lives (attempts r))(i := Some (in_phase q' x)) \<and>
    rn_cfg (record_end w k i q blocker r) = rn_cfg r \<and> rn_running (record_end w k i q blocker r) = rn_running r \<and>
    rn_permissions (record_end w k i q blocker r) = rn_permissions r \<and>
    wf_map (attempts (record_end w k i q blocker r)) = wf_map (attempts r)"
proof -
  have same: "lives (attempts r) = (lives (attempts r))(i := Some (in_phase q x))"
    using assms by (cases x) (auto simp: fun_eq_iff)
  obtain e r1 where app: "append_event w k i (final_event q) blocker [] r = (e, r1)" by fastforce
  note q1 = append_quiet [OF app] and l1 = append_lives [OF app]
  show ?thesis
  proof (cases "hot r i \<noteq> [] \<and> ev_Type (last (hot r i)) = final_event q \<and> q = PhaseNeedsInput")
    case True
    then have "record_end w k i q blocker r = r" by (simp add: record_end_def)
    then show ?thesis using same by auto
  next
    case False
    show ?thesis
    proof (cases e)
      case None
      then have "record_end w k i q blocker r = r1" using False app by (auto simp: record_end_def)
      then show ?thesis using same q1 l1 by auto
    next
      case (Some err)
      let ?f = "\<lambda>rc. rc\<lparr>rc_Blocker := boundedMessage (blocker @ '' (event journal unavailable: '' @ err @ '')''),
            rc_LastError := Some (internal_error (''record final event: '' @ err)),
            rc_Phase := (if q = PhaseCompleted then PhaseFailed else rc_Phase rc)\<rparr>"
      have r2: "record_end w k i q blocker r = set_receipt i ?f r1" using False app Some by (auto simp: record_end_def)
      have "lives (attempts r1) i = Some x" using l1(1) assms(1) by simp
      then obtain a where a: "mget (attempts r1) i = Some a" "x = receipt_life (ar_Receipt a)" by (auto simp: lives_def)
      let ?q = "if q = PhaseCompleted then PhaseFailed else q"
      have "receipt_life (?f (ar_Receipt a)) = in_phase ?q x" using a(2) assms(2) by (auto simp: receipt_life_def)
      then have "lives (attempts (set_receipt i ?f r1)) = (lives (attempts r))(i := Some (in_phase ?q x))"
        using a(1) l1(1) unfolding lives_set_receipt by simp
      then show ?thesis using q1 l1 unfolding r2 by (intro exI [of _ ?q]) auto
    qed
  qed
qed

lemma release_quiet [simp]:
  "rn_cfg (releaseResourcesLocked i ns r) = rn_cfg r" "attempts (releaseResourcesLocked i ns r) = attempts r"
  "rn_running (releaseResourcesLocked i ns r) = rn_running r" "rn_permissions (releaseResourcesLocked i ns r) = rn_permissions r"
  "rn_credentials (releaseResourcesLocked i ns r) = rn_credentials r" "ps_Operations (rn_state (releaseResourcesLocked i ns r)) = ps_Operations (rn_state r)"
  "ps_Events (rn_state (releaseResourcesLocked i ns r)) = ps_Events (rn_state r)" "rn_answers (releaseResourcesLocked i ns r) = rn_answers r"
  "rn_closed (releaseResourcesLocked i ns r) = rn_closed r" "rn_capabilities (releaseResourcesLocked i ns r) = rn_capabilities r"
  by (simp_all add: releaseResourcesLocked_def)

lemma put_quiet [simp]:
  "rn_cfg (put_reservations i ns r) = rn_cfg r" "attempts (put_reservations i ns r) = attempts r"
  "rn_running (put_reservations i ns r) = rn_running r" "rn_permissions (put_reservations i ns r) = rn_permissions r"
  "rn_credentials (put_reservations i ns r) = rn_credentials r" "ps_Operations (rn_state (put_reservations i ns r)) = ps_Operations (rn_state r)"
  "rn_answers (put_reservations i ns r) = rn_answers r" "rn_closed (put_reservations i ns r) = rn_closed r"
  "rn_capabilities (put_reservations i ns r) = rn_capabilities r"
  by (simp_all add: put_reservations_def)

lemma drop_credential_quiet [simp]:
  "rn_cfg (drop_credential i r) = rn_cfg r" "rn_state (drop_credential i r) = rn_state r" "rn_running (drop_credential i r) = rn_running r"
  "rn_permissions (drop_credential i r) = rn_permissions r" "rn_answers (drop_credential i r) = rn_answers r"
  by (simp_all add: drop_credential_def)

lemma finish_refines:
  assumes "mget (rn_running (fst s)) i = None" "q \<noteq> PhaseAccepted" "q \<noteq> PhaseCancelling"
  shows "refines X s (finishLocked w k i q blocker lastErr s)"
proof -
  obtain r p where s: "s = (r, p)" by (cases s)
  show ?thesis
  proof (cases "mget (attempts r) i")
    case None
    then show ?thesis by (simp add: finishLocked_def s)
  next
    case (Some a)
    let ?r1 = "set_receipt i (end_receipt w q blocker lastErr) r"
    let ?r2 = "record_end w k i q blocker ?r1"
    let ?r3 = "releaseResourcesLocked i (ar_Resources a) ?r2"
    let ?r4 = "if IsTerminal q \<or> q = PhaseNeedsInput then drop_credential i ?r3 else ?r3"
    let ?x = "receipt_life (ar_Receipt a)"
    show ?thesis
    proof (cases "IsTerminal (phase a)")
      case True
      then show ?thesis using Some assms(3) by (simp add: finishLocked_def s)
    next
      case False
      have l1: "lives (attempts ?r1) = (lives (attempts r))(i := Some (in_phase q ?x))"
        using Some by (simp add: lives_set_receipt end_receipt_def receipt_life_def)
      obtain q' where q': "q' = q \<or> q' = PhaseFailed" "lives (attempts ?r2) = (lives (attempts ?r1))(i := Some (in_phase q' (in_phase q ?x)))"
        and r2: "rn_cfg ?r2 = rn_cfg ?r1" "rn_running ?r2 = rn_running ?r1" "rn_permissions ?r2 = rn_permissions ?r1"
          "wf_map (attempts ?r2) = wf_map (attempts ?r1)"
        using record_end_effect [of ?r1 i "in_phase q ?x" q w k blocker] l1 by auto
      have r4: "rn_cfg ?r4 = rn_cfg r" "rn_running ?r4 = rn_running r" "rn_permissions ?r4 = rn_permissions r"
          "wf_map (attempts ?r4) = wf_map (attempts r)" "lives (attempts ?r4) = (lives (attempts r))(i := Some (in_phase q' ?x))"
        using r2 q'(2) l1 by auto
      have "refines X (r, p) (?r4, p)"
      proof (rule refines_step)
        have "life_of (?r4, p) = (life_of (r, p))\<lparr>lf_att := (lf_att (life_of (r, p)))(i := Some (in_phase q' ?x))\<rparr>"
          using r4 by (simp add: life_of_def del: if_split)
        then show "life_step (most_of (r, p)) X (life_of (r, p)) (life_of (?r4, p))"
          by (simp only:) (rule life_step.attempt_ends, use Some False assms q'(1) in \<open>auto simp: lives_Some s\<close>)
      qed (use r4 in \<open>simp_all add: tidy_def del: if_split\<close>)
      moreover have "refines X (?r4, p) (snd (persist w k (?r4, p)))"
        by (rule persist_refines [of _ _ _ "fst (persist w k (?r4, p))"]) simp
      ultimately have "refines X (r, p) (snd (persist w k (?r4, p)))" by (rule refines_trans)
      from refines_trans [OF this scheduleCleanup_refines]
      have "refines X (r, p) (scheduleCleanupLocked w (k + 1) i (snd (persist w k (?r4, p))))" .
      moreover have "finishLocked w k i q blocker lastErr s = scheduleCleanupLocked w (k + 1) i (snd (persist w k (?r4, p)))"
        unfolding finishLocked_def s fst_conv snd_conv Some option.case Let_def using False by (simp only: simp_thms if_False)
      ultimately show ?thesis by (simp only: s)
    qed
  qed
qed

lemma end_with_refines:
  assumes "mget (rn_permissions (fst s)) i = None" "q \<noteq> PhaseAccepted" "q \<noteq> PhaseCancelling"
  shows "refines X s (end_with w k i q blocker lastErr s)"
proof -
  have "refines X (fst s, snd s) (forget_execution i (fst s), snd s)" by (rule forget_refines [OF assms(1)])
  moreover have "mget (rn_running (forget_execution i (fst s))) i = None" by (simp add: forget_execution_def)
  then have "refines X (forget_execution i (fst s), snd s) (end_with w k i q blocker lastErr s)"
    unfolding end_with_def by (intro finish_refines assms(2,3)) simp
  ultimately show ?thesis using refines_trans by (metis prod.collapse)
qed

section \<open>Permissions\<close>

lemma gate_quiet [simp]:
  "attempts (set_gate i g r) = attempts r" "rn_cfg (set_gate i g r) = rn_cfg r" "rn_running (set_gate i g r) = rn_running r"
  "mget (rn_permissions (set_gate i g r)) j = (if j = i then Some g else mget (rn_permissions r) j)"
  "rn_state (set_gate i g r) = rn_state r" "rn_answers (set_gate i g r) = rn_answers r"
  by (simp_all add: set_gate_def)

lemma park_refines:
  assumes "parkOnPermission w i q s = (res, s')"
  shows "refines X s s'"
proof (cases "s' = s")
  case False
  obtain r p where s: "s = (r, p)" by (cases s)
  obtain a g where a: "mget (attempts r) i = Some a" "\<not> (IsTerminal (phase a) \<or> phase a = PhaseCancelling)" "mget (rn_permissions r) i = Some g"
    using assms False unfolding parkOnPermission_def s by (auto simp: Let_def split: option.splits if_splits)
  define g1 where "g1 = gate_clock (clock_pause (w_now w)) (gate_open (pr_ID q) g)"
  define g2 where "g2 = gate_clock (clock_unpause (w_now w)) (gate_close g1)"
  let ?r = "set_receipt i (park_receipt w q) (set_gate i g1 r)"
  obtain e1 r1 where app: "append_event w 0 i EventNeedsInput (permissionBlocker q) [] ?r = (e1, r1)" by (rule prod.exhaust)
  obtain e2 r2 p2 where pers: "persist w 0 (r1, p) = (e2, r2, p2)" by (metis prod.exhaust)
  have "refines X (set_gate i g1 r, p) (?r, p)"
    by (rule set_receipt_move [where q = PhaseNeedsInput])
      (use a in \<open>auto simp: park_receipt_def receipt_life_def\<close>)
  then have "refines X (r, p) (?r, p)" using gate_refines [of r i X p g1] a(3) refines_trans by fastforce
  then have to1: "refines X (r, p) (r1, p)" using append_refines [OF app] refines_trans by blast
  have back1: "refines X (r, p) (set_gate i g2 r1, p)"
    using to1 gate_refines [of r1 i X p g2] append_quiet(4) [OF app] refines_trans by fastforce
  have to2: "refines X (r, p) (r2, p2)" using to1 persist_refines [OF pers] refines_trans by blast
  have back2: "refines X (r, p) (set_gate i g2 r2, p2)"
    using to2 gate_refines [of r2 i X p2 g2] append_quiet(4) [OF app] persist_quiet(4) [OF pers] refines_trans by fastforce
  have "s' = (if e1 \<noteq> None then (set_gate i g2 r1, p) else if e2 \<noteq> None then (set_gate i g2 r2, p2) else (r2, p2))"
    using assms a(2) unfolding parkOnPermission_def s
    unfolding fst_conv snd_conv Let_def a(1,3) option.case g1_def [symmetric] g2_def [symmetric] app pers
    by (cases e1; cases e2; cases res) (simp_all add: pers)
  then show ?thesis unfolding s using back1 back2 to2 by simp
qed simp

lemma ask_refines: "AskPermission w i q s = (res, s') \<Longrightarrow> refines X s s'"
  by (auto simp: AskPermission_def Let_def split: if_splits intro: park_refines)

lemma abandon_refines: "refines X s (abandonPermission w i requestID s)"
proof -
  obtain r p where s: "s = (r, p)" by (cases s)
  define r1 where "r1 = (case mget (rn_permissions r) i of None \<Rightarrow> r
    | Some g \<Rightarrow> set_gate i (gate_clock (clock_unpause (w_now w)) (gate_close g)) r)"
  have one: "refines X (r, p) (r1, p)" using gate_refines [of r i] by (auto simp: r1_def split: option.split)
  let ?f = "\<lambda>rc. rc\<lparr>rc_Permission := None, rc_UpdatedAt := w_now w\<rparr>"
  obtain e t where t: "persist w 0 (set_receipt i ?f r1, p) = (e, t)" by (rule prod.exhaust)
  have "refines X (r1, p) (set_receipt i ?f r1, p)" by (rule set_receipt_silent) simp_all
  then have "refines X (r, p) t" using one persist_refines [OF t] refines_trans by blast
  moreover have "abandonPermission w i requestID s \<in> {(r1, p), t}"
    unfolding abandonPermission_def s fst_conv snd_conv Let_def r1_def [symmetric] using t by (auto split: option.split)
  ultimately show ?thesis using one s by auto
qed

lemma answer_refines:
  assumes "answerPermissionLocked w i requestID verdict s = (res, s')" "mget (attempts (fst s)) i = Some a" "phase a = PhaseNeedsInput"
  shows "refines X s s'"
proof -
  obtain r p where s: "s = (r, p)" by (cases s)
  show ?thesis
  proof (cases "s' = s")
    case False
    then obtain g r0 where g: "mget (rn_permissions r) i = Some g" "deliver i requestID verdict g r = Some r0"
      using assms(1) unfolding answerPermissionLocked_def s by (auto simp: Let_def split: option.splits)
    let ?g = "gate_clock (clock_unpause (w_now w)) (gate_close g)"
    have r0: "attempts r0 = attempts r" "rn_cfg r0 = rn_cfg r" "rn_running r0 = rn_running r" "mget (rn_permissions r0) i \<noteq> None"
        "{j. mget (rn_permissions r0) j \<noteq> None} = {j. mget (rn_permissions r) j \<noteq> None}"
      using g by (auto simp: deliver_def split: if_splits)
    let ?r = "set_receipt i (answer_receipt w) (set_gate i ?g r0)"
    let ?m = "if pv_Allow verdict then ''permission granted'' else ''permission denied''"
    obtain e1 r1 where app: "append_event w 0 i EventProgress ?m [] ?r = (e1, r1)" by (rule prod.exhaust)
    obtain e2 t where pers: "persist w 0 (r1, p) = (e2, t)" by (rule prod.exhaust)
    have one: "refines X (r, p) (r0, p)" using r0 by (intro refines_eq) (simp_all add: tidy_def life_of_def)
    have two: "refines X (set_gate i ?g r0, p) (?r, p)"
      by (rule set_receipt_move [where q = PhaseRunning])
        (use assms(2,3) s r0 in \<open>auto simp: answer_receipt_def receipt_life_def\<close>)
    note to1 = refines_trans [OF refines_trans [OF one gate_refines [OF r0(4)]] refines_trans [OF two append_refines [OF app]]]
    note to2 = refines_trans [OF to1 persist_refines [OF pers]]
    have "s' \<in> {(r1, p), t}"
      using assms(1) False g app pers unfolding answerPermissionLocked_def s by (auto simp: Let_def split: if_splits option.splits)
    then show ?thesis using to1 to2 s by auto
  qed simp
qed

section \<open>Events\<close>

lemma fail_refines:
  assumes "failHarnessEventLocked w k i failure s = (res, s')" "\<And>a. mget (attempts (fst s)) i = Some a \<Longrightarrow> \<not> IsTerminal (phase a)"
  shows "refines X s s'"
proof (cases "s' = s")
  case False
  obtain r p where s: "s = (r, p)" by (cases s)
  obtain a where a: "mget (attempts r) i = Some a" "rc_LastError (ar_Receipt a) = None"
    using assms(1) False unfolding failHarnessEventLocked_def s Let_def
    by (cases "mget (attempts r) i"; cases "rc_LastError (ar_Receipt (the (mget (attempts r) i)))") simp_all
  define m where "m = (if failure = [] then ''harness event handling failed'' else failure)"
  define f where "f = (\<lambda>rc :: AttemptReceipt. rc\<lparr>rc_Phase := PhaseCancelling, rc_Blocker := m, rc_LastError := Some (internal_error m), rc_UpdatedAt := w_now w\<rparr>)"
  let ?r0 = "set_attempt i (\<lambda>a. a\<lparr>ar_CancelPending := True\<rparr>) r"
  obtain e1 r1 where app: "append_event w k i EventProgress m [] (set_receipt i f ?r0) = (e1, r1)" by (rule prod.exhaust)
  obtain e2 r2 p2 where pers: "persist w k (r1, p) = (e2, r2, p2)" by (metis prod.exhaust)
  have one: "refines X (r, p) (?r0, p)" by (rule set_attempt_refines) simp
  have two: "refines X (?r0, p) (set_receipt i f ?r0, p)"
    by (rule set_receipt_move [where a = "a\<lparr>ar_CancelPending := True\<rparr>" and q = PhaseCancelling]) (use a(1) assms(2) [of a] s in \<open>simp_all add: f_def receipt_life_def\<close>)
  note to = refines_trans [OF refines_trans [OF one two] refines_trans [OF append_refines [OF app] persist_refines [OF pers]]]
  have "s' = snd (failHarnessEventLocked w k i failure s)" by (simp add: assms(1))
  also have "... = (if mget (rn_running r2) i = None then r2 else r2\<lparr>rn_running := mput i True (rn_running r2)\<rparr>, p2)"
    unfolding failHarnessEventLocked_def s fst_conv snd_conv Let_def m_def [symmetric] f_def [symmetric] a(1) option.case app
    by (simp add: a(2) pers)
  finally show ?thesis unfolding s using to refines_trans [OF to flag_refines [of r2 i]] by simp
qed simp

lemma store_artifact_silent:
  "refines X (r, p) (store_artifact i art path r, p)" "lives (attempts (store_artifact i art path r)) = lives (attempts r)"
proof -
  show l: "lives (attempts (store_artifact i art path r)) = lives (attempts r)"
    by (auto simp: store_artifact_def lives_set_receipt receipt_life_def lives_def fun_eq_iff)
  show "refines X (r, p) (store_artifact i art path r, p)"
    using l by (intro refines_eq) (simp_all add: tidy_def life_of_def store_artifact_def)
qed

lemma recordArtifact_cases:
  assumes "recordArtifactLocked w i a data r = (e, r')"
  shows "r' = r \<or> (\<exists>art path. r' = store_artifact i art path r)"
proof (rule ccontr)
  assume "\<not> ?thesis"
  then have "r \<noteq> r'" "\<And>art path. store_artifact i art path r \<noteq> r'" by blast+
  then show False
    using assms unfolding recordArtifactLocked_def Let_def
    by (simp split: option.splits prod.splits if_split_asm)
qed

lemma artifact_quiet:
  assumes "recordArtifactLocked w i a data r = (e, r')"
  shows "refines X (r, p) (r', p)" "lives (attempts r') = lives (attempts r)"
  using recordArtifact_cases [OF assms] store_artifact_silent by auto

section \<open>An attempt that is not over\<close>

definition working :: "string \<Rightarrow> live \<Rightarrow> bool" where
  "working i s \<longleftrightarrow> (\<forall>x. lives (attempts (fst s)) i = Some x \<longrightarrow> \<not> IsTerminal (life_phase x))"

lemma workingD: "working i s \<Longrightarrow> mget (attempts (fst s)) i = Some a \<Longrightarrow> \<not> IsTerminal (phase a)"
  by (auto simp: working_def lives_Some)

lemma workingI: "mget (attempts (fst s)) i = Some a \<Longrightarrow> \<not> IsTerminal (phase a) \<Longrightarrow> working i s"
  by (auto simp: working_def lives_Some)

lemma working_append: "append_event w k i' t message data r = (e, r') \<Longrightarrow> working i (r', p) \<longleftrightarrow> working i (r, p)"
  by (simp add: working_def append_lives)

lemma working_persist: "persist w k s = (e, s') \<Longrightarrow> working i s' \<longleftrightarrow> working i s"
  using persist_quiet(9) [of w k s e s'] by (simp add: working_def)

lemma working_artifact: "recordArtifactLocked w i' a data r = (e, r') \<Longrightarrow> working i (r', p) \<longleftrightarrow> working i (r, p)"
  by (simp add: working_def artifact_quiet(2))

lemma working_receipt:
  assumes "working i (r, p)" "\<And>rc. \<not> IsTerminal (rc_Phase rc) \<Longrightarrow> \<not> IsTerminal (rc_Phase (f rc))"
  shows "working i (set_receipt i f r, p)"
  using assms by (auto simp: working_def lives_set_receipt lives_def)

lemma working_attempt: "(\<And>a. ar_Receipt (f a) = ar_Receipt a) \<Longrightarrow> working i (set_attempt i f r, p) \<longleftrightarrow> working i (r, p)"
  by (auto simp: working_def lives_set_attempt lives_def)

section \<open>Events\<close>

lemma event_phase:
  "rc_TaskID (event_receipt w t m rc) = rc_TaskID rc" "rc_AttemptEpoch (event_receipt w t m rc) = rc_AttemptEpoch rc"
  "rc_Phase (event_receipt w t m rc) \<in> {rc_Phase rc, PhaseRunning, PhaseNeedsInput, PhaseCancelling}"
  by (simp_all add: event_receipt_def)

lemma event_receipt_refines:
  assumes "working i (r, p)"
  shows "refines X (r, p) (set_receipt i (event_receipt w t m) r, p)" "working i (set_receipt i (event_receipt w t m) r, p)"
proof -
  show "refines X (r, p) (set_receipt i (event_receipt w t m) r, p)"
  proof (cases "mget (attempts r) i")
    case None
    then show ?thesis by (intro refines_eq) (auto simp: tidy_def life_of_def lives_set_receipt lives_def fun_eq_iff)
  next
    case (Some a)
    note going = workingD [OF assms, simplified, OF Some] and ph = event_phase [of w t m "ar_Receipt a"]
    show ?thesis
    proof (cases "rc_Phase (event_receipt w t m (ar_Receipt a)) = phase a")
      case True
      show ?thesis by (rule set_receipt_keeps [OF Some]) (simp add: receipt_life_eq ph True)
    next
      case False
      then have "\<not> IsTerminal (rc_Phase (event_receipt w t m (ar_Receipt a)))" "rc_Phase (event_receipt w t m (ar_Receipt a)) \<noteq> PhaseAccepted"
        using ph(3) by auto
      then show ?thesis by (rule set_receipt_move [OF Some going]) (rule receipt_in_phase [OF ph(1,2) refl])
    qed
  qed
  show "working i (set_receipt i (event_receipt w t m) r, p)"
  proof (rule working_receipt [OF assms])
    fix rc :: AttemptReceipt assume "\<not> IsTerminal (rc_Phase rc)"
    then show "\<not> IsTerminal (rc_Phase (event_receipt w t m rc))" using event_phase(3) [of w t m rc] by auto
  qed
qed

lemma fail_snd: "working i s \<Longrightarrow> refines X s (snd (failHarnessEventLocked w k i failure s))"
  by (rule fail_refines [OF surjective_pairing]) (rule workingD)

lemma apply_event_refines:
  assumes "working i s"
  shows "refines X s (snd (apply_event w i e s))"
proof -
  obtain r p where s: "s = (r, p)" by (cases s)
  define t where "t = protocol_type (he_Type e)"
  define r1 where "r1 = set_receipt i (event_receipt w t (event_message e)) r"
  have one: "refines X s (r1, p)" "working i (r1, p)"
    using event_receipt_refines [of i r p] assms by (simp_all add: s r1_def)
  obtain f r2 where two: "(if t \<noteq> EventArtifact then (None, r1) else case mget (attempts r1) i of None \<Rightarrow> (None, r1)
      | Some a \<Rightarrow> recordArtifactLocked w i a (case_option [] id (he_Data e)) r1) = (f, r2)" by (rule prod.exhaust)
  have r2: "refines X (r1, p) (r2, p)" "working i (r2, p)"
    using two one(2) artifact_quiet(1) working_artifact by (auto split: if_splits option.splits)
  define r3 where "r3 = (case event_clarification e of None \<Rightarrow> r2 | Some c \<Rightarrow> set_receipt i (\<lambda>rc. rc\<lparr>rc_Clarification := Some c\<rparr>) r2)"
  have r3: "refines X (r2, p) (r3, p)" "working i (r3, p)"
    using r2(2) set_receipt_silent [of _ X r2 p i] working_receipt [OF r2(2)] by (auto simp: r3_def split: option.split)
  obtain g s4 where four: "persist w 0 (r3, p) = (g, s4)" by (rule prod.exhaust)
  note s2 = refines_trans [OF one(1) r2(1)] and s4 = refines_trans [OF r3(1) persist_refines [OF four]]
  have w4: "working i s4" using working_persist [OF four] r3(2) by simp
  have "snd (apply_event w i e s) = (if f \<noteq> None then snd (failHarnessEventLocked w 1 i (the f) (r2, p))
      else if g \<noteq> None then snd (failHarnessEventLocked w 1 i (the g) s4) else s4)"
    unfolding apply_event_def Let_def s fst_conv snd_conv t_def [symmetric] r1_def [symmetric] two
    by (cases f; cases g) (simp_all add: r3_def [symmetric] four split_beta)
  then show ?thesis
    using refines_trans [OF s2 fail_snd [OF r2(2)]] refines_trans [OF refines_trans [OF s2 s4] fail_snd [OF w4]] refines_trans [OF s2 s4]
    by simp
qed

lemma event_refines: "refines X s (snd (handleHarnessEvent w i e s))"
proof (cases "\<exists>a. mget (attempts (fst s)) i = Some a \<and> rc_LastError (ar_Receipt a) = None \<and> \<not> IsTerminal (phase a)")
  case False
  then have "snd (handleHarnessEvent w i e s) = s"
    unfolding handleHarnessEvent_def by (cases "mget (attempts (fst s)) i") auto
  then show ?thesis by simp
next
  case True
  obtain r p where s: "s = (r, p)" by (cases s)
  obtain a where a: "mget (attempts r) i = Some a" "rc_LastError (ar_Receipt a) = None" "\<not> IsTerminal (phase a)"
    using True s by auto
  define r1 where "r1 = (if he_SessionID e \<noteq> [] \<and> rc_SessionID (ar_Receipt a) = []
     then set_receipt i (\<lambda>rc. rc\<lparr>rc_SessionID := he_SessionID e\<rparr>) r else r)"
  have w0: "working i (r, p)" using workingI [of "(r, p)"] a by simp
  have r1: "refines X (r, p) (r1, p)" "working i (r1, p)"
    using w0 set_receipt_silent [of _ X r p i] working_receipt [OF w0] by (simp_all add: r1_def)
  define r2 where "r2 = set_attempt i (\<lambda>a. a\<lparr>ar_LimitExceeded := True\<rparr>) r1"
  have r2: "refines X (r1, p) (r2, p)" "working i (r2, p)"
    using r1(2) by (auto simp: r2_def working_attempt intro: set_attempt_refines)
  define r3 where "r3 = set_attempt i (\<lambda>a. a\<lparr>ar_OutputBytes := ar_OutputBytes a + event_bytes e\<rparr>) r1"
  have r3: "refines X (r1, p) (r3, p)" "working i (r3, p)"
    using r1(2) by (auto simp: r3_def working_attempt intro: set_attempt_refines)
  obtain f r4 where app: "append_event w 0 i (protocol_type (he_Type e)) (event_message e) (case_option [] id (he_Data e)) r3 = (f, r4)"
    by (rule prod.exhaust)
  have r4: "refines X (r, p) (r4, p)" "working i (r4, p)"
    using refines_trans [OF refines_trans [OF r1(1) r3(1)] append_refines [OF app]] working_append [OF app] r3(2) by simp_all
  have "snd (handleHarnessEvent w i e s) =
     (case event_refusal r a e of Some failure \<Rightarrow> snd (failHarnessEventLocked w 1 i failure (r1, p))
      | None \<Rightarrow> if over_limit a e then snd (failHarnessEventLocked w 1 i ''harness output limit exceeded'' (r2, p))
          else if f \<noteq> None then snd (failHarnessEventLocked w 1 i (the f) (r4, p)) else snd (apply_event w i e (r4, p)))"
    unfolding handleHarnessEvent_def Let_def s fst_conv snd_conv a(1) option.case r1_def [symmetric] r2_def [symmetric]
      r3_def [symmetric] app using a(2,3)
    by (cases "event_refusal r a e"; cases f) (simp_all add: split_beta)
  then show ?thesis
    using refines_trans [OF r1(1) fail_snd [OF r1(2)]] refines_trans [OF refines_trans [OF r1(1) r2(1)] fail_snd [OF r2(2)]]
      refines_trans [OF r4(1) fail_snd [OF r4(2)]] refines_trans [OF r4(1) apply_event_refines [OF r4(2)]]
    by (simp add: s split: option.split)
qed

section \<open>Git results\<close>

lemma add_results_frame:
  assumes "add_results w k i items added r = (e, added', r')"
  shows "refines X (r, p) (r', p) \<and> lives (attempts r') = lives (attempts r) \<and> rn_running r' = rn_running r \<and>
    rn_permissions r' = rn_permissions r \<and> rn_cfg r' = rn_cfg r \<and> wf_map (attempts r') = wf_map (attempts r)"
  using assms
proof (induction w k i items added r rule: add_results.induct)
  case (2 w k i art path items added r)
  let ?stop = "\<not> isGitResultArtifactName (art_Name art) \<or> \<not> path_within (cfg_StateDir (rn_cfg r)) path \<or>
    mget (ps_Artifacts (rn_state r)) (art_ID art) \<noteq> None"
  obtain f r1 where app: "append_event w k i EventArtifact (''Git result artifact exported: '' @ art_Name art) [] (store_artifact i art path r) = (f, r1)"
    by (rule prod.exhaust)
  have one: "refines X (r, p) (r1, p)" by (rule refines_trans [OF store_artifact_silent(1) append_refines [OF app]])
  have keep: "lives (attempts r1) = lives (attempts r)" "rn_running r1 = rn_running r" "rn_permissions r1 = rn_permissions r"
    "rn_cfg r1 = rn_cfg r" "wf_map (attempts r1) = wf_map (attempts r)"
    using append_quiet [OF app] append_lives [OF app] store_artifact_silent(2) by (simp_all add: store_artifact_def)
  consider "?stop" "r' = r" | "\<not> ?stop" "f \<noteq> None" "r' = r1" | "\<not> ?stop" "f = None"
    "add_results w (Suc k) i items (added @ [art_ID art]) r1 = (e, added', r')"
    using "2.prems" app by (cases f) (auto split: if_splits)
  then show ?case
  proof cases
    case 3
    have "refines X (r1, p) (r', p) \<and> lives (attempts r') = lives (attempts r1) \<and> rn_running r' = rn_running r1 \<and>
        rn_permissions r' = rn_permissions r1 \<and> rn_cfg r' = rn_cfg r1 \<and> wf_map (attempts r') = wf_map (attempts r1)"
      using 3 app by (intro "2.IH") auto
    then show ?thesis using refines_trans [OF one] keep by simp
  qed (use one keep in simp_all)
qed simp

lemma restore_quiet:
  "rn_cfg (restore_results i rc es added r) = rn_cfg r" "rn_running (restore_results i rc es added r) = rn_running r"
  "rn_permissions (restore_results i rc es added r) = rn_permissions r"
  "lives (attempts (restore_results i rc es added r)) = (lives (attempts r))(i := map_option (\<lambda>_. receipt_life rc) (mget (attempts r) i))"
  "wf_map (attempts (restore_results i rc es added r)) = wf_map (attempts r)"
  by (simp_all add: restore_results_def Let_def lives_set_receipt)

lemma lives_present: "lives m = f(i := Some y) \<Longrightarrow> mget m i \<noteq> None"
  using lives_None [of m i] by simp

text \<open>The runner \<open>u\<close> differs from \<open>r\<close> in its attempt \<open>i\<close> only.\<close>

definition moved :: "string \<Rightarrow> attempt_life \<Rightarrow> Runner \<Rightarrow> Runner \<Rightarrow> bool" where
  "moved i x r u \<longleftrightarrow> lives (attempts u) = (lives (attempts r))(i := Some x) \<and> rn_running u = rn_running r \<and>
     rn_permissions u = rn_permissions r \<and> rn_cfg u = rn_cfg r \<and> wf_map (attempts u) = wf_map (attempts r)"

lemma moved_append: "append_event w k j t m d u = (e, u') \<Longrightarrow> moved i x r u \<Longrightarrow> moved i x r u'"
  using append_quiet [of w k j t m d u e u'] append_lives [of w k j t m d u e u'] by (simp add: moved_def)

lemma moved_persist: "persist w k (u, p) = (e, u', p') \<Longrightarrow> moved i x r u \<Longrightarrow> moved i x r u'"
  using persist_quiet [of w k "(u, p)" e "(u', p')"] by (simp add: moved_def)

lemma moved_receipt:
  assumes "moved i x r u" "\<And>rc. receipt_life (f rc) = in_phase q (receipt_life rc)"
  shows "moved i (in_phase q x) r (set_receipt i f u)"
proof -
  have "lives (attempts u) i = Some x" using assms(1) by (simp add: moved_def)
  then obtain b where "mget (attempts u) i = Some b" "receipt_life (ar_Receipt b) = x" by (auto simp: lives_def)
  then show ?thesis using assms by (simp add: moved_def lives_set_receipt)
qed

lemma moved_restored:
  assumes "moved i x r u" "lives (attempts r) i = Some (receipt_life rc)"
  shows "moved i (receipt_life rc) r (restore_results i rc es added u)"
  using assms lives_present [of "attempts u" "lives (attempts r)" i x] by (auto simp: moved_def restore_quiet)

lemma moved_back:
  assumes "moved i x r u" "lives (attempts r) i = Some x"
  shows "refines X (r, p) (u, p)"
proof -
  have "lives (attempts u) = lives (attempts r)" using assms by (auto simp: moved_def)
  then show ?thesis using assms(1) by (intro refines_eq) (simp_all add: tidy_def life_of_def moved_def)
qed

lemma moved_ends:
  assumes "moved i (in_phase q x) r u" "lives (attempts r) i = Some x" "\<not> IsTerminal (life_phase x)" "mget (rn_running r) i = None"
    "q \<noteq> PhaseAccepted"
  shows "refines X (r, p) (u, p)"
proof (rule refines_step)
  have "life_of (u, p) = (life_of (r, p))\<lparr>lf_att := (lf_att (life_of (r, p)))(i := Some (in_phase q x))\<rparr>"
    using assms(1) by (simp add: life_of_def moved_def)
  then show "life_step (most_of (r, p)) X (life_of (r, p)) (life_of (u, p))"
    by (simp only:) (rule life_step.attempt_ends, use assms in simp_all)
qed (use assms(1) in \<open>simp_all add: moved_def tidy_def\<close>)

lemma moved_published:
  assumes "moved i x r u" "lives (attempts r) i = Some x" "\<not> IsTerminal (life_phase x)" "mget (rn_running r) i = None"
    "moved i (in_phase PhaseCompleted x) r v" "p' = p \<or> ps_Attempts p' = attempts v"
  shows "refines X (r, p) (u, p')"
  using assms(6)
proof
  assume "p' = p"
  then show ?thesis using moved_back [OF assms(1,2)] by simp
next
  assume p': "ps_Attempts p' = attempts v"
  have "lives (attempts u) = lives (attempts r)" using assms(1,2) by (auto simp: moved_def)
  then have "life_of (u, p') = (life_of (r, p))\<lparr>lf_saved := (lf_att (life_of (r, p)))(i := Some (in_phase PhaseCompleted x))\<rparr>"
    using assms(1,5) p' by (simp add: life_of_def moved_def)
  then have "life_step (most_of (r, p)) X (life_of (r, p)) (life_of (u, p'))"
    by (simp only:) (rule life_step.published, use assms in simp_all)
  then show ?thesis using assms(1,5) p' by (intro refines_step) (simp_all add: tidy_def moved_def)
qed

lemma finishGitResult_refines:
  assumes "finishGitResultLocked w i items (r, p) = (e, s')" "mget (rn_running r) i = None"
  shows "refines X (r, p) s' \<and> mget (rn_running (fst s')) i = None"
proof (cases "\<exists>a. mget (attempts r) i = Some a \<and> \<not> IsTerminal (phase a)")
  case False
  then have "s' = (r, p)"
    using assms(1) unfolding finishGitResultLocked_def by (cases "mget (attempts r) i") auto
  then show ?thesis using assms(2) by simp
next
  case True
  then obtain a where a: "mget (attempts r) i = Some a" "\<not> IsTerminal (phase a)" by blast
  let ?x = "receipt_life (ar_Receipt a)" and ?n = "length items"
  have live: "lives (attempts r) i = Some ?x" "\<not> IsTerminal (life_phase ?x)" using a by (simp_all add: lives_Some)
  define restore where "restore = restore_results i (ar_Receipt a) (hot r i)"
  obtain f added r1 where add: "add_results w 0 i items [] r = (f, added, r1)" by (metis prod_cases3)
  have r1: "moved i ?x r r1" using add_results_frame [OF add] live by (auto simp: moved_def)
  define c where "c = set_receipt i (\<lambda>rc. rc\<lparr>rc_Phase := PhaseCompleted, rc_Blocker := [], rc_UpdatedAt := w_now w\<rparr>) r1"
  have "moved i (in_phase PhaseCompleted ?x) r c"
    unfolding c_def by (rule moved_receipt [OF r1]) (simp add: receipt_life_def)
  moreover obtain g r2 where app: "append_event w ?n i EventCompleted [] [] c = (g, r2)" by (rule prod.exhaust)
  ultimately have r2: "moved i (in_phase PhaseCompleted ?x) r r2" by (rule moved_append [rotated])
  define r3 where "r3 = releaseResourcesLocked i (ar_Resources a) r2"
  have r3: "moved i (in_phase PhaseCompleted ?x) r r3" using r2 by (simp add: moved_def r3_def)
  obtain h r4 p4 where pers: "persist w ?n (r3, p) = (h, r4, p4)" by (metis prod.exhaust)
  have p4: "p4 = p \<or> ps_Attempts p4 = attempts r3" using persist_frame(2) [OF pers] by auto
  define r5 where "r5 = put_reservations i (ar_Resources a) (restore added r4)"
  have r5: "moved i ?x r r5"
    using moved_restored [OF moved_persist [OF pers r3] live(1)] by (simp add: moved_def r5_def restore_def)
  have lost: "refines X (r, p) (r5, p4)" by (rule moved_published [OF r5 live assms(2) r3 p4])
  have ok: "refines X (r, p) (scheduleCleanupLocked w (?n + 1) i (r4, p4))"
    by (rule refines_trans [OF moved_ends [OF r3 live assms(2)] refines_trans [OF persist_refines [OF pers] scheduleCleanup_refines]]) simp
  have back1: "moved i ?x r (restore added r1)" and back2: "moved i ?x r (restore added r2)"
    unfolding restore_def using moved_restored [OF r1 live(1)] moved_restored [OF r2 live(1)] by simp_all
  have "s' = snd (finishGitResultLocked w i items (r, p))" by (simp add: assms(1))
  also have "... = (if f \<noteq> None then (if snd (the f) then restore added r1 else r1, p)
      else if g \<noteq> None then (restore added r2, p) else if h \<noteq> None then (r5, p4) else scheduleCleanupLocked w (?n + 1) i (r4, p4))"
    using a(2) unfolding finishGitResultLocked_def Let_def fst_conv snd_conv a(1) option.case restore_def [symmetric] add
    by (cases f; cases g; cases h) (simp_all add: app pers split_beta c_def [symmetric] r3_def [symmetric] r5_def)
  finally show ?thesis
    using moved_back [OF back1 live(1)] moved_back [OF back2 live(1)] moved_back [OF r1 live(1)] lost ok assms(2)
      r1 back1 back2 r5 moved_persist [OF pers r3] by (simp add: moved_def scheduleCleanup_running)
qed

section \<open>The end of an execution\<close>

lemma end_refines:
  assumes "mget (rn_permissions r) i = None" "q \<in> {PhaseCompleted, PhaseFailed, PhaseCancelled, PhaseNeedsInput}"
  shows "refines X (r, p) (end_with w k i q blocker lastErr (r, p))"
  using assms by (intro end_with_refines) auto

lemma settle_refines:
  assumes "mget (rn_permissions r) i = None"
  shows "refines X (r, p) (settle w i a res (r, p))"
proof -
  have "refines X (r, p) (end_with w 0 i PhaseNeedsInput (hr_Blocker res) None
      (case kept_clarification res of None \<Rightarrow> (r, p) | Some c \<Rightarrow> (set_receipt i (\<lambda>rc. rc\<lparr>rc_Clarification := Some c\<rparr>) r, p)))"
  proof (cases "kept_clarification res")
    case (Some c)
    have "refines X (r, p) (set_receipt i (\<lambda>rc. rc\<lparr>rc_Clarification := Some c\<rparr>) r, p)" by (rule set_receipt_silent) simp_all
    then show ?thesis unfolding Some option.case by (rule refines_trans) (rule end_refines, use assms in simp_all)
  qed (simp add: end_refines assms)
  then show ?thesis unfolding settle_def fst_conv snd_conv by (simp add: end_refines assms)
qed

lemma ended_refines: "refines X s (execution_ended w i res err s)"
proof -
  obtain r p where s: "s = (r, p)" by (cases s)
  let ?r = "drop_gate i r"
  have g: "mget (rn_permissions ?r) i = None" by (simp add: drop_gate_def)
  have adopt: "refines X (?r, p) (adopt_session i res ?r, p)" unfolding adopt_session_def by (rule set_receipt_silent) simp_all
  have g': "mget (rn_permissions (adopt_session i res ?r)) i = None" using g by (simp add: adopt_session_def)
  have "refines X (?r, p) (execution_ended w i res err (r, p))"
    unfolding execution_ended_def Let_def fst_conv snd_conv
    using refines_trans [OF adopt end_refines [OF g']] refines_trans [OF adopt settle_refines [OF g']]
    by (simp add: end_refines [OF g] forget_refines [OF g] split: option.split)
  then show ?thesis unfolding s by (rule refines_trans [OF drop_gate_refines])
qed

lemma exported_refines:
  assumes "mget (rn_permissions (fst s)) i = None"
  shows "refines X s (finish_export w i exportErr items s)"
proof -
  obtain r p where s: "s = (r, p)" by (cases s)
  have g: "mget (rn_permissions r) i = None" using assms s by simp
  obtain f r1 p1 where fin: "finishGitResultLocked w i items (forget_execution i r, p) = (f, r1, p1)" by (metis prod.exhaust)
  have run: "mget (rn_running (forget_execution i r)) i = None" by (simp add: forget_execution_def)
  note ended = finishGitResult_refines [OF fin run]
  have to1: "refines X (r, p) (r1, p1)" by (rule refines_trans [OF forget_refines [OF g]]) (use ended in simp)
  have to2: "refines X (r, p) (finishLocked w k i PhaseFailed m e (r1, p1))" for k m e
    by (rule refines_trans [OF to1 finish_refines]) (use ended in simp_all)
  show ?thesis
    unfolding finish_export_def Let_def s fst_conv snd_conv
    using to1 to2 by (simp add: end_refines [OF g] forget_refines [OF g] fin split: option.split)
qed

end
