(* ===== verification/RunnerCommands.thy ===== *)
theory RunnerCommands
  imports RunnerRefines
begin

text \<open>
  What a coordinator asks for, in the life of the attempts: a start enters an attempt when it passed admission, a
  cancellation of an unknown one enters a fence, a resume takes a parked one back; and what retention forgets.

  A parked attempt taken back, the passes of the runner over its attempts, and a new process on the state file, in
  the life of the attempts.
\<close>

lemma refines_good_I: "(good s \<Longrightarrow> refines X s s') \<Longrightarrow> refines X s s'"
  by (auto simp: refines_def)

section \<open>Retention\<close>

definition done_with :: "Runner \<Rightarrow> string \<Rightarrow> bool" where
  "done_with r i \<longleftrightarrow> mget (rn_running r) i = None \<and> mget (rn_permissions r) i = None \<and>
     (\<forall>a. mget (attempts r) i = Some a \<longrightarrow> IsTerminal (phase a) \<or> phase a = PhaseNeedsInput)"

lemma lives_mdel: "lives (mdel i m) = (lives m)(i := None)"
  by (auto simp: lives_def fun_eq_iff)

lemma drop_attempt_refines:
  assumes "dropAttemptLocked f rm r i = (paths, r')" "done_with r i"
  shows "refines X (r, p) (r', p)"
proof -
  note d = drop_one(1,2,3,5) [OF assms(1)]
  show ?thesis
  proof (cases "mget (attempts r) i")
    case None
    then have "lives (attempts r') = lives (attempts r)" using d(4) by (simp add: mdel_absent)
    then show ?thesis using d by (intro refines_eq) (simp_all add: tidy_def life_of_def)
  next
    case (Some a)
    show ?thesis
    proof (rule refines_step)
      have "life_of (r', p) = (life_of (r, p))\<lparr>lf_att := (lf_att (life_of (r, p)))(i := None)\<rparr>"
        using d by (simp add: life_of_def lives_mdel)
      then show "life_step (most_of (r, p)) X (life_of (r, p)) (life_of (r', p))"
        by (simp only:) (rule life_step.forget [where x = "receipt_life (ar_Receipt a)"], use assms(2) Some in \<open>simp_all add: done_with_def lives_Some\<close>)
    qed (use d in \<open>simp_all add: tidy_def\<close>)
  qed
qed

lemma done_with_drop:
  assumes "dropAttemptLocked f rm r i = (paths, r')" "done_with r j"
  shows "done_with r' j"
  using assms(2) drop_one(2,3,5) [OF assms(1)] by (simp add: done_with_def)

lemma drop_all_refines:
  assumes "drop_all faults ids r = (paths, r')" "\<forall>i \<in> set ids. done_with r i"
  shows "refines X (r, p) (r', p)"
  using assms
proof (induction rule: drop_all_induct)
  case (Cons i ids r paths r1 r')
  have "\<forall>j \<in> set ids. done_with r1 j" using done_with_drop [OF Cons.hyps] Cons.prems by simp
  from Cons.IH [OF this] show ?case
    using refines_trans [OF drop_attempt_refines [OF Cons.hyps]] Cons.prems by simp
qed simp

lemma purge_ids:
  assumes "purgeAttemptsLocked faults r now = (n, paths, r')" "wf_map (attempts r)"
  obtains ids where "drop_all faults ids r = (paths, r')" "\<forall>i \<in> set ids. done_with r i"
proof -
  obtain ids where ids: "drop_all faults ids r = (paths, r')"
    "\<forall>i \<in> set ids. \<exists>a. mget (attempts r) i = Some a \<and> purgeableLocked r i a"
    by (rule purge_props [OF assms(2,1)])
  then have "\<forall>i \<in> set ids. done_with r i" by (auto simp: done_with_def purgeableLocked_def Let_def)
  then show thesis using that ids(1) by blast
qed

lemma purge_refines:
  assumes "purgeAttemptsLocked faults r now = (n, paths, r')"
  shows "refines X (r, p) (r', p)"
proof (rule refines_good_I)
  assume "good (r, p)"
  then have "wf_map (attempts r)" by (simp add: good_def tidy_def)
  with assms obtain ids where "drop_all faults ids r = (paths, r')" "\<forall>i \<in> set ids. done_with r i" by (rule purge_ids)
  then show "refines X (r, p) (r', p)" by (rule drop_all_refines)
qed

text \<open>A pass only takes attempts away.\<close>

lemma purge_only:
  assumes "purgeAttemptsLocked faults r now = (n, paths, r')"
  shows "rn_cfg r' = rn_cfg r" "rn_running r' = rn_running r" "rn_permissions r' = rn_permissions r"
    "lives (attempts r') i = Some x \<Longrightarrow> lives (attempts r) i = Some x" "wf_map (attempts r) \<Longrightarrow> wf_map (attempts r')"
proof -
  obtain ids where d: "drop_all faults ids r = (paths, r')"
    using assms by (auto simp: purgeAttemptsLocked_def Let_def split: prod.splits)
  note f = drop_all_frame [OF d] and a = drop_all_attempts [OF d]
  show "rn_cfg r' = rn_cfg r" "rn_running r' = rn_running r" "rn_permissions r' = rn_permissions r" using f by simp_all
  have sub: "mget (filter (\<lambda>(i, _). i \<notin> set ids) m) i = (if i \<in> set ids then None else mget m i)" for m :: "attemptRecord gomap"
    by (induction m) (auto simp: mget_def)
  show "lives (attempts r) i = Some x" if "lives (attempts r') i = Some x"
    using that unfolding a lives_def sub by (simp split: if_splits)
  show "wf_map (attempts r')" if "wf_map (attempts r)" using that by (simp add: a wf_map_def distinct_map_filter)
qed

section \<open>Admission\<close>

lemma occupied_life: "occupied (life_of (r, p)) = {i. \<exists>a. mget (attempts r) i = Some a \<and> active r i a}"
  by (auto simp: occupied_def active_def lives_def)

lemma check_room:
  assumes "checkStartRequirementsLocked r req = None"
  shows "room (cfg_MaximumCapacity (rn_cfg r)) (life_of (r, p))"
proof -
  have "activeCountLocked r < cfg_MaximumCapacity (rn_cfg r)"
    using assms by (auto simp: checkStartRequirementsLocked_def Let_def split: if_splits option.splits)
  moreover have sub: "occupied (life_of (r, p)) \<subseteq> fst ` set (filter (\<lambda>(i, a). active r i a) (attempts r))"
    unfolding occupied_life by (force dest: mget_in_set)
  then have "card (occupied (life_of (r, p))) \<le> length (filter (\<lambda>(i, a). active r i a) (attempts r))"
    by (meson List.finite_set card_image_le card_length card_mono finite_imageI le_trans)
  ultimately show ?thesis using finite_subset [OF sub] by (simp add: room_def activeCountLocked_def)
qed

lemma room_mono:
  assumes "room n l" "\<And>i x. lf_att l' i = Some x \<Longrightarrow> lf_att l i = Some x" "lf_gate l' = lf_gate l"
  shows "room n l'"
proof -
  have "occupied l' \<subseteq> occupied l" using assms(2,3) by (auto simp: occupied_def)
  then show ?thesis using assms(1) card_mono [of "occupied l" "occupied l'"] finite_subset by (fastforce simp: room_def)
qed

lemma newest_mono: "newest l i t e \<Longrightarrow> (\<And>j x. lf_att l' j = Some x \<Longrightarrow> lf_att l j = Some x) \<Longrightarrow> newest l' i t e"
  unfolding newest_def by blast

lemma highest_fold:
  "fold (\<lambda>(i, a) highest. if rc_TaskID (ar_Receipt a) \<noteq> t \<or> i = j then highest
      else if rc_AttemptEpoch (ar_Receipt a) > highest then rc_AttemptEpoch (ar_Receipt a) else highest) m n = h \<Longrightarrow>
   n \<le> h \<and> (\<forall>(i, a) \<in> set m. rc_TaskID (ar_Receipt a) = t \<and> i \<noteq> j \<longrightarrow> rc_AttemptEpoch (ar_Receipt a) \<le> h) \<and>
   (h = n \<or> (\<exists>(i, a) \<in> set m. rc_TaskID (ar_Receipt a) = t \<and> rc_AttemptEpoch (ar_Receipt a) = h))"
proof (induction m arbitrary: n)
  case (Cons kv m)
  obtain i a where kv: "kv = (i, a)" by (cases kv)
  define n' where "n' = (if rc_TaskID (ar_Receipt a) \<noteq> t \<or> i = j then n
      else if rc_AttemptEpoch (ar_Receipt a) > n then rc_AttemptEpoch (ar_Receipt a) else n)"
  note ih = Cons.IH [of n'] 
  have "n \<le> n'" "rc_TaskID (ar_Receipt a) = t \<and> i \<noteq> j \<longrightarrow> rc_AttemptEpoch (ar_Receipt a) \<le> n'"
    "n' = n \<or> rc_TaskID (ar_Receipt a) = t \<and> rc_AttemptEpoch (ar_Receipt a) = n'"
    by (auto simp: n'_def)
  moreover have "n' \<le> h \<and> (\<forall>(i, a) \<in> set m. rc_TaskID (ar_Receipt a) = t \<and> i \<noteq> j \<longrightarrow> rc_AttemptEpoch (ar_Receipt a) \<le> h) \<and>
     (h = n' \<or> (\<exists>(i, a) \<in> set m. rc_TaskID (ar_Receipt a) = t \<and> rc_AttemptEpoch (ar_Receipt a) = h))"
    by (rule ih) (use Cons.prems in \<open>simp add: kv n'_def\<close>)
  ultimately show ?case unfolding kv by auto
qed simp

lemma check_newest:
  assumes "checkEpochLocked r t i e = None" "e \<noteq> 0"
  shows "newest (life_of (r, p)) i t e"
proof -
  note h = highest_fold [of t i "attempts r" 0 "highest_epoch r t i", folded highest_epoch_def, OF refl]
  have less: "highest_epoch r t i < e"
  proof (rule ccontr)
    assume n: "\<not> highest_epoch r t i < e"
    then have nz: "highest_epoch r t i \<noteq> 0" "e \<le> highest_epoch r t i" using assms(2) by auto
    then have none: "find (\<lambda>(_, a). rc_TaskID (ar_Receipt a) = t \<and> rc_AttemptEpoch (ar_Receipt a) = highest_epoch r t i) (attempts r) = None"
      using assms(1) by (simp add: checkEpochLocked_def Let_def split: option.splits prod.splits)
    show False using none h nz(1) by (fastforce simp: find_None_iff)
  qed
  have "rc_AttemptEpoch (ar_Receipt a) < e" if "mget (attempts r) j = Some a" "j \<noteq> i" "rc_TaskID (ar_Receipt a) = t" for j a
    using h less mget_in_set [OF that(1)] that(2,3) by fastforce
  then show ?thesis by (auto simp: newest_def lives_def)
qed

lemma start_epoch: "start_credential w r req = Inr c \<Longrightarrow> sreq_AttemptEpoch req \<noteq> 0"
  by (auto simp: start_credential_def validateStartRequest_def validateMutationIdentity_def split: option.splits if_splits)

section \<open>Start\<close>

text \<open>\<open>entering\<close>: the attempts that may enter by an operation on \<open>i\<close>.\<close>

definition entering :: "string \<Rightarrow> live \<Rightarrow> string set" where
  "entering i s = (if mget (attempts (fst s)) i = None then {i} else {})"

lemma idle_absent: "good s \<Longrightarrow> mget (attempts (fst s)) i = None \<Longrightarrow> mget (rn_running (fst s)) i = None"
  by (auto simp: good_def life_ok_def lives_def)

definition accepted_life :: "StartRequest \<Rightarrow> attempt_life" where
  "accepted_life req = Life (sreq_TaskID req) (sreq_AttemptEpoch req) PhaseAccepted"

lemma enter_refines:
  assumes "mget (attempts r) (sreq_AttemptID req) = None"
    and "newest (life_of (r, p)) (sreq_AttemptID req) (sreq_TaskID req) (sreq_AttemptEpoch req)"
    and "room (cfg_MaximumCapacity (rn_cfg r)) (life_of (r, p))"
  shows "refines {sreq_AttemptID req} (r, p) (enter_attempt w credential workdir req r, p)"
    "mget (rn_running (enter_attempt w credential workdir req r)) = mget (rn_running r)"
    "lives (attempts (enter_attempt w credential workdir req r)) (sreq_AttemptID req) = Some (accepted_life req)"
proof -
  let ?i = "sreq_AttemptID req"
  obtain n paths u where purge: "purgeAttemptsLocked (w_purge w) r (w_now w) = (n, paths, u)" by (metis prod_cases3)
  note q = purge_only [OF purge]
  define v where "v = enter_attempt w credential workdir req r"
  have v: "lives (attempts v) = (lives (attempts u))(?i := Some (accepted_life req))"
    "rn_cfg v = rn_cfg u" "rn_running v = rn_running u" "rn_permissions v = rn_permissions u" "wf_map (attempts u) \<Longrightarrow> wf_map (attempts v)"
    by (auto simp: v_def enter_attempt_def purge Let_def record_operation_def lives_def fun_eq_iff accepted_record_def
        accepted_receipt_def receipt_life_def accepted_life_def)
  have none: "lives (attempts u) ?i = None"
    using q(4) [of ?i] assms(1) by (cases "lives (attempts u) ?i") (auto simp: lives_def)
  have "refines {?i} (u, p) (v, p)"
  proof (rule refines_step)
    have "life_of (v, p) = (life_of (u, p))\<lparr>lf_att := (lf_att (life_of (u, p)))(?i := Some (Life (sreq_TaskID req) (sreq_AttemptEpoch req) PhaseAccepted))\<rparr>"
      using v by (simp add: life_of_def accepted_life_def)
    moreover have "newest (life_of (u, p)) ?i (sreq_TaskID req) (sreq_AttemptEpoch req)"
      by (rule newest_mono [OF assms(2)]) (use q(4) in simp)
    moreover have "room (most_of (u, p)) (life_of (u, p))"
      using room_mono [OF assms(3), of "life_of (u, p)"] q by (simp add: most_of_def)
    ultimately show "life_step (most_of (u, p)) {?i} (life_of (u, p)) (life_of (v, p))"
      by (simp only:) (rule life_step.enter, use none in simp_all)
  qed (use v in \<open>simp_all add: tidy_def\<close>)
  then show "refines {?i} (r, p) (v, p)" by (rule refines_trans [OF purge_refines [OF purge]])
  show "mget (rn_running v) = mget (rn_running r)" using v q by simp
  show "lives (attempts v) ?i = Some (accepted_life req)" by (simp add: v(1))
qed

lemma withdraw_refines:
  assumes "lives (attempts r) (sreq_AttemptID req) = Some (accepted_life req)" "mget (rn_running r) (sreq_AttemptID req) = None"
  shows "refines X (r, p) (withdraw_attempt w req r, p)"
proof (rule refines_step)
  let ?i = "sreq_AttemptID req"
  have "life_of (withdraw_attempt w req r, p) = (life_of (r, p))\<lparr>lf_att := (lf_att (life_of (r, p)))(?i := None)\<rparr>"
    by (simp add: life_of_def withdraw_attempt_def Let_def releaseResourcesLocked_def drop_credential_def lives_mdel)
  then show "life_step (most_of (r, p)) X (life_of (r, p)) (life_of (withdraw_attempt w req r, p))"
    by (simp only:) (rule life_step.withdraw [where x = "accepted_life req"], use assms in \<open>simp_all add: accepted_life_def\<close>)
qed (simp_all add: tidy_def withdraw_attempt_def Let_def releaseResourcesLocked_def drop_credential_def)

lemma accepted_phase: "lives (attempts r) i = Some (accepted_life req) \<Longrightarrow> mget (attempts r) i = Some a \<Longrightarrow> phase a = PhaseAccepted"
  by (auto simp: lives_def accepted_life_def receipt_life_def)

lemma accept_refines:
  assumes "mget (attempts r) (sreq_AttemptID req) = None" "mget (rn_running r) (sreq_AttemptID req) = None"
    and "newest (life_of (r, p)) (sreq_AttemptID req) (sreq_TaskID req) (sreq_AttemptEpoch req)"
    and "room (cfg_MaximumCapacity (rn_cfg r)) (life_of (r, p))"
  shows "refines {sreq_AttemptID req} (r, p) (snd (accept_start w credential workdir req (r, p)))"
proof -
  let ?i = "sreq_AttemptID req"
  define v where "v = enter_attempt w credential workdir req r"
  note v = enter_refines [OF assms(1,3,4), of w credential workdir, folded v_def]
  obtain e r1 where app: "append_event w 0 ?i EventAccepted ''attempt accepted'' [] v = (e, r1)" by (rule prod.exhaust)
  note to1 = refines_trans [OF v(1) append_refines [OF app]]
  have l1: "lives (attempts r1) ?i = Some (accepted_life req)" "mget (rn_running r1) ?i = None"
    using append_lives(1) [OF app] append_quiet(3) [OF app] v(2,3) assms(2) by simp_all
  obtain f r2 p2 where pers: "persist w 0 (r1, p) = (f, r2, p2)" by (metis prod.exhaust)
  note to2 = refines_trans [OF to1 persist_refines [OF pers]]
  have l2: "lives (attempts r2) ?i = Some (accepted_life req)" using persist_quiet(9) [OF pers] l1 by simp
  obtain g r3 p3 where exec: "startExecutionLocked w 1 ?i (sreq_Instructions req) (sreq_Model req) (r2, p2) = (g, r3, p3)"
    by (metis prod.exhaust)
  have to3: "refines {?i} (r, p) (r3, p3)"
    by (rule refines_trans [OF to2 startExecution_refines [OF exec]]) (use accepted_phase [OF l2] in simp)
  have "snd (accept_start w credential workdir req (r, p)) =
      (if e \<noteq> None then (withdraw_attempt w req r1, p) else if f \<noteq> None then (r2, p2) else (r3, p3))"
    unfolding accept_start_def Let_def fst_conv v_def [symmetric] app
    by (cases e; cases f; cases g) (simp_all add: pers exec [simplified])
  then show ?thesis using refines_trans [OF to1 withdraw_refines [OF l1]] to2 to3 by simp
qed

lemma reserve_silent:
  assumes "reserveResourcesLocked i ns r = (e, r')"
  shows "r' = r \<or> r' = put_reservations i ns r"
  using assms by (auto simp: reserveResourcesLocked_def split: option.splits)

lemma put_refines: "refines X (r, p) (put_reservations i ns r, p)"
  by (rule silent_refines) simp_all

lemma release_refines: "refines X (r, p) (releaseResourcesLocked i ns r, p)"
  by (rule silent_refines) simp_all

lemma new_start_refines:
  assumes "mget (attempts (fst s)) (sreq_AttemptID req) = None" "mget (rn_running (fst s)) (sreq_AttemptID req) = None"
    and "newest (life_of s) (sreq_AttemptID req) (sreq_TaskID req) (sreq_AttemptEpoch req)"
  shows "refines {sreq_AttemptID req} s (snd (new_start w credential req s))"
proof (cases "checkStartRequirementsLocked (fst s) req")
  case (Some e)
  then show ?thesis by (simp add: new_start_def)
next
  case None
  obtain r p where s: "s = (r, p)" by (cases s)
  let ?i = "sreq_AttemptID req"
  obtain e u where res: "reserveResourcesLocked ?i (sreq_Resources req) r = (e, u)" by (rule prod.exhaust)
  have u: "attempts u = attempts r" "rn_running u = rn_running r" "rn_cfg u = rn_cfg r" "rn_permissions u = rn_permissions r"
    using reserve_silent [OF res] by auto
  have to: "refines {?i} (r, p) (u, p)" by (rule silent_refines) (simp_all add: u)
  have same: "life_of (u, p) = life_of (r, p)" using u by (simp add: life_of_def)
  have acc: "refines {?i} (u, p) (snd (accept_start w credential workdir req (u, p)))" for workdir
    using accept_refines [of u req p w credential workdir] assms check_room [OF None, of p] by (simp add: s u same)
  have "snd (new_start w credential req s) \<in> {(u, p), (releaseResourcesLocked ?i (sreq_Resources req) u, p)} \<union>
      {snd (accept_start w credential workdir req (u, p)) | workdir. True}"
    unfolding new_start_def Let_def None option.case s fst_conv
    using None [unfolded s fst_conv] by (auto simp: res split: option.split sum.split prod.split)
  then show ?thesis
    using to refines_trans [OF to release_refines] refines_trans [OF to acc] unfolding s by auto
qed

lemma replay_refines: "refines X s (snd (replay_start w credential fp prior s))"
proof -
  obtain r p where s: "s = (r, p)" by (cases s)
  let ?i = "op_AttemptID prior"
  show ?thesis
  proof (cases "op_Fingerprint prior = fp \<and> (\<exists>a. mget (attempts r) ?i = Some a \<and> phase a = PhaseAccepted \<and> \<not> ar_CancelPending a)")
    case False
    then have "snd (replay_start w credential fp prior s) = s"
      unfolding replay_start_def s by (auto simp: Let_def split: option.split)
    then show ?thesis by simp
  next
    case True
    then obtain a where a: "op_Fingerprint prior = fp" "mget (attempts r) ?i = Some a" "phase a = PhaseAccepted" "\<not> ar_CancelPending a"
      by blast
    let ?c = "r\<lparr>rn_credentials := mput ?i credential (rn_credentials r)\<rparr>"
    obtain g r3 p3 where exec: "startExecutionLocked w 0 ?i (sreq_Instructions (ar_Start a)) (sreq_Model (ar_Start a)) (?c, p) = (g, r3, p3)"
      by (metis prod.exhaust)
    have one: "refines X (r, p) (?c, p)" by (rule silent_refines) simp_all
    have two: "refines X (?c, p) (r3, p3)" by (rule startExecution_refines [OF exec]) (use a in simp)
    have "snd (replay_start w credential fp prior s) = (r3, p3)"
      using a exec unfolding replay_start_def s by (cases g) (simp_all add: Let_def)
    then show ?thesis using refines_trans [OF one two] by (simp add: s)
  qed
qed

lemma start_refines: "refines (entering (sreq_AttemptID req) s) s (snd (Start w req s))"
proof (rule refines_good_I)
  assume g: "good s"
  let ?X = "entering (sreq_AttemptID req) s"
  have "snd (Start w req s) = s \<or> (\<exists>c fp prior. snd (Start w req s) = snd (replay_start w c fp prior s)) \<or>
    (\<exists>c. snd (Start w req s) = snd (new_start w c req s) \<and> start_credential w (fst s) req = Inr c \<and> mget (attempts (fst s)) (sreq_AttemptID req) = None \<and>
      checkEpochLocked (fst s) (sreq_TaskID req) (sreq_AttemptID req) (sreq_AttemptEpoch req) = None)"
    unfolding Start_def Let_def by (simp split: option.split sum.split) blast
  then show "refines ?X s (snd (Start w req s))"
  proof (elim disjE exE conjE)
    fix c assume new: "snd (Start w req s) = snd (new_start w c req s)" "start_credential w (fst s) req = Inr c"
      "mget (attempts (fst s)) (sreq_AttemptID req) = None"
      "checkEpochLocked (fst s) (sreq_TaskID req) (sreq_AttemptID req) (sreq_AttemptEpoch req) = None"
    have "newest (life_of s) (sreq_AttemptID req) (sreq_TaskID req) (sreq_AttemptEpoch req)"
      using check_newest [OF new(4) start_epoch [OF new(2)], of "snd s"] by simp
    from new_start_refines [OF new(3) idle_absent [OF g new(3)] this] show ?thesis by (simp add: new entering_def)
  qed (simp_all add: replay_refines)
qed

section \<open>Cancel\<close>

lemma save_cases:
  assumes "save f io r = (ok, file, r')"
  shows "(\<exists>st. r' = r\<lparr>rn_store := st\<rparr>) \<and> (file = None \<or> file = Some ((rn_state r)\<lparr>ps_Events := saved_events (rn_state r)\<rparr>)) \<and>
    (ok \<longrightarrow> file \<noteq> None)"
proof -
  obtain b st where "syncJournals f (rn_store r) = (b, st)" by fastforce
  then show ?thesis using assms by (cases io) (auto simp: save_def Let_def split: if_splits)
qed

definition fence_life :: "CancelRequest \<Rightarrow> attempt_life" where
  "fence_life req = Life (creq_TaskID req) (creq_AttemptEpoch req) PhaseCancelled"

text \<open>A fence is in the runner and in the file, or in neither, or in the file only.\<close>

lemma fence_effect:
  assumes "cancelUnseenLocked w req opKey fp (r, p) = (res, r', p')" "checkEpochLocked r (creq_TaskID req) (creq_AttemptID req) (creq_AttemptEpoch req) = None"
  shows "(if isl res then lives (attempts r') = lives (attempts r) else lives (attempts r') = (lives (attempts r))(creq_AttemptID req := Some (fence_life req))) \<and>
    (isl res \<and> p' = p \<or> lives (ps_Attempts p') = (lives (attempts r))(creq_AttemptID req := Some (fence_life req)) \<and> (wf_map (attempts r) \<longrightarrow> wf_map (ps_Attempts p'))) \<and>
    rn_cfg r' = rn_cfg r \<and> rn_running r' = rn_running r \<and> rn_permissions r' = rn_permissions r \<and> (wf_map (attempts r) \<longrightarrow> wf_map (attempts r'))"
proof -
  let ?i = "creq_AttemptID req" and ?s = "rn_state r"
  define after where "after = ?s\<lparr>ps_Attempts := mput ?i (fence_record w fp req) (ps_Attempts ?s),
      ps_Operations := mput opKey \<lparr>op_Fingerprint = fp, op_AttemptID = ?i\<rparr> (ps_Operations ?s),
      ps_Events := mput ?i [\<lparr>ev_Cursor = 1, ev_Timestamp = w_now w, ev_AttemptEpoch = creq_AttemptEpoch req,
        ev_Type = EventCancelled, ev_Message = fence_blocker, ev_Data = []\<rparr>] (ps_Events ?s)\<rparr>"
  obtain ok kept u where sv: "save (w_sync w 0) (w_save w 0) (r\<lparr>rn_state := after\<rparr>) = (ok, kept, u)" by (metis prod_cases3)
  obtain st where u: "u = r\<lparr>rn_state := after, rn_store := st\<rparr>" and kept: "kept = None \<or> kept = Some (after\<lparr>ps_Events := saved_events after\<rparr>)" "ok \<longrightarrow> kept \<noteq> None"
    using save_cases [OF sv] by auto
  have l: "lives (mput ?i (fence_record w fp req) m) = (lives m)(?i := Some (fence_life req))" for m
    by (auto simp: lives_def fun_eq_iff fence_record_def receipt_life_def fence_life_def)
  have "(res, r', p') = (let p2 = (case kept of None \<Rightarrow> p | Some q \<Rightarrow> q) in
      if ok then (Inr (ar_Receipt (fence_record w fp req)), (u, p2))
      else (Inl (protocolError ErrorUnavailable True (''persist cancellation fence: '' @ w_errno w) None), (u\<lparr>rn_state := ?s\<rparr>, p2)))"
    using assms(1) unfolding cancelUnseenLocked_def Let_def fst_conv snd_conv assms(2) option.case after_def [symmetric] sv by simp
  then show ?thesis
    using kept by (cases ok; cases kept) (auto simp: u after_def l)
qed

lemma fence_refines:
  assumes "mget (attempts (fst s)) (creq_AttemptID req) = None" "creq_AttemptEpoch req \<noteq> 0"
  shows "refines {creq_AttemptID req} s (snd (cancelUnseenLocked w req opKey fp s))"
proof (cases "checkEpochLocked (fst s) (creq_TaskID req) (creq_AttemptID req) (creq_AttemptEpoch req)")
  case (Some e)
  then show ?thesis by (simp add: cancelUnseenLocked_def Let_def)
next
  case None
  obtain r p where s: "s = (r, p)" by (cases s)
  let ?i = "creq_AttemptID req"
  obtain res r' p' where c: "cancelUnseenLocked w req opKey fp (r, p) = (res, r', p')" by (metis prod_cases3)
  note f = fence_effect [OF c None [unfolded s fst_conv]]
  have new: "newest (life_of (r, p)) ?i (creq_TaskID req) (creq_AttemptEpoch req)"
    using check_newest [OF None assms(2), of p] by (simp add: s)
  have absent: "lf_att (life_of (r, p)) ?i = None" using assms(1) s by (simp add: lives_None)
  consider "isl res" "p' = p" | "\<not> isl res" "p' \<noteq> p \<or> True" "lives (ps_Attempts p') = (lives (attempts r))(?i := Some (fence_life req))"
    | "isl res" "lives (ps_Attempts p') = (lives (attempts r))(?i := Some (fence_life req))" "wf_map (attempts r) \<longrightarrow> wf_map (ps_Attempts p')"
    using f by auto
  then have "refines {?i} (r, p) (r', p')"
  proof cases
    case 1
    then show ?thesis using f by (intro refines_eq) (auto simp: tidy_def life_of_def)
  next
    case 2
    have "life_of (r', p') = (life_of (r, p))\<lparr>lf_att := (lf_att (life_of (r, p)))(?i := Some (fence_life req)),
        lf_saved := (lf_att (life_of (r, p)))(?i := Some (fence_life req))\<rparr>"
      using f 2 by (simp add: life_of_def)
    then have "life_step (most_of (r, p)) {?i} (life_of (r, p)) (life_of (r', p'))"
      unfolding fence_life_def by (simp only:) (rule life_step.fence, use absent new in simp_all)
    then show ?thesis using f 2 by (intro refines_step) (auto simp: tidy_def)
  next
    case 3
    have "life_of (r', p') = (life_of (r, p))\<lparr>lf_saved := (lf_att (life_of (r, p)))(?i := Some (fence_life req))\<rparr>"
      using f 3 by (simp add: life_of_def)
    then have "life_step (most_of (r, p)) {?i} (life_of (r, p)) (life_of (r', p'))"
      unfolding fence_life_def by (simp only:) (rule life_step.fence_lost, use absent new in simp_all)
    then show ?thesis using f 3 by (intro refines_step) (auto simp: tidy_def)
  qed
  then show ?thesis by (simp add: s c)
qed

lemma operation_refines: "refines X (r, p) (record_operation key fp i r, p)"
  by (rule silent_refines) (simp_all add: record_operation_def)

lemma operation_quiet [simp]:
  "attempts (record_operation key fp i r) = attempts r" "rn_running (record_operation key fp i r) = rn_running r"
  "rn_permissions (record_operation key fp i r) = rn_permissions r" "rn_cfg (record_operation key fp i r) = rn_cfg r"
  by (simp_all add: record_operation_def)

lemma cancel_known_refines:
  assumes "mget (attempts (fst s)) (creq_AttemptID req) = Some a"
  shows "refines X s (snd (cancel_known w req fp a s))"
proof -
  obtain r p where s: "s = (r, p)" by (cases s)
  let ?i = "creq_AttemptID req"
  define r0 where "r0 = record_operation (cancel_key req) fp ?i r"
  have to0: "refines X (r, p) (r0, p)" by (simp add: r0_def operation_refines)
  obtain e0 t0 where pers0: "persist w 0 (r0, p) = (e0, t0)" by (rule prod.exhaust)
  show ?thesis
  proof (cases "IsTerminal (phase a)")
    case True
    have "snd (cancel_known w req fp a s) = t0"
      using True unfolding cancel_known_def Let_def s fst_conv snd_conv r0_def [symmetric] pers0 by (cases e0) simp_all
    then show ?thesis using refines_trans [OF to0 persist_refines [OF pers0]] by (simp add: s)
  next
    case False
    let ?c = "set_attempt ?i (\<lambda>a. a\<lparr>ar_CancelPending := True\<rparr>) r0"
    have to1: "refines X (r0, p) (?c, p)" by (rule set_attempt_refines) simp
    have to2: "refines X (?c, p) (set_receipt ?i (cancel_receipt w) ?c, p)"
      by (rule set_receipt_move [where a = "a\<lparr>ar_CancelPending := True\<rparr>" and q = PhaseCancelling])
        (use assms False s in \<open>simp_all add: r0_def cancel_receipt_def receipt_life_def\<close>)
    obtain e r1 where app: "append_event w 0 ?i EventProgress ''cancellation requested'' [] (set_receipt ?i (cancel_receipt w) ?c) = (e, r1)"
      by (rule prod.exhaust)
    note to3 = refines_trans [OF to0 refines_trans [OF to1 refines_trans [OF to2 append_refines [OF app]]]]
    obtain f r2 p2 where pers: "persist w 0 (r1, p) = (f, r2, p2)" by (metis prod.exhaust)
    note to4 = refines_trans [OF to3 persist_refines [OF pers]]
    let ?final = "if mget (rn_running r2) ?i \<noteq> None then (r2\<lparr>rn_running := mput ?i True (rn_running r2)\<rparr>, p2)
        else finishLocked w 1 ?i PhaseCancelled ''cancelled after restart; no active harness process'' None (r2, p2)"
    have "refines X (r2, p2) ?final" using flag_refines [of r2 ?i X p2 True] finish_refines [of "(r2, p2)" ?i PhaseCancelled] by simp
    note to5 = refines_trans [OF to4 this]
    have "snd (cancel_known w req fp a s) = (if e \<noteq> None then (r1, p) else if f \<noteq> None then (r2, p2) else ?final)"
      using False unfolding cancel_known_def Let_def s fst_conv snd_conv r0_def [symmetric] app
      by (cases e; cases f) (simp_all add: pers)
    then show ?thesis using to3 to4 to5 by (simp add: s)
  qed
qed

lemma mutation_attempt: "attemptForMutationLocked r t i e = Inr a \<Longrightarrow> mget (attempts r) i = Some a"
  by (auto simp: attemptForMutationLocked_def split: option.splits if_splits)

lemma mutation_epoch: "validateMutationIdentity t i e q = None \<Longrightarrow> e \<noteq> 0"
  by (auto simp: validateMutationIdentity_def split: option.splits if_splits)

lemma cancel_refines: "refines (entering (creq_AttemptID req) s) s (snd (Cancel w req s))"
proof -
  let ?X = "entering (creq_AttemptID req) s"
  have "snd (Cancel w req s) = s \<or> (\<exists>k fp. snd (Cancel w req s) = snd (cancelUnseenLocked w req k fp s) \<and>
      mget (attempts (fst s)) (creq_AttemptID req) = None \<and> creq_AttemptEpoch req \<noteq> 0) \<or>
    (\<exists>fp a. snd (Cancel w req s) = snd (cancel_known w req fp a s) \<and> mget (attempts (fst s)) (creq_AttemptID req) = Some a)"
    unfolding Cancel_def Let_def using mutation_attempt mutation_epoch
    by (simp split: option.split sum.split) blast
  then show ?thesis
    using fence_refines [of s req w] cancel_known_refines [of s req _ ?X w] by (auto simp: entering_def)
qed

section \<open>Resume\<close>

lemma resume_step:
  assumes "mget (attempts r) i = Some a" "phase a = PhaseNeedsInput" "room (cfg_MaximumCapacity (rn_cfg r)) (life_of (r, p))"
  shows "refines X (r, p) (set_receipt i (resume_receipt w) r, p)"
proof (rule refines_step)
  have "receipt_life (resume_receipt w (ar_Receipt a)) = in_phase PhaseAccepted (receipt_life (ar_Receipt a))"
    by (rule receipt_in_phase) (simp_all add: resume_receipt_def)
  from life_set_receipt [where f = "resume_receipt w", OF assms(1) this, of p]
  show "life_step (most_of (r, p)) X (life_of (r, p)) (life_of (set_receipt i (resume_receipt w) r, p))"
    by (simp only:) (rule life_step.resume, use assms in \<open>simp_all add: lives_Some most_of_def\<close>)
qed (simp_all add: tidy_def)

lemma relaunch_refines:
  assumes "mget (attempts (fst s)) (rreq_AttemptID req) = Some a" "phase a = PhaseNeedsInput"
  shows "refines X s (snd (relaunch w credential fp a req s))"
proof (cases "checkStartRequirementsLocked (fst s) (ar_Start a)")
  case (Some e)
  then show ?thesis by (simp add: relaunch_def)
next
  case None
  obtain r p where s: "s = (r, p)" by (cases s)
  let ?i = "rreq_AttemptID req"
  obtain e u where res: "reserveResourcesLocked ?i (ar_Resources a) r = (e, u)" by (rule prod.exhaust)
  have u: "attempts u = attempts r" "rn_running u = rn_running r" "rn_cfg u = rn_cfg r" "rn_permissions u = rn_permissions r"
    using reserve_silent [OF res] by auto
  have to0: "refines X (r, p) (u, p)" by (rule silent_refines) (simp_all add: u)
  define u1 where "u1 = (record_operation (resume_key req) fp ?i u)\<lparr>rn_credentials := mput ?i credential (rn_credentials (record_operation (resume_key req) fp ?i u))\<rparr>"
  have u1: "attempts u1 = attempts r" "rn_running u1 = rn_running r" "rn_cfg u1 = rn_cfg r" "rn_permissions u1 = rn_permissions r"
    using u by (simp_all add: u1_def)
  have to1: "refines X (u, p) (u1, p)" by (rule silent_refines) (simp_all add: u u1)
  define u2 where "u2 = set_attempt ?i (\<lambda>a. a\<lparr>ar_CancelPending := False\<rparr>) u1"
  have to2: "refines X (u1, p) (u2, p)" unfolding u2_def by (rule set_attempt_refines) simp
  have a2: "mget (attempts u2) ?i = Some (a\<lparr>ar_CancelPending := False\<rparr>)" using assms(1) s u1 by (simp add: u2_def)
  have l2: "lives (attempts u2) = lives (attempts r)"
    using a2 assms(1) s u1 by (auto simp: u2_def lives_set_attempt lives_def fun_eq_iff)
  have "room (cfg_MaximumCapacity (rn_cfg u2)) (life_of (u2, p))"
    using check_room [OF None, of p] l2 u1 s by (simp add: life_of_def u2_def)
  then have to3: "refines X (u2, p) (set_receipt ?i (resume_receipt w) u2, p)" by (intro resume_step [OF a2]) (simp_all add: assms(2))
  obtain f r1 where app: "append_event w 0 ?i EventAccepted ''resume accepted'' [] (set_receipt ?i (resume_receipt w) u2) = (f, r1)"
    by (rule prod.exhaust)
  note to4 = refines_trans [OF refines_trans [OF to0 to1] refines_trans [OF to2 refines_trans [OF to3 append_refines [OF app]]]]
  obtain g r2 p2 where pers: "persist w 0 (r1, p) = (g, r2, p2)" by (metis prod.exhaust)
  note to5 = refines_trans [OF to4 persist_refines [OF pers]]
  have acc: "phase b = PhaseAccepted" if "mget (attempts r2) ?i = Some b" for b
  proof -
    have "lives (attempts r2) ?i = lives (attempts (set_receipt ?i (resume_receipt w) u2)) ?i"
      using persist_quiet(9) [OF pers] append_lives(1) [OF app] by simp
    then show ?thesis using that a2 by (simp add: lives_set_receipt lives_def receipt_life_eq resume_receipt_def)
  qed
  obtain h r3 p3 where exec: "startExecutionLocked w 1 ?i (sreq_Instructions (ar_Start a) @ resolution_header @ rreq_Resolution req)
      (sreq_Model (ar_Start a)) (r2, p2) = (h, r3, p3)" by (metis prod.exhaust)
  have to6: "refines X (r, p) (r3, p3)" by (rule refines_trans [OF to5 startExecution_refines [OF exec]]) (use acc in simp)
  have "snd (relaunch w credential fp a req s) = (if e \<noteq> None then (u, p) else if f \<noteq> None then (r1, p) else if g \<noteq> None then (r2, p2) else (r3, p3))"
    using None unfolding relaunch_def Let_def s fst_conv snd_conv
    by (cases e; cases f; cases g; cases h) (simp_all add: res u1_def [symmetric] u2_def [symmetric] app pers exec [simplified])
  then show ?thesis using to0 to4 to5 to6 by (simp add: s)
qed

lemma resume_permission_refines:
  assumes "mget (attempts (fst s)) (rreq_AttemptID req) = Some a" "phase a = PhaseNeedsInput"
  shows "refines X s (snd (resumePermissionLocked w a req k fp s))"
    "fst (resumePermissionLocked w a req k fp s) = None \<Longrightarrow> snd (resumePermissionLocked w a req k fp s) = s"
proof -
  let ?i = "rreq_AttemptID req"
  obtain e r1 p1 where ans: "answerPermissionLocked w ?i (rreq_PermissionID req) (verdict_of req) s = (e, r1, p1)" by (metis prod.exhaust)
  note to1 = answer_refines [OF ans assms]
  obtain f t where pers: "persist w 1 (record_operation k fp ?i r1, p1) = (f, t)" by (rule prod.exhaust)
  note to2 = refines_trans [OF to1 refines_trans [OF operation_refines persist_refines [OF pers]]]
  have "snd (resumePermissionLocked w a req k fp s) \<in> {s, (r1, p1), t}"
    unfolding resumePermissionLocked_def Let_def ans
    by (cases e; cases f) (simp_all add: pers [simplified] split: option.split)
  then show "refines X s (snd (resumePermissionLocked w a req k fp s))" using to1 to2 by auto
  show "snd (resumePermissionLocked w a req k fp s) = s" if "fst (resumePermissionLocked w a req k fp s) = None"
    using that unfolding resumePermissionLocked_def Let_def ans
    by (cases e; cases f) (auto simp: pers [simplified] split: option.splits if_splits)
qed

lemma resume_known_refines:
  assumes "mget (attempts (fst s)) (rreq_AttemptID req) = Some a"
  shows "refines X s (snd (resume_known w credential fp a req s))"
proof (cases "resume_refusal (ar_Receipt a) req")
  case (Some e)
  then show ?thesis by (simp add: resume_known_def)
next
  case None
  then have ph: "phase a = PhaseNeedsInput" by (auto simp: resume_refusal_def split: if_splits)
  obtain d t where perm: "resumePermissionLocked w a req (resume_key req) fp s = (d, t)" by (rule prod.exhaust)
  note p = resume_permission_refines(1) [OF assms ph, of X w "resume_key req" fp, unfolded perm fst_conv snd_conv]
    resume_permission_refines(2) [OF assms ph, of w "resume_key req" fp, unfolded perm fst_conv snd_conv]
  show ?thesis
    using p relaunch_refines [OF assms ph, of X w credential fp] None
    by (cases d; cases "relaunch_refusal w a req") (simp_all add: resume_known_def perm)
qed

lemma resume_refines: "refines X s (snd (Resume w req s))"
proof -
  have "snd (Resume w req s) = s \<or> (\<exists>c fp a. snd (Resume w req s) = snd (resume_known w c fp a req s) \<and>
      mget (attempts (fst s)) (rreq_AttemptID req) = Some a)"
    unfolding Resume_def Let_def using mutation_attempt by (simp split: option.split sum.split) blast
  then show ?thesis by (elim disjE exE conjE) (simp_all add: resume_known_refines)
qed

section \<open>Passes\<close>

lemma expire_refines: "refines X (r, p) (expire i r, p)"
  by (intro refines_eq) (auto simp: expire_def tidy_def life_of_def split: option.split)

lemma finish_cleanup_refines: "refines X s (finish_cleanup w i s)"
proof -
  obtain r p where s: "s = (r, p)" by (cases s)
  let ?f = "\<lambda>a. a\<lparr>ar_cleanupRunning := False, ar_CleanupDone := (case w_cleanup w of HookFailed _ \<Rightarrow> False | _ \<Rightarrow> True),
              ar_CleanupError := (case w_cleanup w of HookFailed e \<Rightarrow> e | _ \<Rightarrow> [])\<rparr>"
  obtain e t where pers: "persist w 0 (set_attempt i ?f r, p) = (e, t)" by (rule prod.exhaust)
  have "refines X (r, p) (set_attempt i ?f r, p)" by (rule set_attempt_refines) simp
  from refines_trans [OF this persist_refines [OF pers]] show ?thesis
    unfolding finish_cleanup_def s fst_conv snd_conv pers by (cases "mget (attempts r) i") simp_all
qed

lemma close_refines: "refines X (r, p) (begin_close r, p)"
proof -
  have "mget (map (\<lambda>(i, _). (i, True)) m) i = map_option (\<lambda>_. True) (mget m i)" for m :: "bool gomap" and i
    by (induction m) (auto simp: mget_def)
  then show ?thesis by (intro refines_eq) (auto simp: begin_close_def tidy_def life_of_def)
qed

lemma sweep_refines: "refines X s (sweep w s)"
proof -
  obtain r p where s: "s = (r, p)" by (cases s)
  obtain n paths u where purge: "purgeAttemptsLocked (w_purge w) r (w_now w) = (n, paths, u)" by (metis prod_cases3)
  obtain e t where pers: "persist w 0 (u, p) = (e, t)" by (rule prod.exhaust)
  show ?thesis
    using purge_refines [OF purge] refines_trans [OF purge_refines [OF purge] persist_refines [OF pers]]
    by (simp add: sweep_def s purge pers)
qed

section \<open>A new process\<close>

lemma lives_restarted: "lives (map (\<lambda>(i, a). (i, a\<lparr>ar_cleanupRunning := False\<rparr>)) m) = lives m"
  by (auto simp: lives_def fun_eq_iff mget_map_values [of "\<lambda>_ a. a\<lparr>ar_cleanupRunning := False\<rparr>"] option.map_comp comp_def)

lemma restart_life:
  assumes "restart rt fails caps cfg files p = (ok, r)"
  shows "lives (attempts r) = lives (ps_Attempts p)" "rn_running r = []" "rn_permissions r = []" "rn_cfg r = cfg"
    "wf_map (ps_Attempts p) \<Longrightarrow> wf_map (attempts r)" "set (map fst (attempts r)) = set (map fst (ps_Attempts p))"
proof -
  have r: "attempts r = map (\<lambda>(i, a). (i, a\<lparr>ar_cleanupRunning := False\<rparr>)) (ps_Attempts p)"
    "rn_running r = []" "rn_permissions r = []" "rn_cfg r = cfg"
    using assms by (auto simp: restart_def Let_def split: prod.splits)
  then show "rn_running r = []" "rn_permissions r = []" "rn_cfg r = cfg" by simp_all
  have keys: "map fst (attempts r) = map fst (ps_Attempts p)" by (auto simp: r(1))
  then show "wf_map (ps_Attempts p) \<Longrightarrow> wf_map (attempts r)" "set (map fst (attempts r)) = set (map fst (ps_Attempts p))"
    by (simp_all add: wf_map_def)
  show "lives (attempts r) = lives (ps_Attempts p)" by (simp add: r(1) lives_restarted)
qed

lemma append_inner_lives:
  assumes "appendEventLocked enc fault now r i t m d = (Inr ev, r')"
  shows "lives (attempts r') = lives (attempts r)" "rn_cfg r' = rn_cfg r" "rn_running r' = rn_running r"
    "rn_permissions r' = rn_permissions r" "wf_map (attempts r') \<longleftrightarrow> wf_map (attempts r)"
proof -
  obtain a till st where a: "mget (attempts r) i = Some a"
    and r': "r' = r\<lparr>rn_store := st, rn_state := (rn_state r)\<lparr>ps_Attempts := mput i (a\<lparr>ar_EventJournalBytes := till,
        ar_Receipt := (ar_Receipt a)\<lparr>rc_Cursor := ev_Cursor ev, rc_UpdatedAt := now\<rparr>\<rparr>) (attempts r),
        ps_Events := mput i (trim_hot (cfg_MaxEvents (rn_cfg r)) (hot r i @ [ev])) (ps_Events (rn_state r))\<rparr>\<rparr>"
    using assms by (auto simp: appendEventLocked_def Let_def split: option.splits if_splits sum.splits prod.splits)
  let ?b = "a\<lparr>ar_EventJournalBytes := till, ar_Receipt := (ar_Receipt a)\<lparr>rc_Cursor := ev_Cursor ev, rc_UpdatedAt := now\<rparr>\<rparr>"
  have "same_attempts (attempts r) (mput i ?b (attempts r))" by (rule same_mput [OF a]) (simp add: core_def)
  then show "lives (attempts r') = lives (attempts r)" "rn_cfg r' = rn_cfg r" "rn_running r' = rn_running r"
    "rn_permissions r' = rn_permissions r" "wf_map (attempts r') \<longleftrightarrow> wf_map (attempts r)"
    by (simp_all add: r' same_lives same_wf)
qed

definition quiet_runner :: "Runner \<Rightarrow> Runner \<Rightarrow> bool" where
  "quiet_runner r r' \<longleftrightarrow> rn_cfg r' = rn_cfg r \<and> rn_running r' = rn_running r \<and> rn_permissions r' = rn_permissions r \<and>
     (wf_map (attempts r) \<longrightarrow> wf_map (attempts r'))"

lemma quiet_runner_trans: "quiet_runner r s \<Longrightarrow> quiet_runner s t \<Longrightarrow> quiet_runner r t"
  by (simp add: quiet_runner_def)

lemma set_attempt_quiet_runner: "quiet_runner r (set_attempt i f r)"
  by (simp add: quiet_runner_def)

lemma reopened_fix: "IsTerminal (life_phase x) \<or> life_phase x = PhaseNeedsInput \<Longrightarrow> reopened x = x"
  by (cases x) (auto simp: reopened_def reopened_phase_def)

lemma reopened_twice [simp]: "reopened (reopened x) = reopened x"
  by (rule reopened_fix) (auto simp: reopened_def reopened_phase_def)

lemma drop_permission_life: "receipt_life (ar_Receipt (drop_permission now a)) = receipt_life (ar_Receipt a)"
  by (simp add: drop_permission_def receipt_life_def)

lemma recover_life:
  assumes "recover_loop enc faults now [] ids r = (None, r')"
  shows "(\<forall>i. lives (attempts r') i = (if i \<in> set ids then map_option reopened (lives (attempts r) i) else lives (attempts r) i)) \<and> quiet_runner r r'"
  using assms
proof (induction ids arbitrary: r)
  case Nil
  then show ?case by (simp add: quiet_runner_def)
next
  case (Cons i ids)
  define r1 where "r1 = set_attempt i (drop_permission now) r"
  have l1: "lives (attempts r1) = lives (attempts r)"
    by (simp add: r1_def lives_set_attempt drop_permission_life) (simp add: lives_def fun_eq_iff)
  have q1: "quiet_runner r r1" unfolding r1_def by (rule set_attempt_quiet_runner)
  let ?b = "''runner restarted; reconcile the existing harness session before resuming''"
  have "\<exists>r2. recover_loop enc faults now [] ids r2 = (None, r') \<and> quiet_runner r1 r2 \<and>
      lives (attempts r2) = (lives (attempts r1))(i := map_option reopened (lives (attempts r1) i))"
  proof (cases "mget (attempts r1) i")
    case None
    then have "recover_loop enc faults now [] ids r1 = (None, r')" using Cons.prems by (simp add: r1_def [symmetric])
    then show ?thesis using None by (intro exI [of _ r1]) (auto simp: quiet_runner_def lives_def)
  next
    case (Some a)
    then have la: "lives (attempts r1) i = Some (receipt_life (ar_Receipt a))" by (rule lives_Some)
    show ?thesis
    proof (cases "IsTerminal (phase a) \<or> phase a = PhaseNeedsInput")
      case True
      then have "recover_loop enc faults now [] ids r1 = (None, r')" using Cons.prems Some by (simp add: r1_def [symmetric])
      moreover have "lives (attempts r1) = (lives (attempts r1))(i := map_option reopened (lives (attempts r1) i))"
        using True la reopened_fix [of "receipt_life (ar_Receipt a)"] by (auto simp: fun_eq_iff)
      ultimately show ?thesis by (intro exI [of _ r1]) (simp add: quiet_runner_def)
    next
      case False
      define r2 where "r2 = set_attempt i (park now ?b) r1"
      obtain ev r3 where app: "appendEventLocked enc (faults i) now r2 i PhaseNeedsInput ?b [] = (Inr ev, r3)"
        and rest: "recover_loop enc faults now [] ids r3 = (None, r')"
        using Cons.prems Some False by (auto simp: r1_def [symmetric] r2_def [symmetric] Let_def split: sum.splits prod.splits)
      note f = append_inner_lives [OF app]
      have "quiet_runner r1 r3"
        using f set_attempt_quiet_runner [of r1 i "park now ?b"] by (simp add: quiet_runner_def r2_def)
      moreover have "lives (attempts r3) = (lives (attempts r1))(i := map_option reopened (lives (attempts r1) i))"
        using f(1) False la Some
        by (simp add: r2_def lives_set_attempt park_def receipt_life_def reopened_def reopened_phase_def in_phase_def)
      ultimately show ?thesis using rest by blast
    qed
  qed
  then obtain r2 where r2: "recover_loop enc faults now [] ids r2 = (None, r')" "quiet_runner r1 r2"
    "lives (attempts r2) = (lives (attempts r1))(i := map_option reopened (lives (attempts r1) i))" by blast
  then show ?case
    using Cons.IH [OF r2(1)] l1 quiet_runner_trans [OF quiet_runner_trans [OF q1 r2(2)]]
    by (auto simp: option.map_comp comp_def)
qed

text \<open>The file a new process starts from, for a life whose file it is.\<close>

lemma reopens:
  assumes "\<And>i. lives (attempts r) i = map_option reopened (lf_saved l i)" "purgeAttemptsLocked faults r now = (n, paths, u)"
  shows "\<forall>i. lives (attempts u) i = None \<or> lives (attempts u) i = map_option reopened (lf_saved l i)"
proof
  fix i
  show "lives (attempts u) i = None \<or> lives (attempts u) i = map_option reopened (lf_saved l i)"
    using purge_only(4) [OF assms(2), of i] unfolding assms(1) by (cases "lives (attempts u) i") (simp, metis)
qed

lemma reopen_saves:
  assumes "\<forall>i. S i = None \<or> S i = map_option reopened (lf_saved l i)"
  shows "life_steps most X l (l\<lparr>lf_att := S, lf_run := {}, lf_gate := {}, lf_saved := S\<rparr>)"
  using life_trans [OF life_one [OF life_step.reopen [OF assms]] life_one [OF life_step.saves]] by simp

lemma fold_cleanup_refines: "refines X s (fold (\<lambda>i. scheduleCleanupLocked w k i) ids s)"
proof (induction ids arbitrary: s)
  case (Cons i ids)
  then show ?case unfolding fold.simps comp_def by (rule refines_trans [OF scheduleCleanup_refines])
qed simp

text \<open>Either it runs, on what it recovered, or the file may be new all the same.\<close>

lemma New_life:
  assumes "New w rt pf faults caps cfg files p = (res, p')" "wf_map (ps_Attempts p)" "lf_saved l = lives (ps_Attempts p)"
    and "tasks_ok (lf_saved l)" "0 \<le> cfg_MaximumCapacity cfg"
  shows "wf_map (ps_Attempts p') \<and>
    (case res of Some r' \<Rightarrow> good (r', p') \<and> rn_cfg r' = cfg \<and> life_steps (cfg_MaximumCapacity cfg) X l (life_of (r', p'))
     | None \<Rightarrow> life_steps (cfg_MaximumCapacity cfg) X l (l\<lparr>lf_saved := lives (ps_Attempts p')\<rparr>))"
proof -
  have stay: "wf_map (ps_Attempts p') \<and> life_steps (cfg_MaximumCapacity cfg) X l (l\<lparr>lf_saved := lives (ps_Attempts p')\<rparr>)" if "p' = p"
    using that assms(2,3) by (simp add: assms(3) [symmetric])
  obtain ok r0 where rs: "restart rt pf caps cfg files p = (ok, r0)" by (rule prod.exhaust)
  note r0 = restart_life [OF rs]
  obtain e r1 where rec: "recoverLocked (w_enc w) faults (w_now w) [] r0 = (e, r1)" by (rule prod.exhaust)
  show ?thesis
  proof (cases "ok \<and> e = None")
    case False
    then have "res = None" "p' = p" using assms(1) rs rec by (auto simp: New_def split: bool.splits option.splits)
    then show ?thesis using stay by simp
  next
    case True
    have rl: "\<forall>i. lives (attempts r1) i = (if i \<in> set (map fst (attempts r0)) then map_option reopened (lives (attempts r0) i) else lives (attempts r0) i)"
      "quiet_runner r0 r1"
      using recover_life [of "w_enc w" faults "w_now w" "map fst (attempts r0)" r0 r1] rec True by (simp_all add: recoverLocked_def)
    have l1: "lives (attempts r1) i = map_option reopened (lf_saved l i)" for i
    proof (cases "i \<in> set (map fst (attempts r0))")
      case False
      then have "lives (attempts r0) i = None" by (simp add: lives_None mget_def map_of_eq_None_iff)
      then show ?thesis using rl(1) False r0(1) assms(3) by simp
    qed (use rl(1) r0(1) assms(3) in simp)
    have q1: "rn_cfg r1 = cfg" "rn_running r1 = []" "rn_permissions r1 = []" "wf_map (attempts r1)"
      using rl(2) r0 assms(2) by (simp_all add: quiet_runner_def)
    obtain n paths u where purge: "purgeAttemptsLocked (w_purge w) r1 (w_now w) = (n, paths, u)" by (metis prod_cases3)
    note pu = purge_only [OF purge] and S = reopens [OF l1 purge]
    obtain f t where pers: "persist w 0 (u, p) = (f, t)" by (rule prod.exhaust)
    have snap: "snd t = p \<or> ps_Attempts (snd t) = attempts u" "f = None \<Longrightarrow> ps_Attempts (snd t) = attempts u"
      using persist_frame(2,3) [OF pers] by auto
    have empty_runs: "{i. mget (rn_running u) i \<noteq> None} = {}" "{i. mget (rn_permissions u) i \<noteq> None} = {}"
      using pu q1 by (simp_all add: mget_def)
    show ?thesis
    proof (cases f)
      case (Some err)
      then have res: "res = None" "p' = snd t" using assms(1) rs rec True purge pers by (auto simp: New_def split: prod.splits)
      from snap(1) show ?thesis
      proof
        assume "ps_Attempts (snd t) = attempts u"
        then show ?thesis using res life_step.reopen_fails [OF S, of "cfg_MaximumCapacity cfg" X] pu(5) q1(4) by (auto intro: life_one)
      qed (use res stay in simp)
    next
      case None
      have t: "rn_state (fst t) = rn_state u" "rn_running (fst t) = rn_running u" "rn_permissions (fst t) = rn_permissions u" "rn_cfg (fst t) = cfg"
        using persist_quiet [OF pers] pu(1) q1(1) by simp_all
      have lt: "life_of t = l\<lparr>lf_att := lives (attempts u), lf_run := {}, lf_gate := {}, lf_saved := lives (attempts u)\<rparr>"
        using t empty_runs snap(2) [OF None] by (simp add: life_of_def)
      have steps: "life_steps (cfg_MaximumCapacity cfg) X l (life_of t)"
        unfolding lt by (rule reopen_saves [OF S])
      define l0 where "l0 = empty_life\<lparr>lf_saved := lf_saved l\<rparr>"
      have "life_ok (cfg_MaximumCapacity cfg) (life_of t)"
      proof (rule life_steps_ok)
        have S0: "\<forall>i. lives (attempts u) i = None \<or> lives (attempts u) i = map_option reopened (lf_saved l0 i)" using S by (simp add: l0_def)
        have lt0: "life_of t = l0\<lparr>lf_att := lives (attempts u), lf_run := {}, lf_gate := {}, lf_saved := lives (attempts u)\<rparr>"
          unfolding lt by (cases l) (simp add: l0_def empty_life_def)
        show "life_steps (cfg_MaximumCapacity cfg) X l0 (life_of t)"
          unfolding lt0 by (rule reopen_saves [OF S0])
        show "life_ok (cfg_MaximumCapacity cfg) l0"
          using assms(4,5) by (simp add: l0_def life_ok_def empty_life_def held_def tasks_ok_def)
      qed
      then have g: "good t" using t pu(5) q1(4) snap(2) [OF None] by (simp add: good_def most_of_def tidy_def)
      define z where "z = fold (\<lambda>i. scheduleCleanupLocked w 1 i) (map fst (attempts (fst t))) t"
      have z: "refines X t z" unfolding z_def by (rule fold_cleanup_refines)
      have "res = Some (fst z)" "p' = snd z" using assms(1) rs rec True purge pers None by (auto simp: New_def z_def split: prod.splits)
      then show ?thesis
        using refines_good [OF z g] z g t steps by (auto simp: refines_def good_def tidy_def most_of_def intro: life_trans)
    qed
  qed
qed

end
