(* ===== verification/RunnerConfig.thy ===== *)
theory RunnerConfig
  imports RunnerAttempts
begin

text \<open>
  The configuration of a runner (\<open>pkg/runner/config.go\<close>): its defaults and what refuses it. The user's configuration
  directory, the platform, the token file and the splitting of an address are the world's.
\<close>

section \<open>The configuration\<close>

record RepositoryConfig =
  rpc_Source :: string
  rpc_BaseCommit :: string
  rpc_FetchRemoteURL :: string

record ResourceConfig =
  rsc_Kind :: string
  rsc_Capacity :: int
  rsc_Labels :: "string gomap"

record Config =
  c_ProtocolVersion :: string
  c_RunnerID :: string
  c_Version :: string
  c_Listen :: string
  c_StateDir :: string
  c_TokenFile :: string
  c_Token :: string
  c_Toolchains :: "string list"
  c_Environment :: "string list"
  c_Verification :: "string list"
  c_MaximumCapacity :: int
  c_MaxEvents :: int
  c_MaxEventBytes :: int
  c_MaxBodyBytes :: int
  c_MaxArtifactSize :: int
  c_AttemptRetentionHours :: int
  c_ParkedAttemptRetentionHours :: int
  c_MaxRetainedAttempts :: int
  c_Repositories :: "RepositoryConfig gomap"
  c_Resources :: "ResourceConfig gomap"

record ConfigLib =
  cl_lib :: RunnerLib
  cl_platform :: string  \<comment> \<open>\<open>runtime.GOOS + "-" + runtime.GOARCH\<close>\<close>
  cl_UserConfigDir :: "string + string"
  cl_ReadFile :: "string \<Rightarrow> string + string"
  cl_SplitHost :: "string \<Rightarrow> string option"

section \<open>Defaults\<close>

definition defaultMaxEvents :: int where "defaultMaxEvents = 256"
definition defaultMaxEventBytes :: int where "defaultMaxEventBytes = 65536"
definition defaultMaxBodyBytes :: int where "defaultMaxBodyBytes = 2097152"
definition defaultMaxArtifactSize :: int where "defaultMaxArtifactSize = 33554432"
definition defaultAttemptRetentionHours :: int where "defaultAttemptRetentionHours = 168"
definition defaultParkedAttemptRetentionHours :: int where "defaultParkedAttemptRetentionHours = 720"
definition defaultMaxRetainedAttempts :: int where "defaultMaxRetainedAttempts = 200"

definition or_text :: "string \<Rightarrow> string \<Rightarrow> string" where
  "or_text s d = (if s = [] then d else s)"

definition or_positive :: "int \<Rightarrow> int \<Rightarrow> int" where
  "or_positive n d = (if n \<le> 0 then d else n)"

definition state_directory :: "ConfigLib \<Rightarrow> string \<Rightarrow> string + string" where
  "state_directory cl dir =
     (case (if dir \<noteq> [] then Inr dir else case cl_UserConfigDir cl of
          Inl e \<Rightarrow> Inl (''resolve default runner state directory: '' @ e)
        | Inr base \<Rightarrow> Inr (path_Join [base, ''railgrid-runner''])) of
        Inl e \<Rightarrow> Inl e
      | Inr dir \<Rightarrow> (case path_Abs (cl_lib cl) dir of
          Inl e \<Rightarrow> Inl (''resolve runner state directory: '' @ e) | Inr absolute \<Rightarrow> Inr absolute))"

definition isLoopbackListenAddress :: "ConfigLib \<Rightarrow> string \<Rightarrow> bool" where
  "isLoopbackListenAddress cl address =
     (case cl_SplitHost cl address of None \<Rightarrow> False
      | Some host \<Rightarrow> host \<noteq> [] \<and> (host = ''localhost'' \<or> rl_LoopbackIP (cl_lib cl) host))"

definition token_of :: "ConfigLib \<Rightarrow> Config \<Rightarrow> string + string" where
  "token_of cl c =
     (case (if c_TokenFile c = [] then Inr (c_Token c) else case cl_ReadFile cl (c_TokenFile c) of
          Inl e \<Rightarrow> Inl (''read runner token file: '' @ e) | Inr b \<Rightarrow> Inr (TrimSpace b)) of
        Inl e \<Rightarrow> Inl e
      | Inr token \<Rightarrow>
          if token = [] then Inl ''runner bearer token is empty''
          else if length token > 4096 \<or> contains_any token [CHR 0x0D, CHR 0x0A, CHR '' '', CHR 0x09]
            then Inl ''runner bearer token contains invalid whitespace or is too long''
          else Inr token)"

text \<open>Each entry of a map, in the order the map is walked; the first refusal is the answer.\<close>

fun map_entries :: "(string \<Rightarrow> 'v \<Rightarrow> string + 'v) \<Rightarrow> 'v gomap \<Rightarrow> string + 'v gomap" where
  "map_entries f [] = Inr []"
| "map_entries f ((k, v) # m) =
     (case f k v of Inl e \<Rightarrow> Inl e
      | Inr v' \<Rightarrow> (case map_entries f m of Inl e \<Rightarrow> Inl e | Inr m' \<Rightarrow> Inr ((k, v') # m')))"

definition repository_entry :: "ConfigLib \<Rightarrow> string \<Rightarrow> RepositoryConfig \<Rightarrow> string + RepositoryConfig" where
  "repository_entry cl i repo =
     (if \<not> identifierPattern i then Inl (''repository ID '' @ rl_Quote (cl_lib cl) i @ '' is invalid'')
      else case (if blank (rpc_Source repo) then Inr (rpc_Source repo) else path_Abs (cl_lib cl) (rpc_Source repo)) of
        Inl e \<Rightarrow> Inl (''resolve repository '' @ rl_Quote (cl_lib cl) i @ '' source: '' @ e)
      | Inr source \<Rightarrow>
          (case (if blank (rpc_FetchRemoteURL repo) then Inr (rpc_FetchRemoteURL repo)
                 else validateFetchRemoteURL (cl_lib cl) (rpc_FetchRemoteURL repo)) of
             Inl e \<Rightarrow> Inl (''repository '' @ rl_Quote (cl_lib cl) i @ '' fetch remote URL: '' @ e)
           | Inr remote \<Rightarrow> Inr (repo\<lparr>rpc_Source := source, rpc_FetchRemoteURL := remote\<rparr>)))"

definition resource_entry :: "ConfigLib \<Rightarrow> string \<Rightarrow> ResourceConfig \<Rightarrow> string + ResourceConfig" where
  "resource_entry cl name res =
     (if \<not> identifierPattern name then Inl (''resource name '' @ rl_Quote (cl_lib cl) name @ '' is invalid'')
      else if rsc_Capacity res < 0 then Inl (''resource '' @ rl_Quote (cl_lib cl) name @ '' has negative capacity'')
      else Inr (res\<lparr>rsc_Capacity := (if rsc_Capacity res = 0 then 1 else rsc_Capacity res)\<rparr>))"

definition named_config :: "ConfigLib \<Rightarrow> Config \<Rightarrow> Config" where
  "named_config cl c =
     c\<lparr>c_ProtocolVersion := or_text (c_ProtocolVersion c) ProtocolVersion,
       c_RunnerID := or_text (c_RunnerID c) (''railgrid-runner-'' @ cl_platform cl),
       c_Version := or_text (c_Version c) ''dev'', c_Listen := or_text (c_Listen c) ''127.0.0.1:8787''\<rparr>"

definition limited_config :: "string \<Rightarrow> Config \<Rightarrow> Config" where
  "limited_config dir c =
     c\<lparr>c_StateDir := dir, c_MaximumCapacity := or_positive (c_MaximumCapacity c) 1,
       c_MaxEvents := or_positive (c_MaxEvents c) defaultMaxEvents,
       c_MaxEventBytes := or_positive (c_MaxEventBytes c) defaultMaxEventBytes,
       c_MaxBodyBytes := or_positive (c_MaxBodyBytes c) defaultMaxBodyBytes,
       c_MaxArtifactSize := or_positive (c_MaxArtifactSize c) defaultMaxArtifactSize,
       c_AttemptRetentionHours := or_positive (c_AttemptRetentionHours c) defaultAttemptRetentionHours,
       c_ParkedAttemptRetentionHours := or_positive (c_ParkedAttemptRetentionHours c) defaultParkedAttemptRetentionHours,
       c_MaxRetainedAttempts := or_positive (c_MaxRetainedAttempts c) defaultMaxRetainedAttempts\<rparr>"

definition applyDefaults :: "ConfigLib \<Rightarrow> Config \<Rightarrow> string + Config" where
  "applyDefaults cl c0 =
     (let c = named_config cl c0 in
      if c_ProtocolVersion c \<noteq> ProtocolVersion
        then Inl (''unsupported runner protocol version '' @ rl_Quote (cl_lib cl) (c_ProtocolVersion c))
      else case state_directory cl (c_StateDir c) of Inl e \<Rightarrow> Inl e
      | Inr dir \<Rightarrow>
          if c_MaximumCapacity c > 1 then Inl ''runner maximumCapacity must be 1 for the single-execution runner''
          else let c = limited_config dir c in
          case token_of cl c of Inl e \<Rightarrow> Inl e
          | Inr token \<Rightarrow>
              if \<not> identifierPattern (c_RunnerID c) then Inl (''runner ID '' @ rl_Quote (cl_lib cl) (c_RunnerID c) @ '' is invalid'')
              else if \<not> isLoopbackListenAddress cl (c_Listen c)
                then Inl (''runner listen address '' @ rl_Quote (cl_lib cl) (c_Listen c) @ '' is not loopback-only'')
              else case map_entries (repository_entry cl) (c_Repositories c) of Inl e \<Rightarrow> Inl e
              | Inr repositories \<Rightarrow>
                  (case map_entries (resource_entry cl) (c_Resources c) of Inl e \<Rightarrow> Inl e
                   | Inr resources \<Rightarrow> Inr (c\<lparr>c_Token := token, c_Repositories := repositories, c_Resources := resources\<rparr>)))"

text \<open>What of it the attempts see.\<close>

definition runner_config :: "Config \<Rightarrow> runnerConfig" where
  "runner_config c =
     \<lparr>cfg_StateDir = c_StateDir c, cfg_Toolchains = c_Toolchains c, cfg_Environment = c_Environment c,
       cfg_MaximumCapacity = c_MaximumCapacity c, cfg_MaxEvents = nat (c_MaxEvents c), cfg_MaxEventBytes = c_MaxEventBytes c,
       cfg_MaxArtifactSize = c_MaxArtifactSize c, cfg_AttemptRetentionHours = c_AttemptRetentionHours c,
       cfg_ParkedAttemptRetentionHours = c_ParkedAttemptRetentionHours c, cfg_MaxRetainedAttempts = c_MaxRetainedAttempts c,
       cfg_Resources = map (\<lambda>(name, res). (name, rsc_Capacity res)) (c_Resources c)\<rparr>"

section \<open>What a configuration guarantees\<close>

lemma map_entries_all:
  "map_entries f m = Inr m' \<Longrightarrow> (\<And>k v v'. f k v = Inr v' \<Longrightarrow> P k v') \<Longrightarrow> \<forall>(k, v) \<in> set m'. P k v"
proof (induction m arbitrary: m')
  case (Cons kv m)
  then show ?case by (cases kv) (auto split: sum.splits)
qed simp

lemma or_positive_pos: "0 < d \<Longrightarrow> 0 < or_positive n d"
  by (simp add: or_positive_def)

text \<open>One execution at a time, limits that are positive, resources that can be reserved.\<close>

definition sound_config :: "Config \<Rightarrow> bool" where
  "sound_config c \<longleftrightarrow> c_MaximumCapacity c = 1 \<and> 0 < c_MaxEvents c \<and> 0 < c_MaxEventBytes c \<and> 0 < c_MaxBodyBytes c \<and>
     0 < c_MaxArtifactSize c \<and> 0 < c_AttemptRetentionHours c \<and> 0 < c_ParkedAttemptRetentionHours c \<and> 0 < c_MaxRetainedAttempts c \<and>
     c_Token c \<noteq> [] \<and> identifierPattern (c_RunnerID c) \<and> (\<forall>(name, res) \<in> set (c_Resources c). identifierPattern name \<and> 1 \<le> rsc_Capacity res)"

lemma applyDefaults_sound:
  assumes "applyDefaults cl c = Inr c'"
  shows "sound_config c'"
proof -
  let ?n = "named_config cl c"
  obtain dir token repositories resources where
    ok: "\<not> c_MaximumCapacity ?n > 1" "map_entries (resource_entry cl) (c_Resources (limited_config dir ?n)) = Inr resources"
      "token_of cl (limited_config dir ?n) = Inr token" "identifierPattern (c_RunnerID (limited_config dir ?n))"
    and c': "c' = (limited_config dir ?n)\<lparr>c_Token := token, c_Repositories := repositories, c_Resources := resources\<rparr>"
    using assms unfolding applyDefaults_def Let_def by (auto split: if_splits sum.splits)
  have "\<forall>(name, res) \<in> set resources. identifierPattern name \<and> 1 \<le> rsc_Capacity res"
    by (rule map_entries_all [OF ok(2)]) (auto simp: resource_entry_def split: if_splits)
  moreover have "token \<noteq> []" using ok(3) by (auto simp: token_of_def Let_def split: if_splits sum.splits)
  moreover have "c_MaximumCapacity (limited_config dir ?n) = 1" using ok(1) by (simp add: limited_config_def or_positive_def)
  moreover note ok(4)
  ultimately show ?thesis
    by (simp add: sound_config_def c') (simp add: limited_config_def or_positive_pos defaultMaxEvents_def defaultMaxEventBytes_def
        defaultMaxBodyBytes_def defaultMaxArtifactSize_def defaultAttemptRetentionHours_def defaultParkedAttemptRetentionHours_def
        defaultMaxRetainedAttempts_def)
qed

end
