(* ===== verification/RunnerFacts.thy ===== *)
theory RunnerFacts
  imports RunnerCommands RunnerConfig
begin

text \<open>
  The runner as a machine: what coordinators, harnesses and timers do to it in any order, crashes at any point and
  new processes on the state file. Every run is a sequence of steps in the life of its attempts, so what
  \<open>RunnerLife\<close> guarantees holds of it.

  What a coordinator may rely on: an acknowledged start is on disk and has its harness, the same request answers the
  same again, an attempt that was cancelled before it came never runs, verdicts reach the call that asked; and where
  the code does not keep what it promises.
\<close>

section \<open>Operations\<close>

datatype operation =
  DoStart StartRequest
| DoCancel CancelRequest
| DoResume ResumeRequest
| Asked string PermissionRequest
| GaveUp string string
| Emitted string harness_event
| Ended string harness_result run_error
| Exported string "string option" "(Artifact \<times> string) list"
| Expired string
| CleanedUp string
| Swept
| Closes
| Crashed
| Opened "Event \<Rightarrow> Event" "string \<Rightarrow> bool" "string \<Rightarrow> fault" ConfigLib Capabilities Config "string gomap"

text \<open>A harness asks, emits and exits while it is there; an export ends while its execution is registered and its
  harness is gone.\<close>

definition harnessed :: "string \<Rightarrow> live \<Rightarrow> bool" where
  "harnessed i s \<longleftrightarrow> mget (rn_permissions (fst s)) i \<noteq> None"

definition running :: "string \<Rightarrow> live \<Rightarrow> bool" where
  "running i s \<longleftrightarrow> mget (rn_running (fst s)) i \<noteq> None"

fun perform :: "world \<Rightarrow> operation \<Rightarrow> live \<Rightarrow> live" where
  "perform w (DoStart req) s = snd (Start w req s)"
| "perform w (DoCancel req) s = snd (Cancel w req s)"
| "perform w (DoResume req) s = snd (Resume w req s)"
| "perform w (Asked i q) s = (if harnessed i s then snd (AskPermission w i q s) else s)"
| "perform w (GaveUp i q) s = (if harnessed i s then abandonPermission w i q s else s)"
| "perform w (Emitted i e) s = (if harnessed i s then snd (handleHarnessEvent w i e s) else s)"
| "perform w (Ended i res err) s = (if harnessed i s then execution_ended w i res err s else s)"
| "perform w (Exported i err items) s = (if running i s \<and> \<not> harnessed i s then finish_export w i err items s else s)"
| "perform w (Expired i) s = (expire i (fst s), snd s)"
| "perform w (CleanedUp i) s = finish_cleanup w i s"
| "perform w Swept s = sweep w s"
| "perform w Closes s = (begin_close (fst s), snd s)"
| "perform w Crashed s = s"
| "perform w (Opened rt prune_fails faults cl caps c files) s = s"

text \<open>The attempt an operation may enter.\<close>

fun target :: "operation \<Rightarrow> string option" where
  "target (DoStart req) = Some (sreq_AttemptID req)"
| "target (DoCancel req) = Some (creq_AttemptID req)"
| "target _ = None"

definition enters :: "operation \<Rightarrow> live \<Rightarrow> string set" where
  "enters oper s = (case target oper of None \<Rightarrow> {} | Some i \<Rightarrow> entering i s)"

section \<open>Machines\<close>

datatype machine = Up live | Down persistedState

fun crashes :: "operation \<Rightarrow> bool" where
  "crashes Crashed = True"
| "crashes _ = False"

fun step :: "world \<Rightarrow> operation \<Rightarrow> machine \<Rightarrow> machine" where
  "step w oper (Up s) = (if crashes oper then Down (snd s) else Up (perform w oper s))"
| "step w (Opened rt prune_fails faults cl caps c files) (Down p) =
     (case applyDefaults cl c of
        Inl _ \<Rightarrow> Down p
      | Inr c \<Rightarrow> (case New w rt prune_fails faults caps (runner_config c) files p of (None, p) \<Rightarrow> Down p | (Some r, p) \<Rightarrow> Up (r, p)))"
| "step w oper (Down p) = Down p"

definition empty_file :: persistedState where
  "empty_file = \<lparr>ps_Attempts = [], ps_Events = [], ps_Operations = [], ps_Artifacts = [], ps_Reservations = [], ps_Environments = []\<rparr>"

text \<open>From no state file, any operations in any worlds.\<close>

definition onward :: "(world \<times> operation) list \<Rightarrow> machine \<Rightarrow> machine" where
  "onward history m = fold (\<lambda>(w, oper) m. step w oper m) history m"

definition after :: "(world \<times> operation) list \<Rightarrow> machine" where
  "after history = onward history (Down empty_file)"

lemma onward_simps [simp]: "onward [] m = m" "onward ((w, oper) # history) m = onward history (step w oper m)"
  by (simp_all add: onward_def)

section \<open>Every operation is a sequence of steps\<close>

lemma perform_refines: "refines (enters oper s) s (perform w oper s)"
proof -
  have pair: "s = (fst s, snd s)" by simp
  show ?thesis
  proof (cases oper)
    case (Asked i q)
    then show ?thesis using ask_refines [OF surjective_pairing] by simp
  next
    case (Expired i)
    then show ?thesis using expire_refines [of _ "fst s" "snd s"] by simp
  next
    case Closes
    then show ?thesis using close_refines [of _ "fst s" "snd s"] by simp
  next
    case (Exported i err items)
    then show ?thesis using exported_refines [of s i _ w err items] by (simp add: harnessed_def)
  qed (simp_all add: enters_def start_refines cancel_refines resume_refines abandon_refines event_refines ended_refines
      finish_cleanup_refines sweep_refines)
qed

section \<open>What holds of every run\<close>

text \<open>What a state file of it holds, and what a running one is.\<close>

definition file_ok :: "persistedState \<Rightarrow> bool" where
  "file_ok p \<longleftrightarrow> wf_map (ps_Attempts p) \<and> tasks_ok (lives (ps_Attempts p))"

fun machine_ok :: "machine \<Rightarrow> bool" where
  "machine_ok (Up s) \<longleftrightarrow> good s \<and> most_of s = 1"
| "machine_ok (Down p) \<longleftrightarrow> file_ok p"

lemma good_file: "good s \<Longrightarrow> file_ok (snd s)"
  by (simp add: good_def tidy_def life_ok_def file_ok_def)

lemma machine_step_ok: "machine_ok m \<Longrightarrow> machine_ok (step w oper m)"
proof (induction w oper m rule: step.induct)
  case (1 w oper s)
  have "good (perform w oper s)" using refines_good [OF perform_refines [of oper s w]] 1 by simp
  moreover have "most_of (perform w oper s) = most_of s"
    using perform_refines [of oper s w] 1 by (simp add: refines_def most_of_def)
  ultimately show ?case using 1 good_file by simp
next
  case (2 w rt prune_fails faults cl caps c files p)
  show ?case
  proof (cases "applyDefaults cl c")
    case (Inr d)
    then have cap: "cfg_MaximumCapacity (runner_config d) = 1"
      using applyDefaults_sound [OF Inr] by (simp add: sound_config_def runner_config_def)
    obtain res p' where new: "New w rt prune_fails faults caps (runner_config d) files p = (res, p')" by (rule prod.exhaust)
    define l where "l = empty_life\<lparr>lf_saved := lives (ps_Attempts p)\<rparr>"
    have l: "lf_saved l = lives (ps_Attempts p)" "tasks_ok (lf_saved l)" using 2 by (simp_all add: l_def file_ok_def)
    have ok: "life_ok 1 l" using 2 by (simp add: l_def life_ok_def empty_life_def held_def file_ok_def) (simp add: tasks_ok_def)
    note n = New_life [OF new _ l, of "{}"]
    show ?thesis
    proof (cases res)
      case None
      then have "life_steps 1 {} l (l\<lparr>lf_saved := lives (ps_Attempts p')\<rparr>)" "wf_map (ps_Attempts p')"
        using n 2 cap by (simp_all add: file_ok_def)
      then show ?thesis using life_steps_ok [OF _ ok] Inr new None by (fastforce simp: file_ok_def life_ok_def)
    next
      case (Some r')
      then show ?thesis using n 2 cap Inr new by (simp add: file_ok_def most_of_def)
    qed
  qed (use 2 in simp)
qed simp_all

lemma run_from: "machine_ok m \<Longrightarrow> machine_ok (onward history m)"
proof (induction history arbitrary: m)
  case (Cons h history)
  then show ?case by (cases h) (simp add: machine_step_ok)
qed simp

lemma after_ok: "machine_ok (after history)"
  unfolding after_def by (rule run_from) (simp add: file_ok_def empty_file_def tasks_ok_def lives_def mget_def)

lemma after_good: "after history = Up s \<Longrightarrow> good s" "after history = Up s \<Longrightarrow> most_of s = 1"
  using after_ok [of history] by simp_all

section \<open>What stays final\<close>

fun settled_in :: "string \<Rightarrow> string \<Rightarrow> machine \<Rightarrow> bool" where
  "settled_in i p (Up s) \<longleftrightarrow> settled_as i p (life_of s)"
| "settled_in i p (Down f) \<longleftrightarrow> IsTerminal p \<and> (\<forall>x. lives (ps_Attempts f) i = Some x \<longrightarrow> life_phase x = p)"

fun knows :: "string \<Rightarrow> machine \<Rightarrow> bool" where
  "knows i (Up s) \<longleftrightarrow> mget (attempts (fst s)) i \<noteq> None"
| "knows i (Down f) \<longleftrightarrow> True"

lemma settled_machine_step:
  assumes "settled_in i p m" "machine_ok m" "knows i m"
  shows "settled_in i p (step w oper m)"
  using assms
proof (induction w oper m rule: step.induct)
  case (1 w oper s)
  have i: "i \<notin> enters oper s" using 1 by (auto simp: enters_def entering_def split: option.splits if_splits)
  have "life_steps (most_of s) (enters oper s) (life_of s) (life_of (perform w oper s))"
    using perform_refines [of oper s w] 1 by (simp add: refines_def)
  from settled_steps [OF this _ i] 1 have "settled_as i p (life_of (perform w oper s))" by simp
  then show ?case using 1 by (simp add: settled_as_def)
next
  case (2 w rt prune_fails faults cl caps c files f)
  show ?case
  proof (cases "applyDefaults cl c")
    case (Inr d)
    then have cap: "0 \<le> cfg_MaximumCapacity (runner_config d)"
      using applyDefaults_sound [OF Inr] by (simp add: sound_config_def runner_config_def)
    obtain res f' where new: "New w rt prune_fails faults caps (runner_config d) files f = (res, f')" by (rule prod.exhaust)
    define l where "l = empty_life\<lparr>lf_saved := lives (ps_Attempts f)\<rparr>"
    have l: "lf_saved l = lives (ps_Attempts f)" "tasks_ok (lf_saved l)" using 2 by (simp_all add: l_def file_ok_def)
    have s: "settled_as i p l" using 2 by (simp add: l_def settled_as_def empty_life_def)
    note n = New_life [OF new _ l cap, of "{}"]
    show ?thesis
    proof (cases res)
      case None
      then have "life_steps (cfg_MaximumCapacity (runner_config d)) {} l (l\<lparr>lf_saved := lives (ps_Attempts f')\<rparr>)"
        using n 2 by (simp add: file_ok_def)
      from settled_steps [OF this s] show ?thesis using Inr new None by (simp add: settled_as_def)
    next
      case (Some r')
      then have "life_steps (cfg_MaximumCapacity (runner_config d)) {} l (life_of (r', f'))"
        using n 2 by (simp add: file_ok_def)
      from settled_steps [OF this s] show ?thesis using Inr new Some by simp
    qed
  qed (use 2 in simp)
qed simp_all

lemma settled_run:
  assumes "settled_in i p m" "machine_ok m" "\<forall>k \<le> length history. knows i (onward (take k history) m)"
  shows "settled_in i p (onward history m)"
  using assms
proof (induction history arbitrary: m)
  case (Cons h history)
  obtain w oper where h: "h = (w, oper)" by (cases h)
  have "knows i m" using Cons.prems(3) [rule_format, of 0] by simp
  note s = settled_machine_step [OF Cons.prems(1,2) this, of w oper] machine_step_ok [OF Cons.prems(2), of w oper]
  have "\<forall>k \<le> length history. knows i (onward (take k history) (step w oper m))"
  proof (intro allI impI)
    fix k assume "k \<le> length history"
    then show "knows i (onward (take k history) (step w oper m))" using Cons.prems(3) [rule_format, of "Suc k"] by (simp add: h)
  qed
  from Cons.IH [OF s this] show ?case by (simp add: h)
qed simp

section \<open>Launches\<close>

lemma startExecution_done:
  assumes "startExecutionLocked w k i instructions model s = (Inr x, s')" "mget (rn_running (fst s)) i = None"
  obtains a where "mget (attempts (fst s)) i = Some a" "persist w k (begin_execution w i a (fst s), snd s) = (None, s')"
proof -
  obtain a where a: "mget (attempts (fst s)) i = Some a"
    using assms unfolding startExecutionLocked_def by (cases "mget (attempts (fst s)) i") (simp_all add: Let_def)
  obtain e t where p: "persist w k (begin_execution w i a (fst s), snd s) = (e, t)" by (rule prod.exhaust)
  have "e = None \<and> t = s'"
    using assms unfolding startExecutionLocked_def Let_def a option.case
    by (simp add: p split: if_splits option.splits sum.splits prod.splits)
  then show thesis using that a p by blast
qed

lemma persist_done:
  assumes "persist w k s = (None, s')"
  shows "rn_state (fst s') = rn_state (fst s)" "ps_Attempts (snd s') = attempts (fst s)" "ps_Operations (snd s') = ps_Operations (rn_state (fst s))"
  using persist_quiet(9) [OF assms] persist_frame(3) [OF assms] by simp_all

text \<open>What a launch leaves.\<close>

lemma launch_done:
  assumes "startExecutionLocked w k i instructions model s = (Inr x, s')" "mget (rn_running (fst s)) i = None"
  obtains a b where "mget (attempts (fst s)) i = Some a" "mget (attempts (fst s')) i = Some b" "mget (ps_Attempts (snd s')) i = Some b"
    "b = a\<lparr>ar_Receipt := (ar_Receipt a)\<lparr>rc_Phase := PhaseStarting, rc_Blocker := [], rc_UpdatedAt := w_now w\<rparr>\<rparr>"
    "harnessed i s'" "running i s'" "ps_Operations (rn_state (fst s')) = ps_Operations (rn_state (fst s))"
    "ps_Operations (snd s') = ps_Operations (rn_state (fst s))"
    "rn_closed (fst s') = rn_closed (fst s)" "rn_capabilities (fst s') = rn_capabilities (fst s)"
proof (rule startExecution_done [OF assms])
  fix a assume a: "mget (attempts (fst s)) i = Some a" and p: "persist w k (begin_execution w i a (fst s), snd s) = (None, s')"
  note q = persist_quiet [OF p] and d = persist_done [OF p]
  show thesis
    by (rule that [OF a]) (use a q d in \<open>simp_all add: begin_execution_def harnessed_def running_def\<close>)
qed

section \<open>Start\<close>

lemma purge_capabilities:
  assumes "dropAttemptLocked f rm r i = (paths, r')"
  shows "rn_closed r' = rn_closed r \<and> rn_capabilities r' = rn_capabilities r"
  using assms by (cases "mget (attempts r) i") (auto simp: dropAttemptLocked_def Let_def)

lemma drop_all_capabilities:
  assumes "drop_all faults ids r = (paths, r')"
  shows "rn_closed r' = rn_closed r \<and> rn_capabilities r' = rn_capabilities r"
  using assms by (induction rule: drop_all_induct) (auto dest: purge_capabilities)

lemma enter_quiet:
  "rn_closed (enter_attempt w c workdir req r) = rn_closed r" "rn_capabilities (enter_attempt w c workdir req r) = rn_capabilities r"
  "mget (attempts (enter_attempt w c workdir req r)) (sreq_AttemptID req) = Some (accepted_record w workdir req)"
  "mget (ps_Operations (rn_state (enter_attempt w c workdir req r))) (start_key req) =
     Some \<lparr>op_Fingerprint = start_fingerprint w req, op_AttemptID = sreq_AttemptID req\<rparr>"
  "rn_running (enter_attempt w c workdir req r) = rn_running r"
proof -
  obtain n paths u where purge: "purgeAttemptsLocked (w_purge w) r (w_now w) = (n, paths, u)" by (metis prod_cases3)
  then obtain ids where "drop_all (w_purge w) ids r = (paths, u)" by (auto simp: purgeAttemptsLocked_def Let_def split: prod.splits)
  note u = drop_all_capabilities [OF this] purge_only(2) [OF purge]
  show "rn_closed (enter_attempt w c workdir req r) = rn_closed r" "rn_capabilities (enter_attempt w c workdir req r) = rn_capabilities r"
    "mget (attempts (enter_attempt w c workdir req r)) (sreq_AttemptID req) = Some (accepted_record w workdir req)"
    "mget (ps_Operations (rn_state (enter_attempt w c workdir req r))) (start_key req) =
       Some \<lparr>op_Fingerprint = start_fingerprint w req, op_AttemptID = sreq_AttemptID req\<rparr>"
    "rn_running (enter_attempt w c workdir req r) = rn_running r"
    using u by (simp_all add: enter_attempt_def purge Let_def record_operation_def)
qed

text \<open>What an accepted start leaves.\<close>

definition acknowledged :: "world \<Rightarrow> StartRequest \<Rightarrow> AttemptReceipt \<Rightarrow> live \<Rightarrow> bool" where
  "acknowledged w req rc s \<longleftrightarrow>
     (\<exists>a. mget (attempts (fst s)) (sreq_AttemptID req) = Some a \<and> mget (ps_Attempts (snd s)) (sreq_AttemptID req) = Some a \<and>
        ar_Receipt a = rc \<and> ar_Start a = req\<lparr>sreq_Repository := None, sreq_HarnessCredential := None\<rparr>) \<and>
     rc_Phase rc = PhaseStarting \<and> harnessed (sreq_AttemptID req) s \<and> running (sreq_AttemptID req) s \<and>
     mget (ps_Operations (rn_state (fst s))) (start_key req) =
       Some \<lparr>op_Fingerprint = start_fingerprint w req, op_AttemptID = sreq_AttemptID req\<rparr> \<and>
     mget (ps_Operations (snd s)) (start_key req) =
       Some \<lparr>op_Fingerprint = start_fingerprint w req, op_AttemptID = sreq_AttemptID req\<rparr>"

lemma accept_done:
  assumes "accept_start w credential workdir req s = (Inr rc, s')" "mget (rn_running (fst s)) (sreq_AttemptID req) = None"
  shows "acknowledged w req rc s' \<and> rn_closed (fst s') = rn_closed (fst s) \<and> rn_capabilities (fst s') = rn_capabilities (fst s)"
proof -
  let ?i = "sreq_AttemptID req"
  define v where "v = enter_attempt w credential workdir req (fst s)"
  note v = enter_quiet [of w credential workdir req "fst s", folded v_def]
  obtain e r1 where app: "append_event w 0 ?i EventAccepted ''attempt accepted'' [] v = (e, r1)" by (rule prod.exhaust)
  obtain f t where pers: "persist w 0 (r1, snd s) = (f, t)" by (rule prod.exhaust)
  obtain g u where exec: "startExecutionLocked w 1 ?i (sreq_Instructions req) (sreq_Model req) t = (g, u)" by (rule prod.exhaust)
  have ok: "e = None" "f = None" "\<exists>x. g = Inr x" "s' = u" "receiptForAttemptLocked (fst u) ?i = Inr rc"
    using assms(1) unfolding accept_start_def Let_def v_def [symmetric] app
    by (cases e; cases f; cases g; simp add: pers exec [simplified])+
  then obtain x where x: "g = Inr x" by blast
  note qa = append_quiet [OF app] and qp = persist_quiet [OF pers]
  obtain a1 where a1: "mget (attempts r1) ?i = Some a1" "core a1 = core (accepted_record w workdir req)"
    using same_attemptsD [OF qa(13) v(3)] by blast
  have notrun: "mget (rn_running (fst t)) ?i = None" using qa(3) qp(3) v(5) assms(2) by simp
  obtain a b where l: "mget (attempts (fst t)) ?i = Some a" "mget (attempts (fst u)) ?i = Some b" "mget (ps_Attempts (snd u)) ?i = Some b"
    "b = a\<lparr>ar_Receipt := (ar_Receipt a)\<lparr>rc_Phase := PhaseStarting, rc_Blocker := [], rc_UpdatedAt := w_now w\<rparr>\<rparr>"
    "harnessed ?i u" "running ?i u" "ps_Operations (rn_state (fst u)) = ps_Operations (rn_state (fst t))"
    "ps_Operations (snd u) = ps_Operations (rn_state (fst t))"
    "rn_closed (fst u) = rn_closed (fst t)" "rn_capabilities (fst u) = rn_capabilities (fst t)"
    by (rule launch_done [OF exec [unfolded x] notrun])
  have "a = a1" using l(1) a1(1) qp(9) by simp
  then have "ar_Start b = stripped req" using core_fields(1) [OF a1(2)] l(4) by (simp add: accepted_record_def)
  moreover have "ar_Receipt b = rc" using ok(5) l(2) by (simp add: receiptForAttemptLocked_def receipt_of_def)
  moreover have "rc_Phase (ar_Receipt b) = PhaseStarting" by (simp add: l(4))
  moreover have "ps_Operations (rn_state (fst t)) = ps_Operations (rn_state v)" using qa(9) qp(9) by simp
  ultimately show ?thesis
    using l ok(4) v qa qp by (simp add: acknowledged_def stripped_def)
qed

lemma new_start_done:
  assumes "new_start w credential req s = (Inr rc, s')" "mget (rn_running (fst s)) (sreq_AttemptID req) = None"
  shows "acknowledged w req rc s' \<and> rn_closed (fst s') = rn_closed (fst s) \<and> rn_capabilities (fst s') = rn_capabilities (fst s)"
proof -
  let ?i = "sreq_AttemptID req"
  obtain e u where res: "reserveResourcesLocked ?i (sreq_Resources req) (fst s) = (e, u)" by (rule prod.exhaust)
  have u: "rn_running u = rn_running (fst s)" "rn_closed u = rn_closed (fst s)" "rn_capabilities u = rn_capabilities (fst s)"
    using reserve_silent [OF res] by auto
  obtain workdir where "accept_start w credential workdir req (u, snd s) = (Inr rc, s')"
    using assms(1) unfolding new_start_def Let_def res by (auto split: option.splits sum.splits)
  from accept_done [OF this] u assms(2) show ?thesis by simp
qed

text \<open>C9: in every reachable runner a start of a new attempt that is acknowledged is on disk with its request ID before
  the answer, without clone source and credential, and its harness has been launched.\<close>

theorem start_acknowledged:
  assumes "after history = Up s" "Start w req s = (Inr rc, s')"
    and "mget (ps_Operations (rn_state (fst s))) (start_key req) = None" "mget (attempts (fst s)) (sreq_AttemptID req) = None"
  shows "acknowledged w req rc s'"
proof -
  have "mget (rn_running (fst s)) (sreq_AttemptID req) = None" by (rule idle_absent [OF after_good(1) [OF assms(1)] assms(4)])
  moreover obtain c where "new_start w c req s = (Inr rc, s')"
    using assms(2-4) unfolding Start_def Let_def by (auto split: sum.splits if_splits option.splits)
  ultimately show ?thesis using new_start_done by blast
qed

lemma mput_twice: "mput k v (mput k v m) = mput k v m"
  by (simp add: mput_def update_last)

lemma start_known:
  assumes "start_credential w (fst s) req = Inr c" "\<not> rn_closed (fst s)"
    and "mget (ps_Operations (rn_state (fst s))) (start_key req) = Some \<lparr>op_Fingerprint = start_fingerprint w req, op_AttemptID = i\<rparr>"
    and "mget (attempts (fst s)) i = Some a" "phase a \<noteq> PhaseAccepted \<or> ar_CancelPending a"
  shows "Start w req s = (Inr (ar_Receipt a), s)"
  using assms by (auto simp: Start_def replay_start_def Let_def receiptForAttemptLocked_def receipt_of_def)

lemma same_lib:
  assumes "w_lib w' = w_lib w"
  shows "start_fingerprint w' req = start_fingerprint w req"
    "rn_capabilities r' = rn_capabilities r \<Longrightarrow> start_credential w' r' req = start_credential w r req"
proof -
  show "start_fingerprint w' req = start_fingerprint w req" by (simp add: start_fingerprint_def assms)
  assume c: "rn_capabilities r' = rn_capabilities r"
  have "effort_error w' r' req = effort_error w r req" unfolding effort_error_def c assms by (rule refl)
  then show "start_credential w' r' req = start_credential w r req" unfolding start_credential_def assms by (simp only:)
qed

text \<open>A replay that launches leaves the attempt started; any other leaves all but the credential as it was.\<close>

lemma replay_no_launch:
  assumes "op_Fingerprint prior = fp" "mget (attempts (fst s)) (op_AttemptID prior) = Some a" "phase a \<noteq> PhaseAccepted \<or> ar_CancelPending a"
  shows "replay_start w c fp prior s = (Inr (ar_Receipt a), s)"
  unfolding replay_start_def Let_def assms(2) option.case using assms by (auto simp: receiptForAttemptLocked_def receipt_of_def)

lemma replay_launch:
  assumes "op_Fingerprint prior = fp" "mget (attempts (fst s)) (op_AttemptID prior) = Some a" "phase a = PhaseAccepted" "\<not> ar_CancelPending a"
    and "startExecutionLocked w 0 (op_AttemptID prior) (sreq_Instructions (ar_Start a)) (sreq_Model (ar_Start a))
      ((fst s)\<lparr>rn_credentials := mput (op_AttemptID prior) c (rn_credentials (fst s))\<rparr>, snd s) = (g, u)"
  shows "replay_start w c fp prior s =
    (case g of Inl e \<Rightarrow> Inl (protocolError ErrorUnavailable True (''persist starting attempt: '' @ e) (receipt_of (fst u) (op_AttemptID prior)))
      | Inr _ \<Rightarrow> receiptForAttemptLocked (fst u) (op_AttemptID prior), u)"
  unfolding replay_start_def Let_def assms(2,5) option.case using assms(1,3,4) by (cases g) simp_all

lemma replay_again:
  assumes "replay_start w c fp prior s = (Inr rc, s')" "op_Fingerprint prior = fp"
  shows "replay_start w' c fp prior s' = (Inr rc, s') \<and> rn_closed (fst s') = rn_closed (fst s) \<and>
    rn_capabilities (fst s') = rn_capabilities (fst s) \<and> ps_Operations (rn_state (fst s')) = ps_Operations (rn_state (fst s))"
proof -
  let ?i = "op_AttemptID prior"
  obtain a where a: "mget (attempts (fst s)) ?i = Some a"
    using assms unfolding replay_start_def Let_def
    by (cases "mget (attempts (fst s)) ?i") (simp_all add: receiptForAttemptLocked_def receipt_of_def)
  show ?thesis
  proof (cases "phase a = PhaseAccepted \<and> \<not> ar_CancelPending a")
    case False
    then have no: "phase a \<noteq> PhaseAccepted \<or> ar_CancelPending a" by blast
    have "s' = s" using assms(1) replay_no_launch [OF assms(2) a no, of w c] by simp
    then show ?thesis using assms(1) replay_no_launch [OF assms(2) a no, of _ c] by simp
  next
    case True
    let ?c = "((fst s)\<lparr>rn_credentials := mput ?i c (rn_credentials (fst s))\<rparr>, snd s)"
    obtain g u where exec: "startExecutionLocked w 0 ?i (sreq_Instructions (ar_Start a)) (sreq_Model (ar_Start a)) ?c = (g, u)"
      by (rule prod.exhaust)
    have r: "replay_start w c fp prior s = (case g of Inl e \<Rightarrow> Inl (protocolError ErrorUnavailable True (''persist starting attempt: '' @ e)
        (receipt_of (fst u) ?i)) | Inr _ \<Rightarrow> receiptForAttemptLocked (fst u) ?i, u)"
      using replay_launch [OF assms(2) a _ _ exec] True by simp
    have u: "s' = u" and v: "(case g of Inl e \<Rightarrow> Inl (protocolError ErrorUnavailable True (''persist starting attempt: '' @ e)
        (receipt_of (fst u) ?i)) | Inr _ \<Rightarrow> receiptForAttemptLocked (fst u) ?i) = Inr rc"
      using trans [OF assms(1) [symmetric] r] by simp_all
    from v obtain x where x: "g = Inr x" by (cases g) simp_all
    have rc: "receiptForAttemptLocked (fst u) ?i = Inr rc" using v x by simp
    show ?thesis
    proof (cases "mget (rn_running (fst s)) ?i")
      case (Some b)
      then have c: "u = ?c" using exec by (simp add: startExecutionLocked_def Let_def)
      then have "((fst u)\<lparr>rn_credentials := mput ?i c (rn_credentials (fst u))\<rparr>, snd u) = u" by (simp add: mput_twice)
      moreover have "startExecutionLocked w' 0 ?i (sreq_Instructions (ar_Start a)) (sreq_Model (ar_Start a)) u = (Inr None, u)"
        using Some c by (simp add: startExecutionLocked_def Let_def)
      ultimately have "replay_start w' c fp prior u = (receiptForAttemptLocked (fst u) ?i, u)"
        using replay_launch [OF assms(2), of u a w' c "Inr None" u] a True c by simp
      then show ?thesis unfolding u rc by (simp add: c)
    next
      case None
      have idle: "mget (rn_running (fst ?c)) ?i = None" using None by simp
      obtain b where
        b: "mget (attempts (fst u)) ?i = Some b" "phase b = PhaseStarting" "ps_Operations (rn_state (fst u)) = ps_Operations (rn_state (fst s))"
          "rn_closed (fst u) = rn_closed (fst s)" "rn_capabilities (fst u) = rn_capabilities (fst s)"
        by (rule launch_done [OF exec [unfolded x] idle]) simp
      have "rc = ar_Receipt b" using rc b(1) by (simp add: receiptForAttemptLocked_def receipt_of_def)
      then show ?thesis unfolding u using b replay_no_launch [OF assms(2) b(1), of w' c] by simp
    qed
  qed
qed

text \<open>C20: the same start again, after an answer that was lost, is answered with the same receipt and changes nothing,
  whatever the clock, the disk and the repositories do in between: one request is one execution.\<close>

theorem start_again:
  assumes "after history = Up s" "Start w req s = (Inr rc, s')" "w_lib w' = w_lib w"
  shows "Start w' req s' = (Inr rc, s')"
proof -
  let ?i = "sreq_AttemptID req"
  obtain c where c: "start_credential w (fst s) req = Inr c" "\<not> rn_closed (fst s)"
    using assms(2) by (auto simp: Start_def Let_def split: sum.splits if_splits)
  note lib = same_lib [OF assms(3)]
  consider prior where "mget (ps_Operations (rn_state (fst s))) (start_key req) = Some prior"
    | a where "mget (ps_Operations (rn_state (fst s))) (start_key req) = None" "mget (attempts (fst s)) ?i = Some a"
    | "mget (ps_Operations (rn_state (fst s))) (start_key req) = None" "mget (attempts (fst s)) ?i = None"
    by fastforce
  then show ?thesis
  proof cases
    case 1
    then have "replay_start w c (start_fingerprint w req) prior s = (Inr rc, s')" using assms(2) c by (simp add: Start_def Let_def)
    moreover from this have "op_Fingerprint prior = start_fingerprint w req" by (auto simp: replay_start_def Let_def split: if_splits)
    ultimately have "replay_start w' c (start_fingerprint w req) prior s' = (Inr rc, s')" "rn_closed (fst s') = rn_closed (fst s)"
      "rn_capabilities (fst s') = rn_capabilities (fst s)" "ps_Operations (rn_state (fst s')) = ps_Operations (rn_state (fst s))"
      using replay_again by blast+
    moreover from this have "start_credential w' (fst s') req = Inr c" using lib(2) c(1) by metis
    ultimately show ?thesis using 1 c(2) lib(1) by (simp add: Start_def Let_def)
  next
    case 2
    then have "s' = s" using assms(2) c by (auto simp: Start_def Let_def split: option.splits if_splits)
    moreover have "start_credential w' (fst s) req = Inr c" using lib(2) c(1) by metis
    ultimately show ?thesis using assms(2) 2 c lib(1) by (auto simp: Start_def Let_def split: option.splits if_splits)
  next
    case 3
    have "mget (rn_running (fst s)) ?i = None" by (rule idle_absent [OF after_good(1) [OF assms(1)] 3(2)])
    moreover have "new_start w c req s = (Inr rc, s')"
      using assms(2) 3 c by (auto simp: Start_def Let_def split: option.splits)
    ultimately have d: "acknowledged w req rc s'" "rn_closed (fst s') = rn_closed (fst s)" "rn_capabilities (fst s') = rn_capabilities (fst s)"
      using new_start_done by blast+
    moreover from this have "start_credential w' (fst s') req = Inr c" using lib(2) c(1) by metis
    ultimately show ?thesis using start_known [of w' s' req c ?i] c(2) lib(1) by (auto simp: acknowledged_def)
  qed
qed

section \<open>Runs\<close>

text \<open>C2: in every reachable runner at most one attempt has a harness, whatever is started, resumed, cancelled, parked
  on a question or a permission, and however often the process dies.\<close>

theorem one_harness:
  assumes "after history = Up s" "harnessed i s" "harnessed j s"
  shows "i = j"
proof -
  have ok: "life_ok 1 (life_of s)" using after_good [OF assms(1)] by (simp add: good_def)
  then have "finite (held (life_of s))" "card (held (life_of s)) \<le> 1" by (simp_all add: life_ok_def)
  moreover have "i \<in> held (life_of s)" "j \<in> held (life_of s)" using assms(2,3) by (simp_all add: held_def harnessed_def)
  ultimately show ?thesis using card_le_Suc0_iff_eq by auto
qed

text \<open>C10: in every reachable runner a harness belongs to an execution that is under way, and an execution to an attempt
  that is recorded and not over; no two attempts of a task have the same epoch, in the runner and in its file.\<close>

theorem runner_invariant:
  assumes "after history = Up s"
  shows "(harnessed i s \<longrightarrow> running i s) \<and>
    (running i s \<longrightarrow> (\<exists>a. mget (attempts (fst s)) i = Some a \<and> \<not> IsTerminal (phase a))) \<and>
    (\<forall>m \<in> {attempts (fst s), ps_Attempts (snd s)}. \<forall>j a b. i \<noteq> j \<and> mget m i = Some a \<and> mget m j = Some b \<and>
       rc_TaskID (ar_Receipt a) = rc_TaskID (ar_Receipt b) \<longrightarrow> rc_AttemptEpoch (ar_Receipt a) \<noteq> rc_AttemptEpoch (ar_Receipt b))"
proof -
  have ok: "life_ok 1 (life_of s)" using after_good [OF assms] by (simp add: good_def)
  have t: "rc_AttemptEpoch (ar_Receipt a) \<noteq> rc_AttemptEpoch (ar_Receipt b)" if "tasks_ok (lives m)" "i \<noteq> j" "mget m i = Some a"
    "mget m j = Some b" "rc_TaskID (ar_Receipt a) = rc_TaskID (ar_Receipt b)" for m j a b
    using that(1) [unfolded tasks_ok_def, rule_format, of i j "receipt_life (ar_Receipt a)" "receipt_life (ar_Receipt b)"] that
    by (simp add: lives_Some)
  have "harnessed i s \<longrightarrow> running i s" using ok by (auto simp: life_ok_def harnessed_def running_def)
  moreover have "running i s \<longrightarrow> (\<exists>a. mget (attempts (fst s)) i = Some a \<and> \<not> IsTerminal (phase a))"
    using ok by (fastforce simp: life_ok_def running_def lives_def)
  moreover have "tasks_ok (lives (attempts (fst s)))" "tasks_ok (lives (ps_Attempts (snd s)))" using ok by (simp_all add: life_ok_def)
  ultimately show ?thesis using t by blast
qed

text \<open>C3: every operation of the runner, in any world, refines the life of its attempts: it is a sequence of the steps
  of the abstract machine, and only a start or a cancellation of an attempt the runner does not know enters one.\<close>

theorem operations_refine_life:
  assumes "after history = Up s"
  shows "life_steps 1 (enters oper s) (life_of s) (life_of (perform w oper s))"
  using perform_refines [of oper s w] after_good [OF assms] by (simp add: refines_def)

section \<open>Cancellation\<close>

lemma fence_settled:
  assumes "cancelUnseenLocked w req k fp s = (Inr rc, s')" "mget (attempts (fst s)) (creq_AttemptID req) = None" "good s"
  shows "settled_as (creq_AttemptID req) PhaseCancelled (life_of s')"
proof -
  obtain r p r' p' where s: "s = (r, p)" "s' = (r', p')" by (metis prod.exhaust)
  have "checkEpochLocked r (creq_TaskID req) (creq_AttemptID req) (creq_AttemptEpoch req) = None"
    using assms(1) s by (auto simp: cancelUnseenLocked_def Let_def split: option.splits)
  from fence_effect [OF assms(1) [unfolded s] this]
  have f: "lives (attempts r') = (lives (attempts r))(creq_AttemptID req := Some (fence_life req))"
    "lives (ps_Attempts p') = (lives (attempts r))(creq_AttemptID req := Some (fence_life req))"
    "rn_running r' = rn_running r" "rn_permissions r' = rn_permissions r" by auto
  have "mget (rn_running r) (creq_AttemptID req) = None" using idle_absent [OF assms(3,2)] s by simp
  moreover have "mget (rn_permissions r) (creq_AttemptID req) = None"
    using assms(3) calculation s by (auto simp: good_def life_ok_def)
  ultimately show ?thesis using f by (simp add: s settled_as_def fence_life_def)
qed

text \<open>C4: a cancellation of an attempt the runner has never seen, once acknowledged, is final: whatever comes after it,
  the delayed start, retries, crashes and new processes included, no harness runs for the attempt as long as the
  runner remembers it, and it stays cancelled.\<close>

theorem cancelled_before_start:
  assumes "after history = Up s" "Cancel w req s = (Inr rc, s')" "mget (attempts (fst s)) (creq_AttemptID req) = None"
    and "mget (ps_Operations (rn_state (fst s))) (cancel_key req) = None"
    and "\<forall>k \<le> length later. knows (creq_AttemptID req) (onward (take k later) (Up s'))"
  shows "case onward later (Up s') of
      Up t \<Rightarrow> \<not> running (creq_AttemptID req) t \<and> \<not> harnessed (creq_AttemptID req) t \<and>
        (\<exists>a. mget (attempts (fst t)) (creq_AttemptID req) = Some a \<and> phase a = PhaseCancelled)
    | Down f \<Rightarrow> \<forall>a. mget (ps_Attempts f) (creq_AttemptID req) = Some a \<longrightarrow> phase a = PhaseCancelled"
proof -
  let ?i = "creq_AttemptID req"
  obtain k fp where "cancelUnseenLocked w req k fp s = (Inr rc, s')"
    using assms(2-4) by (auto simp: Cancel_def Let_def split: option.splits if_splits)
  from fence_settled [OF this assms(3) after_good(1) [OF assms(1)]] have "settled_in ?i PhaseCancelled (Up s')" by simp
  moreover have "machine_ok (Up s')" using machine_step_ok [OF after_ok [of history], of w "DoCancel req"] assms(1,2) by simp
  ultimately have e: "settled_in ?i PhaseCancelled (onward later (Up s'))" using settled_run assms(5) by blast
  have k: "knows ?i (onward later (Up s'))" using assms(5) by (metis order_refl take_all_iff)
  show ?thesis
  proof (cases "onward later (Up s')")
    case (Up t)
    then show ?thesis using e k by (auto simp: settled_as_def running_def harnessed_def lives_def)
  next
    case (Down f)
    then show ?thesis using e by (auto simp: lives_def)
  qed
qed

end
