(* ===== verification/RunnerAnswers.thy ===== *)
theory RunnerAnswers
  imports RunnerFacts
begin

text \<open>
  What answers reach, and which do not: a verdict reaches the call that asked for it, a stale start is refused; a retry
  of a cancellation or a resume that was not recorded is answered as if it had been, and a credential outlives its
  attempt.
\<close>

section \<open>Verdicts\<close>

lemma answer_answers:
  assumes "answerPermissionLocked w i q v s = (e, s')"
  shows "rn_answers (fst s') = rn_answers (fst s) \<or>
    (\<exists>g g'. mget (rn_permissions (fst s)) i = Some g \<and> pg_answer g \<and> pg_requestID g = q \<and>
       rn_answers (fst s') = rn_answers (fst s) @ [(i, q, v)] \<and> mget (rn_permissions (fst s')) i = Some g' \<and> pg_requestID g' = [])"
proof (cases "s' = s")
  case False
  obtain g r0 where g: "mget (rn_permissions (fst s)) i = Some g" "deliver i q v g (fst s) = Some r0"
    using assms False unfolding answerPermissionLocked_def by (auto simp: Let_def split: option.splits)
  then have d: "pg_answer g" "pg_requestID g = q" "rn_answers r0 = rn_answers (fst s) @ [(i, q, v)]"
    by (auto simp: deliver_def split: if_splits)
  define c where "c = gate_clock (clock_unpause (w_now w)) (gate_close g)"
  let ?m = "if pv_Allow v then ''permission granted'' else ''permission denied''"
  obtain f r1 where app: "append_event w 0 i EventProgress ?m [] (set_receipt i (answer_receipt w) (set_gate i c r0)) = (f, r1)" by (rule prod.exhaust)
  obtain h t where pers: "persist w 0 (r1, snd s) = (h, t)" by (rule prod.exhaust)
  have "fst s' = r1 \<or> s' = t"
    using assms unfolding answerPermissionLocked_def Let_def g option.case c_def [symmetric] app by (cases f) (auto simp: pers)
  then have "rn_answers (fst s') = rn_answers r0" "mget (rn_permissions (fst s')) i = Some c"
    using append_quiet(4,8) [OF app] persist_quiet(4,8) [OF pers] by auto
  then show ?thesis using g(1) d by (simp add: c_def gate_clock_def gate_close_def)
qed simp

lemma launch_answers:
  assumes "startExecutionLocked w k i instructions model s = (res, s')"
  shows "rn_answers (fst s') = rn_answers (fst s)"
proof (cases "s' = s")
  case False
  obtain a e t where p: "persist w k (begin_execution w i a (fst s), snd s) = (e, t)"
    and s': "s' = (case e of None \<Rightarrow> t | Some _ \<Rightarrow> (undo_execution i a (fst t), snd t))"
    by (rule startExecution_cases [OF assms False])
  have "rn_answers (fst t) = rn_answers (fst s)" using persist_quiet(8) [OF p] by simp
  then show ?thesis by (cases e) (simp_all add: s' undo_execution_def)
qed simp

lemma relaunch_answers: "rn_answers (fst (snd (relaunch w c fp a req s))) = rn_answers (fst s)"
proof (cases "checkStartRequirementsLocked (fst s) (ar_Start a)")
  case None
  let ?i = "rreq_AttemptID req"
  obtain e u where res: "reserveResourcesLocked ?i (ar_Resources a) (fst s) = (e, u)" by (rule prod.exhaust)
  have u: "rn_answers u = rn_answers (fst s)" using reserve_silent [OF res] by auto
  define v where "v = set_receipt ?i (resume_receipt w) (set_attempt ?i (\<lambda>a. a\<lparr>ar_CancelPending := False\<rparr>)
      ((record_operation (resume_key req) fp ?i u)\<lparr>rn_credentials := mput ?i c (rn_credentials (record_operation (resume_key req) fp ?i u))\<rparr>))"
  have v: "rn_answers v = rn_answers u" by (simp add: v_def record_operation_def)
  obtain f r1 where app: "append_event w 0 ?i EventAccepted ''resume accepted'' [] v = (f, r1)" by (rule prod.exhaust)
  obtain g t where pers: "persist w 0 (r1, snd s) = (g, t)" by (rule prod.exhaust)
  obtain h z where exec: "startExecutionLocked w 1 ?i (sreq_Instructions (ar_Start a) @ resolution_header @ rreq_Resolution req)
      (sreq_Model (ar_Start a)) t = (h, z)" by (rule prod.exhaust)
  have "snd (relaunch w c fp a req s) \<in> {(u, snd s), (r1, snd s), t, z}"
    unfolding relaunch_def Let_def None option.case res
    by (cases e; cases f; cases g; cases h) (simp_all add: v_def [symmetric] app pers exec [simplified])
  then show ?thesis
    using u v append_quiet(8) [OF app] persist_quiet(8) [OF pers] launch_answers [OF exec] by auto
qed (simp add: relaunch_def)

lemma permission_answers:
  assumes "resumePermissionLocked w a req k fp s = (d, s')"
  shows "rn_answers (fst s') = rn_answers (fst s) \<or>
    (\<exists>g g' q. mget (rn_permissions (fst s)) (rreq_AttemptID req) = Some g \<and> pg_answer g \<and> pg_requestID g = rreq_PermissionID req \<and>
       rc_Permission (ar_Receipt a) = Some q \<and> pr_ID q = rreq_PermissionID req \<and>
       rn_answers (fst s') = rn_answers (fst s) @ [(rreq_AttemptID req, rreq_PermissionID req, verdict_of req)] \<and>
       mget (rn_permissions (fst s')) (rreq_AttemptID req) = Some g' \<and> pg_requestID g' = [])"
proof (cases "s' = s")
  case False
  let ?i = "rreq_AttemptID req"
  have ref: "permission_refusal (ar_Receipt a) req = None"
    using assms False by (auto simp: resumePermissionLocked_def Let_def split: if_splits option.splits)
  then obtain q where q: "rc_Permission (ar_Receipt a) = Some q" "pr_ID q = rreq_PermissionID req"
    by (auto simp: permission_refusal_def split: option.splits if_splits)
  obtain e r1 p1 where ans: "answerPermissionLocked w ?i (rreq_PermissionID req) (verdict_of req) s = (e, r1, p1)" by (metis prod.exhaust)
  obtain f t where pers: "persist w 1 (record_operation k fp ?i r1, p1) = (f, t)" by (rule prod.exhaust)
  have "s' \<in> {(r1, p1), t}"
    using assms q unfolding resumePermissionLocked_def Let_def ans ref by (cases e; cases f) (auto simp: pers [simplified])
  moreover have "rn_answers (fst t) = rn_answers r1" "rn_permissions (fst t) = rn_permissions r1"
    using persist_quiet(4,8) [OF pers] by (simp_all add: record_operation_def)
  ultimately have same: "rn_answers (fst s') = rn_answers r1" "rn_permissions (fst s') = rn_permissions r1" by auto
  show ?thesis using answer_answers [OF ans] q unfolding same fst_conv by blast
qed simp

text \<open>C13: a resume hands at most one verdict out, its own, to the attempt it names, and only while the harness of that
  attempt still waits for an answer to the very request the resume names and the receipt shows; after it nothing
  waits there, so no second verdict reaches the same call.\<close>

theorem verdict_reaches_asker:
  "rn_answers (fst (snd (Resume w req s))) = rn_answers (fst s) \<or>
   (\<exists>a q g g'. mget (attempts (fst s)) (rreq_AttemptID req) = Some a \<and> phase a = PhaseNeedsInput \<and>
      rc_SessionID (ar_Receipt a) = rreq_SessionID req \<and> rc_Permission (ar_Receipt a) = Some q \<and> pr_ID q = rreq_PermissionID req \<and>
      mget (rn_permissions (fst s)) (rreq_AttemptID req) = Some g \<and> pg_answer g \<and> pg_requestID g = rreq_PermissionID req \<and>
      rn_answers (fst (snd (Resume w req s))) = rn_answers (fst s) @ [(rreq_AttemptID req, rreq_PermissionID req, verdict_of req)] \<and>
      mget (rn_permissions (fst (snd (Resume w req s)))) (rreq_AttemptID req) = Some g' \<and> pg_requestID g' = [])"
proof (cases "snd (Resume w req s) = s")
  case False
  have "snd (Resume w req s) = s \<or> (\<exists>c fp a. snd (Resume w req s) = snd (resume_known w c fp a req s) \<and>
      mget (attempts (fst s)) (rreq_AttemptID req) = Some a)"
    unfolding Resume_def Let_def using mutation_attempt by (simp split: option.split sum.split) blast
  then obtain c fp a where k: "snd (Resume w req s) = snd (resume_known w c fp a req s)" "mget (attempts (fst s)) (rreq_AttemptID req) = Some a"
    using False by blast
  have none: "resume_refusal (ar_Receipt a) req = None" using False k by (auto simp: resume_known_def split: option.splits)
  then have ok: "phase a = PhaseNeedsInput" "rc_SessionID (ar_Receipt a) = rreq_SessionID req"
    by (auto simp: resume_refusal_def split: if_splits)
  obtain d t where perm: "resumePermissionLocked w a req (resume_key req) fp s = (d, t)" by (rule prod.exhaust)
  show ?thesis
  proof (cases d)
    case None
    have "t = s" using resume_permission_refines(2) [OF k(2) ok(1), of w "resume_key req" fp] perm None by simp
    then have "snd (resume_known w c fp a req s) \<in> {s, snd (relaunch w c fp a req s)}"
      using none perm None by (simp add: resume_known_def split: option.split)
    then show ?thesis using k relaunch_answers [of w c fp a req s] by auto
  next
    case (Some answer)
    then have "snd (resume_known w c fp a req s) = t" using none perm by (simp add: resume_known_def)
    then show ?thesis using permission_answers [OF perm] k ok by auto
  qed
qed simp

section \<open>Stale starts\<close>

text \<open>C21: a start under an epoch that is not newer than that of another attempt of its task is refused as stale,
  with the receipt of an attempt of that task under its newest epoch, and changes nothing.\<close>

theorem stale_start_refused:
  assumes "start_credential w (fst s) req = Inr c" "\<not> rn_closed (fst s)" "mget (ps_Operations (rn_state (fst s))) (start_key req) = None"
    and "mget (attempts (fst s)) j = Some b" "j \<noteq> sreq_AttemptID req" "rc_TaskID (ar_Receipt b) = sreq_TaskID req"
    and "sreq_AttemptEpoch req \<le> rc_AttemptEpoch (ar_Receipt b)"
  shows "\<exists>rc. Start w req s = (Inl (protocolError ErrorStaleAttempt False ''attempt epoch is obsolete'' (Some rc)), s) \<and>
    rc_TaskID rc = sreq_TaskID req \<and> rc_AttemptEpoch (ar_Receipt b) \<le> rc_AttemptEpoch rc"
proof -
  let ?t = "sreq_TaskID req" and ?i = "sreq_AttemptID req"
  let ?h = "highest_epoch (fst s) ?t ?i"
  note h = highest_fold [of ?t ?i "attempts (fst s)" 0 ?h, folded highest_epoch_def, OF refl]
  have le: "rc_AttemptEpoch (ar_Receipt b) \<le> ?h" using h mget_in_set [OF assms(4)] assms(5,6) by fastforce
  moreover have "sreq_AttemptEpoch req \<noteq> 0" by (rule start_epoch [OF assms(1)])
  ultimately have pos: "?h \<noteq> 0" "sreq_AttemptEpoch req \<le> ?h" using assms(7) by auto
  then obtain x where x: "x \<in> set (attempts (fst s))" "(\<lambda>(_, a). rc_TaskID (ar_Receipt a) = ?t \<and> rc_AttemptEpoch (ar_Receipt a) = ?h) x"
    using h by auto
  then obtain i a where f: "find (\<lambda>(_, a). rc_TaskID (ar_Receipt a) = ?t \<and> rc_AttemptEpoch (ar_Receipt a) = ?h) (attempts (fst s)) = Some (i, a)"
    by (metis (no_types, lifting) find_None_iff not_None_eq prod.exhaust)
  then have a: "rc_TaskID (ar_Receipt a) = ?t" "rc_AttemptEpoch (ar_Receipt a) = ?h" by (auto simp: find_Some_iff)
  have "checkEpochLocked (fst s) ?t ?i (sreq_AttemptEpoch req) =
      Some (protocolError ErrorStaleAttempt False ''attempt epoch is obsolete'' (Some (ar_Receipt a)))"
    using pos f by (simp add: checkEpochLocked_def Let_def)
  then have "Start w req s = (Inl (protocolError ErrorStaleAttempt False ''attempt epoch is obsolete'' (Some (ar_Receipt a))), s)"
    using assms(1-3) by (simp add: Start_def Let_def)
  then show ?thesis using a le by auto
qed

section \<open>Retries that are not carried out\<close>

lemma cancel_recorded:
  assumes "mget (ps_Operations (rn_state (fst s))) (cancel_key req) = Some \<lparr>op_Fingerprint = fingerprint (rl_MarshalCancel (w_lib w) req), op_AttemptID = i\<rparr>"
    and "validateMutationIdentity (creq_TaskID req) (creq_AttemptID req) (creq_AttemptEpoch req) (creq_RequestID req) = None"
    and "creq_ProtocolVersion req = ProtocolVersion" "\<not> rn_closed (fst s)" "mget (attempts (fst s)) i = Some a"
  shows "Cancel w req s = (Inr (ar_Receipt a), s)"
  using assms by (simp add: Cancel_def Let_def receiptForAttemptLocked_def receipt_of_def)

text \<open>C39: a cancellation that fails because its event or the state cannot be written leaves its request ID behind. The
  retry is answered as a cancellation under way, and the harness is never told: its execution still runs and is not
  cancelled.\<close>

theorem cancel_retry_lost:
  assumes "Cancel w req s = (Inl err, s')" "mget (attempts (fst s)) (creq_AttemptID req) = Some a" "\<not> IsTerminal (phase a)"
    and "attemptForMutationLocked (fst s) (creq_TaskID req) (creq_AttemptID req) (creq_AttemptEpoch req) = Inr a"
    and "mget (rn_running (fst s)) (creq_AttemptID req) = Some False" "mget (ps_Operations (rn_state (fst s))) (cancel_key req) = None"
    and "validateMutationIdentity (creq_TaskID req) (creq_AttemptID req) (creq_AttemptEpoch req) (creq_RequestID req) = None"
    and "creq_ProtocolVersion req = ProtocolVersion" "\<not> rn_closed (fst s)" "w_lib w' = w_lib w"
  shows "\<exists>rc. Cancel w' req s' = (Inr rc, s') \<and> rc_Phase rc = PhaseCancelling \<and> mget (rn_running (fst s')) (creq_AttemptID req) = Some False"
proof -
  let ?i = "creq_AttemptID req" and ?fp = "fingerprint (rl_MarshalCancel (w_lib w) req)"
  define v where "v = set_receipt ?i (cancel_receipt w) (set_attempt ?i (\<lambda>a. a\<lparr>ar_CancelPending := True\<rparr>) (record_operation (cancel_key req) ?fp ?i (fst s)))"
  obtain e r1 where app: "append_event w 0 ?i EventProgress ''cancellation requested'' [] v = (e, r1)" by (rule prod.exhaust)
  obtain f t where pers: "persist w 0 (r1, snd s) = (f, t)" by (rule prod.exhaust)
  note qa = append_quiet [OF app] and qp = persist_quiet [OF pers]
  have r1: "mget (rn_running r1) ?i = Some False" using qa(3) assms(5) by (simp add: v_def)
  have "mget (attempts v) ?i = Some (a\<lparr>ar_CancelPending := True, ar_Receipt := cancel_receipt w (ar_Receipt a)\<rparr>)"
    using assms(2) by (simp add: v_def)
  then obtain b where b: "mget (attempts r1) ?i = Some b" "core b = core (a\<lparr>ar_CancelPending := True, ar_Receipt := cancel_receipt w (ar_Receipt a)\<rparr>)"
    by (rule same_attemptsD [OF qa(13)])
  have "cancel_known w req ?fp a s = (Inl err, s')"
    using assms(1,2,4,6-9) by (simp add: Cancel_def Let_def)
  then have s': "s' = (if e \<noteq> None then (r1, snd s) else t)"
    using assms(3) unfolding cancel_known_def Let_def v_def [symmetric] app
    by (cases e; cases f) (simp_all add: pers receiptForAttemptLocked_def receipt_of_def qp(3,9) r1 b(1) del: not_None_eq)
  have state: "rn_state (fst s') = rn_state r1" "mget (rn_running (fst s')) ?i = Some False" "rn_closed (fst s') = rn_closed (fst s)"
    using s' r1 qp qa(7) by (auto simp: v_def record_operation_def)
  have "phase b = PhaseCancelling" using core_fields(9) [OF b(2)] by (simp add: cancel_receipt_def)
  moreover have "Cancel w' req s' = (Inr (ar_Receipt b), s')"
    using assms(7-10) state b(1) qa(9) by (intro cancel_recorded [where i = ?i]) (simp_all add: v_def record_operation_def)
  ultimately show ?thesis using state(2) by blast
qed

lemma launch_failed:
  assumes "startExecutionLocked w k i instructions model s = (Inl e, s')" "mget (attempts (fst s)) i = Some a"
    and "mget (rn_running (fst s)) i = None" "mget (rn_permissions (fst s)) i = None"
  shows "(\<exists>b. mget (attempts (fst s')) i = Some b \<and> phase b = phase a) \<and> rn_closed (fst s') = rn_closed (fst s) \<and>
    ps_Operations (rn_state (fst s')) = ps_Operations (rn_state (fst s)) \<and> mget (rn_running (fst s')) i = None \<and>
    mget (rn_permissions (fst s')) i = None"
proof (cases "s' = s")
  case False
  obtain a' f t where a': "mget (attempts (fst s)) i = Some a'" and p: "persist w k (begin_execution w i a' (fst s), snd s) = (f, t)"
    and s': "s' = (case f of None \<Rightarrow> t | Some _ \<Rightarrow> (undo_execution i a' (fst t), snd t))"
    by (rule startExecution_cases [OF assms(1) False])
  have "a' = a" using a' assms(2) by simp
  have "f \<noteq> None"
  proof
    assume "f = None"
    then show False using False assms(1-3) p \<open>a' = a\<close> unfolding startExecutionLocked_def Let_def
      by (simp split: if_splits option.splits sum.splits)
  qed
  moreover note q = persist_quiet [OF p]
  ultimately show ?thesis using a' \<open>a' = a\<close> s' by (auto simp: undo_execution_def begin_execution_def)
qed (use assms in auto)

lemma relaunch_fails:
  assumes "relaunch w c fp a req s = (Inl err, s')" "mget (ps_Operations (rn_state (fst s))) (resume_key req) = None"
    and "mget (ps_Operations (rn_state (fst s'))) (resume_key req) \<noteq> None" "mget (attempts (fst s)) (rreq_AttemptID req) = Some a"
    and "\<not> running (rreq_AttemptID req) s" "\<not> harnessed (rreq_AttemptID req) s"
  obtains b where "mget (attempts (fst s')) (rreq_AttemptID req) = Some b" "phase b = PhaseAccepted"
    "mget (ps_Operations (rn_state (fst s'))) (resume_key req) = Some \<lparr>op_Fingerprint = fp, op_AttemptID = rreq_AttemptID req\<rparr>"
    "rn_closed (fst s') = rn_closed (fst s)" "\<not> running (rreq_AttemptID req) s'" "\<not> harnessed (rreq_AttemptID req) s'"
proof -
  let ?i = "rreq_AttemptID req"
  have check: "checkStartRequirementsLocked (fst s) (ar_Start a) = None"
    using assms(1-3) by (cases "checkStartRequirementsLocked (fst s) (ar_Start a)") (auto simp: relaunch_def)
  obtain e u where res: "reserveResourcesLocked ?i (ar_Resources a) (fst s) = (e, u)" by (rule prod.exhaust)
  have u: "attempts u = attempts (fst s)" "rn_running u = rn_running (fst s)" "rn_permissions u = rn_permissions (fst s)"
    "rn_closed u = rn_closed (fst s)" "ps_Operations (rn_state u) = ps_Operations (rn_state (fst s))"
    using reserve_silent [OF res] by auto
  define v where "v = set_receipt ?i (resume_receipt w) (set_attempt ?i (\<lambda>a. a\<lparr>ar_CancelPending := False\<rparr>)
      ((record_operation (resume_key req) fp ?i u)\<lparr>rn_credentials := mput ?i c (rn_credentials (record_operation (resume_key req) fp ?i u))\<rparr>))"
  have v: "mget (attempts v) ?i = Some (a\<lparr>ar_CancelPending := False, ar_Receipt := resume_receipt w (ar_Receipt a)\<rparr>)"
    "mget (ps_Operations (rn_state v)) (resume_key req) = Some \<lparr>op_Fingerprint = fp, op_AttemptID = ?i\<rparr>"
    "rn_running v = rn_running (fst s)" "rn_permissions v = rn_permissions (fst s)" "rn_closed v = rn_closed (fst s)"
    using u assms(4) by (simp_all add: v_def) (simp_all add: record_operation_def)
  obtain f r1 where app: "append_event w 0 ?i EventAccepted ''resume accepted'' [] v = (f, r1)" by (rule prod.exhaust)
  obtain g t where pers: "persist w 0 (r1, snd s) = (g, t)" by (rule prod.exhaust)
  obtain h z where exec: "startExecutionLocked w 1 ?i (sreq_Instructions (ar_Start a) @ resolution_header @ rreq_Resolution req)
      (sreq_Model (ar_Start a)) t = (h, z)" by (rule prod.exhaust)
  obtain b where b: "mget (attempts r1) ?i = Some b" "core b = core (a\<lparr>ar_CancelPending := False, ar_Receipt := resume_receipt w (ar_Receipt a)\<rparr>)"
    by (rule same_attemptsD [OF append_quiet(13) [OF app] v(1)])
  have ph: "phase b = PhaseAccepted" using core_fields(9) [OF b(2)] by (simp add: resume_receipt_def)
  note qa = append_quiet [OF app] and qp = persist_quiet [OF pers]
  have "e = None" using assms(1-3) u(5) unfolding relaunch_def Let_def check option.case res by (cases e) auto
  moreover have idle: "mget (attempts (fst t)) ?i = Some b" "mget (rn_running (fst t)) ?i = None" "mget (rn_permissions (fst t)) ?i = None"
    using b(1) v qa qp assms(5,6) by (simp_all add: running_def harnessed_def)
  moreover have "receiptForAttemptLocked (fst z) ?i \<noteq> Inl err" if "h = Inr x" for x
    by (rule launch_done [OF exec [unfolded that] idle(2)]) (simp add: receiptForAttemptLocked_def receipt_of_def)
  ultimately consider "fst s' = r1" | "s' = t" | e' where "h = Inl e'" "s' = z"
    using assms(1) unfolding relaunch_def Let_def check option.case res
    by (cases f; cases g; cases h) (auto simp: v_def [symmetric] app pers exec [simplified])
  then show thesis
  proof cases
    case 3
    from launch_failed [OF exec [unfolded 3(1)] idle] show thesis
      using that 3(2) v qa qp ph by (auto simp: running_def harnessed_def)
  qed (use that b(1) ph v qa qp assms(5,6) in \<open>auto simp: running_def harnessed_def\<close>)
qed

text \<open>C40: a resume that fails because its event or the state cannot be written, or its harness not be started, leaves its
  request ID behind too. The retry is answered with the receipt of an accepted attempt, and nothing runs.\<close>

theorem resume_retry_lost:
  assumes "Resume w req s = (Inl err, s')" "mget (ps_Operations (rn_state (fst s))) (resume_key req) = None"
    and "mget (ps_Operations (rn_state (fst s'))) (resume_key req) \<noteq> None"
    and "\<not> running (rreq_AttemptID req) s" "\<not> harnessed (rreq_AttemptID req) s" "w_lib w' = w_lib w"
  shows "\<exists>rc. Resume w' req s' = (Inr rc, s') \<and> rc_Phase rc = PhaseAccepted \<and> \<not> running (rreq_AttemptID req) s' \<and>
    \<not> harnessed (rreq_AttemptID req) s'"
proof -
  let ?i = "rreq_AttemptID req" and ?fp = "resume_fingerprint w req"
  obtain c a where a: "mget (attempts (fst s)) ?i = Some a" and k: "resume_known w c ?fp a req s = (Inl err, s')"
    and ok: "validateMutationIdentity (rreq_TaskID req) ?i (rreq_AttemptEpoch req) (rreq_RequestID req) = None"
      "rreq_ProtocolVersion req = ProtocolVersion" "harnessCredentialOf (w_lib w) (rreq_HarnessCredential req) = Inr c" "\<not> rn_closed (fst s)"
    using assms(1-3) mutation_attempt unfolding Resume_def Let_def by (auto split: option.splits sum.splits if_splits)
  have none: "resume_refusal (ar_Receipt a) req = None" using k assms(2,3) by (auto simp: resume_known_def split: option.splits)
  obtain d u where perm: "resumePermissionLocked w a req (resume_key req) ?fp s = (d, u)" by (rule prod.exhaust)
  have silent: "u = s"
  proof -
    have "answerPermissionLocked w ?i (rreq_PermissionID req) (verdict_of req) s = (Some not_waiting, s)"
      using assms(5) by (simp add: answerPermissionLocked_def harnessed_def Let_def)
    then show ?thesis using perm by (auto simp: resumePermissionLocked_def Let_def split: if_splits option.splits)
  qed
  have r: "relaunch w c ?fp a req s = (Inl err, s')"
    using k none perm silent assms(2,3) by (auto simp: resume_known_def split: option.splits)
  from relaunch_fails [OF r assms(2,3) a] obtain b where
    b: "mget (attempts (fst s')) ?i = Some b" "phase b = PhaseAccepted"
      "mget (ps_Operations (rn_state (fst s'))) (resume_key req) = Some \<lparr>op_Fingerprint = ?fp, op_AttemptID = ?i\<rparr>"
      "rn_closed (fst s') = rn_closed (fst s)" "\<not> running ?i s'" "\<not> harnessed ?i s'"
    using assms(4,5) by blast
  have "Resume w' req s' = (Inr (ar_Receipt b), s')"
    using ok b assms(6) by (simp add: Resume_def Let_def resume_fingerprint_def receiptForAttemptLocked_def receipt_of_def)
  then show ?thesis using b by blast
qed


section \<open>Credentials\<close>

lemma cleanup_credentials: "rn_credentials (fst (scheduleCleanupLocked w k i s)) = rn_credentials (fst s)"
proof -
  obtain e t where t: "persist w k (set_attempt i (\<lambda>a. a\<lparr>ar_cleanupRunning := True, ar_CleanupAttempts := ar_CleanupAttempts a + 1\<rparr>) (fst s), snd s) = (e, t)"
    by (rule prod.exhaust)
  show ?thesis using persist_quiet(5) [OF t] unfolding scheduleCleanupLocked_def t
    by (cases "mget (attempts (fst s)) i"; cases e) (simp_all add: split_beta)
qed

lemma results_credentials: "add_results w k i items added r = (e, added', r') \<Longrightarrow> rn_credentials r' = rn_credentials r"
proof (induction w k i items added r rule: add_results.induct)
  case (2 w k i art path items added r)
  obtain f r1 where app: "append_event w k i EventArtifact (''Git result artifact exported: '' @ art_Name art) [] (store_artifact i art path r) = (f, r1)"
    by (rule prod.exhaust)
  have "rn_credentials r1 = rn_credentials r" using append_quiet(5) [OF app] by (simp add: store_artifact_def)
  then show ?case using 2 app by (cases f) (auto split: if_splits)
qed simp

text \<open>An attempt that completes by the export of its Git result keeps its harness credential in the memory of the
  runner, while one that ends any other way does not.\<close>

theorem git_result_keeps_credential:
  assumes "finishGitResultLocked w i items s = (None, s')"
  shows "rn_credentials (fst s') = rn_credentials (fst s) \<and>
    (\<forall>q blocker lastErr k (t :: live) b. IsTerminal q \<and> mget (attempts (fst t)) i = Some b \<and> \<not> IsTerminal (phase b) \<longrightarrow>
       mget (rn_credentials (fst (finishLocked w k i q blocker lastErr t))) i = None)"
proof (intro conjI allI impI)
  obtain a where a: "mget (attempts (fst s)) i = Some a" "\<not> IsTerminal (phase a)"
    using assms unfolding finishGitResultLocked_def by (cases "mget (attempts (fst s)) i") (auto split: if_splits)
  obtain f added r1 where add: "add_results w 0 i items [] (fst s) = (f, added, r1)" by (metis prod_cases3)
  define c where "c = set_receipt i (\<lambda>rc. rc\<lparr>rc_Phase := PhaseCompleted, rc_Blocker := [], rc_UpdatedAt := w_now w\<rparr>) r1"
  obtain g r2 where app: "append_event w (length items) i EventCompleted [] [] c = (g, r2)" by (rule prod.exhaust)
  define r3 where "r3 = releaseResourcesLocked i (ar_Resources a) r2"
  obtain h t where pers: "persist w (length items) (r3, snd s) = (h, t)" by (rule prod.exhaust)
  have "s' = scheduleCleanupLocked w (length items + 1) i t"
    using assms a(2) unfolding finishGitResultLocked_def Let_def a(1) option.case add
    by (cases f; cases g; cases h) (auto simp: app pers c_def [symmetric] r3_def [symmetric] split_beta)
  then show "rn_credentials (fst s') = rn_credentials (fst s)"
    using results_credentials [OF add] append_quiet(5) [OF app] persist_quiet(5) [OF pers]
    by (simp add: cleanup_credentials c_def r3_def)
next
  fix q blocker lastErr k b and t :: live
  assume h: "IsTerminal q \<and> mget (attempts (fst t)) i = Some b \<and> \<not> IsTerminal (phase b)"
  define r where "r = drop_credential i (releaseResourcesLocked i (ar_Resources b) (record_end w k i q blocker (set_receipt i (end_receipt w q blocker lastErr) (fst t))))"
  obtain e u where pers: "persist w k (r, snd t) = (e, u)" by (rule prod.exhaust)
  have "finishLocked w k i q blocker lastErr t = scheduleCleanupLocked w (k + 1) i u"
    using h unfolding finishLocked_def Let_def by (simp add: r_def [symmetric] pers)
  then show "mget (rn_credentials (fst (finishLocked w k i q blocker lastErr t))) i = None"
    using persist_quiet(5) [OF pers] by (simp add: cleanup_credentials r_def drop_credential_def)
qed

end
