(* ===== verification/InputFacts.thy ===== *)
theory InputFacts
  imports RunnerRequests
begin

text \<open>
  The manifest of a workspace attempt's input files: one pass with two maps decides what a comparison of every file
  with every other would.
\<close>

text \<open>Two destinations no file system can hold both: the same, or one a directory above the other.\<close>

definition overlap :: "string \<Rightarrow> string \<Rightarrow> bool" where
  "overlap d e \<longleftrightarrow> d = e \<or> d \<in> set (parents e) \<or> e \<in> set (parents d)"

text \<open>The maps hold the destinations of the files before, and the directories above them.\<close>

definition tracked :: "string list \<Rightarrow> string gomap \<Rightarrow> string gomap \<Rightarrow> bool" where
  "tracked ds D C \<longleftrightarrow> (\<forall>d. mget D d \<noteq> None \<longleftrightarrow> d \<in> set ds) \<and> (\<forall>p. mget C p \<noteq> None \<longleftrightarrow> (\<exists>d \<in> set ds. p \<in> set (parents d))) \<and>
     (\<forall>d. mget D d \<noteq> Some []) \<and> (\<forall>p. mget C p \<noteq> Some [])"

lemma collision_found:
  assumes "tracked ds D C"
  shows "collidingInputDestination D C d = [] \<longleftrightarrow> (\<forall>e \<in> set ds. \<not> overlap d e)"
proof -
  have D: "mget D d = None \<longleftrightarrow> d \<notin> set ds" for d using assms unfolding tracked_def by blast
  have C: "mgetd [] C d = [] \<longleftrightarrow> (\<forall>e \<in> set ds. d \<notin> set (parents e))"
    using assms unfolding tracked_def mgetd_def by (cases "mget C d") (simp, metis option.distinct(1), metis option.case(2) option.distinct(1))
  show ?thesis
  proof (cases "mget D d")
    case (Some i)
    then show ?thesis using assms D [of d] by (auto simp: collidingInputDestination_def tracked_def overlap_def)
  next
    case None
    show ?thesis
    proof (cases "List.map_filter (mget D) (parents d)")
      case Nil
      then have "\<forall>p \<in> set (parents d). p \<notin> set ds" using D by (auto simp: map_filter_def filter_empty_conv)
      then show ?thesis using None Nil C D [of d] by (auto simp: collidingInputDestination_def overlap_def)
    next
      case (Cons i js)
      then have "i \<in> set (List.map_filter (mget D) (parents d))" by simp
      then obtain p where p: "p \<in> set (parents d)" "mget D p = Some i" by (auto simp: map_filter_def)
      then have "p \<in> set ds" "i \<noteq> []" using D [of p] assms by (auto simp: tracked_def)
      then show ?thesis using None Cons p(1) by (auto simp: collidingInputDestination_def overlap_def)
    qed
  qed
qed

lemma note_parents_mget:
  "mget (note_parents i ps C) p = (if mget C p = None \<and> p \<in> set ps then Some i else mget C p)"
  by (induction ps arbitrary: C) auto

lemma tracked_note:
  assumes "tracked ds D C" "i \<noteq> []"
  shows "tracked (d # ds) (mput d i D) (note_parents i (parents d) C)"
  using assms by (auto simp: tracked_def note_parents_mget)

lemma valid_file: "ValidateInputFile lib f = None \<Longrightarrow> in_ID f \<noteq> [] \<and> 0 \<le> in_Size f"
  by (auto simp: ValidateInputFile_def identifierPattern_def split: if_splits option.splits)

lemma sizes_nonneg: "list_all (\<lambda>f. ValidateInputFile lib f = None) fs \<Longrightarrow> 0 \<le> sum_list (map in_Size fs)"
  by (induction fs) (auto dest: valid_file)

lemma validate_files_iff:
  assumes "tracked ds D C"
  shows "validate_files lib seen D C used fs = None \<longleftrightarrow>
    list_all (\<lambda>f. ValidateInputFile lib f = None) fs \<and> distinct (map in_ID fs) \<and> set (map in_ID fs) \<inter> set seen = {} \<and>
    sorted_wrt (\<lambda>f g. \<not> overlap (destination lib g) (destination lib f)) fs \<and>
    list_all (\<lambda>f. list_all (\<lambda>e. \<not> overlap (destination lib f) e) ds) fs \<and>
    (fs = [] \<or> used + sum_list (map in_Size fs) \<le> MaxInputBytes)"
  using assms
proof (induction fs arbitrary: ds D C seen used)
  case (Cons f fs)
  let ?d = "destination lib f"
  let ?D = "mput ?d (in_ID f) D" and ?C = "note_parents (in_ID f) (parents ?d) C"
  show ?case
  proof (cases "ValidateInputFile lib f")
    case None
    note v = valid_file [OF None]
    have t: "tracked (?d # ds) ?D ?C" using tracked_note [OF Cons.prems] v by simp
    note ih = Cons.IH [OF t, of "in_ID f # seen" "used + in_Size f"] and c = collision_found [OF Cons.prems, of ?d]
    have step: "validate_files lib seen D C used (f # fs) = None \<longleftrightarrow> in_ID f \<notin> set seen \<and> collidingInputDestination D C ?d = [] \<and>
        used + in_Size f \<le> MaxInputBytes \<and> validate_files lib (in_ID f # seen) ?D ?C (used + in_Size f) fs = None"
      using None by (auto simp: Let_def)
    have sums: "list_all (\<lambda>f. ValidateInputFile lib f = None) fs \<Longrightarrow>
        used + in_Size f \<le> MaxInputBytes \<and> (fs = [] \<or> used + in_Size f + sum_list (map in_Size fs) \<le> MaxInputBytes) \<longleftrightarrow>
        used + sum_list (map in_Size (f # fs)) \<le> MaxInputBytes"
      using sizes_nonneg [of lib fs] by auto
    show ?thesis unfolding step ih c using None sums by (auto simp: list_all_iff)
  qed simp
qed simp

text \<open>C22: a manifest is accepted exactly when every file of it is valid, no ID is given twice, no two destinations are
  the same or one inside the other, case apart, and the files together are within the limit.\<close>

theorem manifest_accepted_iff:
  "validateInputFiles lib files = None \<longleftrightarrow>
     length files \<le> MaxInputFiles \<and> list_all (\<lambda>f. ValidateInputFile lib f = None) files \<and> distinct (map in_ID files) \<and>
     sorted_wrt (\<lambda>f g. \<not> overlap (destination lib g) (destination lib f)) files \<and> sum_list (map in_Size files) \<le> MaxInputBytes"
proof -
  have "tracked [] [] []" by (simp add: tracked_def mget_def)
  note v = validate_files_iff [OF this, of lib "[]" 0 files]
  have "list_all (\<lambda>f. True) files" by (induction files) simp_all
  then show ?thesis unfolding validateInputFiles_def by (auto simp: v MaxInputBytes_def)
qed

end
