(* ===== verification/AttemptWitnesses.thy ===== *)
theory AttemptWitnesses
  imports RunnerAnswers InputFacts
begin

text \<open>
  The properties of the runner's attempts at concrete inputs: a runner that opens on an empty directory, a workspace
  attempt that is started, parked, cancelled and exported there, and a disk that fails.
\<close>

section \<open>A runner\<close>

definition demo_lib :: RunnerLib where
  "demo_lib = \<lparr>rl_Quote = (\<lambda>s. s), rl_ToLower = (\<lambda>s. s), rl_EqualFold = (\<lambda>a b. a = b),
     rl_JSON = (\<lambda>_. Some (JObj [(''provenance'', JStr ''ticket'')])), rl_Marshal = (\<lambda>_. []), rl_MarshalStart = (\<lambda>_. ''start''),
     rl_MarshalCancel = (\<lambda>_. ''cancel''), rl_MarshalResume = (\<lambda>_. ''resume''), rl_URL = (\<lambda>_. None),
     rl_PathUnescape = (\<lambda>s. Some s), rl_LoopbackIP = (\<lambda>s. s = ''127.0.0.1''), rl_Cwd = None\<rparr>"

definition demo_world :: world where
  "demo_world = \<lparr>w_lib = demo_lib, w_now = 5, w_enc = (\<lambda>e. Some [CHR ''e'', CHR 0x0A]), w_append = (\<lambda>_. NoFault), w_sync = (\<lambda>_ _. False),
     w_close = (\<lambda>_ _. False), w_save = (\<lambda>_. NoSaveFault), w_errno = ''input/output error'', w_purge = (\<lambda>_. (False, Removed)),
     w_workdir = Inr ''/w'', w_staged = None, w_inputs = None, w_inspect = None,
     w_artifact = \<lparr>as_Failure = None, as_Digest = [], as_Length = 0, as_FinalFailure = None, as_ID = ''x''\<rparr>,
     w_artifactEvent = (\<lambda>_. None), w_cleanup = NoHook\<rparr>"

text \<open>The same with a disk that takes nothing.\<close>

definition full_world :: world where
  "full_world = demo_world\<lparr>w_append := (\<lambda>_. OpenFault), w_save := (\<lambda>_. SaveFault)\<rparr>"

definition demo_config :: Config where
  "demo_config = \<lparr>c_ProtocolVersion = [], c_RunnerID = ''r1'', c_Version = [], c_Listen = ''localhost:1'', c_StateDir = ''/s'',
     c_TokenFile = [], c_Token = ''secret'', c_Toolchains = [], c_Environment = [], c_Verification = [], c_MaximumCapacity = 0,
     c_MaxEvents = 0, c_MaxEventBytes = 0, c_MaxBodyBytes = 0, c_MaxArtifactSize = 0, c_AttemptRetentionHours = 0,
     c_ParkedAttemptRetentionHours = 0, c_MaxRetainedAttempts = 0, c_Repositories = [], c_Resources = []\<rparr>"

definition demo_config_lib :: ConfigLib where
  "demo_config_lib = \<lparr>cl_lib = demo_lib, cl_platform = ''linux-amd64'', cl_UserConfigDir = Inl ''none'', cl_ReadFile = (\<lambda>_. Inl ''none''),
     cl_SplitHost = (\<lambda>_. Some ''localhost'')\<rparr>"

definition demo_caps :: Capabilities where
  "demo_caps = \<lparr>cap_Harnesses = [\<lparr>hc_Name = ''codex'', hc_Version = ''1'', hc_Ready = True\<rparr>], cap_Verification = [],
     cap_Ready = True, cap_Reasons = []\<rparr>"

definition demo_cfg :: runnerConfig where
  "demo_cfg = \<lparr>cfg_StateDir = ''/s'', cfg_Toolchains = [], cfg_Environment = [], cfg_MaximumCapacity = 1, cfg_MaxEvents = 256,
     cfg_MaxEventBytes = 65536, cfg_MaxArtifactSize = 33554432, cfg_AttemptRetentionHours = 168,
     cfg_ParkedAttemptRetentionHours = 720, cfg_MaxRetainedAttempts = 200, cfg_Resources = []\<rparr>"

definition opened_runner :: Runner where
  "opened_runner = \<lparr>rn_cfg = demo_cfg, rn_store = newStateStore ''/s'' [], rn_state = empty_file, rn_capabilities = demo_caps,
     rn_running = [], rn_permissions = [], rn_credentials = [], rn_shutdown = [], rn_closed = False, rn_answers = []\<rparr>"

lemma demo_configured: "\<exists>c. applyDefaults demo_config_lib demo_config = Inr c \<and> runner_config c = demo_cfg"
proof -
  have "map_sum id runner_config (applyDefaults demo_config_lib demo_config) = Inr demo_cfg" by code_simp
  then show ?thesis by (cases "applyDefaults demo_config_lib demo_config") simp_all
qed

lemma demo_new: "New demo_world (\<lambda>e. e) (\<lambda>_. False) (\<lambda>_. NoFault) demo_caps demo_cfg [] empty_file = (Some opened_runner, empty_file)"
  by (simp add: New_def restart_def loadJournalUsage_def newStateStore_def pruneJournals_def recoverLocked_def purgeAttemptsLocked_def
    expired_ids_def candidates_def persist_def persistLocked_def save_def syncJournals_def saved_events_def empty_file_def opened_runner_def
    demo_world_def demo_cfg_def Let_def)

definition demo_opening :: "world \<times> operation" where
  "demo_opening = (demo_world, Opened (\<lambda>e. e) (\<lambda>_. False) (\<lambda>_. NoFault) demo_config_lib demo_caps demo_config [])"

abbreviation opened :: live where "opened \<equiv> (opened_runner, empty_file)"

lemma opened_up: "after [demo_opening] = Up opened"
  using demo_configured by (auto simp: after_def demo_opening_def demo_new)

section \<open>A start\<close>

definition demo_credential :: HarnessCredential where
  "demo_credential = \<lparr>hcr_Kind = ''codex-auth'', hcr_Value = ''k'', hcr_Environment = [], hcr_MCPServers = []\<rparr>"

definition demo_start :: StartRequest where
  "demo_start = no_request\<lparr>sreq_ProtocolVersion := ProtocolVersion, sreq_RequestID := ''q'', sreq_TaskID := ''t'', sreq_AttemptID := ''a'',
     sreq_AttemptEpoch := 1, sreq_WorkspaceID := ''w'', sreq_HarnessCredential := Some demo_credential, sreq_Instructions := ''go'',
     sreq_ApprovedInput := ''p''\<rparr>"

lemma demo_identity: "harnessCredentialOf demo_lib (Some demo_credential) = Inr demo_credential"
proof -
  have "TrimSpace ''codex-auth'' = ''codex-auth''" "TrimSpace ''k'' = ''k''" by code_simp+
  then show ?thesis
    by (simp add: harnessCredentialOf_def demo_credential_def maxHarnessCredentialBytes_def credentialEnvironmentOf_def
        credentialMCPServersOf_def Let_def)
qed

lemma demo_request:
  "validateMutationIdentity ''t'' ''a'' 1 ''q'' = None" "attempt_shape_error demo_lib demo_start = None"
  "session_instructions_error demo_start = None" "approved_input_error demo_lib ''p'' = None" "manifest_error demo_lib demo_start = None"
  by code_simp+

lemma demo_start_valid: "start_credential demo_world r demo_start = Inr demo_credential"
  using demo_identity demo_request
  by (simp add: start_credential_def validateProtocolVersion_def effort_error_def validateStartRequest_def validateCommitMessage_def
      demo_world_def demo_start_def no_request_def Let_def)

lemma demo_admitted: "checkStartRequirementsLocked opened_runner demo_start = None"
  by code_simp

lemma demo_fields:
  "sreq_AttemptID demo_start = ''a''" "sreq_TaskID demo_start = ''t''" "sreq_AttemptEpoch demo_start = 1" "sreq_Resources demo_start = []"
  "sreq_InputFiles demo_start = []" "sreq_AskPermission demo_start = False" "sreq_Artifacts demo_start = []"
  by (simp_all add: demo_start_def no_request_def)

lemmas opened_defs = opened_runner_def demo_cfg_def empty_file_def newStateStore_def

definition started :: live where "started = snd (Start demo_world demo_start opened)"

lemma demo_worlds: "w_append demo_world = (\<lambda>_. NoFault)" "w_save demo_world = (\<lambda>_. NoSaveFault)" "w_sync demo_world = (\<lambda>_ _. False)"
  "w_close demo_world = (\<lambda>_ _. False)" "w_now demo_world = 5" "w_enc demo_world = (\<lambda>e. Some [CHR ''e'', CHR 0x0A])"
  "w_workdir demo_world = Inr ''/w''" "w_lib demo_world = demo_lib" "w_purge demo_world = (\<lambda>_. (False, Removed))"
  by (simp_all add: demo_world_def)

lemma nothing_purged: "purgeAttemptsLocked faults opened_runner now = (0, [], opened_runner)"
  by (simp add: purgeAttemptsLocked_def expired_ids_def candidates_def opened_defs Let_def)

definition accepted :: Runner where
  "accepted = enter_attempt demo_world demo_credential ''/w'' demo_start opened_runner"

lemma accepted_eq: "accepted = opened_runner\<lparr>rn_credentials := [(''a'', demo_credential)],
  rn_state := empty_file\<lparr>ps_Attempts := [(''a'', accepted_record demo_world ''/w'' demo_start)],
    ps_Operations := [(start_key demo_start, \<lparr>op_Fingerprint = start_fingerprint demo_world demo_start, op_AttemptID = ''a''\<rparr>)]\<rparr>\<rparr>"
  unfolding accepted_def enter_attempt_def nothing_purged Let_def snd_conv
  by (simp add: demo_fields record_operation_def opened_runner_def empty_file_def mput_def)

lemma sync_none: "fst (sync_all (\<lambda>_. False) ws)"
  by (induction ws) (auto split: prod.split)

lemma close_none: "fst (close_idle (\<lambda>_. False) p ids st)"
proof (induction ids arbitrary: st)
  case (Cons i ids)
  have "fst (closeJournal False i st) = None" by (simp add: closeJournal_def split: option.split)
  then show ?case using Cons by (cases "closeJournal False i st") simp
qed simp

lemma demo_saves: "\<exists>t. persist demo_world k s = (None, t)"
proof -
  obtain st where sync: "syncJournals (\<lambda>_. False) (rn_store (fst s)) = (True, st)"
    using sync_none [of "ss_journals (rn_store (fst s))"]
    by (cases "sync_all (\<lambda>_. False) (ss_journals (rn_store (fst s)))") (auto simp: syncJournals_def)
  obtain st' where "close_idle (\<lambda>_. False) (rn_state (fst s)) (map fst (ss_journals st)) st = (True, st')"
    using close_none [of "rn_state (fst s)" "map fst (ss_journals st)" st] by (metis eq_fst_iff prod.exhaust)
  then show ?thesis using sync by (auto simp: persist_def persistLocked_def save_def demo_worlds Let_def)
qed

lemma demo_launches:
  assumes "mget (rn_credentials (fst s)) i = Some c" "\<not> credential_empty c" "mget (attempts (fst s)) i = Some a"
    and "sreq_InputFiles (ar_Start a) = []" "mget (rn_running (fst s)) i = None"
  shows "\<exists>x t. startExecutionLocked demo_world k i instructions model s = (Inr x, t)"
  using assms demo_saves [of k "(begin_execution demo_world i a (fst s), snd s)"]
  by (auto simp: startExecutionLocked_def Let_def launchInputFiles_def)

lemma accepted_appends: "\<exists>r. append_event demo_world 0 ''a'' EventAccepted ''attempt accepted'' [] accepted = (None, r)"
  by (simp add: append_event_def appendEventLocked_def accepted_eq accepted_record_def opened_defs hot_def mget_def mgetd_def next_event_def appendEvent_def
      demo_worlds boundedMessage_def maxMessageBytes_def open_writer_def closeJournal_def control_event_def maxJournalBytes_def
      maxTotalJournalBytes_def accountJournal_def write_event_def write_at_def mput_def mdel_def Let_def)

lemma opened_knows: "mget (attempts opened_runner) i = None" "mget (ps_Operations (rn_state opened_runner)) k = None" "\<not> rn_closed opened_runner"
  by (simp_all add: opened_defs mget_def)

lemma demo_started: "\<exists>rc. Start demo_world demo_start opened = (Inr rc, started)"
proof -
  obtain r1 where app: "append_event demo_world 0 ''a'' EventAccepted ''attempt accepted'' [] accepted = (None, r1)" using accepted_appends by blast
  obtain t where pers: "persist demo_world 0 (r1, empty_file) = (None, t)" using demo_saves by blast
  note qa = append_quiet [OF app] and qp = persist_quiet [OF pers]
  obtain a where a: "mget (attempts r1) ''a'' = Some a" "core a = core (accepted_record demo_world ''/w'' demo_start)"
    by (rule same_attemptsD [OF qa(13), of "''a''"]) (simp_all add: accepted_eq mget_def)
  have "sreq_InputFiles (ar_Start a) = []" using core_fields(1) [OF a(2)] demo_fields by (simp add: accepted_record_def stripped_def)
  moreover have "mget (rn_credentials (fst t)) ''a'' = Some demo_credential" "mget (rn_running (fst t)) ''a'' = None"
    using qa qp by (simp_all add: accepted_eq mget_def opened_runner_def)
  moreover have "\<not> credential_empty demo_credential" by (simp add: credential_empty_def demo_credential_def)
  ultimately obtain x u where exec: "startExecutionLocked demo_world 1 ''a'' (sreq_Instructions demo_start) (sreq_Model demo_start) t = (Inr x, u)"
    using demo_launches [of t "''a''" demo_credential a] a(1) qp(9) by fastforce
  have idle: "mget (rn_running (fst t)) ''a'' = None" using qa qp by (simp add: accepted_eq mget_def opened_runner_def)
  obtain b where "mget (attempts (fst u)) ''a'' = Some b" by (rule launch_done [OF exec idle])
  then have "accept_start demo_world demo_credential ''/w'' demo_start opened = (Inr (ar_Receipt b), u)"
    unfolding accept_start_def Let_def demo_fields fst_conv accepted_def [symmetric] app
    by (simp add: pers exec [simplified] receiptForAttemptLocked_def receipt_of_def)
  moreover have "reserveResourcesLocked ''a'' [] opened_runner = (None, opened_runner)"
    by (simp add: reserveResourcesLocked_def put_reservations_def)
  ultimately have "new_start demo_world demo_credential demo_start opened = (Inr (ar_Receipt b), u)"
    unfolding new_start_def Let_def demo_fields by (simp add: demo_admitted demo_worlds)
  moreover have "checkEpochLocked opened_runner ''t'' ''a'' 1 = None"
    by (simp add: checkEpochLocked_def highest_epoch_def opened_defs Let_def)
  ultimately have "Start demo_world demo_start opened = (Inr (ar_Receipt b), u)"
    using demo_start_valid [of opened_runner] opened_knows by (simp add: Start_def Let_def demo_fields)
  then show ?thesis by (simp add: started_def)
qed

lemma started_facts: "\<exists>rc. acknowledged demo_world demo_start rc started"
proof -
  obtain rc where "Start demo_world demo_start opened = (Inr rc, started)" using demo_started by blast
  then have "new_start demo_world demo_credential demo_start opened = (Inr rc, started)"
    using demo_start_valid [of opened_runner] opened_knows by (auto simp: Start_def Let_def split: option.splits)
  from new_start_done [OF this] show ?thesis by (auto simp: opened_defs mget_def)
qed

theorem start_acknowledged_witness:
  "\<exists>rc. Start demo_world demo_start opened = (Inr rc, started) \<and> acknowledged demo_world demo_start rc started"
proof -
  obtain rc where rc: "Start demo_world demo_start opened = (Inr rc, started)" using demo_started by blast
  from start_acknowledged [OF opened_up this] show ?thesis using rc opened_knows by simp
qed

theorem start_again_witness:
  "\<exists>rc. Start demo_world demo_start opened = (Inr rc, started) \<and> Start full_world demo_start started = (Inr rc, started)"
proof -
  obtain rc where rc: "Start demo_world demo_start opened = (Inr rc, started)" using demo_started by blast
  have "w_lib full_world = w_lib demo_world" by (simp add: full_world_def)
  from start_again [OF opened_up rc this] show ?thesis using rc by blast
qed

abbreviation demo_history :: "(world \<times> operation) list" where
  "demo_history \<equiv> [demo_opening, (demo_world, DoStart demo_start)]"

lemma started_up: "after demo_history = Up started"
  using opened_up by (simp add: after_def demo_opening_def started_def)

lemma started_harness: "harnessed ''a'' started" "running ''a'' started"
proof -
  obtain rc where "acknowledged demo_world demo_start rc started" using started_facts by blast
  then show "harnessed ''a'' started" "running ''a'' started" by (simp_all add: acknowledged_def demo_fields)
qed

theorem one_harness_witness: "{i. harnessed i started} = {''a''}"
  using one_harness [OF started_up _ started_harness(1)] started_harness(1) by blast

theorem runner_invariant_witness:
  "running ''a'' started \<and> (\<exists>a. mget (attempts (fst started)) ''a'' = Some a \<and> \<not> IsTerminal (phase a))"
  using runner_invariant [OF started_up, of "''a''"] started_harness by blast

theorem operations_refine_life_witness: "life_steps 1 {''a''} (life_of opened) (life_of started)"
  using operations_refine_life [OF opened_up, of "DoStart demo_start" demo_world] opened_knows
  by (simp add: enters_def entering_def demo_fields started_def)

section \<open>A fence\<close>

definition demo_cancel :: CancelRequest where
  "demo_cancel = \<lparr>creq_ProtocolVersion = ProtocolVersion, creq_RequestID = ''q'', creq_TaskID = ''t'', creq_AttemptID = ''a'', creq_AttemptEpoch = 1\<rparr>"

definition fenced :: live where "fenced = snd (Cancel demo_world demo_cancel opened)"

lemma demo_fence: "\<exists>rc. Cancel demo_world demo_cancel opened = (Inr rc, fenced)"
proof -
  have "\<exists>rc. fst (cancelUnseenLocked demo_world demo_cancel k fp opened) = Inr rc" for k fp
    by (simp add: cancelUnseenLocked_def checkEpochLocked_def highest_epoch_def demo_cancel_def opened_defs save_def syncJournals_def
        demo_worlds Let_def)
  then have "\<exists>rc. fst (Cancel demo_world demo_cancel opened) = Inr rc"
    using opened_knows demo_request(1) by (simp add: Cancel_def Let_def demo_cancel_def)
  then show ?thesis by (auto simp: fenced_def prod_eq_iff)
qed

lemma fenced_knows: "mget (attempts (fst fenced)) ''a'' \<noteq> None"
proof -
  have "mget (attempts (fst (snd (cancelUnseenLocked demo_world demo_cancel k fp opened)))) ''a'' \<noteq> None" for k fp
    by (simp add: cancelUnseenLocked_def checkEpochLocked_def highest_epoch_def demo_cancel_def opened_defs save_def syncJournals_def
        demo_worlds Let_def)
  then show ?thesis using opened_knows demo_request(1) by (simp add: fenced_def Cancel_def Let_def demo_cancel_def)
qed

lemma fenced_start: "mget (ps_Operations (rn_state (fst fenced))) (start_key demo_start) = None"
proof -
  have "mget (ps_Operations (rn_state (fst (snd (cancelUnseenLocked demo_world demo_cancel (cancel_key demo_cancel) fp opened))))) (start_key demo_start) = None" for fp
    by (simp add: cancelUnseenLocked_def checkEpochLocked_def highest_epoch_def demo_cancel_def opened_defs save_def syncJournals_def
        demo_worlds Let_def cancel_key_def start_key_def operationKey_def mget_def mput_def)
  then show ?thesis using opened_knows demo_request(1) by (simp add: fenced_def Cancel_def Let_def demo_cancel_def)
qed

lemma start_of_known:
  assumes "mget (attempts (fst s)) (sreq_AttemptID req) \<noteq> None" "mget (ps_Operations (rn_state (fst s))) (start_key req) = None"
  shows "snd (Start w req s) = s"
  using assms by (auto simp: Start_def Let_def split: sum.split option.split)

theorem cancelled_before_start_witness:
  "\<exists>t. onward [(demo_world, DoStart demo_start)] (Up fenced) = Up t \<and> \<not> running ''a'' t \<and> \<not> harnessed ''a'' t \<and>
     (\<exists>a. mget (attempts (fst t)) ''a'' = Some a \<and> phase a = PhaseCancelled)"
proof -
  obtain rc where rc: "Cancel demo_world demo_cancel opened = (Inr rc, fenced)" using demo_fence by blast
  have fields: "creq_AttemptID demo_cancel = ''a''" by (simp add: demo_cancel_def)
  have "knows ''a'' (step demo_world (DoStart demo_start) (Up fenced))"
    using fenced_knows start_of_known [of fenced demo_start demo_world] fenced_start by (simp add: demo_fields)
  then have "\<forall>k \<le> length [(demo_world, DoStart demo_start)]. knows ''a'' (onward (take k [(demo_world, DoStart demo_start)]) (Up fenced))"
    using fenced_knows by (auto simp: le_Suc_eq)
  from cancelled_before_start [OF opened_up rc _ _ this [folded fields]] show ?thesis
    using opened_knows by (simp add: fields)
qed

section \<open>Refusals\<close>

definition demo_record :: "string \<Rightarrow> attemptRecord" where
  "demo_record p = (accepted_record demo_world ''/w'' demo_start)\<lparr>ar_Receipt :=
     (accepted_receipt demo_world ''/w'' demo_start)\<lparr>rc_Phase := p, rc_SessionID := ''s1''\<rparr>\<rparr>"

text \<open>A runner with one attempt in the phase, and what runs.\<close>

definition holding :: "string \<Rightarrow> bool gomap \<Rightarrow> live" where
  "holding p m = (opened_runner\<lparr>rn_running := m, rn_state := empty_file\<lparr>ps_Attempts := [(''a'', demo_record p)]\<rparr>\<rparr>, empty_file)"

lemmas holding_defs = holding_def demo_record_def accepted_record_def accepted_receipt_def opened_defs

lemma demo_record_fields: "rc_TaskID (ar_Receipt (demo_record p)) = ''t''" "rc_AttemptEpoch (ar_Receipt (demo_record p)) = 1"
  "phase (demo_record p) = p" "rc_SessionID (ar_Receipt (demo_record p)) = ''s1''" "rc_Clarification (ar_Receipt (demo_record p)) = None"
  "rc_Permission (ar_Receipt (demo_record p)) = None" "ar_Resources (demo_record p) = []" "ar_EventJournalBytes (demo_record p) = 0"
  "ar_Start (demo_record p) = stripped demo_start" "rc_LastError (ar_Receipt (demo_record p)) = None"
  by (simp_all add: demo_record_def accepted_record_def accepted_receipt_def no_receipt_def demo_fields)

lemma holding_frame: "rn_cfg (fst (holding p m)) = demo_cfg" "rn_store (fst (holding p m)) = newStateStore ''/s'' []"
  "ps_Events (rn_state (fst (holding p m))) = []" "rn_closed (fst (holding p m)) = False" "rn_running (fst (holding p m)) = m"
  "rn_permissions (fst (holding p m)) = []" "mget (attempts (fst (holding p m))) ''a'' = Some (demo_record p)"
  "ps_Operations (rn_state (fst (holding p m))) = []" "snd (holding p m) = empty_file"
  by (simp_all add: holding_def opened_runner_def empty_file_def mget_def)

lemma mget_none: "mget [] k = None"
  by (simp add: mget_def)

lemma record_frame: "rn_store (record_operation k fp i r) = rn_store r" "ps_Events (rn_state (record_operation k fp i r)) = ps_Events (rn_state r)"
  by (simp_all add: record_operation_def)

theorem stale_start_refused_witness:
  "\<exists>rc. Start demo_world (demo_start\<lparr>sreq_AttemptID := ''b''\<rparr>) (holding PhaseRunning []) =
     (Inl (protocolError ErrorStaleAttempt False ''attempt epoch is obsolete'' (Some rc)), holding PhaseRunning []) \<and> rc_AttemptEpoch rc \<ge> 1"
proof -
  let ?req = "demo_start\<lparr>sreq_AttemptID := ''b''\<rparr>" and ?s = "holding PhaseRunning []"
  have "validateMutationIdentity ''t'' ''b'' 1 ''q'' = None" "attempt_shape_error demo_lib ?req = None"
    "session_instructions_error ?req = None" "approved_input_error demo_lib ''p'' = None" "manifest_error demo_lib ?req = None"
    by code_simp+
  then have "start_credential demo_world (fst ?s) ?req = Inr demo_credential"
    using demo_identity
    by (simp add: start_credential_def validateProtocolVersion_def effort_error_def validateStartRequest_def validateCommitMessage_def
        demo_world_def demo_start_def no_request_def Let_def)
  moreover have "\<not> rn_closed (fst ?s)" "mget (ps_Operations (rn_state (fst ?s))) (start_key ?req) = None"
    "mget (attempts (fst ?s)) ''a'' = Some (demo_record PhaseRunning)"
    by (simp_all add: holding_frame mget_none)
  ultimately show ?thesis
    using stale_start_refused [of demo_world ?s ?req demo_credential "''a''" "demo_record PhaseRunning"]
    by (auto simp: demo_fields demo_record_fields)
qed

section \<open>Retries\<close>

lemma full_world: "w_append full_world = (\<lambda>_. OpenFault)" "w_lib full_world = demo_lib" "w_enc full_world = (\<lambda>e. Some [CHR ''e'', CHR 0x0A])"
  "w_now full_world = 5" "w_inspect full_world = None"
  by (simp_all add: full_world_def demo_world_def)

lemma full_append:
  assumes "mget (attempts r) i = Some a" "ar_EventJournalBytes a = 0" "hot r i = []" "cfg_MaxEventBytes (rn_cfg r) = 65536" "ss_journals (rn_store r) = []"
  shows "\<exists>e r'. append_event full_world k i t message [] r = (Some e, r')"
  using assms by (simp add: append_event_def appendEventLocked_def next_event_def appendEvent_def full_world open_writer_def closeJournal_def
      maxJournalBytes_def mget_def Let_def)

theorem cancel_retry_lost_witness:
  "\<exists>rc s'. snd (Cancel full_world demo_cancel (holding PhaseRunning [(''a'', False)])) = s' \<and>
     Cancel demo_world demo_cancel s' = (Inr rc, s') \<and> rc_Phase rc = PhaseCancelling \<and> mget (rn_running (fst s')) ''a'' = Some False"
proof -
  let ?s = "holding PhaseRunning [(''a'', False)]"
  have f: "creq_AttemptID demo_cancel = ''a''" "creq_TaskID demo_cancel = ''t''" "creq_AttemptEpoch demo_cancel = 1"
    "creq_RequestID demo_cancel = ''q''" "creq_ProtocolVersion demo_cancel = ProtocolVersion"
    by (simp_all add: demo_cancel_def)
  have s: "mget (attempts (fst ?s)) ''a'' = Some (demo_record PhaseRunning)" "mget (rn_running (fst ?s)) ''a'' = Some False"
    "mget (ps_Operations (rn_state (fst ?s))) k = None" "\<not> rn_closed (fst ?s)" for k
    by (simp_all add: holding_frame mget_none) (simp add: mget_def)
  have mine: "attemptForMutationLocked (fst ?s) ''t'' ''a'' 1 = Inr (demo_record PhaseRunning)"
    by (simp add: attemptForMutationLocked_def s demo_record_fields)
  let ?v = "set_receipt ''a'' (cancel_receipt full_world) (set_attempt ''a'' (\<lambda>a. a\<lparr>ar_CancelPending := True\<rparr>)
      (record_operation (cancel_key demo_cancel) (fingerprint (rl_MarshalCancel (w_lib full_world) demo_cancel)) ''a'' (fst ?s)))"
  obtain e r where app: "append_event full_world 0 ''a'' EventProgress ''cancellation requested'' [] ?v = (Some e, r)"
  proof -
    have "\<exists>e r. append_event full_world 0 ''a'' EventProgress ''cancellation requested'' [] ?v = (Some e, r)"
      by (rule full_append [where a = "(demo_record PhaseRunning)\<lparr>ar_CancelPending := True, ar_Receipt := cancel_receipt full_world (ar_Receipt (demo_record PhaseRunning))\<rparr>"])
        (simp_all add: s hot_def mgetd_def mget_none holding_frame record_frame demo_record_fields demo_cfg_def newStateStore_def)
    then show thesis using that by blast
  qed
  have "Cancel full_world demo_cancel ?s = (Inl (Plain e), (r, snd ?s))"
    using s demo_request(1) mine
    by (simp add: Cancel_def cancel_known_def Let_def f app full_world(2) [symmetric] demo_record_fields)
  moreover have "\<not> IsTerminal (phase (demo_record PhaseRunning))" by (simp add: demo_record_fields IsTerminal_def)
  ultimately show ?thesis
    using cancel_retry_lost [of full_world demo_cancel ?s "Plain e" "(r, snd ?s)" "demo_record PhaseRunning" demo_world] s mine demo_request(1)
    by (simp add: f full_world demo_worlds)
qed

definition demo_resume :: ResumeRequest where
  "demo_resume = \<lparr>rreq_ProtocolVersion = ProtocolVersion, rreq_RequestID = ''q'', rreq_TaskID = ''t'', rreq_AttemptID = ''a'', rreq_AttemptEpoch = 1,
     rreq_SessionID = ''s1'', rreq_ClarificationID = [], rreq_ApprovedInput = [], rreq_Resolution = ''yes'', rreq_Instructions = [],
     rreq_HarnessCredential = Some demo_credential, rreq_PermissionID = [], rreq_PermissionDecision = []\<rparr>"

theorem resume_retry_lost_witness:
  "\<exists>rc s'. snd (Resume full_world demo_resume (holding PhaseNeedsInput [])) = s' \<and>
     Resume demo_world demo_resume s' = (Inr rc, s') \<and> rc_Phase rc = PhaseAccepted \<and> \<not> running ''a'' s' \<and> \<not> harnessed ''a'' s'"
proof -
  let ?s = "holding PhaseNeedsInput []" and ?a = "demo_record PhaseNeedsInput"
  let ?fp = "resume_fingerprint full_world demo_resume"
  have f: "rreq_AttemptID demo_resume = ''a''" "rreq_TaskID demo_resume = ''t''" "rreq_AttemptEpoch demo_resume = 1"
    "rreq_RequestID demo_resume = ''q''" "rreq_ProtocolVersion demo_resume = ProtocolVersion"
    "rreq_HarnessCredential demo_resume = Some demo_credential"
    by (simp_all add: demo_resume_def)
  have s: "mget (attempts (fst ?s)) ''a'' = Some ?a" "rn_running (fst ?s) = []" "rn_permissions (fst ?s) = []"
    "mget (ps_Operations (rn_state (fst ?s))) k = None" "\<not> rn_closed (fst ?s)" for k
    by (simp_all add: holding_frame mget_none)
  have mine: "attemptForMutationLocked (fst ?s) ''t'' ''a'' 1 = Inr ?a"
    by (simp add: attemptForMutationLocked_def s demo_record_fields)
  have "blank ''yes'' = False" by code_simp
  then have ok: "resume_refusal (ar_Receipt ?a) demo_resume = None" "relaunch_refusal full_world ?a demo_resume = None"
    by (simp_all add: resume_refusal_def relaunch_refusal_def demo_record_fields demo_resume_def full_world Let_def)
  have perm: "resumePermissionLocked full_world ?a demo_resume k ?fp ?s = (None, ?s)" for k
    by (simp add: resumePermissionLocked_def demo_record_fields demo_resume_def Let_def)
  have check: "checkStartRequirementsLocked (fst ?s) (stripped demo_start) = None"
    by (simp add: checkStartRequirementsLocked_def harness_error_def activeCountLocked_def active_def holding_def opened_runner_def demo_cfg_def
        demo_caps_def stripped_def demo_start_def no_request_def demo_record_fields mget_none Let_def)
  have reserve: "reserveResourcesLocked ''a'' [] (fst ?s) = (None, fst ?s)"
    by (simp add: reserveResourcesLocked_def put_reservations_def)
  let ?w = "record_operation (resume_key demo_resume) ?fp ''a'' (fst ?s)"
  let ?v = "set_receipt ''a'' (resume_receipt full_world) (set_attempt ''a'' (\<lambda>a. a\<lparr>ar_CancelPending := False\<rparr>)
      (?w\<lparr>rn_credentials := mput ''a'' demo_credential (rn_credentials ?w)\<rparr>))"
  obtain e r where app: "append_event full_world 0 ''a'' EventAccepted ''resume accepted'' [] ?v = (Some e, r)"
  proof -
    have "\<exists>e r. append_event full_world 0 ''a'' EventAccepted ''resume accepted'' [] ?v = (Some e, r)"
      by (rule full_append [where a = "?a\<lparr>ar_CancelPending := False, ar_Receipt := resume_receipt full_world (ar_Receipt ?a)\<rparr>"])
        (simp_all add: s hot_def mgetd_def mget_none holding_frame record_frame demo_record_fields demo_cfg_def newStateStore_def)
    then show thesis using that by blast
  qed
  have "relaunch full_world demo_credential ?fp ?a demo_resume ?s = (Inl (Plain e), (r, snd ?s))"
    unfolding relaunch_def Let_def f demo_record_fields check option.case reserve by (simp add: app)
  then have "resume_known full_world demo_credential ?fp ?a demo_resume ?s = (Inl (Plain e), (r, snd ?s))"
    using ok perm by (simp add: resume_known_def)
  then have res: "Resume full_world demo_resume ?s = (Inl (Plain e), (r, snd ?s))"
    using s demo_request(1) mine demo_identity by (simp add: Resume_def Let_def f full_world)
  have "ps_Operations (rn_state r) = ps_Operations (rn_state ?v)" by (rule append_quiet(9) [OF app])
  then have "mget (ps_Operations (rn_state r)) (resume_key demo_resume) \<noteq> None" by (simp add: record_operation_def)
  then show ?thesis
    using resume_retry_lost [of full_world demo_resume ?s "Plain e" "(r, snd ?s)" demo_world] res s
    by (simp add: f full_world demo_worlds running_def harnessed_def mget_def)
qed

end
