(* ===== verification/Spec2Isabelle.thy ===== *)
theory Spec2Isabelle
  imports Witnesses RunnerWitnesses StudioWitnesses AttemptWitnesses
begin

text \<open>
  \<^bold>\<open>A model of the agents provider's store\<close> (\<open>src/providers/agents/store\<close>), \<^bold>\<open>of the retry queue
  and the trigger filter beside it, of App Studio's store\<close> (\<open>src/providers/app-studio/store\<close>), \<^bold>\<open>of the
  runner's attempts, event log, retention and configuration, and of the hub's rate limiters and workspace paths.\<close>

  The agents provider keeps conversations, durable runs, harness sessions, inbox items, uploads,
  captured artifacts, webhook deliveries and usage of every tenant in one store. Its in-memory
  implementation (\<open>memory.go\<close>, \<open>attachments_memory.go\<close>, \<open>session_titles.go\<close>,
  \<open>session_model.go\<close>, \<open>run_progress.go\<close>) is the executable definition of the interface
  \<open>Store\<close> (\<open>store.go\<close>); the HTTP handlers and the run dispatcher only reach the rows through
  it. All of its operations are modelled here. An unattended run that a busy runner refuses goes back
  to the store's queue (\<open>api/retry.go\<close>) and is claimed from it again; a webhook delivery becomes a run
  when the filter of a Trigger lets it through (\<open>internal/triggerfilter\<close>).

  App Studio keeps the assistant's work on a project: threads with their turns and an append-only event
  log each, messages, runs with their events, the conversation, attachments, thumbnails and the claims
  by which replicas divide the work. Its in-memory store (\<open>memory.go\<close>, \<open>thread_memory.go\<close>, \<open>claims.go\<close>,
  \<open>attachment.go\<close>, \<open>thread_notify.go\<close>, \<open>project_thumbnail.go\<close>) is modelled whole; every table is a map
  from a scope, the four coordinates of a project, to the rows of the project.

  The runner (\<open>src/pkg/runner\<close>) executes attempts on a machine of the tenant. A coordinator starts an attempt,
  looks at it, cancels it and resumes it (\<open>runner.go\<close>, \<open>cancel_unseen.go\<close>) with requests the runner checks
  (\<open>protocol.go\<close>, \<open>inputs.go\<close>, \<open>git_fetch.go\<close>) and that it may send again; the harness of the attempt emits events,
  asks for permissions (\<open>permission.go\<close>) and returns a result. The runner keeps an event log
  per attempt: a hot cache in memory and in the state file, and a journal of which the state file
  commits a prefix (\<open>event_journal.go\<close>, \<open>store.go\<close>, \<open>runner.go\<close>); clients read it by cursor
  (\<open>http.go\<close>), and finished attempts are forgotten (\<open>retention.go\<close>).

  The hub (\<open>src/pkg/server/proxy\<close>) limits its endpoints by client address with token buckets kept in a
  bounded least-recently-used map, and tells tenants apart by workspace path (\<open>src/pkg/kcppaths\<close>).

  \<^bold>\<open>Theories.\<close>
  \<^item> \<open>Prelude\<close>, \<open>GoStrings\<close>, \<open>Interfaces\<close>: Go maps as association lists, times as
    nanoseconds since the zero time, \<open>int64\<close> wrap-around, the functions of \<open>strings\<close> and
    \<open>unicode/utf8\<close> the store calls, and the interfaces: a keyed table, a paged listing, a
    generation fence and a claim that closes what it claims, each a locale that the component which provides it
    interprets.
  \<^item> \<open>StoreTypes\<close>, \<open>RunTypes\<close>, \<open>SessionTypes\<close>, \<open>SideTypes\<close>: one record per Go struct,
    the sentinel errors, and the checks and merges that are functions of rows alone.
  \<^item> \<open>StoreState\<close>: the record \<open>MemoryStore\<close> with its tables and the string keys.
  \<^item> \<open>Migration\<close>: scope resolution (\<open>normalizeScope\<close>) and \<open>migrateUnmappedScope\<close>, one
    definition per loop; \<open>MigrationFacts\<close>, \<open>Tenancy\<close>: what the migration does to a table.
  \<^item> \<open>Transcript\<close>, \<open>Harness\<close>, \<open>Runs\<close>, \<open>Records\<close>, \<open>Webhooks\<close>, \<open>Artifacts\<close>,
    \<open>Uploads\<close>, \<open>Teardown\<close>: the operations, one definition per method of the store;
    \<open>Cursors\<close>, \<open>UploadPolicy\<close>, \<open>Presentation\<close>, \<open>Sha256\<close>: what they call.
  \<^item> \<open>Isolation\<close> with the frame in \<open>MigrationFacts\<close>: every operation changes rows of one tenant only, except
    \<open>DeleteRunData\<close>; \<open>StoreMachine\<close>: requests as steps, the reachable
    stores and the invariants they keep.
  \<^item> \<open>IsolationFacts\<close>, \<open>RunFacts\<close>, \<open>SessionFacts\<close>, \<open>TranscriptFacts\<close>, \<open>HarnessFacts\<close>,
    \<open>RecordFacts\<close>, \<open>UploadFacts\<close>, \<open>ArtifactFacts\<close>: the properties; \<open>Divergences\<close>: where
    the code does something other than it means to; \<open>Witnesses\<close>: each property
    with a hypothesis applied at a concrete store.
  \<^item> \<open>Retry\<close>: backoff, handing a run back, waking the queue; \<open>TriggerFilter\<close> with \<open>GoPaths\<close>
    (\<open>strings.Split\<close>, \<open>filepath.Clean\<close>, \<open>filepath.Join\<close>, \<open>sort.Search\<close>).
  \<^item> \<open>StudioTypes\<close>: App Studio's rows and the functions that prepare and check them; \<open>StudioStore\<close>: its
    state, the tables under a scope and the broadcaster that wakes streams; \<open>StudioThreads\<close>, \<open>StudioRuns\<close>,
    \<open>StudioAttachments\<close>, \<open>StudioClaims\<close>, \<open>StudioRetention\<close>: one definition per method of the store.
  \<^item> \<open>StudioThreadFacts\<close>, \<open>StudioRunFacts\<close>, \<open>StudioRetentionFacts\<close>,
    \<open>StudioSweep\<close>: the part of the state each invariant reads, and what every operation
    leaves of it; \<open>StudioMachine\<close>: requests as steps and the invariants of the stores
    they reach. \<open>StudioFacts\<close>, \<open>StudioWriters\<close>, \<open>StudioRevisions\<close>, \<open>StudioLifetimes\<close>: the
    properties, of readers of a thread, of writers that compete, of revisions and numbers, of deletion,
    retention and claims; \<open>StudioWitnesses\<close>: edge cases and sample stores.
  \<^item> \<open>EventJournal\<close>, \<open>RunnerLog\<close>: the operations on journals, state file and cache, with the failure
    of a system call as an argument; \<open>JournalFacts\<close>, \<open>LogFacts\<close>: what each keeps of the journal and
    the log; \<open>LogMachine\<close>: the runs of a runner, process crashes included, and the log a client can follow;
    \<open>PowerLoss\<close>: runs with power losses, of which only the synced bytes of a journal come back, and what a
    reader sees after one; a failing write that drops events not synced yet is left out of these runs and shown to lose them;
    \<open>Retention\<close>: which attempts a pass takes and what it leaves.
  \<^item> \<open>RunnerProtocol\<close>: the wire types and the library of the runner; \<open>RunnerRequests\<close>: the checks of
    a manifest and of a request; \<open>RunnerConfig\<close>: defaults and refusals of a configuration. \<open>RunnerAttempts\<close>:
    the world an operation runs in, admission and resources, work clocks, the launch of a harness,
    the end of an attempt, cleanup; \<open>RunnerControl\<close>, \<open>RunnerExecution\<close>: permission prompts, the
    operations of a coordinator, and those of an execution with the opening and closing of the runner.
  \<^item> \<open>RunnerLife\<close>: an abstract machine of attempt lives (task, epoch, phase, harness, execution, state file) and its
    invariant; \<open>RunnerRefines\<close>, \<open>RunnerCommands\<close>: every operation is a sequence of its steps.
    \<open>RunnerFacts\<close>: operations, crashes and new processes in any order, what every reachable runner has and what a start or a cancellation promises; \<open>RunnerAnswers\<close>:
    verdicts, stale starts, and where a retry or a credential is not treated as the code means to;
    \<open>InputFacts\<close>: which manifests are accepted; \<open>AttemptWitnesses\<close>: a sample runner.
  \<^item> \<open>BoundedKeys\<close>, \<open>RateLimit\<close>: the contract of a cache ordered by use, the map that
    provides it and refines a plain list, and the limiter against one bucket per client;
    \<open>Paths\<close>: building and splitting workspace paths.
  \<^item> \<open>RunnerWitnesses\<close>: these applied at concrete inputs, and where retention and the filter do
    something other than they mean to.

  \<^bold>\<open>How state and operations correspond.\<close> An operation takes the store and returns its result
  with the store it leaves; errors are values of \<open>store_error\<close> on the left of a sum, the
  sentinel errors of the code as constructors and all others as \<open>Errorf\<close>. The mutex of the
  store makes an operation one or two critical sections: it resolves the scope in one
  (\<open>scoped\<close>) and, when it writes, resolves it again in the next (\<open>locked\<close>). A scope is
  well-formed when no coordinate contains the key separator (\<open>good_scope\<close>); the UUIDs the
  hub hands out are. \<open>time.Now\<close> is an argument of the operations that read the clock, maps are
  iterated in list order (a list order is one of the orders Go may take), copies made to protect a caller's buffer are the identity, and a page
  cursor is what its base64 and JSON layers hold.

  In App Studio's store an operation first validates its scope (\<open>in_scope\<close>) and is one critical section;
  errors are values of \<open>studio_error\<close>, a panic on a nil map is \<open>NilMapPanic\<close>. Pairs of a thread and its log
  are read through \<open>thread_row\<close>, \<open>thread_log\<close>, \<open>turn_log\<close>, \<open>turn_index\<close>, \<open>turn_starts\<close> and \<open>turns_of\<close>, and
  a theorem about later stores says with a relation (\<open>later\<close>, \<open>run_later\<close>, \<open>conv_later\<close>, \<open>unreleased\<close>)
  which requests may come between. In the agents store it is \<open>request_step\<close>: one request
  of \<open>StoreMachine\<close> under a well-formed scope, of the kinds its predicate allows.

  \<^bold>\<open>Bounds.\<close> Every definition is total: loops are structural recursions over the rows or have a
  measure, so no fuel is used (\<open>follow\<close> and \<open>follow_thread\<close>, clients that ask again, take a number of requests, and as
  many as there are events are enough). Sizes and sums a caller supplies wrap at 64 bits (\<open>i64\<close>); the counters the store
  moves by one are unbounded. Walking a paged listing of \<open>n\<close> rows ends after at most \<open>n + 1\<close>
  pages.

  The runner's state is the record \<open>Runner\<close> ; its operations take the runner and its
  last state file and return both (\<open>live\<close>), in a \<open>world\<close> that says what the clock, the failing system calls and the work on
  files and repositories answer. A theorem about any world covers every failure of a write. The disk is a
  map from paths to bytes, what a process crash leaves beyond the committed length and a power loss beyond
  the synced bytes is arbitrary, and the JSON
  encoder and decoder are arguments with the property \<open>codec_on\<close>: what was encoded decodes, up to the
  round trip, and leaves the rest. An element of the linked list of \<open>BoundedKeys\<close> is its address.

  \<^bold>\<open>Not modelled.\<close> The Postgres stores (SQL text), the encryption of stored rows, the spend counters, the HTTP APIs and App
  Studio's assistant loop, the dispatcher, the harness processes, warm environments (with the release of the runner's lock while one is prepared,
  \<open>environment.go\<close>, so a start is one atomic step), Git commands and live streams of the runner (file
  and repository work is an outcome in \<open>world\<close>), the other providers, the rest of the hub, the CLI and the portals. URL parsing,
  base64, the JSON encoder and the DNS label check are the fields of \<open>PresentationLib\<close> and \<open>RunnerLib\<close>,
  arguments of the definitions that call them.
\<close>

end
